(* ===== verification/Prelude.thy ===== *)
theory Prelude
  imports Main "HOL-Library.Word"
begin

unbundle bit_operations_syntax

text \<open>
  What the component theories share: byte strings, the exception-and-state
  computations that stand for Python methods (a raised exception keeps the
  mutations made before it), the big-endian integer fields of the module
  \<^verbatim>\<open>struct\<close>, UTF-8, and the few library facts on lists they use.
\<close>

section \<open>Types shared by the components\<close>

type_synonym byte = "8 word"
type_synonym bytes = "byte list"

text \<open>A Python string as the list of its code points.\<close>

type_synonym ustr = "nat list"

definition ustr_of :: "string \<Rightarrow> ustr" where
  "ustr_of s = map of_char s"

text \<open>
  A method on a mutable object: from the state to the exception or the
  result, and the state left behind in both cases.
\<close>

type_synonym ('s, 'e, 'a) st = "'s \<Rightarrow> ('e + 'a) \<times> 's"

named_theorems st_simps \<open>unfolding of the state-and-exception combinators\<close>
named_theorems codec_simps \<open>decoding of encoded fields\<close>

section \<open>State and exceptions\<close>

definition ret :: "'a \<Rightarrow> ('s, 'e, 'a) st" where
  [st_simps]: "ret x s = (Inr x, s)"

definition throw :: "'e \<Rightarrow> ('s, 'e, 'a) st" where
  [st_simps]: "throw e s = (Inl e, s)"

definition bnd :: "('s, 'e, 'a) st \<Rightarrow> ('a \<Rightarrow> ('s, 'e, 'b) st) \<Rightarrow> ('s, 'e, 'b) st" where
  "bnd m f s = (case m s of (Inl e, s') \<Rightarrow> (Inl e, s') | (Inr x, s') \<Rightarrow> f x s')"

text \<open>Sequencing for effect.\<close>

definition seq :: "('s, 'e, 'a) st \<Rightarrow> ('s, 'e, 'b) st \<Rightarrow> ('s, 'e, 'b) st" where
  [st_simps]: "seq m k = bnd m (\<lambda>_. k)"

definition gets :: "('s \<Rightarrow> 'a) \<Rightarrow> ('s, 'e, 'a) st" where
  [st_simps]: "gets f s = (Inr (f s), s)"

definition modify :: "('s \<Rightarrow> 's) \<Rightarrow> ('s, 'e, unit) st" where
  [st_simps]: "modify f s = (Inr (), f s)"

text \<open>A pure computation that may raise, inside a method.\<close>

definition lift_sum :: "'e + 'a \<Rightarrow> ('s, 'e, 'a) st" where
  [st_simps]: "lift_sum r s = (r, s)"

text \<open>\<^verbatim>\<open>if not b: raise e\<close>\<close>

definition require :: "bool \<Rightarrow> 'e \<Rightarrow> ('s, 'e, unit) st" where
  [st_simps]: "require b e s = (if b then (Inr (), s) else (Inl e, s))"

lemma bnd_Inr [st_simps]: "m s = (Inr x, s') \<Longrightarrow> bnd m f s = f x s'"
  by (simp add: bnd_def)

lemma bnd_Inl [st_simps]: "m s = (Inl e, s') \<Longrightarrow> bnd m f s = (Inl e, s')"
  by (simp add: bnd_def)

lemma bnd_cong [fundef_cong]:
  assumes "m s = m' s'" "\<And>x t. m' s' = (Inr x, t) \<Longrightarrow> f x t = g x t"
  shows "bnd m f s = bnd m' g s'"
  using assms by (auto simp: bnd_def split: prod.split sum.split)

lemma bnd_assoc: "bnd (bnd m f) g = bnd m (\<lambda>x. bnd (f x) g)"
  by (rule ext) (simp add: bnd_def split: prod.split sum.split)

lemma bnd_ret [simp]: "bnd (ret x) f = f x"
  by (rule ext) (simp add: bnd_def ret_def)

lemma bnd_ret_right [simp]: "bnd m ret = m"
  by (rule ext) (simp add: bnd_def ret_def split: prod.split sum.split)

lemma bnd_InrE:
  assumes "bnd m f s = (Inr y, t)"
  obtains x s' where "m s = (Inr x, s')" "f x s' = (Inr y, t)"
  using assms by (auto simp: bnd_def split: prod.splits sum.splits)

lemma bnd_InlE:
  assumes "bnd m f s = (Inl e, t)"
  obtains "m s = (Inl e, t)" | x s' where "m s = (Inr x, s')" "f x s' = (Inl e, t)"
  using assms by (auto simp: bnd_def split: prod.splits sum.splits)

text \<open>
  A property of the state that a method keeps whether it returns or raises;
  the rules compose it along the method's body.
\<close>

definition keeps :: "('s \<Rightarrow> bool) \<Rightarrow> ('s, 'e, 'a) st \<Rightarrow> bool" where
  "keeps P m \<longleftrightarrow> (\<forall>s. P s \<longrightarrow> P (snd (m s)))"

named_theorems keeps_intros \<open>closure rules of the predicate keeps\<close>

lemma keepsD: "keeps P m \<Longrightarrow> P s \<Longrightarrow> P (snd (m s))"
  by (simp add: keeps_def)

lemma keepsI: "(\<And>s. P s \<Longrightarrow> P (snd (m s))) \<Longrightarrow> keeps P m"
  by (simp add: keeps_def)

lemma keeps_ret [keeps_intros]: "keeps P (ret x)"
  by (simp add: keeps_def ret_def)

lemma keeps_throw [keeps_intros]: "keeps P (throw e)"
  by (simp add: keeps_def throw_def)

lemma keeps_gets [keeps_intros]: "keeps P (gets f)"
  by (simp add: keeps_def gets_def)

lemma keeps_lift_sum [keeps_intros]: "keeps P (lift_sum r)"
  by (simp add: keeps_def lift_sum_def)

lemma keeps_require [keeps_intros]: "keeps P (require b e)"
  by (simp add: keeps_def require_def)

lemma keeps_modify: "(\<And>s. P s \<Longrightarrow> P (f s)) \<Longrightarrow> keeps P (modify f)"
  by (simp add: keeps_def modify_def)

lemma keeps_bnd [keeps_intros]:
  assumes "keeps P m" "\<And>x. keeps P (f x)"
  shows "keeps P (bnd m f)"
proof (rule keepsI)
  fix s assume "P s"
  with assms(1) have "P (snd (m s))" by (rule keepsD)
  with assms(2) show "P (snd (bnd m f s))"
    by (auto simp: bnd_def keeps_def split: prod.split sum.split)
qed

lemma keeps_seq [keeps_intros]: "keeps P m \<Longrightarrow> keeps P k \<Longrightarrow> keeps P (seq m k)"
  by (simp add: seq_def keeps_bnd)

lemma keeps_if [keeps_intros]:
  "keeps P m \<Longrightarrow> keeps P k \<Longrightarrow> keeps P (if b then m else k)"
  by simp

lemma keeps_case_prod [keeps_intros]:
  "(\<And>a b. keeps P (f a b)) \<Longrightarrow> keeps P (case p of (a, b) \<Rightarrow> f a b)"
  by (cases p) simp

lemma keeps_case_option [keeps_intros]:
  "keeps P m \<Longrightarrow> (\<And>x. keeps P (f x)) \<Longrightarrow> keeps P (case r of None \<Rightarrow> m | Some x \<Rightarrow> f x)"
  by (cases r) simp_all

lemma keeps_Let [keeps_intros]: "(\<And>x. keeps P (f x)) \<Longrightarrow> keeps P (let x = v in f x)"
  by (simp add: Let_def)

lemma keeps_seq_mid:
  assumes "\<And>s. P s \<Longrightarrow> Q (snd (m s)) \<and> P (snd (m s))" "keeps Q k" "\<And>s. Q s \<Longrightarrow> P s"
  shows "keeps P (seq m k)"
proof (rule keepsI)
  fix s assume "P s"
  with assms(1) have "Q (snd (m s))" "P (snd (m s))" by auto
  with assms(2,3) show "P (snd (seq m k s))"
    by (auto simp: seq_def bnd_def keeps_def split: prod.split sum.split)
qed

text \<open>The same along one run, for loops: the rest only has to keep the property after \<open>m\<close>.\<close>

lemma bnd_keeps:
  assumes "keeps P m" "P s" "\<And>x s'. m s = (Inr x, s') \<Longrightarrow> P s' \<Longrightarrow> P (snd (f x s'))"
  shows "P (snd (bnd m f s))"
  using keepsD [OF assms(1,2)] assms(3) by (auto simp: bnd_def split: prod.split sum.split)

text \<open>An exception a method never raises.\<close>

definition avoids :: "'e \<Rightarrow> ('s, 'e, 'a) st \<Rightarrow> bool" where
  "avoids e m \<longleftrightarrow> (\<forall>s. fst (m s) \<noteq> Inl e)"

named_theorems avoids_intros \<open>closure rules of the predicate avoids\<close>

lemma avoidsD: "avoids e m \<Longrightarrow> m s = (Inl e', s') \<Longrightarrow> e' \<noteq> e"
  by (auto simp: avoids_def dest: spec [of _ s])

lemma avoids_basic [avoids_intros]:
  "avoids e (ret x)" "avoids e (gets f)" "avoids e (modify g)"
  by (simp_all add: avoids_def st_simps)

lemma avoids_throw [avoids_intros]: "e' \<noteq> e \<Longrightarrow> avoids e (throw e')"
  by (simp add: avoids_def throw_def)

lemma avoids_require [avoids_intros]: "e' \<noteq> e \<Longrightarrow> avoids e (require b e')"
  by (simp add: avoids_def require_def)

lemma avoids_lift_sum: "r \<noteq> Inl e \<Longrightarrow> avoids e (lift_sum r)"
  by (simp add: avoids_def lift_sum_def)

lemma avoids_bnd [avoids_intros]:
  "avoids e m \<Longrightarrow> (\<And>x. avoids e (f x)) \<Longrightarrow> avoids e (bnd m f)"
  by (auto simp: avoids_def bnd_def split: prod.split sum.split) (metis fst_conv)

lemma avoids_seq [avoids_intros]: "avoids e m \<Longrightarrow> avoids e k \<Longrightarrow> avoids e (seq m k)"
  by (simp add: seq_def avoids_bnd)

lemma avoids_if [avoids_intros]: "avoids e m \<Longrightarrow> avoids e k \<Longrightarrow> avoids e (if b then m else k)"
  by simp

lemma avoids_case_prod [avoids_intros]:
  "(\<And>a b. avoids e (f a b)) \<Longrightarrow> avoids e (case p of (a, b) \<Rightarrow> f a b)"
  by (cases p) simp


section \<open>Handlers and context managers\<close>

text \<open>\<^verbatim>\<open>try: m except: h\<close>\<close>

definition catch :: "('s, 'e, 'a) st \<Rightarrow> ('e \<Rightarrow> ('s, 'e, 'a) st) \<Rightarrow> ('s, 'e, 'a) st" where
  "catch m h s = (case m s of (Inl e, s') \<Rightarrow> h e s' | (Inr x, s') \<Rightarrow> (Inr x, s'))"

lemma catch_simps [st_simps]:
  "m s = (Inl e, s') \<Longrightarrow> catch m h s = h e s'" "m s = (Inr x, s') \<Longrightarrow> catch m h s = (Inr x, s')"
  by (simp_all add: catch_def)

lemma catch_InrE:
  assumes "catch m h s = (Inr y, t)"
  obtains "m s = (Inr y, t)" | e s' where "m s = (Inl e, s')" "h e s' = (Inr y, t)"
  using assms by (auto simp: catch_def split: prod.splits sum.splits)

lemma keeps_catch [keeps_intros]:
  assumes "keeps P m" "\<And>e. keeps P (h e)"
  shows "keeps P (catch m h)"
proof (rule keepsI)
  fix s assume "P s"
  with assms(1) have "P (snd (m s))" by (rule keepsD)
  with assms(2) show "P (snd (catch m h s))"
    by (auto simp: catch_def keeps_def split: prod.split sum.split)
qed

text \<open>\<^verbatim>\<open>with r: body\<close>: what is left at the end is left however the body ends.\<close>

definition with_block :: "('s \<Rightarrow> 's) \<Rightarrow> ('s \<Rightarrow> 's) \<Rightarrow> ('s, 'e, 'a) st \<Rightarrow> ('s, 'e, 'a) st" where
  "with_block enter leave body s = (case body (enter s) of (r, s') \<Rightarrow> (r, leave s'))"

lemma with_block_InrE:
  assumes "with_block enter leave body s = (Inr y, t)"
  obtains s' where "body (enter s) = (Inr y, s')" "t = leave s'"
  using assms by (auto simp: with_block_def split: prod.splits)

locale context_manager =
  fixes enter leave :: "'s \<Rightarrow> 's" and holds :: "'s \<Rightarrow> bool" and frame :: "('s \<Rightarrow> bool) \<Rightarrow> bool"
  assumes enter_holds: "holds (enter s)" and leave_holds: "\<not> holds (leave s)"
    and frame: "frame P \<Longrightarrow> P s \<Longrightarrow> P (enter s) \<and> P (leave s)"
begin

text \<open>
  The resource is not held after the block, and what the body keeps while it
  is held is kept by the block.
\<close>

lemma with_block_released: "\<not> holds (snd (with_block enter leave body s))"
  by (simp add: with_block_def leave_holds split: prod.split)

lemma with_block_keeps:
  assumes "frame P" "keeps (\<lambda>s. P s \<and> holds s) body"
  shows "keeps (\<lambda>s. P s \<and> \<not> holds s) (with_block enter leave body)"
proof (rule keepsI)
  fix s assume "P s \<and> \<not> holds s"
  then have "P (enter s) \<and> holds (enter s)" using frame [OF assms(1)] enter_holds by blast
  then have "P (snd (body (enter s)))" using assms(2) by (auto dest: keepsD)
  then show "P (snd (with_block enter leave body s)) \<and> \<not> holds (snd (with_block enter leave body s))"
    using frame [OF assms(1)] leave_holds by (auto simp: with_block_def split: prod.split)
qed

end

lemma avoids_catch [avoids_intros]:
  assumes "\<And>e'. avoids e (h e')"
  shows "avoids e (catch m h)"
  unfolding avoids_def
proof
  fix s
  obtain r s' where m: "m s = (r, s')" by fastforce
  with assms show "fst (catch m h s) \<noteq> Inl e" by (cases r) (simp_all add: catch_def avoids_def)
qed

section \<open>Pure computations that may raise, and loops\<close>

definition sbind :: "'e + 'a \<Rightarrow> ('a \<Rightarrow> 'e + 'b) \<Rightarrow> 'e + 'b" where
  "sbind r f = (case r of Inl e \<Rightarrow> Inl e | Inr x \<Rightarrow> f x)"

lemma sbind_simps [simp]: "sbind (Inl e) f = Inl e" "sbind (Inr x) f = f x"
  by (simp_all add: sbind_def)

lemma sbind_Inr_iff: "sbind r f = Inr y \<longleftrightarrow> (\<exists>x. r = Inr x \<and> f x = Inr y)"
  by (cases r) simp_all

text \<open>\<^verbatim>\<open>for x in xs: body(x)\<close>\<close>

primrec for_each :: "('a \<Rightarrow> ('s, 'e, unit) st) \<Rightarrow> 'a list \<Rightarrow> ('s, 'e, unit) st" where
  "for_each body [] = ret ()"
| "for_each body (x # xs) = seq (body x) (for_each body xs)"

primrec sfold :: "('a \<Rightarrow> 'b \<Rightarrow> 'e + 'b) \<Rightarrow> 'a list \<Rightarrow> 'b \<Rightarrow> 'e + 'b" where
  "sfold f [] b = Inr b"
| "sfold f (x # xs) b = sbind (f x b) (sfold f xs)"

lemma sfold_append: "sfold f (xs @ ys) b = sbind (sfold f xs b) (sfold f ys)"
  by (induction xs arbitrary: b) (simp_all add: sbind_def split: sum.split)

lemma keeps_for_each [keeps_intros]:
  "(\<And>x. keeps P (body x)) \<Longrightarrow> keeps P (for_each body xs)"
  by (induction xs) (auto intro: keeps_intros)

lemma for_each_append: "for_each body (xs @ ys) = seq (for_each body xs) (for_each body ys)"
  by (induction xs) (simp_all add: seq_def bnd_assoc)

lemma seq_Inr [simp]: "m s = (Inr x, s') \<Longrightarrow> seq m k s = k s'"
  by (simp add: seq_def bnd_def)

text \<open>\<^verbatim>\<open>[f(x) for x in xs]\<close>\<close>

primrec collect :: "('a \<Rightarrow> ('s, 'e, 'b) st) \<Rightarrow> 'a list \<Rightarrow> ('s, 'e, 'b list) st" where
  "collect f [] = ret []"
| "collect f (x # xs) = bnd (f x) (\<lambda>y. bnd (collect f xs) (\<lambda>ys. ret (y # ys)))"

lemma collect_InrE:
  assumes "collect f (x # xs) s = (Inr ys, t)"
  obtains y zs s' where "f x s = (Inr y, s')" "collect f xs s' = (Inr zs, t)" "ys = y # zs"
  using assms by (auto simp: ret_def elim!: bnd_InrE)

lemma keeps_collect [keeps_intros]: "(\<And>x. keeps P (f x)) \<Longrightarrow> keeps P (collect f xs)"
  by (induction xs) (auto intro: keeps_intros)

end
