(* ===== verification/Py_Text.thy ===== *)
theory Py_Text
  imports Prelude "HOL-Library.AList"
begin

text \<open>
  The string operations of Python that the command-line tools use, on text of
  ASCII characters: stripping, splitting, searching, case folding, and the
  conversion of strings to integers.
\<close>

section \<open>White space, case, splitting\<close>

definition str_space :: "char \<Rightarrow> bool" where
  "str_space c \<longleftrightarrow> (let n = of_char c :: nat in 9 \<le> n \<and> n \<le> 13 \<or> 28 \<le> n \<and> n \<le> 32)"

definition py_lstrip :: "string \<Rightarrow> string" where
  "py_lstrip s = dropWhile str_space s"

definition py_rstrip :: "string \<Rightarrow> string" where
  "py_rstrip s = rev (dropWhile str_space (rev s))"

definition py_strip :: "string \<Rightarrow> string" where
  "py_strip s = py_rstrip (py_lstrip s)"

text \<open>\<^verbatim>\<open>s.strip(chars)\<close>\<close>

definition py_strip_chars :: "char set \<Rightarrow> string \<Rightarrow> string" where
  "py_strip_chars cs t = rev (dropWhile (\<lambda>c. c \<in> cs) (rev (dropWhile (\<lambda>c. c \<in> cs) t)))"

definition py_lower_char :: "char \<Rightarrow> char" where
  "py_lower_char c = (let n = of_char c :: nat in if 65 \<le> n \<and> n \<le> 90 then char_of (n + 32) else c)"

definition py_lower :: "string \<Rightarrow> string" where
  "py_lower s = map py_lower_char s"

text \<open>\<^verbatim>\<open>s.find(c)\<close> for one character: its first position, or \<open>None\<close> for -1.\<close>

fun py_find :: "char \<Rightarrow> string \<Rightarrow> nat option" where
  "py_find c [] = None"
| "py_find c (d # s) = (if d = c then Some 0 else map_option Suc (py_find c s))"

text \<open>\<^verbatim>\<open>s.split(c)\<close>\<close>

fun py_split :: "char \<Rightarrow> string \<Rightarrow> string list" where
  "py_split c [] = [[]]"
| "py_split c (d # s) =
     (if d = c then [] # py_split c s
      else case py_split c s of [] \<Rightarrow> [[d]] | p # ps \<Rightarrow> (d # p) # ps)"

text \<open>\<^verbatim>\<open>s.split()\<close>\<close>

function words :: "string \<Rightarrow> string list" where
  "words s =
    (let t = dropWhile str_space s in
     if t = [] then [] else takeWhile (\<lambda>c. \<not> str_space c) t # words (dropWhile (\<lambda>c. \<not> str_space c) t))"
  by pat_completeness auto
termination
proof (relation "measure length", simp_all)
  fix s :: string
  assume "\<exists>x \<in> set s. \<not> str_space x"
  then obtain c t where t: "dropWhile str_space s = c # t" by (cases "dropWhile str_space s") auto
  then have "\<not> str_space c" by (metis hd_dropWhile list.distinct(1) list.sel(1))
  then have "length (dropWhile (\<lambda>c. \<not> str_space c) (c # t)) \<le> length t"
    by (simp add: length_dropWhile_le)
  moreover have "Suc (length t) \<le> length s" using t length_dropWhile_le [of str_space s] by simp
  ultimately show "length (dropWhile (\<lambda>c. \<not> str_space c) (dropWhile str_space s)) < length s"
    using t by simp
qed

declare words.simps [simp del]

text \<open>\<^verbatim>\<open>s.split(sep)\<close> for a separator of any length.\<close>

function py_split_str :: "string \<Rightarrow> string \<Rightarrow> string list" where
  "py_split_str sep s =
     (case s of
        [] \<Rightarrow> [[]]
      | c # t \<Rightarrow>
          if sep \<noteq> [] \<and> take (length sep) s = sep then [] # py_split_str sep (drop (length sep) s)
          else case py_split_str sep t of [] \<Rightarrow> [[c]] | p # ps \<Rightarrow> (c # p) # ps)"
  by pat_completeness auto
termination
  by (relation "measure (\<lambda>(sep, s). length s)") auto

declare py_split_str.simps [simp del]

text \<open>\<^verbatim>\<open>bytes.splitlines\<close>, which is also how a file in text mode is read by lines\<close>

fun splitlines :: "string \<Rightarrow> string list" where
  "splitlines [] = []"
| "splitlines (c # s) =
     (if c = CHR 0x0A then [] # splitlines s
      else if c = CHR 0x0D then [] # splitlines (if take 1 s = [CHR 0x0A] then drop 1 s else s)
      else case splitlines s of [] \<Rightarrow> [[c]] | l # ls \<Rightarrow> if s = [] then [[c]] else (c # l) # ls)"

text \<open>\<^verbatim>\<open>sep.join(lines)\<close>\<close>

fun py_join :: "string \<Rightarrow> string list \<Rightarrow> string" where
  "py_join sep [] = []"
| "py_join sep [l] = l"
| "py_join sep (l # ls) = l @ sep @ py_join sep ls"

text \<open>\<^verbatim>\<open>s.replace(old, new)\<close>\<close>

definition py_replace :: "string \<Rightarrow> string \<Rightarrow> string \<Rightarrow> string" where
  "py_replace old new s = py_join new (py_split_str old s)"

section \<open>Integers\<close>

text \<open>\<^verbatim>\<open>int\<close> strips less than \<^verbatim>\<open>str.strip\<close>.\<close>

definition int_space :: "char \<Rightarrow> bool" where
  "int_space c \<longleftrightarrow> (let n = of_char c :: nat in 9 \<le> n \<and> n \<le> 13 \<or> n = 32)"

definition py_digit :: "nat \<Rightarrow> char \<Rightarrow> nat option" where
  "py_digit base c =
    (let n = of_char c :: nat;
         d = (if 48 \<le> n \<and> n \<le> 57 then Some (n - 48)
              else if 97 \<le> n \<and> n \<le> 122 then Some (n - 87)
              else if 65 \<le> n \<and> n \<le> 90 then Some (n - 55)
              else None) in
     case d of None \<Rightarrow> None | Some v \<Rightarrow> if v < base then Some v else None)"

text \<open>The digits after the first, single underscores between digits allowed.\<close>

fun more_digits :: "nat \<Rightarrow> nat \<Rightarrow> string \<Rightarrow> nat option" where
  "more_digits base acc [] = Some acc"
| "more_digits base acc (c # s) =
     (case py_digit base c of
        Some d \<Rightarrow> more_digits base (acc * base + d) s
      | None \<Rightarrow>
          if c = CHR ''_'' \<and> s \<noteq> [] \<and> py_digit base (hd s) \<noteq> None then more_digits base acc s
          else None)"

definition digits_value :: "nat \<Rightarrow> string \<Rightarrow> nat option" where
  "digits_value base s =
     (case s of [] \<Rightarrow> None
      | c # s \<Rightarrow> (case py_digit base c of None \<Rightarrow> None | Some d \<Rightarrow> more_digits base d s))"

definition drop_hex_prefix :: "string \<Rightarrow> string" where
  "drop_hex_prefix s =
     (if take 2 s = ''0x'' \<or> take 2 s = ''0X''
      then (if take 1 (drop 2 s) = ''_'' then drop 3 s else drop 2 s)
      else s)"

text \<open>\<^verbatim>\<open>int(s, base)\<close> for the bases 10 and 16, \<open>None\<close> for \<^verbatim>\<open>ValueError\<close>.\<close>

definition py_int :: "nat \<Rightarrow> string \<Rightarrow> int option" where
  "py_int base s =
    (let s = rev (dropWhile int_space (rev (dropWhile int_space s)));
         neg = (take 1 s = ''-'');
         s = (if neg \<or> take 1 s = ''+'' then drop 1 s else s);
         s = (if base = 16 then drop_hex_prefix s else s) in
     map_option (\<lambda>n. if neg then - int n else int n) (digits_value base s))"

text \<open>\<^verbatim>\<open>str(n)\<close> of a natural number.\<close>

fun nat_str :: "nat \<Rightarrow> string" where
  "nat_str n = (if n < 10 then [char_of (48 + n)] else nat_str (n div 10) @ [char_of (48 + n mod 10)])"

declare nat_str.simps [simp del]

text \<open>\<^verbatim>\<open>"%d" % n\<close>\<close>

definition int_text :: "int \<Rightarrow> string" where
  "int_text n = (if n < 0 then CHR ''-'' # nat_str (nat (- n)) else nat_str (nat n))"

section \<open>Lemmas\<close>

lemma py_find_None: "py_find c s = None \<longleftrightarrow> c \<notin> set s"
  by (induction s) auto

lemma py_find_Some: "py_find c s = Some i \<longleftrightarrow> i < length s \<and> s ! i = c \<and> c \<notin> set (take i s)"
proof (induction s arbitrary: i)
  case (Cons d s)
  show ?case
  proof (cases i)
    case 0
    then show ?thesis by (cases "py_find c s") auto
  next
    case (Suc j)
    with Cons show ?thesis by auto
  qed
qed simp

lemma py_split_nonempty [simp]: "py_split c s \<noteq> []"
  by (induction s) (auto split: list.split)

lemma py_split_none: "c \<notin> set s \<Longrightarrow> py_split c s = [s]"
  by (induction s) (auto split: list.split)

lemma py_split_append: "c \<notin> set s \<Longrightarrow> py_split c (s @ c # t) = s # py_split c t"
  by (induction s) auto

lemma py_strip_inner:
  assumes "s = [] \<or> \<not> str_space (hd s)" "s = [] \<or> \<not> str_space (last s)"
  shows "py_strip s = s"
proof (cases "s = []")
  case False
  then have "dropWhile str_space s = s" using assms(1) by (cases s) auto
  moreover have "dropWhile str_space (rev s) = rev s"
    using assms(2) False by (cases s rule: rev_cases) auto
  ultimately show ?thesis by (simp add: py_strip_def py_lstrip_def py_rstrip_def)
qed (simp add: py_strip_def py_lstrip_def py_rstrip_def)

lemma set_py_strip: "set (py_strip s) \<subseteq> set s"
  by (auto simp: py_strip_def py_rstrip_def py_lstrip_def dest!: set_dropWhileD)

definition is_digit :: "char \<Rightarrow> bool" where
  "is_digit c \<longleftrightarrow> (let n = of_char c :: nat in 48 \<le> n \<and> n \<le> 57)"

lemma of_char_digit: "d < 10 \<Longrightarrow> of_char (char_of (48 + d :: nat)) = (48 + d :: nat)"
  by simp

lemma is_digit_char: "d < 10 \<Longrightarrow> is_digit (char_of (48 + d :: nat))"
  by (simp add: is_digit_def)

lemma nat_str_digits: "list_all is_digit (nat_str n) \<and> nat_str n \<noteq> []"
proof (induction n rule: nat_str.induct)
  case (1 n)
  then show ?case by (cases "n < 10") (simp_all add: nat_str.simps [of n] is_digit_char)
qed

text \<open>The value of a string of digits, and that printing is its inverse.\<close>

definition str_nat :: "string \<Rightarrow> nat" where
  "str_nat s = foldl (\<lambda>a c. a * 10 + (of_char c - 48)) 0 s"

lemma str_nat_nat_str [simp]: "str_nat (nat_str n) = n"
proof (induction n rule: nat_str.induct)
  case (1 n)
  show ?case
  proof (cases "n < 10")
    case True
    then show ?thesis by (subst nat_str.simps) (simp add: str_nat_def)
  next
    case False
    with 1 have "str_nat (nat_str (n div 10)) = n div 10" by simp
    with False show ?thesis
      by (subst nat_str.simps) (simp add: str_nat_def)
  qed
qed

lemma nat_str_inject [simp]: "nat_str m = nat_str n \<longleftrightarrow> m = n"
  by (metis str_nat_nat_str)

lemma words_no_space: "w \<in> set (words s) \<Longrightarrow> \<forall>c \<in> set w. \<not> str_space c"
proof (induction s rule: words.induct)
  case (1 s)
  show ?case
  proof (cases "dropWhile str_space s = []")
    case True
    with 1 show ?thesis by (simp add: words.simps [of s])
  next
    case False
    then have "words s = takeWhile (\<lambda>c. \<not> str_space c) (dropWhile str_space s)
        # words (dropWhile (\<lambda>c. \<not> str_space c) (dropWhile str_space s))"
      by (subst words.simps) (simp only: Let_def if_False)
    with 1(2) consider "w = takeWhile (\<lambda>c. \<not> str_space c) (dropWhile str_space s)"
      | "w \<in> set (words (dropWhile (\<lambda>c. \<not> str_space c) (dropWhile str_space s)))"
      by (simp only: list.set insert_iff) blast
    then show ?thesis
    proof cases
      case 1
      then show ?thesis by (auto dest: set_takeWhileD)
    next
      case 2
      then show ?thesis by (rule 1(1) [OF refl False])
    qed
  qed
qed

section \<open>Dictionaries\<close>

text \<open>A dictionary is an association list in the order of its keys.\<close>

lemma update_new: "map_of xs k = None \<Longrightarrow> AList.update k v xs = xs @ [(k, v)]"
  by (induction xs) (auto split: if_splits)

lemma splitlines_line: "list_all (\<lambda>c. c \<noteq> CHR 0x0A \<and> c \<noteq> CHR 0x0D) l \<Longrightarrow> splitlines (l @ CHR 0x0A # s) = l # splitlines s"
  by (induction l) auto

lemma update_last: "k \<notin> fst ` set d \<Longrightarrow> AList.update k v (d @ [(k, w)]) = d @ [(k, v)]"
  by (induction d) auto

lemma map_of_absent: "k \<notin> fst ` set d \<Longrightarrow> map_of (d @ e) k = map_of e k"
  by (induction d) auto

end
