(* ===== verification/Py_Float.thy ===== *)
theory Py_Float
  imports Py_Text
begin

text \<open>
  The floating-point numbers of Python as the bits of an IEEE 754 double, with
  the conversions the programs use: from integers and texts, rounding to the
  nearest and ties to even; to integers by truncation; and \<^verbatim>\<open>str\<close>, the shortest
  decimal that reads back as the number.
\<close>

type_synonym f64 = "64 word"

datatype num_error = Num_ValueError | Num_OverflowError

definition inf_bits :: int where "inf_bits = 2047 * 2 ^ 52"
definition nan_bits :: int where "nan_bits = 2047 * 2 ^ 52 + 2 ^ 51"

text \<open>A number from its sign and the bits of its magnitude.\<close>

definition mk_float :: "bool \<Rightarrow> int \<Rightarrow> f64" where
  "mk_float neg m = of_int (if neg then 2 ^ 63 + m else m)"

definition float_neg :: "f64 \<Rightarrow> bool" where
  "float_neg x \<longleftrightarrow> 2 ^ 63 \<le> uint x"

definition float_mag :: "f64 \<Rightarrow> int" where
  "float_mag x = uint x mod 2 ^ 63"

section \<open>Rounding\<close>

definition half_even :: "int \<Rightarrow> int \<Rightarrow> int" where
  "half_even p q =
     (let d = p div q; r = p mod q in
      if 2 * r < q \<or> 2 * r = q \<and> even d then d else d + 1)"

function bit_length :: "int \<Rightarrow> int" where
  "bit_length n = (if n \<le> 0 then 0 else 1 + bit_length (n div 2))"
  by pat_completeness auto
termination
  by (relation "measure nat") auto

declare bit_length.simps [simp del]

text \<open>The fraction \<open>p / (q * b ^ e)\<close> for an exponent of either sign.\<close>

definition scaled :: "int \<Rightarrow> int \<Rightarrow> int \<Rightarrow> int \<Rightarrow> int \<times> int" where
  "scaled b p q e = (if 0 \<le> e then (p, q * b ^ nat e) else (p * b ^ nat (- e), q))"

text \<open>
  The bits of the double nearest to \<open>p / q\<close>, \<open>None\<close> when it is too large. The
  significand has 53 bits and the exponent is at least -1074; the sum carries
  into the exponent when the significand rounds up to \<open>2 ^ 53\<close>.
\<close>

definition round_double :: "int \<Rightarrow> int \<Rightarrow> int option" where
  "round_double p q =
     (if p = 0 then Some 0
      else
        let e0 = bit_length p - bit_length q - 53;
            e1 = (case scaled 2 p q e0 of (a, b) \<Rightarrow> if b * 2 ^ 53 \<le> a then e0 + 1 else e0);
            e = max e1 (-1074);
            m = (case scaled 2 p q e of (a, b) \<Rightarrow> half_even a b);
            bits = (e + 1074) * 2 ^ 52 + m
        in if bits < inf_bits then Some bits else None)"

text \<open>A finite number as a fraction.\<close>

definition mag_fraction :: "int \<Rightarrow> int \<times> int" where
  "mag_fraction m =
     (let ex = m div 2 ^ 52; fr = m mod 2 ^ 52 in
      if ex = 0 then (fr, 2 ^ 1074)
      else if 1075 \<le> ex then ((2 ^ 52 + fr) * 2 ^ nat (ex - 1075), 1)
      else (2 ^ 52 + fr, 2 ^ nat (1075 - ex)))"

section \<open>Conversions\<close>

text \<open>\<^verbatim>\<open>float(n)\<close> and \<^verbatim>\<open>int(x)\<close>\<close>

definition float_of_int :: "int \<Rightarrow> num_error + f64" where
  "float_of_int n =
     (case round_double \<bar>n\<bar> 1 of
        None \<Rightarrow> Inl Num_OverflowError
      | Some m \<Rightarrow> Inr (mk_float (n < 0) m))"

definition int_of_float :: "f64 \<Rightarrow> num_error + int" where
  "int_of_float x =
     (if inf_bits < float_mag x then Inl Num_ValueError
      else if float_mag x = inf_bits then Inl Num_OverflowError
      else case mag_fraction (float_mag x) of (p, q) \<Rightarrow>
        Inr ((if float_neg x then - 1 else 1) * (p div q)))"

text \<open>\<^verbatim>\<open>float(s)\<close>: underscores are allowed between two digits.\<close>

fun drop_underscores :: "bool \<Rightarrow> string \<Rightarrow> string option" where
  "drop_underscores after_digit [] = Some []"
| "drop_underscores after_digit (c # s) =
     (if c = CHR ''_'' then
        (if after_digit \<and> s \<noteq> [] \<and> is_digit (hd s) then drop_underscores False s else None)
      else map_option (Cons c) (drop_underscores (is_digit c) s))"

definition dec_value :: "string \<Rightarrow> int" where
  "dec_value s = foldl (\<lambda>a c. a * 10 + (of_char c - 48)) 0 s"

definition split_sign :: "string \<Rightarrow> bool \<times> string" where
  "split_sign s =
     (case s of
        c # r \<Rightarrow> if c = CHR ''-'' then (True, r) else if c = CHR ''+'' then (False, r) else (False, s)
      | [] \<Rightarrow> (False, []))"

definition exponent_value :: "string \<Rightarrow> int option" where
  "exponent_value s =
     (case s of
        [] \<Rightarrow> Some 0
      | c # r \<Rightarrow>
          if c = CHR ''e'' \<or> c = CHR ''E'' then
            (case split_sign r of (neg, ds) \<Rightarrow>
               if ds \<noteq> [] \<and> list_all is_digit ds
               then Some ((if neg then - 1 else 1) * dec_value ds) else None)
          else None)"

definition decimal_mag :: "string \<Rightarrow> int option" where
  "decimal_mag s =
     (let ip = takeWhile is_digit s; r = dropWhile is_digit s;
          dot = take 1 r = ''.'';
          fp = (if dot then takeWhile is_digit (tl r) else []);
          ex = (if dot then dropWhile is_digit (tl r) else r) in
      if ip = [] \<and> fp = [] then None
      else case exponent_value ex of
        None \<Rightarrow> None
      | Some e \<Rightarrow>
          (case scaled 10 (dec_value (ip @ fp)) 1 (int (length fp) - e) of (p, q) \<Rightarrow>
             Some (case round_double p q of None \<Rightarrow> inf_bits | Some m \<Rightarrow> m)))"

definition float_of_str :: "string \<Rightarrow> num_error + f64" where
  "float_of_str s0 =
     (let s = rev (dropWhile int_space (rev (dropWhile int_space s0))) in
      case drop_underscores False s of
        None \<Rightarrow> Inl Num_ValueError
      | Some s \<Rightarrow>
          (case split_sign s of (neg, r) \<Rightarrow>
             let w = py_lower r in
             if w = ''inf'' \<or> w = ''infinity'' then Inr (mk_float neg inf_bits)
             else if w = ''nan'' then Inr (mk_float neg nan_bits)
             else (case decimal_mag r of
                     None \<Rightarrow> Inl Num_ValueError
                   | Some m \<Rightarrow> Inr (mk_float neg m))))"

section \<open>Printing\<close>

text \<open>The decimal digits of a number.\<close>

function int_str :: "int \<Rightarrow> string" where
  "int_str n = (if n < 10 then [char_of (48 + n)] else int_str (n div 10) @ [char_of (48 + n mod 10)])"
  by pat_completeness auto
termination
  by (relation "measure nat") auto

declare int_str.simps [simp del]

text \<open>
  The number of digits before the decimal point, negative for leading zeros;
  no positive double is below \<open>10 ^ -324\<close>.
\<close>

fun zeros_after_point :: "nat \<Rightarrow> int \<Rightarrow> int \<Rightarrow> int" where
  "zeros_after_point 0 p q = 0"
| "zeros_after_point (Suc k) p q = (if p * 10 < q then 1 + zeros_after_point k (p * 10) q else 0)"

definition dec_point :: "int \<Rightarrow> int \<Rightarrow> int" where
  "dec_point p q =
     (if q \<le> p then int (length (int_str (p div q))) else - zeros_after_point 400 p q)"

text \<open>
  The decimal of \<open>n\<close> digits nearest to \<open>p / q\<close> that reads back as \<open>m\<close>, as its
  digits and the exponent of the last one.
\<close>

definition digits_of :: "int \<Rightarrow> int \<Rightarrow> int \<Rightarrow> int \<Rightarrow> (int \<times> int) option" where
  "digits_of m p q n =
     (let k = dec_point p q - n;
          reads_back = (\<lambda>d. case scaled 10 d 1 (- k) of (a, b) \<Rightarrow> round_double a b = Some m) in
      case scaled 10 p q k of (a, b) \<Rightarrow>
        let d = half_even a b; c = (if d = a div b then d + 1 else a div b) in
        if reads_back d then Some (d, k) else if reads_back c then Some (c, k) else None)"

fun first_some :: "('a \<Rightarrow> 'b option) \<Rightarrow> 'a list \<Rightarrow> 'b option" where
  "first_some f [] = None"
| "first_some f (x # xs) = (case f x of None \<Rightarrow> first_some f xs | Some y \<Rightarrow> Some y)"

definition repr_digits :: "string \<Rightarrow> int \<Rightarrow> string" where
  "repr_digits ds pt =
     (if - 4 < pt \<and> pt \<le> 16 then
        (if pt \<le> 0 then ''0.'' @ replicate (nat (- pt)) CHR ''0'' @ ds
         else if int (length ds) \<le> pt then ds @ replicate (nat pt - length ds) CHR ''0'' @ ''.0''
         else take (nat pt) ds @ ''.'' @ drop (nat pt) ds)
      else
        let e = pt - 1; es = int_str \<bar>e\<bar> in
        hd ds # (if tl ds = [] then [] else CHR ''.'' # tl ds) @ ''e'' @ (if e < 0 then ''-'' else ''+'')
          @ (if length es < 2 then CHR ''0'' # es else es))"

text \<open>
  Zeros at the end of the digits are dropped: they appear when the nearest
  decimal of one digit more than needed is a multiple of ten. Seventeen
  digits always read back.
\<close>

definition strip_zeros :: "string \<Rightarrow> string" where
  "strip_zeros ds = rev (dropWhile (\<lambda>c. c = CHR ''0'') (rev ds))"

definition float_repr :: "f64 \<Rightarrow> string" where
  "float_repr x =
     (let m = float_mag x; sign = (if float_neg x then ''-'' else []) in
      if inf_bits < m then ''nan''
      else if m = inf_bits then sign @ ''inf''
      else if m = 0 then sign @ ''0.0''
      else case mag_fraction m of (p, q) \<Rightarrow>
        (case first_some (digits_of m p q) [1..17] of
           None \<Rightarrow> []
         | Some (d, k) \<Rightarrow>
             let ds = int_str d in sign @ repr_digits (strip_zeros ds) (int (length ds) + k)))"

end
