(* ===== verification/Api_Script.thy ===== *)
theory Api_Script
  imports Py_Float
begin

text \<open>
  What the scripts around the API share: values of the API, calls, lists of
  lines printed, and the arithmetic and formatting of floats they use. The
  server is an argument over a state of its own; it keeps the types of the API,
  so that a value of another type is a \<^verbatim>\<open>TypeError\<close>.
\<close>

section \<open>Values and calls\<close>

datatype mval =
    MStr string
  | MFloat f64
  | MBool bool
  | MList "mval list"
  | MRec "(string \<times> mval) list"

datatype script_error =
    S_Failure string
  | S_KeyError
  | S_TypeError
  | S_ValueError
  | S_ZeroDivisionError
  | S_FileNotFoundError

text \<open>
  \<open>api_order\<close> is the order in which a set is iterated over; the set is given by its
  elements without repetitions.
\<close>

record 'k api_env =
  api_call :: "string \<Rightarrow> string list \<Rightarrow> 'k \<Rightarrow> (script_error + mval) \<times> 'k"
  api_order :: "string list \<Rightarrow> string list"

record 'k script =
  sc_machine :: 'k
  sc_lines :: "string list"

type_synonym ('k, 'a) sc_op = "('k script, script_error, 'a) st"

definition say :: "string \<Rightarrow> ('k, unit) sc_op" where
  "say t = modify (\<lambda>s. s\<lparr>sc_lines := sc_lines s @ [t]\<rparr>)"

definition api_op :: "'k api_env \<Rightarrow> string \<Rightarrow> string list \<Rightarrow> ('k, mval) sc_op" where
  "api_op ev meth args s = (case api_call ev meth args (sc_machine s) of (r, k) \<Rightarrow> (r, s\<lparr>sc_machine := k\<rparr>))"

text \<open>A list comprehension over an expression without calls.\<close>

primrec smap :: "('a \<Rightarrow> 'e + 'b) \<Rightarrow> 'a list \<Rightarrow> 'e + 'b list" where
  "smap f [] = Inr []"
| "smap f (x # xs) = sbind (f x) (\<lambda>y. sbind (smap f xs) (\<lambda>ys. Inr (y # ys)))"

fun as_str :: "mval \<Rightarrow> script_error + string" where
  "as_str (MStr t) = Inr t"
| "as_str _ = Inl S_TypeError"

fun as_list :: "mval \<Rightarrow> script_error + mval list" where
  "as_list (MList xs) = Inr xs"
| "as_list _ = Inl S_TypeError"

fun as_rec :: "mval \<Rightarrow> script_error + (string \<times> mval) list" where
  "as_rec (MRec d) = Inr d"
| "as_rec _ = Inl S_TypeError"

fun as_float :: "mval \<Rightarrow> script_error + f64" where
  "as_float (MFloat x) = Inr x"
| "as_float _ = Inl S_TypeError"

definition as_refs :: "mval \<Rightarrow> script_error + string list" where
  "as_refs v = sbind (as_list v) (smap as_str)"

text \<open>\<^verbatim>\<open>v[k]\<close> and, for a text, \<^verbatim>\<open>v.get(k, d)\<close>\<close>

definition item :: "string \<Rightarrow> mval \<Rightarrow> script_error + mval" where
  "item k v = sbind (as_rec v) (\<lambda>d. case map_of d k of None \<Rightarrow> Inl S_KeyError | Some x \<Rightarrow> Inr x)"

definition get_or :: "string \<Rightarrow> string \<Rightarrow> mval \<Rightarrow> script_error + string" where
  "get_or k t v = sbind (as_rec v) (\<lambda>d. case map_of d k of None \<Rightarrow> Inr t | Some x \<Rightarrow> as_str x)"

definition begins :: "string \<Rightarrow> string \<Rightarrow> bool" where
  "begins p t \<longleftrightarrow> take (length p) t = p"

text \<open>
  The scripts log in and register a handler for their exit, which logs out and
  ignores its errors.
\<close>

definition login_session :: "'k api_env \<Rightarrow> string \<Rightarrow> ('k, unit) sc_op \<Rightarrow> ('k, unit) sc_op" where
  "login_session ev name body s =
     (case seq (api_op ev ''session.login_with_password'' [[], [], ''1.0'', name]) body s of
        (r, t) \<Rightarrow> (r, snd (api_op ev ''session.logout'' [] t)))"

section \<open>Floats\<close>

text \<open>\<^verbatim>\<open>x / y\<close>\<close>

definition float_div :: "f64 \<Rightarrow> f64 \<Rightarrow> script_error + f64" where
  "float_div x y =
     (let a = float_mag x; b = float_mag y; neg = (float_neg x \<noteq> float_neg y) in
      if b = 0 then Inl S_ZeroDivisionError
      else if inf_bits < a \<or> inf_bits < b \<or> a = inf_bits \<and> b = inf_bits then Inr (mk_float False nan_bits)
      else if a = inf_bits then Inr (mk_float neg inf_bits)
      else if b = inf_bits then Inr (mk_float neg 0)
      else case (mag_fraction a, mag_fraction b) of ((p, q), (p', q')) \<Rightarrow>
        Inr (mk_float neg (case round_double (p * q') (q * p') of None \<Rightarrow> inf_bits | Some m \<Rightarrow> m)))"

text \<open>\<^verbatim>\<open>"%.2f" % x\<close>\<close>

definition fixed2 :: "f64 \<Rightarrow> string" where
  "fixed2 x =
     (let m = float_mag x; sign = (if float_neg x then ''-'' else []) in
      if inf_bits < m then ''nan''
      else if m = inf_bits then sign @ ''inf''
      else case mag_fraction m of (p, q) \<Rightarrow>
        (let n = half_even (p * 100) q in
         sign @ int_text (n div 100) @ ''.'' @ int_text (n mod 100 div 10) @ int_text (n mod 10)))"

text \<open>\<^verbatim>\<open>float(v)\<close> of a value that is a text or a float.\<close>

definition to_float :: "mval \<Rightarrow> script_error + f64" where
  "to_float v =
     (case v of
        MFloat x \<Rightarrow> Inr x
      | MStr t \<Rightarrow> (case float_of_str t of Inl e \<Rightarrow> Inl S_ValueError | Inr x \<Rightarrow> Inr x)
      | _ \<Rightarrow> Inl S_TypeError)"

section \<open>Lemmas\<close>

lemma collect_map_fst:
  assumes "\<And>x s y s'. f x s = (Inr y, s') \<Longrightarrow> g y = x" "collect f xs s = (Inr ys, t)"
  shows "map g ys = xs"
  using assms(2)
proof (induction xs arbitrary: s ys)
  case (Cons x xs)
  then show ?case using assms(1) by (elim collect_InrE) auto
qed (simp add: ret_def)

end
