(* ===== verification/Py_Xml.thy ===== *)
theory Py_Xml
  imports Py_Text
begin

text \<open>
  XML as \<^verbatim>\<open>xml.dom.minidom\<close> and \<^verbatim>\<open>xml.sax\<close> read and write it, on ASCII text: the tree, the
  writer, and a reader of documents without a document type declaration. In the
  value of an attribute the reader replaces ends of lines and tabs by blanks;
  the writer does not escape them (before Python 3.13).
\<close>

section \<open>Trees and the writer\<close>

type_synonym xattrs = "(string \<times> string) list"

text \<open>Comments, processing instructions and sections of character data are kept as they are written.\<close>

datatype xml =
    XElem (xtag: string) (xattrs: xattrs) (xkids: "xml list")
  | XText string
  | XMisc string

definition esc_char :: "char \<Rightarrow> string" where
  "esc_char c =
     (if c = CHR ''&'' then ''&amp;'' else if c = CHR ''<'' then ''&lt;''
      else if c = CHR 0x22 then ''&quot;'' else if c = CHR ''>'' then ''&gt;'' else [c])"

definition xml_escape :: "string \<Rightarrow> string" where
  "xml_escape t = concat (map esc_char t)"

definition write_attr :: "string \<times> string \<Rightarrow> string" where
  "write_attr a = '' '' @ fst a @ ''='' @ [CHR 0x22] @ xml_escape (snd a) @ [CHR 0x22]"

fun xml_write :: "xml \<Rightarrow> string" where
  "xml_write (XElem n a ks) =
     ''<'' @ n @ concat (map write_attr a) @
       (if ks = [] then ''/>'' else ''>'' @ concat (map xml_write ks) @ ''</'' @ n @ ''>'')"
| "xml_write (XText t) = xml_escape t"
| "xml_write (XMisc t) = t"

definition xml_decl :: string where
  "xml_decl = ''<?xml version='' @ [CHR 0x22] @ ''1.0'' @ [CHR 0x22] @ '' encoding='' @ [CHR 0x22] @ ''utf-8'' @ [CHR 0x22] @ ''?>''"

text \<open>\<^verbatim>\<open>Document.writexml(f, encoding="utf-8")\<close> with one element.\<close>

definition writexml :: "xml \<Rightarrow> string" where
  "writexml root = xml_decl @ xml_write root"

text \<open>\<^verbatim>\<open>e.getAttribute(k)\<close>; nodes that are no elements have no such method.\<close>

fun getAttribute :: "string \<Rightarrow> xml \<Rightarrow> string option" where
  "getAttribute k (XElem n a ks) = Some (case map_of a k of None \<Rightarrow> [] | Some v \<Rightarrow> v)"
| "getAttribute k _ = None"

section \<open>Characters, names, references\<close>

definition xml_space :: "char \<Rightarrow> bool" where
  "xml_space c \<longleftrightarrow> c \<in> {CHR '' '', CHR 0x09, CHR 0x0A, CHR 0x0D}"

definition xml_char :: "char \<Rightarrow> bool" where
  "xml_char c \<longleftrightarrow> (let n = of_char c :: nat in 32 \<le> n \<or> n = 9 \<or> n = 10 \<or> n = 13)"

definition name_start :: "char \<Rightarrow> bool" where
  "name_start c \<longleftrightarrow> (let n = of_char c :: nat in 65 \<le> n \<and> n \<le> 90 \<or> 97 \<le> n \<and> n \<le> 122 \<or> c = CHR ''_'' \<or> c = CHR '':'')"

definition name_char :: "char \<Rightarrow> bool" where
  "name_char c \<longleftrightarrow> name_start c \<or> is_digit c \<or> c = CHR ''-'' \<or> c = CHR ''.''"

text \<open>Ends of lines are read as line feeds.\<close>

fun xml_eol :: "string \<Rightarrow> string" where
  "xml_eol [] = []"
| "xml_eol (c # s) =
     (if c = CHR 0x0D then CHR 0x0A # xml_eol (if take 1 s = [CHR 0x0A] then drop 1 s else s) else c # xml_eol s)"

definition attr_norm :: "string \<Rightarrow> string" where
  "attr_norm t = map (\<lambda>c. if c = CHR 0x09 \<or> c = CHR 0x0A then CHR '' '' else c) (xml_eol t)"

definition char_ref :: "nat option \<Rightarrow> char option" where
  "char_ref v = (case v of Some n \<Rightarrow> if n < 128 \<and> xml_char (char_of n) then Some (char_of n) else None | None \<Rightarrow> None)"

fun hex_number :: "nat \<Rightarrow> string \<Rightarrow> nat option" where
  "hex_number acc [] = Some acc"
| "hex_number acc (c # s) = (case py_digit 16 c of None \<Rightarrow> None | Some d \<Rightarrow> hex_number (16 * acc + d) s)"

definition entity :: "string \<Rightarrow> char option" where
  "entity e =
     (if e = ''amp'' then Some CHR ''&'' else if e = ''lt'' then Some CHR ''<''
      else if e = ''gt'' then Some CHR ''>'' else if e = ''quot'' then Some CHR 0x22
      else if e = ''apos'' then Some CHR 0x27
      else if take 2 e = ''#x'' \<and> 2 < length e then char_ref (hex_number 0 (drop 2 e))
      else if take 1 e = ''#'' \<and> 1 < length e \<and> list_all is_digit (drop 1 e) then char_ref (Some (str_nat (drop 1 e)))
      else None)"

function unescape :: "string \<Rightarrow> string option" where
  "unescape [] = Some []"
| "unescape (c # s) =
     (if c \<noteq> CHR ''&'' then map_option ((#) c) (unescape s)
      else if CHR '';'' \<notin> set s then None
      else case entity (takeWhile (\<lambda>d. d \<noteq> CHR '';'') s) of
        None \<Rightarrow> None
      | Some d \<Rightarrow> map_option ((#) d) (unescape (drop 1 (dropWhile (\<lambda>d. d \<noteq> CHR '';'') s))))"
  by pat_completeness auto
termination
  by (relation "measure length") (auto simp: less_Suc_eq_le intro: le_trans [OF diff_le_self length_dropWhile_le])

section \<open>Tags\<close>

text \<open>A quoted value, and one attribute; with what follows.\<close>

definition xml_read_value :: "string \<Rightarrow> (string \<times> string) option" where
  "xml_read_value v =
     (case v of
        [] \<Rightarrow> None
      | q # w \<Rightarrow>
          (let raw = takeWhile (\<lambda>c. c \<noteq> q) w in
           if q \<notin> {CHR 0x22, CHR 0x27} \<or> q \<notin> set w \<or> CHR ''<'' \<in> set raw \<or> \<not> list_all xml_char raw then None
           else map_option (\<lambda>x. (x, drop (Suc (length raw)) w)) (unescape (attr_norm raw))))"

definition read_attr :: "string \<Rightarrow> ((string \<times> string) \<times> string) option" where
  "read_attr t =
     (let name = takeWhile name_char t; u = dropWhile xml_space (drop (length name) t) in
      if name = [] \<or> \<not> name_start (hd name) \<or> take 1 u \<noteq> ''='' then None
      else map_option (\<lambda>(v, r). ((name, v), r)) (xml_read_value (dropWhile xml_space (drop 1 u))))"

lemma xml_read_value_shorter: "xml_read_value v = Some (x, r) \<Longrightarrow> length r < length v"
  by (cases v) (auto simp: xml_read_value_def Let_def split: if_splits)

lemma drop_shorter: "length (dropWhile P (drop n t)) \<le> length t"
  using length_dropWhile_le [of P "drop n t"] by simp

lemma read_attr_shorter:
  assumes "read_attr t = Some (a, r)"
  shows "length r < length t"
proof -
  let ?v = "dropWhile xml_space (drop 1 (dropWhile xml_space (drop (length (takeWhile name_char t)) t)))"
  obtain x where "xml_read_value ?v = Some (x, r)"
    using assms unfolding read_attr_def Let_def by (auto split: if_splits)
  then have "length r < length ?v" by (rule xml_read_value_shorter)
  also have "\<dots> \<le> length t" by (rule le_trans [OF drop_shorter drop_shorter])
  finally show ?thesis .
qed

text \<open>The rest of a tag after its name: the attributes, whether it ends in \<^verbatim>\<open>/>\<close>, and what follows.\<close>

function xml_attrs :: "string \<Rightarrow> (xattrs \<times> bool \<times> string) option" where
  "xml_attrs s =
     (let t = dropWhile xml_space s in
      if take 1 t = ''>'' then Some ([], False, drop 1 t)
      else if take 2 t = ''/>'' then Some ([], True, drop 2 t)
      else if t = s then None
      else case read_attr t of
        None \<Rightarrow> None
      | Some (a, r) \<Rightarrow>
          (case xml_attrs r of
             None \<Rightarrow> None
           | Some (as, e, r') \<Rightarrow> if fst a \<in> fst ` set as then None else Some (a # as, e, r')))"
  by pat_completeness auto
termination
proof (relation "measure length", rule wf_measure)
  fix s t p a r
  assume "t = dropWhile xml_space s" "read_attr t = Some p" "(a, r) = p"
  then show "(r, s) \<in> measure length"
    using read_attr_shorter [of t a r] length_dropWhile_le [of xml_space s] by simp
qed

declare xml_attrs.simps [simp del]

lemma xml_attrs_shorter: "xml_attrs s = Some (as, e, r) \<Longrightarrow> length r < length s"
proof (induction s arbitrary: as e r rule: xml_attrs.induct)
  case (1 s)
  let ?t = "dropWhile xml_space s"
  have le: "length ?t \<le> length s" by (rule length_dropWhile_le)
  from "1.prems" consider
      "take 1 ?t = ''>''" "r = drop 1 ?t" | "take 2 ?t = ''/>''" "r = drop 2 ?t"
    | a r' as' e' where "\<not> take 1 ?t = ''>''" "\<not> take 2 ?t = ''/>''" "?t \<noteq> s" "read_attr ?t = Some (a, r')" "xml_attrs r' = Some (as', e', r)"
    unfolding xml_attrs.simps [of s] Let_def by (auto split: if_splits option.splits prod.splits)
  then show ?case
  proof cases
    case 1
    with le show ?thesis by (cases ?t) auto
  next
    case 2
    with le show ?thesis by (cases ?t) auto
  next
    case 3
    then have "length r < length r'" by (intro "1.IH" [OF refl _ _ _ _ refl]) auto
    with read_attr_shorter [OF 3(4)] le show ?thesis by simp
  qed
qed

section \<open>Tokens\<close>

datatype xtoken = XStart string xattrs | XEnd string | XEmpty string xattrs | XChars string | XCdata string | XOther string

text \<open>\<open>s\<close> up to the first \<open>p\<close>, and what follows it\<close>

primrec cut_str :: "string \<Rightarrow> string \<Rightarrow> (string \<times> string) option" where
  "cut_str p [] = None"
| "cut_str p (c # s) =
     (if take (length p) (c # s) = p then Some ([], drop (length p) (c # s))
      else map_option (\<lambda>(a, b). (c # a, b)) (cut_str p s))"

definition xml_read_text :: "string \<Rightarrow> (xtoken \<times> string) option" where
  "xml_read_text s =
     (let raw = takeWhile (\<lambda>c. c \<noteq> CHR ''<'') s in
      if \<not> list_all xml_char raw \<or> cut_str '']]>'' raw \<noteq> None then None
      else map_option (\<lambda>x. (XChars x, drop (length raw) s)) (unescape (xml_eol raw)))"

definition read_comment :: "string \<Rightarrow> (xtoken \<times> string) option" where
  "read_comment r =
     (case cut_str ''--'' r of
        None \<Rightarrow> None
      | Some (b, rest) \<Rightarrow> if take 1 rest = ''>'' \<and> list_all xml_char b then Some (XOther (''<!--'' @ xml_eol b @ ''-->''), drop 1 rest) else None)"

definition read_cdata :: "string \<Rightarrow> (xtoken \<times> string) option" where
  "read_cdata r =
     (case cut_str '']]>'' r of
        None \<Rightarrow> None
      | Some (b, rest) \<Rightarrow> if list_all xml_char b then Some (XCdata (xml_eol b), rest) else None)"

text \<open>A processing instruction; the declaration is one only at the beginning.\<close>

definition read_pi :: "string \<Rightarrow> (xtoken \<times> string) option" where
  "read_pi r =
     (case cut_str ''?>'' r of
        None \<Rightarrow> None
      | Some (b, rest) \<Rightarrow>
          (let target = takeWhile name_char b in
           if target = [] \<or> \<not> name_start (hd target) \<or> py_lower target = ''xml'' \<or> \<not> list_all xml_char b then None
           else Some (XOther (''<?'' @ target @ '' '' @ dropWhile xml_space (drop (length target) (xml_eol b)) @ ''?>''), rest)))"

definition read_end :: "string \<Rightarrow> (xtoken \<times> string) option" where
  "read_end r =
     (let name = takeWhile name_char r; u = dropWhile xml_space (drop (length name) r) in
      if name = [] \<or> \<not> name_start (hd name) \<or> take 1 u \<noteq> ''>'' then None else Some (XEnd name, drop 1 u))"

definition read_start :: "string \<Rightarrow> (xtoken \<times> string) option" where
  "read_start r =
     (let name = takeWhile name_char r in
      if name = [] \<or> \<not> name_start (hd name) then None
      else map_option (\<lambda>(as, e, rest). (if e then XEmpty name as else XStart name as, rest)) (xml_attrs (drop (length name) r)))"

definition one_token :: "string \<Rightarrow> (xtoken \<times> string) option" where
  "one_token s =
     (if take 1 s \<noteq> ''<'' then xml_read_text s
      else if take 4 s = ''<!--'' then read_comment (drop 4 s)
      else if take 9 s = ''<![CDATA['' then read_cdata (drop 9 s)
      else if take 2 s = ''<?'' then read_pi (drop 2 s)
      else if take 2 s = ''<!'' then None
      else if take 2 s = ''</'' then read_end (drop 2 s)
      else read_start (drop 1 s))"

lemma cut_str_shorter: "cut_str p s = Some (a, b) \<Longrightarrow> length b \<le> length s"
  by (induction s arbitrary: a) (auto split: if_splits)

lemma xml_read_text_shorter: "take 1 s \<noteq> ''<'' \<Longrightarrow> s \<noteq> [] \<Longrightarrow> xml_read_text s = Some (x, r) \<Longrightarrow> length r < length s"
  by (cases s) (auto simp: xml_read_text_def Let_def split: if_splits)

lemma read_shorter:
  "read_comment s = Some (x, r) \<Longrightarrow> length r \<le> length s"
  "read_cdata s = Some (x, r) \<Longrightarrow> length r \<le> length s"
  "read_pi s = Some (x, r) \<Longrightarrow> length r \<le> length s"
proof -
  show "read_comment s = Some (x, r) \<Longrightarrow> length r \<le> length s"
    by (auto simp: read_comment_def dest!: cut_str_shorter split: option.splits if_splits)
  show "read_cdata s = Some (x, r) \<Longrightarrow> length r \<le> length s"
    by (auto simp: read_cdata_def dest!: cut_str_shorter split: option.splits if_splits)
  show "read_pi s = Some (x, r) \<Longrightarrow> length r \<le> length s"
    by (auto simp: read_pi_def Let_def dest!: cut_str_shorter split: option.splits if_splits)
qed

lemma read_end_shorter: "read_end s = Some (x, r) \<Longrightarrow> length r \<le> length s"
proof -
  let ?u = "dropWhile xml_space (drop (length (takeWhile name_char s)) s)"
  assume "read_end s = Some (x, r)"
  then have "r = drop 1 ?u" unfolding read_end_def Let_def by (simp split: if_splits)
  with drop_shorter [of xml_space "length (takeWhile name_char s)" s] show "length r \<le> length s" by simp
qed

lemma read_start_shorter: "read_start s = Some (x, r) \<Longrightarrow> length r \<le> length s"
  unfolding read_start_def Let_def by (auto dest!: xml_attrs_shorter split: if_splits)

lemma one_token_shorter:
  assumes "s \<noteq> []" "one_token s = Some (x, r)"
  shows "length r < length s"
proof (cases "take 1 s = ''<''")
  case False
  with assms show ?thesis by (simp add: one_token_def xml_read_text_shorter)
next
  case True
  have "length (drop n s) < length s" if "0 < n" for n using that assms(1) by simp
  with assms(2) True show ?thesis
    unfolding one_token_def
    by (auto dest!: read_shorter read_end_shorter read_start_shorter split: if_splits intro: le_less_trans)
qed

function xml_tokens :: "string \<Rightarrow> xtoken list option" where
  "xml_tokens s =
     (if s = [] then Some []
      else case one_token s of
        None \<Rightarrow> None
      | Some (x, r) \<Rightarrow> map_option ((#) x) (xml_tokens r))"
  by pat_completeness auto
termination
  by (relation "measure length") (auto dest: one_token_shorter)

declare xml_tokens.simps [simp del]

section \<open>Documents\<close>

text \<open>The open elements, each with the nodes before it, the newest first; and the nodes since.\<close>

fun xml_build :: "xtoken list \<Rightarrow> (string \<times> xattrs \<times> xml list) list \<Rightarrow> xml list \<Rightarrow> xml list option" where
  "xml_build [] st cur = (if st = [] then Some (rev cur) else None)"
| "xml_build (XStart n a # ts) st cur = xml_build ts ((n, a, cur) # st) []"
| "xml_build (XEmpty n a # ts) st cur = xml_build ts st (XElem n a [] # cur)"
| "xml_build (XChars t # ts) st cur = xml_build ts st (XText t # cur)"
| "xml_build (XOther t # ts) st cur = xml_build ts st (XMisc t # cur)"
| "xml_build (XCdata t # ts) st cur = (if st = [] then None else xml_build ts st (XMisc (''<![CDATA['' @ t @ '']]>'') # cur))"
| "xml_build (XEnd n # ts) st cur =
     (case st of
        [] \<Rightarrow> None
      | (m, a, sib) # st' \<Rightarrow> if m = n then xml_build ts st' (XElem m a (rev cur) # sib) else None)"

fun is_elem :: "xml \<Rightarrow> bool" where
  "is_elem (XElem n a ks) = True"
| "is_elem _ = False"

fun blank_text :: "xml \<Rightarrow> bool" where
  "blank_text (XText t) = list_all xml_space t"
| "blank_text _ = True"

text \<open>The declaration is only looked for its end.\<close>

definition drop_decl :: "string \<Rightarrow> string option" where
  "drop_decl s =
     (if take 6 s = ''<?xml '' then map_option snd (cut_str ''?>'' s) else Some s)"

text \<open>\<^verbatim>\<open>minidom.parse\<close>: the element of the document, or nothing when it raises.\<close>

definition xml_parse :: "string \<Rightarrow> xml option" where
  "xml_parse s =
     (case drop_decl s of
        None \<Rightarrow> None
      | Some t \<Rightarrow>
          (case xml_tokens t of
             None \<Rightarrow> None
           | Some ts \<Rightarrow>
               (case xml_build ts [] [] of
                  None \<Rightarrow> None
                | Some ks \<Rightarrow>
                    (case filter is_elem ks of
                       [root] \<Rightarrow> if list_all blank_text ks then Some root else None
                     | _ \<Rightarrow> None))))"

section \<open>Reading what was written\<close>

text \<open>Trees of elements with proper names and distinct attributes, as the programs write them.\<close>

definition xml_name :: "string \<Rightarrow> bool" where
  "xml_name n \<longleftrightarrow> n \<noteq> [] \<and> name_start (hd n) \<and> list_all name_char n"

fun xml_wf :: "xml \<Rightarrow> bool" where
  "xml_wf (XElem n a ks) \<longleftrightarrow> xml_name n \<and> distinct (map fst a)
     \<and> list_all (\<lambda>(k, v). xml_name k \<and> list_all xml_char v) a \<and> list_all xml_wf ks"
| "xml_wf _ \<longleftrightarrow> False"

text \<open>What is read back: the values of attributes are normalised.\<close>

fun xml_norm :: "xml \<Rightarrow> xml" where
  "xml_norm (XElem n a ks) = XElem n (map (\<lambda>(k, v). (k, attr_norm v)) a) (map xml_norm ks)"
| "xml_norm x = x"

lemma esc_char_plain:
  "c \<notin> {CHR ''&'', CHR ''<'', CHR 0x22, CHR ''>''} \<Longrightarrow> esc_char c = [c]"
  by (simp add: esc_char_def)

lemma xml_escape_Cons: "xml_escape (c # t) = esc_char c @ xml_escape t"
  by (simp add: xml_escape_def)

lemma xml_eol_append: "list_all (\<lambda>c. c \<noteq> CHR 0x0D) u \<Longrightarrow> xml_eol (u @ s) = u @ xml_eol s"
  by (induction u) auto

lemma esc_char_no_cr: "c \<noteq> CHR 0x0D \<Longrightarrow> list_all (\<lambda>d. d \<noteq> CHR 0x0D) (esc_char c)"
  by (auto simp: esc_char_def)

lemma take_escape: "(take 1 (xml_escape s) = [CHR 0x0A]) = (take 1 s = [CHR 0x0A])"
  by (cases s) (auto simp: xml_escape_def esc_char_def)

lemma drop_escape: "take 1 s = [CHR 0x0A] \<Longrightarrow> drop 1 (xml_escape s) = xml_escape (drop 1 s)"
  by (cases s) (auto simp: xml_escape_def esc_char_def)

lemma xml_eol_escape: "xml_eol (xml_escape s) = xml_escape (xml_eol s)"
proof (induction s rule: xml_eol.induct)
  case (2 c s)
  show ?case
  proof (cases "c = CHR 0x0D")
    case True
    have nl: "xml_escape (CHR 0x0A # x) = CHR 0x0A # xml_escape x" "xml_escape (CHR 0x0D # x) = CHR 0x0D # xml_escape x" for x
      by (simp_all add: xml_escape_Cons esc_char_def)
    show ?thesis
    proof (cases "take 1 s = [CHR 0x0A]")
      case t: True
      then have e: "take 1 (xml_escape s) = [CHR 0x0A]" by (simp only: take_escape)
      from "2.IH" (1) [OF True] t show ?thesis unfolding True nl xml_eol.simps by (simp only: t e drop_escape nl simp_thms if_True)
    next
      case t: False
      then have e: "take 1 (xml_escape s) \<noteq> [CHR 0x0A]" by (simp only: take_escape simp_thms)
      from "2.IH" (1) [OF True] t show ?thesis unfolding True nl xml_eol.simps by (simp only: t e nl simp_thms if_True if_False)
    qed
  next
    case False
    with "2.IH"(2) show ?thesis
      by (simp add: xml_escape_Cons xml_eol_append [OF esc_char_no_cr])
  qed
qed (simp add: xml_escape_def)

lemma attr_norm_escape: "attr_norm (xml_escape s) = xml_escape (attr_norm s)"
proof -
  have "map (\<lambda>c. if c = CHR 0x09 \<or> c = CHR 0x0A then CHR '' '' else c) (xml_escape t)
      = xml_escape (map (\<lambda>c. if c = CHR 0x09 \<or> c = CHR 0x0A then CHR '' '' else c) t)" for t
    by (induction t) (auto simp: xml_escape_def esc_char_def)
  then show ?thesis by (simp add: attr_norm_def xml_eol_escape)
qed

lemma unescape_esc_char: "unescape (esc_char c @ s) = map_option ((#) c) (unescape s)"
  by (simp add: esc_char_def entity_def)

lemma unescape_escape: "unescape (xml_escape t) = Some t"
  by (induction t) (simp_all add: xml_escape_Cons unescape_esc_char xml_escape_def [of "[]"])

lemma escape_chars:
  "list_all xml_char v \<Longrightarrow> list_all xml_char (xml_escape v)"
  "CHR 0x22 \<notin> set (xml_escape v)" "CHR ''<'' \<notin> set (xml_escape v)"
proof -
  show "list_all xml_char v \<Longrightarrow> list_all xml_char (xml_escape v)"
    by (induction v) (auto simp: xml_escape_def esc_char_def xml_char_def)
  show "CHR 0x22 \<notin> set (xml_escape v)" "CHR ''<'' \<notin> set (xml_escape v)"
    by (induction v) (auto simp: xml_escape_def esc_char_def)
qed

lemma takeWhile_quote: "q \<notin> set u \<Longrightarrow> takeWhile (\<lambda>c. c \<noteq> q) (u @ q # s) = u"
  by (induction u) auto

lemma xml_read_value_written:
  assumes "list_all xml_char v"
  shows "xml_read_value (CHR 0x22 # xml_escape v @ CHR 0x22 # s) = Some (attr_norm v, s)"
  using assms by (simp add: xml_read_value_def takeWhile_quote escape_chars attr_norm_escape unescape_escape)

lemma name_char_stops: "\<not> name_char CHR ''=''" "\<not> name_char CHR '' ''" "\<not> name_char CHR ''/''" "\<not> name_char CHR ''>''"
  by (simp_all add: name_char_def name_start_def is_digit_def)

lemma take_name:
  assumes "xml_name n" "\<not> name_char c"
  shows "takeWhile name_char (n @ c # s) = n"
  using assms by (subst takeWhile_append2) (auto simp: xml_name_def list_all_iff)

lemma name_start_no:
  "\<not> name_start CHR '' ''" "\<not> name_start CHR ''/''" "\<not> name_start CHR ''>''" "\<not> name_start CHR ''!''" "\<not> name_start CHR ''?''"
  "xml_space c \<Longrightarrow> \<not> name_start c"
  by (auto simp: name_start_def xml_space_def)

lemma read_attr_written:
  assumes "xml_name k" "list_all xml_char v"
  shows "read_attr (k @ ''='' @ [CHR 0x22] @ xml_escape v @ CHR 0x22 # s) = Some ((k, attr_norm v), s)"
proof -
  have "takeWhile name_char (k @ CHR ''='' # CHR 0x22 # xml_escape v @ CHR 0x22 # s) = k"
    by (rule take_name [OF assms(1) name_char_stops(1)])
  then show ?thesis
    using assms by (simp add: read_attr_def xml_space_def xml_read_value_written xml_name_def)
qed

text \<open>The attributes of a tag, up to its end.\<close>

lemma xml_attrs_end:
  "xml_attrs (CHR ''>'' # s) = Some ([], False, s)" "xml_attrs (CHR ''/'' # CHR ''>'' # s) = Some ([], True, s)"
  by (simp_all add: xml_attrs.simps [of "CHR ''>'' # s"] xml_attrs.simps [of "CHR ''/'' # CHR ''>'' # s"] xml_space_def Let_def)

lemma xml_attrs_written:
  assumes "distinct (map fst as)" "list_all (\<lambda>(k, v). xml_name k \<and> list_all xml_char v) as" "xml_attrs t = Some ([], e, r)"
  shows "xml_attrs (concat (map write_attr as) @ t) = Some (map (\<lambda>(k, v). (k, attr_norm v)) as, e, r)"
  using assms(1,2)
proof (induction as)
  case Nil
  with assms(3) show ?case by simp
next
  case (Cons kv as)
  obtain k v where kv: "kv = (k, v)" by fastforce
  let ?rest = "concat (map write_attr as) @ t"
  let ?t = "k @ ''='' @ [CHR 0x22] @ xml_escape v @ CHR 0x22 # ?rest"
  have wf: "xml_name k" "list_all xml_char v" using Cons.prems kv by auto
  obtain c n where n: "k = c # n" "name_start c" using wf(1) by (cases k) (auto simp: xml_name_def)
  then have c: "c \<noteq> CHR ''>''" "c \<noteq> CHR ''/''" "\<not> xml_space c" using name_start_no by auto
  have "xml_attrs (CHR '' '' # ?t) = (case xml_attrs ?rest of None \<Rightarrow> None
      | Some (as, e, r') \<Rightarrow> if k \<in> fst ` set as then None else Some ((k, attr_norm v) # as, e, r'))"
  proof -
    have ws: "dropWhile xml_space (CHR '' '' # ?t) = ?t" using c n by (simp add: xml_space_def)
    have "take 1 ?t \<noteq> ''>''" "take 2 ?t \<noteq> ''/>''" "?t \<noteq> CHR '' '' # ?t" using c n by auto
    then show ?thesis
      by (subst xml_attrs.simps) (simp only: ws Let_def read_attr_written [OF wf] if_False option.case prod.case fst_conv)
  qed
  moreover have "k \<notin> fst ` set (map (\<lambda>(k, v). (k, attr_norm v)) as)" using Cons.prems(1) kv by (auto simp: image_iff split_beta)
  moreover have "concat (map write_attr (kv # as)) @ t = CHR '' '' # ?t" by (simp add: kv write_attr_def)
  ultimately show ?case using Cons kv by simp
qed

text \<open>The tokens of an element.\<close>

fun xml_toks :: "xml \<Rightarrow> xtoken list" where
  "xml_toks (XElem n a ks) =
     (if ks = [] then [XEmpty n a] else XStart n a # concat (map xml_toks ks) @ [XEnd n])"
| "xml_toks (XText t) = [XChars t]"
| "xml_toks (XMisc t) = [XOther t]"

lemma read_start_written:
  assumes "xml_name n" "distinct (map fst as)" "list_all (\<lambda>(k, v). xml_name k \<and> list_all xml_char v) as"
    "xml_attrs t = Some ([], e, r)" "t \<noteq> []" "\<not> name_char (hd t)"
  shows "one_token (CHR ''<'' # n @ concat (map write_attr as) @ t)
    = Some ((if e then XEmpty n else XStart n) (map (\<lambda>(k, v). (k, attr_norm v)) as), r)"
proof -
  obtain c n' where n: "n = c # n'" "name_start c" using assms(1) by (cases n) (auto simp: xml_name_def)
  then have c: "c \<noteq> CHR ''!''" "c \<noteq> CHR ''?''" "c \<noteq> CHR ''/''" using name_start_no by auto
  obtain d u where d: "concat (map write_attr as) @ t = d # u" "\<not> name_char d"
    using assms(5,6) name_char_stops(2) by (cases as; cases t) (auto simp: write_attr_def)
  have name: "takeWhile name_char (n @ concat (map write_attr as) @ t) = n"
    unfolding d(1) by (rule take_name [OF assms(1) d(2)])
  have "one_token (CHR ''<'' # n @ concat (map write_attr as) @ t) = read_start (n @ concat (map write_attr as) @ t)"
    using n c by (simp add: one_token_def)
  also have "\<dots> = Some ((if e then XEmpty n else XStart n) (map (\<lambda>(k, v). (k, attr_norm v)) as), r)"
    using assms(1) unfolding read_start_def name Let_def
    by (simp add: xml_name_def xml_attrs_written [OF assms(2-4)])
  finally show ?thesis .
qed

lemma read_end_written:
  assumes "xml_name n"
  shows "one_token (''</'' @ n @ CHR ''>'' # s) = Some (XEnd n, s)"
proof -
  have "one_token (''</'' @ n @ CHR ''>'' # s) = read_end (n @ CHR ''>'' # s)" by (simp add: one_token_def)
  then show ?thesis
    using assms by (simp add: read_end_def take_name [OF assms name_char_stops(4)] xml_space_def xml_name_def)
qed

lemma xml_tokens_step: "one_token s = Some (x, r) \<Longrightarrow> s \<noteq> [] \<Longrightarrow> xml_tokens s = map_option ((#) x) (xml_tokens r)"
  by (simp add: xml_tokens.simps [of s])

lemma xml_tokens_written:
  assumes "xml_wf e"
  shows "xml_tokens (xml_write e @ s) = map_option ((@) (xml_toks (xml_norm e))) (xml_tokens s)"
  using assms
proof (induction e arbitrary: s)
  case (XElem n a ks)
  let ?a = "map (\<lambda>(k, v). (k, attr_norm v)) a"
  have wf: "xml_name n" "distinct (map fst a)" "list_all (\<lambda>(k, v). xml_name k \<and> list_all xml_char v) a" "list_all xml_wf ks"
    using XElem.prems by auto
  show ?case
  proof (cases "ks = []")
    case True
    have "one_token (CHR ''<'' # n @ concat (map write_attr a) @ ''/>'' @ s) = Some ((if True then XEmpty n else XStart n) ?a, s)"
      by (rule read_start_written [OF wf(1-3)]) (simp_all add: xml_attrs_end name_char_stops)
    from xml_tokens_step [OF this] True show ?thesis by (simp add: comp_def)
  next
    case False
    let ?rest = "''</'' @ n @ CHR ''>'' # s"
    have close: "xml_tokens ?rest = map_option ((#) (XEnd n)) (xml_tokens s)"
      by (rule xml_tokens_step [OF read_end_written [OF wf(1)]]) simp
    have kids: "xml_tokens (concat (map xml_write ks') @ ?rest)
        = map_option ((@) (concat (map (xml_toks \<circ> xml_norm) ks'))) (xml_tokens ?rest)" if "set ks' \<subseteq> set ks" for ks'
      using that wf(4)
    proof (induction ks')
      case (Cons k ks')
      then show ?case using XElem.IH [of k "concat (map xml_write ks') @ ?rest"]
        by (auto simp: list_all_iff option.map_comp comp_def)
    qed (simp add: append_Nil [abs_def] option.map_ident)
    have "one_token (CHR ''<'' # n @ concat (map write_attr a) @ CHR ''>'' # concat (map xml_write ks) @ ?rest)
        = Some ((if False then XEmpty n else XStart n) ?a, concat (map xml_write ks) @ ?rest)"
      by (rule read_start_written [OF wf(1-3)]) (simp_all add: xml_attrs_end name_char_stops)
    from xml_tokens_step [OF this] have "xml_tokens (xml_write (XElem n a ks) @ s)
        = map_option ((#) (XStart n ?a)) (xml_tokens (concat (map xml_write ks) @ ?rest))"
      using False by simp
    also have "\<dots> = map_option ((#) (XStart n ?a)) (map_option ((@) (concat (map (xml_toks \<circ> xml_norm) ks))) (map_option ((#) (XEnd n)) (xml_tokens s)))"
      unfolding kids [OF order_refl] close ..
    finally show ?thesis using False by (simp add: option.map_comp comp_def)
  qed
qed auto

lemma xml_build_toks:
  assumes "xml_wf e"
  shows "xml_build (xml_toks (xml_norm e) @ ts) st cur = xml_build ts st (xml_norm e # cur)"
  using assms
proof (induction e arbitrary: ts st cur)
  case (XElem n a ks)
  have kids: "xml_build (concat (map (xml_toks \<circ> xml_norm) ks') @ ts) st cur = xml_build ts st (rev (map xml_norm ks') @ cur)"
    if "set ks' \<subseteq> set ks" for ks' ts st cur
    using that XElem.prems
  proof (induction ks' arbitrary: cur)
    case (Cons k ks')
    then show ?case using XElem.IH [of k] by (auto simp: list_all_iff)
  qed simp
  show ?case using kids [OF order_refl] by (simp add: comp_def)
qed auto

theorem xml_roundtrip:
  assumes "xml_wf e"
  shows "xml_parse (writexml e) = Some (xml_norm e)"
proof -
  have elem: "is_elem (xml_norm e)" "blank_text (xml_norm e)" using assms by (cases e; simp)+
  have "cut_str ''?>'' (xml_decl @ s) = Some (butlast (butlast xml_decl), s)" for s
    by (simp add: xml_decl_def)
  then have decl: "drop_decl (writexml e) = Some (xml_write e)" by (simp add: drop_decl_def writexml_def) (simp add: xml_decl_def)
  have toks: "xml_tokens (xml_write e) = Some (xml_toks (xml_norm e))"
    using xml_tokens_written [OF assms, of "[]"] by (simp add: xml_tokens.simps [of "[]"])
  have "xml_build (xml_toks (xml_norm e)) [] [] = Some [xml_norm e]"
    using xml_build_toks [OF assms, of "[]" "[]" "[]"] by simp
  then show ?thesis unfolding xml_parse_def decl by (simp add: toks elem)
qed

end
