(* ===== verification/Perfmon_Variable.thy ===== *)
theory Perfmon_Variable
  imports Api_Script Py_Xml
begin

text \<open>
  The daemon \<^verbatim>\<open>python3/bin/perfmon\<close>, first part: the variables it watches, how their
  values are computed, and when they raise an alarm. Regular expressions, the
  clock, the file system, the API and the memory of the host are arguments.
\<close>

section \<open>Environment and state\<close>

datatype perf_error =
    Perf_Config string
  | Perf_ValueError
  | Perf_IndexError
  | Perf_OSError
  | Perf_Refused
  | Perf_Http nat
  | Perf_Expat
  | Perf_Changed
  | Perf_Api script_error

text \<open>
  Clock readings are counted in units of \<open>2 ^ -22\<close> seconds: the readings of \<^verbatim>\<open>time.time()\<close>
  from 2004 to 2038 are such multiples, and their differences and sums
  with the periods are exact.
\<close>

definition ticks :: int where
  "ticks = 4194304"

text \<open>
  \<open>pm_regex\<close> is \<^verbatim>\<open>re.compile\<close> and \<^verbatim>\<open>match\<close> of an expression between \<^verbatim>\<open>^\<close> and \<^verbatim>\<open>$\<close>; \<open>pm_df\<close> what \<^verbatim>\<open>df\<close> prints
  about a path; \<open>pm_meminfo\<close> the file \<^verbatim>\<open>/proc/meminfo\<close>; \<open>pm_api\<close> the other calls; \<open>pm_create\<close> whether a message could be created.
\<close>

record 'k perf_env =
  pm_step :: int
  pm_time :: "'k \<Rightarrow> int \<times> 'k"
  pm_regex :: "string \<Rightarrow> (string \<Rightarrow> bool) option"
  pm_df :: "string \<Rightarrow> 'k \<Rightarrow> string \<times> 'k"
  pm_meminfo :: "'k \<Rightarrow> string option \<times> 'k"
  pm_api :: "string \<Rightarrow> string list \<Rightarrow> 'k \<Rightarrow> (perf_error + mval) \<times> 'k"
  pm_create :: "string list \<Rightarrow> 'k \<Rightarrow> (perf_error + unit) \<times> 'k"

text \<open>An alarm: the name of the variable, its priority, the kind and identifier of the object, the value, and when.\<close>

record alarm =
  al_variable :: string
  al_priority :: string
  al_kind :: string
  al_uuid :: string
  al_value :: f64
  al_time :: int

record 'k perf =
  pf_machine :: 'k
  pf_alarms :: "alarm list"

type_synonym ('k, 'a) pf_op = "('k perf, perf_error, 'a) st"

definition pf_with :: "('k \<Rightarrow> 'r \<times> 'k) \<Rightarrow> ('k, 'r) pf_op" where
  "pf_with f s = (case f (pf_machine s) of (r, k) \<Rightarrow> (Inr r, s\<lparr>pf_machine := k\<rparr>))"

section \<open>Floats\<close>

definition float_nan :: "f64 \<Rightarrow> bool" where
  "float_nan x \<longleftrightarrow> inf_bits < float_mag x"

definition float_key :: "f64 \<Rightarrow> int" where
  "float_key x = (if float_neg x then - float_mag x else float_mag x)"

definition float_lt :: "f64 \<Rightarrow> f64 \<Rightarrow> bool" where
  "float_lt x y \<longleftrightarrow> \<not> float_nan x \<and> \<not> float_nan y \<and> float_key x < float_key y"

definition float_zero :: f64 where
  "float_zero = mk_float False 0"

definition float_add :: "f64 \<Rightarrow> f64 \<Rightarrow> f64" where
  "float_add x y =
     (let a = float_mag x; b = float_mag y in
      if float_nan x \<or> float_nan y \<or> a = inf_bits \<and> b = inf_bits \<and> float_neg x \<noteq> float_neg y then mk_float False nan_bits
      else if a = inf_bits then x
      else if b = inf_bits then y
      else case (mag_fraction a, mag_fraction b) of ((p, q), (p', q')) \<Rightarrow>
        (let n = (if float_neg x then - p else p) * q' + (if float_neg y then - p' else p') * q in
         mk_float (n < 0 \<or> n = 0 \<and> float_neg x \<and> float_neg y)
           (case round_double \<bar>n\<bar> (q * q') of None \<Rightarrow> inf_bits | Some m \<Rightarrow> m)))"

definition float_minus :: "f64 \<Rightarrow> f64" where
  "float_minus x = mk_float (\<not> float_neg x) (float_mag x)"

text \<open>\<^verbatim>\<open>sum\<close> adds from left to right, beginning with 0 (before Python 3.12).\<close>

definition py_sum :: "f64 list \<Rightarrow> f64" where
  "py_sum xs = foldl float_add float_zero xs"

text \<open>\<^verbatim>\<open>max\<close> keeps the first of the largest; it raises when there is nothing.\<close>

definition py_max :: "f64 list \<Rightarrow> perf_error + f64" where
  "py_max xs = (case xs of [] \<Rightarrow> Inl Perf_ValueError | x # ys \<Rightarrow> Inr (foldl (\<lambda>m y. if float_lt m y then y else m) x ys))"

section \<open>Consolidation\<close>

datatype consolidation = C_sum | C_average | C_max | C_fs | C_log_fs | C_mem | C_sr

definition supported_consolidation_functions :: "(string \<times> consolidation) list" where
  "supported_consolidation_functions =
     [(''sum'', C_sum), (''average'', C_average), (''max'', C_max), (''get_percent_fs_usage'', C_fs),
      (''get_percent_log_fs_usage'', C_log_fs), (''get_percent_mem_usage'', C_mem), (''get_percent_sr_usage'', C_sr)]"

definition float_of_nat :: "nat \<Rightarrow> f64" where
  "float_of_nat n = (case float_of_int (int n) of Inr x \<Rightarrow> x | Inl e \<Rightarrow> float_zero)"

definition or_zero :: "'e + f64 \<Rightarrow> f64" where
  "or_zero r = (case r of Inr x \<Rightarrow> x | Inl e \<Rightarrow> float_zero)"

definition average :: "f64 list \<Rightarrow> f64" where
  "average xs = (if xs = [] then float_zero else or_zero (float_div (py_sum xs) (float_of_nat (length xs))))"

definition get_percent_sr_usage :: "f64 list \<Rightarrow> f64" where
  "get_percent_sr_usage xs =
     (case xs of
        [physical_utilisation, sz] \<Rightarrow> or_zero (float_div physical_utilisation sz)
      | _ \<Rightarrow> float_zero)"

text \<open>The words of the output of \<^verbatim>\<open>df\<close> after the heading, and the use in percent as a fraction.\<close>

definition df_words :: "string \<Rightarrow> string list" where
  "df_words t = words (py_join '' '' (drop 1 (splitlines t)))"

definition df_percent :: "string list \<Rightarrow> perf_error + f64" where
  "df_percent ws =
     (if length ws < 5 then Inl Perf_IndexError
      else case float_of_str (butlast (ws ! 4)) of
        Inl e \<Rightarrow> Inl Perf_ValueError
      | Inr x \<Rightarrow> Inr (or_zero (float_div x (float_of_nat 100))))"

definition get_percent_fs_usage :: "'k perf_env \<Rightarrow> ('k, f64) pf_op" where
  "get_percent_fs_usage ev = bnd (pf_with (pm_df ev ''/etc/passwd'')) (\<lambda>t. lift_sum (df_percent (df_words t)))"

definition get_percent_log_fs_usage :: "'k perf_env \<Rightarrow> ('k, f64) pf_op" where
  "get_percent_log_fs_usage ev =
     bnd (pf_with (pm_df ev ''/etc/passwd'')) (\<lambda>t.
     bnd (pf_with (pm_df ev ''/var/log'')) (\<lambda>u.
     lift_sum
       (if df_words t = [] \<or> df_words u = [] then Inl Perf_IndexError
        else if hd (df_words t) \<noteq> hd (df_words u) then df_percent (df_words u)
        else Inr (mk_float False nan_bits))))"

text \<open>A line of \<^verbatim>\<open>/proc/meminfo\<close>: the name and the first number after the colon.\<close>

definition mem_line :: "string \<Rightarrow> (string \<times> f64) option" where
  "mem_line line =
     (case py_find CHR '':'' line of
        None \<Rightarrow> None
      | Some i \<Rightarrow>
          (let ds = takeWhile is_digit (dropWhile (\<lambda>c. \<not> is_digit c) (drop (i + 1) line)) in
           if ds = [] then None
           else case float_of_str ds of Inl e \<Rightarrow> None | Inr x \<Rightarrow> Some (py_strip (take i line), x)))"

fun all_some :: "'a option list \<Rightarrow> 'a list option" where
  "all_some [] = Some []"
| "all_some (None # xs) = None"
| "all_some (Some x # xs) = map_option ((#) x) (all_some xs)"

definition mem_usage :: "string \<Rightarrow> f64 option" where
  "mem_usage t =
     (case all_some (map mem_line (splitlines t)) of
        None \<Rightarrow> None
      | Some kvs \<Rightarrow>
          (let m = map_of (rev kvs); minus = (\<lambda>x y. float_add x (float_minus y)) in
           case (m ''MemTotal'', m ''MemFree'', m ''Buffers'', m ''Cached'', m ''SwapTotal'', m ''SwapFree'') of
             (Some mem, Some free, Some buffers, Some cached, Some swap, Some swap_free) \<Rightarrow>
               (case float_div (float_add (minus (minus (minus mem free) buffers) cached) (minus swap swap_free)) mem of
                  Inl e \<Rightarrow> None | Inr x \<Rightarrow> Some x)
           | _ \<Rightarrow> None))"

definition get_percent_mem_usage :: "'k perf_env \<Rightarrow> ('k, f64) pf_op" where
  "get_percent_mem_usage ev =
     bnd (pf_with (pm_meminfo ev)) (\<lambda>f.
     ret (case f of None \<Rightarrow> float_zero | Some t \<Rightarrow> (case mem_usage t of None \<Rightarrow> float_zero | Some x \<Rightarrow> x)))"

definition consolidate :: "'k perf_env \<Rightarrow> consolidation \<Rightarrow> f64 list \<Rightarrow> ('k, f64) pf_op" where
  "consolidate ev fn xs =
     (case fn of
        C_sum \<Rightarrow> ret (py_sum xs)
      | C_average \<Rightarrow> ret (average xs)
      | C_max \<Rightarrow> lift_sum (py_max xs)
      | C_fs \<Rightarrow> get_percent_fs_usage ev
      | C_log_fs \<Rightarrow> get_percent_log_fs_usage ev
      | C_mem \<Rightarrow> get_percent_mem_usage ev
      | C_sr \<Rightarrow> ret (get_percent_sr_usage xs))"

section \<open>Configuration of a variable\<close>

text \<open>\<^verbatim>\<open>getElementsByTagName\<close>: the elements below, in the order of the document.\<close>

fun by_tag :: "string \<Rightarrow> xml \<Rightarrow> xml list" where
  "by_tag t (XElem n a ks) = concat (map (\<lambda>k. (if is_elem k \<and> xtag k = t then [k] else []) @ by_tag t k) ks)"
| "by_tag t _ = []"

definition attr_text :: "string \<Rightarrow> xml \<Rightarrow> string" where
  "attr_text k x = (case getAttribute k x of None \<Rightarrow> [] | Some v \<Rightarrow> v)"

record variable =
  v_name :: string
  v_xml :: xml
  v_regex :: string
  v_fn :: consolidation
  v_period :: int
  v_inhibit :: int
  v_level :: f64
  v_high :: bool
  v_priority :: string
  v_value :: "f64 option"
  v_last :: int
  v_counter :: int
  v_active :: bool

text \<open>The defaults depend on the kind of the monitor: the name and the tag give a text or an error.\<close>

type_synonym defaults = "string \<Rightarrow> string \<Rightarrow> perf_error + string"

definition config_value :: "defaults \<Rightarrow> xml \<Rightarrow> string \<Rightarrow> string \<Rightarrow> perf_error + string" where
  "config_value defaults xmldoc name tag =
     (case by_tag tag xmldoc of [] \<Rightarrow> defaults name tag | x # xs \<Rightarrow> Inr (attr_text ''value'' x))"

definition or_config :: "'a option \<Rightarrow> perf_error + 'a" where
  "or_config r = (case r of None \<Rightarrow> Inl (Perf_Config []) | Some x \<Rightarrow> Inr x)"

text \<open>\<^verbatim>\<open>VariableConfig\<close>, with the state of a new variable still open.\<close>

definition variable_config :: "'k perf_env \<Rightarrow> defaults \<Rightarrow> xml \<Rightarrow> perf_error + variable" where
  "variable_config ev defaults xmldoc =
     sbind (case by_tag ''name'' xmldoc of [] \<Rightarrow> Inl (Perf_Config []) | x # xs \<Rightarrow> Inr (attr_text ''value'' x)) (\<lambda>name.
     sbind (config_value defaults xmldoc name ''rrd_regex'') (\<lambda>rrd_regex.
     sbind (config_value defaults xmldoc name ''consolidation_fn'') (\<lambda>consolidation_fn.
     sbind (config_value defaults xmldoc name ''alarm_trigger_level'') (\<lambda>alarm_trigger_level.
     sbind (config_value defaults xmldoc name ''alarm_trigger_period'') (\<lambda>alarm_trigger_period.
     sbind (config_value defaults xmldoc name ''alarm_auto_inhibit_period'') (\<lambda>alarm_auto_inhibit_period.
     sbind (config_value defaults xmldoc name ''alarm_trigger_sense'') (\<lambda>alarm_trigger_sense.
     sbind (config_value defaults xmldoc name ''alarm_priority'') (\<lambda>alarm_priority.
     sbind (or_config (pm_regex ev rrd_regex)) (\<lambda>m.
     sbind (or_config (map_of supported_consolidation_functions consolidation_fn)) (\<lambda>fn.
     sbind (or_config (py_int 10 alarm_trigger_period)) (\<lambda>period.
     sbind (or_config (py_int 10 alarm_auto_inhibit_period)) (\<lambda>inhibit.
     sbind (case float_of_str alarm_trigger_level of Inl e \<Rightarrow> Inl (Perf_Config []) | Inr x \<Rightarrow> Inr x) (\<lambda>trigger_level.
     Inr \<lparr>v_name = name, v_xml = xmldoc, v_regex = rrd_regex, v_fn = fn, v_period = period, v_inhibit = inhibit,
          v_level = trigger_level, v_high = (alarm_trigger_sense = ''high''), v_priority = alarm_priority,
          v_value = None, v_last = 0, v_counter = 0, v_active = True\<rparr>)))))))))))))"

definition variable_configs_differ :: "variable \<Rightarrow> variable \<Rightarrow> bool" where
  "variable_configs_differ v w \<longleftrightarrow> xml_write (v_xml v) \<noteq> xml_write (v_xml w)"

text \<open>\<^verbatim>\<open>VariableState.__init__\<close>, at a reading of the clock; \<^verbatim>\<open>Variable\<close>; \<^verbatim>\<open>set_active\<close>.\<close>

definition fresh_state :: "int \<Rightarrow> variable \<Rightarrow> variable" where
  "fresh_state t v = v\<lparr>v_value := None, v_last := t - v_inhibit v * ticks, v_counter := v_period v\<rparr>"

definition new_variable :: "'k perf_env \<Rightarrow> defaults \<Rightarrow> xml \<Rightarrow> ('k, variable) pf_op" where
  "new_variable ev defaults xmldoc =
     bnd (lift_sum (variable_config ev defaults xmldoc)) (\<lambda>v.
     bnd (pf_with (pm_time ev)) (\<lambda>t. ret (fresh_state t v)))"

definition set_active :: "'k perf_env \<Rightarrow> bool \<Rightarrow> variable \<Rightarrow> ('k, variable) pf_op" where
  "set_active ev active v =
     (if active = v_active v then ret v
      else if active then bnd (pf_with (pm_time ev)) (\<lambda>t. ret (fresh_state t (v\<lparr>v_active := True\<rparr>)))
      else ret (v\<lparr>v_active := False\<rparr>))"

section \<open>Alarms\<close>

definition test_level :: "variable \<Rightarrow> f64 \<Rightarrow> bool" where
  "test_level v x \<longleftrightarrow> (if v_high v then float_lt (v_level v) x else float_lt x (v_level v))"

text \<open>
  The time of the last alarm is set before the message is created. When that
  fails, the exception leaves \<^verbatim>\<open>update\<close>: the pair is the variable and how it ended.
\<close>

definition alarm_create :: "'k perf_env \<Rightarrow> string \<Rightarrow> string \<Rightarrow> variable \<Rightarrow> f64 \<Rightarrow> ('k, perf_error + unit) pf_op" where
  "alarm_create ev kind uuid v x =
     bnd (pf_with (pm_create ev [''ALARM'', v_priority v, kind, uuid])) (\<lambda>r.
     case r of
       Inl e \<Rightarrow> ret (Inl e)
     | Inr u \<Rightarrow>
         seq (modify (\<lambda>s. s\<lparr>pf_alarms := pf_alarms s @ [\<lparr>al_variable = v_name v, al_priority = v_priority v, al_kind = kind, al_uuid = uuid, al_value = x, al_time = v_last v\<rparr>]\<rparr>))
             (ret (Inr ())))"

definition generate_alarm :: "'k perf_env \<Rightarrow> string \<Rightarrow> string \<Rightarrow> variable \<Rightarrow> f64 \<Rightarrow> ('k, variable \<times> (perf_error + unit)) pf_op" where
  "generate_alarm ev kind uuid v x =
     bnd (pf_with (pm_time ev)) (\<lambda>t.
     if t - v_last v < v_inhibit v * ticks then ret (v, Inr ())
     else (let v = v\<lparr>v_last := t\<rparr> in bnd (alarm_create ev kind uuid v x) (\<lambda>r. ret (v, r))))"

definition update_variable :: "'k perf_env \<Rightarrow> string \<Rightarrow> string \<Rightarrow> variable \<Rightarrow> f64 \<Rightarrow> ('k, variable \<times> (perf_error + unit)) pf_op" where
  "update_variable ev kind uuid v x =
     (let v = v\<lparr>v_value := Some x\<rparr> in
      if test_level v x then
        (let v = v\<lparr>v_counter := v_counter v - pm_step ev\<rparr> in
         if v_counter v \<le> 0 then
           bnd (generate_alarm ev kind uuid v x) (\<lambda>(v, r).
           ret (case r of Inl e \<Rightarrow> (v, Inl e) | Inr u \<Rightarrow> (v\<lparr>v_counter := v_period v\<rparr>, Inr ())))
         else ret (v, Inr ()))
      else ret (v\<lparr>v_counter := v_period v\<rparr>, Inr ()))"

end
