(* ===== verification/Perfmon_Rrd.thy ===== *)
theory Perfmon_Rrd
  imports Perfmon_Variable
begin

text \<open>
  The daemon \<^verbatim>\<open>python3/bin/perfmon\<close>, second part: the reports of the statistics
  daemon. \<^verbatim>\<open>RRDContentHandler\<close> is a state machine over the events of an XML reader.
\<close>

section \<open>Reports\<close>

record obj_report =
  or_type :: string
  or_uuid :: string
  or_vars :: "(string \<times> f64 list) list"

record rrd_report =
  rr_columns :: int
  rr_rows :: int
  rr_start :: int
  rr_end :: int
  rr_step :: int
  rr_objs :: "(string \<times> obj_report) list"

definition empty_report :: rrd_report where
  "empty_report = \<lparr>rr_columns = 0, rr_rows = 0, rr_start = 0, rr_end = 0, rr_step = 0, rr_objs = []\<rparr>"

definition get_var_names :: "obj_report \<Rightarrow> string list" where
  "get_var_names r = map fst (or_vars r)"

definition get_value :: "obj_report \<Rightarrow> string \<Rightarrow> nat \<Rightarrow> f64" where
  "get_value r var_name row =
     (case map_of (or_vars r) var_name of
        Some xs \<Rightarrow> if row < length xs then xs ! row else float_zero
      | None \<Rightarrow> float_zero)"

text \<open>\<^verbatim>\<open>insert_value\<close> at the index 0, the only one that is used.\<close>

definition insert_value :: "string \<Rightarrow> f64 \<Rightarrow> obj_report \<Rightarrow> obj_report" where
  "insert_value var_name x r =
     r\<lparr>or_vars := AList.update var_name (x # (case map_of (or_vars r) var_name of None \<Rightarrow> [] | Some xs \<Rightarrow> xs)) (or_vars r)\<rparr>"

section \<open>The handler\<close>

text \<open>A column is the name of a parameter and the identifier of the object whose report it belongs to.\<close>

record handler =
  h_report :: rrd_report
  h_start :: bool
  h_step :: bool
  h_end :: bool
  h_rows :: bool
  h_columns :: bool
  h_entry :: bool
  h_row :: bool
  h_t :: bool
  h_v :: bool
  h_details :: "(string \<times> string) list"
  h_rownum :: nat
  h_col :: nat
  h_text :: string

definition new_handler :: "rrd_report \<Rightarrow> handler" where
  "new_handler r = \<lparr>h_report = r, h_start = False, h_step = False, h_end = False, h_rows = False, h_columns = False, h_entry = False,
     h_row = False, h_t = False, h_v = False, h_details = [], h_rownum = 0, h_col = 0, h_text = []\<rparr>"

definition startElement :: "string \<Rightarrow> handler \<Rightarrow> handler" where
  "startElement name h =
     (let h = h\<lparr>h_text := []\<rparr>;
          h = (if name = ''start'' then h\<lparr>h_start := True\<rparr>
               else if name = ''step'' then h\<lparr>h_step := True\<rparr>
               else if name = ''end'' then h\<lparr>h_end := True\<rparr>
               else if name = ''rows'' then h\<lparr>h_rows := True\<rparr>
               else if name = ''columns'' then h\<lparr>h_columns := True\<rparr>
               else if name = ''entry'' then h\<lparr>h_entry := True\<rparr>
               else if name = ''row'' then h\<lparr>h_row := True, h_col := 0\<rparr>
               else h) in
      if h_row h then
        (if name = ''t'' then h\<lparr>h_t := True\<rparr> else if name = ''v'' then h\<lparr>h_v := True\<rparr> else h)
      else h)"

definition characters :: "string \<Rightarrow> handler \<Rightarrow> handler" where
  "characters content h =
     (if h_start h \<or> h_step h \<or> h_end h \<or> h_rows h \<or> h_columns h \<or> h_entry h \<or> h_t h \<or> h_v h
      then h\<lparr>h_text := h_text h @ content\<rparr> else h)"

definition text_int :: "handler \<Rightarrow> perf_error + int" where
  "text_int h = (case py_int 10 (h_text h) of None \<Rightarrow> Inl Perf_ValueError | Some n \<Rightarrow> Inr n)"

text \<open>\<^verbatim>\<open>(_, objtype, uuid, paramname) = self.raw_text.split(":")\<close>\<close>

definition end_entry :: "handler \<Rightarrow> perf_error + handler" where
  "end_entry h =
     (case py_split CHR '':'' (h_text h) of
        [x, objtype, uuid, paramname] \<Rightarrow>
          (let r = h_report h;
               r = (if map_of (rr_objs r) uuid = None
                    then r\<lparr>rr_objs := rr_objs r @ [(uuid, \<lparr>or_type = objtype, or_uuid = uuid, or_vars = []\<rparr>)]\<rparr> else r) in
           Inr (h\<lparr>h_report := r, h_details := h_details h @ [(paramname, uuid)], h_entry := False\<rparr>))
      | _ \<Rightarrow> Inl Perf_ValueError)"

definition end_v :: "handler \<Rightarrow> perf_error + handler" where
  "end_v h =
     sbind (case float_of_str (h_text h) of Inl e \<Rightarrow> Inl Perf_ValueError | Inr x \<Rightarrow> Inr x) (\<lambda>v.
     if h_col h < length (h_details h) then
       (case h_details h ! h_col h of (paramname, uuid) \<Rightarrow>
          (let r = h_report h in
           Inr (h\<lparr>h_report := r\<lparr>rr_objs := map (\<lambda>(u, x). (u, if u = uuid then insert_value paramname v x else x)) (rr_objs r)\<rparr>,
                  h_col := h_col h + 1, h_v := False\<rparr>)))
     else Inl Perf_IndexError)"

definition endElement :: "string \<Rightarrow> handler \<Rightarrow> perf_error + handler" where
  "endElement name h =
     (let r = h_report h in
      if name = ''start'' then sbind (text_int h) (\<lambda>n. Inr (h\<lparr>h_report := r\<lparr>rr_start := n\<rparr>, h_start := False\<rparr>))
      else if name = ''step'' then sbind (text_int h) (\<lambda>n. Inr (h\<lparr>h_report := r\<lparr>rr_step := n\<rparr>, h_step := False\<rparr>))
      else if name = ''end'' then sbind (text_int h) (\<lambda>n. Inr (h\<lparr>h_report := r\<lparr>rr_end := n\<rparr>, h_end := False\<rparr>))
      else if name = ''rows'' then sbind (text_int h) (\<lambda>n. Inr (h\<lparr>h_report := r\<lparr>rr_rows := n\<rparr>, h_rows := False\<rparr>))
      else if name = ''columns'' then sbind (text_int h) (\<lambda>n. Inr (h\<lparr>h_report := r\<lparr>rr_columns := n\<rparr>, h_columns := False\<rparr>))
      else if name = ''entry'' then end_entry h
      else if name = ''row'' then Inr (h\<lparr>h_row := False, h_rownum := h_rownum h + 1\<rparr>)
      else if name = ''t'' then
        sbind (text_int h) (\<lambda>n.
          (let r = r\<lparr>rr_start := n\<rparr>; r = (if h_rownum h = 0 then r\<lparr>rr_end := n\<rparr> else r) in
           Inr (h\<lparr>h_report := r, h_t := False\<rparr>)))
      else if name = ''v'' then end_v h
      else Inr h)"

text \<open>The events of a token; comments and instructions give none.\<close>

fun sax_event :: "xtoken \<Rightarrow> handler \<Rightarrow> perf_error + handler" where
  "sax_event (XStart n a) h = Inr (startElement n h)"
| "sax_event (XEnd n) h = endElement n h"
| "sax_event (XEmpty n a) h = endElement n (startElement n h)"
| "sax_event (XChars t) h = Inr (characters t h)"
| "sax_event (XCdata t) h = Inr (characters t h)"
| "sax_event (XOther t) h = Inr h"

definition sax_parse :: "string \<Rightarrow> perf_error + xtoken list" where
  "sax_parse s =
     (case (xml_parse s, drop_decl s) of
        (Some x, Some t) \<Rightarrow> (case xml_tokens t of None \<Rightarrow> Inl Perf_Expat | Some ts \<Rightarrow> Inr ts)
      | _ \<Rightarrow> Inl Perf_Expat)"

definition read_report :: "string \<Rightarrow> perf_error + rrd_report" where
  "read_report s =
     sbind (sax_parse s) (\<lambda>ts.
     sbind (sfold sax_event ts (new_handler empty_report)) (\<lambda>h. Inr (h_report h)))"

section \<open>Asking for updates\<close>

record rrd_updates =
  ru_start :: int
  ru_report :: rrd_report

definition updates_url :: "string \<Rightarrow> int \<Rightarrow> int \<Rightarrow> string" where
  "updates_url session start step =
     ''http://localhost/rrd_updates?session_id='' @ session @ ''&start='' @ int_text start @ ''&host=true&sr_uuid=all&cf=AVERAGE&interval='' @ int_text step"

text \<open>\<open>fetch\<close> is the answer to a request for a URL.\<close>

definition refresh_updates ::
  "'k perf_env \<Rightarrow> (string \<Rightarrow> 'k \<Rightarrow> (perf_error + string) \<times> 'k) \<Rightarrow> string \<Rightarrow> rrd_updates \<Rightarrow> ('k, rrd_updates) pf_op" where
  "refresh_updates ev fetch session u =
     bnd (pf_with (fetch (updates_url session (ru_start u) (pm_step ev)))) (\<lambda>r.
     bnd (lift_sum r) (\<lambda>xmlsource.
     bnd (lift_sum (read_report xmlsource)) (\<lambda>report.
     ret \<lparr>ru_start = rr_end report + 1, ru_report = report\<rparr>)))"

definition get_obj_report_by_uuid :: "rrd_updates \<Rightarrow> string \<Rightarrow> obj_report option" where
  "get_obj_report_by_uuid u uuid = map_of (rr_objs (ru_report u)) uuid"

definition get_uuid_list_by_objtype :: "rrd_updates \<Rightarrow> string \<Rightarrow> string list" where
  "get_uuid_list_by_objtype u objtype = map (or_uuid \<circ> snd) (filter (\<lambda>(k, r). or_type r = objtype) (rr_objs (ru_report u)))"

end
