(* ===== verification/Perfmon_Monitor.thy ===== *)
theory Perfmon_Monitor
  imports Perfmon_Rrd
begin

text \<open>
  The daemon \<^verbatim>\<open>python3/bin/perfmon\<close>, third part: the monitors of machines, storage
  repositories and the host, which keep the variables of an object in step with its
  configuration and give them the values of a report. Sets are lists in the order
  in which Python iterates over them; elements \<^verbatim>\<open>variable\<close> are not nested.
\<close>

section \<open>Defaults\<close>

definition common_default :: "string \<Rightarrow> perf_error + string" where
  "common_default config_tag =
     (if config_tag = ''alarm_trigger_period'' then Inr ''60''
      else if config_tag = ''alarm_auto_inhibit_period'' then Inr ''3600''
      else if config_tag = ''alarm_priority'' then Inr ''3''
      else Inl (Perf_Config []))"

definition vm_default_config :: defaults where
  "vm_default_config variable_name config_tag =
     (if config_tag = ''consolidation_fn'' then
        (if variable_name = ''cpu_usage'' then Inr ''average''
         else if variable_name = ''fs_usage'' then Inr ''get_percent_fs_usage''
         else if variable_name = ''log_fs_usage'' then Inr ''get_percent_log_fs_usage''
         else if variable_name = ''mem_usage'' then Inr ''get_percent_mem_usage''
         else Inr ''sum'')
      else if config_tag = ''rrd_regex'' then
        (if variable_name = ''cpu_usage'' then Inr ''cpu[0-9]+''
         else if variable_name = ''network_usage'' then Inr ''vif_[0-9]+_[rt]x''
         else if variable_name = ''disk_usage'' then Inr ''vbd_(xvd|hd)[a-z]+_(read|write)''
         else if variable_name \<in> {''fs_usage'', ''log_fs_usage'', ''mem_usage''} then Inr ''_$_DUMMY__''
         else if variable_name = ''memory_internal_free'' then Inr variable_name
         else Inl (Perf_Config []))
      else if config_tag = ''alarm_trigger_level'' then
        (if variable_name = ''fs_usage'' \<or> variable_name = ''log_fs_usage'' then Inr ''0.9''
         else if variable_name = ''mem_usage'' then Inr ''0.95''
         else Inl (Perf_Config []))
      else if config_tag = ''alarm_trigger_sense'' then Inr (if variable_name = ''memory_internal_free'' then ''low'' else ''high'')
      else common_default config_tag)"

definition sr_default_config :: defaults where
  "sr_default_config variable_name config_tag =
     (if config_tag = ''consolidation_fn'' then
        Inr (if variable_name = ''physical_utilisation'' then ''get_percent_sr_usage'' else ''sum'')
      else if config_tag = ''rrd_regex'' then
        (if variable_name = ''physical_utilisation'' then Inr ''physical_utilisation|size''
         else if variable_name = ''sr_io_throughput_total_per_host'' then Inr ''_$_DUMMY__''
         else Inl (Perf_Config []))
      else if config_tag = ''alarm_trigger_level'' then
        (if variable_name = ''physical_utilisation'' then Inr ''0.8'' else Inl (Perf_Config []))
      else if config_tag = ''alarm_trigger_sense'' then Inr ''high''
      else common_default config_tag)"

text \<open>\<^verbatim>\<open>re.match("sr_io_throughput_total_[0-9a-f]{8}$", name)\<close>; the dollar also matches before a last line feed.\<close>

definition sr_io_name :: "string \<Rightarrow> bool" where
  "sr_io_name t \<longleftrightarrow>
     (let p = ''sr_io_throughput_total_''; r = drop (length p) t in
      take (length p) t = p \<and> 8 \<le> length r \<and> list_all (\<lambda>c. c \<in> set ''0123456789abcdef'') (take 8 r)
      \<and> (drop 8 r = [] \<or> drop 8 r = [CHR 0x0A]))"

definition host_default_config :: defaults where
  "host_default_config variable_name config_tag =
     (if config_tag = ''consolidation_fn'' then Inr (if variable_name = ''cpu_usage'' then ''average'' else ''sum'')
      else if config_tag = ''rrd_regex'' then
        (if variable_name = ''cpu_usage'' then Inr ''cpu[0-9]+''
         else if variable_name = ''network_usage'' then Inr ''pif_eth[0-9]+_[rt]x''
         else if variable_name = ''memory_free_kib'' then Inr variable_name
         else if sr_io_name variable_name then Inr (drop 3 variable_name)
         else Inl (Perf_Config []))
      else if config_tag = ''alarm_trigger_sense'' then Inr (if variable_name = ''memory_free_kib'' then ''low'' else ''high'')
      else common_default config_tag)"

section \<open>Monitors\<close>

datatype mon_kind = Mon_VM | Mon_SR | Mon_Host

definition kind_text :: "mon_kind \<Rightarrow> string" where
  "kind_text k = (case k of Mon_VM \<Rightarrow> ''VM'' | Mon_SR \<Rightarrow> ''SR'' | Mon_Host \<Rightarrow> ''Host'')"

definition get_default_variable_config :: "mon_kind \<Rightarrow> defaults" where
  "get_default_variable_config k = (case k of Mon_VM \<Rightarrow> vm_default_config | Mon_SR \<Rightarrow> sr_default_config | Mon_Host \<Rightarrow> host_default_config)"

record monitor =
  m_kind :: mon_kind
  m_uuid :: string
  m_xmlconfig :: "string option"
  m_variables :: "variable list"
  m_secondary :: "variable list"
  m_secondary_xml :: "(string \<times> string) list"

text \<open>The module's tables: the configuration of an object, and the repositories of a host that have one.\<close>

record xml_tables =
  all_xmlconfigs :: "(string \<times> string) list"
  sruuids_by_hostuuid :: "(string \<times> string list) list"

text \<open>A variable that is to be there: of the variables of its name only an unchanged one is kept.\<close>

fun drop_changed :: "variable \<Rightarrow> nat \<Rightarrow> variable list \<Rightarrow> variable list \<times> bool \<Rightarrow> variable list \<times> bool" where
  "drop_changed var n [] r = r"
| "drop_changed var n (v # same) (vs, append_var) =
     (if n > 0 then drop_changed var n same (remove1 v vs, append_var)
      else if variable_configs_differ var v then drop_changed var (n + 1) same (remove1 v vs, append_var)
      else drop_changed var (n + 1) same (vs, False))"

definition put_variable :: "variable \<Rightarrow> variable list \<Rightarrow> variable list" where
  "put_variable var vs =
     (case drop_changed var 0 (filter (\<lambda>v. v_name v = v_name var) vs) (vs, True) of
        (vs', append_var) \<Rightarrow> if append_var then vs' @ [var] else vs')"

text \<open>The loop over the nodes: the variables, the names, and the error that ended it.\<close>

primrec parse_nodes ::
  "'k perf_env \<Rightarrow> defaults \<Rightarrow> xml list \<Rightarrow> variable list \<Rightarrow> string list \<Rightarrow> ('k, variable list \<times> (perf_error + string list)) pf_op" where
  "parse_nodes ev defaults [] vs names = ret (vs, Inr names)"
| "parse_nodes ev defaults (vn # vns) vs names =
     (\<lambda>s. case new_variable ev defaults vn s of
        (Inl e, t) \<Rightarrow> (Inr (vs, Inl e), t)
      | (Inr var, t) \<Rightarrow>
          parse_nodes ev defaults vns (put_variable var vs) (if v_name var \<in> set names then names else names @ [v_name var]) t)"

text \<open>Variables that are no longer configured are deleted only when the loop has come to its end.\<close>

definition parse_xmlconfig :: "'k perf_env \<Rightarrow> monitor \<Rightarrow> ('k, monitor) pf_op" where
  "parse_xmlconfig ev m =
     (case m_xmlconfig m of
        None \<Rightarrow> ret (m\<lparr>m_variables := []\<rparr>)
      | Some text \<Rightarrow>
          if text = [] then ret (m\<lparr>m_variables := []\<rparr>)
          else case xml_parse text of
            None \<Rightarrow> ret m
          | Some doc \<Rightarrow>
              bnd (parse_nodes ev (get_default_variable_config (m_kind m)) (by_tag ''variable'' (XElem [] [] [doc])) (m_variables m) []) (\<lambda>(vs, r).
              ret (case r of
                     Inl e \<Rightarrow> m\<lparr>m_variables := vs\<rparr>
                   | Inr names \<Rightarrow> m\<lparr>m_variables := filter (\<lambda>v. v_name v \<in> set names) vs\<rparr>)))"

text \<open>
  \<^verbatim>\<open>ObjectMonitor.refresh_config\<close>, with whether the configuration has changed; errors of
  the configuration are logged.
\<close>

definition refresh_object :: "'k perf_env \<Rightarrow> xml_tables \<Rightarrow> monitor \<Rightarrow> ('k, monitor \<times> bool) pf_op" where
  "refresh_object ev tb m =
     (let xmlconfig = map_of (all_xmlconfigs tb) (m_uuid m) in
      if xmlconfig \<noteq> m_xmlconfig m
      then bnd (parse_xmlconfig ev (m\<lparr>m_xmlconfig := xmlconfig\<rparr>)) (\<lambda>m. ret (m, True))
      else ret (m, False))"

section \<open>Values\<close>

text \<open>The rows of a report for one variable; what is done before an error stays done.\<close>

primrec feed_rows ::
  "'k perf_env \<Rightarrow> monitor \<Rightarrow> obj_report \<Rightarrow> string list \<Rightarrow> variable \<Rightarrow> nat list \<Rightarrow> ('k, variable \<times> (perf_error + unit)) pf_op" where
  "feed_rows ev m r params v [] = ret (v, Inr ())"
| "feed_rows ev m r params v (row # rows) =
     (\<lambda>s. case consolidate ev (v_fn v) (map (\<lambda>p. get_value r p row) params) s of
        (Inl e, t) \<Rightarrow> (Inr (v, Inl e), t)
      | (Inr x, t) \<Rightarrow>
          bnd (update_variable ev (kind_text (m_kind m)) (m_uuid m) v x) (\<lambda>(v', q).
          case q of Inl e \<Rightarrow> ret (v', Inl e) | Inr u \<Rightarrow> feed_rows ev m r params v' rows) t)"

definition params_to_consolidate :: "'k perf_env \<Rightarrow> variable \<Rightarrow> obj_report \<Rightarrow> string list" where
  "params_to_consolidate ev v r =
     (case pm_regex ev (v_regex v) of None \<Rightarrow> [] | Some f \<Rightarrow> filter f (get_var_names r))"

primrec feed_variables ::
  "'k perf_env \<Rightarrow> monitor \<Rightarrow> obj_report \<Rightarrow> nat \<Rightarrow> variable list \<Rightarrow> ('k, variable list \<times> (perf_error + unit)) pf_op" where
  "feed_variables ev m r rows [] = ret ([], Inr ())"
| "feed_variables ev m r rows (v # vs) =
     (if \<not> v_active v then bnd (feed_variables ev m r rows vs) (\<lambda>(vs', q). ret (v # vs', q))
      else
        bnd (feed_rows ev m r (params_to_consolidate ev v r) v [0..<rows]) (\<lambda>(v', q).
        case q of
          Inl e \<Rightarrow> ret (v' # vs, Inl e)
        | Inr u \<Rightarrow> bnd (feed_variables ev m r rows vs) (\<lambda>(vs', q). ret (v' # vs', q))))"

definition get_active_variables :: "monitor \<Rightarrow> variable list" where
  "get_active_variables m = m_variables m @ filter v_active (m_secondary m)"

text \<open>The variables of the monitor are always active; of the others of a host only some are.\<close>

definition process_rrd_updates :: "'k perf_env \<Rightarrow> rrd_updates \<Rightarrow> monitor \<Rightarrow> ('k, monitor \<times> (perf_error + unit)) pf_op" where
  "process_rrd_updates ev u m =
     (case get_obj_report_by_uuid u (m_uuid m) of
        None \<Rightarrow> ret (m, Inr ())
      | Some r \<Rightarrow>
          bnd (feed_variables ev m r (nat (rr_rows (ru_report u))) (m_variables m)) (\<lambda>(vs, q).
          case q of
            Inl e \<Rightarrow> ret (m\<lparr>m_variables := vs\<rparr>, Inl e)
          | Inr x \<Rightarrow>
              bnd (feed_variables ev m r (nat (rr_rows (ru_report u))) (m_secondary m)) (\<lambda>(ws, q).
              ret (m\<lparr>m_variables := vs, m_secondary := ws\<rparr>, q))))"

section \<open>The host\<close>

text \<open>Changing the first element of a name below a node.\<close>

fun change_first :: "string \<Rightarrow> (xml \<Rightarrow> xml) \<Rightarrow> xml \<Rightarrow> xml option"
and change_first_in :: "string \<Rightarrow> (xml \<Rightarrow> xml) \<Rightarrow> xml list \<Rightarrow> xml list option" where
  "change_first tag f (XElem n a ks) = map_option (XElem n a) (change_first_in tag f ks)"
| "change_first tag f x = None"
| "change_first_in tag f [] = None"
| "change_first_in tag f (k # ks) =
     (if is_elem k \<and> xtag k = tag then Some (f k # ks)
      else case change_first tag f k of
        Some k' \<Rightarrow> Some (k' # ks)
      | None \<Rightarrow> map_option ((#) k) (change_first_in tag f ks))"

fun set_attr :: "string \<Rightarrow> string \<Rightarrow> xml \<Rightarrow> xml" where
  "set_attr k v (XElem n a ks) = XElem n (AList.update k v a) ks"
| "set_attr k v x = x"

fun append_child :: "xml \<Rightarrow> xml \<Rightarrow> xml" where
  "append_child c (XElem n a ks) = XElem n a (ks @ [c])"
| "append_child c x = x"

text \<open>The node of a repository, as it is made one of the host: renamed, and with where it comes from.\<close>

definition host_node :: "string \<Rightarrow> xml \<Rightarrow> xml" where
  "host_node sruuid vn =
     append_child (XElem ''configured_on'' [(''class'', ''SR''), (''uuid'', sruuid)] [])
       (case change_first ''name'' (set_attr ''value'' (''sr_io_throughput_total_'' @ take 8 sruuid)) vn of None \<Rightarrow> vn | Some x \<Rightarrow> x)"

text \<open>
  The variables of a repository for the host: a node counts when it has the one name
  that is meant for the host and no expression; a second such node ends the loop.
\<close>

definition put_secondary :: "variable \<Rightarrow> variable list \<Rightarrow> variable list" where
  "put_secondary var vs =
     (let same = filter (\<lambda>v. v_name v = v_name var) vs;
          vs' = fold remove1 (filter (variable_configs_differ var) same) vs in
      if list_all (variable_configs_differ var) same then vs' @ [var] else vs')"

primrec sr_nodes ::
  "'k perf_env \<Rightarrow> string \<Rightarrow> xml list \<Rightarrow> bool \<Rightarrow> variable list \<Rightarrow> string list \<Rightarrow> ('k, variable list \<times> string list \<times> (perf_error + unit)) pf_op" where
  "sr_nodes ev sruuid [] found vs names = ret (vs, names, Inr ())"
| "sr_nodes ev sruuid (vn # vns) found vs names =
     (if by_tag ''name'' vn = [] then sr_nodes ev sruuid vns found vs names
      else if attr_text ''value'' (hd (by_tag ''name'' vn)) \<noteq> ''sr_io_throughput_total_per_host'' then sr_nodes ev sruuid vns found vs names
      else if by_tag ''rrd_regex'' vn \<noteq> [] then sr_nodes ev sruuid vns found vs names
      else if found then ret (vs, names, Inr ())
      else
        (\<lambda>s. case new_variable ev host_default_config (host_node sruuid vn) s of
           (Inl e, t) \<Rightarrow> (Inr (vs, names, Inl e), t)
         | (Inr var, t) \<Rightarrow> sr_nodes ev sruuid vns True (put_secondary var vs) (List.insert (v_name var) names) t))"

text \<open>The loop over the repositories; the text is remembered before it is parsed.\<close>

primrec sr_configs ::
  "'k perf_env \<Rightarrow> xml_tables \<Rightarrow> string list \<Rightarrow> monitor \<Rightarrow> string list \<Rightarrow> ('k, monitor \<times> (perf_error + string list)) pf_op" where
  "sr_configs ev tb [] m names = ret (m, Inr names)"
| "sr_configs ev tb (sruuid # us) m names =
     (case map_of (all_xmlconfigs tb) sruuid of
        None \<Rightarrow> ret (m, Inl (Perf_Api S_KeyError))
      | Some text \<Rightarrow>
          (let m = m\<lparr>m_secondary_xml := AList.update sruuid text (m_secondary_xml m)\<rparr> in
           case xml_parse text of
             None \<Rightarrow> ret (m, Inl Perf_Expat)
           | Some doc \<Rightarrow>
               bnd (sr_nodes ev sruuid (by_tag ''variable'' (XElem [] [] [doc])) False (m_secondary m) names) (\<lambda>(vs, names, q).
               case q of
                 Inl e \<Rightarrow> ret (m\<lparr>m_secondary := vs\<rparr>, Inl e)
               | Inr u \<Rightarrow> sr_configs ev tb us (m\<lparr>m_secondary := vs\<rparr>) names)))"

definition parse_secondary :: "'k perf_env \<Rightarrow> xml_tables \<Rightarrow> string list \<Rightarrow> monitor \<Rightarrow> ('k, monitor \<times> (perf_error + unit)) pf_op" where
  "parse_secondary ev tb sruuids m =
     bnd (sr_configs ev tb sruuids (m\<lparr>m_secondary_xml := []\<rparr>) []) (\<lambda>(m, q).
     case q of
       Inl e \<Rightarrow> ret (m, Inl e)
     | Inr names \<Rightarrow> ret (m\<lparr>m_secondary := filter (\<lambda>v. v_name v \<in> set names) (m_secondary m)\<rparr>, Inr ()))"

definition secondary_changed :: "xml_tables \<Rightarrow> string list \<Rightarrow> monitor \<Rightarrow> bool" where
  "secondary_changed tb sruuids m \<longleftrightarrow>
     set (map fst (m_secondary_xml m)) \<noteq> set sruuids
     \<or> list_ex (\<lambda>u. map_of (m_secondary_xml m) u \<noteq> map_of (all_xmlconfigs tb) u) sruuids"

definition caught_config :: "perf_error + unit \<Rightarrow> perf_error + unit" where
  "caught_config q = (case q of Inl (Perf_Config t) \<Rightarrow> Inr () | Inl Perf_Expat \<Rightarrow> Inr () | _ \<Rightarrow> q)"

text \<open>\<^verbatim>\<open>HOSTMonitor.refresh_config\<close>\<close>

definition refresh_host :: "'k perf_env \<Rightarrow> xml_tables \<Rightarrow> monitor \<Rightarrow> ('k, monitor \<times> (perf_error + unit)) pf_op" where
  "refresh_host ev tb m =
     bnd (refresh_object ev tb m) (\<lambda>(m, main_changed).
     case map_of (sruuids_by_hostuuid tb) (m_uuid m) of
       None \<Rightarrow> ret (m\<lparr>m_secondary := [], m_secondary_xml := []\<rparr>, Inr ())
     | Some sruuids \<Rightarrow>
         (let changed = secondary_changed tb sruuids m in
          bnd (if changed then parse_secondary ev tb sruuids m else ret (m, Inr ())) (\<lambda>(m, q).
          case caught_config q of
            Inl e \<Rightarrow> ret (m, Inl e)
          | Inr u \<Rightarrow>
              if main_changed \<or> changed
              then bnd (collect (\<lambda>v. set_active ev (v_name v \<notin> set (map v_name (m_variables m))) v) (m_secondary m)) (\<lambda>vs.
                   ret (m\<lparr>m_secondary := vs\<rparr>, Inr ()))
              else ret (m, Inr ()))))"

definition refresh_config :: "'k perf_env \<Rightarrow> xml_tables \<Rightarrow> monitor \<Rightarrow> ('k, monitor \<times> (perf_error + unit)) pf_op" where
  "refresh_config ev tb m =
     (if m_kind m = Mon_Host then refresh_host ev tb m
      else bnd (refresh_object ev tb m) (\<lambda>(m, changed). ret (m, Inr ())))"

definition new_monitor :: "'k perf_env \<Rightarrow> xml_tables \<Rightarrow> mon_kind \<Rightarrow> string \<Rightarrow> ('k, monitor \<times> (perf_error + unit)) pf_op" where
  "new_monitor ev tb kind uuid =
     refresh_config ev tb \<lparr>m_kind = kind, m_uuid = uuid, m_xmlconfig = None, m_variables = [], m_secondary = [], m_secondary_xml = []\<rparr>"

end
