(* ===== verification/Perfmon_Daemon.thy ===== *)
theory Perfmon_Daemon
  imports Perfmon_Monitor
begin

text \<open>
  The daemon \<^verbatim>\<open>python3/bin/perfmon\<close>, last part: the tables of configurations, and one round
  of the main loop. What the loop keeps between rounds is the state, so that what a
  round has done before an exception stays done.
\<close>

section \<open>State\<close>

text \<open>\<open>dm_login\<close> makes a session, \<open>dm_fetch\<close> answers a request for a URL, \<open>dm_sleep\<close> lets time pass.\<close>

record 'k daemon_env =
  dm_perf :: "'k perf_env"
  dm_login :: "'k \<Rightarrow> (perf_error + string) \<times> 'k"
  dm_fetch :: "string \<Rightarrow> 'k \<Rightarrow> (perf_error + string) \<times> 'k"
  dm_sleep :: "nat \<Rightarrow> 'k \<Rightarrow> 'k"
  dm_period :: int

record 'k daemon =
  dm_state :: "'k perf"
  dm_restart :: bool
  dm_session :: string
  dm_updates :: rrd_updates
  dm_next :: int
  dm_tables :: xml_tables
  dm_vms :: "(string \<times> monitor) list"
  dm_srs :: "(string \<times> monitor) list"
  dm_host :: "monitor option"

type_synonym ('k, 'a) dm_op = "('k daemon, perf_error, 'a) st"

definition dm_lift :: "('k, 'a) pf_op \<Rightarrow> ('k, 'a) dm_op" where
  "dm_lift f s = (case f (dm_state s) of (r, t) \<Rightarrow> (r, s\<lparr>dm_state := t\<rparr>))"

section \<open>The tables\<close>

definition pf_call :: "'k perf_env \<Rightarrow> string \<Rightarrow> string list \<Rightarrow> ('k, mval) pf_op" where
  "pf_call ev meth args = bnd (pf_with (pm_api ev meth args)) lift_sum"

definition pf_pure :: "script_error + 'a \<Rightarrow> ('k, 'a) pf_op" where
  "pf_pure r = lift_sum (map_sum Perf_Api id r)"

text \<open>The identifiers of records with their other configuration, and of those the one for this program.\<close>

definition uuid_config :: "mval \<Rightarrow> script_error + string \<times> (string \<times> mval) list" where
  "uuid_config rec =
     sbind (sbind (item ''uuid'' rec) as_str) (\<lambda>uuid.
     sbind (sbind (item ''other_config'' rec) as_rec) (\<lambda>oc. Inr (uuid, oc)))"

definition all_records :: "'k perf_env \<Rightarrow> string \<Rightarrow> ('k, (string \<times> mval) list) pf_op" where
  "all_records ev cls = bnd (pf_call ev (cls @ ''.get_all_records'') []) (\<lambda>v. pf_pure (as_rec v))"

definition perfmon_configs :: "(string \<times> (string \<times> mval) list) list \<Rightarrow> script_error + (string \<times> string) list" where
  "perfmon_configs ocs =
     smap (\<lambda>(uuid, oc). case map_of oc ''perfmon'' of None \<Rightarrow> Inl S_KeyError | Some v \<Rightarrow> sbind (as_str v) (\<lambda>t. Inr (uuid, t)))
       (filter (\<lambda>(uuid, oc). map_of oc ''perfmon'' \<noteq> None) ocs)"

text \<open>The hosts of the repositories that have a configuration; the table is filled as they are found.\<close>

definition add_sr :: "string \<Rightarrow> string \<Rightarrow> (string \<times> string list) list \<Rightarrow> (string \<times> string list) list" where
  "add_sr sruuid hu d = AList.update hu (List.insert sruuid (case map_of d hu of None \<Rightarrow> [] | Some us \<Rightarrow> us)) d"

definition sr_hosts :: "'k perf_env \<Rightarrow> (string \<times> mval) list \<Rightarrow> mval \<Rightarrow> ('k, string list) pf_op" where
  "sr_hosts ev hosts rec =
     bnd (pf_pure (sbind (item ''PBDs'' rec) as_refs)) (\<lambda>pbds.
     bnd (collect (\<lambda>pbd. bnd (pf_call ev ''PBD.get_host'' [pbd]) (\<lambda>v. pf_pure (as_str v))) pbds) (\<lambda>refs.
     pf_pure (smap (\<lambda>ref. case map_of hosts ref of None \<Rightarrow> Inl S_KeyError | Some h \<Rightarrow> sbind (item ''uuid'' h) as_str) refs)))"

primrec srs_of_hosts :: "'k perf_env \<Rightarrow> (string \<times> mval) list \<Rightarrow> mval list \<Rightarrow> ('k, unit) dm_op" where
  "srs_of_hosts ev hosts [] = ret ()"
| "srs_of_hosts ev hosts (rec # recs) =
     bnd (dm_lift (pf_pure (uuid_config rec))) (\<lambda>(uuid, oc).
     seq (if map_of oc ''perfmon'' = None then ret ()
          else bnd (dm_lift (sr_hosts ev hosts rec)) (\<lambda>hus.
               modify (\<lambda>s. s\<lparr>dm_tables := (dm_tables s)\<lparr>sruuids_by_hostuuid := fold (add_sr uuid) hus (sruuids_by_hostuuid (dm_tables s))\<rparr>\<rparr>)))
         (srs_of_hosts ev hosts recs))"

definition update_dict :: "(string \<times> 'a) list \<Rightarrow> (string \<times> 'a) list \<Rightarrow> (string \<times> 'a) list" where
  "update_dict es d = fold (\<lambda>(k, v). AList.update k v) es d"

definition update_all_xmlconfigs :: "'k perf_env \<Rightarrow> ('k, unit) dm_op" where
  "update_all_xmlconfigs ev =
     bnd (dm_lift (all_records ev ''host'')) (\<lambda>hosts.
     bnd (dm_lift (all_records ev ''VM'')) (\<lambda>vms.
     bnd (dm_lift (all_records ev ''SR'')) (\<lambda>srs.
     bnd (dm_lift (pf_pure (smap uuid_config (map snd (hosts @ vms @ srs))))) (\<lambda>ocs.
     bnd (dm_lift (pf_pure (perfmon_configs (update_dict ocs [])))) (\<lambda>configs.
     seq (modify (\<lambda>s. s\<lparr>dm_tables := \<lparr>all_xmlconfigs = configs, sruuids_by_hostuuid = []\<rparr>\<rparr>))
         (srs_of_hosts ev hosts (map snd srs)))))))"

section \<open>One round\<close>

text \<open>A monitor that is refreshed in place; a new one is stored only when it was made.\<close>

definition store_monitor ::
  "('k daemon \<Rightarrow> (string \<times> monitor) list) \<Rightarrow> ((string \<times> monitor) list \<Rightarrow> 'k daemon \<Rightarrow> 'k daemon) \<Rightarrow>
   'k daemon_env \<Rightarrow> mon_kind \<Rightarrow> string \<Rightarrow> ('k, unit) dm_op" where
  "store_monitor look store ev kind uuid s =
     (case map_of (look s) uuid of
        None \<Rightarrow>
          bnd (dm_lift (new_monitor (dm_perf ev) (dm_tables s) kind uuid)) (\<lambda>(m, q).
          case q of Inl e \<Rightarrow> throw e | Inr u \<Rightarrow> modify (\<lambda>s. store (AList.update uuid m (look s)) s)) s
      | Some m \<Rightarrow>
          bnd (dm_lift (refresh_config (dm_perf ev) (dm_tables s) m)) (\<lambda>(m, q).
          seq (modify (\<lambda>s. store (AList.update uuid m (look s)) s)) (lift_sum q)) s)"

definition keep_listed :: "string list \<Rightarrow> (string \<times> monitor) list \<Rightarrow> (string \<times> monitor) list" where
  "keep_listed uuids ms = filter (\<lambda>(u, m). u \<in> set uuids) ms"

definition vm_monitors :: "'k daemon_env \<Rightarrow> ('k, unit) dm_op" where
  "vm_monitors ev =
     bnd (gets (\<lambda>s. get_uuid_list_by_objtype (dm_updates s) ''vm'')) (\<lambda>uuids.
     seq (modify (\<lambda>s. s\<lparr>dm_vms := keep_listed uuids (dm_vms s)\<rparr>))
         (for_each (store_monitor dm_vms (\<lambda>ms s. s\<lparr>dm_vms := ms\<rparr>) ev Mon_VM) uuids))"

definition sr_monitors :: "'k daemon_env \<Rightarrow> ('k, unit) dm_op" where
  "sr_monitors ev =
     bnd (gets (\<lambda>s. get_uuid_list_by_objtype (dm_updates s) ''sr'')) (\<lambda>uuids.
     seq (modify (\<lambda>s. s\<lparr>dm_srs := keep_listed uuids (dm_srs s)\<rparr>))
         (for_each (store_monitor dm_srs (\<lambda>ms s. s\<lparr>dm_srs := ms\<rparr>) ev Mon_SR) uuids))"

definition host_monitor :: "'k daemon_env \<Rightarrow> ('k, unit) dm_op" where
  "host_monitor ev s =
     (case get_uuid_list_by_objtype (dm_updates s) ''host'' of
        [] \<Rightarrow> (Inr (), s\<lparr>dm_host := None\<rparr>)
      | host_uuid # us \<Rightarrow>
          if host_uuid = [] then (Inr (), s\<lparr>dm_host := None\<rparr>)
          else case dm_host s of
            None \<Rightarrow>
              bnd (dm_lift (new_monitor (dm_perf ev) (dm_tables s) Mon_Host host_uuid)) (\<lambda>(m, q).
              case q of Inl e \<Rightarrow> throw e | Inr u \<Rightarrow> modify (\<lambda>s. s\<lparr>dm_host := Some m\<rparr>)) s
          | Some m \<Rightarrow>
              if m_uuid m \<noteq> host_uuid then (Inl Perf_Changed, s)
              else
                bnd (dm_lift (refresh_config (dm_perf ev) (dm_tables s) m)) (\<lambda>(m, q).
                seq (modify (\<lambda>s. s\<lparr>dm_host := Some m\<rparr>)) (lift_sum q)) s)"

text \<open>The monitors of a table process the report one after another.\<close>

definition process_stored ::
  "('k daemon \<Rightarrow> (string \<times> monitor) list) \<Rightarrow> ((string \<times> monitor) list \<Rightarrow> 'k daemon \<Rightarrow> 'k daemon) \<Rightarrow>
   'k daemon_env \<Rightarrow> string \<Rightarrow> ('k, unit) dm_op" where
  "process_stored look store ev uuid s =
     (case map_of (look s) uuid of
        None \<Rightarrow> (Inr (), s)
      | Some m \<Rightarrow>
          bnd (dm_lift (process_rrd_updates (dm_perf ev) (dm_updates s) m)) (\<lambda>(m, q).
          seq (modify (\<lambda>s. store (AList.update uuid m (look s)) s)) (lift_sum q)) s)"

definition process_all :: "'k daemon_env \<Rightarrow> ('k, unit) dm_op" where
  "process_all ev =
     seq (bnd (gets (\<lambda>s. map fst (dm_vms s))) (for_each (process_stored dm_vms (\<lambda>ms s. s\<lparr>dm_vms := ms\<rparr>) ev)))
    (seq (\<lambda>s. case dm_host s of
            None \<Rightarrow> (Inr (), s)
          | Some m \<Rightarrow>
              bnd (dm_lift (process_rrd_updates (dm_perf ev) (dm_updates s) m)) (\<lambda>(m, q).
              seq (modify (\<lambda>s. s\<lparr>dm_host := Some m\<rparr>)) (lift_sum q)) s)
         (bnd (gets (\<lambda>s. map fst (dm_srs s))) (for_each (process_stored dm_srs (\<lambda>ms s. s\<lparr>dm_srs := ms\<rparr>) ev))))"

definition round_body :: "'k daemon_env \<Rightarrow> ('k, unit) dm_op" where
  "round_body ev =
     seq (bnd (gets dm_restart) (\<lambda>r. if r
            then bnd (dm_lift (bnd (pf_with (dm_login ev)) lift_sum)) (\<lambda>session. modify (\<lambda>s. s\<lparr>dm_session := session, dm_restart := False\<rparr>))
            else ret ()))
    (seq (bnd (gets (\<lambda>s. (dm_session s, dm_updates s))) (\<lambda>(session, u).
          bnd (dm_lift (refresh_updates (dm_perf ev) (dm_fetch ev) session u)) (\<lambda>u. modify (\<lambda>s. s\<lparr>dm_updates := u\<rparr>))))
    (seq (bnd (dm_lift (pf_with (pm_time (dm_perf ev)))) (\<lambda>t.
          bnd (gets dm_next) (\<lambda>n.
          if n \<le> t
          then seq (update_all_xmlconfigs (dm_perf ev))
                 (bnd (dm_lift (pf_with (pm_time (dm_perf ev)))) (\<lambda>t. modify (\<lambda>s. s\<lparr>dm_next := t + dm_period ev * ticks\<rparr>)))
          else ret ())))
    (seq (vm_monitors ev) (seq (host_monitor ev) (seq (sr_monitors ev) (process_all ev))))))"

text \<open>The handlers of the loop: these errors make it log in again, the others end the daemon.\<close>

definition round_handler :: "'k daemon_env \<Rightarrow> perf_error \<Rightarrow> ('k, unit) dm_op" where
  "round_handler ev e =
     (let restart = modify (\<lambda>s. s\<lparr>dm_restart := True\<rparr>) in
      case e of
        Perf_Refused \<Rightarrow> seq (dm_lift (pf_with (\<lambda>k. ((), dm_sleep ev 2 k)))) restart
      | Perf_Http code \<Rightarrow> if code = 401 \<or> code = 500 then restart else throw e
      | Perf_OSError \<Rightarrow> restart
      | _ \<Rightarrow> throw e)"

definition perfmon_round :: "'k daemon_env \<Rightarrow> ('k, unit) dm_op" where
  "perfmon_round ev = catch (round_body ev) (round_handler ev)"

text \<open>
  The commands that come between rounds, of which \<^verbatim>\<open>refresh\<close> asks for the tables at
  once; \<open>cmd\<close> is what was received before the time was over, if anything.
\<close>

definition perfmon_command :: "'k daemon_env \<Rightarrow> string option \<Rightarrow> ('k, unit) dm_op" where
  "perfmon_command ev cmd =
     (if cmd = Some ''refresh''
      then bnd (dm_lift (pf_with (pm_time (dm_perf ev)))) (\<lambda>t. modify (\<lambda>s. s\<lparr>dm_next := t\<rparr>))
      else ret ())"

text \<open>What \<^verbatim>\<open>main\<close> begins with: \<open>start\<close> is the time of the first updates, \<open>t\<close> that of the tables.\<close>

definition start_daemon :: "'k \<Rightarrow> int \<Rightarrow> int \<Rightarrow> 'k daemon" where
  "start_daemon k start t =
     \<lparr>dm_state = \<lparr>pf_machine = k, pf_alarms = []\<rparr>, dm_restart = True, dm_session = [],
      dm_updates = \<lparr>ru_start = start, ru_report = empty_report\<rparr>, dm_next = t,
      dm_tables = \<lparr>all_xmlconfigs = [], sruuids_by_hostuuid = []\<rparr>, dm_vms = [], dm_srs = [], dm_host = None\<rparr>"

text \<open>\<^verbatim>\<open>main\<close> for the commands of a number of rounds.\<close>

primrec perfmon_run :: "'k daemon_env \<Rightarrow> string option list \<Rightarrow> ('k, unit) dm_op" where
  "perfmon_run ev [] = ret ()"
| "perfmon_run ev (cmd # cmds) = seq (perfmon_round ev) (seq (perfmon_command ev cmd) (perfmon_run ev cmds))"

end
