(* ===== verification/Perfmon_Alarms.thy ===== *)
theory Perfmon_Alarms
  imports Perfmon_Variable
begin

text \<open>
  When a variable of the performance monitor raises an alarm, over any sequence of
  values.
\<close>

section \<open>Sequences of updates\<close>

text \<open>The values of one variable, until creating a message fails.\<close>

primrec feed :: "'k perf_env \<Rightarrow> string \<Rightarrow> string \<Rightarrow> variable \<Rightarrow> f64 list \<Rightarrow> ('k, variable \<times> (perf_error + unit)) pf_op" where
  "feed ev kind uuid v [] = ret (v, Inr ())"
| "feed ev kind uuid v (x # xs) =
     bnd (update_variable ev kind uuid v x) (\<lambda>(v', r). case r of Inl e \<Rightarrow> ret (v', Inl e) | Inr u \<Rightarrow> feed ev kind uuid v' xs)"

text \<open>What stays of a variable: all but its state.\<close>

definition v_config :: "variable \<Rightarrow> variable" where
  "v_config v = v\<lparr>v_value := None, v_last := 0, v_counter := 0\<rparr>"

lemma v_config_update [simp]:
  "v_config (v\<lparr>v_value := x\<rparr>) = v_config v" "v_config (v\<lparr>v_last := l\<rparr>) = v_config v" "v_config (v\<lparr>v_counter := c\<rparr>) = v_config v"
  by (simp_all add: v_config_def)

lemma test_level_value: "test_level (v\<lparr>v_value := y\<rparr>) x = test_level v x"
  by (simp add: test_level_def)

lemma v_config_facts:
  assumes "v_config w = v_config v"
  shows "v_name w = v_name v" "v_period w = v_period v" "v_inhibit w = v_inhibit v" "test_level w x = test_level v x"
    "v_xml w = v_xml v" "v_regex w = v_regex v" "v_fn w = v_fn v" "v_priority w = v_priority v" "v_active w = v_active v"
proof -
  show "v_name w = v_name v" "v_priority w = v_priority v" "v_regex w = v_regex v"
    using arg_cong [OF assms, of v_name] arg_cong [OF assms, of v_priority] arg_cong [OF assms, of v_regex] by (simp_all add: v_config_def)
  show "v_period w = v_period v" "v_inhibit w = v_inhibit v" using arg_cong [OF assms, of v_period] arg_cong [OF assms, of v_inhibit] by (simp_all add: v_config_def)
  show "v_xml w = v_xml v" "v_fn w = v_fn v" "v_active w = v_active v"
    using arg_cong [OF assms, of v_xml] arg_cong [OF assms, of v_fn] arg_cong [OF assms, of v_active] by (simp_all add: v_config_def)
  show "test_level w x = test_level v x"
    using arg_cong [OF assms, of v_level] arg_cong [OF assms, of v_high] by (simp add: v_config_def test_level_def)
qed

text \<open>The ways an update can end: without an alarm, with one, or with the exception of the API.\<close>

definition quiet_update :: "variable \<Rightarrow> variable \<Rightarrow> alarm list \<Rightarrow> bool" where
  "quiet_update v v' new \<longleftrightarrow> new = [] \<and> v_last v' = v_last v"

definition alarm_update :: "string \<Rightarrow> string \<Rightarrow> variable \<Rightarrow> f64 \<Rightarrow> variable \<Rightarrow> alarm list \<Rightarrow> bool" where
  "alarm_update kind uuid v x v' new \<longleftrightarrow>
     new = [\<lparr>al_variable = v_name v, al_priority = v_priority v, al_kind = kind, al_uuid = uuid, al_value = x, al_time = v_last v'\<rparr>]
     \<and> v_last v + v_inhibit v * ticks \<le> v_last v' \<and> test_level v x"

lemma update_variable_effect:
  obtains v' r new k where "update_variable ev kind uuid v x s = (Inr (v', r), s\<lparr>pf_machine := k, pf_alarms := pf_alarms s @ new\<rparr>)"
    and "v_config v' = v_config v"
    and "r = Inr () \<longrightarrow> quiet_update v v' new \<or> alarm_update kind uuid v x v' new" and "r \<noteq> Inr () \<longrightarrow> new = []"
proof -
  let ?v = "v\<lparr>v_value := Some x, v_counter := v_counter v - pm_step ev\<rparr>"
  have level: "test_level (v\<lparr>v_value := Some x\<rparr>) x = test_level v x" by (rule test_level_value)
  obtain t k where time: "pm_time ev (pf_machine s) = (t, k)" by fastforce
  obtain r k' where create: "pm_create ev [''ALARM'', v_priority v, kind, uuid] k = (r, k')" by fastforce
  note unfold = update_variable_def level Let_def generate_alarm_def alarm_create_def bnd_def pf_with_def time create ret_def seq_def modify_def
  consider (good) "\<not> test_level v x" | (counting) "test_level v x" "0 < v_counter ?v"
    | (inhibited) "test_level v x" "v_counter ?v \<le> 0" "t - v_last v < v_inhibit v * ticks"
    | (alarm) "test_level v x" "v_counter ?v \<le> 0" "\<not> t - v_last v < v_inhibit v * ticks" by linarith
  then show thesis
  proof cases
    case good
    show thesis
      by (rule that [of "v\<lparr>v_value := Some x, v_counter := v_period v\<rparr>" "Inr ()" "[]" "pf_machine s"])
        (use good in \<open>simp_all add: unfold quiet_update_def\<close>)
  next
    case counting
    show thesis
      by (rule that [of ?v "Inr ()" "[]" "pf_machine s"]) (use counting in \<open>simp_all add: unfold quiet_update_def\<close>)
  next
    case inhibited
    show thesis
      by (rule that [of "v\<lparr>v_value := Some x, v_counter := v_period v\<rparr>" "Inr ()" "[]" k])
        (use inhibited in \<open>simp_all add: unfold quiet_update_def\<close>)
  next
    case alarm
    show thesis
    proof (cases r)
      case (Inl e)
      show thesis
        by (rule that [of "?v\<lparr>v_last := t\<rparr>" "Inl e" "[]" k']) (use alarm Inl in \<open>simp_all add: unfold\<close>)
    next
      case (Inr u)
      show thesis
        by (rule that [of "v\<lparr>v_value := Some x, v_last := t, v_counter := v_period v\<rparr>" "Inr ()"
              "[\<lparr>al_variable = v_name v, al_priority = v_priority v, al_kind = kind, al_uuid = uuid, al_value = x, al_time = t\<rparr>]" k'])
          (use alarm Inr in \<open>simp_all add: unfold alarm_update_def\<close>)
    qed
  qed
qed

section \<open>Alarms are spaced\<close>

fun spaced :: "int \<Rightarrow> int \<Rightarrow> int list \<Rightarrow> bool" where
  "spaced d t [] = True"
| "spaced d t (u # us) \<longleftrightarrow> t + d \<le> u \<and> spaced d u us"

definition alarm_of :: "string \<Rightarrow> string \<Rightarrow> variable \<Rightarrow> f64 list \<Rightarrow> alarm \<Rightarrow> bool" where
  "alarm_of kind uuid v xs a \<longleftrightarrow> al_variable a = v_name v \<and> al_priority a = v_priority v \<and> al_kind a = kind \<and> al_uuid a = uuid
     \<and> al_value a \<in> set xs \<and> test_level v (al_value a)"

text \<open>
  C21: Whatever the clock, the values and the failures of the API: every alarm of a
  variable carries a value that was bad, with the variable's name and priority, and
  between two alarms, and between the last one before and the first, at least the
  inhibition period passes on the clock.
\<close>

theorem alarms_spaced:
  "\<exists>v' r new k. feed ev kind uuid v xs s = (Inr (v', r), s\<lparr>pf_machine := k, pf_alarms := pf_alarms s @ new\<rparr>)
    \<and> spaced (v_inhibit v * ticks) (v_last v) (map al_time new) \<and> list_all (alarm_of kind uuid v xs) new"
proof (induction xs arbitrary: v s)
  case Nil
  have "s = s\<lparr>pf_machine := pf_machine s, pf_alarms := pf_alarms s @ []\<rparr>" by simp
  then show ?case by (intro exI [of _ v] exI [of _ "Inr ()"] exI [of _ "[]"] exI [of _ "pf_machine s"]) (simp add: ret_def)
next
  case (Cons x xs)
  obtain v1 r new k where up: "update_variable ev kind uuid v x s = (Inr (v1, r), s\<lparr>pf_machine := k, pf_alarms := pf_alarms s @ new\<rparr>)"
    and conf: "v_config v1 = v_config v"
    and ends: "r = Inr () \<longrightarrow> quiet_update v v1 new \<or> alarm_update kind uuid v x v1 new" "r \<noteq> Inr () \<longrightarrow> new = []"
    by (rule update_variable_effect)
  show ?case
  proof (cases r)
    case (Inl e)
    with up ends show ?thesis
      by (intro exI [of _ v1] exI [of _ r] exI [of _ "[]"] exI [of _ k]) (simp add: bnd_def ret_def)
  next
    case (Inr u)
    let ?s = "s\<lparr>pf_machine := k, pf_alarms := pf_alarms s @ new\<rparr>"
    obtain v2 r2 new2 k2 where rest: "feed ev kind uuid v1 xs ?s = (Inr (v2, r2), ?s\<lparr>pf_machine := k2, pf_alarms := pf_alarms ?s @ new2\<rparr>)"
        "spaced (v_inhibit v1 * ticks) (v_last v1) (map al_time new2)" "list_all (alarm_of kind uuid v1 xs) new2"
      using Cons.IH by blast
    have alarms: "alarm_of kind uuid v1 xs a \<Longrightarrow> alarm_of kind uuid v (x # xs) a" for a
      using v_config_facts [OF conf] by (auto simp: alarm_of_def)
    have "spaced (v_inhibit v * ticks) (v_last v) (map al_time (new @ new2)) \<and> list_all (alarm_of kind uuid v (x # xs)) (new @ new2)"
      using ends(1) Inr rest(2,3) v_config_facts [OF conf] alarms
      by (auto simp: quiet_update_def alarm_update_def alarm_of_def list_all_iff)
    then show ?thesis
      using up rest(1) Inr
      by (intro exI [of _ v2] exI [of _ r2] exI [of _ "new @ new2"] exI [of _ k2]) (simp add: bnd_def)
  qed
qed

section \<open>When an alarm is due\<close>

definition bad_run :: "variable \<Rightarrow> f64 list \<Rightarrow> nat" where
  "bad_run v xs = length (takeWhile (test_level v) (rev xs))"

text \<open>The number of bad values that fill the period.\<close>

definition needed :: "int \<Rightarrow> variable \<Rightarrow> nat" where
  "needed step v = (if v_period v \<le> 0 then 1 else nat ((v_period v + step - 1) div step))"

definition due :: "int \<Rightarrow> variable \<Rightarrow> f64 list \<Rightarrow> bool" where
  "due step v xs \<longleftrightarrow> 0 < bad_run v xs \<and> needed step v dvd bad_run v xs"

lemma bad_run_snoc: "bad_run v (xs @ [x]) = (if test_level v x then Suc (bad_run v xs) else 0)"
  by (simp add: bad_run_def)

lemma needed_pos: "0 < step \<Longrightarrow> 0 < needed step v"
  by (simp add: needed_def zdiv_mono1 pos_imp_zdiv_pos_iff)

lemma zdiv_less_iff: "0 < s \<Longrightarrow> (a :: int) div s < b \<longleftrightarrow> a < b * s"
  by (smt (verit) div_mult_mod_eq mult_right_mono pos_mod_bound pos_mod_sign zdiv_mono1 nonzero_mult_div_cancel_right mult_less_cancel_right)

lemma needed_iff:
  assumes "0 < step" "m < needed step v"
  shows "v_period v - step * int m - step \<le> 0 \<longleftrightarrow> Suc m = needed step v"
proof (cases "v_period v \<le> 0")
  case True
  with assms have "m = 0" by (simp add: needed_def)
  with True assms show ?thesis by (simp add: needed_def)
next
  case False
  let ?n = "(v_period v + step - 1) div step"
  have n: "int (needed step v) = ?n" using False assms(1) by (simp add: needed_def pos_imp_zdiv_nonneg_iff)
  have "v_period v - step * int m - step \<le> 0 \<longleftrightarrow> v_period v + step - 1 < (int m + 2) * step"
    by (simp add: algebra_simps) linarith
  also have "\<dots> \<longleftrightarrow> ?n < int m + 2" using assms(1) by (rule zdiv_less_iff [symmetric])
  finally show ?thesis using n assms(2) by linarith
qed

lemma feed_append:
  "feed ev kind uuid v (xs @ ys)
    = bnd (feed ev kind uuid v xs) (\<lambda>(v', r). case r of Inl e \<Rightarrow> ret (v', Inl e) | Inr u \<Rightarrow> feed ev kind uuid v' ys)"
proof (induction xs arbitrary: v)
  case (Cons x xs)
  then show ?case
    by (simp add: bnd_assoc) (rule ext, simp add: bnd_def ret_def split: prod.split sum.split)
qed simp

lemma bad_run_cong: "v_config w = v_config v \<Longrightarrow> bad_run w xs = bad_run v xs \<and> needed step w = needed step v"
  using v_config_facts [of w v] by (simp add: bad_run_def needed_def cong: takeWhile_cong)

text \<open>One update of a variable whose counter stands for a run of bad values.\<close>

lemma update_counter:
  assumes "0 < pm_step ev" "m < needed (pm_step ev) v" "v_counter v = v_period v - pm_step ev * int m"
    and "pm_time ev (pf_machine s) = (t, k)" "pm_create ev [''ALARM'', v_priority v, kind, uuid] k = (Inr (), k')"
  shows "update_variable ev kind uuid v x s =
    (if test_level v x then
       if Suc m = needed (pm_step ev) v then
         if t - v_last v < v_inhibit v * ticks then (Inr (v\<lparr>v_value := Some x, v_counter := v_period v\<rparr>, Inr ()), s\<lparr>pf_machine := k\<rparr>)
         else (Inr (v\<lparr>v_value := Some x, v_last := t, v_counter := v_period v\<rparr>, Inr ()),
               s\<lparr>pf_machine := k', pf_alarms := pf_alarms s @ [\<lparr>al_variable = v_name v, al_priority = v_priority v, al_kind = kind, al_uuid = uuid, al_value = x, al_time = t\<rparr>]\<rparr>)
       else (Inr (v\<lparr>v_value := Some x, v_counter := v_period v - pm_step ev * int (Suc m)\<rparr>, Inr ()), s)
     else (Inr (v\<lparr>v_value := Some x, v_counter := v_period v\<rparr>, Inr ()), s))"
proof -
  have level: "test_level (v\<lparr>v_value := Some x\<rparr>) x = test_level v x" by (rule test_level_value)
  have "v_counter v - pm_step ev \<le> 0 \<longleftrightarrow> Suc m = needed (pm_step ev) v"
    using needed_iff [OF assms(1,2)] assms(3) by simp
  moreover have "v_counter v - pm_step ev = v_period v - pm_step ev * int (Suc m)" by (simp add: assms(3) algebra_simps)
  ultimately show ?thesis
    by (simp add: update_variable_def level Let_def generate_alarm_def alarm_create_def bnd_def pf_with_def assms(4,5) ret_def seq_def modify_def)
qed

lemma Suc_mod_iff: "0 < n \<Longrightarrow> Suc (m mod n) = n \<longleftrightarrow> n dvd Suc m"
  by (simp add: dvd_eq_mod_eq_0 mod_Suc)

text \<open>After values of which the last \<open>j\<close> were bad the counter stands for \<open>j mod n\<close> of them.\<close>

lemma feed_counter:
  assumes "0 < pm_step ev" "v_counter v = v_period v" "feed ev kind uuid v xs s = (Inr (v', Inr ()), s')"
  shows "v_config v' = v_config v \<and> v_counter v' = v_period v - pm_step ev * int (bad_run v xs mod needed (pm_step ev) v)"
  using assms(3)
proof (induction xs arbitrary: v' s' rule: rev_induct)
  case Nil
  with assms(2) show ?case by (simp add: ret_def bad_run_def)
next
  case (snoc x xs)
  let ?n = "needed (pm_step ev) v" and ?m = "bad_run v xs mod needed (pm_step ev) v"
  obtain v1 s1 where first: "feed ev kind uuid v xs s = (Inr (v1, Inr ()), s1)" and up: "update_variable ev kind uuid v1 x s1 = (Inr (v', Inr ()), s')"
    using snoc.prems unfolding feed_append
    by (auto simp: bnd_def ret_def split: prod.splits sum.splits)
  have v1: "v_config v1 = v_config v" "v_counter v1 = v_period v - pm_step ev * int ?m" using snoc.IH [OF first] by auto
  note facts = v_config_facts [OF v1(1)] and n = bad_run_cong [OF v1(1)]
  have n0: "0 < ?n" using assms(1) by (rule needed_pos)
  have conf: "v_config v' = v_config v"
    using update_variable_effect [of ev kind uuid v1 x s1] up v1(1) by (metis Pair_inject Inr_inject)
  have "v_counter v' = (if test_level v x then if Suc ?m = ?n then v_period v else v_period v - pm_step ev * int (Suc ?m) else v_period v)"
  proof -
    have level: "test_level (v1\<lparr>v_value := Some x\<rparr>) x = test_level v x" using facts(4) by (simp add: test_level_value)
    have c: "v_counter v1 - pm_step ev \<le> 0 \<longleftrightarrow> Suc ?m = ?n"
      using needed_iff [OF assms(1), of ?m v] n0 v1(2) by simp
    have d: "v_counter v1 - pm_step ev = v_period v - pm_step ev * int (Suc ?m)" by (simp add: v1(2) algebra_simps)
    show ?thesis
    proof (cases "test_level v x \<and> Suc ?m = ?n")
      case True
      with up c show ?thesis
        by (auto simp: update_variable_def level Let_def bnd_def ret_def generate_alarm_def alarm_create_def facts pf_with_def seq_def modify_def
            split: prod.splits sum.splits if_splits)
    next
      case False
      with up c d show ?thesis by (auto simp: update_variable_def level Let_def ret_def facts)
    qed
  qed
  moreover have "bad_run v (xs @ [x]) mod ?n = (if test_level v x then if Suc ?m = ?n then 0 else Suc ?m else 0)"
    using n0 by (simp add: bad_run_snoc mod_Suc)
  ultimately show ?case using conf by simp
qed

text \<open>
  C24: A variable in its fresh state, after any values: the next value creates an alarm
  exactly when it completes a run of bad values whose length is a multiple of what
  fills the trigger period, and the clock says that the inhibition period has passed
  since the last alarm. In an inhibited period the count starts again.
\<close>

theorem alarm_when_due:
  assumes "0 < pm_step ev" and "v_counter v = v_period v" and "feed ev kind uuid v xs s = (Inr (v', Inr ()), s')"
    and "pm_time ev (pf_machine s') = (t, k)" and "pm_create ev [''ALARM'', v_priority v, kind, uuid] k = (Inr (), k')"
  shows "\<exists>v''. feed ev kind uuid v (xs @ [x]) s = (Inr (v'', Inr ()),
      if due (pm_step ev) v (xs @ [x]) then
        if v_inhibit v * ticks \<le> t - v_last v'
        then s'\<lparr>pf_machine := k', pf_alarms := pf_alarms s' @
               [\<lparr>al_variable = v_name v, al_priority = v_priority v, al_kind = kind, al_uuid = uuid, al_value = x, al_time = t\<rparr>]\<rparr>
        else s'\<lparr>pf_machine := k\<rparr>
      else s')"
proof -
  let ?n = "needed (pm_step ev) v" and ?m = "bad_run v xs mod needed (pm_step ev) v"
  have v': "v_config v' = v_config v" "v_counter v' = v_period v - pm_step ev * int ?m" using feed_counter [OF assms(1-3)] by auto
  note facts = v_config_facts [OF v'(1)]
  have n0: "0 < ?n" using assms(1) by (rule needed_pos)
  have n: "needed (pm_step ev) v' = ?n" using bad_run_cong [OF v'(1)] by simp
  have "feed ev kind uuid v (xs @ [x]) s
      = (case update_variable ev kind uuid v' x s' of (Inr (v'', r), s'') \<Rightarrow> (Inr (v'', r), s'') | (Inl e, s'') \<Rightarrow> (Inl e, s''))"
    unfolding feed_append by (simp add: bnd_def assms(3) ret_def split: prod.split sum.split)
  also have "update_variable ev kind uuid v' x s' =
    (if test_level v x then
       if Suc ?m = ?n then
         if t - v_last v' < v_inhibit v * ticks then (Inr (v'\<lparr>v_value := Some x, v_counter := v_period v\<rparr>, Inr ()), s'\<lparr>pf_machine := k\<rparr>)
         else (Inr (v'\<lparr>v_value := Some x, v_last := t, v_counter := v_period v\<rparr>, Inr ()),
               s'\<lparr>pf_machine := k', pf_alarms := pf_alarms s' @ [\<lparr>al_variable = v_name v, al_priority = v_priority v, al_kind = kind, al_uuid = uuid, al_value = x, al_time = t\<rparr>]\<rparr>)
       else (Inr (v'\<lparr>v_value := Some x, v_counter := v_period v - pm_step ev * int (Suc ?m)\<rparr>, Inr ()), s')
     else (Inr (v'\<lparr>v_value := Some x, v_counter := v_period v\<rparr>, Inr ()), s'))"
    using update_counter [OF assms(1), of ?m v' s' t k kind uuid k' x] n n0 v'(2) assms(4,5) by (simp add: facts)
  finally show ?thesis
    using Suc_mod_iff [OF n0, of "bad_run v xs"] by (auto simp: due_def bad_run_snoc)
qed

text \<open>The witnesses: a variable with a level of a half, two values of one, a clock that stands still.\<close>

definition demo_variable :: variable where
  "demo_variable = \<lparr>v_name = ''cpu_usage'', v_xml = XElem ''variable'' [] [], v_regex = ''cpu[0-9]+'', v_fn = C_average, v_period = 120,
     v_inhibit = 3600, v_level = 0x3FE0000000000000, v_high = True, v_priority = ''3'', v_value = None, v_last = 0, v_counter = 120, v_active = True\<rparr>"

definition demo_perf :: "int perf_env" where
  "demo_perf = \<lparr>pm_step = 60, pm_time = (\<lambda>k. (k, k)), pm_regex = (\<lambda>t. Some (\<lambda>n. n = t)), pm_df = (\<lambda>p k. ([], k)), pm_meminfo = (\<lambda>k. (None, k)), pm_api = (\<lambda>meth args k. (Inr (MStr []), k)),
     pm_create = (\<lambda>args k. (Inr (), k))\<rparr>"

lemma alarm_when_due_witness:
  "\<exists>v. feed demo_perf ''VM'' ''u'' demo_variable [0x3FF0000000000000, 0x3FF0000000000000] \<lparr>pf_machine = 3600 * ticks, pf_alarms = []\<rparr>
    = (Inr (v, Inr ()), \<lparr>pf_machine = 3600 * ticks, pf_alarms =
        [\<lparr>al_variable = ''cpu_usage'', al_priority = ''3'', al_kind = ''VM'', al_uuid = ''u'', al_value = 0x3FF0000000000000, al_time = 3600 * ticks\<rparr>]\<rparr>)"
proof -
  let ?x = "0x3FF0000000000000 :: f64"
  let ?s = "\<lparr>pf_machine = 3600 * ticks, pf_alarms = []\<rparr>"
  have bad: "test_level demo_variable ?x"
    by (simp add: test_level_def demo_variable_def float_lt_def float_nan_def float_key_def float_mag_def float_neg_def inf_bits_def)
  have first: "feed demo_perf ''VM'' ''u'' demo_variable [?x] ?s
      = (Inr (demo_variable\<lparr>v_value := Some ?x, v_counter := 60\<rparr>, Inr ()), ?s)"
    by (simp add: update_variable_def test_level_value bad Let_def ret_def bnd_def) (simp add: demo_variable_def demo_perf_def)
  have due: "due (pm_step demo_perf) demo_variable ([?x] @ [?x])"
    using bad by (simp add: due_def bad_run_def needed_def) (simp add: demo_variable_def demo_perf_def)
  have "\<exists>v. feed demo_perf ''VM'' ''u'' demo_variable ([?x] @ [?x]) ?s = (Inr (v, Inr ()),
      if due (pm_step demo_perf) demo_variable ([?x] @ [?x]) then
        if v_inhibit demo_variable * ticks \<le> 3600 * ticks - v_last (demo_variable\<lparr>v_value := Some ?x, v_counter := 60\<rparr>)
        then ?s\<lparr>pf_machine := 3600 * ticks, pf_alarms := pf_alarms ?s @
               [\<lparr>al_variable = v_name demo_variable, al_priority = v_priority demo_variable, al_kind = ''VM'', al_uuid = ''u'', al_value = ?x, al_time = 3600 * ticks\<rparr>]\<rparr>
        else ?s\<lparr>pf_machine := 3600 * ticks\<rparr>
      else ?s)"
    by (rule alarm_when_due [OF _ _ first]) (simp_all add: demo_perf_def demo_variable_def)
  then show ?thesis using due by (simp add: demo_variable_def)
qed

end
