(* ===== verification/Perfmon_Proofs.thy ===== *)
theory Perfmon_Proofs
  imports Perfmon_Daemon Perfmon_Alarms
begin

text \<open>
  How the variables of a monitor follow its configuration, and what all runs of
  the daemon keep.
\<close>

section \<open>Putting a variable\<close>

definition distinct_names :: "variable list \<Rightarrow> bool" where
  "distinct_names vs \<longleftrightarrow> distinct (map v_name vs)"

definition var_named :: "string \<Rightarrow> variable list \<Rightarrow> variable option" where
  "var_named n vs = find (\<lambda>v. v_name v = n) vs"

lemma var_named_Some: "var_named n vs = Some v \<Longrightarrow> v \<in> set vs \<and> v_name v = n"
  by (auto simp: var_named_def find_Some_iff)

lemma var_named_None: "var_named n vs = None \<longleftrightarrow> n \<notin> v_name ` set vs"
  by (auto simp: var_named_def find_None_iff)

lemma var_named_append: "var_named n (vs @ ws) = (case var_named n vs of Some v \<Rightarrow> Some v | None \<Rightarrow> var_named n ws)"
  by (induction vs) (auto simp: var_named_def)

lemma var_named_filter: "var_named n (filter (\<lambda>v. P (v_name v)) vs) = (if P n then var_named n vs else None)"
  by (induction vs) (auto simp: var_named_def)

lemma same_named:
  assumes "distinct_names vs"
  shows "filter (\<lambda>v. v_name v = n) vs = (case var_named n vs of None \<Rightarrow> [] | Some v \<Rightarrow> [v])"
  using assms
proof (induction vs)
  case (Cons v vs)
  have "n = v_name v \<Longrightarrow> filter (\<lambda>v. v_name v = n) vs = []" using Cons.prems by (auto simp: distinct_names_def filter_empty_conv image_iff)
  with Cons show ?case by (auto simp: distinct_names_def var_named_def)
qed (simp add: var_named_def)

lemma remove_named:
  assumes "distinct_names vs" "var_named n vs = Some v"
  shows "remove1 v vs = filter (\<lambda>w. v_name w \<noteq> n) vs"
  using assms
proof (induction vs)
  case (Cons w vs)
  show ?case
  proof (cases "v_name w = n")
    case True
    then have "\<forall>x \<in> set vs. v_name x \<noteq> n" using Cons.prems(1) by (auto simp: distinct_names_def image_iff)
    with True Cons.prems(2) show ?thesis by (simp add: var_named_def)
  next
    case False
    with Cons show ?thesis by (auto simp: distinct_names_def var_named_def find_Some_iff)
  qed
qed (simp add: var_named_def)

lemma put_variable_distinct:
  assumes "distinct_names vs"
  shows "put_variable var vs =
    (if \<exists>v. var_named (v_name var) vs = Some v \<and> \<not> variable_configs_differ var v then vs
     else filter (\<lambda>w. v_name w \<noteq> v_name var) vs @ [var])"
proof (cases "var_named (v_name var) vs")
  case None
  then have "filter (\<lambda>w. v_name w \<noteq> v_name var) vs = vs" unfolding filter_id_conv var_named_None by (metis imageI)
  with None show ?thesis using assms by (simp add: put_variable_def same_named)
next
  case (Some v)
  then show ?thesis using assms remove_named [OF assms Some] by (simp add: put_variable_def same_named)
qed

lemma put_variable_keeps: "distinct_names vs \<Longrightarrow> distinct_names (put_variable var vs)"
  by (auto simp: put_variable_distinct) (auto simp: distinct_names_def distinct_map_filter)

lemma put_variable_named:
  assumes "distinct_names vs"
  shows "var_named n (put_variable var vs) =
    (if n \<noteq> v_name var then var_named n vs
     else case var_named n vs of None \<Rightarrow> Some var | Some v \<Rightarrow> if variable_configs_differ var v then Some var else Some v)"
proof -
  have one: "var_named m [var] = (if m = v_name var then Some var else None)" for m by (simp add: var_named_def)
  show ?thesis
    using assms
    by (auto simp: put_variable_distinct var_named_append var_named_filter [of _ "\<lambda>m. m \<noteq> v_name var"] one split: option.split)
qed

section \<open>Parsing a configuration\<close>

definition node_name :: "xml \<Rightarrow> string" where
  "node_name vn = attr_text ''value'' (hd (by_tag ''name'' vn))"

lemma variable_config_node:
  assumes "variable_config ev defaults vn = Inr v"
  shows "v_name v = node_name vn" "v_xml v = vn"
proof -
  obtain x xs where x: "by_tag ''name'' vn = x # xs"
    using assms by (cases "by_tag ''name'' vn") (auto simp: variable_config_def)
  show "v_name v = node_name vn" "v_xml v = vn"
    using assms by (auto simp: variable_config_def x node_name_def sbind_Inr_iff)
qed

lemma fresh_state_same [simp]: "v_name (fresh_state t v) = v_name v" "v_xml (fresh_state t v) = v_xml v"
  by (simp_all add: fresh_state_def)

lemma parse_nodes_distinct:
  assumes "distinct_names vs" "parse_nodes ev defaults vns vs names s = (Inr (vs', r), t)"
  shows "distinct_names vs'"
  using assms
proof (induction vns arbitrary: vs names s)
  case (Cons vn vns)
  obtain q u where q: "new_variable ev defaults vn s = (q, u)" by fastforce
  show ?case
  proof (cases q)
    case (Inl e)
    with Cons.prems q show ?thesis by simp
  next
    case (Inr var)
    with Cons.prems(2) q show ?thesis by (intro Cons.IH [OF put_variable_keeps [OF Cons.prems(1)]]) simp
  qed
qed (simp add: ret_def)

lemma new_variable_run:
  assumes "variable_config ev defaults vn = Inr v"
  obtains w t where "new_variable ev defaults vn s = (Inr w, t)" "v_name w = node_name vn" "v_xml w = vn" "pf_alarms t = pf_alarms s"
proof -
  obtain c k where "pm_time ev (pf_machine s) = (c, k)" by fastforce
  with assms show thesis
    by (intro that [of "fresh_state c v" "s\<lparr>pf_machine := k\<rparr>"])
      (simp_all add: new_variable_def bnd_def lift_sum_def pf_with_def ret_def variable_config_node [OF assms])
qed

text \<open>What the nodes make of the variable of a name.\<close>

definition follows :: "string \<Rightarrow> xml list \<Rightarrow> variable list \<Rightarrow> variable list \<Rightarrow> bool" where
  "follows n vns vs vs' \<longleftrightarrow>
     (let ns = filter (\<lambda>vn. node_name vn = n) vns in
      if ns = [] then var_named n vs' = var_named n vs
      else \<exists>v'. var_named n vs' = Some v' \<and> xml_write (v_xml v') = xml_write (last ns)
        \<and> (\<forall>v. var_named n vs = Some v \<and> (\<forall>vn \<in> set ns. xml_write vn = xml_write (v_xml v)) \<longrightarrow> v' = v))"

lemma follows_Cons:
  assumes "distinct_names vs" "v_name w = node_name vn" "v_xml w = vn" "follows n vns (put_variable w vs) vs'"
  shows "follows n (vn # vns) vs vs'"
proof (cases "node_name vn = n")
  case False
  then have "var_named n (put_variable w vs) = var_named n vs" "filter (\<lambda>x. node_name x = n) (vn # vns) = filter (\<lambda>x. node_name x = n) vns"
    using assms(2) put_variable_named [OF assms(1), of n w] by simp_all
  with assms(4) show ?thesis unfolding follows_def Let_def by (simp only:)
next
  case True
  obtain v1 where v1: "var_named n (put_variable w vs) = Some v1" "xml_write (v_xml v1) = xml_write vn"
    "\<And>v. var_named n vs = Some v \<Longrightarrow> xml_write vn = xml_write (v_xml v) \<Longrightarrow> v1 = v"
    using True assms(2,3) put_variable_named [OF assms(1), of n w]
    by (auto simp: variable_configs_differ_def split: option.splits if_splits)
  show ?thesis
  proof (cases "filter (\<lambda>vn. node_name vn = n) vns = []")
    case none: True
    then show ?thesis using True assms(4) v1 by (auto simp: follows_def)
  next
    case False
    then show ?thesis using True assms(4) v1 by (auto simp: follows_def Let_def)
  qed
qed

lemma parse_nodes_ok:
  assumes "distinct_names vs" "\<And>vn. vn \<in> set vns \<Longrightarrow> \<exists>v. variable_config ev defaults vn = Inr v"
  shows "\<exists>vs' names' t. parse_nodes ev defaults vns vs names s = (Inr (vs', Inr names'), t) \<and> pf_alarms t = pf_alarms s
    \<and> distinct_names vs' \<and> set names' = set names \<union> node_name ` set vns \<and> (\<forall>n. follows n vns vs vs')"
  using assms
proof (induction vns arbitrary: vs names s)
  case Nil
  then show ?case by (simp add: ret_def follows_def)
next
  case (Cons vn vns)
  obtain v where v: "variable_config ev defaults vn = Inr v" using Cons.prems(2) by auto
  obtain w t where w: "new_variable ev defaults vn s = (Inr w, t)" "v_name w = node_name vn" "v_xml w = vn" "pf_alarms t = pf_alarms s"
    using new_variable_run [OF v] by blast
  let ?names = "if v_name w \<in> set names then names else names @ [v_name w]"
  have rest: "\<exists>v. variable_config ev defaults x = Inr v" if "x \<in> set vns" for x using Cons.prems(2) that by simp
  obtain vs' names' u where u: "parse_nodes ev defaults vns (put_variable w vs) ?names t = (Inr (vs', Inr names'), u)" "pf_alarms u = pf_alarms t"
      "distinct_names vs'" "set names' = set ?names \<union> node_name ` set vns" "\<forall>n. follows n vns (put_variable w vs) vs'"
    using Cons.IH [OF put_variable_keeps [OF Cons.prems(1)] rest, of w ?names t] by blast
  have "parse_nodes ev defaults (vn # vns) vs names s = (Inr (vs', Inr names'), u)" using w(1) u(1) by simp
  moreover have "pf_alarms u = pf_alarms s" using u(2) w(4) by simp
  moreover have "set names' = set names \<union> node_name ` set (vn # vns)" using u(4) w(2) by auto
  moreover have "follows n (vn # vns) vs vs'" for n using follows_Cons [OF Cons.prems(1) w(2,3)] u(5) by blast
  ultimately show ?case using u(3) by blast
qed

lemma parse_nodes_error:
  assumes "distinct_names vs" "\<And>vn. vn \<in> set good \<Longrightarrow> \<exists>v. variable_config ev defaults vn = Inr v" "variable_config ev defaults bad = Inl e"
  shows "\<exists>vs' t. parse_nodes ev defaults (good @ bad # rest) vs names s = (Inr (vs', Inl e), t) \<and> (\<forall>n. follows n good vs vs')"
  using assms(1,2)
proof (induction good arbitrary: vs names s)
  case Nil
  have "new_variable ev defaults bad s = (Inl e, s)" using assms(3) by (simp add: new_variable_def bnd_def lift_sum_def)
  then show ?case by (simp add: follows_def)
next
  case (Cons vn good)
  obtain v where v: "variable_config ev defaults vn = Inr v" using Cons.prems(2) by auto
  obtain w t where w: "new_variable ev defaults vn s = (Inr w, t)" "v_name w = node_name vn" "v_xml w = vn"
    using new_variable_run [OF v] by blast
  let ?names = "if v_name w \<in> set names then names else names @ [v_name w]"
  have good: "\<exists>v. variable_config ev defaults x = Inr v" if "x \<in> set good" for x using Cons.prems(2) that by simp
  obtain vs' u where u: "parse_nodes ev defaults (good @ bad # rest) (put_variable w vs) ?names t = (Inr (vs', Inl e), u)"
      "\<forall>n. follows n good (put_variable w vs) vs'"
    using Cons.IH [OF put_variable_keeps [OF Cons.prems(1)] good, of w ?names t] by blast
  have "parse_nodes ev defaults ((vn # good) @ bad # rest) vs names s = (Inr (vs', Inl e), u)" using w(1) u(1) by simp
  moreover have "follows n (vn # good) vs vs'" for n using follows_Cons [OF Cons.prems(1) w(2,3)] u(2) by blast
  ultimately show ?case by blast
qed

section \<open>Refreshing\<close>

definition config_nodes :: "string \<Rightarrow> xml list option" where
  "config_nodes body = map_option (\<lambda>doc. by_tag ''variable'' (XElem [] [] [doc])) (xml_parse body)"

lemma refresh_object_parse:
  assumes "map_of (all_xmlconfigs tb) (m_uuid m) = Some body" "m_xmlconfig m \<noteq> Some body" "body \<noteq> []" "config_nodes body = Some vns"
  shows "refresh_object ev tb m s =
    (case parse_nodes ev (get_default_variable_config (m_kind m)) vns (m_variables m) [] s of
       (Inr (vs, Inl e), t) \<Rightarrow> (Inr (m\<lparr>m_xmlconfig := Some body, m_variables := vs\<rparr>, True), t)
     | (Inr (vs, Inr names), t) \<Rightarrow> (Inr (m\<lparr>m_xmlconfig := Some body, m_variables := filter (\<lambda>v. v_name v \<in> set names) vs\<rparr>, True), t)
     | (Inl e, t) \<Rightarrow> (Inl e, t))"
proof -
  obtain doc where "xml_parse body = Some doc" "by_tag ''variable'' (XElem [] [] [doc]) = vns"
    using assms(4) unfolding config_nodes_def by blast
  with assms(1-3) show ?thesis
    unfolding refresh_object_def parse_xmlconfig_def by (simp add: bnd_def ret_def Let_def del: by_tag.simps split: prod.split sum.split)
qed

text \<open>
  C25: When the configuration of an object changes to one without an error, its
  variables are those of the configuration, one for each name, configured as by the
  last node of the name; a variable whose nodes are as they were is the very
  variable of before, with its counter and the time of its last alarm.
\<close>

theorem refresh_follows_config:
  assumes "distinct_names (m_variables m)" and "map_of (all_xmlconfigs tb) (m_uuid m) = Some body" and "m_xmlconfig m \<noteq> Some body" and "body \<noteq> []"
    and "config_nodes body = Some vns" and "\<And>vn. vn \<in> set vns \<Longrightarrow> \<exists>v. variable_config ev (get_default_variable_config (m_kind m)) vn = Inr v"
  shows "\<exists>m' t. refresh_object ev tb m s = (Inr (m', True), t) \<and> pf_alarms t = pf_alarms s \<and> distinct_names (m_variables m')
    \<and> v_name ` set (m_variables m') = node_name ` set vns
    \<and> (\<forall>vn \<in> set vns. \<exists>v'. var_named (node_name vn) (m_variables m') = Some v'
         \<and> xml_write (v_xml v') = xml_write (last (filter (\<lambda>x. node_name x = node_name vn) vns))
         \<and> (\<forall>v. var_named (node_name vn) (m_variables m) = Some v
              \<and> (\<forall>x \<in> set vns. node_name x = node_name vn \<longrightarrow> xml_write x = xml_write (v_xml v)) \<longrightarrow> v' = v))"
proof -
  let ?d = "get_default_variable_config (m_kind m)"
  obtain vs' names' t where t: "parse_nodes ev ?d vns (m_variables m) [] s = (Inr (vs', Inr names'), t)" "pf_alarms t = pf_alarms s"
      "distinct_names vs'" "set names' = node_name ` set vns" "\<forall>n. follows n vns (m_variables m) vs'"
    using parse_nodes_ok [OF assms(1), of vns ev ?d "[]" s] assms(6) by auto
  let ?m = "m\<lparr>m_xmlconfig := Some body, m_variables := filter (\<lambda>v. v_name v \<in> set names') vs'\<rparr>"
  have run: "refresh_object ev tb m s = (Inr (?m, True), t)" unfolding refresh_object_parse [OF assms(2-5)] by (simp add: t(1))
  have distinct: "distinct_names (m_variables ?m)" using t(3) by (simp add: distinct_names_def distinct_map_filter)
  have each: "\<exists>v'. var_named (node_name vn) (m_variables ?m) = Some v'
         \<and> xml_write (v_xml v') = xml_write (last (filter (\<lambda>x. node_name x = node_name vn) vns))
         \<and> (\<forall>v. var_named (node_name vn) (m_variables m) = Some v
              \<and> (\<forall>x \<in> set vns. node_name x = node_name vn \<longrightarrow> xml_write x = xml_write (v_xml v)) \<longrightarrow> v' = v)" if vn: "vn \<in> set vns" for vn
  proof -
    have "filter (\<lambda>x. node_name x = node_name vn) vns \<noteq> []" using vn by (auto simp: filter_empty_conv)
    moreover have "var_named (node_name vn) (m_variables ?m) = var_named (node_name vn) vs'"
      using vn by (simp add: var_named_filter [of _ "\<lambda>n. n \<in> node_name ` set vns"] t(4))
    ultimately show ?thesis using spec [OF t(5), of "node_name vn"] by (auto simp: follows_def Let_def)
  qed
  have "v_name ` set (m_variables ?m) = node_name ` set vns"
  proof
    show "v_name ` set (m_variables ?m) \<subseteq> node_name ` set vns" by (auto simp: t(4))
    show "node_name ` set vns \<subseteq> v_name ` set (m_variables ?m)" 
    proof
      fix n assume "n \<in> node_name ` set vns"
      then obtain vn where "vn \<in> set vns" "n = node_name vn" by blast
      with each [of vn] obtain v' where "var_named n (m_variables ?m) = Some v'" by blast
      from var_named_Some [OF this] show "n \<in> v_name ` set (m_variables ?m)" by blast
    qed
  qed
  with run t(2) distinct each show ?thesis by blast
qed

text \<open>
  When a node of a new configuration has an error, the nodes after it are not looked
  at and variables that are no longer configured are not deleted: every variable whose
  name is not of a node before it stays as it was. It is not tried again: refreshing
  with the same configuration does nothing.
\<close>

theorem broken_config_keeps_old:
  assumes "distinct_names (m_variables m)" and "map_of (all_xmlconfigs tb) (m_uuid m) = Some body" and "m_xmlconfig m \<noteq> Some body" and "body \<noteq> []"
    and "config_nodes body = Some (good @ bad # rest)"
    and "\<And>vn. vn \<in> set good \<Longrightarrow> \<exists>v. variable_config ev (get_default_variable_config (m_kind m)) vn = Inr v"
    and "variable_config ev (get_default_variable_config (m_kind m)) bad = Inl e"
  shows "\<exists>m' t. refresh_object ev tb m s = (Inr (m', True), t)
    \<and> (\<forall>n. n \<notin> node_name ` set good \<longrightarrow> var_named n (m_variables m') = var_named n (m_variables m))
    \<and> (\<forall>s'. refresh_object ev tb m' s' = (Inr (m', False), s'))"
proof -
  obtain vs' t where t: "parse_nodes ev (get_default_variable_config (m_kind m)) (good @ bad # rest) (m_variables m) [] s = (Inr (vs', Inl e), t)"
      "\<forall>n. follows n good (m_variables m) vs'"
    using parse_nodes_error [OF assms(1) _ assms(7), of good rest "[]" s] assms(6) by auto
  let ?m = "m\<lparr>m_xmlconfig := Some body, m_variables := vs'\<rparr>"
  have "refresh_object ev tb m s = (Inr (?m, True), t)" unfolding refresh_object_parse [OF assms(2-5)] by (simp add: t(1))
  moreover have "var_named n vs' = var_named n (m_variables m)" if "n \<notin> node_name ` set good" for n
  proof -
    have "filter (\<lambda>vn. node_name vn = n) good = []" using that by (auto simp: filter_empty_conv)
    with spec [OF t(2), of n] show ?thesis by (simp add: follows_def)
  qed
  moreover have "refresh_object ev tb ?m s' = (Inr (?m, False), s')" for s' by (simp add: refresh_object_def assms(2) ret_def)
  ultimately show ?thesis by (intro exI [of _ ?m] exI [of _ t]) simp
qed


text \<open>The witnesses: a monitor whose configuration had two variables and now has one, and then another with an error.\<close>

definition demo_node :: xml where
  "demo_node = XElem ''variable'' [] [XElem ''name'' [(''value'', ''cpu_usage'')] [], XElem ''alarm_trigger_level'' [(''value'', ''0.5'')] []]"

definition demo_text :: string where
  "demo_text = ''<config><variable><name value=\"cpu_usage\"/><alarm_trigger_level value=\"0.5\"/></variable></config>''"

definition demo_broken :: string where
  "demo_broken = ''<config><variable/></config>''"

definition demo_monitor :: monitor where
  "demo_monitor = \<lparr>m_kind = Mon_VM, m_uuid = ''u'', m_xmlconfig = Some ''<config/>'',
     m_variables = [demo_variable\<lparr>v_xml := demo_node, v_counter := 60\<rparr>, demo_variable\<lparr>v_name := ''fs_usage''\<rparr>], m_secondary = [], m_secondary_xml = []\<rparr>"

definition demo_tables :: "string \<Rightarrow> xml_tables" where
  "demo_tables body = \<lparr>all_xmlconfigs = [(''u'', body)], sruuids_by_hostuuid = []\<rparr>"

lemma demo_nodes: "config_nodes demo_text = Some [demo_node]" "config_nodes demo_broken = Some [XElem ''variable'' [] []]"
  unfolding demo_node_def by code_simp+

lemma demo_texts: "demo_text \<noteq> []" "demo_broken \<noteq> []" "''<config/>'' \<noteq> demo_text" "''<config/>'' \<noteq> demo_broken"
  by (simp_all add: demo_text_def demo_broken_def)

lemma demo_variable_config:
  "\<exists>v. variable_config demo_perf (get_default_variable_config Mon_VM) demo_node = Inr v"
  "variable_config demo_perf (get_default_variable_config Mon_VM) (XElem ''variable'' [] []) = Inl (Perf_Config [])"
proof -
  have ints: "py_int 10 ''60'' = Some 60" "py_int 10 ''3600'' = Some 3600" by code_simp+
  have float: "float_of_str ''0.5'' = Inr 0x3FE0000000000000" by code_simp
  show "\<exists>v. variable_config demo_perf (get_default_variable_config Mon_VM) demo_node = Inr v"
    by (simp add: variable_config_def demo_node_def config_value_def attr_text_def get_default_variable_config_def
        vm_default_config_def common_default_def demo_perf_def or_config_def supported_consolidation_functions_def ints float)
  show "variable_config demo_perf (get_default_variable_config Mon_VM) (XElem ''variable'' [] []) = Inl (Perf_Config [])"
    by (simp add: variable_config_def)
qed


lemma refresh_follows_config_witness:
  "\<exists>m' t. refresh_object demo_perf (demo_tables demo_text) demo_monitor \<lparr>pf_machine = 0, pf_alarms = []\<rparr> = (Inr (m', True), t)
    \<and> v_name ` set (m_variables m') = {''cpu_usage''}
    \<and> var_named ''cpu_usage'' (m_variables m') = Some (demo_variable\<lparr>v_xml := demo_node, v_counter := 60\<rparr>)"
proof -
  have name: "node_name demo_node = ''cpu_usage''" by (simp add: node_name_def demo_node_def attr_text_def)
  have vars: "distinct_names (m_variables demo_monitor)" "m_kind demo_monitor = Mon_VM" "m_uuid demo_monitor = ''u''"
      "m_xmlconfig demo_monitor = Some ''<config/>''"
    by (simp_all add: demo_monitor_def distinct_names_def demo_variable_def)
  have "\<exists>m' t. refresh_object demo_perf (demo_tables demo_text) demo_monitor \<lparr>pf_machine = 0, pf_alarms = []\<rparr> = (Inr (m', True), t)
    \<and> pf_alarms t = pf_alarms \<lparr>pf_machine = 0 :: int, pf_alarms = []\<rparr> \<and> distinct_names (m_variables m')
    \<and> v_name ` set (m_variables m') = node_name ` set [demo_node]
    \<and> (\<forall>vn \<in> set [demo_node]. \<exists>v'. var_named (node_name vn) (m_variables m') = Some v'
         \<and> xml_write (v_xml v') = xml_write (last (filter (\<lambda>x. node_name x = node_name vn) [demo_node]))
         \<and> (\<forall>v. var_named (node_name vn) (m_variables demo_monitor) = Some v
              \<and> (\<forall>x \<in> set [demo_node]. node_name x = node_name vn \<longrightarrow> xml_write x = xml_write (v_xml v)) \<longrightarrow> v' = v))"
    by (rule refresh_follows_config [where body = demo_text])
      (use demo_variable_config(1) in \<open>simp_all add: vars demo_nodes demo_tables_def demo_texts\<close>)
  moreover have "var_named ''cpu_usage'' (m_variables demo_monitor) = Some (demo_variable\<lparr>v_xml := demo_node, v_counter := 60\<rparr>)"
    by (simp add: demo_monitor_def var_named_def demo_variable_def)
  ultimately show ?thesis by (auto simp: name)
qed

lemma broken_config_keeps_old_witness:
  "\<exists>m' t. refresh_object demo_perf (demo_tables demo_broken) demo_monitor \<lparr>pf_machine = 0, pf_alarms = []\<rparr> = (Inr (m', True), t)
    \<and> var_named ''fs_usage'' (m_variables m') = Some (demo_variable\<lparr>v_name := ''fs_usage''\<rparr>)
    \<and> refresh_object demo_perf (demo_tables demo_broken) m' t = (Inr (m', False), t)"
proof -
  have vars: "distinct_names (m_variables demo_monitor)" "m_kind demo_monitor = Mon_VM" "m_uuid demo_monitor = ''u''"
      "m_xmlconfig demo_monitor = Some ''<config/>''"
    by (simp_all add: demo_monitor_def distinct_names_def demo_variable_def)
  have "\<exists>m' t. refresh_object demo_perf (demo_tables demo_broken) demo_monitor \<lparr>pf_machine = 0, pf_alarms = []\<rparr> = (Inr (m', True), t)
    \<and> (\<forall>n. n \<notin> node_name ` set [] \<longrightarrow> var_named n (m_variables m') = var_named n (m_variables demo_monitor))
    \<and> (\<forall>s'. refresh_object demo_perf (demo_tables demo_broken) m' s' = (Inr (m', False), s'))"
    by (rule broken_config_keeps_old [where body = demo_broken and bad = "XElem ''variable'' [] []" and rest = "[]" and e = "Perf_Config []"])
      (use demo_variable_config(2) in \<open>simp_all add: vars demo_nodes demo_tables_def demo_texts\<close>)
  moreover have "var_named ''fs_usage'' (m_variables demo_monitor) = Some (demo_variable\<lparr>v_name := ''fs_usage''\<rparr>)"
    by (simp add: demo_monitor_def var_named_def demo_variable_def)
  ultimately show ?thesis by auto
qed

end
