(* ===== verification/Perfmon_Runs.thy ===== *)
theory Perfmon_Runs
  imports Perfmon_Proofs
begin

text \<open>
  What all runs of the performance monitor keep of its monitors, and which errors end
  a run.
\<close>

section \<open>What a value satisfies\<close>

definition yields :: "('a \<Rightarrow> bool) \<Rightarrow> ('s, 'e, 'a) st \<Rightarrow> bool" where
  "yields Q m \<longleftrightarrow> (\<forall>s x t. m s = (Inr x, t) \<longrightarrow> Q x)"

lemma yieldsD: "yields Q m \<Longrightarrow> m s = (Inr x, t) \<Longrightarrow> Q x"
  by (auto simp: yields_def)

lemma yields_ret [simp]: "yields Q (ret x) \<longleftrightarrow> Q x"
  by (simp add: yields_def ret_def)

lemma yields_bnd: "yields R m \<Longrightarrow> (\<And>x. R x \<Longrightarrow> yields Q (f x)) \<Longrightarrow> yields Q (bnd m f)"
  unfolding yields_def bnd_def by (simp split: prod.split sum.split) blast

lemma yields_any: "yields (\<lambda>x. True) m"
  by (simp add: yields_def)

lemma yields_weaken: "yields R m \<Longrightarrow> (\<And>x. R x \<Longrightarrow> Q x) \<Longrightarrow> yields Q m"
  by (auto simp: yields_def)

section \<open>Errors of a configuration\<close>

definition config_err :: "perf_error + 'a \<Rightarrow> bool" where
  "config_err r \<longleftrightarrow> (\<forall>e. r = Inl e \<longrightarrow> (\<exists>t. e = Perf_Config t))"

lemma config_err_basic: "config_err (Inr x)" "config_err (Inl (Perf_Config t))" "config_err (or_config r)"
  by (auto simp: config_err_def or_config_def split: option.split)

lemma config_err_sbind: "config_err r \<Longrightarrow> (\<And>x. config_err (f x)) \<Longrightarrow> config_err (sbind r f)"
  by (cases r) (auto simp: config_err_def)

lemma config_err_defaults: "config_err (get_default_variable_config k name t)"
  by (cases k)
    (simp_all add: get_default_variable_config_def vm_default_config_def sr_default_config_def host_default_config_def common_default_def config_err_def)

lemma config_err_value: "(\<And>n t. config_err (d n t)) \<Longrightarrow> config_err (config_value d vn name tag)"
  by (simp add: config_value_def config_err_basic split: list.split)

lemma variable_config_err:
  assumes "\<And>n t. config_err (d n t)"
  shows "config_err (variable_config ev d vn)"
  unfolding variable_config_def
  by (intro config_err_sbind config_err_value assms config_err_basic)
    (simp_all add: config_err_basic split: list.split sum.split)

lemma variable_config_active: "variable_config ev d vn = Inr v \<Longrightarrow> v_active v"
  by (auto simp: variable_config_def sbind_Inr_iff)

text \<open>Making a variable: an error is one of the configuration.\<close>

lemma new_variable_cases:
  assumes "\<And>n t. config_err (d n t)"
  obtains (bad) x where "new_variable ev d vn s = (Inl (Perf_Config x), s)"
    | (good) v t where "new_variable ev d vn s = (Inr v, t)" "v_active v"
proof (cases "variable_config ev d vn")
  case (Inl e)
  then obtain x where "e = Perf_Config x" using variable_config_err [of d ev vn, OF assms] by (auto simp: config_err_def)
  with Inl show thesis by (intro bad [of x]) (simp add: new_variable_def bnd_def lift_sum_def)
next
  case (Inr v)
  obtain c k where c: "pm_time ev (pf_machine s) = (c, k)" by fastforce
  with Inr variable_config_active [OF Inr] show thesis
    by (intro good [of "fresh_state c v" "s\<lparr>pf_machine := k\<rparr>"])
      (simp_all add: new_variable_def bnd_def lift_sum_def pf_with_def ret_def fresh_state_def)
qed

section \<open>Refreshing keeps monitors good\<close>

definition main_ok :: "variable list \<Rightarrow> bool" where
  "main_ok vs \<longleftrightarrow> distinct_names vs \<and> list_all v_active vs"

definition good_monitor :: "mon_kind \<Rightarrow> monitor \<Rightarrow> bool" where
  "good_monitor kind m \<longleftrightarrow> m_kind m = kind \<and> main_ok (m_variables m) \<and> distinct_names (m_secondary m)
     \<and> (\<forall>v \<in> set (m_secondary m). v_active v \<longrightarrow> v_name v \<notin> v_name ` set (m_variables m))
     \<and> (kind \<noteq> Mon_Host \<longrightarrow> m_secondary m = [])"

lemma put_variable_ok:
  assumes "main_ok vs" "v_active var"
  shows "main_ok (put_variable var vs)"
proof -
  have "distinct_names vs" using assms(1) by (simp add: main_ok_def)
  then show ?thesis
    using assms put_variable_keeps [of vs var] by (auto simp: main_ok_def put_variable_distinct list_all_iff)
qed

lemma parse_nodes_main:
  assumes "main_ok vs"
  shows "\<exists>vs' r t. parse_nodes ev (get_default_variable_config k) vns vs names s = (Inr (vs', r), t) \<and> main_ok vs'"
  using assms
proof (induction vns arbitrary: vs names s)
  case (Cons vn vns)
  show ?case
  proof -
    consider (bad) x where "new_variable ev (get_default_variable_config k) vn s = (Inl (Perf_Config x), s)"
      | (good) v t where "new_variable ev (get_default_variable_config k) vn s = (Inr v, t)" "v_active v"
      using new_variable_cases [of "get_default_variable_config k" ev vn s, OF config_err_defaults] by metis
    then show ?thesis
    proof cases
      case bad
      with Cons.prems show ?thesis by simp
    next
      case good
      then show ?thesis using Cons.IH [OF put_variable_ok [OF Cons.prems good(2)]] by simp
    qed
  qed
qed (simp add: ret_def)

lemma parse_xmlconfig_main:
  assumes "main_ok (m_variables m)"
  shows "\<exists>vs t. parse_xmlconfig ev m s = (Inr (m\<lparr>m_variables := vs\<rparr>), t) \<and> main_ok vs"
proof -
  have empty: "main_ok []" by (simp add: main_ok_def distinct_names_def)
  have filter_ok: "main_ok (filter P vs)" if "main_ok vs" for P vs
    using that by (auto simp: main_ok_def distinct_names_def distinct_map_filter list_all_iff)
  have same: "\<exists>vs. m = m\<lparr>m_variables := vs\<rparr> \<and> main_ok vs" using assms by (intro exI [of _ "m_variables m"]) simp
  show ?thesis
  proof (cases "m_xmlconfig m")
    case None
    then show ?thesis using empty unfolding parse_xmlconfig_def by (auto simp: ret_def)
  next
    case (Some body)
    show ?thesis
    proof (cases "body = [] \<or> xml_parse body = None")
      case True
      then show ?thesis using Some empty same unfolding parse_xmlconfig_def by (auto simp: ret_def)
    next
      case False
      then obtain doc where doc: "body \<noteq> []" "xml_parse body = Some doc" by blast
      obtain vs r t where vs: "parse_nodes ev (get_default_variable_config (m_kind m)) (by_tag ''variable'' (XElem [] [] [doc])) (m_variables m) [] s
          = (Inr (vs, r), t)" "main_ok vs"
        using parse_nodes_main [OF assms] by blast
      have "parse_xmlconfig ev m s = (Inr (m\<lparr>m_variables := case r of Inl e \<Rightarrow> vs | Inr names \<Rightarrow> filter (\<lambda>v. v_name v \<in> set names) vs\<rparr>), t)"
        using Some doc vs(1) unfolding parse_xmlconfig_def by (simp add: bnd_def ret_def del: by_tag.simps split: sum.split)
      moreover have "main_ok (case r of Inl e \<Rightarrow> vs | Inr names \<Rightarrow> filter (\<lambda>v. v_name v \<in> set names) vs)"
        using vs(2) filter_ok [OF vs(2)] by (simp split: sum.split)
      ultimately show ?thesis by blast
    qed
  qed
qed

lemma refresh_object_main:
  assumes "main_ok (m_variables m)"
  shows "\<exists>x vs ch t. refresh_object ev tb m s = (Inr (m\<lparr>m_xmlconfig := x, m_variables := vs\<rparr>, ch), t) \<and> main_ok vs \<and> (\<not> ch \<longrightarrow> vs = m_variables m)"
proof (cases "map_of (all_xmlconfigs tb) (m_uuid m) = m_xmlconfig m")
  case True
  have "m = m\<lparr>m_xmlconfig := m_xmlconfig m, m_variables := m_variables m\<rparr>" by simp
  moreover have "refresh_object ev tb m s = (Inr (m, False), s)" using True by (simp add: refresh_object_def ret_def)
  ultimately show ?thesis using assms by metis
next
  case False
  let ?m = "m\<lparr>m_xmlconfig := map_of (all_xmlconfigs tb) (m_uuid m)\<rparr>"
  have "main_ok (m_variables ?m)" using assms by simp
  then obtain vs t where t: "parse_xmlconfig ev ?m s = (Inr (?m\<lparr>m_variables := vs\<rparr>), t)" "main_ok vs"
    using parse_xmlconfig_main by blast
  then have "refresh_object ev tb m s = (Inr (?m\<lparr>m_variables := vs\<rparr>, True), t)"
    using False by (simp add: refresh_object_def bnd_def ret_def)
  with t(2) show ?thesis by (metis (full_types))
qed

text \<open>The variables of the host that the repositories configure.\<close>

lemma put_secondary_ok:
  assumes "distinct_names vs"
  shows "distinct_names (put_secondary var vs)"
proof (cases "var_named (v_name var) vs")
  case None
  then have "v_name var \<notin> v_name ` set vs" by (simp add: var_named_None)
  with None assms show ?thesis by (simp add: put_secondary_def same_named distinct_names_def)
next
  case (Some v)
  have "distinct_names (filter P vs)" for P using assms by (simp add: distinct_names_def distinct_map_filter)
  moreover have "v_name var \<notin> v_name ` set (filter (\<lambda>w. v_name w \<noteq> v_name var) vs)" by auto
  ultimately show ?thesis
    using Some assms remove_named [OF assms Some] by (simp add: put_secondary_def same_named distinct_names_def)
qed

lemma sr_nodes_ok:
  assumes "distinct_names vs"
  shows "\<exists>vs' names' q t. sr_nodes ev u vns found vs names s = (Inr (vs', names', q), t) \<and> distinct_names vs' \<and> config_err q"
  using assms
proof (induction vns arbitrary: found vs names s)
  case (Cons vn vns)
  have host: "\<And>n t. config_err (host_default_config n t)" using config_err_defaults [of Mon_Host] by (simp add: get_default_variable_config_def)
  consider (bad) x where "new_variable ev host_default_config (host_node u vn) s = (Inl (Perf_Config x), s)"
    | (good) v t where "new_variable ev host_default_config (host_node u vn) s = (Inr v, t)" "v_active v"
    using new_variable_cases [of host_default_config ev "host_node u vn" s, OF host] by metis
  then show ?case
  proof cases
    case bad
    with Cons show ?thesis by (simp add: ret_def config_err_basic del: by_tag.simps)
  next
    case good
    with Cons.IH [OF Cons.prems] Cons.IH [OF put_secondary_ok [OF Cons.prems]] Cons.prems show ?thesis
      by (simp add: ret_def config_err_basic del: by_tag.simps)
  qed
qed (simp add: ret_def config_err_basic)

definition sr_error :: "perf_error + 'a \<Rightarrow> bool" where
  "sr_error q \<longleftrightarrow> (\<forall>e. q = Inl e \<longrightarrow> (\<exists>x. e = Perf_Config x) \<or> e = Perf_Expat \<or> e = Perf_Api S_KeyError)"

lemma sr_configs_ok:
  assumes "distinct_names (m_secondary m)"
  shows "\<exists>ws xs q t. sr_configs ev tb us m names s = (Inr (m\<lparr>m_secondary := ws, m_secondary_xml := xs\<rparr>, q), t) \<and> distinct_names ws \<and> sr_error q"
  using assms
proof (induction us arbitrary: m names s)
  case Nil
  then show ?case by (intro exI [of _ "m_secondary m"] exI [of _ "m_secondary_xml m"]) (simp add: ret_def sr_error_def)
next
  case (Cons u us)
  show ?case
  proof (cases "map_of (all_xmlconfigs tb) u")
    case None
    with Cons.prems show ?thesis by (intro exI [of _ "m_secondary m"] exI [of _ "m_secondary_xml m"]) (simp add: ret_def sr_error_def)
  next
    case (Some body)
    let ?m = "m\<lparr>m_secondary_xml := AList.update u body (m_secondary_xml m)\<rparr>"
    show ?thesis
    proof (cases "xml_parse body")
      case None
      have "sr_configs ev tb (u # us) m names s = (Inr (?m, Inl Perf_Expat), s)" using Some None by (simp add: ret_def)
      with Cons.prems show ?thesis
        by (intro exI [of _ "m_secondary m"] exI [of _ "AList.update u body (m_secondary_xml m)"]) (simp add: sr_error_def)
    next
      case doc: (Some doc)
      obtain vs' names' q t where t: "sr_nodes ev u (by_tag ''variable'' (XElem [] [] [doc])) False (m_secondary m) names s = (Inr (vs', names', q), t)"
          "distinct_names vs'" "config_err q"
        using sr_nodes_ok [OF Cons.prems] by blast
      let ?n = "?m\<lparr>m_secondary := vs'\<rparr>"
      have run: "sr_configs ev tb (u # us) m names s = (case q of Inl e \<Rightarrow> (Inr (?n, Inl e), t) | Inr x \<Rightarrow> sr_configs ev tb us ?n names' t)"
        using Some doc t(1) by (simp add: Let_def bnd_def ret_def del: by_tag.simps split: sum.split)
      have "distinct_names (m_secondary ?n)" using t(2) by simp
      from Cons.IH [OF this, of names' t] obtain ws xs q' t' where
        w: "sr_configs ev tb us ?n names' t = (Inr (?n\<lparr>m_secondary := ws, m_secondary_xml := xs\<rparr>, q'), t')" "distinct_names ws" "sr_error q'"
        by blast
      show ?thesis
      proof (cases q)
        case (Inl e)
        have "sr_error (Inl e :: perf_error + string list)" using Inl t(3) by (auto simp: config_err_def sr_error_def)
        with Inl run t(2) show ?thesis
          by (intro exI [of _ vs'] exI [of _ "AList.update u body (m_secondary_xml m)"] exI [of _ "Inl e"] exI [of _ t]) simp
      next
        case (Inr x)
        with run w show ?thesis by (intro exI [of _ ws] exI [of _ xs] exI [of _ q'] exI [of _ t']) simp
      qed
    qed
  qed
qed


section \<open>Refreshing a monitor\<close>

lemma set_active_run: "\<exists>w t. set_active ev b v s = (Inr w, t) \<and> v_name w = v_name v \<and> v_active w = b"
proof -
  obtain c k where "pm_time ev (pf_machine s) = (c, k)" by fastforce
  then show ?thesis by (cases b) (auto simp: set_active_def bnd_def pf_with_def ret_def fresh_state_def)
qed

lemma activate_run:
  "\<exists>ws t. collect (\<lambda>v. set_active ev (f (v_name v)) v) vs s = (Inr ws, t)
    \<and> map v_name ws = map v_name vs \<and> (\<forall>w \<in> set ws. v_active w = f (v_name w))"
proof (induction vs arbitrary: s)
  case (Cons v vs)
  obtain w t where w: "set_active ev (f (v_name v)) v s = (Inr w, t)" "v_name w = v_name v" "v_active w = f (v_name v)"
    using set_active_run by blast
  obtain ws u where "collect (\<lambda>v. set_active ev (f (v_name v)) v) vs t = (Inr ws, u)" "map v_name ws = map v_name vs"
      "\<forall>w \<in> set ws. v_active w = f (v_name w)"
    using Cons.IH [of t] by blast
  with w show ?case by (intro exI [of _ "w # ws"] exI [of _ u]) (simp add: bnd_def ret_def)
qed (simp add: ret_def)

text \<open>The only error that leaves the refresh of a host is that of a repository without a configuration.\<close>

definition refreshed :: "mon_kind \<Rightarrow> string \<Rightarrow> monitor \<times> (perf_error + unit) \<Rightarrow> bool" where
  "refreshed kind u = (\<lambda>(m, q). m_uuid m = u \<and> (q = Inr () \<and> good_monitor kind m \<or> q = Inl (Perf_Api S_KeyError)))"

lemma caught_sr_error: "sr_error q \<Longrightarrow> caught_config q = Inr () \<or> caught_config q = Inl (Perf_Api S_KeyError)"
  by (cases q) (auto simp: sr_error_def caught_config_def)

lemma parse_secondary_ok:
  assumes "distinct_names (m_secondary m)"
  shows "\<exists>ws xs q t. parse_secondary ev tb us m s = (Inr (m\<lparr>m_secondary := ws, m_secondary_xml := xs\<rparr>, q), t) \<and> distinct_names ws \<and> sr_error q"
proof -
  let ?m = "m\<lparr>m_secondary_xml := []\<rparr>"
  have "distinct_names (m_secondary ?m)" using assms by simp
  from sr_configs_ok [OF this, of ev tb us "[]" s] obtain ws xs q t where
    run: "sr_configs ev tb us ?m [] s = (Inr (?m\<lparr>m_secondary := ws, m_secondary_xml := xs\<rparr>, q), t)" "distinct_names ws" "sr_error q" by blast
  show ?thesis
  proof (cases q)
    case (Inl e)
    have "sr_error (Inl e :: perf_error + unit)" using Inl run(3) by (simp add: sr_error_def)
    with Inl run show ?thesis
      by (intro exI [of _ ws] exI [of _ xs] exI [of _ "Inl e"] exI [of _ t]) (simp add: parse_secondary_def bnd_def ret_def)
  next
    case (Inr names)
    have "distinct_names (filter P ws)" for P using run(2) by (simp add: distinct_names_def distinct_map_filter)
    with Inr run show ?thesis
      by (intro exI [of _ "filter (\<lambda>v. v_name v \<in> set names) ws"] exI [of _ xs] exI [of _ "Inr ()"] exI [of _ t])
        (simp add: parse_secondary_def bnd_def ret_def sr_error_def)
  qed
qed

lemma refresh_host_good:
  assumes "good_monitor Mon_Host m"
  shows "\<exists>r t. refresh_host ev tb m s = (Inr r, t) \<and> refreshed Mon_Host (m_uuid m) r"
proof -
  have m: "main_ok (m_variables m)" "m_kind m = Mon_Host" "distinct_names (m_secondary m)"
    using assms by (simp_all add: good_monitor_def)
  obtain x vs ch t where o: "refresh_object ev tb m s = (Inr (m\<lparr>m_xmlconfig := x, m_variables := vs\<rparr>, ch), t)" "main_ok vs"
      "\<not> ch \<longrightarrow> vs = m_variables m"
    using refresh_object_main [OF m(1)] by blast
  let ?m = "m\<lparr>m_xmlconfig := x, m_variables := vs\<rparr>"
  show ?thesis
  proof (cases "map_of (sruuids_by_hostuuid tb) (m_uuid m)")
    case None
    then show ?thesis
      using o m by (simp add: refresh_host_def bnd_def ret_def refreshed_def good_monitor_def distinct_names_def)
  next
    case (Some us)
    let ?ch = "secondary_changed tb us ?m"
    obtain ws xs q u where p: "(if ?ch then parse_secondary ev tb us ?m else ret (?m, Inr ())) t = (Inr (?m\<lparr>m_secondary := ws, m_secondary_xml := xs\<rparr>, q), u)"
        "distinct_names ws" "sr_error q" "\<not> ?ch \<longrightarrow> ws = m_secondary m"
    proof (cases ?ch)
      case True
      have "distinct_names (m_secondary ?m)" using m(3) by simp
      from parse_secondary_ok [OF this, of ev tb us t] obtain ws xs q u where
        "parse_secondary ev tb us ?m t = (Inr (?m\<lparr>m_secondary := ws, m_secondary_xml := xs\<rparr>, q), u)" "distinct_names ws" "sr_error q" by blast
      with True show thesis by (intro that [of xs ws q u]) simp_all
    next
      case False
      then show thesis
        by (intro that [of "m_secondary_xml m" "m_secondary m" "Inr ()" t]) (simp_all add: ret_def m(3) sr_error_def)
    qed
    let ?n = "?m\<lparr>m_secondary := ws, m_secondary_xml := xs\<rparr>"
    obtain as v where act: "collect (\<lambda>v. set_active ev (v_name v \<notin> set (map v_name (m_variables ?n))) v) ws u = (Inr as, v)"
        "map v_name as = map v_name ws" "\<forall>w \<in> set as. v_active w = (v_name w \<notin> set (map v_name vs))"
      using activate_run [of ev "\<lambda>n. n \<notin> set (map v_name (m_variables ?n))" ws u] by auto
    have run: "refresh_host ev tb m s = (case caught_config q of
        Inl e \<Rightarrow> (Inr (?n, Inl e), u)
      | Inr x \<Rightarrow> if ch \<or> ?ch then (Inr (?n\<lparr>m_secondary := as\<rparr>, Inr ()), v) else (Inr (?n, Inr ()), u))"
      using p(1) act(1) unfolding refresh_host_def
      by (simp add: bnd_def o(1) Some Let_def ret_def split: sum.split)
    from caught_sr_error [OF p(3)] show ?thesis
    proof
      assume "caught_config q = Inl (Perf_Api S_KeyError)"
      then show ?thesis unfolding run by (simp add: refreshed_def)
    next
      assume q: "caught_config q = Inr ()"
      show ?thesis
      proof (cases "ch \<or> ?ch")
        case True
        have "distinct_names as" using p(2) act(2) by (simp add: distinct_names_def)
        with True q o(2) m(2) act(3) show ?thesis unfolding run by (auto simp: refreshed_def good_monitor_def)
      next
        case False
        with q o(2,3) p(4) assms show ?thesis unfolding run by (simp add: refreshed_def good_monitor_def)
      qed
    qed
  qed
qed

lemma refresh_config_good:
  assumes "good_monitor kind m"
  shows "\<exists>r t. refresh_config ev tb m s = (Inr r, t) \<and> refreshed kind (m_uuid m) r"
proof (cases "kind = Mon_Host")
  case True
  then show ?thesis using assms refresh_host_good [of m ev tb s] by (simp add: refresh_config_def good_monitor_def)
next
  case False
  have m: "main_ok (m_variables m)" "m_kind m = kind" "m_secondary m = []" using assms False by (simp_all add: good_monitor_def)
  from refresh_object_main [OF m(1)] obtain x vs ch t where
    "refresh_object ev tb m s = (Inr (m\<lparr>m_xmlconfig := x, m_variables := vs\<rparr>, ch), t)" "main_ok vs" by blast
  with False m show ?thesis
    by (simp add: refresh_config_def bnd_def ret_def refreshed_def good_monitor_def distinct_names_def)
qed

lemma new_monitor_good: "\<exists>r t. new_monitor ev tb kind u s = (Inr r, t) \<and> refreshed kind u r"
proof -
  let ?m = "\<lparr>m_kind = kind, m_uuid = u, m_xmlconfig = None, m_variables = [], m_secondary = [], m_secondary_xml = []\<rparr>"
  have "good_monitor kind ?m" by (simp add: good_monitor_def main_ok_def distinct_names_def)
  from refresh_config_good [OF this, of ev tb s] show ?thesis by (simp add: new_monitor_def)
qed


section \<open>Processing values\<close>

text \<open>What the values leave of variables: the names, and which are active.\<close>

definition shape :: "variable list \<Rightarrow> (string \<times> bool) list" where
  "shape vs = map (\<lambda>v. (v_name v, v_active v)) vs"

lemma shape_facts:
  "distinct_names vs \<longleftrightarrow> distinct (map fst (shape vs))" "list_all v_active vs \<longleftrightarrow> list_all snd (shape vs)"
  "v_name ` set vs = fst ` set (shape vs)" "(\<forall>v \<in> set vs. v_active v \<longrightarrow> v_name v \<notin> N) \<longleftrightarrow> (\<forall>(n, a) \<in> set (shape vs). a \<longrightarrow> n \<notin> N)"
  "vs = [] \<longleftrightarrow> shape vs = []"
  by (simp_all add: shape_def distinct_names_def comp_def list_all_iff image_image)

lemma good_monitor_shape:
  assumes "shape vs = shape (m_variables m)" "shape ws = shape (m_secondary m)" "good_monitor kind m"
  shows "good_monitor kind (m\<lparr>m_variables := vs, m_secondary := ws\<rparr>)"
  using assms by (simp add: good_monitor_def main_ok_def shape_facts)

definition like :: "variable \<Rightarrow> variable \<Rightarrow> bool" where
  "like v w \<longleftrightarrow> v_name w = v_name v \<and> v_active w = v_active v"

lemma like_trans: "like v w \<Longrightarrow> like w = like v"
  by (rule ext) (simp add: like_def)

lemma update_variable_shape: "yields (\<lambda>(w, q). like v w) (update_variable ev kind u v x)"
  unfolding yields_def
proof (intro allI impI)
  fix s p t assume run: "update_variable ev kind u v x s = (Inr p, t)"
  obtain w r new k where "update_variable ev kind u v x s = (Inr (w, r), s\<lparr>pf_machine := k, pf_alarms := pf_alarms s @ new\<rparr>)" "v_config w = v_config v"
    by (rule update_variable_effect [of ev kind u v x s])
  with run v_config_facts(1,9) [of w v] show "case p of (w, q) \<Rightarrow> like v w" by (auto simp: like_def)
qed

lemma feed_rows_shape: "yields (\<lambda>(w, q). like v w) (feed_rows ev m r params v rows)"
proof (induction rows arbitrary: v)
  case (Cons row rows)
  have rest: "yields (\<lambda>(w, q). like v w) (feed_rows ev m r params w rows)" if "like v w" for w
    using Cons.IH [of w] by (simp add: like_trans [OF that])
  have one: "yields (\<lambda>(w, q). like v w)
      (bnd (update_variable ev (kind_text (m_kind m)) (m_uuid m) v x) (\<lambda>(v', q). case q of Inl e \<Rightarrow> ret (v', Inl e) | Inr u \<Rightarrow> feed_rows ev m r params v' rows))" for x
    by (rule yields_bnd [OF update_variable_shape]) (use rest in \<open>auto split: sum.split\<close>)
  show ?case unfolding yields_def
  proof (intro allI impI)
    fix s p t assume run: "feed_rows ev m r params v (row # rows) s = (Inr p, t)"
    obtain c u where "consolidate ev (v_fn v) (map (\<lambda>p. get_value r p row) params) s = (c, u)" by fastforce
    with run show "case p of (w, q) \<Rightarrow> like v w"
      by (cases c) (auto simp: like_def dest: yieldsD [OF one])
  qed
qed (simp add: like_def)

lemma feed_variables_shape: "yields (\<lambda>(ws, q). shape ws = shape vs) (feed_variables ev m r rows vs)"
proof (induction vs)
  case (Cons v vs)
  have rest: "yields (\<lambda>(ws, q). shape ws = shape (v # vs)) (bnd (feed_variables ev m r rows vs) (\<lambda>(vs', q). ret (w # vs', q)))"
    if "like v w" for w
    by (rule yields_bnd [OF Cons.IH]) (use that in \<open>auto simp: shape_def like_def\<close>)
  show ?case
  proof (cases "v_active v")
    case True
    have "yields (\<lambda>(ws, q). shape ws = shape (v # vs)) (bnd (feed_rows ev m r (params_to_consolidate ev v r) v [0..<rows]) (\<lambda>(v', q).
        case q of Inl e \<Rightarrow> ret (v' # vs, Inl e) | Inr u \<Rightarrow> bnd (feed_variables ev m r rows vs) (\<lambda>(vs', q). ret (v' # vs', q))))"
      by (rule yields_bnd [OF feed_rows_shape]) (use rest in \<open>auto simp: shape_def like_def split: sum.split\<close>)
    with True show ?thesis by simp
  next
    case False
    with rest [of v] show ?thesis by (simp add: like_def)
  qed
qed simp

lemma process_good:
  assumes "good_monitor kind m"
  shows "yields (\<lambda>(m', q). m_uuid m' = m_uuid m \<and> good_monitor kind m') (process_rrd_updates ev up m)"
proof (cases "get_obj_report_by_uuid up (m_uuid m)")
  case None
  with assms show ?thesis by (simp add: process_rrd_updates_def)
next
  case (Some r)
  let ?rows = "nat (rr_rows (ru_report up))"
  let ?Q = "\<lambda>(m', q). m_uuid m' = m_uuid m \<and> good_monitor kind m'"
  have good: "good_monitor kind (m\<lparr>m_variables := vs, m_secondary := ws\<rparr>)" if "shape vs = shape (m_variables m)" "shape ws = shape (m_secondary m)" for vs ws
    using good_monitor_shape [OF that assms] .
  have main: "good_monitor kind (m\<lparr>m_variables := vs\<rparr>)" if "shape vs = shape (m_variables m)" for vs
    using good [OF that, of "m_secondary m"] by simp
  have sec: "yields ?Q (bnd (feed_variables ev m r ?rows (m_secondary m)) (\<lambda>(ws, q). ret (m\<lparr>m_variables := vs, m_secondary := ws\<rparr>, q)))"
    if "shape vs = shape (m_variables m)" for vs
    by (rule yields_bnd [OF feed_variables_shape]) (use good [OF that] in \<open>auto\<close>)
  have "yields ?Q (bnd (feed_variables ev m r ?rows (m_variables m)) (\<lambda>(vs, q).
      case q of Inl e \<Rightarrow> ret (m\<lparr>m_variables := vs\<rparr>, Inl e)
      | Inr x \<Rightarrow> bnd (feed_variables ev m r ?rows (m_secondary m)) (\<lambda>(ws, q). ret (m\<lparr>m_variables := vs, m_secondary := ws\<rparr>, q))))"
    by (rule yields_bnd [OF feed_variables_shape]) (use sec main in \<open>auto split: sum.split\<close>)
  with Some show ?thesis by (simp add: process_rrd_updates_def)
qed


section \<open>Runs\<close>

text \<open>A property that an operation keeps unless it ends with one of the errors.\<close>

definition guards :: "'e set \<Rightarrow> ('s \<Rightarrow> bool) \<Rightarrow> ('s, 'e, 'a) st \<Rightarrow> bool" where
  "guards F P m \<longleftrightarrow> (\<forall>s. P s \<longrightarrow> P (snd (m s)) \<or> fst (m s) \<in> Inl ` F)"

named_theorems guards_intros \<open>closure rules of the predicate guards\<close>

lemma guards_keeps: "keeps P m \<Longrightarrow> guards F P m"
  by (simp add: guards_def keeps_def)

lemma guards_basic [guards_intros]:
  "guards F P (ret x)" "guards F P (throw e)" "guards F P (gets f)" "guards F P (lift_sum r)"
  by (intro guards_keeps keeps_intros)+

lemma guards_bnd [guards_intros]:
  assumes "guards F P m" "\<And>x. guards F P (f x)"
  shows "guards F P (bnd m f)"
  unfolding guards_def
proof (intro allI impI)
  fix s assume "P s"
  obtain r t where m: "m s = (r, t)" by fastforce
  with assms(1) \<open>P s\<close> have t: "P t \<or> r \<in> Inl ` F" by (auto simp: guards_def dest: spec [of _ s])
  show "P (snd (bnd m f s)) \<or> fst (bnd m f s) \<in> Inl ` F"
  proof (cases r)
    case (Inl e)
    with m t show ?thesis by (auto simp: bnd_def)
  next
    case (Inr x)
    with m t assms(2) show ?thesis by (auto simp: bnd_def guards_def)
  qed
qed

lemma guards_seq [guards_intros]: "guards F P m \<Longrightarrow> guards F P k \<Longrightarrow> guards F P (seq m k)"
  by (simp add: seq_def guards_bnd)

lemma guards_if [guards_intros]: "guards F P m \<Longrightarrow> guards F P k \<Longrightarrow> guards F P (if b then m else k)"
  by simp

lemma guards_case_prod [guards_intros]: "(\<And>a b. guards F P (f a b)) \<Longrightarrow> guards F P (case p of (a, b) \<Rightarrow> f a b)"
  by (cases p) simp

lemma guards_for_each [guards_intros]: "(\<And>x. guards F P (body x)) \<Longrightarrow> guards F P (for_each body xs)"
  by (induction xs) (auto intro: guards_intros)

lemma guards_modify: "(\<And>s. P s \<Longrightarrow> P (f s)) \<Longrightarrow> guards F P (modify f)"
  by (intro guards_keeps keeps_modify)

lemma guards_catch:
  assumes "guards F P m" "\<And>e. guards F P (h e)" "\<And>e. e \<in> F \<Longrightarrow> h e = throw e"
  shows "guards F P (catch m h)"
  unfolding guards_def
proof (intro allI impI)
  fix s assume "P s"
  obtain r t where m: "m s = (r, t)" by fastforce
  with assms(1) \<open>P s\<close> have "P t \<or> r \<in> Inl ` F" by (auto simp: guards_def dest: spec [of _ s])
  with m assms(2,3) show "P (snd (catch m h s)) \<or> fst (catch m h s) \<in> Inl ` F"
    by (cases r) (auto simp: catch_def guards_def throw_def)
qed

text \<open>The monitors of a table: those of its kind, under their identifiers.\<close>

definition good_table :: "mon_kind \<Rightarrow> (string \<times> monitor) list \<Rightarrow> bool" where
  "good_table kind ms \<longleftrightarrow> (\<forall>(u, m) \<in> set ms. m_uuid m = u \<and> good_monitor kind m)"

lemma good_table_update: "good_table kind ms \<Longrightarrow> m_uuid m = u \<Longrightarrow> good_monitor kind m \<Longrightarrow> good_table kind (AList.update u m ms)"
  by (induction ms) (auto simp: good_table_def)

lemma good_table_lookup: "good_table kind ms \<Longrightarrow> map_of ms u = Some m \<Longrightarrow> m_uuid m = u \<and> good_monitor kind m"
  by (auto simp: good_table_def dest!: map_of_SomeD)

definition good_daemon :: "'k daemon \<Rightarrow> bool" where
  "good_daemon s \<longleftrightarrow> good_table Mon_VM (dm_vms s) \<and> good_table Mon_SR (dm_srs s) \<and> (\<forall>m. dm_host s = Some m \<longrightarrow> good_monitor Mon_Host m)"

lemma good_daemon_rest [simp]:
  "good_daemon (s\<lparr>dm_state := a\<rparr>) = good_daemon s" "good_daemon (s\<lparr>dm_restart := b\<rparr>) = good_daemon s"
  "good_daemon (s\<lparr>dm_session := c\<rparr>) = good_daemon s" "good_daemon (s\<lparr>dm_updates := d\<rparr>) = good_daemon s"
  "good_daemon (s\<lparr>dm_next := n\<rparr>) = good_daemon s" "good_daemon (s\<lparr>dm_tables := tb\<rparr>) = good_daemon s"
  by (simp_all add: good_daemon_def)

definition broken :: "perf_error set" where
  "broken = {Perf_Api S_KeyError}"

lemma guards_lift [guards_intros]: "guards F good_daemon (dm_lift f)"
  by (intro guards_keeps keepsI) (simp add: dm_lift_def split: prod.split)

text \<open>A place of the daemon that holds monitors of a kind.\<close>

locale monitor_place =
  fixes kind :: mon_kind and get :: "'k daemon \<Rightarrow> monitor option" and put :: "monitor \<Rightarrow> 'k daemon \<Rightarrow> 'k daemon" and u :: string
  assumes got: "good_daemon s \<Longrightarrow> get s = Some m \<Longrightarrow> good_monitor kind m \<and> (kind \<noteq> Mon_Host \<longrightarrow> m_uuid m = u)"
    and putting: "good_daemon s \<Longrightarrow> good_monitor kind m \<Longrightarrow> kind \<noteq> Mon_Host \<longrightarrow> m_uuid m = u \<Longrightarrow> good_daemon (put m s)"
begin

lemma renewed:
  assumes "good_daemon s" "get s = Some m"
  shows "let p = bnd (dm_lift (refresh_config ev tb m)) (\<lambda>(m, q). seq (modify (put m)) (lift_sum q)) s in good_daemon (snd p) \<or> fst p \<in> Inl ` broken"
proof -
  have m: "good_monitor kind m" "kind \<noteq> Mon_Host \<longrightarrow> m_uuid m = u" using got [OF assms] by auto
  obtain m' q t where r: "refresh_config ev tb m (dm_state s) = (Inr (m', q), t)" "refreshed kind (m_uuid m) (m', q)"
    using refresh_config_good [OF m(1), of ev tb "dm_state s"] by auto
  have "good_daemon (s\<lparr>dm_state := t\<rparr>)" using assms(1) by simp
  from putting [OF this, of m'] show ?thesis
    using r m(2) by (auto simp: refreshed_def bnd_def dm_lift_def seq_def modify_def lift_sum_def broken_def)
qed

lemma made:
  assumes "good_daemon s"
  shows "let p = bnd (dm_lift (new_monitor ev tb kind u)) (\<lambda>(m, q). case q of Inl e \<Rightarrow> throw e | Inr x \<Rightarrow> modify (put m)) s
    in good_daemon (snd p) \<or> fst p \<in> Inl ` broken"
proof -
  obtain m' q t where r: "new_monitor ev tb kind u (dm_state s) = (Inr (m', q), t)" "refreshed kind u (m', q)"
    using new_monitor_good [of ev tb kind u "dm_state s"] by auto
  have "good_daemon (s\<lparr>dm_state := t\<rparr>)" using assms by simp
  from putting [OF this, of m'] show ?thesis
    using r by (auto simp: refreshed_def bnd_def dm_lift_def throw_def modify_def broken_def)
qed

lemma processed:
  assumes "good_daemon s" "get s = Some m"
  shows "good_daemon (snd (bnd (dm_lift (process_rrd_updates ev up m)) (\<lambda>(m, q). seq (modify (put m)) (lift_sum q)) s))"
proof -
  have m: "good_monitor kind m" "kind \<noteq> Mon_Host \<longrightarrow> m_uuid m = u" using got [OF assms] by auto
  obtain r t where r: "process_rrd_updates ev up m (dm_state s) = (r, t)" by fastforce
  have t: "good_daemon (s\<lparr>dm_state := t\<rparr>)" using assms(1) by simp
  show ?thesis
  proof (cases r)
    case (Inl e)
    with r t show ?thesis by (simp add: bnd_def dm_lift_def)
  next
    case (Inr p)
    obtain m' q where p: "p = (m', q)" by fastforce
    from Inr r have "process_rrd_updates ev up m (dm_state s) = (Inr (m', q), t)" by (simp add: p)
    from yieldsD [OF process_good [OF m(1)] this] putting [OF t, of m'] m(2) Inr r p show ?thesis
      by (simp add: bnd_def dm_lift_def seq_def modify_def lift_sum_def)
  qed
qed

end

interpretation vm_place: monitor_place Mon_VM "\<lambda>s. map_of (dm_vms s) u" "\<lambda>m s. s\<lparr>dm_vms := AList.update u m (dm_vms s)\<rparr>" u
  for u by unfold_locales (auto simp: good_daemon_def good_table_update dest: good_table_lookup)

interpretation sr_place: monitor_place Mon_SR "\<lambda>s. map_of (dm_srs s) u" "\<lambda>m s. s\<lparr>dm_srs := AList.update u m (dm_srs s)\<rparr>" u
  for u by unfold_locales (auto simp: good_daemon_def good_table_update dest: good_table_lookup)

interpretation host_place: monitor_place Mon_Host dm_host "\<lambda>m s. s\<lparr>dm_host := Some m\<rparr>" u
  for u by unfold_locales (auto simp: good_daemon_def)


lemma guardsI: "(\<And>s. P s \<Longrightarrow> P (snd (m s)) \<or> fst (m s) \<in> Inl ` F) \<Longrightarrow> guards F P m"
  by (simp add: guards_def)

lemma good_keep_listed: "good_table kind ms \<Longrightarrow> good_table kind (keep_listed us ms)"
  by (auto simp: good_table_def keep_listed_def)

lemma store_vm: "guards broken good_daemon (store_monitor dm_vms (\<lambda>ms s. s\<lparr>dm_vms := ms\<rparr>) ev Mon_VM u)"
proof (rule guardsI)
  fix s :: "'a daemon" assume s: "good_daemon s"
  show "good_daemon (snd (store_monitor dm_vms (\<lambda>ms s. s\<lparr>dm_vms := ms\<rparr>) ev Mon_VM u s)) \<or>
      fst (store_monitor dm_vms (\<lambda>ms s. s\<lparr>dm_vms := ms\<rparr>) ev Mon_VM u s) \<in> Inl ` broken"
    using vm_place.made [OF s, of "dm_perf ev" "dm_tables s" u] vm_place.renewed [OF s, of u _ "dm_perf ev" "dm_tables s"]
    by (simp add: store_monitor_def Let_def split: option.split)
qed

lemma store_sr: "guards broken good_daemon (store_monitor dm_srs (\<lambda>ms s. s\<lparr>dm_srs := ms\<rparr>) ev Mon_SR u)"
proof (rule guardsI)
  fix s :: "'a daemon" assume s: "good_daemon s"
  show "good_daemon (snd (store_monitor dm_srs (\<lambda>ms s. s\<lparr>dm_srs := ms\<rparr>) ev Mon_SR u s)) \<or>
      fst (store_monitor dm_srs (\<lambda>ms s. s\<lparr>dm_srs := ms\<rparr>) ev Mon_SR u s) \<in> Inl ` broken"
    using sr_place.made [OF s, of "dm_perf ev" "dm_tables s" u] sr_place.renewed [OF s, of u _ "dm_perf ev" "dm_tables s"]
    by (simp add: store_monitor_def Let_def split: option.split)
qed

lemma guards_vm_monitors: "guards broken good_daemon (vm_monitors ev)"
  unfolding vm_monitors_def
  by (intro guards_intros store_vm guards_modify) (simp add: good_daemon_def good_keep_listed)

lemma guards_sr_monitors: "guards broken good_daemon (sr_monitors ev)"
  unfolding sr_monitors_def
  by (intro guards_intros store_sr guards_modify) (simp add: good_daemon_def good_keep_listed)

lemma guards_host_monitor: "guards broken good_daemon (host_monitor ev)"
proof (rule guardsI)
  fix s :: "'a daemon" assume s: "good_daemon s"
  have gone: "good_daemon (s\<lparr>dm_host := None\<rparr>)" using s by (simp add: good_daemon_def)
  show "good_daemon (snd (host_monitor ev s)) \<or> fst (host_monitor ev s) \<in> Inl ` broken"
    using s gone host_place.made [OF s, of "dm_perf ev" "dm_tables s"] host_place.renewed [OF s, of _ "dm_perf ev" "dm_tables s"]
    unfolding host_monitor_def by (simp add: Let_def split: list.split option.split)
qed

lemma guards_process_all: "guards broken good_daemon (process_all ev)"
proof -
  have vm: "keeps good_daemon (process_stored dm_vms (\<lambda>ms s. s\<lparr>dm_vms := ms\<rparr>) ev u)" for u
  proof (rule keepsI)
    fix s :: "'a daemon" assume s: "good_daemon s"
    show "good_daemon (snd (process_stored dm_vms (\<lambda>ms s. s\<lparr>dm_vms := ms\<rparr>) ev u s))"
      using s vm_place.processed [OF s, of u _ "dm_perf ev" "dm_updates s"] by (simp add: process_stored_def split: option.split)
  qed
  have sr: "keeps good_daemon (process_stored dm_srs (\<lambda>ms s. s\<lparr>dm_srs := ms\<rparr>) ev u)" for u
  proof (rule keepsI)
    fix s :: "'a daemon" assume s: "good_daemon s"
    show "good_daemon (snd (process_stored dm_srs (\<lambda>ms s. s\<lparr>dm_srs := ms\<rparr>) ev u s))"
      using s sr_place.processed [OF s, of u _ "dm_perf ev" "dm_updates s"] by (simp add: process_stored_def split: option.split)
  qed
  have host: "keeps good_daemon (\<lambda>s. case dm_host s of None \<Rightarrow> (Inr (), s)
      | Some m \<Rightarrow> bnd (dm_lift (process_rrd_updates (dm_perf ev) (dm_updates s) m)) (\<lambda>(m, q). seq (modify (\<lambda>s. s\<lparr>dm_host := Some m\<rparr>)) (lift_sum q)) s)"
  proof (rule keepsI)
    fix s :: "'a daemon" assume s: "good_daemon s"
    show "good_daemon (snd (case dm_host s of None \<Rightarrow> (Inr (), s)
      | Some m \<Rightarrow> bnd (dm_lift (process_rrd_updates (dm_perf ev) (dm_updates s) m)) (\<lambda>(m, q). seq (modify (\<lambda>s. s\<lparr>dm_host := Some m\<rparr>)) (lift_sum q)) s))"
      using s host_place.processed [OF s, of _ "dm_perf ev" "dm_updates s"] by (simp split: option.split)
  qed
  show ?thesis unfolding process_all_def by (intro guards_keeps keeps_intros vm sr host)
qed

lemma guards_tables: "guards broken good_daemon (update_all_xmlconfigs ev)"
proof -
  have "guards broken good_daemon (srs_of_hosts ev hosts recs)" for hosts recs
    by (induction recs) (auto intro!: guards_intros guards_modify)
  then show ?thesis unfolding update_all_xmlconfigs_def by (intro guards_intros guards_modify) simp
qed

lemma guards_round: "guards broken good_daemon (perfmon_round ev)"
  unfolding perfmon_round_def
proof (rule guards_catch)
  show "guards broken good_daemon (round_body ev)"
    unfolding round_body_def
    by (intro guards_intros guards_modify guards_tables guards_vm_monitors guards_sr_monitors guards_host_monitor guards_process_all) simp_all
  show "guards broken good_daemon (round_handler ev e)" for e
    by (cases e) (auto simp: round_handler_def Let_def intro!: guards_intros guards_modify)
  show "round_handler ev e = throw e" if "e \<in> broken" for e using that by (simp add: broken_def round_handler_def)
qed

lemma guards_run: "guards broken good_daemon (perfmon_run ev cmds)"
  by (induction cmds) (auto simp: perfmon_command_def intro!: guards_intros guards_round guards_modify)

lemma start_daemon_good: "good_daemon (start_daemon k start t)"
  by (simp add: good_daemon_def good_table_def start_daemon_def)

lemma good_monitor_active: "good_monitor kind m \<Longrightarrow> distinct_names (get_active_variables m)"
  unfolding good_monitor_def main_ok_def distinct_names_def get_active_variables_def
  by (auto simp: distinct_map_filter) (metis imageI)

definition monitors :: "'k daemon \<Rightarrow> monitor list" where
  "monitors s = map snd (dm_vms s) @ map snd (dm_srs s) @ (case dm_host s of None \<Rightarrow> [] | Some m \<Rightarrow> [m])"

lemma good_table_monitors: "good_table kind ms \<Longrightarrow> m \<in> set (map snd ms) \<Longrightarrow> good_monitor kind m"
  by (auto simp: good_table_def)

lemma good_daemon_monitors: "good_daemon s \<Longrightarrow> m \<in> set (monitors s) \<Longrightarrow> \<exists>kind. good_monitor kind m"
  unfolding good_daemon_def monitors_def set_append Un_iff
  by (elim disjE conjE; cases "dm_host s") (auto dest: good_table_monitors simp del: set_map)

text \<open>The errors that the daemon recovers from.\<close>

definition recoverable :: "perf_error \<Rightarrow> bool" where
  "recoverable e \<longleftrightarrow> e = Perf_Refused \<or> e = Perf_OSError \<or> e = Perf_Http 401 \<or> e = Perf_Http 500"

lemma run_avoids:
  assumes "recoverable e"
  shows "avoids e (perfmon_run ev cmds)"
proof -
  have lifted: "avoids e (dm_lift (pf_with f))" for f
    by (auto simp: avoids_def dm_lift_def pf_with_def split: prod.split)
  have "avoids e (round_handler ev e')" for e'
    using assms by (cases e') (auto simp: round_handler_def Let_def recoverable_def intro!: avoids_intros lifted)
  then have "avoids e (perfmon_round ev)" unfolding perfmon_round_def by (rule avoids_catch)
  moreover have "avoids e (perfmon_command ev cmd)" for cmd
    unfolding perfmon_command_def by (intro avoids_intros lifted)
  ultimately show ?thesis by (induction cmds) (auto intro: avoids_intros)
qed

text \<open>
  C22: Whatever the server, the clock and the commands: a run never ends with a lost
  connection, a file error or one of the two answers that mean a lost session. Unless it
  ends because a repository of the host has no configuration, no two variables of a
  monitor that are fed have one name, so no value is counted twice and what is
  configured on the host takes the place of what a repository configures for it.
\<close>

theorem monitors_stay_consistent:
  "\<exists>r s. perfmon_run ev cmds (start_daemon k start t) = (r, s) \<and> (\<nexists>e. r = Inl e \<and> recoverable e)
    \<and> (r = Inl (Perf_Api S_KeyError) \<or> list_all (\<lambda>m. distinct (map v_name (get_active_variables m))) (monitors s))"
proof -
  obtain r s where run: "perfmon_run ev cmds (start_daemon k start t) = (r, s)" by fastforce
  have "r \<noteq> Inl e" if "recoverable e" for e
    using run_avoids [OF that, of ev cmds] run by (auto simp: avoids_def dest: spec [of _ "start_daemon k start t"])
  moreover have "good_daemon s \<or> r \<in> Inl ` broken"
    using guards_run [of ev cmds] run start_daemon_good [of k start t] by (auto simp: guards_def dest: spec [of _ "start_daemon k start t"])
  moreover have "list_all (\<lambda>m. distinct (map v_name (get_active_variables m))) (monitors s)" if "good_daemon s"
  proof -
    have "\<exists>kind. good_monitor kind m" if "m \<in> set (monitors s)" for m
      using good_daemon_monitors [OF \<open>good_daemon s\<close>] that by blast
    then show ?thesis using good_monitor_active unfolding distinct_names_def list_all_iff by blast
  qed
  ultimately show ?thesis using run by (auto simp: broken_def)
qed

end
