(* ===== verification/Perfmon_Report.thy ===== *)
theory Perfmon_Report
  imports Perfmon_Rrd
begin

text \<open>
  The handler of reports reads the document that the statistics daemon writes,
  however its text is cut into events.
\<close>

section \<open>The document\<close>

text \<open>An element with text, in pieces.\<close>

definition el :: "string \<Rightarrow> string list \<Rightarrow> xtoken list" where
  "el name ps = XStart name [] # map XChars ps @ [XEnd name]"

text \<open>A column of the legend: consolidation, kind, identifier, parameter. A row: its time and its values, as texts.\<close>

type_synonym column = "string \<times> string \<times> string \<times> string"

definition legend_text :: "column \<Rightarrow> string" where
  "legend_text c = (case c of (cf, kind, uuid, param) \<Rightarrow> cf @ '':'' @ kind @ '':'' @ uuid @ '':'' @ param)"

definition column_key :: "column \<Rightarrow> string \<times> string" where
  "column_key c = (case c of (cf, kind, uuid, param) \<Rightarrow> (param, uuid))"

definition column_ok :: "column \<Rightarrow> bool" where
  "column_ok c = (case c of (cf, kind, uuid, param) \<Rightarrow> CHR '':'' \<notin> set (cf @ kind @ uuid @ param))"

definition row_tokens :: "string list \<times> string list list \<Rightarrow> xtoken list" where
  "row_tokens r = XStart ''row'' [] # el ''t'' (fst r) @ concat (map (el ''v'') (snd r)) @ [XEnd ''row'']"

definition meta_tokens :: "(string \<Rightarrow> string list) \<Rightarrow> xtoken list" where
  "meta_tokens m = concat (map (\<lambda>n. el n (m n)) [''start'', ''step'', ''end'', ''rows'', ''columns''])"

definition report_tokens :: "(string \<Rightarrow> string list) \<Rightarrow> (string list \<times> column) list \<Rightarrow> (string list \<times> string list list) list \<Rightarrow> xtoken list" where
  "report_tokens m cols rows =
     [XStart ''xport'' [], XStart ''meta'' []] @ meta_tokens m @ [XStart ''legend'' []] @ concat (map (\<lambda>(ps, c). el ''entry'' ps) cols)
       @ [XEnd ''legend'', XEnd ''meta'', XStart ''data'' []] @ concat (map row_tokens rows) @ [XEnd ''data'', XEnd ''xport'']"

section \<open>Elements\<close>

definition idle :: "handler \<Rightarrow> bool" where
  "idle h \<longleftrightarrow> \<not> h_start h \<and> \<not> h_step h \<and> \<not> h_end h \<and> \<not> h_rows h \<and> \<not> h_columns h \<and> \<not> h_entry h \<and> \<not> h_t h \<and> \<not> h_v h"

definition listening :: "handler \<Rightarrow> bool" where
  "listening h \<longleftrightarrow> h_start h \<or> h_step h \<or> h_end h \<or> h_rows h \<or> h_columns h \<or> h_entry h \<or> h_t h \<or> h_v h"

lemma pieces_run: "listening h \<Longrightarrow> sfold sax_event (map XChars ps) h = Inr (h\<lparr>h_text := h_text h @ concat ps\<rparr>)"
proof (induction ps arbitrary: h)
  case (Cons p ps)
  let ?h = "h\<lparr>h_text := h_text h @ p\<rparr>"
  have "listening ?h" using Cons.prems by (simp add: listening_def)
  with Cons show ?case by (simp add: characters_def listening_def [symmetric])
qed simp

lemma sbind_done: "sbind r (sfold f []) = r"
  by (cases r) simp_all

lemma el_run:
  "listening (startElement name h) \<Longrightarrow>
    sfold sax_event (el name ps) h = endElement name ((startElement name h)\<lparr>h_text := h_text (startElement name h) @ concat ps\<rparr>)"
  by (simp add: el_def sfold_append pieces_run sbind_done)

definition meta_report :: "(string \<Rightarrow> int) \<Rightarrow> rrd_report \<Rightarrow> rrd_report" where
  "meta_report n r = r\<lparr>rr_start := n ''start'', rr_step := n ''step'', rr_end := n ''end'', rr_rows := n ''rows'', rr_columns := n ''columns''\<rparr>"

lemma meta_run:
  assumes "\<And>x. x \<in> {''start'', ''step'', ''end'', ''rows'', ''columns''} \<Longrightarrow> py_int 10 (concat (m x)) = Some (n x)"
  shows "sfold sax_event (meta_tokens m) (new_handler r) = Inr ((new_handler (meta_report n r))\<lparr>h_text := concat (m ''columns'')\<rparr>)"
proof -
  have int: "py_int 10 (concat (m ''start'')) = Some (n ''start'')" "py_int 10 (concat (m ''step'')) = Some (n ''step'')"
    "py_int 10 (concat (m ''end'')) = Some (n ''end'')" "py_int 10 (concat (m ''rows'')) = Some (n ''rows'')"
    "py_int 10 (concat (m ''columns'')) = Some (n ''columns'')"
    using assms by simp_all
  show ?thesis
    by (simp add: meta_tokens_def sfold_append el_run listening_def startElement_def endElement_def text_int_def new_handler_def Let_def int meta_report_def)
qed

section \<open>The legend\<close>

text \<open>The values of a column, if its object is known.\<close>

definition col_values :: "rrd_report \<Rightarrow> string \<times> string \<Rightarrow> f64 list option" where
  "col_values r k = map_option (\<lambda>x. case map_of (or_vars x) (fst k) of None \<Rightarrow> [] | Some xs \<Rightarrow> xs) (map_of (rr_objs r) (snd k))"

definition add_obj :: "column \<Rightarrow> rrd_report \<Rightarrow> rrd_report" where
  "add_obj c r = (case c of (cf, kind, uuid, param) \<Rightarrow>
     if map_of (rr_objs r) uuid = None then r\<lparr>rr_objs := rr_objs r @ [(uuid, \<lparr>or_type = kind, or_uuid = uuid, or_vars = []\<rparr>)]\<rparr> else r)"

lemma legend_split: "column_ok c \<Longrightarrow> py_split CHR '':'' (legend_text c) = (case c of (cf, kind, uuid, param) \<Rightarrow> [cf, kind, uuid, param])"
  by (auto simp: column_ok_def legend_text_def py_split_append py_split_none)

lemma entry_run:
  assumes "idle h" "\<not> h_row h" "column_ok c" "concat ps = legend_text c"
  shows "sfold sax_event (el ''entry'' ps) h
    = Inr (h\<lparr>h_report := add_obj c (h_report h), h_details := h_details h @ [column_key c], h_text := legend_text c\<rparr>)"
  using assms
  by (simp add: el_run listening_def idle_def startElement_def endElement_def end_entry_def legend_split add_obj_def column_key_def Let_def split: prod.split)

lemma legend_run:
  assumes "idle h" "\<not> h_row h" "list_all (\<lambda>(ps, c). column_ok c \<and> concat ps = legend_text c) cols"
  shows "\<exists>t. sfold sax_event (concat (map (\<lambda>(ps, c). el ''entry'' ps) cols)) h
    = Inr (h\<lparr>h_report := fold (add_obj \<circ> snd) cols (h_report h), h_details := h_details h @ map (column_key \<circ> snd) cols, h_text := t\<rparr>)"
  using assms
proof (induction cols arbitrary: h)
  case Nil
  then show ?case by (intro exI [of _ "h_text h"]) simp
next
  case (Cons pc cols)
  obtain ps c where pc: "pc = (ps, c)" by (cases pc) blast
  let ?h = "h\<lparr>h_report := add_obj c (h_report h), h_details := h_details h @ [column_key c], h_text := legend_text c\<rparr>"
  have "sfold sax_event (el ''entry'' ps) h = Inr ?h" using Cons.prems pc by (intro entry_run) auto
  moreover have "idle ?h" "\<not> h_row ?h" using Cons.prems by (auto simp: idle_def)
  then obtain t where "sfold sax_event (concat (map (\<lambda>(ps, c). el ''entry'' ps) cols)) ?h
    = Inr (?h\<lparr>h_report := fold (add_obj \<circ> snd) cols (h_report ?h), h_details := h_details ?h @ map (column_key \<circ> snd) cols, h_text := t\<rparr>)"
    using Cons.IH Cons.prems by fastforce
  ultimately show ?case by (intro exI [of _ t]) (simp add: pc sfold_append comp_def)
qed

lemma legend_objs:
  "map_of (rr_objs (fold add_obj cols r)) u = (case map_of (rr_objs r) u of Some x \<Rightarrow> Some x
    | None \<Rightarrow> map_option (\<lambda>c. \<lparr>or_type = fst (snd c), or_uuid = u, or_vars = []\<rparr>) (find (\<lambda>c. snd (column_key c) = u) cols))"
proof (induction cols arbitrary: r)
  case (Cons c cols)
  show ?case unfolding fold_Cons comp_apply Cons
    by (cases c) (auto simp: add_obj_def column_key_def map_add_def split: option.split)
qed (simp split: option.split)

lemma legend_rows: "rr_rows (fold (add_obj \<circ> snd) cols r) = rr_rows r"
  by (induction cols arbitrary: r) (auto simp: add_obj_def split: prod.split)

section \<open>Rows\<close>

definition put_value :: "string \<times> string \<Rightarrow> f64 \<Rightarrow> rrd_report \<Rightarrow> rrd_report" where
  "put_value k v r = r\<lparr>rr_objs := map (\<lambda>(u, x). (u, if u = snd k then insert_value (fst k) v x else x)) (rr_objs r)\<rparr>"

lemma map_of_each: "map_of (map (\<lambda>(u, x). (u, f u x)) xs) u = map_option (f u) (map_of xs u)"
  by (induction xs) auto

lemma col_values_put:
  "col_values (put_value k v r) k' = (if k' = k then map_option ((#) v) (col_values r k) else col_values r k')"
  by (cases k; cases k'; cases "map_of (rr_objs r) (snd k')")
    (auto simp: col_values_def put_value_def map_of_each insert_value_def update_conv' split: option.split)

lemma col_values_puts:
  assumes "distinct ks" "length xs = length ks" "i < length ks"
  shows "col_values (fold (\<lambda>(k, x). put_value k x) (zip ks xs) r) (ks ! i) = map_option ((#) (xs ! i)) (col_values r (ks ! i))"
proof -
  have out: "k \<notin> set ks \<Longrightarrow> col_values (fold (\<lambda>(k, x). put_value k x) (zip ks xs) r) k = col_values r k" for ks :: "(string \<times> string) list" and xs k r
    
  proof (induction ks arbitrary: xs r)
    case (Cons k' ks)
    then show ?case by (cases xs) (simp_all add: col_values_put)
  qed simp
  show ?thesis
    using assms
  proof (induction ks arbitrary: xs r i)
    case (Cons k ks)
    obtain x ys where xs: "xs = x # ys" using Cons.prems(2) by (cases xs) auto
    show ?case
    proof (cases i)
      case 0
      then show ?thesis using Cons.prems(1) by (simp add: xs out col_values_put)
    next
      case (Suc j)
      then have "ks ! j \<noteq> k" using Cons.prems by (metis distinct.simps(2) length_Cons not_less_eq nth_mem)
      then show ?thesis using Cons Suc by (simp add: xs col_values_put)
    qed
  qed simp
qed

lemma value_run:
  assumes "idle h" "h_row h" "h_col h < length (h_details h)" "float_of_str (concat ps) = Inr x"
  shows "sfold sax_event (el ''v'' ps) h
    = Inr (h\<lparr>h_report := put_value (h_details h ! h_col h) x (h_report h), h_col := h_col h + 1, h_text := concat ps\<rparr>)"
proof -
  have "h = h\<lparr>h_v := False\<rparr>" using assms(1) by (cases h) (simp add: idle_def)
  then obtain g where g: "h = g\<lparr>h_v := False\<rparr>" by blast
  obtain p u where k: "h_details g ! h_col g = (p, u)" by fastforce
  have listen: "listening (startElement ''v'' h)" using assms(2) by (simp add: listening_def startElement_def Let_def)
  have put: "put_value (p, u) x r = r\<lparr>rr_objs := map (\<lambda>(w, y). (w, if w = u then insert_value p x y else y)) (rr_objs r)\<rparr>" for r
    unfolding put_value_def fst_conv snd_conv ..
  have "endElement ''v'' ((startElement ''v'' h)\<lparr>h_text := h_text (startElement ''v'' h) @ concat ps\<rparr>)
      = Inr (g\<lparr>h_text := concat ps, h_report := put_value (p, u) x (h_report g), h_col := h_col g + 1, h_v := False\<rparr>)"
    using assms by (simp add: g startElement_def endElement_def end_v_def Let_def put k)
  also have "g\<lparr>h_text := concat ps, h_report := put_value (p, u) x (h_report g), h_col := h_col g + 1, h_v := False\<rparr>
      = h\<lparr>h_report := put_value (h_details h ! h_col h) x (h_report h), h_col := h_col h + 1, h_text := concat ps\<rparr>"
    by (rule handler.equality) (simp_all add: g k)
  finally show ?thesis unfolding el_run [OF listen] .
qed

lemma values_run:
  assumes "idle h" "h_row h" "h_col h + length vs \<le> length (h_details h)"
    and "list_all2 (\<lambda>ps x. float_of_str (concat ps) = Inr x) vs xs"
  shows "\<exists>t. sfold sax_event (concat (map (el ''v'') vs)) h
    = Inr (h\<lparr>h_report := fold (\<lambda>(k, x). put_value k x) (zip (drop (h_col h) (h_details h)) xs) (h_report h), h_col := h_col h + length vs, h_text := t\<rparr>)"
  using assms
proof (induction vs arbitrary: h xs)
  case Nil
  then show ?case by (intro exI [of _ "h_text h"]) simp
next
  case (Cons ps vs)
  obtain x ys where xs: "xs = x # ys" "float_of_str (concat ps) = Inr x" "list_all2 (\<lambda>ps x. float_of_str (concat ps) = Inr x) vs ys"
    using Cons.prems(4) by (cases xs) auto
  obtain k ds where d: "drop (h_col h) (h_details h) = k # ds" using Cons.prems(3) by (cases "drop (h_col h) (h_details h)") auto
  then have k: "h_details h ! h_col h = k" "drop (Suc (h_col h)) (h_details h) = ds"
    by (simp_all add: nth_via_drop tl_drop [symmetric] drop_Suc)
  let ?h = "h\<lparr>h_report := put_value k x (h_report h), h_col := h_col h + 1, h_text := concat ps\<rparr>"
  have "sfold sax_event (el ''v'' ps) h = Inr ?h"
    using value_run [OF Cons.prems(1,2) _ xs(2)] Cons.prems(3) k(1) by simp
  moreover have "idle ?h" "h_row ?h" "h_col ?h + length vs \<le> length (h_details ?h)" using Cons.prems by (auto simp: idle_def)
  then obtain t where "sfold sax_event (concat (map (el ''v'') vs)) ?h
    = Inr (?h\<lparr>h_report := fold (\<lambda>(k, x). put_value k x) (zip (drop (h_col ?h) (h_details ?h)) ys) (h_report ?h), h_col := h_col ?h + length vs, h_text := t\<rparr>)"
    using Cons.IH xs(3) by blast
  ultimately show ?case by (intro exI [of _ t]) (simp add: sfold_append xs(1) d k(2))
qed

text \<open>What a row does to the report: its times and its values.\<close>

definition row_time :: "nat \<Rightarrow> int \<Rightarrow> rrd_report \<Rightarrow> rrd_report" where
  "row_time num t r = (if num = 0 then r\<lparr>rr_start := t, rr_end := t\<rparr> else r\<lparr>rr_start := t\<rparr>)"

definition row_ok :: "nat \<Rightarrow> string list \<times> string list list \<Rightarrow> int \<times> f64 list \<Rightarrow> bool" where
  "row_ok n r x \<longleftrightarrow> py_int 10 (concat (fst r)) = Some (fst x) \<and> list_all2 (\<lambda>ps x. float_of_str (concat ps) = Inr x) (snd r) (snd x)
     \<and> length (snd x) = n"

lemma row_run:
  assumes "idle h" "\<not> h_row h" "row_ok (length (h_details h)) row x"
  shows "\<exists>t c. sfold sax_event (row_tokens row) h
    = Inr (h\<lparr>h_report := fold (\<lambda>(k, x). put_value k x) (zip (h_details h) (snd x)) (row_time (h_rownum h) (fst x) (h_report h)),
             h_rownum := h_rownum h + 1, h_col := c, h_text := t\<rparr>)"
proof -
  have "h = h\<lparr>h_row := False\<rparr>" using assms(2) by (cases h) simp
  then obtain g where g: "h = g\<lparr>h_row := False\<rparr>" by blast
  let ?h1 = "(startElement ''row'' h)\<lparr>h_report := row_time (h_rownum h) (fst x) (h_report h), h_text := concat (fst row)\<rparr>"
  have t: "sfold sax_event (el ''t'' (fst row)) (startElement ''row'' h) = Inr ?h1"
    using assms
    by (simp add: el_run listening_def idle_def startElement_def endElement_def text_int_def row_ok_def row_time_def Let_def)
  have h1: "idle ?h1" "h_row ?h1" "h_details ?h1 = h_details h" "h_col ?h1 = 0" "h_rownum ?h1 = h_rownum h"
    using assms(1) by (auto simp: idle_def startElement_def Let_def)
  moreover have "length (snd row) = length (h_details h)" using assms(3) by (auto simp: row_ok_def dest: list_all2_lengthD)
  ultimately obtain u where v: "sfold sax_event (concat (map (el ''v'') (snd row))) ?h1
    = Inr (?h1\<lparr>h_report := fold (\<lambda>(k, x). put_value k x) (zip (drop (h_col ?h1) (h_details ?h1)) (snd x)) (h_report ?h1), h_col := h_col ?h1 + length (snd row), h_text := u\<rparr>)"
    using values_run [of ?h1 "snd row" "snd x"] assms(3) by (auto simp: row_ok_def)
  let ?r = "fold (\<lambda>(k, x). put_value k x) (zip (h_details h) (snd x)) (row_time (h_rownum h) (fst x) (h_report h))"
  have "sfold sax_event (row_tokens row) h
      = Inr (g\<lparr>h_report := ?r, h_col := length (snd row), h_text := u, h_row := False, h_rownum := Suc (h_rownum g)\<rparr>)"
    using t v unfolding row_tokens_def by (simp add: sfold_append endElement_def startElement_def Let_def g)
  also have "g\<lparr>h_report := ?r, h_col := length (snd row), h_text := u, h_row := False, h_rownum := Suc (h_rownum g)\<rparr>
      = h\<lparr>h_report := ?r, h_rownum := h_rownum h + 1, h_col := length (snd row), h_text := u\<rparr>"
    by (rule handler.equality) (simp_all add: g)
  finally show ?thesis by blast
qed

primrec rows_report :: "nat \<Rightarrow> (string \<times> string) list \<Rightarrow> (int \<times> f64 list) list \<Rightarrow> rrd_report \<Rightarrow> rrd_report" where
  "rows_report num ks [] r = r"
| "rows_report num ks (x # xs) r = rows_report (Suc num) ks xs (fold (\<lambda>(k, x). put_value k x) (zip ks (snd x)) (row_time num (fst x) r))"

lemma rows_run:
  assumes "idle h" "\<not> h_row h" "list_all2 (row_ok (length (h_details h))) rows xs"
  shows "\<exists>g. sfold sax_event (concat (map row_tokens rows)) h = Inr g \<and> h_report g = rows_report (h_rownum h) (h_details h) xs (h_report h)"
  using assms
proof (induction rows arbitrary: h xs)
  case (Cons row rows)
  obtain x ys where xs: "xs = x # ys" "row_ok (length (h_details h)) row x" "list_all2 (row_ok (length (h_details h))) rows ys"
    using Cons.prems(3) by (cases xs) auto
  obtain t c where t: "sfold sax_event (row_tokens row) h
    = Inr (h\<lparr>h_report := fold (\<lambda>(k, x). put_value k x) (zip (h_details h) (snd x)) (row_time (h_rownum h) (fst x) (h_report h)),
             h_rownum := h_rownum h + 1, h_col := c, h_text := t\<rparr>)" (is "_ = Inr ?h")
    using row_run [OF Cons.prems(1,2) xs(2)] by blast
  have "idle ?h" "\<not> h_row ?h" using Cons.prems(1,2) by (auto simp: idle_def)
  then obtain g where "sfold sax_event (concat (map row_tokens rows)) ?h = Inr g" "h_report g = rows_report (h_rownum ?h) (h_details ?h) ys (h_report ?h)"
    using Cons.IH [of ?h ys] xs(3) by auto
  then show ?case by (simp add: sfold_append t xs(1))
qed simp

lemma puts_times:
  "rr_start (fold (\<lambda>(k, x). put_value k x) kxs r) = rr_start r \<and> rr_end (fold (\<lambda>(k, x). put_value k x) kxs r) = rr_end r
    \<and> rr_rows (fold (\<lambda>(k, x). put_value k x) kxs r) = rr_rows r"
  by (induction kxs arbitrary: r) (auto simp: put_value_def)

lemma rows_report_times:
  "rr_rows (rows_report num ks xs r) = rr_rows r
    \<and> rr_start (rows_report num ks xs r) = (if xs = [] then rr_start r else fst (last xs))
    \<and> rr_end (rows_report num ks xs r) = (if xs = [] \<or> num \<noteq> 0 then rr_end r else fst (hd xs))"
  by (induction xs arbitrary: num r) (auto simp: puts_times row_time_def)

lemma rows_report_values:
  assumes "distinct ks" "list_all (\<lambda>x. length (snd x) = length ks) xs" "i < length ks"
  shows "col_values (rows_report num ks xs r) (ks ! i) = map_option (\<lambda>ys. rev (map (\<lambda>x. snd x ! i) xs) @ ys) (col_values r (ks ! i))"
  using assms(2)
proof (induction xs arbitrary: num r)
  case Nil
  then show ?case by (simp add: option.map_ident)
next
  case (Cons x xs)
  have "col_values (row_time num t r) k = col_values r k" for t k by (simp add: row_time_def col_values_def)
  then show ?case using Cons assms(1,3) by (simp add: col_values_puts option.map_comp comp_def)
qed

section \<open>Reading a report\<close>

text \<open>
  C23: A report is read as it was written, however its texts are cut into events: the
  rows come newest first, and the value of a parameter of an object at an index is
  the one of the row that is that many before the last; the times are those of the
  first and the last row.
\<close>

theorem report_read:
  assumes "\<And>x. x \<in> {''start'', ''step'', ''end'', ''rows'', ''columns''} \<Longrightarrow> py_int 10 (concat (m x)) = Some (n x)"
    and "list_all (\<lambda>(ps, c). column_ok c \<and> concat ps = legend_text c) cols" and "distinct (map (column_key \<circ> snd) cols)"
    and "list_all2 (row_ok (length cols)) rows xs"
  shows "\<exists>h. sfold sax_event (report_tokens m cols rows) (new_handler empty_report) = Inr h \<and> rr_rows (h_report h) = n ''rows''
    \<and> (xs \<noteq> [] \<longrightarrow> rr_start (h_report h) = fst (last xs) \<and> rr_end (h_report h) = fst (hd xs))
    \<and> (\<forall>i < length cols. \<exists>r. map_of (rr_objs (h_report h)) (snd (column_key (snd (cols ! i)))) = Some r
         \<and> (\<forall>j < length xs. get_value r (fst (column_key (snd (cols ! i)))) j = snd (xs ! (length xs - 1 - j)) ! i))"
proof -
  let ?ks = "map (column_key \<circ> snd) cols"
  let ?h1 = "(new_handler (meta_report n empty_report))\<lparr>h_text := []\<rparr>"
  have h0: "sfold sax_event [XStart ''xport'' [], XStart ''meta'' []] (new_handler empty_report) = Inr (new_handler empty_report)"
    by (simp add: startElement_def new_handler_def)
  have h1: "sfold sax_event [XStart ''legend'' []] ((new_handler (meta_report n empty_report))\<lparr>h_text := u\<rparr>) = Inr ?h1" for u
    by (simp add: startElement_def new_handler_def)
  obtain t where legend: "sfold sax_event (concat (map (\<lambda>(ps, c). el ''entry'' ps) cols)) ?h1
    = Inr (?h1\<lparr>h_report := fold (add_obj \<circ> snd) cols (h_report ?h1), h_details := h_details ?h1 @ ?ks, h_text := t\<rparr>)" (is "_ = Inr ?h2")
    using legend_run [OF _ _ assms(2), of ?h1] by (auto simp: idle_def new_handler_def)
  let ?h3 = "?h2\<lparr>h_text := []\<rparr>"
  have "idle ?h3" "\<not> h_row ?h3" "h_details ?h3 = ?ks" "h_rownum ?h3 = 0" by (simp_all add: idle_def new_handler_def)
  then obtain g where rows: "sfold sax_event (concat (map row_tokens rows)) ?h3 = Inr g" "h_report g = rows_report 0 ?ks xs (h_report ?h3)"
    using rows_run [of ?h3 rows xs] assms(4) by auto
  have meta: "sfold sax_event (meta_tokens m) (new_handler empty_report) = Inr ((new_handler (meta_report n empty_report))\<lparr>h_text := concat (m ''columns'')\<rparr>)"
    by (rule meta_run) (rule assms(1))
  have h3: "sfold sax_event [XEnd ''legend'', XEnd ''meta'', XStart ''data'' []] ?h2 = Inr ?h3"
    by (simp add: startElement_def endElement_def new_handler_def)
  have h4: "sfold sax_event [XEnd ''data'', XEnd ''xport''] g = Inr g"
    by (simp add: endElement_def)
  have run: "sfold sax_event (report_tokens m cols rows) (new_handler empty_report) = Inr g"
    by (simp only: report_tokens_def sfold_append h0 meta h1 legend h3 rows(1) h4 sbind_simps)
  have objs: "map_of (rr_objs (h_report ?h3)) u = map_option (\<lambda>c. \<lparr>or_type = fst (snd c), or_uuid = u, or_vars = []\<rparr>) (find (\<lambda>c. snd (column_key c) = u) (map snd cols))" for u
    using legend_objs [of "map snd cols" "meta_report n empty_report" u] by (simp add: new_handler_def meta_report_def empty_report_def fold_map)
  have lens: "list_all (\<lambda>x. length (snd x) = length ?ks) xs"
    using assms(4) by (induction rule: list_all2_induct) (simp_all add: row_ok_def)
  have vals: "\<exists>r. map_of (rr_objs (h_report g)) (snd (column_key (snd (cols ! i)))) = Some r
      \<and> (\<forall>j < length xs. get_value r (fst (column_key (snd (cols ! i)))) j = snd (xs ! (length xs - 1 - j)) ! i)" if i: "i < length cols" for i
  proof -
    have "find (\<lambda>c. snd (column_key c) = snd (column_key (snd (cols ! i)))) (map snd cols) \<noteq> None"
      using i by (auto simp: find_None_iff)
    then have "col_values (h_report ?h3) (?ks ! i) = Some []" unfolding col_values_def objs using i by auto
    then have "col_values (h_report g) (?ks ! i) = Some (rev (map (\<lambda>x. snd x ! i) xs))"
      using rows_report_values [OF assms(3) lens, of i 0 "h_report ?h3"] i rows(2) by simp
    then obtain r where r: "map_of (rr_objs (h_report g)) (snd (?ks ! i)) = Some r"
        "(case map_of (or_vars r) (fst (?ks ! i)) of None \<Rightarrow> [] | Some ys \<Rightarrow> ys) = rev (map (\<lambda>x. snd x ! i) xs)"
      by (auto simp: col_values_def)
    have "get_value r (fst (?ks ! i)) j = snd (xs ! (length xs - 1 - j)) ! i" if "j < length xs" for j
      using r(2) that by (cases "map_of (or_vars r) (fst (?ks ! i))") (auto simp: get_value_def rev_nth)
    with r(1) i show ?thesis by auto
  qed
  have "rr_rows (h_report ?h3) = n ''rows''" by (simp add: legend_rows new_handler_def meta_report_def)
  then have "rr_rows (h_report g) = n ''rows'' \<and> (xs \<noteq> [] \<longrightarrow> rr_start (h_report g) = fst (last xs) \<and> rr_end (h_report g) = fst (hd xs))"
    unfolding rows(2) using rows_report_times [of 0 ?ks xs "h_report ?h3"] by simp
  with run vals show ?thesis by blast
qed

text \<open>The witness: one column, two rows, a number that is cut in two.\<close>

definition demo_meta :: "string \<Rightarrow> string list" where
  "demo_meta n = (if n = ''start'' then [''6'', ''0''] else if n = ''end'' then [''120''] else if n = ''step'' then [''60''] else if n = ''rows'' then [''2''] else [''1''])"

lemma report_read_witness:
  "\<exists>h r. sfold sax_event (report_tokens demo_meta [([''AVERAGE:vm:'', ''u:cpu0''], (''AVERAGE'', ''vm'', ''u'', ''cpu0''))]
        [([''120''], [[''1'']]), ([''60''], [[''0'', ''.5'']])]) (new_handler empty_report) = Inr h
    \<and> rr_end (h_report h) = 120 \<and> rr_start (h_report h) = 60 \<and> map_of (rr_objs (h_report h)) ''u'' = Some r
    \<and> get_value r ''cpu0'' 0 = 0x3FE0000000000000"
proof -
  let ?cols = "[([''AVERAGE:vm:'', ''u:cpu0''], (''AVERAGE'', ''vm'', ''u'', ''cpu0''))]"
  let ?rows = "[([''120''], [[''1'']]), ([''60''], [[''0'', ''.5'']])]"
  let ?xs = "[(120, [0x3FF0000000000000]), (60, [0x3FE0000000000000])] :: (int \<times> f64 list) list"
  let ?n = "\<lambda>n. if n = ''start'' then 60 else if n = ''end'' then 120 else if n = ''step'' then 60 else if n = ''rows'' then 2 else (1 :: int)"
  have ints: "py_int 10 ''60'' = Some 60" "py_int 10 ''120'' = Some 120" "py_int 10 ''2'' = Some 2" "py_int 10 ''1'' = Some 1" by code_simp+
  have floats: "float_of_str ''1'' = Inr 0x3FF0000000000000" "float_of_str ''0.5'' = Inr 0x3FE0000000000000" by code_simp+
  have "\<exists>h. sfold sax_event (report_tokens demo_meta ?cols ?rows) (new_handler empty_report) = Inr h \<and> rr_rows (h_report h) = ?n ''rows''
    \<and> (?xs \<noteq> [] \<longrightarrow> rr_start (h_report h) = fst (last ?xs) \<and> rr_end (h_report h) = fst (hd ?xs))
    \<and> (\<forall>i < length ?cols. \<exists>r. map_of (rr_objs (h_report h)) (snd (column_key (snd (?cols ! i)))) = Some r
         \<and> (\<forall>j < length ?xs. get_value r (fst (column_key (snd (?cols ! i)))) j = snd (?xs ! (length ?xs - 1 - j)) ! i))"
  proof (rule report_read [where n = ?n and xs = ?xs])
    show "py_int 10 (concat (demo_meta x)) = Some (?n x)" if "x \<in> {''start'', ''step'', ''end'', ''rows'', ''columns''}" for x
      using that by (elim insertE emptyE) (simp_all add: demo_meta_def ints)
    show "list_all (\<lambda>(ps, c). column_ok c \<and> concat ps = legend_text c) ?cols" by (simp add: column_ok_def legend_text_def)
    show "distinct (map (column_key \<circ> snd) ?cols)" by simp
    show "list_all2 (row_ok (length ?cols)) ?rows ?xs" by (simp add: row_ok_def ints floats)
  qed
  then show ?thesis by (auto simp: column_key_def)
qed

text \<open>A parameter whose name has a colon cannot be read.\<close>

lemma colon_in_name:
  assumes "idle h" "\<not> h_row h" "concat ps = cf @ '':'' @ kind @ '':'' @ uuid @ '':'' @ a @ '':'' @ b" "CHR '':'' \<notin> set (cf @ kind @ uuid @ a)"
  shows "sfold sax_event (el ''entry'' ps) h = Inl Perf_ValueError"
  using assms
  by (cases "py_split CHR '':'' b") (auto simp: el_run listening_def idle_def startElement_def endElement_def end_entry_def py_split_append Let_def)

end
