(* ===== verification/Inventory.thy ===== *)
theory Inventory
  imports Py_Text
begin

text \<open>
  The module \<^verbatim>\<open>python3/packages/inventory.py\<close>, which reads the assignments of the
  inventory of a host. The file is an argument; its name is put into the module
  when it is built.
\<close>

datatype inventory_error = Inv_ValueError | Inv_FileNotFound | Inv_OSError | Inv_KeyError

definition INSTALLATION_UUID :: string where
  "INSTALLATION_UUID = ''INSTALLATION_UUID''"

text \<open>One line: its end of line is stripped off the value.\<close>

definition read_kvpair :: "string \<Rightarrow> (string \<times> string) list \<Rightarrow> inventory_error + (string \<times> string) list" where
  "read_kvpair line all_entries =
     (case py_find CHR ''='' line of
        None \<Rightarrow> Inl Inv_ValueError
      | Some equals \<Rightarrow>
          Inr (AList.update (take equals line) (py_strip_chars {CHR 0x27} (py_strip (drop (equals + 1) line))) all_entries))"

definition read_kvpairs :: "inventory_error + string \<Rightarrow> inventory_error + (string \<times> string) list" where
  "read_kvpairs f = sbind f (\<lambda>t. sfold read_kvpair (splitlines t) [])"

text \<open>What is printed about a missing file is left out.\<close>

definition parse_inventory :: "inventory_error + string \<Rightarrow> inventory_error + (string \<times> string) list" where
  "parse_inventory f = (if read_kvpairs f = Inl Inv_FileNotFound then Inr [] else read_kvpairs f)"

definition get_localhost_uuid :: "inventory_error + string \<Rightarrow> inventory_error + string" where
  "get_localhost_uuid f =
     sbind (parse_inventory f) (\<lambda>d. case map_of d INSTALLATION_UUID of None \<Rightarrow> Inl Inv_KeyError | Some v \<Rightarrow> Inr v)"

section \<open>Reading what was written\<close>

definition assignment :: "string \<times> string \<Rightarrow> string" where
  "assignment kv = fst kv @ ''='' @ [CHR 0x27] @ snd kv @ [CHR 0x27]"

definition inventory_text :: "(string \<times> string) list \<Rightarrow> string" where
  "inventory_text es = concat (map (\<lambda>kv. assignment kv @ [CHR 0x0A]) es)"

text \<open>
  Keys without the equality sign; values without a quote at their ends; neither
  with an end of line.
\<close>

definition inventory_entry :: "string \<times> string \<Rightarrow> bool" where
  "inventory_entry kv \<longleftrightarrow> CHR ''='' \<notin> set (fst kv) \<and> list_all (\<lambda>c. c \<noteq> CHR 0x0A \<and> c \<noteq> CHR 0x0D) (fst kv @ snd kv)
     \<and> (snd kv = [] \<or> hd (snd kv) \<noteq> CHR 0x27 \<and> last (snd kv) \<noteq> CHR 0x27)"

lemma strip_quotes:
  assumes "v = [] \<or> hd v \<noteq> q \<and> last v \<noteq> q"
  shows "py_strip_chars {q} ([q] @ v @ [q]) = v"
proof (cases "v = []")
  case False
  with assms have "dropWhile (\<lambda>c. c \<in> {q}) (v @ [q]) = v @ [q]" by (cases v) auto
  moreover have "dropWhile (\<lambda>c. c \<in> {q}) (rev v) = rev v" using assms False by (cases v rule: rev_cases) auto
  ultimately show ?thesis by (simp add: py_strip_chars_def)
qed (simp add: py_strip_chars_def)

lemma read_assignment:
  assumes "inventory_entry kv"
  shows "read_kvpair (assignment kv) d = Inr (AList.update (fst kv) (snd kv) d)"
proof -
  have "py_find CHR ''='' (assignment kv) = Some (length (fst kv))"
    using assms by (simp add: py_find_Some assignment_def inventory_entry_def nth_append)
  moreover have "py_strip ([CHR 0x27] @ snd kv @ [CHR 0x27]) = [CHR 0x27] @ snd kv @ [CHR 0x27]"
    by (rule py_strip_inner) (simp_all add: str_space_def)
  moreover have "py_strip_chars {CHR 0x27} ([CHR 0x27] @ snd kv @ [CHR 0x27]) = snd kv"
    using assms by (intro strip_quotes) (auto simp: inventory_entry_def)
  ultimately show ?thesis by (simp add: read_kvpair_def assignment_def)
qed

lemma read_entries:
  assumes "list_all inventory_entry es"
  shows "sfold read_kvpair (splitlines (inventory_text es)) d = Inr (fold (\<lambda>(k, v). AList.update k v) es d)"
  using assms
proof (induction es arbitrary: d)
  case (Cons kv es)
  have "list_all (\<lambda>c. c \<noteq> CHR 0x0A \<and> c \<noteq> CHR 0x0D) (assignment kv)"
    using Cons.prems by (simp add: assignment_def inventory_entry_def)
  then have "splitlines (inventory_text (kv # es)) = assignment kv # splitlines (inventory_text es)"
    using splitlines_line [of "assignment kv" "inventory_text es"] by (simp add: inventory_text_def)
  with Cons show ?case by (cases kv) (simp add: read_assignment)
qed (simp add: inventory_text_def)

text \<open>
  An inventory of well-formed assignments reads back as its entries, the last one
  of a key counting, and the identifier of the host is the value of its key.
\<close>

theorem inventory_reads_back:
  assumes "list_all inventory_entry es"
  shows "\<exists>d. parse_inventory (Inr (inventory_text es)) = Inr d \<and> map_of d = map_of (rev es)
    \<and> get_localhost_uuid (Inr (inventory_text es)) = (case map_of (rev es) INSTALLATION_UUID of None \<Rightarrow> Inl Inv_KeyError | Some v \<Rightarrow> Inr v)"
proof -
  have "map_of (fold (\<lambda>(k, v). AList.update k v) es d) = map_of d ++ map_of (rev es)" for d
    by (induction es arbitrary: d) (auto simp: update_conv' fun_eq_iff map_add_def split: option.split)
  from this [of "[]"] show ?thesis
    by (simp add: parse_inventory_def get_localhost_uuid_def read_kvpairs_def read_entries [OF assms])
qed

lemma inventory_reads_back_witness:
  "get_localhost_uuid (Inr (inventory_text [(''INSTALLATION_UUID'', ''old''), (''A'', []), (''INSTALLATION_UUID'', ''u=1'')])) = Inr ''u=1''"
  using inventory_reads_back [of "[(''INSTALLATION_UUID'', ''old''), (''A'', []), (''INSTALLATION_UUID'', ''u=1'')]"]
  by (auto simp: inventory_entry_def INSTALLATION_UUID_def)

end
