(* ===== verification/Power_On.thy ===== *)
theory Power_On
  imports Api_Script Inventory
begin

text \<open>
  The plugin that powers a host on, \<^verbatim>\<open>python3/poweron\<close>: \<^verbatim>\<open>power-on.py\<close> looks up how, \<^verbatim>\<open>IPMI.py\<close>
  runs a program, \<^verbatim>\<open>wlan.py\<close> finds the interface of the host and sends
  wake-on-LAN packets until the host answers. The API, programs, sockets, the
  passing of time and the modules of users are arguments.
\<close>

section \<open>State and environment\<close>

datatype power_error =
    Pow_Failure string
  | Pow_KeyError
  | Pow_TypeError
  | Pow_ValueError
  | Pow_OSError
  | Pow_NotConfigured
  | Pow_Ipmi string
  | Pow_NoAddress string
  | Pow_NoManagement string
  | Pow_Inventory inventory_error
  | Pow_ModuleNotFound
  | Pow_Custom string

text \<open>
  \<open>pw_run\<close> is \<^verbatim>\<open>xcp.cmd.runCmd\<close>: exit code, output and errors. \<open>pw_connect\<close> tells whether a
  socket can be connected to an address, \<open>pw_send\<close> whether sending succeeds. A module
  that can be imported is its function \<^verbatim>\<open>custom\<close>.
\<close>

record 'k power_env =
  pw_api :: "string \<Rightarrow> string list \<Rightarrow> 'k \<Rightarrow> (power_error + mval) \<times> 'k"
  pw_run :: "string list \<Rightarrow> 'k \<Rightarrow> (int \<times> string \<times> string) \<times> 'k"
  pw_sleep :: "nat \<Rightarrow> 'k \<Rightarrow> 'k"
  pw_inventory :: "inventory_error + string"
  pw_connect :: "string \<Rightarrow> bool"
  pw_send :: "'k \<Rightarrow> bool \<times> 'k"
  pw_module :: "string \<Rightarrow> (string \<Rightarrow> mval \<Rightarrow> 'k \<Rightarrow> (power_error + unit) \<times> 'k) option"

text \<open>The packets that were sent, with the address and the port, and the number of lines on \<^verbatim>\<open>stderr\<close>.\<close>

record 'k power_state =
  pw_machine :: 'k
  pw_packets :: "((string \<times> nat) \<times> bytes) list"
  pw_stderr :: nat

type_synonym ('k, 'a) pw_op = "('k power_state, power_error, 'a) st"

definition pw_with :: "('k \<Rightarrow> 'r \<times> 'k) \<Rightarrow> ('k, 'r) pw_op" where
  "pw_with f s = (case f (pw_machine s) of (r, k) \<Rightarrow> (Inr r, s\<lparr>pw_machine := k\<rparr>))"

definition pw_call :: "'k power_env \<Rightarrow> string \<Rightarrow> string list \<Rightarrow> ('k, mval) pw_op" where
  "pw_call ev meth args = bnd (pw_with (pw_api ev meth args)) lift_sum"

fun pw_text :: "mval \<Rightarrow> power_error + string" where
  "pw_text (MStr t) = Inr t"
| "pw_text _ = Inl Pow_TypeError"

fun pw_bool :: "mval \<Rightarrow> power_error + bool" where
  "pw_bool (MBool b) = Inr b"
| "pw_bool _ = Inl Pow_TypeError"

fun pw_texts :: "mval \<Rightarrow> power_error + string list" where
  "pw_texts (MList xs) = smap pw_text xs"
| "pw_texts _ = Inl Pow_TypeError"

definition call_text :: "'k power_env \<Rightarrow> string \<Rightarrow> string list \<Rightarrow> ('k, string) pw_op" where
  "call_text ev meth args = bnd (pw_call ev meth args) (\<lambda>v. lift_sum (pw_text v))"

definition call_bool :: "'k power_env \<Rightarrow> string \<Rightarrow> string list \<Rightarrow> ('k, bool) pw_op" where
  "call_bool ev meth args = bnd (pw_call ev meth args) (\<lambda>v. lift_sum (pw_bool v))"

text \<open>\<^verbatim>\<open>d[k]\<close> for a text\<close>

definition pw_item :: "string \<Rightarrow> mval \<Rightarrow> power_error + string" where
  "pw_item k v =
     (case v of
        MRec d \<Rightarrow> (case map_of d k of None \<Rightarrow> Inl Pow_KeyError | Some x \<Rightarrow> pw_text x)
      | _ \<Rightarrow> Inl Pow_TypeError)"

text \<open>\<^verbatim>\<open>str(b)\<close>\<close>

definition bool_text :: "bool \<Rightarrow> string" where
  "bool_text b = (if b then ''True'' else ''False'')"

section \<open>Wake on LAN\<close>

text \<open>The word after the first \<^verbatim>\<open>brd\<close> that follows the first \<^verbatim>\<open>inet\<close>.\<close>

definition broadcast_word :: "string list \<Rightarrow> string option" where
  "broadcast_word ws =
     (case dropWhile (\<lambda>w. w \<noteq> ''brd'') (dropWhile (\<lambda>w. w \<noteq> ''inet'') ws) of
        b # a # rest \<Rightarrow> Some a
      | _ \<Rightarrow> None)"

definition find_interface_broadcast_ip :: "'k power_env \<Rightarrow> string \<Rightarrow> ('k, string) pw_op" where
  "find_interface_broadcast_ip ev interface =
     bnd (pw_with (pw_run ev [''ip'', ''address'', ''show'', ''dev'', interface])) (\<lambda>(rc, stdout, stderr).
     if rc \<noteq> 0 then throw (Pow_NoAddress interface)
     else case broadcast_word (words stdout) of None \<Rightarrow> throw (Pow_NoAddress interface) | Some a \<Rightarrow> ret a)"

primrec first_management :: "'k power_env \<Rightarrow> string list \<Rightarrow> ('k, string option) pw_op" where
  "first_management ev [] = ret None"
| "first_management ev (pif # pifs) =
     bnd (call_bool ev ''PIF.get_management'' [pif]) (\<lambda>m. if m then ret (Some pif) else first_management ev pifs)"

definition find_host_mgmt_pif :: "'k power_env \<Rightarrow> string \<Rightarrow> ('k, string) pw_op" where
  "find_host_mgmt_pif ev host_uuid =
     bnd (call_text ev ''host.get_by_uuid'' [host_uuid]) (\<lambda>host.
     bnd (pw_call ev ''host.get_PIFs'' [host]) (\<lambda>v.
     bnd (lift_sum (pw_texts v)) (\<lambda>pifs.
     bnd (first_management ev pifs) (\<lambda>mgmt.
     case mgmt of None \<Rightarrow> throw (Pow_NoManagement host_uuid) | Some pif \<Rightarrow> ret pif))))"

definition get_physical_pif :: "'k power_env \<Rightarrow> string \<Rightarrow> ('k, string) pw_op" where
  "get_physical_pif ev pif_ref =
     bnd (call_text ev ''PIF.get_VLAN_master_of'' [pif_ref]) (\<lambda>vlan.
     if vlan \<noteq> ''OpaqueRef:NULL'' then call_text ev ''VLAN.get_tagged_PIF'' [vlan] else ret pif_ref)"

text \<open>\<^verbatim>\<open>bytes.fromhex\<close>, with \<open>None\<close> for \<^verbatim>\<open>ValueError\<close>: white space between bytes is skipped.\<close>

fun from_hex :: "string \<Rightarrow> bytes option" where
  "from_hex [] = Some []"
| "from_hex (c # s) =
     (if int_space c then from_hex s
      else case s of
        [] \<Rightarrow> None
      | d # t \<Rightarrow>
          (case (py_digit 16 c, py_digit 16 d) of
             (Some a, Some b) \<Rightarrow> map_option ((#) (word_of_nat (16 * a + b))) (from_hex t)
           | _ \<Rightarrow> None))"

definition wol_payload :: "string \<Rightarrow> bytes option" where
  "wol_payload mac = from_hex (replicate 12 CHR ''F'' @ concat (replicate 16 (py_replace '':'' [] mac)))"

definition wol_send :: "'k power_env \<Rightarrow> string \<times> nat \<Rightarrow> bytes \<Rightarrow> ('k, unit) pw_op" where
  "wol_send ev addr payload =
     bnd (pw_with (pw_send ev)) (\<lambda>ok.
     if ok then modify (\<lambda>s. s\<lparr>pw_packets := pw_packets s @ [(addr, payload)]\<rparr>) else throw Pow_OSError)"

definition pw_pause :: "'k power_env \<Rightarrow> nat \<Rightarrow> ('k, unit) pw_op" where
  "pw_pause ev n = pw_with (\<lambda>k. ((), pw_sleep ev n k))"

text \<open>The loop, with the number of attempts that are left.\<close>

primrec wol_loop :: "'k power_env \<Rightarrow> string \<Rightarrow> string \<times> nat \<Rightarrow> bytes \<Rightarrow> nat \<Rightarrow> ('k, bool) pw_op" where
  "wol_loop ev host addr payload 0 = ret False"
| "wol_loop ev host addr payload (Suc left) =
     seq (wol_send ev addr payload)
     (seq (pw_pause ev 5)
     (bnd (call_text ev ''host.get_metrics'' [host]) (\<lambda>metrics.
      bnd (catch (call_bool ev ''host_metrics.get_live'' [metrics]) (\<lambda>e. ret False)) (\<lambda>finished.
      if finished then ret True else wol_loop ev host addr payload left))))"

definition wake_on_lan :: "'k power_env \<Rightarrow> string \<Rightarrow> string \<Rightarrow> ('k, string) pw_op" where
  "wake_on_lan ev host remote_host_uuid =
     bnd (lift_sum (case get_localhost_uuid (pw_inventory ev) of Inl e \<Rightarrow> Inl (Pow_Inventory e) | Inr u \<Rightarrow> Inr u)) (\<lambda>localhost.
     bnd (find_host_mgmt_pif ev localhost) (\<lambda>this_pif.
     bnd (call_text ev ''PIF.get_network'' [this_pif]) (\<lambda>this_network.
     bnd (call_text ev ''network.get_bridge'' [this_network]) (\<lambda>this_bridge.
     bnd (find_interface_broadcast_ip ev this_bridge) (\<lambda>broadcast_addr.
     bnd (find_host_mgmt_pif ev remote_host_uuid) (\<lambda>mgmt_pif.
     bnd (get_physical_pif ev mgmt_pif) (\<lambda>remote_pif.
     bnd (call_text ev ''PIF.get_MAC'' [remote_pif]) (\<lambda>mac.
     bnd (lift_sum (case wol_payload mac of None \<Rightarrow> Inl Pow_ValueError | Some b \<Rightarrow> Inr b)) (\<lambda>bin_payload.
     seq (require (pw_connect ev broadcast_addr) Pow_OSError)
     (bnd (wol_loop ev host (broadcast_addr, 9) bin_payload 60) (\<lambda>finished. ret (bool_text finished))))))))))))"

definition wlan_main :: "'k power_env \<Rightarrow> (string \<times> string) list \<Rightarrow> ('k, string) pw_op" where
  "wlan_main ev args =
     bnd (lift_sum (case map_of args ''remote_host_uuid'' of None \<Rightarrow> Inl Pow_KeyError | Some u \<Rightarrow> Inr u)) (\<lambda>remote_host_uuid.
     bnd (call_text ev ''host.get_by_uuid'' [remote_host_uuid]) (\<lambda>remote_host.
     wake_on_lan ev remote_host remote_host_uuid))"

section \<open>IPMI\<close>

definition ipmi_path :: string where
  "ipmi_path = ''/usr/bin/ipmitool''"

definition IPMI :: "'k power_env \<Rightarrow> string \<Rightarrow> string \<Rightarrow> string \<Rightarrow> ('k, string) pw_op" where
  "IPMI ev power_on_ip user password =
     bnd (pw_with (pw_run ev [ipmi_path, ''-H'', power_on_ip, ''-I'', ''lanplus'', ''-U'', user, ''-P'', password,
                             ''chassis'', ''power'', ''on''])) (\<lambda>(rc, stdout, stderr).
     if rc \<noteq> 0 then throw (Pow_Ipmi stderr) else ret stdout)"

text \<open>The script: its exit status without running anything, an exception, or what is printed.\<close>

datatype ipmi_outcome = Ipmi_Exit nat | Ipmi_IndexError | Ipmi_Raises power_error | Ipmi_Prints string

definition ipmi_main :: "'k power_env \<Rightarrow> string list \<Rightarrow> 'k power_state \<Rightarrow> ipmi_outcome \<times> 'k power_state" where
  "ipmi_main ev argv s =
     (if length argv < 3 then (Ipmi_Exit 1, s)
      else if length argv \<le> 3 then (Ipmi_IndexError, s)
      else case IPMI ev (argv ! 1) (argv ! 2) (argv ! 3) s of
        (Inl e, t) \<Rightarrow> (Ipmi_Raises e, t)
      | (Inr stdout, t) \<Rightarrow> (Ipmi_Prints stdout, t))"

section \<open>The plugin\<close>

primrec xapi_wait_loop :: "'k power_env \<Rightarrow> string \<Rightarrow> nat \<Rightarrow> ('k, bool) pw_op" where
  "xapi_wait_loop ev host 0 = ret False"
| "xapi_wait_loop ev host (Suc left) =
     seq (pw_pause ev 5)
     (bnd (call_text ev ''host.get_metrics'' [host]) (\<lambda>metrics.
      bnd (catch (call_bool ev ''host_metrics.get_live'' [metrics])
             (\<lambda>e. seq (modify (\<lambda>s. s\<lparr>pw_stderr := pw_stderr s + 1\<rparr>)) (ret False))) (\<lambda>finished.
      if finished then ret True else xapi_wait_loop ev host left)))"

definition waitForXapi :: "'k power_env \<Rightarrow> string \<Rightarrow> ('k, string) pw_op" where
  "waitForXapi ev host = bnd (xapi_wait_loop ev host 120) (\<lambda>finished. ret (bool_text finished))"

definition power_ipmi :: "'k power_env \<Rightarrow> string \<Rightarrow> mval \<Rightarrow> ('k, string) pw_op" where
  "power_ipmi ev remote_host power_on_config =
     bnd (lift_sum (pw_item ''power_on_ip'' power_on_config)) (\<lambda>ip.
     bnd (lift_sum (pw_item ''power_on_user'' power_on_config)) (\<lambda>user.
     bnd (lift_sum (pw_item ''power_on_password_secret'' power_on_config)) (\<lambda>secret.
     bnd (call_text ev ''secret.get_by_uuid'' [secret]) (\<lambda>secretref.
     bnd (call_text ev ''secret.get_value'' [secretref]) (\<lambda>password.
     seq (IPMI ev ip user password) (waitForXapi ev remote_host))))))"

definition power_custom :: "'k power_env \<Rightarrow> string \<Rightarrow> string \<Rightarrow> mval \<Rightarrow> ('k, string) pw_op" where
  "power_custom ev mode remote_host power_on_config =
     (case pw_module ev mode of
        None \<Rightarrow> throw Pow_ModuleNotFound
      | Some custom \<Rightarrow>
          bnd (pw_with (custom remote_host power_on_config)) (\<lambda>r. seq (lift_sum r) (waitForXapi ev remote_host)))"

definition power_on_main :: "'k power_env \<Rightarrow> (string \<times> string) list \<Rightarrow> ('k, string) pw_op" where
  "power_on_main ev args =
     bnd (lift_sum (case map_of args ''remote_host_uuid'' of None \<Rightarrow> Inl Pow_KeyError | Some u \<Rightarrow> Inr u)) (\<lambda>remote_host_uuid.
     bnd (call_text ev ''host.get_by_uuid'' [remote_host_uuid]) (\<lambda>remote_host.
     bnd (call_text ev ''host.get_power_on_mode'' [remote_host]) (\<lambda>mode.
     bnd (pw_call ev ''host.get_power_on_config'' [remote_host]) (\<lambda>power_on_config.
     if mode = ''IPMI'' then power_ipmi ev remote_host power_on_config
     else if mode = ''wake-on-lan'' then wake_on_lan ev remote_host remote_host_uuid
     else if mode \<noteq> [] then power_custom ev mode remote_host power_on_config
     else throw Pow_NotConfigured))))"

end
