(* ===== verification/Power_On_Proofs.thy ===== *)
theory Power_On_Proofs
  imports Power_On
begin

text \<open>
  Proofs about the power-on plugin: the packet, the interface it is meant for, and
  how long the loops run.
\<close>

section \<open>The packet\<close>

definition hex_char :: "nat \<Rightarrow> char" where
  "hex_char n = ''0123456789abcdef'' ! n"

definition hex2 :: "byte \<Rightarrow> string" where
  "hex2 b = [hex_char (unat b div 16), hex_char (unat b mod 16)]"

definition mac_text :: "bytes \<Rightarrow> string" where
  "mac_text bs = py_join '':'' (map hex2 bs)"

lemma less_16: "n < 16 \<longleftrightarrow> n \<in> {0, 1, 2, 3, 4, 5, 6, 7, 8, 9, 10, 11, 12, 13, 14, 15 :: nat}"
  by (simp only: insert_iff empty_iff) arith

lemma hex_char_digit:
  assumes "n < 16"
  shows "py_digit 16 (hex_char n) = Some n \<and> \<not> int_space (hex_char n) \<and> hex_char n \<noteq> CHR '':''"
  using assms unfolding less_16 by (elim insertE emptyE) (simp_all add: hex_char_def py_digit_def int_space_def)

lemma from_hex_hex2: "from_hex (hex2 b @ s) = map_option ((#) b) (from_hex s)"
proof -
  have "unat b < 256" using unsigned_less [where w = b and 'a = nat] by simp
  then have "unat b div 16 < 16" "unat b mod 16 < 16" by auto
  then show ?thesis by (simp add: hex2_def hex_char_digit)
qed

lemma from_hex_bytes: "from_hex (concat (map hex2 bs)) = Some bs"
  by (induction bs) (simp_all add: from_hex_hex2)

lemma py_replace_char: "py_replace [c] [] s = filter (\<lambda>x. x \<noteq> c) s"
proof -
  have join: "py_join [] ls = concat ls" for ls
  proof (induction ls)
    case (Cons l ls)
    then show ?case by (cases ls) simp_all
  qed simp
  have "py_split_str [c] s \<noteq> [] \<and> concat (py_split_str [c] s) = filter (\<lambda>x. x \<noteq> c) s"
  proof (induction s)
    case (Cons d s)
    then show ?case by (cases "py_split_str [c] s") (auto simp: py_split_str.simps [of "[c]" "d # s"])
  qed (simp add: py_split_str.simps)
  then show ?thesis by (simp add: py_replace_def join)
qed

lemma mac_digits: "py_replace '':'' [] (mac_text bs) = concat (map hex2 bs)"
proof -
  have hex: "filter (\<lambda>x. x \<noteq> CHR '':'') (hex2 b) = hex2 b" for b
  proof -
    have "unat b < 256" using unsigned_less [where w = b and 'a = nat] by simp
    then have "unat b div 16 < 16" "unat b mod 16 < 16" by auto
    then show ?thesis by (simp add: hex2_def hex_char_digit)
  qed
  have "filter (\<lambda>x. x \<noteq> CHR '':'') (py_join '':'' (map hex2 bs)) = concat (map hex2 bs)"
  proof (induction bs)
    case (Cons b bs)
    then show ?case by (cases bs) (simp_all add: hex)
  qed simp
  then show ?thesis by (simp add: py_replace_char mac_text_def)
qed

lemma wol_payload_mac: "wol_payload (mac_text bs) = Some (replicate 6 255 @ concat (replicate 16 bs))"
proof -
  have f: "from_hex (CHR ''F'' # CHR ''F'' # s) = map_option ((#) 255) (from_hex s)" for s
    by (simp add: int_space_def py_digit_def)
  have c: "concat (replicate n (concat (map hex2 bs))) = concat (map hex2 (concat (replicate n bs)))" for n
    by (induction n) simp_all
  have r: "replicate 12 CHR ''F'' = ''FFFFFFFFFFFF''" "replicate 6 255 = [255, 255, 255, 255, 255, 255 :: byte]"
    by (simp_all add: numeral_eq_Suc)
  show ?thesis
    unfolding wol_payload_def mac_digits c r append_Cons append_Nil f from_hex_bytes option.map ..
qed

section \<open>The loops\<close>

text \<open>
  A pool that answers from its records and is not changed by being asked; only
  the time that passes changes whether a host is live.
\<close>

record 'k power_pool =
  pp_host :: "string \<Rightarrow> string"
  pp_pifs :: "string \<Rightarrow> string list"
  pp_management :: "string \<Rightarrow> bool"
  pp_vlan :: "string \<Rightarrow> string"
  pp_tagged :: "string \<Rightarrow> string"
  pp_mac :: "string \<Rightarrow> string"
  pp_network :: "string \<Rightarrow> string"
  pp_bridge :: "string \<Rightarrow> string"
  pp_metrics :: "string \<Rightarrow> string"
  pp_live :: "string \<Rightarrow> 'k \<Rightarrow> power_error + bool"

definition api_answers :: "'k power_env \<Rightarrow> string \<Rightarrow> (string \<Rightarrow> 'k \<Rightarrow> power_error + mval) \<Rightarrow> bool" where
  "api_answers ev meth f \<longleftrightarrow> (\<forall>x k. pw_api ev meth [x] k = (f x k, k))"

definition serves :: "'k power_env \<Rightarrow> 'k power_pool \<Rightarrow> bool" where
  "serves ev pool \<longleftrightarrow>
     api_answers ev ''host.get_by_uuid'' (\<lambda>x k. Inr (MStr (pp_host pool x)))
     \<and> api_answers ev ''host.get_PIFs'' (\<lambda>x k. Inr (MList (map MStr (pp_pifs pool x))))
     \<and> api_answers ev ''PIF.get_management'' (\<lambda>x k. Inr (MBool (pp_management pool x)))
     \<and> api_answers ev ''PIF.get_VLAN_master_of'' (\<lambda>x k. Inr (MStr (pp_vlan pool x)))
     \<and> api_answers ev ''VLAN.get_tagged_PIF'' (\<lambda>x k. Inr (MStr (pp_tagged pool x)))
     \<and> api_answers ev ''PIF.get_MAC'' (\<lambda>x k. Inr (MStr (pp_mac pool x)))
     \<and> api_answers ev ''PIF.get_network'' (\<lambda>x k. Inr (MStr (pp_network pool x)))
     \<and> api_answers ev ''network.get_bridge'' (\<lambda>x k. Inr (MStr (pp_bridge pool x)))
     \<and> api_answers ev ''host.get_metrics'' (\<lambda>x k. Inr (MStr (pp_metrics pool x)))
     \<and> api_answers ev ''host_metrics.get_live'' (\<lambda>x k. map_sum id MBool (pp_live pool x k))"

lemma call_text_api: "api_answers ev meth (\<lambda>x k. Inr (MStr (f x))) \<Longrightarrow> call_text ev meth [x] s = (Inr (f x), s)"
  by (simp add: api_answers_def call_text_def pw_call_def bnd_def pw_with_def lift_sum_def)

lemma call_bool_answers: "api_answers ev meth (\<lambda>x k. map_sum id MBool (f x k)) \<Longrightarrow> call_bool ev meth [x] s = (f x (pw_machine s), s)"
  by (cases "f x (pw_machine s)") (simp_all add: api_answers_def call_bool_def pw_call_def bnd_def pw_with_def lift_sum_def)

lemma serves_calls:
  assumes "serves ev pool"
  shows "call_text ev ''host.get_by_uuid'' [x] s = (Inr (pp_host pool x), s)"
    and "call_text ev ''PIF.get_VLAN_master_of'' [x] s = (Inr (pp_vlan pool x), s)"
    and "call_text ev ''VLAN.get_tagged_PIF'' [x] s = (Inr (pp_tagged pool x), s)"
    and "call_text ev ''PIF.get_MAC'' [x] s = (Inr (pp_mac pool x), s)"
    and "call_text ev ''PIF.get_network'' [x] s = (Inr (pp_network pool x), s)"
    and "call_text ev ''network.get_bridge'' [x] s = (Inr (pp_bridge pool x), s)"
    and "call_text ev ''host.get_metrics'' [x] s = (Inr (pp_metrics pool x), s)"
    and "call_bool ev ''PIF.get_management'' [x] s = (Inr (pp_management pool x), s)"
    and "call_bool ev ''host_metrics.get_live'' [x] s = (pp_live pool x (pw_machine s), s)"
    and "pw_call ev ''host.get_PIFs'' [x] s = (Inr (MList (map MStr (pp_pifs pool x))), s)"
  using assms unfolding serves_def
  by (simp_all add: call_text_api call_bool_answers [where f = "\<lambda>x k. Inr (pp_management pool x)"] call_bool_answers)
    (simp add: api_answers_def pw_call_def bnd_def pw_with_def lift_sum_def)

text \<open>The state of the world after \<open>n\<close> rounds, and the round in which the host is live.\<close>

definition later :: "'k power_env \<Rightarrow> nat \<Rightarrow> 'k \<Rightarrow> 'k" where
  "later ev n k = (pw_sleep ev 5 ^^ n) k"

definition live_round :: "'k power_env \<Rightarrow> 'k power_pool \<Rightarrow> string \<Rightarrow> 'k \<Rightarrow> nat \<Rightarrow> nat option" where
  "live_round ev pool host k n = find (\<lambda>j. pp_live pool (pp_metrics pool host) (later ev j k) = Inr True) [1..<Suc n]"

definition rounds :: "nat option \<Rightarrow> nat \<Rightarrow> nat" where
  "rounds r n = (case r of None \<Rightarrow> n | Some j \<Rightarrow> j)"

lemma rounds_Suc: "rounds (map_option Suc x) (Suc n) = Suc (rounds x n)"
  by (simp add: rounds_def split: option.split)

lemma later_simps: "later ev 0 k = k" "later ev (Suc j) k = later ev j (pw_sleep ev 5 k)"
  by (simp_all add: later_def funpow_swap1)

lemma live_round_Suc:
  "live_round ev pool host k (Suc n)
    = (if pp_live pool (pp_metrics pool host) (pw_sleep ev 5 k) = Inr True then Some 1
       else map_option Suc (live_round ev pool host (pw_sleep ev 5 k) n))"
proof -
  have find: "find P (map Suc xs) = map_option Suc (find (P \<circ> Suc) xs)" for P xs
    by (induction xs) simp_all
  have "[1..<Suc (Suc n)] = 1 # map Suc [1..<Suc n]" by (simp add: map_Suc_upt upt_conv_Cons)
  then show ?thesis by (simp add: live_round_def find later_simps comp_def)
qed

lemma wol_round:
  assumes "serves ev pool" "\<And>k. pw_send ev k = (True, k)"
  shows "wol_loop ev host addr payload (Suc left) s
    = (let t = s\<lparr>pw_packets := pw_packets s @ [(addr, payload)], pw_machine := pw_sleep ev 5 (pw_machine s)\<rparr> in
       if pp_live pool (pp_metrics pool host) (pw_machine t) = Inr True then (Inr True, t)
       else wol_loop ev host addr payload left t)"
proof -
  let ?t = "s\<lparr>pw_packets := pw_packets s @ [(addr, payload)], pw_machine := pw_sleep ev 5 (pw_machine s)\<rparr>"
  have "catch (call_bool ev ''host_metrics.get_live'' [pp_metrics pool host]) (\<lambda>e. ret False) ?t
      = (Inr (pp_live pool (pp_metrics pool host) (pw_machine ?t) = Inr True), ?t)"
    by (cases "pp_live pool (pp_metrics pool host) (pw_machine ?t)") (simp_all add: catch_def serves_calls [OF assms(1)] ret_def)
  then show ?thesis
    by (simp add: wol_send_def pw_pause_def pw_with_def assms(2) serves_calls [OF assms(1)] modify_def ret_def seq_def bnd_def Let_def)
qed

lemma wol_loop_run:
  assumes "serves ev pool" "\<And>k. pw_send ev k = (True, k)"
  shows "wol_loop ev host addr payload n s
    = (Inr (live_round ev pool host (pw_machine s) n \<noteq> None),
       s\<lparr>pw_machine := later ev (rounds (live_round ev pool host (pw_machine s) n) n) (pw_machine s),
         pw_packets := pw_packets s @ replicate (rounds (live_round ev pool host (pw_machine s) n) n) (addr, payload)\<rparr>)"
proof (induction n arbitrary: s)
  case 0
  then show ?case by (simp add: live_round_def rounds_def later_simps ret_def)
next
  case (Suc n)
  show ?case
  proof (cases "pp_live pool (pp_metrics pool host) (pw_sleep ev 5 (pw_machine s)) = Inr True")
    case True
    then show ?thesis
      unfolding wol_round [OF assms(1,2)] by (simp add: live_round_Suc rounds_def later_simps)
  next
    case False
    then show ?thesis
      unfolding wol_round [OF assms(1,2)] by (simp add: Suc live_round_Suc rounds_Suc later_simps)
  qed
qed

text \<open>The loop after the other ways to power a host on is the same but for the packets.\<close>

lemma xapi_wait_run:
  assumes "serves ev pool"
  shows "\<exists>e. xapi_wait_loop ev host n s
    = (Inr (live_round ev pool host (pw_machine s) n \<noteq> None), s\<lparr>pw_machine := later ev (rounds (live_round ev pool host (pw_machine s) n) n) (pw_machine s), pw_stderr := e\<rparr>)"
proof (induction n arbitrary: s)
  case 0
  then show ?case by (auto simp: live_round_def rounds_def later_simps ret_def intro: exI [of _ "pw_stderr s"])
next
  case (Suc n)
  let ?t = "s\<lparr>pw_machine := pw_sleep ev 5 (pw_machine s)\<rparr>"
  define e where "e = (case pp_live pool (pp_metrics pool host) (pw_machine ?t) of Inl x \<Rightarrow> pw_stderr s + 1 | Inr b \<Rightarrow> pw_stderr s)"
  have e: "catch (call_bool ev ''host_metrics.get_live'' [pp_metrics pool host])
        (\<lambda>e. seq (modify (\<lambda>s. s\<lparr>pw_stderr := pw_stderr s + 1\<rparr>)) (ret False)) ?t
      = (Inr (pp_live pool (pp_metrics pool host) (pw_machine ?t) = Inr True), ?t\<lparr>pw_stderr := e\<rparr>)"
    by (cases "pp_live pool (pp_metrics pool host) (pw_machine ?t)")
      (simp_all add: e_def catch_def serves_calls [OF assms(1)] ret_def modify_def seq_def bnd_def)
  have run: "xapi_wait_loop ev host (Suc n) s
      = (if pp_live pool (pp_metrics pool host) (pw_machine ?t) = Inr True then (Inr True, ?t\<lparr>pw_stderr := e\<rparr>)
         else xapi_wait_loop ev host n (?t\<lparr>pw_stderr := e\<rparr>))"
    using e by (simp add: pw_pause_def pw_with_def serves_calls [OF assms(1)] ret_def seq_def bnd_def)
  show ?case
  proof (cases "pp_live pool (pp_metrics pool host) (pw_sleep ev 5 (pw_machine s)) = Inr True")
    case True
    then show ?thesis unfolding run by (auto simp: live_round_Suc rounds_def later_simps)
  next
    case False
    then show ?thesis unfolding run using Suc [of "?t\<lparr>pw_stderr := e\<rparr>"] by (auto simp: live_round_Suc rounds_Suc later_simps)
  qed
qed

section \<open>Waking a host\<close>

text \<open>The management interface of a host, and the interface below it when it is on a VLAN.\<close>

definition management_pif :: "'k power_pool \<Rightarrow> string \<Rightarrow> string option" where
  "management_pif pool uuid = find (pp_management pool) (pp_pifs pool (pp_host pool uuid))"

definition physical_pif :: "'k power_pool \<Rightarrow> string \<Rightarrow> string" where
  "physical_pif pool pif = (if pp_vlan pool pif = ''OpaqueRef:NULL'' then pif else pp_tagged pool (pp_vlan pool pif))"

lemma find_host_mgmt_pif_run:
  assumes "serves ev pool"
  shows "find_host_mgmt_pif ev uuid s
    = ((case management_pif pool uuid of None \<Rightarrow> Inl (Pow_NoManagement uuid) | Some p \<Rightarrow> Inr p), s)"
proof -
  have first: "first_management ev pifs s = (Inr (find (pp_management pool) pifs), s)" for pifs s
    by (induction pifs) (simp_all add: ret_def bnd_def serves_calls [OF assms])
  have texts: "smap pw_text (map MStr xs) = Inr xs" for xs
    by (induction xs) simp_all
  show ?thesis
    by (simp add: find_host_mgmt_pif_def bnd_def serves_calls [OF assms] lift_sum_def texts first management_pif_def ret_def throw_def split: option.split)
qed

lemma get_physical_pif_run:
  "serves ev pool \<Longrightarrow> get_physical_pif ev pif s = (Inr (physical_pif pool pif), s)"
  by (simp add: get_physical_pif_def physical_pif_def bnd_def serves_calls ret_def)

text \<open>
  C27: To wake a host, packets with the address of the physical interface below its
  management interface, six bytes 255 and sixteen copies of the address, are
  sent to the broadcast address of the own management network: one in each
  round of five seconds until the host is live, at most 60; the answer tells
  whether it is. A server that cannot tell counts as a host that is not live.
\<close>

theorem wake_on_lan_wakes:
  assumes "serves ev pool" and "\<And>k. pw_send ev k = (True, k)" and "pw_connect ev brd"
    and "get_localhost_uuid (pw_inventory ev) = Inr localhost"
    and "management_pif pool localhost = Some own" and "management_pif pool uuid = Some pif"
    and "\<And>k. pw_run ev [''ip'', ''address'', ''show'', ''dev'', pp_bridge pool (pp_network pool own)] k = ((0, text, err), k)"
    and "broadcast_word (words text) = Some brd"
    and "pp_mac pool (physical_pif pool pif) = mac_text mac"
    and "woken = live_round ev pool (pp_host pool uuid) (pw_machine s) 60"
  shows "wlan_main ev [(''remote_host_uuid'', uuid)] s
    = (Inr (bool_text (woken \<noteq> None)),
       s\<lparr>pw_machine := later ev (rounds woken 60) (pw_machine s),
         pw_packets := pw_packets s @ replicate (rounds woken 60) ((brd, 9), replicate 6 255 @ concat (replicate 16 mac))\<rparr>)"
proof -
  have ip: "find_interface_broadcast_ip ev (pp_bridge pool (pp_network pool own)) t = (Inr brd, t)" for t
    by (simp add: find_interface_broadcast_ip_def bnd_def pw_with_def assms(7,8) ret_def)
  show ?thesis
    by (simp add: wlan_main_def wake_on_lan_def bnd_def seq_def lift_sum_def require_def serves_calls [OF assms(1)]
        find_host_mgmt_pif_run [OF assms(1)] get_physical_pif_run [OF assms(1)] assms(3-6,9,10) ip wol_payload_mac
        wol_loop_run [OF assms(1,2)] ret_def)
qed

text \<open>The witness: a host on a VLAN that is live after the second round.\<close>

definition demo_power_pool :: "nat power_pool" where
  "demo_power_pool = \<lparr>pp_host = (\<lambda>u. ''host-'' @ u), pp_pifs = (\<lambda>h. if h = ''host-far'' then [''p0'', ''p1''] else [''p2'']),
     pp_management = (\<lambda>p. p \<noteq> ''p0''), pp_vlan = (\<lambda>p. if p = ''p1'' then ''v'' else ''OpaqueRef:NULL''), pp_tagged = (\<lambda>v. ''p3''),
     pp_mac = (\<lambda>p. if p = ''p3'' then ''00:16:3e:0a:ff:01'' else []), pp_network = (\<lambda>p. ''n''), pp_bridge = (\<lambda>n. ''xenbr0''),
     pp_metrics = (\<lambda>h. ''m''), pp_live = (\<lambda>m k. if k < 10 then Inl Pow_OSError else Inr True)\<rparr>"

definition demo_power :: "nat power_env" where
  "demo_power = \<lparr>pw_api = (\<lambda>meth args k.
      let x = hd args; p = demo_power_pool in
      (if meth = ''host.get_by_uuid'' then Inr (MStr (pp_host p x))
       else if meth = ''host.get_PIFs'' then Inr (MList (map MStr (pp_pifs p x)))
       else if meth = ''PIF.get_management'' then Inr (MBool (pp_management p x))
       else if meth = ''PIF.get_VLAN_master_of'' then Inr (MStr (pp_vlan p x))
       else if meth = ''VLAN.get_tagged_PIF'' then Inr (MStr (pp_tagged p x))
       else if meth = ''PIF.get_MAC'' then Inr (MStr (pp_mac p x))
       else if meth = ''PIF.get_network'' then Inr (MStr (pp_network p x))
       else if meth = ''network.get_bridge'' then Inr (MStr (pp_bridge p x))
       else if meth = ''host.get_metrics'' then Inr (MStr (pp_metrics p x))
       else if meth = ''host_metrics.get_live'' then map_sum id MBool (pp_live p x k)
       else Inl (Pow_Failure meth), k)),
     pw_run = (\<lambda>args k. ((0, ''link/ether brd ff inet 10.0.0.2/8 brd 10.255.255.255 scope'', []), k)),
     pw_sleep = (\<lambda>n k. k + n), pw_inventory = Inr (inventory_text [(''INSTALLATION_UUID'', ''near'')]),
     pw_connect = (\<lambda>a. True), pw_send = (\<lambda>k. (True, k)), pw_module = (\<lambda>m. None)\<rparr>"

lemma demo_power_serves: "serves demo_power demo_power_pool"
  by (simp add: serves_def api_answers_def demo_power_def Let_def)

lemma wake_on_lan_wakes_witness:
  "pw_packets (snd (wlan_main demo_power [(''remote_host_uuid'', ''far'')] \<lparr>pw_machine = 0, pw_packets = [], pw_stderr = 0\<rparr>))
    = replicate 2 ((''10.255.255.255'', 9), replicate 6 255 @ concat (replicate 16 [0, 0x16, 0x3e, 0x0a, 0xff, 1]))"
proof -
  let ?s = "\<lparr>pw_machine = 0 :: nat, pw_packets = [], pw_stderr = 0\<rparr>"
  have id: "get_localhost_uuid (pw_inventory demo_power) = Inr ''near''" by code_simp
  have own: "management_pif demo_power_pool ''near'' = Some ''p2''" "management_pif demo_power_pool ''far'' = Some ''p1''"
    "physical_pif demo_power_pool ''p1'' = ''p3''"
    by (simp_all add: management_pif_def physical_pif_def demo_power_pool_def)
  have brd: "broadcast_word (words ''link/ether brd ff inet 10.0.0.2/8 brd 10.255.255.255 scope'') = Some ''10.255.255.255''"
    by code_simp
  have mac: "pp_mac demo_power_pool (physical_pif demo_power_pool ''p1'') = mac_text [0, 0x16, 0x3e, 0x0a, 0xff, 1]"
    unfolding own(3) by code_simp
  have woken: "live_round demo_power demo_power_pool (pp_host demo_power_pool ''far'') (pw_machine ?s) 60 = Some 2"
    by (simp add: live_round_def upt_conv_Cons later_def demo_power_def demo_power_pool_def numeral_eq_Suc)
  have "wlan_main demo_power [(''remote_host_uuid'', ''far'')] ?s
    = (Inr (bool_text (Some (2 :: nat) \<noteq> None)),
       ?s\<lparr>pw_machine := later demo_power (rounds (Some 2) 60) (pw_machine ?s),
         pw_packets := pw_packets ?s @ replicate (rounds (Some 2) 60) ((''10.255.255.255'', 9), replicate 6 255 @ concat (replicate 16 [0, 0x16, 0x3e, 0x0a, 0xff, 1]))\<rparr>)"
    by (rule wake_on_lan_wakes [OF demo_power_serves _ _ id own(1,2) _ brd mac woken [symmetric]]) (simp_all add: demo_power_def)
  then show ?thesis by (simp add: rounds_def)
qed

section \<open>The other ways\<close>

text \<open>
  With IPMI one program is run, with the address, the user and the value of
  the secret of the configuration; when it fails nothing more is done, and else the
  host is waited for, in at most 120 rounds.
\<close>

theorem ipmi_powers_on:
  assumes "serves ev pool"
    and "\<And>x k. pw_api ev ''host.get_power_on_mode'' [x] k = (Inr (MStr ''IPMI''), k)"
    and "\<And>x k. pw_api ev ''host.get_power_on_config'' [x] k
      = (Inr (MRec [(''power_on_ip'', MStr ip), (''power_on_user'', MStr user), (''power_on_password_secret'', MStr secret)]), k)"
    and "\<And>x k. pw_api ev ''secret.get_by_uuid'' [x] k = (Inr (MStr (ref x)), k)"
    and "\<And>x k. pw_api ev ''secret.get_value'' [x] k = (Inr (MStr (val x)), k)"
    and "pw_run ev [''/usr/bin/ipmitool'', ''-H'', ip, ''-I'', ''lanplus'', ''-U'', user, ''-P'', val (ref secret), ''chassis'', ''power'', ''on'']
        (pw_machine s) = ((rc, out, err), k)"
    and "woken = live_round ev pool (pp_host pool uuid) k 120"
  shows "\<exists>n. power_on_main ev [(''remote_host_uuid'', uuid)] s
    = (if rc \<noteq> 0 then (Inl (Pow_Ipmi err), s\<lparr>pw_machine := k\<rparr>)
       else (Inr (bool_text (woken \<noteq> None)), s\<lparr>pw_machine := later ev (rounds woken 120) k, pw_stderr := n\<rparr>))"
proof -
  have calls: "call_text ev meth [x] t = (Inr (f x), t)" if "\<And>x k. pw_api ev meth [x] k = (Inr (MStr (f x)), k)" for meth f x t
    using that by (simp add: call_text_def pw_call_def pw_with_def bnd_def lift_sum_def)
  have config: "pw_call ev ''host.get_power_on_config'' [x] t
      = (Inr (MRec [(''power_on_ip'', MStr ip), (''power_on_user'', MStr user), (''power_on_password_secret'', MStr secret)]), t)" for x t
    by (simp add: pw_call_def pw_with_def bnd_def lift_sum_def assms(3))
  have run: "power_on_main ev [(''remote_host_uuid'', uuid)] s
      = (if rc \<noteq> 0 then (Inl (Pow_Ipmi err), s\<lparr>pw_machine := k\<rparr>) else waitForXapi ev (pp_host pool uuid) (s\<lparr>pw_machine := k\<rparr>))"
    by (simp add: power_on_main_def power_ipmi_def bnd_def seq_def lift_sum_def serves_calls [OF assms(1)] calls [where f = "\<lambda>x. ''IPMI''", OF assms(2)]
        calls [OF assms(4)] calls [OF assms(5)] config pw_item_def IPMI_def ipmi_path_def pw_with_def assms(6) throw_def ret_def)
  obtain n where "xapi_wait_loop ev (pp_host pool uuid) 120 (s\<lparr>pw_machine := k\<rparr>)
      = (Inr (woken \<noteq> None), s\<lparr>pw_machine := later ev (rounds woken 120) k, pw_stderr := n\<rparr>)"
    using xapi_wait_run [OF assms(1), of "pp_host pool uuid" 120 "s\<lparr>pw_machine := k\<rparr>"] assms(7) by auto
  then have "waitForXapi ev (pp_host pool uuid) (s\<lparr>pw_machine := k\<rparr>)
      = (Inr (bool_text (woken \<noteq> None)), s\<lparr>pw_machine := later ev (rounds woken 120) k, pw_stderr := n\<rparr>)"
    by (simp add: waitForXapi_def bnd_def ret_def)
  with run show ?thesis by auto
qed

text \<open>Called without a password the script of IPMI does not exit with a status but fails.\<close>

lemma ipmi_without_password: "ipmi_main ev [script, ip, user] s = (Ipmi_IndexError, s)"
  by (simp add: ipmi_main_def)

definition demo_ipmi :: "nat power_env" where
  "demo_ipmi = demo_power\<lparr>pw_api := (\<lambda>meth args k.
      if meth = ''host.get_power_on_mode'' then (Inr (MStr ''IPMI''), k)
      else if meth = ''host.get_power_on_config''
      then (Inr (MRec [(''power_on_ip'', MStr ''10.0.0.9''), (''power_on_user'', MStr ''root''), (''power_on_password_secret'', MStr ''s'')]), k)
      else if meth = ''secret.get_by_uuid'' then (Inr (MStr (''ref-'' @ hd args)), k)
      else if meth = ''secret.get_value'' then (Inr (MStr (''value-'' @ hd args)), k)
      else pw_api demo_power meth args k)\<rparr>"

lemma ipmi_powers_on_witness:
  "fst (power_on_main demo_ipmi [(''remote_host_uuid'', ''far'')] \<lparr>pw_machine = 3, pw_packets = [], pw_stderr = 0\<rparr>) = Inr ''True''"
proof -
  let ?s = "\<lparr>pw_machine = 3 :: nat, pw_packets = [], pw_stderr = 0\<rparr>"
  have serves: "serves demo_ipmi demo_power_pool"
    using demo_power_serves by (simp add: serves_def api_answers_def demo_ipmi_def)
  have woken: "live_round demo_ipmi demo_power_pool (pp_host demo_power_pool ''far'') 3 120 = Some 2"
    by (simp add: live_round_def upt_conv_Cons later_def demo_ipmi_def demo_power_def demo_power_pool_def numeral_eq_Suc)
  have "\<exists>n. power_on_main demo_ipmi [(''remote_host_uuid'', ''far'')] ?s
    = (if (0 :: int) \<noteq> 0 then (Inl (Pow_Ipmi []), ?s\<lparr>pw_machine := 3\<rparr>)
       else (Inr (bool_text (Some (2 :: nat) \<noteq> None)), ?s\<lparr>pw_machine := later demo_ipmi (rounds (Some 2) 120) 3, pw_stderr := n\<rparr>))"
    by (rule ipmi_powers_on [OF serves, where ref = "\<lambda>x. ''ref-'' @ x" and val = "\<lambda>x. ''value-'' @ x", OF _ _ _ _ _ woken [symmetric]])
      (simp_all add: demo_ipmi_def demo_power_def)
  then show ?thesis by (auto simp: bool_text_def)
qed

end
