(* ===== verification/Py_Url.thy ===== *)
theory Py_Url
  imports Py_Text
begin

text \<open>
  What the storage examples use of \<^verbatim>\<open>urllib.parse\<close>, \<^verbatim>\<open>os.path\<close> and of dictionaries
  with a fixed order: percent encoding, query strings, composing and taking
  apart URLs, joining paths. Text is ASCII.
\<close>

section \<open>Query strings\<close>

definition unreserved :: "char \<Rightarrow> bool" where
  "unreserved c \<longleftrightarrow> (let n = of_char c :: nat in
     48 \<le> n \<and> n \<le> 57 \<or> 65 \<le> n \<and> n \<le> 90 \<or> 97 \<le> n \<and> n \<le> 122 \<or> c \<in> {CHR ''_'', CHR ''.'', CHR ''-'', CHR ''~''})"

definition hex_upper :: "nat \<Rightarrow> char" where
  "hex_upper n = (if n < 10 then char_of (48 + n) else char_of (55 + n))"

definition hex_value :: "char \<Rightarrow> nat option" where
  "hex_value c = py_digit 16 c"

text \<open>\<^verbatim>\<open>quote_plus\<close> and \<^verbatim>\<open>unquote(s.replace('+', ' '))\<close>\<close>

definition quote_char :: "char \<Rightarrow> string" where
  "quote_char c =
     (if unreserved c then [c]
      else if c = CHR '' '' then ''+''
      else [CHR ''%'', hex_upper (of_char c div 16), hex_upper (of_char c mod 16)])"

definition quote_plus :: "string \<Rightarrow> string" where
  "quote_plus s = concat (map quote_char s)"

fun unquote_plus :: "string \<Rightarrow> string" where
  "unquote_plus [] = []"
| "unquote_plus (c # s) =
     (if c = CHR ''%'' then
        (case s of
           a # b # s' \<Rightarrow>
             (case (hex_value a, hex_value b) of
                (Some x, Some y) \<Rightarrow> char_of (16 * x + y) # unquote_plus s'
              | _ \<Rightarrow> c # unquote_plus s)
         | _ \<Rightarrow> c # unquote_plus s)
      else (if c = CHR ''+'' then CHR '' '' else c) # unquote_plus s)"

text \<open>\<^verbatim>\<open>urlencode\<close> of a dictionary of strings, in its order.\<close>

fun urlencode :: "(string \<times> string) list \<Rightarrow> string" where
  "urlencode [] = []"
| "urlencode [(k, v)] = quote_plus k @ ''='' @ quote_plus v"
| "urlencode ((k, v) # kv # kvs) = quote_plus k @ ''='' @ quote_plus v @ ''&'' @ urlencode (kv # kvs)"

text \<open>
  \<^verbatim>\<open>parse_qs\<close>, the pairs in order and the list a key gets: fields without \<^verbatim>\<open>=\<close> and
  fields with an empty value are dropped.
\<close>

definition parse_field :: "string \<Rightarrow> (string \<times> string) list" where
  "parse_field f =
     (case py_find (CHR ''='') f of
        None \<Rightarrow> []
      | Some i \<Rightarrow> if drop (Suc i) f = [] then []
          else [(unquote_plus (take i f), unquote_plus (drop (Suc i) f))])"

definition parse_qs :: "string \<Rightarrow> (string \<times> string) list" where
  "parse_qs qs = concat (map parse_field (py_split (CHR ''&'') qs))"

definition qs_get :: "string \<Rightarrow> (string \<times> string) list \<Rightarrow> string list" where
  "qs_get k kvs = map snd (filter (\<lambda>kv. fst kv = k) kvs)"

section \<open>URLs\<close>

record parsed_url =
  url_scheme :: string
  url_netloc :: string
  url_path :: string
  url_query :: string
  url_fragment :: string

text \<open>\<^verbatim>\<open>urlunparse\<close> without parameters; of the schemes in use only \<^verbatim>\<open>file\<close> has a net location.\<close>

definition uses_netloc :: "string \<Rightarrow> bool" where
  "uses_netloc scheme \<longleftrightarrow> scheme \<in> {''file'', ''http'', ''https'', ''ftp''}"

definition urlunparse :: "string \<Rightarrow> string \<Rightarrow> string \<Rightarrow> string \<Rightarrow> string" where
  "urlunparse scheme netloc url query =
    (let url = (if netloc \<noteq> [] \<or> scheme \<noteq> [] \<and> uses_netloc scheme \<and> take 2 url \<noteq> ''//''
                then ''//'' @ netloc @ (if url \<noteq> [] \<and> take 1 url \<noteq> ''/'' then ''/'' @ url else url)
                else url);
         url = (if scheme \<noteq> [] then scheme @ '':'' @ url else url) in
     if query \<noteq> [] then url @ ''?'' @ query else url)"

definition scheme_char :: "char \<Rightarrow> bool" where
  "scheme_char c \<longleftrightarrow> (let n = of_char c :: nat in
     48 \<le> n \<and> n \<le> 57 \<or> 65 \<le> n \<and> n \<le> 90 \<or> 97 \<le> n \<and> n \<le> 122 \<or> c \<in> {CHR ''+'', CHR ''-'', CHR ''.''})"

text \<open>\<^verbatim>\<open>s.split(c, 1)\<close> with an empty second part when there is no \<open>c\<close>.\<close>

definition cut_at :: "char \<Rightarrow> string \<Rightarrow> string \<times> string" where
  "cut_at c s = (takeWhile (\<lambda>d. d \<noteq> c) s, drop 1 (dropWhile (\<lambda>d. d \<noteq> c) s))"

definition urlparse :: "string \<Rightarrow> parsed_url" where
  "urlparse u =
    (let (scheme, rest) =
           (case py_find (CHR '':'') u of
              Some i \<Rightarrow> if 0 < i \<and> list_all scheme_char (take i u) then (py_lower (take i u), drop (Suc i) u) else ([], u)
            | None \<Rightarrow> ([], u));
         (netloc, rest) =
           (if take 2 rest = ''//''
            then (takeWhile (\<lambda>c. c \<notin> {CHR ''/'', CHR ''?'', CHR ''#''}) (drop 2 rest),
                  dropWhile (\<lambda>c. c \<notin> {CHR ''/'', CHR ''?'', CHR ''#''}) (drop 2 rest))
            else ([], rest));
         (rest, fragment) = cut_at (CHR ''#'') rest;
         (path, query) = cut_at (CHR ''?'') rest in
     \<lparr>url_scheme = scheme, url_netloc = netloc, url_path = path, url_query = query, url_fragment = fragment\<rparr>)"

section \<open>Paths\<close>

definition path_join :: "string \<Rightarrow> string \<Rightarrow> string" where
  "path_join a b =
     (if take 1 b = ''/'' then b
      else if a = [] \<or> last a = CHR ''/'' then a @ b
      else a @ ''/'' @ b)"

section \<open>Round trips\<close>

lemma hex_value_upper: "n < 16 \<Longrightarrow> hex_value (hex_upper n) = Some n"
  by (auto simp: hex_value_def hex_upper_def py_digit_def)

lemma of_char_lt: "(of_char c :: nat) < 256"
  by (metis of_char_mod_256 mod_less_divisor zero_less_numeral)

lemma of_char_div: "(of_char c :: nat) div 16 < 16"
  by (rule less_mult_imp_div_less) (use of_char_lt [of c] in simp)

lemma hex_upper_plain: "n < 16 \<Longrightarrow> unreserved (hex_upper n)"
  by (auto simp: hex_upper_def unreserved_def Let_def)

lemma unquote_quote_char: "unquote_plus (quote_char c @ s) = c # unquote_plus s"
proof -
  have "unreserved c \<Longrightarrow> c \<noteq> CHR ''%'' \<and> c \<noteq> CHR ''+''" by (auto simp: unreserved_def)
  moreover have "16 * (of_char c div 16) + of_char c mod 16 = (of_char c :: nat)" by simp
  moreover have "(of_char c :: nat) div 16 < 16" by (rule of_char_div)
  ultimately show ?thesis
    by (auto simp: quote_char_def hex_value_upper)
qed

lemma unquote_quote [simp]: "unquote_plus (quote_plus s) = s"
  by (induction s) (simp_all add: quote_plus_def unquote_quote_char)

lemma quote_char_plain: "c \<in> set (quote_char d) \<Longrightarrow> unreserved c \<or> c = CHR ''+'' \<or> c = CHR ''%''"
  using hex_upper_plain [OF of_char_div [of d]] hex_upper_plain [of "of_char d mod 16"]
  by (auto simp: quote_char_def split: if_splits)

lemma quote_plain: "c \<in> set (quote_plus s) \<Longrightarrow> unreserved c \<or> c = CHR ''+'' \<or> c = CHR ''%''"
  by (auto simp: quote_plus_def dest: quote_char_plain)

lemma quote_no: "CHR ''&'' \<notin> set (quote_plus s)" "CHR ''='' \<notin> set (quote_plus s)"
  "CHR ''#'' \<notin> set (quote_plus s)" "CHR ''?'' \<notin> set (quote_plus s)"
  by (auto dest!: quote_plain simp: unreserved_def)

lemma quote_Nil [simp]: "quote_plus s = [] \<longleftrightarrow> s = []"
  by (cases s) (simp_all add: quote_plus_def quote_char_def)

lemma parse_field_quoted:
  "parse_field (quote_plus k @ CHR ''='' # quote_plus v) = (if v = [] then [] else [(k, v)])"
proof -
  have "py_find (CHR ''='') (quote_plus k @ CHR ''='' # quote_plus v) = Some (length (quote_plus k))"
    using quote_no(2) by (simp add: py_find_Some)
  then show ?thesis by (simp add: parse_field_def)
qed

lemma parse_qs_append:
  "CHR ''&'' \<notin> set f \<Longrightarrow> parse_qs (f @ CHR ''&'' # s) = parse_field f @ parse_qs s"
  by (simp add: parse_qs_def py_split_append)

lemma parse_qs_urlencode [simp]:
  "parse_qs (urlencode kvs) = filter (\<lambda>kv. snd kv \<noteq> []) kvs"
proof (induction kvs rule: urlencode.induct)
  case 1
  then show ?case by (simp add: parse_qs_def parse_field_def)
next
  case (2 k v)
  have "CHR ''&'' \<notin> set (quote_plus k @ CHR ''='' # quote_plus v)" using quote_no(1) by simp
  then show ?case by (simp add: parse_qs_def py_split_none parse_field_quoted)
next
  case (3 k v kv kvs)
  have "CHR ''&'' \<notin> set (quote_plus k @ CHR ''='' # quote_plus v)" using quote_no(1) by simp
  from parse_qs_append [OF this, of "urlencode (kv # kvs)"] 3 show ?case
    by (simp add: parse_field_quoted)
qed

lemma urlencode_no: "CHR ''#'' \<notin> set (urlencode kvs)" "CHR ''?'' \<notin> set (urlencode kvs)"
  using quote_no by (induction kvs rule: urlencode.induct) auto

lemma qs_get_filter:
  assumes "distinct (map fst kvs)"
  shows "qs_get k (filter (\<lambda>kv. snd kv \<noteq> []) kvs) =
    (case map_of kvs k of None \<Rightarrow> [] | Some v \<Rightarrow> if v = [] then [] else [v])"
  using assms
proof (induction kvs)
  case (Cons kv kvs)
  have "map_of kvs (fst kv) = None" using Cons.prems by (simp add: map_of_eq_None_iff)
  with Cons show ?case by (auto simp: qs_get_def)
qed (simp add: qs_get_def)

lemma cut_at_append: "c \<notin> set s \<Longrightarrow> cut_at c (s @ c # t) = (s, t)"
  by (induction s) (auto simp: cut_at_def)

lemma cut_at_none: "c \<notin> set s \<Longrightarrow> cut_at c s = (s, [])"
  by (induction s) (auto simp: cut_at_def)

text \<open>A URL with a known scheme, an absolute path and a query is taken apart again.\<close>

definition plain_path :: "string \<Rightarrow> bool" where
  "plain_path p \<longleftrightarrow> take 1 p = ''/'' \<and> take 2 p \<noteq> ''//'' \<and> CHR ''?'' \<notin> set p \<and> CHR ''#'' \<notin> set p"

lemma urlparse_urlunparse:
  assumes "scheme \<in> {''file'', ''blkback''}" "plain_path p"
  shows "urlparse (urlunparse scheme [] p (urlencode kvs))
    = \<lparr>url_scheme = scheme, url_netloc = [], url_path = p, url_query = urlencode kvs, url_fragment = []\<rparr>"
proof -
  obtain q where p: "p = CHR ''/'' # q" using assms(2) by (cases p) (auto simp: plain_path_def)
  let ?t = "p @ (if urlencode kvs = [] then [] else CHR ''?'' # urlencode kvs)"
  have nh: "CHR ''#'' \<notin> set ?t" using assms(2) urlencode_no(1) by (simp add: plain_path_def)
  have cut: "cut_at (CHR ''#'') ?t = (?t, [])" "cut_at (CHR ''?'') ?t = (p, urlencode kvs)"
    using cut_at_none [OF nh] cut_at_append [of "CHR ''?''" p "urlencode kvs"] cut_at_none [of "CHR ''?''" p] assms(2)
    by (simp_all add: plain_path_def)
  have low: "py_lower ''file'' = ''file''" "py_lower ''blkback'' = ''blkback''" by code_simp+
  have sc: "list_all scheme_char ''file''" "list_all scheme_char ''blkback''" by code_simp+
  from assms(1) consider "scheme = ''file''" | "scheme = ''blkback''" by blast
  then show ?thesis
  proof cases
    case 1
    have u: "urlunparse scheme [] p (urlencode kvs) = ''file'' @ CHR '':'' # ''//'' @ ?t"
      using 1 assms(2) p by (simp add: urlunparse_def uses_netloc_def plain_path_def)
    have f: "py_find (CHR '':'') (''file'' @ CHR '':'' # s) = Some 4" for s by (simp add: py_find_Some)
    show ?thesis using cut sc low p 1 unfolding u urlparse_def f by (simp add: Let_def)
  next
    case 2
    have u: "urlunparse scheme [] p (urlencode kvs) = ''blkback'' @ CHR '':'' # ?t"
      using 2 assms(2) p by (simp add: urlunparse_def uses_netloc_def plain_path_def)
    have f: "py_find (CHR '':'') (''blkback'' @ CHR '':'' # s) = Some 7" for s by (simp add: py_find_Some)
    have "take 2 ?t \<noteq> ''//''" using assms(2) p by (cases q) (auto simp: plain_path_def)
    then show ?thesis using cut sc low 2 unfolding u urlparse_def f by (simp add: Let_def)
  qed
qed

end
