(* ===== verification/Py_Json.thy ===== *)
theory Py_Json
  imports Py_Url "HOL-Library.List_Lexorder" "HOL-Library.Char_ord"
begin

text \<open>
  \<^verbatim>\<open>json.dumps\<close> with sorted keys on the values the programs print: texts,
  infinite floats and dictionaries with text keys. Characters stand for the
  code points below 256. A reader of JSON, restricted to texts and objects, is
  the reference it is proved against.
\<close>

section \<open>Printing\<close>

datatype json =
    JStr string
  | JInf bool
  | JObj "(string \<times> json) list"

definition hex_lower :: "nat \<Rightarrow> char" where
  "hex_lower n = (if n < 10 then char_of (48 + n) else char_of (87 + n))"

definition bslash :: char where "bslash = char_of (92 :: nat)"
definition dquote :: char where "dquote = char_of (34 :: nat)"

text \<open>\<^verbatim>\<open>repr\<close> of an ASCII text\<close>

definition repr_char :: "char \<Rightarrow> char \<Rightarrow> string" where
  "repr_char q c =
     (let n = of_char c :: nat in
      if c = q \<or> c = bslash then [bslash, c]
      else if n = 9 then [bslash, CHR ''t''] else if n = 10 then [bslash, CHR ''n''] else if n = 13 then [bslash, CHR ''r'']
      else if n < 32 \<or> n = 127 then [bslash, CHR ''x'', hex_lower (n div 16), hex_lower (n mod 16)]
      else [c])"

definition str_repr :: "string \<Rightarrow> string" where
  "str_repr t =
     (let q = (if CHR 0x27 \<in> set t \<and> dquote \<notin> set t then dquote else CHR 0x27) in
      [q] @ concat (map (repr_char q) t) @ [q])"

text \<open>\<^verbatim>\<open>ensure_ascii\<close>: everything that is not printable ASCII is escaped.\<close>

definition json_char :: "char \<Rightarrow> string" where
  "json_char c =
     (let n = of_char c :: nat in
      if n = 34 then [bslash, dquote]
      else if n = 92 then [bslash, bslash]
      else if n = 10 then [bslash, CHR ''n'']
      else if n = 13 then [bslash, CHR ''r'']
      else if n = 9 then [bslash, CHR ''t'']
      else if n = 12 then [bslash, CHR ''f'']
      else if n = 8 then [bslash, CHR ''b'']
      else if 32 \<le> n \<and> n \<le> 126 then [c]
      else [bslash, CHR ''u'', CHR ''0'', CHR ''0'', hex_lower (n div 16), hex_lower (n mod 16)])"

definition json_str :: "string \<Rightarrow> string" where
  "json_str s = dquote # concat (map json_char s) @ [dquote]"

definition json_member :: "string \<times> string \<Rightarrow> string" where
  "json_member kt = json_str (fst kt) @ '': '' @ snd kt"

text \<open>An infinite float is printed as \<^verbatim>\<open>Infinity\<close>, which is not JSON.\<close>

primrec json_dumps :: "json \<Rightarrow> string"
  and json_dumps_list :: "(string \<times> json) list \<Rightarrow> (string \<times> string) list"
  and json_dumps_pair :: "string \<times> json \<Rightarrow> string \<times> string" where
  "json_dumps (JStr s) = json_str s"
| "json_dumps (JInf neg) = (if neg then ''-Infinity'' else ''Infinity'')"
| "json_dumps (JObj kvs) =
     ''{'' @ py_join '', '' (map json_member (sort_key fst (json_dumps_list kvs))) @ ''}''"
| "json_dumps_list [] = []"
| "json_dumps_list (kv # kvs) = json_dumps_pair kv # json_dumps_list kvs"
| "json_dumps_pair (k, v) = (k, json_dumps v)"

lemma json_dumps_list_map: "json_dumps_list kvs = map (\<lambda>kv. (fst kv, json_dumps (snd kv))) kvs"
proof (induction kvs)
  case (Cons kv kvs)
  then show ?case by (cases kv) simp
qed simp

section \<open>Reading\<close>

text \<open>The rest of a text after its opening quote.\<close>

definition escape_value :: "char \<Rightarrow> char option" where
  "escape_value c =
     (if c = dquote \<or> c = bslash \<or> c = CHR ''/'' then Some c
      else if c = CHR ''n'' then Some (char_of (10 :: nat))
      else if c = CHR ''r'' then Some (char_of (13 :: nat))
      else if c = CHR ''t'' then Some (char_of (9 :: nat))
      else if c = CHR ''f'' then Some (char_of (12 :: nat))
      else if c = CHR ''b'' then Some (char_of (8 :: nat))
      else None)"

definition hex4 :: "string \<Rightarrow> char option" where
  "hex4 s =
     (case map hex_value s of
        [Some a, Some b, Some c, Some d] \<Rightarrow>
          if a = 0 \<and> b = 0 then Some (char_of (c * 16 + d)) else None
      | _ \<Rightarrow> None)"

function text_rest :: "string \<Rightarrow> (string \<times> string) option" where
  "text_rest s =
     (case s of
        [] \<Rightarrow> None
      | c # r \<Rightarrow>
          if c = dquote then Some ([], r)
          else if c = bslash then
            (case r of
               [] \<Rightarrow> None
             | e # r' \<Rightarrow>
                 (case (if e = CHR ''u'' then (hex4 (take 4 r'), drop 4 r') else (escape_value e, r')) of
                    (None, _) \<Rightarrow> None
                  | (Some x, t) \<Rightarrow> map_option (\<lambda>(w, u). (x # w, u)) (text_rest t)))
          else map_option (\<lambda>(w, u). (c # w, u)) (text_rest r))"
  by pat_completeness auto
termination
  by (relation "measure length") (auto split: if_splits)

declare text_rest.simps [simp del]

definition blank :: "char \<Rightarrow> bool" where
  "blank c \<longleftrightarrow> c = CHR '' '' \<or> c = char_of (9 :: nat) \<or> c = char_of (10 :: nat) \<or> c = char_of (13 :: nat)"

text \<open>One character, with white space before it.\<close>

definition expect :: "char \<Rightarrow> string \<Rightarrow> string option" where
  "expect c s = (case dropWhile blank s of d # r \<Rightarrow> if d = c then Some r else None | [] \<Rightarrow> None)"

definition read_text :: "string \<Rightarrow> (string \<times> string) option" where
  "read_text s = (case expect dquote s of None \<Rightarrow> None | Some r \<Rightarrow> text_rest r)"

text \<open>The members of an object after its opening brace, at most \<open>n\<close>.\<close>

fun read_members ::
  "(string \<Rightarrow> ('v \<times> string) option) \<Rightarrow> nat \<Rightarrow> string \<Rightarrow> ((string \<times> 'v) list \<times> string) option" where
  "read_members val 0 s = None"
| "read_members val (Suc n) s =
     (case read_text s of None \<Rightarrow> None | Some (k, s) \<Rightarrow>
      (case expect CHR '':'' s of None \<Rightarrow> None | Some s \<Rightarrow>
       (case val s of None \<Rightarrow> None | Some (v, s) \<Rightarrow>
        (case expect CHR '','' s of
           Some r \<Rightarrow> map_option (\<lambda>(kvs, u). ((k, v) # kvs, u)) (read_members val n r)
         | None \<Rightarrow> map_option (\<lambda>u. ([(k, v)], u)) (expect CHR ''}'' s)))))"

definition read_object ::
  "(string \<Rightarrow> ('v \<times> string) option) \<Rightarrow> string \<Rightarrow> ((string \<times> 'v) list \<times> string) option" where
  "read_object val s =
     (case expect CHR ''{'' s of None \<Rightarrow> None | Some r \<Rightarrow>
      (case expect CHR ''}'' r of Some u \<Rightarrow> Some ([], u) | None \<Rightarrow> read_members val (length r) r))"

section \<open>Reading what was printed\<close>

lemma hex_value_lower: "n < 16 \<Longrightarrow> hex_value (hex_lower n) = Some n"
  by (auto simp: hex_value_def hex_lower_def py_digit_def)

lemma quote_neq: "dquote \<noteq> bslash"
  by (simp add: dquote_def bslash_def)

lemma text_rest_quote: "text_rest (dquote # s) = Some ([], s)"
  by (simp add: text_rest.simps)

lemma text_rest_plain:
  "c \<noteq> dquote \<Longrightarrow> c \<noteq> bslash \<Longrightarrow> text_rest (c # s) = map_option (\<lambda>(w, u). (c # w, u)) (text_rest s)"
  by (subst text_rest.simps) simp

lemma text_rest_escape:
  "e \<noteq> CHR ''u'' \<Longrightarrow> escape_value e = Some x \<Longrightarrow>
     text_rest (bslash # e # s) = map_option (\<lambda>(w, u). (x # w, u)) (text_rest s)"
  using quote_neq by (subst text_rest.simps) simp

lemma text_rest_unicode:
  "hex4 [a, b, c, d] = Some x \<Longrightarrow>
     text_rest (bslash # CHR ''u'' # a # b # c # d # s) = map_option (\<lambda>(w, u). (x # w, u)) (text_rest s)"
  using quote_neq by (subst text_rest.simps) (simp add: numeral_eq_Suc)

lemma of_char_eq: "(of_char c :: nat) = n \<Longrightarrow> c = char_of n"
  by auto

lemma escape_values:
  "dquote \<noteq> CHR ''u''" "bslash \<noteq> CHR ''u''"
  "escape_value dquote = Some (char_of (34 :: nat))" "escape_value bslash = Some (char_of (92 :: nat))"
  "escape_value CHR ''n'' = Some (char_of (10 :: nat))" "escape_value CHR ''r'' = Some (char_of (13 :: nat))"
  "escape_value CHR ''t'' = Some (char_of (9 :: nat))" "escape_value CHR ''f'' = Some (char_of (12 :: nat))"
  "escape_value CHR ''b'' = Some (char_of (8 :: nat))"
  by code_simp+

lemma text_rest_char:
  "text_rest (json_char c @ s) = map_option (\<lambda>(w, u). (c # w, u)) (text_rest s)"
proof -
  let ?n = "of_char c :: nat"
  have h: "hex4 [CHR ''0'', CHR ''0'', hex_lower (?n div 16), hex_lower (?n mod 16)] = Some c"
  proof -
    have "hex_value CHR ''0'' = Some 0" by code_simp
    moreover have "hex_value (hex_lower (?n div 16)) = Some (?n div 16)"
      using of_char_div by (rule hex_value_lower)
    moreover have "hex_value (hex_lower (?n mod 16)) = Some (?n mod 16)"
      by (rule hex_value_lower) simp
    moreover have "char_of (?n div 16 * 16 + ?n mod 16) = c" by (simp only: div_mult_mod_eq) simp
    ultimately show ?thesis by (simp add: hex4_def)
  qed
  consider "?n = 34" | "?n = 92" | "?n = 10" | "?n = 13" | "?n = 9" | "?n = 12" | "?n = 8"
    | "?n \<notin> {34, 92, 10, 13, 9, 12, 8}" "32 \<le> ?n \<and> ?n \<le> 126"
    | "?n \<notin> {34, 92, 10, 13, 9, 12, 8}" "\<not> (32 \<le> ?n \<and> ?n \<le> 126)" by blast
  then show ?thesis
  proof cases
    case 8
    then have "c \<noteq> dquote" "c \<noteq> bslash" by (auto simp: dquote_def bslash_def)
    with 8 show ?thesis by (simp add: json_char_def text_rest_plain)
  next
    case 9
    then show ?thesis by (auto simp: json_char_def Let_def text_rest_unicode [OF h])
  qed (auto dest!: of_char_eq simp: json_char_def text_rest_escape escape_values)
qed

lemma text_rest_json_str: "text_rest (concat (map json_char s) @ dquote # t) = Some (s, t)"
  by (induction s) (simp_all add: text_rest_quote text_rest_char)

text \<open>
  A reader \<open>val\<close> reads the text \<open>t\<close> as \<open>v\<close>, whatever follows and with a blank
  before it.
\<close>

definition reads :: "(string \<Rightarrow> ('v \<times> string) option) \<Rightarrow> string \<Rightarrow> 'v \<Rightarrow> bool" where
  "reads val t v \<longleftrightarrow> (\<forall>u. val (t @ u) = Some (v, u) \<and> val (CHR '' '' # t @ u) = Some (v, u))"

lemma readsD: "reads val t v \<Longrightarrow> val (t @ u) = Some (v, u)" "reads val t v \<Longrightarrow> val (CHR '' '' # t @ u) = Some (v, u)"
  by (simp_all add: reads_def)

lemma not_blank: "\<not> blank dquote" "\<not> blank CHR '':''" "\<not> blank CHR '',''" "\<not> blank CHR ''}''" "\<not> blank CHR ''{''"
  "blank CHR '' ''"
  by code_simp+

lemma expect_here [simp]: "\<not> blank d \<Longrightarrow> expect c (d # s) = (if d = c then Some s else None)"
  by (simp add: expect_def)

lemma expect_blank [simp]: "expect c (CHR '' '' # s) = expect c s"
  by (simp add: expect_def not_blank)

lemma reads_text: "reads read_text (json_str s) s"
  by (simp add: reads_def read_text_def json_str_def text_rest_json_str not_blank)

lemma dquote_neq [simp]: "dquote \<noteq> CHR ''}''" "dquote \<noteq> CHR '',''"
  by code_simp+

text \<open>The members of an object, as triples of key, printed and read value.\<close>

lemma read_members_step:
  assumes "reads val t v" "k = [] \<or> k = '' ''"
  shows "read_members val (Suc n) (k @ json_member (key, t) @ CHR '','' # s) =
      map_option (\<lambda>(kvs, u). ((key, v) # kvs, u)) (read_members val n s)"
    and "read_members val (Suc n) (k @ json_member (key, t) @ CHR ''}'' # s) = Some ([(key, v)], s)"
  using assms readsD [OF reads_text [of key]] readsD [OF assms(1)]
  by (auto simp: json_member_def not_blank)

declare read_members.simps [simp del]

lemma read_members_printed:
  assumes "\<forall>(key, t, v) \<in> set ms. reads val t v" "ms \<noteq> []" "length ms \<le> n" "b = [] \<or> b = '' ''"
  shows "read_members val n (b @ py_join '', '' (map (\<lambda>(key, t, v). json_member (key, t)) ms) @ CHR ''}'' # s) =
      Some (map (\<lambda>(key, t, v). (key, v)) ms, s)"
  using assms
proof (induction ms arbitrary: n b)
  case (Cons m ms)
  obtain key t v where m: "m = (key, t, v)" by (cases m)
  with Cons.prems have r: "reads val t v" by simp
  from Cons.prems obtain n' where n: "n = Suc n'" by (cases n) auto
  show ?case
  proof (cases ms)
    case Nil
    with m n r Cons.prems show ?thesis by (simp add: read_members_step)
  next
    case (Cons m' ms')
    have "read_members val n' ('' '' @ py_join '', '' (map (\<lambda>(key, t, v). json_member (key, t)) ms) @ CHR ''}'' # s) =
        Some (map (\<lambda>(key, t, v). (key, v)) ms, s)"
      by (rule Cons.IH) (use Cons.prems n Cons in simp_all)
    with m n r Cons.prems Cons show ?thesis
      using read_members_step(1) [OF r, of b n' key]
      by simp
  qed
qed simp

lemma py_join_snoc_length: "length ms \<le> length (py_join sep (map f ms) @ [x])" if "sep \<noteq> []" for ms :: "'m list"
proof (induction ms)
  case (Cons m ms)
  with that show ?case by (cases ms; cases sep) auto
qed simp

lemma reads_object:
  assumes "\<forall>(key, t, v) \<in> set ms. reads val t v"
  shows "reads (read_object val) (''{'' @ py_join '', '' (map (\<lambda>(key, t, v). json_member (key, t)) ms) @ ''}'')
    (map (\<lambda>(key, t, v). (key, v)) ms)"
proof -
  let ?j = "py_join '', '' (map (\<lambda>(key, t, v). json_member (key, t)) ms)"
  have "read_object val (b @ ''{'' @ ?j @ ''}'' @ u) = Some (map (\<lambda>(key, t, v). (key, v)) ms, u)"
    if "b = [] \<or> b = '' ''" for b u
  proof (cases ms)
    case Nil
    with that show ?thesis by (auto simp: read_object_def not_blank)
  next
    case (Cons m ms')
    have "\<exists>r. ?j = dquote # r"
      using Cons by (cases ms'; cases m) (simp_all add: json_member_def json_str_def)
    then have "expect CHR ''}'' (?j @ ''}'' @ u) = None" by (auto simp: not_blank)
    moreover have "length ms \<le> length (?j @ ''}'' @ u)"
      using py_join_snoc_length [of "'', ''" ms "\<lambda>(key, t, v). json_member (key, t)" "CHR ''}''"] by simp
    then have "read_members val (length (?j @ ''}'' @ u)) (?j @ ''}'' @ u) = Some (map (\<lambda>(key, t, v). (key, v)) ms, u)"
      using read_members_printed [OF assms, of "length (?j @ ''}'' @ u)" "[]" u] Cons by simp
    moreover have "expect CHR ''{'' (b @ ''{'' @ ?j @ ''}'' @ u) = Some (?j @ ''}'' @ u)"
      using that by (auto simp: not_blank)
    ultimately show ?thesis by (simp add: read_object_def)
  qed
  from this [of "[]"] this [of "'' ''"] show ?thesis by (simp add: reads_def)
qed

lemma insort_key_map: "insort_key h (f x) (map f xs) = map f (insort_key (\<lambda>x. h (f x)) x xs)"
  by (induction xs) simp_all

lemma sort_key_map: "sort_key h (map f xs) = map f (sort_key (\<lambda>x. h (f x)) xs)"
  by (induction xs) (simp_all add: insort_key_map)

text \<open>A dictionary that is printed is read as its members in the order of the keys.\<close>

lemma reads_dumps_object:
  assumes "\<forall>(key, j) \<in> set kvs. reads val (json_dumps j) (g j)"
  shows "reads (read_object val) (json_dumps (JObj kvs)) (map (\<lambda>(key, j). (key, g j)) (sort_key fst kvs))"
proof -
  have "sort_key fst (json_dumps_list kvs) = map (\<lambda>kv. (fst kv, json_dumps (snd kv))) (sort_key fst kvs)"
    using sort_key_map [of fst "\<lambda>kv. (fst kv, json_dumps (snd kv))" kvs]
    by (simp add: json_dumps_list_map comp_def)
  moreover have "reads (read_object val)
      (''{'' @ py_join '', '' (map (\<lambda>(key, t, v). json_member (key, t)) (map (\<lambda>(k, j). (k, json_dumps j, g j)) (sort_key fst kvs))) @ ''}'')
      (map (\<lambda>(key, t, v). (key, v)) (map (\<lambda>(k, j). (k, json_dumps j, g j)) (sort_key fst kvs)))"
    by (rule reads_object) (use assms in auto)
  ultimately show ?thesis by (simp add: comp_def case_prod_unfold)
qed

end
