(* ===== verification/Plugin_Dispatch.thy ===== *)
theory Plugin_Dispatch
  imports Power_On_Proofs Py_Json
begin

text \<open>
  How a host plugin answers: \<^verbatim>\<open>XenAPIPlugin.py\<close> reads the call from its argument, runs
  the function of that name and prints an XML-RPC answer; \<^verbatim>\<open>echo.py\<close> is the
  smallest plugin. The XML-RPC reader and what is not text in a call are
  arguments.
\<close>

section \<open>Calls and answers\<close>

text \<open>An exception of a plugin: its own failures, or the class and the text of another.\<close>

datatype plugin_exn =
    Plugin_Failure "string list"
  | Plugin_Exception string string

datatype plugin_answer =
    Answer_Success string
  | Answer_Failure "string list"

datatype dispatch_error = Disp_Arguments | Disp_Unreadable | Disp_IndexError

type_synonym ('s, 'p) plugin_fn = "'p \<Rightarrow> 'p \<Rightarrow> ('s, plugin_exn, string) st"

definition failure_params :: "string \<Rightarrow> string list \<Rightarrow> plugin_exn" where
  "failure_params code params = Plugin_Failure (code # params)"

definition success_message :: "string \<Rightarrow> plugin_answer" where
  "success_message v = Answer_Success v"

definition failure_message :: "string list \<Rightarrow> plugin_answer" where
  "failure_message d = Answer_Failure d"

definition answer_of :: "string \<Rightarrow> plugin_exn + string \<Rightarrow> plugin_answer" where
  "answer_of methodname r =
     (case r of
        Inr v \<Rightarrow> success_message v
      | Inl (Plugin_Failure params) \<Rightarrow> failure_message params
      | Inl (Plugin_Exception cls t) \<Rightarrow> failure_message [''XENAPI_PLUGIN_FAILURE'', methodname, cls, t])"

text \<open>\<open>loads\<close> is \<^verbatim>\<open>xmlrpclib.loads\<close>: the parameters and the name of the method.\<close>

definition plugin_dispatch ::
  "(string \<Rightarrow> ('p list \<times> string) option) \<Rightarrow> (string \<rightharpoonup> ('s, 'p) plugin_fn) \<Rightarrow> string list \<Rightarrow> ('s, dispatch_error, plugin_answer) st" where
  "plugin_dispatch loads fn_table argv s =
     (if length argv \<noteq> 2 then (Inl Disp_Arguments, s)
      else case loads (argv ! 1) of
        None \<Rightarrow> (Inl Disp_Unreadable, s)
      | Some (params, methodname) \<Rightarrow>
          if length params < 2 then (Inl Disp_IndexError, s)
          else case fn_table methodname of
            None \<Rightarrow> (Inr (failure_message [''UNKNOWN_XENAPI_PLUGIN_FUNCTION'', methodname]), s)
          | Some f \<Rightarrow> (case f (params ! 0) (params ! 1) s of (r, t) \<Rightarrow> (Inr (answer_of methodname r), t)))"

section \<open>The echo plugin\<close>

definition repr_dict :: "(string \<times> string) list \<Rightarrow> string" where
  "repr_dict d = ''{'' @ py_join '', '' (map (\<lambda>(k, v). str_repr k @ '': '' @ str_repr v) d) @ ''}''"

text \<open>\<^verbatim>\<open>main\<close>, with the seconds slept added to the state; a negative number of seconds is refused.\<close>

definition echo_main :: "(string \<times> string) list \<Rightarrow> (int, plugin_exn, string) st" where
  "echo_main args =
     seq (case map_of args ''sleep'' of
            None \<Rightarrow> ret ()
          | Some v \<Rightarrow>
              (case py_int 10 v of
                 None \<Rightarrow> throw (Plugin_Exception ''ValueError'' (''invalid literal for int() with base 10: '' @ str_repr v))
               | Some secs \<Rightarrow>
                   if secs < 0 then throw (Plugin_Exception ''ValueError'' ''sleep length must be non-negative'')
                   else modify (\<lambda>s. s + secs)))
         (ret (''args were: '' @ repr_dict args))"

section \<open>The power-on plugin as it is called\<close>

text \<open>The class of an exception; its text is an argument.\<close>

fun power_class :: "power_error \<Rightarrow> string" where
  "power_class (Pow_Failure t) = ''Failure''"
| "power_class Pow_KeyError = ''KeyError''"
| "power_class Pow_TypeError = ''TypeError''"
| "power_class Pow_ValueError = ''ValueError''"
| "power_class Pow_OSError = ''OSError''"
| "power_class Pow_NotConfigured = ''HOST_POWER_ON_NOT_CONFIGURED''"
| "power_class (Pow_Ipmi t) = ''IPMI_POWERON_FAILED''"
| "power_class (Pow_NoAddress t) = ''Exception''"
| "power_class (Pow_NoManagement t) = ''Exception''"
| "power_class (Pow_Inventory Inv_ValueError) = ''ValueError''"
| "power_class (Pow_Inventory Inv_FileNotFound) = ''FileNotFoundError''"
| "power_class (Pow_Inventory Inv_OSError) = ''OSError''"
| "power_class (Pow_Inventory Inv_KeyError) = ''KeyError''"
| "power_class Pow_ModuleNotFound = ''ModuleNotFoundError''"
| "power_class (Pow_Custom t) = t"

definition power_plugin ::
  "(power_error \<Rightarrow> string) \<Rightarrow> 'k power_env \<Rightarrow> (string \<rightharpoonup> ('k power_state, (string \<times> string) list) plugin_fn)" where
  "power_plugin text ev =
     [''main'' \<mapsto> (\<lambda>session args s. case power_on_main ev args s of
        (Inl e, t) \<Rightarrow> (Inl (Plugin_Exception (power_class e) (text e)), t)
      | (Inr v, t) \<Rightarrow> (Inr v, t))]"

text \<open>
  A call of the plugin that can be read is always answered: with the result of
  the function, or with a failure that names the class of the exception; a host
  without a way to be powered on is such a failure, and so is a function the
  plugin does not have.
\<close>

theorem power_plugin_answers:
  assumes "loads call = Some (params, meth)" and "2 \<le> length params"
  shows "plugin_dispatch loads (power_plugin text ev) [script, call] s
    = (if meth \<noteq> ''main'' then (Inr (Answer_Failure [''UNKNOWN_XENAPI_PLUGIN_FUNCTION'', meth]), s)
       else case power_on_main ev (params ! 1) s of
         (Inr v, t) \<Rightarrow> (Inr (Answer_Success v), t)
       | (Inl e, t) \<Rightarrow> (Inr (Answer_Failure [''XENAPI_PLUGIN_FAILURE'', ''main'', power_class e, text e]), t))"
  using assms
  by (simp add: plugin_dispatch_def power_plugin_def failure_message_def success_message_def answer_of_def split: prod.split sum.split)

lemma power_plugin_answers_witness:
  "fst (plugin_dispatch (\<lambda>c. Some ([[], []], ''main'')) (power_plugin (\<lambda>e. ''no host'') demo_power) [''power-on'', ''<call/>'']
      \<lparr>pw_machine = 0, pw_packets = [], pw_stderr = 0\<rparr>)
    = Inr (Answer_Failure [''XENAPI_PLUGIN_FAILURE'', ''main'', ''KeyError'', ''no host''])"
  using power_plugin_answers [of "\<lambda>c. Some ([[], []], ''main'')" "''<call/>''" "[[], []]" "''main''" "\<lambda>e. ''no host''" demo_power "''power-on''"
      "\<lparr>pw_machine = 0, pw_packets = [], pw_stderr = 0\<rparr>"]
  by (simp add: power_on_main_def bnd_def lift_sum_def)

end
