(* ===== verification/Yum_Tokens.thy ===== *)
theory Yum_Tokens
  imports Py_Url
begin

text \<open>
  The plugins of yum in \<^verbatim>\<open>scripts/yum-plugins\<close>, which add the secret of the pool
  (\<^verbatim>\<open>ptoken.py\<close>), a session (\<^verbatim>\<open>xapitoken.py\<close>) or the token of a mirror (\<^verbatim>\<open>accesstoken.py\<close>) to the
  requests for repositories. What a URL of a token gives is an argument: nothing
  when it cannot be read or is not JSON, else an object of texts.
\<close>

section \<open>Repositories\<close>

record yum_repo =
  yr_baseurl :: "string list"
  yr_options :: "(string \<times> string) list"
  yr_headers :: "(string \<times> string) list"

datatype yum_error = Yum_FileNotFound | Yum_KeyError | Yum_InvalidToken

type_synonym token_source = "string \<Rightarrow> (string \<times> string) list option"

text \<open>An option that is not set is empty, and so is a boolean option that is false.\<close>

definition getConfigOption :: "yum_repo \<Rightarrow> string \<Rightarrow> string" where
  "getConfigOption r k = (case map_of (yr_options r) k of None \<Rightarrow> [] | Some v \<Rightarrow> v)"

definition set_header :: "string \<Rightarrow> string \<Rightarrow> yum_repo \<Rightarrow> yum_repo" where
  "set_header k v r = r\<lparr>yr_headers := AList.update k v (yr_headers r)\<rparr>"

definition token_item :: "string \<Rightarrow> (string \<times> string) list \<Rightarrow> yum_error + string" where
  "token_item k d = (case map_of d k of None \<Rightarrow> Inl Yum_KeyError | Some v \<Rightarrow> Inr v)"

text \<open>\<^verbatim>\<open>len(repo.baseurl) > 0 and repo.baseurl[0].startswith("http://127.0.0.1")\<close>\<close>

definition localhost_prefix :: string where
  "localhost_prefix = ''http://127.0.0.1''"

definition local_repo :: "yum_repo \<Rightarrow> bool" where
  "local_repo r \<longleftrightarrow> yr_baseurl r \<noteq> [] \<and> take (length localhost_prefix) (hd (yr_baseurl r)) = localhost_prefix"

text \<open>The loops over the repositories: what was set before an exception stays set.\<close>

primrec each_repo :: "(yum_repo \<Rightarrow> yum_error + yum_repo) \<Rightarrow> yum_repo list \<Rightarrow> (yum_error + unit) \<times> yum_repo list" where
  "each_repo f [] = (Inr (), [])"
| "each_repo f (r # rs) =
     (case f r of
        Inl e \<Rightarrow> (Inl e, r # rs)
      | Inr r' \<Rightarrow> (case each_repo f rs of (x, rs') \<Rightarrow> (x, r' # rs')))"

section \<open>The plugins\<close>

definition ptoken_repo :: "string \<Rightarrow> yum_repo \<Rightarrow> yum_error + yum_repo" where
  "ptoken_repo ptoken r =
     Inr (if local_repo r \<and> getConfigOption r ''ptoken'' \<noteq> [] then set_header ''cookie'' (''pool_secret='' @ ptoken) r else r)"

definition ptoken_init :: "string option \<Rightarrow> yum_repo list \<Rightarrow> (yum_error + unit) \<times> yum_repo list" where
  "ptoken_init f repos =
     (case f of None \<Rightarrow> (Inl Yum_FileNotFound, repos) | Some t \<Rightarrow> each_repo (ptoken_repo (py_strip t)) repos)"

definition xapitoken_repo :: "token_source \<Rightarrow> yum_repo \<Rightarrow> yum_error + yum_repo" where
  "xapitoken_repo src r =
     (let token_url = getConfigOption r ''xapitoken'' in
      if token_url = [] then Inr r
      else case src token_url of
        None \<Rightarrow> Inr r
      | Some token \<Rightarrow>
          sbind (token_item ''xapitoken'' token) (\<lambda>x.
          if x = [] then Inl Yum_InvalidToken
          else Inr (if local_repo r \<and> getConfigOption r ''xapitoken'' \<noteq> []
                    then set_header ''cookie'' (''session_id='' @ x) r else r)))"

definition xapitoken_init :: "token_source \<Rightarrow> yum_repo list \<Rightarrow> (yum_error + unit) \<times> yum_repo list" where
  "xapitoken_init src = each_repo (xapitoken_repo src)"

text \<open>\<^verbatim>\<open>token['token'] and token['token_id']\<close> does not look at the second key when the first is empty.\<close>

definition accesstoken_repo :: "token_source \<Rightarrow> yum_repo \<Rightarrow> yum_error + yum_repo" where
  "accesstoken_repo src r =
     (let token_url = getConfigOption r ''accesstoken'' in
      if token_url = [] then Inr r
      else case src token_url of
        None \<Rightarrow> Inr r
      | Some token \<Rightarrow>
          sbind (token_item ''token'' token) (\<lambda>x.
          if x = [] then Inl Yum_InvalidToken
          else sbind (token_item ''token_id'' token) (\<lambda>y.
          if y = [] then Inl Yum_InvalidToken
          else Inr (set_header ''Referer'' y (set_header ''X-Access-Token'' x r)))))"

definition accesstoken_init :: "token_source \<Rightarrow> yum_repo list \<Rightarrow> (yum_error + unit) \<times> yum_repo list" where
  "accesstoken_init src = each_repo (accesstoken_repo src)"

section \<open>Which repositories get which token\<close>

lemma each_repo_pointwise:
  assumes "\<And>r r'. f r = Inr r' \<Longrightarrow> P r r'" "\<And>r. P r r"
  shows "list_all2 P rs (snd (each_repo f rs))"
proof (induction rs)
  case (Cons r rs)
  then show ?case using assms by (auto split: sum.split prod.split intro: list_all2_refl)
qed simp

text \<open>What a plugin may change of a repository: only the cookie, and only of one with a local first URL.\<close>

definition cookie_if_local :: "yum_repo \<Rightarrow> yum_repo \<Rightarrow> bool" where
  "cookie_if_local r r' \<longleftrightarrow> yr_baseurl r' = yr_baseurl r \<and> yr_options r' = yr_options r
     \<and> (\<forall>k. map_of (yr_headers r') k \<noteq> map_of (yr_headers r) k \<longrightarrow> k = ''cookie'' \<and> local_repo r)"

lemma set_cookie_if_local: "local_repo r \<Longrightarrow> cookie_if_local r (set_header ''cookie'' v r)"
  by (simp add: cookie_if_local_def set_header_def update_conv')

lemma cookie_if_local_refl: "cookie_if_local r r"
  by (simp add: cookie_if_local_def)

lemma xapitoken_repo_cookie: "xapitoken_repo src r = Inr r' \<Longrightarrow> cookie_if_local r r'"
  by (auto simp: xapitoken_repo_def Let_def sbind_Inr_iff set_cookie_if_local cookie_if_local_refl split: if_splits option.splits)

lemma ptoken_repo_cookie: "ptoken_repo t r = Inr r' \<Longrightarrow> cookie_if_local r r'"
  by (auto simp: ptoken_repo_def set_cookie_if_local cookie_if_local_refl split: if_splits)

text \<open>
  C28: Neither the secret of the pool nor a session is added to the requests for a
  repository, whatever the plugins end with, unless its first URL begins
  with the address of the own host; nothing but the cookie changes.
\<close>

theorem secrets_only_if_local:
  "list_all2 cookie_if_local rs (snd (ptoken_init f rs)) \<and> list_all2 cookie_if_local rs (snd (xapitoken_init src rs))"
proof
  show "list_all2 cookie_if_local rs (snd (ptoken_init f rs))"
    by (cases f) (simp_all add: ptoken_init_def each_repo_pointwise ptoken_repo_cookie cookie_if_local_refl list_all2_refl)
  show "list_all2 cookie_if_local rs (snd (xapitoken_init src rs))"
    unfolding xapitoken_init_def by (rule each_repo_pointwise) (simp_all add: xapitoken_repo_cookie cookie_if_local_refl)
qed

lemma local_netloc:
  assumes "list_all (\<lambda>c. c \<notin> {CHR ''/'', CHR ''?'', CHR ''#''}) domain"
  shows "url_netloc (urlparse (localhost_prefix @ domain @ ''/'' @ path)) = ''127.0.0.1'' @ domain"
proof -
  have f: "py_find (CHR '':'') (''http'' @ CHR '':'' # s) = Some 4" for s by (simp add: py_find_Some)
  have u: "localhost_prefix @ domain @ ''/'' @ path = ''http'' @ CHR '':'' # ''//'' @ (''127.0.0.1'' @ domain) @ ''/'' @ path"
    by (simp add: localhost_prefix_def)
  have sc: "list_all scheme_char ''http''" by code_simp
  have "takeWhile (\<lambda>c. c \<notin> {CHR ''/'', CHR ''?'', CHR ''#''}) ((''127.0.0.1'' @ domain) @ ''/'' @ path) = ''127.0.0.1'' @ domain"
    using assms by (subst takeWhile_append2) (auto simp: list_all_iff)
  then show ?thesis using sc unfolding u urlparse_def f by (simp add: Let_def split: prod.split)
qed

text \<open>
  The test of the URL looks at its beginning only: the secret of the pool is
  also added to the requests for a repository on a host whose name begins with
  the address of the own host, and for a repository with further URLs elsewhere.
\<close>

theorem secret_leaves_host:
  assumes "getConfigOption r ''ptoken'' \<noteq> []" and "yr_baseurl r = (localhost_prefix @ domain @ ''/'' @ path) # mirrors"
    and "list_all (\<lambda>c. c \<notin> {CHR ''/'', CHR ''?'', CHR ''#''}) domain"
  shows "\<exists>r'. ptoken_init (Some secret) [r] = (Inr (), [r']) \<and> yr_baseurl r' = yr_baseurl r
    \<and> map_of (yr_headers r') ''cookie'' = Some (''pool_secret='' @ py_strip secret)
    \<and> url_netloc (urlparse (hd (yr_baseurl r'))) = ''127.0.0.1'' @ domain"
  using assms local_netloc [OF assms(3), of path]
  by (simp add: ptoken_init_def ptoken_repo_def local_repo_def set_header_def update_conv' localhost_prefix_def)

lemma secret_leaves_host_witness:
  "snd (ptoken_init (Some ''s'') [\<lparr>yr_baseurl = [''http://127.0.0.1.example.com/r''], yr_options = [(''ptoken'', ''true'')], yr_headers = []\<rparr>])
    = [\<lparr>yr_baseurl = [''http://127.0.0.1.example.com/r''], yr_options = [(''ptoken'', ''true'')], yr_headers = [(''cookie'', ''pool_secret=s'')]\<rparr>]"
proof -
  let ?r = "\<lparr>yr_baseurl = [''http://127.0.0.1.example.com/r''], yr_options = [(''ptoken'', ''true'')], yr_headers = []\<rparr>"
  have "\<exists>r'. ptoken_init (Some ''s'') [?r] = (Inr (), [r']) \<and> yr_baseurl r' = yr_baseurl ?r
    \<and> map_of (yr_headers r') ''cookie'' = Some (''pool_secret='' @ py_strip ''s'')
    \<and> url_netloc (urlparse (hd (yr_baseurl r'))) = ''127.0.0.1'' @ ''.example.com''"
    by (rule secret_leaves_host [where path = "''r''" and mirrors = "[]"]) (simp_all add: getConfigOption_def localhost_prefix_def)
  moreover have "py_strip ''s'' = ''s''" by code_simp
  ultimately show ?thesis
    by (simp add: ptoken_init_def ptoken_repo_def set_header_def local_repo_def localhost_prefix_def getConfigOption_def)
qed

end
