(* ===== verification/Sr_Metadata.thy ===== *)
theory Sr_Metadata
  imports Api_Script Py_Xml
begin

text \<open>
  The scripts \<^verbatim>\<open>python3/libexec/backup-sr-metadata.py\<close>, which writes the names and
  descriptions of storage repositories and their disks to an XML file, and
  \<^verbatim>\<open>restore-sr-metadata.py\<close>, which sets them again. The API, and which files can be
  opened, are arguments.
\<close>

section \<open>State\<close>

datatype meta_error = Meta_Api script_error | Meta_OSError | Meta_Exit nat

record 'k meta_env =
  mt_api :: "string \<Rightarrow> string list \<Rightarrow> 'k \<Rightarrow> (script_error + mval) \<times> 'k"
  mt_writable :: "string \<Rightarrow> bool"

record 'k mt_state =
  mt_machine :: 'k
  mt_files :: "(string \<times> string) list"
  mt_out :: "string list"
  mt_err :: "string list"

type_synonym ('k, 'a) mt_op = "('k mt_state, meta_error, 'a) st"

definition mt_call :: "'k meta_env \<Rightarrow> string \<Rightarrow> string list \<Rightarrow> ('k, mval) mt_op" where
  "mt_call ev meth args s =
     (case mt_api ev meth args (mt_machine s) of (r, k) \<Rightarrow> (map_sum Meta_Api id r, s\<lparr>mt_machine := k\<rparr>))"

definition mt_pure :: "script_error + 'a \<Rightarrow> ('k, 'a) mt_op" where
  "mt_pure r = lift_sum (map_sum Meta_Api id r)"

definition mt_say :: "string \<Rightarrow> ('k, unit) mt_op" where
  "mt_say t = modify (\<lambda>s. s\<lparr>mt_out := mt_out s @ [t]\<rparr>)"

definition mt_complain :: "string \<Rightarrow> ('k, unit) mt_op" where
  "mt_complain t = modify (\<lambda>s. s\<lparr>mt_err := mt_err s @ [t]\<rparr>)"

text \<open>The handler of the exit logs out and ignores what is raised.\<close>

definition mt_session :: "'k meta_env \<Rightarrow> string \<Rightarrow> ('k, unit) mt_op \<Rightarrow> ('k, unit) mt_op" where
  "mt_session ev name body s =
     (case seq (mt_call ev ''session.login_with_password'' [[], [], ''1.0'', name]) body s of
        (r, t) \<Rightarrow> (r, snd (mt_call ev ''session.logout'' [] t)))"

section \<open>Backup\<close>

text \<open>The three attributes, an absent key giving an empty text.\<close>

definition set_if_exists :: "mval \<Rightarrow> string \<Rightarrow> xattrs \<Rightarrow> script_error + xattrs" where
  "set_if_exists rec key as = sbind (get_or key [] rec) (\<lambda>v. Inr (AList.update key v as))"

definition named_attrs :: "mval \<Rightarrow> script_error + xattrs" where
  "named_attrs rec =
     sbind (set_if_exists rec ''uuid'' []) (\<lambda>as.
     sbind (set_if_exists rec ''name_label'' as) (set_if_exists rec ''name_description''))"

definition backup_vdi :: "'k meta_env \<Rightarrow> string \<Rightarrow> ('k, xml list) mt_op" where
  "backup_vdi ev vdiref =
     catch (bnd (mt_call ev ''VDI.get_record'' [vdiref]) (\<lambda>vdirec.
            bnd (mt_pure (named_attrs vdirec)) (\<lambda>as. ret [XElem ''vdi'' as []])))
       (\<lambda>e. seq (mt_complain (''Failed to get VDI record for: '' @ vdiref)) (ret []))"

definition backup_sr :: "'k meta_env \<Rightarrow> mval \<Rightarrow> ('k, xml) mt_op" where
  "backup_sr ev srrec =
     bnd (mt_pure (named_attrs srrec)) (\<lambda>as.
     bnd (mt_pure (sbind (item ''VDIs'' srrec) as_refs)) (\<lambda>vdis.
     bnd (collect (backup_vdi ev) vdis) (\<lambda>kids. ret (XElem ''sr'' as (concat kids)))))"

definition backup_tree :: "'k meta_env \<Rightarrow> ('k, xml) mt_op" where
  "backup_tree ev =
     bnd (mt_call ev ''SR.get_all_records'' []) (\<lambda>v.
     bnd (mt_pure (as_rec v)) (\<lambda>srs.
     bnd (collect (backup_sr ev) (map snd srs)) (\<lambda>kids. ret (XElem ''meta'' [] kids))))"

definition set_contents :: "string \<Rightarrow> string \<Rightarrow> ('k, unit) mt_op" where
  "set_contents path t = modify (\<lambda>s. s\<lparr>mt_files := AList.update path t (mt_files s)\<rparr>)"

text \<open>Opening a file for writing makes it empty; what was written is there once it is closed.\<close>

definition backup_body :: "'k meta_env \<Rightarrow> string option \<Rightarrow> ('k, unit) mt_op" where
  "backup_body ev outfile =
     (case outfile of
        None \<Rightarrow> throw (Meta_Exit 1)
      | Some path \<Rightarrow>
          seq (require (mt_writable ev path) Meta_OSError)
          (seq (set_contents path [])
          (bnd (backup_tree ev) (\<lambda>doc.
           seq (set_contents path (writexml doc))
           (bnd (mt_call ev ''logout'' []) (\<lambda>v. ret ()))))))"

definition backup_main :: "'k meta_env \<Rightarrow> string option \<Rightarrow> ('k, unit) mt_op" where
  "backup_main ev outfile = mt_session ev ''xen-api-scripts-backup-sr-metadata'' (backup_body ev outfile)"

section \<open>Restore\<close>

definition read_named :: "xml \<Rightarrow> (string \<times> string \<times> string) option" where
  "read_named x =
     (case (getAttribute ''uuid'' x, getAttribute ''name_label'' x, getAttribute ''name_description'' x) of
        (Some u, Some l, Some d) \<Rightarrow> Some (u, l, d)
      | _ \<Rightarrow> None)"

text \<open>The calls for a repository (\<open>cls\<close> is \<^verbatim>\<open>SR\<close>) and for a disk (\<^verbatim>\<open>VDI\<close>) differ in a blank that is printed.\<close>

definition set_names :: "'k meta_env \<Rightarrow> string \<Rightarrow> string \<Rightarrow> string \<times> string \<times> string \<Rightarrow> ('k, unit) mt_op" where
  "set_names ev cls blank x =
     (case x of (u, l, d) \<Rightarrow>
        bnd (mt_call ev (cls @ ''.get_by_uuid'') [u]) (\<lambda>v.
        bnd (mt_pure (as_str v)) (\<lambda>ref.
        seq (mt_say (''Setting '' @ cls @ '' ('' @ u @ ''):''))
        (seq (bnd (mt_call ev (cls @ ''.set_name_label'') [ref, l]) (\<lambda>v. ret ()))
        (seq (mt_say (''  Name: '' @ l @ blank))
        (seq (bnd (mt_call ev (cls @ ''.set_name_description'') [ref, d]) (\<lambda>v. ret ()))
             (mt_say (''  Description: '' @ d))))))))"

definition restore_vdi :: "'k meta_env \<Rightarrow> string \<Rightarrow> xml \<Rightarrow> ('k, unit) mt_op" where
  "restore_vdi ev name_label vdixml =
     (case read_named vdixml of
        None \<Rightarrow> mt_complain ''Error parsing VDI tag''
      | Some x \<Rightarrow>
          catch (set_names ev ''VDI'' [] x)
            (\<lambda>e. mt_complain (''Error setting VDI data for: '' @ fst x @ '' ('' @ name_label @ '')'')))"

definition selected :: "string option \<Rightarrow> string \<Rightarrow> bool" where
  "selected sruuid uuid \<longleftrightarrow> sruuid = None \<or> sruuid = Some ''all'' \<or> sruuid = Some uuid"

fun xml_children :: "xml \<Rightarrow> xml list" where
  "xml_children (XElem n a ks) = ks"
| "xml_children _ = []"

definition restore_sr :: "'k meta_env \<Rightarrow> string option \<Rightarrow> xml \<Rightarrow> ('k, unit) mt_op" where
  "restore_sr ev sruuid srxml =
     (case read_named srxml of
        None \<Rightarrow> mt_complain ''Error parsing SR tag''
      | Some (uuid, name_label, name_descr) \<Rightarrow>
          if \<not> selected sruuid uuid then ret ()
          else
            seq (catch (set_names ev ''SR'' '' '' (uuid, name_label, name_descr))
                   (\<lambda>e. seq (mt_complain (''Error setting SR data for: '' @ uuid @ '' ('' @ name_label @ '')'')) (throw (Meta_Exit 1))))
                (for_each (restore_vdi ev name_label) (xml_children srxml)))"

definition restore_body :: "'k meta_env \<Rightarrow> string option \<Rightarrow> string option \<Rightarrow> ('k, unit) mt_op" where
  "restore_body ev infile sruuid =
     (case infile of
        None \<Rightarrow> throw (Meta_Exit 1)
      | Some path \<Rightarrow>
          bnd (gets (\<lambda>s. case map_of (mt_files s) path of None \<Rightarrow> None | Some t \<Rightarrow> xml_parse t)) (\<lambda>doc.
          case doc of
            Some (XElem tag as kids) \<Rightarrow>
              if tag \<noteq> ''meta'' then seq (mt_complain (''Unexpected root element while parsing '' @ path)) (throw (Meta_Exit 1))
              else for_each (restore_sr ev sruuid) kids
          | _ \<Rightarrow> seq (mt_complain (''Error parsing '' @ path)) (throw (Meta_Exit 1))))"

definition restore_main :: "'k meta_env \<Rightarrow> string option \<Rightarrow> string option \<Rightarrow> ('k, unit) mt_op" where
  "restore_main ev infile sruuid = mt_session ev ''xen-api-scripts-restore-sr-metadata'' (restore_body ev infile sruuid)"

end
