(* ===== verification/Sr_Metadata_Proofs.thy ===== *)
theory Sr_Metadata_Proofs
  imports Sr_Metadata
begin

text \<open>
  What a backup writes, what a restore sets, and both together through the text
  of the file.
\<close>

section \<open>What is saved\<close>

type_synonym named = "string \<times> string \<times> string"

definition text_field :: "(string \<times> mval) list \<Rightarrow> string \<Rightarrow> bool" where
  "text_field rec k \<longleftrightarrow> (case map_of rec k of None \<Rightarrow> True | Some (MStr t) \<Rightarrow> True | _ \<Rightarrow> False)"

definition field :: "(string \<times> mval) list \<Rightarrow> string \<Rightarrow> string" where
  "field rec k = (case map_of rec k of Some (MStr t) \<Rightarrow> t | _ \<Rightarrow> [])"

definition named_entry :: "(string \<times> mval) list \<Rightarrow> named" where
  "named_entry rec = (field rec ''uuid'', field rec ''name_label'', field rec ''name_description'')"

definition vdi_refs :: "(string \<times> mval) list \<Rightarrow> string list" where
  "vdi_refs rec = (case map_of rec ''VDIs'' of Some (MList xs) \<Rightarrow> map (\<lambda>x. case x of MStr t \<Rightarrow> t | _ \<Rightarrow> []) xs | _ \<Rightarrow> [])"

text \<open>The records as the API types them.\<close>

definition named_record :: "(string \<times> mval) list \<Rightarrow> bool" where
  "named_record rec \<longleftrightarrow> text_field rec ''uuid'' \<and> text_field rec ''name_label'' \<and> text_field rec ''name_description''"

definition sr_record :: "(string \<times> mval) list \<Rightarrow> bool" where
  "sr_record rec \<longleftrightarrow> named_record rec \<and> map_of rec ''VDIs'' = Some (MList (map MStr (vdi_refs rec)))"

text \<open>The disks whose records can be read.\<close>

definition kept :: "(string \<Rightarrow> script_error + mval) \<Rightarrow> string \<Rightarrow> named list" where
  "kept disk ref = (case disk ref of Inr (MRec r) \<Rightarrow> [named_entry r] | _ \<Rightarrow> [])"

type_synonym saved = "(named \<times> named list) list"

definition saved_of :: "(string \<times> (string \<times> mval) list) list \<Rightarrow> (string \<Rightarrow> script_error + mval) \<Rightarrow> saved" where
  "saved_of recs disk = map (\<lambda>(ref, rec). (named_entry rec, concat (map (kept disk) (vdi_refs rec)))) recs"

definition entry_attrs :: "named \<Rightarrow> xattrs" where
  "entry_attrs x = (case x of (u, l, d) \<Rightarrow> [(''uuid'', u), (''name_label'', l), (''name_description'', d)])"

definition vdi_xml :: "named \<Rightarrow> xml" where
  "vdi_xml x = XElem ''vdi'' (entry_attrs x) []"

definition sr_xml :: "named \<times> named list \<Rightarrow> xml" where
  "sr_xml e = XElem ''sr'' (entry_attrs (fst e)) (map vdi_xml (snd e))"

definition saved_xml :: "saved \<Rightarrow> xml" where
  "saved_xml es = XElem ''meta'' [] (map sr_xml es)"

section \<open>The backup\<close>

lemma named_attrs_entry: "named_record rec \<Longrightarrow> named_attrs (MRec rec) = Inr (entry_attrs (named_entry rec))"
  by (auto simp: named_attrs_def set_if_exists_def get_or_def named_record_def text_field_def entry_attrs_def named_entry_def field_def
      split: option.splits mval.splits)

text \<open>A server that answers the questions of the backup from its records.\<close>

definition answers_backup ::
  "'k meta_env \<Rightarrow> (string \<times> (string \<times> mval) list) list \<Rightarrow> (string \<Rightarrow> script_error + mval) \<Rightarrow> bool" where
  "answers_backup ev recs disk \<longleftrightarrow>
     (\<forall>k. mt_api ev ''SR.get_all_records'' [] k = (Inr (MRec (map (\<lambda>(ref, r). (ref, MRec r)) recs)), k))
     \<and> (\<forall>ref k. mt_api ev ''VDI.get_record'' [ref] k = (disk ref, k))
     \<and> (\<forall>(ref, r) \<in> set recs. sr_record r) \<and> (\<forall>ref r. disk ref = Inr (MRec r) \<longrightarrow> named_record r)
     \<and> (\<forall>args k. \<exists>v k'. mt_api ev ''session.login_with_password'' args k = (Inr v, k'))
     \<and> (\<forall>k. \<exists>v k'. mt_api ev ''logout'' [] k = (Inr v, k'))"

text \<open>Only what was printed may differ.\<close>

definition mt_quiet :: "'k mt_state \<Rightarrow> 'k mt_state \<Rightarrow> bool" where
  "mt_quiet s t \<longleftrightarrow> mt_machine t = mt_machine s \<and> mt_files t = mt_files s"

lemma backup_vdi_run:
  assumes "answers_backup ev recs disk"
  shows "\<exists>t. backup_vdi ev ref s = (Inr (map vdi_xml (kept disk ref)), t) \<and> mt_quiet s t"
proof -
  have call: "mt_call ev ''VDI.get_record'' [ref] s = (map_sum Meta_Api id (disk ref), s)"
    using assms by (simp add: mt_call_def answers_backup_def)
  note unfold = backup_vdi_def call catch_def bnd_def mt_pure_def lift_sum_def ret_def mt_complain_def modify_def seq_def mt_quiet_def
  show ?thesis
  proof (cases "\<exists>r. disk ref = Inr (MRec r)")
    case True
    then obtain r where r: "disk ref = Inr (MRec r)" by blast
    then have "named_record r" using assms by (simp add: answers_backup_def)
    with r show ?thesis by (simp add: unfold named_attrs_entry kept_def vdi_xml_def)
  next
    case False
    then have "kept disk ref = []" by (simp add: kept_def split: sum.split mval.split)
    moreover have "named_attrs v = Inl S_TypeError" if "\<nexists>r. v = MRec r" for v
      using that by (cases v) (auto simp: named_attrs_def set_if_exists_def get_or_def)
    ultimately show ?thesis using False by (cases "disk ref") (simp_all add: unfold)
  qed
qed

lemma collect_mt_quiet:
  assumes "\<And>x s. x \<in> set xs \<Longrightarrow> \<exists>t. f x s = (Inr (g x), t) \<and> mt_quiet s t"
  shows "\<exists>t. collect f xs s = (Inr (map g xs), t) \<and> mt_quiet s t"
  using assms
proof (induction xs arbitrary: s)
  case (Cons x xs)
  obtain t where t: "f x s = (Inr (g x), t)" "mt_quiet s t" using Cons.prems by (meson list.set_intros)
  obtain u where "collect f xs t = (Inr (map g xs), u)" "mt_quiet t u" using Cons.IH Cons.prems by (meson list.set_intros)
  with t show ?case by (auto simp: bnd_def ret_def mt_quiet_def)
qed (simp add: ret_def mt_quiet_def)

lemma smap_texts: "smap as_str (map MStr xs) = Inr xs"
  by (induction xs) simp_all

lemma backup_sr_run:
  assumes "answers_backup ev recs disk" "sr_record r"
  shows "\<exists>t. backup_sr ev (MRec r) s = (Inr (sr_xml (named_entry r, concat (map (kept disk) (vdi_refs r)))), t) \<and> mt_quiet s t"
proof -
  have vdis: "sbind (item ''VDIs'' (MRec r)) as_refs = Inr (vdi_refs r)"
    using assms(2) by (simp add: sr_record_def item_def as_refs_def smap_texts)
  obtain t where "collect (backup_vdi ev) (vdi_refs r) s = (Inr (map (\<lambda>ref. map vdi_xml (kept disk ref)) (vdi_refs r)), t)" "mt_quiet s t"
    using collect_mt_quiet [of "vdi_refs r" "backup_vdi ev" "\<lambda>ref. map vdi_xml (kept disk ref)" s] backup_vdi_run [OF assms(1)] by blast
  then show ?thesis
    using assms(2) by (simp add: backup_sr_def bnd_def mt_pure_def lift_sum_def named_attrs_entry sr_record_def vdis [unfolded sr_record_def]
        ret_def sr_xml_def map_concat comp_def)
qed

lemma backup_tree_run:
  assumes "answers_backup ev recs disk"
  shows "\<exists>t. backup_tree ev s = (Inr (saved_xml (saved_of recs disk)), t) \<and> mt_quiet s t"
proof -
  let ?g = "\<lambda>v. case v of MRec r \<Rightarrow> sr_xml (named_entry r, concat (map (kept disk) (vdi_refs r)))"
  have "\<exists>t. backup_sr ev v s = (Inr (?g v), t) \<and> mt_quiet s t" if "v \<in> set (map (\<lambda>(ref, r). MRec r) recs)" for v s
    using that assms backup_sr_run [OF assms] by (auto simp: answers_backup_def)
  then obtain t where t: "collect (backup_sr ev) (map (\<lambda>(ref, r). MRec r) recs) s = (Inr (map ?g (map (\<lambda>(ref, r). MRec r) recs)), t)" "mt_quiet s t"
    using collect_mt_quiet [of "map (\<lambda>(ref, r). MRec r) recs" "backup_sr ev" ?g s] by blast
  have "map snd (map (\<lambda>(ref, r). (ref, MRec r)) recs) = map (\<lambda>(ref, r). MRec r) recs" by auto
  moreover have "map ?g (map (\<lambda>(ref, r). MRec r) recs) = map sr_xml (saved_of recs disk)"
    by (simp add: saved_of_def split_beta)
  moreover have "mt_call ev ''SR.get_all_records'' [] s = (Inr (MRec (map (\<lambda>(ref, r). (ref, MRec r)) recs)), s)"
    using assms by (simp add: mt_call_def answers_backup_def)
  ultimately show ?thesis
    using t by (simp add: backup_tree_def bnd_def mt_pure_def lift_sum_def ret_def saved_xml_def del: map_map)
qed

lemma backup_main_run:
  assumes "answers_backup ev recs disk" "mt_writable ev path"
  shows "\<exists>t. backup_main ev (Some path) s = (Inr (), t)
    \<and> mt_files t = AList.update path (writexml (saved_xml (saved_of recs disk))) (mt_files s)"
proof -
  obtain v k where login: "mt_api ev ''session.login_with_password'' [[], [], ''1.0'', ''xen-api-scripts-backup-sr-metadata''] (mt_machine s) = (Inr v, k)"
    using assms(1) unfolding answers_backup_def by blast
  let ?s = "s\<lparr>mt_machine := k, mt_files := AList.update path [] (mt_files s)\<rparr>"
  obtain t where t: "backup_tree ev ?s = (Inr (saved_xml (saved_of recs disk)), t)" "mt_quiet ?s t"
    using backup_tree_run [OF assms(1)] by blast
  obtain w k' where logout: "mt_api ev ''logout'' [] (mt_machine t) = (Inr w, k')"
    using assms(1) unfolding answers_backup_def by blast
  show ?thesis
    using t logout
    by (simp add: backup_main_def mt_session_def backup_body_def seq_def bnd_def mt_call_def login require_def assms(2) set_contents_def modify_def
        ret_def mt_quiet_def split: prod.split)
qed

section \<open>The restore\<close>

text \<open>
  A server that keeps names and descriptions of objects by class and identifier, and
  sets them as it is told.
\<close>

type_synonym names = "string \<Rightarrow> string \<Rightarrow> (string \<times> string) option"

definition put_name :: "names \<Rightarrow> string \<Rightarrow> string \<Rightarrow> string \<times> string \<Rightarrow> names" where
  "put_name N cls u x = (\<lambda>c w. if c = cls \<and> w = u then Some x else N c w)"

definition keeps_names ::
  "'k meta_env \<Rightarrow> ('k \<Rightarrow> names) \<Rightarrow> (string \<Rightarrow> string \<Rightarrow> string) \<Rightarrow> bool" where
  "keeps_names ev N ref \<longleftrightarrow>
     (\<forall>k args. \<exists>v k'. mt_api ev ''session.login_with_password'' args k = (Inr v, k') \<and> N k' = N k)
     \<and> (\<forall>k. N (snd (mt_api ev ''session.logout'' [] k)) = N k)
     \<and> (\<forall>cls \<in> {''SR'', ''VDI''}. \<forall>u k. N k cls u = None \<longrightarrow> (\<exists>e. mt_api ev (cls @ ''.get_by_uuid'') [u] k = (Inl e, k)))
     \<and> (\<forall>cls \<in> {''SR'', ''VDI''}. \<forall>u k a b. N k cls u = Some (a, b) \<longrightarrow>
          mt_api ev (cls @ ''.get_by_uuid'') [u] k = (Inr (MStr (ref cls u)), k)
          \<and> (\<forall>l. \<exists>v k'. mt_api ev (cls @ ''.set_name_label'') [ref cls u, l] k = (Inr v, k') \<and> N k' = put_name (N k) cls u (l, b))
          \<and> (\<forall>d. \<exists>v k'. mt_api ev (cls @ ''.set_name_description'') [ref cls u, d] k = (Inr v, k') \<and> N k' = put_name (N k) cls u (a, d)))"

definition set_known :: "string \<times> named \<Rightarrow> names \<Rightarrow> names" where
  "set_known a N = (case a of (cls, u, ld) \<Rightarrow> if N cls u = None then N else put_name N cls u ld)"

lemma set_names_known:
  assumes "keeps_names ev N ref" "N (mt_machine s) cls u = Some ab" "cls \<in> {''SR'', ''VDI''}"
  shows "\<exists>t. set_names ev cls blank (u, l, d) s = (Inr (), t) \<and> N (mt_machine t) = set_known (cls, u, l, d) (N (mt_machine s))"
proof -
  obtain a b where ab: "ab = (a, b)" by fastforce
  have law: "N k cls u = Some (a, b) \<Longrightarrow>
        mt_api ev (cls @ ''.get_by_uuid'') [u] k = (Inr (MStr (ref cls u)), k)
        \<and> (\<forall>l. \<exists>v k'. mt_api ev (cls @ ''.set_name_label'') [ref cls u, l] k = (Inr v, k') \<and> N k' = put_name (N k) cls u (l, b))
        \<and> (\<forall>d. \<exists>v k'. mt_api ev (cls @ ''.set_name_description'') [ref cls u, d] k = (Inr v, k') \<and> N k' = put_name (N k) cls u (a, d))" for k a b
    using assms(1,3) unfolding keeps_names_def by blast
  have s: "N (mt_machine s) cls u = Some (a, b)" using assms(2) ab by simp
  obtain v k where k: "mt_api ev (cls @ ''.set_name_label'') [ref cls u, l] (mt_machine s) = (Inr v, k)"
      "N k = put_name (N (mt_machine s)) cls u (l, b)" using law [OF s] by blast
  then have "N k cls u = Some (l, b)" by (simp add: put_name_def)
  then obtain v' k' where k': "mt_api ev (cls @ ''.set_name_description'') [ref cls u, d] k = (Inr v', k')"
      "N k' = put_name (N k) cls u (l, d)" using law by blast
  have "N k' = set_known (cls, u, l, d) (N (mt_machine s))"
    using k'(2) s by (simp add: k(2) set_known_def put_name_def fun_eq_iff)
  then show ?thesis
    using law [OF s] k(1) k'(1)
    by (simp add: set_names_def bnd_def seq_def mt_call_def mt_pure_def lift_sum_def mt_say_def modify_def ret_def)
qed

lemma set_names_unknown:
  assumes "keeps_names ev N ref" "N (mt_machine s) cls u = None" "cls \<in> {''SR'', ''VDI''}"
  shows "\<exists>e. set_names ev cls blank (u, l, d) s = (Inl e, s)"
proof -
  obtain e where "mt_api ev (cls @ ''.get_by_uuid'') [u] (mt_machine s) = (Inl e, mt_machine s)"
    using assms unfolding keeps_names_def by blast
  then show ?thesis by (simp add: set_names_def bnd_def mt_call_def)
qed

lemma read_named_entry: "read_named (XElem n (entry_attrs x) ks) = Some x"
  by (cases x) (simp add: read_named_def entry_attrs_def)

lemma restore_vdi_run:
  assumes "keeps_names ev N ref"
  shows "\<exists>t. restore_vdi ev label (vdi_xml x) s = (Inr (), t) \<and> N (mt_machine t) = set_known (''VDI'', x) (N (mt_machine s))"
proof -
  obtain u l d where x: "x = (u, l, d)" by (cases x) auto
  have run: "restore_vdi ev label (vdi_xml x)
      = catch (set_names ev ''VDI'' [] x) (\<lambda>e. mt_complain (''Error setting VDI data for: '' @ fst x @ '' ('' @ label @ '')''))"
    by (simp add: restore_vdi_def vdi_xml_def read_named_entry)
  show ?thesis
  proof (cases "N (mt_machine s) ''VDI'' u")
    case None
    then obtain e where "set_names ev ''VDI'' [] x s = (Inl e, s)" using set_names_unknown [OF assms None, of "[]" l d] unfolding x by auto
    then have "restore_vdi ev label (vdi_xml x) s
        = (Inr (), s\<lparr>mt_err := mt_err s @ [''Error setting VDI data for: '' @ u @ '' ('' @ label @ '')'']\<rparr>)"
      unfolding run catch_def by (simp add: mt_complain_def modify_def x)
    with None show ?thesis by (simp add: set_known_def x)
  next
    case (Some ab)
    then obtain t where "set_names ev ''VDI'' [] x s = (Inr (), t)" "N (mt_machine t) = set_known (''VDI'', x) (N (mt_machine s))"
      using set_names_known [OF assms Some, of "[]" l d] unfolding x by auto
    then show ?thesis by (simp add: run catch_def)
  qed
qed

lemma for_each_effect:
  assumes "\<And>x s. x \<in> set xs \<Longrightarrow> I s \<Longrightarrow> \<exists>t. body x s = (Inr (), t) \<and> m t = fold f (g x) (m s) \<and> I t" "I s"
  shows "\<exists>t. for_each body xs s = (Inr (), t) \<and> m t = fold f (concat (map g xs)) (m s) \<and> I t"
  using assms
proof (induction xs arbitrary: s)
  case (Cons x xs)
  obtain t where t: "body x s = (Inr (), t)" "m t = fold f (g x) (m s)" "I t" using Cons.prems by (meson list.set_intros(1))
  obtain u where "for_each body xs t = (Inr (), u)" "m u = fold f (concat (map g xs)) (m t)" "I u"
    using Cons.IH [OF Cons.prems(1) t(3)] by (meson list.set_intros(2))
  with t show ?case by (auto simp: seq_def bnd_def)
qed (simp add: ret_def)

text \<open>What a restore of everything sets, in its order.\<close>

definition sr_actions :: "named \<times> named list \<Rightarrow> (string \<times> named) list" where
  "sr_actions e = (''SR'', fst e) # map (Pair ''VDI'') (snd e)"

definition actions :: "saved \<Rightarrow> (string \<times> named) list" where
  "actions es = concat (map sr_actions es)"

definition named_in :: "saved \<Rightarrow> string \<Rightarrow> named list" where
  "named_in es cls = map snd (filter (\<lambda>a. fst a = cls) (actions es))"

lemma set_known_fold:
  "fold set_known as N c u
    = (case N c u of None \<Rightarrow> None | Some old \<Rightarrow> Some (case map_of (rev (map snd (filter (\<lambda>a. fst a = c) as))) u of None \<Rightarrow> old | Some ld \<Rightarrow> ld))"
proof (induction as arbitrary: N)
  case (Cons a as)
  show ?case unfolding fold_Cons comp_apply Cons
    by (cases a) (auto simp: set_known_def put_name_def map_add_def split: option.split)
qed (simp split: option.split)

lemma actions_names:
  "fold set_known (actions es) N c u
    = (case N c u of None \<Rightarrow> None | Some old \<Rightarrow> Some (case map_of (rev (named_in es c)) u of None \<Rightarrow> old | Some ld \<Rightarrow> ld))"
  unfolding named_in_def by (rule set_known_fold)

lemma set_known_domain: "(fold set_known as N c u = None) = (N c u = None)"
  by (simp add: set_known_fold split: option.split)

lemma restore_sr_run:
  assumes "keeps_names ev N ref" "N (mt_machine s) ''SR'' (fst (fst e)) \<noteq> None" "selected sruuid (fst (fst e))"
  shows "\<exists>t. restore_sr ev sruuid (sr_xml e) s = (Inr (), t) \<and> N (mt_machine t) = fold set_known (sr_actions e) (N (mt_machine s))"
proof -
  obtain u l d vs where e: "e = ((u, l, d), vs)" by (metis prod.collapse)
  obtain t where t: "set_names ev ''SR'' '' '' (u, l, d) s = (Inr (), t)" "N (mt_machine t) = set_known (''SR'', u, l, d) (N (mt_machine s))"
    using set_names_known [OF assms(1)] assms(2) e by fastforce
  obtain w where w: "for_each (restore_vdi ev l) (map vdi_xml vs) t = (Inr (), w)"
      "N (mt_machine w) = fold set_known (map (Pair ''VDI'') vs) (N (mt_machine t))"
  proof -
    have each: "for_each (restore_vdi ev l) (map vdi_xml vs) = for_each (\<lambda>v. restore_vdi ev l (vdi_xml v)) vs"
      by (induction vs) simp_all
    have "\<exists>w. for_each (\<lambda>v. restore_vdi ev l (vdi_xml v)) vs t = (Inr (), w)
        \<and> N (mt_machine w) = fold set_known (concat (map (\<lambda>v. [(''VDI'', v)]) vs)) (N (mt_machine t)) \<and> True"
      by (rule for_each_effect [where m = "\<lambda>s. N (mt_machine s)" and I = "\<lambda>_. True"]) (simp_all add: restore_vdi_run [OF assms(1)])
    moreover have "concat (map (\<lambda>v. [(''VDI'', v)]) vs) = map (Pair ''VDI'') vs" by (induction vs) simp_all
    ultimately show thesis using that each by auto
  qed
  show ?thesis
    using t w assms(3) e by (auto simp: restore_sr_def sr_xml_def read_named_entry seq_def bnd_def catch_def sr_actions_def)
qed

lemma restore_main_run:
  fixes ev :: "'k meta_env"
  assumes "keeps_names ev N ref" "map_of (mt_files s) path = Some text" "xml_parse text = Some (saved_xml es)"
    and "\<And>e. e \<in> set es \<Longrightarrow> N (mt_machine s) ''SR'' (fst (fst e)) \<noteq> None"
  shows "\<exists>t. restore_main ev (Some path) None s = (Inr (), t) \<and> N (mt_machine t) = fold set_known (actions es) (N (mt_machine s))"
proof -
  obtain v k where login: "mt_api ev ''session.login_with_password'' [[], [], ''1.0'', ''xen-api-scripts-restore-sr-metadata''] (mt_machine s) = (Inr v, k)"
      "N k = N (mt_machine s)"
    using assms(1) unfolding keeps_names_def by blast
  let ?s = "s\<lparr>mt_machine := k\<rparr>"
  have known: "N (mt_machine s') ''SR'' u \<noteq> None" if "\<exists>as. N (mt_machine s') = fold set_known as (N k)" "N k ''SR'' u \<noteq> None" for s' :: "'k mt_state" and u
    using that by (elim exE) (simp only: set_known_domain simp_thms)
  have each: "for_each (restore_sr ev None) (map sr_xml es') = for_each (\<lambda>e. restore_sr ev None (sr_xml e)) es'" for es'
    by (induction es') simp_all
  have "\<exists>t. for_each (\<lambda>e. restore_sr ev None (sr_xml e)) es ?s = (Inr (), t)
      \<and> N (mt_machine t) = fold set_known (concat (map sr_actions es)) (N (mt_machine ?s)) \<and> (\<exists>as. N (mt_machine t) = fold set_known as (N k))"
  proof (rule for_each_effect [where m = "\<lambda>s. N (mt_machine s)" and I = "\<lambda>s'. \<exists>as. N (mt_machine s') = fold set_known as (N k)"])
    fix e and s' :: "'k mt_state" assume e: "e \<in> set es" and I: "\<exists>as. N (mt_machine s') = fold set_known as (N k)"
    have "N (mt_machine s') ''SR'' (fst (fst e)) \<noteq> None" using known [OF I] assms(4) [OF e] login(2) by simp
    from restore_sr_run [OF assms(1) this] obtain t where t: "restore_sr ev None (sr_xml e) s' = (Inr (), t)"
        "N (mt_machine t) = fold set_known (sr_actions e) (N (mt_machine s'))" by (auto simp: selected_def)
    moreover from I t(2) have "\<exists>as. N (mt_machine t) = fold set_known as (N k)" by (metis fold_append comp_apply)
    ultimately show "\<exists>t. restore_sr ev None (sr_xml e) s' = (Inr (), t) \<and> N (mt_machine t) = fold set_known (sr_actions e) (N (mt_machine s'))
        \<and> (\<exists>as. N (mt_machine t) = fold set_known as (N k))" by blast
  next
    show "\<exists>as. N (mt_machine ?s) = fold set_known as (N k)" by (rule exI [of _ "[]"]) simp
  qed
  then obtain t where t: "for_each (restore_sr ev None) (map sr_xml es) ?s = (Inr (), t)"
      "N (mt_machine t) = fold set_known (actions es) (N k)" by (auto simp: each actions_def)
  have "N (snd (mt_api ev ''session.logout'' [] (mt_machine t))) = N (mt_machine t)" using assms(1) by (simp add: keeps_names_def)
  then show ?thesis
    using t login assms(2,3) by (simp add: restore_main_def mt_session_def restore_body_def seq_def bnd_def mt_call_def gets_def saved_xml_def split_beta)
qed

section \<open>Both\<close>

definition named_chars :: "named \<Rightarrow> bool" where
  "named_chars x \<longleftrightarrow> (case x of (u, l, d) \<Rightarrow> list_all xml_char (u @ l @ d))"

definition norm_named :: "named \<Rightarrow> named" where
  "norm_named x = (case x of (u, l, d) \<Rightarrow> (attr_norm u, attr_norm l, attr_norm d))"

definition norm_saved :: "saved \<Rightarrow> saved" where
  "norm_saved es = map (\<lambda>(x, vs). (norm_named x, map norm_named vs)) es"

lemma xml_norm_saved: "xml_norm (saved_xml es) = saved_xml (norm_saved es)"
proof -
  have a: "map (\<lambda>(k, v). (k, attr_norm v)) (entry_attrs x) = entry_attrs (norm_named x)" for x
    by (simp add: entry_attrs_def norm_named_def split: prod.split)
  show ?thesis by (simp add: saved_xml_def sr_xml_def vdi_xml_def norm_saved_def a split_beta)
qed

lemma xml_wf_saved:
  assumes "list_all (\<lambda>(x, vs). named_chars x \<and> list_all named_chars vs) es"
  shows "xml_wf (saved_xml es)"
proof -
  have names: "xml_name ''meta''" "xml_name ''sr''" "xml_name ''vdi''" "xml_name ''uuid''" "xml_name ''name_label''" "xml_name ''name_description''"
    by code_simp+
  have vdi: "xml_wf (vdi_xml x)" if "named_chars x" for x
    using that names by (cases x) (simp add: vdi_xml_def entry_attrs_def named_chars_def)
  have sr: "xml_wf (sr_xml (x, vs))" if "named_chars x" "list_all xml_wf (map vdi_xml vs)" for x vs
    using that names by (cases x) (simp add: sr_xml_def entry_attrs_def named_chars_def)
  have "xml_wf (sr_xml e)" if "e \<in> set es" for e
  proof -
    obtain x vs where e: "e = (x, vs)" by fastforce
    with that assms have "named_chars x" "list_all named_chars vs" by (auto simp: list_all_iff)
    with vdi show "xml_wf (sr_xml e)" unfolding e by (intro sr) (auto simp: list_all_iff)
  qed
  with names show ?thesis by (simp add: saved_xml_def list_all_iff)
qed

text \<open>
  C26: A backup that is restored, in the same or another pool, gives every repository
  of the backup, and every disk of it whose record could be read and that the
  pool knows, the name and the description it had, but that tabs and ends of lines
  have become blanks; all other names stay.
\<close>

theorem backup_restored:
  assumes "answers_backup old recs disk" and "mt_writable old path"
    and "list_all (\<lambda>(x, vs). named_chars x \<and> list_all named_chars vs) (saved_of recs disk)"
    and "keeps_names ev N ref"
    and "\<And>x vs. (x, vs) \<in> set (norm_saved (saved_of recs disk)) \<Longrightarrow> N (mt_machine w) ''SR'' (fst x) \<noteq> None"
  shows "\<exists>s' t. backup_main old (Some path) s = (Inr (), s') \<and> restore_main ev (Some path) None (w\<lparr>mt_files := mt_files s'\<rparr>) = (Inr (), t)
    \<and> (\<forall>cls u. N (mt_machine t) cls u = (case N (mt_machine w) cls u of None \<Rightarrow> None
         | Some x \<Rightarrow> Some (case map_of (rev (named_in (norm_saved (saved_of recs disk)) cls)) u of None \<Rightarrow> x | Some ld \<Rightarrow> ld)))"
proof -
  let ?es = "saved_of recs disk"
  obtain s' where s': "backup_main old (Some path) s = (Inr (), s')" "mt_files s' = AList.update path (writexml (saved_xml ?es)) (mt_files s)"
    using backup_main_run [OF assms(1,2)] by blast
  have "xml_parse (writexml (saved_xml ?es)) = Some (saved_xml (norm_saved ?es))"
    using xml_roundtrip [OF xml_wf_saved [OF assms(3)]] by (simp add: xml_norm_saved)
  then obtain t where "restore_main ev (Some path) None (w\<lparr>mt_files := mt_files s'\<rparr>) = (Inr (), t)"
      "N (mt_machine t) = fold set_known (actions (norm_saved ?es)) (N (mt_machine w))"
    using restore_main_run [OF assms(4), of "w\<lparr>mt_files := mt_files s'\<rparr>" path _ "norm_saved ?es"] assms(5)
    by (fastforce simp: s'(2) update_conv')
  with s'(1) show ?thesis by (intro exI [of _ s'] exI [of _ t]) (simp add: actions_names)
qed

text \<open>The witness: a repository with a disk that can be read and one that cannot.\<close>

definition demo_records :: "(string \<times> (string \<times> mval) list) list" where
  "demo_records = [(''r'', [(''uuid'', MStr ''s1''), (''name_label'', MStr ''A <b> & c''), (''VDIs'', MList [MStr ''v'', MStr ''w''])])]"

definition demo_disk :: "string \<Rightarrow> script_error + mval" where
  "demo_disk ref = (if ref = ''v'' then Inr (MRec [(''uuid'', MStr ''d1''), (''name_label'', MStr [CHR ''x'', CHR 0x0A, CHR ''y'']), (''name_description'', MStr [])])
                    else Inl (S_Failure ''HANDLE_INVALID''))"

definition demo_old :: "unit meta_env" where
  "demo_old = \<lparr>mt_api = (\<lambda>meth args k.
      (if meth = ''SR.get_all_records'' then Inr (MRec (map (\<lambda>(ref, r). (ref, MRec r)) demo_records))
       else if meth = ''VDI.get_record'' then demo_disk (hd args) else Inr (MStr []), k)), mt_writable = (\<lambda>p. True)\<rparr>"

text \<open>A server whose state is what it knows; a reference is the identifier.\<close>

definition demo_set :: "names \<Rightarrow> string \<Rightarrow> string \<Rightarrow> (string \<times> string \<Rightarrow> string \<times> string) \<Rightarrow> (script_error + mval) \<times> names" where
  "demo_set k cls u f = (case k cls u of None \<Rightarrow> (Inl (S_Failure ''UUID_INVALID''), k) | Some x \<Rightarrow> (Inr (MStr []), put_name k cls u (f x)))"

definition demo_get :: "names \<Rightarrow> string \<Rightarrow> string \<Rightarrow> (script_error + mval) \<times> names" where
  "demo_get k cls u = (case k cls u of None \<Rightarrow> (Inl (S_Failure ''UUID_INVALID''), k) | Some x \<Rightarrow> (Inr (MStr u), k))"

definition demo_new :: "names meta_env" where
  "demo_new = \<lparr>mt_api = (\<lambda>meth args k.
      if meth = ''SR.get_by_uuid'' then demo_get k ''SR'' (hd args) else if meth = ''VDI.get_by_uuid'' then demo_get k ''VDI'' (hd args)
      else if meth = ''SR.set_name_label'' then demo_set k ''SR'' (hd args) (\<lambda>x. (args ! 1, snd x))
      else if meth = ''VDI.set_name_label'' then demo_set k ''VDI'' (hd args) (\<lambda>x. (args ! 1, snd x))
      else if meth = ''SR.set_name_description'' then demo_set k ''SR'' (hd args) (\<lambda>x. (fst x, args ! 1))
      else if meth = ''VDI.set_name_description'' then demo_set k ''VDI'' (hd args) (\<lambda>x. (fst x, args ! 1))
      else (Inr (MStr []), k)), mt_writable = (\<lambda>p. True)\<rparr>"

definition demo_names :: names where
  "demo_names cls u = (if cls = ''SR'' \<and> u = ''s1'' then Some (''new'', ''n'') else if cls = ''VDI'' \<and> (u = ''d1'' \<or> u = ''d2'') then Some (''disk'', ''d'') else None)"

lemma backup_restored_witness:
  "\<exists>s' t. backup_main demo_old (Some ''/b'') \<lparr>mt_machine = (), mt_files = [], mt_out = [], mt_err = []\<rparr> = (Inr (), s')
    \<and> restore_main demo_new (Some ''/b'') None \<lparr>mt_machine = demo_names, mt_files = mt_files s', mt_out = [], mt_err = []\<rparr> = (Inr (), t)
    \<and> mt_machine t ''SR'' ''s1'' = Some (''A <b> & c'', []) \<and> mt_machine t ''VDI'' ''d1'' = Some (''x y'', [])
    \<and> mt_machine t ''VDI'' ''d2'' = Some (''disk'', ''d'')"
proof -
  let ?s = "\<lparr>mt_machine = (), mt_files = [], mt_out = [], mt_err = []\<rparr>"
  let ?w = "\<lparr>mt_machine = demo_names, mt_files = [], mt_out = [], mt_err = []\<rparr>"
  have saved: "saved_of demo_records demo_disk = [((''s1'', ''A <b> & c'', []), [(''d1'', [CHR ''x'', CHR 0x0A, CHR ''y''], [])])]"
    by (simp add: saved_of_def demo_records_def demo_disk_def kept_def vdi_refs_def named_entry_def field_def)
  have norm: "norm_saved (saved_of demo_records demo_disk) = [((''s1'', ''A <b> & c'', []), [(''d1'', ''x y'', [])])]"
    unfolding saved by code_simp
  have answers: "answers_backup demo_old demo_records demo_disk"
    by (simp add: answers_backup_def demo_old_def demo_records_def demo_disk_def sr_record_def named_record_def text_field_def vdi_refs_def)
  have keeps: "keeps_names demo_new (\<lambda>k. k) (\<lambda>cls u. u)"
    by (simp add: keeps_names_def demo_new_def demo_get_def demo_set_def)
  have chars: "list_all (\<lambda>(x, vs). named_chars x \<and> list_all named_chars vs) (saved_of demo_records demo_disk)"
    unfolding saved by code_simp
  have known: "mt_machine ?w ''SR'' (fst x) \<noteq> None" if "(x, vs) \<in> set (norm_saved (saved_of demo_records demo_disk))" for x vs
    using that by (simp add: norm demo_names_def)
  have "\<exists>s' t. backup_main demo_old (Some ''/b'') ?s = (Inr (), s') \<and> restore_main demo_new (Some ''/b'') None (?w\<lparr>mt_files := mt_files s'\<rparr>) = (Inr (), t)
    \<and> (\<forall>cls u. (\<lambda>k. k) (mt_machine t) cls u = (case (\<lambda>k. k) (mt_machine ?w) cls u of None \<Rightarrow> None
         | Some x \<Rightarrow> Some (case map_of (rev (named_in (norm_saved (saved_of demo_records demo_disk)) cls)) u of None \<Rightarrow> x | Some ld \<Rightarrow> ld)))"
    by (rule backup_restored [OF answers _ chars keeps]) (use known in \<open>simp_all add: demo_old_def\<close>)
  then obtain s' t where "backup_main demo_old (Some ''/b'') ?s = (Inr (), s')"
      "restore_main demo_new (Some ''/b'') None (?w\<lparr>mt_files := mt_files s'\<rparr>) = (Inr (), t)"
    and names: "\<forall>cls u. mt_machine t cls u = (case mt_machine ?w cls u of None \<Rightarrow> None
         | Some x \<Rightarrow> Some (case map_of (rev (named_in (norm_saved (saved_of demo_records demo_disk)) cls)) u of None \<Rightarrow> x | Some ld \<Rightarrow> ld))"
    by blast
  then show ?thesis
    by (intro exI [of _ s'] exI [of _ t]) (simp add: norm named_in_def actions_def sr_actions_def demo_names_def)
qed

text \<open>A backup that cannot read the records has already emptied the file.\<close>

lemma failed_backup_empties_file:
  assumes "mt_writable ev path" and "mt_api ev ''session.login_with_password'' [[], [], ''1.0'', ''xen-api-scripts-backup-sr-metadata''] (mt_machine s) = (Inr v, k)"
    and "mt_api ev ''SR.get_all_records'' [] k = (Inl e, k')"
  shows "\<exists>t. backup_main ev (Some path) s = (Inl (Meta_Api e), t) \<and> map_of (mt_files t) path = Some []"
  using assms
  by (simp add: backup_main_def mt_session_def backup_body_def seq_def bnd_def mt_call_def require_def set_contents_def modify_def backup_tree_def
      update_conv' split: prod.split)

end
