(* ===== verification/Metrics_Graph.thy ===== *)
theory Metrics_Graph
  imports Api_Script Py_Json
begin

text \<open>
  The script \<^verbatim>\<open>python3/libexec/metricsgraph.py\<close>, which prints the running objects of
  a pool with their metrics as a graph, and that the graph is complete.
\<close>

type_synonym records = "(string \<times> mval) list"

section \<open>Collecting records\<close>

definition get_records :: "'k api_env \<Rightarrow> string list \<Rightarrow> string \<Rightarrow> ('k, records) sc_op" where
  "get_records ev object_set type_string =
     collect (\<lambda>x. bnd (api_op ev (type_string @ ''.get_record'') [x]) (\<lambda>r. ret (x, r))) (api_order ev object_set)"

definition print_names :: "records \<Rightarrow> string \<Rightarrow> ('k, unit) sc_op" where
  "print_names dictionary title =
     seq (say ''/*'')
     (seq (bnd (lift_sum (smap (\<lambda>(x, r). get_or ''name_label'' x r) dictionary)) (\<lambda>names.
             say (title @ '' : '' @ py_join '', '' names)))
          (say ''*/''))"

text \<open>What a record refers to by a key: a list of references, or one.\<close>

definition referred :: "string \<Rightarrow> bool \<Rightarrow> mval \<Rightarrow> script_error + string list" where
  "referred key_name key_is_list v =
     sbind (item key_name v) (\<lambda>key. if key_is_list then as_refs key else sbind (as_str key) (\<lambda>x. Inr [x]))"

definition set_from_key_in_dictionary_of_records :: "records \<Rightarrow> string \<Rightarrow> bool \<Rightarrow> script_error + string list" where
  "set_from_key_in_dictionary_of_records record_dict key_name key_is_list =
     sbind (smap (\<lambda>(x, v). referred key_name key_is_list v) record_dict) (\<lambda>ks. Inr (remdups (concat ks)))"

definition chase_key :: "'k api_env \<Rightarrow> records \<Rightarrow> string \<Rightarrow> string \<Rightarrow> bool \<Rightarrow> ('k, records) sc_op" where
  "chase_key ev record_dictionary type_name key_name key_is_list =
     bnd (lift_sum (set_from_key_in_dictionary_of_records record_dictionary key_name key_is_list)) (\<lambda>new_set.
     get_records ev new_set type_name)"

section \<open>Metrics\<close>

text \<open>A name, and the entries of the label.\<close>

type_synonym data = "string \<times> (string \<times> string) list"

definition host_data :: "'k api_env \<Rightarrow> string \<Rightarrow> mval \<Rightarrow> ('k, data) sc_op" where
  "host_data ev ref record =
     bnd (lift_sum (sbind (item ''name_label'' record) as_str)) (\<lambda>name.
     bnd (api_op ev ''host.get_metrics'' [ref]) (\<lambda>m. bnd (lift_sum (as_str m)) (\<lambda>m.
     bnd (api_op ev ''host_metrics.get_record'' [m]) (\<lambda>metrics.
     bnd (api_op ev ''host.get_host_CPUs'' [ref]) (\<lambda>cs. bnd (lift_sum (as_refs cs)) (\<lambda>cs.
     bnd (collect (\<lambda>x. api_op ev ''host_cpu.get_utilisation'' [x]) cs) (\<lambda>us.
     bnd (lift_sum (smap (\<lambda>u. sbind (as_float u) (\<lambda>x. Inr (fixed2 x))) us)) (\<lambda>cpus.
     bnd (lift_sum (sbind (sbind (item ''memory_free'' metrics) to_float) (\<lambda>free.
                    sbind (sbind (item ''memory_total'' metrics) to_float) (\<lambda>total. float_div free total)))) (\<lambda>memory.
     ret (name, [(''cpus'', py_join '' '' cpus), (''memory'', fixed2 memory)]))))))))))"

text \<open>\<^verbatim>\<open>float(1024 * 1024)\<close>\<close>

definition mebibyte :: f64 where
  "mebibyte = mk_float False (1043 * 2 ^ 52)"

definition vm_data :: "'k api_env \<Rightarrow> string \<Rightarrow> mval \<Rightarrow> ('k, data) sc_op" where
  "vm_data ev ref record =
     bnd (lift_sum (sbind (item ''name_label'' record) as_str)) (\<lambda>name.
     bnd (api_op ev ''VM.get_metrics'' [ref]) (\<lambda>m. bnd (lift_sum (as_str m)) (\<lambda>m.
     bnd (api_op ev ''VM_metrics.get_record'' [m]) (\<lambda>metrics.
     bnd (lift_sum (sbind (sbind (item ''VCPUs_utilisation'' metrics) as_rec) (\<lambda>us.
                    smap (\<lambda>(k, u). sbind (as_float u) (\<lambda>x. Inr (fixed2 x))) us))) (\<lambda>cpus.
     bnd (lift_sum (sbind (sbind (item ''memory_actual'' metrics) to_float) (\<lambda>x.
                    float_div x mebibyte))) (\<lambda>memory.
     ret (name, [(''cpus'', py_join '' '' cpus), (''memory'', float_repr memory @ ''M'')])))))))"

text \<open>The data sources of the owner whose names begin with those of the device.\<close>

definition sources_of :: "string \<Rightarrow> mval \<Rightarrow> script_error + (string \<times> mval) list" where
  "sources_of metric_name sources =
     sbind (as_list sources) (\<lambda>xs.
     sbind (smap (\<lambda>x. sbind (sbind (item ''name_label'' x) as_str) (\<lambda>n. Inr (n, x))) xs) (\<lambda>nxs.
     sbind (smap (\<lambda>(n, x). sbind (item ''value'' x) (\<lambda>v. Inr (n, v))) (filter (\<lambda>(n, x). begins metric_name n) nxs)) (\<lambda>nvs.
     Inr (fold (\<lambda>(n, v). AList.update n v) nvs []))))"

definition io_data :: "'k api_env \<Rightarrow> string \<Rightarrow> mval \<Rightarrow> string \<Rightarrow> string \<Rightarrow> string \<Rightarrow> string \<Rightarrow> ('k, data) sc_op" where
  "io_data ev ref record type_name data_owner read_suffix write_suffix =
     bnd (api_op ev (type_name @ ''.get_'' @ data_owner) [ref]) (\<lambda>b. bnd (lift_sum (as_str b)) (\<lambda>belongs_to.
     bnd (api_op ev (type_name @ ''.get_device'') [ref]) (\<lambda>d. bnd (lift_sum (as_str d)) (\<lambda>device_number.
     (let metric_name = py_lower type_name @ ''_'' @ device_number;
          entry = (\<lambda>metrics suffix. sbind (sbind (item (metric_name @ ''_'' @ suffix) (MRec metrics)) as_float) (\<lambda>x. Inr (fixed2 x @ ''k''))) in
      bnd (api_op ev (data_owner @ ''.get_data_sources'') [belongs_to]) (\<lambda>sources.
      bnd (lift_sum (sources_of metric_name sources)) (\<lambda>metrics.
      bnd (lift_sum (entry metrics read_suffix)) (\<lambda>r.
      bnd (lift_sum (entry metrics write_suffix)) (\<lambda>w.
      ret (py_lower type_name, [(''read'', r), (''write'', w)])))))))))) "

section \<open>The graph\<close>

definition quoted :: "string \<Rightarrow> string" where
  "quoted t = [dquote] @ t @ [dquote]"

definition node_line :: "string \<Rightarrow> string \<Rightarrow> string" where
  "node_line ref label = quoted ref @ '' [label='' @ quoted label @ ''];''"

definition edge_line :: "string \<Rightarrow> string \<Rightarrow> string" where
  "edge_line a b = quoted a @ '' -> '' @ quoted b @ '';''"

definition print_nodes :: "records \<Rightarrow> ('k, unit) sc_op" where
  "print_nodes = for_each (\<lambda>(x, r). bnd (lift_sum (get_or ''name_label'' ''?'' r)) (\<lambda>label. say (node_line x label)))"

definition label_of :: "data \<Rightarrow> string" where
  "label_of d = (let br = [bslash] @ ''n'' in fst d @ br @ py_join br (map (\<lambda>(k, v). k @ ''='' @ v) (snd d)))"

definition print_metric_nodes :: "records \<Rightarrow> (string \<Rightarrow> mval \<Rightarrow> ('k, data) sc_op) \<Rightarrow> ('k, unit) sc_op" where
  "print_metric_nodes dic metricfn =
     for_each (\<lambda>(ref, record). bnd (metricfn ref record) (\<lambda>d. say (node_line ref (label_of d)))) dic"

definition print_edges :: "records \<Rightarrow> string \<Rightarrow> bool \<Rightarrow> ('k, unit) sc_op" where
  "print_edges record_dictionary key key_is_list =
     for_each (\<lambda>(k, v). bnd (lift_sum (referred key key_is_list v)) (for_each (\<lambda>x. say (edge_line k x)))) record_dictionary"

text \<open>The three parts of what is printed.\<close>

definition graph_comments :: "records \<Rightarrow> records \<Rightarrow> records \<Rightarrow> records \<Rightarrow> records \<Rightarrow> records \<Rightarrow> ('k, unit) sc_op" where
  "graph_comments hosts vms vifs vbds networks pifs =
     seq (print_names hosts ''hosts'')
     (seq (print_names vms ''resident VMs'')
     (seq (print_names vifs ''active VIFs'')
     (seq (print_names vbds ''active VBDs'')
     (seq (print_names networks ''active networks'')
     (seq (print_names pifs ''active PIFs'')
     (seq (say ''digraph active_objects {'')
          (say (''node [shape='' @ quoted ''rect'' @ ''];''))))))))"

definition graph_nodes :: "'k api_env \<Rightarrow> records \<Rightarrow> records \<Rightarrow> records \<Rightarrow> records \<Rightarrow> records \<Rightarrow> records \<Rightarrow> ('k, unit) sc_op" where
  "graph_nodes ev hosts vms vifs vbds networks pifs =
     seq (print_metric_nodes hosts (host_data ev))
     (seq (print_metric_nodes vms (vm_data ev))
     (seq (print_metric_nodes vifs (\<lambda>ref r. io_data ev ref r ''VIF'' ''VM'' ''rx'' ''tx''))
     (seq (print_metric_nodes vbds (\<lambda>ref r. io_data ev ref r ''VBD'' ''VM'' ''read'' ''write''))
     (seq (print_metric_nodes pifs (\<lambda>ref r. io_data ev ref r ''PIF'' ''host'' ''rx'' ''tx''))
          (print_nodes networks)))))"

definition graph_edges :: "records \<Rightarrow> records \<Rightarrow> records \<Rightarrow> records \<Rightarrow> ('k, unit) sc_op" where
  "graph_edges hosts vms vifs networks =
     seq (print_edges hosts ''resident_VMs'' True)
     (seq (print_edges vms ''VIFs'' True)
     (seq (print_edges vms ''VBDs'' True)
     (seq (print_edges vifs ''network'' False)
          (print_edges networks ''PIFs'' True))))"

definition graph_body :: "'k api_env \<Rightarrow> ('k, unit) sc_op" where
  "graph_body ev =
     bnd (api_op ev ''host.get_all'' []) (\<lambda>hs. bnd (lift_sum (as_refs hs)) (\<lambda>hs.
     bnd (get_records ev (remdups hs) ''host'') (\<lambda>host_dic.
     bnd (chase_key ev host_dic ''VM'' ''resident_VMs'' True) (\<lambda>resident_vms_dic.
     bnd (chase_key ev resident_vms_dic ''VIF'' ''VIFs'' True) (\<lambda>active_vifs_dic.
     bnd (chase_key ev resident_vms_dic ''VBD'' ''VBDs'' True) (\<lambda>active_vbds_dic.
     bnd (chase_key ev active_vifs_dic ''network'' ''network'' False) (\<lambda>active_networks_dic.
     bnd (chase_key ev active_networks_dic ''PIF'' ''PIFs'' True) (\<lambda>active_pifs_dic.
     seq (graph_comments host_dic resident_vms_dic active_vifs_dic active_vbds_dic active_networks_dic active_pifs_dic)
     (seq (graph_nodes ev host_dic resident_vms_dic active_vifs_dic active_vbds_dic active_networks_dic active_pifs_dic)
     (seq (graph_edges host_dic resident_vms_dic active_vifs_dic active_networks_dic)
          (say ''}''))))))))))) "

definition graph_main :: "'k api_env \<Rightarrow> ('k, unit) sc_op" where
  "graph_main ev = login_session ev ''newmetricsgraph-script'' (graph_body ev)"

end
