(* ===== verification/Metrics_Proofs.thy ===== *)
theory Metrics_Proofs
  imports Metrics_Graph
begin

text \<open>
  The graph of the running objects is closed: its edges join nodes that are
  printed, and every node but the hosts is reached by an edge.
\<close>

section \<open>What is printed\<close>

text \<open>Calls of the API print nothing.\<close>

abbreviation quiet :: "('k, 'a) sc_op \<Rightarrow> bool" where
  "quiet m \<equiv> \<forall>ls. keeps (\<lambda>s. sc_lines s = ls) m"

lemma keeps_api [keeps_intros]: "keeps (\<lambda>s. sc_lines s = ls) (api_op ev m xs)"
  by (rule keepsI) (simp add: api_op_def split: prod.split)

lemma quiet_host_data: "quiet (host_data ev ref r)"
  unfolding host_data_def by (intro allI keeps_intros)

lemma quiet_vm_data: "quiet (vm_data ev ref r)"
  unfolding vm_data_def by (intro allI keeps_intros)

lemma quiet_io_data: "quiet (io_data ev ref r a b c d)"
  unfolding io_data_def Let_def
  by (rule allI) (rule keeps_bnd keeps_api keeps_lift_sum keeps_ret)+

lemma quiet_get_records: "quiet (get_records ev xs ty)"
  unfolding get_records_def by (intro allI keeps_intros)

lemma quiet_chase_key: "quiet (chase_key ev d ty k b)"
  unfolding chase_key_def by (intro allI keeps_intros quiet_get_records [rule_format])

lemma quietD: "quiet m \<Longrightarrow> m s = (r, t) \<Longrightarrow> sc_lines t = sc_lines s"
  by (drule spec [of _ "sc_lines s"], drule keepsD [of _ _ s]) simp_all

definition appends :: "(string list \<Rightarrow> bool) \<Rightarrow> ('k, unit) sc_op \<Rightarrow> bool" where
  "appends P m \<longleftrightarrow> (\<forall>s t. m s = (Inr (), t) \<longrightarrow> (\<exists>ls. sc_lines t = sc_lines s @ ls \<and> P ls))"

lemma appendsI: "(\<And>s t. m s = (Inr (), t) \<Longrightarrow> \<exists>ls. sc_lines t = sc_lines s @ ls \<and> P ls) \<Longrightarrow> appends P m"
  by (simp add: appends_def)

lemma appendsD:
  assumes "appends P m" "m s = (Inr (), t)"
  obtains ls where "sc_lines t = sc_lines s @ ls" "P ls"
  using assms by (auto simp: appends_def)

lemma appends_say: "appends (\<lambda>ls. ls = [l]) (say l)"
  by (auto simp: appends_def say_def modify_def)

lemma appends_seq:
  assumes "appends P m" "appends Q k" "\<And>a b. P a \<Longrightarrow> Q b \<Longrightarrow> R (a @ b)"
  shows "appends R (seq m k)"
proof (rule appendsI)
  fix s t assume "seq m k s = (Inr (), t)"
  then obtain s' where "m s = (Inr (), s')" "k s' = (Inr (), t)"
    unfolding seq_def by (elim bnd_InrE) simp
  with assms(1,2) obtain a b where "sc_lines s' = sc_lines s @ a" "P a" "sc_lines t = sc_lines s' @ b" "Q b"
    by (metis appendsD)
  with assms(3) show "\<exists>ls. sc_lines t = sc_lines s @ ls \<and> R ls" by auto
qed

lemma appends_bnd_quiet:
  assumes "quiet m" "\<And>x s t. m s = (Inr x, t) \<Longrightarrow> appends P (f x)"
  shows "appends P (bnd m f)"
proof (rule appendsI)
  fix s t assume "bnd m f s = (Inr (), t)"
  then obtain x s' where m: "m s = (Inr x, s')" "f x s' = (Inr (), t)" by (elim bnd_InrE)
  from assms(2) [OF m(1)] m(2) quietD [OF assms(1) m(1)]
  show "\<exists>ls. sc_lines t = sc_lines s @ ls \<and> P ls" by (metis appendsD)
qed

lemma appends_for_each:
  assumes "\<And>x. x \<in> set xs \<Longrightarrow> appends (P x) (f x)"
  shows "appends (\<lambda>ls. \<exists>lss. ls = concat lss \<and> list_all2 P xs lss) (for_each f xs)"
  using assms
proof (induction xs)
  case Nil
  show ?case by (auto simp: appends_def ret_def)
next
  case (Cons x xs)
  then have "appends (P x) (f x)" "appends (\<lambda>ls. \<exists>lss. ls = concat lss \<and> list_all2 P xs lss) (for_each f xs)" by simp_all
  then show ?case
    unfolding for_each.simps
    by (rule appends_seq) (metis concat.simps(2) list_all2_Cons)
qed

lemma appends_lift:
  assumes "\<And>x. r = Inr x \<Longrightarrow> appends P (f x)"
  shows "appends P (bnd (lift_sum r) f)"
  using assms by (cases r) (auto simp: appends_def bnd_def lift_sum_def)

lemma appends_mono: "appends P m \<Longrightarrow> (\<And>ls. P ls \<Longrightarrow> Q ls) \<Longrightarrow> appends Q m"
  by (auto simp: appends_def) blast

definition nodes_of :: "records \<Rightarrow> string list \<Rightarrow> bool" where
  "nodes_of dic ls \<longleftrightarrow> (\<exists>ns. ls = map (\<lambda>(x, l). node_line x l) ns \<and> map fst ns = map fst dic)"

lemma nodes_of_append: "nodes_of d a \<Longrightarrow> nodes_of e b \<Longrightarrow> nodes_of (d @ e) (a @ b)"
  unfolding nodes_of_def by (metis map_append)

lemma nodes_of_rows:
  assumes "list_all2 (\<lambda>(x, r) ls. \<exists>l. ls = [node_line x l]) dic lss"
  shows "nodes_of dic (concat lss)"
  using assms
proof (induction dic lss rule: list_all2_induct)
  case (Cons xr dic ls lss)
  then obtain l where "ls = [node_line (fst xr) l]" by (auto split: prod.splits)
  then have "nodes_of [xr] ls" by (auto simp: nodes_of_def intro: exI [of _ "[(fst xr, l)]"])
  from nodes_of_append [OF this Cons(3)] show ?case by simp
qed (simp add: nodes_of_def)

lemma appends_metric_nodes:
  assumes "\<And>ref r. quiet (f ref r)"
  shows "appends (nodes_of dic) (print_metric_nodes dic f)"
  unfolding print_metric_nodes_def
  by (rule appends_mono [OF appends_for_each [where P = "\<lambda>(x, r) ls. \<exists>l. ls = [node_line x l]"]])
     (auto intro!: appends_bnd_quiet [OF assms] appends_mono [OF appends_say] nodes_of_rows)

lemma appends_nodes: "appends (nodes_of dic) (print_nodes dic)"
  unfolding print_nodes_def
  by (rule appends_mono [OF appends_for_each [where P = "\<lambda>(x, r) ls. \<exists>l. ls = [node_line x l]"]])
     (auto intro!: appends_lift appends_mono [OF appends_say] nodes_of_rows)

lemma nodes_seq:
  assumes "appends (nodes_of d) m" "appends (nodes_of e) k"
  shows "appends (nodes_of (d @ e)) (seq m k)"
  using assms by (rule appends_seq) (simp add: nodes_of_append)

lemma appends_graph_nodes:
  "appends (nodes_of (hosts @ vms @ vifs @ vbds @ pifs @ networks)) (graph_nodes ev hosts vms vifs vbds networks pifs)"
  unfolding graph_nodes_def
  by (intro nodes_seq appends_metric_nodes appends_nodes quiet_host_data quiet_vm_data quiet_io_data)

abbreviation lines :: "nat \<Rightarrow> string list \<Rightarrow> bool" where
  "lines n ls \<equiv> length ls = n"

lemma lines_seq:
  assumes "appends (lines i) m" "appends (lines j) k"
  shows "appends (lines (i + j)) (seq m k)"
  using assms by (rule appends_seq) (simp add: length_append)

lemma lines_say: "appends (lines 1) (say l)"
  by (rule appends_mono [OF appends_say]) simp

lemma lines_names: "appends (lines (1 + (1 + 1))) (print_names dic title)"
  unfolding print_names_def by (intro lines_seq lines_say appends_lift)

lemma appends_comments: "appends (lines 20) (graph_comments hosts vms vifs vbds networks pifs)"
  unfolding graph_comments_def
  by (rule appends_mono, (rule lines_seq lines_names lines_say)+) simp

text \<open>The references of a dictionary of records as pairs.\<close>

definition edges_of :: "string \<Rightarrow> bool \<Rightarrow> records \<Rightarrow> (string \<times> string) list" where
  "edges_of key b dic = concat (map (\<lambda>(k, v). case referred key b v of Inr xs \<Rightarrow> map (Pair k) xs | Inl _ \<Rightarrow> []) dic)"

definition edge_lines :: "(string \<times> string) list \<Rightarrow> string list \<Rightarrow> bool" where
  "edge_lines es ls \<longleftrightarrow> ls = map (\<lambda>(a, b). edge_line a b) es"

lemma edges_seq:
  assumes "appends (edge_lines d) m" "appends (edge_lines e) k"
  shows "appends (edge_lines (d @ e)) (seq m k)"
  using assms by (rule appends_seq) (simp add: edge_lines_def)

lemma appends_edge_row: "appends (edge_lines (map (Pair k) xs)) (for_each (\<lambda>x. say (edge_line k x)) xs)"
proof (induction xs)
  case Nil
  show ?case by (auto simp: appends_def edge_lines_def ret_def)
next
  case (Cons x xs)
  have "appends (edge_lines [(k, x)]) (say (edge_line k x))"
    by (rule appends_mono [OF appends_say]) (simp add: edge_lines_def)
  from edges_seq [OF this Cons] show ?case by simp
qed

lemma appends_edges: "appends (edge_lines (edges_of key b dic)) (print_edges dic key b)"
proof (induction dic)
  case Nil
  show ?case by (auto simp: appends_def edge_lines_def edges_of_def print_edges_def ret_def)
next
  case (Cons kv dic)
  obtain k v where kv: "kv = (k, v)" by (cases kv)
  have "appends (edge_lines (edges_of key b [(k, v)])) (bnd (lift_sum (referred key b v)) (for_each (\<lambda>x. say (edge_line k x))))"
    by (rule appends_lift) (simp add: edges_of_def appends_edge_row)
  from edges_seq [OF this Cons] show ?case
    by (simp add: edges_of_def print_edges_def kv)
qed

lemma appends_graph_edges:
  "appends (edge_lines (edges_of ''resident_VMs'' True hosts @ edges_of ''VIFs'' True vms @ edges_of ''VBDs'' True vms
     @ edges_of ''network'' False vifs @ edges_of ''PIFs'' True networks)) (graph_edges hosts vms vifs networks)"
  unfolding graph_edges_def by (intro edges_seq appends_edges)

section \<open>What is collected\<close>

lemma get_records_refs:
  assumes "get_records ev xs ty s = (Inr d, t)"
  shows "map fst d = api_order ev xs"
  using assms unfolding get_records_def
  by (rule collect_map_fst [rotated]) (auto simp: ret_def elim!: bnd_InrE)

lemma set_edges_of:
  assumes "smap (\<lambda>(x, v). referred key b v) dic = Inr ks"
  shows "snd ` set (edges_of key b dic) = set (concat ks)" "fst ` set (edges_of key b dic) \<subseteq> fst ` set dic"
proof -
  show "snd ` set (edges_of key b dic) = set (concat ks)"
    using assms
  proof (induction dic arbitrary: ks)
    case (Cons kv dic)
    obtain k v where kv: "kv = (k, v)" by (cases kv)
    with Cons.prems obtain xs zs where "referred key b v = Inr xs" "smap (\<lambda>(x, v). referred key b v) dic = Inr zs" "ks = xs # zs"
      by (auto simp: sbind_Inr_iff)
    with Cons.IH [of zs] kv show ?case by (simp add: edges_of_def image_Un image_image)
  qed (simp add: edges_of_def)
  show "fst ` set (edges_of key b dic) \<subseteq> fst ` set dic"
  proof
    have edges: "edges_of key b dic = concat (map (\<lambda>kv. edges_of key b [kv]) dic)" by (simp add: edges_of_def)
    fix a assume "a \<in> fst ` set (edges_of key b dic)"
    then obtain kv where kv: "kv \<in> set dic" "a \<in> fst ` set (edges_of key b [kv])"
      by (subst (asm) edges) auto
    moreover from kv have "a = fst kv" by (cases kv) (auto simp: edges_of_def split: sum.splits)
    ultimately show "a \<in> fst ` set dic" by simp
  qed
qed

lemma chase_key_ends:
  assumes "chase_key ev dic ty key b s = (Inr d, t)" "\<And>xs. set (api_order ev xs) = set xs"
  shows "fst ` set d = snd ` set (edges_of key b dic)" "fst ` set (edges_of key b dic) \<subseteq> fst ` set dic"
proof -
  from assms(1) obtain ks where ks: "smap (\<lambda>(x, v). referred key b v) dic = Inr ks"
      "get_records ev (remdups (concat ks)) ty s = (Inr d, t)"
    by (auto simp: chase_key_def set_from_key_in_dictionary_of_records_def lift_sum_def sbind_Inr_iff elim!: bnd_InrE)
  have "fst ` set d = set (map fst d)" by simp
  also have "\<dots> = snd ` set (edges_of key b dic)"
    using get_records_refs [OF ks(2)] assms(2) set_edges_of(1) [OF ks(1)] by simp
  finally show "fst ` set d = snd ` set (edges_of key b dic)" .
  show "fst ` set (edges_of key b dic) \<subseteq> fst ` set dic" by (rule set_edges_of(2) [OF ks(1)])
qed

lemma as_refs_str: "as_refs v = Inr xs \<Longrightarrow> v = MList (map MStr xs)"
proof -
  have "smap as_str vs = Inr xs \<Longrightarrow> vs = map MStr xs" for vs
  proof (induction vs arbitrary: xs)
    case (Cons v vs)
    then show ?case by (cases v) (auto simp: sbind_Inr_iff)
  qed simp
  then show "as_refs v = Inr xs \<Longrightarrow> v = MList (map MStr xs)" by (cases v) (auto simp: as_refs_def)
qed

section \<open>The graph\<close>

lemma login_body:
  assumes "login_session ev name body s = (Inr (), t)"
  obtains s1 t1 where "sc_lines s1 = sc_lines s" "body s1 = (Inr (), t1)" "sc_lines t = sc_lines t1"
    "s1 = snd (api_op ev ''session.login_with_password'' [[], [], ''1.0'', name] s)"
proof -
  obtain t1 where t1: "seq (api_op ev ''session.login_with_password'' [[], [], ''1.0'', name]) body s = (Inr (), t1)"
      "t = snd (api_op ev ''session.logout'' [] t1)"
    using assms by (auto simp: login_session_def split: prod.splits)
  then obtain r s1 where s1: "api_op ev ''session.login_with_password'' [[], [], ''1.0'', name] s = (Inr r, s1)" "body s1 = (Inr (), t1)"
    unfolding seq_def by (elim bnd_InrE)
  have "sc_lines (snd (api_op ev m xs u)) = sc_lines u" for m xs u by (simp add: api_op_def split: prod.split)
  with s1 t1(2) that show thesis by (metis snd_conv)
qed

lemma graph_body_run:
  assumes "graph_body ev s1 = (Inr (), t1)"
  obtains refs hosts vms vifs vbds networks pifs s2 s3 s4 s5 s6 s7 s8 where
      "api_op ev ''host.get_all'' [] s1 = (Inr (MList (map MStr refs)), s2)"
    and "get_records ev (remdups refs) ''host'' s2 = (Inr hosts, s3)"
    and "chase_key ev hosts ''VM'' ''resident_VMs'' True s3 = (Inr vms, s4)"
    and "chase_key ev vms ''VIF'' ''VIFs'' True s4 = (Inr vifs, s5)"
    and "chase_key ev vms ''VBD'' ''VBDs'' True s5 = (Inr vbds, s6)"
    and "chase_key ev vifs ''network'' ''network'' False s6 = (Inr networks, s7)"
    and "chase_key ev networks ''PIF'' ''PIFs'' True s7 = (Inr pifs, s8)"
    and "seq (graph_comments hosts vms vifs vbds networks pifs)
      (seq (graph_nodes ev hosts vms vifs vbds networks pifs) (seq (graph_edges hosts vms vifs networks) (say ''}''))) s8 = (Inr (), t1)"
  using assms unfolding graph_body_def by (elim bnd_InrE) (auto simp: lift_sum_def dest: as_refs_str)

definition graph_refs :: "records \<Rightarrow> records \<Rightarrow> records \<Rightarrow> records \<Rightarrow> (string \<times> string) list" where
  "graph_refs hosts vms vifs networks =
     edges_of ''resident_VMs'' True hosts @ edges_of ''VIFs'' True vms @ edges_of ''VBDs'' True vms
       @ edges_of ''network'' False vifs @ edges_of ''PIFs'' True networks"

lemma appends_graph:
  "appends (\<lambda>ls. \<exists>comments ns. ls = comments @ map (\<lambda>(x, l). node_line x l) ns
       @ map (\<lambda>(a, b). edge_line a b) (graph_refs hosts vms vifs networks) @ [''}'']
      \<and> length comments = 20 \<and> map fst ns = map fst (hosts @ vms @ vifs @ vbds @ pifs @ networks))
    (seq (graph_comments hosts vms vifs vbds networks pifs)
      (seq (graph_nodes ev hosts vms vifs vbds networks pifs) (seq (graph_edges hosts vms vifs networks) (say ''}''))))"
proof -
  have "appends (\<lambda>ls. \<exists>ns. ls = map (\<lambda>(x, l). node_line x l) ns @ map (\<lambda>(a, b). edge_line a b) (graph_refs hosts vms vifs networks) @ [''}'']
      \<and> map fst ns = map fst (hosts @ vms @ vifs @ vbds @ pifs @ networks))
      (seq (graph_nodes ev hosts vms vifs vbds networks pifs) (seq (graph_edges hosts vms vifs networks) (say ''}'')))"
    using appends_graph_nodes appends_seq [OF appends_graph_edges appends_say, where R = "\<lambda>ls. ls = map (\<lambda>(a, b). edge_line a b) (graph_refs hosts vms vifs networks) @ [''}'']"]
    by (rule appends_seq) (auto simp: nodes_of_def edge_lines_def graph_refs_def)
  with appends_comments show ?thesis by (rule appends_seq) auto
qed

lemma union_tails:
  "A \<subseteq> H \<Longrightarrow> B \<subseteq> V \<Longrightarrow> C \<subseteq> V \<Longrightarrow> D \<subseteq> F \<Longrightarrow> E \<subseteq> N \<Longrightarrow> A \<union> (B \<union> (C \<union> (D \<union> E))) \<subseteq> H \<union> (V \<union> (F \<union> (X \<union> (P \<union> N))))"
  by blast

text \<open>
  C19: When the script ends without an exception it has printed 20 lines of heading and
  comments, the nodes, the edges and the closing brace; every edge joins two
  nodes that were printed, and every node but the hosts is the end of an edge.
\<close>

theorem graph_complete:
  assumes "\<And>xs. set (api_order ev xs) = set xs" and "graph_main ev s = (Inr (), t)"
  shows "\<exists>comments ns es hosts k.
    sc_lines t = sc_lines s @ comments @ map (\<lambda>(x, l). node_line x l) ns @ map (\<lambda>(a, b). edge_line a b) es @ [''}'']
    \<and> length comments = 20
    \<and> fst ` set es \<subseteq> fst ` set ns \<and> snd ` set es \<subseteq> fst ` set ns \<and> fst ` set ns \<subseteq> set hosts \<union> snd ` set es
    \<and> set hosts \<subseteq> fst ` set ns
    \<and> fst (api_call ev ''host.get_all'' [] k) = Inr (MList (map MStr hosts))"
proof -
  obtain s1 t1 where s1: "sc_lines s1 = sc_lines s" "graph_body ev s1 = (Inr (), t1)" "sc_lines t = sc_lines t1"
    using assms(2) unfolding graph_main_def by (rule login_body)
  from s1(2) obtain refs hosts vms vifs vbds networks pifs s2 s3 s4 s5 s6 s7 s8 where
      a: "api_op ev ''host.get_all'' [] s1 = (Inr (MList (map MStr refs)), s2)"
    and hosts: "get_records ev (remdups refs) ''host'' s2 = (Inr hosts, s3)"
    and vms: "chase_key ev hosts ''VM'' ''resident_VMs'' True s3 = (Inr vms, s4)"
    and vifs: "chase_key ev vms ''VIF'' ''VIFs'' True s4 = (Inr vifs, s5)"
    and vbds: "chase_key ev vms ''VBD'' ''VBDs'' True s5 = (Inr vbds, s6)"
    and networks: "chase_key ev vifs ''network'' ''network'' False s6 = (Inr networks, s7)"
    and pifs: "chase_key ev networks ''PIF'' ''PIFs'' True s7 = (Inr pifs, s8)"
    and out: "seq (graph_comments hosts vms vifs vbds networks pifs)
      (seq (graph_nodes ev hosts vms vifs vbds networks pifs) (seq (graph_edges hosts vms vifs networks) (say ''}''))) s8 = (Inr (), t1)"
    by (rule graph_body_run)
  let ?es = "graph_refs hosts vms vifs networks" and ?all = "hosts @ vms @ vifs @ vbds @ pifs @ networks"
  from appends_graph out obtain comments ns where
      printed: "sc_lines t1 = sc_lines s8 @ comments @ map (\<lambda>(x, l). node_line x l) ns @ map (\<lambda>(a, b). edge_line a b) ?es @ [''}'']"
      "length comments = 20" "map fst ns = map fst ?all"
    by (rule appendsD) auto
  have s8: "sc_lines s8 = sc_lines s1"
    using quietD [OF quiet_get_records hosts] quietD [OF quiet_chase_key vms] quietD [OF quiet_chase_key vifs]
      quietD [OF quiet_chase_key vbds] quietD [OF quiet_chase_key networks] quietD [OF quiet_chase_key pifs] a
    by (auto simp: api_op_def split: prod.splits)
  have nodes: "fst ` set ns = fst ` set ?all" using printed(3) by (metis list.set_map)
  have refs: "fst ` set hosts = set refs"
    using get_records_refs [OF hosts] assms(1) by (metis list.set_map set_remdups)
  note ends = chase_key_ends [OF vms assms(1)] chase_key_ends [OF vifs assms(1)] chase_key_ends [OF vbds assms(1)]
      chase_key_ends [OF networks assms(1)] chase_key_ends [OF pifs assms(1)]
  have heads: "snd ` set ?es = fst ` set (vms @ vifs @ vbds @ networks @ pifs)"
    unfolding graph_refs_def set_append image_Un by (simp only: ends(1,3,5,7,9))
  have tails: "fst ` set ?es \<subseteq> fst ` set ?all"
    using union_tails [OF ends(2,4,6,8,10)] unfolding graph_refs_def set_append image_Un .
  show ?thesis
  proof (intro exI conjI)
    show "sc_lines t = sc_lines s @ comments @ map (\<lambda>(x, l). node_line x l) ns @ map (\<lambda>(a, b). edge_line a b) ?es @ [''}'']"
      using s1(1,3) s8 printed(1) by simp
    show "fst ` set ?es \<subseteq> fst ` set ns" using tails nodes by simp
    show "snd ` set ?es \<subseteq> fst ` set ns" unfolding heads nodes by auto
    show "fst ` set ns \<subseteq> set refs \<union> snd ` set ?es" unfolding heads nodes refs [symmetric] by auto
    show "set refs \<subseteq> fst ` set ns" unfolding nodes refs [symmetric] by auto
    show "fst (api_call ev ''host.get_all'' [] (sc_machine s1)) = Inr (MList (map MStr refs))"
      using a by (auto simp: api_op_def split: prod.splits)
  qed (rule printed(2))
qed

text \<open>The witness: a host with one machine, whose interface is on a network.\<close>

definition infinity :: f64 where "infinity = mk_float False inf_bits"

definition demo_pool :: "unit api_env" where
  "demo_pool = \<lparr>api_call = (\<lambda>meth args k.
     (Inr (if meth = ''host.get_all'' then MList [MStr ''h'']
       else if meth = ''host.get_record'' then MRec [(''name_label'', MStr ''host''), (''resident_VMs'', MList [MStr ''v''])]
       else if meth = ''VM.get_record'' then MRec [(''name_label'', MStr ''vm''), (''VIFs'', MList [MStr ''i'']), (''VBDs'', MList [])]
       else if meth = ''VIF.get_record'' then MRec [(''network'', MStr ''n'')]
       else if meth = ''network.get_record'' then MRec [(''PIFs'', MList [])]
       else if meth = ''host_metrics.get_record'' then MRec [(''memory_free'', MFloat infinity), (''memory_total'', MFloat 1)]
       else if meth = ''VM_metrics.get_record'' then MRec [(''memory_actual'', MFloat infinity), (''VCPUs_utilisation'', MRec [(''0'', MFloat infinity)])]
       else if meth = ''host.get_host_CPUs'' then MList []
       else if meth = ''VM.get_data_sources'' then MList [MRec [(''name_label'', MStr ''vif_0_rx''), (''value'', MFloat infinity)],
                                                         MRec [(''name_label'', MStr ''vif_0_tx''), (''value'', MFloat infinity)]]
       else if meth = ''VIF.get_device'' then MStr ''0''
       else MStr ''x''), k)), api_order = id\<rparr>"

lemma demo_floats: "fixed2 infinity = ''inf''" "float_repr infinity = ''inf''"
  "float_div infinity 1 = Inr infinity" "float_div infinity mebibyte = Inr infinity"
  "py_lower ''VIF'' = ''vif''"
  by code_simp+
lemmas demo_run_simps = demo_floats demo_pool_def graph_main_def login_session_def graph_body_def graph_comments_def graph_nodes_def graph_edges_def
  print_names_def print_metric_nodes_def print_nodes_def print_edges_def get_records_def chase_key_def
  set_from_key_in_dictionary_of_records_def referred_def host_data_def vm_data_def io_data_def sources_of_def
  item_def get_or_def as_refs_def api_op_def to_float_def begins_def say_def label_of_def
  seq_def bnd_def ret_def lift_sum_def modify_def

lemma graph_complete_witness:
  "fst (graph_main demo_pool \<lparr>sc_machine = (), sc_lines = []\<rparr>) = Inr ()
   \<and> (\<exists>label. node_line ''h'' label \<in> set (sc_lines (snd (graph_main demo_pool \<lparr>sc_machine = (), sc_lines = []\<rparr>))))"
proof -
  let ?s = "\<lparr>sc_machine = (), sc_lines = []\<rparr>"
  have run: "fst (graph_main demo_pool ?s) = Inr ()" by (simp add: demo_run_simps)
  then have "graph_main demo_pool ?s = (Inr (), snd (graph_main demo_pool ?s))" by (metis prod.collapse)
  moreover have "set (api_order demo_pool xs) = set xs" for xs by (simp add: demo_pool_def)
  ultimately obtain comments ns es hosts k where g:
      "sc_lines (snd (graph_main demo_pool ?s)) = sc_lines ?s @ comments @ map (\<lambda>(x, l). node_line x l) ns @ map (\<lambda>(a, b). edge_line a b) es @ [''}'']"
      "set hosts \<subseteq> fst ` set ns" "fst (api_call demo_pool ''host.get_all'' [] k) = Inr (MList (map MStr hosts))"
    using graph_complete [of demo_pool ?s "snd (graph_main demo_pool ?s)"] by metis
  have "fst (api_call demo_pool ''host.get_all'' [] k) = Inr (MList [MStr ''h''])" by (simp add: demo_pool_def)
  with g(3) have "''h'' \<in> set hosts" by auto
  with g(2) obtain l where "(''h'', l) \<in> set ns" by auto
  then have "node_line ''h'' l \<in> set (map (\<lambda>(x, l). node_line x l) ns)" by force
  then have "node_line ''h'' l \<in> set (sc_lines (snd (graph_main demo_pool ?s)))"
    unfolding g(1) by (metis UnCI set_append)
  with run show ?thesis by blast
qed

end
