(* ===== verification/Metrics_List.thy ===== *)
theory Metrics_List
  imports Metrics_Graph
begin

text \<open>
  The script \<^verbatim>\<open>python3/libexec/metrics.py\<close>, which prints the metrics of the running
  objects of a pool as lists, and which data sources it shows for a device. The
  layout of \<^verbatim>\<open>pformat\<close> is an argument.
\<close>

section \<open>The script\<close>

text \<open>\<^verbatim>\<open>str\<close> of a list of ASCII texts\<close>

definition str_list :: "string list \<Rightarrow> string" where
  "str_list ts = ''['' @ py_join '', '' (map str_repr ts) @ '']''"

definition dictionary_list_partial_print :: "(mval \<Rightarrow> string) \<Rightarrow> string \<Rightarrow> mval list \<Rightarrow> string list \<Rightarrow> ('k, unit) sc_op" where
  "dictionary_list_partial_print pformat title dictionary_list keys =
     (let bar = replicate (length title) CHR ''-''; nl = [CHR 0x0A] in
      seq (say (bar @ '' '' @ nl @ '' '' @ title @ '' '' @ nl @ '' '' @ bar))
      (seq (bnd (lift_sum (smap (\<lambda>d. sbind (smap (\<lambda>k. sbind (item k d) (\<lambda>v. Inr (k @ ''  : '' @ pformat v))) keys)
                                     (\<lambda>ls. Inr (py_join nl ls))) dictionary_list)) (\<lambda>ds.
              say (py_join (nl @ ''--'' @ nl) ds)))
           (say bar)))"

definition fetch_metrics_record :: "'k api_env \<Rightarrow> string \<Rightarrow> string \<Rightarrow> string \<Rightarrow> ('k, mval) sc_op" where
  "fetch_metrics_record ev object_reference type_string metrics_name =
     bnd (api_op ev (type_string @ ''.get_'' @ metrics_name) [object_reference]) (\<lambda>r. bnd (lift_sum (as_str r)) (\<lambda>record_reference.
     if record_reference = ''OpaqueRef:NULL'' then ret (MStr ''NULL'')
     else api_op ev (type_string @ ''_'' @ metrics_name @ ''.get_record'') [record_reference]))"

definition fetch_rrd_records :: "'k api_env \<Rightarrow> string \<Rightarrow> string \<Rightarrow> string \<Rightarrow> ('k, (string \<times> mval) list) sc_op" where
  "fetch_rrd_records ev object_reference type_string data_owner =
     bnd (api_op ev (type_string @ ''.get_'' @ data_owner) [object_reference]) (\<lambda>b. bnd (lift_sum (as_str b)) (\<lambda>belongs_to.
     bnd (api_op ev (type_string @ ''.get_device'') [object_reference]) (\<lambda>d. bnd (lift_sum (as_str d)) (\<lambda>device_number.
     bnd (api_op ev (data_owner @ ''.get_data_sources'') [belongs_to]) (\<lambda>sources.
     lift_sum (sources_of (py_lower type_string @ ''_'' @ device_number) sources))))))"

text \<open>A reference and a name that a call returns.\<close>

definition name_of :: "'k api_env \<Rightarrow> string \<Rightarrow> string \<Rightarrow> ('k, string) sc_op" where
  "name_of ev meth ref = bnd (api_op ev meth [ref]) (\<lambda>v. lift_sum (as_str v))"

definition get_vbd_name :: "'k api_env \<Rightarrow> string \<Rightarrow> ('k, string) sc_op" where
  "get_vbd_name ev vbd =
     bnd (bnd (api_op ev ''VBD.get_type'' [vbd]) (\<lambda>ty.
          if ty = MStr ''CD'' then bnd (api_op ev ''VBD.get_empty'' [vbd]) (\<lambda>e. ret (e = MBool True)) else ret False)) (\<lambda>empty_drive.
     bnd (if empty_drive then ret ''empty cd drive''
          else bnd (name_of ev ''VBD.get_VDI'' vbd) (name_of ev ''VDI.get_name_label'')) (\<lambda>device_name.
     bnd (bnd (name_of ev ''VBD.get_VM'' vbd) (name_of ev ''VM.get_name_label'')) (\<lambda>vm.
     ret (''VBD connecting '' @ quoted vm @ '' to '' @ quoted device_name))))"

definition refs_of :: "'k api_env \<Rightarrow> string \<Rightarrow> string list \<Rightarrow> ('k, string list) sc_op" where
  "refs_of ev meth args = bnd (api_op ev meth args) (\<lambda>v. lift_sum (as_refs v))"

text \<open>A row of a list, and the names of rows.\<close>

definition row :: "string \<Rightarrow> (string \<times> mval) list \<Rightarrow> mval" where
  "row name entries = MRec ((''name_label'', MStr name) # entries)"

definition host_metrics_row :: "'k api_env \<Rightarrow> string \<Rightarrow> ('k, mval) sc_op" where
  "host_metrics_row ev x =
     bnd (name_of ev ''host.get_name_label'' x) (\<lambda>name.
     bnd (bnd (name_of ev ''host.get_metrics'' x) (\<lambda>m. api_op ev ''host_metrics.get_record'' [m])) (\<lambda>metrics.
     bnd (refs_of ev ''host.get_host_CPUs'' [x]) (\<lambda>cs.
     bnd (collect (\<lambda>c. api_op ev ''host_cpu.get_record'' [c]) cs) (\<lambda>cpus.
     ret (row name [(''metrics'', metrics), (''host_cpus'', MList cpus)])))))"

definition vm_metrics_row :: "'k api_env \<Rightarrow> string \<Rightarrow> ('k, mval) sc_op" where
  "vm_metrics_row ev x =
     bnd (name_of ev ''VM.get_name_label'' x) (\<lambda>name.
     bnd (fetch_metrics_record ev x ''VM'' ''metrics'') (\<lambda>metrics.
     bnd (fetch_metrics_record ev x ''VM'' ''guest_metrics'') (\<lambda>guest_metrics.
     ret (row name [(''metrics'', metrics), (''guest_metrics'', guest_metrics)]))))"

definition vif_metrics_row :: "'k api_env \<Rightarrow> string \<Rightarrow> ('k, mval) sc_op" where
  "vif_metrics_row ev x =
     bnd (bnd (name_of ev ''VIF.get_network'' x) (name_of ev ''network.get_name_label'')) (\<lambda>network.
     bnd (bnd (name_of ev ''VIF.get_VM'' x) (name_of ev ''VM.get_name_label'')) (\<lambda>vm.
     bnd (fetch_rrd_records ev x ''VIF'' ''VM'') (\<lambda>m.
     ret (row (''VIF connecting '' @ quoted network @ '' to '' @ quoted vm) [(''metrics'', MRec m)]))))"

definition vbd_metrics_row :: "'k api_env \<Rightarrow> string \<Rightarrow> ('k, mval) sc_op" where
  "vbd_metrics_row ev x =
     bnd (get_vbd_name ev x) (\<lambda>name. bnd (fetch_rrd_records ev x ''VBD'' ''VM'') (\<lambda>m. ret (row name [(''metrics'', MRec m)])))"

definition pif_metrics_row :: "'k api_env \<Rightarrow> string \<Rightarrow> ('k, mval) sc_op" where
  "pif_metrics_row ev x =
     bnd (name_of ev ''PIF.get_device'' x) (\<lambda>device.
     bnd (bnd (name_of ev ''PIF.get_host'' x) (name_of ev ''host.get_name_label'')) (\<lambda>host.
     bnd (fetch_rrd_records ev x ''PIF'' ''host'') (\<lambda>m.
     ret (row (device @ '' on '' @ host) [(''metrics'', MRec m)]))))"

text \<open>The objects of a class that belong to one of the machines.\<close>

definition attached :: "'k api_env \<Rightarrow> string \<Rightarrow> string list \<Rightarrow> ('k, string list) sc_op" where
  "attached ev ty resident_vms =
     bnd (refs_of ev (ty @ ''.get_all'') []) (\<lambda>xs.
     bnd (collect (\<lambda>x. bnd (name_of ev (ty @ ''.get_VM'') x) (\<lambda>vm. ret (x, vm \<in> set resident_vms))) xs) (\<lambda>bs.
     ret (map fst (filter snd bs))))"

definition say_names :: "string \<Rightarrow> mval list \<Rightarrow> ('k, unit) sc_op" where
  "say_names name lst =
     bnd (lift_sum (smap (\<lambda>y. sbind (item ''name_label'' y) as_str) lst)) (\<lambda>ns. say (name @ '' '' @ str_list ns))"

definition metrics_body :: "'k api_env \<Rightarrow> (mval \<Rightarrow> string) \<Rightarrow> ('k, unit) sc_op" where
  "metrics_body ev pformat =
     (let show = dictionary_list_partial_print pformat in
     bnd (refs_of ev ''host.get_all'' []) (\<lambda>hosts.
     bnd (collect (host_metrics_row ev) hosts) (\<lambda>host_metrics.
     seq (show ''Host Metrics'' host_metrics [''name_label'', ''metrics'', ''host_cpus''])
     (bnd (collect (\<lambda>h. refs_of ev ''host.get_resident_VMs'' [h]) hosts) (\<lambda>vs.
     (let resident_vms = remdups (concat vs) in
     bnd (collect (vm_metrics_row ev) (api_order ev resident_vms)) (\<lambda>vm_metrics.
     seq (show ''Virtual Machine Metrics'' vm_metrics [''name_label'', ''metrics'', ''guest_metrics''])
     (bnd (attached ev ''VIF'' resident_vms) (\<lambda>active_vifs.
     bnd (collect (vif_metrics_row ev) active_vifs) (\<lambda>vif_metrics.
     seq (show ''VIF metrics'' vif_metrics [''name_label'', ''metrics''])
     (bnd (attached ev ''VBD'' resident_vms) (\<lambda>active_vbds.
     bnd (collect (vbd_metrics_row ev) active_vbds) (\<lambda>vbd_metrics.
     seq (show ''VBD Metrics'' vbd_metrics [''name_label'', ''metrics''])
     (bnd (collect (name_of ev ''VIF.get_network'') active_vifs) (\<lambda>ns.
     (let active_networks = api_order ev (remdups ns) in
     bnd (collect (\<lambda>x. bnd (name_of ev ''network.get_name_label'' x) (\<lambda>n. ret (row n []))) active_networks) (\<lambda>network_metrics.
     seq (show ''Network Metrics'' network_metrics [''name_label''])
     (bnd (collect (\<lambda>n. refs_of ev ''network.get_PIFs'' [n]) active_networks) (\<lambda>ps.
     bnd (collect (pif_metrics_row ev) (api_order ev (remdups (concat ps)))) (\<lambda>pif_metrics.
     seq (show ''PIF Metrics'' pif_metrics [''name_label'', ''metrics''])
     (seq (say ''Active Objects'')
          (for_each (\<lambda>(name, lst). say_names name lst)
            [(''host_metrics'', host_metrics), (''vm_metrics'', vm_metrics), (''vif_metrics'', vif_metrics),
             (''vbd_metrics'', vbd_metrics), (''network_metrics'', network_metrics), (''pif_metrics'', pif_metrics)]))))))))))))))))))))))"

definition metrics_main :: "'k api_env \<Rightarrow> (mval \<Rightarrow> string) \<Rightarrow> ('k, unit) sc_op" where
  "metrics_main ev pformat = login_session ev ''metrics-script'' (metrics_body ev pformat)"

section \<open>Data sources of a device\<close>

definition source_names :: "mval list \<Rightarrow> string set" where
  "source_names sources = {n. \<exists>x \<in> set sources. item ''name_label'' x = Inr (MStr n)}"

lemma as_str_iff: "as_str v = Inr n \<longleftrightarrow> v = MStr n"
  by (cases v) auto

lemma dom_updates: "dom (map_of (fold (\<lambda>(n, v). AList.update n v) nvs d)) = dom (map_of d) \<union> fst ` set nvs"
  by (induction nvs arbitrary: d) (auto simp: update_conv')

lemma smap_pairs:
  "smap (\<lambda>(n, x). sbind (item k x) (\<lambda>v. Inr (n, v))) nxs = Inr nvs \<Longrightarrow> map fst nvs = map fst nxs"
  by (induction nxs arbitrary: nvs) (auto simp: sbind_Inr_iff)

lemma smap_names:
  "smap (\<lambda>x. sbind (sbind (item ''name_label'' x) as_str) (\<lambda>n. Inr (n, x))) xs = Inr nxs \<Longrightarrow> fst ` set nxs = source_names xs"
proof (induction xs arbitrary: nxs)
  case (Cons x xs)
  then obtain n zs where z: "item ''name_label'' x = Inr (MStr n)" "nxs = (n, x) # zs"
      "smap (\<lambda>x. sbind (sbind (item ''name_label'' x) as_str) (\<lambda>n. Inr (n, x))) xs = Inr zs"
    by (auto simp: sbind_Inr_iff as_str_iff)
  with Cons.IH [OF z(3)] show ?case by (auto simp: source_names_def)
qed (simp add: source_names_def)

lemma sources_of_dom:
  assumes "sources_of p v = Inr m"
  shows "\<exists>sources. v = MList sources \<and> dom (map_of m) = {n \<in> source_names sources. begins p n}"
proof -
  obtain sources nxs nvs where s: "v = MList sources"
      "smap (\<lambda>x. sbind (sbind (item ''name_label'' x) as_str) (\<lambda>n. Inr (n, x))) sources = Inr nxs"
      "smap (\<lambda>(n, x). sbind (item ''value'' x) (\<lambda>v. Inr (n, v))) (filter (\<lambda>(n, x). begins p n) nxs) = Inr nvs"
      "m = fold (\<lambda>(n, v). AList.update n v) nvs []"
    using assms by (cases v) (auto simp: sources_of_def sbind_Inr_iff)
  have "dom (map_of m) = fst ` set nvs" by (simp add: s(4) dom_updates)
  also have "\<dots> = fst ` set (filter (\<lambda>(n, x). begins p n) nxs)" using smap_pairs [OF s(3)] by (metis list.set_map)
  also have "\<dots> = {n \<in> fst ` set nxs. begins p n}" by force
  finally show ?thesis using s(1) smap_names [OF s(2)] by simp
qed

text \<open>
  The metrics shown for a device are those of all data sources of its owner
  whose name begins with the class and the number of the device: the sources of
  device 10 are among those shown for device 1.
\<close>

theorem rrd_records_by_prefix:
  assumes "fetch_rrd_records ev ref ty owner s = (Inr m, t)"
  shows "\<exists>device sources k k' b.
    fst (api_call ev (ty @ ''.get_device'') [ref] k) = Inr (MStr device)
    \<and> fst (api_call ev (owner @ ''.get_data_sources'') [b] k') = Inr (MList sources)
    \<and> (let p = py_lower ty @ ''_'' @ device in
        dom (map_of m) = {n \<in> source_names sources. begins p n}
        \<and> (\<forall>digits suffix. p @ digits @ ''_'' @ suffix \<in> source_names sources \<longrightarrow> p @ digits @ ''_'' @ suffix \<in> dom (map_of m)))"
proof -
  have api: "\<exists>k. fst (api_call ev meth args k) = Inr v" if "api_op ev meth args u = (Inr v, w)" for meth args u v w
    using that by (auto simp: api_op_def split: prod.splits) (metis fst_conv)
  obtain b u1 u2 device u3 v u4 where
      d: "api_op ev (ty @ ''.get_device'') [ref] u2 = (Inr (MStr device), u3)"
    and v: "api_op ev (owner @ ''.get_data_sources'') [b] u3 = (Inr v, u4)"
    and m: "sources_of (py_lower ty @ ''_'' @ device) v = Inr m"
    using assms unfolding fetch_rrd_records_def
    by (elim bnd_InrE) (auto simp: lift_sum_def as_str_iff)
  obtain sources where s: "v = MList sources" "dom (map_of m) = {n \<in> source_names sources. begins (py_lower ty @ ''_'' @ device) n}"
    using sources_of_dom [OF m] by blast
  have "begins p (p @ x)" for p x :: string by (simp add: begins_def)
  from this [of "py_lower ty @ ''_'' @ device"] have "begins (py_lower ty @ ''_'' @ device) ((py_lower ty @ ''_'' @ device) @ digits @ ''_'' @ suffix)" for digits suffix
    by blast
  with s(2) have "\<forall>digits suffix. (py_lower ty @ ''_'' @ device) @ digits @ ''_'' @ suffix \<in> source_names sources \<longrightarrow> (py_lower ty @ ''_'' @ device) @ digits @ ''_'' @ suffix \<in> dom (map_of m)"
    by blast
  with s(2) api [OF d] api [OF v [unfolded s(1)]] show ?thesis unfolding Let_def by blast
qed

definition demo_vifs :: "unit api_env" where
  "demo_vifs = \<lparr>api_call = (\<lambda>meth args k.
     (Inr (if meth = ''VIF.get_device'' then MStr ''1''
       else if meth = ''VIF.get_VM'' then MStr ''v''
       else MList [MRec [(''name_label'', MStr ''vif_10_rx''), (''value'', MFloat 0)]]), k)), api_order = id\<rparr>"

lemma rrd_records_by_prefix_witness:
  "\<exists>m. fst (fetch_rrd_records demo_vifs ''i'' ''VIF'' ''VM'' \<lparr>sc_machine = (), sc_lines = []\<rparr>) = Inr m \<and> ''vif_10_rx'' \<in> dom (map_of m)"
proof -
  let ?s = "\<lparr>sc_machine = (), sc_lines = []\<rparr>"
  have "fst (fetch_rrd_records demo_vifs ''i'' ''VIF'' ''VM'' ?s) = Inr [(''vif_10_rx'', MFloat 0)]" by code_simp
  then have r: "fetch_rrd_records demo_vifs ''i'' ''VIF'' ''VM'' ?s = (Inr [(''vif_10_rx'', MFloat 0)], snd (fetch_rrd_records demo_vifs ''i'' ''VIF'' ''VM'' ?s))"
    by (metis prod.collapse)
  obtain device sources k k' b where
      "fst (api_call demo_vifs (''VIF'' @ ''.get_device'') [''i''] k) = Inr (MStr device)"
      "fst (api_call demo_vifs (''VM'' @ ''.get_data_sources'') [b] k') = Inr (MList sources)"
      "\<forall>digits suffix. (py_lower ''VIF'' @ ''_'' @ device) @ digits @ ''_'' @ suffix \<in> source_names sources
        \<longrightarrow> (py_lower ''VIF'' @ ''_'' @ device) @ digits @ ''_'' @ suffix \<in> dom (map_of [(''vif_10_rx'', MFloat 0)])"
    using rrd_records_by_prefix [OF r] unfolding Let_def by blast
  moreover from this have "device = ''1''" "''vif_10_rx'' \<in> source_names sources"
    by (simp_all add: demo_vifs_def) (auto simp: source_names_def item_def)
  moreover have "py_lower ''VIF'' = ''vif''" by code_simp
  ultimately have "''vif_10_rx'' \<in> dom (map_of [(''vif_10_rx'', MFloat 0)])"
    by (metis append_Cons append_Nil)
  with r show ?thesis by (metis fst_conv)
qed

end
