(* ===== verification/Link_Vms.thy ===== *)
theory Link_Vms
  imports Py_Text
begin

text \<open>
  The script \<^verbatim>\<open>python3/libexec/link-vms-by-sr.py\<close>, which partitions the virtual
  machines of a pool by the storage repositories they use, as directories of
  symbolic links. A path below a directory is the pair of the directory and the
  name; the API and the refusals of the file system are arguments.
\<close>

section \<open>Records of the API\<close>

record vm_record =
  vm_default_template :: "string option"
  vm_is_control_domain :: bool
  vm_is_a_snapshot :: bool
  vm_VBDs :: "string list"
  vm_uuid :: string

text \<open>
  The records by reference, in the order of the dictionaries; of a block device
  its disk, of a disk its repository, of a repository its identifier.
\<close>

record pool_records =
  pool_vms :: "(string \<times> vm_record) list"
  pool_vbds :: "(string \<times> string) list"
  pool_vdis :: "(string \<times> string) list"
  pool_srs :: "(string \<times> string) list"

datatype link_error = Link_Failure | Link_ArgumentError

text \<open>
  \<open>lk_login\<close> fails or not; \<open>lk_records\<close> are the four calls that read all records;
  \<open>lk_denied\<close> tells whether an operation on a path fails though it would be possible.
\<close>

record 'k link_env =
  lk_login :: "'k \<Rightarrow> bool \<times> 'k"
  lk_records :: "'k \<Rightarrow> pool_records option \<times> 'k"
  lk_logout :: "'k \<Rightarrow> bool \<times> 'k"
  lk_input_dir :: "string option"
  lk_denied :: "string \<Rightarrow> bool"

record 'k linker =
  lk_machine :: 'k
  lk_dirs :: "string list"
  lk_links :: "((string \<times> string) \<times> string) list"
  lk_stderr :: "string list"

type_synonym ('k, 'a) lk_op = "('k linker, link_error, 'a) st"

section \<open>The repositories of a machine\<close>

text \<open>\<^verbatim>\<open>vms_in_sr.setdefault(sruuid, {})[vmuuid] = 1\<close>\<close>

definition note_vm :: "string \<Rightarrow> string \<Rightarrow> (string \<times> string list) list \<Rightarrow> (string \<times> string list) list" where
  "note_vm sruuid vmuuid d =
     (let vs = (case map_of d sruuid of None \<Rightarrow> [] | Some vs \<Rightarrow> vs) in
      AList.update sruuid (if vmuuid \<in> set vs then vs else vs @ [vmuuid]) d)"

text \<open>The identifier of the repository of a block device, if it has one.\<close>

definition sr_of_vbd :: "pool_records \<Rightarrow> string \<Rightarrow> string option" where
  "sr_of_vbd r vbd =
     (case map_of (pool_vbds r) vbd of
        None \<Rightarrow> None
      | Some vdi \<Rightarrow>
          if vdi = [] then None
          else (case map_of (pool_vdis r) vdi of
                  None \<Rightarrow> None
                | Some sr \<Rightarrow> map_of (pool_srs r) sr))"

text \<open>
  Built-in templates, which have \<^verbatim>\<open>default_template\<close> set in their other
  configuration, control domains and snapshots; other templates are not ignored.
\<close>

definition ignored_vm :: "vm_record \<Rightarrow> bool" where
  "ignored_vm v \<longleftrightarrow> vm_default_template v = Some ''true'' \<or> vm_is_control_domain v \<or> vm_is_a_snapshot v"

definition note_vbds :: "pool_records \<Rightarrow> vm_record \<Rightarrow> (string \<times> string list) list \<Rightarrow> (string \<times> string list) list" where
  "note_vbds r v d =
     fold (\<lambda>vbd d. case sr_of_vbd r vbd of None \<Rightarrow> d | Some sruuid \<Rightarrow> note_vm sruuid (vm_uuid v) d) (vm_VBDs v) d"

definition vms_in_sr :: "pool_records \<Rightarrow> (string \<times> string list) list" where
  "vms_in_sr r = fold (\<lambda>(x, v) d. if ignored_vm v then d else note_vbds r v d) (pool_vms r) []"

definition get_vms_in_sr_from_xapi :: "'k link_env \<Rightarrow> ('k, (string \<times> string list) list) lk_op" where
  "get_vms_in_sr_from_xapi ev s =
     (case lk_records ev (lk_machine s) of
        (None, k) \<Rightarrow> (Inl Link_Failure, s\<lparr>lk_machine := k\<rparr>)
      | (Some r, k) \<Rightarrow> (Inr (vms_in_sr r), s\<lparr>lk_machine := k\<rparr>))"

section \<open>Links\<close>

definition complain :: "string \<Rightarrow> ('k, unit) lk_op" where
  "complain t = modify (\<lambda>s. s\<lparr>lk_stderr := lk_stderr s @ [t]\<rparr>)"

definition link_vm :: "'k link_env \<Rightarrow> string \<Rightarrow> string \<Rightarrow> ('k, unit) lk_op" where
  "link_vm ev linkdir vmuuid s =
     (let src = ''../../all/'' @ vmuuid @ ''.vmmeta''; name = vmuuid @ ''.vmmeta''; targ = linkdir @ ''/'' @ name in
      if lk_denied ev targ \<or> linkdir \<notin> set (lk_dirs s) \<or> (linkdir, name) \<in> fst ` set (lk_links s)
      then complain (''Failed to create symlink: '' @ src @ '' -> '' @ targ) s
      else (Inr (), s\<lparr>lk_links := lk_links s @ [((linkdir, name), src)]\<rparr>))"

definition by_sr_dir :: "string \<Rightarrow> string \<Rightarrow> string" where
  "by_sr_dir input_dir sruuid = input_dir @ ''/by-sr/'' @ sruuid"

definition link_sr :: "'k link_env \<Rightarrow> string \<Rightarrow> string \<times> string list \<Rightarrow> ('k, unit) lk_op" where
  "link_sr ev input_dir entry s =
     (let linkdir = by_sr_dir input_dir (fst entry) in
      if linkdir \<in> set (lk_dirs s)
      then complain (''Directory '' @ linkdir @ '' already exists, skipping'') s
      else
        seq (if lk_denied ev linkdir then complain (''Failed to create directory: '' @ linkdir)
             else modify (\<lambda>s. s\<lparr>lk_dirs := lk_dirs s @ [linkdir]\<rparr>))
            (for_each (link_vm ev linkdir) (snd entry)) s)"

text \<open>The handler of the exit logs out once more.\<close>

definition link_body :: "'k link_env \<Rightarrow> ('k, unit) lk_op" where
  "link_body ev =
     bnd (lift_sum (case lk_input_dir ev of None \<Rightarrow> Inl Link_ArgumentError | Some d \<Rightarrow> Inr d)) (\<lambda>input_dir.
     bnd (get_vms_in_sr_from_xapi ev) (\<lambda>vms.
     seq (for_each (link_sr ev input_dir) vms)
         (\<lambda>s. case lk_logout ev (lk_machine s) of (ok, k) \<Rightarrow> ((if ok then Inr () else Inl Link_Failure), s\<lparr>lk_machine := k\<rparr>))))"

definition link_main :: "'k link_env \<Rightarrow> ('k, unit) lk_op" where
  "link_main ev s =
     (case lk_login ev (lk_machine s) of
        (False, k) \<Rightarrow> (Inl Link_Failure, s\<lparr>lk_machine := k\<rparr>)
      | (True, k) \<Rightarrow>
          (case link_body ev (s\<lparr>lk_machine := k\<rparr>) of
             (r, t) \<Rightarrow> (r, t\<lparr>lk_machine := snd (lk_logout ev (lk_machine t))\<rparr>)))"

section \<open>Lemmas\<close>

text \<open>What the code means to record: a machine uses a repository.\<close>

definition uses :: "pool_records \<Rightarrow> vm_record \<Rightarrow> string \<Rightarrow> bool" where
  "uses r v sruuid \<longleftrightarrow> (\<exists>vbd vdi sr. vbd \<in> set (vm_VBDs v) \<and> map_of (pool_vbds r) vbd = Some vdi \<and> vdi \<noteq> []
     \<and> map_of (pool_vdis r) vdi = Some sr \<and> map_of (pool_srs r) sr = Some sruuid)"

lemma sr_of_vbd_iff:
  "sr_of_vbd r vbd = Some sruuid \<longleftrightarrow> (\<exists>vdi sr. map_of (pool_vbds r) vbd = Some vdi \<and> vdi \<noteq> []
     \<and> map_of (pool_vdis r) vdi = Some sr \<and> map_of (pool_srs r) sr = Some sruuid)"
  by (auto simp: sr_of_vbd_def split: option.splits if_splits)

lemma uses_iff: "uses r v sruuid \<longleftrightarrow> (\<exists>vbd \<in> set (vm_VBDs v). sr_of_vbd r vbd = Some sruuid)"
  unfolding uses_def sr_of_vbd_iff by blast

definition noted :: "(string \<times> string list) list \<Rightarrow> string \<Rightarrow> string \<Rightarrow> bool" where
  "noted d sruuid vmuuid \<longleftrightarrow> (\<exists>vs. map_of d sruuid = Some vs \<and> vmuuid \<in> set vs)"

lemma noted_note_vm: "noted (note_vm a b d) x y \<longleftrightarrow> noted d x y \<or> x = a \<and> y = b"
  by (cases "map_of d a") (auto simp: noted_def note_vm_def update_conv' Let_def)

lemma noted_note_vbds: "noted (note_vbds r v d) x y \<longleftrightarrow> noted d x y \<or> uses r v x \<and> y = vm_uuid v"
proof -
  have "noted (fold (\<lambda>vbd d. case sr_of_vbd r vbd of None \<Rightarrow> d | Some sruuid \<Rightarrow> note_vm sruuid (vm_uuid v) d) vbds d) x y
      \<longleftrightarrow> noted d x y \<or> (\<exists>vbd \<in> set vbds. sr_of_vbd r vbd = Some x) \<and> y = vm_uuid v" for vbds
    by (induction vbds arbitrary: d) (auto simp: noted_note_vm split: option.split)
  then show ?thesis by (simp add: note_vbds_def uses_iff)
qed

lemma noted_vms_in_sr:
  "noted (vms_in_sr r) x y \<longleftrightarrow> (\<exists>(ref, v) \<in> set (pool_vms r). \<not> ignored_vm v \<and> uses r v x \<and> y = vm_uuid v)"
proof -
  have "noted (fold (\<lambda>(x, v) d. if ignored_vm v then d else note_vbds r v d) vms d) x y
      \<longleftrightarrow> noted d x y \<or> (\<exists>(ref, v) \<in> set vms. \<not> ignored_vm v \<and> uses r v x \<and> y = vm_uuid v)" for vms d
    by (induction vms arbitrary: d) (auto simp: noted_note_vbds split: if_splits)
  from this [of "pool_vms r" "[]"] show ?thesis unfolding vms_in_sr_def by (simp add: noted_def [of "[]"])
qed

text \<open>No repository and no machine of a repository is twice in the dictionary.\<close>

definition dict_ok :: "(string \<times> string list) list \<Rightarrow> bool" where
  "dict_ok d \<longleftrightarrow> distinct (map fst d) \<and> (\<forall>k vs. map_of d k = Some vs \<longrightarrow> distinct vs)"

lemma dict_ok_note_vm: "dict_ok d \<Longrightarrow> dict_ok (note_vm a b d)"
  by (cases "map_of d a") (auto simp: dict_ok_def note_vm_def update_conv' Let_def distinct_update)

lemma dict_ok_note_vbds: "dict_ok d \<Longrightarrow> dict_ok (note_vbds r v d)"
proof -
  have "dict_ok (fold (\<lambda>vbd d. case sr_of_vbd r vbd of None \<Rightarrow> d | Some s \<Rightarrow> note_vm s (vm_uuid v) d) vbds d)" if "dict_ok d" for vbds
    using that by (induction vbds arbitrary: d) (simp_all add: dict_ok_note_vm split: option.split)
  then show "dict_ok d \<Longrightarrow> dict_ok (note_vbds r v d)" by (simp add: note_vbds_def)
qed

lemma dict_ok_vms_in_sr: "dict_ok (vms_in_sr r)"
proof -
  have "dict_ok (fold (\<lambda>(x, v) d. if ignored_vm v then d else note_vbds r v d) vms d)" if "dict_ok d" for vms d
    using that by (induction vms arbitrary: d) (auto simp: dict_ok_note_vbds)
  from this [of "[]"] show ?thesis unfolding vms_in_sr_def by (simp add: dict_ok_def [of "[]"])
qed

text \<open>The links a run makes in a directory.\<close>

definition links_in :: "string \<Rightarrow> string list \<Rightarrow> ((string \<times> string) \<times> string) list" where
  "links_in linkdir vs = map (\<lambda>v. ((linkdir, v @ ''.vmmeta''), ''../../all/'' @ v @ ''.vmmeta'')) vs"

lemma link_vms_run:
  assumes "\<And>p. \<not> lk_denied ev p" "linkdir \<in> set (lk_dirs s)" "distinct vs"
    "\<forall>v \<in> set vs. (linkdir, v @ ''.vmmeta'') \<notin> fst ` set (lk_links s)"
  shows "for_each (link_vm ev linkdir) vs s = (Inr (), s\<lparr>lk_links := lk_links s @ links_in linkdir vs\<rparr>)"
  using assms(2-)
proof (induction vs arbitrary: s)
  case (Cons v vs)
  let ?s = "s\<lparr>lk_links := lk_links s @ [((linkdir, v @ ''.vmmeta''), ''../../all/'' @ v @ ''.vmmeta'')]\<rparr>"
  have "link_vm ev linkdir v s = (Inr (), ?s)"
    using Cons.prems assms(1) by (simp add: link_vm_def Let_def)
  moreover have "for_each (link_vm ev linkdir) vs ?s = (Inr (), ?s\<lparr>lk_links := lk_links ?s @ links_in linkdir vs\<rparr>)"
    using Cons.prems by (intro Cons.IH) auto
  ultimately show ?case by (simp add: links_in_def)
qed (simp add: ret_def links_in_def)

text \<open>Links are only in directories that exist.\<close>

definition links_ok :: "'k linker \<Rightarrow> bool" where
  "links_ok s \<longleftrightarrow> (\<forall>l \<in> set (lk_links s). fst (fst l) \<in> set (lk_dirs s))"

lemma link_sr_run:
  assumes "\<And>p. \<not> lk_denied ev p" "links_ok s" "distinct (snd e)"
  shows "\<exists>t. link_sr ev d e s = (Inr (), t) \<and> links_ok t \<and> lk_machine t = lk_machine s
    \<and> set (lk_dirs t) = insert (by_sr_dir d (fst e)) (set (lk_dirs s))
    \<and> lk_links t = lk_links s @ (if by_sr_dir d (fst e) \<in> set (lk_dirs s) then [] else links_in (by_sr_dir d (fst e)) (snd e))"
proof (cases "by_sr_dir d (fst e) \<in> set (lk_dirs s)")
  case True
  then show ?thesis using assms(2) by (auto simp: link_sr_def complain_def modify_def links_ok_def Let_def)
next
  case False
  let ?s = "s\<lparr>lk_dirs := lk_dirs s @ [by_sr_dir d (fst e)]\<rparr>"
  have "for_each (link_vm ev (by_sr_dir d (fst e))) (snd e) ?s = (Inr (), ?s\<lparr>lk_links := lk_links ?s @ links_in (by_sr_dir d (fst e)) (snd e)\<rparr>)"
    using assms False by (intro link_vms_run) (auto simp: links_ok_def)
  with False assms(1) have "link_sr ev d e s = (Inr (), ?s\<lparr>lk_links := lk_links ?s @ links_in (by_sr_dir d (fst e)) (snd e)\<rparr>)"
    by (simp add: link_sr_def seq_def bnd_def modify_def Let_def)
  with False assms(2) show ?thesis by (auto simp: links_ok_def links_in_def)
qed

definition new_links :: "string \<Rightarrow> string list \<Rightarrow> (string \<times> string list) list \<Rightarrow> ((string \<times> string) \<times> string) list" where
  "new_links d dirs es = concat (map (\<lambda>e. links_in (by_sr_dir d (fst e)) (snd e)) (filter (\<lambda>e. by_sr_dir d (fst e) \<notin> set dirs) es))"

lemma link_srs_run:
  assumes "\<And>p. \<not> lk_denied ev p" "links_ok s" "distinct (map fst es)" "\<forall>e \<in> set es. distinct (snd e)"
  shows "\<exists>t. for_each (link_sr ev d) es s = (Inr (), t) \<and> lk_machine t = lk_machine s
    \<and> lk_links t = lk_links s @ new_links d (lk_dirs s) es"
  using assms(2-)
proof (induction es arbitrary: s)
  case (Cons e es)
  obtain t where t: "link_sr ev d e s = (Inr (), t)" "links_ok t" "lk_machine t = lk_machine s"
      "set (lk_dirs t) = insert (by_sr_dir d (fst e)) (set (lk_dirs s))"
      "lk_links t = lk_links s @ (if by_sr_dir d (fst e) \<in> set (lk_dirs s) then [] else links_in (by_sr_dir d (fst e)) (snd e))"
    using link_sr_run [OF assms(1) Cons.prems(1), of e d] Cons.prems(3) by auto
  from Cons.prems(2) have "filter (\<lambda>e. by_sr_dir d (fst e) \<notin> set (lk_dirs t)) es = filter (\<lambda>e. by_sr_dir d (fst e) \<notin> set (lk_dirs s)) es"
    unfolding t(4) by (intro filter_cong) (auto simp: by_sr_dir_def image_iff)
  then have "new_links d (lk_dirs t) es = new_links d (lk_dirs s) es" by (simp add: new_links_def)
  moreover obtain u where "for_each (link_sr ev d) es t = (Inr (), u)" "lk_machine u = lk_machine t" "lk_links u = lk_links t @ new_links d (lk_dirs t) es"
    using Cons.IH [OF t(2)] Cons.prems by auto
  ultimately show ?case using t by (auto simp: new_links_def)
qed (simp add: ret_def new_links_def)

lemma set_new_links:
  assumes "distinct (map fst es)"
  shows "x \<in> set (new_links d dirs es) \<longleftrightarrow> (\<exists>sruuid v. noted es sruuid v \<and> by_sr_dir d sruuid \<notin> set dirs
      \<and> x = ((by_sr_dir d sruuid, v @ ''.vmmeta''), ''../../all/'' @ v @ ''.vmmeta''))"
proof -
  have mem: "noted es sruuid v \<longleftrightarrow> (\<exists>vs. (sruuid, vs) \<in> set es \<and> v \<in> set vs)" for sruuid v
    using assms by (auto simp: noted_def dest: map_of_SomeD)
  show ?thesis unfolding mem new_links_def links_in_def by force
qed

lemma distinct_new_links:
  assumes "distinct (map fst es)" "\<forall>e \<in> set es. distinct (snd e)"
  shows "distinct (new_links d dirs es)"
  using assms
proof (induction es)
  case (Cons e es)
  have "distinct (links_in (by_sr_dir d (fst e)) (snd e))"
    using Cons.prems(2) by (simp add: links_in_def distinct_map inj_on_def)
  moreover have "set (links_in (by_sr_dir d (fst e)) (snd e)) \<inter> set (new_links d dirs es) = {}"
    using Cons.prems(1) by (auto simp: links_in_def new_links_def by_sr_dir_def)
  ultimately show ?case using Cons by (simp add: new_links_def)
qed (simp add: new_links_def)

text \<open>
  C20: When the file system refuses nothing, the links that a run adds are, in the
  directory of every repository that had none, one link for each machine that
  uses the repository, through a block device with a disk of it, and is no
  built-in template, control domain or snapshot, to the metadata of that
  machine. Templates that users made do get links.
\<close>

theorem links_partition_vms:
  assumes "\<And>p. \<not> lk_denied ev p" and "links_ok s"
    and "lk_input_dir ev = Some d" and "\<And>k. fst (lk_login ev k)" and "\<And>k. fst (lk_logout ev k)" and "\<And>k. fst (lk_records ev k) = Some r"
  shows "\<exists>t added. link_main ev s = (Inr (), t) \<and> lk_links t = lk_links s @ added \<and> distinct added
    \<and> (\<forall>x. x \<in> set added \<longleftrightarrow> (\<exists>ref v sruuid. (ref, v) \<in> set (pool_vms r)
          \<and> vm_default_template v \<noteq> Some ''true'' \<and> \<not> vm_is_control_domain v \<and> \<not> vm_is_a_snapshot v
          \<and> uses r v sruuid \<and> d @ ''/by-sr/'' @ sruuid \<notin> set (lk_dirs s)
          \<and> x = ((d @ ''/by-sr/'' @ sruuid, vm_uuid v @ ''.vmmeta''), ''../../all/'' @ vm_uuid v @ ''.vmmeta'')))"
proof -
  let ?es = "vms_in_sr r"
  obtain k where k: "lk_login ev (lk_machine s) = (True, k)" using assms(4) by (metis prod.collapse)
  obtain k2 where k2: "lk_records ev k = (Some r, k2)" using assms(6) by (metis prod.collapse)
  let ?s = "s\<lparr>lk_machine := k2\<rparr>"
  have ok: "distinct (map fst ?es)" "\<forall>e \<in> set ?es. distinct (snd e)"
    using dict_ok_vms_in_sr [of r] unfolding dict_ok_def by (simp, metis map_of_is_SomeI prod.collapse)
  obtain t where t: "for_each (link_sr ev d) ?es ?s = (Inr (), t)"
      "lk_links t = lk_links s @ new_links d (lk_dirs s) ?es"
    using link_srs_run [OF assms(1) _ ok, of ?s d] assms(2) by (auto simp: links_ok_def)
  obtain k3 where "lk_logout ev (lk_machine t) = (True, k3)" using assms(5) by (metis prod.collapse)
  then have run: "link_main ev s = (Inr (), t\<lparr>lk_machine := snd (lk_logout ev k3)\<rparr>)"
    using t(1) by (simp add: link_main_def link_body_def k k2 assms(3) get_vms_in_sr_from_xapi_def bnd_def lift_sum_def seq_def)
  have "x \<in> set (new_links d (lk_dirs s) ?es) \<longleftrightarrow> (\<exists>ref v sruuid. (ref, v) \<in> set (pool_vms r)
          \<and> vm_default_template v \<noteq> Some ''true'' \<and> \<not> vm_is_control_domain v \<and> \<not> vm_is_a_snapshot v
          \<and> uses r v sruuid \<and> d @ ''/by-sr/'' @ sruuid \<notin> set (lk_dirs s)
          \<and> x = ((d @ ''/by-sr/'' @ sruuid, vm_uuid v @ ''.vmmeta''), ''../../all/'' @ vm_uuid v @ ''.vmmeta''))" for x
    unfolding set_new_links [OF ok(1)] noted_vms_in_sr ignored_vm_def by_sr_dir_def by blast
  with run t(2) distinct_new_links [OF ok] show ?thesis
    by (intro exI [of _ "t\<lparr>lk_machine := snd (lk_logout ev k3)\<rparr>"] exI [of _ "new_links d (lk_dirs s) ?es"]) simp
qed

text \<open>
  The witness: a machine with a disk and an empty drive, a template that a
  user made, and machines that are ignored.
\<close>

definition demo_vm :: "string option \<Rightarrow> bool \<Rightarrow> bool \<Rightarrow> string \<Rightarrow> vm_record" where
  "demo_vm template dom0 snapshot uuid =
     \<lparr>vm_default_template = template, vm_is_control_domain = dom0, vm_is_a_snapshot = snapshot,
      vm_VBDs = [''b'', ''e''], vm_uuid = uuid\<rparr>"

definition demo_vms :: pool_records where
  "demo_vms = \<lparr>pool_vms = [(''a'', demo_vm None False False ''u''), (''c'', demo_vm (Some ''true'') False False ''w''),
      (''t'', demo_vm (Some ''false'') False False ''x''), (''n'', demo_vm None False True ''y'')],
     pool_vbds = [(''b'', ''d''), (''e'', [])], pool_vdis = [(''d'', ''s'')], pool_srs = [(''s'', ''sr'')]\<rparr>"

definition demo_linker :: "unit link_env" where
  "demo_linker = \<lparr>lk_login = (\<lambda>k. (True, k)), lk_records = (\<lambda>k. (Some demo_vms, k)), lk_logout = (\<lambda>k. (True, k)),
     lk_input_dir = Some ''/m'', lk_denied = (\<lambda>p. False)\<rparr>"

lemma demo_uses: "uses demo_vms (demo_vm a b c u) sruuid \<longleftrightarrow> sruuid = ''sr''"
proof -
  have "sr_of_vbd demo_vms ''b'' = Some ''sr''" "sr_of_vbd demo_vms ''e'' = None" by code_simp+
  then show ?thesis unfolding uses_iff demo_vm_def by auto
qed

lemma demo_vm_simps: "vm_default_template (demo_vm a b c u) = a" "vm_is_control_domain (demo_vm a b c u) = b"
  "vm_is_a_snapshot (demo_vm a b c u) = c" "vm_uuid (demo_vm a b c u) = u"
  by (simp_all add: demo_vm_def)

lemma demo_machines: "(ref, v) \<in> set (pool_vms demo_vms) \<longleftrightarrow> (ref, v) \<in> {(''a'', demo_vm None False False ''u''),
    (''c'', demo_vm (Some ''true'') False False ''w''), (''t'', demo_vm (Some ''false'') False False ''x''),
    (''n'', demo_vm None False True ''y'')}"
  by (simp add: demo_vms_def)

lemma links_partition_vms_witness:
  "set (lk_links (snd (link_main demo_linker \<lparr>lk_machine = (), lk_dirs = [], lk_links = [], lk_stderr = []\<rparr>)))
    = {((''/m/by-sr/sr'', ''u.vmmeta''), ''../../all/u.vmmeta''), ((''/m/by-sr/sr'', ''x.vmmeta''), ''../../all/x.vmmeta'')}"
proof -
  let ?s = "\<lparr>lk_machine = (), lk_dirs = [], lk_links = [], lk_stderr = []\<rparr>"
  have hyps: "\<not> lk_denied demo_linker p" "links_ok ?s" "lk_input_dir demo_linker = Some ''/m''" "fst (lk_login demo_linker k)"
    "fst (lk_logout demo_linker k)" "fst (lk_records demo_linker k) = Some demo_vms" for p k
    by (simp_all add: demo_linker_def links_ok_def)
  obtain t added where t: "link_main demo_linker ?s = (Inr (), t)" "lk_links t = lk_links ?s @ added"
    and added: "\<forall>x. x \<in> set added \<longleftrightarrow> (\<exists>ref v sruuid. (ref, v) \<in> set (pool_vms demo_vms)
          \<and> vm_default_template v \<noteq> Some ''true'' \<and> \<not> vm_is_control_domain v \<and> \<not> vm_is_a_snapshot v
          \<and> uses demo_vms v sruuid \<and> ''/m'' @ ''/by-sr/'' @ sruuid \<notin> set (lk_dirs ?s)
          \<and> x = ((''/m'' @ ''/by-sr/'' @ sruuid, vm_uuid v @ ''.vmmeta''), ''../../all/'' @ vm_uuid v @ ''.vmmeta''))"
    using links_partition_vms [OF hyps] by blast
  have "x \<in> set added \<longleftrightarrow> x \<in> {((''/m/by-sr/sr'', ''u.vmmeta''), ''../../all/u.vmmeta''),
      ((''/m/by-sr/sr'', ''x.vmmeta''), ''../../all/x.vmmeta'')}" for x
    unfolding added [rule_format] demo_machines
    by (simp add: conj_disj_distribR ex_disj_distrib demo_uses demo_vm_simps)
  then show ?thesis using t by auto
qed

end
