(* ===== verification/Py_Config.thy ===== *)
theory Py_Config
  imports Py_Text
begin

text \<open>
  The reader of configuration files \<^verbatim>\<open>configparser.ConfigParser(interpolation=None)\<close>
  of the standard library, as far as \<^verbatim>\<open>observer.py\<close> uses it: sections, options with
  \<^verbatim>\<open>=\<close> or \<^verbatim>\<open>:\<close>, comments on lines of their own, values continued on indented lines.
\<close>

datatype config_error = ParsingError | DuplicateError

text \<open>Sections and their options, with the lines of each value.\<close>

type_synonym options = "(string \<times> string list) list"

record config_parser =
  cp_sections :: "(string \<times> options) list"
  cp_defaults :: options
  cp_current :: "string option"
  cp_option :: string
  cp_indent :: nat
  cp_seen :: "(string \<times> string option) list"
  cp_bad :: bool

definition new_parser :: config_parser where
  "new_parser = \<lparr>cp_sections = [], cp_defaults = [], cp_current = None, cp_option = [], cp_indent = 0, cp_seen = [], cp_bad = False\<rparr>"

definition DEFAULTSECT :: string where "DEFAULTSECT = ''DEFAULT''"

text \<open>The options of a section, and their change.\<close>

definition options_of :: "string \<Rightarrow> config_parser \<Rightarrow> options" where
  "options_of sect p =
     (if sect = DEFAULTSECT then cp_defaults p
      else case map_of (cp_sections p) sect of None \<Rightarrow> [] | Some os \<Rightarrow> os)"

definition set_options :: "string \<Rightarrow> options \<Rightarrow> config_parser \<Rightarrow> config_parser" where
  "set_options sect os p =
     (if sect = DEFAULTSECT then p\<lparr>cp_defaults := os\<rparr> else p\<lparr>cp_sections := AList.update sect os (cp_sections p)\<rparr>)"

definition append_value :: "string \<Rightarrow> string \<Rightarrow> config_parser \<Rightarrow> config_parser" where
  "append_value sect value p =
     (case map_of (options_of sect p) (cp_option p) of
        None \<Rightarrow> p
      | Some ls \<Rightarrow> set_options sect (AList.update (cp_option p) (ls @ [value]) (options_of sect p)) p)"

text \<open>A section header: the longest text between brackets.\<close>

definition section_name :: "string \<Rightarrow> string option" where
  "section_name value =
     (let r = rev (dropWhile (\<lambda>c. c \<noteq> CHR '']'') (rev value)) in
      if take 1 value = ''['' \<and> length r > 2 then Some (butlast (tl r)) else None)"

text \<open>An option and its value, at the first delimiter.\<close>

definition split_option :: "string \<Rightarrow> (string \<times> string) option" where
  "split_option value =
     (let delim = (\<lambda>c. c = CHR ''='' \<or> c = CHR '':''); k = takeWhile (\<lambda>c. \<not> delim c) value in
      if k = value then None else Some (py_rstrip k, py_strip (drop (length k + 1) value)))"

definition read_header :: "string \<Rightarrow> config_parser \<Rightarrow> config_error + config_parser" where
  "read_header sect p =
     (let p = p\<lparr>cp_current := Some sect, cp_option := []\<rparr> in
      if sect = DEFAULTSECT then Inr p
      else if (sect, None) \<in> set (cp_seen p) then Inl DuplicateError
      else Inr (p\<lparr>cp_sections := cp_sections p @ [(sect, [])], cp_seen := (sect, None) # cp_seen p\<rparr>))"

text \<open>A line without an option, or with an empty one, is remembered as an error.\<close>

definition read_option :: "string \<Rightarrow> string \<Rightarrow> config_parser \<Rightarrow> config_error + config_parser" where
  "read_option sect value p =
     (case split_option value of
        None \<Rightarrow> Inr (p\<lparr>cp_bad := True\<rparr>)
      | Some (k, v) \<Rightarrow>
          (let optname = py_lower k; p = (if k = [] then p\<lparr>cp_bad := True\<rparr> else p) in
           if (sect, Some optname) \<in> set (cp_seen p) then Inl DuplicateError
           else Inr (set_options sect (AList.update optname [v] (options_of sect p))
                      (p\<lparr>cp_option := optname, cp_seen := (sect, Some optname) # cp_seen p\<rparr>))))"

definition read_config_line :: "string \<Rightarrow> config_parser \<Rightarrow> config_error + config_parser" where
  "read_config_line line p =
     (let stripped = py_strip line; comment = (take 1 stripped = ''#'' \<or> take 1 stripped = '';'') in
      if stripped = [] \<or> comment then
        Inr (case cp_current p of
               Some sect \<Rightarrow> if \<not> comment \<and> cp_option p \<noteq> [] then append_value sect [] p else p
             | None \<Rightarrow> p)
      else
        (let indent = length (takeWhile str_space line) in
         if cp_current p \<noteq> None \<and> cp_option p \<noteq> [] \<and> indent > cp_indent p
         then Inr (append_value (the (cp_current p)) stripped p)
         else
           (let p = p\<lparr>cp_indent := indent\<rparr> in
            case section_name stripped of
              Some sect \<Rightarrow> read_header sect p
            | None \<Rightarrow>
                (case cp_current p of
                   None \<Rightarrow> Inl ParsingError
                 | Some sect \<Rightarrow> read_option sect stripped p))))"

text \<open>
  The lines of a value are joined, and white space at its end is dropped. The
  options of the default section complete those of each other section.
\<close>

definition join_value :: "string list \<Rightarrow> string" where
  "join_value ls = py_rstrip (py_join [CHR 0x0A] ls)"

definition section_dict :: "string \<Rightarrow> config_parser \<Rightarrow> (string \<times> string) list" where
  "section_dict sect p =
     (let os = options_of sect p in
      map (\<lambda>(k, ls). (k, join_value ls)) (os @ filter (\<lambda>(k, ls). k \<notin> fst ` set os) (cp_defaults p)))"

text \<open>The lines of a text, with \<open>[header]\<close> first, and the dictionary of that section.\<close>

definition parse_section :: "string \<Rightarrow> string \<Rightarrow> config_error + (string \<times> string) list" where
  "parse_section header text =
     sbind (sfold read_config_line (splitlines (''['' @ header @ '']'' @ [CHR 0x0A] @ text)) new_parser) (\<lambda>p.
     if cp_bad p then Inl ParsingError else Inr (section_dict header p))"

section \<open>Reading options that were written\<close>

definition option_line :: "string \<times> string \<Rightarrow> string" where
  "option_line kv = fst kv @ ''='' @ snd kv"

text \<open>
  An option that is read back unchanged: a key in small letters that is no comment and
  no header, and text on one line without white space at its ends.
\<close>

definition plain :: "string \<Rightarrow> bool" where
  "plain t \<longleftrightarrow> list_all (\<lambda>c. c \<noteq> CHR 0x0A \<and> c \<noteq> CHR 0x0D) t \<and> (t = [] \<or> \<not> str_space (hd t) \<and> \<not> str_space (last t))"

definition plain_option :: "string \<times> string \<Rightarrow> bool" where
  "plain_option kv \<longleftrightarrow> plain (fst kv) \<and> plain (snd kv) \<and> fst kv \<noteq> [] \<and> py_lower (fst kv) = fst kv
     \<and> list_all (\<lambda>c. c \<noteq> CHR ''='' \<and> c \<noteq> CHR '':'') (fst kv) \<and> hd (fst kv) \<notin> {CHR ''#'', CHR '';'', CHR ''[''}"

lemma plain_rstrip: "t = [] \<or> \<not> str_space (last t) \<Longrightarrow> py_rstrip t = t"
  by (cases t rule: rev_cases) (auto simp: py_rstrip_def)

lemma plain_strip: "plain t \<Longrightarrow> py_strip t = t"
  by (rule py_strip_inner) (auto simp: plain_def)

lemma option_line_split:
  assumes "plain_option (k, v)"
  shows "split_option (option_line (k, v)) = Some (k, v)"
proof -
  have "takeWhile (\<lambda>c. \<not> (c = CHR ''='' \<or> c = CHR '':'')) (k @ CHR ''='' # v) = k"
    using assms by (induction k arbitrary: v) (auto simp: plain_option_def takeWhile_tail list_all_iff intro: takeWhile_eq_all_conv [THEN iffD2])
  moreover have "py_rstrip k = k" using assms by (intro plain_rstrip) (auto simp: plain_option_def plain_def)
  ultimately show ?thesis
    using assms plain_strip [of v] by (simp add: split_option_def option_line_def plain_option_def Let_def)
qed

lemma option_line_start:
  assumes "plain_option (k, v)"
  shows "py_strip (option_line (k, v)) = option_line (k, v)" "takeWhile str_space (option_line (k, v)) = []"
    "take 1 (option_line (k, v)) = [hd k]" "option_line (k, v) \<noteq> []"
proof -
  have k: "k \<noteq> []" "\<not> str_space (hd k)" using assms by (auto simp: plain_option_def plain_def)
  have "v = [] \<or> \<not> str_space (last v)" using assms by (auto simp: plain_option_def plain_def)
  then show "py_strip (option_line (k, v)) = option_line (k, v)"
    using k by (intro py_strip_inner) (auto simp: option_line_def str_space_def)
  show "takeWhile str_space (option_line (k, v)) = []" "take 1 (option_line (k, v)) = [hd k]" "option_line (k, v) \<noteq> []"
    using k by (cases k; simp add: option_line_def)+
qed

text \<open>A parser in a section that it has read.\<close>

definition reading :: "string \<Rightarrow> (string \<times> string) list \<Rightarrow> config_parser \<Rightarrow> bool" where
  "reading sect es p \<longleftrightarrow> sect \<noteq> DEFAULTSECT \<and> cp_sections p = [(sect, map (\<lambda>(k, v). (k, [v])) es)] \<and> cp_defaults p = []
     \<and> cp_current p = Some sect \<and> set (cp_seen p) = insert (sect, None) ((\<lambda>(k, v). (sect, Some k)) ` set es) \<and> \<not> cp_bad p"

lemma reading_seen: "reading sect es p \<Longrightarrow> (sect, Some k) \<in> set (cp_seen p) \<longleftrightarrow> k \<in> fst ` set es"
  by (simp add: reading_def image_iff case_prod_beta)

lemma read_option_line:
  assumes "reading sect es p" "plain_option (k, v)"
  shows "if k \<in> fst ` set es then read_config_line (option_line (k, v)) p = Inl DuplicateError
    else \<exists>q. read_config_line (option_line (k, v)) p = Inr q \<and> reading sect (es @ [(k, v)]) q"
proof -
  have k: "k \<noteq> []" "py_lower k = k" "hd k \<noteq> CHR ''#''" "hd k \<noteq> CHR '';''" "hd k \<noteq> CHR ''[''"
    using assms(2) by (auto simp: plain_option_def)
  have "section_name (option_line (k, v)) = None"
    using option_line_start(3) [OF assms(2)] k(5) by (simp add: section_name_def Let_def)
  then have line: "read_config_line (option_line (k, v)) p = read_option sect (option_line (k, v)) (p\<lparr>cp_indent := 0\<rparr>)"
    using assms(1) k option_line_start [OF assms(2)] by (simp add: read_config_line_def Let_def reading_def)
  show ?thesis
  proof (cases "k \<in> fst ` set es")
    case True
    then show ?thesis
      using k reading_seen [OF assms(1)] by (simp add: line read_option_def option_line_split [OF assms(2)] Let_def)
  next
    case False
    have "AList.update k [v] (map (\<lambda>(k, v). (k, [v])) es) = map (\<lambda>(k, v). (k, [v])) es @ [(k, [v])]"
      using False by (intro update_new) (simp add: map_of_eq_None_iff image_image case_prod_beta)
    with False show ?thesis
      using k assms(1) reading_seen [OF assms(1)]
      by (auto simp: line read_option_def option_line_split [OF assms(2)] Let_def reading_def set_options_def options_of_def)
  qed
qed

lemma read_option_lines:
  assumes "reading sect es p" "list_all plain_option os" "distinct (map fst es)"
  shows "if distinct (map fst (es @ os)) then \<exists>q. sfold read_config_line (map option_line os) p = Inr q \<and> reading sect (es @ os) q
    else sfold read_config_line (map option_line os) p = Inl DuplicateError"
  using assms
proof (induction os arbitrary: es p)
  case (Cons e os)
  obtain k v where e: "e = (k, v)" by (cases e)
  have pl: "plain_option (k, v)" "list_all plain_option os" using Cons.prems(2) by (simp_all add: e)
  show ?case
  proof (cases "k \<in> fst ` set es")
    case True
    then have "\<not> distinct (map fst (es @ e # os))" by (auto simp: e)
    moreover have "sfold read_config_line (map option_line (e # os)) p = Inl DuplicateError"
      using True read_option_line [OF Cons.prems(1) pl(1)] by (simp add: e)
    ultimately show ?thesis by (simp only: if_False)
  next
    case False
    then obtain q where q: "read_config_line (option_line (k, v)) p = Inr q" "reading sect (es @ [(k, v)]) q"
      using read_option_line [OF Cons.prems(1) pl(1)] by auto
    have "distinct (map fst (es @ [(k, v)]))" using Cons.prems(3) False by simp
    note IH = Cons.IH [OF q(2) pl(2) this]
    have "sfold read_config_line (map option_line (e # os)) p = sfold read_config_line (map option_line os) q" by (simp add: e q(1))
    moreover have "(es @ [(k, v)]) @ os = es @ e # os" by (simp add: e)
    ultimately show ?thesis using IH by (simp only:)
  qed
qed simp

definition options_text :: "(string \<times> string) list \<Rightarrow> string" where
  "options_text os = concat (map (\<lambda>kv. option_line kv @ [CHR 0x0A]) os)"

lemma splitlines_options: "list_all plain_option os \<Longrightarrow> splitlines (options_text os) = map option_line os"
proof (induction os)
  case (Cons e os)
  then have "list_all (\<lambda>c. c \<noteq> CHR 0x0A \<and> c \<noteq> CHR 0x0D) (option_line e)"
    by (cases e) (auto simp: plain_option_def plain_def option_line_def)
  from splitlines_line [OF this] Cons show ?case by (simp add: options_text_def)
qed (simp add: options_text_def)

definition plain_header :: "string \<Rightarrow> bool" where
  "plain_header h \<longleftrightarrow> h \<noteq> [] \<and> h \<noteq> DEFAULTSECT \<and> list_all (\<lambda>c. c \<noteq> CHR 0x0A \<and> c \<noteq> CHR 0x0D) h"

lemma read_header_line:
  assumes "plain_header h"
  shows "\<exists>q. read_config_line (''['' @ h @ '']'') new_parser = Inr q \<and> reading h [] q"
proof -
  have "py_strip (''['' @ h @ '']'') = ''['' @ h @ '']''" by (rule py_strip_inner) (simp_all add: str_space_def)
  moreover have "section_name (''['' @ h @ '']'') = Some h"
    using assms by (simp add: section_name_def plain_header_def)
  ultimately show ?thesis
    using assms by (simp add: read_config_line_def new_parser_def read_header_def reading_def plain_header_def Let_def)
qed

text \<open>
  A file of plain options with different keys reads back as these options; when a key
  is repeated the reader raises, but not a \<^verbatim>\<open>ParsingError\<close>.
\<close>

lemma parse_plain_options:
  assumes "plain_header h" "list_all plain_option os"
  shows "parse_section h (options_text os) = (if distinct (map fst os) then Inr os else Inl DuplicateError)"
proof -
  obtain q where q: "read_config_line (''['' @ h @ '']'') new_parser = Inr q" "reading h [] q"
    using read_header_line [OF assms(1)] by blast
  have "splitlines (''['' @ h @ '']'' @ [CHR 0x0A] @ options_text os) = (''['' @ h @ '']'') # map option_line os"
    using splitlines_line [of "''['' @ h @ '']''" "options_text os"] assms by (simp add: splitlines_options plain_header_def)
  then have read: "sfold read_config_line (splitlines (''['' @ h @ '']'' @ [CHR 0x0A] @ options_text os)) new_parser
      = sfold read_config_line (map option_line os) q"
    using q(1) by simp
  show ?thesis
  proof (cases "distinct (map fst os)")
    case True
    then obtain r where r: "sfold read_config_line (map option_line os) q = Inr r" "reading h os r"
      using read_option_lines [OF q(2) assms(2)] by auto
    have "map (\<lambda>(k, ls). (k, join_value ls)) (map (\<lambda>(k, v). (k, [v])) os) = os"
      using assms(2) by (induction os) (auto simp: join_value_def plain_option_def plain_def intro!: plain_rstrip)
    with r True show ?thesis
      unfolding parse_section_def read by (simp add: section_dict_def options_of_def reading_def)
  next
    case False
    then show ?thesis
      using read_option_lines [OF q(2) assms(2)] unfolding parse_section_def read by simp
  qed
qed

end
