(* ===== verification/Observer.thy ===== *)
theory Observer
  imports Py_Config
begin

text \<open>
  The script \<^verbatim>\<open>python3/packages/observer.py\<close>, which runs another Python script with its
  function calls traced: the configuration, the set-up of tracing with its fall
  back, the decorators, the exporter that writes files, and the exit codes. The
  libraries OpenTelemetry and wrapt and the script are arguments.
\<close>

section \<open>State\<close>

text \<open>
  \<open>Ob_Exception\<close> stands for any other exception, by its message. \<open>ob_lib\<close> is the state of the
  libraries, with the spans; \<open>ob_prog\<close> is what the traced script works on.
\<close>

datatype ob_error =
    Ob_FileNotFound string
  | Ob_ImportError
  | Ob_ValueError
  | Ob_DuplicateOption
  | Ob_Exception string

record ('k, 'p) observer =
  ob_lib :: 'k
  ob_environ :: "(string \<times> string) list"
  ob_stderr :: "string list"
  ob_prog :: 'p

type_synonym ('k, 'p, 'a) ob_op = "(('k, 'p) observer, ob_error, 'a) st"

text \<open>A tracer: the start of a span, its attributes and its end, which does not raise.\<close>

record ('k, 'p) tracer =
  tr_start :: "string \<Rightarrow> ('k, 'p, unit) ob_op"
  tr_set :: "string \<Rightarrow> string \<Rightarrow> ('k, 'p, unit) ob_op"
  tr_end :: "('k, 'p) observer \<Rightarrow> ('k, 'p) observer"

text \<open>What is computed of a configuration file and handed to the libraries.\<close>

record tracer_plan =
  tp_attributes :: "(string \<times> string) list"
  tp_service_name :: string
  tp_host_uuid :: string
  tp_tracestate :: string
  tp_traceparent :: "string option"
  tp_log_dir :: string
  tp_endpoints :: "string list"

text \<open>
  Directory and files of the host; the import of the libraries, the making of a tracer and
  the hook on the import of a module.
\<close>

record ('k, 'p) ob_env =
  ob_listdir :: "string \<Rightarrow> ob_error + (string \<times> bool) list"
  ob_read :: "string \<Rightarrow> ob_error + string"
  lib_import :: "('k, 'p, unit) ob_op"
  lib_tracer :: "tracer_plan \<Rightarrow> ('k, 'p, ('k, 'p) tracer) ob_op"
  lib_patch :: "string \<Rightarrow> ('k, 'p, unit) ob_op"

definition DEFAULT_MODULES :: string where
  "DEFAULT_MODULES = ''LVHDSR,XenAPI,SR,SRCommand,util''"

definition environ_of :: "string \<Rightarrow> ('k, 'p) observer \<Rightarrow> string option" where
  "environ_of name s = map_of (ob_environ s) name"

definition set_environ :: "string \<Rightarrow> string \<Rightarrow> ('k, 'p, unit) ob_op" where
  "set_environ name v = modify (\<lambda>s. s\<lparr>ob_environ := AList.update name v (ob_environ s)\<rparr>)"

section \<open>Configuration\<close>

definition ends_with :: "string \<Rightarrow> string \<Rightarrow> bool" where
  "ends_with e t \<longleftrightarrow> length e \<le> length t \<and> drop (length t - length e) t = e"

definition get_configs_list :: "('k, 'p) ob_env \<Rightarrow> string \<Rightarrow> ob_error + string list" where
  "get_configs_list ev config_dir =
     (case ob_listdir ev config_dir of
        Inl (Ob_FileNotFound f) \<Rightarrow> Inr []
      | Inl e \<Rightarrow> Inl e
      | Inr fs \<Rightarrow> Inr (map (\<lambda>(f, is_file). config_dir @ ''/'' @ f)
                        (filter (\<lambda>(f, is_file). is_file \<and> ends_with ''observer.conf'' f) fs)))"

definition read_config :: "('k, 'p) ob_env \<Rightarrow> string \<Rightarrow> string \<Rightarrow> ob_error + (string \<times> string) list" where
  "read_config ev config_path header =
     sbind (ob_read ev config_path) (\<lambda>t.
     case parse_section header t of
       Inl ParsingError \<Rightarrow> Inr []
     | Inl DuplicateError \<Rightarrow> Inl Ob_DuplicateOption
     | Inr d \<Rightarrow> Inr (map (\<lambda>(k, v). (k, py_strip_chars {CHR 0x27} v)) d))"

text \<open>\<^verbatim>\<open>dict(item.split(sep) for item in items if "=" in item)\<close>: every part must have two elements.\<close>

definition pairs_dict :: "string list list \<Rightarrow> ob_error + (string \<times> string) list" where
  "pairs_dict items =
     sfold (\<lambda>ps d. case ps of [k, v] \<Rightarrow> Inr (AList.update k v d) | _ \<Rightarrow> Inl Ob_ValueError) items []"

definition attributes_of :: "string \<Rightarrow> ob_error + (string \<times> string) list" where
  "attributes_of t = pairs_dict (map (py_split CHR ''='') (filter (\<lambda>item. CHR ''='' \<in> set item) (py_split CHR '','' t)))"

text \<open>\<^verbatim>\<open>item.split("=", 1)\<close>\<close>

definition split_once :: "char \<Rightarrow> string \<Rightarrow> string list" where
  "split_once c t = (case py_find c t of None \<Rightarrow> [t] | Some i \<Rightarrow> [take i t, drop (i + 1) t])"

definition baggage_of :: "string \<Rightarrow> ob_error + (string \<times> string) list" where
  "baggage_of t = pairs_dict (map (split_once CHR ''='') (filter (\<lambda>item. CHR ''='' \<in> set item) (py_split CHR '';'' t)))"

definition lookup_or :: "string \<Rightarrow> string \<Rightarrow> (string \<times> string) list \<Rightarrow> string" where
  "lookup_or k t d = (case map_of d k of None \<Rightarrow> t | Some v \<Rightarrow> v)"

definition OTELVARS :: string where
  "OTELVARS = ''opentelemetry-python.readthedocs.io/en/latest/sdk/environment_variables.html''"

text \<open>The part of the set-up that only computes.\<close>

definition plan_of :: "(string \<times> string) list \<Rightarrow> (string \<times> string) list \<Rightarrow> ob_error + tracer_plan" where
  "plan_of config environ =
     (let endpoints = lookup_or ''xs_exporter_zipkin_endpoints'' [] config; baggage = lookup_or ''BAGGAGE'' [] environ in
      sbind (attributes_of (lookup_or ''otel_resource_attributes'' [] config)) (\<lambda>attrs.
      sbind (if baggage = [] then Inr attrs
             else sbind (baggage_of baggage) (\<lambda>b. Inr (fold (\<lambda>(k, v). AList.update k v) b attrs))) (\<lambda>attrs.
      Inr \<lparr>tp_attributes = attrs,
           tp_service_name = lookup_or ''otel_service_name'' (lookup_or ''service.name'' ''unknown'' attrs) config,
           tp_host_uuid = lookup_or ''xs.host.uuid'' ''unknown'' attrs,
           tp_tracestate = filter (\<lambda>c. c \<noteq> CHR ''.'') (py_strip_chars {CHR 0x27} (lookup_or ''TRACESTATE'' ''unknown'' environ)),
           tp_traceparent = map_of environ ''TRACEPARENT'',
           tp_log_dir = lookup_or ''xs_exporter_bugtool_endpoint'' [] config,
           tp_endpoints = (if endpoints = [] then [] else py_split CHR '','' endpoints)\<rparr>)))"

definition create_tracer_from_config :: "('k, 'p) ob_env \<Rightarrow> string \<Rightarrow> ('k, 'p, ('k, 'p) tracer) ob_op" where
  "create_tracer_from_config ev path =
     bnd (lift_sum (read_config ev path OTELVARS)) (\<lambda>config.
     (let attrs = lookup_or ''otel_resource_attributes'' [] config in
      seq (if attrs \<noteq> [] then set_environ ''OTEL_RESOURCE_ATTRIBUTES'' attrs else ret ())
      (bnd (gets ob_environ) (\<lambda>environ.
       bnd (lift_sum (plan_of config environ)) (lib_tracer ev)))))"

text \<open>The name of a file for spans, at a time.\<close>

definition bugtool_filename :: "tracer_plan \<Rightarrow> string \<Rightarrow> string" where
  "bugtool_filename p now =
     tp_log_dir p @ ''/'' @ tp_service_name p @ ''-'' @ tp_host_uuid p @ ''-'' @ tp_tracestate p @ ''-'' @ now @ ''.ndjson''"

section \<open>Spans around calls\<close>

definition with_span :: "('k, 'p) tracer \<Rightarrow> string \<Rightarrow> ('k, 'p, 'a) ob_op \<Rightarrow> ('k, 'p, 'a) ob_op" where
  "with_span t name body =
     seq (tr_start t name) (\<lambda>s. case body s of (r, s') \<Rightarrow> (r, tr_end t s'))"

datatype kind = Class | Partial | Function | Callable

text \<open>
  A callable with its attributes. \<open>fn_bind\<close> binds the arguments to the parameters and
  prints them, which runs their methods; for a class \<open>fn_args\<close> prints them as they are.
\<close>

record ('k, 'p, 'a, 'v) callable =
  fn_module :: "string option"
  fn_qualname :: "string option"
  fn_text :: string
  fn_kind :: kind
  fn_bind :: "'a \<Rightarrow> ('k, 'p, (string \<times> string) list) ob_op"
  fn_args :: "'a \<Rightarrow> ('k, 'p, string \<times> string) ob_op"
  fn_call :: "'a \<Rightarrow> ('k, 'p, 'v) ob_op"

definition span_name :: "string \<Rightarrow> ('k, 'p, 'a, 'v) callable \<Rightarrow> string" where
  "span_name span_name_prefix f =
     (let module_name = (case fn_module f of None \<Rightarrow> [] | Some m \<Rightarrow> m); qual_name = (case fn_qualname f of None \<Rightarrow> [] | Some q \<Rightarrow> q) in
      if module_name = [] \<and> qual_name = [] then fn_text f
      else (if span_name_prefix \<noteq> [] then span_name_prefix @ '':'' else []) @ module_name @ '':'' @ qual_name)"

definition set_attributes :: "('k, 'p) tracer \<Rightarrow> ('k, 'p, 'a, 'v) callable \<Rightarrow> 'a \<Rightarrow> ('k, 'p, unit) ob_op" where
  "set_attributes t f a =
     (case fn_kind f of
        Class \<Rightarrow> bnd (fn_args f a) (\<lambda>(args, kwargs).
          seq (tr_set t ''xs.span.args.str'' args) (tr_set t ''xs.span.kwargs.str'' kwargs))
      | Partial \<Rightarrow> ret ()
      | Function \<Rightarrow> bnd (fn_bind f a) (for_each (\<lambda>(k, v). tr_set t (''xs.span.arg.'' @ k) v))
      | Callable \<Rightarrow> ret ())"

definition instrument_function :: "('k, 'p) tracer list \<Rightarrow> string \<Rightarrow> ('k, 'p, 'a, 'v) callable \<Rightarrow> 'a \<Rightarrow> ('k, 'p, 'v) ob_op" where
  "instrument_function tracers span_name_prefix f a =
     (case tracers of
        [] \<Rightarrow> fn_call f a
      | t # ts \<Rightarrow> with_span t (span_name span_name_prefix f) (seq (set_attributes t f a) (fn_call f a)))"

definition instrument :: "('k, 'p) tracer list \<Rightarrow> string \<Rightarrow> ('k, 'p, 'a, 'v) callable \<Rightarrow> ('k, 'p, 'a, 'v) callable" where
  "instrument tracers prefix f = f\<lparr>fn_call := instrument_function tracers prefix f\<rparr>"

text \<open>
  The members of a class or module: a callable with whether it can be replaced, or another
  value. A raised exception leaves the members replaced so far.
\<close>

datatype ('k, 'p, 'a, 'v) member = Method "('k, 'p, 'a, 'v) callable" bool | Attribute

definition not_traced :: "string list" where
  "not_traced = [''__getattr__'', ''__call__'', ''__init__'']"

definition instrument_member :: "('k, 'p) tracer list \<Rightarrow> string \<Rightarrow> string \<Rightarrow> ('k, 'p, 'a, 'v) member \<Rightarrow> ('k, 'p, 'a, 'v) member" where
  "instrument_member tracers prefix name m =
     (case m of
        Method f settable \<Rightarrow> if name \<notin> set not_traced \<and> settable then Method (instrument tracers prefix f) settable else m
      | Attribute \<Rightarrow> m)"

fun instrument_members :: "('k, 'p) tracer list \<Rightarrow> string \<Rightarrow> string \<Rightarrow> (string \<times> ('k, 'p, 'a, 'v) member) list \<Rightarrow> ('k, 'p) observer
    \<Rightarrow> ((ob_error + unit) \<times> (string \<times> ('k, 'p, 'a, 'v) member) list) \<times> ('k, 'p) observer" where
  "instrument_members tracers prefix class_name [] s = ((Inr (), []), s)"
| "instrument_members tracers prefix class_name ((name, m) # ms) s =
     (case m of
        Attribute \<Rightarrow>
          (case instrument_members tracers prefix class_name ms s of ((r, ms'), t) \<Rightarrow> ((r, (name, m) # ms'), t))
      | Method f settable \<Rightarrow>
          (case with_span (hd tracers) (''class.instrument:'' @ class_name @ ''.'' @ name) (ret ()) s of
             (Inl e, t) \<Rightarrow> ((Inl e, (name, m) # ms), t)
           | (Inr x, t) \<Rightarrow>
               (case instrument_members tracers prefix class_name ms t of
                  ((r, ms'), u) \<Rightarrow> ((r, (name, instrument_member tracers prefix name m) # ms'), u))))"

text \<open>What is raised in a class is logged and dropped.\<close>

definition autoinstrument_class :: "('k, 'p) tracer list \<Rightarrow> string \<Rightarrow> string \<times> (string \<times> ('k, 'p, 'a, 'v) member) list
    \<Rightarrow> ('k, 'p, string \<times> (string \<times> ('k, 'p, 'a, 'v) member) list) ob_op" where
  "autoinstrument_class tracers prefix c s =
     (case with_span (hd tracers) (''auto_instrumentation.add_class: '' @ fst c)
             (\<lambda>s. case instrument_members tracers prefix (fst c) (snd c) s of ((r, ms), t) \<Rightarrow> (Inr ms, t)) s of
        (Inl e, t) \<Rightarrow> (Inr c, t)
      | (Inr ms, t) \<Rightarrow> (Inr (fst c, ms), t))"

record ('k, 'p, 'a, 'v) module =
  md_text :: string
  md_classes :: "(string \<times> (string \<times> ('k, 'p, 'a, 'v) member) list) list"
  md_functions :: "(string \<times> ('k, 'p, 'a, 'v) callable) list"

definition autoinstrument_module :: "('k, 'p) tracer list \<Rightarrow> string \<Rightarrow> ('k, 'p, 'a, 'v) module \<Rightarrow> ('k, 'p, ('k, 'p, 'a, 'v) module) ob_op" where
  "autoinstrument_module tracers prefix m =
     with_span (hd tracers) (''auto_instrumentation.add_module: '' @ md_text m)
       (bnd (collect (autoinstrument_class tracers prefix) (md_classes m)) (\<lambda>cs.
        ret (m\<lparr>md_classes := cs, md_functions := map (\<lambda>(n, f). (n, instrument tracers prefix f)) (md_functions m)\<rparr>)))"

section \<open>Set-up\<close>

text \<open>The result is the list of tracers; without tracers the decorators do nothing.\<close>

definition init_tracing :: "('k, 'p) ob_env \<Rightarrow> string list \<Rightarrow> string \<Rightarrow> ('k, 'p, ('k, 'p) tracer list) ob_op" where
  "init_tracing ev configs config_dir =
     (if configs = [] then ret []
      else
        bnd (catch (bnd (lib_import ev) (\<lambda>x. ret True)) (\<lambda>e. if e = Ob_ImportError then ret False else throw e)) (\<lambda>imported.
        if \<not> imported then ret []
        else
          bnd (lift_sum (case read_config ev (config_dir @ ''/all.conf'') ''default'' of Inl (Ob_FileNotFound f) \<Rightarrow> Inr [] | r \<Rightarrow> r)) (\<lambda>config_dict.
          (let module_names = py_split CHR '','' (lookup_or ''module_names'' DEFAULT_MODULES config_dict) in
           bnd (collect (create_tracer_from_config ev) configs) (\<lambda>tracers.
           (let t = hd tracers in
            seq (with_span t ''observer.py:init_tracing''
                  (seq (with_span t ''observer.py:imports'' (ret ()))
                       (with_span t ''auto_instrumentation'' (for_each (lib_patch ev) module_names))))
                (ret tracers)))))))"

definition observer_config_dir :: "('k, 'p) observer \<Rightarrow> string" where
  "observer_config_dir s = py_strip_chars {CHR 0x27} (case environ_of ''OBSERVER_CONFIG_DIR'' s of None \<Rightarrow> ''.'' | Some d \<Rightarrow> d)"

text \<open>The list of configurations is made outside the handler.\<close>

definition setup_tracing :: "('k, 'p) ob_env \<Rightarrow> ('k, 'p, ('k, 'p) tracer list) ob_op" where
  "setup_tracing ev =
     bnd (gets observer_config_dir) (\<lambda>config_dir.
     bnd (lift_sum (get_configs_list ev config_dir)) (\<lambda>configs.
     catch (bnd (init_tracing ev configs config_dir) (\<lambda>ts. seq (set_environ ''OTEL_SDK_DISABLED'' ''false'') (ret ts)))
       (\<lambda>e. ret [])))"

section \<open>Running the script\<close>

datatype exit_code = NoCode | IntCode int | TextCode string

text \<open>
  How a script ends: at its end, with a \<^verbatim>\<open>FileNotFoundError\<close> for a file, with another
  exception (its text and traceback), with \<^verbatim>\<open>SystemExit\<close>, or with a \<^verbatim>\<open>BaseException\<close>
  such as an interrupt.
\<close>

datatype script_exit = Finishes | Missing string | Raises string string | Exits exit_code string | Interrupted string

definition to_stderr :: "string \<Rightarrow> ('k, 'p, unit) ob_op" where
  "to_stderr t = modify (\<lambda>s. s\<lparr>ob_stderr := ob_stderr s @ [t]\<rparr>)"

definition run_file :: "(string \<Rightarrow> ('k, 'p) observer \<Rightarrow> script_exit \<times> ('k, 'p) observer) \<Rightarrow> string list \<Rightarrow> string \<Rightarrow> ('k, 'p, exit_code) ob_op" where
  "run_file script argv file =
     bnd (\<lambda>s. case script file s of (x, t) \<Rightarrow> (Inr x, t)) (\<lambda>x.
     (let command = ''observer.py '' @ py_join '' '' argv @ '':'' in
      case x of
        Finishes \<Rightarrow> ret (IntCode 0)
      | Missing f \<Rightarrow> seq (to_stderr (command @ [CHR 0x0A] @ ''Script not found: '' @ f)) (ret (IntCode 2))
      | Raises msg trace \<Rightarrow>
          seq (to_stderr command) (seq (to_stderr ''Exception in the traced script:'')
          (seq (to_stderr msg) (seq (to_stderr trace) (ret (IntCode 139)))))
      | Exits c trace \<Rightarrow>
          (let code = (if c = NoCode then IntCode 0 else c) in
           seq (if code \<noteq> IntCode 0 \<and> code \<noteq> TextCode [] then to_stderr trace else ret ()) (ret code))
      | Interrupted m \<Rightarrow> throw (Ob_Exception m)))"

definition run_callable :: "(string \<Rightarrow> ('k, 'p) observer \<Rightarrow> script_exit \<times> ('k, 'p) observer) \<Rightarrow> string list \<Rightarrow> ('k, 'p, string, exit_code) callable" where
  "run_callable script argv =
     \<lparr>fn_module = Some ''__main__'', fn_qualname = Some ''main.<locals>.run'', fn_text = ''run'', fn_kind = Function,
      fn_bind = (\<lambda>file. ret [(''file'', file)]), fn_args = (\<lambda>file. ret (file, [])), fn_call = run_file script argv\<rparr>"

definition observer_main :: "('k, 'p) tracer list \<Rightarrow> (string \<Rightarrow> ('k, 'p) observer \<Rightarrow> script_exit \<times> ('k, 'p) observer) \<Rightarrow> string list \<Rightarrow> ('k, 'p, exit_code) ob_op" where
  "observer_main tracers script argv =
     (if length argv < 2 then seq (to_stderr ''observer.py: usage: command argument list'') (ret (IntCode 31))
      else instrument_function tracers (argv ! 1) (run_callable script (tl argv)) (argv ! 1))"

text \<open>The status of the process; an exception that leaves the script gives 1.\<close>

definition exit_status :: "ob_error + exit_code \<Rightarrow> int" where
  "exit_status r =
     (case r of
        Inl e \<Rightarrow> 1
      | Inr NoCode \<Rightarrow> 0
      | Inr (IntCode n) \<Rightarrow> n mod 256
      | Inr (TextCode t) \<Rightarrow> (if t = [] then 0 else 1))"

definition observer_run :: "('k, 'p) ob_env \<Rightarrow> (string \<Rightarrow> ('k, 'p) observer \<Rightarrow> script_exit \<times> ('k, 'p) observer) \<Rightarrow> string list \<Rightarrow> ('k, 'p, exit_code) ob_op" where
  "observer_run ev script argv = bnd (setup_tracing ev) (\<lambda>tracers. observer_main tracers script argv)"

section \<open>Files of spans\<close>

text \<open>The exporter and the files it appends to; \<open>accepts\<close> tells whether a file can be written.\<close>

record exporter =
  ex_filename :: string
  ex_written :: nat
  ex_files :: "(string \<times> string) list"

definition new_exporter :: "string \<Rightarrow> exporter" where
  "new_exporter filename = \<lparr>ex_filename = filename, ex_written = 0, ex_files = []\<rparr>"

definition append_file :: "string \<Rightarrow> string \<Rightarrow> exporter \<Rightarrow> exporter" where
  "append_file f t x =
     x\<lparr>ex_files := AList.update f ((case map_of (ex_files x) f of None \<Rightarrow> [] | Some c \<Rightarrow> c) @ t) (ex_files x)\<rparr>"

definition export_spans :: "(string \<Rightarrow> bool) \<Rightarrow> string \<Rightarrow> string \<Rightarrow> (exporter, ob_error, unit) st" where
  "export_spans accepts data next_filename x =
     (if \<not> accepts (ex_filename x) then (Inl (Ob_Exception ''OSError''), x)
      else
        (let x = append_file (ex_filename x) (data @ [CHR 0x0A]) x; n = ex_written x + length data in
         (Inr (), if n > 1024 * 1024 then x\<lparr>ex_filename := next_filename, ex_written := 0\<rparr> else x\<lparr>ex_written := n\<rparr>)))"

end
