(* ===== verification/Observer_Proofs.thy ===== *)
theory Observer_Proofs
  imports Observer
begin

text \<open>
  What \<^verbatim>\<open>observer.py\<close> promises: the traced script behaves as without it, whatever the
  set-up of tracing does; which members of a module are traced; how a configuration
  is read; and how large a file of spans can be.
\<close>

section \<open>What the script sees\<close>

text \<open>Computations that return and do not touch what the script works on.\<close>

definition unseen :: "('k, 'p, 'a) ob_op \<Rightarrow> bool" where
  "unseen m \<longleftrightarrow> (\<forall>s. ob_prog (snd (m s)) = ob_prog s)"

definition silent :: "('k, 'p) tracer \<Rightarrow> bool" where
  "silent t \<longleftrightarrow> (\<forall>name s. fst (tr_start t name s) = Inr () \<and> ob_prog (snd (tr_start t name s)) = ob_prog s)
     \<and> (\<forall>k v s. fst (tr_set t k v s) = Inr () \<and> ob_prog (snd (tr_set t k v s)) = ob_prog s)
     \<and> (\<forall>s. ob_prog (tr_end t s) = ob_prog s)"

text \<open>Computations whose result and effect depend only on what the script sees.\<close>

definition oblivious :: "('k, 'p, 'a) ob_op \<Rightarrow> bool" where
  "oblivious m \<longleftrightarrow> (\<forall>s s'. ob_prog s = ob_prog s' \<longrightarrow> fst (m s) = fst (m s') \<and> ob_prog (snd (m s)) = ob_prog (snd (m s')))"

lemma obliviousD:
  "oblivious m \<Longrightarrow> ob_prog s = ob_prog s' \<Longrightarrow> fst (m s) = fst (m s') \<and> ob_prog (snd (m s)) = ob_prog (snd (m s'))"
  unfolding oblivious_def by blast

lemma unseenD: "unseen m \<Longrightarrow> m s = (r, t) \<Longrightarrow> ob_prog t = ob_prog s"
  by (metis snd_conv unseen_def)

named_theorems unseen_intros

lemma unseen_basic [unseen_intros]: "unseen (ret x)" "unseen (throw e)" "unseen (lift_sum r)" "unseen (gets f)"
  "unseen (to_stderr l)" "unseen (set_environ n v)"
  by (simp_all add: unseen_def st_simps to_stderr_def set_environ_def)

lemma unseen_bnd [unseen_intros]: "unseen m \<Longrightarrow> (\<And>x. unseen (f x)) \<Longrightarrow> unseen (bnd m f)"
  by (simp add: unseen_def bnd_def split: prod.split sum.split) (metis snd_conv)

lemma unseen_seq [unseen_intros]: "unseen m \<Longrightarrow> unseen k \<Longrightarrow> unseen (seq m k)"
  by (simp add: seq_def unseen_bnd)

lemma unseen_if [unseen_intros]: "unseen m \<Longrightarrow> unseen k \<Longrightarrow> unseen (if b then m else k)"
  by simp

lemma unseen_catch [unseen_intros]: "unseen m \<Longrightarrow> (\<And>e. unseen (h e)) \<Longrightarrow> unseen (catch m h)"
  by (simp add: unseen_def catch_def split: prod.split sum.split) (metis snd_conv)

lemma unseen_collect [unseen_intros]: "(\<And>x. unseen (f x)) \<Longrightarrow> unseen (collect f xs)"
  by (induction xs) (auto intro: unseen_intros)

lemma unseen_for_each [unseen_intros]: "(\<And>x. unseen (f x)) \<Longrightarrow> unseen (for_each f xs)"
  by (induction xs) (auto intro: unseen_intros)

lemma unseen_with_span: "silent t \<Longrightarrow> unseen m \<Longrightarrow> unseen (with_span t name m)"
  by (simp add: unseen_def with_span_def seq_def bnd_def silent_def split: prod.split sum.split) (metis snd_conv)

section \<open>Calls\<close>

lemma with_span_silent:
  assumes "silent t"
  shows "fst (with_span t name m s) = fst (m (snd (tr_start t name s)))"
    "ob_prog (snd (with_span t name m s)) = ob_prog (snd (m (snd (tr_start t name s))))"
    "ob_prog (snd (tr_start t name s)) = ob_prog s"
proof -
  obtain s1 where s1: "tr_start t name s = (Inr (), s1)" "ob_prog s1 = ob_prog s"
    using assms by (metis prod.collapse silent_def)
  obtain r s2 where s2: "m s1 = (r, s2)" by fastforce
  have "ob_prog (tr_end t s2) = ob_prog s2" using assms by (simp add: silent_def)
  then show "fst (with_span t name m s) = fst (m (snd (tr_start t name s)))"
    "ob_prog (snd (with_span t name m s)) = ob_prog (snd (m (snd (tr_start t name s))))"
    "ob_prog (snd (tr_start t name s)) = ob_prog s"
    using s1 s2 by (simp_all add: with_span_def seq_def bnd_def)
qed

text \<open>Binding and printing the arguments returns and is not seen by the script.\<close>

definition printable :: "('k, 'p, 'a, 'v) callable \<Rightarrow> bool" where
  "printable f \<longleftrightarrow> (\<forall>a s. (\<exists>d. fst (fn_bind f a s) = Inr d) \<and> (\<exists>d. fst (fn_args f a s) = Inr d))
     \<and> (\<forall>a. unseen (fn_bind f a) \<and> unseen (fn_args f a))"

lemma set_attributes_silent:
  assumes "silent t" "printable f"
  shows "fst (set_attributes t f a s) = Inr () \<and> ob_prog (snd (set_attributes t f a s)) = ob_prog s"
proof -
  have set: "\<exists>u. tr_set t k v s = (Inr (), u) \<and> ob_prog u = ob_prog s" for k v s
    using assms(1) by (metis prod.collapse silent_def)
  have loop: "\<exists>u. for_each (\<lambda>(k, v). tr_set t (p @ k) v) d s = (Inr (), u) \<and> ob_prog u = ob_prog s" for d s p
  proof (induction d arbitrary: s)
    case (Cons e d)
    obtain u where "tr_set t (p @ fst e) (snd e) s = (Inr (), u)" "ob_prog u = ob_prog s" using set by blast
    with Cons.IH [of u] show ?case by (cases e) simp
  qed (simp add: ret_def)
  obtain d u where b: "fn_bind f a s = (Inr d, u)" "ob_prog u = ob_prog s"
    using assms(2) by (metis prod.collapse printable_def unseenD)
  obtain e w where c: "fn_args f a s = (Inr e, w)" "ob_prog w = ob_prog s"
    using assms(2) by (metis prod.collapse printable_def unseenD)
  show ?thesis
  proof (cases "fn_kind f")
    case Class
    obtain w1 where w1: "tr_set t ''xs.span.args.str'' (fst e) w = (Inr (), w1)" "ob_prog w1 = ob_prog w" using set by blast
    obtain w2 where "tr_set t ''xs.span.kwargs.str'' (snd e) w1 = (Inr (), w2)" "ob_prog w2 = ob_prog w1" using set by blast
    with Class c w1 show ?thesis by (cases e) (simp add: set_attributes_def bnd_def)
  next
    case Function
    obtain u2 where "for_each (\<lambda>(k, v). tr_set t (''xs.span.arg.'' @ k) v) d u = (Inr (), u2)" "ob_prog u2 = ob_prog u"
      using loop by blast
    with Function b show ?thesis by (simp add: set_attributes_def bnd_def)
  qed (simp_all add: set_attributes_def ret_def)
qed

lemma instrument_function_call:
  assumes "\<forall>t \<in> set tracers. silent t" "printable f" "oblivious (fn_call f a)"
  shows "fst (instrument_function tracers prefix f a s) = fst (fn_call f a s)
    \<and> ob_prog (snd (instrument_function tracers prefix f a s)) = ob_prog (snd (fn_call f a s))"
proof (cases tracers)
  case Nil
  then show ?thesis by (simp add: instrument_function_def)
next
  case (Cons t ts)
  then have t: "silent t" using assms(1) by simp
  let ?s = "snd (tr_start t (span_name prefix f) s)"
  obtain u where u: "set_attributes t f a ?s = (Inr (), u)" "ob_prog u = ob_prog ?s"
    using set_attributes_silent [OF t assms(2)] by (metis prod.collapse)
  then have "ob_prog u = ob_prog s" using with_span_silent(3) [OF t] by simp
  note same = obliviousD [OF assms(3) this]
  have "seq (set_attributes t f a) (fn_call f a) ?s = fn_call f a u" using u(1) by (rule seq_Inr)
  then show ?thesis
    unfolding instrument_function_def Cons list.case with_span_silent(1,2) [OF t] using same by (simp only: simp_thms)
qed

text \<open>
  C17: Tracing is transparent: with tracers that do not fail and arguments that can be
  printed, a traced callable returns, raises and does for the script what the callable
  itself does, and it can be called by traced code in turn. When binding or printing the
  arguments raises, that exception is raised and the callable is not called.
\<close>

theorem traced_call_transparent:
  assumes "\<forall>t \<in> set tracers. silent t"
  shows "(printable f \<and> oblivious (fn_call f a) \<longrightarrow>
      fst (fn_call (instrument tracers prefix f) a s) = fst (fn_call f a s)
      \<and> ob_prog (snd (fn_call (instrument tracers prefix f) a s)) = ob_prog (snd (fn_call f a s))
      \<and> oblivious (fn_call (instrument tracers prefix f) a))
    \<and> (tracers \<noteq> [] \<and> fn_kind f = Function \<and> (\<forall>s. fst (fn_bind f a s) = Inl e) \<longrightarrow>
      fst (fn_call (instrument tracers prefix f) a s) = Inl e)"
proof (intro conjI impI; (elim conjE)?)
  assume f: "printable f" "oblivious (fn_call f a)"
  note call = instrument_function_call [OF assms f]
  show "fst (fn_call (instrument tracers prefix f) a s) = fst (fn_call f a s)"
    "ob_prog (snd (fn_call (instrument tracers prefix f) a s)) = ob_prog (snd (fn_call f a s))"
    using call [of prefix s] by (simp_all add: instrument_def)
  have "oblivious (instrument_function tracers prefix f a)"
    unfolding oblivious_def using call obliviousD [OF f(2)] by metis
  then show "oblivious (fn_call (instrument tracers prefix f) a)" by (simp add: instrument_def)
next
  assume "tracers \<noteq> []" and f: "fn_kind f = Function" "\<forall>s. fst (fn_bind f a s) = Inl e"
  then obtain t ts where t: "tracers = t # ts" "silent t" using assms by (cases tracers) auto
  have body: "fst (seq (set_attributes t f a) (fn_call f a) u) = Inl e" for u
  proof -
    obtain w where "fn_bind f a u = (Inl e, w)" using f(2) by (metis prod.collapse)
    then have "set_attributes t f a u = (Inl e, w)" using f(1) by (simp add: set_attributes_def bnd_def)
    then show ?thesis by (simp add: seq_def bnd_def)
  qed
  have "instrument_function tracers prefix f a s = with_span t (span_name prefix f) (seq (set_attributes t f a) (fn_call f a)) s"
    by (simp add: instrument_function_def t(1))
  then have "fst (instrument_function tracers prefix f a s) = Inl e"
    using with_span_silent(1) [OF t(2), of "span_name prefix f" "seq (set_attributes t f a) (fn_call f a)" s] body
    by (simp only:)
  then show "fst (fn_call (instrument tracers prefix f) a s) = Inl e" by (simp add: instrument_def)
qed

section \<open>Exit codes\<close>

lemma unseen_bnd_result:
  assumes "unseen m" "\<And>s x s'. m s = (Inr x, s') \<Longrightarrow> unseen (f x)"
  shows "unseen (bnd m f)"
  unfolding unseen_def
proof
  fix s
  obtain r t where m: "m s = (r, t)" by fastforce
  then have t: "ob_prog t = ob_prog s" using assms(1) by (rule unseenD [rotated])
  show "ob_prog (snd (bnd m f s)) = ob_prog s"
  proof (cases r)
    case (Inr x)
    with assms(2) m have "unseen (f x)" by blast
    with Inr m t show ?thesis by (simp add: bnd_def unseen_def)
  qed (simp add: bnd_def m t)
qed

text \<open>The libraries do not touch what the script works on, and their tracers do not fail.\<close>

definition good_libraries :: "('k, 'p) ob_env \<Rightarrow> bool" where
  "good_libraries ev \<longleftrightarrow> unseen (lib_import ev) \<and> (\<forall>m. unseen (lib_patch ev m)) \<and> (\<forall>p. unseen (lib_tracer ev p))
     \<and> (\<forall>p s t s'. lib_tracer ev p s = (Inr t, s') \<longrightarrow> silent t)"

lemma unseen_create_tracer: "good_libraries ev \<Longrightarrow> unseen (create_tracer_from_config ev path)"
  unfolding create_tracer_from_config_def Let_def good_libraries_def by (intro unseen_intros) blast+

lemma create_tracer_silent:
  "good_libraries ev \<Longrightarrow> create_tracer_from_config ev path s = (Inr t, s') \<Longrightarrow> silent t"
  unfolding create_tracer_from_config_def Let_def good_libraries_def
  by (auto simp: seq_def elim!: bnd_InrE) blast

lemma collect_all:
  assumes "collect f xs s = (Inr ys, s')" "\<And>x s y t. f x s = (Inr y, t) \<Longrightarrow> P y"
  shows "\<forall>y \<in> set ys. P y"
  using assms(1)
proof (induction xs arbitrary: s ys)
  case (Cons x xs)
  then show ?case using assms(2) by (elim collect_InrE) auto
qed (simp add: ret_def)

lemma collect_length: "collect f xs s = (Inr ys, s') \<Longrightarrow> length ys = length xs"
proof (induction xs arbitrary: s ys)
  case (Cons x xs)
  then show ?case by (elim collect_InrE) auto
qed (simp add: ret_def)

lemma init_tracing_result:
  assumes "good_libraries ev"
  shows "unseen (init_tracing ev configs d) \<and> (\<forall>s ts t. init_tracing ev configs d s = (Inr ts, t) \<longrightarrow> (\<forall>x \<in> set ts. silent x))"
proof (cases "configs = []")
  case True
  then show ?thesis by (simp add: init_tracing_def unseen_def ret_def)
next
  case False
  let ?import = "catch (bnd (lib_import ev) (\<lambda>x. ret True)) (\<lambda>e. if e = Ob_ImportError then ret False else throw e)"
  let ?all = "lift_sum (case read_config ev (d @ ''/all.conf'') ''default'' of Inl (Ob_FileNotFound f) \<Rightarrow> Inr [] | r \<Rightarrow> r)"
  define rest where "rest = (\<lambda>mods tracers. seq (with_span (hd tracers) ''observer.py:init_tracing''
                  (seq (with_span (hd tracers) ''observer.py:imports'' (ret ()))
                       (with_span (hd tracers) ''auto_instrumentation'' (for_each (lib_patch ev) mods))))
                (ret tracers))"
  define body where "body = (\<lambda>imported. if \<not> imported then ret []
        else bnd ?all (\<lambda>config_dict. bnd (collect (create_tracer_from_config ev) configs)
               (rest (py_split CHR '','' (lookup_or ''module_names'' DEFAULT_MODULES config_dict)))))"
  have init: "init_tracing ev configs d = bnd ?import body"
    unfolding init_tracing_def body_def rest_def Let_def if_not_P [OF False] ..
  have made: "(\<forall>x \<in> set ts. silent x) \<and> silent (hd ts)" if "collect (create_tracer_from_config ev) configs s = (Inr ts, t)" for s ts t
  proof -
    have "\<forall>x \<in> set ts. silent x" using that by (rule collect_all) (rule create_tracer_silent [OF assms])
    moreover have "ts \<noteq> []" using collect_length [OF that] False by auto
    ultimately show ?thesis by simp
  qed
  have rest: "unseen (rest mods ts)" if "silent (hd ts)" for mods ts
    using assms that unfolding rest_def good_libraries_def
    by (intro unseen_seq unseen_with_span unseen_for_each unseen_basic) auto
  have "unseen (body b)" for b
    unfolding body_def
    by (intro unseen_if unseen_bnd unseen_basic unseen_bnd_result [of "collect (create_tracer_from_config ev) configs"]
          unseen_collect unseen_create_tracer [OF assms]) (use made rest in blast)
  moreover have "unseen ?import" using assms by (intro unseen_intros) (simp add: good_libraries_def)
  ultimately have "unseen (init_tracing ev configs d)" unfolding init by (rule unseen_bnd [rotated])
  moreover have "\<forall>x \<in> set ts. silent x" if "init_tracing ev configs d s = (Inr ts, t)" for s ts t
    using that unfolding init body_def rest_def seq_def
    by (elim bnd_InrE) (auto simp: ret_def seq_def dest: made split: if_splits elim!: bnd_InrE)
  ultimately show ?thesis by blast
qed

text \<open>The status that the exit of the script gives.\<close>

definition status_of :: "script_exit \<Rightarrow> int" where
  "status_of x =
     (case x of
        Finishes \<Rightarrow> 0
      | Missing f \<Rightarrow> 2
      | Raises m t \<Rightarrow> 139
      | Exits NoCode t \<Rightarrow> 0
      | Exits (IntCode n) t \<Rightarrow> n mod 256
      | Exits (TextCode c) t \<Rightarrow> (if c = [] then 0 else 1)
      | Interrupted m \<Rightarrow> 1)"

lemma run_file_result:
  assumes "script file s = (x, t)"
  shows "\<exists>r u. run_file script argv file s = (r, u) \<and> exit_status r = status_of x \<and> ob_prog u = ob_prog t"
proof -
  have script: "(case script file s of (x, t) \<Rightarrow> (Inr x, t)) = (Inr x, t)" by (simp add: assms)
  show ?thesis
    by (cases x)
       (auto simp: run_file_def bnd_def script Let_def st_simps to_stderr_def exit_status_def status_of_def split: exit_code.split)
qed

definition script_alone :: "(string \<Rightarrow> ('k, 'p) observer \<Rightarrow> script_exit \<times> ('k, 'p) observer) \<Rightarrow> bool" where
  "script_alone script \<longleftrightarrow> (\<forall>file s s'. ob_prog s = ob_prog s' \<longrightarrow>
     fst (script file s) = fst (script file s') \<and> ob_prog (snd (script file s)) = ob_prog (snd (script file s')))"

lemma run_file_oblivious:
  fixes script :: "string \<Rightarrow> ('k, 'p) observer \<Rightarrow> script_exit \<times> ('k, 'p) observer"
  assumes "script_alone script"
  shows "oblivious (run_file script argv file)"
  unfolding oblivious_def
proof (intro allI impI)
  fix s s' :: "('k, 'p) observer"
  assume eq: "ob_prog s = ob_prog s'"
  obtain x t t' where r: "script file s = (x, t)" "script file s' = (x, t')" "ob_prog t = ob_prog t'"
    using assms eq by (metis prod.collapse script_alone_def)
  then have "bnd (\<lambda>s. case script file s of (x, t) \<Rightarrow> (Inr x, t)) f s = f x t"
    "bnd (\<lambda>s. case script file s of (x, t) \<Rightarrow> (Inr x, t)) f s' = f x t'" for f :: "_ \<Rightarrow> ('k, 'p, exit_code) ob_op"
    by (simp_all add: bnd_def)
  then show "fst (run_file script argv file s) = fst (run_file script argv file s')
      \<and> ob_prog (snd (run_file script argv file s)) = ob_prog (snd (run_file script argv file s'))"
    using r(3) unfolding run_file_def
    by (cases x) (auto simp: st_simps bnd_def to_stderr_def Let_def)
qed

lemma fst_obtain: "fst p = x \<Longrightarrow> \<exists>t. p = (x, t)"
  by (cases p) simp

text \<open>A directory can be listed or is missing.\<close>

definition listable :: "('k, 'p) ob_env \<Rightarrow> bool" where
  "listable ev \<longleftrightarrow> (\<forall>d e. ob_listdir ev d = Inl e \<longrightarrow> (\<exists>f. e = Ob_FileNotFound f))"

lemma listable_configs:
  assumes "listable ev"
  shows "\<exists>configs. get_configs_list ev d = Inr configs"
proof (cases "ob_listdir ev d")
  case (Inl e)
  with assms obtain f where "e = Ob_FileNotFound f" unfolding listable_def by blast
  with Inl show ?thesis by (simp add: get_configs_list_def)
qed (simp add: get_configs_list_def)

lemma setup_tracing_result:
  assumes "good_libraries ev" "listable ev"
  shows "\<exists>ts t. setup_tracing ev s = (Inr ts, t) \<and> ob_prog t = ob_prog s \<and> (\<forall>x \<in> set ts. silent x)"
proof -
  let ?d = "observer_config_dir s"
  obtain configs where c: "get_configs_list ev ?d = Inr configs"
    using listable_configs [OF assms(2)] by blast
  let ?m = "bnd (init_tracing ev configs ?d) (\<lambda>ts. seq (set_environ ''OTEL_SDK_DISABLED'' ''false'') (ret ts))"
  have "unseen ?m" using init_tracing_result [OF assms(1)] by (intro unseen_intros) blast
  obtain r t where m: "?m s = (r, t)" by fastforce
  with \<open>unseen ?m\<close> have t: "ob_prog t = ob_prog s" by (rule unseenD)
  have run: "setup_tracing ev s = catch ?m (\<lambda>e. ret []) s"
    by (simp add: setup_tracing_def bnd_def gets_def lift_sum_def c)
  show ?thesis
  proof (cases r)
    case (Inl e)
    with m t show ?thesis by (simp add: run catch_def ret_def)
  next
    case (Inr ts)
    with m obtain s1 where "init_tracing ev configs ?d s = (Inr ts, s1)"
      by (auto simp: seq_def ret_def elim!: bnd_InrE)
    with init_tracing_result [OF assms(1)] have "\<forall>x \<in> set ts. silent x" by blast
    with m Inr t show ?thesis by (simp add: run catch_def)
  qed
qed

text \<open>
  C16: Whatever the set-up of tracing does, as long as the directory of the configurations
  can be listed or is missing, the script runs as it would alone, and the process ends
  with its exit code; an exception of the script gives 139, a missing file 2.
\<close>

theorem script_runs_as_alone:
  assumes "good_libraries ev" and "listable ev"
    and "script_alone script" and "length argv \<ge> 2" and "script (argv ! 1) s = (x, alone)"
  shows "\<exists>r t. observer_run ev script argv s = (r, t) \<and> exit_status r = status_of x \<and> ob_prog t = ob_prog alone"
proof -
  obtain ts s1 where s1: "setup_tracing ev s = (Inr ts, s1)" "ob_prog s1 = ob_prog s" "\<forall>x \<in> set ts. silent x"
    using setup_tracing_result [OF assms(1,2)] by blast
  let ?f = "run_callable script (tl argv)" and ?a = "argv ! 1"
  have f: "fn_call ?f = run_file script (tl argv)" "printable ?f"
    by (simp_all add: run_callable_def printable_def unseen_def ret_def)
  have "oblivious (fn_call ?f ?a)" unfolding f(1) by (rule run_file_oblivious [OF assms(3)])
  note call = instrument_function_call [OF s1(3) f(2) this, of ?a s1] and alone = obliviousD [OF this s1(2)]
  obtain r u where r: "run_file script (tl argv) ?a s = (r, u)" "exit_status r = status_of x" "ob_prog u = ob_prog alone"
    using run_file_result [of script ?a s x alone, OF assms(5)] by blast
  have "observer_run ev script argv s = instrument_function ts ?a ?f ?a s1"
    using s1(1) assms(4) by (simp add: observer_run_def observer_main_def bnd_def)
  moreover have "fst (instrument_function ts ?a ?f ?a s1) = r" "ob_prog (snd (instrument_function ts ?a ?f ?a s1)) = ob_prog alone"
    using call alone r by (simp_all add: f(1))
  ultimately show ?thesis using r(2) by (metis prod.collapse)
qed

section \<open>Which members are traced\<close>

lemma instrument_members_silent:
  assumes "silent (hd tracers)"
  shows "fst (instrument_members tracers prefix c ms s) = (Inr (), map (\<lambda>(n, m). (n, instrument_member tracers prefix n m)) ms)
    \<and> ob_prog (snd (instrument_members tracers prefix c ms s)) = ob_prog s"
proof (induction ms arbitrary: s)
  case (Cons nm ms)
  obtain n m where nm: "nm = (n, m)" by (cases nm)
  show ?case
  proof (cases m)
    case (Method f b)
    let ?span = "with_span (hd tracers) (''class.instrument:'' @ c @ ''.'' @ n) (ret ()) s"
    have "fst ?span = Inr ()" "ob_prog (snd ?span) = ob_prog s"
      using with_span_silent(1,2) [OF assms, of "''class.instrument:'' @ c @ ''.'' @ n" "ret ()" s]
        with_span_silent(3) [OF assms] by (simp_all add: ret_def)
    then obtain t where t: "?span = (Inr (), t)" "ob_prog t = ob_prog s" by (metis prod.collapse)
    show ?thesis using Cons.IH [of t] t
      by (cases "instrument_members tracers prefix c ms t") (simp add: nm Method)
  next
    case Attribute
    with Cons.IH [of s] show ?thesis
      by (cases "instrument_members tracers prefix c ms s") (simp add: nm instrument_member_def)
  qed
qed simp

lemma autoinstrument_class_silent:
  assumes "silent (hd tracers)"
  shows "fst (autoinstrument_class tracers prefix c s) = Inr (fst c, map (\<lambda>(n, m). (n, instrument_member tracers prefix n m)) (snd c))"
proof -
  let ?body = "\<lambda>s. case instrument_members tracers prefix (fst c) (snd c) s of ((r, ms), t) \<Rightarrow> (Inr ms, t)"
  let ?name = "''auto_instrumentation.add_class: '' @ fst c"
  have "fst (?body u) = Inr (map (\<lambda>(n, m). (n, instrument_member tracers prefix n m)) (snd c))" for u
    using instrument_members_silent [OF assms, of prefix "fst c" "snd c" u]
    by (cases "instrument_members tracers prefix (fst c) (snd c) u") auto
  then have "fst (with_span (hd tracers) ?name ?body s) = Inr (map (\<lambda>(n, m). (n, instrument_member tracers prefix n m)) (snd c))"
    by (simp only: with_span_silent(1) [OF assms])
  then show ?thesis
    by (cases "with_span (hd tracers) ?name ?body s") (simp add: autoinstrument_class_def)
qed

text \<open>
  Instrumenting a module replaces every function and, in every class, every callable
  that can be replaced but the three exempt ones; nothing else changes, the order of
  the members included.
\<close>

theorem module_members_traced:
  assumes "silent (hd tracers)"
  shows "fst (autoinstrument_module tracers prefix m s) = Inr (m\<lparr>
      md_classes := map (\<lambda>(c, ms). (c, map (\<lambda>(n, x). (n, case x of
          Attribute \<Rightarrow> Attribute
        | Method f settable \<Rightarrow> Method (if n \<notin> {''__getattr__'', ''__call__'', ''__init__''} \<and> settable then instrument tracers prefix f else f) settable)) ms)) (md_classes m),
      md_functions := map (\<lambda>(n, f). (n, instrument tracers prefix f)) (md_functions m)\<rparr>)"
proof -
  have member: "(case x of Attribute \<Rightarrow> Attribute
      | Method f settable \<Rightarrow> Method (if n \<notin> {''__getattr__'', ''__call__'', ''__init__''} \<and> settable then instrument tracers prefix f else f) settable)
      = instrument_member tracers prefix n x" for n x
    unfolding instrument_member_def not_traced_def list.set by (cases x) simp_all
  let ?cls = "\<lambda>c. (fst c, map (\<lambda>(n, x). (n, instrument_member tracers prefix n x)) (snd c))"
  have classes: "fst (collect (autoinstrument_class tracers prefix) cs u) = Inr (map ?cls cs)" for cs u
  proof (induction cs arbitrary: u)
    case (Cons c cs)
    obtain t where t: "autoinstrument_class tracers prefix c u = (Inr (?cls c), t)"
      using fst_obtain [OF autoinstrument_class_silent [OF assms]] by blast
    obtain v where "collect (autoinstrument_class tracers prefix) cs t = (Inr (map ?cls cs), v)"
      using fst_obtain [OF Cons.IH] by blast
    with t show ?case by (simp add: bnd_def ret_def)
  qed (simp add: ret_def)
  let ?w = "snd (tr_start (hd tracers) (''auto_instrumentation.add_module: '' @ md_text m) s)"
  obtain v where v: "collect (autoinstrument_class tracers prefix) (md_classes m) ?w = (Inr (map ?cls (md_classes m)), v)"
    using fst_obtain [OF classes] by blast
  have run: "fst (bnd (collect (autoinstrument_class tracers prefix) (md_classes m)) (\<lambda>cs. ret (F cs)) ?w) = Inr (F (map ?cls (md_classes m)))"
    for F :: "_ \<Rightarrow> ('a, 'b, 'c, 'd) module"
    unfolding bnd_def v by (simp add: ret_def)
  have cls: "(\<lambda>(c, ms). (c, map (\<lambda>(n, x). (n, instrument_member tracers prefix n x)) ms)) = ?cls" by (simp add: fun_eq_iff)
  show ?thesis
    unfolding autoinstrument_module_def with_span_silent(1) [OF assms] member cls by (rule run)
qed

section \<open>Configuration files\<close>

text \<open>
  A configuration of plain options with different keys is read as these options with
  the quotes around their values dropped; one with a repeated key raises, although the
  reader means to ignore invalid files.
\<close>

theorem config_file_read:
  assumes "ob_read ev path = Inr (options_text os)" and "list_all plain_option os" and "plain_header h"
  shows "read_config ev path h =
    (if distinct (map fst os) then Inr (map (\<lambda>(k, v). (k, py_strip_chars {CHR 0x27} v)) os) else Inl Ob_DuplicateOption)"
  by (simp add: read_config_def assms(1) parse_plain_options [OF assms(3,2)])

section \<open>Files of spans\<close>

definition export_all :: "(string \<times> string) list \<Rightarrow> exporter \<Rightarrow> exporter" where
  "export_all exports = fold (\<lambda>(data, next_filename) x. snd (export_spans (\<lambda>f. True) data next_filename x)) exports"

definition data_lines :: "string list \<Rightarrow> string" where
  "data_lines ds = concat (map (\<lambda>d. d @ [CHR 0x0A]) ds)"

definition data_size :: "string list \<Rightarrow> nat" where
  "data_size ds = sum_list (map length ds)"

text \<open>A file that was left as soon as it was too large.\<close>

definition bounded_file :: "string \<Rightarrow> bool" where
  "bounded_file c \<longleftrightarrow> (\<exists>ds d. c = data_lines (ds @ [d]) \<and> data_size ds \<le> 1024 * 1024)"

definition exporter_inv :: "exporter \<Rightarrow> string list \<Rightarrow> bool" where
  "exporter_inv x names \<longleftrightarrow> distinct (ex_filename x # names) \<and> (fst ` set (ex_files x)) \<inter> set names = {}
     \<and> (\<forall>e \<in> set (ex_files x). bounded_file (snd e))
     \<and> (ex_filename x \<notin> fst ` set (ex_files x) \<and> ex_written x = 0
        \<or> (\<exists>fs ds. ex_files x = fs @ [(ex_filename x, data_lines ds)] \<and> ex_filename x \<notin> fst ` set fs
             \<and> ex_written x = data_size ds \<and> data_size ds \<le> 1024 * 1024))"

lemma data_lines_snoc: "data_lines (ds @ [d]) = data_lines ds @ d @ [CHR 0x0A]" "data_size (ds @ [d]) = data_size ds + length d"
  by (simp_all add: data_lines_def data_size_def)

text \<open>Appending to the current file, as the last of the files.\<close>

lemma append_current:
  assumes "exporter_inv x names"
  obtains fs ds where "ex_files (append_file (ex_filename x) (d @ [CHR 0x0A]) x) = fs @ [(ex_filename x, data_lines (ds @ [d]))]"
    "ex_filename x \<notin> fst ` set fs" "ex_written x = data_size ds" "data_size ds \<le> 1024 * 1024"
    "\<forall>e \<in> set fs. bounded_file (snd e)" "fst ` set fs \<inter> set names = {}"
    "concat (map snd (ex_files x)) = concat (map snd fs) @ data_lines ds"
proof -
  let ?f = "ex_filename x"
  consider (new) "?f \<notin> fst ` set (ex_files x)" "ex_written x = 0"
    | (old) fs ds where "ex_files x = fs @ [(?f, data_lines ds)]" "?f \<notin> fst ` set fs" "ex_written x = data_size ds" "data_size ds \<le> 1024 * 1024"
    using assms by (auto simp: exporter_inv_def)
  then show thesis
  proof cases
    case new
    then have "map_of (ex_files x) ?f = None" by (simp add: map_of_eq_None_iff)
    then have "ex_files (append_file ?f (d @ [CHR 0x0A]) x) = ex_files x @ [(?f, data_lines ([] @ [d]))]"
      by (simp add: append_file_def update_new data_lines_def)
    with new assms that [of "ex_files x" "[]"] show thesis by (simp add: exporter_inv_def data_size_def data_lines_def)
  next
    case old
    have "map_of (ex_files x) ?f = Some (data_lines ds)" unfolding old(1) map_of_absent [OF old(2)] by simp
    with old have "ex_files (append_file ?f (d @ [CHR 0x0A]) x) = fs @ [(?f, data_lines (ds @ [d]))]"
      by (simp add: append_file_def update_last data_lines_snoc)
    with old assms that [of fs ds] show thesis by (auto simp: exporter_inv_def)
  qed
qed

lemma export_step:
  assumes "exporter_inv x (n # names)"
  shows "exporter_inv (snd (export_spans (\<lambda>f. True) d n x)) names
    \<and> concat (map snd (ex_files (snd (export_spans (\<lambda>f. True) d n x)))) = concat (map snd (ex_files x)) @ d @ [CHR 0x0A]"
proof -
  obtain fs ds where files: "ex_files (append_file (ex_filename x) (d @ [CHR 0x0A]) x) = fs @ [(ex_filename x, data_lines (ds @ [d]))]"
      "ex_filename x \<notin> fst ` set fs" "ex_written x = data_size ds" "data_size ds \<le> 1024 * 1024"
      "\<forall>e \<in> set fs. bounded_file (snd e)" "fst ` set fs \<inter> set (n # names) = {}"
      "concat (map snd (ex_files x)) = concat (map snd fs) @ data_lines ds"
    using append_current [OF assms] by blast
  let ?x = "append_file (ex_filename x) (d @ [CHR 0x0A]) x" and ?n = "ex_written x + length d"
  have same: "ex_filename ?x = ex_filename x" "ex_written ?x = ex_written x" by (simp_all add: append_file_def)
  have names: "distinct (ex_filename x # n # names)" using assms by (simp add: exporter_inv_def)
  have good: "\<forall>e \<in> set (ex_files ?x). bounded_file (snd e)"
    using files(1,4,5) by (auto simp: bounded_file_def)
  have step: "snd (export_spans (\<lambda>f. True) d n x) = (if ?n > 1024 * 1024 then ?x\<lparr>ex_filename := n, ex_written := 0\<rparr> else ?x\<lparr>ex_written := ?n\<rparr>)"
    by (simp add: export_spans_def same Let_def)
  have "concat (map snd (ex_files ?x)) = concat (map snd (ex_files x)) @ d @ [CHR 0x0A]"
    by (simp add: files(1,7) data_lines_snoc)
  moreover have "exporter_inv (?x\<lparr>ex_filename := n, ex_written := 0\<rparr>) names"
    using good names files(6) by (auto simp: exporter_inv_def files(1))
  moreover have "exporter_inv (?x\<lparr>ex_written := ?n\<rparr>) names" if "\<not> ?n > 1024 * 1024"
  proof -
    have "data_size (ds @ [d]) = ?n" by (simp add: data_lines_snoc files(3))
    with that good names files(2,6) show ?thesis
      unfolding exporter_inv_def by (auto simp: files(1) same intro!: exI [of _ fs] exI [of _ "ds @ [d]"])
  qed
  ultimately show ?thesis unfolding step by simp
qed

text \<open>
  C35: Whatever is exported, to files whose names differ, is in the files in this order,
  and no file holds more than 1 MiB of data, line ends aside, before its last export.
\<close>

theorem span_files_bounded:
  assumes "distinct (first # map snd exports)"
  shows "let x = export_all exports (new_exporter first) in
    concat (map snd (ex_files x)) = data_lines (map fst exports)
    \<and> (\<forall>(f, c) \<in> set (ex_files x). \<exists>ds d. c = data_lines (ds @ [d]) \<and> data_size ds \<le> 1024 * 1024)"
proof -
  have run: "exporter_inv (export_all es x) [] \<and> concat (map snd (ex_files (export_all es x))) = concat (map snd (ex_files x)) @ data_lines (map fst es)"
    if "exporter_inv x (map snd es)" for es x
    using that
  proof (induction es arbitrary: x)
    case (Cons e es)
    obtain d n where e: "e = (d, n)" by (cases e)
    let ?y = "snd (export_spans (\<lambda>f. True) d n x)"
    have y: "exporter_inv ?y (map snd es)" "concat (map snd (ex_files ?y)) = concat (map snd (ex_files x)) @ d @ [CHR 0x0A]"
      using export_step [of x n "map snd es" d] Cons.prems by (simp_all add: e)
    have "export_all (e # es) x = export_all es ?y" by (simp add: export_all_def e)
    with Cons.IH [OF y(1)] y(2) show ?case by (simp add: e data_lines_def)
  qed (simp add: export_all_def data_lines_def)
  have "exporter_inv (new_exporter first) (map snd exports)"
    using assms by (simp add: exporter_inv_def new_exporter_def)
  note r = run [OF this]
  then have "\<forall>(f, c) \<in> set (ex_files (export_all exports (new_exporter first))). bounded_file c"
    by (auto simp: exporter_inv_def)
  moreover have "concat (map snd (ex_files (export_all exports (new_exporter first)))) = data_lines (map fst exports)"
    using r by (simp add: new_exporter_def)
  ultimately show ?thesis by (simp add: bounded_file_def)
qed

section \<open>Witnesses\<close>

text \<open>A tracer that records the names of its spans, and a script that works on a number.\<close>

definition demo_tracer :: "(string list, int) tracer" where
  "demo_tracer = \<lparr>tr_start = (\<lambda>n. modify (\<lambda>s. s\<lparr>ob_lib := ob_lib s @ [n]\<rparr>)), tr_set = (\<lambda>k v. ret ()), tr_end = id\<rparr>"

lemma demo_silent: "silent demo_tracer"
  by (simp add: silent_def demo_tracer_def modify_def ret_def)

definition demo_add :: "(string list, int, int, int) callable" where
  "demo_add = \<lparr>fn_module = Some ''m'', fn_qualname = Some ''add'', fn_text = ''f'', fn_kind = Function, fn_bind = (\<lambda>a. ret [(''n'', int_text a)]),
     fn_args = (\<lambda>a. ret ([], [])), fn_call = (\<lambda>a. seq (modify (\<lambda>s. s\<lparr>ob_prog := ob_prog s + a\<rparr>)) (gets ob_prog))\<rparr>"

definition demo_observed :: "(string list, int) observer" where
  "demo_observed = \<lparr>ob_lib = [], ob_environ = [(''OBSERVER_CONFIG_DIR'', ''/c'')], ob_stderr = [], ob_prog = 40\<rparr>"

lemma traced_call_transparent_witness:
  "fst (fn_call (instrument [demo_tracer] ''s.py'' demo_add) 2 demo_observed) = Inr 42"
proof -
  have "\<forall>t \<in> set [demo_tracer]. silent t" by (simp add: demo_silent)
  moreover have "printable demo_add" by (simp add: printable_def demo_add_def unseen_def ret_def)
  moreover have "oblivious (fn_call demo_add 2)"
    by (simp add: oblivious_def demo_add_def seq_def bnd_def modify_def gets_def)
  moreover have "fst (fn_call demo_add 2 demo_observed) = Inr 42"
    by (simp add: demo_add_def demo_observed_def seq_def bnd_def modify_def gets_def)
  ultimately show ?thesis
    using traced_call_transparent [of "[demo_tracer]" demo_add 2 "''s.py''" demo_observed] by simp
qed

definition demo_observer :: "(string list, int) ob_env" where
  "demo_observer = \<lparr>ob_listdir = (\<lambda>d. Inr [(''a.observer.conf'', True), (''all.conf'', True)]),
     ob_read = (\<lambda>f. if f = ''/c/a.observer.conf'' then Inr (options_text [(''otel_service_name'', ''x'')]) else Inl (Ob_FileNotFound f)),
     lib_import = ret (), lib_tracer = (\<lambda>p. ret demo_tracer), lib_patch = (\<lambda>m. ret ())\<rparr>"

definition demo_script :: "string \<Rightarrow> (string list, int) observer \<Rightarrow> script_exit \<times> (string list, int) observer" where
  "demo_script file s = (Exits (IntCode 259) ''t'', s\<lparr>ob_prog := ob_prog s + 1\<rparr>)"

lemma script_runs_as_alone_witness:
  "\<exists>r t. observer_run demo_observer demo_script [''observer.py'', ''s.py''] demo_observed = (r, t) \<and> exit_status r = 3 \<and> ob_prog t = 41"
proof -
  have "good_libraries demo_observer" by (auto simp: good_libraries_def demo_observer_def unseen_def ret_def demo_silent)
  moreover have "listable demo_observer" by (simp add: listable_def demo_observer_def)
  moreover have "script_alone demo_script" by (simp add: script_alone_def demo_script_def)
  moreover have "demo_script ([''observer.py'', ''s.py''] ! 1) demo_observed = (Exits (IntCode 259) ''t'', demo_observed\<lparr>ob_prog := 41\<rparr>)"
    by (simp add: demo_script_def demo_observed_def)
  ultimately show ?thesis
    using script_runs_as_alone [of demo_observer demo_script "[''observer.py'', ''s.py'']" demo_observed] by (fastforce simp: status_of_def)
qed

lemma module_members_traced_witness:
  "fst (autoinstrument_module [demo_tracer] [] \<lparr>md_text = ''m'', md_classes = [(''C'', [(''__init__'', Method demo_add True), (''x'', Attribute), (''add'', Method demo_add True)])],
      md_functions = []\<rparr> demo_observed)
   = Inr \<lparr>md_text = ''m'', md_classes = [(''C'', [(''__init__'', Method demo_add True), (''x'', Attribute), (''add'', Method (instrument [demo_tracer] [] demo_add) True)])],
      md_functions = []\<rparr>"
  using module_members_traced [of "[demo_tracer]" "[]" "\<lparr>md_text = ''m'', md_classes = [(''C'', [(''__init__'', Method demo_add True), (''x'', Attribute), (''add'', Method demo_add True)])],
      md_functions = []\<rparr>" demo_observed] by (simp add: demo_silent)

lemma config_file_read_witness:
  "read_config demo_observer ''/c/a.observer.conf'' OTELVARS = Inr [(''otel_service_name'', ''x'')]"
proof -
  have "ob_read demo_observer ''/c/a.observer.conf'' = Inr (options_text [(''otel_service_name'', ''x'')])" by (simp add: demo_observer_def)
  moreover have "list_all plain_option [(''otel_service_name'', ''x'')]" by code_simp
  moreover have "plain_header OTELVARS" by code_simp
  ultimately show ?thesis
    using config_file_read [of demo_observer "''/c/a.observer.conf''" "[(''otel_service_name'', ''x'')]" OTELVARS]
    by (simp add: py_strip_chars_def)
qed

lemma span_files_bounded_witness:
  "concat (map snd (ex_files (export_all [(''[1]'', ''g''), (''[2]'', ''h'')] (new_exporter ''f'')))) = data_lines [''[1]'', ''[2]'']"
  using span_files_bounded [of "''f''" "[(''[1]'', ''g''), (''[2]'', ''h'')]"] by (simp add: Let_def)

end
