(* ===== verification/Pytype_Report.thy ===== *)
theory Pytype_Report
  imports Py_Url
begin

text \<open>
  The reporter \<^verbatim>\<open>pytype_reporter.py\<close> of the continuous integration, first part: reading
  the output of the type checker and turning its errors into annotations. What
  is printed is recorded by channel; a regular expression of the configuration,
  the current directory and the processes are arguments.
\<close>

section \<open>Text\<close>

definition starts :: "string \<Rightarrow> string \<Rightarrow> bool" where
  "starts p s \<longleftrightarrow> take (length p) s = p"

text \<open>\<^verbatim>\<open>s.find(" ", n)\<close>, with \<open>None\<close> for -1.\<close>

definition find_from :: "char \<Rightarrow> nat \<Rightarrow> string \<Rightarrow> nat option" where
  "find_from c n s = map_option (\<lambda>i. n + i) (py_find c (drop n s))"

text \<open>\<^verbatim>\<open>t in s\<close>\<close>

fun occurs :: "string \<Rightarrow> string \<Rightarrow> bool" where
  "occurs t [] = (t = [])"
| "occurs t (c # s) = (starts t (c # s) \<or> occurs t s)"

definition base_name :: "string \<Rightarrow> string" where
  "base_name p = last (py_split CHR ''/'' p)"

section \<open>Configuration and output\<close>

text \<open>
  \<open>cfg_discard\<close> is \<open>None\<close> when the key is missing. A dictionary of an error is
  an association list. An \<^verbatim>\<open>OSError\<close> carries its class and text.
\<close>

record report_config =
  cfg_script :: string
  cfg_default_branch :: string
  cfg_repo_url :: string
  cfg_tree_url :: string
  cfg_section :: string
  cfg_discard :: "string list option"
  cfg_expected :: "string list"
  cfg_msg :: string
  cfg_xfail_section :: string

type_synonym report = "(string \<times> string) list"

datatype channel = Out | Err | File string

datatype report_error = Rep_ValueError | Rep_KeyError | Rep_OSError string | Rep_AssertionError string | Rep_TypeError | Rep_CalledProcessError

text \<open>
  Of a process: the lines read before the first of its two streams ends, with
  whether they come from standard error, and its exit code.
\<close>

record process =
  proc_reads :: "(bool \<times> string) list"
  proc_code :: int

text \<open>
  An answer of the web server: the commit messages of a list in JSON, or another
  status with what \<^verbatim>\<open>print\<close> shows of its body.
\<close>

datatype reply = Commits "string list" | Status nat string

text \<open>
  What is read of the file of the project: the tables of tools by name, where a
  missing key is \<open>None\<close> and an empty table has none, and the address of the
  repository.
\<close>

record tool_table =
  tt_default_branch :: "string option"
  tt_discard :: "string list option"
  tt_expected :: "string list option"

record pyproject =
  pp_tool :: "(string \<Rightarrow> tool_table option) option"
  pp_repository :: "string option"

record 'k reporter_env =
  rp_cwd :: string
  rp_getenv :: "string \<Rightarrow> string option"
  rp_match :: "string \<Rightarrow> string \<Rightarrow> bool"
  rp_toml :: "string \<Rightarrow> report_error + pyproject"
  rp_argv :: "string list"
  rp_open :: "string \<Rightarrow> 'k \<Rightarrow> report_error option \<times> 'k"
  rp_popen :: "string list \<Rightarrow> 'k \<Rightarrow> (report_error + process) \<times> 'k"
  rp_output :: "string list \<Rightarrow> 'k \<Rightarrow> string option \<times> 'k"
  rp_fetch :: "string \<Rightarrow> string \<Rightarrow> 'k \<Rightarrow> (report_error + reply) \<times> 'k"
  rp_markdown :: "report list \<Rightarrow> string"

record 'k reporter =
  rp_machine :: 'k
  rp_printed :: "(channel \<times> string) list"

type_synonym ('k, 'a) rep_op = "('k reporter, report_error, 'a) st"

definition emit :: "channel \<Rightarrow> string \<Rightarrow> ('k, unit) rep_op" where
  "emit c t = modify (\<lambda>s. s\<lparr>rp_printed := rp_printed s @ [(c, t)]\<rparr>)"

definition print_line :: "channel \<Rightarrow> string \<Rightarrow> ('k, unit) rep_op" where
  "print_line c t = emit c (t @ [CHR 0x0A])"

text \<open>A call of the machine.\<close>

definition on_machine :: "('k \<Rightarrow> (report_error + 'a) \<times> 'k) \<Rightarrow> ('k, 'a) rep_op" where
  "on_machine f s = (case f (rp_machine s) of (r, k) \<Rightarrow> (r, s\<lparr>rp_machine := k\<rparr>))"

section \<open>Lines of the type checker\<close>

definition MORE :: string where "MORE = ''For more details, see ''"
definition TRACE :: string where "TRACE = ''Called from (traceback):''"

definition populate_error_dict :: "report_config \<Rightarrow> string \<Rightarrow> string \<Rightarrow> string \<Rightarrow> string \<Rightarrow> report" where
  "populate_error_dict config message filename lineno code =
     (let split = find_from CHR '' '' 21 message;
          link_text = hd (py_split CHR ''.'' (base_name filename));
          source_link = ''[`'' @ link_text @ '':'' @ lineno @ ''`]('' @ cfg_tree_url config @ ''/'' @ filename @ ''#L'' @ lineno @ '')'';
          part1 = (case split of None \<Rightarrow> butlast message | Some i \<Rightarrow> take i message);
          part2 = py_replace ''. '' ''.<br>'' (case split of None \<Rightarrow> message | Some i \<Rightarrow> drop (i + 1) message);
          code = (if hd code \<noteq> CHR ''['' then ''['' @ code @ ''](https://google.github.io/pytype/errors.html#'' @ code @ '')'' else code) in
      [(''Location'', source_link), (''Error code'', code), (''Error message'', part1 @ ''<br>'' @ part2)])"

text \<open>
  The two regular expressions. A group of non-blank characters before a comma
  and a blank, or a colon and a blank, ends where the non-blank characters end;
  the message is as long as possible, and then the code.
\<close>

definition non_blank :: "string \<Rightarrow> string" where
  "non_blank s = takeWhile (\<lambda>c. \<not> str_space c) s"

definition match_code :: "string \<Rightarrow> string option" where
  "match_code s =
     (case s of
        a # b # rest \<Rightarrow>
          if a = CHR '' '' \<and> b = CHR ''['' then
            (let r = rev (dropWhile (\<lambda>c. c \<noteq> CHR '']'') (rev (non_blank rest))) in
             if length r > 1 then Some (butlast r) else None)
          else None
      | _ \<Rightarrow> None)"

fun match_message :: "string \<Rightarrow> (string \<times> string) option" where
  "match_message [] = None"
| "match_message (c # s) =
     (case match_message s of
        Some (m, code) \<Rightarrow> Some (c # m, code)
      | None \<Rightarrow> map_option (\<lambda>code. ([], code)) (match_code (c # s)))"

text \<open>\<^verbatim>\<open>File "([^"]+)", line (\S+)\<close> and what follows, without the last character of the run.\<close>

definition match_file :: "string \<Rightarrow> (string \<times> string \<times> char \<times> string) option" where
  "match_file line =
     (let q = CHR 0x22; t = drop 6 line; name = takeWhile (\<lambda>c. c \<noteq> q) t; rest = drop (length name) t;
          run = non_blank (drop 8 rest); after = drop (length run) (drop 8 rest) in
      if starts (''File '' @ [q]) line \<and> name \<noteq> [] \<and> starts (q # '', line '') rest \<and> length run > 1
      then Some (name, butlast run, last run, after) else None)"

definition match_in :: "string \<Rightarrow> (string \<times> string) option" where
  "match_in s =
     (let t = drop 4 s; func = takeWhile (\<lambda>c. c \<noteq> CHR '':'') t; rest = drop (length func) t in
      if starts '' in '' s \<and> func \<noteq> [] \<and> starts '': '' rest then Some (func, drop 2 rest) else None)"

text \<open>File, line number, function, message and code of a line.\<close>

definition match_error :: "string \<Rightarrow> (string \<times> string \<times> string \<times> string \<times> string) option" where
  "match_error line =
     (case match_file line of
        None \<Rightarrow> None
      | Some (name, lineno, sep, after) \<Rightarrow>
          (case (if sep = CHR '','' then match_in after else None) of
             Some (func, rest) \<Rightarrow> map_option (\<lambda>(m, code). (name, lineno, func, m, code)) (match_message rest)
           | None \<Rightarrow>
               if sep = CHR '':'' \<and> starts '' '' after
               then map_option (\<lambda>(m, code). (name, lineno, [], m, code)) (match_message (drop 1 after))
               else None))"

definition annotation_type :: "string \<Rightarrow> string" where
  "annotation_type code =
     (if code = ''attribute-error'' then ''warning''
      else if occurs ''ignored'' code \<or> occurs ''unsupported-operands'' code then ''notice'' else ''error'')"

definition github_error :: "'k reporter_env \<Rightarrow> report_config \<Rightarrow> string \<Rightarrow> report_error + string \<times> report \<times> string" where
  "github_error ev config line =
     (case match_error line of
        None \<Rightarrow> Inr ([], [], [])
      | Some (name, lineno, func, message, code) \<Rightarrow>
          (case cfg_discard config of
             None \<Rightarrow> Inl Rep_KeyError
           | Some ds \<Rightarrow>
               if list_ex (\<lambda>d. rp_match ev d message) ds then Inr ([], [], [])
               else
                 (let filename = py_replace (rp_cwd ev @ ''/'') [] name;
                      d = populate_error_dict config message filename lineno code
                          @ [(''Function'', if func \<noteq> [] then ''`'' @ func @ ''`'' else ''syntax<br>error'')] in
                  Inr (''::'' @ annotation_type code @ '' file='' @ filename @ '',line='' @ lineno
                         @ '',title=pytype: '' @ code @ ''::'' @ message, d, filename))))"

definition extend_error_description :: "string \<Rightarrow> report \<Rightarrow> string \<times> report" where
  "extend_error_description line d =
     (if starts MORE line then ([], d)
      else ('', '' @ line,
        AList.update ''Error description''
          (case map_of d ''Error description'' of
             None \<Rightarrow> py_lstrip line | Some t \<Rightarrow> t @ ''<br>'' @ py_lstrip line) d))"

text \<open>A progress line must have a bracket or the current directory behind its start.\<close>

definition skip_uninteresting_lines :: "'k reporter_env \<Rightarrow> string \<Rightarrow> report_error + bool" where
  "skip_uninteresting_lines ev line =
     (if line = [] \<or> hd line = CHR ''/'' \<or> starts ''FAILED:'' line then Inr True
      else if hd line = CHR ''['' then
        (if occurs (rp_cwd ev) (tl line) \<or> CHR '']'' \<in> set line then Inr True else Inl Rep_ValueError)
      else
        (let line = (if starts ''ninja: '' line then drop 7 line else line) in
         Inr (starts ''Entering'' line \<or> starts ''Leaving'' line \<or> starts ''Computing'' line \<or> starts ''Analyzing'' line)))"

definition handle_grouping :: "channel \<Rightarrow> string \<Rightarrow> string \<Rightarrow> ('k, string) rep_op" where
  "handle_grouping log filename last_filename =
     seq (if log \<noteq> Out \<and> filename \<noteq> last_filename then
            seq (if last_filename \<noteq> [] then print_line log ''::endgroup::'' else ret ())
              (if filename \<noteq> [] then print_line log (''::group::'' @ filename) else ret ())
          else ret ())
       (ret filename)"

text \<open>
  The loop carries the message and the dictionary that are not yet reported, the
  file of the open group and the results.
\<close>

record parse_state =
  ps_message :: string
  ps_error :: report
  ps_file :: string
  ps_results :: "report list"

definition continues :: "string \<Rightarrow> bool" where
  "continues line \<longleftrightarrow> hd line = CHR '' '' \<or> starts MORE line \<or> starts TRACE line"

definition handle_line ::
  "'k reporter_env \<Rightarrow> report_config \<Rightarrow> channel \<Rightarrow> string \<Rightarrow> parse_state \<Rightarrow> ('k, parse_state) rep_op" where
  "handle_line ev config log line p =
     bnd (lift_sum (skip_uninteresting_lines ev line)) (\<lambda>skip.
     if skip then ret p
     else if ps_error p \<noteq> [] \<and> continues line then
       (let (m, d) = extend_error_description line (ps_error p) in
        ret (p\<lparr>ps_message := ps_message p @ m, ps_error := d\<rparr>))
     else
       seq (if ps_error p \<noteq> [] then print_line log (ps_message p) else ret ())
       (bnd (lift_sum (github_error ev config line)) (\<lambda>(m, d, filename).
        bnd (handle_grouping log filename (ps_file p)) (\<lambda>last_filename.
        ret \<lparr>ps_message = m, ps_error = d, ps_file = last_filename,
             ps_results = (if ps_error p \<noteq> [] then ps_results p @ [ps_error p] else ps_results p)\<rparr>))))"

primrec handle_reads ::
  "'k reporter_env \<Rightarrow> report_config \<Rightarrow> channel \<Rightarrow> (bool \<times> string) list \<Rightarrow> parse_state \<Rightarrow> ('k, parse_state) rep_op" where
  "handle_reads ev config log [] p = ret p"
| "handle_reads ev config log (r # reads) p =
     bnd (if fst r then seq (emit Err (''pytype: '' @ snd r)) (ret p)
          else handle_line ev config log (py_rstrip (snd r)) p)
       (handle_reads ev config log reads)"

definition parse_annotations ::
  "'k reporter_env \<Rightarrow> report_config \<Rightarrow> (bool \<times> string) list \<Rightarrow> channel \<Rightarrow> report list \<Rightarrow> ('k, report list) rep_op" where
  "parse_annotations ev config reads log results =
     bnd (handle_reads ev config log reads \<lparr>ps_message = [], ps_error = [], ps_file = [], ps_results = results\<rparr>) (\<lambda>p.
     seq (handle_grouping log [] (ps_file p)) (ret (ps_results p)))"

text \<open>\<^verbatim>\<open>shlex.quote\<close>\<close>

definition shell_safe :: "char \<Rightarrow> bool" where
  "shell_safe c \<longleftrightarrow> is_digit c \<or> (let n = of_char c :: nat in 65 \<le> n \<and> n \<le> 90 \<or> 97 \<le> n \<and> n \<le> 122)
     \<or> c \<in> set ''_@%+=:,./-''"

definition shell_quote :: "string \<Rightarrow> string" where
  "shell_quote t =
     (if t \<noteq> [] \<and> list_all shell_safe t then t
      else [CHR 0x27] @ py_replace [CHR 0x27] [CHR 0x27, CHR 0x22, CHR 0x27, CHR 0x22, CHR 0x27] t @ [CHR 0x27])"

definition report_on ::
  "'k reporter_env \<Rightarrow> report_config \<Rightarrow> channel \<Rightarrow> string list \<Rightarrow> report list \<Rightarrow> ('k, int \<times> report list) rep_op" where
  "report_on ev config log command results =
     bnd (on_machine (rp_popen ev command)) (\<lambda>p.
     bnd (parse_annotations ev config (proc_reads p) log results) (\<lambda>results.
     seq (print_line log (''Ran: '' @ py_join '' '' (map shell_quote command)))
       (ret (proc_code p, results))))"

end
