(* ===== verification/Pytype_Run.thy ===== *)
theory Pytype_Run
  imports Pytype_Report
begin

text \<open>
  The reporter of the type checker, second part: the runs over all files and
  over those expected to fail, the summary, the question whether a branch only
  reverts commits, and the entry point.
\<close>

section \<open>Runs\<close>

definition annotate :: "string \<Rightarrow> report_config \<Rightarrow> string \<Rightarrow> string \<Rightarrow> string \<Rightarrow> ('k, unit) rep_op" where
  "annotate kind config filename title message =
     print_line Out (''::'' @ kind @ '' file='' @ filename @ '',title='' @ cfg_script config @ '': '' @ title @ ''::'' @ message)"

definition notice :: "report_config \<Rightarrow> string \<Rightarrow> string \<Rightarrow> string \<Rightarrow> ('k, unit) rep_op" where
  "notice = annotate ''notice''"

definition base_command :: "string list" where
  "base_command = [''pytype'', ''--keep-going'', ''--jobs'', ''auto'']"

text \<open>The text of the source, which is no format string.\<close>

definition xfail_section :: string where
  "xfail_section = CHR 0x0A # ''The string '' @ [CHR 0x22] @ ''expected_to_fail'' @ [CHR 0x22] @ '' in {config['' @ [CHR 0x22] @ ''section'' @ [CHR 0x22] @ '']}''"

definition run_arguments :: "'k reporter_env \<Rightarrow> report_config \<Rightarrow> string list \<times> string list" where
  "run_arguments ev config =
     (let xfail_files = cfg_expected config in
      if length (rp_argv ev) > 1 then (tl (rp_argv ev), [])
      else if xfail_files \<noteq> [] then ([''--exclude'', py_join '' '' xfail_files], xfail_files)
      else ([], xfail_files))"

text \<open>The handler of a run gives \<open>None\<close>: the caller then returns 5.\<close>

definition xfail_raised :: "string \<Rightarrow> report_error \<Rightarrow> ('k, (int \<times> report list) option) rep_op" where
  "xfail_raised xfail e =
     (case e of
        Rep_OSError t \<Rightarrow> seq (print_line Out ''::endgroup::'') (seq (print_line Out (''::error file='' @ xfail @ '',title=run_pytype() raised '' @ t)) (ret None))
      | Rep_AssertionError t \<Rightarrow> seq (print_line Out ''::endgroup::'') (seq (print_line Out (''::error file='' @ xfail @ '',title=run_pytype() raised '' @ t)) (ret None))
      | _ \<Rightarrow> throw e)"

definition report_xfail :: "report_config \<Rightarrow> string \<Rightarrow> int \<Rightarrow> nat \<Rightarrow> report list \<Rightarrow> ('k, unit) rep_op" where
  "report_xfail config xfail err before results =
     (if length results \<le> before then
        (if err \<noteq> 0 then print_line Out (''::error file='' @ xfail @ '',title=pytype exited('' @ int_text err @ ''),but no results'')
         else notice config xfail ''No error exit and no errors seen'' (''Please check and remove it from '' @ cfg_xfail_section config))
      else ret ())"

primrec run_xfail :: "'k reporter_env \<Rightarrow> report_config \<Rightarrow> string list \<Rightarrow> report list \<Rightarrow> ('k, int \<times> report list) rep_op" where
  "run_xfail ev config [] results = ret (0, results)"
| "run_xfail ev config (xfail # xfails) results =
     seq (print_line Out (''::group::pytype for '' @ xfail))
     (bnd (catch (bnd (report_on ev config Out (base_command @ [xfail]) results) (\<lambda>r. ret (Some r))) (xfail_raised xfail)) (\<lambda>r.
      case r of
        None \<Rightarrow> ret (5, results)
      | Some (err, new) \<Rightarrow>
          seq (print_line Out ''::endgroup::'')
          (seq (report_xfail config xfail err (length results) new)
               (run_xfail ev config xfails new))))"

definition run_pytype_and_parse :: "'k reporter_env \<Rightarrow> report_config \<Rightarrow> ('k, int \<times> report list) rep_op" where
  "run_pytype_and_parse ev config =
     (let config = config\<lparr>cfg_xfail_section := xfail_section\<rparr>;
          (args, xfail_files) = run_arguments ev config;
          grouped = (rp_getenv ev ''GITHUB_OUTPUT'' \<noteq> None) in
      seq (if grouped then print_line Out ''::group::pytype for all files which are expected to pass'' else ret ())
      (bnd (report_on ev config Err (base_command @ args) []) (\<lambda>(err, results).
       seq (if grouped then print_line Out ''::endgroup::'' else ret ())
       (if err \<noteq> 0 \<or> results \<noteq> [] then
          seq (print_line Out ''::warning::pytype exited with errors on regular run that should pass'')
          (seq (print_line Out ''::error::Add the file that caused the error to expected_to_fail in pyproject.toml'')
               (ret (if err > 0 then (err, results) else (int (length results), results))))
        else run_xfail ev config xfail_files results))))"

section \<open>Summary\<close>

definition env_or :: "'k reporter_env \<Rightarrow> string \<Rightarrow> string \<Rightarrow> string" where
  "env_or ev name d = (case rp_getenv ev name of None \<Rightarrow> d | Some t \<Rightarrow> t)"

definition open_file :: "'k reporter_env \<Rightarrow> string \<Rightarrow> ('k, unit) rep_op" where
  "open_file ev path = on_machine (\<lambda>k. case rp_open ev path k of (None, k) \<Rightarrow> (Inr (), k) | (Some e, k) \<Rightarrow> (Inl e, k))"

definition write_summary_file :: "'k reporter_env \<Rightarrow> string \<Rightarrow> string \<Rightarrow> ('k, unit) rep_op" where
  "write_summary_file ev summary anchor_text =
     (case rp_getenv ev ''GITHUB_RUN_ID'' of
        None \<Rightarrow> throw Rep_TypeError
      | Some run \<Rightarrow>
          (let server = env_or ev ''GITHUB_SERVER_URL'' ''https://github.com'';
               repo = env_or ev ''GITHUB_REPOSITORY'' ''xapi-project/xen-api'';
               job_url = server @ ''/'' @ repo @ ''/actions/runs/'' @ run;
               anchor_url = job_url @ ''#'' @ py_replace '' '' ''-'' (py_lower anchor_text);
               result_md = ''You can check the results of the job [here]('' @ anchor_url @ '')'' in
           seq (open_file ev ''.git/pytype-summary.md'')
             (emit (File ''.git/pytype-summary.md'') (summary @ ''.'' @ [CHR 0x0A, CHR 0x0A] @ result_md))))"

definition generate_markdown :: "'k reporter_env \<Rightarrow> report_config \<Rightarrow> channel \<Rightarrow> int \<Rightarrow> report list \<Rightarrow> ('k, unit) rep_op" where
  "generate_markdown ev config out returncode results =
     (let pr = rp_getenv ev ''PR_NUMBER''; script_name = cfg_script config; anchor_text = ''Pytype check results'';
          runner_link = (if pr = None then script_name else ''['' @ script_name @ '']('' @ cfg_tree_url config @ ''/'' @ script_name @ ''.py)'');
          pytype_link = (if pr = None then ''pytype'' else ''[pytype](https://google.github.io/pytype)'');
          summary = (if results \<noteq> [] \<or> returncode \<noteq> 0
            then ''#### '' @ runner_link @ '' extracted '' @ nat_str (length results) @ '' problem reports from '' @ pytype_link @ '' output''
            else ''#### '' @ runner_link @ '' reports no errors from '' @ pytype_link @ '' output.'') in
      seq (case pr of
             None \<Rightarrow> ret ()
           | Some n \<Rightarrow>
               seq (emit out (''<a id='' @ [CHR 0x22] @ ''pytype-check-results'' @ [CHR 0x22] @ ''></a>'' @ [CHR 0x0A] @ ''#Pytype check results'' @ [CHR 0x0A]))
                   (emit out (''### ['' @ anchor_text @ '']'' @ [CHR 0x0A] @ ''for PR #'' @ n @ [CHR 0x0A])))
      (seq (print_line out summary)
      (seq (if results \<noteq> [] \<or> returncode \<noteq> 0 then print_line out (rp_markdown ev results) else ret ())
           (if pr \<noteq> None then write_summary_file ev (summary @ [CHR 0x0A, CHR 0x0A] @ cfg_msg config) anchor_text else ret ()))))"

definition nonempty :: "string option \<Rightarrow> string option" where
  "nonempty t = (if t = Some [] then None else t)"

definition run_pytype_and_generate_summary :: "'k reporter_env \<Rightarrow> report_config \<Rightarrow> ('k, int) rep_op" where
  "run_pytype_and_generate_summary ev config =
     bnd (run_pytype_and_parse ev config) (\<lambda>(returncode, results).
     seq (case nonempty (rp_getenv ev ''GITHUB_STEP_SUMMARY'') of
            Some f \<Rightarrow> seq (open_file ev f) (generate_markdown ev config (File f) returncode results)
          | None \<Rightarrow> generate_markdown ev config Out returncode results)
     (seq (case nonempty (rp_getenv ev ''GITHUB_OUTPUT'') of
             Some f \<Rightarrow> seq (open_file ev f) (emit (File f) (''exit_code='' @ int_text returncode))
           | None \<Rightarrow> ret ())
          (ret returncode)))"

section \<open>Configuration\<close>

definition DEFAULT_BRANCH_NAME :: string where "DEFAULT_BRANCH_NAME = ''main''"

definition remove_suffix :: "string \<Rightarrow> string \<Rightarrow> string" where
  "remove_suffix e t = (if e \<noteq> [] \<and> length e \<le> length t \<and> drop (length t - length e) t = e then take (length t - length e) t else t)"

text \<open>\<^verbatim>\<open>a or b\<close> of two variables, printed into a text.\<close>

definition branch_name :: "'k reporter_env \<Rightarrow> string" where
  "branch_name ev =
     (case nonempty (rp_getenv ev ''GITHUB_HEAD_REF'') of
        Some b \<Rightarrow> b
      | None \<Rightarrow> env_or ev ''GITHUB_REF_NAME'' ''None'')"

definition load_config :: "'k reporter_env \<Rightarrow> string \<Rightarrow> string \<Rightarrow> report_error + report_config" where
  "load_config ev config_file script_basename =
     (let script_name = remove_suffix ''.py'' script_basename in
      sbind (rp_toml ev config_file) (\<lambda>pyproject.
      case (pp_tool pyproject, pp_repository pyproject) of
        (Some tools, Some address) \<Rightarrow>
          (let tool = (case tools script_name of None \<Rightarrow> \<lparr>tt_default_branch = None, tt_discard = None, tt_expected = None\<rparr> | Some t \<Rightarrow> t);
               default_branch = (case tt_default_branch tool of None \<Rightarrow> DEFAULT_BRANCH_NAME | Some b \<Rightarrow> b);
               (repository_url, branch) =
                 (case (nonempty (rp_getenv ev ''GITHUB_SERVER_URL''), nonempty (rp_getenv ev ''GITHUB_REPOSITORY'')) of
                    (Some server, Some repo) \<Rightarrow> (server @ ''/'' @ repo, branch_name ev)
                  | _ \<Rightarrow> (py_strip_chars {CHR '' '', CHR ''/''} address, default_branch)) in
           Inr \<lparr>cfg_script = script_name, cfg_default_branch = default_branch, cfg_repo_url = repository_url,
                cfg_tree_url = repository_url @ ''/blob/'' @ branch,
                cfg_section = config_file @ ''[tool.'' @ script_name @ '']'', cfg_discard = tt_discard tool,
                cfg_expected = (case tt_expected tool of None \<Rightarrow> [] | Some fs \<Rightarrow> fs), cfg_msg = [],
                cfg_xfail_section = []\<rparr>)
      | _ \<Rightarrow> Inl Rep_KeyError))"

section \<open>Commits\<close>

definition command_output :: "'k reporter_env \<Rightarrow> string list \<Rightarrow> ('k, string) rep_op" where
  "command_output ev command = on_machine (\<lambda>k. case rp_output ev command k of
     (None, k) \<Rightarrow> (Inl Rep_CalledProcessError, k) | (Some t, k) \<Rightarrow> (Inr t, k))"

definition git_diff :: "'k reporter_env \<Rightarrow> string list \<Rightarrow> ('k, string) rep_op" where
  "git_diff ev args = command_output ev ([''git'', ''diff'', ''--ignore-space-change''] @ args)"

definition find_branch_point :: "'k reporter_env \<Rightarrow> report_config \<Rightarrow> ('k, string) rep_op" where
  "find_branch_point ev config =
     bnd (command_output ev [''git'', ''merge-base'', ''origin/'' @ cfg_default_branch config, ''HEAD'']) (\<lambda>t. ret (py_strip t))"

definition github_get_pr_commit_messages :: "'k reporter_env \<Rightarrow> string \<Rightarrow> string \<Rightarrow> ('k, string list) rep_op" where
  "github_get_pr_commit_messages ev repo pr_number =
     (case nonempty (rp_getenv ev ''GITHUB_TOKEN'') of
        None \<Rightarrow> ret []
      | Some token \<Rightarrow>
          if pr_number = [] then ret []
          else
            (case rp_getenv ev ''GITHUB_API_URL'' of
               None \<Rightarrow> throw Rep_TypeError
             | Some api \<Rightarrow>
                 bnd (on_machine (rp_fetch ev token (api @ ''/repos/'' @ repo @ ''/pulls/'' @ pr_number @ ''/commits''))) (\<lambda>r.
                 case r of
                   Commits ms \<Rightarrow> ret (map (\<lambda>m. hd (py_split CHR 0x0A m)) ms)
                 | Status n body \<Rightarrow>
                     seq (print_line Out (''Failed to fetch PR commits. Status code: '' @ nat_str n))
                     (seq (print_line Out body) (ret [])))))"

text \<open>The loop over the messages: whether it reaches its end.\<close>

primrec only_reverts :: "string list \<Rightarrow> ('k, bool) rep_op" where
  "only_reverts [] = ret True"
| "only_reverts (m # ms) =
     seq (print_line Out (''#> '' @ m)) (if m \<noteq> [] \<and> \<not> occurs ''Revert'' m then ret False else only_reverts ms)"

definition revert_message :: "report_config \<Rightarrow> string \<Rightarrow> string list \<Rightarrow> string \<Rightarrow> string" where
  "revert_message config pr_number changed_files diff =
     (let nl = [CHR 0x0A]; q = [CHR 0x22]; tick = [CHR 0x60, CHR 0x60, CHR 0x60]; quote = [CHR 0x27];
          pr_url = cfg_repo_url config @ ''/pull/'' @ (if pr_number \<noteq> [] then pr_number else ''<PR-number>'') in
      nl @ ''## '' @ cfg_script config @ '': Only '' @ q @ ''Revert'' @ q @ '' commits on this PR.'' @ nl
      @ ''Checking the revert diff:'' @ nl @ tick @ ''sh'' @ nl @ ''gh pr checkout '' @ pr_url @ nl
      @ ''REF=$(git rev-list -n 1 --before='' @ quote @ ''4 weeks ago'' @ quote @ '' HEAD)'' @ nl
      @ ''git diff $REF '' @ py_join '' '' changed_files @ nl @ tick @ nl @ ''diff:'' @ nl
      @ tick @ ''py'' @ nl @ diff @ tick @ nl
      @ ''An empty `git diff` means the changes in these files are reverted'')"

text \<open>The configuration is returned with its message, which the source stores in it.\<close>

definition check_only_reverts_from_branch_point ::
  "'k reporter_env \<Rightarrow> report_config \<Rightarrow> string list \<Rightarrow> ('k, bool \<times> report_config) rep_op" where
  "check_only_reverts_from_branch_point ev config changed_files =
     (let pr_number = env_or ev ''PR_NUMBER'' [] in
      bnd (github_get_pr_commit_messages ev (env_or ev ''GITHUB_REPOSITORY'' []) pr_number) (\<lambda>msgs.
      bnd (if msgs \<noteq> [] then ret msgs
           else bnd (find_branch_point ev config) (\<lambda>point.
                bnd (command_output ev [''git'', ''log'', ''--pretty=%s'', point @ ''..HEAD'']) (\<lambda>t.
                ret (py_split CHR 0x0A t)))) (\<lambda>msgs.
      bnd (only_reverts msgs) (\<lambda>only.
      if \<not> only then ret (False, config)
      else
        bnd (command_output ev [''git'', ''rev-list'', ''-n1'', ''--before=4 weeks ago'', ''HEAD'']) (\<lambda>old_ref.
        bnd (git_diff ev (py_strip old_ref # changed_files)) (\<lambda>diff.
        (let msg = revert_message config pr_number changed_files diff in
         seq (print_line Out msg) (ret (True, config\<lparr>cfg_msg := msg\<rparr>)))))))))"

section \<open>Entry point\<close>

text \<open>\<^verbatim>\<open>str.splitlines\<close>, on ASCII text\<close>

definition line_end :: "char \<Rightarrow> bool" where
  "line_end c \<longleftrightarrow> c \<in> {CHR 0x0A, CHR 0x0B, CHR 0x0C, CHR 0x0D, CHR 0x1C, CHR 0x1D, CHR 0x1E}"

fun str_splitlines :: "string \<Rightarrow> string list" where
  "str_splitlines [] = []"
| "str_splitlines (c # s) =
     (if c = CHR 0x0D \<and> s \<noteq> [] \<and> hd s = CHR 0x0A then str_splitlines s
      else if line_end c then [] # str_splitlines s
      else case str_splitlines s of [] \<Rightarrow> [[c]] | l # ls \<Rightarrow> (c # l) # ls)"

definition reject_changed :: "report_config \<Rightarrow> string \<Rightarrow> string \<Rightarrow> ('k, unit) rep_op" where
  "reject_changed config config_file f =
     annotate ''error'' config config_file (''remove '' @ f @ '' from expected_to_fail'')
       (f @ '' was changed, remove it from expected_to_fail in '' @ config_file @ '' and make sure it passes pytype checks'')"

definition changed_files :: "'k reporter_env \<Rightarrow> report_config \<Rightarrow> ('k, string list) rep_op" where
  "changed_files ev config =
     (if cfg_expected config \<noteq> [] then
        bnd (find_branch_point ev config) (\<lambda>point.
        bnd (git_diff ev (''--name-only'' # point # cfg_expected config)) (\<lambda>t. ret (str_splitlines t)))
      else ret [])"

definition reporter_main :: "'k reporter_env \<Rightarrow> string \<Rightarrow> ('k, int) rep_op" where
  "reporter_main ev script =
     (let config_file = ''pyproject.toml'' in
      bnd (lift_sum (load_config ev config_file (base_name script))) (\<lambda>config.
      bnd (changed_files ev config) (\<lambda>changed.
      bnd (check_only_reverts_from_branch_point ev config changed) (\<lambda>(only, config).
      if only then run_pytype_and_generate_summary ev config
      else
        seq (for_each (reject_changed config config_file) changed)
        (if changed \<noteq> [] then ret 5 else run_pytype_and_generate_summary ev config)))))"

end
