(* ===== verification/Pytype_Proofs.thy ===== *)
theory Pytype_Proofs
  imports Pytype_Run
begin

text \<open>
  Properties of the reporter of the type checker: which line becomes which
  annotation, which errors of the output are reported, and what the exit codes
  of the script mean.
\<close>

section \<open>Matching\<close>

lemma starts_append [simp]: "starts p (p @ s)"
  by (simp add: starts_def)

lemma takeWhile_stop: "list_all P xs \<Longrightarrow> \<not> P y \<Longrightarrow> takeWhile P (xs @ y # ys) = xs"
  by (induction xs) auto

lemma non_blank_stop: "list_all (\<lambda>c. \<not> str_space c) xs \<Longrightarrow> non_blank (xs @ CHR '' '' # ys) = xs"
  by (simp add: non_blank_def takeWhile_stop str_space_def)

lemma non_blank_all: "list_all (\<lambda>c. \<not> str_space c) xs \<Longrightarrow> non_blank xs = xs"
  by (simp add: non_blank_def list_all_iff)

lemma match_code_no_blank: "list_all (\<lambda>c. \<not> str_space c) s \<Longrightarrow> match_code s = None"
  by (cases s; cases "tl s") (auto simp: match_code_def str_space_def)

lemma match_message_no_blank: "list_all (\<lambda>c. \<not> str_space c) s \<Longrightarrow> match_message s = None"
  by (induction s) (simp_all add: match_code_no_blank)

lemma match_code_end:
  assumes "list_all (\<lambda>c. \<not> str_space c) code" "code \<noteq> []"
  shows "match_code ('' ['' @ code @ '']'') = Some code"
proof -
  have "non_blank (code @ '']'') = code @ '']''"
    using assms(1) by (intro non_blank_all) (simp add: str_space_def)
  then show ?thesis using assms(2) by (simp add: match_code_def Let_def)
qed

lemma match_message_end:
  assumes "list_all (\<lambda>c. \<not> str_space c) code" "code \<noteq> []"
  shows "match_message (message @ '' ['' @ code @ '']'') = Some (message, code)"
proof (induction message)
  case Nil
  have "match_message (CHR ''['' # code @ '']'') = None"
    using assms(1) by (intro match_message_no_blank) (simp add: str_space_def)
  then show ?case using match_code_end [OF assms] by simp
qed simp

text \<open>The two forms of an error that the type checker prints.\<close>

definition located :: "string \<Rightarrow> string \<Rightarrow> string" where
  "located name lineno = ''File '' @ [CHR 0x22] @ name @ [CHR 0x22] @ '', line '' @ lineno"

definition error_line :: "string \<Rightarrow> string \<Rightarrow> string \<Rightarrow> string \<Rightarrow> string \<Rightarrow> string" where
  "error_line name lineno func message code =
     located name lineno @ (if func = [] then [] else '', in '' @ func) @ '': '' @ message @ '' ['' @ code @ '']''"

definition error_parts :: "string \<Rightarrow> string \<Rightarrow> string \<Rightarrow> string \<Rightarrow> bool" where
  "error_parts name lineno func code \<longleftrightarrow>
     name \<noteq> [] \<and> CHR 0x22 \<notin> set name \<and> lineno \<noteq> [] \<and> list_all (\<lambda>c. \<not> str_space c) lineno
     \<and> CHR '':'' \<notin> set func \<and> code \<noteq> [] \<and> list_all (\<lambda>c. \<not> str_space c) code"

lemma match_file_located:
  assumes "name \<noteq> []" "CHR 0x22 \<notin> set name" "lineno \<noteq> []" "list_all (\<lambda>c. \<not> str_space c) lineno" "\<not> str_space sep"
  shows "match_file (located name lineno @ sep # CHR '' '' # rest) = Some (name, lineno, sep, CHR '' '' # rest)"
proof -
  have name: "takeWhile (\<lambda>c. c \<noteq> CHR 0x22) (name @ CHR 0x22 # xs) = name" for xs
    using assms(2) by (intro takeWhile_stop) (auto simp: list_all_iff)
  have run: "non_blank (lineno @ sep # CHR '' '' # rest) = lineno @ [sep]"
    using non_blank_stop [of "lineno @ [sep]" rest] assms(4,5) by simp
  show ?thesis
    using assms(1,3) by (simp add: match_file_def located_def name run starts_def Let_def del: drop_drop)
qed

lemma match_error_line:
  assumes "error_parts name lineno func code"
  shows "match_error (error_line name lineno func message code) = Some (name, lineno, func, message, code)"
proof -
  have parts: "name \<noteq> []" "CHR 0x22 \<notin> set name" "lineno \<noteq> []" "list_all (\<lambda>c. \<not> str_space c) lineno"
      "CHR '':'' \<notin> set func" "code \<noteq> []" "list_all (\<lambda>c. \<not> str_space c) code"
    using assms by (simp_all add: error_parts_def)
  note loc = match_file_located [OF parts(1-4)] and message = match_message_end [OF parts(7,6), simplified]
  show ?thesis
  proof (cases "func = []")
    case True
    then have "error_line name lineno func message code = located name lineno @ CHR '':'' # CHR '' '' # message @ '' ['' @ code @ '']''"
      by (simp add: error_line_def)
    then show ?thesis
      using True by (simp add: match_error_def loc str_space_def message starts_def)
  next
    case False
    have func: "takeWhile (\<lambda>c. c \<noteq> CHR '':'') (func @ CHR '':'' # xs) = func" for xs
      using parts(5) by (intro takeWhile_stop) (auto simp: list_all_iff)
    from False have "error_line name lineno func message code
      = located name lineno @ CHR '','' # CHR '' '' # ''in '' @ func @ '': '' @ message @ '' ['' @ code @ '']''"
      by (simp add: error_line_def)
    then show ?thesis
      using False by (simp add: match_error_def loc str_space_def message starts_def match_in_def func Let_def del: drop_drop)
  qed
qed

section \<open>The errors of an output\<close>

text \<open>What a line does to the state of the loop, without what is printed.\<close>

definition line_result :: "'k reporter_env \<Rightarrow> report_config \<Rightarrow> string \<Rightarrow> parse_state \<Rightarrow> report_error + parse_state" where
  "line_result ev config line p =
     (if ps_error p \<noteq> [] \<and> continues line then
        Inr (p\<lparr>ps_message := ps_message p @ fst (extend_error_description line (ps_error p)),
               ps_error := snd (extend_error_description line (ps_error p))\<rparr>)
      else sbind (github_error ev config line) (\<lambda>(m, d, f).
        Inr \<lparr>ps_message = m, ps_error = d, ps_file = f,
             ps_results = (if ps_error p \<noteq> [] then ps_results p @ [ps_error p] else ps_results p)\<rparr>))"

lemma fst_seq: "fst (m s) = Inr x \<Longrightarrow> fst (seq m k s) = fst (k (snd (m s)))"
  by (cases "m s") (simp add: seq_def bnd_def)

lemma fst_print_if [simp]: "fst ((if b then print_line c t else ret ()) s) = Inr ()"
  by (simp add: print_line_def emit_def modify_def ret_def)

lemma fst_handle_grouping [simp]: "fst (handle_grouping log f l s) = Inr f"
proof -
  have "fst ((if log \<noteq> Out \<and> f \<noteq> l then
            seq (if l \<noteq> [] then print_line log ''::endgroup::'' else ret ())
              (if f \<noteq> [] then print_line log (''::group::'' @ f) else ret ())
          else ret ()) s) = Inr ()"
    by (simp add: seq_def bnd_def print_line_def emit_def modify_def ret_def split: if_split)
  then show ?thesis
    unfolding handle_grouping_def by (simp only: fst_seq) (simp add: ret_def)
qed

lemma fst_handle_line:
  assumes "skip_uninteresting_lines ev line = Inr False"
  shows "fst (handle_line ev config log line p s) = line_result ev config line p"
proof (cases "ps_error p \<noteq> [] \<and> continues line")
  case True
  then show ?thesis
    by (cases "extend_error_description line (ps_error p)")
       (simp add: handle_line_def line_result_def assms bnd_def lift_sum_def ret_def)
next
  case False
  define s' where "s' = snd ((if ps_error p \<noteq> [] then print_line log (ps_message p) else ret ()) s)"
  have "fst (handle_line ev config log line p s) =
      fst (bnd (lift_sum (github_error ev config line)) (\<lambda>(m, d, filename).
        bnd (handle_grouping log filename (ps_file p)) (\<lambda>last_filename.
        ret \<lparr>ps_message = m, ps_error = d, ps_file = last_filename,
             ps_results = (if ps_error p \<noteq> [] then ps_results p @ [ps_error p] else ps_results p)\<rparr>)) s')"
    using False unfolding handle_line_def s'_def
    by (simp only: assms lift_sum_def bnd_def [of "lift_sum (Inr False)"] prod.case sum.case if_False fst_seq [OF fst_print_if])
  also have "\<dots> = line_result ev config line p" (is "?lhs = _")
  proof (cases "github_error ev config line")
    case (Inr r)
    obtain m d f where r: "r = (m, d, f)" by (cases r)
    obtain s'' where "handle_grouping log f (ps_file p) s' = (Inr f, s'')"
      using fst_handle_grouping [of log f "ps_file p" s'] by (metis prod.collapse)
    with Inr r have "?lhs = Inr \<lparr>ps_message = m, ps_error = d, ps_file = f,
        ps_results = (if ps_error p \<noteq> [] then ps_results p @ [ps_error p] else ps_results p)\<rparr>"
      by (simp add: bnd_def lift_sum_def ret_def)
    then show ?thesis unfolding line_result_def if_not_P [OF False] by (simp add: Inr r)
  qed (use False in \<open>simp add: line_result_def if_not_P [OF False] bnd_def lift_sum_def\<close>)
  finally show ?thesis .
qed

text \<open>The lines the loop looks at: printed to the standard output, without noise.\<close>

definition relevant :: "'k reporter_env \<Rightarrow> (bool \<times> string) list \<Rightarrow> string list" where
  "relevant ev reads = filter (\<lambda>l. skip_uninteresting_lines ev l = Inr False) (map (\<lambda>r. py_rstrip (snd r)) (filter (\<lambda>r. \<not> fst r) reads))"

lemma fst_handle_reads:
  assumes "\<forall>r \<in> set reads. \<not> fst r \<longrightarrow> skip_uninteresting_lines ev (py_rstrip (snd r)) \<noteq> Inl Rep_ValueError"
  shows "fst (handle_reads ev config log reads p s) = sfold (line_result ev config) (relevant ev reads) p"
  using assms
proof (induction reads arbitrary: p s)
  case (Cons r reads)
  have IH: "fst (handle_reads ev config log reads p s) = sfold (line_result ev config) (relevant ev reads) p" for p s
    using Cons by simp
  show ?case
  proof (cases "fst r")
    case True
    then show ?thesis
      by (simp add: IH relevant_def bnd_def seq_def emit_def modify_def ret_def)
  next
    case False
    let ?l = "py_rstrip (snd r)"
    show ?thesis
    proof (cases "skip_uninteresting_lines ev ?l")
      case (Inl e)
      have "e = Rep_ValueError"
        using Inl by (auto simp: skip_uninteresting_lines_def Let_def split: if_splits)
      with Inl False Cons.prems show ?thesis by simp
    next
      case (Inr b)
      show ?thesis
      proof (cases b)
        case True
        with Inr False have "handle_line ev config log ?l p s = (Inr p, s)"
          by (simp add: handle_line_def bnd_def lift_sum_def ret_def)
        with Inr False True show ?thesis by (simp add: IH relevant_def bnd_def)
      next
        case not_skipped: False
        then have line: "fst (handle_line ev config log ?l p s) = line_result ev config ?l p"
          using Inr by (intro fst_handle_line) simp
        have rel: "relevant ev (r # reads) = ?l # relevant ev reads"
          using Inr False not_skipped by (simp add: relevant_def)
        show ?thesis
          using False line by (cases "handle_line ev config log ?l p s"; cases "line_result ev config ?l p")
            (simp_all add: rel bnd_def IH)
      qed
    qed
  qed
qed (simp add: ret_def relevant_def)

definition report_of :: "'k reporter_env \<Rightarrow> report_config \<Rightarrow> string \<Rightarrow> report" where
  "report_of ev config line = (case github_error ev config line of Inl e \<Rightarrow> [] | Inr (m, d, f) \<Rightarrow> d)"

text \<open>The report of an error with the lines that describe it.\<close>

definition with_description :: "report \<Rightarrow> string list \<Rightarrow> report" where
  "with_description d cs =
     (let ds = filter (\<lambda>c. \<not> starts MORE c) cs in
      d @ (if ds = [] then [] else [(''Error description'', py_join ''<br>'' (map py_lstrip ds))]))"

definition described :: "report \<Rightarrow> bool" where
  "described d \<longleftrightarrow> ''Error description'' \<in> fst ` set d"

lemma update_absent: "k \<notin> fst ` set d \<Longrightarrow> AList.update k v d = d @ [(k, v)]"
  by (induction d) auto

lemma py_join_snoc: "xs \<noteq> [] \<Longrightarrow> py_join sep (xs @ [x]) = py_join sep xs @ sep @ x"
proof (induction xs)
  case (Cons y xs)
  then show ?case by (cases xs) simp_all
qed simp

lemma extend_description:
  assumes "\<not> described d"
  shows "snd (extend_error_description c (with_description d cs)) = with_description d (cs @ [c])"
proof (cases "starts MORE c")
  case True
  then show ?thesis by (simp add: extend_error_description_def with_description_def)
next
  case False
  let ?ds = "filter (\<lambda>c. \<not> starts MORE c) cs"
  have d: "''Error description'' \<notin> fst ` set d" using assms by (simp add: described_def)
  show ?thesis
  proof (cases "?ds = []")
    case True
    have "map_of d ''Error description'' = None" using d by (simp add: map_of_eq_None_iff)
    with False True d show ?thesis
      by (simp add: extend_error_description_def with_description_def update_absent)
  next
    case more: False
    let ?t = "py_join ''<br>'' (map py_lstrip ?ds)"
    have "py_join ''<br>'' (map py_lstrip ?ds @ [x]) = ?t @ ''<br>'' @ x" for x
      using more by (intro py_join_snoc) simp
    moreover have w: "with_description d cs = d @ [(''Error description'', ?t)]" using more by (simp add: with_description_def)
    moreover have "map_of (with_description d cs) ''Error description'' = Some ?t"
      unfolding w map_of_absent [OF d] by simp
    ultimately show ?thesis
      using False d more by (simp add: extend_error_description_def update_last) (simp add: with_description_def)
  qed
qed

lemma with_description_nonempty: "d \<noteq> [] \<Longrightarrow> with_description d cs \<noteq> []"
  by (simp add: with_description_def Let_def)

lemma feed_description:
  assumes "\<not> described d" "d \<noteq> []" "list_all continues cs" "ps_error p = with_description d cs0"
  shows "\<exists>p'. sfold (line_result ev config) cs p = Inr p' \<and> ps_error p' = with_description d (cs0 @ cs) \<and> ps_results p' = ps_results p"
  using assms(3,4)
proof (induction cs arbitrary: p cs0)
  case (Cons c cs)
  define p1 where "p1 = p\<lparr>ps_message := ps_message p @ fst (extend_error_description c (ps_error p)),
     ps_error := snd (extend_error_description c (ps_error p))\<rparr>"
  have "line_result ev config c p = Inr p1"
    using Cons.prems with_description_nonempty [OF assms(2)] by (simp add: line_result_def p1_def)
  moreover have "ps_error p1 = with_description d (cs0 @ [c])"
    using Cons.prems(2) extend_description [OF assms(1)] by (simp add: p1_def)
  from Cons.IH [OF _ this] Cons.prems(1)
  have "\<exists>p'. sfold (line_result ev config) cs p1 = Inr p' \<and> ps_error p' = with_description d (cs0 @ c # cs) \<and> ps_results p' = ps_results p1"
    by simp
  ultimately show ?case by (auto simp: p1_def)
qed simp

lemma described_report: "\<not> described (report_of ev config line)"
  by (auto simp: report_of_def github_error_def populate_error_dict_def described_def Let_def split: option.split)

lemma error_no_continuation:
  assumes "match_error line \<noteq> None"
  shows "\<not> continues line"
proof -
  have "starts (''File '' @ [CHR 0x22]) line"
    using assms by (auto simp: match_error_def match_file_def Let_def split: option.splits if_splits)
  then have "take 6 line = ''File '' @ [CHR 0x22]" by (simp add: starts_def eval_nat_numeral)
  then obtain rest where "line = ''File '' @ CHR 0x22 # rest"
    by (metis append_take_drop_id append.assoc append_Cons append_Nil)
  then show ?thesis by (simp add: continues_def starts_def MORE_def TRACE_def)
qed

lemma report_of_matched: "report_of ev config line \<noteq> [] \<Longrightarrow> match_error line \<noteq> None"
  by (cases "match_error line") (simp_all add: report_of_def github_error_def)

definition pending :: "parse_state \<Rightarrow> report list" where
  "pending p = (if ps_error p \<noteq> [] then [ps_error p] else [])"

definition block_report :: "'k reporter_env \<Rightarrow> report_config \<Rightarrow> string \<times> string list \<Rightarrow> report" where
  "block_report ev config b = with_description (report_of ev config (fst b)) (snd b)"

definition error_block :: "'k reporter_env \<Rightarrow> report_config \<Rightarrow> string \<times> string list \<Rightarrow> bool" where
  "error_block ev config b \<longleftrightarrow> report_of ev config (fst b) \<noteq> [] \<and> list_all continues (snd b)"

lemma feed_line:
  assumes "\<not> continues line" "github_error ev config line = Inr (m, d, f)"
  shows "\<exists>p'. line_result ev config line p = Inr p' \<and> ps_error p' = d \<and> ps_results p' = ps_results p @ pending p"
  using assms by (simp add: line_result_def pending_def)

lemma feed_blocks:
  assumes "list_all (error_block ev config) blocks"
  shows "\<exists>p'. sfold (line_result ev config) (concat (map (\<lambda>b. fst b # snd b) blocks)) p = Inr p'
    \<and> ps_results p' @ pending p' = ps_results p @ pending p @ map (block_report ev config) blocks
    \<and> (blocks \<noteq> [] \<longrightarrow> ps_error p' \<noteq> [])"
  using assms
proof (induction blocks arbitrary: p)
  case (Cons b blocks)
  then have b: "report_of ev config (fst b) \<noteq> []" "list_all continues (snd b)" by (simp_all add: error_block_def)
  then obtain m f where r: "github_error ev config (fst b) = Inr (m, report_of ev config (fst b), f)"
    by (auto simp: report_of_def split: sum.splits)
  obtain q where q: "line_result ev config (fst b) p = Inr q" "ps_error q = report_of ev config (fst b)" "ps_results q = ps_results p @ pending p"
    using feed_line [OF error_no_continuation [OF report_of_matched [OF b(1)]] r] by blast
  have "ps_error q = with_description (report_of ev config (fst b)) []" by (simp add: q with_description_def)
  from feed_description [OF described_report b(1) b(2) this]
  obtain q' where q': "sfold (line_result ev config) (snd b) q = Inr q'" "ps_error q' = block_report ev config b" "ps_results q' = ps_results q"
    by (auto simp: block_report_def)
  then have pend: "pending q' = [block_report ev config b]" "ps_error q' \<noteq> []"
    using with_description_nonempty [OF b(1)] by (simp_all add: pending_def block_report_def)
  from Cons.prems have "list_all (error_block ev config) blocks" by simp
  from Cons.IH [OF this, of q'] show ?case
    using q q' pend by (cases "blocks = []") (auto simp: sfold_append)
qed simp

text \<open>
  C18: When what the type checker prints, without noise, is a sequence of errors
  with the lines that describe each, followed by a line that is neither, every
  error is reported, with its description; without that last line the last
  error is lost.
\<close>

theorem errors_reported:
  assumes "\<forall>r \<in> set reads. \<not> fst r \<longrightarrow> skip_uninteresting_lines ev (py_rstrip (snd r)) \<noteq> Inl Rep_ValueError"
    and "list_all (error_block ev config) blocks" and "blocks \<noteq> []"
    and "relevant ev reads = concat (map (\<lambda>b. fst b # snd b) blocks) @ closing"
    and "closing = [] \<or> (\<exists>l. closing = [l] \<and> \<not> continues l \<and> match_error l = None)"
  shows "fst (parse_annotations ev config reads log results s)
    = Inr (results @ map (block_report ev config) (if closing = [] then butlast blocks else blocks))"
proof -
  let ?p = "\<lparr>ps_message = [], ps_error = [], ps_file = [], ps_results = results\<rparr>"
  obtain p1 where p1: "sfold (line_result ev config) (concat (map (\<lambda>b. fst b # snd b) blocks)) ?p = Inr p1"
      "ps_results p1 @ pending p1 = results @ map (block_report ev config) blocks" "ps_error p1 \<noteq> []"
    using feed_blocks [OF assms(2), of ?p] assms(3) by (auto simp: pending_def)
  obtain p2 where p2: "sfold (line_result ev config) (relevant ev reads) ?p = Inr p2"
      "ps_results p2 = results @ map (block_report ev config) (if closing = [] then butlast blocks else blocks)"
  proof (cases "closing = []")
    case True
    have "ps_results p1 = butlast (results @ map (block_report ev config) blocks)"
      using p1(2,3) by (metis butlast_snoc pending_def)
    with True p1 assms(3,4) that show thesis by (simp add: butlast_append map_butlast)
  next
    case False
    then obtain l where l: "closing = [l]" "\<not> continues l" "match_error l = None" using assms(5) by auto
    then have "github_error ev config l = Inr ([], [], [])" by (simp add: github_error_def)
    from feed_line [OF l(2) this] obtain p2 where "line_result ev config l p1 = Inr p2" "ps_results p2 = ps_results p1 @ pending p1"
      by blast
    with l p1 assms(4) that show thesis by (simp add: sfold_append)
  qed
  have "fst (handle_reads ev config log reads ?p s) = Inr p2"
    using fst_handle_reads [OF assms(1)] p2(1) by simp
  then obtain s' where "handle_reads ev config log reads ?p s = (Inr p2, s')" by (cases "handle_reads ev config log reads ?p s") auto
  then have "fst (parse_annotations ev config reads log results s) = fst (seq (handle_grouping log [] (ps_file p2)) (ret (ps_results p2)) s')"
    by (simp add: parse_annotations_def bnd_def)
  then show ?thesis
    by (simp only: fst_seq [OF fst_handle_grouping] ret_def fst_conv p2(2))
qed

text \<open>The witness: a small module with one error, described by one line.\<close>

definition example_env :: "process \<Rightarrow> unit reporter_env" where
  "example_env p = \<lparr>rp_cwd = ''/w'', rp_getenv = (\<lambda>_. None), rp_match = (\<lambda>_ _. False),
     rp_toml = (\<lambda>_. Inr \<lparr>pp_tool = Some (\<lambda>_. Some \<lparr>tt_default_branch = None, tt_discard = Some [], tt_expected = Some [''a.py'']\<rparr>),
                         pp_repository = Some ''https://h/r''\<rparr>),
     rp_argv = [''pytype_reporter.py''], rp_open = (\<lambda>_ k. (None, k)), rp_popen = (\<lambda>_ k. (Inr p, k)),
     rp_output = (\<lambda>c k. (Some (if c ! 1 = ''log'' then ''Change a.py'' else ''a.py''), k)),
     rp_fetch = (\<lambda>_ _ k. (Inr (Commits []), k)), rp_markdown = (\<lambda>_. [])\<rparr>"

definition example_config :: report_config where
  "example_config = \<lparr>cfg_script = ''pytype_reporter'', cfg_default_branch = ''main'', cfg_repo_url = ''https://h/r'',
     cfg_tree_url = ''https://h/r/blob/main'', cfg_section = ''pyproject.toml[tool.pytype_reporter]'', cfg_discard = Some [],
     cfg_expected = [''a.py''], cfg_msg = [], cfg_xfail_section = []\<rparr>"

definition example_line :: string where
  "example_line = error_line ''/w/a.py'' ''3'' ''f'' ''Name x is not defined'' ''name-error''"

definition example_process :: "int \<Rightarrow> (bool \<times> string) list \<Rightarrow> process" where
  "example_process code rs = \<lparr>proc_reads = rs, proc_code = code\<rparr>"

lemma errors_reported_witness:
  "fst (parse_annotations (example_env (example_process 1 [])) example_config
      [(True, ''noise''), (False, example_line), (False, ''  here''), (False, ''Leaving directory'')] Err []
      \<lparr>rp_machine = (), rp_printed = []\<rparr>) = Inr []"
proof -
  let ?ev = "example_env (example_process 1 [])"
  have line: "report_of ?ev example_config example_line \<noteq> []" by code_simp
  have "error_block ?ev example_config (example_line, [''  here''])"
    using line by (simp add: error_block_def continues_def)
  moreover have "relevant ?ev [(True, ''noise''), (False, example_line), (False, ''  here''), (False, ''Leaving directory'')] = [example_line, ''  here'']"
    by code_simp
  moreover have "\<forall>r \<in> set [(True, ''noise''), (False, example_line), (False, ''  here''), (False, ''Leaving directory'')].
      \<not> fst r \<longrightarrow> skip_uninteresting_lines ?ev (py_rstrip (snd r)) \<noteq> Inl Rep_ValueError"
    by code_simp
  ultimately show ?thesis
    using errors_reported [of "[(True, ''noise''), (False, example_line), (False, ''  here''), (False, ''Leaving directory'')]"
      ?ev example_config "[(example_line, [''  here''])]" "[]" Err "[]"]
    by simp
qed

section \<open>Annotations\<close>

text \<open>
  A line that the type checker prints for an error, with or without a
  function, becomes exactly the annotation and the table row of its file, line,
  function, message and code, unless a pattern of the configuration discards it.
\<close>

theorem error_line_annotated:
  assumes "error_parts name lineno func code" and "cfg_discard config = Some ds" and "\<not> list_ex (\<lambda>d. rp_match ev d message) ds"
  shows "github_error ev config (error_line name lineno func message code) =
    (let filename = py_replace (rp_cwd ev @ ''/'') [] name in
     Inr (''::'' @ annotation_type code @ '' file='' @ filename @ '',line='' @ lineno @ '',title=pytype: '' @ code @ ''::'' @ message,
          populate_error_dict config message filename lineno code
            @ [(''Function'', if func = [] then ''syntax<br>error'' else ''`'' @ func @ ''`'')],
          filename))"
  using assms(2,3) by (simp add: github_error_def match_error_line [OF assms(1)] Let_def)

lemma error_line_annotated_witness:
  "fst (projr (github_error (example_env (example_process 0 [])) example_config example_line))
    = ''::error file=a.py,line=3,title=pytype: name-error::Name x is not defined''"
proof -
  have parts: "error_parts ''/w/a.py'' ''3'' ''f'' ''name-error''" by code_simp
  have "py_replace ''/w/'' [] ''/w/a.py'' = ''a.py''" "annotation_type ''name-error'' = ''error''" by code_simp+
  then show ?thesis
    using error_line_annotated [OF parts, of example_config "[]" "example_env (example_process 0 [])" "''Name x is not defined''"]
    by (simp add: example_config_def example_env_def example_line_def Let_def)
qed

text \<open>
  A message with a blank at position 21 or later is broken at the first such
  blank; one without appears twice in the table, the first time without its
  last character.
\<close>

theorem message_cell:
  "(CHR '' '' \<notin> set (drop 21 message) \<longrightarrow>
      map_of (populate_error_dict config message filename lineno code) ''Error message''
        = Some (butlast message @ ''<br>'' @ py_replace ''. '' ''.<br>'' message))
   \<and> (\<forall>a b. message = a @ CHR '' '' # b \<and> 21 \<le> length a \<and> CHR '' '' \<notin> set (drop 21 a) \<longrightarrow>
      map_of (populate_error_dict config message filename lineno code) ''Error message''
        = Some (a @ ''<br>'' @ py_replace ''. '' ''.<br>'' b))"
proof (intro conjI impI allI)
  assume "CHR '' '' \<notin> set (drop 21 message)"
  then have "find_from CHR '' '' 21 message = None" by (simp add: find_from_def py_find_None)
  then show "map_of (populate_error_dict config message filename lineno code) ''Error message''
        = Some (butlast message @ ''<br>'' @ py_replace ''. '' ''.<br>'' message)"
    by (simp add: populate_error_dict_def Let_def)
next
  fix a b assume m: "message = a @ CHR '' '' # b \<and> 21 \<le> length a \<and> CHR '' '' \<notin> set (drop 21 a)"
  then have "py_find CHR '' '' (drop 21 message) = Some (length a - 21)"
    by (auto simp: py_find_Some nth_append)
  with m have "find_from CHR '' '' 21 message = Some (length a)" by (simp add: find_from_def)
  with m show "map_of (populate_error_dict config message filename lineno code) ''Error message''
        = Some (a @ ''<br>'' @ py_replace ''. '' ''.<br>'' b)"
    by (simp add: populate_error_dict_def Let_def)
qed

lemma message_cell_witness:
  "map_of (populate_error_dict example_config ''Name x is not defined'' ''a.py'' ''3'' ''name-error'') ''Error message''
    = Some ''Name x is not define<br>Name x is not defined''"
  using message_cell [of "''Name x is not defined''" example_config "''a.py''" "''3''" "''name-error''"]
  by (simp add: py_replace_def py_split_str.simps)

section \<open>Exit codes\<close>

lemma print_only [simp]:
  "rp_machine (snd (print_line c t s)) = rp_machine s" "fst (print_line c t s) = Inr ()"
  by (simp_all add: print_line_def emit_def modify_def)

lemma seq_print: "seq (print_line c t) k s = k (snd (print_line c t s))"
  by (cases "print_line c t s") (simp add: seq_def bnd_def print_line_def emit_def modify_def)

lemma seq_print_if: "\<exists>s'. seq (if b then print_line c t else ret ()) k s = k s' \<and> rp_machine s' = rp_machine s"
  by (cases b) (auto simp: seq_print intro: exI [of _ s], auto simp: seq_def bnd_def ret_def)

lemma xfail_result:
  "fst (run_xfail ev config xs results s) = Inr (c, rs) \<Longrightarrow> c = 0 \<or> c = 5"
proof (induction xs arbitrary: results s)
  case (Cons x xs)
  let ?m = "catch (bnd (report_on ev config Out (base_command @ [x]) results) (\<lambda>r. ret (Some r))) (xfail_raised x)"
  obtain r s1 where m: "?m (snd (print_line Out (''::group::pytype for '' @ x) s)) = (r, s1)" by fastforce
  show ?case
  proof (cases r)
    case (Inl e)
    with m Cons.prems show ?thesis by (simp add: seq_print bnd_def)
  next
    case (Inr q)
    show ?thesis
    proof (cases q)
      case None
      with m Inr Cons.prems show ?thesis by (simp add: seq_print bnd_def ret_def)
    next
      case (Some a)
      obtain err new where a: "a = (err, new)" by (cases a)
      have "fst (report_xfail config x err (length results) new s) = Inr ()" for s
        by (simp add: report_xfail_def notice_def annotate_def ret_def)
      then have "fst (seq (report_xfail config x err (length results) new) k s) = fst (k (snd (report_xfail config x err (length results) new s)))" for k :: "('a, int \<times> report list) rep_op" and s
        by (rule fst_seq)
      then have "\<exists>s'. fst (run_xfail ev config xs new s') = Inr (c, rs)"
        using m Inr Some a Cons.prems by (auto simp: seq_print bnd_def)
      with Cons.IH show ?thesis by blast
    qed
  qed
qed (simp add: ret_def)

text \<open>
  C36: What the first run decides: an exit code above 0 is returned with what was
  found; otherwise the number of errors is returned, if there are any; a type
  checker killed by a signal without an error is a success, and no file that is
  expected to fail is checked; only after a clean run these files are, and give
  0, or 5 when one run cannot start.
\<close>

theorem regular_run_decides:
  assumes "run_pytype_and_parse ev config s = (Inr (c, results), t)"
  shows "\<exists>s1 err found s2. rp_machine s1 = rp_machine s
    \<and> report_on ev (config\<lparr>cfg_xfail_section := xfail_section\<rparr>) Err (base_command @ fst (run_arguments ev config)) [] s1 = (Inr (err, found), s2)
    \<and> (err > 0 \<longrightarrow> (c, results) = (err, found))
    \<and> (err \<le> 0 \<and> found \<noteq> [] \<longrightarrow> (c, results) = (int (length found), found))
    \<and> (err < 0 \<and> found = [] \<longrightarrow> (c, results) = (0, []))
    \<and> (err \<noteq> 0 \<or> found \<noteq> [] \<longrightarrow> rp_machine t = rp_machine s2)
    \<and> (err = 0 \<and> found = [] \<longrightarrow> c = 0 \<or> c = 5)"
proof -
  let ?config = "config\<lparr>cfg_xfail_section := xfail_section\<rparr>"
  obtain args xfails where args: "run_arguments ev config = (args, xfails)" by fastforce
  have args': "run_arguments ev ?config = (args, xfails)" using args by (simp add: run_arguments_def)
  let ?grouped = "rp_getenv ev ''GITHUB_OUTPUT'' \<noteq> None"
  define rest where "rest = (\<lambda>(err, results).
       seq (if ?grouped then print_line Out ''::endgroup::'' else ret ())
       (if err \<noteq> 0 \<or> results \<noteq> [] then
          seq (print_line Out ''::warning::pytype exited with errors on regular run that should pass'')
          (seq (print_line Out ''::error::Add the file that caused the error to expected_to_fail in pyproject.toml'')
               (ret (if err > 0 then (err, results) else (int (length results), results))))
        else run_xfail ev ?config xfails results))"
  have "run_pytype_and_parse ev config s =
      seq (if ?grouped then print_line Out ''::group::pytype for all files which are expected to pass'' else ret ())
        (bnd (report_on ev ?config Err (base_command @ args) []) rest) s"
    by (simp add: run_pytype_and_parse_def Let_def args' rest_def)
  then obtain s1 where s1: "rp_machine s1 = rp_machine s"
      "bnd (report_on ev ?config Err (base_command @ args) []) rest s1 = (Inr (c, results), t)"
    using seq_print_if [of ?grouped] assms by metis
  from s1(2) obtain err found s2 where s2: "report_on ev ?config Err (base_command @ args) [] s1 = (Inr (err, found), s2)"
      "rest (err, found) s2 = (Inr (c, results), t)"
    by (auto elim!: bnd_InrE)
  obtain s3 where s3: "rp_machine s3 = rp_machine s2"
      "(if err \<noteq> 0 \<or> found \<noteq> [] then
          seq (print_line Out ''::warning::pytype exited with errors on regular run that should pass'')
          (seq (print_line Out ''::error::Add the file that caused the error to expected_to_fail in pyproject.toml'')
               (ret (if err > 0 then (err, found) else (int (length found), found))))
        else run_xfail ev ?config xfails found) s3 = (Inr (c, results), t)"
    using s2(2) seq_print_if [of ?grouped] unfolding rest_def prod.case by metis
  show ?thesis
  proof (intro exI conjI)
    show "report_on ev ?config Err (base_command @ fst (run_arguments ev config)) [] s1 = (Inr (err, found), s2)"
      using s2(1) args by simp
    show "err > 0 \<longrightarrow> (c, results) = (err, found)" "err \<le> 0 \<and> found \<noteq> [] \<longrightarrow> (c, results) = (int (length found), found)"
      "err < 0 \<and> found = [] \<longrightarrow> (c, results) = (0, [])"
      using s3(2) by (auto simp: seq_print ret_def)
    show "err \<noteq> 0 \<or> found \<noteq> [] \<longrightarrow> rp_machine t = rp_machine s2"
      using s3 by (auto simp: seq_print ret_def)
    show "err = 0 \<and> found = [] \<longrightarrow> c = 0 \<or> c = 5"
      using s3(2) xfail_result [of ev ?config xfails "[]" s3] by auto
  qed (rule s1(1))
qed

definition no_output :: "unit reporter" where
  "no_output = \<lparr>rp_machine = (), rp_printed = []\<rparr>"
lemma regular_run_decides_witness:
  "let ev = example_env (example_process (-11) [(False, example_line)]); config = example_config\<lparr>cfg_xfail_section := xfail_section\<rparr> in
   fst (run_pytype_and_parse ev example_config no_output) = Inr (0, [])
   \<and> (\<exists>s1 err found s2. report_on ev config Err (base_command @ fst (run_arguments ev example_config)) [] s1 = (Inr (err, found), s2) \<and> err \<le> 0 \<and> found = [])"
proof -
  let ?ev = "example_env (example_process (-11) [(False, example_line)])"
  have run: "fst (run_pytype_and_parse ?ev example_config no_output) = Inr (0, [])" by code_simp
  then have "run_pytype_and_parse ?ev example_config no_output = (Inr (0, []), snd (run_pytype_and_parse ?ev example_config no_output))"
    by (metis prod.collapse)
  from regular_run_decides [OF this] run show ?thesis
    by (auto simp: Let_def) (metis length_0_conv linorder_not_le of_nat_eq_0_iff order_less_irrefl)
qed

lemma only_reverts_stops:
  assumes "m \<in> set ms" "m \<noteq> []" "\<not> occurs ''Revert'' m"
  shows "\<exists>k \<le> length ms. only_reverts ms s = (Inr False, s\<lparr>rp_printed := rp_printed s @ map (\<lambda>m. (Out, ''#> '' @ m @ [CHR 0x0A])) (take k ms)\<rparr>)"
  using assms(1)
proof (induction ms arbitrary: s)
  case (Cons a ms)
  let ?s = "snd (print_line Out (''#> '' @ a) s)"
  show ?case
  proof (cases "a \<noteq> [] \<and> \<not> occurs ''Revert'' a")
    case True
    then show ?thesis
      by (intro exI [of _ 1]) (simp add: seq_print ret_def print_line_def emit_def modify_def)
  next
    case False
    with Cons.prems assms have "m \<in> set ms" by auto
    from Cons.IH [OF this, of ?s] obtain k where "k \<le> length ms"
        "only_reverts ms ?s = (Inr False, ?s\<lparr>rp_printed := rp_printed ?s @ map (\<lambda>m. (Out, ''#> '' @ m @ [CHR 0x0A])) (take k ms)\<rparr>)"
      by blast
    moreover have "only_reverts (a # ms) s = only_reverts ms ?s"
      unfolding only_reverts.simps seq_print if_not_P [OF False] ..
    ultimately show ?thesis
      by (intro exI [of _ "Suc k"]) (simp add: print_line_def emit_def modify_def)
  qed
qed simp

lemma for_each_prints:
  assumes "\<And>x s. f x s = (Inr (), s\<lparr>rp_printed := rp_printed s @ [g x]\<rparr>)"
  shows "for_each f xs s = (Inr (), s\<lparr>rp_printed := rp_printed s @ map g xs\<rparr>)"
  by (induction xs arbitrary: s) (simp_all add: ret_def seq_def bnd_def assms)

definition rejection :: "report_config \<Rightarrow> string \<Rightarrow> channel \<times> string" where
  "rejection config f = (Out, ''::error file=pyproject.toml,title='' @ cfg_script config @ '': remove '' @ f
     @ '' from expected_to_fail::'' @ f @ '' was changed, remove it from expected_to_fail in pyproject.toml and make sure it passes pytype checks'' @ [CHR 0x0A])"

text \<open>
  When files of the branch that are expected to fail were changed and one of
  its commits is not a revert, the script ends with 5 and one annotation per
  file, and the type checker is not run.
\<close>

theorem changed_xfail_rejected:
  assumes "load_config ev ''pyproject.toml'' (base_name script) = Inr config"
    and "changed_files ev config s = (Inr fs, s1)" and "fs \<noteq> []"
    and "nonempty (rp_getenv ev ''GITHUB_TOKEN'') = None"
    and "find_branch_point ev config s1 = (Inr point, s2)"
    and "command_output ev [''git'', ''log'', ''--pretty=%s'', point @ ''..HEAD''] s2 = (Inr log, s3)"
    and "m \<in> set (py_split CHR 0x0A log)" and "m \<noteq> []" and "\<not> occurs ''Revert'' m"
  shows "\<exists>k. reporter_main ev script s
    = (Inr 5, s3\<lparr>rp_printed := rp_printed s3 @ map (\<lambda>m. (Out, ''#> '' @ m @ [CHR 0x0A])) (take k (py_split CHR 0x0A log)) @ map (rejection config) fs\<rparr>)"
proof -
  obtain k where k: "only_reverts (py_split CHR 0x0A log) s3
      = (Inr False, s3\<lparr>rp_printed := rp_printed s3 @ map (\<lambda>m. (Out, ''#> '' @ m @ [CHR 0x0A])) (take k (py_split CHR 0x0A log))\<rparr>)"
    using only_reverts_stops [OF assms(7-9)] by blast
  have "check_only_reverts_from_branch_point ev config fs s1
      = (Inr (False, config), s3\<lparr>rp_printed := rp_printed s3 @ map (\<lambda>m. (Out, ''#> '' @ m @ [CHR 0x0A])) (take k (py_split CHR 0x0A log))\<rparr>)"
    by (simp add: check_only_reverts_from_branch_point_def github_get_pr_commit_messages_def assms(4-6) k bnd_def ret_def Let_def)
  moreover have "for_each (reject_changed config ''pyproject.toml'') fs t = (Inr (), t\<lparr>rp_printed := rp_printed t @ map (rejection config) fs\<rparr>)" for t :: "'a reporter"
    by (rule for_each_prints) (simp add: reject_changed_def annotate_def print_line_def emit_def modify_def rejection_def)
  ultimately show ?thesis
    using assms(3) by (intro exI [of _ k]) (simp add: reporter_main_def Let_def lift_sum_def bnd_def assms(1,2) seq_def ret_def)
qed

lemma changed_xfail_rejected_witness:
  "fst (reporter_main (example_env (example_process 0 [])) ''/w/pytype_reporter.py'' no_output) = Inr 5"
proof -
  let ?ev = "example_env (example_process 0 [])"
  have config: "load_config ?ev ''pyproject.toml'' (base_name ''/w/pytype_reporter.py'') = Inr example_config" by code_simp
  have "changed_files ?ev example_config no_output = (Inr [''a.py''], no_output)"
    "find_branch_point ?ev example_config no_output = (Inr ''a.py'', no_output)"
    "command_output ?ev [''git'', ''log'', ''--pretty=%s'', ''a.py'' @ ''..HEAD''] no_output = (Inr ''Change a.py'', no_output)"
    by code_simp+
  moreover have "''Change a.py'' \<in> set (py_split CHR 0x0A ''Change a.py'')" "\<not> occurs ''Revert'' ''Change a.py''"
    by code_simp+
  moreover have "nonempty (rp_getenv ?ev ''GITHUB_TOKEN'') = None" by code_simp
  ultimately show ?thesis
    using changed_xfail_rejected [OF config, of no_output "[''a.py'']" no_output "''a.py''" no_output "''Change a.py''" no_output "''Change a.py''"]
    by auto
qed

end
