(* ===== verification/Codec.thy ===== *)
theory Codec
  imports Prelude
begin

text \<open>
  Byte-level encodings of the Python standard library: the big-endian fields
  of \<^verbatim>\<open>struct.pack\<close> and \<^verbatim>\<open>struct.unpack\<close> with their range and length errors,
  and strict UTF-8. The interface \<open>fixed_codec\<close> is what the message layouts
  of the other theories rely on; it is interpreted for each field width.
\<close>

section \<open>Big-endian naturals\<close>

fun be_bytes :: "nat \<Rightarrow> nat \<Rightarrow> bytes" where
  "be_bytes 0 v = []"
| "be_bytes (Suc k) v = be_bytes k (v div 256) @ [of_nat v]"

definition be_val :: "bytes \<Rightarrow> nat" where
  "be_val bs = foldl (\<lambda>acc b. acc * 256 + unat b) 0 bs"

text \<open>
  A field of \<open>k\<close> bytes: \<^verbatim>\<open>struct.pack\<close> raises \<^verbatim>\<open>struct.error\<close> for a value that
  does not fit, \<^verbatim>\<open>struct.unpack\<close> for a buffer of another length. The error is
  an argument, each component has its own exceptions.
\<close>

definition pack_be :: "'e \<Rightarrow> nat \<Rightarrow> int \<Rightarrow> 'e + bytes" where
  "pack_be err k v = (if 0 \<le> v \<and> v < 256 ^ k then Inr (be_bytes k (nat v)) else Inl err)"

fun pack_fields :: "'e \<Rightarrow> (nat \<times> int) list \<Rightarrow> 'e + bytes" where
  "pack_fields err [] = Inr []"
| "pack_fields err ((k, v) # fs) =
     (case pack_be err k v of
        Inl e \<Rightarrow> Inl e
      | Inr b \<Rightarrow> (case pack_fields err fs of Inl e \<Rightarrow> Inl e | Inr bs \<Rightarrow> Inr (b @ bs)))"

fun split_fields :: "nat list \<Rightarrow> bytes \<Rightarrow> int list" where
  "split_fields [] bs = []"
| "split_fields (k # ks) bs = int (be_val (take k bs)) # split_fields ks (drop k bs)"

definition unpack :: "'e \<Rightarrow> nat list \<Rightarrow> bytes \<Rightarrow> 'e + int list" where
  "unpack err ks bs = (if length bs = sum_list ks then Inr (split_fields ks bs) else Inl err)"

lemma length_be_bytes [simp]: "length (be_bytes k v) = k"
  by (induction k arbitrary: v) auto

lemma be_val_Nil [simp]: "be_val [] = 0"
  by (simp add: be_val_def)

lemma be_val_snoc [simp]: "be_val (bs @ [b]) = be_val bs * 256 + unat b"
  by (simp add: be_val_def)

lemma unat_of_nat_byte: "unat (of_nat n :: byte) = n mod 256"
  by (simp add: unat_of_nat)

lemma be_val_be_bytes [codec_simps]: "v < 256 ^ k \<Longrightarrow> be_val (be_bytes k v) = v"
proof (induction k arbitrary: v)
  case 0
  then show ?case by simp
next
  case (Suc k)
  then have "v div 256 < 256 ^ k" by (simp add: less_mult_imp_div_less mult.commute)
  with Suc.IH show ?case by (simp add: unat_of_nat_byte)
qed

lemma be_val_bound: "be_val bs < 256 ^ length bs"
proof (induction bs rule: rev_induct)
  case (snoc b bs)
  have "unat b < 256" using unsigned_less [of b] by simp
  with snoc show ?case by simp
qed simp

lemma be_bytes_be_val [codec_simps]: "length bs = k \<Longrightarrow> be_bytes k (be_val bs) = bs"
proof (induction k arbitrary: bs)
  case (Suc k)
  then obtain cs c where bs: "bs = cs @ [c]" by (metis length_Suc_conv_rev)
  have c: "unat c < 256" using unsigned_less [of c] by simp
  have "unat (of_nat (be_val bs) :: byte) = unat c"
    using c by (simp only: unat_of_nat_byte bs be_val_snoc) simp
  then have "(of_nat (be_val bs) :: byte) = c" by (rule injD [OF inj_unsigned])
  with Suc bs c show ?case by simp
qed simp

lemma be_bytes_inj:
  assumes "be_bytes k v = be_bytes k w" "v < 256 ^ k" "w < 256 ^ k"
  shows "v = w"
  using assms by (metis be_val_be_bytes)

section \<open>Fixed-width codecs as an interface\<close>

locale fixed_codec =
  fixes enc :: "'a \<Rightarrow> bytes"
    and dec :: "bytes \<Rightarrow> 'a"
    and width :: nat
    and valid :: "'a \<Rightarrow> bool"
  assumes enc_length: "valid x \<Longrightarrow> length (enc x) = width"
    and dec_enc: "valid x \<Longrightarrow> dec (enc x) = x"
    and valid_dec: "length bs = width \<Longrightarrow> valid (dec bs)"
    and enc_dec: "length bs = width \<Longrightarrow> enc (dec bs) = bs"
begin

lemma enc_inject:
  assumes "valid x" "valid y" "enc x = enc y"
  shows "x = y"
  using assms by (metis dec_enc)

text \<open>A table of fixed-width entries: entry \<open>i\<close> is at \<open>i * width\<close>.\<close>

lemma concat_enc_length: "list_all valid xs \<Longrightarrow> length (concat (map enc xs)) = width * length xs"
  by (induction xs) (auto simp: enc_length)

lemma nth_entry:
  assumes "list_all valid xs" "i < length xs"
  shows "dec (take width (drop (i * width) (concat (map enc xs)))) = xs ! i"
  using assms
proof (induction xs arbitrary: i)
  case (Cons x xs)
  show ?case
  proof (cases i)
    case 0
    with Cons.prems show ?thesis by (simp add: enc_length dec_enc)
  next
    case (Suc j)
    with Cons show ?thesis by (simp add: enc_length)
  qed
qed simp

end

definition enc_be :: "nat \<Rightarrow> int \<Rightarrow> bytes" where
  "enc_be k v = be_bytes k (nat v)"

definition dec_be :: "bytes \<Rightarrow> int" where
  "dec_be bs = int (be_val bs)"

definition fits :: "nat \<Rightarrow> int \<Rightarrow> bool" where
  "fits k v \<longleftrightarrow> 0 \<le> v \<and> v < 256 ^ k"

lemma dec_be_enc_be: "fits k v \<Longrightarrow> dec_be (enc_be k v) = v"
  by (simp add: fits_def dec_be_def enc_be_def be_val_be_bytes nat_less_iff)

lemma fits_dec_be: "length bs = k \<Longrightarrow> fits k (dec_be bs)"
  using be_val_bound [of bs] by (simp add: fits_def dec_be_def flip: of_nat_power)

lemma enc_be_dec_be: "length bs = k \<Longrightarrow> enc_be k (dec_be bs) = bs"
  by (simp add: dec_be_def enc_be_def be_bytes_be_val)

interpretation u16: fixed_codec "enc_be 2" dec_be 2 "fits 2"
  by unfold_locales (simp_all add: dec_be_enc_be fits_dec_be enc_be_dec_be, simp add: enc_be_def)

interpretation u32: fixed_codec "enc_be 4" dec_be 4 "fits 4"
  by unfold_locales (simp_all add: dec_be_enc_be fits_dec_be enc_be_dec_be, simp add: enc_be_def)

interpretation u64: fixed_codec "enc_be 8" dec_be 8 "fits 8"
  by unfold_locales (simp_all add: dec_be_enc_be fits_dec_be enc_be_dec_be, simp add: enc_be_def)

lemma length_enc_be [simp]: "length (enc_be k v) = k"
  by (simp add: enc_be_def)

lemma pack_be_fits [codec_simps]: "fits k v \<Longrightarrow> pack_be err k v = Inr (enc_be k v)"
  by (simp add: pack_be_def fits_def enc_be_def)

lemma pack_be_Inr: "pack_be err k v = Inr b \<longleftrightarrow> fits k v \<and> b = enc_be k v"
  by (auto simp: pack_be_def fits_def enc_be_def)

lemma pack_be_Inl: "pack_be err k v = Inl e \<longleftrightarrow> \<not> fits k v \<and> e = err"
  by (auto simp: pack_be_def fits_def)

definition enc_fields :: "(nat \<times> int) list \<Rightarrow> bytes" where
  "enc_fields fs = concat (map (\<lambda>(k, v). enc_be k v) fs)"

lemma enc_fields_simps [simp]:
  "enc_fields [] = []" "enc_fields ((k, v) # fs) = enc_be k v @ enc_fields fs"
  by (simp_all add: enc_fields_def)

lemma length_enc_fields [simp]: "length (enc_fields fs) = sum_list (map fst fs)"
  by (induction fs) auto

lemma pack_fields_eq:
  "pack_fields err fs = (if \<forall>(k, v) \<in> set fs. fits k v then Inr (enc_fields fs) else Inl err)"
proof (induction fs)
  case (Cons f fs)
  then show ?case
    by (cases f; cases "fits (fst f) (snd f)") (auto simp: pack_be_fits pack_be_Inl pack_be_Inr split: sum.splits)
qed simp

lemma split_fields_enc_fields [codec_simps]:
  assumes "\<forall>(k, v) \<in> set fs. fits k v"
  shows "split_fields (map fst fs) (enc_fields fs @ bs) = map snd fs"
  using assms
proof (induction fs)
  case (Cons f fs)
  then show ?case using dec_be_enc_be [of "fst f" "snd f"]
    by (cases f) (auto simp: dec_be_def)
qed simp

lemma length_split_fields [simp]: "length (split_fields ks bs) = length ks"
  by (induction ks arbitrary: bs) auto

text \<open>Reading back the fields that were packed.\<close>

lemma unpack_enc_fields:
  assumes "\<forall>(k, v) \<in> set fs. fits k v" "ks = map fst fs"
  shows "unpack err ks (enc_fields fs) = Inr (map snd fs)"
  using split_fields_enc_fields [OF assms(1), of "[]"] assms(2)
  by (simp add: unpack_def)

lemma unpack_Inr_fits:
  assumes "unpack err ks bs = Inr vs" "i < length ks"
  shows "fits (ks ! i) (vs ! i)"
proof -
  have "sum_list ks \<le> length bs \<Longrightarrow> i < length ks \<Longrightarrow> fits (ks ! i) (split_fields ks bs ! i)"
    for ks bs i
  proof (induction ks arbitrary: bs i)
    case (Cons k ks)
    then show ?case
      using fits_dec_be [of "take k bs" k] by (cases i) (auto simp: dec_be_def)
  qed simp
  with assms show ?thesis by (auto simp: unpack_def split: if_splits)
qed

text \<open>\<^verbatim>\<open>struct.unpack\<close> into a tuple of the format's length.\<close>

definition unpack1 :: "'e \<Rightarrow> nat \<Rightarrow> bytes \<Rightarrow> 'e + int" where
  "unpack1 err a bs = map_sum id (\<lambda>vs. vs ! 0) (unpack err [a] bs)"

definition unpack2 :: "'e \<Rightarrow> nat \<Rightarrow> nat \<Rightarrow> bytes \<Rightarrow> 'e + int \<times> int" where
  "unpack2 err a b bs = map_sum id (\<lambda>vs. (vs ! 0, vs ! 1)) (unpack err [a, b] bs)"

definition unpack3 :: "'e \<Rightarrow> nat \<Rightarrow> nat \<Rightarrow> nat \<Rightarrow> bytes \<Rightarrow> 'e + int \<times> int \<times> int" where
  "unpack3 err a b c bs = map_sum id (\<lambda>vs. (vs ! 0, vs ! 1, vs ! 2)) (unpack err [a, b, c] bs)"

definition unpack4 ::
  "'e \<Rightarrow> nat \<Rightarrow> nat \<Rightarrow> nat \<Rightarrow> nat \<Rightarrow> bytes \<Rightarrow> 'e + int \<times> int \<times> int \<times> int" where
  "unpack4 err a b c d bs =
     map_sum id (\<lambda>vs. (vs ! 0, vs ! 1, vs ! 2, vs ! 3)) (unpack err [a, b, c, d] bs)"

definition unpack5 ::
  "'e \<Rightarrow> nat \<Rightarrow> nat \<Rightarrow> nat \<Rightarrow> nat \<Rightarrow> nat \<Rightarrow> bytes \<Rightarrow> 'e + int \<times> int \<times> int \<times> int \<times> int" where
  "unpack5 err a b c d e bs =
     map_sum id (\<lambda>vs. (vs ! 0, vs ! 1, vs ! 2, vs ! 3, vs ! 4)) (unpack err [a, b, c, d, e] bs)"

lemmas unpack_defs = unpack1_def unpack2_def unpack3_def unpack4_def unpack5_def

lemma unpack1_enc: "fits a x \<Longrightarrow> unpack1 err a (enc_be a x) = Inr x"
  using unpack_enc_fields [of "[(a, x)]" "[a]" err] by (simp add: unpack1_def)

lemma unpack2_enc:
  "fits a x \<Longrightarrow> fits b y \<Longrightarrow> unpack2 err a b (enc_be a x @ enc_be b y) = Inr (x, y)"
  using unpack_enc_fields [of "[(a, x), (b, y)]" "[a, b]" err] by (simp add: unpack2_def)

lemma unpack3_enc:
  "fits a x \<Longrightarrow> fits b y \<Longrightarrow> fits c z \<Longrightarrow>
   unpack3 err a b c (enc_be a x @ enc_be b y @ enc_be c z) = Inr (x, y, z)"
  using unpack_enc_fields [of "[(a, x), (b, y), (c, z)]" "[a, b, c]" err]
  by (simp add: unpack3_def numeral_2_eq_2)

lemma unpack4_enc:
  "fits a x \<Longrightarrow> fits b y \<Longrightarrow> fits c z \<Longrightarrow> fits d w \<Longrightarrow>
   unpack4 err a b c d (enc_be a x @ enc_be b y @ enc_be c z @ enc_be d w) = Inr (x, y, z, w)"
  using unpack_enc_fields [of "[(a, x), (b, y), (c, z), (d, w)]" "[a, b, c, d]" err]
  by (simp add: unpack4_def numeral_2_eq_2 numeral_3_eq_3)

lemma unpack5_enc:
  "fits a x \<Longrightarrow> fits b y \<Longrightarrow> fits c z \<Longrightarrow> fits d w \<Longrightarrow> fits e v \<Longrightarrow>
   unpack5 err a b c d e (enc_be a x @ enc_be b y @ enc_be c z @ enc_be d w @ enc_be e v)
     = Inr (x, y, z, w, v)"
  using unpack_enc_fields [of "[(a, x), (b, y), (c, z), (d, w), (e, v)]" "[a, b, c, d, e]" err]
  by (simp add: unpack5_def numeral_2_eq_2 numeral_3_eq_3 eval_nat_numeral)

lemmas unpack_enc = unpack1_enc unpack2_enc unpack3_enc unpack4_enc unpack5_enc

text \<open>Conversely, what is read determines the bytes it was read from.\<close>

lemma enc_fields_split_fields:
  "sum_list ks = length bs \<Longrightarrow> enc_fields (zip ks (split_fields ks bs)) = bs"
proof (induction ks arbitrary: bs)
  case (Cons k ks)
  then have "length (take k bs) = k" "sum_list ks = length (drop k bs)" by auto
  with Cons.IH [of "drop k bs"] enc_be_dec_be [of "take k bs" k] show ?case
    by (simp add: dec_be_def)
qed simp

lemma unpack_Inr:
  assumes "unpack err ks bs = Inr vs"
  shows "bs = enc_fields (zip ks vs)" "length vs = length ks"
    "\<And>i. i < length ks \<Longrightarrow> fits (ks ! i) (vs ! i)"
proof -
  from assms have "vs = split_fields ks bs" "sum_list ks = length bs"
    by (simp_all add: unpack_def split: if_splits)
  then show "bs = enc_fields (zip ks vs)" "length vs = length ks"
    by (simp_all add: enc_fields_split_fields)
qed (rule unpack_Inr_fits [OF assms])

lemma unpack1_Inr:
  "unpack1 err a bs = Inr x \<longleftrightarrow> fits a x \<and> bs = enc_be a x"
proof
  assume "unpack1 err a bs = Inr x"
  then obtain vs where u: "unpack err [a] bs = Inr vs" "x = vs ! 0"
    by (cases "unpack err [a] bs") (auto simp: unpack1_def)
  then obtain v where "vs = [v]" using unpack_Inr(2) [OF u(1)] by (auto simp: length_Suc_conv)
  with u unpack_Inr(1,3) [OF u(1)] show "fits a x \<and> bs = enc_be a x" by fastforce
qed (auto simp: unpack1_enc)

lemma unpack2_Inr:
  "unpack2 err a b bs = Inr (x, y) \<longleftrightarrow> fits a x \<and> fits b y \<and> bs = enc_be a x @ enc_be b y"
proof
  assume "unpack2 err a b bs = Inr (x, y)"
  then obtain vs where u: "unpack err [a, b] bs = Inr vs" "x = vs ! 0" "y = vs ! 1"
    by (cases "unpack err [a, b] bs") (auto simp: unpack2_def)
  then obtain v w where "vs = [v, w]" using unpack_Inr(2) [OF u(1)] by (auto simp: length_Suc_conv)
  with u unpack_Inr(1) [OF u(1)] unpack_Inr(3) [OF u(1), of 0] unpack_Inr(3) [OF u(1), of 1]
  show "fits a x \<and> fits b y \<and> bs = enc_be a x @ enc_be b y" by simp
qed (auto simp: unpack2_enc)

lemma unpack3_Inr:
  "unpack3 err a b c bs = Inr (x, y, z) \<longleftrightarrow>
     fits a x \<and> fits b y \<and> fits c z \<and> bs = enc_be a x @ enc_be b y @ enc_be c z"
proof
  assume "unpack3 err a b c bs = Inr (x, y, z)"
  then obtain vs where u: "unpack err [a, b, c] bs = Inr vs" "x = vs ! 0" "y = vs ! 1" "z = vs ! 2"
    by (cases "unpack err [a, b, c] bs") (auto simp: unpack3_def)
  then obtain v w q where "vs = [v, w, q]"
    using unpack_Inr(2) [OF u(1)] by (auto simp: length_Suc_conv)
  with u unpack_Inr(1) [OF u(1)] unpack_Inr(3) [OF u(1), of 0] unpack_Inr(3) [OF u(1), of 1]
    unpack_Inr(3) [OF u(1), of 2]
  show "fits a x \<and> fits b y \<and> fits c z \<and> bs = enc_be a x @ enc_be b y @ enc_be c z"
    by (simp add: eval_nat_numeral)
qed (auto simp: unpack3_enc)

lemma unpack4_Inr:
  "unpack4 err a b c d bs = Inr (x, y, z, w) \<longleftrightarrow>
     fits a x \<and> fits b y \<and> fits c z \<and> fits d w
     \<and> bs = enc_be a x @ enc_be b y @ enc_be c z @ enc_be d w"
proof
  assume "unpack4 err a b c d bs = Inr (x, y, z, w)"
  then obtain vs where u: "unpack err [a, b, c, d] bs = Inr vs"
      "x = vs ! 0" "y = vs ! 1" "z = vs ! 2" "w = vs ! 3"
    by (cases "unpack err [a, b, c, d] bs") (auto simp: unpack4_def)
  then obtain v0 v1 v2 v3 where "vs = [v0, v1, v2, v3]"
    using unpack_Inr(2) [OF u(1)] by (auto simp: length_Suc_conv)
  with u unpack_Inr(1) [OF u(1)] unpack_Inr(3) [OF u(1), of 0] unpack_Inr(3) [OF u(1), of 1]
    unpack_Inr(3) [OF u(1), of 2] unpack_Inr(3) [OF u(1), of 3]
  show "fits a x \<and> fits b y \<and> fits c z \<and> fits d w
     \<and> bs = enc_be a x @ enc_be b y @ enc_be c z @ enc_be d w"
    by (simp add: eval_nat_numeral)
qed (auto simp: unpack4_enc)

lemma unpack5_Inr:
  "unpack5 err a b c d e bs = Inr (x, y, z, w, v) \<longleftrightarrow>
     fits a x \<and> fits b y \<and> fits c z \<and> fits d w \<and> fits e v
     \<and> bs = enc_be a x @ enc_be b y @ enc_be c z @ enc_be d w @ enc_be e v"
proof
  assume "unpack5 err a b c d e bs = Inr (x, y, z, w, v)"
  then obtain vs where u: "unpack err [a, b, c, d, e] bs = Inr vs"
      "x = vs ! 0" "y = vs ! 1" "z = vs ! 2" "w = vs ! 3" "v = vs ! 4"
    by (cases "unpack err [a, b, c, d, e] bs") (auto simp: unpack5_def)
  then obtain v0 v1 v2 v3 v4 where "vs = [v0, v1, v2, v3, v4]"
    using unpack_Inr(2) [OF u(1)] by (auto simp: length_Suc_conv)
  with u unpack_Inr(1) [OF u(1)] unpack_Inr(3) [OF u(1), of 0] unpack_Inr(3) [OF u(1), of 1]
    unpack_Inr(3) [OF u(1), of 2] unpack_Inr(3) [OF u(1), of 3] unpack_Inr(3) [OF u(1), of 4]
  show "fits a x \<and> fits b y \<and> fits c z \<and> fits d w \<and> fits e v
     \<and> bs = enc_be a x @ enc_be b y @ enc_be c z @ enc_be d w @ enc_be e v"
    by (simp add: eval_nat_numeral)
qed (auto simp: unpack5_enc)

lemmas unpack_iffs = unpack1_Inr unpack2_Inr unpack3_Inr unpack4_Inr unpack5_Inr

section \<open>UTF-8\<close>

text \<open>\<^verbatim>\<open>str.encode("utf-8")\<close>: surrogates and numbers beyond the code space are refused.\<close>

definition utf8_char :: "nat \<Rightarrow> bytes option" where
  "utf8_char c =
     (if c < 128 then Some [of_nat c]
      else if c < 2048 then Some [of_nat (192 + c div 64), of_nat (128 + c mod 64)]
      else if 55296 \<le> c \<and> c < 57344 then None
      else if c < 65536 then
        Some [of_nat (224 + c div 4096), of_nat (128 + c div 64 mod 64), of_nat (128 + c mod 64)]
      else if c < 1114112 then
        Some [of_nat (240 + c div 262144), of_nat (128 + c div 4096 mod 64),
              of_nat (128 + c div 64 mod 64), of_nat (128 + c mod 64)]
      else None)"

fun utf8_encode :: "ustr \<Rightarrow> bytes option" where
  "utf8_encode [] = Some []"
| "utf8_encode (c # cs) =
     (case utf8_char c of
        None \<Rightarrow> None
      | Some b \<Rightarrow> map_option (\<lambda>bs. b @ bs) (utf8_encode cs))"

definition cont_byte :: "byte \<Rightarrow> bool" where
  "cont_byte b \<longleftrightarrow> 128 \<le> unat b \<and> unat b < 192"

definition valid_point :: "nat \<Rightarrow> bool" where
  "valid_point c \<longleftrightarrow> c < 1114112 \<and> \<not> (55296 \<le> c \<and> c < 57344)"

text \<open>
  \<^verbatim>\<open>bytes.decode("utf-8")\<close> in strict mode: overlong forms, surrogates, stray and
  missing continuation bytes are errors.
\<close>

fun utf8_decode :: "bytes \<Rightarrow> ustr option" where
  "utf8_decode [] = Some []"
| "utf8_decode (b0 # bs) =
     (let n = unat b0 in
      if n < 128 then map_option (\<lambda>cs. n # cs) (utf8_decode bs)
      else if n < 194 then None
      else if n < 224 then
        (case bs of
           b1 # r \<Rightarrow>
             if cont_byte b1
             then map_option (\<lambda>cs. ((n - 192) * 64 + (unat b1 - 128)) # cs) (utf8_decode r)
             else None
         | _ \<Rightarrow> None)
      else if n < 240 then
        (case bs of
           b1 # b2 # r \<Rightarrow>
             (let c = (n - 224) * 4096 + (unat b1 - 128) * 64 + (unat b2 - 128) in
              if cont_byte b1 \<and> cont_byte b2 \<and> 2048 \<le> c \<and> valid_point c
              then map_option (\<lambda>cs. c # cs) (utf8_decode r) else None)
         | _ \<Rightarrow> None)
      else if n < 245 then
        (case bs of
           b1 # b2 # b3 # r \<Rightarrow>
             (let c = (n - 240) * 262144 + (unat b1 - 128) * 4096 + (unat b2 - 128) * 64
                      + (unat b3 - 128) in
              if cont_byte b1 \<and> cont_byte b2 \<and> cont_byte b3 \<and> 65536 \<le> c \<and> valid_point c
              then map_option (\<lambda>cs. c # cs) (utf8_decode r) else None)
         | _ \<Rightarrow> None)
      else None)"

lemma utf8_char_defined: "utf8_char c = None \<longleftrightarrow> \<not> valid_point c"
  by (auto simp: utf8_char_def valid_point_def)

lemma utf8_encode_defined: "utf8_encode s = None \<longleftrightarrow> \<not> list_all valid_point s"
proof (induction s)
  case (Cons c s)
  then show ?case using utf8_char_defined [of c] by (auto split: option.splits)
qed simp

lemma base64_digits3: "c div 4096 * 4096 + c div 64 mod 64 * 64 + c mod 64 = (c :: nat)"
proof -
  have "c div 4096 = c div 64 div 64" by (simp flip: div_mult2_eq)
  then show ?thesis
    using div_mult_mod_eq [of c 64] div_mult_mod_eq [of "c div 64" 64] by linarith
qed

lemma base64_digits4:
  "c div 262144 * 262144 + c div 4096 mod 64 * 4096 + c div 64 mod 64 * 64 + c mod 64 = (c :: nat)"
proof -
  have "c div 262144 = c div 4096 div 64" by (simp flip: div_mult2_eq)
  then show ?thesis
    using base64_digits3 [of c] div_mult_mod_eq [of "c div 4096" 64] by linarith
qed

lemma utf8_decode_char:
  assumes "utf8_char c = Some b"
  shows "utf8_decode (b @ bs) = map_option (\<lambda>cs. c # cs) (utf8_decode bs)"
proof -
  consider (one) "c < 128" "b = [of_nat c]"
    | (two) "128 \<le> c" "c < 2048" "b = [of_nat (192 + c div 64), of_nat (128 + c mod 64)]"
    | (three) "2048 \<le> c" "c < 65536" "valid_point c"
        "b = [of_nat (224 + c div 4096), of_nat (128 + c div 64 mod 64), of_nat (128 + c mod 64)]"
    | (four) "65536 \<le> c" "c < 1114112" "valid_point c"
        "b = [of_nat (240 + c div 262144), of_nat (128 + c div 4096 mod 64),
              of_nat (128 + c div 64 mod 64), of_nat (128 + c mod 64)]"
    using assms by (force simp: utf8_char_def valid_point_def split: if_splits)
  then show ?thesis
  proof cases
    case one
    then show ?thesis by (simp add: unat_of_nat_byte del: of_nat_add)
  next
    case two
    then have "c div 64 < 32" "2 \<le> c div 64" by simp_all
    with two show ?thesis by (simp add: unat_of_nat_byte cont_byte_def del: of_nat_add)
  next
    case three
    then have "c div 4096 < 16" by simp
    with three base64_digits3 [of c] show ?thesis by (simp add: unat_of_nat_byte cont_byte_def del: of_nat_add)
  next
    case four
    then have "c div 262144 < 5" by simp
    with four base64_digits4 [of c] show ?thesis by (simp add: unat_of_nat_byte cont_byte_def del: of_nat_add)
  qed
qed

lemma utf8_decode_encode: "utf8_encode s = Some bs \<Longrightarrow> utf8_decode bs = Some s"
  by (induction s arbitrary: bs) (auto simp: utf8_decode_char split: option.splits)

text \<open>On ASCII the encoding is one byte per code point; beyond it is longer.\<close>

lemma utf8_char_length: "utf8_char c = Some b \<Longrightarrow> 1 \<le> length b \<and> (length b = 1 \<longleftrightarrow> c < 128)"
  by (auto simp: utf8_char_def split: if_splits)

lemma utf8_encode_length: "utf8_encode s = Some bs \<Longrightarrow> length s \<le> length bs"
proof (induction s arbitrary: bs)
  case (Cons c s)
  then obtain b bs' where b: "utf8_char c = Some b" "utf8_encode s = Some bs'" "bs = b @ bs'"
    by (auto split: option.splits)
  with Cons.IH [OF b(2)] utf8_char_length [OF b(1)] show ?case by simp
qed simp

lemma utf8_encode_ascii_length:
  assumes "utf8_encode s = Some bs"
  shows "length bs = length s \<longleftrightarrow> list_all (\<lambda>c. c < 128) s"
  using assms
proof (induction s arbitrary: bs)
  case (Cons c s)
  then obtain b bs' where b: "utf8_char c = Some b" "utf8_encode s = Some bs'" "bs = b @ bs'"
    by (auto split: option.splits)
  with Cons.IH utf8_char_length [OF b(1)] utf8_encode_length [OF b(2)] show ?case
    by (auto simp del: One_nat_def)
qed simp

end
