(* ===== verification/Rrdd.thy ===== *)
theory Rrdd
  imports Py_Float Py_Json Codec "HOL-Library.AList" Complex_Main
begin

text \<open>
  The plugin side of the metrics daemon, \<^verbatim>\<open>ocaml/xcp-rrdd/scripts/rrdd/rrdd.py\<close>: a
  plugin registers with the daemon over XML-RPC, waits for the next reading,
  and writes its data sources with their metadata and checksums to a file the
  daemon reads. The daemon, the clock and whether the file can be opened are an
  argument, over a state of their own; waiting times are exact numbers.
\<close>

section \<open>Calls of the daemon\<close>

datatype rval =
    RNone
  | RStr string
  | RNum rat
  | RDict "(string \<times> rval) list"

datatype rrd_error =
    Rrd_Num num_error
  | Rrd_NotImplementedError
  | Rrd_NameError
  | Rrd_StructError
  | Rrd_AttributeError
  | Rrd_TypeError
  | Rrd_OSError
  | Rrd_Fault int
  | Rrd_Failure rval

text \<open>An answer without a status is appended to a text, which it has to be itself.\<close>

definition parse_rrd_result :: "rval \<Rightarrow> rrd_error + rval" where
  "parse_rrd_result result =
     (case result of
        RDict d \<Rightarrow>
          (case map_of d ''Status'' of
             None \<Rightarrow> Inl Rrd_TypeError
           | Some status \<Rightarrow>
               if status = RStr ''Success'' then
                 (case map_of d ''Value'' of Some v \<Rightarrow> Inr v | None \<Rightarrow> Inl (Rrd_Fault 500))
               else
                 (case map_of d ''ErrorDescription'' of
                    Some desc \<Rightarrow> Inl (Rrd_Failure desc)
                  | None \<Rightarrow> Inl (Rrd_Fault 500)))
      | RStr _ \<Rightarrow> Inl (Rrd_Fault 500)
      | _ \<Rightarrow> Inl Rrd_TypeError)"

text \<open>
  The environment: the XML-RPC server, whether the directory of a path can be
  made and the file opened, the time, and the effect of sleeping.
\<close>

record 'k rrd_env =
  rrd_rpc :: "string \<Rightarrow> rval list \<Rightarrow> 'k \<Rightarrow> (rrd_error + rval) \<times> 'k"
  rrd_open :: "string \<Rightarrow> 'k \<Rightarrow> bool"
  rrd_time :: "'k \<Rightarrow> f64"
  rrd_sleep :: "rat \<Rightarrow> 'k \<Rightarrow> 'k"

section \<open>Data sources\<close>

text \<open>The arguments of \<^verbatim>\<open>float\<close> and \<^verbatim>\<open>int\<close>.\<close>

datatype py_arg = PStr string | PInt int | PFloat f64

definition py_float :: "py_arg \<Rightarrow> num_error + f64" where
  "py_float a = (case a of PStr s \<Rightarrow> float_of_str s | PInt n \<Rightarrow> float_of_int n | PFloat x \<Rightarrow> Inr x)"

definition py_int_arg :: "py_arg \<Rightarrow> num_error + int" where
  "py_int_arg a =
     (case a of
        PStr s \<Rightarrow> (case py_int 10 s of None \<Rightarrow> Inl Num_ValueError | Some n \<Rightarrow> Inr n)
      | PInt n \<Rightarrow> Inr n
      | PFloat x \<Rightarrow> int_of_float x)"

definition num_result :: "num_error + 'a \<Rightarrow> rrd_error + 'a" where
  "num_result r = (case r of Inl e \<Rightarrow> Inl (Rrd_Num e) | Inr x \<Rightarrow> Inr x)"

datatype ds_value = VFloat f64 | VInt int

record datasource =
  ds_name :: string
  ds_val :: ds_value
  ds_description :: string
  ds_units :: string
  ds_ty :: string
  ds_owner :: string
  ds_value_ty :: string
  ds_min :: json
  ds_max :: json

text \<open>
  A bound is kept as a float only when it was given as the infinite float;
  every other argument, also the text of the default, is printed.
\<close>

definition ds_bound :: "bool \<Rightarrow> py_arg \<Rightarrow> f64 \<Rightarrow> json" where
  "ds_bound neg arg x = (if arg = PFloat (mk_float neg inf_bits) then JInf neg else JStr (float_repr x))"

definition DataSource ::
  "string \<Rightarrow> py_arg \<Rightarrow> string \<Rightarrow> string \<Rightarrow> string \<Rightarrow> string \<Rightarrow> string \<Rightarrow> py_arg \<Rightarrow> py_arg \<Rightarrow>
   rrd_error + datasource" where
  "DataSource name val description units ty owner value_ty min_val max_val =
     sbind (if value_ty = ''float'' then sbind (num_result (py_float val)) (\<lambda>x. Inr (VFloat x))
            else if value_ty = ''int64'' then sbind (num_result (py_int_arg val)) (\<lambda>n. Inr (VInt n))
            else Inl Rrd_NotImplementedError) (\<lambda>v.
     sbind (num_result (py_float min_val)) (\<lambda>lo.
     sbind (num_result (py_float max_val)) (\<lambda>hi.
     Inr \<lparr>ds_name = name, ds_val = v, ds_description = description, ds_units = units, ds_ty = ty,
          ds_owner = owner, ds_value_ty = value_ty, ds_min = ds_bound True min_val lo,
          ds_max = ds_bound False max_val hi\<rparr>)))"

definition metadata_fields :: "datasource \<Rightarrow> (string \<times> json) list" where
  "metadata_fields ds =
     [(''description'', JStr (ds_description ds)), (''owner'', JStr (ds_owner ds)),
      (''value_type'', JStr (ds_value_ty ds)), (''type'', JStr (ds_ty ds)), (''default'', JStr ''true''),
      (''units'', JStr (ds_units ds)), (''min'', ds_min ds), (''max'', ds_max ds)]"

text \<open>\<^verbatim>\<open>struct.pack(">d", x)\<close> and \<^verbatim>\<open>struct.pack(">Q", n)\<close>\<close>

definition pack_double :: "f64 \<Rightarrow> bytes" where
  "pack_double x = enc_be 8 (uint x)"

definition pack_data :: "datasource \<Rightarrow> rrd_error + bytes" where
  "pack_data ds =
     (case ds_val ds of VFloat x \<Rightarrow> Inr (pack_double x) | VInt n \<Rightarrow> pack_be Rrd_StructError 8 n)"

section \<open>Checksums\<close>

text \<open>\<^verbatim>\<open>zlib.crc32(bs, c)\<close>\<close>

definition crc_bit :: "32 word \<Rightarrow> 32 word" where
  "crc_bit c = (if bit c 0 then drop_bit 1 c XOR 0xEDB88320 else drop_bit 1 c)"

definition crc_byte :: "32 word \<Rightarrow> byte \<Rightarrow> 32 word" where
  "crc_byte c b =
     crc_bit (crc_bit (crc_bit (crc_bit (crc_bit (crc_bit (crc_bit (crc_bit (c XOR ucast b))))))))"

definition crc32 :: "bytes \<Rightarrow> 32 word \<Rightarrow> 32 word" where
  "crc32 bs c = NOT (foldl crc_byte (NOT c) bs)"

section \<open>The plugin\<close>

record 'k plugin =
  uid :: string
  datasources :: "datasource list"
  frequency :: string
  frequency_in_seconds :: rat
  header :: "rval option"
  plugin_path :: "rval option"
  dest :: "(string \<times> nat) option"
  disk :: "string \<Rightarrow> bytes option"
  daemon :: 'k
  naps :: "rat list"

type_synonym ('k, 'a) plug = "('k plugin, rrd_error, 'a) st"

definition frequency_to_seconds :: "string \<Rightarrow> rrd_error + rat" where
  "frequency_to_seconds f = (if f = ''Five_Seconds'' then Inr 5 else Inl Rrd_NameError)"

definition new_api :: "string \<Rightarrow> string \<Rightarrow> (string \<Rightarrow> bytes option) \<Rightarrow> 'k \<Rightarrow> rrd_error + 'k plugin" where
  "new_api plugin_id freq files k =
     sbind (frequency_to_seconds freq) (\<lambda>secs.
     Inr \<lparr>uid = plugin_id, datasources = [], frequency = freq, frequency_in_seconds = secs,
          header = None, plugin_path = None, dest = None, disk = files, daemon = k, naps = []\<rparr>)"

text \<open>\<^verbatim>\<open>Dispatcher\<close> with \<^verbatim>\<open>Proxy.request\<close>: a call without arguments passes \<^verbatim>\<open>None\<close>.\<close>

definition dispatcher_name :: "string option \<Rightarrow> string \<Rightarrow> string" where
  "dispatcher_name prefix name = (case prefix of None \<Rightarrow> name | Some p \<Rightarrow> p @ ''.'' @ name)"

definition request :: "'k rrd_env \<Rightarrow> string \<Rightarrow> rval list \<Rightarrow> ('k, rval) plug" where
  "request ev method params = (\<lambda>s.
     case rrd_rpc ev (dispatcher_name (Some (dispatcher_name None ''Plugin'')) method)
            (if params = [] then [RNone] else params) (daemon s) of
       (r, k) \<Rightarrow> (sbind r parse_rrd_result, s\<lparr>daemon := k\<rparr>))"

definition lazy_complete_init :: "'k rrd_env \<Rightarrow> ('k, unit) plug" where
  "lazy_complete_init ev =
     bnd (gets dest) (\<lambda>d.
     if d \<noteq> None then ret ()
     else
       bnd (request ev ''get_header'' []) (\<lambda>h.
       seq (modify (\<lambda>s. s\<lparr>header := Some h\<rparr>))
       (bnd (gets uid) (\<lambda>u.
       bnd (request ev ''get_path'' [RDict [(''uid'', RStr u)]]) (\<lambda>p.
       seq (modify (\<lambda>s. s\<lparr>plugin_path := Some p\<rparr>))
       (case p of
          RStr path \<Rightarrow> (\<lambda>s.
            if rrd_open ev path (daemon s) then
              (Inr (), s\<lparr>dest := Some (path, 0),
                         disk := (if disk s path = None then (disk s)(path := Some []) else disk s)\<rparr>)
            else (Inl Rrd_OSError, s))
        | _ \<Rightarrow> throw Rrd_TypeError))))))"

definition register :: "'k rrd_env \<Rightarrow> ('k, rval) plug" where
  "register ev =
     bnd (gets (\<lambda>s. RDict [(''uid'', RStr (uid s)), (''frequency'', RStr (frequency s))]))
       (\<lambda>params. request ev ''register'' [params])"

definition deregister :: "'k rrd_env \<Rightarrow> ('k, rval) plug" where
  "deregister ev = bnd (gets uid) (\<lambda>u. request ev ''deregister'' [RDict [(''uid'', RStr u)]])"

definition next_reading :: "'k rrd_env \<Rightarrow> ('k, rval) plug" where
  "next_reading ev = bnd (gets uid) (\<lambda>u. request ev ''next_reading'' [RDict [(''uid'', RStr u)]])"

definition set_datasource ::
  "string \<Rightarrow> py_arg \<Rightarrow> string \<Rightarrow> string \<Rightarrow> string \<Rightarrow> string \<Rightarrow> string \<Rightarrow> py_arg \<Rightarrow> py_arg \<Rightarrow> ('k, unit) plug" where
  "set_datasource name val description units ty owner value_ty min_val max_val =
     bnd (lift_sum (DataSource name val description units ty owner value_ty min_val max_val)) (\<lambda>ds.
     modify (\<lambda>s. s\<lparr>datasources := datasources s @ [ds]\<rparr>))"

section \<open>Waiting\<close>

definition nap :: "'k rrd_env \<Rightarrow> rat \<Rightarrow> ('k, unit) plug" where
  "nap ev t = modify (\<lambda>s. s\<lparr>daemon := rrd_sleep ev t (daemon s), naps := naps s @ [t]\<rparr>)"

definition py_mod :: "rat \<Rightarrow> rat \<Rightarrow> rat" where
  "py_mod x m = x - m * of_int \<lfloor>x / m\<rfloor>"

definition wait_once :: "'k rrd_env \<Rightarrow> rat \<Rightarrow> ('k, unit) plug" where
  "wait_once ev neg_shift =
     seq (lazy_complete_init ev)
     (bnd (register ev) (\<lambda>r.
      case r of
        RNum next_read \<Rightarrow>
          bnd (gets frequency_in_seconds) (\<lambda>secs.
          let wait_time = next_read - neg_shift in
          nap ev (if wait_time < 0 then py_mod wait_time secs else wait_time))
      | _ \<Rightarrow> throw Rrd_TypeError))"

text \<open>
  The loop of \<^verbatim>\<open>wait_until_next_reading\<close>, \<open>None\<close> when it does not return. The
  exception \<^verbatim>\<open>socket.error\<close> is \<^verbatim>\<open>OSError\<close>, which opening the file raises too.
\<close>

partial_function (option) wait_until_next_reading ::
  "'k rrd_env \<Rightarrow> rat \<Rightarrow> 'k plugin \<Rightarrow> ((rrd_error + unit) \<times> 'k plugin) option" where
  "wait_until_next_reading ev neg_shift s =
     (case wait_once ev neg_shift s of
        (r, s') \<Rightarrow>
          if r = Inl Rrd_OSError then wait_until_next_reading ev neg_shift (snd (nap ev 5 s'))
          else Some (r, s'))"

section \<open>Writing the file\<close>

text \<open>Writing into an open file: a gap is filled with zeros, what is behind stays.\<close>

definition overlay :: "bytes \<Rightarrow> nat \<Rightarrow> bytes \<Rightarrow> bytes" where
  "overlay c p b = take p (c @ replicate (p - length c) 0) @ b @ drop (p + length b) c"

definition dest_seek :: "nat \<Rightarrow> ('k, unit) plug" where
  "dest_seek p = (\<lambda>s.
     case dest s of
       None \<Rightarrow> (Inl Rrd_AttributeError, s)
     | Some (path, _) \<Rightarrow> (Inr (), s\<lparr>dest := Some (path, p)\<rparr>))"

definition dest_write :: "bytes \<Rightarrow> ('k, unit) plug" where
  "dest_write b = (\<lambda>s.
     case dest s of
       None \<Rightarrow> (Inl Rrd_AttributeError, s)
     | Some (path, p) \<Rightarrow>
         (Inr (), s\<lparr>dest := Some (path, p + length b),
                    disk := (disk s)(path := Some (overlay (case disk s path of None \<Rightarrow> [] | Some c \<Rightarrow> c) p b))\<rparr>))"

definition ascii_bytes :: "string \<Rightarrow> bytes" where
  "ascii_bytes s = map of_char s"

text \<open>The loop over the sorted data sources: values, checksum and metadata.\<close>

definition update_step ::
  "datasource \<Rightarrow> bytes list \<times> 32 word \<times> (string \<times> json) list \<Rightarrow>
   rrd_error + bytes list \<times> 32 word \<times> (string \<times> json) list" where
  "update_step ds acc =
     (case acc of (data_values, data_checksum, combined) \<Rightarrow>
        sbind (pack_data ds) (\<lambda>v.
        Inr (data_values @ [v], crc32 v data_checksum,
             AList.update (ds_name ds) (JObj (metadata_fields ds)) combined)))"

definition update :: "'k rrd_env \<Rightarrow> ('k, unit) plug" where
  "update ev =
     bnd (gets (\<lambda>s. rrd_time ev (daemon s))) (\<lambda>timestamp.
     bnd (gets datasources) (\<lambda>dss.
     bnd (lift_sum (sfold update_step (sort_key ds_name dss) ([], crc32 (pack_double timestamp) 0, [])))
       (\<lambda>(data_values, data_checksum, combined).
     let metadata_json = ascii_bytes (json_dumps (JObj [(''datasources'', JObj combined)]));
         metadata_checksum = crc32 metadata_json 0 in
     seq (dest_seek (length ''DATASOURCES'' + 20))
     (seq (for_each dest_write data_values)
     (bnd (lift_sum (pack_be Rrd_StructError 4 (int (length metadata_json)))) (\<lambda>len.
     seq (dest_write len)
     (seq (dest_write metadata_json)
     (seq (dest_seek 0)
     (seq (dest_write (ascii_bytes ''DATASOURCES''))
     (bnd (lift_sum (pack_fields Rrd_StructError
             [(4, uint data_checksum), (4, uint metadata_checksum), (4, int (length dss)),
              (8, uint timestamp)])) (\<lambda>head.
     seq (dest_write head)
     (seq (modify (\<lambda>s. s\<lparr>datasources := []\<rparr>))
     (nap ev (3 / 1000))))))))))))))"

end
