(* ===== verification/Rrdd_Proofs.thy ===== *)
theory Rrdd_Proofs
  imports Rrdd
begin

text \<open>
  What the plugin writes is what the daemon reads. The reader follows the
  format of \<^verbatim>\<open>ocaml/xcp-rrdd/lib/transport/base/rrd_protocol_v2.ml\<close>: it checks the
  header and both checksums, keeps the metadata while its checksum does not
  change, and takes the values in the order of the metadata.
\<close>

section \<open>A reader of the format\<close>

datatype read_error =
    Invalid_header_string | No_update | Invalid_checksum | Invalid_payload | Out_of_bounds

datatype read_value = VT_Float f64 | VT_Int64 "64 word"

type_synonym entry = "string \<times> (string \<times> string) list"

record reader =
  last_data_crc :: "32 word"
  last_metadata_crc :: "32 word"
  cached :: "entry list"

definition new_reader :: reader where
  "new_reader = \<lparr>last_data_crc = 0, last_metadata_crc = 0, cached = []\<rparr>"

definition bytes_at :: "bytes \<Rightarrow> nat \<Rightarrow> nat \<Rightarrow> bytes" where
  "bytes_at cs i n = take n (drop i cs)"

definition parse_metadata :: "bytes \<Rightarrow> entry list option" where
  "parse_metadata md =
     (case read_object (read_object (read_object read_text)) (map (\<lambda>b. char_of (unat b)) md) of
        Some (kvs, []) \<Rightarrow> map_of kvs ''datasources''
      | _ \<Rightarrow> None)"

definition typed_value :: "(string \<times> string) list \<Rightarrow> int \<Rightarrow> read_value option" where
  "typed_value fs raw =
     (if map_of fs ''value_type'' = Some ''float'' then Some (VT_Float (of_int raw))
      else if map_of fs ''value_type'' = Some ''int64'' then Some (VT_Int64 (of_int raw))
      else None)"

fun read_values :: "bytes \<Rightarrow> nat \<Rightarrow> entry list \<Rightarrow> read_error + (string \<times> (string \<times> string) list \<times> read_value) list" where
  "read_values cs i [] = Inr []"
| "read_values cs i ((name, fs) # es) =
     (if length cs < i + 8 then Inl Out_of_bounds
      else case typed_value fs (dec_be (bytes_at cs i 8)) of
        None \<Rightarrow> Inl Invalid_payload
      | Some v \<Rightarrow> sbind (read_values cs (i + 8) es) (\<lambda>r. Inr ((name, fs, v) # r)))"

definition read_payload ::
  "bytes \<Rightarrow> (reader, read_error, f64 \<times> (string \<times> (string \<times> string) list \<times> read_value) list) st" where
  "read_payload cs =
     (let data_crc = of_int (dec_be (bytes_at cs 11 4)); metadata_crc = of_int (dec_be (bytes_at cs 15 4));
          count = nat (dec_be (bytes_at cs 19 4)); timestamp = of_int (dec_be (bytes_at cs 23 8)) in
      seq (require (31 \<le> length cs) Out_of_bounds)
      (seq (require (bytes_at cs 0 11 = ascii_bytes ''DATASOURCES'') Invalid_header_string)
      (bnd (gets last_data_crc) (\<lambda>last.
       seq (require (data_crc \<noteq> last) No_update)
      (seq (require (31 + 8 * count \<le> length cs) Out_of_bounds)
      (seq (require (data_crc = crc32 (bytes_at cs 23 (8 + 8 * count)) 0) Invalid_checksum)
      (seq (modify (\<lambda>r. r\<lparr>last_data_crc := data_crc\<rparr>))
      (bnd (gets last_metadata_crc) (\<lambda>last_md.
       bnd (if metadata_crc = last_md then gets cached
            else
              let len = nat (dec_be (bytes_at cs (31 + 8 * count) 4));
                  md = bytes_at cs (35 + 8 * count) len in
              seq (require (35 + 8 * count + len \<le> length cs) Out_of_bounds)
              (seq (require (metadata_crc = crc32 md 0) Invalid_checksum)
              (seq (modify (\<lambda>r. r\<lparr>last_metadata_crc := metadata_crc\<rparr>))
              (case parse_metadata md of None \<Rightarrow> throw Invalid_payload | Some es \<Rightarrow> ret es)))) (\<lambda>es.
       bnd (lift_sum (read_values cs 31 es)) (\<lambda>vs.
       seq (modify (\<lambda>r. r\<lparr>cached := es\<rparr>)) (ret (timestamp, vs)))))))))))))"

section \<open>What an update computes\<close>

lemma crc32_append: "crc32 (a @ b) c = crc32 b (crc32 a c)"
  by (simp add: crc32_def)

definition ds_raw :: "datasource \<Rightarrow> int" where
  "ds_raw ds = (case ds_val ds of VFloat x \<Rightarrow> uint x | VInt n \<Rightarrow> n)"

definition packable :: "datasource \<Rightarrow> bool" where
  "packable ds \<longleftrightarrow> fits 8 (ds_raw ds)"

lemma fits_uint64: "fits 8 (uint (x :: f64))"
  using unsigned_less [of x] by (simp add: fits_def)

lemma fits_uint32: "fits 4 (uint (x :: 32 word))"
  using unsigned_less [of x] by (simp add: fits_def)

lemma fits_length: "n < 4294967296 \<Longrightarrow> fits 4 (int n)"
  by (simp add: fits_def)

lemma packable_float: "ds_val ds = VFloat x \<Longrightarrow> packable ds"
  by (simp add: packable_def ds_raw_def fits_uint64)

lemma pack_data_eq:
  "pack_data ds = (if packable ds then Inr (enc_be 8 (ds_raw ds)) else Inl Rrd_StructError)"
  by (auto simp: pack_data_def packable_def ds_raw_def pack_double_def fits_uint64 pack_be_Inr pack_be_Inl
      split: ds_value.split)

definition values_bytes :: "datasource list \<Rightarrow> bytes" where
  "values_bytes xs = concat (map (\<lambda>ds. enc_be 8 (ds_raw ds)) xs)"

definition combined_of :: "datasource list \<Rightarrow> (string \<times> json) list \<Rightarrow> (string \<times> json) list" where
  "combined_of xs m = fold (\<lambda>ds. AList.update (ds_name ds) (JObj (metadata_fields ds))) xs m"

lemma sfold_update:
  "sfold update_step xs (vs, c, m) =
     (if list_all packable xs
      then Inr (vs @ map (\<lambda>ds. enc_be 8 (ds_raw ds)) xs, crc32 (values_bytes xs) c, combined_of xs m)
      else Inl Rrd_StructError)"
  by (induction xs arbitrary: vs c m)
    (simp_all add: update_step_def pack_data_eq values_bytes_def combined_of_def crc32_append crc32_def)

lemma length_values_bytes [simp]: "length (values_bytes xs) = 8 * length xs"
  by (induction xs) (simp_all add: values_bytes_def)

section \<open>The file\<close>

lemma overlay_overlay: "overlay (overlay c p a) (p + length a) b = overlay c p (a @ b)"
proof -
  have "p - length c + min (length c) p = p" by (simp add: min_def)
  then show ?thesis by (simp add: overlay_def add.commute add.left_commute)
qed

lemma writes:
  assumes "bs \<noteq> []" "dest s = Some (path, p)" "disk s path = Some c"
  shows "for_each dest_write bs s =
    (Inr (), s\<lparr>dest := Some (path, p + length (concat bs)),
               disk := (disk s)(path := Some (overlay c p (concat bs)))\<rparr>)"
  using assms
proof (induction bs arbitrary: s p c)
  case (Cons b bs)
  let ?s = "s\<lparr>dest := Some (path, p + length b), disk := (disk s)(path := Some (overlay c p b))\<rparr>"
  have w: "dest_write b s = (Inr (), ?s)" using Cons.prems by (simp add: dest_write_def)
  show ?case
  proof (cases "bs = []")
    case True
    with w show ?thesis by (simp add: ret_def fun_upd_def)
  next
    case False
    then have "for_each dest_write bs ?s = (Inr (), ?s\<lparr>dest := Some (path, p + length b + length (concat bs)),
        disk := (disk ?s)(path := Some (overlay (overlay c p b) (p + length b) (concat bs)))\<rparr>)"
      by (rule Cons.IH) simp_all
    with w show ?thesis by (simp add: overlay_overlay add.assoc) (simp add: fun_upd_def)
  qed
qed simp

lemma overlay_start: "overlay c 0 b = b @ drop (length b) c"
  by (simp add: overlay_def)

text \<open>The content of the file: what was there before stays behind the payload.\<close>

definition metadata_bytes :: "datasource list \<Rightarrow> bytes" where
  "metadata_bytes dss = ascii_bytes (json_dumps (JObj [(''datasources'', JObj (combined_of (sort_key ds_name dss) []))]))"

definition payload_body :: "f64 \<Rightarrow> datasource list \<Rightarrow> bytes" where
  "payload_body ts dss = values_bytes (sort_key ds_name dss) @ enc_be 4 (int (length (metadata_bytes dss)))
     @ metadata_bytes dss"

definition payload_head :: "f64 \<Rightarrow> datasource list \<Rightarrow> bytes" where
  "payload_head ts dss = ascii_bytes ''DATASOURCES'' @ enc_fields
     [(4, uint (crc32 (pack_double ts @ values_bytes (sort_key ds_name dss)) 0)),
      (4, uint (crc32 (metadata_bytes dss) 0)), (4, int (length dss)), (8, uint ts)]"

definition payload :: "f64 \<Rightarrow> datasource list \<Rightarrow> bytes" where
  "payload ts dss = payload_head ts dss @ payload_body ts dss"

lemma length_payload_head: "length (payload_head ts dss) = 31"
  by (simp add: payload_head_def ascii_bytes_def)

definition sizes_fit :: "datasource list \<Rightarrow> bool" where
  "sizes_fit dss \<longleftrightarrow> length (metadata_bytes dss) < 2 ^ 32 \<and> length dss < 2 ^ 32"

lemma sort_key_packable [simp]: "list_all packable (sort_key f dss) = list_all packable dss"
  by (simp add: list_all_iff)

lemma update_ok:
  fixes ev :: "'k rrd_env" and s :: "'k plugin"
  assumes "dest s = Some (path, p)" "disk s path = Some c"
    and "list_all packable (datasources s)" "sizes_fit (datasources s)"
  defines "new \<equiv> payload (rrd_time ev (daemon s)) (datasources s)"
  shows "update ev s = (Inr (), s\<lparr>dest := Some (path, 31), datasources := [],
      disk := (disk s)(path := Some (new @ drop (length new) c)),
      daemon := rrd_sleep ev (3 / 1000) (daemon s), naps := naps s @ [3 / 1000]\<rparr>)"
proof -
  let ?dss = "datasources s" and ?ts = "rrd_time ev (daemon s)"
  let ?vs = "map (\<lambda>ds. enc_be 8 (ds_raw ds)) (sort_key ds_name ?dss)"
  let ?len = "enc_be 4 (int (length (metadata_bytes ?dss)))"
  let ?s1 = "s\<lparr>dest := Some (path, 31)\<rparr>"
  define body where "body = payload_body ?ts ?dss"
  have body: "body = concat (?vs @ [?len, metadata_bytes ?dss])"
    by (simp add: body_def payload_body_def values_bytes_def)
  let ?s2 = "?s1\<lparr>dest := Some (path, 31 + length body), disk := (disk s)(path := Some (overlay c 31 body))\<rparr>"
  have w: "for_each dest_write (?vs @ [?len, metadata_bytes ?dss]) ?s1 = (Inr (), ?s2)"
    using writes [of "?vs @ [?len, metadata_bytes ?dss]" ?s1 path 31 c] assms(2) unfolding body by simp
  then obtain a b where w1: "for_each dest_write ?vs ?s1 = (Inr (), a)"
    "dest_write ?len a = (Inr (), b)" "dest_write (metadata_bytes ?dss) b = (Inr (), ?s2)"
    by (auto simp: for_each_append seq_def ret_def elim!: bnd_InrE)
  let ?fs = "[(4, uint (crc32 (pack_double ?ts @ values_bytes (sort_key ds_name ?dss)) 0)),
      (4, uint (crc32 (metadata_bytes ?dss) 0)), (4, int (length ?dss)), (8, uint ?ts)]"
  let ?s3 = "?s2\<lparr>dest := Some (path, 0)\<rparr>"
  have new: "overlay (overlay c 31 body) 0 (payload_head ?ts ?dss) = new @ drop (length new) c"
    by (simp add: overlay_start new_def payload_def body_def length_payload_head overlay_def)
  have hw: "for_each dest_write [ascii_bytes ''DATASOURCES'', enc_fields ?fs] ?s3 =
      (Inr (), ?s3\<lparr>dest := Some (path, 31), disk := (disk s)(path := Some (new @ drop (length new) c))\<rparr>)"
  proof -
    have "concat [ascii_bytes ''DATASOURCES'', enc_fields ?fs] = payload_head ?ts ?dss"
      by (simp only: payload_head_def concat.simps append_Nil2)
    then show ?thesis
      using writes [of "[ascii_bytes ''DATASOURCES'', enc_fields ?fs]" ?s3 path 0 "overlay c 31 body"]
      unfolding new [symmetric] by (simp only: length_payload_head) simp
  qed
  then obtain d where h1: "dest_write (ascii_bytes ''DATASOURCES'') ?s3 = (Inr (), d)"
    "dest_write (enc_fields ?fs) d = (Inr (), ?s3\<lparr>dest := Some (path, 31), disk := (disk s)(path := Some (new @ drop (length new) c))\<rparr>)"
    by (auto simp: seq_def ret_def elim!: bnd_InrE)
  have f: "sfold update_step (sort_key ds_name ?dss) ([], crc32 (pack_double ?ts) 0, []) =
      Inr (?vs, crc32 (pack_double ?ts @ values_bytes (sort_key ds_name ?dss)) 0, combined_of (sort_key ds_name ?dss) [])"
    using assms(3) by (simp add: sfold_update crc32_append)
  have p1: "pack_be Rrd_StructError 4 (int (length (metadata_bytes ?dss))) = Inr ?len"
    and p2: "pack_fields Rrd_StructError ?fs = Inr (enc_fields ?fs)"
    using assms(4) by (simp_all add: pack_be_Inr pack_fields_eq fits_uint32 fits_uint64 sizes_fit_def fits_length)
  have sk: "dest_seek 31 s = (Inr (), ?s1)" "dest_seek 0 ?s2 = (Inr (), ?s3)"
    using assms(1) by (simp_all add: dest_seek_def)
  show ?thesis
    using f p1 p2 sk w1 h1
    by (simp add: update_def gets_def bnd_Inr lift_sum_def Let_def metadata_bytes_def [symmetric] modify_def nap_def
        del: pack_fields.simps enc_fields_simps json_dumps.simps)
qed

section \<open>The metadata\<close>

primrec json_plain :: "json \<Rightarrow> string" where
  "json_plain (JStr s) = s"
| "json_plain (JInf neg) = []"
| "json_plain (JObj kvs) = []"

definition is_text :: "json \<Rightarrow> bool" where
  "is_text j \<longleftrightarrow> j = JStr (json_plain j)"

text \<open>A data source as its constructor makes it, and one whose bounds are texts.\<close>

definition ds_typed :: "datasource \<Rightarrow> bool" where
  "ds_typed ds \<longleftrightarrow>
     (case ds_val ds of VFloat x \<Rightarrow> ds_value_ty ds = ''float'' | VInt n \<Rightarrow> ds_value_ty ds = ''int64'')"

definition ds_plain :: "datasource \<Rightarrow> bool" where
  "ds_plain ds \<longleftrightarrow> is_text (ds_min ds) \<and> is_text (ds_max ds)"

definition plain_fields :: "json \<Rightarrow> (string \<times> string) list" where
  "plain_fields j = (case j of JObj fs \<Rightarrow> map (\<lambda>(k, v). (k, json_plain v)) (sort_key fst fs) | _ \<Rightarrow> [])"

definition ds_fields :: "datasource \<Rightarrow> (string \<times> string) list" where
  "ds_fields ds = plain_fields (JObj (metadata_fields ds))"

lemma DataSource_typed:
  "DataSource name val description units ty owner value_ty min_val max_val = Inr ds \<Longrightarrow> ds_typed ds"
  by (auto simp: DataSource_def ds_typed_def sbind_Inr_iff split: if_splits)

lemma reads_fields:
  assumes "ds_plain ds"
  shows "reads (read_object read_text) (json_dumps (JObj (metadata_fields ds))) (ds_fields ds)"
proof -
  have "\<forall>(key, j) \<in> set (metadata_fields ds). reads read_text (json_dumps j) (json_plain j)"
    using assms reads_text by (auto simp: metadata_fields_def ds_plain_def is_text_def) (metis json_dumps.simps(1))+
  from reads_dumps_object [OF this] show ?thesis by (simp add: ds_fields_def plain_fields_def)
qed

text \<open>Of the data sources of one name the last one gives the metadata.\<close>

definition latest :: "datasource list \<Rightarrow> string \<Rightarrow> datasource" where
  "latest dss n = last (filter (\<lambda>ds. ds_name ds = n) dss)"

definition ds_names :: "datasource list \<Rightarrow> string list" where
  "ds_names dss = sorted_list_of_set (ds_name ` set dss)"

definition entries :: "datasource list \<Rightarrow> entry list" where
  "entries dss = map (\<lambda>n. (n, ds_fields (latest dss n))) (ds_names dss)"

lemma map_of_combined:
  "map_of (combined_of xs []) n =
     (if n \<in> ds_name ` set xs then Some (JObj (metadata_fields (latest xs n))) else None)"
proof (induction xs rule: rev_induct)
  case (snoc x xs)
  have "filter (\<lambda>ds. ds_name ds = n) xs \<noteq> []" if "n \<in> ds_name ` set xs"
    using that by (auto simp: filter_empty_conv)
  with snoc show ?case by (auto simp: combined_of_def update_conv' latest_def)
qed (simp add: combined_of_def)

lemma combined_distinct: "distinct (map fst m) \<Longrightarrow> distinct (map fst (combined_of xs m))"
  by (induction xs arbitrary: m) (simp_all add: combined_of_def distinct_update)

lemma sort_key_dict:
  fixes al :: "(string \<times> 'v) list"
  assumes "distinct (map fst al)"
  shows "sort_key fst al = map (\<lambda>n. (n, the (map_of al n))) (sorted_list_of_set (fst ` set al))"
proof -
  have d: "distinct (map fst (sort_key fst al))"
    using assms by (simp add: distinct_map)
  then have "map fst (sort_key fst al) = sorted_list_of_set (fst ` set al)"
    using sorted_list_of_set.idem_if_sorted_distinct [of "map fst (sort_key fst al)"] by simp
  moreover have "map_of (sort_key fst al) = map_of al"
    using d assms by (subst map_of_inject_set) simp_all
  then have "map_of al (fst kv) = Some (snd kv)" if "kv \<in> set (sort_key fst al)" for kv
    using that d by (metis map_of_eq_Some_iff prod.collapse)
  then have "sort_key fst al = map (\<lambda>n. (n, the (map_of al n))) (map fst (sort_key fst al))"
    by (simp add: comp_def) (rule map_idI [symmetric], simp)
  ultimately show ?thesis by simp
qed

lemma latest_sort: "latest (sort_key ds_name dss) = latest dss"
  by (simp add: latest_def sort_key_stable fun_eq_iff)

lemma latest_in: "n \<in> ds_name ` set dss \<Longrightarrow> latest dss n \<in> set dss \<and> ds_name (latest dss n) = n"
proof -
  assume "n \<in> ds_name ` set dss"
  then have "filter (\<lambda>ds. ds_name ds = n) dss \<noteq> []" by (auto simp: filter_empty_conv)
  then have "last (filter (\<lambda>ds. ds_name ds = n) dss) \<in> set (filter (\<lambda>ds. ds_name ds = n) dss)" by (rule last_in_set)
  then show ?thesis by (simp add: latest_def)
qed

lemma sort_combined:
  "sort_key fst (combined_of (sort_key ds_name dss) []) =
     map (\<lambda>n. (n, JObj (metadata_fields (latest dss n)))) (ds_names dss)"
proof -
  let ?al = "combined_of (sort_key ds_name dss) []"
  have m: "map_of ?al n = (if n \<in> ds_name ` set dss then Some (JObj (metadata_fields (latest dss n))) else None)" for n
    by (simp add: map_of_combined latest_sort)
  then have "dom (map_of ?al) = ds_name ` set dss" by (auto simp: dom_def)
  then have k: "fst ` set ?al = ds_name ` set dss" by (simp add: dom_map_of_conv_image_fst)
  show ?thesis using sort_key_dict [OF combined_distinct, of "[]" "sort_key ds_name dss"] k m
    by (simp add: ds_names_def)
qed

lemma char_of_byte: "char_of (unat (of_char c :: byte)) = c"
proof -
  have "(of_char c :: byte) = of_nat (of_char c)" by (simp add: of_nat_of_char)
  then have "unat (of_char c :: byte) = of_char c mod 256" by (simp only: unat_of_nat_byte)
  then show ?thesis by simp
qed

lemma parse_metadata_bytes:
  assumes "list_all ds_plain dss"
  shows "parse_metadata (metadata_bytes dss) = Some (entries dss)"
proof -
  let ?m = "combined_of (sort_key ds_name dss) []"
  have "\<forall>(key, j) \<in> set ?m. reads (read_object read_text) (json_dumps j) (plain_fields j)"
  proof (clarify)
    fix key j assume "(key, j) \<in> set ?m"
    then have "(key, j) \<in> set (sort_key fst ?m)" by simp
    then obtain n where "j = JObj (metadata_fields (latest dss n))" "n \<in> ds_name ` set dss"
      by (auto simp: sort_combined ds_names_def)
    with assms show "reads (read_object read_text) (json_dumps j) (plain_fields j)"
      using reads_fields [of "latest dss n"] latest_in [of n dss] by (auto simp: ds_fields_def list_all_iff)
  qed
  from reads_dumps_object [OF this]
  have "reads (read_object (read_object read_text)) (json_dumps (JObj ?m)) (entries dss)"
    by (simp add: sort_combined entries_def ds_fields_def comp_def del: json_dumps.simps)
  then have "\<forall>(key, j) \<in> set [(''datasources'', JObj ?m)].
      reads (read_object (read_object read_text)) (json_dumps j) (entries dss)"
    by (simp del: json_dumps.simps)
  from reads_dumps_object [OF this]
  have "read_object (read_object (read_object read_text)) (json_dumps (JObj [(''datasources'', JObj ?m)]) @ []) =
      Some ([(''datasources'', entries dss)], [])"
    by (intro readsD(1)) (simp del: json_dumps.simps)
  then show ?thesis
    by (simp add: parse_metadata_def metadata_bytes_def ascii_bytes_def comp_def char_of_byte del: json_dumps.simps)
qed

section \<open>Reading the payload\<close>

text \<open>The values under the names of the metadata, in this order.\<close>

definition value_read :: "(string \<times> string) list \<Rightarrow> datasource \<Rightarrow> read_value" where
  "value_read fs ds =
     (if map_of fs ''value_type'' = Some ''float'' then VT_Float (of_int (ds_raw ds)) else VT_Int64 (of_int (ds_raw ds)))"

definition typed_fields :: "(string \<times> string) list \<Rightarrow> bool" where
  "typed_fields fs \<longleftrightarrow> map_of fs ''value_type'' = Some ''float'' \<or> map_of fs ''value_type'' = Some ''int64''"

definition typed_entries :: "entry list \<Rightarrow> datasource list \<Rightarrow> (string \<times> (string \<times> string) list \<times> read_value) list" where
  "typed_entries es xs = map2 (\<lambda>(n, fs) ds. (n, fs, value_read fs ds)) es xs"

lemma typed_value_read: "typed_fields fs \<Longrightarrow> typed_value fs (ds_raw ds) = Some (value_read fs ds)"
  by (auto simp: typed_fields_def typed_value_def value_read_def)

lemma read_values_at:
  assumes "list_all packable xs" "length es \<le> length xs" "list_all (typed_fields \<circ> snd) es"
    and "drop i cs = values_bytes xs @ t"
  shows "read_values cs i es = Inr (typed_entries es xs)"
  using assms
proof (induction es arbitrary: xs i)
  case (Cons e es)
  then obtain x xs' where xs: "xs = x # xs'" by (cases xs) auto
  obtain n fs where e: "e = (n, fs)" by (cases e)
  have d: "drop i cs = enc_be 8 (ds_raw x) @ values_bytes xs' @ t"
    using Cons.prems xs by (simp add: values_bytes_def)
  then have "length (drop i cs) \<ge> 8" by simp
  then have "i + 8 \<le> length cs" by simp
  moreover have "dec_be (bytes_at cs i 8) = ds_raw x"
    using d Cons.prems xs by (simp add: bytes_at_def packable_def dec_be_enc_be)
  moreover have "drop (i + 8) cs = values_bytes xs' @ t"
    using d by (metis append_eq_conv_conj drop_drop length_enc_be add.commute)
  then have "read_values cs (i + 8) es = Inr (typed_entries es xs')"
    by (rule Cons.IH [rotated -1]) (use Cons.prems xs in simp_all)
  ultimately show ?case
    using e xs Cons.prems by (simp add: typed_value_read typed_entries_def)
qed (simp add: typed_entries_def)

lemma value_type_field: "map_of (ds_fields ds) ''value_type'' = Some (ds_value_ty ds)"
proof -
  have d: "distinct (map fst (metadata_fields ds))" by (simp add: metadata_fields_def)
  then have "map_of (sort_key fst (metadata_fields ds)) = map_of (metadata_fields ds)"
    by (subst map_of_inject_set) (simp_all add: distinct_map)
  then have "map_of (sort_key fst (metadata_fields ds)) ''value_type'' = Some (JStr (ds_value_ty ds))"
    by (simp add: metadata_fields_def)
  then show ?thesis by (simp add: ds_fields_def plain_fields_def map_of_map)
qed

lemma typed_fields_ds: "ds_typed ds \<Longrightarrow> typed_fields (ds_fields ds)"
  by (auto simp: ds_typed_def typed_fields_def value_type_field split: ds_value.splits)

lemma typed_fields_entries:
  assumes "list_all ds_typed dss"
  shows "list_all (typed_fields \<circ> snd) (entries dss)"
  using assms typed_fields_ds latest_in [of _ dss]
  by (auto simp: entries_def list_all_iff ds_names_def)

lemma length_entries: "length (entries dss) \<le> length dss"
proof -
  have "length (entries dss) = card (ds_name ` set dss)" by (simp add: entries_def ds_names_def)
  also have "\<dots> \<le> length dss" by (metis card_image_le card_length finite_set le_trans)
  finally show ?thesis .
qed

definition data_crc_of :: "f64 \<Rightarrow> datasource list \<Rightarrow> 32 word" where
  "data_crc_of ts dss = crc32 (pack_double ts @ values_bytes (sort_key ds_name dss)) 0"

lemma bytes_at_skip: "length a = i \<Longrightarrow> bytes_at (a @ b) (i + j) n = bytes_at b j n"
  by (simp add: bytes_at_def)

lemma bytes_at_here: "length a = n \<Longrightarrow> bytes_at (a @ b) 0 n = a"
  by (simp add: bytes_at_def)

lemma payload_parts:
  fixes ts :: f64 and dss :: "datasource list" and rest :: bytes
  assumes "length dss < 2 ^ 32"
  defines "cs \<equiv> payload ts dss @ rest"
  shows "bytes_at cs 0 11 = ascii_bytes ''DATASOURCES''"
    "of_int (dec_be (bytes_at cs 11 4)) = data_crc_of ts dss"
    "of_int (dec_be (bytes_at cs 15 4)) = crc32 (metadata_bytes dss) 0"
    "dec_be (bytes_at cs 19 4) = int (length dss)"
    "of_int (dec_be (bytes_at cs 23 8)) = ts"
    "bytes_at cs 23 (8 + 8 * length dss) = pack_double ts @ values_bytes (sort_key ds_name dss)"
    "drop 31 cs = values_bytes (sort_key ds_name dss) @ enc_be 4 (int (length (metadata_bytes dss))) @ metadata_bytes dss @ rest"
    "31 + 8 * length dss + 4 + length (metadata_bytes dss) \<le> length cs"
proof -
  have l: "length (ascii_bytes ''DATASOURCES'') = 11" by (simp add: ascii_bytes_def)
  have f: "fits 4 (int (length dss))" using assms(1) by (simp add: fits_length)
  note parts = cs_def payload_def payload_head_def payload_body_def data_crc_of_def bytes_at_def l
    pack_double_def dec_be_enc_be fits_uint32 fits_uint64 f
  show "bytes_at cs 0 11 = ascii_bytes ''DATASOURCES''"
    "of_int (dec_be (bytes_at cs 11 4)) = data_crc_of ts dss"
    "of_int (dec_be (bytes_at cs 15 4)) = crc32 (metadata_bytes dss) 0"
    "dec_be (bytes_at cs 19 4) = int (length dss)"
    "of_int (dec_be (bytes_at cs 23 8)) = ts"
    "bytes_at cs 23 (8 + 8 * length dss) = pack_double ts @ values_bytes (sort_key ds_name dss)"
    "drop 31 cs = values_bytes (sort_key ds_name dss) @ enc_be 4 (int (length (metadata_bytes dss))) @ metadata_bytes dss @ rest"
    "31 + 8 * length dss + 4 + length (metadata_bytes dss) \<le> length cs"
    by (simp_all add: parts)
qed

lemma metadata_parts:
  fixes cs :: bytes
  assumes "drop 31 cs = vs @ enc_be 4 (int (length md)) @ md @ rest" "length vs = 8 * n" "length md < 2 ^ 32"
  shows "nat (dec_be (bytes_at cs (31 + 8 * n) 4)) = length md" "bytes_at cs (35 + 8 * n) (length md) = md"
proof -
  have "drop (31 + 8 * n) cs = drop (8 * n) (drop 31 cs)" "drop (35 + 8 * n) cs = drop (4 + 8 * n) (drop 31 cs)"
    by (simp_all add: add.commute)
  with assms show "nat (dec_be (bytes_at cs (31 + 8 * n) 4)) = length md" "bytes_at cs (35 + 8 * n) (length md) = md"
    by (simp_all add: bytes_at_def dec_be_enc_be fits_length)
qed

lemma read_payload_written:
  fixes ts :: f64 and dss :: "datasource list"
  assumes "list_all packable dss" "list_all ds_typed dss" "list_all ds_plain dss" "sizes_fit dss"
    and "data_crc_of ts dss \<noteq> last_data_crc r"
    and "crc32 (metadata_bytes dss) 0 = last_metadata_crc r \<Longrightarrow> cached r = entries dss"
  shows "read_payload (payload ts dss @ rest) r =
    (Inr (ts, typed_entries (entries dss) (sort_key ds_name dss)),
     \<lparr>last_data_crc = data_crc_of ts dss, last_metadata_crc = crc32 (metadata_bytes dss) 0, cached = entries dss\<rparr>)"
proof -
  define cs where "cs = payload ts dss @ rest"
  have n: "length dss < 2 ^ 32" and m: "length (metadata_bytes dss) < 2 ^ 32"
    using assms(4) by (simp_all add: sizes_fit_def)
  note parts = payload_parts [OF n, of ts rest, folded cs_def]
  have vs: "read_values cs 31 (entries dss) = Inr (typed_entries (entries dss) (sort_key ds_name dss))"
    by (rule read_values_at [OF _ _ typed_fields_entries [OF assms(2)] parts(7)])
      (simp_all add: assms(1) length_entries)
  note md = metadata_parts [OF parts(7), of "length dss", simplified]
  show ?thesis
    unfolding cs_def [symmetric]
    using parts(1-6,8) vs md m assms(5,6) parse_metadata_bytes [OF assms(3)]
    by (auto simp: read_payload_def Let_def st_simps bnd_def data_crc_of_def)
qed

section \<open>Waiting\<close>

definition retry :: "'k rrd_env \<Rightarrow> rat \<Rightarrow> 'k plugin \<Rightarrow> 'k plugin" where
  "retry ev neg_shift s = snd (nap ev 5 (snd (wait_once ev neg_shift s)))"

definition unreachable :: "'k rrd_env \<Rightarrow> rat \<Rightarrow> 'k plugin \<Rightarrow> bool" where
  "unreachable ev neg_shift s \<longleftrightarrow> fst (wait_once ev neg_shift s) = Inl Rrd_OSError"

text \<open>The round that ends the loop.\<close>

definition ends_in :: "'k rrd_env \<Rightarrow> rat \<Rightarrow> 'k plugin \<Rightarrow> nat \<Rightarrow> bool" where
  "ends_in ev neg_shift s n \<longleftrightarrow>
     (\<forall>i<n. unreachable ev neg_shift ((retry ev neg_shift ^^ i) s)) \<and>
     \<not> unreachable ev neg_shift ((retry ev neg_shift ^^ n) s)"

lemma wait_step:
  "wait_until_next_reading ev ns s =
     (if unreachable ev ns s then wait_until_next_reading ev ns (retry ev ns s) else Some (wait_once ev ns s))"
  by (subst wait_until_next_reading.simps) (simp add: unreachable_def retry_def split: prod.split)

lemma ends_in_Suc: "unreachable ev ns s \<Longrightarrow> ends_in ev ns (retry ev ns s) n \<longleftrightarrow> ends_in ev ns s (Suc n)"
  unfolding ends_in_def by (auto simp: funpow_Suc_right less_Suc_eq_0_disj simp del: funpow.simps)

lemma wait_ends: "ends_in ev ns s n \<Longrightarrow> wait_until_next_reading ev ns s = Some (wait_once ev ns ((retry ev ns ^^ n) s))"
proof (induction n arbitrary: s)
  case 0
  then show ?case by (simp add: ends_in_def wait_step)
next
  case (Suc n)
  then have u: "unreachable ev ns s" by (auto simp: ends_in_def)
  with Suc have "wait_until_next_reading ev ns (retry ev ns s) = Some (wait_once ev ns ((retry ev ns ^^ n) (retry ev ns s)))"
    by (simp add: ends_in_Suc)
  with u show ?case by (simp add: wait_step [of ev ns s] funpow_swap1)
qed

lemma wait_ended:
  assumes "wait_until_next_reading ev ns s = Some res"
  shows "\<exists>n. ends_in ev ns s n"
proof (rule wait_until_next_reading.raw_induct
    [where P = "\<lambda>ev ns s res. \<exists>n. ends_in ev ns s n", OF _ assms])
  fix wait and ev :: "'a rrd_env" and ns s res
  assume IH: "\<And>ev ns s res. wait ev ns s = Some res \<Longrightarrow> \<exists>n. ends_in ev ns s n"
    and body: "(case wait_once ev ns s of (r, s') \<Rightarrow>
        if r = Inl Rrd_OSError then wait ev ns (snd (nap ev 5 s')) else Some (r, s')) = Some res"
  show "\<exists>n. ends_in ev ns s n"
  proof (cases "unreachable ev ns s")
    case True
    then have "wait ev ns (retry ev ns s) = Some res"
      using body by (auto simp: unreachable_def retry_def split: prod.splits if_splits)
    then obtain n where "ends_in ev ns (retry ev ns s) n" using IH by blast
    with True show ?thesis by (auto simp: ends_in_Suc)
  next
    case False
    then show ?thesis by (auto simp: ends_in_def intro!: exI [of _ 0])
  qed
qed

lemma wait_iff:
  "wait_until_next_reading ev ns s = Some res \<longleftrightarrow>
     (\<exists>n. ends_in ev ns s n \<and> res = wait_once ev ns ((retry ev ns ^^ n) s))"
  using wait_ends wait_ended by fastforce

section \<open>What the calls keep\<close>

lemma keeps_rrd_request: "(\<And>s k. P (s\<lparr>daemon := k\<rparr>) = P s) \<Longrightarrow> keeps P (request ev m ps)"
  by (auto simp: keeps_def request_def split: prod.split)

text \<open>The parts of a plugin that the calls before an update do not touch.\<close>

definition same_plugin :: "'k plugin \<Rightarrow> 'k plugin \<Rightarrow> bool" where
  "same_plugin s t \<longleftrightarrow> datasources t = datasources s \<and> uid t = uid s \<and> frequency t = frequency s \<and>
     frequency_in_seconds t = frequency_in_seconds s"

lemma same_plugin_trans: "same_plugin s t \<Longrightarrow> same_plugin t u \<Longrightarrow> same_plugin s u"
  by (simp add: same_plugin_def)

lemma keeps_lazy_init:
  assumes "\<And>s k. P (s\<lparr>daemon := k\<rparr>) = P s" "\<And>s x. P (s\<lparr>header := x\<rparr>) = P s" "\<And>s x. P (s\<lparr>plugin_path := x\<rparr>) = P s"
    "\<And>s x f. P (s\<lparr>dest := x, disk := f\<rparr>) = P s"
  shows "keeps P (lazy_complete_init ev)"
  unfolding lazy_complete_init_def
  by (intro keeps_intros keeps_rrd_request keeps_modify) (auto simp: assms keeps_def throw_def split: rval.split)

lemma keeps_register: "(\<And>s k. P (s\<lparr>daemon := k\<rparr>) = P s) \<Longrightarrow> keeps P (register ev)"
  unfolding register_def by (intro keeps_intros keeps_rrd_request)

lemma nap_same: "same_plugin s (snd (nap ev t s))"
  by (simp add: nap_def modify_def same_plugin_def)

lemma wait_once_same: "same_plugin s (snd (wait_once ev ns s))"
proof -
  have "keeps (same_plugin s) (wait_once ev ns)"
    unfolding wait_once_def nap_def
    by (intro keeps_intros keeps_lazy_init keeps_register)
      (auto simp: same_plugin_def Let_def keeps_def st_simps bnd_def split: rval.split)
  then show ?thesis by (auto simp: keeps_def same_plugin_def)
qed

lemma retry_same: "same_plugin s ((retry ev ns ^^ n) s)"
proof (induction n)
  case (Suc n)
  have "same_plugin t (retry ev ns t)" for t
    unfolding retry_def by (rule same_plugin_trans [OF wait_once_same nap_same])
  with Suc show ?case by (auto intro: same_plugin_trans)
qed (simp add: same_plugin_def)

lemma wait_same: "wait_until_next_reading ev ns s = Some (r, t) \<Longrightarrow> same_plugin s t"
  by (metis wait_iff retry_same wait_once_same same_plugin_trans snd_conv)

end
