(* ===== verification/Rrdd_Properties.thy ===== *)
theory Rrdd_Properties
  imports Rrdd_Proofs
begin

text \<open>
  The properties of metrics plugins: the daemon reads what an update wrote,
  what goes wrong when names repeat or a value does not fit, and when waiting
  returns.
\<close>

section \<open>Helpers\<close>

definition read_ds :: "datasource \<Rightarrow> string \<times> (string \<times> string) list \<times> read_value" where
  "read_ds ds = (ds_name ds, ds_fields ds, case ds_val ds of VFloat x \<Rightarrow> VT_Float x | VInt n \<Rightarrow> VT_Int64 (of_int n))"

lemma value_read_own: "ds_typed ds \<Longrightarrow> (ds_name ds, ds_fields ds, value_read (ds_fields ds) ds) = read_ds ds"
  by (auto simp: ds_typed_def value_read_def read_ds_def value_type_field ds_raw_def split: ds_value.splits)

lemma ds_entries_distinct:
  assumes "distinct (map ds_name dss)"
  shows "entries dss = map (\<lambda>ds. (ds_name ds, ds_fields ds)) (sort_key ds_name dss)"
proof -
  have d: "distinct (map ds_name (sort_key ds_name dss))" using assms by (simp add: distinct_map)
  have "ds_names dss = map ds_name (sort_key ds_name dss)"
    using sorted_list_of_set.idem_if_sorted_distinct [of "map ds_name (sort_key ds_name dss)"] d
    by (simp add: ds_names_def)
  moreover have "latest dss (ds_name ds) = ds" if "ds \<in> set dss" for ds
  proof -
    have "latest dss (ds_name ds) \<in> set dss \<and> ds_name (latest dss (ds_name ds)) = ds_name ds"
      using that by (intro latest_in) simp
    with that assms show ?thesis by (auto simp: distinct_map dest: inj_onD)
  qed
  ultimately show ?thesis by (simp add: entries_def)
qed

lemma map2_same: "map2 f (map g xs) (map h xs) = map (\<lambda>x. f (g x) (h x)) xs"
  by (induction xs) simp_all

lemma typed_entries_distinct:
  assumes "distinct (map ds_name dss)" "list_all ds_typed dss"
  shows "typed_entries (entries dss) (sort_key ds_name dss) = map read_ds (sort_key ds_name dss)"
  using map2_same [of "\<lambda>(n, fs) ds. (n, fs, value_read fs ds)" "\<lambda>ds. (ds_name ds, ds_fields ds)" _ "\<lambda>ds. ds"] assms
  by (simp add: ds_entries_distinct typed_entries_def value_read_own list_all_iff)

text \<open>A reader to which the payload is new and whose cache fits it.\<close>

definition reader_ready :: "reader \<Rightarrow> f64 \<Rightarrow> datasource list \<Rightarrow> bool" where
  "reader_ready r ts dss \<longleftrightarrow> data_crc_of ts dss \<noteq> last_data_crc r \<and>
     (crc32 (metadata_bytes dss) 0 = last_metadata_crc r \<longrightarrow> cached r = entries dss)"

definition publishable :: "'k plugin \<Rightarrow> string \<Rightarrow> bool" where
  "publishable s path \<longleftrightarrow> (\<exists>p c. dest s = Some (path, p) \<and> disk s path = Some c) \<and>
     list_all packable (datasources s) \<and> list_all ds_typed (datasources s) \<and>
     list_all ds_plain (datasources s) \<and> sizes_fit (datasources s)"

lemma update_then_read:
  assumes "publishable s path" "reader_ready r (rrd_time ev (daemon s)) (datasources s)"
  shows "\<exists>s' file. update ev s = (Inr (), s') \<and> datasources s' = [] \<and> disk s' path = Some file \<and>
     (\<forall>q. q \<noteq> path \<longrightarrow> disk s' q = disk s q) \<and>
     fst (read_payload file r) =
       Inr (rrd_time ev (daemon s), typed_entries (entries (datasources s)) (sort_key ds_name (datasources s)))"
proof -
  obtain p c where "dest s = Some (path, p)" "disk s path = Some c"
    using assms(1) by (auto simp: publishable_def)
  from update_ok [OF this] read_payload_written [of "datasources s" "rrd_time ev (daemon s)" r] assms
  show ?thesis by (auto simp: publishable_def reader_ready_def)
qed

lemma wait_once_error: "wait_once ev ns s = (Inl e, t) \<Longrightarrow> naps t = naps s"
proof -
  have l: "keeps (\<lambda>t. naps t = naps s) (lazy_complete_init ev)"
    by (rule keeps_lazy_init) simp_all
  have g: "keeps (\<lambda>t. naps t = naps s) (register ev)"
    by (rule keeps_register) simp
  assume "wait_once ev ns s = (Inl e, t)"
  then show ?thesis
    unfolding wait_once_def seq_def
  proof (elim bnd_InlE)
    assume "lazy_complete_init ev s = (Inl e, t)"
    with keepsD [OF l, of s] show ?thesis by simp
  next
    fix x s' assume i: "lazy_complete_init ev s = (Inr x, s')" and "register ev s' = (Inl e, t)"
    with keepsD [OF l, of s] keepsD [OF g, of s'] show ?thesis by simp
  next
    fix x s' r s''
    assume i: "lazy_complete_init ev s = (Inr x, s')" "register ev s' = (Inr r, s'')"
      and e: "(case r of RNum next_read \<Rightarrow> bnd (gets frequency_in_seconds) (\<lambda>secs.
          let wait_time = next_read - ns in nap ev (if wait_time < 0 then py_mod wait_time secs else wait_time))
        | _ \<Rightarrow> throw Rrd_TypeError) s'' = (Inl e, t)"
    have "naps s'' = naps s" using keepsD [OF l, of s] keepsD [OF g, of s'] i by simp
    with e show ?thesis by (auto simp: st_simps bnd_def Let_def nap_def split: rval.splits)
  qed
qed

lemma retry_naps:
  assumes "\<forall>i<n. unreachable ev ns ((retry ev ns ^^ i) s)"
  shows "naps ((retry ev ns ^^ n) s) = naps s @ replicate n 5"
  using assms
proof (induction n)
  case (Suc n)
  let ?t = "(retry ev ns ^^ n) s"
  have "unreachable ev ns ?t" using Suc.prems by simp
  then obtain u where "wait_once ev ns ?t = (Inl Rrd_OSError, u)" by (metis unreachable_def prod.collapse)
  then have "naps (retry ev ns ?t) = naps ?t @ [5]"
    using wait_once_error by (fastforce simp: retry_def nap_def modify_def)
  with Suc show ?case by (simp add: replicate_append_same)
qed simp

lemma py_mod_bounds:
  assumes "0 < m"
  shows "0 \<le> py_mod x m" "py_mod x m < m"
proof -
  show "0 \<le> py_mod x m" "py_mod x m < m"
    using floor_divide_lower [OF assms, of x] floor_divide_upper [OF assms, of x]
    by (simp_all add: py_mod_def algebra_simps)
qed

lemma register_dest: "keeps (\<lambda>t. dest t = d) (register ev)"
  by (rule keeps_register) simp

lemma lazy_init_done: "lazy_complete_init ev s = (Inr x, t) \<Longrightarrow> dest t \<noteq> None"
  by (auto simp: lazy_complete_init_def st_simps bnd_def split: prod.splits sum.splits rval.splits if_splits)

lemma wait_once_done:
  assumes "wait_once ev ns s = (Inr (), t)"
  obtains u u' nr where "dest u \<noteq> None" "register ev u = (Inr (RNum nr), u')" "dest t = dest u'"
    "naps t = naps s @ [if nr - ns < 0 then py_mod (nr - ns) (frequency_in_seconds s) else nr - ns]"
proof -
  have l: "keeps (\<lambda>t. naps t = naps s \<and> frequency_in_seconds t = frequency_in_seconds s) (lazy_complete_init ev)"
    by (rule keeps_lazy_init) simp_all
  have g: "keeps (\<lambda>t. naps t = naps s \<and> frequency_in_seconds t = frequency_in_seconds s) (register ev)"
    by (rule keeps_register) simp
  from assms obtain u r u' where i: "lazy_complete_init ev s = (Inr (), u)" "register ev u = (Inr r, u')"
    and e: "(case r of RNum next_read \<Rightarrow> bnd (gets frequency_in_seconds) (\<lambda>secs.
          let wait_time = next_read - ns in nap ev (if wait_time < 0 then py_mod wait_time secs else wait_time))
        | _ \<Rightarrow> throw Rrd_TypeError) u' = (Inr (), t)"
    unfolding wait_once_def seq_def by (elim bnd_InrE) auto
  have "naps u' = naps s \<and> frequency_in_seconds u' = frequency_in_seconds s"
    using keepsD [OF l, of s] keepsD [OF g, of u] i by simp
  moreover obtain nr where "r = RNum nr" using e by (cases r) (simp_all add: throw_def)
  moreover have "dest u \<noteq> None" using i(1) by (rule lazy_init_done)
  ultimately show thesis
    using that [of u nr u'] i(2) e by (auto simp: nap_def st_simps bnd_def Let_def)
qed

lemma py_mod_shift: "\<exists>k::int. py_mod x m = x + m * of_int k"
  by (rule exI [of _ "- \<lfloor>x / m\<rfloor>"]) (simp add: py_mod_def)

section \<open>Properties\<close>

text \<open>
  A host in which the daemon does not answer the first call, and a plugin on it.
\<close>

definition demo_rrd :: "nat rrd_env" where
  "demo_rrd = \<lparr>
     rrd_rpc = (\<lambda>m ps k.
       (if k = 0 then Inl Rrd_OSError
        else Inr (RDict [(''Status'', RStr ''Success''),
               (''Value'', if m = ''Plugin.register'' then RNum (1 / 2) else RStr ''/m/p'')]), Suc k)),
     rrd_open = (\<lambda>p k. True), rrd_time = (\<lambda>k. 0x41D0000000000000), rrd_sleep = (\<lambda>t k. k)\<rparr>"

definition demo_source :: "string \<Rightarrow> ds_value \<Rightarrow> datasource" where
  "demo_source n v = \<lparr>ds_name = n, ds_val = v, ds_description = ''d'', ds_units = ''B'', ds_ty = ''gauge'',
     ds_owner = ''host'', ds_value_ty = (case v of VFloat x \<Rightarrow> ''float'' | VInt k \<Rightarrow> ''int64''),
     ds_min = JStr ''0.0'', ds_max = JStr ''inf''\<rparr>"

definition demo_plugin :: "datasource list \<Rightarrow> nat plugin" where
  "demo_plugin dss = \<lparr>uid = ''p'', datasources = dss, frequency = ''Five_Seconds'', frequency_in_seconds = 5,
     header = None, plugin_path = None, dest = Some (''/m/p'', 0), disk = [''/m/p'' \<mapsto> []], daemon = 0, naps = []\<rparr>"

definition demo_two :: "datasource list" where
  "demo_two = [demo_source ''b'' (VInt 7), demo_source ''a'' (VFloat 0x3FF8000000000000)]"

definition demo_same :: "datasource list" where
  "demo_same = [demo_source ''a'' (VInt 7), demo_source ''a'' (VFloat 0x3FF8000000000000)]"

lemma demo_sizes: "sizes_fit demo_two" "sizes_fit demo_same"
proof -
  have "int (length (metadata_bytes demo_two)) < 4294967296 \<and> int (length demo_two) < 4294967296" by code_simp
  then show "sizes_fit demo_two" by (simp add: sizes_fit_def)
  have "int (length (metadata_bytes demo_same)) < 4294967296 \<and> int (length demo_same) < 4294967296" by code_simp
  then show "sizes_fit demo_same" by (simp add: sizes_fit_def)
qed

lemma demo_publishable: "publishable (demo_plugin demo_two) ''/m/p''" "publishable (demo_plugin demo_same) ''/m/p''"
proof -
  have "list_all packable demo_two \<and> list_all ds_typed demo_two \<and> list_all ds_plain demo_two" by code_simp
  then show "publishable (demo_plugin demo_two) ''/m/p''" by (simp add: publishable_def demo_plugin_def demo_sizes)
  have "list_all packable demo_same \<and> list_all ds_typed demo_same \<and> list_all ds_plain demo_same" by code_simp
  then show "publishable (demo_plugin demo_same) ''/m/p''" by (simp add: publishable_def demo_plugin_def demo_sizes)
qed

text \<open>Fields are evaluated on integers, which are binary.\<close>

fun be_int_bytes :: "nat \<Rightarrow> int \<Rightarrow> bytes" where
  "be_int_bytes 0 v = []"
| "be_int_bytes (Suc k) v = be_int_bytes k (v div 256) @ [of_int v]"

lemma enc_be_code [code]: "enc_be k v = be_int_bytes k (max 0 v)"
proof -
  have "be_bytes k (nat v) = be_int_bytes k v" if "0 \<le> v" for v
    using that
  proof (induction k arbitrary: v)
    case (Suc k)
    have "be_bytes k (nat (v div 256)) = be_int_bytes k (v div 256)"
      using Suc.prems by (intro Suc.IH) (simp add: pos_imp_zdiv_nonneg_iff)
    moreover have "of_nat (nat v) = (of_int v :: byte)" using Suc.prems by simp
    moreover have "nat v div 256 = nat (v div 256)" using Suc.prems by (simp add: nat_div_distrib)
    ultimately show ?case by simp
  qed simp
  from this [of "max 0 v"] show ?thesis by (cases "0 \<le> v") (simp_all add: enc_be_def max_def)
qed

text \<open>A daemon that has read the same metadata before.\<close>

definition demo_reader :: "datasource list \<Rightarrow> reader" where
  "demo_reader dss =
     \<lparr>last_data_crc = 0, last_metadata_crc = crc32 (metadata_bytes dss) 0, cached = entries dss\<rparr>"

lemma demo_crcs:
  "crc32 (pack_double 0x41D0000000000000) 0 = 0x2BD61E5F"
  "crc32 (enc_be 8 0x3FF8000000000000) 0x2BD61E5F = 0xA7CF0DD8" "crc32 (enc_be 8 7) 0xA7CF0DD8 = 0x6DD0A944"
  "crc32 (enc_be 8 7) 0x2BD61E5F = 0x32D7AD14" "crc32 (enc_be 8 0x3FF8000000000000) 0x32D7AD14 = 0x6409A008"
  by code_simp+

lemma demo_ready:
  "reader_ready (demo_reader demo_two) 0x41D0000000000000 demo_two"
  "reader_ready (demo_reader demo_same) 0x41D0000000000000 demo_same"
proof -
  have "values_bytes (sort_key ds_name demo_two) = enc_be 8 0x3FF8000000000000 @ enc_be 8 7"
    and "values_bytes (sort_key ds_name demo_same) = enc_be 8 7 @ enc_be 8 0x3FF8000000000000"
    by code_simp+
  then show "reader_ready (demo_reader demo_two) 0x41D0000000000000 demo_two"
    "reader_ready (demo_reader demo_same) 0x41D0000000000000 demo_same"
    by (simp_all add: reader_ready_def demo_reader_def data_crc_of_def crc32_append demo_crcs)
qed

text \<open>
  C14: an update writes a file from which the daemon reads the time and every data
  source, in the order of the names, with its metadata and its value bit by
  bit; other files stay as they are and the list of data sources is empty again.
\<close>

theorem daemon_reads_update:
  fixes ev :: "'k rrd_env"
  assumes "publishable s path" "distinct (map ds_name (datasources s))"
    and "reader_ready r (rrd_time ev (daemon s)) (datasources s)"
  shows "\<exists>s' file. update ev s = (Inr (), s') \<and> datasources s' = [] \<and> disk s' path = Some file \<and>
     (\<forall>q. q \<noteq> path \<longrightarrow> disk s' q = disk s q) \<and>
     fst (read_payload file r) =
       Inr (rrd_time ev (daemon s), map read_ds (sort_key ds_name (datasources s)))"
  using update_then_read [OF assms(1,3)] typed_entries_distinct [OF assms(2)] assms(1)
  by (simp add: publishable_def)

text \<open>
  When two data sources have one name, the update succeeds too, but the file
  counts more values than it describes: the k-th name is read with the k-th
  value, so that values appear under names they do not belong to and the
  last ones are lost.
\<close>

theorem repeated_name_shifts_values:
  fixes ev :: "'k rrd_env"
  assumes "publishable s path" "\<not> distinct (map ds_name (datasources s))"
    and "reader_ready r (rrd_time ev (daemon s)) (datasources s)"
  shows "\<exists>s' file vs. update ev s = (Inr (), s') \<and> disk s' path = Some file \<and>
     fst (read_payload file r) = Inr (rrd_time ev (daemon s), vs) \<and>
     length vs < length (datasources s) \<and> map fst vs = ds_names (datasources s) \<and>
     (\<forall>k < length vs. snd (snd (vs ! k)) =
        value_read (fst (snd (vs ! k))) (sort_key ds_name (datasources s) ! k))"
proof -
  let ?dss = "datasources s"
  let ?vs = "typed_entries (entries ?dss) (sort_key ds_name ?dss)"
  have "card (ds_name ` set ?dss) < length ?dss"
    using assms(2) card_distinct [of "map ds_name ?dss"] card_length [of "map ds_name ?dss"] by fastforce
  then have l: "length (entries ?dss) < length ?dss" by (simp add: entries_def ds_names_def)
  then have "length ?vs < length ?dss" by (simp add: typed_entries_def)
  moreover have "map fst ?vs = ds_names ?dss"
    using l by (intro nth_equalityI) (auto simp: typed_entries_def entries_def)
  moreover have "\<forall>k < length ?vs. snd (snd (?vs ! k)) = value_read (fst (snd (?vs ! k))) (sort_key ds_name ?dss ! k)"
    by (simp add: typed_entries_def entries_def)
  ultimately show ?thesis using update_then_read [OF assms(1,3)] by blast
qed

theorem daemon_reads_update_witness:
  "\<exists>s' file. update demo_rrd (demo_plugin demo_two) = (Inr (), s') \<and> disk s' ''/m/p'' = Some file \<and>
     fst (read_payload file (demo_reader demo_two)) =
       Inr (0x41D0000000000000, map read_ds [demo_source ''a'' (VFloat 0x3FF8000000000000), demo_source ''b'' (VInt 7)])"
proof -
  have "distinct (map ds_name demo_two)" by code_simp
  moreover have "sort_key ds_name demo_two = [demo_source ''a'' (VFloat 0x3FF8000000000000), demo_source ''b'' (VInt 7)]"
    by code_simp
  ultimately show ?thesis
    using daemon_reads_update [OF demo_publishable(1), of "demo_reader demo_two" demo_rrd] demo_ready(1)
    by (auto simp: demo_plugin_def demo_rrd_def)
qed

theorem repeated_name_shifts_values_witness:
  "\<exists>s' file vs. update demo_rrd (demo_plugin demo_same) = (Inr (), s') \<and> disk s' ''/m/p'' = Some file \<and>
     fst (read_payload file (demo_reader demo_same)) = Inr (0x41D0000000000000, vs) \<and> length vs < 2"
proof -
  have "\<not> distinct (map ds_name demo_same)" by code_simp
  moreover have "length demo_same = 2" by (simp add: demo_same_def)
  ultimately show ?thesis
    using repeated_name_shifts_values [OF demo_publishable(2), of "demo_reader demo_same" demo_rrd] demo_ready(2)
    by (auto simp: demo_plugin_def demo_rrd_def)
qed

text \<open>Everything that can happen to a plugin after a state.\<close>

inductive plugin_run :: "'k rrd_env \<Rightarrow> 'k plugin \<Rightarrow> 'k plugin \<Rightarrow> bool" for ev s where
  start: "plugin_run ev s s"
| set: "plugin_run ev s t \<Longrightarrow> plugin_run ev s (snd (set_datasource n v d u ty ow vty lo hi t))"
| wait: "plugin_run ev s t \<Longrightarrow> wait_until_next_reading ev ns t = Some (r, t') \<Longrightarrow> plugin_run ev s t'"
| update: "plugin_run ev s t \<Longrightarrow> plugin_run ev s (snd (update ev t))"
| deregister: "plugin_run ev s t \<Longrightarrow> plugin_run ev s (snd (deregister ev t))"
| next_reading: "plugin_run ev s t \<Longrightarrow> plugin_run ev s (snd (next_reading ev t))"

lemma update_fails:
  assumes "\<not> list_all packable (datasources t)"
  shows "update ev t = (Inl Rrd_StructError, t)"
  using assms by (simp add: update_def gets_def bnd_Inr lift_sum_def sfold_update bnd_def)

text \<open>
  One integer that is negative or too large makes every later update raise
  \<^verbatim>\<open>struct.error\<close> without writing anything, whatever is called in between: the
  data sources are only removed at the end of an update that succeeds.
\<close>

theorem unpackable_value_blocks_updates:
  fixes ev :: "'k rrd_env"
  assumes "plugin_run ev s t" "\<exists>ds \<in> set (datasources s). \<not> packable ds"
  shows "update ev t = (Inl Rrd_StructError, t)"
proof -
  from assms have "\<not> list_all packable (datasources t)"
  proof induction
    case (set t n v d u ty ow vty lo hi)
    then show ?case
      by (auto simp: set_datasource_def bnd_def lift_sum_def modify_def split: sum.split)
  next
    case (wait t ns r t')
    then show ?case using wait_same by (fastforce simp: same_plugin_def)
  next
    case (update t)
    then show ?case by (simp add: update_fails)
  qed (auto simp: list_all_iff deregister_def next_reading_def gets_def bnd_def request_def split: prod.split)
  then show ?thesis by (rule update_fails)
qed

theorem unpackable_value_blocks_updates_witness:
  "update demo_rrd (snd (update demo_rrd (demo_plugin [demo_source ''a'' (VInt (- 1))]))) =
     (Inl Rrd_StructError, demo_plugin [demo_source ''a'' (VInt (- 1))])"
proof -
  let ?s = "demo_plugin [demo_source ''a'' (VInt (- 1))]"
  have bad: "\<exists>ds \<in> set (datasources ?s). \<not> packable ds"
    by (simp add: demo_plugin_def demo_source_def packable_def ds_raw_def fits_def)
  have one: "update demo_rrd ?s = (Inl Rrd_StructError, ?s)"
    by (rule unpackable_value_blocks_updates [OF plugin_run.start bad])
  from one show ?thesis by (simp only: snd_conv)
qed

text \<open>
  C15: \<^verbatim>\<open>wait_until_next_reading\<close> returns if and only if some round does not fail
  with \<^verbatim>\<open>OSError\<close>. When it returns normally, it has slept five seconds for each
  failed round, and then from the shifted time of the next reading: exactly
  that time when it is not negative, otherwise the time modulo the
  frequency; the file is open.
\<close>

lemma waiting_never_returns:
  "wait_until_next_reading ev ns s = None \<longleftrightarrow> (\<forall>n. unreachable ev ns ((retry ev ns ^^ n) s))"
proof
  assume none: "wait_until_next_reading ev ns s = None"
  have "unreachable ev ns ((retry ev ns ^^ n) s)" for n
  proof (induction n rule: less_induct)
    case (less n)
    then show ?case using none wait_ends [of ev ns s n] by (auto simp: ends_in_def)
  qed
  then show "\<forall>n. unreachable ev ns ((retry ev ns ^^ n) s)" ..
next
  assume "\<forall>n. unreachable ev ns ((retry ev ns ^^ n) s)"
  then show "wait_until_next_reading ev ns s = None"
    using wait_ended [of ev ns s] by (cases "wait_until_next_reading ev ns s") (auto simp: ends_in_def)
qed

lemma waiting_slept:
  assumes "frequency_in_seconds s = 5" "wait_until_next_reading ev ns s = Some (Inr (), t)"
  obtains n w nr u u' where "naps t = naps s @ replicate n 5 @ [w]" "dest t \<noteq> None"
    "register ev u = (Inr (RNum nr), u')" "\<forall>i<n. unreachable ev ns ((retry ev ns ^^ i) s)"
    "0 \<le> w" "ns \<le> nr \<longrightarrow> w = nr - ns" "nr < ns \<longrightarrow> w < 5 \<and> (\<exists>k::int. w = nr - ns + 5 * of_int k)"
proof -
  from assms(2) obtain n where n: "ends_in ev ns s n" "wait_once ev ns ((retry ev ns ^^ n) s) = (Inr (), t)"
    by (metis wait_iff)
  let ?u = "(retry ev ns ^^ n) s"
  from n(1) have u: "\<forall>i<n. unreachable ev ns ((retry ev ns ^^ i) s)" by (simp add: ends_in_def)
  have f: "frequency_in_seconds ?u = 5"
    using retry_same [where s = s and ev = ev and ns = ns and n = n] assms(1) by (simp add: same_plugin_def)
  from wait_once_done [OF n(2)] obtain v v' nr where
    v: "dest v \<noteq> None" "register ev v = (Inr (RNum nr), v')" "dest t = dest v'"
    "naps t = naps ?u @ [if nr - ns < 0 then py_mod (nr - ns) (frequency_in_seconds ?u) else nr - ns]" .
  have "dest t \<noteq> None" using keepsD [OF register_dest [of "dest v" ev], of v] v(1,2,3) by simp
  moreover have "naps t = naps s @ replicate n 5 @ [if nr - ns < 0 then py_mod (nr - ns) 5 else nr - ns]"
    using v(4) f retry_naps [OF u] by simp
  ultimately show thesis
    using v(2) u py_mod_bounds [of 5 "nr - ns"] py_mod_shift [of "nr - ns" 5]
    by (intro that [of n "if nr - ns < 0 then py_mod (nr - ns) 5 else nr - ns" v nr v']) auto
qed

theorem waiting_returns:
  fixes ev :: "'k rrd_env"
  assumes "frequency_in_seconds s = 5"
  shows "(wait_until_next_reading ev ns s = None \<longleftrightarrow> (\<forall>n. unreachable ev ns ((retry ev ns ^^ n) s))) \<and>
    (\<forall>t. wait_until_next_reading ev ns s = Some (Inr (), t) \<longrightarrow>
      (\<exists>n w nr u u'. naps t = naps s @ replicate n 5 @ [w] \<and> dest t \<noteq> None \<and>
        register ev u = (Inr (RNum nr), u') \<and>
        (\<forall>i<n. unreachable ev ns ((retry ev ns ^^ i) s)) \<and>
        0 \<le> w \<and> (ns \<le> nr \<longrightarrow> w = nr - ns) \<and> (nr < ns \<longrightarrow> w < 5 \<and> (\<exists>k::int. w = nr - ns + 5 * of_int k))))"
  using waiting_never_returns waiting_slept [OF assms] by metis

theorem waiting_returns_witness:
  "\<exists>t n w. wait_until_next_reading demo_rrd 1 (demo_plugin []) = Some (Inr (), t) \<and>
     naps t = [5, 9 / 2] \<and> naps t = replicate n 5 @ [w] \<and> w < 5"
proof -
  let ?s = "demo_plugin []" and ?t = "(demo_plugin [])\<lparr>daemon := 2, naps := [5, 9 / 2]\<rparr>"
  note defs = wait_once_def lazy_complete_init_def register_def request_def dispatcher_name_def nap_def
    demo_rrd_def demo_plugin_def st_simps bnd_def parse_rrd_result_def py_mod_def
  have 1: "wait_once demo_rrd 1 ?s = (Inl Rrd_OSError, ?s\<lparr>daemon := 1\<rparr>)" by (simp add: defs)
  have 2: "wait_once demo_rrd 1 (?s\<lparr>daemon := 1, naps := [5]\<rparr>) = (Inr (), ?t)"
  proof -
    have "\<lfloor>- (1 / 10) :: rat\<rfloor> = - 1" by (rule floor_unique) simp_all
    then show ?thesis by (simp add: defs)
  qed
  have "retry demo_rrd 1 ?s = ?s\<lparr>daemon := 1, naps := [5]\<rparr>"
    by (simp add: retry_def 1) (simp add: defs)
  then have w: "wait_until_next_reading demo_rrd 1 ?s = Some (Inr (), ?t)"
    using wait_step [of demo_rrd 1 ?s] wait_step [of demo_rrd 1 "?s\<lparr>daemon := 1, naps := [5]\<rparr>"]
    by (simp add: unreachable_def 1 2 del: One_nat_def)
  have "frequency_in_seconds ?s = 5" by (simp add: demo_plugin_def)
  from waiting_returns [OF this, of demo_rrd 1] w obtain n w' where "naps ?t = naps ?s @ replicate n 5 @ [w']" by blast
  then have "naps ?t = replicate n 5 @ [w']" by (simp add: demo_plugin_def)
  moreover from this have "w' = 9 / 2" by (simp add: append_eq_conv_conj)
  ultimately show ?thesis using w by (intro exI [of _ ?t] exI [of _ n] exI [of _ w']) simp
qed

end
