(* ===== verification/Vif_Common.thy ===== *)
theory Vif_Common
  imports Py_Url
begin

text \<open>
  The library of the network hotplug scripts, \<^verbatim>\<open>ocaml/xenopsd/scripts/common.py\<close>:
  running programs, bridges, and the metadata of a virtual interface that
  xenopsd has written to a file. Programs, files and the clock are an argument
  over a state of their own; the commands run are recorded as they are passed
  to \<^verbatim>\<open>doexec\<close>.
\<close>

section \<open>Running programs\<close>

datatype vif_error =
    Vif_KeyError | Vif_IndexError | Vif_TypeError | Vif_ValueError | Vif_OSError
  | Vif_UnsupportedOperation | Vif_SysExit

text \<open>
  The file of an interface as \<^verbatim>\<open>json.loads\<close> returns it, with the keys the code
  uses; a missing key is \<open>None\<close>. A locking mode is a text, or a list of a text
  and a dictionary of addresses, which may be too short.
\<close>

datatype locking =
    Mode_Text string
  | Mode_List "string option" "(string list option \<times> string list option) option"

record vif_json =
  j_backend :: "string list option"
  j_mac :: "string option"
  j_mtu :: "int option"
  j_other_config :: "(string \<times> string) list option"
  j_extra_private_keys :: "(string \<times> string) list option"
  j_locking_mode :: "locking option"

record 'k vif_env =
  sh_run :: "string list \<Rightarrow> 'k \<Rightarrow> (int \<times> string) \<times> 'k"
  sh_exists :: "string \<Rightarrow> 'k \<Rightarrow> bool"
  sh_readlink :: "string \<Rightarrow> 'k \<Rightarrow> string option"
  sh_json :: "string \<Rightarrow> 'k \<Rightarrow> vif_error + vif_json"
  sh_try_lock :: "string \<Rightarrow> 'k \<Rightarrow> bool \<times> 'k"
  sh_sleep :: "nat \<Rightarrow> 'k \<Rightarrow> 'k"
  sh_path :: string
  xenops_path :: string

record 'k vif_host =
  vh_machine :: 'k
  vh_ran :: "string list list"

type_synonym ('k, 'a) vifop = "('k vif_host, vif_error, 'a) st"

definition xenops_base_path :: string where
  "xenops_base_path = ''/var/run/nonpersistent/xenopsd''"

definition set_xenopsd_backend :: "string \<Rightarrow> 'k vif_env \<Rightarrow> 'k vif_env" where
  "set_xenopsd_backend b ev = ev\<lparr>xenops_path := path_join xenops_base_path b\<rparr>"

definition doexec :: "'k vif_env \<Rightarrow> string list \<Rightarrow> ('k, int \<times> string) vifop" where
  "doexec ev args = (\<lambda>s.
     case sh_run ev ([''/usr/bin/env'', ''PATH='' @ sh_path ev] @ args) (vh_machine s) of
       (r, k) \<Rightarrow> (Inr r, s\<lparr>vh_machine := k, vh_ran := vh_ran s @ [args]\<rparr>))"

definition ON_ERROR_LOG :: int where "ON_ERROR_LOG = 1"
definition ON_ERROR_FAIL :: int where "ON_ERROR_FAIL = 2"

definition vif_run :: "'k vif_env \<Rightarrow> int \<Rightarrow> string list \<Rightarrow> ('k, unit) vifop" where
  "vif_run ev on_error args =
     bnd (doexec ev args) (\<lambda>(rc, stdout).
     if rc \<noteq> 0 \<and> on_error = ON_ERROR_FAIL then throw Vif_SysExit else ret ())"

text \<open>\<^verbatim>\<open>stdout.readline().strip()\<close>\<close>

definition first_line :: "string \<Rightarrow> string" where
  "first_line out = py_strip (takeWhile (\<lambda>c. c \<noteq> char_of (10 :: nat) \<and> c \<noteq> char_of (13 :: nat)) out)"

section \<open>Devices and bridges\<close>

definition MODE_OPENVSWITCH :: string where "MODE_OPENVSWITCH = ''openvswitch''"
definition MODE_BRIDGE :: string where "MODE_BRIDGE = ''bridge''"

text \<open>The file is opened for reading, so that writing to it raises.\<close>

definition set_promiscuous :: "'k vif_env \<Rightarrow> string \<Rightarrow> string \<Rightarrow> bool \<Rightarrow> ('k, unit) vifop" where
  "set_promiscuous ev mode dev val =
     bnd (gets vh_machine) (\<lambda>k.
     if mode = MODE_OPENVSWITCH \<and> val then ret ()
     else if mode = MODE_BRIDGE \<and> sh_exists ev (''/sys/class/net/'' @ dev @ ''/brport/promisc'') k
     then throw Vif_UnsupportedOperation
     else ret ())"

definition set_ethtool :: "'k vif_env \<Rightarrow> string \<Rightarrow> string \<Rightarrow> string \<Rightarrow> bool \<Rightarrow> ('k, unit) vifop" where
  "set_ethtool ev mode dev key val =
     vif_run ev ON_ERROR_LOG [''ethtool'', ''-K'', dev, key, if val then ''on'' else ''off'']"

definition set_mtu :: "'k vif_env \<Rightarrow> string \<Rightarrow> string \<Rightarrow> int \<Rightarrow> ('k, unit) vifop" where
  "set_mtu ev mode dev mtu = vif_run ev ON_ERROR_LOG [''ip'', ''link'', ''set'', dev, ''mtu'', int_text mtu]"

definition external_id_arg :: "string \<Rightarrow> string \<times> string \<Rightarrow> string list" where
  "external_id_arg dev kv =
     [''--'', ''set'', ''interface'', dev,
      ''external-ids:'' @ CHR 0x22 # fst kv @ CHR 0x22 # ''='' @ CHR 0x22 # snd kv @ [CHR 0x22]]"

definition add_to_bridge ::
  "'k vif_env \<Rightarrow> string \<Rightarrow> string \<Rightarrow> string \<Rightarrow> string \<Rightarrow> (string \<times> string) list \<Rightarrow> ('k, unit) vifop" where
  "add_to_bridge ev mode dev bridge address external_ids =
     seq (for_each (\<lambda>cmd. vif_run ev ON_ERROR_LOG ([''ip'', ''link'', ''set'', dev] @ cmd))
            [[''down''], [''arp'', ''off''], [''multicast'', ''off''], [''address'', address]])
     (seq (vif_run ev ON_ERROR_LOG [''ip'', ''addr'', ''flush'', dev])
     (if mode = MODE_BRIDGE then
        seq (vif_run ev ON_ERROR_LOG [''brctl'', ''setfd'', bridge, ''0''])
          (vif_run ev ON_ERROR_LOG [''brctl'', ''addif'', bridge, dev])
      else if mode = MODE_OPENVSWITCH then
        vif_run ev ON_ERROR_LOG
          ([''ovs-vsctl'', ''--timeout=30'', ''--'', ''--if-exists'', ''del-port'', dev, ''--'', ''add-port'', bridge, dev]
           @ concat (map (external_id_arg dev) external_ids))
      else ret ()))"

definition remove_from_bridge :: "'k vif_env \<Rightarrow> string \<Rightarrow> string \<Rightarrow> string \<Rightarrow> ('k, unit) vifop" where
  "remove_from_bridge ev mode dev bridge =
     (if mode = MODE_BRIDGE then vif_run ev ON_ERROR_LOG [''brctl'', ''delif'', bridge, dev]
      else if mode = MODE_OPENVSWITCH then
        vif_run ev ON_ERROR_LOG [''ovs-vsctl'', ''--timeout=30'', ''--'', ''--if-exists'', ''del-port'', dev]
      else ret ())"

definition vif_hotplug :: string where
  "vif_hotplug = ''/etc/xapi.d/vif-hotplug''"

definition call_hook_script :: "'k vif_env \<Rightarrow> string \<Rightarrow> string \<Rightarrow> string \<Rightarrow> ('k, unit) vifop" where
  "call_hook_script ev action vif_uuid vm_uuid =
     bnd (gets vh_machine) (\<lambda>k.
     if sh_exists ev vif_hotplug k
     then vif_run ev ON_ERROR_LOG [vif_hotplug, ''-action'', action, ''-vifuuid'', vif_uuid, ''-vmuuid'', vm_uuid]
     else ret ())"

definition add_vif_rules :: "'k vif_env \<Rightarrow> string \<Rightarrow> ('k, unit) vifop" where
  "add_vif_rules ev name =
     (case py_split CHR ''.'' (drop 3 name) of
        [domid, devid] \<Rightarrow> vif_run ev ON_ERROR_FAIL [''setup-vif-rules'', take 3 name, domid, devid, ''filter'']
      | _ \<Rightarrow> throw Vif_ValueError)"

section \<open>The metadata of an interface\<close>

record vif =
  vif_name :: string
  vm_uuid :: string
  vif_devid :: int
  vif_data :: vif_json

definition VIF :: "'k vif_env \<Rightarrow> string \<Rightarrow> string \<Rightarrow> int \<Rightarrow> ('k, vif) vifop" where
  "VIF ev name uuid devid =
     bnd (gets vh_machine) (\<lambda>k.
     bnd (lift_sum (sh_json ev (xenops_path ev @ ''/VM/'' @ uuid @ ''/vif.'' @ int_text devid) k)) (\<lambda>j.
     ret \<lparr>vif_name = name, vm_uuid = uuid, vif_devid = devid, vif_data = j\<rparr>))"

text \<open>\<^verbatim>\<open>Interface(...).get_vif()\<close>\<close>

definition interface_vif :: "'k vif_env \<Rightarrow> string \<Rightarrow> string \<Rightarrow> string \<Rightarrow> ('k, vif) vifop" where
  "interface_vif ev name uuid devid =
     (case py_int 10 devid of None \<Rightarrow> throw Vif_ValueError | Some n \<Rightarrow> VIF ev name uuid n)"

definition key :: "'a option \<Rightarrow> vif_error + 'a" where
  "key x = (case x of None \<Rightarrow> Inl Vif_KeyError | Some v \<Rightarrow> Inr v)"

definition get_mode :: "'k vif_env \<Rightarrow> ('k, string) vifop" where
  "get_mode ev =
     bnd (gets vh_machine) (\<lambda>k.
     ret (if sh_exists ev ''/sys/module/openvswitch'' k then MODE_OPENVSWITCH else MODE_BRIDGE))"

definition get_bridge :: "vif \<Rightarrow> vif_error + string option" where
  "get_bridge v =
     sbind (key (j_backend (vif_data v))) (\<lambda>network.
     case network of
       [] \<Rightarrow> Inl Vif_IndexError
     | kind # rest \<Rightarrow>
         if kind \<noteq> ''Local'' then Inr None
         else (case rest of [] \<Rightarrow> Inl Vif_IndexError | b # _ \<Rightarrow> Inr (Some b)))"

definition get_address :: string where
  "get_address = ''fe:ff:ff:ff:ff:ff''"

definition get_mac :: "vif \<Rightarrow> vif_error + string" where
  "get_mac v = key (j_mac (vif_data v))"

definition get_mtu :: "vif \<Rightarrow> vif_error + int" where
  "get_mtu v = key (j_mtu (vif_data v))"

definition get_promiscuous :: "vif \<Rightarrow> vif_error + bool" where
  "get_promiscuous v =
     sbind (key (j_other_config (vif_data v))) (\<lambda>oc.
     Inr (map_of oc ''promiscuous'' = Some ''true'' \<or> map_of oc ''promiscuous'' = Some ''on''))"

text \<open>A dictionary in the order in which it is filled.\<close>

definition opt_entry :: "string \<Rightarrow> string option \<Rightarrow> (string \<times> string) list" where
  "opt_entry k x = (case x of None \<Rightarrow> [] | Some v \<Rightarrow> [(k, v)])"

definition get_external_ids :: "'k vif_env \<Rightarrow> vif \<Rightarrow> ('k, (string \<times> string) list) vifop" where
  "get_external_ids ev v =
     bnd (doexec ev [''/usr/bin/xenstore-read'', ''/vm/'' @ vm_uuid v @ ''/final-uuid'']) (\<lambda>(rc, stdout).
     bnd (lift_sum (key (j_extra_private_keys (vif_data v)))) (\<lambda>keys.
     bnd (lift_sum (get_mac v)) (\<lambda>mac.
     ret ([(''xs-vm-uuid'', if rc = 0 then first_line stdout else vm_uuid v)]
          @ opt_entry ''xs-vif-uuid'' (map_of keys ''vif-uuid'')
          @ opt_entry ''xs-network-uuid'' (map_of keys ''network-uuid'')
          @ [(''attached-mac'', mac)]))))"

record lock_config =
  cfg_mac :: string
  cfg_mode :: string
  cfg_ipv4 :: "string list"
  cfg_ipv6 :: "string list"

definition get_locking_mode :: "vif \<Rightarrow> vif_error + lock_config" where
  "get_locking_mode v =
     sbind (get_mac v) (\<lambda>mac.
     case j_locking_mode (vif_data v) of
       None \<Rightarrow> Inr \<lparr>cfg_mac = mac, cfg_mode = [], cfg_ipv4 = [], cfg_ipv6 = []\<rparr>
     | Some (Mode_Text m) \<Rightarrow> Inr \<lparr>cfg_mac = mac, cfg_mode = py_lower m, cfg_ipv4 = [], cfg_ipv6 = []\<rparr>
     | Some (Mode_List None ps) \<Rightarrow> Inl Vif_IndexError
     | Some (Mode_List (Some m) None) \<Rightarrow> Inl Vif_IndexError
     | Some (Mode_List (Some m) (Some (v4, v6))) \<Rightarrow>
         sbind (key v4) (\<lambda>v4. sbind (key v6) (\<lambda>v6.
         Inr \<lparr>cfg_mac = mac, cfg_mode = py_lower m, cfg_ipv4 = v4, cfg_ipv6 = v6\<rparr>)))"

end
