(* ===== verification/Vif_Rules.thy ===== *)
theory Vif_Rules
  imports Vif_Common
begin

text \<open>
  The script \<^verbatim>\<open>ocaml/xenopsd/scripts/setup-vif-rules\<close>, which puts a virtual
  interface on its bridge and, when the interface is locked to addresses, sets
  up the filter: a chain of \<^verbatim>\<open>ebtables\<close> rules for a Linux bridge, flows for Open
  vSwitch.
\<close>

section \<open>Helpers\<close>

definition xs_read :: string where "xs_read = ''/usr/bin/xenstore-read''"
definition xs_write :: string where "xs_write = ''/usr/bin/xenstore-write''"
definition xs_rm :: string where "xs_rm = ''/usr/bin/xenstore-rm''"
definition ip_tool :: string where "ip_tool = ''/sbin/ip''"
definition brctl :: string where "brctl = ''/usr/sbin/brctl''"
definition ebtables :: string where "ebtables = ''ebtables''"
definition vsctl :: string where "vsctl = ''ovs-vsctl''"
definition ofctl :: string where "ofctl = ''ovs-ofctl''"
definition ebtables_lock_path :: string where "ebtables_lock_path = ''/var/lock/ebtables.lock''"

definition get_host_network_mode :: "'k vif_env \<Rightarrow> string \<Rightarrow> string \<Rightarrow> string \<Rightarrow> ('k, string) vifop" where
  "get_host_network_mode ev name domuuid devid = seq (interface_vif ev name domuuid devid) (get_mode ev)"

definition run_quiet :: "'k vif_env \<Rightarrow> string list \<Rightarrow> ('k, unit) vifop" where
  "run_quiet ev args = seq (doexec ev args) (ret ())"

definition ip_link_set :: "'k vif_env \<Rightarrow> string \<Rightarrow> string \<Rightarrow> ('k, unit) vifop" where
  "ip_link_set ev device direction = run_quiet ev [ip_tool, ''link'', ''set'', device, direction]"

definition xs_hotplug_path :: "vif \<Rightarrow> string" where
  "xs_hotplug_path v =
     ''/xapi/'' @ vm_uuid v @ ''/hotplug/'' @ hd (py_split CHR ''.'' (drop 3 (vif_name v))) @ ''/vif/'' @ int_text (vif_devid v)"

definition xs_private_path :: "vif \<Rightarrow> string" where
  "xs_private_path v = ''/xapi/'' @ vm_uuid v @ ''/private/vif/'' @ int_text (vif_devid v)"

definition setup_pvs_proxy_rules :: "'k vif_env \<Rightarrow> vif \<Rightarrow> string \<Rightarrow> ('k, unit) vifop" where
  "setup_pvs_proxy_rules ev v command =
     bnd (doexec ev [xs_read, xs_private_path v @ ''/pvs-interface'']) (\<lambda>(rc, _).
     if rc = 0 then
       bnd (doexec ev [xs_read, xs_private_path v @ ''/setup-pvs-proxy-rules'']) (\<lambda>(_, stdout).
       run_quiet ev [first_line stdout, command, take 3 (vif_name v), vif_name v, xs_private_path v, xs_hotplug_path v])
     else ret ())"

section \<open>The bridge\<close>

text \<open>The list for \<^verbatim>\<open>Popen\<close> must not hold \<^verbatim>\<open>None\<close>.\<close>

definition some_text :: "string option \<Rightarrow> vif_error + string" where
  "some_text x = (case x of None \<Rightarrow> Inl Vif_TypeError | Some s \<Rightarrow> Inr s)"

definition add_bridge_port :: "'k vif_env \<Rightarrow> string option \<Rightarrow> string \<Rightarrow> ('k, unit) vifop" where
  "add_bridge_port ev bridge_name name =
     bnd (lift_sum (some_text bridge_name)) (\<lambda>b.
     seq (run_quiet ev [brctl, ''setfd'', b, ''0''])
       (run_quiet ev [brctl, ''addif'', b, name]))"

text \<open>\<^verbatim>\<open>os.path.basename\<close>: the last component of a path.\<close>

definition basename :: "string \<Rightarrow> string" where
  "basename p = last (py_split CHR ''/'' p)"

definition remove_bridge_port :: "'k vif_env \<Rightarrow> string \<Rightarrow> ('k, unit) vifop" where
  "remove_bridge_port ev name =
     bnd (gets vh_machine) (\<lambda>k.
     case sh_readlink ev (''/sys/class/net/'' @ name @ ''/brport/bridge'') k of
       None \<Rightarrow> ret ()
     | Some p \<Rightarrow> run_quiet ev [brctl, ''delif'', basename p, name])"

definition get_chain_name :: "string \<Rightarrow> string" where
  "get_chain_name name = ''FORWARD_'' @ name"

definition do_chain_action :: "'k vif_env \<Rightarrow> string \<Rightarrow> string \<Rightarrow> string \<Rightarrow> string list \<Rightarrow> ('k, int \<times> string) vifop" where
  "do_chain_action ev executable action chain args = doexec ev ([executable, action, chain] @ args)"

definition chain_exists :: "'k vif_env \<Rightarrow> string \<Rightarrow> string \<Rightarrow> ('k, bool) vifop" where
  "chain_exists ev executable chain =
     bnd (do_chain_action ev executable ''-L'' chain []) (\<lambda>(rc, _). ret (rc = 0))"

definition chain_do :: "'k vif_env \<Rightarrow> string \<Rightarrow> string \<Rightarrow> string list \<Rightarrow> ('k, unit) vifop" where
  "chain_do ev action chain args = seq (do_chain_action ev ebtables action chain args) (ret ())"

definition clear_bridge_rules :: "'k vif_env \<Rightarrow> string \<Rightarrow> ('k, unit) vifop" where
  "clear_bridge_rules ev name =
     (let vif_chain = get_chain_name name in
      bnd (chain_exists ev ebtables vif_chain) (\<lambda>ex.
      if ex then
        seq (chain_do ev ''-D'' ''FORWARD'' [''-i'', name, ''-j'', vif_chain])
        (seq (chain_do ev ''-D'' ''FORWARD'' [''-o'', name, ''-j'', vif_chain])
        (seq (chain_do ev ''-F'' vif_chain [])
          (chain_do ev ''-X'' vif_chain [])))
      else ret ()))"

text \<open>The rules that allow traffic of one address, and all rules of the chain in order.\<close>

definition ipv4_rules :: "string \<Rightarrow> string \<Rightarrow> string \<Rightarrow> string list list" where
  "ipv4_rules name mac ip =
     [[''-p'', ''ARP'', ''-i'', name, ''--arp-opcode'', ''Request'', ''--arp-ip-src'', ip, ''-j'', ''ACCEPT''],
      [''-p'', ''ARP'', ''-i'', name, ''--arp-opcode'', ''Reply'', ''--arp-ip-src'', ip, ''--arp-mac-src'', mac, ''-j'', ''ACCEPT''],
      [''-p'', ''IPv4'', ''-i'', name, ''--ip-src'', ip, ''-j'', ''ACCEPT'']]"

definition bridge_rules :: "string \<Rightarrow> lock_config \<Rightarrow> string list list" where
  "bridge_rules name config =
     [[''-o'', name, ''-j'', ''ACCEPT''],
      [''-s'', ''!'', cfg_mac config, ''-i'', name, ''-j'', ''DROP''],
      [''-p'', ''IPv4'', ''-i'', name, ''--ip-protocol'', ''UDP'', ''--ip-dport'', ''67'', ''-j'', ''ACCEPT'']]
     @ concat (map (ipv4_rules name (cfg_mac config)) (cfg_ipv4 config))
     @ (if cfg_ipv6 config \<noteq> [] then [[''-p'', ''IPv6'', ''-i'', name, ''-j'', ''ACCEPT'']] else [])"

definition create_bridge_rules :: "'k vif_env \<Rightarrow> string \<Rightarrow> lock_config \<Rightarrow> ('k, unit) vifop" where
  "create_bridge_rules ev name config =
     (let vif_chain = get_chain_name name in
      seq (chain_do ev ''-N'' vif_chain [])
      (seq (chain_do ev ''-A'' ''FORWARD'' [''-i'', name, ''-j'', vif_chain])
      (seq (chain_do ev ''-A'' ''FORWARD'' [''-o'', name, ''-j'', vif_chain])
      (seq (chain_do ev ''-P'' vif_chain [''DROP''])
        (for_each (chain_do ev ''-A'' vif_chain) (bridge_rules name config))))))"

text \<open>The lock is tried every second; \<open>None\<close> when it is never free.\<close>

partial_function (option) acquire_lock :: "'k vif_env \<Rightarrow> string \<Rightarrow> 'k vif_host \<Rightarrow> 'k vif_host option" where
  "acquire_lock ev p s =
     (case sh_try_lock ev p (vh_machine s) of
        (got, k) \<Rightarrow>
          if got then Some (s\<lparr>vh_machine := k\<rparr>)
          else acquire_lock ev p (s\<lparr>vh_machine := sh_sleep ev 1 k\<rparr>))"

definition bridge_body :: "'k vif_env \<Rightarrow> string \<Rightarrow> string \<Rightarrow> string \<Rightarrow> string \<Rightarrow> ('k, unit) vifop" where
  "bridge_body ev name domuuid devid action =
     seq (ip_link_set ev name ''down'')
     (seq (clear_bridge_rules ev name)
     (seq (remove_bridge_port ev name)
     (seq (if action = ''filter'' then
             bnd (interface_vif ev name domuuid devid) (\<lambda>v.
             bnd (lift_sum (get_locking_mode v)) (\<lambda>config.
             bnd (lift_sum (get_bridge v)) (\<lambda>bridge_name.
             seq (if cfg_mode config \<noteq> ''disabled'' then add_bridge_port ev bridge_name name else ret ())
               (if cfg_mode config = ''locked'' then create_bridge_rules ev name config else ret ()))))
           else ret ())
       (ip_link_set ev name ''up''))))"

definition handle_bridge ::
  "'k vif_env \<Rightarrow> string \<Rightarrow> string \<Rightarrow> string \<Rightarrow> string \<Rightarrow> 'k vif_host \<Rightarrow> ((vif_error + unit) \<times> 'k vif_host) option" where
  "handle_bridge ev name domuuid devid action s =
     (if action = ''clear'' \<or> action = ''filter'' then
        map_option (bridge_body ev name domuuid devid action) (acquire_lock ev ebtables_lock_path s)
      else Some (Inr (), s))"

section \<open>Open vSwitch\<close>

definition get_vswitch_port :: "'k vif_env \<Rightarrow> string \<Rightarrow> ('k, string) vifop" where
  "get_vswitch_port ev name =
     bnd (doexec ev [vsctl, ''get'', ''interface'', name, ''ofport'']) (\<lambda>(_, stdout). ret (first_line stdout))"

definition xs_ofport_path :: "vif \<Rightarrow> string" where
  "xs_ofport_path v = xs_hotplug_path v @ ''/'' @ take 3 (vif_name v) @ ''-ofport''"

definition set_xs_ofport_path :: "'k vif_env \<Rightarrow> vif \<Rightarrow> ('k, unit) vifop" where
  "set_xs_ofport_path ev v =
     bnd (get_vswitch_port ev (vif_name v)) (\<lambda>port. run_quiet ev [xs_write, xs_ofport_path v, port])"

definition clear_xs_ofport_path :: "'k vif_env \<Rightarrow> vif \<Rightarrow> ('k, unit) vifop" where
  "clear_xs_ofport_path ev v = run_quiet ev [xs_rm, xs_ofport_path v]"

definition make_vswitch_external_ids :: "'k vif_env \<Rightarrow> vif \<Rightarrow> ('k, string list) vifop" where
  "make_vswitch_external_ids ev v =
     bnd (get_external_ids ev v) (\<lambda>ids. ret (concat (map (external_id_arg (vif_name v)) ids)))"

definition add_vswitch_port :: "'k vif_env \<Rightarrow> string option \<Rightarrow> vif \<Rightarrow> ('k, unit) vifop" where
  "add_vswitch_port ev bridge_name v =
     bnd (make_vswitch_external_ids ev v) (\<lambda>ids.
     bnd (lift_sum (some_text bridge_name)) (\<lambda>b.
     seq (vif_run ev ON_ERROR_FAIL ([vsctl, ''--timeout=30'', ''add-port'', b, vif_name v] @ ids))
     (seq (set_xs_ofport_path ev v)
       (setup_pvs_proxy_rules ev v ''add''))))"

definition remove_vswitch_port :: "'k vif_env \<Rightarrow> vif \<Rightarrow> ('k, unit) vifop" where
  "remove_vswitch_port ev v =
     seq (setup_pvs_proxy_rules ev v ''remove'')
     (seq (clear_xs_ofport_path ev v)
       (run_quiet ev [vsctl, ''--timeout=30'', ''--'', ''--if-exists'', ''del-port'', vif_name v]))"

definition get_current_bridge_name_vswitch :: "'k vif_env \<Rightarrow> string \<Rightarrow> ('k, string) vifop" where
  "get_current_bridge_name_vswitch ev name =
     bnd (doexec ev [vsctl, ''iface-to-br'', name]) (\<lambda>(_, stdout). ret (first_line stdout))"

definition get_parent_bridge :: "'k vif_env \<Rightarrow> string \<Rightarrow> ('k, string) vifop" where
  "get_parent_bridge ev bridge_name =
     bnd (doexec ev [vsctl, ''br-to-parent'', bridge_name]) (\<lambda>(_, stdout). ret (first_line stdout))"

definition clear_vswitch_rules :: "'k vif_env \<Rightarrow> string \<Rightarrow> ('k, unit) vifop" where
  "clear_vswitch_rules ev name =
     bnd (get_vswitch_port ev name) (\<lambda>port.
     if port \<noteq> [] then
       bnd (get_current_bridge_name_vswitch ev name) (\<lambda>b.
       bnd (get_parent_bridge ev b) (\<lambda>b.
       run_quiet ev [ofctl, ''del-flows'', b, ''in_port='' @ port @ '',cookie=1/-1'']))
     else ret ())"

definition add_flow :: "'k vif_env \<Rightarrow> string \<Rightarrow> string \<Rightarrow> ('k, unit) vifop" where
  "add_flow ev bridge_name args = run_quiet ev [ofctl, ''add-flow'', bridge_name, ''cookie=1,'' @ args]"

text \<open>The fields of a flow as name and value, or a name alone, joined by commas.\<close>

definition flow_text :: "(string \<times> string option) list \<Rightarrow> string" where
  "flow_text fs = py_join '','' (map (\<lambda>(k, v). case v of None \<Rightarrow> k | Some x \<Rightarrow> k @ ''='' @ x) fs)"

definition flow :: "string \<Rightarrow> string \<Rightarrow> (string \<times> string option) list \<Rightarrow> string \<Rightarrow> (string \<times> string option) list" where
  "flow port priority fs action =
     [(''in_port'', Some port), (''priority'', Some priority)] @ fs @ [(''action'', Some action)]"

definition dhcp_flow :: "string \<Rightarrow> string \<Rightarrow> (string \<times> string option) list" where
  "dhcp_flow port mac = flow port ''8000''
     [(''dl_type'', Some ''0x0800''), (''nw_proto'', Some ''0x11''), (''tp_dst'', Some ''67''),
      (''dl_src'', Some mac), (''idle_timeout'', Some ''0'')] ''normal''"

definition arp_flow :: "string \<Rightarrow> string \<Rightarrow> string \<Rightarrow> (string \<times> string option) list" where
  "arp_flow port mac src = flow port ''7000''
     [(''dl_type'', Some ''0x0806''), (''dl_src'', Some mac), (''arp_sha'', Some mac), (''nw_src'', Some src),
      (''idle_timeout'', Some ''0'')] ''normal''"

definition ipv4_flows :: "string \<Rightarrow> string \<Rightarrow> string \<Rightarrow> (string \<times> string option) list list" where
  "ipv4_flows port mac ip =
     [arp_flow port mac ip,
      flow port ''6000'' [(''dl_type'', Some ''0x0800''), (''nw_src'', Some ip), (''dl_src'', Some mac),
        (''idle_timeout'', Some ''0'')] ''normal'']"

definition ipv6_flows :: "string \<Rightarrow> string \<Rightarrow> string \<Rightarrow> (string \<times> string option) list list" where
  "ipv6_flows port mac ip =
     [flow port ''8000'' [(''dl_src'', Some mac), (''icmp6'', None), (''ipv6_src'', Some ip),
        (''icmp_type'', Some ''135''), (''nd_sll'', Some mac), (''idle_timeout'', Some ''0'')] ''normal'',
      flow port ''8000'' [(''dl_src'', Some mac), (''icmp6'', None), (''ipv6_src'', Some ip),
        (''icmp_type'', Some ''136''), (''nd_target'', Some ip), (''idle_timeout'', Some ''0'')] ''normal'',
      flow port ''5000'' [(''dl_src'', Some mac), (''ipv6_src'', Some ip), (''icmp6'', None)] ''normal'',
      flow port ''5000'' [(''dl_src'', Some mac), (''ipv6_src'', Some ip), (''tcp6'', None)] ''normal'',
      flow port ''5000'' [(''dl_src'', Some mac), (''ipv6_src'', Some ip), (''udp6'', None)] ''normal'']"

definition icmp6_drop :: "string \<Rightarrow> string \<Rightarrow> string \<Rightarrow> (string \<times> string option) list" where
  "icmp6_drop port priority icmp_type =
     flow port priority [(''icmp6'', None), (''icmp_type'', Some icmp_type)] ''drop''"

definition vswitch_flows :: "string \<Rightarrow> lock_config \<Rightarrow> (string \<times> string option) list list" where
  "vswitch_flows port config =
     [dhcp_flow port (cfg_mac config), arp_flow port (cfg_mac config) ''0.0.0.0'']
     @ concat (map (ipv4_flows port (cfg_mac config)) (cfg_ipv4 config))
     @ concat (map (ipv6_flows port (cfg_mac config)) (cfg_ipv6 config))
     @ map (icmp6_drop port ''7000'') [''135'', ''136'']
     @ map (icmp6_drop port ''6000'') [''134'', ''137'', ''146'', ''147'', ''151'', ''152'', ''153'']
     @ [flow port ''4000'' [(''idle_timeout'', Some ''0'')] ''drop'']"

text \<open>The name of the interface is a global variable of the script.\<close>

definition create_vswitch_rules :: "'k vif_env \<Rightarrow> string \<Rightarrow> string option \<Rightarrow> lock_config \<Rightarrow> ('k, unit) vifop" where
  "create_vswitch_rules ev name bridge_name config =
     bnd (get_vswitch_port ev name) (\<lambda>port.
     bnd (lift_sum (some_text bridge_name)) (\<lambda>b.
     bnd (get_parent_bridge ev b) (\<lambda>b.
     for_each (\<lambda>f. add_flow ev b (flow_text f)) (vswitch_flows port config))))"

definition vswitch_body :: "'k vif_env \<Rightarrow> string \<Rightarrow> string \<Rightarrow> string \<Rightarrow> string \<Rightarrow> ('k, unit) vifop" where
  "vswitch_body ev name domuuid devid action =
     bnd (interface_vif ev name domuuid devid) (\<lambda>v.
     seq (ip_link_set ev name ''down'')
     (seq (clear_vswitch_rules ev name)
     (seq (remove_vswitch_port ev v)
     (seq (if action = ''filter'' then
             bnd (lift_sum (get_locking_mode v)) (\<lambda>config.
             bnd (lift_sum (get_bridge v)) (\<lambda>bridge_name.
             seq (if cfg_mode config \<noteq> ''disabled'' then add_vswitch_port ev bridge_name v else ret ())
               (if cfg_mode config = ''locked'' then create_vswitch_rules ev name bridge_name config else ret ())))
           else ret ())
       (ip_link_set ev name ''up'')))))"

definition handle_vswitch :: "'k vif_env \<Rightarrow> string \<Rightarrow> string \<Rightarrow> string \<Rightarrow> string \<Rightarrow> ('k, unit) vifop" where
  "handle_vswitch ev name domuuid devid action =
     (if action = ''clear'' \<or> action = ''filter'' then vswitch_body ev name domuuid devid action else ret ())"

section \<open>The script\<close>

definition rules_main ::
  "'k vif_env \<Rightarrow> string \<Rightarrow> string \<Rightarrow> string \<Rightarrow> string \<Rightarrow> string \<Rightarrow> 'k vif_host \<Rightarrow>
   ((vif_error + unit) \<times> 'k vif_host) option" where
  "rules_main ev name domuuid devid network_mode action s =
     (if network_mode = ''bridge'' then handle_bridge ev name domuuid devid action s
      else if network_mode = ''openvswitch'' then Some (handle_vswitch ev name domuuid devid action s)
      else Some (Inr (), s))"

definition setup_vif_rules ::
  "'k vif_env \<Rightarrow> string list \<Rightarrow> 'k vif_host \<Rightarrow> ((vif_error + unit) \<times> 'k vif_host) option" where
  "setup_vif_rules ev argv s =
     (case argv of
        [_, backend, name, domuuid, devid, action] \<Rightarrow>
          (let ev = set_xenopsd_backend backend ev in
           case get_host_network_mode ev name domuuid devid s of
             (Inl e, s) \<Rightarrow> Some (Inl e, s)
           | (Inr network_mode, s) \<Rightarrow> rules_main ev name domuuid devid network_mode action s)
      | _ \<Rightarrow> Some (Inl Vif_SysExit, s))"

end
