(* ===== verification/Vif_Filter.thy ===== *)
theory Vif_Filter
  imports Vif_Rules
begin

text \<open>
  What the rules for a Linux bridge achieve. \<open>ebtables\<close> is described by its
  documented effect on a table of chains; frames are decided by the first rule
  of the chain \<^verbatim>\<open>FORWARD\<close> that matches. Addresses are compared as they are
  written.
\<close>

section \<open>Frames and chains\<close>

record frame =
  fr_in :: string
  fr_out :: string
  fr_src :: string
  fr_proto :: string
  fr_ip_proto :: string
  fr_ip_dport :: string
  fr_ip_src :: string
  fr_arp_opcode :: string
  fr_arp_ip_src :: string
  fr_arp_mac_src :: string

text \<open>One option of a rule.\<close>

definition option_holds :: "string \<Rightarrow> string \<Rightarrow> frame \<Rightarrow> bool" where
  "option_holds opt arg f =
     (if opt = ''-i'' then fr_in f = arg
      else if opt = ''-o'' then fr_out f = arg
      else if opt = ''-s'' then fr_src f = arg
      else if opt = ''-p'' then fr_proto f = arg
      else if opt = ''--ip-protocol'' then fr_ip_proto f = arg
      else if opt = ''--ip-dport'' then fr_ip_dport f = arg
      else if opt = ''--ip-src'' then fr_ip_src f = arg
      else if opt = ''--arp-opcode'' then fr_arp_opcode f = arg
      else if opt = ''--arp-ip-src'' then fr_arp_ip_src f = arg
      else if opt = ''--arp-mac-src'' then fr_arp_mac_src f = arg
      else opt = ''-j'')"

fun rule_match :: "string list \<Rightarrow> frame \<Rightarrow> bool" where
  "rule_match (opt # arg # rest) f =
     (if opt = ''-s'' \<and> arg = ''!'' then
        (case rest of m # rest' \<Rightarrow> fr_src f \<noteq> m \<and> rule_match rest' f | [] \<Rightarrow> False)
      else option_holds opt arg f \<and> rule_match rest f)"
| "rule_match [opt] f = False"
| "rule_match [] f = True"

text \<open>What follows \<^verbatim>\<open>-j\<close>.\<close>

fun rule_target :: "string list \<Rightarrow> string" where
  "rule_target (opt # arg # rest) =
     (if opt = ''-j'' then arg
      else if opt = ''-s'' \<and> arg = ''!'' then rule_target (tl rest)
      else rule_target rest)"
| "rule_target _ = []"

text \<open>A table gives each chain its policy and its rules.\<close>

type_synonym table = "(string \<times> string \<times> string list list) list"

definition tab_del :: "string \<Rightarrow> table \<Rightarrow> table" where
  "tab_del c t = filter (\<lambda>e. fst e \<noteq> c) t"

definition tab_set :: "string \<Rightarrow> string \<times> string list list \<Rightarrow> table \<Rightarrow> table" where
  "tab_set c v t = (c, v) # tab_del c t"

definition referenced :: "string \<Rightarrow> table \<Rightarrow> bool" where
  "referenced c t \<longleftrightarrow> list_ex (\<lambda>(d, p, rs). list_ex (\<lambda>r. rule_target r = c) rs) t"

text \<open>The commands the script uses, with their exit codes.\<close>

definition ebt_exec :: "string list \<Rightarrow> table \<Rightarrow> int \<times> table" where
  "ebt_exec args t =
     (case args of
        action # c # rest \<Rightarrow>
          (case map_of t c of
             None \<Rightarrow> if action = ''-N'' then (0, tab_set c (''ACCEPT'', []) t) else (255, t)
           | Some (p, rs) \<Rightarrow>
               if action = ''-L'' then (0, t)
               else if action = ''-A'' then (0, tab_set c (p, rs @ [rest]) t)
               else if action = ''-D'' \<and> rest \<in> set rs then (0, tab_set c (p, remove1 rest rs) t)
               else if action = ''-F'' then (0, tab_set c (p, []) t)
               else if action = ''-P'' \<and> rest \<noteq> [] then (0, tab_set c (hd rest, rs) t)
               else if action = ''-X'' \<and> \<not> referenced c t then (0, tab_del c t)
               else (255, t))
      | _ \<Rightarrow> (255, t))"

text \<open>
  The verdict of a list of rules, then of the policy; chains are followed to
  the depth \<open>n\<close>, an accepted or dropped frame is decided.
\<close>

fun eval_rules :: "nat \<Rightarrow> table \<Rightarrow> string list list \<Rightarrow> string \<Rightarrow> frame \<Rightarrow> string" where
  "eval_rules n t [] policy f = policy"
| "eval_rules n t (r # rs) policy f =
     (if \<not> rule_match r f then eval_rules n t rs policy f
      else if rule_target r = ''ACCEPT'' \<or> rule_target r = ''DROP'' then rule_target r
      else
        (case (n, map_of t (rule_target r)) of
           (Suc m, Some (p, rs')) \<Rightarrow>
             (if eval_rules m t rs' p f = ''RETURN'' then eval_rules n t rs policy f
              else eval_rules m t rs' p f)
         | _ \<Rightarrow> ''DROP''))"

definition forwards :: "table \<Rightarrow> frame \<Rightarrow> bool" where
  "forwards t f =
     (case map_of t ''FORWARD'' of
        None \<Rightarrow> False
      | Some (policy, rs) \<Rightarrow> eval_rules 2 t rs policy f = ''ACCEPT'')"

section \<open>The table kept by the machine\<close>

definition command :: "'k vif_env \<Rightarrow> string list \<Rightarrow> 'k \<Rightarrow> (int \<times> string) \<times> 'k" where
  "command ev args = sh_run ev ([''/usr/bin/env'', ''PATH='' @ sh_path ev] @ args)"

definition runs_ebtables :: "'k vif_env \<Rightarrow> ('k \<Rightarrow> table) \<Rightarrow> bool" where
  "runs_ebtables ev tab \<longleftrightarrow>
     (\<forall>args k. fst (fst (command ev (ebtables # args) k)) = fst (ebt_exec args (tab k))) \<and>
     (\<forall>args k. tab (snd (command ev (ebtables # args) k)) = snd (ebt_exec args (tab k))) \<and>
     (\<forall>c args k. c \<noteq> ebtables \<longrightarrow> tab (snd (command ev (c # args) k)) = tab k) \<and>
     (\<forall>p k. tab (snd (sh_try_lock ev p k)) = tab k) \<and> (\<forall>n k. tab (sh_sleep ev n k) = tab k)"

lemma runs_ebtablesD:
  assumes "runs_ebtables ev tab"
  shows "fst (fst (command ev (ebtables # args) k)) = fst (ebt_exec args (tab k))"
    "tab (snd (command ev (ebtables # args) k)) = snd (ebt_exec args (tab k))"
    "c \<noteq> ebtables \<Longrightarrow> tab (snd (command ev (c # args) k)) = tab k"
    "tab (snd (sh_try_lock ev p k)) = tab k" "tab (sh_sleep ev n k) = tab k"
  using assms by (simp_all add: runs_ebtables_def)

lemma doexec_eq:
  "doexec ev args s =
     (Inr (fst (command ev args (vh_machine s))),
      s\<lparr>vh_machine := snd (command ev args (vh_machine s)), vh_ran := vh_ran s @ [args]\<rparr>)"
  by (simp add: doexec_def command_def split: prod.split)

text \<open>
  In every table the script works on, a chain of an interface is referenced
  by exactly the two rules of \<^verbatim>\<open>FORWARD\<close>, or does not exist and is not
  referenced.
\<close>

definition jumps :: "string \<Rightarrow> string list list" where
  "jumps name = [[''-i'', name, ''-j'', get_chain_name name], [''-o'', name, ''-j'', get_chain_name name]]"

definition refs :: "string \<Rightarrow> string list list \<Rightarrow> string list list" where
  "refs c rs = filter (\<lambda>r. rule_target r = c) rs"

definition chain_ok :: "string \<Rightarrow> table \<Rightarrow> bool" where
  "chain_ok name t \<longleftrightarrow>
     (\<forall>p rs. map_of t ''FORWARD'' = Some (p, rs) \<longrightarrow>
        refs (get_chain_name name) rs = (if map_of t (get_chain_name name) = None then [] else jumps name)) \<and>
     (\<forall>d p rs. d \<noteq> ''FORWARD'' \<longrightarrow> map_of t d = Some (p, rs) \<longrightarrow> refs (get_chain_name name) rs = [])"

definition table_ok :: "table \<Rightarrow> bool" where
  "table_ok t \<longleftrightarrow> distinct (map fst t) \<and> map_of t ''FORWARD'' \<noteq> None \<and> (\<forall>name. chain_ok name t)"

lemma map_of_tab_del: "map_of (tab_del c t) = (map_of t)(c := None)"
  by (induction t) (auto simp: tab_del_def fun_eq_iff)

lemma map_of_tab_set: "map_of (tab_set c v t) = (map_of t)(c \<mapsto> v)"
  by (simp add: tab_set_def map_of_tab_del fun_eq_iff)

lemma distinct_tab_del: "distinct (map fst t) \<Longrightarrow> distinct (map fst (tab_del c t))"
  by (auto simp: tab_del_def distinct_map intro: inj_on_subset)

lemma distinct_tab_set: "distinct (map fst t) \<Longrightarrow> distinct (map fst (tab_set c v t))"
  by (auto simp: tab_set_def distinct_tab_del) (auto simp: tab_del_def)

section \<open>Methods as functions on the table\<close>

definition acts :: "('k \<Rightarrow> 't) \<Rightarrow> ('k, unit) vifop \<Rightarrow> ('t \<Rightarrow> 't) \<Rightarrow> bool" where
  "acts tab m g \<longleftrightarrow> (\<forall>s. \<exists>s'. m s = (Inr (), s') \<and> tab (vh_machine s') = g (tab (vh_machine s)))"

named_theorems acts_intros \<open>methods as functions on the table\<close>

lemma actsE:
  assumes "acts tab m g"
  obtains s' where "m s = (Inr (), s')" "tab (vh_machine s') = g (tab (vh_machine s))"
  using assms by (auto simp: acts_def)

lemma acts_ret [acts_intros]: "acts tab (ret ()) (\<lambda>t. t)"
  by (simp add: acts_def ret_def)

lemma acts_seq [acts_intros]:
  assumes "acts tab m g" "acts tab k h"
  shows "acts tab (seq m k) (\<lambda>t. h (g t))"
  unfolding acts_def
proof
  fix s
  obtain s' where m: "m s = (Inr (), s')" "tab (vh_machine s') = g (tab (vh_machine s))"
    using assms(1) by (rule actsE)
  obtain s'' where "k s' = (Inr (), s'')" "tab (vh_machine s'') = h (tab (vh_machine s'))"
    using assms(2) by (rule actsE)
  with m show "\<exists>s''. seq m k s = (Inr (), s'') \<and> tab (vh_machine s'') = h (g (tab (vh_machine s)))" by simp
qed

lemma acts_for_each [acts_intros]:
  "(\<And>x. acts tab (body x) (g x)) \<Longrightarrow> acts tab (for_each body xs) (fold g xs)"
proof (induction xs)
  case (Cons x xs)
  from acts_seq [OF Cons.prems Cons.IH [OF Cons.prems]] show ?case by (simp add: comp_def)
qed (simp add: acts_ret [unfolded ret_def] acts_def ret_def)

lemma acts_if [acts_intros]:
  "acts tab m g \<Longrightarrow> acts tab k h \<Longrightarrow> acts tab (if b then m else k) (if b then g else h)"
  by simp

lemma acts_run_quiet [acts_intros]:
  "runs_ebtables ev tab \<Longrightarrow> c \<noteq> ebtables \<Longrightarrow> acts tab (run_quiet ev (c # args)) (\<lambda>t. t)"
  by (simp add: acts_def run_quiet_def seq_def bnd_def ret_def doexec_eq runs_ebtablesD)

lemma acts_chain_do [acts_intros]:
  "runs_ebtables ev tab \<Longrightarrow> acts tab (chain_do ev a c args) (\<lambda>t. snd (ebt_exec (a # c # args) t))"
  by (simp add: acts_def chain_do_def do_chain_action_def seq_def bnd_def ret_def doexec_eq runs_ebtablesD)

lemma chain_exists_eq:
  assumes "runs_ebtables ev tab"
  shows "\<exists>s'. chain_exists ev ebtables c s = (Inr (map_of (tab (vh_machine s)) c \<noteq> None), s') \<and>
    tab (vh_machine s') = tab (vh_machine s)"
proof -
  let ?r = "command ev [ebtables, ''-L'', c] (vh_machine s)"
  have "fst (fst ?r) = (if map_of (tab (vh_machine s)) c = None then 255 else 0)"
    "tab (snd ?r) = tab (vh_machine s)"
    using runs_ebtablesD(1,2) [OF assms, of "[''-L'', c]" "vh_machine s"]
    by (auto simp: ebt_exec_def split: option.splits)
  then show ?thesis
    by (auto simp: chain_exists_def do_chain_action_def bnd_def ret_def doexec_eq split: prod.split if_splits)
qed

section \<open>Clearing and creating the rules\<close>

definition exec_ebt :: "string list \<Rightarrow> table \<Rightarrow> table" where
  "exec_ebt args t = snd (ebt_exec args t)"

definition clear_table :: "string \<Rightarrow> table \<Rightarrow> table" where
  "clear_table name t =
     (let c = get_chain_name name in
      if map_of t c = None then t
      else exec_ebt [''-X'', c] (exec_ebt [''-F'', c]
        (exec_ebt [''-D'', ''FORWARD'', ''-o'', name, ''-j'', c] (exec_ebt [''-D'', ''FORWARD'', ''-i'', name, ''-j'', c] t))))"

definition create_table :: "string \<Rightarrow> lock_config \<Rightarrow> table \<Rightarrow> table" where
  "create_table name config t =
     (let c = get_chain_name name in
      fold (\<lambda>r. exec_ebt (''-A'' # c # r)) (bridge_rules name config)
        (exec_ebt [''-P'', c, ''DROP'']
        (exec_ebt [''-A'', ''FORWARD'', ''-o'', name, ''-j'', c] (exec_ebt [''-A'', ''FORWARD'', ''-i'', name, ''-j'', c]
        (exec_ebt [''-N'', c] t)))))"

lemma acts_clear [acts_intros]:
  fixes ev :: "'a vif_env"
  assumes "runs_ebtables ev tab"
  shows "acts tab (clear_bridge_rules ev name) (clear_table name)"
  unfolding acts_def
proof
  fix s :: "'a vif_host"
  let ?c = "get_chain_name name" and ?t = "tab (vh_machine s)"
  obtain s1 where s1: "chain_exists ev ebtables ?c s = (Inr (map_of ?t ?c \<noteq> None), s1)" "tab (vh_machine s1) = ?t"
    using chain_exists_eq [OF assms] by blast
  let ?m = "seq (chain_do ev ''-D'' ''FORWARD'' [''-i'', name, ''-j'', ?c])
        (seq (chain_do ev ''-D'' ''FORWARD'' [''-o'', name, ''-j'', ?c])
        (seq (chain_do ev ''-F'' ?c []) (chain_do ev ''-X'' ?c [])))"
  have "acts tab (if map_of ?t ?c \<noteq> None then ?m else ret ())
      (if map_of ?t ?c \<noteq> None then
         (\<lambda>t. exec_ebt [''-X'', ?c] (exec_ebt [''-F'', ?c] (exec_ebt [''-D'', ''FORWARD'', ''-o'', name, ''-j'', ?c]
           (exec_ebt [''-D'', ''FORWARD'', ''-i'', name, ''-j'', ?c] t))))
       else (\<lambda>t. t))"
    unfolding exec_ebt_def by (intro acts_intros assms)
  then obtain s2 where "(if map_of ?t ?c \<noteq> None then ?m else ret ()) s1 = (Inr (), s2)"
    "tab (vh_machine s2) = clear_table name ?t"
    using s1(2) by (rule_tac actsE [of tab _ _ s1]) (auto simp: clear_table_def Let_def)
  with s1 show "\<exists>s'. clear_bridge_rules ev name s = (Inr (), s') \<and> tab (vh_machine s') = clear_table name ?t"
    by (simp add: clear_bridge_rules_def Let_def bnd_def del: not_None_eq)
qed

lemma acts_create [acts_intros]:
  "runs_ebtables ev tab \<Longrightarrow> acts tab (create_bridge_rules ev name config) (create_table name config)"
  unfolding create_bridge_rules_def create_table_def Let_def exec_ebt_def by (intro acts_intros)

lemma chain_names:
  "get_chain_name n \<noteq> ''FORWARD''" "get_chain_name n \<noteq> ''ACCEPT''" "get_chain_name n \<noteq> ''DROP''"
  "get_chain_name n \<noteq> ''RETURN''" "''FORWARD'' \<noteq> get_chain_name n" "get_chain_name m = get_chain_name n \<longleftrightarrow> m = n"
  by (auto simp: get_chain_name_def)

lemma jump_targets:
  "rule_target [''-i'', n, ''-j'', c] = c" "rule_target [''-o'', n, ''-j'', c] = c"
  by simp_all

definition others :: "string \<Rightarrow> string list list \<Rightarrow> string list list" where
  "others c rs = filter (\<lambda>r. rule_target r \<noteq> c) rs"

lemma others_none: "refs c rs = [] \<Longrightarrow> others c rs = rs"
  by (induction rs) (auto simp: refs_def others_def split: if_splits)

lemma others_one: "refs c rs = [r] \<Longrightarrow> remove1 r rs = others c rs"
proof (induction rs)
  case (Cons a rs)
  show ?case
  proof (cases "rule_target a = c")
    case True
    with Cons.prems have "a = r" "refs c rs = []" by (simp_all add: refs_def)
    with True show ?thesis using others_none [of c rs] by (simp add: others_def)
  next
    case False
    have "r \<in> set (refs c (a # rs))" using Cons.prems by simp
    with False have "a \<noteq> r" by (auto simp: refs_def)
    with False Cons show ?thesis by (simp add: refs_def others_def)
  qed
qed (simp add: refs_def)

lemma others_two:
  assumes "refs c rs = [q, r]" "q \<noteq> r"
  shows "remove1 r (remove1 q rs) = others c rs" "q \<in> set rs" "r \<in> set (remove1 q rs)"
proof -
  have t: "rule_target q = c" "rule_target r = c" "q \<in> set rs" "r \<in> set rs"
  proof -
    have "set (refs c rs) = {q, r}" using assms(1) by simp
    then have "q \<in> set (refs c rs)" "r \<in> set (refs c rs)" by auto
    then show "rule_target q = c" "rule_target r = c" "q \<in> set rs" "r \<in> set rs" by (simp_all add: refs_def)
  qed
  have "refs c (remove1 q rs) = remove1 q (refs c rs)" using t by (simp add: refs_def filter_remove1)
  then have "refs c (remove1 q rs) = [r]" using assms by simp
  then have "remove1 r (remove1 q rs) = others c (remove1 q rs)" by (rule others_one)
  also have "\<dots> = others c rs" using t by (simp add: others_def filter_remove1)
  finally show "remove1 r (remove1 q rs) = others c rs" .
  show "q \<in> set rs" "r \<in> set (remove1 q rs)" using t assms(2) by simp_all
qed

lemma exec_ebt_simps:
  "map_of t c = Some (p, rs) \<Longrightarrow> exec_ebt (''-A'' # c # r) t = tab_set c (p, rs @ [r]) t"
  "map_of t c = Some (p, rs) \<Longrightarrow> r \<in> set rs \<Longrightarrow> exec_ebt (''-D'' # c # r) t = tab_set c (p, remove1 r rs) t"
  "map_of t c = Some (p, rs) \<Longrightarrow> exec_ebt [''-F'', c] t = tab_set c (p, []) t"
  "map_of t c = Some (p, rs) \<Longrightarrow> exec_ebt [''-P'', c, q] t = tab_set c (q, rs) t"
  "map_of t c = Some (p, rs) \<Longrightarrow> \<not> referenced c t \<Longrightarrow> exec_ebt [''-X'', c] t = tab_del c t"
  "map_of t c = None \<Longrightarrow> exec_ebt [''-N'', c] t = tab_set c (''ACCEPT'', []) t"
  by (simp_all add: exec_ebt_def ebt_exec_def)

lemma referenced_iff:
  assumes "distinct (map fst t)"
  shows "referenced c t \<longleftrightarrow> (\<exists>d p rs. map_of t d = Some (p, rs) \<and> refs c rs \<noteq> [])"
  using assms by (auto simp: referenced_def list_ex_iff refs_def filter_empty_conv map_of_eq_Some_iff)

lemma clear_table_eq:
  assumes "table_ok t" "map_of t ''FORWARD'' = Some (p, fw)"
  shows "distinct (map fst (clear_table name t))"
    "map_of (clear_table name t) =
       (map_of t)(''FORWARD'' \<mapsto> (p, others (get_chain_name name) fw), get_chain_name name := None)"
proof -
  let ?c = "get_chain_name name"
  have d: "distinct (map fst t)" and ok: "chain_ok name t" using assms(1) by (simp_all add: table_ok_def)
  have "distinct (map fst (clear_table name t)) \<and> map_of (clear_table name t) =
      (map_of t)(''FORWARD'' \<mapsto> (p, others ?c fw), ?c := None)"
  proof (cases "map_of t ?c")
    case None
    with ok assms(2) have "refs ?c fw = []" by (simp add: chain_ok_def)
    with None d assms(2) show ?thesis by (auto simp: clear_table_def Let_def others_none fun_eq_iff)
  next
    case (Some pr)
    then obtain q rs where c: "map_of t ?c = Some (q, rs)" by (cases pr) simp
    with ok assms(2) have "refs ?c fw = jumps name" by (simp add: chain_ok_def)
    then have r: "refs ?c fw = [[''-i'', name, ''-j'', ?c], [''-o'', name, ''-j'', ?c]]" by (simp add: jumps_def)
    note two = others_two [OF r]
    define t1 where "t1 = tab_set ''FORWARD'' (p, remove1 [''-i'', name, ''-j'', ?c] fw) t"
    define t2 where "t2 = tab_set ''FORWARD'' (p, others ?c fw) t1"
    define t3 where "t3 = tab_set ?c (q, []) t2"
    have m: "map_of t3 = (map_of t)(''FORWARD'' \<mapsto> (p, others ?c fw), ?c \<mapsto> (q, []))"
      by (simp add: t1_def t2_def t3_def map_of_tab_set)
    have d3: "distinct (map fst t3)" by (simp add: t1_def t2_def t3_def distinct_tab_set d)
    have "refs ?c (others ?c fw) = []" by (simp add: refs_def others_def)
    moreover have "refs ?c rs' = []" if "map_of t e = Some (p', rs')" "e \<noteq> ''FORWARD''" for e p' rs'
      using ok that by (auto simp: chain_ok_def)
    ultimately have "\<not> referenced ?c t3"
      unfolding referenced_iff [OF d3] m by (auto simp: refs_def split: if_splits)
    then have "exec_ebt [''-X'', ?c] t3 = tab_del ?c t3"
      by (rule exec_ebt_simps(5) [rotated]) (simp add: m)
    moreover have "exec_ebt [''-F'', ?c] t2 = t3"
      unfolding t3_def by (rule exec_ebt_simps(3)) (use c in \<open>simp add: t1_def t2_def map_of_tab_set chain_names\<close>)
    moreover have "exec_ebt [''-D'', ''FORWARD'', ''-o'', name, ''-j'', ?c] t1 = t2"
      using two exec_ebt_simps(2) [of t1 "''FORWARD''" p "remove1 [''-i'', name, ''-j'', ?c] fw" "[''-o'', name, ''-j'', ?c]"]
      by (simp add: t1_def t2_def map_of_tab_set)
    moreover have "exec_ebt [''-D'', ''FORWARD'', ''-i'', name, ''-j'', ?c] t = t1"
      using two exec_ebt_simps(2) [of t "''FORWARD''" p fw "[''-i'', name, ''-j'', ?c]"] assms(2)
      by (simp add: t1_def)
    ultimately have "clear_table name t = tab_del ?c t3" using c by (simp add: clear_table_def Let_def)
    with m d3 show ?thesis by (simp add: map_of_tab_del distinct_tab_del)
  qed
  then show "distinct (map fst (clear_table name t))"
    "map_of (clear_table name t) = (map_of t)(''FORWARD'' \<mapsto> (p, others ?c fw), ?c := None)" by simp_all
qed

lemma append_rules:
  assumes "map_of t c = Some (p, rs)" "distinct (map fst t)"
  shows "map_of (fold (\<lambda>r. exec_ebt (''-A'' # c # r)) xs t) = (map_of t)(c \<mapsto> (p, rs @ xs))"
    "distinct (map fst (fold (\<lambda>r. exec_ebt (''-A'' # c # r)) xs t))"
proof -
  have "map_of (fold (\<lambda>r. exec_ebt (''-A'' # c # r)) xs t) = (map_of t)(c \<mapsto> (p, rs @ xs)) \<and>
      distinct (map fst (fold (\<lambda>r. exec_ebt (''-A'' # c # r)) xs t))"
    using assms
  proof (induction xs arbitrary: t rs)
    case (Cons x xs)
    let ?t = "tab_set c (p, rs @ [x]) t"
    have "exec_ebt (''-A'' # c # x) t = ?t" using Cons.prems by (simp add: exec_ebt_simps)
    moreover have "map_of (fold (\<lambda>r. exec_ebt (''-A'' # c # r)) xs ?t) = (map_of ?t)(c \<mapsto> (p, (rs @ [x]) @ xs)) \<and>
        distinct (map fst (fold (\<lambda>r. exec_ebt (''-A'' # c # r)) xs ?t))"
      by (rule Cons.IH) (simp_all add: map_of_tab_set distinct_tab_set Cons.prems)
    ultimately show ?case by (simp add: map_of_tab_set)
  qed (simp add: fun_upd_idem)
  then show "map_of (fold (\<lambda>r. exec_ebt (''-A'' # c # r)) xs t) = (map_of t)(c \<mapsto> (p, rs @ xs))"
    "distinct (map fst (fold (\<lambda>r. exec_ebt (''-A'' # c # r)) xs t))" by simp_all
qed

lemma create_table_eq:
  assumes "distinct (map fst t)" "map_of t ''FORWARD'' = Some (p, fw)" "map_of t (get_chain_name name) = None"
  shows "distinct (map fst (create_table name config t))"
    "map_of (create_table name config t) =
       (map_of t)(''FORWARD'' \<mapsto> (p, fw @ jumps name),
                  get_chain_name name \<mapsto> (''DROP'', bridge_rules name config))"
proof -
  let ?c = "get_chain_name name"
  define t1 where "t1 = tab_set ?c (''ACCEPT'', []) t"
  define t2 where "t2 = tab_set ''FORWARD'' (p, fw @ [[''-i'', name, ''-j'', ?c]]) t1"
  define t3 where "t3 = tab_set ''FORWARD'' (p, fw @ jumps name) t2"
  define t4 where "t4 = tab_set ?c (''DROP'', []) t3"
  have m: "map_of t4 = (map_of t)(''FORWARD'' \<mapsto> (p, fw @ jumps name), ?c \<mapsto> (''DROP'', []))"
    using chain_names(1) [of name]
    by (auto simp: t1_def t2_def t3_def t4_def map_of_tab_set fun_eq_iff)
  have d: "distinct (map fst t4)" by (simp add: t1_def t2_def t3_def t4_def distinct_tab_set assms(1))
  have "exec_ebt [''-N'', ?c] t = t1" unfolding t1_def by (rule exec_ebt_simps(6) [OF assms(3)])
  moreover have "exec_ebt [''-A'', ''FORWARD'', ''-i'', name, ''-j'', ?c] t1 = t2"
    unfolding t2_def by (rule exec_ebt_simps(1)) (use assms(2) chain_names(1) [of name] in \<open>simp add: t1_def map_of_tab_set\<close>)
  moreover have "exec_ebt [''-A'', ''FORWARD'', ''-o'', name, ''-j'', ?c] t2 = t3"
    using exec_ebt_simps(1) [of t2 "''FORWARD''" p "fw @ [[''-i'', name, ''-j'', ?c]]" "[''-o'', name, ''-j'', ?c]"]
    by (simp add: t2_def t3_def map_of_tab_set jumps_def)
  moreover have "exec_ebt [''-P'', ?c, ''DROP''] t3 = t4"
    unfolding t4_def by (rule exec_ebt_simps(4)) (use chain_names(1) [of name] in \<open>simp add: t1_def t2_def t3_def map_of_tab_set\<close>)
  ultimately have c: "create_table name config t = fold (\<lambda>r. exec_ebt (''-A'' # ?c # r)) (bridge_rules name config) t4"
    by (simp add: create_table_def Let_def)
  have "map_of t4 ?c = Some (''DROP'', [])" by (simp add: m)
  from append_rules [OF this d, of "bridge_rules name config"] show
    "distinct (map fst (create_table name config t))"
    "map_of (create_table name config t) =
       (map_of t)(''FORWARD'' \<mapsto> (p, fw @ jumps name), ?c \<mapsto> (''DROP'', bridge_rules name config))"
    by (simp_all add: c m)
qed

lemma bridge_rule_targets: "r \<in> set (bridge_rules name config) \<Longrightarrow> rule_target r = ''ACCEPT'' \<or> rule_target r = ''DROP''"
  by (auto simp: bridge_rules_def ipv4_rules_def split: if_splits)

lemma refs_bridge_rules: "refs (get_chain_name n) (bridge_rules name config) = []"
  using bridge_rule_targets chain_names by (fastforce simp: refs_def filter_empty_conv)

lemma refs_jumps: "refs (get_chain_name n) (jumps name) = (if n = name then jumps name else [])"
  by (auto simp: refs_def jumps_def chain_names)

lemma refs_others: "refs c (others d rs) = (if c = d then [] else refs c rs)"
  by (auto simp: refs_def others_def intro!: filter_cong)

lemma refs_append: "refs c (xs @ ys) = refs c xs @ refs c ys"
  by (simp add: refs_def)

lemma table_ok_clear:
  assumes "table_ok t"
  shows "table_ok (clear_table name t)"
proof -
  obtain p fw where fw: "map_of t ''FORWARD'' = Some (p, fw)" using assms by (auto simp: table_ok_def)
  show ?thesis
    using assms clear_table_eq [OF assms fw, of name] fw chain_names(1,5,6)
    by (auto simp: table_ok_def chain_ok_def refs_others split: if_splits)
qed

lemma table_ok_create:
  assumes "table_ok t" "map_of t (get_chain_name name) = None"
  shows "table_ok (create_table name config t)"
proof -
  obtain p fw where fw: "map_of t ''FORWARD'' = Some (p, fw)" using assms by (auto simp: table_ok_def)
  have d: "distinct (map fst t)" using assms by (simp add: table_ok_def)
  show ?thesis
    using assms create_table_eq [OF d fw assms(2), of config] fw chain_names
    by (auto simp: table_ok_def chain_ok_def refs_append refs_jumps refs_bridge_rules split: if_splits)
qed

section \<open>The whole script on a bridge\<close>

text \<open>The file of the interface, which does not change, gives this configuration.\<close>

definition configured :: "'k vif_env \<Rightarrow> string \<Rightarrow> string \<Rightarrow> string \<Rightarrow> lock_config \<Rightarrow> string \<Rightarrow> bool" where
  "configured ev name uuid devid config bridge \<longleftrightarrow>
     (\<exists>n j. py_int 10 devid = Some n \<and>
        (\<forall>k. sh_json ev (xenops_path ev @ ''/VM/'' @ uuid @ ''/vif.'' @ int_text n) k = Inr j) \<and>
        get_locking_mode \<lparr>vif_name = name, vm_uuid = uuid, vif_devid = n, vif_data = j\<rparr> = Inr config \<and>
        get_bridge \<lparr>vif_name = name, vm_uuid = uuid, vif_devid = n, vif_data = j\<rparr> = Inr (Some bridge))"

lemma configuredE:
  assumes "configured ev name uuid devid config bridge"
  obtains v where "\<forall>s. interface_vif ev name uuid devid s = (Inr v, s)" "get_locking_mode v = Inr config"
    "get_bridge v = Inr (Some bridge)" "vif_name v = name"
  using assms by (auto simp: configured_def interface_vif_def VIF_def bnd_def gets_def lift_sum_def ret_def)

lemma acts_bnd_pure: "(\<And>s. m s = (Inr x, s)) \<Longrightarrow> acts tab (f x) g \<Longrightarrow> acts tab (bnd m f) g"
  by (simp add: acts_def bnd_def)

lemma acts_gets [acts_intros]: "(\<And>k. acts tab (f k) g) \<Longrightarrow> acts tab (bnd (gets h) f) g"
  by (simp add: acts_def bnd_def gets_def)

lemma tools: "ip_tool \<noteq> ebtables" "brctl \<noteq> ebtables"
  by (simp_all add: ip_tool_def brctl_def ebtables_def)

lemma acts_link [acts_intros]: "runs_ebtables ev tab \<Longrightarrow> acts tab (ip_link_set ev dev dir) (\<lambda>t. t)"
  unfolding ip_link_set_def by (intro acts_intros tools)

lemma acts_remove_port [acts_intros]:
  "runs_ebtables ev tab \<Longrightarrow> acts tab (remove_bridge_port ev name) (\<lambda>t. t)"
  unfolding remove_bridge_port_def by (intro acts_intros) (auto split: option.split intro!: acts_intros tools)

lemma acts_add_port [acts_intros]:
  assumes "runs_ebtables ev tab"
  shows "acts tab (add_bridge_port ev (Some b) name) (\<lambda>t. t)"
  unfolding add_bridge_port_def
proof (rule acts_bnd_pure)
  show "lift_sum (some_text (Some b)) s = (Inr b, s)" for s :: "'a vif_host"
    by (simp add: lift_sum_def some_text_def)
  show "acts tab (seq (run_quiet ev [brctl, ''setfd'', b, ''0'']) (run_quiet ev [brctl, ''addif'', b, name])) (\<lambda>t. t)"
    by (intro acts_intros assms tools)
qed

lemma acts_bridge_filter:
  assumes "runs_ebtables ev tab" "configured ev name uuid devid config bridge"
  shows "acts tab (bridge_body ev name uuid devid ''filter'')
    (\<lambda>t. (if cfg_mode config = ''locked'' then create_table name config else (\<lambda>t. t)) (clear_table name t))"
proof -
  obtain v where v: "\<forall>s. interface_vif ev name uuid devid s = (Inr v, s)" "get_locking_mode v = Inr config"
    "get_bridge v = Inr (Some bridge)" "vif_name v = name"
    using assms(2) by (rule configuredE)
  have "acts tab (bnd (interface_vif ev name uuid devid) (\<lambda>v.
             bnd (lift_sum (get_locking_mode v)) (\<lambda>config.
             bnd (lift_sum (get_bridge v)) (\<lambda>bridge_name.
             seq (if cfg_mode config \<noteq> ''disabled'' then add_bridge_port ev bridge_name name else ret ())
               (if cfg_mode config = ''locked'' then create_bridge_rules ev name config else ret ())))))
      (\<lambda>t. (if cfg_mode config = ''locked'' then create_table name config else (\<lambda>t. t))
           ((if cfg_mode config \<noteq> ''disabled'' then (\<lambda>t. t) else (\<lambda>t. t)) t))"
    by (rule acts_bnd_pure [OF v(1) [rule_format]], rule acts_bnd_pure, simp add: lift_sum_def v(2),
        rule acts_bnd_pure, simp add: lift_sum_def v(3)) (intro acts_intros assms)
  from acts_seq [OF acts_link [OF assms(1)] acts_seq [OF acts_clear [OF assms(1)]
      acts_seq [OF acts_remove_port [OF assms(1)] acts_seq [OF this acts_link [OF assms(1)]]]]]
  show ?thesis unfolding bridge_body_def by (simp only: if_cancel if_True refl)
qed

end
