(* ===== verification/Vif_Safety.thy ===== *)
theory Vif_Safety
  imports Vif_Filter
begin

text \<open>
  What a run of the script leaves behind on a Linux bridge: other interfaces
  keep their rules whatever happens, and a locked interface forwards exactly
  the frames its configuration allows, unless an interface set up earlier takes
  the frame first.
\<close>

section \<open>Every run\<close>

definition outside :: "string \<Rightarrow> table \<Rightarrow> string \<Rightarrow> (string \<times> string list list) option" where
  "outside name t c =
     (if c = get_chain_name name then None
      else if c = ''FORWARD'' then map_option (\<lambda>(p, rs). (p, others (get_chain_name name) rs)) (map_of t c)
      else map_of t c)"

lemma others_simps:
  "others c (xs @ ys) = others c xs @ others c ys" "others c (others c rs) = others c rs"
  "others (get_chain_name name) (jumps name) = []"
  by (simp_all add: others_def jumps_def)

lemma outside_clear: "table_ok t \<Longrightarrow> outside name (clear_table name t) = outside name t"
proof -
  assume t: "table_ok t"
  obtain p fw where fw: "map_of t ''FORWARD'' = Some (p, fw)" using t by (auto simp: table_ok_def)
  show ?thesis
    using clear_table_eq(2) [OF t fw, of name] fw chain_names(1,5)
    by (auto simp: outside_def fun_eq_iff others_simps)
qed

lemma cleared:
  assumes "table_ok t" "map_of t ''FORWARD'' = Some (p, fw)"
  shows "map_of (clear_table name t) (get_chain_name name) = None"
    "map_of (clear_table name t) ''FORWARD'' = Some (p, others (get_chain_name name) fw)"
    "distinct (map fst (clear_table name t))"
  using clear_table_eq [OF assms, of name] chain_names(1,5) by simp_all

lemma outside_create:
  assumes "table_ok t" "map_of t (get_chain_name name) = None"
  shows "outside name (create_table name config t) = outside name t"
proof -
  obtain p fw where fw: "map_of t ''FORWARD'' = Some (p, fw)" using assms(1) by (auto simp: table_ok_def)
  have "distinct (map fst t)" using assms(1) by (simp add: table_ok_def)
  from create_table_eq(2) [OF this fw assms(2), of config] fw chain_names(1,5) show ?thesis
    by (auto simp: outside_def fun_eq_iff others_simps)
qed

definition bridge_result :: "string \<Rightarrow> table \<Rightarrow> table \<Rightarrow> bool" where
  "bridge_result name t t' \<longleftrightarrow>
     t' = clear_table name t \<or> (\<exists>config. t' = create_table name config (clear_table name t))"

lemma bridge_result_ok:
  assumes "table_ok t" "bridge_result name t t'"
  shows "table_ok t'" "outside name t' = outside name t"
proof -
  obtain p fw where "map_of t ''FORWARD'' = Some (p, fw)" using assms(1) by (auto simp: table_ok_def)
  note none = cleared(1) [OF assms(1) this, of name]
  note ok = table_ok_clear [OF assms(1), of name]
  show "table_ok t'" "outside name t' = outside name t"
    using assms(2) ok table_ok_create [OF ok none] outside_create [OF ok none] outside_clear [OF assms(1)]
    by (auto simp: bridge_result_def)
qed

definition result_in :: "('k \<Rightarrow> table) \<Rightarrow> ('k, unit) vifop \<Rightarrow> (table \<Rightarrow> table \<Rightarrow> bool) \<Rightarrow> bool" where
  "result_in tab m R \<longleftrightarrow> (\<forall>s. R (tab (vh_machine s)) (tab (vh_machine (snd (m s)))))"

lemma result_inI:
  assumes "\<And>s r s'. m s = (r, s') \<Longrightarrow> R (tab (vh_machine s)) (tab (vh_machine s'))"
  shows "result_in tab m R"
  unfolding result_in_def using assms [OF prod.collapse [symmetric]] by simp

lemma result_inD:
  "result_in tab m R \<Longrightarrow> m s = (r, s') \<Longrightarrow> R (tab (vh_machine s)) (tab (vh_machine s'))"
  by (drule result_in_def [THEN iffD1, THEN spec [of _ s]]) simp

lemma result_in_acts:
  assumes "acts tab m g" "\<And>t. R t (g t)"
  shows "result_in tab m R"
proof (rule result_inI)
  fix s r s'
  assume "m s = (r, s')"
  with actsE [OF assms(1), of s] have "tab (vh_machine s') = g (tab (vh_machine s))" by (metis snd_conv)
  with assms(2) show "R (tab (vh_machine s)) (tab (vh_machine s'))" by simp
qed

lemma bnd_cases:
  assumes "bnd m f s = (r, s')"
  obtains e where "m s = (Inl e, s')" | x s1 where "m s = (Inr x, s1)" "f x s1 = (r, s')"
  using assms by (auto simp: bnd_def split: prod.splits sum.splits)

lemma result_in_seq:
  assumes m: "result_in tab m P" and k: "result_in tab k Q"
    and fail: "\<And>t t'. P t t' \<Longrightarrow> R t t'" and both: "\<And>t t1 t'. P t t1 \<Longrightarrow> Q t1 t' \<Longrightarrow> R t t'"
  shows "result_in tab (seq m k) R"
proof (rule result_inI)
  fix s r s'
  assume "seq m k s = (r, s')"
  then show "R (tab (vh_machine s)) (tab (vh_machine s'))"
    unfolding seq_def
  proof (cases rule: bnd_cases)
    case 1
    from result_inD [OF m this] show ?thesis by (rule fail)
  next
    case (2 x s1)
    from result_inD [OF m 2(1)] result_inD [OF k 2(2)] show ?thesis by (rule both)
  qed
qed

lemma result_in_acts_seq:
  assumes "acts tab m g" "result_in tab k R"
  shows "result_in tab (seq m k) (\<lambda>t. R (g t))"
proof (rule result_inI)
  fix s r s'
  assume r: "seq m k s = (r, s')"
  obtain s1 where s1: "m s = (Inr (), s1)" "tab (vh_machine s1) = g (tab (vh_machine s))"
    using assms(1) by (rule actsE)
  with r have "k s1 = (r, s')" by simp
  from result_inD [OF assms(2) this] s1(2) show "R (g (tab (vh_machine s))) (tab (vh_machine s'))" by simp
qed

lemma result_in_seq_acts:
  assumes "result_in tab m R" "acts tab k (\<lambda>t. t)"
  shows "result_in tab (seq m k) R"
  by (rule result_in_seq [OF assms(1) result_in_acts [OF assms(2), of "\<lambda>t t'. t' = t"]]) simp_all

lemma result_in_pure:
  assumes pure: "\<And>s. snd (m s) = s" and f: "\<And>x. result_in tab (f x) R" and fail: "\<And>t. R t t"
  shows "result_in tab (bnd m f) R"
proof (rule result_inI)
  fix s r s'
  assume "bnd m f s = (r, s')"
  then show "R (tab (vh_machine s)) (tab (vh_machine s'))"
  proof (cases rule: bnd_cases)
    case 1
    with pure [of s] fail show ?thesis by simp
  next
    case (2 x s1)
    with pure [of s] have "f x s = (r, s')" by simp
    with f show ?thesis by (rule result_inD)
  qed
qed

lemma pure_reads:
  "snd (interface_vif ev name uuid devid s) = s" "snd (lift_sum x s) = s"
  by (auto simp: interface_vif_def VIF_def bnd_def gets_def lift_sum_def ret_def throw_def
      split: option.split sum.split)

lemma bridge_body_result:
  assumes "runs_ebtables ev tab"
  shows "result_in tab (bridge_body ev name uuid devid action) (bridge_result name)"
proof -
  let ?R = "\<lambda>t t'. t' = t \<or> (\<exists>config. t' = create_table name config t)"
  have same: "result_in tab m (\<lambda>t t'. t' = t)" if "acts tab m (\<lambda>t. t)" for m :: "('a, unit) vifop"
    by (rule result_in_acts [OF that]) simp
  have add: "result_in tab (add_bridge_port ev b name) (\<lambda>t t'. t' = t)" for b
    unfolding add_bridge_port_def
    by (intro result_in_pure pure_reads same acts_intros assms tools) simp
  have create: "result_in tab (create_bridge_rules ev name config) ?R" for config
    by (rule result_in_acts [OF acts_create [OF assms]]) auto
  have none: "result_in tab (ret ()) ?R" by (rule result_in_acts [OF acts_ret]) simp
  have rules: "result_in tab (seq (if cfg_mode config \<noteq> ''disabled'' then add_bridge_port ev b name else ret ())
      (if cfg_mode config = ''locked'' then create_bridge_rules ev name config else ret ())) ?R" for config b
    by (rule result_in_seq [of _ _ "\<lambda>t t'. t' = t" _ ?R])
      (cases "cfg_mode config = ''disabled''"; cases "cfg_mode config = ''locked''";
        simp add: add same [OF acts_ret] create none)+
  have "result_in tab (if action = ''filter'' then
             bnd (interface_vif ev name uuid devid) (\<lambda>v.
             bnd (lift_sum (get_locking_mode v)) (\<lambda>config.
             bnd (lift_sum (get_bridge v)) (\<lambda>b.
             seq (if cfg_mode config \<noteq> ''disabled'' then add_bridge_port ev b name else ret ())
               (if cfg_mode config = ''locked'' then create_bridge_rules ev name config else ret ()))))
           else ret ()) ?R" (is "result_in tab ?f _")
  proof (cases "action = ''filter''")
    case True
    then show ?thesis by (simp only: if_True refl) (intro result_in_pure pure_reads rules; simp)
  qed (simp add: none)
  from result_in_acts_seq [OF acts_link [OF assms] result_in_acts_seq [OF acts_clear [OF assms]
      result_in_acts_seq [OF acts_remove_port [OF assms] result_in_seq_acts [OF this acts_link [OF assms]]]]]
  show ?thesis unfolding bridge_body_def bridge_result_def .
qed

lemma acquire_lock_table_raw:
  assumes "acquire_lock ev p s = Some s'"
  shows "runs_ebtables ev tab \<longrightarrow> tab (vh_machine s') = tab (vh_machine s)"
proof (rule acquire_lock.raw_induct
    [where P = "\<lambda>ev p s s'. runs_ebtables ev tab \<longrightarrow> tab (vh_machine s') = tab (vh_machine s)", OF _ assms])
  fix acquire and ev :: "'a vif_env" and p s s'
  assume IH: "\<And>ev p s s'. acquire ev p s = Some s' \<Longrightarrow>
      runs_ebtables ev tab \<longrightarrow> tab (vh_machine s') = tab (vh_machine s)"
    and body: "(case sh_try_lock ev p (vh_machine s) of (got, k) \<Rightarrow>
        if got then Some (s\<lparr>vh_machine := k\<rparr>) else acquire ev p (s\<lparr>vh_machine := sh_sleep ev 1 k\<rparr>)) = Some s'"
  show "runs_ebtables ev tab \<longrightarrow> tab (vh_machine s') = tab (vh_machine s)"
  proof
    assume ev: "runs_ebtables ev tab"
    obtain got k where l: "sh_try_lock ev p (vh_machine s) = (got, k)" by fastforce
    then have "tab k = tab (vh_machine s)" using runs_ebtablesD(4) [OF ev] by (metis snd_conv)
    then show "tab (vh_machine s') = tab (vh_machine s)"
      using body l IH [of ev p "s\<lparr>vh_machine := sh_sleep ev 1 k\<rparr>" s'] runs_ebtablesD(5) [OF ev] ev
      by (auto split: if_splits)
  qed
qed

lemma acquire_lock_table:
  "runs_ebtables ev tab \<Longrightarrow> acquire_lock ev p s = Some s' \<Longrightarrow> tab (vh_machine s') = tab (vh_machine s)"
  using acquire_lock_table_raw by blast

lemma handle_bridge_result:
  assumes "runs_ebtables ev tab" "handle_bridge ev name uuid devid action s = Some (r, s')"
  shows "tab (vh_machine s') = tab (vh_machine s) \<or>
    bridge_result name (tab (vh_machine s)) (tab (vh_machine s'))"
proof (cases "action = ''clear'' \<or> action = ''filter''")
  case True
  with assms(2) obtain s1 where s1: "acquire_lock ev ebtables_lock_path s = Some s1"
    "bridge_body ev name uuid devid action s1 = (r, s')"
    by (auto simp: handle_bridge_def)
  have "bridge_result name (tab (vh_machine s1)) (tab (vh_machine (snd (bridge_body ev name uuid devid action s1))))"
    using bridge_body_result [OF assms(1)] by (simp add: result_in_def)
  with s1 acquire_lock_table [OF assms(1) s1(1)] show ?thesis by simp
qed (use assms(2) in \<open>simp add: handle_bridge_def\<close>)

section \<open>Verdicts\<close>

lemma eval_matching:
  "eval_rules n t rs p f = eval_rules n t (filter (\<lambda>r. rule_match r f) rs) p f"
proof (induction rs)
  case (Cons r rs)
  show ?case by (simp only: filter.simps eval_rules.simps Cons.IH [symmetric] split: if_split) simp
qed simp

lemma eval_final:
  "(\<And>r. r \<in> set rs \<Longrightarrow> rule_target r = ''ACCEPT'' \<or> rule_target r = ''DROP'') \<Longrightarrow>
   eval_rules n t rs p f = (case find (\<lambda>r. rule_match r f) rs of None \<Rightarrow> p | Some r \<Rightarrow> rule_target r)"
  by (induction rs) auto

lemma eval_chain:
  assumes "rule_match r f" "rule_target r = get_chain_name name"
    "map_of t (get_chain_name name) = Some (''DROP'', bridge_rules name config)"
  shows "eval_rules (Suc n) t (r # rs) p f =
    (case find (\<lambda>r. rule_match r f) (bridge_rules name config) of None \<Rightarrow> ''DROP'' | Some r \<Rightarrow> rule_target r)"
proof -
  let ?v = "case find (\<lambda>r. rule_match r f) (bridge_rules name config) of None \<Rightarrow> ''DROP'' | Some r \<Rightarrow> rule_target r"
  have e: "eval_rules n t (bridge_rules name config) ''DROP'' f = ?v"
    by (rule eval_final) (rule bridge_rule_targets)
  have "?v = ''DROP'' \<or> ?v = ''ACCEPT''"
    using bridge_rule_targets [of _ name config]
    by (auto simp: find_Some_iff split: option.split dest: nth_mem)
  then have "?v \<noteq> ''RETURN''" by auto
  with e show ?thesis using assms chain_names [of name] by simp
qed

text \<open>The rules of a chain as one condition.\<close>

definition sends_dhcp :: "frame \<Rightarrow> bool" where
  "sends_dhcp f \<longleftrightarrow> fr_proto f = ''IPv4'' \<and> fr_ip_proto f = ''UDP'' \<and> fr_ip_dport f = ''67''"

definition sends_from :: "string \<Rightarrow> string \<Rightarrow> frame \<Rightarrow> bool" where
  "sends_from mac ip f \<longleftrightarrow>
     fr_proto f = ''ARP'' \<and> fr_arp_ip_src f = ip \<and>
       (fr_arp_opcode f = ''Request'' \<or> fr_arp_opcode f = ''Reply'' \<and> fr_arp_mac_src f = mac) \<or>
     fr_proto f = ''IPv4'' \<and> fr_ip_src f = ip"

definition allowed :: "string \<Rightarrow> lock_config \<Rightarrow> frame \<Rightarrow> bool" where
  "allowed name config f \<longleftrightarrow>
     fr_out f = name \<or>
     fr_src f = cfg_mac config \<and>
       (sends_dhcp f \<or> (\<exists>ip \<in> set (cfg_ipv4 config). sends_from (cfg_mac config) ip f) \<or>
        cfg_ipv6 config \<noteq> [] \<and> fr_proto f = ''IPv6'')"

lemma find_append: "find P (xs @ ys) = (case find P xs of None \<Rightarrow> find P ys | Some x \<Rightarrow> Some x)"
  by (induction xs) auto

lemma find_accepts:
  "(\<And>r. r \<in> set xs \<Longrightarrow> rule_target r = ''ACCEPT'') \<Longrightarrow>
   (case find P xs of None \<Rightarrow> ''DROP'' | Some r \<Rightarrow> rule_target r) = (if \<exists>r \<in> set xs. P r then ''ACCEPT'' else ''DROP'')"
  by (induction xs) auto

lemma ipv4_matches:
  "fr_in f = name \<Longrightarrow> (\<exists>r \<in> set (ipv4_rules name mac ip). rule_match r f) \<longleftrightarrow> sends_from mac ip f"
  by (auto simp: ipv4_rules_def sends_from_def option_holds_def)

lemma bridge_verdict:
  assumes "fr_in f = name \<or> fr_out f = name"
  shows "(case find (\<lambda>r. rule_match r f) (bridge_rules name config) of None \<Rightarrow> ''DROP'' | Some r \<Rightarrow> rule_target r) =
    (if allowed name config f then ''ACCEPT'' else ''DROP'')"
proof (cases "fr_out f = name")
  case True
  then show ?thesis by (simp add: bridge_rules_def allowed_def option_holds_def)
next
  case False
  with assms have i: "fr_in f = name" by simp
  define rest where "rest = [''-p'', ''IPv4'', ''-i'', name, ''--ip-protocol'', ''UDP'', ''--ip-dport'', ''67'', ''-j'', ''ACCEPT'']
     # concat (map (ipv4_rules name (cfg_mac config)) (cfg_ipv4 config))
     @ (if cfg_ipv6 config \<noteq> [] then [[''-p'', ''IPv6'', ''-i'', name, ''-j'', ''ACCEPT'']] else [])"
  have rules: "bridge_rules name config =
      [''-o'', name, ''-j'', ''ACCEPT''] # [''-s'', ''!'', cfg_mac config, ''-i'', name, ''-j'', ''DROP''] # rest"
    by (simp add: bridge_rules_def rest_def)
  have accept: "\<And>r. r \<in> set rest \<Longrightarrow> rule_target r = ''ACCEPT''"
    by (auto simp: rest_def ipv4_rules_def split: if_splits)
  have match: "(\<exists>r \<in> set rest. rule_match r f) \<longleftrightarrow>
      sends_dhcp f \<or> (\<exists>ip \<in> set (cfg_ipv4 config). sends_from (cfg_mac config) ip f) \<or>
      cfg_ipv6 config \<noteq> [] \<and> fr_proto f = ''IPv6''"
    using ipv4_matches [OF i] i by (auto simp: rest_def sends_dhcp_def option_holds_def)
  show ?thesis
    using False i find_accepts [OF accept] match
    by (simp add: rules allowed_def option_holds_def)
qed

section \<open>Setting up a locked interface\<close>

lemma handle_bridge_acts:
  assumes "runs_ebtables ev tab" "action = ''clear'' \<or> action = ''filter''"
    "acts tab (bridge_body ev name uuid devid action) g" "handle_bridge ev name uuid devid action s = Some (r, s')"
  shows "r = Inr ()" "tab (vh_machine s') = g (tab (vh_machine s))"
proof -
  from assms(2,4) obtain s1 where s1: "acquire_lock ev ebtables_lock_path s = Some s1"
    "bridge_body ev name uuid devid action s1 = (r, s')"
    by (auto simp: handle_bridge_def)
  obtain s2 where "bridge_body ev name uuid devid action s1 = (Inr (), s2)"
    "tab (vh_machine s2) = g (tab (vh_machine s1))"
    using assms(3) by (rule actsE)
  with s1 acquire_lock_table [OF assms(1) s1(1)] show "r = Inr ()" "tab (vh_machine s') = g (tab (vh_machine s))"
    by simp_all
qed

lemma acts_bridge_clear:
  assumes "runs_ebtables ev tab"
  shows "acts tab (bridge_body ev name uuid devid ''clear'') (clear_table name)"
proof -
  from acts_seq [OF acts_link [OF assms] acts_seq [OF acts_clear [OF assms]
      acts_seq [OF acts_remove_port [OF assms] acts_seq [OF acts_ret acts_link [OF assms]]]]]
  show ?thesis by (simp add: bridge_body_def)
qed

lemma locked_table:
  assumes "runs_ebtables ev tab" "configured ev name uuid devid config bridge" "cfg_mode config = ''locked''"
    "table_ok (tab (vh_machine s))" "map_of (tab (vh_machine s)) ''FORWARD'' = Some (p, fw)"
    "handle_bridge ev name uuid devid ''filter'' s = Some (r, s')"
  shows "r = Inr ()"
    "map_of (tab (vh_machine s')) = (map_of (tab (vh_machine s)))
       (''FORWARD'' \<mapsto> (p, others (get_chain_name name) fw @ jumps name),
        get_chain_name name \<mapsto> (''DROP'', bridge_rules name config))"
proof -
  note h = handle_bridge_acts [OF assms(1) _ acts_bridge_filter [OF assms(1,2)] assms(6)]
  show "r = Inr ()" by (rule h) simp
  have t': "tab (vh_machine s') = create_table name config (clear_table name (tab (vh_machine s)))"
    using h(2) assms(3) by simp
  note c = cleared [OF assms(4,5), of name]
  show "map_of (tab (vh_machine s')) = (map_of (tab (vh_machine s)))
       (''FORWARD'' \<mapsto> (p, others (get_chain_name name) fw @ jumps name),
        get_chain_name name \<mapsto> (''DROP'', bridge_rules name config))"
    unfolding t' create_table_eq(2) [OF c(3,2,1)] clear_table_eq(2) [OF assms(4,5)]
    using chain_names(1) [of name] by auto
qed

lemma forwards_eq:
  "map_of t ''FORWARD'' = Some (p, rs) \<Longrightarrow> filter (\<lambda>r. rule_match r f) rs = r # rs' \<Longrightarrow>
   rule_target r = get_chain_name name \<Longrightarrow> map_of t (get_chain_name name) = Some (''DROP'', bridge_rules name config) \<Longrightarrow>
   fr_in f = name \<or> fr_out f = name \<Longrightarrow> forwards t f \<longleftrightarrow> allowed name config f"
proof -
  assume a: "map_of t ''FORWARD'' = Some (p, rs)" "filter (\<lambda>r. rule_match r f) rs = r # rs'"
    "rule_target r = get_chain_name name" "map_of t (get_chain_name name) = Some (''DROP'', bridge_rules name config)"
    "fr_in f = name \<or> fr_out f = name"
  have "rule_match r f" using a(2) by (auto simp: filter_eq_Cons_iff)
  from eval_chain [OF this a(3,4), of 1 rs' p] bridge_verdict [OF a(5), of config]
  have "eval_rules 2 t rs p f = (if allowed name config f then ''ACCEPT'' else ''DROP'')"
    unfolding eval_matching [of 2 t rs] a(2) by (simp add: numeral_2_eq_2)
  then show "forwards t f \<longleftrightarrow> allowed name config f" by (simp add: forwards_def a(1))
qed

lemma jumps_match:
  "fr_in f = name \<or> fr_out f = name \<Longrightarrow>
   \<exists>r rs'. filter (\<lambda>r. rule_match r f) (jumps name) = r # rs' \<and> rule_target r = get_chain_name name"
  by (auto simp: jumps_def option_holds_def)

section \<open>A machine\<close>

text \<open>The state is a table, and any other command succeeds and does nothing.\<close>

definition demo_run :: "string list \<Rightarrow> table \<Rightarrow> (int \<times> string) \<times> table" where
  "demo_run args t =
     (case drop 2 args of
        c # rest \<Rightarrow> if c = ebtables then ((fst (ebt_exec rest t), []), snd (ebt_exec rest t)) else ((0, []), t)
      | [] \<Rightarrow> ((0, []), t))"

definition demo_json :: vif_json where
  "demo_json = \<lparr>j_backend = Some [''Local'', ''xenbr0''], j_mac = Some ''02:01'', j_mtu = None,
     j_other_config = None, j_extra_private_keys = None,
     j_locking_mode = Some (Mode_List (Some ''Locked'') (Some (Some [''10.0.0.1''], Some [])))\<rparr>"

definition demo_host :: "table vif_env" where
  "demo_host = \<lparr>sh_run = demo_run, sh_exists = (\<lambda>p t. False), sh_readlink = (\<lambda>p t. None),
     sh_json = (\<lambda>p t. Inr demo_json), sh_try_lock = (\<lambda>p t. (True, t)), sh_sleep = (\<lambda>n t. t),
     sh_path = ''/sbin'', xenops_path = ''/var/run''\<rparr>"

definition demo_config :: lock_config where
  "demo_config = \<lparr>cfg_mac = ''02:01'', cfg_mode = ''locked'', cfg_ipv4 = [''10.0.0.1''], cfg_ipv6 = []\<rparr>"

definition demo_table :: table where
  "demo_table = [(''FORWARD'', ''ACCEPT'', jumps ''vif1.0''), (get_chain_name ''vif1.0'', ''DROP'', bridge_rules ''vif1.0'' demo_config)]"

definition demo_state :: "table vif_host" where
  "demo_state = \<lparr>vh_machine = demo_table, vh_ran = []\<rparr>"

definition demo_frame :: "string \<Rightarrow> string \<Rightarrow> frame" where
  "demo_frame mac out = \<lparr>fr_in = ''vif2.0'', fr_out = out, fr_src = mac, fr_proto = ''IPv4'', fr_ip_proto = ''TCP'',
     fr_ip_dport = ''80'', fr_ip_src = ''10.0.0.1'', fr_arp_opcode = [], fr_arp_ip_src = [], fr_arp_mac_src = []\<rparr>"

lemma demo_runs: "runs_ebtables demo_host (\<lambda>t. t)"
  by (simp add: runs_ebtables_def command_def demo_host_def demo_run_def)

lemma demo_configured: "configured demo_host ''vif2.0'' ''vm'' ''0'' demo_config ''xenbr0''"
  unfolding configured_def by (rule exI [of _ 0], rule exI [of _ demo_json]) (simp add: demo_host_def, code_simp)

lemma demo_table_ok: "table_ok demo_table"
  unfolding table_ok_def
proof (intro conjI allI)
  show "chain_ok n demo_table" for n
    using chain_names [of "''vif1.0''"] chain_names [of n]
    by (auto simp: chain_ok_def demo_table_def refs_jumps refs_bridge_rules split: if_splits)
qed (simp_all add: demo_table_def chain_names)

lemma demo_lock: "acquire_lock demo_host p s = Some s"
  by (subst acquire_lock.simps) (simp add: demo_host_def)

lemma demo_handles:
  obtains r s' where "handle_bridge demo_host ''vif2.0'' ''vm'' ''0'' ''filter'' demo_state = Some (r, s')"
proof
  let ?h = "bridge_body demo_host ''vif2.0'' ''vm'' ''0'' ''filter'' demo_state"
  show "handle_bridge demo_host ''vif2.0'' ''vm'' ''0'' ''filter'' demo_state = Some (fst ?h, snd ?h)"
    by (simp add: handle_bridge_def demo_lock)
qed

section \<open>The properties\<close>

text \<open>
  C31: Whatever the action and however the run ends (a missing file, a missing
  key, an interface without a bridge), the table stays well formed, every other
  chain keeps its policy and rules, and \<^verbatim>\<open>FORWARD\<close> its policy and all rules
  that do not jump to the chain of this interface, in their order.
\<close>

lemma other_interfaces_kept:
  assumes "runs_ebtables ev tab" "table_ok (tab (vh_machine s))"
    "handle_bridge ev name uuid devid action s = Some (r, s')"
  shows "table_ok (tab (vh_machine s')) \<and> outside name (tab (vh_machine s')) = outside name (tab (vh_machine s))"
  using handle_bridge_result [OF assms(1,3)] bridge_result_ok [OF assms(2)] assms(2) by metis

lemma other_interfaces_kept_witness:
  "\<exists>r s'. handle_bridge demo_host ''vif2.0'' ''vm'' ''0'' ''filter'' demo_state = Some (r, s') \<and>
     outside ''vif2.0'' (vh_machine s') (get_chain_name ''vif1.0'') = Some (''DROP'', bridge_rules ''vif1.0'' demo_config)"
proof -
  obtain r s' where h: "handle_bridge demo_host ''vif2.0'' ''vm'' ''0'' ''filter'' demo_state = Some (r, s')"
    by (rule demo_handles)
  have "outside ''vif2.0'' demo_table (get_chain_name ''vif1.0'') = Some (''DROP'', bridge_rules ''vif1.0'' demo_config)"
    by (simp add: outside_def demo_table_def chain_names)
  with other_interfaces_kept [OF demo_runs _ h] h demo_table_ok show ?thesis by (simp add: demo_state_def)
qed

text \<open>
  C29: Once the script has set up a locked interface, a frame from or to it that
  no rule of another interface takes is forwarded exactly when it goes to the
  interface, or has its MAC address and is a DHCP request, ARP or IPv4 from one
  of its addresses, or IPv6 when it has an IPv6 address; the script succeeds.
\<close>

lemma locked_interface_filtered:
  assumes "runs_ebtables ev tab" "configured ev name uuid devid config bridge" "cfg_mode config = ''locked''"
    "table_ok (tab (vh_machine s))" "map_of (tab (vh_machine s)) ''FORWARD'' = Some (p, fw)"
    "handle_bridge ev name uuid devid ''filter'' s = Some (r, s')"
    "fr_in f = name \<or> fr_out f = name" "\<forall>r \<in> set (others (get_chain_name name) fw). \<not> rule_match r f"
  shows "r = Inr () \<and> (forwards (tab (vh_machine s')) f \<longleftrightarrow> allowed name config f)"
proof -
  note t' = locked_table [OF assms(1-6)]
  obtain j rs where j: "filter (\<lambda>r. rule_match r f) (jumps name) = j # rs" "rule_target j = get_chain_name name"
    using jumps_match [OF assms(7)] by blast
  have "filter (\<lambda>r. rule_match r f) (others (get_chain_name name) fw @ jumps name) = j # rs"
    using assms(8) j(1) by (simp add: filter_empty_conv)
  from forwards_eq [OF _ this j(2) _ assms(7)] t' show ?thesis by (simp add: chain_names)
qed

lemma locked_interface_filtered_witness:
  "\<exists>r s'. handle_bridge demo_host ''vif2.0'' ''vm'' ''0'' ''filter'' demo_state = Some (r, s') \<and>
     forwards (vh_machine s') (demo_frame ''02:01'' ''eth0'') \<and> \<not> forwards (vh_machine s') (demo_frame ''02:02'' ''eth0'')"
proof -
  obtain r s' where h: "handle_bridge demo_host ''vif2.0'' ''vm'' ''0'' ''filter'' demo_state = Some (r, s')"
    by (rule demo_handles)
  have m: "map_of demo_table ''FORWARD'' = Some (''ACCEPT'', jumps ''vif1.0'')" by (simp add: demo_table_def)
  have "forwards (vh_machine s') (demo_frame mac ''eth0'') \<longleftrightarrow> allowed ''vif2.0'' demo_config (demo_frame mac ''eth0'')" for mac
    by (rule locked_interface_filtered [OF demo_runs demo_configured _ _ _ h, THEN conjunct2])
      (use m demo_table_ok in \<open>auto simp: demo_config_def demo_state_def demo_frame_def others_def jumps_def option_holds_def\<close>)
  then show ?thesis using h
    by (simp add: allowed_def demo_frame_def demo_config_def sends_dhcp_def sends_from_def)
qed

text \<open>
  The filter of an interface is passed by when the frame goes to an
  interface set up before it: the jump to the chain of the receiver comes
  first in \<^verbatim>\<open>FORWARD\<close>, and its first rule accepts every frame for the
  receiver, whatever address the sender writes into it.
\<close>

lemma earlier_interface_takes_frames:
  assumes "runs_ebtables ev tab" "configured ev name uuid devid config bridge" "cfg_mode config = ''locked''"
    "table_ok (tab (vh_machine s))" "map_of (tab (vh_machine s)) ''FORWARD'' = Some (p, fw)"
    "map_of (tab (vh_machine s)) (get_chain_name other) = Some (''DROP'', bridge_rules other config')" "other \<noteq> name"
    "handle_bridge ev name uuid devid ''filter'' s = Some (r, s')"
    "fr_in f = name" "fr_out f = other"
    "\<forall>r \<in> set fw. rule_target r \<noteq> get_chain_name other \<longrightarrow> \<not> rule_match r f"
  shows "forwards (tab (vh_machine s')) f"
proof -
  let ?t = "tab (vh_machine s)" and ?c = "get_chain_name name" and ?d = "get_chain_name other"
  let ?j = "[''-o'', other, ''-j'', ?d]"
  note t' = locked_table(2) [OF assms(1-5,8)]
  have "refs ?d fw = jumps other"
    using assms(4-6) by (auto simp: table_ok_def chain_ok_def)
  moreover have "refs ?d (others ?c fw) = refs ?d fw" using assms(7) by (auto simp: refs_others chain_names)
  ultimately have d: "refs ?d (others ?c fw) = jumps other" by simp
  have "filter (\<lambda>r. rule_match r f) (others ?c fw) = filter (\<lambda>r. rule_match r f) (refs ?d (others ?c fw))"
    unfolding refs_def filter_filter by (rule filter_cong) (use assms(11) in \<open>auto simp: others_def\<close>)
  also have "\<dots> = [?j]" unfolding d using assms(7,9,10) by (simp add: jumps_def option_holds_def)
  finally have "filter (\<lambda>r. rule_match r f) (others ?c fw @ jumps name) = ?j # filter (\<lambda>r. rule_match r f) (jumps name)"
    by simp
  from forwards_eq [OF _ this, where name = other and config = config'] t' assms(6,7,10)
  show ?thesis by (simp add: chain_names allowed_def)
qed

lemma earlier_interface_takes_frames_witness:
  "\<exists>r s'. handle_bridge demo_host ''vif2.0'' ''vm'' ''0'' ''filter'' demo_state = Some (r, s') \<and>
     forwards (vh_machine s') (demo_frame ''66:66'' ''vif1.0'')"
proof -
  obtain r s' where h: "handle_bridge demo_host ''vif2.0'' ''vm'' ''0'' ''filter'' demo_state = Some (r, s')"
    by (rule demo_handles)
  have m: "map_of demo_table ''FORWARD'' = Some (''ACCEPT'', jumps ''vif1.0'')"
    "map_of demo_table (get_chain_name ''vif1.0'') = Some (''DROP'', bridge_rules ''vif1.0'' demo_config)"
    by (simp_all add: demo_table_def chain_names)
  have "forwards (vh_machine s') (demo_frame ''66:66'' ''vif1.0'')"
    by (rule earlier_interface_takes_frames [OF demo_runs demo_configured _ _ _ _ _ h, where other = "''vif1.0''"])
      (use m demo_table_ok in \<open>auto simp: demo_config_def demo_state_def demo_frame_def jumps_def option_holds_def\<close>)
  with h show ?thesis by blast
qed

text \<open>
  Clearing takes back what filtering has set up: after both, the table
  gives every chain the policy and the rules it had before the interface came.
\<close>

lemma clear_undoes_filter:
  assumes "runs_ebtables ev tab" "table_ok (tab (vh_machine s))"
    "map_of (tab (vh_machine s)) (get_chain_name name) = None"
    "handle_bridge ev name uuid devid ''filter'' s = Some (r, s1)"
    "handle_bridge ev name uuid devid ''clear'' s1 = Some (r', s2)"
  shows "r' = Inr () \<and> map_of (tab (vh_machine s2)) = map_of (tab (vh_machine s))"
proof -
  let ?t = "tab (vh_machine s)" and ?t1 = "tab (vh_machine s1)" and ?c = "get_chain_name name"
  have ok1: "table_ok ?t1" and out: "outside name ?t1 = outside name ?t"
    using handle_bridge_result [OF assms(1,4)] bridge_result_ok [OF assms(2)] assms(2) by metis+
  obtain p fw where fw: "map_of ?t ''FORWARD'' = Some (p, fw)" using assms(2) by (auto simp: table_ok_def)
  obtain p1 fw1 where fw1: "map_of ?t1 ''FORWARD'' = Some (p1, fw1)" using ok1 by (auto simp: table_ok_def)
  note h = handle_bridge_acts [OF assms(1) _ acts_bridge_clear [OF assms(1)] assms(5)]
  have "refs ?c fw = []" using assms(2,3) fw by (simp add: table_ok_def chain_ok_def)
  then have o: "others ?c fw = fw" by (rule others_none)
  have "map_of (tab (vh_machine s2)) d = map_of ?t d" for d
    using fun_cong [OF out, of d] clear_table_eq(2) [OF ok1 fw1, of name] h(2) fw fw1 o assms(3) chain_names(1,5)
    by (auto simp: outside_def split: if_splits)
  moreover have "r' = Inr ()" by (rule h) simp
  ultimately show ?thesis by auto
qed

lemma clear_undoes_filter_witness:
  "\<exists>s1 s2. handle_bridge demo_host ''vif2.0'' ''vm'' ''0'' ''clear'' s1 = Some (Inr (), s2) \<and>
     map_of (vh_machine s2) = map_of demo_table"
proof -
  obtain r s1 where h: "handle_bridge demo_host ''vif2.0'' ''vm'' ''0'' ''filter'' demo_state = Some (r, s1)"
    by (rule demo_handles)
  let ?h = "bridge_body demo_host ''vif2.0'' ''vm'' ''0'' ''clear'' s1"
  have h2: "handle_bridge demo_host ''vif2.0'' ''vm'' ''0'' ''clear'' s1 = Some (fst ?h, snd ?h)"
    by (simp add: handle_bridge_def demo_lock)
  have "map_of demo_table (get_chain_name ''vif2.0'') = None" by (simp add: demo_table_def chain_names)
  then have "fst ?h = Inr () \<and> map_of (vh_machine (snd ?h)) = map_of demo_table"
    using clear_undoes_filter [OF demo_runs _ _ h h2] demo_table_ok by (simp add: demo_state_def)
  with h2 show ?thesis by metis
qed

end
