(* ===== verification/Vif_Flows.thy ===== *)
theory Vif_Flows
  imports Vif_Filter
begin

text \<open>
  What the flows for Open vSwitch achieve. The texts passed to
  \<^verbatim>\<open>ovs-ofctl add-flow\<close> are read back into fields; a packet is decided by the
  matching flows of the highest priority. How an address argument, which may
  have a mask, matches an address is a parameter.
\<close>

section \<open>Packets and flows\<close>

record packet =
  pk_port :: string
  pk_src :: string
  pk_type :: int
  pk_proto :: int
  pk_dport :: int
  pk_icmp :: int
  pk_ip_src :: string
  pk_arp_sha :: string
  pk_nd_sll :: string
  pk_nd_target :: string

type_synonym flow_fields = "(string \<times> string option) list"

definition parse_item :: "string \<Rightarrow> string \<times> string option" where
  "parse_item t = (if CHR ''='' \<in> set t
     then (takeWhile (\<lambda>c. c \<noteq> CHR ''='') t, Some (drop 1 (dropWhile (\<lambda>c. c \<noteq> CHR ''='') t)))
     else (t, None))"

definition parse_flow :: "string \<Rightarrow> flow_fields" where
  "parse_flow t = map parse_item (py_split CHR '','' t)"

definition number :: "string option \<Rightarrow> int option" where
  "number v = Option.bind v (\<lambda>t. py_int (if take 2 t = ''0x'' then 16 else 10) t)"

definition item_holds :: "(string \<Rightarrow> string \<Rightarrow> bool) \<Rightarrow> packet \<Rightarrow> string \<times> string option \<Rightarrow> bool" where
  "item_holds am p kv =
     (let k = fst kv; v = snd kv in
      if k = ''in_port'' then v = Some (pk_port p)
      else if k = ''dl_src'' then v = Some (pk_src p)
      else if k = ''dl_type'' then number v = Some (pk_type p)
      else if k = ''nw_proto'' then number v = Some (pk_proto p)
      else if k = ''tp_dst'' then number v = Some (pk_dport p)
      else if k = ''icmp_type'' then number v = Some (pk_icmp p)
      else if k = ''nw_src'' \<or> k = ''ipv6_src'' then (case v of None \<Rightarrow> False | Some a \<Rightarrow> am a (pk_ip_src p))
      else if k = ''arp_sha'' then v = Some (pk_arp_sha p)
      else if k = ''nd_sll'' then v = Some (pk_nd_sll p)
      else if k = ''nd_target'' then (case v of None \<Rightarrow> False | Some a \<Rightarrow> am a (pk_nd_target p))
      else if k = ''icmp6'' then pk_type p = 0x86dd \<and> pk_proto p = 58
      else if k = ''tcp6'' then pk_type p = 0x86dd \<and> pk_proto p = 6
      else if k = ''udp6'' then pk_type p = 0x86dd \<and> pk_proto p = 17
      else k = ''cookie'' \<or> k = ''priority'' \<or> k = ''idle_timeout'' \<or> k = ''action'')"

definition flow_matches :: "(string \<Rightarrow> string \<Rightarrow> bool) \<Rightarrow> packet \<Rightarrow> flow_fields \<Rightarrow> bool" where
  "flow_matches am p f = list_all (item_holds am p) f"

definition flow_priority :: "flow_fields \<Rightarrow> int" where
  "flow_priority f = (case map_of f ''priority'' of None \<Rightarrow> 32768
     | Some v \<Rightarrow> (case number v of None \<Rightarrow> 32768 | Some n \<Rightarrow> n))"

definition flow_action :: "flow_fields \<Rightarrow> string" where
  "flow_action f = (case map_of f ''action'' of Some (Some a) \<Rightarrow> a | _ \<Rightarrow> [])"

text \<open>The flows a switch may choose from, and the action when they agree on it.\<close>

definition best_flows :: "(string \<Rightarrow> string \<Rightarrow> bool) \<Rightarrow> flow_fields list \<Rightarrow> packet \<Rightarrow> flow_fields list" where
  "best_flows am fs p =
     filter (\<lambda>f. flow_matches am p f \<and> list_all (\<lambda>g. flow_matches am p g \<longrightarrow> flow_priority g \<le> flow_priority f) fs) fs"

definition switch_does :: "(string \<Rightarrow> string \<Rightarrow> bool) \<Rightarrow> string list \<Rightarrow> packet \<Rightarrow> string \<Rightarrow> bool" where
  "switch_does am ts p action \<longleftrightarrow>
     (let best = best_flows am (map parse_flow ts) p in
      best \<noteq> [] \<and> list_all (\<lambda>f. flow_action f = action) best)"

lemma best_exists:
  assumes "f \<in> set fs" "flow_matches am p f"
  shows "\<exists>b \<in> set (best_flows am fs p). flow_priority f \<le> flow_priority b"
proof -
  let ?M = "{g \<in> set fs. flow_matches am p g}"
  have "finite (flow_priority ` ?M)" "flow_priority ` ?M \<noteq> {}" using assms by auto
  from Max_in [OF this] obtain b where b: "b \<in> ?M" "flow_priority b = Max (flow_priority ` ?M)" by auto
  have "flow_priority g \<le> flow_priority b" if "g \<in> ?M" for g
    unfolding b(2) using that by (intro Max_ge) auto
  with b(1) assms show ?thesis by (auto simp: best_flows_def list_all_iff intro!: bexI [of _ b])
qed

lemma switch_does_iff:
  "switch_does am ts p action \<longleftrightarrow>
   (\<exists>f \<in> set (map parse_flow ts). flow_matches am p f \<and> flow_action f = action \<and>
      (\<forall>g \<in> set (map parse_flow ts). flow_matches am p g \<longrightarrow> flow_priority f \<le> flow_priority g \<longrightarrow> flow_action g = action))"
    (is "_ \<longleftrightarrow> (\<exists>f \<in> set ?fs. ?Q f)")
proof
  assume "switch_does am ts p action"
  then obtain b where b: "b \<in> set (best_flows am ?fs p)" and all: "\<forall>b \<in> set (best_flows am ?fs p). flow_action b = action"
    by (auto simp: switch_does_def Let_def list_all_iff) (metis list.set_sel(1))
  have "g \<in> set (best_flows am ?fs p)"
    if "g \<in> set ?fs" "flow_matches am p g" "flow_priority b \<le> flow_priority g" for g
    using b that unfolding best_flows_def list_all_iff set_filter by (blast intro: order_trans)
  with b all have "?Q b" by (auto simp: best_flows_def)
  moreover have "b \<in> set ?fs" using b by (auto simp: best_flows_def)
  ultimately show "\<exists>f \<in> set ?fs. ?Q f" by blast
next
  assume "\<exists>f \<in> set ?fs. ?Q f"
  then obtain f where f: "f \<in> set ?fs" "?Q f" by blast
  then obtain b where "b \<in> set (best_flows am ?fs p)" "flow_priority f \<le> flow_priority b"
    using best_exists [of f ?fs am p] by blast
  moreover have "flow_action c = action" if "c \<in> set (best_flows am ?fs p)" for c
  proof -
    have "c \<in> set ?fs" "flow_matches am p c" "flow_priority f \<le> flow_priority c"
      using that f by (auto simp: best_flows_def list_all_iff)
    with f show ?thesis by blast
  qed
  ultimately show "switch_does am ts p action" by (auto simp: switch_does_def Let_def list_all_iff)
qed

section \<open>Reading the texts back\<close>

definition plain_text :: "string \<Rightarrow> bool" where
  "plain_text t \<longleftrightarrow> CHR '','' \<notin> set t \<and> CHR ''='' \<notin> set t"

definition plain_item :: "string \<times> string option \<Rightarrow> bool" where
  "plain_item kv \<longleftrightarrow> plain_text (fst kv) \<and> (case snd kv of None \<Rightarrow> True | Some v \<Rightarrow> plain_text v)"

definition item_text :: "string \<times> string option \<Rightarrow> string" where
  "item_text kv = (case snd kv of None \<Rightarrow> fst kv | Some x \<Rightarrow> fst kv @ ''='' @ x)"

lemma parse_item_text: "plain_item kv \<Longrightarrow> parse_item (item_text kv) = kv"
  by (cases kv) (auto simp: plain_item_def plain_text_def item_text_def parse_item_def takeWhile_append
      dropWhile_append split: option.splits)

lemma py_split_join_plain:
  "xs \<noteq> [] \<Longrightarrow> (\<And>x. x \<in> set xs \<Longrightarrow> c \<notin> set x) \<Longrightarrow> py_split c (py_join [c] xs) = xs"
  by (induction xs rule: induct_list012) (simp_all add: py_split_none py_split_append)

lemma parse_flow_text:
  assumes "f \<noteq> []" "list_all plain_item f"
  shows "parse_flow (''cookie=1,'' @ flow_text f) = (''cookie'', Some ''1'') # f"
proof -
  have t: "flow_text f = py_join '','' (map item_text f)"
    unfolding flow_text_def by (rule arg_cong [where f = "py_join '',''"]) (auto simp: item_text_def split: option.split)
  have "py_split CHR '','' (flow_text f) = map item_text f"
    unfolding t using assms
    by (intro py_split_join_plain) (auto simp: list_all_iff plain_item_def plain_text_def item_text_def split: option.splits)
  then have "py_split CHR '','' (''cookie=1'' @ CHR '','' # flow_text f) = ''cookie=1'' # map item_text f"
    by (subst py_split_append) simp_all
  moreover have "parse_item ''cookie=1'' = (''cookie'', Some ''1'')" by code_simp
  moreover have "map (parse_item \<circ> item_text) f = f"
    using assms(2) by (intro map_idI) (simp add: parse_item_text list_all_iff)
  ultimately show ?thesis by (simp add: parse_flow_def)
qed

section \<open>The flows of a locked interface\<close>

definition read_flow :: "flow_fields \<Rightarrow> flow_fields" where
  "read_flow f = (''cookie'', Some ''1'') # f"

lemma item_simps [simp]:
  "item_holds am p (''in_port'', v) \<longleftrightarrow> v = Some (pk_port p)"
  "item_holds am p (''dl_src'', v) \<longleftrightarrow> v = Some (pk_src p)"
  "item_holds am p (''dl_type'', v) \<longleftrightarrow> number v = Some (pk_type p)"
  "item_holds am p (''nw_proto'', v) \<longleftrightarrow> number v = Some (pk_proto p)"
  "item_holds am p (''tp_dst'', v) \<longleftrightarrow> number v = Some (pk_dport p)"
  "item_holds am p (''icmp_type'', v) \<longleftrightarrow> number v = Some (pk_icmp p)"
  "item_holds am p (''nw_src'', Some a) \<longleftrightarrow> am a (pk_ip_src p)"
  "item_holds am p (''ipv6_src'', Some a) \<longleftrightarrow> am a (pk_ip_src p)"
  "item_holds am p (''arp_sha'', v) \<longleftrightarrow> v = Some (pk_arp_sha p)"
  "item_holds am p (''nd_sll'', v) \<longleftrightarrow> v = Some (pk_nd_sll p)"
  "item_holds am p (''nd_target'', Some a) \<longleftrightarrow> am a (pk_nd_target p)"
  "item_holds am p (''icmp6'', v) \<longleftrightarrow> pk_type p = 0x86dd \<and> pk_proto p = 58"
  "item_holds am p (''tcp6'', v) \<longleftrightarrow> pk_type p = 0x86dd \<and> pk_proto p = 6"
  "item_holds am p (''udp6'', v) \<longleftrightarrow> pk_type p = 0x86dd \<and> pk_proto p = 17"
  "item_holds am p (''cookie'', v)" "item_holds am p (''priority'', v)" "item_holds am p (''idle_timeout'', v)"
  "item_holds am p (''action'', v)"
  by (simp_all add: item_holds_def)

lemma digit_simps:
  "\<not> int_space CHR ''0''" "\<not> int_space CHR ''1''" "\<not> int_space CHR ''2''" "\<not> int_space CHR ''3''"
  "\<not> int_space CHR ''4''" "\<not> int_space CHR ''5''" "\<not> int_space CHR ''6''" "\<not> int_space CHR ''7''"
  "\<not> int_space CHR ''8''" "\<not> int_space CHR ''9''"
  "py_digit b CHR ''0'' = (if 0 < b then Some 0 else None)" "py_digit b CHR ''1'' = (if 1 < b then Some 1 else None)"
  "py_digit b CHR ''2'' = (if 2 < b then Some 2 else None)" "py_digit b CHR ''3'' = (if 3 < b then Some 3 else None)"
  "py_digit b CHR ''4'' = (if 4 < b then Some 4 else None)" "py_digit b CHR ''5'' = (if 5 < b then Some 5 else None)"
  "py_digit b CHR ''6'' = (if 6 < b then Some 6 else None)" "py_digit b CHR ''7'' = (if 7 < b then Some 7 else None)"
  "py_digit b CHR ''8'' = (if 8 < b then Some 8 else None)" "py_digit b CHR ''9'' = (if 9 < b then Some 9 else None)"
  by (simp_all add: int_space_def py_digit_def)

lemma number_simps [simp]:
  "number (Some ''8000'') = Some 8000" "number (Some ''7000'') = Some 7000" "number (Some ''6000'') = Some 6000"
  "number (Some ''5000'') = Some 5000" "number (Some ''4000'') = Some 4000"
  "number (Some ''0x0800'') = Some 0x800" "number (Some ''0x0806'') = Some 0x806" "number (Some ''0x11'') = Some 17"
  "number (Some ''67'') = Some 67" "number (Some ''134'') = Some 134" "number (Some ''135'') = Some 135"
  "number (Some ''136'') = Some 136" "number (Some ''137'') = Some 137" "number (Some ''146'') = Some 146"
  "number (Some ''147'') = Some 147" "number (Some ''151'') = Some 151" "number (Some ''152'') = Some 152"
  "number (Some ''153'') = Some 153"
  by (simp_all add: number_def py_int_def digits_value_def digit_simps drop_hex_prefix_def)

lemma flow_simps [simp]:
  "flow_matches am p (read_flow (flow port pr fs a)) \<longleftrightarrow> port = pk_port p \<and> list_all (item_holds am p) fs"
  "number (Some pr) = Some n \<Longrightarrow> flow_priority (read_flow (flow port pr fs a)) = n"
  "''action'' \<notin> fst ` set fs \<Longrightarrow> flow_action (read_flow (flow port pr fs a)) = a"
proof -
  show "''action'' \<notin> fst ` set fs \<Longrightarrow> flow_action (read_flow (flow port pr fs a)) = a"
    by (simp add: read_flow_def flow_def flow_action_def map_add_def map_of_eq_None_iff [THEN iffD2])
qed (simp_all add: flow_matches_def read_flow_def flow_def flow_priority_def)

definition arp_allowed :: "(string \<Rightarrow> string \<Rightarrow> bool) \<Rightarrow> lock_config \<Rightarrow> packet \<Rightarrow> bool" where
  "arp_allowed am config p \<longleftrightarrow>
     pk_type p = 0x806 \<and> pk_src p = cfg_mac config \<and> pk_arp_sha p = cfg_mac config \<and>
     (\<exists>ip \<in> set (''0.0.0.0'' # cfg_ipv4 config). am ip (pk_ip_src p))"

definition ipv4_allowed :: "(string \<Rightarrow> string \<Rightarrow> bool) \<Rightarrow> lock_config \<Rightarrow> packet \<Rightarrow> bool" where
  "ipv4_allowed am config p \<longleftrightarrow>
     pk_type p = 0x800 \<and> pk_src p = cfg_mac config \<and>
     (pk_proto p = 17 \<and> pk_dport p = 67 \<or> (\<exists>ip \<in> set (cfg_ipv4 config). am ip (pk_ip_src p)))"

definition icmp6_allowed :: "(string \<Rightarrow> string \<Rightarrow> bool) \<Rightarrow> lock_config \<Rightarrow> packet \<Rightarrow> string \<Rightarrow> bool" where
  "icmp6_allowed am config p ip \<longleftrightarrow>
     (if pk_icmp p = 135 then pk_nd_sll p = cfg_mac config
      else if pk_icmp p = 136 then am ip (pk_nd_target p)
      else pk_icmp p \<notin> {134, 137, 146, 147, 151, 152, 153})"

definition ipv6_allowed :: "(string \<Rightarrow> string \<Rightarrow> bool) \<Rightarrow> lock_config \<Rightarrow> packet \<Rightarrow> bool" where
  "ipv6_allowed am config p \<longleftrightarrow>
     pk_type p = 0x86dd \<and> pk_src p = cfg_mac config \<and>
     (\<exists>ip \<in> set (cfg_ipv6 config). am ip (pk_ip_src p) \<and>
        (pk_proto p = 6 \<or> pk_proto p = 17 \<or> pk_proto p = 58 \<and> icmp6_allowed am config p ip))"

text \<open>Which priorities and actions the matching flows have.\<close>

definition offers :: "(string \<Rightarrow> string \<Rightarrow> bool) \<Rightarrow> packet \<Rightarrow> flow_fields list \<Rightarrow> int \<Rightarrow> string \<Rightarrow> bool" where
  "offers am p fs n a \<longleftrightarrow> (\<exists>f \<in> set fs. flow_matches am p (read_flow f) \<and>
     flow_priority (read_flow f) = n \<and> flow_action (read_flow f) = a)"

lemma offers_append: "offers am p (xs @ ys) n a \<longleftrightarrow> offers am p xs n a \<or> offers am p ys n a"
  by (auto simp: offers_def)

lemma offers_concat: "offers am p (concat (map h xs)) n a \<longleftrightarrow> (\<exists>x \<in> set xs. offers am p (h x) n a)"
  by (auto simp: offers_def)

lemma offers_cons: "offers am p (f # fs) n a \<longleftrightarrow> (flow_matches am p (read_flow f) \<and>
     flow_priority (read_flow f) = n \<and> flow_action (read_flow f) = a) \<or> offers am p fs n a"
  by (auto simp: offers_def)

lemma offers_nil [simp]: "\<not> offers am p [] n a"
  by (simp add: offers_def)

lemma offers_head:
  "pk_port p = port \<Longrightarrow> offers am p [dhcp_flow port mac, arp_flow port mac ''0.0.0.0''] n a \<longleftrightarrow>
     a = ''normal'' \<and> pk_src p = mac \<and>
     (n = 8000 \<and> pk_type p = 0x800 \<and> pk_proto p = 17 \<and> pk_dport p = 67 \<or>
      n = 7000 \<and> pk_type p = 0x806 \<and> pk_arp_sha p = mac \<and> am ''0.0.0.0'' (pk_ip_src p))"
  by (auto simp: offers_cons dhcp_flow_def arp_flow_def)

lemma offers_ipv4:
  "pk_port p = port \<Longrightarrow> offers am p (ipv4_flows port mac ip) n a \<longleftrightarrow>
     a = ''normal'' \<and> pk_src p = mac \<and> am ip (pk_ip_src p) \<and>
     (n = 7000 \<and> pk_type p = 0x806 \<and> pk_arp_sha p = mac \<or> n = 6000 \<and> pk_type p = 0x800)"
  by (auto simp: offers_cons ipv4_flows_def arp_flow_def)

lemma offers_ipv6:
  "pk_port p = port \<Longrightarrow> offers am p (ipv6_flows port mac ip) n a \<longleftrightarrow>
     a = ''normal'' \<and> pk_src p = mac \<and> am ip (pk_ip_src p) \<and> pk_type p = 0x86dd \<and>
     (n = 8000 \<and> pk_proto p = 58 \<and> (pk_icmp p = 135 \<and> pk_nd_sll p = mac \<or> pk_icmp p = 136 \<and> am ip (pk_nd_target p)) \<or>
      n = 5000 \<and> (pk_proto p = 58 \<or> pk_proto p = 6 \<or> pk_proto p = 17))"
  by (auto simp: offers_cons ipv6_flows_def)

lemma offers_icmp6_drop:
  assumes "pk_port p = port" "number (Some pr) = Some m"
  shows "offers am p (map (icmp6_drop port pr) ts) n a \<longleftrightarrow>
    n = m \<and> a = ''drop'' \<and> pk_type p = 0x86dd \<and> pk_proto p = 58 \<and> (\<exists>t \<in> set ts. number (Some t) = Some (pk_icmp p))"
  using assms by (auto simp: offers_def icmp6_drop_def)

lemma offers_last:
  "pk_port p = port \<Longrightarrow> offers am p [flow port ''4000'' [(''idle_timeout'', Some ''0'')] ''drop''] n a \<longleftrightarrow>
     n = 4000 \<and> a = ''drop''"
  by (auto simp: offers_cons)

lemma offers_vswitch:
  assumes "pk_port p = port"
  shows "offers am p (vswitch_flows port config) n a \<longleftrightarrow>
    a = ''normal'' \<and>
      (n = 8000 \<and> (pk_type p = 0x800 \<and> pk_src p = cfg_mac config \<and> pk_proto p = 17 \<and> pk_dport p = 67 \<or>
          pk_type p = 0x86dd \<and> pk_src p = cfg_mac config \<and> pk_proto p = 58 \<and> (\<exists>ip \<in> set (cfg_ipv6 config).
            am ip (pk_ip_src p) \<and> (pk_icmp p = 135 \<and> pk_nd_sll p = cfg_mac config \<or> pk_icmp p = 136 \<and> am ip (pk_nd_target p)))) \<or>
       n = 7000 \<and> arp_allowed am config p \<or>
       n = 6000 \<and> pk_type p = 0x800 \<and> pk_src p = cfg_mac config \<and> (\<exists>ip \<in> set (cfg_ipv4 config). am ip (pk_ip_src p)) \<or>
       n = 5000 \<and> pk_type p = 0x86dd \<and> pk_src p = cfg_mac config \<and> (pk_proto p = 58 \<or> pk_proto p = 6 \<or> pk_proto p = 17) \<and>
         (\<exists>ip \<in> set (cfg_ipv6 config). am ip (pk_ip_src p))) \<or>
    a = ''drop'' \<and>
      (n = 7000 \<and> pk_type p = 0x86dd \<and> pk_proto p = 58 \<and> pk_icmp p \<in> {135, 136} \<or>
       n = 6000 \<and> pk_type p = 0x86dd \<and> pk_proto p = 58 \<and> pk_icmp p \<in> {134, 137, 146, 147, 151, 152, 153} \<or>
       n = 4000)"
proof -
  have drops: "(\<exists>t \<in> set [''135'', ''136'']. number (Some t) = Some i) \<longleftrightarrow> i \<in> {135, 136}"
    "(\<exists>t \<in> set [''134'', ''137'', ''146'', ''147'', ''151'', ''152'', ''153'']. number (Some t) = Some i) \<longleftrightarrow>
       i \<in> {134, 137, 146, 147, 151, 152, 153}" for i
    by (simp_all add: eq_commute)
  show ?thesis
    unfolding vswitch_flows_def offers_append offers_concat offers_head [OF assms] offers_ipv4 [OF assms]
      offers_ipv6 [OF assms] offers_icmp6_drop [OF assms number_simps(2)] offers_icmp6_drop [OF assms number_simps(3)]
      offers_last [OF assms] drops arp_allowed_def
    by (rule iffI; elim disjE conjE bexE) (simp_all, blast+)
qed

definition switch_allows :: "(string \<Rightarrow> string \<Rightarrow> bool) \<Rightarrow> lock_config \<Rightarrow> packet \<Rightarrow> bool" where
  "switch_allows am config p \<longleftrightarrow>
     arp_allowed am config p \<or> ipv4_allowed am config p \<or> ipv6_allowed am config p"

lemma normal_offered:
  assumes port: "pk_port p = port" and allowed: "switch_allows am config p"
  shows "\<exists>n. offers am p (vswitch_flows port config) n ''normal'' \<and>
    (\<forall>m. offers am p (vswitch_flows port config) m ''drop'' \<longrightarrow> m < n)"
proof -
  consider "arp_allowed am config p" | "ipv4_allowed am config p" | "ipv6_allowed am config p"
    using allowed by (auto simp: switch_allows_def)
  then show ?thesis
  proof cases
    case 1
    then show ?thesis unfolding offers_vswitch [OF port] by (intro exI [of _ 7000]) (auto simp: arp_allowed_def)
  next
    case 2
    then consider "pk_proto p = 17 \<and> pk_dport p = 67" | "\<exists>ip \<in> set (cfg_ipv4 config). am ip (pk_ip_src p)"
      by (auto simp: ipv4_allowed_def)
    then show ?thesis
    proof cases
      case 1
      with 2 show ?thesis unfolding offers_vswitch [OF port] by (intro exI [of _ 8000]) (auto simp: ipv4_allowed_def)
    next
      case b: 2
      with 2 show ?thesis unfolding offers_vswitch [OF port] by (intro exI [of _ 6000]) (auto simp: ipv4_allowed_def)
    qed
  next
    case 3
    show ?thesis
    proof (cases "pk_proto p = 58 \<and> pk_icmp p \<in> {135, 136}")
      case True
      with 3 show ?thesis unfolding offers_vswitch [OF port]
        by (intro exI [of _ 8000]) (auto simp: ipv6_allowed_def icmp6_allowed_def)
    next
      case False
      with 3 show ?thesis unfolding offers_vswitch [OF port]
        by (intro exI [of _ 5000]) (auto simp: ipv6_allowed_def icmp6_allowed_def split: if_splits)
    qed
  qed
qed

lemma drop_offered:
  assumes port: "pk_port p = port" and refused: "\<not> switch_allows am config p"
  shows "\<exists>n. offers am p (vswitch_flows port config) n ''drop'' \<and>
    (\<forall>m. offers am p (vswitch_flows port config) m ''normal'' \<longrightarrow> m < n)"
proof (cases "pk_type p = 0x86dd \<and> pk_proto p = 58")
  case icmp: True
  consider "pk_icmp p \<in> {135, 136}" | "pk_icmp p \<in> {134, 137, 146, 147, 151, 152, 153}"
    | "pk_icmp p \<notin> {134, 135, 136, 137, 146, 147, 151, 152, 153}" by blast
  then show ?thesis
  proof cases
    case 1
    with icmp refused show ?thesis unfolding offers_vswitch [OF port]
      by (intro exI [of _ 7000]) (auto simp: switch_allows_def arp_allowed_def ipv6_allowed_def icmp6_allowed_def)
  next
    case 2
    with icmp refused show ?thesis unfolding offers_vswitch [OF port]
      by (intro exI [of _ 6000]) (auto simp: switch_allows_def arp_allowed_def)
  next
    case 3
    with icmp refused show ?thesis unfolding offers_vswitch [OF port]
      by (intro exI [of _ 4000]) (auto simp: switch_allows_def arp_allowed_def ipv6_allowed_def icmp6_allowed_def)
  qed
next
  case other: False
  with refused show ?thesis unfolding offers_vswitch [OF port]
    by (intro exI [of _ 4000]) (auto simp: switch_allows_def ipv4_allowed_def ipv6_allowed_def)
qed

text \<open>The action is the one that is offered with no other action at that priority or above.\<close>

lemma offered_action:
  assumes "pk_port p = port"
  shows "(\<exists>n. offers am p (vswitch_flows port config) n a \<and>
      (\<forall>m b. offers am p (vswitch_flows port config) m b \<longrightarrow> n \<le> m \<longrightarrow> b = a)) \<longleftrightarrow>
    a = (if switch_allows am config p then ''normal'' else ''drop'')"
proof -
  let ?R = "offers am p (vswitch_flows port config)"
  have last: "?R 4000 ''drop''" unfolding offers_vswitch [OF assms] by simp
  have two: "b = ''normal'' \<or> b = ''drop''" if "?R m b" for m b using that unfolding offers_vswitch [OF assms] by blast
  show ?thesis
  proof (cases "switch_allows am config p")
    case True
    with normal_offered [OF assms True] last two show ?thesis
      by (smt (verit, best) linorder_not_le order_less_imp_le)
  next
    case False
    with drop_offered [OF assms False] last two show ?thesis
      by (smt (verit, best) linorder_not_le order_less_imp_le)
  qed
qed

section \<open>What the script adds\<close>

definition runs_ofctl :: "'k vif_env \<Rightarrow> ('k \<Rightarrow> string \<Rightarrow> string list) \<Rightarrow> bool" where
  "runs_ofctl ev flows \<longleftrightarrow>
     (\<forall>b t k. flows (snd (command ev [ofctl, ''add-flow'', b, t] k)) = (flows k)(b := flows k b @ [t])) \<and>
     (\<forall>c args k. c \<noteq> ofctl \<longrightarrow> flows (snd (command ev (c # args) k)) = flows k)"

definition answers :: "'k vif_env \<Rightarrow> string list \<Rightarrow> string \<Rightarrow> bool" where
  "answers ev args a \<longleftrightarrow> (\<forall>k. first_line (snd (fst (command ev args k))) = a)"

definition flow_line :: "flow_fields \<Rightarrow> string" where
  "flow_line f = ''cookie=1,'' @ flow_text f"

lemma acts_add_flow [acts_intros]:
  "runs_ofctl ev flows \<Longrightarrow> acts flows (add_flow ev b (flow_text f)) (\<lambda>F. F(b := F b @ [flow_line f]))"
  by (simp add: acts_def add_flow_def run_quiet_def seq_def bnd_def ret_def doexec_eq runs_ofctl_def flow_line_def)

lemma fold_flow_lines: "fold (\<lambda>f F. F(b := F b @ [flow_line f])) fs F = F(b := F b @ map flow_line fs)"
  by (induction fs arbitrary: F) simp_all

lemma acts_query:
  assumes "runs_ofctl ev flows" "answers ev (c # args) a" "c \<noteq> ofctl" "acts flows (f a) g"
  shows "acts flows (bnd (bnd (doexec ev (c # args)) (\<lambda>(_, stdout). ret (first_line stdout))) f) g"
  unfolding acts_def
proof
  fix s :: "'a vif_host"
  let ?s = "s\<lparr>vh_machine := snd (command ev (c # args) (vh_machine s)), vh_ran := vh_ran s @ [c # args]\<rparr>"
  have "bnd (bnd (doexec ev (c # args)) (\<lambda>(_, stdout). ret (first_line stdout))) f s = f a ?s"
    using assms(2) by (simp add: bnd_def ret_def doexec_eq answers_def split: prod.split) (metis fst_conv snd_conv)
  moreover have "flows (vh_machine ?s) = flows (vh_machine s)" using assms(1,3) by (simp add: runs_ofctl_def)
  moreover obtain s' where "f a ?s = (Inr (), s')" "flows (vh_machine s') = g (flows (vh_machine ?s))"
    using assms(4) by (rule actsE)
  ultimately show "\<exists>s'. bnd (bnd (doexec ev (c # args)) (\<lambda>(_, stdout). ret (first_line stdout))) f s = (Inr (), s') \<and>
      flows (vh_machine s') = g (flows (vh_machine s))" by simp
qed

lemma acts_create_vswitch:
  assumes "runs_ofctl ev flows" "answers ev [vsctl, ''get'', ''interface'', name, ''ofport''] port"
    "answers ev [vsctl, ''br-to-parent'', b] parent"
  shows "acts flows (create_vswitch_rules ev name (Some b) config)
    (\<lambda>F. F(parent := F parent @ map flow_line (vswitch_flows port config)))"
proof -
  have v: "vsctl \<noteq> ofctl" by (simp add: vsctl_def ofctl_def)
  have "acts flows (for_each (\<lambda>f. add_flow ev parent (flow_text f)) (vswitch_flows port config))
      (\<lambda>F. F(parent := F parent @ map flow_line (vswitch_flows port config)))"
    using acts_for_each [where body = "\<lambda>f. add_flow ev parent (flow_text f)" and
        g = "\<lambda>f F. F(parent := F parent @ [flow_line f])" and xs = "vswitch_flows port config",
        OF acts_add_flow [OF assms(1)]]
    by (simp add: acts_def fold_flow_lines)
  then have "acts flows (bnd (lift_sum (some_text (Some b))) (\<lambda>b. bnd (bnd (doexec ev [vsctl, ''br-to-parent'', b])
      (\<lambda>(_, stdout). ret (first_line stdout))) (\<lambda>b.
      for_each (\<lambda>f. add_flow ev b (flow_text f)) (vswitch_flows port config))))
      (\<lambda>F. F(parent := F parent @ map flow_line (vswitch_flows port config)))"
    by (intro acts_bnd_pure [of _ b] acts_query [OF assms(1,3) v]) (simp add: lift_sum_def some_text_def)
  then show ?thesis
    unfolding create_vswitch_rules_def get_vswitch_port_def get_parent_bridge_def
    by (rule acts_query [OF assms(1,2) v])
qed

text \<open>Texts without a comma or an equals sign, as addresses and port numbers are.\<close>

definition plain_config :: "string \<Rightarrow> lock_config \<Rightarrow> bool" where
  "plain_config port config \<longleftrightarrow>
     list_all plain_text (port # cfg_mac config # cfg_ipv4 config @ cfg_ipv6 config)"

lemma vswitch_flows_plain:
  assumes "plain_config port config" "f \<in> set (vswitch_flows port config)"
  shows "list_all plain_item f" "f \<noteq> []"
  using assms
  by (auto simp: plain_config_def vswitch_flows_def dhcp_flow_def arp_flow_def ipv4_flows_def ipv6_flows_def
      icmp6_drop_def flow_def plain_item_def plain_text_def list_all_iff)

lemma parse_flow_lines:
  "plain_config port config \<Longrightarrow>
   map parse_flow (map flow_line (vswitch_flows port config)) = map read_flow (vswitch_flows port config)"
  using parse_flow_text [OF vswitch_flows_plain(2,1)] by (auto simp: flow_line_def read_flow_def)

section \<open>The property\<close>

lemma switch_decides:
  assumes "plain_config port config" "pk_port p = port"
    "\<forall>t \<in> set old. flow_matches am p (parse_flow t) \<longrightarrow> flow_priority (parse_flow t) < 4000"
  shows "switch_does am (old @ map flow_line (vswitch_flows port config)) p a \<longleftrightarrow>
    a = (if switch_allows am config p then ''normal'' else ''drop'')"
proof -
  let ?new = "vswitch_flows port config"
  let ?fs = "set (map parse_flow (old @ map flow_line ?new))"
  let ?Q = "\<lambda>f. flow_matches am p f \<and> flow_action f = a \<and>
      (\<forall>g \<in> ?fs. flow_matches am p g \<longrightarrow> flow_priority f \<le> flow_priority g \<longrightarrow> flow_action g = a)"
  have fs: "?fs = parse_flow ` set old \<union> read_flow ` set ?new"
    using parse_flow_lines [OF assms(1)] by (simp only: map_append set_append set_map)
  have last: "offers am p ?new 4000 ''drop''" unfolding offers_vswitch [OF assms(2)] by simp
  then obtain l where l: "l \<in> set ?new" "flow_matches am p (read_flow l)" "flow_priority (read_flow l) = 4000"
    "flow_action (read_flow l) = ''drop''" by (auto simp: offers_def)
  have low: "4000 \<le> n" if "offers am p ?new n b" for n b
    using that unfolding offers_vswitch [OF assms(2)] by auto
  have "(\<exists>f \<in> ?fs. ?Q f) \<longleftrightarrow> (\<exists>n. offers am p ?new n a \<and> (\<forall>m b. offers am p ?new m b \<longrightarrow> n \<le> m \<longrightarrow> b = a))"
  proof
    assume "\<exists>f \<in> ?fs. ?Q f"
    then obtain f where f: "f \<in> ?fs" "?Q f" by blast
    show "\<exists>n. offers am p ?new n a \<and> (\<forall>m b. offers am p ?new m b \<longrightarrow> n \<le> m \<longrightarrow> b = a)"
    proof (cases "f \<in> read_flow ` set ?new")
      case True
      with f show ?thesis unfolding fs by (intro exI [of _ "flow_priority f"]) (auto simp: offers_def)
    next
      case False
      with f(1) fs have "f \<in> parse_flow ` set old" by blast
      with f(2) assms(3) have less: "flow_priority f < 4000" by auto
      have a: "b = a" if m: "offers am p ?new m b" "4000 \<le> m" for m b
      proof -
        obtain g where "g \<in> set ?new" "flow_matches am p (read_flow g)" "flow_priority (read_flow g) = m"
          "flow_action (read_flow g) = b" using m(1) by (auto simp: offers_def)
        with f(2) fs m(2) less show ?thesis by (metis UnI2 image_eqI less_le_trans order_less_imp_le)
      qed
      from a [OF last] last have "offers am p ?new 4000 a" by simp
      with a show ?thesis by blast
    qed
  next
    assume "\<exists>n. offers am p ?new n a \<and> (\<forall>m b. offers am p ?new m b \<longrightarrow> n \<le> m \<longrightarrow> b = a)"
    then obtain n where n: "offers am p ?new n a" "\<And>m b. offers am p ?new m b \<Longrightarrow> n \<le> m \<Longrightarrow> b = a" by blast
    from n(1) obtain f where f: "f \<in> set ?new" "flow_matches am p (read_flow f)" "flow_priority (read_flow f) = n"
      "flow_action (read_flow f) = a" by (auto simp: offers_def)
    have "flow_action g = a" if g: "g \<in> ?fs" "flow_matches am p g" "n \<le> flow_priority g" for g
    proof -
      have "g \<notin> parse_flow ` set old"
      proof
        assume "g \<in> parse_flow ` set old"
        with assms(3) g(2) have "flow_priority g < 4000" by blast
        with low [OF n(1)] g(3) show False by simp
      qed
      with g(1) fs have "g \<in> read_flow ` set ?new" by blast
      with g(2) have "offers am p ?new (flow_priority g) (flow_action g)" by (auto simp: offers_def)
      then show ?thesis using g(3) by (rule n(2))
    qed
    with f have "?Q (read_flow f)" by blast
    with f(1) fs show "\<exists>f \<in> ?fs. ?Q f" by blast
  qed
  then show ?thesis unfolding switch_does_iff offered_action [OF assms(2), of am config a] .
qed

text \<open>
  C30: On Open vSwitch, once the flows of a locked interface are added, a packet
  from its port is forwarded exactly when it is ARP for, or IPv4 from, one of
  its addresses with its MAC address, DHCP with that MAC address, or IPv6 with
  TCP, UDP or an allowed ICMPv6 message from one of its IPv6 addresses, and is
  dropped otherwise; the flows of other bridges stay as they are.
\<close>

lemma vswitch_rules_filter:
  assumes "runs_ofctl ev flows" "answers ev [vsctl, ''get'', ''interface'', name, ''ofport''] port"
    "answers ev [vsctl, ''br-to-parent'', b] parent" "plain_config port config"
    "create_vswitch_rules ev name (Some b) config s = (r, s')" "pk_port p = port"
    "\<forall>t \<in> set (flows (vh_machine s) parent). flow_matches am p (parse_flow t) \<longrightarrow> flow_priority (parse_flow t) < 4000"
  shows "r = Inr () \<and> (\<forall>br. br \<noteq> parent \<longrightarrow> flows (vh_machine s') br = flows (vh_machine s) br) \<and>
    (switch_does am (flows (vh_machine s') parent) p ''normal'' \<longleftrightarrow> switch_allows am config p) \<and>
    (switch_does am (flows (vh_machine s') parent) p ''drop'' \<longleftrightarrow> \<not> switch_allows am config p)"
proof -
  obtain s1 where s1: "create_vswitch_rules ev name (Some b) config s = (Inr (), s1)"
    "flows (vh_machine s1) = (flows (vh_machine s))
       (parent := flows (vh_machine s) parent @ map flow_line (vswitch_flows port config))"
    using acts_create_vswitch [OF assms(1-3)] by (rule actsE)
  with assms(5) show ?thesis by (auto simp: switch_decides [OF assms(4,6,7)])
qed

text \<open>A machine with one interface on port 5 of one bridge, whose state is its flows.\<close>

definition flow_run :: "string list \<Rightarrow> (string \<Rightarrow> string list) \<Rightarrow> (int \<times> string) \<times> (string \<Rightarrow> string list)" where
  "flow_run args F =
     (case drop 2 args of
        [c, a, b, t] \<Rightarrow> if c = ofctl \<and> a = ''add-flow'' then ((0, []), F(b := F b @ [t])) else ((0, []), F)
      | [c, a, b] \<Rightarrow> ((0, ''br0''), F)
      | _ \<Rightarrow> ((0, ''5''), F))"

definition flow_host :: "(string \<Rightarrow> string list) vif_env" where
  "flow_host = \<lparr>sh_run = flow_run, sh_exists = (\<lambda>p t. False), sh_readlink = (\<lambda>p t. None),
     sh_json = (\<lambda>p t. Inl Vif_OSError), sh_try_lock = (\<lambda>p t. (True, t)), sh_sleep = (\<lambda>n t. t),
     sh_path = ''/sbin'', xenops_path = ''/var/run''\<rparr>"

definition flow_state :: "(string \<Rightarrow> string list) vif_host" where
  "flow_state = \<lparr>vh_machine = (\<lambda>b. [''priority=0,action=normal'']), vh_ran = []\<rparr>"

definition flow_config :: lock_config where
  "flow_config = \<lparr>cfg_mac = ''02:01'', cfg_mode = ''locked'', cfg_ipv4 = [''10.0.0.1''], cfg_ipv6 = [''fe80::1'']\<rparr>"

definition flow_packet :: "string \<Rightarrow> packet" where
  "flow_packet mac = \<lparr>pk_port = ''5'', pk_src = mac, pk_type = 0x86dd, pk_proto = 6, pk_dport = 80, pk_icmp = 0,
     pk_ip_src = ''fe80::1'', pk_arp_sha = [], pk_nd_sll = [], pk_nd_target = []\<rparr>"

lemma vswitch_rules_filter_witness:
  "\<exists>s'. create_vswitch_rules flow_host ''vif2.0'' (Some ''br0'') flow_config flow_state = (Inr (), s') \<and>
     switch_does (=) (vh_machine s' ''br0'') (flow_packet ''02:01'') ''normal'' \<and>
     switch_does (=) (vh_machine s' ''br0'') (flow_packet ''02:02'') ''drop''"
proof -
  let ?r = "create_vswitch_rules flow_host ''vif2.0'' (Some ''br0'') flow_config flow_state"
  have tools: "ofctl \<noteq> vsctl" by (simp add: ofctl_def vsctl_def)
  have runs: "runs_ofctl flow_host (\<lambda>F. F)"
    by (auto simp: runs_ofctl_def command_def flow_host_def flow_run_def split: list.split)
  have answers: "answers flow_host [vsctl, ''get'', ''interface'', ''vif2.0'', ''ofport''] ''5''"
    "answers flow_host [vsctl, ''br-to-parent'', ''br0''] ''br0''"
    by (simp_all add: answers_def command_def flow_host_def flow_run_def) code_simp+
  have plain: "plain_config ''5'' flow_config" by code_simp
  have old: "flow_priority (parse_flow ''priority=0,action=normal'') < 4000" by code_simp
  have all: "fst ?r = Inr () \<and>
      (switch_does (=) (vh_machine (snd ?r) ''br0'') p ''normal'' \<longleftrightarrow> switch_allows (=) flow_config p) \<and>
      (switch_does (=) (vh_machine (snd ?r) ''br0'') p ''drop'' \<longleftrightarrow> \<not> switch_allows (=) flow_config p)"
    if "pk_port p = ''5''" for p
    using vswitch_rules_filter [OF runs answers plain prod.collapse [symmetric] that, of flow_state "(=)"] old
    by (simp add: flow_state_def)
  have "switch_allows (=) flow_config (flow_packet ''02:01'')" "\<not> switch_allows (=) flow_config (flow_packet ''02:02'')"
    by code_simp+
  then show ?thesis using all [of "flow_packet ''02:01''"] all [of "flow_packet ''02:02''"]
    by (intro exI [of _ "snd ?r"]) (auto simp: flow_packet_def prod_eq_iff)
qed

end
