(* ===== verification/Igmp.thy ===== *)
theory Igmp
  imports Py_Url
begin

text \<open>
  The tool \<^verbatim>\<open>ocaml/xenopsd/scripts/igmp_query_injector.py\<close>, which sends an IGMP
  query to the interfaces of guests so that the multicast snooping of the switch
  learns about them. Xenstore, programs and the sending of packets are an
  argument over a state of their own; what the tool reads, sends and runs is
  recorded in order.
\<close>

section \<open>State\<close>

datatype igmp_error = Igmp_KeyError | Igmp_ValueError | Igmp_IndexError | Igmp_CalledProcessError | Igmp_XsError

record igmp_packet =
  eth_src :: string
  eth_dst :: "string option"
  ip_ttl :: int
  ip_from :: string
  ip_to :: string
  igmp_type :: int
  igmp_mrcode :: int

datatype igmp_event =
    Saw string "string option"
  | Sent string igmp_packet
  | Ran "string list"

text \<open>
  \<open>xs_next\<close> is \<^verbatim>\<open>read_watch\<close>: the next event, or \<open>None\<close> when it blocks for ever;
  \<open>xs_command\<close> gives \<open>None\<close> for a program that fails; \<open>xs_sendp\<close> gives \<open>False\<close> when
  the packet cannot be sent.
\<close>

record 'k igmp_env =
  xs_get :: "string \<Rightarrow> 'k \<Rightarrow> igmp_error + string option"
  xs_domain_path :: "int \<Rightarrow> string"
  xs_watch :: "string \<Rightarrow> string \<Rightarrow> 'k \<Rightarrow> 'k"
  xs_unwatch :: "string \<Rightarrow> string \<Rightarrow> 'k \<Rightarrow> 'k"
  xs_next :: "'k \<Rightarrow> ((string \<times> string) \<times> 'k) option"
  xs_command :: "string list \<Rightarrow> 'k \<Rightarrow> string option \<times> 'k"
  xs_sendp :: "string \<Rightarrow> igmp_packet \<Rightarrow> 'k \<Rightarrow> bool \<times> 'k"

record 'k igmp =
  ig_machine :: 'k
  ig_watches :: "(string \<times> string) list"
  ig_trace :: "igmp_event list"
  ig_snooping :: "(string \<times> bool) list"
  ig_parent_snooping :: "(string \<times> bool) list"

type_synonym ('k, 'a) igmp_op = "('k igmp, igmp_error, 'a) st"

definition VIF_CONNECTED_STATE :: string where
  "VIF_CONNECTED_STATE = ''4''"

definition store_read :: "'k igmp_env \<Rightarrow> string \<Rightarrow> ('k, string option) igmp_op" where
  "store_read ev path s =
     (case xs_get ev path (ig_machine s) of
        Inl e \<Rightarrow> (Inl e, s)
      | Inr v \<Rightarrow> (Inr v, s\<lparr>ig_trace := ig_trace s @ [Saw path v]\<rparr>))"

definition check_output :: "'k igmp_env \<Rightarrow> string list \<Rightarrow> ('k, string) igmp_op" where
  "check_output ev args s =
     (let (r, k) = xs_command ev args (ig_machine s);
          s = s\<lparr>ig_machine := k, ig_trace := ig_trace s @ [Ran args]\<rparr> in
      case r of None \<Rightarrow> (Inl Igmp_CalledProcessError, s) | Some out \<Rightarrow> (Inr (py_strip out), s))"

section \<open>Paths of an interface\<close>

definition domid_vifid_of_vif :: "string \<Rightarrow> igmp_error + int list" where
  "domid_vifid_of_vif vif =
     (case py_split_str ''vif'' vif of
        _ # rest # _ \<Rightarrow>
          (case those (map (py_int 10) (py_split CHR ''.'' rest)) of
             None \<Rightarrow> Inl Igmp_ValueError
           | Some ns \<Rightarrow> Inr ns)
      | _ \<Rightarrow> Inl Igmp_IndexError)"

text \<open>\<^verbatim>\<open>domid, vifid = domid_vifid_of_vif(vif)\<close>\<close>

definition vif_ids :: "string \<Rightarrow> igmp_error + int \<times> int" where
  "vif_ids vif = sbind (domid_vifid_of_vif vif) (\<lambda>ns.
     case ns of [d, v] \<Rightarrow> Inr (d, v) | _ \<Rightarrow> Inl Igmp_ValueError)"

definition vif_frontend_path :: "'k igmp_env \<Rightarrow> string \<Rightarrow> igmp_error + string" where
  "vif_frontend_path ev vif = sbind (vif_ids vif) (\<lambda>(d, v).
     Inr (foldl path_join (xs_domain_path ev d) [''device'', ''vif'', int_text v]))"

definition vif_backend_path :: "'k igmp_env \<Rightarrow> string \<Rightarrow> igmp_error + string" where
  "vif_backend_path ev vif = sbind (vif_ids vif) (\<lambda>(d, v).
     Inr (foldl path_join (xs_domain_path ev 0) [''backend'', ''vif'', int_text d, int_text v]))"

definition get_vif_mac :: "'k igmp_env \<Rightarrow> string \<Rightarrow> ('k, string option) igmp_op" where
  "get_vif_mac ev vif =
     bnd (lift_sum (vif_frontend_path ev vif)) (\<lambda>p. store_read ev (path_join p ''mac''))"

definition get_vif_state_path :: "'k igmp_env \<Rightarrow> string \<Rightarrow> igmp_error + string \<times> string" where
  "get_vif_state_path ev vif =
     sbind (vif_frontend_path ev vif) (\<lambda>f. sbind (vif_backend_path ev vif) (\<lambda>b.
     Inr (path_join f ''state'', path_join b ''state'')))"

section \<open>Injecting\<close>

definition query_packet :: "int \<Rightarrow> string option \<Rightarrow> igmp_packet" where
  "query_packet max_resp_time dst =
     \<lparr>eth_src = ''00:00:00:00:00:00'', eth_dst = dst, ip_ttl = 1, ip_from = ''0.0.0.0'', ip_to = ''224.0.0.1'',
      igmp_type = 0x11, igmp_mrcode = (max_resp_time div 100) AND 0xff\<rparr>"

definition inject_packet :: "'k igmp_env \<Rightarrow> int \<Rightarrow> string \<Rightarrow> string option \<Rightarrow> ('k, bool) igmp_op" where
  "inject_packet ev max_resp_time iface dst s =
     (let p = query_packet max_resp_time dst; (ok, k) = xs_sendp ev iface p (ig_machine s) in
      (Inr ok, s\<lparr>ig_machine := k, ig_trace := ig_trace s @ [Sent iface p]\<rparr>))"

text \<open>A failure to send is logged; reading the address is outside the \<^verbatim>\<open>try\<close>.\<close>

definition inject_to_vif :: "'k igmp_env \<Rightarrow> int \<Rightarrow> string \<Rightarrow> ('k, unit) igmp_op" where
  "inject_to_vif ev max_resp_time vif =
     bnd (get_vif_mac ev vif) (\<lambda>mac. seq (inject_packet ev max_resp_time vif mac) (ret ()))"

definition watch :: "'k igmp_env \<Rightarrow> string \<Rightarrow> string \<Rightarrow> ('k, unit) igmp_op" where
  "watch ev path token = modify (\<lambda>s. s\<lparr>ig_watches := AList.update path token (ig_watches s),
     ig_machine := xs_watch ev path token (ig_machine s)\<rparr>)"

definition unwatch :: "'k igmp_env \<Rightarrow> string \<Rightarrow> string \<Rightarrow> ('k, unit) igmp_op" where
  "unwatch ev path token =
     bnd (gets ig_watches) (\<lambda>ws.
     if map_of ws path = None then throw Igmp_KeyError
     else modify (\<lambda>s. s\<lparr>ig_watches := AList.delete path (ig_watches s),
       ig_machine := xs_unwatch ev path token (ig_machine s)\<rparr>))"

text \<open>
  One turn of the loop of \<^verbatim>\<open>check_and_inject\<close> with the set of half-connected
  interfaces: \<open>None\<close> when it blocks.
\<close>

definition note_connected ::
  "'k igmp_env \<Rightarrow> int \<Rightarrow> string list \<Rightarrow> string \<Rightarrow> string \<Rightarrow> ('k, string list) igmp_op" where
  "note_connected ev max_resp_time half path vif =
     bnd (store_read ev path) (\<lambda>v.
     if v = Some VIF_CONNECTED_STATE then
       bnd (if vif \<notin> set half then ret (vif # half)
            else seq (inject_to_vif ev max_resp_time vif) (ret (removeAll vif half)))
         (\<lambda>half. seq (unwatch ev path vif) (ret half))
     else ret half)"

definition check_turn ::
  "'k igmp_env \<Rightarrow> int \<Rightarrow> string list \<Rightarrow> 'k igmp \<Rightarrow> ((igmp_error + string list) \<times> 'k igmp) option" where
  "check_turn ev max_resp_time half s =
     (case xs_next ev (ig_machine s) of
        None \<Rightarrow> None
      | Some ((path, vif), k) \<Rightarrow> Some (note_connected ev max_resp_time half path vif (s\<lparr>ig_machine := k\<rparr>)))"

text \<open>
  What the thread has done when the join returns: it is given the number of
  turns that the timeout lets it take. The turns are whole: that the join returns
  within one, when a query has been sent whose watch is not yet removed, is not
  among the runs.
\<close>

datatype watcher = Finished | Blocked | Died igmp_error | Timed_Out

fun check_and_inject ::
  "'k igmp_env \<Rightarrow> int \<Rightarrow> nat \<Rightarrow> string list \<Rightarrow> 'k igmp \<Rightarrow> watcher \<times> 'k igmp" where
  "check_and_inject ev max_resp_time n half s =
     (if ig_watches s = [] then (Finished, s)
      else case n of
        0 \<Rightarrow> (Timed_Out, s)
      | Suc n \<Rightarrow>
          (case check_turn ev max_resp_time half s of
             None \<Rightarrow> (Blocked, s)
           | Some (Inl e, s) \<Rightarrow> (Died e, s)
           | Some (Inr half, s) \<Rightarrow> check_and_inject ev max_resp_time n half s))"

declare check_and_inject.simps [simp del]

definition watch_vif :: "'k igmp_env \<Rightarrow> string \<Rightarrow> ('k, unit) igmp_op" where
  "watch_vif ev vif =
     bnd (lift_sum (get_vif_state_path ev vif)) (\<lambda>(state_path, backend_state_path).
     seq (watch ev state_path vif) (watch ev backend_state_path vif))"

definition inject_with_connection_state_check ::
  "'k igmp_env \<Rightarrow> int \<Rightarrow> nat \<Rightarrow> string list \<Rightarrow> ('k, unit) igmp_op" where
  "inject_with_connection_state_check ev max_resp_time n vifs =
     seq (for_each (watch_vif ev) vifs)
     (seq (modify (\<lambda>s. snd (check_and_inject ev max_resp_time n [] s)))
     (bnd (gets ig_watches) (for_each (\<lambda>(path, vif). seq (get_vif_mac ev vif) (ret ())))))"

definition inject_without_connection_state_check :: "'k igmp_env \<Rightarrow> int \<Rightarrow> string list \<Rightarrow> ('k, unit) igmp_op" where
  "inject_without_connection_state_check ev max_resp_time vifs = for_each (inject_to_vif ev max_resp_time) vifs"

definition inject :: "'k igmp_env \<Rightarrow> int \<Rightarrow> nat \<Rightarrow> int \<Rightarrow> string list \<Rightarrow> ('k, unit) igmp_op" where
  "inject ev max_resp_time n timeout vifs =
     (if vifs = [] then ret ()
      else if timeout > 0 then inject_with_connection_state_check ev max_resp_time n vifs
      else inject_without_connection_state_check ev max_resp_time vifs)"

section \<open>Which interfaces\<close>

definition ovs_vsctl :: string where
  "ovs_vsctl = ''/usr/bin/ovs-vsctl''"

definition parent_bridge :: "'k igmp_env \<Rightarrow> string \<Rightarrow> ('k, string) igmp_op" where
  "parent_bridge ev bridge = check_output ev [ovs_vsctl, ''br-to-parent'', bridge]"

definition network_backend_is_openvswitch :: "'k igmp_env \<Rightarrow> ('k, bool) igmp_op" where
  "network_backend_is_openvswitch ev =
     bnd (check_output ev [''/opt/xensource/bin/xe-get-network-backend'']) (\<lambda>t. ret (t = ''openvswitch''))"

text \<open>\<^verbatim>\<open>memodict\<close>: the dictionary is asked first; what raises is not kept.\<close>

definition memodict ::
  "('k igmp \<Rightarrow> (string \<times> bool) list) \<Rightarrow> (string \<times> bool \<Rightarrow> 'k igmp \<Rightarrow> 'k igmp) \<Rightarrow>
   (string \<Rightarrow> ('k, bool) igmp_op) \<Rightarrow> string \<Rightarrow> ('k, bool) igmp_op" where
  "memodict cache store f key =
     bnd (gets cache) (\<lambda>d.
     case map_of d key of
       Some v \<Rightarrow> ret v
     | None \<Rightarrow> bnd (f key) (\<lambda>v. seq (modify (store (key, v))) (ret v)))"

definition igmp_snooping_of_parent :: "'k igmp_env \<Rightarrow> string \<Rightarrow> ('k, bool) igmp_op" where
  "igmp_snooping_of_parent ev =
     memodict ig_parent_snooping (\<lambda>kv s. s\<lparr>ig_parent_snooping := kv # ig_parent_snooping s\<rparr>)
       (\<lambda>bridge. bnd (check_output ev [ovs_vsctl, ''get'', ''bridge'', bridge, ''mcast_snooping_enable''])
          (\<lambda>enabled. ret (enabled = ''true'')))"

definition igmp_snooping_is_enabled_on_bridge :: "'k igmp_env \<Rightarrow> string \<Rightarrow> ('k, bool) igmp_op" where
  "igmp_snooping_is_enabled_on_bridge ev =
     memodict ig_snooping (\<lambda>kv s. s\<lparr>ig_snooping := kv # ig_snooping s\<rparr>)
       (\<lambda>bridge.
          bnd (check_output ev [ovs_vsctl, ''br-to-vlan'', bridge]) (\<lambda>vlan.
          bnd (if vlan \<noteq> ''0'' then parent_bridge ev bridge else ret bridge)
            (igmp_snooping_of_parent ev)))"

definition igmp_snooping_is_enabled_on_bridge_of_vif :: "'k igmp_env \<Rightarrow> string \<Rightarrow> ('k, bool) igmp_op" where
  "igmp_snooping_is_enabled_on_bridge_of_vif ev vif =
     bnd (check_output ev [ovs_vsctl, ''iface-to-br'', vif]) (igmp_snooping_is_enabled_on_bridge ev)"

primrec snooping_vifs :: "'k igmp_env \<Rightarrow> string list \<Rightarrow> ('k, string list) igmp_op" where
  "snooping_vifs ev [] = ret []"
| "snooping_vifs ev (vif # vifs) =
     bnd (igmp_snooping_is_enabled_on_bridge_of_vif ev vif) (\<lambda>b.
     bnd (snooping_vifs ev vifs) (\<lambda>rest. ret (if b then vif # rest else rest)))"

definition inject_to_vifs :: "'k igmp_env \<Rightarrow> bool \<Rightarrow> int \<Rightarrow> nat \<Rightarrow> int \<Rightarrow> string list \<Rightarrow> ('k, unit) igmp_op" where
  "inject_to_vifs ev no_check max_resp_time n timeout vifs =
     bnd (if no_check then ret vifs else snooping_vifs ev vifs) (inject ev max_resp_time n timeout)"

definition igmp_main :: "'k igmp_env \<Rightarrow> bool \<Rightarrow> int \<Rightarrow> nat \<Rightarrow> int \<Rightarrow> string list \<Rightarrow> ('k, unit) igmp_op" where
  "igmp_main ev no_check max_resp_time n timeout vifs =
     bnd (network_backend_is_openvswitch ev) (\<lambda>b.
     if \<not> b then ret () else inject_to_vifs ev no_check max_resp_time n timeout vifs)"

end
