(* ===== verification/Igmp_Proofs.thy ===== *)
theory Igmp_Proofs
  imports Igmp
begin

text \<open>
  The injector sends at most one query to an interface, and only after both of
  its ends were read as connected, unless its thread dies of an event that came
  after the watch for it was removed: the query it then sends is its last act.
\<close>

section \<open>Traces\<close>

definition sent :: "string \<Rightarrow> igmp_event list \<Rightarrow> nat" where
  "sent vif tr = length (filter (\<lambda>e. case e of Sent v p \<Rightarrow> v = vif | _ \<Rightarrow> False) tr)"

definition saw_connected :: "string \<Rightarrow> igmp_event list \<Rightarrow> bool" where
  "saw_connected path tr \<longleftrightarrow> Saw path (Some VIF_CONNECTED_STATE) \<in> set tr"

text \<open>Every query comes after both ends of its interface were read as connected.\<close>

definition in_order :: "(string \<Rightarrow> string \<times> string) \<Rightarrow> igmp_event list \<Rightarrow> bool" where
  "in_order ends tr \<longleftrightarrow>
     (\<forall>i < length tr. case tr ! i of
        Sent v p \<Rightarrow> saw_connected (fst (ends v)) (take i tr) \<and> saw_connected (snd (ends v)) (take i tr)
      | _ \<Rightarrow> True)"

lemma in_order_snoc:
  "in_order ends (tr @ [e]) \<longleftrightarrow> in_order ends tr \<and>
     (case e of Sent v p \<Rightarrow> saw_connected (fst (ends v)) tr \<and> saw_connected (snd (ends v)) tr | _ \<Rightarrow> True)"
proof -
  let ?P = "\<lambda>tr i. case tr ! i of
      Sent v p \<Rightarrow> saw_connected (fst (ends v)) (take i tr) \<and> saw_connected (snd (ends v)) (take i tr) | _ \<Rightarrow> True"
  have "?P (tr @ [e]) i \<longleftrightarrow> ?P tr i" if "i < length tr" for i
    using that by (simp add: nth_append split: igmp_event.split)
  moreover have "?P (tr @ [e]) (length tr) \<longleftrightarrow> (case e of
      Sent v p \<Rightarrow> saw_connected (fst (ends v)) tr \<and> saw_connected (snd (ends v)) tr | _ \<Rightarrow> True)"
    by (simp split: igmp_event.split)
  ultimately show ?thesis unfolding in_order_def length_append_singleton All_less_Suc by blast
qed

lemma in_order_Nil [simp]: "in_order ends []"
  by (simp add: in_order_def)

lemma trace_simps [simp]:
  "sent v [] = 0" "sent v (xs @ ys) = sent v xs + sent v ys" "sent v (Saw p x # tr) = sent v tr"
  "sent v (Ran args # tr) = sent v tr" "sent v (Sent w q # tr) = (if w = v then 1 else 0) + sent v tr"
  "\<not> saw_connected p []" "saw_connected p (xs @ ys) \<longleftrightarrow> saw_connected p xs \<or> saw_connected p ys"
  "saw_connected p (e # tr) \<longleftrightarrow> e = Saw p (Some VIF_CONNECTED_STATE) \<or> saw_connected p tr"
  by (auto simp: sent_def saw_connected_def)

section \<open>Watches\<close>

text \<open>
  What xenstore promises of watches: an event has the token of a watch that
  was registered, and the path of it or a path below it. \<open>ever\<close> is what has been
  registered so far. Nothing is promised of the time: an event that was queued
  before its watch was removed is still delivered after it.
\<close>

definition below :: "string \<Rightarrow> string \<Rightarrow> bool" where
  "below p q \<longleftrightarrow> take (Suc (length p)) q = p @ ''/''"

definition may_deliver :: "'k igmp_env \<Rightarrow> ('k \<Rightarrow> (string \<times> string) set) \<Rightarrow> bool" where
  "may_deliver ev ever \<longleftrightarrow>
     (\<forall>p t k. ever (xs_watch ev p t k) \<subseteq> insert (p, t) (ever k)) \<and>
     (\<forall>p t k. ever (xs_unwatch ev p t k) \<subseteq> ever k) \<and>
     (\<forall>k q t k'. xs_next ev k = Some ((q, t), k') \<longrightarrow>
        ever k' \<subseteq> ever k \<and> (\<exists>p. (p, t) \<in> ever k \<and> (q = p \<or> below p q))) \<and>
     (\<forall>i p k. ever (snd (xs_sendp ev i p k)) \<subseteq> ever k)"

text \<open>
  A xenstore that also drops the events of a watch that is removed: \<open>regs\<close> is
  what is registered now.
\<close>

definition filters_events :: "'k igmp_env \<Rightarrow> ('k \<Rightarrow> (string \<times> string) set) \<Rightarrow> bool" where
  "filters_events ev regs \<longleftrightarrow>
     (\<forall>p t k. regs (xs_watch ev p t k) = insert (p, t) (regs k)) \<and>
     (\<forall>p t k. regs (xs_unwatch ev p t k) = regs k - {(p, t)}) \<and>
     (\<forall>k e k'. xs_next ev k = Some (e, k') \<longrightarrow> e \<in> regs k \<and> regs k' = regs k) \<and>
     (\<forall>i p k. regs (snd (xs_sendp ev i p k)) = regs k)"

lemma filters_may_deliver: "filters_events ev regs \<Longrightarrow> may_deliver ev regs"
proof -
  assume f: "filters_events ev regs"
  have "regs k' \<subseteq> regs k \<and> (\<exists>p. (p, t) \<in> regs k \<and> (q = p \<or> below p q))"
    if "xs_next ev k = Some ((q, t), k')" for k q t k'
    using f that unfolding filters_events_def by (metis order_refl)
  with f show "may_deliver ev regs" by (simp add: filters_events_def may_deliver_def)
qed

lemma may_deliver_next:
  "may_deliver ev ever \<Longrightarrow> xs_next ev k = Some ((q, t), k') \<Longrightarrow>
   ever k' \<subseteq> ever k \<and> (\<exists>p. (p, t) \<in> ever k \<and> (q = p \<or> below p q))"
  by (simp add: may_deliver_def)

text \<open>
  The paths of the two ends of each interface: no two of them are the same and
  none is below another.
\<close>

definition vif_ends :: "'k igmp_env \<Rightarrow> string list \<Rightarrow> (string \<Rightarrow> string \<times> string) \<Rightarrow> bool" where
  "vif_ends ev vifs ends \<longleftrightarrow>
     (\<forall>v \<in> set vifs. get_vif_state_path ev v = Inr (ends v)) \<and>
     distinct (concat (map (\<lambda>v. [fst (ends v), snd (ends v)]) vifs)) \<and>
     (\<forall>v \<in> set vifs. \<forall>w \<in> set vifs. \<forall>p \<in> {fst (ends v), snd (ends v)}. \<forall>q \<in> {fst (ends w), snd (ends w)}. \<not> below p q)"

definition watched :: "'k igmp \<Rightarrow> string \<Rightarrow> bool" where
  "watched s path \<longleftrightarrow> path \<in> fst ` set (ig_watches s)"

text \<open>The invariant of the loop, with the set of half-connected interfaces.\<close>

definition vif_tracked :: "(string \<Rightarrow> string \<times> string) \<Rightarrow> string list \<Rightarrow> 'k igmp \<Rightarrow> string \<Rightarrow> bool" where
  "vif_tracked ends half s v \<longleftrightarrow>
     (let a = watched s (fst (ends v)); b = watched s (snd (ends v)); tr = ig_trace s in
      (v \<in> set half \<longleftrightarrow> a \<noteq> b) \<and> sent v tr = (if a \<or> b then 0 else 1) \<and>
      (a \<or> saw_connected (fst (ends v)) tr) \<and> (b \<or> saw_connected (snd (ends v)) tr))"

definition tracked ::
  "('k \<Rightarrow> (string \<times> string) set) \<Rightarrow> string list \<Rightarrow> (string \<Rightarrow> string \<times> string) \<Rightarrow> string list \<Rightarrow> 'k igmp \<Rightarrow> bool" where
  "tracked ever vifs ends half s \<longleftrightarrow>
     (\<forall>(p, v) \<in> ever (ig_machine s). v \<in> set vifs \<and> (p = fst (ends v) \<or> p = snd (ends v))) \<and>
     distinct (map fst (ig_watches s)) \<and>
     (\<forall>(p, v) \<in> set (ig_watches s). v \<in> set vifs \<and> (p = fst (ends v) \<or> p = snd (ends v))) \<and>
     set half \<subseteq> set vifs \<and> in_order ends (ig_trace s) \<and> (\<forall>v \<in> set vifs. vif_tracked ends half s v)"

lemma vif_ends_distinct:
  assumes "vif_ends ev vifs ends" "v \<in> set vifs" "w \<in> set vifs"
  shows "fst (ends v) \<noteq> snd (ends w)" "fst (ends v) = fst (ends w) \<longleftrightarrow> v = w"
    "snd (ends v) = snd (ends w) \<longleftrightarrow> v = w"
proof -
  have "distinct (concat (map (\<lambda>v. [fst (ends v), snd (ends v)]) vifs))" using assms(1) by (simp add: vif_ends_def)
  then have "fst (ends v) \<noteq> snd (ends w) \<and> (fst (ends v) = fst (ends w) \<longleftrightarrow> v = w) \<and> (snd (ends v) = snd (ends w) \<longleftrightarrow> v = w)"
    using assms(2,3) by (induction vifs) auto
  then show "fst (ends v) \<noteq> snd (ends w)" "fst (ends v) = fst (ends w) \<longleftrightarrow> v = w"
    "snd (ends v) = snd (ends w) \<longleftrightarrow> v = w" by auto
qed

lemma vif_ends_path: "vif_ends ev vifs ends \<Longrightarrow> v \<in> set vifs \<Longrightarrow> get_vif_state_path ev v = Inr (ends v)"
  by (simp add: vif_ends_def)

text \<open>Reading changes only the trace, and adds no query.\<close>

lemma store_read_eq:
  "store_read ev p s = (case xs_get ev p (ig_machine s) of Inl e \<Rightarrow> (Inl e, s)
     | Inr x \<Rightarrow> (Inr x, s\<lparr>ig_trace := ig_trace s @ [Saw p x]\<rparr>))"
  by (simp add: store_read_def)

lemma tracked_saw:
  "tracked regs vifs ends half s \<Longrightarrow> tracked regs vifs ends half (s\<lparr>ig_trace := ig_trace s @ [Saw p x]\<rparr>)"
  by (auto simp: tracked_def vif_tracked_def watched_def in_order_snoc Let_def)

lemma tracked_cong:
  "ig_watches s' = ig_watches s \<Longrightarrow> ig_trace s' = ig_trace s \<Longrightarrow> ever (ig_machine s') \<subseteq> ever (ig_machine s) \<Longrightarrow>
   tracked ever vifs ends half s \<Longrightarrow> tracked ever vifs ends half s'"
  unfolding tracked_def vif_tracked_def watched_def by (elim conjE, intro conjI) (simp_all, blast?)

text \<open>An event is of a watch, or of a path that is not watched, with the token of an interface.\<close>

lemma tracked_next:
  assumes t: "tracked ever vifs ends half s" and d: "may_deliver ev ever" and e: "vif_ends ev vifs ends"
    and x: "xs_next ev (ig_machine s) = Some ((q, v), k)"
  shows "tracked ever vifs ends half (s\<lparr>ig_machine := k\<rparr>)" "v \<in> set vifs"
    "(q, v) \<in> set (ig_watches s) \<or> \<not> watched s q"
proof -
  from may_deliver_next [OF d x] obtain p where k: "ever k \<subseteq> ever (ig_machine s)" and p: "(p, v) \<in> ever (ig_machine s)" "q = p \<or> below p q"
    by blast
  show "tracked ever vifs ends half (s\<lparr>ig_machine := k\<rparr>)" by (rule tracked_cong [OF _ _ _ t]) (simp_all add: k)
  have v: "v \<in> set vifs" "p = fst (ends v) \<or> p = snd (ends v)" using t p(1) unfolding tracked_def by blast+
  then show "v \<in> set vifs" by blast
  show "(q, v) \<in> set (ig_watches s) \<or> \<not> watched s q"
  proof (cases "watched s q")
    case True
    then obtain w where w: "(q, w) \<in> set (ig_watches s)" by (auto simp: watched_def)
    then have w': "w \<in> set vifs" "q = fst (ends w) \<or> q = snd (ends w)" using t unfolding tracked_def by blast+
    have "\<not> below p q" using e v w' unfolding vif_ends_def by blast
    with p(2) have "q = p" by blast
    then have "w = v"
      using vif_ends_distinct [OF e v(1) w'(1)] vif_ends_distinct [OF e w'(1) v(1)] v(2) w'(2) by metis
    with w show ?thesis by blast
  qed blast
qed

text \<open>An end of \<open>v\<close> that is read as connected is no longer watched.\<close>

definition drop_watch :: "'k igmp_env \<Rightarrow> string \<Rightarrow> string \<Rightarrow> 'k igmp \<Rightarrow> 'k igmp" where
  "drop_watch ev p v s = s\<lparr>ig_watches := AList.delete p (ig_watches s),
     ig_machine := xs_unwatch ev p v (ig_machine s)\<rparr>"

lemma unwatch_eq:
  "(p, v) \<in> set (ig_watches s) \<Longrightarrow> unwatch ev p v s = (Inr (), drop_watch ev p v s)"
  by (auto simp: unwatch_def drop_watch_def bnd_def gets_def modify_def map_of_eq_None_iff intro: rev_image_eqI)

lemma delete_watch:
  assumes "distinct (map fst ws)" "(p, v) \<in> set ws"
  shows "set (AList.delete p ws) = set ws - {(p, v)}" "distinct (map fst (AList.delete p ws))"
proof -
  have "w = v" if "(p, w) \<in> set ws" for w using assms that by (metis eq_key_imp_eq_value)
  then show "set (AList.delete p ws) = set ws - {(p, v)}" by (auto simp: AList.delete_eq)
  show "distinct (map fst (AList.delete p ws))" using assms(1) by (rule AList.distinct_delete)
qed

lemma watched_drop: "watched (drop_watch ev p v s) q \<longleftrightarrow> watched s q \<and> q \<noteq> p"
  by (auto simp: watched_def drop_watch_def AList.delete_eq)

lemma drop_watch_trace [simp]: "ig_trace (drop_watch ev p v s) = ig_trace s"
  by (simp add: drop_watch_def)

text \<open>
  Dropping a watch keeps the invariant when the interface is tracked again with
  the new set of half-connected interfaces.
\<close>

lemma tracked_drop:
  assumes "tracked regs vifs ends half s" "may_deliver ev regs" "vif_ends ev vifs ends" "(p, v) \<in> set (ig_watches s)"
    and s': "ig_watches s' = ig_watches s" "regs (ig_machine s') \<subseteq> regs (ig_machine s)" "in_order ends (ig_trace s')"
      "\<And>w. w \<noteq> v \<Longrightarrow> sent w (ig_trace s') = sent w (ig_trace s)"
      "\<And>q. saw_connected q (ig_trace s) \<Longrightarrow> saw_connected q (ig_trace s')"
    and half': "set half' - {v} = set half - {v}" "vif_tracked ends half' (drop_watch ev p v s') v"
  shows "tracked regs vifs ends half' (drop_watch ev p v s')"
proof -
  have v: "v \<in> set vifs" "p = fst (ends v) \<or> p = snd (ends v)" using assms(1,4) by (auto simp: tracked_def)
  have "vif_tracked ends half' (drop_watch ev p v s') w" if w: "w \<in> set vifs" for w
  proof (cases "w = v")
    case False
    have "fst (ends w) \<noteq> p" "snd (ends w) \<noteq> p"
      using vif_ends_distinct [OF assms(3) w v(1)] vif_ends_distinct [OF assms(3) v(1) w] v(2) False by auto
    moreover have "watched s' q = watched s q" for q using s'(1) by (simp add: watched_def)
    moreover have "w \<in> set half' \<longleftrightarrow> w \<in> set half" using half'(1) False by auto
    moreover have "vif_tracked ends half s w" using assms(1) w by (simp add: tracked_def)
    ultimately show ?thesis using s'(4) [OF False] s'(5)
      by (auto simp: vif_tracked_def watched_drop Let_def)
  qed (use half'(2) in simp)
  moreover have "set half' \<subseteq> set vifs"
  proof -
    have "set half \<subseteq> set vifs" using assms(1) by (simp add: tracked_def)
    with half'(1) v(1) show ?thesis by blast
  qed
  moreover have sub: "distinct (map fst (ig_watches (drop_watch ev p v s')))"
    "set (ig_watches (drop_watch ev p v s')) \<subseteq> set (ig_watches s)"
    using delete_watch [of "ig_watches s" p v] assms(1,4) s'(1) by (auto simp: drop_watch_def tracked_def)
  moreover have "regs (ig_machine (drop_watch ev p v s')) \<subseteq> regs (ig_machine s)"
    using assms(2) s'(2) unfolding may_deliver_def drop_watch_def by fastforce
  then have "\<forall>(q, w) \<in> regs (ig_machine (drop_watch ev p v s')). w \<in> set vifs \<and> (q = fst (ends w) \<or> q = snd (ends w))"
    using assms(1) unfolding tracked_def by blast
  moreover have "\<forall>(q, w) \<in> set (ig_watches (drop_watch ev p v s')). w \<in> set vifs \<and> (q = fst (ends w) \<or> q = snd (ends w))"
    using assms(1) sub(2) unfolding tracked_def by blast
  ultimately show ?thesis using s'(3) unfolding tracked_def by simp
qed

section \<open>One turn\<close>

definition saw :: "string \<Rightarrow> string option \<Rightarrow> 'k igmp \<Rightarrow> 'k igmp" where
  "saw p x s = s\<lparr>ig_trace := ig_trace s @ [Saw p x]\<rparr>"

definition did_send :: "'k igmp_env \<Rightarrow> int \<Rightarrow> string \<Rightarrow> string option \<Rightarrow> 'k igmp \<Rightarrow> 'k igmp" where
  "did_send ev mrt v mac s = s\<lparr>ig_machine := snd (xs_sendp ev v (query_packet mrt mac) (ig_machine s)),
     ig_trace := ig_trace s @ [Sent v (query_packet mrt mac)]\<rparr>"

lemma saw_simps [simp]:
  "ig_machine (saw p x s) = ig_machine s" "ig_watches (saw p x s) = ig_watches s"
  "ig_trace (saw p x s) = ig_trace s @ [Saw p x]" "watched (saw p x s) = watched s"
  "ig_watches (did_send ev mrt v mac s) = ig_watches s" "watched (did_send ev mrt v mac s) = watched s"
  "ig_trace (did_send ev mrt v mac s) = ig_trace s @ [Sent v (query_packet mrt mac)]"
  by (simp_all add: saw_def did_send_def watched_def fun_eq_iff)

lemma read_eq: "store_read ev p s = (case xs_get ev p (ig_machine s) of Inl e \<Rightarrow> (Inl e, s) | Inr x \<Rightarrow> (Inr x, saw p x s))"
  by (simp add: store_read_def saw_def split: sum.split)

definition mac_path :: "'k igmp_env \<Rightarrow> string \<Rightarrow> string" where
  "mac_path ev v = (case vif_frontend_path ev v of Inl e \<Rightarrow> [] | Inr f \<Rightarrow> path_join f ''mac'')"

lemma get_vif_mac_eq:
  "get_vif_state_path ev v = Inr e \<Longrightarrow> get_vif_mac ev v = store_read ev (mac_path ev v)"
  by (rule ext) (auto simp: get_vif_state_path_def get_vif_mac_def mac_path_def bnd_def lift_sum_def sbind_def
      split: sum.splits)

lemma inject_to_vif_eq:
  "get_vif_state_path ev v = Inr e \<Longrightarrow> inject_to_vif ev mrt v s =
   (case xs_get ev (mac_path ev v) (ig_machine s) of Inl e \<Rightarrow> (Inl e, s)
    | Inr m \<Rightarrow> (Inr (), did_send ev mrt v m (saw (mac_path ev v) m s)))"
  by (simp add: inject_to_vif_def get_vif_mac_eq read_eq bnd_def seq_def ret_def inject_packet_def did_send_def Let_def
      split: sum.split prod.split)

lemma note_connected_eq:
  assumes "(p, v) \<in> set (ig_watches s)" "get_vif_state_path ev v = Inr e"
  shows "note_connected ev mrt half p v s =
    (case xs_get ev p (ig_machine s) of
       Inl e \<Rightarrow> (Inl e, s)
     | Inr x \<Rightarrow>
         if x \<noteq> Some VIF_CONNECTED_STATE then (Inr half, saw p x s)
         else if v \<notin> set half then (Inr (v # half), drop_watch ev p v (saw p x s))
         else (case xs_get ev (mac_path ev v) (ig_machine s) of
             Inl e \<Rightarrow> (Inl e, saw p x s)
           | Inr m \<Rightarrow> (Inr (removeAll v half),
               drop_watch ev p v (did_send ev mrt v m (saw (mac_path ev v) m (saw p x s))))))"
  using assms(1)
  by (simp add: note_connected_def read_eq bnd_def seq_def ret_def inject_to_vif_eq [OF assms(2)] unwatch_eq
      split: sum.split)

lemma tracked_saw': "tracked regs vifs ends half s \<Longrightarrow> tracked regs vifs ends half (saw p x s)"
  unfolding saw_def by (rule tracked_saw)

lemma tracked_vifD:
  assumes "tracked regs vifs ends half s" "(p, v) \<in> set (ig_watches s)"
  shows "v \<in> set vifs" "p = fst (ends v) \<or> p = snd (ends v)" "watched s p" "vif_tracked ends half s v"
proof -
  show "v \<in> set vifs" "p = fst (ends v) \<or> p = snd (ends v)"
    using assms unfolding tracked_def by blast+
  with assms(1) show "vif_tracked ends half s v" by (simp add: tracked_def)
  show "watched s p" using assms(2) by (auto simp: watched_def intro: rev_image_eqI)
qed

lemma first_end:
  assumes "tracked regs vifs ends half s" "may_deliver ev regs" "vif_ends ev vifs ends"
    "(p, v) \<in> set (ig_watches s)" "v \<notin> set half"
  shows "tracked regs vifs ends (v # half) (drop_watch ev p v (saw p (Some VIF_CONNECTED_STATE) s))"
proof (rule tracked_drop [OF assms(1-4)])
  note v = tracked_vifD [OF assms(1,4)]
  show "vif_tracked ends (v # half) (drop_watch ev p v (saw p (Some VIF_CONNECTED_STATE) s)) v"
    using v assms(5) vif_ends_distinct(1) [OF assms(3) v(1) v(1)]
    by (auto simp: vif_tracked_def watched_drop Let_def)
  show "in_order ends (ig_trace (saw p (Some VIF_CONNECTED_STATE) s))"
    using assms(1) by (simp add: tracked_def in_order_snoc)
qed (use assms(5) in auto)

lemma second_end:
  assumes "tracked regs vifs ends half s" "may_deliver ev regs" "vif_ends ev vifs ends"
    "(p, v) \<in> set (ig_watches s)" "v \<in> set half"
  shows "tracked regs vifs ends (removeAll v half)
    (drop_watch ev p v (did_send ev mrt v m (saw q m (saw p (Some VIF_CONNECTED_STATE) s))))"
proof (rule tracked_drop [OF assms(1-4)])
  note v = tracked_vifD [OF assms(1,4)]
  let ?s = "did_send ev mrt v m (saw q m (saw p (Some VIF_CONNECTED_STATE) s))"
  show "vif_tracked ends (removeAll v half) (drop_watch ev p v ?s) v"
    using v assms(5) vif_ends_distinct(1) [OF assms(3) v(1) v(1)]
    by (auto simp: vif_tracked_def watched_drop Let_def)
  have "ig_trace ?s =
      ((ig_trace s @ [Saw p (Some VIF_CONNECTED_STATE)]) @ [Saw q m]) @ [Sent v (query_packet mrt m)]" by simp
  then show "in_order ends (ig_trace ?s)"
    unfolding \<open>ig_trace ?s = _\<close> in_order_snoc using assms(1,5) v
    by (auto simp: tracked_def vif_tracked_def Let_def)
  show "regs (ig_machine ?s) \<subseteq> regs (ig_machine s)"
    using assms(2) by (simp add: did_send_def may_deliver_def)
qed auto

text \<open>
  An event of a path that is not watched: a query may be sent, but then the
  watch cannot be removed.
\<close>

lemma unwatch_missing: "\<not> watched s p \<Longrightarrow> unwatch ev p v s = (Inl Igmp_KeyError, s)"
  by (auto simp: watched_def unwatch_def bnd_def gets_def throw_def map_of_eq_None_iff)

lemma note_stray_eq:
  assumes "\<not> watched s p" "get_vif_state_path ev v = Inr e"
  shows "note_connected ev mrt half p v s =
    (case xs_get ev p (ig_machine s) of
       Inl e \<Rightarrow> (Inl e, s)
     | Inr x \<Rightarrow>
         if x \<noteq> Some VIF_CONNECTED_STATE then (Inr half, saw p x s)
         else if v \<notin> set half then (Inl Igmp_KeyError, saw p x s)
         else (case xs_get ev (mac_path ev v) (ig_machine s) of
             Inl e \<Rightarrow> (Inl e, saw p x s)
           | Inr m \<Rightarrow> (Inl Igmp_KeyError, did_send ev mrt v m (saw (mac_path ev v) m (saw p x s)))))"
  using assms(1)
  by (simp add: note_connected_def read_eq bnd_def seq_def ret_def inject_to_vif_eq [OF assms(2)] unwatch_missing
      split: sum.split)

text \<open>What such a thread leaves: a query for a half-connected interface is its last event.\<close>

definition strayed ::
  "('k \<Rightarrow> (string \<times> string) set) \<Rightarrow> string list \<Rightarrow> (string \<Rightarrow> string \<times> string) \<Rightarrow> 'k igmp \<Rightarrow> bool" where
  "strayed ever vifs ends s \<longleftrightarrow> (\<exists>half s0 v q. tracked ever vifs ends half s0 \<and> v \<in> set half
     \<and> ig_watches s = ig_watches s0 \<and> ig_trace s = ig_trace s0 @ [Sent v q])"

lemma note_tracked:
  assumes "tracked regs vifs ends half s" "may_deliver ev regs" "vif_ends ev vifs ends"
    "(p, v) \<in> set (ig_watches s)" "note_connected ev mrt half p v s = (r, s')"
  shows "\<exists>half'. tracked regs vifs ends half' s' \<and> (\<forall>h. r = Inr h \<longrightarrow> half' = h)"
proof -
  note eq = note_connected_eq [OF assms(4) vif_ends_path [OF assms(3) tracked_vifD(1) [OF assms(1,4)]], of mrt half]
  show ?thesis
  proof (cases r)
    case (Inl e)
    then have "s' = s \<or> (\<exists>x. s' = saw p x s)"
      using assms(5) unfolding eq by (auto split: sum.splits if_splits)
    with Inl assms(1) tracked_saw' [OF assms(1)] show ?thesis by blast
  next
    case (Inr h)
    then show ?thesis
      using assms(5) first_end [OF assms(1-4)] second_end [OF assms(1-4)] tracked_saw' [OF assms(1)]
      unfolding eq by (auto split: sum.splits if_splits)
  qed
qed

lemma note_stray:
  assumes t: "tracked regs vifs ends half s" and e: "vif_ends ev vifs ends" and p: "\<not> watched s p" and v: "v \<in> set vifs"
    and n: "note_connected ev mrt half p v s = (r, s')"
  shows "tracked regs vifs ends half s' \<and> (\<forall>h. r = Inr h \<longrightarrow> half = h)
    \<or> r = Inl Igmp_KeyError \<and> strayed regs vifs ends s'"
proof -
  have stray: "strayed regs vifs ends (did_send ev mrt v m (saw q m (saw p x s)))" if "v \<in> set half" for q m x
    unfolding strayed_def
    by (intro exI [of _ half] exI [of _ "saw q m (saw p x s)"] exI [of _ v] exI [of _ "query_packet mrt m"])
      (use t that in \<open>simp add: tracked_saw'\<close>)
  show ?thesis
    using n t tracked_saw' [OF t] stray unfolding note_stray_eq [OF p vif_ends_path [OF e v]]
    by (auto split: sum.splits if_splits)
qed

lemma loop_tracked:
  assumes "tracked regs vifs ends half s" "may_deliver ev regs" "vif_ends ev vifs ends"
    "check_and_inject ev mrt n half s = (w, s')"
  shows "(\<exists>half'. tracked regs vifs ends half' s') \<or> w = Died Igmp_KeyError \<and> strayed regs vifs ends s'"
  using assms(1,4)
proof (induction n arbitrary: half s)
  case 0
  then show ?case by (auto simp: check_and_inject.simps split: if_splits)
next
  case (Suc n)
  show ?case
  proof (cases "ig_watches s = []")
    case True
    with Suc.prems show ?thesis by (auto simp: check_and_inject.simps)
  next
    case False
    show ?thesis
    proof (cases "xs_next ev (ig_machine s)")
      case None
      with False Suc.prems show ?thesis by (auto simp: check_and_inject.simps check_turn_def)
    next
      case (Some x)
      then obtain p v k where x: "xs_next ev (ig_machine s) = Some ((p, v), k)" by (cases x) auto
      let ?s = "s\<lparr>ig_machine := k\<rparr>"
      note t = tracked_next [OF Suc.prems(1) assms(2,3) x]
      obtain r s1 where n: "note_connected ev mrt half p v ?s = (r, s1)" by fastforce
      have "(p, v) \<in> set (ig_watches ?s) \<or> \<not> watched ?s p" using t(3) by (simp add: watched_def)
      then have step: "(\<exists>half'. tracked regs vifs ends half' s1 \<and> (\<forall>h. r = Inr h \<longrightarrow> half' = h))
          \<or> r = Inl Igmp_KeyError \<and> strayed regs vifs ends s1"
        using note_tracked [OF t(1) assms(2,3) _ n] note_stray [OF t(1) assms(3) _ t(2) n] by blast
      show ?thesis
      proof (cases r)
        case (Inl e)
        with n x False Suc.prems(2) have "w = Died e" "s' = s1"
          by (simp_all add: check_and_inject.simps [of _ _ _ _ s] check_turn_def)
        with step Inl show ?thesis by blast
      next
        case (Inr h)
        with step have "tracked regs vifs ends h s1" by blast
        moreover have "check_and_inject ev mrt n h s1 = (w, s')"
          using Inr n x False Suc.prems(2) by (simp add: check_and_inject.simps [of _ _ _ _ s] check_turn_def)
        ultimately show ?thesis by (rule Suc.IH)
      qed
    qed
  qed
qed

section \<open>The whole injection\<close>

definition vif_watches :: "(string \<Rightarrow> string \<times> string) \<Rightarrow> string list \<Rightarrow> (string \<times> string) list" where
  "vif_watches ends vifs = concat (map (\<lambda>v. [(fst (ends v), v), (snd (ends v), v)]) vifs)"

lemma watch_all:
  assumes "\<forall>v \<in> set vifs. get_vif_state_path ev v = Inr (ends v)"
    "distinct (map fst (ig_watches s @ vif_watches ends vifs))"
  shows "\<exists>s1. for_each (watch_vif ev) vifs s = (Inr (), s1) \<and>
    ig_watches s1 = ig_watches s @ vif_watches ends vifs \<and> ig_trace s1 = ig_trace s \<and>
    ig_machine s1 = fold (\<lambda>(p, v). xs_watch ev p v) (vif_watches ends vifs) (ig_machine s)"
  using assms
proof (induction vifs arbitrary: s)
  case Nil
  then show ?case by (simp add: vif_watches_def ret_def)
next
  case (Cons v vifs)
  let ?f = "fst (ends v)" and ?b = "snd (ends v)"
  let ?s = "s\<lparr>ig_watches := ig_watches s @ [(?f, v), (?b, v)],
      ig_machine := xs_watch ev ?b v (xs_watch ev ?f v (ig_machine s))\<rparr>"
  have "map_of (ig_watches s) ?f = None" "map_of (ig_watches s @ [(?f, v)]) ?b = None"
    using Cons.prems(2) by (auto simp: vif_watches_def map_of_eq_None_iff)
  moreover have "get_vif_state_path ev v = Inr (?f, ?b)" using Cons.prems(1) by simp
  ultimately have "watch_vif ev v s = (Inr (), ?s)"
    by (cases "ends v") (simp add: watch_vif_def lift_sum_def bnd_def seq_def watch_def modify_def update_new)
  moreover obtain s1 where "for_each (watch_vif ev) vifs ?s = (Inr (), s1)"
    "ig_watches s1 = ig_watches ?s @ vif_watches ends vifs" "ig_trace s1 = ig_trace ?s"
    "ig_machine s1 = fold (\<lambda>(p, v). xs_watch ev p v) (vif_watches ends vifs) (ig_machine ?s)"
    using Cons.IH [of ?s] Cons.prems by (auto simp: vif_watches_def)
  ultimately show ?case by (intro exI [of _ s1]) (simp add: vif_watches_def)
qed

lemma ever_watches:
  assumes "may_deliver ev ever"
  shows "ever (fold (\<lambda>(p, v). xs_watch ev p v) ws k) \<subseteq> ever k \<union> set ws"
proof (induction ws arbitrary: k)
  case (Cons w ws)
  obtain p v where w: "w = (p, v)" by fastforce
  have "ever (xs_watch ev p v k) \<subseteq> insert (p, v) (ever k)" using assms unfolding may_deliver_def by blast
  with Cons.IH [of "xs_watch ev p v k"] show ?case by (auto simp: w)
qed simp

lemma regs_watches:
  assumes "filters_events ev regs"
  shows "regs (fold (\<lambda>(p, v). xs_watch ev p v) ws k) = regs k \<union> set ws"
proof (induction ws arbitrary: k)
  case (Cons w ws)
  obtain p v where w: "w = (p, v)" by fastforce
  have "regs (xs_watch ev p v k) = insert (p, v) (regs k)" using assms unfolding filters_events_def by blast
  with Cons.IH [of "xs_watch ev p v k"] show ?case by (auto simp: w)
qed simp

lemma watch_all_tracked:
  assumes "may_deliver ev ever" "vif_ends ev vifs ends"
    "ig_watches s = []" "ig_trace s = []" "ever (ig_machine s) = {}"
  shows "\<exists>s1. for_each (watch_vif ev) vifs s = (Inr (), s1) \<and> tracked ever vifs ends [] s1 \<and>
    ig_watches s1 = vif_watches ends vifs \<and>
    ig_machine s1 = fold (\<lambda>(p, v). xs_watch ev p v) (vif_watches ends vifs) (ig_machine s)"
proof -
  have keys: "map fst (vif_watches ends vifs) = concat (map (\<lambda>v. [fst (ends v), snd (ends v)]) vifs)"
    by (simp add: vif_watches_def map_concat comp_def)
  have d: "distinct (map fst (vif_watches ends vifs))" "\<forall>v \<in> set vifs. get_vif_state_path ev v = Inr (ends v)"
    using assms(2) unfolding keys by (simp_all add: vif_ends_def)
  obtain s1 where s1: "for_each (watch_vif ev) vifs s = (Inr (), s1)" "ig_watches s1 = vif_watches ends vifs"
    "ig_trace s1 = []" "ig_machine s1 = fold (\<lambda>(p, v). xs_watch ev p v) (vif_watches ends vifs) (ig_machine s)"
    using watch_all [OF d(2), of s] d(1) assms(3,4) by auto
  have "watched s1 (fst (ends v))" "watched s1 (snd (ends v))" if "v \<in> set vifs" for v
  proof -
    have "(fst (ends v), v) \<in> set (vif_watches ends vifs)" "(snd (ends v), v) \<in> set (vif_watches ends vifs)"
      using that by (auto simp: vif_watches_def)
    then show "watched s1 (fst (ends v))" "watched s1 (snd (ends v))"
      using s1(2) by (auto simp: watched_def intro: rev_image_eqI)
  qed
  then have "vif_tracked ends [] s1 v" if "v \<in> set vifs" for v using that s1(3) by (simp add: vif_tracked_def)
  moreover have ws: "\<forall>(p, v) \<in> set (vif_watches ends vifs). v \<in> set vifs \<and> (p = fst (ends v) \<or> p = snd (ends v))"
    by (auto simp: vif_watches_def)
  moreover have "ever (ig_machine s1) \<subseteq> set (vif_watches ends vifs)"
    using ever_watches [OF assms(1), of "vif_watches ends vifs" "ig_machine s"] assms(5) s1(4) by simp
  with ws have "\<forall>(p, v) \<in> ever (ig_machine s1). v \<in> set vifs \<and> (p = fst (ends v) \<or> p = snd (ends v))" by blast
  ultimately have "tracked ever vifs ends [] s1" using s1 d(1) by (simp add: tracked_def)
  with s1 show ?thesis by blast
qed

text \<open>The warnings after the timeout only read.\<close>

definition only_saw :: "igmp_event list \<Rightarrow> bool" where
  "only_saw tr \<longleftrightarrow> (\<forall>x \<in> set tr. case x of Saw p v \<Rightarrow> True | _ \<Rightarrow> False)"

lemma only_saw_simps [simp]:
  "only_saw []" "only_saw (xs @ ys) \<longleftrightarrow> only_saw xs \<and> only_saw ys" "only_saw [Saw p v]"
  by (auto simp: only_saw_def)

lemma only_saw_sent: "only_saw tr \<Longrightarrow> sent v tr = 0"
  unfolding only_saw_def sent_def by (auto simp: filter_empty_conv split: igmp_event.splits)

lemma only_saw_in_order: "only_saw tr' \<Longrightarrow> in_order ends (tr @ tr') = in_order ends tr"
proof (induction tr' rule: rev_induct)
  case (snoc x xs)
  then have "in_order ends ((tr @ xs) @ [x]) = in_order ends (tr @ xs)"
    unfolding in_order_snoc by (auto simp: only_saw_def split: igmp_event.splits)
  with snoc show ?case by simp
qed simp

lemma warnings_read:
  "\<exists>tr. ig_watches (snd (for_each (\<lambda>(path, vif). seq (get_vif_mac ev vif) (ret ())) ws s)) = ig_watches s
    \<and> ig_trace (snd (for_each (\<lambda>(path, vif). seq (get_vif_mac ev vif) (ret ())) ws s)) = ig_trace s @ tr \<and> only_saw tr"
proof -
  let ?P = "\<lambda>t. ig_watches t = ig_watches s \<and> (\<exists>tr. ig_trace t = ig_trace s @ tr \<and> only_saw tr)"
  have step: "?P (saw q x t)" if "?P t" for q x t
  proof -
    from that obtain tr where "ig_watches t = ig_watches s" "ig_trace t = ig_trace s @ tr" "only_saw tr" by blast
    then show ?thesis by (intro conjI exI [of _ "tr @ [Saw q x]"]) simp_all
  qed
  have "keeps ?P (get_vif_mac ev v)" for v
  proof (rule keepsI)
    fix t :: "'a igmp" assume t: "?P t"
    have "snd (get_vif_mac ev v t) = t \<or> (\<exists>q x. snd (get_vif_mac ev v t) = saw q x t)"
      by (auto simp: get_vif_mac_def bnd_def lift_sum_def read_eq split: sum.split)
    with t step show "?P (snd (get_vif_mac ev v t))" by metis
  qed
  then have "keeps ?P (seq (get_vif_mac ev v) (ret ()))" for v by (intro keeps_intros)
  then have "keeps ?P (for_each (\<lambda>(path, vif). seq (get_vif_mac ev vif) (ret ())) ws)"
    by (intro keeps_for_each) (simp split: prod.split)
  from keepsD [OF this] show ?thesis by auto
qed

lemma injection_run:
  assumes "may_deliver ev ever" "vif_ends ev vifs ends" "ig_watches s = []" "ig_trace s = []"
    "ever (ig_machine s) = {}" "inject_with_connection_state_check ev mrt n vifs s = (r, s')"
  shows "\<exists>s1 w s2 tr. for_each (watch_vif ev) vifs s = (Inr (), s1) \<and> check_and_inject ev mrt n [] s1 = (w, s2)
    \<and> ((\<exists>half. tracked ever vifs ends half s2) \<or> w = Died Igmp_KeyError \<and> strayed ever vifs ends s2)
    \<and> watched s' = watched s2 \<and> ig_trace s' = ig_trace s2 @ tr \<and> only_saw tr"
proof -
  obtain s1 where s1: "for_each (watch_vif ev) vifs s = (Inr (), s1)" "tracked ever vifs ends [] s1"
    using watch_all_tracked [OF assms(1-5)] by blast
  obtain w s2 where s2: "check_and_inject ev mrt n [] s1 = (w, s2)" by fastforce
  note loop_tracked [OF s1(2) assms(1,2) s2]
  moreover obtain tr where "ig_watches s' = ig_watches s2" "ig_trace s' = ig_trace s2 @ tr" "only_saw tr"
    using warnings_read [of ev "ig_watches s2" s2] s1 s2 assms(6)
    by (auto simp: inject_with_connection_state_check_def seq_def bnd_def modify_def gets_def)
  ultimately show ?thesis using s1(1) s2 by (auto simp: watched_def fun_eq_iff)
qed

text \<open>When every end is connected and events are delivered, each turn ends a watch.\<close>

definition all_connected ::
  "'k igmp_env \<Rightarrow> ('k \<Rightarrow> (string \<times> string) set) \<Rightarrow> string list \<Rightarrow> (string \<Rightarrow> string \<times> string) \<Rightarrow> bool" where
  "all_connected ev regs vifs ends \<longleftrightarrow>
     (\<forall>k. regs k \<noteq> {} \<longrightarrow> xs_next ev k \<noteq> None) \<and>
     (\<forall>v \<in> set vifs. \<forall>k. xs_get ev (fst (ends v)) k = Inr (Some VIF_CONNECTED_STATE) \<and>
        xs_get ev (snd (ends v)) k = Inr (Some VIF_CONNECTED_STATE) \<and> (\<exists>m. xs_get ev (mac_path ev v) k = Inr m))"

lemma drop_watch_shorter:
  "(p, v) \<in> set (ig_watches s) \<Longrightarrow> ig_watches s' = ig_watches s \<Longrightarrow>
   length (ig_watches (drop_watch ev p v s')) < length (ig_watches s)"
  by (auto simp: drop_watch_def AList.delete_eq intro!: length_filter_less)

lemma drop_watch_regs:
  assumes "filters_events ev regs" "distinct (map fst (ig_watches s))" "(p, v) \<in> set (ig_watches s)"
    "set (ig_watches s) = regs (ig_machine s)" "ig_watches s' = ig_watches s" "regs (ig_machine s') = regs (ig_machine s)"
  shows "set (ig_watches (drop_watch ev p v s')) = regs (ig_machine (drop_watch ev p v s'))"
  using assms delete_watch(1) [OF assms(2,3)] by (simp add: drop_watch_def filters_events_def)

lemma loop_finishes:
  assumes "tracked regs vifs ends half s" "filters_events ev regs" "vif_ends ev vifs ends"
    "all_connected ev regs vifs ends" "length (ig_watches s) \<le> n" "set (ig_watches s) = regs (ig_machine s)"
  shows "fst (check_and_inject ev mrt n half s) = Finished \<and> ig_watches (snd (check_and_inject ev mrt n half s)) = []"
  using assms(1,5,6)
proof (induction n arbitrary: half s)
  case 0
  then show ?case by (simp add: check_and_inject.simps)
next
  case (Suc n)
  show ?case
  proof (cases "ig_watches s = []")
    case True
    then show ?thesis by (simp add: check_and_inject.simps)
  next
    case False
    then have "regs (ig_machine s) \<noteq> {}" using Suc.prems(3) by auto
    with assms(4) have "xs_next ev (ig_machine s) \<noteq> None" unfolding all_connected_def by blast
    then obtain p v k where x: "xs_next ev (ig_machine s) = Some ((p, v), k)" by auto
    let ?s = "s\<lparr>ig_machine := k\<rparr>"
    note md = filters_may_deliver [OF assms(2)]
    note t = tracked_next [OF Suc.prems(1) md assms(3) x]
    have reg: "regs k = regs (ig_machine s)" and "(p, v) \<in> regs (ig_machine s)"
      using assms(2) x unfolding filters_events_def by blast+
    with Suc.prems(3) have w: "(p, v) \<in> set (ig_watches ?s)" and w0: "(p, v) \<in> set (ig_watches s)" by simp_all
    note v = tracked_vifD [OF t(1) w]
    note eq = note_connected_eq [OF w vif_ends_path [OF assms(3) v(1)], of mrt half]
    have "xs_get ev (fst (ends v)) k = Inr (Some VIF_CONNECTED_STATE) \<and>
        xs_get ev (snd (ends v)) k = Inr (Some VIF_CONNECTED_STATE) \<and> (\<exists>m. xs_get ev (mac_path ev v) k = Inr m)"
      using assms(4) v(1) unfolding all_connected_def by blast
    with v(2) obtain m where get: "xs_get ev p k = Inr (Some VIF_CONNECTED_STATE)" "xs_get ev (mac_path ev v) k = Inr m"
      by blast
    have dist: "distinct (map fst (ig_watches s))" using Suc.prems(1) by (simp add: tracked_def)
    have "regs (ig_machine (did_send ev mrt v m u)) = regs (ig_machine u)" for u
      using assms(2) by (simp add: did_send_def filters_events_def)
    then have step: "length (ig_watches (drop_watch ev p v s')) < length (ig_watches s)
        \<and> set (ig_watches (drop_watch ev p v s')) = regs (ig_machine (drop_watch ev p v s'))"
      if "s' = saw p y ?s \<or> s' = did_send ev mrt v m (saw q z (saw p y ?s))" for s' y q z
      using drop_watch_shorter [OF w0, of s'] drop_watch_regs [OF assms(2) dist w0 Suc.prems(3), of s'] reg that
      by auto
    have "\<exists>h s1. note_connected ev mrt half p v ?s = (Inr h, s1) \<and> length (ig_watches s1) < length (ig_watches s)
        \<and> set (ig_watches s1) = regs (ig_machine s1)"
      unfolding eq using get step [OF disjI1 [OF refl]] step [OF disjI2 [OF refl]] by simp
    then obtain h s1 where n: "note_connected ev mrt half p v ?s = (Inr h, s1)"
      and short: "length (ig_watches s1) < length (ig_watches s)" and reg1: "set (ig_watches s1) = regs (ig_machine s1)"
      by blast
    have "tracked regs vifs ends h s1" using note_tracked [OF t(1) md assms(3) w n] by blast
    moreover have "check_and_inject ev mrt (Suc n) half s = check_and_inject ev mrt n h s1"
      using n x False by (simp add: check_and_inject.simps [of _ _ _ _ s] check_turn_def)
    ultimately show ?thesis using Suc.IH short reg1 Suc.prems(2) by simp
  qed
qed

section \<open>A xenstore\<close>

text \<open>
  The state is the list of registered watches, whose first one fires; all
  values are \<^verbatim>\<open>4\<close>. In the second machine every watch that was ever registered
  stays in the list and can still fire.
\<close>

definition demo_store :: "((string \<times> string) list \<Rightarrow> string \<Rightarrow> string \<Rightarrow> (string \<times> string) list) \<Rightarrow>
    (string \<times> string) list igmp_env" where
  "demo_store rm = \<lparr>xs_get = (\<lambda>p k. Inr (Some ''4'')), xs_domain_path = (\<lambda>d. ''/local/domain/'' @ int_text d),
     xs_watch = (\<lambda>p t k. k @ [(p, t)]), xs_unwatch = (\<lambda>p t k. rm k p t),
     xs_next = (\<lambda>k. case k of [] \<Rightarrow> None | e # _ \<Rightarrow> Some (e, k)),
     xs_command = (\<lambda>args k. (Some [], k)), xs_sendp = (\<lambda>i p k. (True, k))\<rparr>"

definition good_store :: "(string \<times> string) list igmp_env" where
  "good_store = demo_store (\<lambda>k p t. removeAll (p, t) k)"

definition stale_store :: "(string \<times> string) list igmp_env" where
  "stale_store = demo_store (\<lambda>k p t. k)"

definition demo_ends :: "string \<Rightarrow> string \<times> string" where
  "demo_ends v = (''/local/domain/1/device/vif/0/state'', ''/local/domain/0/backend/vif/1/0/state'')"

definition demo_start :: "(string \<times> string) list \<Rightarrow> (string \<times> string) list igmp" where
  "demo_start ws = \<lparr>ig_machine = ws, ig_watches = ws, ig_trace = [], ig_snooping = [], ig_parent_snooping = []\<rparr>"

lemma good_filters: "filters_events good_store set"
  by (auto simp: filters_events_def good_store_def demo_store_def split: list.splits)

lemma stale_may_deliver: "may_deliver stale_store set"
  by (auto simp: may_deliver_def stale_store_def demo_store_def split: list.splits)

lemma demo_vif_ends: "vif_ends good_store [''vif1.0''] demo_ends" "vif_ends stale_store [''vif1.0''] demo_ends"
  unfolding vif_ends_def by code_simp+

lemma good_connected: "all_connected good_store set [''vif1.0''] demo_ends"
  by (auto simp: all_connected_def good_store_def demo_store_def VIF_CONNECTED_STATE_def split: list.split)

section \<open>The properties\<close>

text \<open>What the invariant and a stray query say of an interface.\<close>

lemma tracked_counts:
  assumes "tracked ever vifs ends half s" "v \<in> set vifs"
  shows "sent v (ig_trace s) = (if watched s (fst (ends v)) \<or> watched s (snd (ends v)) then 0 else 1)"
  using assms by (simp add: tracked_def vif_tracked_def Let_def)

lemma strayed_cases:
  assumes "strayed ever vifs ends s"
  obtains tr v q where "ig_trace s = tr @ [Sent v q]" "in_order ends tr" "v \<in> set vifs"
    "saw_connected (fst (ends v)) tr \<or> saw_connected (snd (ends v)) tr"
    "watched s (fst (ends v)) \<noteq> watched s (snd (ends v))"
    "\<And>w. w \<in> set vifs \<Longrightarrow> sent w (ig_trace s) =
      (if w = v then 1 else if watched s (fst (ends w)) \<or> watched s (snd (ends w)) then 0 else 1)"
proof -
  from assms obtain half s0 v q where t: "tracked ever vifs ends half s0" and v: "v \<in> set half"
    and s: "ig_watches s = ig_watches s0" "ig_trace s = ig_trace s0 @ [Sent v q]"
    unfolding strayed_def by blast
  have w: "watched s = watched s0" using s(1) by (simp add: watched_def fun_eq_iff)
  have vs: "v \<in> set vifs" using t v by (auto simp: tracked_def)
  then have vt: "vif_tracked ends half s0 v" and "in_order ends (ig_trace s0)" using t by (simp_all add: tracked_def)
  moreover have "watched s (fst (ends v)) \<noteq> watched s (snd (ends v))"
    "saw_connected (fst (ends v)) (ig_trace s0) \<or> saw_connected (snd (ends v)) (ig_trace s0)" "sent v (ig_trace s0) = 0"
    using vt v unfolding w by (auto simp: vif_tracked_def Let_def split: if_splits)
  moreover have "sent u (ig_trace s) = (if u = v then 1 else if watched s (fst (ends u)) \<or> watched s (snd (ends u)) then 0 else 1)"
    if "u \<in> set vifs" for u
  proof (cases "u = v")
    case False
    with tracked_counts [OF t that] show ?thesis by (simp add: s(2) w)
  qed (simp add: s(2) \<open>sent v (ig_trace s0) = 0\<close>)
  ultimately show ?thesis using that [OF s(2)] vs by blast
qed

text \<open>
  C32: Waiting for connections, however many turns the timeout allows,
  whatever fails and whatever events of its watches xenstore delivers, also of
  watches that have been removed, an interface gets at most one query: none when
  both of its ends are still watched after the last turn, one when neither is.
  Unless the thread dies with \<^verbatim>\<open>KeyError\<close>, every query comes after both ends of its
  interface were read as connected, and there is none for an interface with an
  end still watched. When it dies so, the same holds of all that came before
  its last event, which may be a query for an interface of which one end only is known to
  have been read as connected before. The turns are whole: the thread may
  also be overtaken by the timeout within one, after the query and before the watch is removed.
\<close>

lemma query_after_both_ends:
  assumes "may_deliver ev ever" "vif_ends ev vifs ends" "ig_watches s = []" "ig_trace s = []"
    "ever (ig_machine s) = {}" "inject_with_connection_state_check ev mrt n vifs s = (r, s')"
  shows "\<exists>s1 w s2. for_each (watch_vif ev) vifs s = (Inr (), s1) \<and> check_and_inject ev mrt n [] s1 = (w, s2)
    \<and> (\<forall>v \<in> set vifs. sent v (ig_trace s') \<le> 1
        \<and> (watched s' (fst (ends v)) \<and> watched s' (snd (ends v)) \<longrightarrow> sent v (ig_trace s') = 0)
        \<and> (\<not> watched s' (fst (ends v)) \<and> \<not> watched s' (snd (ends v)) \<longrightarrow> sent v (ig_trace s') = 1))
    \<and> (w \<noteq> Died Igmp_KeyError \<longrightarrow> in_order ends (ig_trace s')
        \<and> (\<forall>v \<in> set vifs. watched s' (fst (ends v)) \<or> watched s' (snd (ends v)) \<longrightarrow> sent v (ig_trace s') = 0))
    \<and> (\<exists>tr stray reads. ig_trace s' = tr @ stray @ reads \<and> in_order ends tr \<and> only_saw reads
        \<and> (stray = [] \<or> w = Died Igmp_KeyError \<and> (\<exists>v q. stray = [Sent v q] \<and> v \<in> set vifs
             \<and> (saw_connected (fst (ends v)) tr \<or> saw_connected (snd (ends v)) tr))))"
proof -
  obtain s1 w s2 tr where run: "for_each (watch_vif ev) vifs s = (Inr (), s1)" "check_and_inject ev mrt n [] s1 = (w, s2)"
    and inv: "(\<exists>half. tracked ever vifs ends half s2) \<or> w = Died Igmp_KeyError \<and> strayed ever vifs ends s2"
    and s': "watched s' = watched s2" "ig_trace s' = ig_trace s2 @ tr" and tr: "only_saw tr"
    using injection_run [OF assms] by blast
  have sent: "sent v (ig_trace s') = sent v (ig_trace s2)" for v using s'(2) only_saw_sent [OF tr] by simp
  from inv show ?thesis
  proof
    assume "\<exists>half. tracked ever vifs ends half s2"
    then obtain half where t: "tracked ever vifs ends half s2" by blast
    then have "in_order ends (ig_trace s')" using only_saw_in_order [OF tr] s'(2) by (simp add: tracked_def)
    with run tracked_counts [OF t] show ?thesis unfolding sent s'(1)
      by (intro exI [of _ s1] exI [of _ w] exI [of _ s2] conjI exI [of _ "ig_trace s'"] exI [of _ "[]"]) simp_all
  next
    assume d: "w = Died Igmp_KeyError \<and> strayed ever vifs ends s2"
    then obtain tr1 v q where x: "ig_trace s2 = tr1 @ [Sent v q]" "in_order ends tr1" "v \<in> set vifs"
      "saw_connected (fst (ends v)) tr1 \<or> saw_connected (snd (ends v)) tr1"
      "watched s2 (fst (ends v)) \<noteq> watched s2 (snd (ends v))"
      "\<And>u. u \<in> set vifs \<Longrightarrow> sent u (ig_trace s2) =
        (if u = v then 1 else if watched s2 (fst (ends u)) \<or> watched s2 (snd (ends u)) then 0 else 1)"
      using strayed_cases by metis
    have last: "\<exists>tr stray reads. ig_trace s' = tr @ stray @ reads \<and> in_order ends tr \<and> only_saw reads
        \<and> (stray = [] \<or> w = Died Igmp_KeyError \<and> (\<exists>v q. stray = [Sent v q] \<and> v \<in> set vifs
             \<and> (saw_connected (fst (ends v)) tr \<or> saw_connected (snd (ends v)) tr)))"
      using d x tr s'(2) by (intro exI [of _ tr1] exI [of _ "[Sent v q]"] exI [of _ tr]) simp
    have "\<forall>u \<in> set vifs. sent u (ig_trace s') \<le> 1
        \<and> (watched s' (fst (ends u)) \<and> watched s' (snd (ends u)) \<longrightarrow> sent u (ig_trace s') = 0)
        \<and> (\<not> watched s' (fst (ends u)) \<and> \<not> watched s' (snd (ends u)) \<longrightarrow> sent u (ig_trace s') = 1)"
      using x(5,6) unfolding sent s'(1) by auto
    with run d last show ?thesis by blast
  qed
qed

text \<open>
  The witness: one store delivers the events of registered watches, and the query is
  sent; the other also delivers old ones.
\<close>

lemma query_after_both_ends_witness:
  "(\<exists>r s'. inject_with_connection_state_check good_store 100 2 [''vif1.0''] (demo_start []) = (r, s')
      \<and> in_order demo_ends (ig_trace s') \<and> sent ''vif1.0'' (ig_trace s') = 1)
   \<and> (\<exists>r s'. inject_with_connection_state_check stale_store 100 2 [''vif1.0''] (demo_start []) = (r, s')
      \<and> sent ''vif1.0'' (ig_trace s') \<le> 1 \<and> ig_watches s' \<noteq> [])"
proof
  let ?run = "\<lambda>ev. inject_with_connection_state_check ev 100 2 [''vif1.0''] (demo_start [])"
  obtain r s' where r: "?run good_store = (r, s')" by fastforce
  have "ig_watches (snd (?run good_store)) = []" by code_simp
  with r have w: "ig_watches s' = []" by simp
  have s1: "fst (check_and_inject good_store 100 2 [] (snd (for_each (watch_vif good_store) [''vif1.0''] (demo_start []))))
    = Finished" by code_simp
  have "in_order demo_ends (ig_trace s') \<and> sent ''vif1.0'' (ig_trace s') = 1"
    using query_after_both_ends [OF filters_may_deliver [OF good_filters] demo_vif_ends(1) _ _ _ r] s1 w
    by (auto simp: demo_start_def watched_def)
  with r show "\<exists>r s'. ?run good_store = (r, s') \<and> in_order demo_ends (ig_trace s') \<and> sent ''vif1.0'' (ig_trace s') = 1"
    by blast
  obtain r s' where r: "?run stale_store = (r, s')" by fastforce
  have "ig_watches (snd (?run stale_store)) \<noteq> []" by code_simp
  moreover have "sent ''vif1.0'' (ig_trace s') \<le> 1"
    using query_after_both_ends [OF stale_may_deliver demo_vif_ends(2) _ _ _ r] by (auto simp: demo_start_def)
  ultimately show "\<exists>r s'. ?run stale_store = (r, s') \<and> sent ''vif1.0'' (ig_trace s') \<le> 1 \<and> ig_watches s' \<noteq> []"
    using r by auto
qed

text \<open>
  When all ends are connected, and xenstore delivers its events and drops
  those of removed watches, two turns for each interface are enough: the tool
  returns, nothing is watched any more and every interface has got exactly one query.
\<close>

lemma connected_vifs_queried:
  assumes "filters_events ev regs" "vif_ends ev vifs ends" "ig_watches s = []" "ig_trace s = []"
    "regs (ig_machine s) = {}" "all_connected ev regs vifs ends" "2 * length vifs \<le> n"
    "inject_with_connection_state_check ev mrt n vifs s = (r, s')"
  shows "r = Inr () \<and> ig_watches s' = [] \<and> (\<forall>v \<in> set vifs. sent v (ig_trace s') = 1)"
proof -
  note md = filters_may_deliver [OF assms(1)]
  obtain s1 where s1: "for_each (watch_vif ev) vifs s = (Inr (), s1)" "tracked regs vifs ends [] s1"
    "ig_watches s1 = vif_watches ends vifs"
    "ig_machine s1 = fold (\<lambda>(p, v). xs_watch ev p v) (vif_watches ends vifs) (ig_machine s)"
    using watch_all_tracked [OF md assms(2-5)] by blast
  have "length (ig_watches s1) \<le> n"
    using assms(7) unfolding s1(3) vif_watches_def by (simp add: length_concat comp_def sum_list_triv mult.commute)
  moreover have "set (ig_watches s1) = regs (ig_machine s1)"
    using regs_watches [OF assms(1)] assms(5) by (simp add: s1(3,4))
  ultimately have f: "fst (check_and_inject ev mrt n [] s1) = Finished \<and> ig_watches (snd (check_and_inject ev mrt n [] s1)) = []"
    using loop_finishes [OF s1(2) assms(1,2,6)] by blast
  let ?s2 = "snd (check_and_inject ev mrt n [] s1)"
  have r: "r = Inr ()" "s' = ?s2"
    using assms(8) s1(1) f by (simp_all add: inject_with_connection_state_check_def seq_def bnd_def modify_def gets_def ret_def)
  have "check_and_inject ev mrt n [] s1 = (Finished, ?s2)" using f by (metis prod.collapse)
  from loop_tracked [OF s1(2) md assms(2) this] obtain half where "tracked regs vifs ends half ?s2" by auto
  with f have "\<forall>v \<in> set vifs. sent v (ig_trace s') = 1"
    unfolding r(2) by (simp add: tracked_def vif_tracked_def watched_def Let_def)
  with r f show ?thesis by simp
qed

lemma connected_vifs_queried_witness:
  "\<exists>s'. inject_with_connection_state_check good_store 100 2 [''vif1.0''] (demo_start []) = (Inr (), s') \<and>
     sent ''vif1.0'' (ig_trace s') = 1"
proof -
  obtain r s' where r: "inject_with_connection_state_check good_store 100 2 [''vif1.0''] (demo_start []) = (r, s')"
    by fastforce
  have "r = Inr () \<and> ig_watches s' = [] \<and> (\<forall>v \<in> set [''vif1.0'']. sent v (ig_trace s') = 1)"
    by (rule connected_vifs_queried [OF good_filters demo_vif_ends(1) _ _ _ good_connected _ r]) (simp_all add: demo_start_def)
  with r show ?thesis by auto
qed

text \<open>
  When xenstore still delivers an event of a watch that has been removed,
  the second event of one end is taken for the other end: the query is sent
  although only one end was ever read, and the thread dies with \<^verbatim>\<open>KeyError\<close>.
\<close>

lemma stale_event_injects:
  assumes "(p, v) \<in> set (ig_watches s)" "AList.delete p (ig_watches s) \<noteq> []" "v \<notin> set half"
    "get_vif_state_path ev v = Inr ends"
    "xs_next ev (ig_machine s) = Some ((p, v), ka)" "xs_next ev (xs_unwatch ev p v ka) = Some ((p, v), kb)"
    "xs_get ev p ka = Inr (Some VIF_CONNECTED_STATE)" "xs_get ev p kb = Inr (Some VIF_CONNECTED_STATE)"
    "xs_get ev (mac_path ev v) kb = Inr m"
  shows "\<exists>s'. check_and_inject ev mrt (Suc (Suc n)) half s = (Died Igmp_KeyError, s') \<and>
    ig_trace s' = ig_trace s @ [Saw p (Some VIF_CONNECTED_STATE), Saw p (Some VIF_CONNECTED_STATE),
      Saw (mac_path ev v) m, Sent v (query_packet mrt m)]"
proof -
  let ?s1 = "drop_watch ev p v (saw p (Some VIF_CONNECTED_STATE) (s\<lparr>ig_machine := ka\<rparr>))"
  have "(p, v) \<in> set (ig_watches (s\<lparr>ig_machine := ka\<rparr>))" using assms(1) by simp
  from note_connected_eq [OF this assms(4), of mrt half] assms(3,7)
  have "check_turn ev mrt half s = Some (Inr (v # half), ?s1)" by (simp add: check_turn_def assms(5))
  moreover have "ig_watches s \<noteq> []" using assms(1) by auto
  ultimately have one: "check_and_inject ev mrt (Suc (Suc n)) half s = check_and_inject ev mrt (Suc n) (v # half) ?s1"
    by (subst check_and_inject.simps) simp
  have gone: "map_of (AList.delete p (ig_watches s)) p = None" by (simp add: AList.delete_conv')
  let ?s2 = "did_send ev mrt v m (saw (mac_path ev v) m (saw p (Some VIF_CONNECTED_STATE) (?s1\<lparr>ig_machine := kb\<rparr>)))"
  have "check_turn ev mrt (v # half) ?s1 = Some (Inl Igmp_KeyError, ?s2)"
    using assms(6,8,9) gone
    by (simp add: check_turn_def drop_watch_def note_connected_def read_eq bnd_def seq_def ret_def
        inject_to_vif_eq [OF assms(4)] unwatch_def gets_def throw_def)
  then have "check_and_inject ev mrt (Suc n) (v # half) ?s1 = (Died Igmp_KeyError, ?s2)"
    using assms(2) by (subst check_and_inject.simps) (simp add: drop_watch_def)
  with one show ?thesis by (simp add: drop_watch_def)
qed

lemma stale_event_injects_witness:
  "\<exists>s'. check_and_inject stale_store 100 2 [] (demo_start [(''front'', ''vif1.0''), (''back'', ''vif1.0'')]) =
      (Died Igmp_KeyError, s') \<and> sent ''vif1.0'' (ig_trace s') = 1 \<and> \<not> saw_connected ''back'' (ig_trace s')"
proof -
  let ?s = "demo_start [(''front'', ''vif1.0''), (''back'', ''vif1.0'')]"
  have path: "get_vif_state_path stale_store ''vif1.0'' = Inr (demo_ends ''vif1.0'')" by code_simp
  have mac: "mac_path stale_store ''vif1.0'' \<noteq> ''back''" by code_simp
  obtain s' where "check_and_inject stale_store 100 (Suc (Suc 0)) [] ?s = (Died Igmp_KeyError, s')"
    "ig_trace s' = ig_trace ?s @ [Saw ''front'' (Some VIF_CONNECTED_STATE), Saw ''front'' (Some VIF_CONNECTED_STATE),
      Saw (mac_path stale_store ''vif1.0'') (Some ''4''), Sent ''vif1.0'' (query_packet 100 (Some ''4''))]"
    using stale_event_injects [OF _ _ _ path, where p = "''front''" and s = ?s and half = "[]" and mrt = 100 and n = 0
        and ka = "ig_machine ?s" and kb = "ig_machine ?s" and m = "Some ''4''"]
    by (auto simp: demo_start_def stale_store_def demo_store_def VIF_CONNECTED_STATE_def)
  then show ?thesis using mac by (intro exI [of _ s']) (simp add: numeral_2_eq_2 demo_start_def)
qed

end
