(* ===== verification/Igmp_Memo.thy ===== *)
theory Igmp_Memo
  imports Igmp
begin

text \<open>
  The memoised questions about bridges: with programs that give the same answer
  each time, the caches change no answer, and no bridge is asked about twice.
\<close>

definition repeats :: "'k igmp_env \<Rightarrow> (string list \<Rightarrow> string) \<Rightarrow> bool" where
  "repeats ev out \<longleftrightarrow> (\<forall>args k. fst (xs_command ev args k) = Some (out args))"

definition vlan_question :: "string \<Rightarrow> string list" where
  "vlan_question b = [ovs_vsctl, ''br-to-vlan'', b]"

definition snooping_question :: "string \<Rightarrow> string list" where
  "snooping_question b = [ovs_vsctl, ''get'', ''bridge'', b, ''mcast_snooping_enable'']"

text \<open>The answers without a cache.\<close>

definition real_bridge :: "(string list \<Rightarrow> string) \<Rightarrow> string \<Rightarrow> string" where
  "real_bridge out b =
     (if py_strip (out (vlan_question b)) \<noteq> ''0'' then py_strip (out [ovs_vsctl, ''br-to-parent'', b]) else b)"

definition bridge_snoops :: "(string list \<Rightarrow> string) \<Rightarrow> string \<Rightarrow> bool" where
  "bridge_snoops out b \<longleftrightarrow> py_strip (out (snooping_question b)) = ''true''"

definition vif_snoops :: "(string list \<Rightarrow> string) \<Rightarrow> string \<Rightarrow> bool" where
  "vif_snoops out v \<longleftrightarrow> bridge_snoops out (real_bridge out (py_strip (out [ovs_vsctl, ''iface-to-br'', v])))"

text \<open>The questions about bridges in a trace.\<close>

definition asks :: "(string \<Rightarrow> string list) \<Rightarrow> igmp_event list \<Rightarrow> string list" where
  "asks question tr = concat (map (\<lambda>e. case e of
     Ran args \<Rightarrow> if length args > 2 \<and> args = question (args ! 2) then [args ! 2]
       else if length args > 3 \<and> args = question (args ! 3) then [args ! 3] else []
   | _ \<Rightarrow> []) tr)"

lemma asks_simps [simp]:
  "asks q [] = []" "asks q (xs @ ys) = asks q xs @ asks q ys"
  "asks vlan_question (Ran (vlan_question b) # tr) = b # asks vlan_question tr"
  "asks vlan_question (Ran (snooping_question b) # tr) = asks vlan_question tr"
  "asks vlan_question (Ran [ovs_vsctl, ''br-to-parent'', b] # tr) = asks vlan_question tr"
  "asks vlan_question (Ran [ovs_vsctl, ''iface-to-br'', b] # tr) = asks vlan_question tr"
  "asks snooping_question (Ran (vlan_question b) # tr) = asks snooping_question tr"
  "asks snooping_question (Ran (snooping_question b) # tr) = b # asks snooping_question tr"
  "asks snooping_question (Ran [ovs_vsctl, ''br-to-parent'', b] # tr) = asks snooping_question tr"
  "asks snooping_question (Ran [ovs_vsctl, ''iface-to-br'', b] # tr) = asks snooping_question tr"
  by (simp_all add: asks_def vlan_question_def snooping_question_def)

definition cached :: "(string list \<Rightarrow> string) \<Rightarrow> 'k igmp \<Rightarrow> bool" where
  "cached out s \<longleftrightarrow>
     (\<forall>(b, x) \<in> set (ig_snooping s). x = bridge_snoops out (real_bridge out b)) \<and>
     (\<forall>(b, x) \<in> set (ig_parent_snooping s). x = bridge_snoops out b) \<and>
     set (asks vlan_question (ig_trace s)) = fst ` set (ig_snooping s) \<and>
     set (asks snooping_question (ig_trace s)) = fst ` set (ig_parent_snooping s) \<and>
     distinct (asks vlan_question (ig_trace s)) \<and> distinct (asks snooping_question (ig_trace s))"

definition ran :: "'k igmp_env \<Rightarrow> string list \<Rightarrow> 'k igmp \<Rightarrow> 'k igmp" where
  "ran ev args s = s\<lparr>ig_machine := snd (xs_command ev args (ig_machine s)), ig_trace := ig_trace s @ [Ran args]\<rparr>"

lemma ran_simps [simp]:
  "ig_trace (ran ev args s) = ig_trace s @ [Ran args]" "ig_snooping (ran ev args s) = ig_snooping s"
  "ig_parent_snooping (ran ev args s) = ig_parent_snooping s"
  by (simp_all add: ran_def)

lemma check_output_eq:
  "repeats ev out \<Longrightarrow> check_output ev args s = (Inr (py_strip (out args)), ran ev args s)"
  by (simp add: repeats_def check_output_def ran_def Let_def split: prod.split option.split)
    (metis fst_conv option.distinct(1) option.inject)

lemma parent_eq:
  assumes "repeats ev out"
  shows "igmp_snooping_of_parent ev b s =
    (case map_of (ig_parent_snooping s) b of
       Some x \<Rightarrow> (Inr x, s)
     | None \<Rightarrow> (Inr (bridge_snoops out b),
         (ran ev (snooping_question b) s)\<lparr>ig_parent_snooping := (b, bridge_snoops out b) # ig_parent_snooping s\<rparr>))"
  unfolding snooping_question_def
  by (simp add: igmp_snooping_of_parent_def memodict_def bnd_def seq_def gets_def ret_def modify_def
      check_output_eq [OF assms] bridge_snoops_def snooping_question_def split: option.split)

lemma bridge_eq:
  assumes "repeats ev out"
  shows "igmp_snooping_is_enabled_on_bridge ev b s =
    (case map_of (ig_snooping s) b of
       Some x \<Rightarrow> (Inr x, s)
     | None \<Rightarrow>
         (let s1 = ran ev (vlan_question b) s;
              s2 = (if py_strip (out (vlan_question b)) \<noteq> ''0'' then ran ev [ovs_vsctl, ''br-to-parent'', b] s1 else s1) in
          case igmp_snooping_of_parent ev (real_bridge out b) s2 of
            (Inl e, s) \<Rightarrow> (Inl e, s)
          | (Inr x, s) \<Rightarrow> (Inr x, s\<lparr>ig_snooping := (b, x) # ig_snooping s\<rparr>)))"
  by (simp add: igmp_snooping_is_enabled_on_bridge_def memodict_def bnd_def seq_def gets_def ret_def modify_def
      check_output_eq [OF assms] parent_bridge_def vlan_question_def [symmetric] real_bridge_def Let_def
      split: option.split sum.split prod.split)

lemma cached_bridge:
  assumes "repeats ev out" "cached out s"
  shows "\<exists>s'. igmp_snooping_is_enabled_on_bridge ev b s = (Inr (bridge_snoops out (real_bridge out b)), s') \<and> cached out s'"
proof (cases "map_of (ig_snooping s) b")
  case (Some x)
  then have "(b, x) \<in> set (ig_snooping s)" by (rule map_of_SomeD)
  with assms(2) have "x = bridge_snoops out (real_bridge out b)" unfolding cached_def by blast
  with Some assms(2) show ?thesis by (simp add: bridge_eq [OF assms(1)])
next
  case None
  then have b: "b \<notin> fst ` set (ig_snooping s)" by (simp add: map_of_eq_None_iff)
  let ?p = "real_bridge out b"
  show ?thesis
  proof (cases "map_of (ig_parent_snooping s) ?p")
    case (Some x)
    then have "(?p, x) \<in> set (ig_parent_snooping s)" by (rule map_of_SomeD)
    with assms(2) have "x = bridge_snoops out ?p" unfolding cached_def by blast
    with Some None b assms(2) show ?thesis
      by (auto simp: bridge_eq [OF assms(1)] parent_eq [OF assms(1)] Let_def cached_def)
  next
    case none: None
    then have "?p \<notin> fst ` set (ig_parent_snooping s)" by (simp add: map_of_eq_None_iff)
    with none None b assms(2) show ?thesis
      by (auto simp: bridge_eq [OF assms(1)] parent_eq [OF assms(1)] Let_def cached_def)
  qed
qed

lemma cached_vif:
  assumes "repeats ev out" "cached out s"
  shows "\<exists>s'. igmp_snooping_is_enabled_on_bridge_of_vif ev v s = (Inr (vif_snoops out v), s') \<and> cached out s'"
proof -
  let ?s = "ran ev [ovs_vsctl, ''iface-to-br'', v] s"
  have "cached out ?s" using assms(2) by (simp add: cached_def)
  from cached_bridge [OF assms(1) this] show ?thesis
    by (simp add: igmp_snooping_is_enabled_on_bridge_of_vif_def bnd_def check_output_eq [OF assms(1)] vif_snoops_def)
qed

lemma cached_vifs:
  assumes "repeats ev out" "cached out s"
  shows "\<exists>s'. snooping_vifs ev vifs s = (Inr (filter (vif_snoops out) vifs), s') \<and> cached out s'"
  using assms(2)
proof (induction vifs arbitrary: s)
  case (Cons v vifs)
  obtain s1 where s1: "igmp_snooping_is_enabled_on_bridge_of_vif ev v s = (Inr (vif_snoops out v), s1)" "cached out s1"
    using cached_vif [OF assms(1) Cons.prems] by blast
  from Cons.IH [OF s1(2)] obtain s2 where "snooping_vifs ev vifs s1 = (Inr (filter (vif_snoops out) vifs), s2)" "cached out s2"
    by blast
  with s1(1) show ?case by (simp add: bnd_def ret_def)
qed (simp add: ret_def)

text \<open>
  With programs that repeat their answers, the interfaces kept are exactly
  those whose bridge, or the parent of a fake bridge, has snooping enabled, and
  no bridge is asked twice for its VLAN or for its snooping.
\<close>

lemma snooping_asked_once:
  assumes "repeats ev out" "ig_snooping s = []" "ig_parent_snooping s = []" "ig_trace s = []"
    "snooping_vifs ev vifs s = (r, s')"
  shows "r = Inr (filter (vif_snoops out) vifs) \<and> distinct (asks vlan_question (ig_trace s')) \<and>
    distinct (asks snooping_question (ig_trace s'))"
proof -
  have "cached out s" using assms(2-4) by (simp add: cached_def)
  from cached_vifs [OF assms(1) this, of vifs] assms(5) show ?thesis by (auto simp: cached_def)
qed

definition demo_switch :: "unit igmp_env" where
  "demo_switch = \<lparr>xs_get = (\<lambda>p k. Inr None), xs_domain_path = (\<lambda>d. []), xs_watch = (\<lambda>p t k. k), xs_unwatch = (\<lambda>p t k. k),
     xs_next = (\<lambda>k. None), xs_command = (\<lambda>args k. (Some (if args ! 1 = ''get'' then ''true'' else ''0''), k)),
     xs_sendp = (\<lambda>i p k. (True, k))\<rparr>"

definition demo_igmp :: "unit igmp" where
  "demo_igmp = \<lparr>ig_machine = (), ig_watches = [], ig_trace = [], ig_snooping = [], ig_parent_snooping = []\<rparr>"

lemma snooping_asked_once_witness:
  "\<exists>s'. snooping_vifs demo_switch [''vif1.0'', ''vif2.0''] demo_igmp = (Inr [''vif1.0'', ''vif2.0''], s') \<and>
     distinct (asks snooping_question (ig_trace s'))"
proof -
  let ?out = "\<lambda>args. if args ! 1 = ''get'' then ''true'' else ''0''"
  obtain r s' where r: "snooping_vifs demo_switch [''vif1.0'', ''vif2.0''] demo_igmp = (r, s')" by fastforce
  have "repeats demo_switch ?out" by (simp add: repeats_def demo_switch_def)
  from snooping_asked_once [OF this _ _ _ r]
  have "r = Inr (filter (vif_snoops ?out) [''vif1.0'', ''vif2.0'']) \<and> distinct (asks snooping_question (ig_trace s'))"
    by (simp add: demo_igmp_def)
  moreover have "filter (vif_snoops ?out) [''vif1.0'', ''vif2.0''] = [''vif1.0'', ''vif2.0'']" by code_simp
  ultimately show ?thesis using r by simp
qed

end
