(* ===== verification/Usb_Reset.thy ===== *)
theory Usb_Reset
  imports Py_Text
begin

text \<open>
  The script \<^verbatim>\<open>python3/libexec/usb_reset.py\<close>, which resets a USB device and gives
  it to the QEMU of a domain: a copy of the device file in its chroot directory,
  with \<^verbatim>\<open>/sys\<close> and \<^verbatim>\<open>/proc/self\<close> mounted there. A path is the list of its components.
\<close>

section \<open>Files and mounts\<close>

text \<open>A file has a mode, a device number, an owner, a group and a content.\<close>

datatype node = Dir | Node int int int int string

type_synonym path = "string list"

text \<open>
  All files of the host, and the mounts, newest first: what is below a target is
  taken from below the source.
\<close>

record usb_fs =
  fs_nodes :: "(path \<times> node) list"
  fs_mounts :: "(path \<times> path) list"

datatype reset_error = Reset_SysExit | Reset_OSError | Reset_KeyError

type_synonym 'a reset_op = "(usb_fs, reset_error, 'a) st"

record usb_host =
  qemu_uid :: "int option"
  qemu_gid :: "int option"
  host_umask :: int
  open_fails :: "path \<Rightarrow> bool"
  chown_fails :: "path \<Rightarrow> bool"
  mount_fails :: "path \<Rightarrow> bool"
  umount_fails :: "path \<Rightarrow> bool"
  rmtree_leaves :: "path \<Rightarrow> bool"

fun resolve :: "(path \<times> path) list \<Rightarrow> path \<Rightarrow> path" where
  "resolve [] p = p"
| "resolve ((t, src) # ms) p = (if take (length t) p = t then src @ drop (length t) p else resolve ms p)"

definition lookup :: "usb_fs \<Rightarrow> path \<Rightarrow> node option" where
  "lookup s p = map_of (fs_nodes s) (resolve (fs_mounts s) p)"

definition exists :: "usb_fs \<Rightarrow> path \<Rightarrow> bool" where
  "exists s p \<longleftrightarrow> lookup s p \<noteq> None"

definition isdir :: "usb_fs \<Rightarrow> path \<Rightarrow> bool" where
  "isdir s p \<longleftrightarrow> lookup s p = Some Dir"

definition ismount :: "usb_fs \<Rightarrow> path \<Rightarrow> bool" where
  "ismount s p \<longleftrightarrow> list_ex (\<lambda>m. fst m = p) (fs_mounts s)"

definition put_node :: "path \<Rightarrow> node \<Rightarrow> usb_fs \<Rightarrow> usb_fs" where
  "put_node p n s = s\<lparr>fs_nodes := AList.update (resolve (fs_mounts s) p) n (fs_nodes s)\<rparr>"

text \<open>\<^verbatim>\<open>os.makedirs(p, exist_ok=True)\<close>: every prefix becomes a directory.\<close>

definition ensure_dir :: "path \<Rightarrow> unit reset_op" where
  "ensure_dir p = (\<lambda>s. case lookup s p of
     None \<Rightarrow> (Inr (), put_node p Dir s)
   | Some Dir \<Rightarrow> (Inr (), s)
   | Some _ \<Rightarrow> (Inl Reset_OSError, s))"

definition makedirs :: "path \<Rightarrow> unit reset_op" where
  "makedirs p = for_each (\<lambda>n. ensure_dir (take n p)) [1..<Suc (length p)]"

text \<open>\<^verbatim>\<open>os.remove\<close>, and \<^verbatim>\<open>shutil.rmtree\<close>, which fails at a mount below and may leave files.\<close>

definition remove_file :: "path \<Rightarrow> unit reset_op" where
  "remove_file p = (\<lambda>s. case lookup s p of
     Some (Node m r u g c) \<Rightarrow>
       (Inr (), s\<lparr>fs_nodes := AList.delete (resolve (fs_mounts s) p) (fs_nodes s)\<rparr>)
   | _ \<Rightarrow> (Inl Reset_OSError, s))"

definition below :: "path \<Rightarrow> path \<Rightarrow> bool" where
  "below d p \<longleftrightarrow> take (length d) p = d"

definition rmtree :: "usb_host \<Rightarrow> path \<Rightarrow> unit reset_op" where
  "rmtree ev p = (\<lambda>s.
     let d = resolve (fs_mounts s) p in
     if \<not> isdir s p then (Inl Reset_OSError, s)
     else if list_ex (\<lambda>m. below p (fst m)) (fs_mounts s) then
       (Inl Reset_OSError, s\<lparr>fs_nodes := filter (\<lambda>e. \<not> below d (fst e) \<or> rmtree_leaves ev (fst e)) (fs_nodes s)\<rparr>)
     else (Inr (), s\<lparr>fs_nodes := filter (\<lambda>e. \<not> below d (fst e)) (fs_nodes s)\<rparr>))"

section \<open>Devices\<close>

definition get_root_dir :: "int \<Rightarrow> path" where
  "get_root_dir domid = [''var'', ''xen'', ''qemu'', ''root-'' @ int_text domid]"

text \<open>\<^verbatim>\<open>int(f.readline())\<close>; \<open>None\<close> for \<^verbatim>\<open>IOError\<close> and \<^verbatim>\<open>ValueError\<close>.\<close>

definition read_int :: "usb_fs \<Rightarrow> path \<Rightarrow> int option" where
  "read_int s p = (case lookup s p of
     Some (Node m r u g c) \<Rightarrow> py_int 10 (takeWhile (\<lambda>x. x \<noteq> CHR 0x0A) c)
   | _ \<Rightarrow> None)"

text \<open>
  The pattern \<^verbatim>\<open>\d+-\d+(\.\d+)*$\<close> on ASCII text: numbers joined by dots after a
  number and a hyphen; the dollar sign also matches before a newline at the end.
\<close>

definition digits :: "string \<Rightarrow> bool" where
  "digits t \<longleftrightarrow> t \<noteq> [] \<and> list_all is_digit t"

definition device_pattern :: "string \<Rightarrow> bool" where
  "device_pattern d =
     (let d = (if d \<noteq> [] \<and> last d = CHR 0x0A then butlast d else d) in
      case py_split CHR ''-'' d of
        [a, b] \<Rightarrow> digits a \<and> list_all digits (py_split CHR ''.'' b)
      | _ \<Rightarrow> False)"

text \<open>\<^verbatim>\<open>"{0:03d}"\<close>\<close>

definition three_digits :: "int \<Rightarrow> string" where
  "three_digits n =
     (if n < 0 then CHR ''-'' # replicate (2 - length (nat_str (nat (- n)))) CHR ''0'' @ nat_str (nat (- n))
      else replicate (3 - length (nat_str (nat n))) CHR ''0'' @ nat_str (nat n))"

definition dev_path :: "string \<Rightarrow> path reset_op" where
  "dev_path device =
     (if \<not> device_pattern device then throw Reset_SysExit
      else
        bnd (gets (\<lambda>s. (read_int s [''sys'', ''bus'', ''usb'', ''devices'', device, ''busnum''],
                        read_int s [''sys'', ''bus'', ''usb'', ''devices'', device, ''devnum'']))) (\<lambda>r.
        case r of
          (Some bus, Some dev) \<Rightarrow> ret [''dev'', ''bus'', ''usb'', three_digits bus, three_digits dev]
        | _ \<Rightarrow> throw Reset_SysExit))"

section \<open>Mounting\<close>

text \<open>
  A mount is its target and its source; the type and the flags of a mount only
  reach the system call and are left out. A failure ends the script.
\<close>

definition mount :: "usb_host \<Rightarrow> path \<Rightarrow> path \<Rightarrow> unit reset_op" where
  "mount ev source target =
     bnd (gets (\<lambda>s. isdir s target)) (\<lambda>d.
     if \<not> d \<or> mount_fails ev target then throw Reset_SysExit
     else modify (\<lambda>s. s\<lparr>fs_mounts := (target, source) # fs_mounts s\<rparr>))"

text \<open>A failure is logged.\<close>

fun drop_mount :: "path \<Rightarrow> (path \<times> path) list \<Rightarrow> (path \<times> path) list" where
  "drop_mount t [] = []"
| "drop_mount t (m # ms) = (if fst m = t then ms else m # drop_mount t ms)"

definition umount :: "usb_host \<Rightarrow> path \<Rightarrow> unit reset_op" where
  "umount ev target =
     (if umount_fails ev target then ret () else modify (\<lambda>s. s\<lparr>fs_mounts := drop_mount target (fs_mounts s)\<rparr>))"

section \<open>Attaching\<close>

definition chown :: "usb_host \<Rightarrow> path \<Rightarrow> int \<Rightarrow> int \<Rightarrow> unit reset_op" where
  "chown ev p uid gid = (\<lambda>s.
     if chown_fails ev p then (Inl Reset_SysExit, s)
     else case lookup s p of
       Some (Node m r u g c) \<Rightarrow> (Inr (), put_node p (Node m r uid gid c) s)
     | Some Dir \<Rightarrow> (Inr (), s)
     | None \<Rightarrow> (Inl Reset_SysExit, s))"

text \<open>\<^verbatim>\<open>os.mknod\<close>: it fails on an existing file or without the directory.\<close>

definition mknod :: "usb_host \<Rightarrow> path \<Rightarrow> int \<Rightarrow> int \<Rightarrow> unit reset_op" where
  "mknod ev p mode rdev = (\<lambda>s.
     if exists s p \<or> \<not> isdir s (butlast p) then (Inl Reset_OSError, s)
     else (Inr (), put_node p (Node (mode AND NOT (host_umask ev)) rdev 0 0 []) s))"

definition key_of :: "int option \<Rightarrow> int reset_op" where
  "key_of x = (case x of None \<Rightarrow> throw Reset_KeyError | Some n \<Rightarrow> ret n)"

definition dir_mode :: int where
  "dir_mode = 0x41ED"

definition stat_of :: "path \<Rightarrow> (int \<times> int) reset_op" where
  "stat_of p = bnd (gets (\<lambda>s. lookup s p)) (\<lambda>x. case x of
     None \<Rightarrow> throw Reset_SysExit
   | Some Dir \<Rightarrow> ret (dir_mode, 0)
   | Some (Node m r u g c) \<Rightarrow> ret (m, r))"

definition clone_device :: "usb_host \<Rightarrow> path \<Rightarrow> path \<Rightarrow> int \<Rightarrow> unit reset_op" where
  "clone_device ev path root_dir domid =
     (let target_path = root_dir @ path in
      bnd (gets (\<lambda>s. exists s target_path)) (\<lambda>e.
      if e then ret ()
      else
        seq (makedirs (butlast target_path))
        (bnd (stat_of path) (\<lambda>(mode, rdev).
        seq (mknod ev target_path mode rdev)
        (bnd (key_of (qemu_uid ev)) (\<lambda>u.
        bnd (key_of (qemu_gid ev)) (\<lambda>g.
        chown ev target_path (u + domid) (g + domid))))))))"

text \<open>
  \<^verbatim>\<open>open(path, "w")\<close> empties a file, and makes one where there is none, with the
  permissions that the umask leaves; that it fails, or the reset, is logged.
\<close>

definition open_for_writing :: "usb_host \<Rightarrow> path \<Rightarrow> unit reset_op" where
  "open_for_writing ev p = modify (\<lambda>s.
     if open_fails ev p then s
     else case lookup s p of
       Some Dir \<Rightarrow> s
     | Some (Node m r u g c) \<Rightarrow> put_node p (Node m r u g []) s
     | None \<Rightarrow>
         if isdir s (butlast p) then put_node p (Node (0x81B6 AND NOT (host_umask ev)) 0 0 0 []) s else s)"

definition attach :: "usb_host \<Rightarrow> string \<Rightarrow> int \<Rightarrow> int \<Rightarrow> bool \<Rightarrow> unit reset_op" where
  "attach ev device domid pid reset_only =
     bnd (dev_path device) (\<lambda>path.
     seq (open_for_writing ev path)
     (if reset_only then ret ()
      else
        (let root_dir = get_root_dir domid; sys_dir = root_dir @ [''sys'']; self_dir = root_dir @ [''proc'', ''self''] in
         bnd (gets (\<lambda>s. isdir s root_dir \<and> isdir s (root_dir @ [''dev'']))) (\<lambda>ok.
         seq (require ok Reset_SysExit)
         (seq (clone_device ev path root_dir domid)
         (seq (makedirs sys_dir)
         (bnd (gets (\<lambda>s. isdir s (sys_dir @ [''devices'']))) (\<lambda>m.
         seq (if m then ret () else mount ev [''sys''] sys_dir)
         (seq (makedirs self_dir)
         (bnd (gets (\<lambda>s. isdir s (self_dir @ [''fd'']))) (\<lambda>m.
         if m then ret () else mount ev [''proc'', int_text pid] self_dir)))))))))))"

section \<open>Detaching and cleaning up\<close>

definition detach :: "string \<Rightarrow> int \<Rightarrow> unit reset_op" where
  "detach device domid = bnd (dev_path device) (\<lambda>path. remove_file (get_root_dir domid @ path))"

definition cleanup :: "usb_host \<Rightarrow> int \<Rightarrow> unit reset_op" where
  "cleanup ev domid =
     (let root_dir = get_root_dir domid; dev_dir = root_dir @ [''dev'']; sys_dir = root_dir @ [''sys''];
          bus_dir = dev_dir @ [''bus'']; proc_dir = root_dir @ [''proc'']; self_dir = proc_dir @ [''self''] in
      bnd (gets (\<lambda>s. isdir s bus_dir)) (\<lambda>b.
      seq (if b then rmtree ev bus_dir else ret ())
      (bnd (gets (\<lambda>s. isdir s (sys_dir @ [''devices'']))) (\<lambda>m.
      seq (if m then umount ev sys_dir else ret ())
      (bnd (gets (\<lambda>s. exists s sys_dir \<and> ismount s self_dir)) (\<lambda>m.
      if m then seq (umount ev self_dir) (rmtree ev proc_dir) else ret ()))))))"

text \<open>The commands of the script.\<close>

datatype usb_command = Attach string int int bool | Detach string int | Cleanup int

definition run_command :: "usb_host \<Rightarrow> usb_command \<Rightarrow> unit reset_op" where
  "run_command ev c = (case c of
     Attach device domid pid reset_only \<Rightarrow> attach ev device domid pid reset_only
   | Detach device domid \<Rightarrow> detach device domid
   | Cleanup domid \<Rightarrow> cleanup ev domid)"

end
