(* ===== verification/Usb_Reset_Proofs.thy ===== *)
theory Usb_Reset_Proofs
  imports Usb_Reset
begin

text \<open>
  What attaching, detaching and cleaning up leave behind: no directory is mounted
  twice, QEMU gets the device with its own owner, cleaning up takes everything
  back but one directory, and an attachment that failed half-way is not repaired
  by the next one.
\<close>

section \<open>Resolving paths\<close>

lemma resolve_free: "list_all (\<lambda>m. \<not> below (fst m) p) ms \<Longrightarrow> resolve ms p = p"
  by (induction ms p rule: resolve.induct) (simp_all add: below_def)

lemma resolve_Cons: "resolve ((t, src) # ms) p = (if below t p then src @ drop (length t) p else resolve ms p)"
  by (simp add: below_def)

text \<open>The files and the mounts of a state.\<close>

definition files :: "usb_fs \<Rightarrow> path \<Rightarrow> node option" where
  "files s = map_of (fs_nodes s)"

lemma lookup_files: "lookup s p = files s (resolve (fs_mounts s) p)"
  by (simp add: lookup_def files_def)

lemma put_node_simps [simp]:
  "files (put_node p n s) = (files s)(resolve (fs_mounts s) p \<mapsto> n)" "fs_mounts (put_node p n s) = fs_mounts s"
  by (simp_all add: put_node_def files_def AList.update_conv')

section \<open>Directories\<close>

definition with_dirs :: "path \<Rightarrow> (path \<Rightarrow> node option) \<Rightarrow> path \<Rightarrow> node option" where
  "with_dirs p M q = (if q \<noteq> [] \<and> below q p \<and> M q = None then Some Dir else M q)"

definition free :: "path \<Rightarrow> usb_fs \<Rightarrow> bool" where
  "free p s \<longleftrightarrow> list_all (\<lambda>m. \<not> below (fst m) p) (fs_mounts s)"

lemma below_take: "below t (take n p) \<Longrightarrow> below t p"
  by (metis append_take_drop_id below_def length_take min.absorb1 min.cobounded1 take_append take_take
      diff_is_0_eq' nat_le_linear take_all append_Nil2)

lemma free_take: "free p s \<Longrightarrow> free (take n p) s"
  by (auto simp: free_def list_all_iff dest: below_take)

lemma lookup_free: "free p s \<Longrightarrow> lookup s p = files s p"
  by (simp add: lookup_files resolve_free free_def)

lemma makedirs_upto:
  assumes "free p s" "\<And>i. 0 < i \<Longrightarrow> i \<le> n \<Longrightarrow> files s (take i p) \<in> {None, Some Dir}" "n \<le> length p"
  shows "\<exists>s'. for_each (\<lambda>i. ensure_dir (take i p)) [1..<Suc n] s = (Inr (), s') \<and> fs_mounts s' = fs_mounts s \<and>
    files s' = with_dirs (take n p) (files s)"
  using assms(2,3)
proof (induction n)
  case 0
  show ?case by (auto simp: ret_def with_dirs_def below_def fun_eq_iff)
next
  case (Suc n)
  then obtain s1 where s1: "for_each (\<lambda>i. ensure_dir (take i p)) [1..<Suc n] s = (Inr (), s1)"
    "fs_mounts s1 = fs_mounts s" "files s1 = with_dirs (take n p) (files s)"
    by (metis Suc_leD le_SucI)
  let ?q = "take (Suc n) p"
  have f: "free ?q s1" using free_take [OF assms(1), of "Suc n"] s1(2) by (simp add: free_def)
  have "length (take n p) \<noteq> length ?q" using Suc.prems(2) by simp
  then have "take n p \<noteq> ?q" by metis
  then have old: "files s1 ?q = files s ?q" using Suc.prems(2) by (simp add: s1(3) with_dirs_def below_def)
  have dirs: "with_dirs ?q (files s) = (case files s ?q of None \<Rightarrow> (files s1)(?q \<mapsto> Dir) | Some _ \<Rightarrow> files s1)"
  proof
    fix q
    have "below q ?q \<longleftrightarrow> below q (take n p) \<or> q = ?q" if "length q \<le> Suc n"
      using that Suc.prems(2) by (cases "length q = Suc n") (auto simp: below_def take_Suc_conv_app_nth min_def le_Suc_eq)
    moreover have "\<not> below q ?q" "\<not> below q (take n p)" if "\<not> length q \<le> Suc n"
      using that Suc.prems(2) by (auto simp: below_def dest!: arg_cong [where f = length])
    ultimately show "with_dirs ?q (files s) q = (case files s ?q of None \<Rightarrow> (files s1)(?q \<mapsto> Dir) | Some _ \<Rightarrow> files s1) q"
      using Suc.prems(2) by (cases "length q \<le> Suc n") (auto simp: s1(3) with_dirs_def split: option.split)
  qed
  have "files s ?q = None \<or> files s ?q = Some Dir" using Suc.prems(1) [of "Suc n"] by auto
  then obtain s2 where "ensure_dir ?q s1 = (Inr (), s2)" "fs_mounts s2 = fs_mounts s1" "files s2 = with_dirs ?q (files s)"
    unfolding dirs using old lookup_free [OF f] f resolve_free [of ?q "fs_mounts s1"]
    by (auto simp: ensure_dir_def free_def)
  with s1 show ?case by (intro exI [of _ s2]) (simp add: for_each_append seq_def bnd_def ret_def)
qed

lemma makedirs_eq:
  assumes "free p s" "\<And>i. 0 < i \<Longrightarrow> i \<le> length p \<Longrightarrow> files s (take i p) \<in> {None, Some Dir}"
  obtains s' where "makedirs p s = (Inr (), s')" "fs_mounts s' = fs_mounts s" "files s' = with_dirs p (files s)"
  using makedirs_upto [OF assms, where n = "length p"] by (auto simp: makedirs_def)

section \<open>Mounts are made once\<close>

text \<open>
  The state between commands: \<^verbatim>\<open>/sys/devices\<close> and the \<^verbatim>\<open>fd\<close> directories of the
  running QEMUs are there, and the mounts are those of the script, each once.
\<close>

definition sys_target :: "int \<Rightarrow> path" where
  "sys_target d = get_root_dir d @ [''sys'']"

definition self_target :: "int \<Rightarrow> path" where
  "self_target d = get_root_dir d @ [''proc'', ''self'']"

definition mounts_ok :: "int set \<Rightarrow> usb_fs \<Rightarrow> bool" where
  "mounts_ok pids s \<longleftrightarrow>
     files s [''sys'', ''devices''] = Some Dir \<and>
     (\<forall>pid \<in> pids. files s [''proc'', int_text pid, ''fd''] = Some Dir) \<and>
     distinct (map fst (fs_mounts s)) \<and>
     (\<forall>(t, src) \<in> set (fs_mounts s). (\<exists>d. t = sys_target d \<and> src = [''sys'']) \<or>
        (\<exists>d. \<exists>pid \<in> pids. t = self_target d \<and> src = [''proc'', int_text pid]))"

text \<open>Writing a file where there is no directory keeps the directories.\<close>

definition keeps_dirs :: "usb_fs \<Rightarrow> usb_fs \<Rightarrow> bool" where
  "keeps_dirs s s' \<longleftrightarrow> fs_mounts s' = fs_mounts s \<and>
     (\<forall>p. files s p = Some Dir \<longrightarrow> take 1 p \<noteq> [''var''] \<longrightarrow> files s' p = Some Dir)"

lemma mounts_ok_keeps: "keeps_dirs s s' \<Longrightarrow> mounts_ok pids s \<Longrightarrow> mounts_ok pids s'"
  by (simp add: keeps_dirs_def mounts_ok_def)

lemma keeps_dirs_refl [simp]: "keeps_dirs s s"
  by (simp add: keeps_dirs_def)

lemma keeps_dirs_put: "lookup s p \<noteq> Some Dir \<or> n = Dir \<Longrightarrow> keeps_dirs s (put_node p n s)"
  by (auto simp: keeps_dirs_def lookup_files)

lemma keeps_mounts_ok:
  "(\<And>s. keeps_dirs s (snd (m s))) \<Longrightarrow> keeps (mounts_ok pids) m"
  by (rule keepsI) (rule mounts_ok_keeps)

lemma keeps_ensure_dir [keeps_intros]: "keeps (mounts_ok pids) (ensure_dir p)"
  by (rule keeps_mounts_ok) (auto simp: ensure_dir_def split: option.split node.split intro: keeps_dirs_put)

lemma keeps_makedirs [keeps_intros]: "keeps (mounts_ok pids) (makedirs p)"
  unfolding makedirs_def by (intro keeps_intros)

lemma keeps_mknod [keeps_intros]: "keeps (mounts_ok pids) (mknod ev p m r)"
  by (rule keeps_mounts_ok) (auto simp: mknod_def exists_def intro!: keeps_dirs_put)

lemma keeps_chown [keeps_intros]: "keeps (mounts_ok pids) (chown ev p u g)"
  by (rule keeps_mounts_ok) (auto simp: chown_def split: option.split node.split intro!: keeps_dirs_put)

lemma keeps_open [keeps_intros]: "keeps (mounts_ok pids) (open_for_writing ev p)"
  by (rule keeps_mounts_ok)
    (auto simp: open_for_writing_def modify_def split: option.split node.split intro!: keeps_dirs_put)

lemma keeps_key_of [keeps_intros]: "keeps P (key_of x)"
  by (auto simp: key_of_def intro: keeps_intros split: option.split)

lemma keeps_stat_of [keeps_intros]: "keeps P (stat_of p)"
  unfolding stat_of_def by (intro keeps_intros) (auto intro: keeps_intros split: option.split node.split)

lemma keeps_clone_device [keeps_intros]: "keeps (mounts_ok pids) (clone_device ev p root d)"
  unfolding clone_device_def Let_def by (intro keeps_intros)

lemma keeps_dev_path [keeps_intros]: "keeps P (dev_path d)"
  unfolding dev_path_def by (intro keeps_intros)

lemma resolve_mount:
  assumes "(t, src) \<in> set ms" "distinct (map fst ms)" "\<And>m. m \<in> set ms \<Longrightarrow> below (fst m) (t @ x) \<Longrightarrow> fst m = t"
  shows "resolve ms (t @ x) = src @ x"
  using assms
proof (induction ms)
  case (Cons m ms)
  obtain t' src' where m: "m = (t', src')" by (cases m)
  show ?case
  proof (cases "t' = t")
    case True
    with Cons.prems(1,2) m have "src' = src" by (metis fst_conv image_eqI list.set_map distinct.simps(2) list.simps(9) set_ConsD prod.inject)
    with True m show ?thesis by simp
  next
    case False
    with Cons.prems(3) [of m] m have "\<not> below t' (t @ x)" by auto
    moreover have "resolve ms (t @ x) = src @ x" using False m Cons by auto
    ultimately show ?thesis unfolding m resolve_Cons by simp
  qed
qed simp

lemma targets:
  assumes "mounts_ok pids s" "m \<in> set (fs_mounts s)"
  obtains d where "fst m = sys_target d" "snd m = [''sys'']"
  | d pid where "pid \<in> pids" "fst m = self_target d" "snd m = [''proc'', int_text pid]"
  using assms unfolding mounts_ok_def by (cases m) fastforce

lemma below_targets:
  "below (sys_target d') (sys_target d @ x) \<longleftrightarrow> sys_target d' = sys_target d"
  "below (self_target d') (self_target d @ x) \<longleftrightarrow> self_target d' = self_target d"
  "\<not> below (sys_target d') (self_target d @ x)" "\<not> below (self_target d') (sys_target d @ x)"
  "\<not> below (sys_target d') (get_root_dir d @ ''dev'' # x)" "\<not> below (self_target d') (get_root_dir d @ ''dev'' # x)"
  "\<not> below (sys_target d') (get_root_dir d @ ''proc'' # x)" "\<not> below (self_target d') (get_root_dir d @ [''proc''])"
  by (auto simp: below_def sys_target_def self_target_def get_root_dir_def)

lemma mounted_visible:
  assumes "mounts_ok pids s"
  shows "sys_target d \<in> fst ` set (fs_mounts s) \<Longrightarrow> isdir s (sys_target d @ [''devices''])"
    "self_target d \<in> fst ` set (fs_mounts s) \<Longrightarrow> isdir s (self_target d @ [''fd''])"
proof -
  have d: "distinct (map fst (fs_mounts s))" using assms by (simp add: mounts_ok_def)
  assume "sys_target d \<in> fst ` set (fs_mounts s)"
  then obtain m where m: "m \<in> set (fs_mounts s)" "fst m = sys_target d" by auto
  from targets [OF assms m(1)] m(2) have "snd m = [''sys'']"
    by (auto simp: sys_target_def self_target_def get_root_dir_def)
  with m have "(sys_target d, [''sys'']) \<in> set (fs_mounts s)" by (metis prod.collapse)
  then have "resolve (fs_mounts s) (sys_target d @ [''devices'']) = [''sys''] @ [''devices'']"
    by (rule resolve_mount [OF _ d]) (erule targets [OF assms]; simp add: below_targets)
  then show "isdir s (sys_target d @ [''devices''])" using assms by (simp add: isdir_def lookup_files mounts_ok_def)
next
  have d: "distinct (map fst (fs_mounts s))" using assms by (simp add: mounts_ok_def)
  assume "self_target d \<in> fst ` set (fs_mounts s)"
  then obtain m where m: "m \<in> set (fs_mounts s)" "fst m = self_target d" by auto
  from targets [OF assms m(1)] m(2) obtain pid where pid: "pid \<in> pids" "snd m = [''proc'', int_text pid]"
    by (auto simp: sys_target_def self_target_def get_root_dir_def)
  with m have "(self_target d, [''proc'', int_text pid]) \<in> set (fs_mounts s)" by (metis prod.collapse)
  then have "resolve (fs_mounts s) (self_target d @ [''fd'']) = [''proc'', int_text pid] @ [''fd'']"
    by (rule resolve_mount [OF _ d]) (erule targets [OF assms]; simp add: below_targets)
  then show "isdir s (self_target d @ [''fd''])"
    using assms pid(1) by (simp add: isdir_def lookup_files mounts_ok_def)
qed

lemma mounts_ok_mount:
  assumes "mounts_ok pids s" "t \<notin> fst ` set (fs_mounts s)"
    "(\<exists>d. t = sys_target d \<and> src = [''sys'']) \<or> (\<exists>d. \<exists>pid \<in> pids. t = self_target d \<and> src = [''proc'', int_text pid])"
  shows "mounts_ok pids (s\<lparr>fs_mounts := (t, src) # fs_mounts s\<rparr>)"
  using assms by (auto simp: mounts_ok_def files_def)

lemma keeps_mount_unless:
  assumes "\<And>s. mounts_ok pids s \<Longrightarrow> t \<in> fst ` set (fs_mounts s) \<Longrightarrow> isdir s p"
    "(\<exists>d. t = sys_target d \<and> src = [''sys'']) \<or> (\<exists>d. \<exists>pid \<in> pids. t = self_target d \<and> src = [''proc'', int_text pid])"
    "keeps (mounts_ok pids) k"
  shows "keeps (mounts_ok pids) (bnd (gets (\<lambda>s. isdir s p)) (\<lambda>m. seq (if m then ret () else mount ev src t) k))"
proof (rule keepsI)
  fix s
  assume s: "mounts_ok pids s"
  show "mounts_ok pids (snd (bnd (gets (\<lambda>s. isdir s p)) (\<lambda>m. seq (if m then ret () else mount ev src t) k) s))"
    using keepsD [OF assms(3)] s mounts_ok_mount [OF s _ assms(2)] assms(1) [OF s]
    by (auto simp: bnd_def seq_def gets_def ret_def throw_def modify_def mount_def)
qed

lemma seq_ret: "seq m (ret ()) = m"
  by (rule ext) (simp add: seq_def bnd_def ret_def split: prod.split sum.split)

lemma keeps_attach:
  assumes "pid \<in> pids"
  shows "keeps (mounts_ok pids) (attach ev device d pid reset_only)"
proof -
  have sys: "mounts_ok pids s \<Longrightarrow> get_root_dir d @ [''sys''] \<in> fst ` set (fs_mounts s) \<Longrightarrow>
      isdir s ((get_root_dir d @ [''sys'']) @ [''devices''])" for s
    using mounted_visible(1) by (simp add: sys_target_def)
  have self: "mounts_ok pids s \<Longrightarrow> get_root_dir d @ [''proc'', ''self''] \<in> fst ` set (fs_mounts s) \<Longrightarrow>
      isdir s ((get_root_dir d @ [''proc'', ''self'']) @ [''fd''])" for s
    using mounted_visible(2) by (simp add: self_target_def)
  have last: "keeps (mounts_ok pids) (bnd (gets (\<lambda>s. isdir s ((get_root_dir d @ [''proc'', ''self'']) @ [''fd''])))
      (\<lambda>m. if m then ret () else mount ev [''proc'', int_text pid] (get_root_dir d @ [''proc'', ''self''])))"
    using keeps_mount_unless [where k = "ret ()", OF self _ keeps_ret, where src = "[''proc'', int_text pid]"] assms
    by (auto simp: self_target_def seq_ret)
  show ?thesis
    unfolding attach_def Let_def
    by (intro keeps_intros keeps_mount_unless [OF sys] last) (auto simp: sys_target_def)
qed

lemma keeps_remove_file [keeps_intros]: "keeps (mounts_ok pids) (remove_file p)"
  by (rule keeps_mounts_ok)
    (auto simp: remove_file_def keeps_dirs_def lookup_files files_def AList.delete_conv' split: option.split node.split)

lemma keeps_detach: "keeps (mounts_ok pids) (detach device d)"
  unfolding detach_def by (intro keeps_intros)

lemma free_targets:
  assumes "mounts_ok pids s"
  shows "free (get_root_dir d @ [''dev'', ''bus'']) s" "free (get_root_dir d @ [''proc'']) s"
proof -
  have "\<not> below (fst m) (get_root_dir d @ [''dev'', ''bus'']) \<and> \<not> below (fst m) (get_root_dir d @ [''proc''])"
    if "m \<in> set (fs_mounts s)" for m
    using assms that by (rule targets) (simp_all add: below_targets)
  then show "free (get_root_dir d @ [''dev'', ''bus'']) s" "free (get_root_dir d @ [''proc'']) s"
    by (auto simp: free_def list_all_iff)
qed

lemma map_of_filter_key: "map_of (filter (\<lambda>e. P (fst e)) xs) k = (if P k then map_of xs k else None)"
  by (induction xs) auto

lemma rmtree_keeps_dirs:
  assumes "free p s" "take 1 p = [''var'']"
  shows "keeps_dirs s (snd (rmtree ev p s))"
proof -
  have "resolve (fs_mounts s) p = p" using assms(1) unfolding free_def by (rule resolve_free)
  moreover have "\<not> below p q" if "take 1 q \<noteq> [''var'']" for q
    using that assms(2) by (cases p; cases q) (auto simp: below_def)
  ultimately show ?thesis
    unfolding rmtree_def Let_def
    by (auto simp: keeps_dirs_def files_def map_of_filter_key [where P = "\<lambda>e. \<not> below p e"]
        map_of_filter_key [where P = "\<lambda>e. below p e \<longrightarrow> rmtree_leaves ev e"])
qed

lemma keeps_rmtree [keeps_intros]:
  "keeps (mounts_ok pids) (rmtree ev (get_root_dir d @ [''dev'', ''bus'']))"
  "keeps (mounts_ok pids) (rmtree ev (get_root_dir d @ [''proc'']))"
  by (rule keepsI, rule mounts_ok_keeps, rule rmtree_keeps_dirs, erule free_targets, simp add: get_root_dir_def, assumption)+

lemma set_drop_mount: "set (drop_mount t ms) \<subseteq> set ms"
  by (induction ms) auto

lemma distinct_drop_mount: "distinct (map fst ms) \<Longrightarrow> distinct (map fst (drop_mount t ms))"
proof (induction ms)
  case (Cons m ms)
  then show ?case using set_drop_mount [of t ms] by auto
qed simp

lemma keeps_umount [keeps_intros]: "keeps (mounts_ok pids) (umount ev t)"
  unfolding umount_def
proof (intro keeps_intros keepsI)
  fix s
  assume s: "mounts_ok pids s"
  then have "mounts_ok pids (s\<lparr>fs_mounts := drop_mount t (fs_mounts s)\<rparr>)"
    using set_drop_mount [of t "fs_mounts s"] distinct_drop_mount [of "fs_mounts s" t]
    unfolding mounts_ok_def files_def by auto
  then show "mounts_ok pids (snd (modify (\<lambda>s. s\<lparr>fs_mounts := drop_mount t (fs_mounts s)\<rparr>) s))"
    by (simp add: modify_def)
qed

lemma keeps_cleanup: "keeps (mounts_ok pids) (cleanup ev d)"
  using keeps_rmtree [of pids ev d]
  unfolding cleanup_def Let_def by (intro keeps_intros) (simp_all add: keeps_rmtree)

definition live :: "int set \<Rightarrow> usb_command \<Rightarrow> bool" where
  "live pids c \<longleftrightarrow> (case c of Attach device d pid reset_only \<Rightarrow> pid \<in> pids | _ \<Rightarrow> True)"

lemma keeps_command: "live pids c \<Longrightarrow> keeps (mounts_ok pids) (run_command ev c)"
  unfolding run_command_def live_def using keeps_attach keeps_detach keeps_cleanup by (cases c) auto

lemma keeps_commands:
  assumes "mounts_ok pids s" "list_all (live pids) cs"
  shows "mounts_ok pids (fold (\<lambda>c s. snd (run_command ev c s)) cs s)"
  using assms by (induction cs arbitrary: s) (auto intro: keepsD [OF keeps_command])

text \<open>
  Whatever commands run for whatever domains, failed ones included, while
  the QEMUs live, every directory is mounted at most once, and only the two
  directories of a domain, on \<^verbatim>\<open>/sys\<close> and on the \<^verbatim>\<open>/proc\<close> entry of a QEMU.
\<close>

lemma mounted_once:
  assumes "mounts_ok pids s" "list_all (live pids) cs" "s' = fold (\<lambda>c s. snd (run_command ev c s)) cs s"
  shows "distinct (map fst (fs_mounts s')) \<and>
    (\<forall>(t, src) \<in> set (fs_mounts s'). (\<exists>d. t = sys_target d \<and> src = [''sys'']) \<or>
       (\<exists>d. \<exists>pid \<in> pids. t = self_target d \<and> src = [''proc'', int_text pid]))"
  using keeps_commands [OF assms(1,2), of ev] unfolding assms(3) by (simp add: mounts_ok_def)

section \<open>The first attachment of a domain\<close>

definition empty_below :: "path \<Rightarrow> usb_fs \<Rightarrow> bool" where
  "empty_below p s \<longleftrightarrow> list_all (\<lambda>e. \<not> below p (fst e)) (fs_nodes s)"

definition fresh_domain :: "usb_fs \<Rightarrow> string \<Rightarrow> int \<Rightarrow> path \<Rightarrow> int \<Rightarrow> int \<Rightarrow> bool" where
  "fresh_domain s device d path m r \<longleftrightarrow>
     (let root = get_root_dir d in
      dev_path device s = (Inr path, s) \<and>
      (case files s path of Some (Node m' r' u g c) \<Rightarrow> m' = m \<and> r' = r \<and> c = [] | _ \<Rightarrow> False) \<and>
      list_all (\<lambda>i. files s (take i root) = Some Dir) [1..<5] \<and> files s (root @ [''dev'']) = Some Dir \<and>
      list_all (\<lambda>p. empty_below (root @ p) s) [[''dev'', ''bus''], [''sys''], [''proc'']] \<and>
      list_all (\<lambda>e. 4 < length (fst e) \<and> take 4 (fst e) \<noteq> root \<and> \<not> below (fst e) path) (fs_mounts s))"

definition helpful :: "usb_host \<Rightarrow> int \<Rightarrow> path \<Rightarrow> bool" where
  "helpful ev d path \<longleftrightarrow> qemu_uid ev \<noteq> None \<and> qemu_gid ev \<noteq> None \<and>
     \<not> mount_fails ev (sys_target d) \<and> \<not> mount_fails ev (self_target d)"

text \<open>The copy of the device, with and without its owner, and all files after the attachment.\<close>

definition owned_copy :: "usb_host \<Rightarrow> int \<Rightarrow> int \<Rightarrow> int \<Rightarrow> node" where
  "owned_copy ev d m r = Node (m AND NOT (host_umask ev)) r (the (qemu_uid ev) + d) (the (qemu_gid ev) + d) []"

definition copy_of :: "usb_host \<Rightarrow> int \<Rightarrow> path \<Rightarrow> int \<Rightarrow> int \<Rightarrow> node" where
  "copy_of ev d path m r = (if chown_fails ev (get_root_dir d @ path)
     then Node (m AND NOT (host_umask ev)) r 0 0 [] else owned_copy ev d m r)"

definition attached_files ::
  "int \<Rightarrow> path \<Rightarrow> node \<Rightarrow> (path \<Rightarrow> node option) \<Rightarrow> path \<Rightarrow> node option" where
  "attached_files d path n M =
     with_dirs (self_target d) (with_dirs (sys_target d)
       ((with_dirs (butlast (get_root_dir d @ path)) M)(get_root_dir d @ path \<mapsto> n)))"

lemma empty_belowD: "empty_below p s \<Longrightarrow> below p q \<Longrightarrow> files s q = None"
  by (auto simp: empty_below_def files_def list_all_iff map_of_eq_None_iff)

lemma root_length [simp]: "length (get_root_dir d) = 4"
  by (simp add: get_root_dir_def)

lemma dev_path_form:
  "dev_path device s = (Inr path, s') \<Longrightarrow> s' = s \<and> (\<exists>a b. path = [''dev'', ''bus'', ''usb'', a, b])"
  by (auto simp: dev_path_def bnd_def gets_def ret_def throw_def split: if_splits option.splits)

lemma fresh_facts:
  assumes "fresh_domain s device d path m r"
  shows "dev_path device s = (Inr path, s)" "\<exists>a b. path = [''dev'', ''bus'', ''usb'', a, b]"
    "\<exists>u g. files s path = Some (Node m r u g [])" "0 < i \<Longrightarrow> i \<le> 4 \<Longrightarrow> files s (take i (get_root_dir d)) = Some Dir"
    "files s (get_root_dir d @ [''dev'']) = Some Dir"
    "below (get_root_dir d @ [''dev'', ''bus'']) q \<Longrightarrow> files s q = None"
    "below (sys_target d) q \<Longrightarrow> files s q = None" "below (get_root_dir d @ [''proc'']) q \<Longrightarrow> files s q = None"
    "free path s" "take 4 p = take (length p) (get_root_dir d) \<Longrightarrow> free p s"
proof -
  note f = assms [unfolded fresh_domain_def Let_def]
  from f show dp: "dev_path device s = (Inr path, s)" by blast
  from dev_path_form [OF dp] show "\<exists>a b. path = [''dev'', ''bus'', ''usb'', a, b]" by blast
  from f show "\<exists>u g. files s path = Some (Node m r u g [])" by (auto split: option.splits node.splits)
  from f show "0 < i \<Longrightarrow> i \<le> 4 \<Longrightarrow> files s (take i (get_root_dir d)) = Some Dir"
    by (auto simp: list_all_iff)
  from f show "files s (get_root_dir d @ [''dev'']) = Some Dir" by blast
  from f have "empty_below (get_root_dir d @ [''dev'', ''bus'']) s" "empty_below (sys_target d) s"
    "empty_below (get_root_dir d @ [''proc'']) s" by (simp_all add: sys_target_def)
  then show "below (get_root_dir d @ [''dev'', ''bus'']) q \<Longrightarrow> files s q = None"
    "below (sys_target d) q \<Longrightarrow> files s q = None" "below (get_root_dir d @ [''proc'']) q \<Longrightarrow> files s q = None"
    by (simp_all add: empty_belowD)
  from f show "free path s" by (auto simp: free_def list_all_iff)
  show "take 4 p = take (length p) (get_root_dir d) \<Longrightarrow> free p s"
    unfolding free_def list_all_iff
  proof
    fix t
    assume p: "take 4 p = take (length p) (get_root_dir d)" and "t \<in> set (fs_mounts s)"
    with f have t: "4 < length (fst t)" "take 4 (fst t) \<noteq> get_root_dir d" by (auto simp: list_all_iff)
    show "\<not> below (fst t) p"
    proof
      assume b: "below (fst t) p"
      then have "length (fst t) \<le> length p" by (metis below_def length_take min.cobounded1 nat_le_linear min.absorb2)
      with p t(1) have "take 4 p = get_root_dir d" by simp
      moreover have "take 4 (fst t) = take 4 p" using b t(1) by (metis below_def take_take min.absorb1 less_imp_le)
      ultimately show False using t(2) by simp
    qed
  qed
qed

lemma under_root:
  "below (get_root_dir d @ [''dev'', ''bus'']) (get_root_dir d @ [''dev'', ''bus''] @ x)"
  "below (get_root_dir d @ [''proc'']) (get_root_dir d @ [''proc''] @ x)"
  "below (sys_target d) (sys_target d @ x)"
  by (simp_all add: below_def)

text \<open>Directories below an existing prefix.\<close>

lemma makedirs_new:
  assumes "free p s" "\<And>i. 0 < i \<Longrightarrow> i \<le> n \<Longrightarrow> files s (take i p) = Some Dir"
    "\<And>i. n < i \<Longrightarrow> i \<le> length p \<Longrightarrow> files s (take i p) = None"
  obtains s' where "makedirs p s = (Inr (), s')" "fs_mounts s' = fs_mounts s" "files s' = with_dirs p (files s)"
proof (rule makedirs_eq [OF assms(1)])
  show "files s (take i p) \<in> {None, Some Dir}" if "0 < i" "i \<le> length p" for i
    using assms(2,3) that by (cases "i \<le> n") auto
qed

lemma clone_fresh:
  assumes f: "fresh_domain s0 device d path m r" and h: "helpful ev d path"
    and same: "files s = files s0" "fs_mounts s = fs_mounts s0"
  obtains s' where "clone_device ev path (get_root_dir d) d s =
      (if chown_fails ev (get_root_dir d @ path) then Inl Reset_SysExit else Inr (), s')" "fs_mounts s' = fs_mounts s"
    "files s' = (with_dirs (butlast (get_root_dir d @ path)) (files s))(get_root_dir d @ path \<mapsto> copy_of ev d path m r)"
proof -
  obtain a b where path: "path = [''dev'', ''bus'', ''usb'', a, b]" using fresh_facts(2) [OF f] by blast
  obtain u g where dev: "files s path = Some (Node m r u g [])" using fresh_facts(3) [OF f] same by auto
  let ?root = "get_root_dir d" and ?dir = "get_root_dir d @ [''dev'', ''bus'', ''usb'', a]"
  let ?t = "get_root_dir d @ path"
  have parts: "butlast ?t = ?dir" by (simp add: path butlast_append)
  have free: "free p s'" if "take 4 p = take (length p) ?root" "fs_mounts s' = fs_mounts s" for p s'
    using fresh_facts(10) [OF f that(1)] that(2) same(2) by (simp add: free_def)
  have "free ?t s" "free ?dir s" by (rule free; simp add: path)+
  have none: "files s ?t = None" "files s (?root @ [''dev'', ''bus'', x]) = None"
      "files s (?root @ [''dev'', ''bus'', x, y]) = None" "files s (?root @ [''dev'', ''bus'']) = None" for x y
    using fresh_facts(6) [OF f] under_root(1) [of d] unfolding same path by (metis append_Cons append_Nil append_Nil2)+
  have old: "files s (take i ?dir) = Some Dir" if "0 < i" "i \<le> 5" for i
    using fresh_facts(4) [OF f that(1)] fresh_facts(5) [OF f] that same
    by (cases "i = 5") (auto simp: take_append)
  have new: "files s (take i ?dir) = None" if "5 < i" "i \<le> length ?dir" for i
  proof -
    from that have "i = 6 \<or> i = 7 \<or> i = 8" by auto
    then show ?thesis using none by auto
  qed
  obtain s1 where s1: "makedirs ?dir s = (Inr (), s1)" "fs_mounts s1 = fs_mounts s" "files s1 = with_dirs ?dir (files s)"
    using makedirs_new [OF \<open>free ?dir s\<close> old new] by blast
  have f1: "free ?t s1" "free ?dir s1" "free path s1"
    using \<open>free ?t s\<close> \<open>free ?dir s\<close> fresh_facts(9) [OF f] s1(2) same(2) by (simp_all add: free_def)
  have "files s1 ?t = None" using none(1) by (simp add: s1(3) with_dirs_def below_def path)
  moreover have "files s1 ?dir = Some Dir" using none by (simp add: s1(3) with_dirs_def below_def get_root_dir_def)
  ultimately have k: "mknod ev ?t m r s1 = (Inr (), put_node ?t (Node (m AND NOT (host_umask ev)) r 0 0 []) s1)"
    unfolding mknod_def exists_def isdir_def parts lookup_free [OF f1(1)] lookup_free [OF f1(2)] by simp
  let ?s2 = "put_node ?t (Node (m AND NOT (host_umask ev)) r 0 0 []) s1"
  have res: "resolve (fs_mounts s1) ?t = ?t" using f1(1) unfolding free_def by (rule resolve_free)
  let ?s3 = "put_node ?t (copy_of ev d path m r) s1"
  have c: "files (snd (chown ev ?t (the (qemu_uid ev) + d) (the (qemu_gid ev) + d) ?s2)) = files ?s3"
    "fs_mounts (snd (chown ev ?t (the (qemu_uid ev) + d) (the (qemu_gid ev) + d) ?s2)) = fs_mounts s1"
    "fst (chown ev ?t (the (qemu_uid ev) + d) (the (qemu_gid ev) + d) ?s2) =
      (if chown_fails ev ?t then Inl Reset_SysExit else Inr ())"
    using res by (simp_all add: chown_def lookup_files copy_of_def owned_copy_def)
  have st: "stat_of path s1 = (Inr (m, r), s1)"
    using dev by (simp add: stat_of_def bnd_def gets_def lookup_free [OF f1(3)] s1(3) with_dirs_def ret_def)
  have ids: "key_of (qemu_uid ev) t = (Inr (the (qemu_uid ev)), t)" "key_of (qemu_gid ev) t = (Inr (the (qemu_gid ev)), t)"
    for t using h by (auto simp: helpful_def key_of_def ret_def)
  have "clone_device ev path ?root d s = chown ev ?t (the (qemu_uid ev) + d) (the (qemu_gid ev) + d) ?s2"
    using \<open>files s ?t = None\<close> s1(1) k
    by (simp add: clone_device_def Let_def bnd_def seq_def gets_def exists_def lookup_free [OF \<open>free ?t s\<close>] parts st ids)
  moreover have "files ?s3 = (with_dirs ?dir (files s))(?t \<mapsto> copy_of ev d path m r)"
    by (simp add: res s1(3))
  ultimately show ?thesis using that c s1(2) unfolding parts by (metis prod.collapse)
qed

lemma open_device:
  assumes dev: "files s path = Some (Node m r u g [])" and free: "free path s"
  obtains s' where "\<forall>ev. open_for_writing ev path s = (Inr (), s')" "files s' = files s" "fs_mounts s' = fs_mounts s"
proof -
  from free have "resolve (fs_mounts s) path = path" unfolding free_def by (rule resolve_free)
  with dev have "put_node path (Node m r u g []) s = s" by (simp add: put_node_def files_def AList.update_triv)
  then have "\<forall>ev. open_for_writing ev path s = (Inr (), s)"
    using dev by (simp add: open_for_writing_def modify_def lookup_free [OF free])
  then show ?thesis using that by simp
qed

lemma open_fresh:
  assumes "fresh_domain s device d path m r"
  obtains s' where "\<forall>ev. open_for_writing ev path s = (Inr (), s')" "files s' = files s" "fs_mounts s' = fs_mounts s"
proof -
  obtain u g where "files s path = Some (Node m r u g [])" using fresh_facts(3) [OF assms] by blast
  from open_device [OF this fresh_facts(9) [OF assms]] show ?thesis using that by blast
qed

lemma mount_unless:
  assumes "free p s" "files s p = Some Dir" "free (p @ [x]) s" "files s (p @ [x]) = None" "\<not> mount_fails ev p"
  shows "bnd (gets (\<lambda>s. isdir s (p @ [x]))) (\<lambda>m. if m then ret () else mount ev src p) s =
    (Inr (), s\<lparr>fs_mounts := (p, src) # fs_mounts s\<rparr>)"
  using assms by (simp add: bnd_def gets_def isdir_def lookup_free mount_def modify_def)

lemma root_prefix:
  "take i (sys_target d) = (if i \<le> 4 then take i (get_root_dir d) else sys_target d)"
  "take i (self_target d) = (if i \<le> 4 then take i (get_root_dir d) else if i = 5 then get_root_dir d @ [''proc''] else self_target d)"
  by (auto simp: sys_target_def self_target_def get_root_dir_def take_Cons split: nat.split)

lemma below_length: "below d p \<Longrightarrow> length d \<le> length p"
  by (metis below_def length_take min.cobounded1)

lemma root_not_below: "\<not> below (get_root_dir d @ x # y) (take i (get_root_dir d))"
  by (auto dest: below_length)

lemma below_clash:
  assumes "below (r @ [x]) q" "below q (r @ y # z)"
  shows "x = y"
proof -
  have q: "take (Suc (length r)) q = r @ [x]" using assms(1) by (simp add: below_def)
  then have "Suc (length r) \<le> length q" by (metis length_append_singleton length_take min.cobounded1 min_def nat_le_linear)
  then have "take (Suc (length r)) (take (length q) (r @ y # z)) = r @ [y]" by simp
  with assms(2) q show ?thesis by (simp add: below_def)
qed

lemma with_dirs_other:
  assumes "\<not> below (get_root_dir d @ [''dev'']) q" "files s0 q \<noteq> None \<or> below (get_root_dir d @ [x]) q" "x \<noteq> ''dev''"
    "path = [''dev'', ''bus'', ''usb'', a, b]"
  shows "((with_dirs (butlast (get_root_dir d @ path)) (files s0))(get_root_dir d @ path \<mapsto> n)) q = files s0 q"
proof -
  have "q \<noteq> get_root_dir d @ path" using assms(1,4) by (auto simp: below_def)
  moreover have "files s0 q \<noteq> None \<or> \<not> below q (get_root_dir d @ ''dev'' # [''bus'', ''usb'', a])"
    using assms(2,3) below_clash by metis
  ultimately show ?thesis using assms(4) by (auto simp: with_dirs_def butlast_append)
qed

lemma sys_fresh:
  assumes f: "fresh_domain s0 device d path m r" and h: "helpful ev d path" and mounts: "fs_mounts s = fs_mounts s0"
    and files: "files s = (with_dirs (butlast (get_root_dir d @ path)) (files s0))(get_root_dir d @ path \<mapsto> n)"
  obtains s1 where "makedirs (sys_target d) s = (Inr (), s1)"
    "bnd (gets (\<lambda>s. isdir s (sys_target d @ [''devices'']))) (\<lambda>m. if m then ret () else mount ev [''sys''] (sys_target d)) s1 =
      (Inr (), s1\<lparr>fs_mounts := (sys_target d, [''sys'']) # fs_mounts s0\<rparr>)"
    "files s1 = with_dirs (sys_target d) (files s)" "fs_mounts s1 = fs_mounts s0"
proof -
  obtain a b where path: "path = [''dev'', ''bus'', ''usb'', a, b]" using fresh_facts(2) [OF f] by blast
  have free: "free (sys_target d @ x) s'" if "fs_mounts s' = fs_mounts s" for s' x
    using fresh_facts(10) [OF f, of "sys_target d @ x"] that mounts by (simp add: free_def sys_target_def)
  have old: "files s q = files s0 q" if "\<not> below (get_root_dir d @ [''dev'']) q" "files s0 q \<noteq> None \<or> below (sys_target d) q" for q
    using with_dirs_other [of d q s0 "''sys''", OF _ _ _ path] that by (simp add: files sys_target_def)
  have none: "files s (sys_target d @ x) = None" for x
    using fresh_facts(7) [OF f under_root(3), of x] old [of "sys_target d @ x"] under_root(3) [of d x]
    by (simp add: below_def sys_target_def get_root_dir_def)
  have dirs: "files s (take i (get_root_dir d)) = Some Dir" if "0 < i" "i \<le> 4" for i
    using fresh_facts(4) [OF f that] old [of "take i (get_root_dir d)"] root_not_below by simp
  obtain s1 where s1: "makedirs (sys_target d) s = (Inr (), s1)" "fs_mounts s1 = fs_mounts s"
    "files s1 = with_dirs (sys_target d) (files s)"
  proof (rule makedirs_new [where n = 4])
    show "free (sys_target d) s" using free [of s "[]"] by simp
    show "files s (take i (sys_target d)) = Some Dir" if "0 < i" "i \<le> 4" for i
      using dirs that by (simp add: root_prefix)
    show "files s (take i (sys_target d)) = None" if "4 < i" "i \<le> length (sys_target d)" for i
      using none [of "[]"] that by (simp add: root_prefix)
  qed
  have "bnd (gets (\<lambda>s. isdir s (sys_target d @ [''devices'']))) (\<lambda>m. if m then ret () else mount ev [''sys''] (sys_target d)) s1 =
      (Inr (), s1\<lparr>fs_mounts := (sys_target d, [''sys'']) # fs_mounts s1\<rparr>)"
  proof (rule mount_unless)
    show "files s1 (sys_target d) = Some Dir" "files s1 (sys_target d @ [''devices'']) = None"
      using none [of "[]"] none [of "[''devices'']"]
      by (simp_all add: s1(3) with_dirs_def below_def sys_target_def get_root_dir_def)
    show "free (sys_target d) s1" "free (sys_target d @ [''devices'']) s1" using free [OF s1(2)] free [OF s1(2), of "[]"] by simp_all
    show "\<not> mount_fails ev (sys_target d)" using h by (simp add: helpful_def)
  qed
  with s1 mounts show ?thesis using that by simp
qed

lemma self_fresh:
  assumes f: "fresh_domain s0 device d path m r" and h: "helpful ev d path"
    and mounts: "fs_mounts s = (sys_target d, [''sys'']) # fs_mounts s0"
    and files: "files s = with_dirs (sys_target d)
      ((with_dirs (butlast (get_root_dir d @ path)) (files s0))(get_root_dir d @ path \<mapsto> n))"
  obtains s1 where "makedirs (self_target d) s = (Inr (), s1)"
    "bnd (gets (\<lambda>s. isdir s (self_target d @ [''fd'']))) (\<lambda>m. if m then ret () else mount ev src (self_target d)) s1 =
      (Inr (), s1\<lparr>fs_mounts := (self_target d, src) # fs_mounts s\<rparr>)"
    "files s1 = with_dirs (self_target d) (files s)" "fs_mounts s1 = fs_mounts s"
proof -
  let ?proc = "get_root_dir d @ [''proc'']"
  obtain a b where path: "path = [''dev'', ''bus'', ''usb'', a, b]" using fresh_facts(2) [OF f] by blast
  have free: "free (?proc @ x) s'" if "fs_mounts s' = fs_mounts s" for s' x
    using fresh_facts(10) [OF f, of "?proc @ x"] that mounts
    by (simp add: free_def below_def sys_target_def get_root_dir_def)
  have old: "files s q = files s0 q" if "\<not> below (get_root_dir d @ [''dev'']) q" "files s0 q \<noteq> None \<or> below ?proc q" for q
  proof -
    have "\<not> below q (sys_target d) \<or> files s0 q \<noteq> None"
      using that below_clash [of "get_root_dir d" "''proc''" q "''sys''" "[]"] by (auto simp: sys_target_def)
    then show ?thesis
      using with_dirs_other [of d q s0 "''proc''", OF _ _ _ path] that by (auto simp: files with_dirs_def [of "sys_target d"])
  qed
  have none: "files s (?proc @ x) = None" for x
    using fresh_facts(8) [OF f under_root(2), of x] old [of "?proc @ x"]
    by (simp add: below_def get_root_dir_def)
  have dirs: "files s (take i (get_root_dir d)) = Some Dir" if "0 < i" "i \<le> 4" for i
    using fresh_facts(4) [OF f that] old [of "take i (get_root_dir d)"] root_not_below by simp
  have self: "self_target d = ?proc @ [''self'']" by (simp add: self_target_def)
  obtain s1 where s1: "makedirs (self_target d) s = (Inr (), s1)" "fs_mounts s1 = fs_mounts s"
    "files s1 = with_dirs (self_target d) (files s)"
  proof (rule makedirs_new [where n = 4])
    show "free (self_target d) s" using free [of s "[''self'']"] by (simp add: self)
    show "files s (take i (self_target d)) = Some Dir" if "0 < i" "i \<le> 4" for i
      using dirs that by (simp add: root_prefix)
    show "files s (take i (self_target d)) = None" if "4 < i" "i \<le> length (self_target d)" for i
    proof -
      have "i = 5 \<or> i = 6" using that by (auto simp: self)
      then show ?thesis using none [of "[]"] none [of "[''self'']"] by (auto simp: root_prefix) (simp_all add: self)
    qed
  qed
  have "bnd (gets (\<lambda>s. isdir s (self_target d @ [''fd'']))) (\<lambda>m. if m then ret () else mount ev src (self_target d)) s1 =
      (Inr (), s1\<lparr>fs_mounts := (self_target d, src) # fs_mounts s1\<rparr>)"
  proof (rule mount_unless)
    show "files s1 (self_target d) = Some Dir" "files s1 (self_target d @ [''fd'']) = None"
      using none [of "[''self'']"] none [of "[''self'', ''fd'']"]
      by (simp_all add: s1(3) with_dirs_def below_def self get_root_dir_def)
    show "free (self_target d) s1" "free (self_target d @ [''fd'']) s1"
      using free [OF s1(2), of "[''self'']"] free [OF s1(2), of "[''self'', ''fd'']"] by (simp_all add: self)
    show "\<not> mount_fails ev (self_target d)" using h by (simp add: helpful_def)
  qed
  with s1 show ?thesis using that by simp
qed

text \<open>The rest of an attachment once the device file is there, whoever owns it.\<close>

lemma rest_fresh:
  assumes f: "fresh_domain s0 device d path m r" and h: "helpful ev d path" and mounts: "fs_mounts s = fs_mounts s0"
    and files: "files s = (with_dirs (butlast (get_root_dir d @ path)) (files s0))(get_root_dir d @ path \<mapsto> n)"
  obtains s' where "seq (makedirs (sys_target d))
      (bnd (gets (\<lambda>s. isdir s (sys_target d @ [''devices'']))) (\<lambda>m.
         seq (if m then ret () else mount ev [''sys''] (sys_target d))
         (seq (makedirs (self_target d))
         (bnd (gets (\<lambda>s. isdir s (self_target d @ [''fd'']))) (\<lambda>m.
         if m then ret () else mount ev src (self_target d)))))) s = (Inr (), s')"
    "fs_mounts s' = (self_target d, src) # (sys_target d, [''sys'']) # fs_mounts s0"
    "files s' = attached_files d path n (files s0)"
proof -
  obtain s1 where s1: "makedirs (sys_target d) s = (Inr (), s1)"
    "bnd (gets (\<lambda>s. isdir s (sys_target d @ [''devices'']))) (\<lambda>m. if m then ret () else mount ev [''sys''] (sys_target d)) s1 =
      (Inr (), s1\<lparr>fs_mounts := (sys_target d, [''sys'']) # fs_mounts s0\<rparr>)"
    "files s1 = with_dirs (sys_target d) (files s)" by (rule sys_fresh [OF f h mounts files])
  let ?s = "s1\<lparr>fs_mounts := (sys_target d, [''sys'']) # fs_mounts s0\<rparr>"
  have "fs_mounts ?s = (sys_target d, [''sys'']) # fs_mounts s0" by simp
  moreover have "files ?s = with_dirs (sys_target d)
      ((with_dirs (butlast (get_root_dir d @ path)) (files s0))(get_root_dir d @ path \<mapsto> n))"
    using s1(3) files by (simp add: files_def)
  ultimately obtain s2 where s2: "makedirs (self_target d) ?s = (Inr (), s2)"
    "bnd (gets (\<lambda>s. isdir s (self_target d @ [''fd'']))) (\<lambda>m. if m then ret () else mount ev src (self_target d)) s2 =
      (Inr (), s2\<lparr>fs_mounts := (self_target d, src) # fs_mounts ?s\<rparr>)"
    "files s2 = with_dirs (self_target d) (files ?s)" by (rule self_fresh [OF f h])
  have "seq (makedirs (sys_target d))
      (bnd (gets (\<lambda>s. isdir s (sys_target d @ [''devices'']))) (\<lambda>m.
         seq (if m then ret () else mount ev [''sys''] (sys_target d))
         (seq (makedirs (self_target d))
         (bnd (gets (\<lambda>s. isdir s (self_target d @ [''fd'']))) (\<lambda>m.
         if m then ret () else mount ev src (self_target d)))))) s =
      (Inr (), s2\<lparr>fs_mounts := (self_target d, src) # fs_mounts ?s\<rparr>)"
    using s1(1,2) s2(1,2) by (simp add: seq_def bnd_def gets_def split: if_splits)
  then show ?thesis
    by (rule that) (simp_all add: attached_files_def s2(3) files s1(3) files_def [symmetric] files_def [of "_\<lparr>fs_mounts := _\<rparr>"])
qed

text \<open>An attachment is these parts in their order.\<close>

definition attach_rest :: "usb_host \<Rightarrow> int \<Rightarrow> int \<Rightarrow> unit reset_op" where
  "attach_rest ev d pid = seq (makedirs (sys_target d))
      (bnd (gets (\<lambda>s. isdir s (sys_target d @ [''devices'']))) (\<lambda>m.
         seq (if m then ret () else mount ev [''sys''] (sys_target d))
         (seq (makedirs (self_target d))
         (bnd (gets (\<lambda>s. isdir s (self_target d @ [''fd'']))) (\<lambda>m.
         if m then ret () else mount ev [''proc'', int_text pid] (self_target d))))))"

lemma attach_eq:
  assumes "dev_path device s = (Inr path, s)" "open_for_writing ev path s = (Inr (), s1)"
    "isdir s1 (get_root_dir d)" "isdir s1 (get_root_dir d @ [''dev''])"
  shows "attach ev device d pid False s = seq (clone_device ev path (get_root_dir d) d) (attach_rest ev d pid) s1"
  unfolding attach_rest_def sys_target_def self_target_def using assms
  by (simp add: attach_def Let_def seq_def bnd_def gets_def require_def)

lemma fresh_start:
  assumes "fresh_domain s device d path m r"
  obtains s1 where "files s1 = files s" "fs_mounts s1 = fs_mounts s"
    "\<And>ev pid. attach ev device d pid False s = seq (clone_device ev path (get_root_dir d) d) (attach_rest ev d pid) s1"
proof -
  obtain s1 where s1: "\<forall>ev. open_for_writing ev path s = (Inr (), s1)" "files s1 = files s" "fs_mounts s1 = fs_mounts s"
    by (rule open_fresh [OF assms])
  have "free (get_root_dir d) s1" "free (get_root_dir d @ [''dev'']) s1"
    using fresh_facts(10) [OF assms, of "get_root_dir d"] fresh_facts(10) [OF assms, of "get_root_dir d @ [''dev'']"] s1(3)
    by (simp_all add: free_def)
  then have "isdir s1 (get_root_dir d)" "isdir s1 (get_root_dir d @ [''dev''])"
    using fresh_facts(4) [OF assms, of 4] fresh_facts(5) [OF assms] s1(2) by (simp_all add: isdir_def lookup_free)
  from attach_eq [OF fresh_facts(1) [OF assms] s1(1) [rule_format] this] s1(2,3) show ?thesis using that by blast
qed

lemma attach_fresh:
  assumes f: "fresh_domain s device d path m r" and h: "helpful ev d path" "\<not> chown_fails ev (get_root_dir d @ path)"
  obtains s' where "attach ev device d pid False s = (Inr (), s')"
    "fs_mounts s' = (self_target d, [''proc'', int_text pid]) # (sys_target d, [''sys'']) # fs_mounts s"
    "files s' = attached_files d path (owned_copy ev d m r) (files s)"
proof -
  obtain s1 where s1: "files s1 = files s" "fs_mounts s1 = fs_mounts s"
    "attach ev device d pid False s = seq (clone_device ev path (get_root_dir d) d) (attach_rest ev d pid) s1"
    using fresh_start [OF f] by metis
  obtain s2 where s2: "clone_device ev path (get_root_dir d) d s1 = (Inr (), s2)" "fs_mounts s2 = fs_mounts s1"
    "files s2 = (with_dirs (butlast (get_root_dir d @ path)) (files s1))(get_root_dir d @ path \<mapsto> copy_of ev d path m r)"
    using clone_fresh [OF f h(1) s1(1,2)] h(2) by auto
  have "fs_mounts s2 = fs_mounts s" using s1 s2 by simp
  from rest_fresh [OF f h(1) this s2(3) [unfolded s1(1)], of "[''proc'', int_text pid]"]
  obtain s' where "attach_rest ev d pid s2 = (Inr (), s')"
    "fs_mounts s' = (self_target d, [''proc'', int_text pid]) # (sys_target d, [''sys'']) # fs_mounts s"
    "files s' = attached_files d path (copy_of ev d path m r) (files s)" unfolding attach_rest_def by metis
  then show ?thesis using that h(2) s1(3) s2(1) by (simp add: seq_Inr copy_of_def)
qed

text \<open>What is visible after the attachment.\<close>

lemma attached_lookup:
  assumes f: "fresh_domain s device d path m r"
    and s': "fs_mounts s' = (self_target d, src) # (sys_target d, [''sys'']) # fs_mounts s"
      "files s' = attached_files d path n (files s)"
  shows "lookup s' (get_root_dir d @ path) = Some n" "lookup s' (sys_target d @ x) = files s' ([''sys''] @ x)"
    "lookup s' (self_target d @ x) = files s' (src @ x)"
proof -
  obtain a b where path: "path = [''dev'', ''bus'', ''usb'', a, b]" using fresh_facts(2) [OF f] by blast
  have "free (get_root_dir d @ path) s'"
    using fresh_facts(10) [OF f, of "get_root_dir d @ path"] s'(1) path
    by (simp add: free_def below_def sys_target_def self_target_def get_root_dir_def)
  then show "lookup s' (get_root_dir d @ path) = Some n"
    by (simp add: lookup_free s'(2) attached_files_def with_dirs_def)
  show "lookup s' (self_target d @ x) = files s' (src @ x)" by (simp add: lookup_files s'(1))
  show "lookup s' (sys_target d @ x) = files s' ([''sys''] @ x)"
    using below_targets(4) [of d d x] by (simp add: lookup_files s'(1) resolve_Cons del: resolve.simps) (simp add: below_def)
qed

text \<open>Files that were there stay; what is new lies below the directory of the domain.\<close>

lemma below_take_take: "below q p \<Longrightarrow> n \<le> length q \<Longrightarrow> take n q = take n p"
  by (metis below_def min.absorb1 take_take)

lemma prefix_cases:
  assumes "below q (get_root_dir d @ x # y)"
  obtains "length q \<le> 4" "q = take (length q) (get_root_dir d)" | "below (get_root_dir d @ [x]) q"
proof (cases "length q \<le> 4")
  case True
  with assms have "q = take (length q) (get_root_dir d)" by (simp add: below_def)
  with True show ?thesis by (rule that(1))
next
  case False
  with below_take_take [OF assms, of 5] have "take 5 q = get_root_dir d @ [x]" by (simp add: get_root_dir_def)
  then show ?thesis by (intro that(2)) (simp add: below_def)
qed

lemma target_length [simp]: "length (sys_target d) = 5" "length (self_target d) = 6"
  by (simp_all add: sys_target_def self_target_def)

lemma clone_dirs_old:
  assumes "\<not> below (get_root_dir d @ [''dev'', ''bus'']) q" "M (get_root_dir d @ [''dev'']) \<noteq> None"
    "q \<noteq> [] \<Longrightarrow> length q \<le> 4 \<Longrightarrow> q = take (length q) (get_root_dir d) \<Longrightarrow> M q \<noteq> None"
  shows "with_dirs (get_root_dir d @ [''dev'', ''bus'', ''usb'', a]) M q = M q"
proof (cases "below q (get_root_dir d @ ''dev'' # [''bus'', ''usb'', a])")
  case True
  then show ?thesis
  proof (rule prefix_cases)
    assume b: "below (get_root_dir d @ [''dev'']) q"
    have "length q \<le> 5"
    proof (rule ccontr)
      assume "\<not> length q \<le> 5"
      with below_take_take [OF True, of 6] have "take 6 q = get_root_dir d @ [''dev'', ''bus'']" by (simp add: get_root_dir_def)
      with assms(1) show False by (simp add: below_def)
    qed
    moreover have "5 \<le> length q" using below_length [OF b] by simp
    ultimately have "q = get_root_dir d @ [''dev'']" using b by (simp add: below_def)
    then show ?thesis using assms(2) by (simp add: with_dirs_def)
  qed (use assms(3) in \<open>auto simp: with_dirs_def\<close>)
qed (simp add: with_dirs_def)

lemma sys_dirs_old:
  assumes "q \<noteq> [] \<Longrightarrow> length q \<le> 4 \<Longrightarrow> q = take (length q) (get_root_dir d) \<Longrightarrow> M q \<noteq> None" "M (sys_target d) = None"
  shows "with_dirs (sys_target d) M q = (if q = sys_target d then Some Dir else M q)"
proof (cases "q = sys_target d")
  case True
  have "sys_target d \<noteq> []" by (simp add: sys_target_def)
  with True assms(2) show ?thesis by (simp add: with_dirs_def below_def)
next
  case False
  have "\<not> below q (sys_target d)" if "\<not> (length q \<le> 4 \<and> q = take (length q) (get_root_dir d))"
  proof
    assume b: "below q (sys_target d)"
    then have "below q (get_root_dir d @ ''sys'' # [])" by (simp add: sys_target_def)
    then have "below (sys_target d) q" by (rule prefix_cases) (use that in \<open>auto simp: sys_target_def\<close>)
    with below_length [OF b] below_length [OF this] False show False by (simp add: below_def)
  qed
  with assms(1) False show ?thesis by (auto simp: with_dirs_def)
qed

lemma self_dirs_old:
  assumes "q \<noteq> [] \<Longrightarrow> length q \<le> 4 \<Longrightarrow> q = take (length q) (get_root_dir d) \<Longrightarrow> M q \<noteq> None"
    "\<not> below (get_root_dir d @ [''proc'']) q"
  shows "with_dirs (self_target d) M q = M q"
proof (cases "below q (get_root_dir d @ ''proc'' # [''self''])")
  case True
  then show ?thesis by (rule prefix_cases) (use assms in \<open>auto simp: with_dirs_def\<close>)
qed (simp add: with_dirs_def self_target_def)

lemma attached_old:
  assumes f: "fresh_domain s device d path m r" and q: "\<not> below (get_root_dir d @ [''dev'', ''bus'']) q"
    "\<not> below (get_root_dir d @ [''proc'']) q"
  shows "attached_files d path n (files s) q = (if q = sys_target d then Some Dir else files s q)"
proof -
  obtain a b where path: "path = [''dev'', ''bus'', ''usb'', a, b]" using fresh_facts(2) [OF f] by blast
  let ?t = "get_root_dir d @ path" and ?N = "(with_dirs (butlast (get_root_dir d @ path)) (files s))(get_root_dir d @ path \<mapsto> n)"
  have dir: "butlast ?t = get_root_dir d @ [''dev'', ''bus'', ''usb'', a]" by (simp add: path butlast_append)
  have root: "files s q \<noteq> None" if "q \<noteq> []" "length q \<le> 4" "q = take (length q) (get_root_dir d)"
    using fresh_facts(4) [OF f, of "length q"] that by (cases "length q") auto
  have t: "q \<noteq> ?t" using q(1) by (auto simp: path below_def)
  have "with_dirs (butlast ?t) (files s) q = files s q"
    unfolding dir by (rule clone_dirs_old [OF q(1)]) (use fresh_facts(5) [OF f] root in simp_all)
  with t have N: "?N q = files s q" by simp
  have "files s (sys_target d) = None" using fresh_facts(7) [OF f, of "sys_target d"] by (simp add: below_def)
  then have "?N (sys_target d) = None"
    by (auto simp: with_dirs_def dir path below_def sys_target_def get_root_dir_def)
  with N root have sys: "with_dirs (sys_target d) ?N q = (if q = sys_target d then Some Dir else files s q)"
    by (subst sys_dirs_old) auto
  with root q(2) show ?thesis unfolding attached_files_def by (subst self_dirs_old) auto
qed

section \<open>Cleaning up\<close>

lemma rmtree_eq:
  assumes "free p s" "files s p = Some Dir" "list_all (\<lambda>m. \<not> below p (fst m)) (fs_mounts s)"
  obtains s' where "rmtree ev p s = (Inr (), s')" "fs_mounts s' = fs_mounts s"
    "files s' = (\<lambda>q. if below p q then None else files s q)"
proof -
  have "resolve (fs_mounts s) p = p" using assms(1) unfolding free_def by (rule resolve_free)
  moreover have "\<not> list_ex (\<lambda>m. below p (fst m)) (fs_mounts s)" using assms(3) by (simp add: list_all_iff list_ex_iff)
  ultimately have "rmtree ev p s = (Inr (), s\<lparr>fs_nodes := filter (\<lambda>e. \<not> below p (fst e)) (fs_nodes s)\<rparr>)"
    using assms(2) by (simp add: rmtree_def isdir_def lookup_free [OF assms(1)] Let_def)
  then show ?thesis
    by (rule that) (simp_all add: files_def map_of_filter_key [where P = "\<lambda>e. \<not> below p e"] fun_eq_iff)
qed

lemma free_root: "fresh_domain s device d path m r \<Longrightarrow> free (get_root_dir d @ x) s"
  using fresh_facts(10) [of s device d path m r "get_root_dir d @ x"] by simp

lemma apart_root:
  assumes "fresh_domain s device d path m r"
  shows "list_all (\<lambda>m. \<not> below (get_root_dir d @ x) (fst m)) (fs_mounts s)"
proof -
  have "take 4 (fst m) \<noteq> get_root_dir d" if "m \<in> set (fs_mounts s)" for m
    using assms that by (auto simp: fresh_domain_def Let_def list_all_iff)
  moreover have "take 4 q = get_root_dir d" if "below (get_root_dir d @ x) q" for q
  proof -
    have "q = (get_root_dir d @ x) @ drop (length (get_root_dir d @ x)) q"
      using that unfolding below_def by (metis append_take_drop_id)
    then show ?thesis by (metis append_assoc append_eq_conv_conj root_length)
  qed
  ultimately show ?thesis by (auto simp: list_all_iff)
qed

lemma attached_dirs:
  assumes f: "fresh_domain s device d path m r" and s1: "files s1 = attached_files d path n (files s)"
  shows "files s1 (get_root_dir d @ [''dev'', ''bus'']) = Some Dir" "files s1 (get_root_dir d @ [''proc'']) = Some Dir"
    "files s1 (sys_target d) = Some Dir" "\<not> below (get_root_dir d) q \<Longrightarrow> files s1 q = files s q"
proof -
  obtain a b where path: "path = [''dev'', ''bus'', ''usb'', a, b]" using fresh_facts(2) [OF f] by blast
  show "files s1 (get_root_dir d @ [''dev'', ''bus'']) = Some Dir"
    using fresh_facts(6) [OF f, of "get_root_dir d @ [''dev'', ''bus'']"]
    by (auto simp: s1 attached_files_def with_dirs_def path below_def butlast_append sys_target_def self_target_def get_root_dir_def)
  show "files s1 (get_root_dir d @ [''proc'']) = Some Dir"
    using fresh_facts(8) [OF f, of "get_root_dir d @ [''proc'']"]
    by (auto simp: s1 attached_files_def with_dirs_def path below_def butlast_append sys_target_def self_target_def get_root_dir_def)
  show "files s1 (sys_target d) = Some Dir"
    unfolding s1 by (subst attached_old [OF f]) (simp_all add: below_def sys_target_def)
  show "files s1 q = files s q" if "\<not> below (get_root_dir d) q"
  proof -
    have "\<not> below (get_root_dir d @ x) q" for x
      using that by (metis append_eq_conv_conj append_take_drop_id below_def take_append take_take below_take)
    moreover from this [of "[''sys'']"] have "q \<noteq> sys_target d" by (auto simp: below_def sys_target_def)
    ultimately show ?thesis unfolding s1 by (simp add: attached_old [OF f])
  qed
qed

lemma cleanup_attached:
  assumes f: "fresh_domain s device d path m r" and sys: "files s [''sys'', ''devices''] = Some Dir"
    and u: "\<not> umount_fails ev (sys_target d)" "\<not> umount_fails ev (self_target d)"
    and s1: "fs_mounts s1 = (self_target d, src) # (sys_target d, [''sys'']) # fs_mounts s"
      "files s1 = attached_files d path n (files s)"
  obtains s2 where "cleanup ev d s1 = (Inr (), s2)" "fs_mounts s2 = fs_mounts s" "files s2 = (files s)(sys_target d \<mapsto> Dir)"
proof -
  let ?bus = "get_root_dir d @ [''dev'', ''bus'']" and ?proc = "get_root_dir d @ [''proc'']"
  note dirs = attached_dirs [OF f s1(2)]
  have free: "free ?bus s1"
    using free_root [OF f, of "[''dev'', ''bus'']"] s1(1) below_targets(5,6) [of d d "[''bus'']"] by (simp add: free_def)
  have apart: "list_all (\<lambda>m. \<not> below ?bus (fst m)) (fs_mounts s1)"
    using apart_root [OF f, of "[''dev'', ''bus'']"] s1(1) by (simp add: below_def sys_target_def self_target_def get_root_dir_def)
  obtain s2 where s2: "rmtree ev ?bus s1 = (Inr (), s2)" "fs_mounts s2 = fs_mounts s1"
    "files s2 = (\<lambda>q. if below ?bus q then None else files s1 q)" using rmtree_eq [OF free dirs(1) apart] by blast
  have bus: "isdir s1 ?bus" using dirs(1) by (simp add: isdir_def lookup_free [OF free])
  have "resolve (fs_mounts s2) (sys_target d @ [''devices'']) = [''sys'', ''devices'']"
    using below_targets(4) [of d d "[''devices'']"] unfolding s2(2) s1(1) resolve_Cons by (simp add: below_def)
  moreover have "files s1 [''sys'', ''devices''] = Some Dir" using dirs(4) sys by (simp add: below_def get_root_dir_def)
  ultimately have vis: "isdir s2 (sys_target d @ [''devices''])"
    by (simp add: isdir_def lookup_files s2(3) below_def get_root_dir_def)
  have "sys_target d \<noteq> self_target d" by (simp add: sys_target_def self_target_def)
  then have um1: "umount ev (sys_target d) s2 = (Inr (), s2\<lparr>fs_mounts := (self_target d, src) # fs_mounts s\<rparr>)"
    using u(1) by (simp add: umount_def modify_def s2(2) s1(1))
  let ?s3 = "s2\<lparr>fs_mounts := (self_target d, src) # fs_mounts s\<rparr>"
  have "free (sys_target d) ?s3"
    using free_root [OF f, of "[''sys'']"] below_targets(4) [of d d "[]"] by (simp add: free_def sys_target_def)
  then have ex: "exists ?s3 (sys_target d)" "ismount ?s3 (self_target d)"
    using dirs(3) s2(3) by (auto simp: exists_def lookup_free files_def ismount_def below_def sys_target_def get_root_dir_def)
  have um2: "umount ev (self_target d) ?s3 = (Inr (), s2\<lparr>fs_mounts := fs_mounts s\<rparr>)"
    using u(2) by (simp add: umount_def modify_def)
  let ?s4 = "s2\<lparr>fs_mounts := fs_mounts s\<rparr>"
  have f4: "free ?proc ?s4" using free_root [OF f, of "[''proc'']"] by (simp add: free_def)
  have d4: "files ?s4 ?proc = Some Dir" using dirs(2) s2(3) by (simp add: files_def below_def)
  have a4: "list_all (\<lambda>m. \<not> below ?proc (fst m)) (fs_mounts ?s4)" using apart_root [OF f, of "[''proc'']"] by simp
  obtain s5 where s5: "rmtree ev ?proc ?s4 = (Inr (), s5)" "fs_mounts s5 = fs_mounts ?s4"
    "files s5 = (\<lambda>q. if below ?proc q then None else files ?s4 q)" using rmtree_eq [OF f4 d4 a4] by blast
  have files4: "files ?s4 = files s2" by (simp add: files_def)
  have "files s5 q = ((files s)(sys_target d \<mapsto> Dir)) q" for q
  proof (cases "below ?proc q \<or> below ?bus q")
    case True
    then have "files s q = None" "q \<noteq> sys_target d"
      using fresh_facts(6,8) [OF f, of q] by (auto simp: below_def sys_target_def get_root_dir_def)
    with True show ?thesis by (auto simp: s5(3) files4 s2(3))
  next
    case False
    then show ?thesis using attached_old [OF f, of q n] by (simp add: s5(3) files4 s2(3) s1(2))
  qed
  moreover have "cleanup ev d s1 = (Inr (), s5)"
    using bus s2(1) vis um1 ex um2 s5(1)
    by (simp add: cleanup_def Let_def bnd_def seq_def gets_def sys_target_def self_target_def)
  ultimately show ?thesis using s5(2) that by (simp add: fun_eq_iff)
qed

section \<open>An attachment that failed half-way\<close>

text \<open>The files below \<^verbatim>\<open>/sys\<close> that name the device are read at their place.\<close>

definition reads_sys :: "usb_fs \<Rightarrow> string \<Rightarrow> bool" where
  "reads_sys s device \<longleftrightarrow> list_all (\<lambda>x. free [''sys'', ''bus'', ''usb'', ''devices'', device, x] s) [''busnum'', ''devnum'']"

lemma dev_path_cong:
  assumes "reads_sys s device" "fs_mounts s' = fs_mounts s" "\<And>q. take 1 q = [''sys''] \<Longrightarrow> files s' q = files s q"
    "dev_path device s = (Inr path, s)"
  shows "dev_path device s' = (Inr path, s')"
proof -
  have "read_int s' [''sys'', ''bus'', ''usb'', ''devices'', device, x] =
      read_int s [''sys'', ''bus'', ''usb'', ''devices'', device, x]" if "x \<in> {''busnum'', ''devnum''}" for x
  proof -
    have "free [''sys'', ''bus'', ''usb'', ''devices'', device, x] s" using assms(1) that by (auto simp: reads_sys_def)
    moreover from this have "free [''sys'', ''bus'', ''usb'', ''devices'', device, x] s'" using assms(2) by (simp add: free_def)
    ultimately show ?thesis using assms(3) by (simp add: read_int_def lookup_free)
  qed
  then show ?thesis using assms(4)
    by (auto simp: dev_path_def bnd_def gets_def ret_def throw_def split: if_splits option.splits)
qed

lemma failed_attach:
  assumes f: "fresh_domain s device d path m r" and h: "helpful ev d path" "chown_fails ev (get_root_dir d @ path)"
  obtains s1 where "attach ev device d pid False s = (Inl Reset_SysExit, s1)" "fs_mounts s1 = fs_mounts s"
    "files s1 = (with_dirs (butlast (get_root_dir d @ path)) (files s))(get_root_dir d @ path \<mapsto> copy_of ev d path m r)"
proof -
  obtain s0 where s0: "files s0 = files s" "fs_mounts s0 = fs_mounts s"
    "attach ev device d pid False s = seq (clone_device ev path (get_root_dir d) d) (attach_rest ev d pid) s0"
    using fresh_start [OF f] by metis
  obtain s1 where "clone_device ev path (get_root_dir d) d s0 = (Inl Reset_SysExit, s1)" "fs_mounts s1 = fs_mounts s0"
    "files s1 = (with_dirs (butlast (get_root_dir d @ path)) (files s0))(get_root_dir d @ path \<mapsto> copy_of ev d path m r)"
    using clone_fresh [OF f h(1) s0(1,2)] h(2) by auto
  with s0 show ?thesis using that by (simp add: seq_def bnd_def)
qed

lemma cloned_lookup:
  assumes f: "fresh_domain s device d path m r"
    and files: "files s1 = (with_dirs (butlast (get_root_dir d @ path)) (files s))(get_root_dir d @ path \<mapsto> n)"
  shows "files s1 (get_root_dir d) = Some Dir" "files s1 (get_root_dir d @ [''dev'']) = Some Dir"
    "files s1 path = files s path" "take 1 q = [''sys''] \<Longrightarrow> files s1 q = files s q"
proof -
  obtain a b where path: "path = [''dev'', ''bus'', ''usb'', a, b]" using fresh_facts(2) [OF f] by blast
  have root: "files s (get_root_dir d) = Some Dir" using fresh_facts(4) [OF f, of 4] by simp
  show "files s1 (get_root_dir d) = Some Dir" "files s1 (get_root_dir d @ [''dev'']) = Some Dir"
    using root fresh_facts(5) [OF f] by (simp_all add: files with_dirs_def path)
  show "files s1 path = files s path"
    using fresh_facts(3) [OF f] by (auto simp: files with_dirs_def path get_root_dir_def)
  show "files s1 q = files s q" if "take 1 q = [''sys'']"
    using that by (cases q) (auto simp: files with_dirs_def path below_def butlast_append get_root_dir_def)
qed

lemma second_attach:
  assumes f: "fresh_domain s device d path m r" and sys: "reads_sys s device" and h: "helpful ev d path"
    and s1: "fs_mounts s1 = fs_mounts s"
      "files s1 = (with_dirs (butlast (get_root_dir d @ path)) (files s))(get_root_dir d @ path \<mapsto> n)"
  obtains s2 where "attach ev device d pid False s1 = (Inr (), s2)" "lookup s2 (get_root_dir d @ path) = Some n"
proof -
  note at1 = cloned_lookup [OF f s1(2)]
  obtain u g where dev: "files s1 path = Some (Node m r u g [])" using at1(3) fresh_facts(3) [OF f] by auto
  have free: "free path s1" using fresh_facts(9) [OF f] s1(1) by (simp add: free_def)
  obtain s2 where s2: "\<forall>ev. open_for_writing ev path s1 = (Inr (), s2)" "files s2 = files s1" "fs_mounts s2 = fs_mounts s1"
    using dev free by (rule open_device)
  have free2: "free (get_root_dir d @ x) s2" for x using free_root [OF f, of x] s1(1) s2(3) by (simp add: free_def)
  have dirs: "isdir s2 (get_root_dir d)" "isdir s2 (get_root_dir d @ [''dev''])"
    using at1(1,2) s2(2) free2 [of "[]"] free2 [of "[''dev'']"] by (simp_all add: isdir_def lookup_free)
  have "exists s2 (get_root_dir d @ path)" using s1(2) s2(2) by (simp add: exists_def lookup_free [OF free2])
  then have c: "clone_device ev path (get_root_dir d) d s2 = (Inr (), s2)"
    by (simp add: clone_device_def Let_def bnd_def gets_def ret_def)
  have "dev_path device s1 = (Inr path, s1)"
    using dev_path_cong [OF sys s1(1)] at1(4) fresh_facts(1) [OF f] by blast
  from attach_eq [OF this s2(1) [rule_format] dirs] c
  have a: "attach ev device d pid False s1 = attach_rest ev d pid s2" by (simp add: seq_Inr)
  have "fs_mounts s2 = fs_mounts s" using s1 s2 by simp
  from rest_fresh [OF f h this s2(2) [unfolded s1(2)], of "[''proc'', int_text pid]"]
  obtain s3 where "attach_rest ev d pid s2 = (Inr (), s3)"
    "fs_mounts s3 = (self_target d, [''proc'', int_text pid]) # (sys_target d, [''sys'']) # fs_mounts s"
    "files s3 = attached_files d path n (files s)" unfolding attach_rest_def by metis
  with a attached_lookup(1) [OF f, of s3] show ?thesis using that by simp
qed

section \<open>The properties\<close>

text \<open>
  C33: The first attachment of a domain succeeds when nothing fails: its chroot
  directory has a file with the mode of the device, less the umask, its number,
  and the owner and group of the domain, its \<^verbatim>\<open>/sys\<close> and \<^verbatim>\<open>/proc/self\<close> show those of
  the host and of QEMU, and no file outside of it changes.
\<close>

lemma attach_gives_device:
  assumes "fresh_domain s device d path m r" "helpful ev d path" "\<not> chown_fails ev (get_root_dir d @ path)"
    "attach ev device d pid False s = (res, s')"
  shows "res = Inr () \<and> lookup s' (get_root_dir d @ path) = Some (owned_copy ev d m r) \<and>
    (\<forall>x. lookup s' (sys_target d @ x) = files s (''sys'' # x)) \<and>
    (\<forall>x. lookup s' (self_target d @ x) = files s (''proc'' # int_text pid # x)) \<and>
    (\<forall>q. \<not> below (get_root_dir d) q \<longrightarrow> files s' q = files s q)"
proof -
  obtain s1 where s1: "attach ev device d pid False s = (Inr (), s1)"
    "fs_mounts s1 = (self_target d, [''proc'', int_text pid]) # (sys_target d, [''sys'']) # fs_mounts s"
    "files s1 = attached_files d path (owned_copy ev d m r) (files s)" by (rule attach_fresh [OF assms(1-3)])
  have out: "files s1 q = files s q" if "\<not> below (get_root_dir d) q" for q
    using attached_dirs(4) [OF assms(1) s1(3)] that .
  from attached_lookup [OF assms(1) s1(2,3)] out show ?thesis
    using assms(4) s1(1) by (auto simp: below_def get_root_dir_def)
qed

text \<open>
  C34: Cleaning up after the first attachment succeeds when nothing is busy; the
  mounts are those of before, and so are the files, but for the directory
  \<^verbatim>\<open>sys\<close> of the domain, which stays.
\<close>

lemma cleanup_undoes_attach:
  assumes "fresh_domain s device d path m r" "helpful ev d path" "\<not> chown_fails ev (get_root_dir d @ path)"
    "files s [''sys'', ''devices''] = Some Dir" "\<not> umount_fails ev (sys_target d)" "\<not> umount_fails ev (self_target d)"
    "attach ev device d pid False s = (res, s1)" "cleanup ev d s1 = (res', s2)"
  shows "res' = Inr () \<and> fs_mounts s2 = fs_mounts s \<and> files s2 = (files s)(sys_target d \<mapsto> Dir)"
proof -
  have s1: "fs_mounts s1 = (self_target d, [''proc'', int_text pid]) # (sys_target d, [''sys'']) # fs_mounts s"
    "files s1 = attached_files d path (owned_copy ev d m r) (files s)"
    using attach_fresh [OF assms(1-3), of pid] assms(7) by auto
  from cleanup_attached [OF assms(1,4,5,6) s1] assms(8) show ?thesis by auto
qed

text \<open>
  When the owner of the copied device cannot be set, the attachment exits
  with an error but leaves the copy; the next attachment finds it, succeeds,
  and QEMU has a device file that still belongs to the superuser.
\<close>

lemma retry_keeps_wrong_owner:
  assumes "fresh_domain s device d path m r" "reads_sys s device" "helpful ev d path" "chown_fails ev (get_root_dir d @ path)"
    "helpful ev' d path" "attach ev device d pid False s = (res, s1)" "attach ev' device d pid' False s1 = (res', s2)"
  shows "res = Inl Reset_SysExit \<and> res' = Inr () \<and>
    lookup s2 (get_root_dir d @ path) = Some (Node (m AND NOT (host_umask ev)) r 0 0 [])"
proof -
  have s1: "res = Inl Reset_SysExit" "fs_mounts s1 = fs_mounts s"
    "files s1 = (with_dirs (butlast (get_root_dir d @ path)) (files s))(get_root_dir d @ path \<mapsto> copy_of ev d path m r)"
    using failed_attach [OF assms(1,3,4), of pid] assms(6) by auto
  from second_attach [OF assms(1,2,5) s1(2,3), of pid'] assms(4,7) s1(1) show ?thesis
    by (auto simp: copy_of_def)
qed

section \<open>A host\<close>

text \<open>A device and the chroot directory of domain 12, whose QEMU is process 7.\<close>

definition demo_usb_host :: "path list \<Rightarrow> usb_host" where
  "demo_usb_host bad = \<lparr>qemu_uid = Some 1000, qemu_gid = Some 1000, host_umask = 18, open_fails = (\<lambda>p. False),
     chown_fails = (\<lambda>p. p \<in> set bad), mount_fails = (\<lambda>p. False), umount_fails = (\<lambda>p. False), rmtree_leaves = (\<lambda>p. False)\<rparr>"

definition demo_path :: path where
  "demo_path = [''dev'', ''bus'', ''usb'', ''001'', ''002'']"

definition demo_fs :: usb_fs where
  "demo_fs = \<lparr>fs_nodes = [([''sys'', ''devices''], Dir), ([''proc'', ''7'', ''fd''], Dir),
      ([''sys'', ''bus'', ''usb'', ''devices'', ''1-2'', ''busnum''], Node 0 0 0 0 ''1''),
      ([''sys'', ''bus'', ''usb'', ''devices'', ''1-2'', ''devnum''], Node 0 0 0 0 ''2''),
      (demo_path, Node 8630 100 0 0 []), ([''var''], Dir), ([''var'', ''xen''], Dir), ([''var'', ''xen'', ''qemu''], Dir),
      (get_root_dir 12, Dir), (get_root_dir 12 @ [''dev''], Dir)],
     fs_mounts = []\<rparr>"

lemma demo_fresh: "fresh_domain demo_fs ''1-2'' 12 demo_path 8630 100"
  by code_simp

lemma demo_helpful: "helpful (demo_usb_host bad) d p"
  by (simp add: helpful_def demo_usb_host_def)

lemma demo_mounts_ok: "mounts_ok {7} demo_fs"
proof -
  have "files demo_fs [''sys'', ''devices''] = Some Dir" "files demo_fs [''proc'', int_text 7, ''fd''] = Some Dir"
    by code_simp+
  then show ?thesis by (simp add: mounts_ok_def demo_fs_def files_def)
qed

lemma demo_sys: "files demo_fs [''sys'', ''devices''] = Some Dir" "reads_sys demo_fs ''1-2''"
  by code_simp+

lemma mounted_once_witness:
  "distinct (map fst (fs_mounts (fold (\<lambda>c s. snd (run_command (demo_usb_host []) c s))
     [Attach ''1-2'' 12 7 False, Attach ''1-2'' 12 7 False] demo_fs)))"
  by (rule mounted_once [OF demo_mounts_ok _ refl, THEN conjunct1]) (simp add: live_def)

lemma attach_gives_device_witness:
  "\<exists>s'. attach (demo_usb_host []) ''1-2'' 12 7 False demo_fs = (Inr (), s') \<and>
     lookup s' (get_root_dir 12 @ demo_path) = Some (owned_copy (demo_usb_host []) 12 8630 100)"
proof -
  obtain res s' where a: "attach (demo_usb_host []) ''1-2'' 12 7 False demo_fs = (res, s')" by fastforce
  from attach_gives_device [OF demo_fresh demo_helpful _ a] a show ?thesis by (simp add: demo_usb_host_def)
qed

lemma cleanup_undoes_attach_witness:
  "\<exists>s1 s2. attach (demo_usb_host []) ''1-2'' 12 7 False demo_fs = (Inr (), s1) \<and>
     cleanup (demo_usb_host []) 12 s1 = (Inr (), s2) \<and> fs_mounts s2 = []"
proof -
  obtain res s1 where a: "attach (demo_usb_host []) ''1-2'' 12 7 False demo_fs = (res, s1)" by fastforce
  obtain res' s2 where c: "cleanup (demo_usb_host []) 12 s1 = (res', s2)" by fastforce
  have "\<not> chown_fails (demo_usb_host []) (get_root_dir 12 @ demo_path)" by (simp add: demo_usb_host_def)
  then have "res = Inr ()" using attach_fresh [OF demo_fresh demo_helpful, of "[]" 7] a by auto
  moreover have "res' = Inr () \<and> fs_mounts s2 = fs_mounts demo_fs \<and> files s2 = (files demo_fs)(sys_target 12 \<mapsto> Dir)"
    by (rule cleanup_undoes_attach [OF demo_fresh demo_helpful _ demo_sys(1) _ _ a c]) (simp_all add: demo_usb_host_def)
  ultimately show ?thesis using a c by (simp add: demo_fs_def)
qed

lemma retry_keeps_wrong_owner_witness:
  "\<exists>s1 s2. attach (demo_usb_host [get_root_dir 12 @ demo_path]) ''1-2'' 12 7 False demo_fs = (Inl Reset_SysExit, s1) \<and>
     attach (demo_usb_host []) ''1-2'' 12 7 False s1 = (Inr (), s2) \<and>
     (\<exists>m r. lookup s2 (get_root_dir 12 @ demo_path) = Some (Node m r 0 0 []))"
proof -
  let ?bad = "demo_usb_host [get_root_dir 12 @ demo_path]"
  obtain res s1 where a: "attach ?bad ''1-2'' 12 7 False demo_fs = (res, s1)" by fastforce
  obtain res' s2 where b: "attach (demo_usb_host []) ''1-2'' 12 7 False s1 = (res', s2)" by fastforce
  have "chown_fails ?bad (get_root_dir 12 @ demo_path)" by (simp add: demo_usb_host_def)
  from retry_keeps_wrong_owner [OF demo_fresh demo_sys(2) demo_helpful this demo_helpful a b] a b show ?thesis by auto
qed

end
