(* ===== verification/Nbd_Base.thy ===== *)
theory Nbd_Base
  imports Codec
begin

text \<open>
  The ground of the NBD client \<^verbatim>\<open>ocaml/vhd-tool/scripts/python_nbd_client.py\<close>: its
  constants and exceptions, the socket and \<^verbatim>\<open>_recvall\<close>, and the client object.
  The socket is the sequence of segments the peer delivers before the
  connection ends, how it ends, and the bytes sent so far; the client object
  is a record of the attributes of \<^verbatim>\<open>PythonNbdClient\<close>. The interface
  \<open>byte_source\<close> is what the read loop needs of \<^verbatim>\<open>recv_into\<close>.
\<close>

section \<open>Constants\<close>

definition NBD_CMD_READ :: int where "NBD_CMD_READ = 0"
definition NBD_CMD_WRITE :: int where "NBD_CMD_WRITE = 1"
definition NBD_CMD_DISC :: int where "NBD_CMD_DISC = 2"
definition NBD_CMD_FLUSH :: int where "NBD_CMD_FLUSH = 3"
definition NBD_CMD_BLOCK_STATUS :: int where "NBD_CMD_BLOCK_STATUS = 7"

definition NBD_FLAG_HAS_FLAGS :: int where "NBD_FLAG_HAS_FLAGS = push_bit 0 1"
definition NBD_FLAG_SEND_FLUSH :: int where "NBD_FLAG_SEND_FLUSH = push_bit 2 1"
definition NBD_FLAG_C_FIXED_NEWSTYLE :: int where "NBD_FLAG_C_FIXED_NEWSTYLE = push_bit 0 1"

definition NBD_OPT_EXPORT_NAME :: int where "NBD_OPT_EXPORT_NAME = 1"
definition NBD_OPT_ABORT :: int where "NBD_OPT_ABORT = 2"
definition NBD_OPT_STARTTLS :: int where "NBD_OPT_STARTTLS = 5"
definition NBD_OPT_INFO :: int where "NBD_OPT_INFO = 6"
definition NBD_OPT_STRUCTURED_REPLY :: int where "NBD_OPT_STRUCTURED_REPLY = 8"
definition NBD_OPT_LIST_META_CONTEXT :: int where "NBD_OPT_LIST_META_CONTEXT = 9"
definition NBD_OPT_SET_META_CONTEXT :: int where "NBD_OPT_SET_META_CONTEXT = 10"

definition NBD_REP_ERROR_BIT :: int where "NBD_REP_ERROR_BIT = push_bit 31 1"
definition NBD_REP_ACK :: int where "NBD_REP_ACK = 1"
definition NBD_REP_INFO :: int where "NBD_REP_INFO = 3"
definition NBD_REP_META_CONTEXT :: int where "NBD_REP_META_CONTEXT = 4"

definition OPTION_REPLY_MAGIC :: int where "OPTION_REPLY_MAGIC = 0x3E889045565A9"
definition NBD_REQUEST_MAGIC :: int where "NBD_REQUEST_MAGIC = 0x25609513"
definition NBD_SIMPLE_REPLY_MAGIC :: int where "NBD_SIMPLE_REPLY_MAGIC = 0x67446698"
definition NBD_STRUCTURED_REPLY_MAGIC :: int where "NBD_STRUCTURED_REPLY_MAGIC = 0x668E33EF"

definition NBD_REPLY_TYPE_NONE :: int where "NBD_REPLY_TYPE_NONE = 0"
definition NBD_REPLY_TYPE_OFFSET_DATA :: int where "NBD_REPLY_TYPE_OFFSET_DATA = 1"
definition NBD_REPLY_TYPE_OFFSET_HOLE :: int where "NBD_REPLY_TYPE_OFFSET_HOLE = 2"
definition NBD_REPLY_TYPE_BLOCK_STATUS :: int where "NBD_REPLY_TYPE_BLOCK_STATUS = 5"
definition NBD_REPLY_TYPE_ERROR_BIT :: int where "NBD_REPLY_TYPE_ERROR_BIT = push_bit 15 1"

text \<open>In Python \<^verbatim>\<open>+\<close> binds tighter than \<^verbatim>\<open><<\<close>: these two are shifts by 16 and 17.\<close>

definition NBD_REPLY_TYPE_ERROR :: int where "NBD_REPLY_TYPE_ERROR = push_bit (15 + 1) 1"
definition NBD_REPLY_TYPE_ERROR_OFFSET :: int where
  "NBD_REPLY_TYPE_ERROR_OFFSET = push_bit (15 + 2) 1"

definition NBD_REPLY_FLAG_DONE :: int where "NBD_REPLY_FLAG_DONE = push_bit 0 1"

definition NBD_INFO_EXPORT :: int where "NBD_INFO_EXPORT = 0"
definition NBD_INFO_BLOCK_SIZE :: int where "NBD_INFO_BLOCK_SIZE = 3"

named_theorems nbd_consts \<open>values of the protocol constants\<close>

lemmas [nbd_consts] =
  NBD_CMD_READ_def NBD_CMD_WRITE_def NBD_CMD_DISC_def NBD_CMD_FLUSH_def NBD_CMD_BLOCK_STATUS_def
  NBD_FLAG_HAS_FLAGS_def NBD_FLAG_SEND_FLUSH_def NBD_FLAG_C_FIXED_NEWSTYLE_def
  NBD_OPT_EXPORT_NAME_def NBD_OPT_ABORT_def NBD_OPT_STARTTLS_def NBD_OPT_INFO_def
  NBD_OPT_STRUCTURED_REPLY_def NBD_OPT_LIST_META_CONTEXT_def NBD_OPT_SET_META_CONTEXT_def
  NBD_REP_ERROR_BIT_def NBD_REP_ACK_def NBD_REP_INFO_def NBD_REP_META_CONTEXT_def
  OPTION_REPLY_MAGIC_def NBD_REQUEST_MAGIC_def NBD_SIMPLE_REPLY_MAGIC_def
  NBD_STRUCTURED_REPLY_MAGIC_def
  NBD_REPLY_TYPE_NONE_def NBD_REPLY_TYPE_OFFSET_DATA_def NBD_REPLY_TYPE_OFFSET_HOLE_def
  NBD_REPLY_TYPE_BLOCK_STATUS_def NBD_REPLY_TYPE_ERROR_BIT_def NBD_REPLY_TYPE_ERROR_def
  NBD_REPLY_TYPE_ERROR_OFFSET_def NBD_REPLY_FLAG_DONE_def NBD_INFO_EXPORT_def
  NBD_INFO_BLOCK_SIZE_def

section \<open>Exceptions\<close>

text \<open>
  The exceptions of the module, then those of the library it lets through:
  \<^verbatim>\<open>struct.error\<close>, \<^verbatim>\<open>socket.timeout\<close>, \<^verbatim>\<open>ValueError\<close>, \<^verbatim>\<open>UnicodeError\<close>, \<^verbatim>\<open>AttributeError\<close>
  (an attribute read before it is set), \<^verbatim>\<open>KeyError\<close>, \<^verbatim>\<open>ssl.SSLError\<close>, and a plain \<^verbatim>\<open>Exception\<close>.
\<close>

datatype nbd_error =
    NBDEOFError
  | NBDTransmissionError int
  | NBDOptionError int
  | NBDUnexpectedOptionResponseError "int option" int
  | NBDUnexpectedStructuredReplyType int
  | NBDUnexpectedReplyHandleError int int
  | NBDProtocolError
  | StructError
  | SocketTimeout
  | ValueError
  | UnicodeError
  | AttributeError
  | KeyError
  | SSLError
  | OtherException

section \<open>The socket\<close>

datatype rx_end = Peer_Closed | Timed_Out

record sock =
  rx :: "bytes list"
  rx_end :: rx_end
  tx :: bytes

definition stream :: "sock \<Rightarrow> bytes" where
  "stream k = concat (rx k)"

text \<open>One \<^verbatim>\<open>recv_into\<close>: some prefix of the next segment, at most \<open>n\<close> bytes.\<close>

fun recv_segs :: "nat \<Rightarrow> bytes list \<Rightarrow> bytes \<times> bytes list" where
  "recv_segs n [] = ([], [])"
| "recv_segs n (seg # segs) =
     (if seg = [] then recv_segs n segs else (take n seg, drop n seg # segs))"

definition recv_into :: "nat \<Rightarrow> (sock, nbd_error, bytes) st" where
  "recv_into n k =
     (case recv_segs n (rx k) of
        (got, segs) \<Rightarrow>
          if got = [] \<and> n \<noteq> 0 \<and> rx_end k = Timed_Out then (Inl SocketTimeout, k\<lparr>rx := segs\<rparr>)
          else (Inr got, k\<lparr>rx := segs\<rparr>))"

text \<open>
  \<^verbatim>\<open>sendall\<close> hands all bytes to the system: that it times out or finds the
  connection broken is not modelled; a peer that went away shows at the next
  read.
\<close>

definition sock_sendall :: "bytes \<Rightarrow> (sock, nbd_error, unit) st" where
  "sock_sendall b = modify (\<lambda>k. k\<lparr>tx := tx k @ b\<rparr>)"

text \<open>
  The loop of \<^verbatim>\<open>_recvall\<close>, over any \<^verbatim>\<open>recv_into\<close>: \<open>left\<close> is \<^verbatim>\<open>bytes_left\<close>, \<open>data\<close>
  the part of the buffer already filled.
\<close>

function recvall_loop ::
  "(nat \<Rightarrow> ('s, 'e, bytes) st) \<Rightarrow> 'e \<Rightarrow> nat \<Rightarrow> bytes \<Rightarrow> ('s, 'e, bytes) st" where
  "recvall_loop recv eof left data s =
     (if left = 0 then (Inr data, s)
      else case recv left s of
             (Inl e, s') \<Rightarrow> (Inl e, s')
           | (Inr got, s') \<Rightarrow>
               if got = [] then (Inl eof, s')
               else recvall_loop recv eof (left - length got) (data @ got) s')"
  by pat_completeness auto
termination
  by (relation "measure (\<lambda>(_, _, left, _, _). left)") auto

declare recvall_loop.simps [simp del]

text \<open>
  What the client relies on of a byte source: a read returns a prefix of what
  is pending, at least one byte unless nothing is, and changes nothing else
  (\<open>rest\<close> is the remaining state).
\<close>

locale byte_source =
  fixes recv :: "nat \<Rightarrow> ('s, 'e, bytes) st"
    and pending :: "'s \<Rightarrow> bytes"
    and rest :: "'s \<Rightarrow> 'r"
    and at_end :: "'r \<Rightarrow> 'e + bytes"
  assumes recv_some: "0 < n \<Longrightarrow> pending s \<noteq> [] \<Longrightarrow>
      \<exists>got s'. recv n s = (Inr got, s') \<and> got \<noteq> [] \<and> length got \<le> n
        \<and> pending s = got @ pending s' \<and> rest s' = rest s"
    and recv_none: "0 < n \<Longrightarrow> pending s = [] \<Longrightarrow>
      \<exists>s'. recv n s = (at_end (rest s), s') \<and> pending s' = [] \<and> rest s' = rest s"
    and at_end_empty: "at_end r = Inr got \<Longrightarrow> got = []"
begin

lemma recvall_enough:
  assumes "n \<le> length (pending s)"
  shows "\<exists>s'. recvall_loop recv eof n data s = (Inr (data @ take n (pending s)), s')
           \<and> pending s' = drop n (pending s) \<and> rest s' = rest s"
  using assms
proof (induction n arbitrary: data s rule: less_induct)
  case (less n)
  show ?case
  proof (cases "n = 0")
    case True
    then show ?thesis by (simp add: recvall_loop.simps)
  next
    case False
    with less.prems have "pending s \<noteq> []" by auto
    with False obtain got s' where
      r: "recv n s = (Inr got, s')" "got \<noteq> []" "length got \<le> n"
        "pending s = got @ pending s'" "rest s' = rest s"
      using recv_some by blast
    have "n - length got < n" "n - length got \<le> length (pending s')"
      using False r less.prems by auto
    from less.IH [OF this, of "data @ got"] show ?thesis
      using False r by (auto simp: recvall_loop.simps [of _ _ n])
  qed
qed

lemma recvall_short:
  assumes "length (pending s) < n"
  shows "\<exists>s'. recvall_loop recv eof n data s
               = (Inl (case at_end (rest s) of Inl e \<Rightarrow> e | Inr _ \<Rightarrow> eof), s')
           \<and> pending s' = [] \<and> rest s' = rest s"
  using assms
proof (induction n arbitrary: data s rule: less_induct)
  case (less n)
  then have n: "0 < n" by simp
  show ?case
  proof (cases "pending s = []")
    case True
    from recv_none [OF n True] obtain s' where
      s': "recv n s = (at_end (rest s), s')" "pending s' = []" "rest s' = rest s" by blast
    with n show ?thesis
      by (auto simp: recvall_loop.simps [of _ _ n] dest: at_end_empty split: sum.splits)
  next
    case False
    from recv_some [OF n False] obtain got s' where
      r: "recv n s = (Inr got, s')" "got \<noteq> []" "length got \<le> n"
        "pending s = got @ pending s'" "rest s' = rest s"
      by blast
    have "n - length got < n" "length (pending s') < n - length got"
      using n r less.prems by auto
    from less.IH [OF this, of "data @ got"] show ?thesis
      using n r by (auto simp: recvall_loop.simps [of _ _ n])
  qed
qed

end

definition sock_rest :: "sock \<Rightarrow> rx_end \<times> bytes" where
  "sock_rest k = (rx_end k, tx k)"

definition sock_at_end :: "rx_end \<times> bytes \<Rightarrow> nbd_error + bytes" where
  "sock_at_end r = (case fst r of Peer_Closed \<Rightarrow> Inr [] | Timed_Out \<Rightarrow> Inl SocketTimeout)"

lemma recv_segs_some:
  assumes "0 < n" "concat segs \<noteq> []"
  shows "\<exists>got segs'. recv_segs n segs = (got, segs') \<and> got \<noteq> [] \<and> length got \<le> n
           \<and> concat segs = got @ concat segs'"
  using assms by (induction n segs rule: recv_segs.induct) auto

lemma recv_segs_none: "concat segs = [] \<Longrightarrow> recv_segs n segs = ([], [])"
  by (induction n segs rule: recv_segs.induct) auto

interpretation sk: byte_source recv_into stream sock_rest sock_at_end
proof
  fix n :: nat and k :: sock
  assume n: "0 < n" "stream k \<noteq> []"
  from recv_segs_some [OF n [unfolded stream_def]] show
    "\<exists>got s'. recv_into n k = (Inr got, s') \<and> got \<noteq> [] \<and> length got \<le> n
       \<and> stream k = got @ stream s' \<and> sock_rest s' = sock_rest k"
    by (auto simp: recv_into_def stream_def sock_rest_def)
next
  fix n :: nat and k :: sock
  assume "0 < n" "stream k = []"
  then show "\<exists>s'. recv_into n k = (sock_at_end (sock_rest k), s') \<and> stream s' = []
      \<and> sock_rest s' = sock_rest k"
    by (cases "rx_end k")
      (auto simp: recv_into_def stream_def recv_segs_none sock_at_end_def sock_rest_def)
next
  fix r got assume "sock_at_end r = Inr got"
  then show "got = []" by (auto simp: sock_at_end_def split: rx_end.splits)
qed

section \<open>The client object\<close>

record nbd_client =
  c_sock :: sock
  c_flushed :: bool
  c_closed :: bool
  c_handle :: int
  c_last_sent_option :: "int option"
  c_structured_reply :: bool
  c_transmission_phase :: bool
  c_size :: "int option"
  c_transmission_flags :: "int option"

type_synonym 'a nbd_op = "(nbd_client, nbd_error, 'a) st"

definition on_sock :: "(sock, nbd_error, 'a) st \<Rightarrow> 'a nbd_op" where
  "on_sock m c = (case m (c_sock c) of (r, k) \<Rightarrow> (r, c\<lparr>c_sock := k\<rparr>))"

definition recvall :: "nat \<Rightarrow> bytes nbd_op" where
  "recvall n = on_sock (recvall_loop recv_into NBDEOFError n [])"

definition sendall :: "bytes \<Rightarrow> unit nbd_op" where
  "sendall b = on_sock (sock_sendall b)"

definition input :: "nbd_client \<Rightarrow> bytes" where
  "input c = stream (c_sock c)"

definition sent :: "nbd_client \<Rightarrow> bytes" where
  "sent c = tx (c_sock c)"

definition end_error :: "nbd_client \<Rightarrow> nbd_error" where
  "end_error c = (case rx_end (c_sock c) of Peer_Closed \<Rightarrow> NBDEOFError | Timed_Out \<Rightarrow> SocketTimeout)"

subsection \<open>Segments do not matter\<close>

text \<open>
  \<open>with_io c i out\<close> is the client \<open>c\<close> with pending input \<open>i\<close> in one segment and
  \<open>out\<close> sent; \<open>flat c\<close> is \<open>c\<close> with its input in one segment. A method is
  \<open>seg_indep\<close> when it cannot tell \<open>c\<close> from \<open>flat c\<close>, and then \<open>exec\<close>, the method
  followed by \<open>flat\<close>, composes: the proofs compute with \<open>exec\<close> on flat clients.
\<close>

definition with_io :: "nbd_client \<Rightarrow> bytes \<Rightarrow> bytes \<Rightarrow> nbd_client" where
  "with_io c i out = c\<lparr>c_sock := \<lparr>rx = [i], rx_end = rx_end (c_sock c), tx = out\<rparr>\<rparr>"

definition flat :: "nbd_client \<Rightarrow> nbd_client" where
  "flat c = with_io c (input c) (sent c)"

definition exec :: "'a nbd_op \<Rightarrow> 'a nbd_op" where
  "exec m c = (case m c of (r, c') \<Rightarrow> (r, flat c'))"

definition seg_indep :: "'a nbd_op \<Rightarrow> bool" where
  "seg_indep m \<longleftrightarrow> (\<forall>c. exec m c = exec m (flat c))"

named_theorems seg_intros \<open>closure rules of seg_indep\<close>
named_theorems exec_simps \<open>methods run on flat clients\<close>

lemma with_io_sel [simp]:
  "input (with_io c i out) = i" "sent (with_io c i out) = out"
  "end_error (with_io c i out) = end_error c"
  "c_flushed (with_io c i out) = c_flushed c" "c_closed (with_io c i out) = c_closed c"
  "c_handle (with_io c i out) = c_handle c"
  "c_last_sent_option (with_io c i out) = c_last_sent_option c"
  "c_structured_reply (with_io c i out) = c_structured_reply c"
  "c_transmission_phase (with_io c i out) = c_transmission_phase c"
  "c_size (with_io c i out) = c_size c"
  "c_transmission_flags (with_io c i out) = c_transmission_flags c"
  "rx_end (c_sock (with_io c i out)) = rx_end (c_sock c)"
  by (simp_all add: with_io_def input_def sent_def stream_def end_error_def)

lemma input_upd [simp]:
  "input (c\<lparr>c_flushed := b\<rparr>) = input c" "input (c\<lparr>c_closed := b\<rparr>) = input c"
  "input (c\<lparr>c_handle := h\<rparr>) = input c" "input (c\<lparr>c_last_sent_option := p\<rparr>) = input c"
  "input (c\<lparr>c_structured_reply := b\<rparr>) = input c"
  "input (c\<lparr>c_transmission_phase := b\<rparr>) = input c"
  "input (c\<lparr>c_size := z\<rparr>) = input c" "input (c\<lparr>c_transmission_flags := z\<rparr>) = input c"
  by (simp_all add: input_def)

lemma sent_upd [simp]:
  "sent (c\<lparr>c_flushed := b\<rparr>) = sent c" "sent (c\<lparr>c_closed := b\<rparr>) = sent c"
  "sent (c\<lparr>c_handle := h\<rparr>) = sent c" "sent (c\<lparr>c_last_sent_option := p\<rparr>) = sent c"
  "sent (c\<lparr>c_structured_reply := b\<rparr>) = sent c"
  "sent (c\<lparr>c_transmission_phase := b\<rparr>) = sent c"
  "sent (c\<lparr>c_size := z\<rparr>) = sent c" "sent (c\<lparr>c_transmission_flags := z\<rparr>) = sent c"
  by (simp_all add: sent_def)

lemma with_io_upd [simp]:
  "(with_io c i out)\<lparr>c_flushed := b\<rparr> = with_io (c\<lparr>c_flushed := b\<rparr>) i out"
  "(with_io c i out)\<lparr>c_closed := b\<rparr> = with_io (c\<lparr>c_closed := b\<rparr>) i out"
  "(with_io c i out)\<lparr>c_handle := h\<rparr> = with_io (c\<lparr>c_handle := h\<rparr>) i out"
  "(with_io c i out)\<lparr>c_last_sent_option := p\<rparr> = with_io (c\<lparr>c_last_sent_option := p\<rparr>) i out"
  "(with_io c i out)\<lparr>c_structured_reply := b\<rparr> = with_io (c\<lparr>c_structured_reply := b\<rparr>) i out"
  "(with_io c i out)\<lparr>c_transmission_phase := b\<rparr> = with_io (c\<lparr>c_transmission_phase := b\<rparr>) i out"
  "(with_io c i out)\<lparr>c_size := z\<rparr> = with_io (c\<lparr>c_size := z\<rparr>) i out"
  "(with_io c i out)\<lparr>c_transmission_flags := z\<rparr> = with_io (c\<lparr>c_transmission_flags := z\<rparr>) i out"
  by (simp_all add: with_io_def)

lemma with_io_with_io [simp]: "with_io (with_io c i out) i' out' = with_io c i' out'"
  by (simp add: with_io_def)

lemma flat_with_io [simp]: "flat (with_io c i out) = with_io c i out"
  by (simp add: flat_def)

lemma with_io_flat [simp]: "with_io (flat c) i out = with_io c i out"
  by (simp add: flat_def)

lemma flat_flat [simp]: "flat (flat c) = flat c"
  by (simp add: flat_def)

lemma flat_sel [simp]:
  "input (flat c) = input c" "sent (flat c) = sent c" "end_error (flat c) = end_error c"
  "c_flushed (flat c) = c_flushed c" "c_closed (flat c) = c_closed c"
  "c_handle (flat c) = c_handle c" "c_last_sent_option (flat c) = c_last_sent_option c"
  "c_structured_reply (flat c) = c_structured_reply c"
  "c_transmission_phase (flat c) = c_transmission_phase c"
  "c_size (flat c) = c_size c" "c_transmission_flags (flat c) = c_transmission_flags c"
  by (simp_all add: flat_def)

lemma flat_upd [simp]:
  "flat (c\<lparr>c_flushed := b\<rparr>) = (flat c)\<lparr>c_flushed := b\<rparr>"
  "flat (c\<lparr>c_closed := b\<rparr>) = (flat c)\<lparr>c_closed := b\<rparr>"
  "flat (c\<lparr>c_handle := h\<rparr>) = (flat c)\<lparr>c_handle := h\<rparr>"
  "flat (c\<lparr>c_last_sent_option := p\<rparr>) = (flat c)\<lparr>c_last_sent_option := p\<rparr>"
  "flat (c\<lparr>c_structured_reply := b\<rparr>) = (flat c)\<lparr>c_structured_reply := b\<rparr>"
  "flat (c\<lparr>c_transmission_phase := b\<rparr>) = (flat c)\<lparr>c_transmission_phase := b\<rparr>"
  "flat (c\<lparr>c_size := z\<rparr>) = (flat c)\<lparr>c_size := z\<rparr>"
  "flat (c\<lparr>c_transmission_flags := z\<rparr>) = (flat c)\<lparr>c_transmission_flags := z\<rparr>"
  by (simp_all add: flat_def)

lemma fst_exec: "fst (exec m c) = fst (m c)"
  by (simp add: exec_def split: prod.split)

lemma snd_exec: "snd (exec m c) = flat (snd (m c))"
  by (simp add: exec_def split: prod.split)

lemma seg_indepD: "seg_indep m \<Longrightarrow> exec m (flat c) = exec m c"
  by (simp add: seg_indep_def)

lemma exec_bnd:
  assumes "\<And>x. seg_indep (f x)"
  shows "exec (bnd m f) c =
    (case exec m c of (Inl e, d) \<Rightarrow> (Inl e, d) | (Inr x, d) \<Rightarrow> exec (f x) d)"
proof (cases "m c")
  case (Pair r c')
  then show ?thesis
    by (cases r) (simp_all add: exec_def [of m] bnd_def exec_def [of "bnd m f"]
        seg_indepD [OF assms], simp add: exec_def)
qed

lemma exec_basic [exec_simps]:
  "exec (ret x) c = (Inr x, flat c)" "exec (throw e) c = (Inl e, flat c)"
  "exec (gets g) c = (Inr (g c), flat c)" "exec (modify h) c = (Inr (), flat (h c))"
  "exec (lift_sum r) c = (r, flat c)"
  "exec (require b e) c = ((if b then Inr () else Inl e), flat c)"
  by (simp_all add: exec_def st_simps)

lemma exec_recvall [exec_simps]:
  "exec (recvall n) c =
     (if n \<le> length (input c)
      then (Inr (take n (input c)), with_io c (drop n (input c)) (sent c))
      else (Inl (end_error c), with_io c [] (sent c)))"
proof (cases "n \<le> length (input c)")
  case True
  then have "n \<le> length (stream (c_sock c))" by (simp add: input_def)
  from sk.recvall_enough [OF this, of NBDEOFError "[]"] obtain k where
    "recvall_loop recv_into NBDEOFError n [] (c_sock c) = (Inr (take n (stream (c_sock c))), k)"
    "stream k = drop n (stream (c_sock c))" "sock_rest k = sock_rest (c_sock c)" by auto
  with True show ?thesis
    by (simp add: exec_def recvall_def on_sock_def flat_def with_io_def input_def sent_def
        sock_rest_def)
next
  case False
  then have "length (stream (c_sock c)) < n" by (simp add: input_def)
  from sk.recvall_short [OF this, of NBDEOFError "[]"] obtain k where
    "recvall_loop recv_into NBDEOFError n [] (c_sock c) = (Inl (end_error c), k)"
    "stream k = []" "sock_rest k = sock_rest (c_sock c)"
    by (cases "rx_end (c_sock c)")
      (auto simp: sock_at_end_def sock_rest_def end_error_def)
  with False show ?thesis
    by (simp add: exec_def recvall_def on_sock_def flat_def with_io_def input_def sent_def
        sock_rest_def)
qed

lemma exec_sendall [exec_simps]:
  "exec (sendall b) c = (Inr (), with_io c (input c) (sent c @ b))"
  by (simp add: exec_def sendall_def on_sock_def sock_sendall_def modify_def flat_def with_io_def
      input_def sent_def stream_def)

lemma seg_basic [seg_intros]:
  "seg_indep (ret x)" "seg_indep (throw e)" "seg_indep (lift_sum r)" "seg_indep (require b e)"
  "seg_indep (recvall n)" "seg_indep (sendall bs)"
  by (simp_all add: seg_indep_def exec_simps)

lemma seg_gets [seg_intros]:
  "seg_indep (gets c_flushed)" "seg_indep (gets c_closed)" "seg_indep (gets c_handle)"
  "seg_indep (gets c_last_sent_option)" "seg_indep (gets c_structured_reply)"
  "seg_indep (gets c_transmission_phase)" "seg_indep (gets c_size)"
  "seg_indep (gets c_transmission_flags)"
  by (simp_all add: seg_indep_def exec_simps)

lemma seg_modify: "(\<And>c. flat (h (flat c)) = flat (h c)) \<Longrightarrow> seg_indep (modify h)"
  by (simp add: seg_indep_def exec_simps)

lemma seg_bnd [seg_intros]: "seg_indep m \<Longrightarrow> (\<And>x. seg_indep (f x)) \<Longrightarrow> seg_indep (bnd m f)"
  by (simp add: seg_indep_def exec_bnd)

lemma seg_seq [seg_intros]: "seg_indep m \<Longrightarrow> seg_indep k \<Longrightarrow> seg_indep (seq m k)"
  by (simp add: seq_def seg_bnd)

lemma seg_if [seg_intros]: "seg_indep m \<Longrightarrow> seg_indep k \<Longrightarrow> seg_indep (if b then m else k)"
  by simp

lemma seg_case_prod [seg_intros]:
  "(\<And>a b. seg_indep (f a b)) \<Longrightarrow> seg_indep (case p of (a, b) \<Rightarrow> f a b)"
  by (cases p) simp

lemma seg_case_option [seg_intros]:
  "seg_indep m \<Longrightarrow> (\<And>x. seg_indep (f x)) \<Longrightarrow> seg_indep (case r of None \<Rightarrow> m | Some x \<Rightarrow> f x)"
  by (cases r) simp_all

lemma seg_Let [seg_intros]: "(\<And>x. seg_indep (f x)) \<Longrightarrow> seg_indep (let x = v in f x)"
  by (simp add: Let_def)

lemma exec_seq:
  assumes "seg_indep k"
  shows "exec (seq m k) c =
    (case exec m c of (Inl e, d) \<Rightarrow> (Inl e, d) | (Inr _, d) \<Rightarrow> exec k d)"
  using assms by (simp add: seq_def exec_bnd)

end
