(* ===== verification/Nbd_Client.thy ===== *)
theory Nbd_Client
  imports Nbd_Base
begin

text \<open>
  The methods of \<^verbatim>\<open>PythonNbdClient\<close> in \<^verbatim>\<open>python_nbd_client.py\<close>, in the order of
  the source: option haggling, the handshakes, the transmission phase. Each is
  a computation over the client record that returns or raises; logging calls
  have no counterpart. The TLS wrapper of the socket is an argument.
\<close>

section \<open>Helpers of the module\<close>

text \<open>
  \<^verbatim>\<open>assert_protocol\<close> compares with \<^verbatim>\<open>is False\<close>: an argument that is not a
  \<^verbatim>\<open>bool\<close> (a list, a byte array) is never refused.
\<close>

datatype py_truth = PyBool bool | PyObject

definition assert_protocol :: "py_truth \<Rightarrow> unit nbd_op" where
  "assert_protocol a = require (a \<noteq> PyBool False) NBDProtocolError"

definition check_alignment :: "int \<Rightarrow> unit nbd_op" where
  "check_alignment v = require (v mod 512 = 0) ValueError"

definition is_final_structured_reply_chunk :: "int \<Rightarrow> bool" where
  "is_final_structured_reply_chunk flags \<longleftrightarrow> flags AND NBD_REPLY_FLAG_DONE = NBD_REPLY_FLAG_DONE"

definition is_error_chunk :: "int \<Rightarrow> bool" where
  "is_error_chunk reply_type \<longleftrightarrow> reply_type AND NBD_REPLY_TYPE_ERROR_BIT \<noteq> 0"

fun parse_block_status_descriptors :: "bytes \<Rightarrow> nbd_error + (int \<times> int) list" where
  "parse_block_status_descriptors data =
     (if data = [] then Inr []
      else case unpack2 StructError 4 4 (take 8 data) of
             Inl e \<Rightarrow> Inl e
           | Inr d \<Rightarrow> map_sum id (\<lambda>ds. d # ds) (parse_block_status_descriptors (drop 8 data)))"

declare parse_block_status_descriptors.simps [simp del]

definition bytes_of :: "string \<Rightarrow> bytes" where
  "bytes_of s = map of_char s"

definition encode_utf8 :: "ustr \<Rightarrow> bytes nbd_op" where
  "encode_utf8 s = (case utf8_encode s of None \<Rightarrow> throw UnicodeError | Some b \<Rightarrow> ret b)"

definition decode_utf8 :: "bytes \<Rightarrow> ustr nbd_op" where
  "decode_utf8 b = (case utf8_decode b of None \<Rightarrow> throw UnicodeError | Some s \<Rightarrow> ret s)"

section \<open>Option haggling\<close>

definition send_option :: "int \<Rightarrow> bytes \<Rightarrow> unit nbd_op" where
  "send_option option data =
     seq (sendall (bytes_of ''IHAVEOPT''))
    (bnd (lift_sum (pack_fields StructError [(4, option), (4, int (length data))])) (\<lambda>header.
     seq (sendall (header @ data))
         (modify (\<lambda>c. c\<lparr>c_last_sent_option := Some option\<rparr>))))"

definition parse_option_reply :: "(int \<times> bytes) nbd_op" where
  "parse_option_reply =
     bnd (recvall (8 + 4 + 4 + 4)) (\<lambda>reply.
     bnd (lift_sum (unpack4 StructError 8 4 4 4 reply)) (\<lambda>(magic, option, reply_type, data_length).
     seq (assert_protocol (PyBool (magic = OPTION_REPLY_MAGIC)))
    (bnd (gets c_last_sent_option) (\<lambda>last.
     seq (require (last = Some option) (NBDUnexpectedOptionResponseError last option))
    (seq (require (reply_type AND NBD_REP_ERROR_BIT = 0) (NBDOptionError reply_type))
    (bnd (recvall (nat data_length)) (\<lambda>data.
     ret (reply_type, data))))))))"

definition parse_option_reply_ack :: "bytes nbd_op" where
  "parse_option_reply_ack =
     bnd parse_option_reply (\<lambda>(reply_type, data).
     seq (require (reply_type = NBD_REP_ACK) NBDProtocolError)
         (ret data))"

definition parse_meta_context_reply :: "(int \<times> ustr) option nbd_op" where
  "parse_meta_context_reply =
     bnd parse_option_reply (\<lambda>(reply_type, data).
     if reply_type = NBD_REP_ACK then ret None
     else
       seq (assert_protocol (PyBool (reply_type = NBD_REP_META_CONTEXT)))
      (bnd (lift_sum (unpack1 StructError 4 (take 4 data))) (\<lambda>context_id.
       bnd (decode_utf8 (drop 4 data)) (\<lambda>name.
       ret (Some (context_id, name))))))"

text \<open>
  \<^verbatim>\<open>_upgrade_socket_to_tls\<close> replaces the socket by the one \<^verbatim>\<open>SSLContext.wrap_socket\<close>
  returns; the argument \<open>wrap\<close> is that function with the certificate and the
  subject given, \<open>None\<close> when the TLS handshake fails.
\<close>

definition upgrade_socket_to_tls :: "(sock \<Rightarrow> sock option) \<Rightarrow> unit nbd_op" where
  "upgrade_socket_to_tls wrap c =
     (case wrap (c_sock c) of
        None \<Rightarrow> (Inl SSLError, c)
      | Some k \<Rightarrow> (Inr (), c\<lparr>c_sock := k\<rparr>))"

definition initiate_tls_upgrade :: "unit nbd_op" where
  "initiate_tls_upgrade =
     seq (send_option NBD_OPT_STARTTLS [])
    (bnd parse_option_reply_ack (\<lambda>data.
     assert_protocol (PyBool (length data = 0))))"

text \<open>The dictionaries \<^verbatim>\<open>request_info\<close> collects.\<close>

datatype nbd_info =
    Info_Block_Size int int int
  | Info_Export int int

definition parse_info :: "bytes \<Rightarrow> nbd_info option nbd_op" where
  "parse_info data =
     bnd (lift_sum (unpack1 StructError 2 (take 2 data))) (\<lambda>info_type.
     let payload = drop 2 data in
     if info_type = NBD_INFO_BLOCK_SIZE then
       seq (assert_protocol (PyBool (length data = 14)))
      (bnd (lift_sum (unpack3 StructError 4 4 4 payload)) (\<lambda>(mn, pref, mx).
       ret (Some (Info_Block_Size mn pref mx))))
     else if info_type = NBD_INFO_EXPORT then
       seq (assert_protocol (PyBool (length data = 12)))
      (bnd (lift_sum (unpack2 StructError 8 2 payload)) (\<lambda>(size, flags).
       ret (Some (Info_Export size flags))))
     else ret None)"

text \<open>
  The bound for the loops of the client: every reply read consumes input, and
  no method adds to the input.
\<close>

definition avail_le :: "nat \<Rightarrow> nbd_client \<Rightarrow> bool" where
  "avail_le n c \<longleftrightarrow> length (input c) \<le> n"

lemma input_recvall: "input (snd (recvall n c)) = drop n (input c)"
  using arg_cong [OF snd_exec [of "recvall n" c], of input]
  by (simp add: exec_simps split: if_splits)

lemma input_sendall [simp]: "input (snd (sendall b c)) = input c"
  using arg_cong [OF snd_exec [of "sendall b" c], of input] by (simp add: exec_simps)

lemma keeps_recvall [keeps_intros]: "keeps (avail_le n) (recvall k)"
  by (rule keepsI) (simp add: avail_le_def input_recvall)

lemma keeps_sendall [keeps_intros]: "keeps (avail_le n) (sendall b)"
  by (rule keepsI) (simp add: avail_le_def)

lemma keeps_assert_protocol [keeps_intros]: "keeps P (assert_protocol a)"
  by (simp add: assert_protocol_def keeps_require)

lemma keeps_decode_utf8 [keeps_intros]: "keeps P (decode_utf8 b)"
  by (simp add: decode_utf8_def keeps_ret keeps_throw split: option.split)

lemma recvall_Inr:
  assumes "recvall n c = (Inr d, c')"
  shows "n \<le> length (input c)" "d = take n (input c)" "input c' = drop n (input c)"
  using fst_exec [of "recvall n" c] input_recvall [of n c] assms
  by (auto simp: exec_simps split: if_splits)

lemma bnd_recvall_consumes:
  assumes "bnd (recvall n) f c = (Inr x, c')" "\<And>k d. keeps (avail_le k) (f d)"
  shows "length (input c') + n \<le> length (input c)"
proof -
  from assms(1) obtain d c1 where d: "recvall n c = (Inr d, c1)" "f d c1 = (Inr x, c')"
    by (rule bnd_InrE)
  from keepsD [OF assms(2), of "length (input c1)" c1 d] d(2)
  have "length (input c') \<le> length (input c1)" by (simp add: avail_le_def)
  with recvall_Inr [OF d(1)] show ?thesis by simp
qed

lemma keeps_parse_option_reply [keeps_intros]: "keeps (avail_le n) parse_option_reply"
  unfolding parse_option_reply_def by (intro keeps_intros)

lemma parse_option_reply_consumes:
  assumes "parse_option_reply c = (Inr x, c')"
  shows "length (input c') < length (input c)"
proof -
  have "length (input c') + (8 + 4 + 4 + 4) \<le> length (input c)"
    using assms unfolding parse_option_reply_def
    by (rule bnd_recvall_consumes) (intro keeps_intros)
  then show ?thesis by simp
qed

lemma bnd_consumes:
  assumes "bnd m f c = (Inr x, c')"
    and "\<And>y c1. m c = (Inr y, c1) \<Longrightarrow> length (input c1) < length (input c)"
    and "\<And>k y. keeps (avail_le k) (f y)"
  shows "length (input c') < length (input c)"
proof -
  from assms(1) obtain y c1 where y: "m c = (Inr y, c1)" "f y c1 = (Inr x, c')"
    by (rule bnd_InrE)
  from keepsD [OF assms(3), of "length (input c1)" c1 y] y(2)
  have "length (input c') \<le> length (input c1)" by (simp add: avail_le_def)
  with assms(2) [OF y(1)] show ?thesis by simp
qed

lemma parse_meta_context_reply_consumes:
  assumes "parse_meta_context_reply c = (Inr x, c')"
  shows "length (input c') < length (input c)"
  using assms unfolding parse_meta_context_reply_def
  by (rule bnd_consumes) (auto intro: parse_option_reply_consumes intro!: keeps_intros)

lemma keeps_parse_info [keeps_intros]: "keeps (avail_le n) (parse_info data)"
  unfolding parse_info_def by (intro keeps_intros)

lemma keeps_input_le:
  assumes "m c = (r, c')" "\<And>n. keeps (avail_le n) m"
  shows "length (input c') \<le> length (input c)"
  using keepsD [OF assms(2), of "length (input c)" c] assms(1) by (simp add: avail_le_def)

lemmas parse_info_input = keeps_input_le [OF _ keeps_parse_info]

text \<open>The loop of \<^verbatim>\<open>request_info\<close>: until an acknowledgement.\<close>

function request_info_loop :: "nbd_info list \<Rightarrow> nbd_info list nbd_op" where
  "request_info_loop infos c =
     bnd parse_option_reply (\<lambda>reply c1. case reply of (reply_type, data) \<Rightarrow>
       if reply_type = NBD_REP_INFO then
         bnd (parse_info data) (\<lambda>info c2.
           request_info_loop (case info of None \<Rightarrow> infos | Some i \<Rightarrow> infos @ [i]) c2) c1
       else if reply_type = NBD_REP_ACK then
         seq (assert_protocol (PyBool (data = []))) (ret infos) c1
       else throw NBDProtocolError c1) c"
  by pat_completeness auto
termination
  by (relation "measure (\<lambda>(infos, c). length (input c))")
    (auto dest!: parse_option_reply_consumes parse_info_input)

declare request_info_loop.simps [simp del]

definition request_info :: "ustr \<Rightarrow> int list \<Rightarrow> nbd_info list nbd_op" where
  "request_info export_name info_requests =
     bnd (lift_sum (pack_be StructError 4 (int (length export_name)))) (\<lambda>d1.
     bnd (encode_utf8 export_name) (\<lambda>d2.
     bnd (lift_sum (pack_be StructError 2 (int (length info_requests)))) (\<lambda>d3.
     bnd (lift_sum (pack_fields StructError (map (\<lambda>r. (2, r)) info_requests))) (\<lambda>d4.
     seq (send_option NBD_OPT_INFO (d1 @ d2 @ d3 @ d4))
         (request_info_loop [])))))"

definition negotiate_structured_reply :: "unit nbd_op" where
  "negotiate_structured_reply =
     seq (send_option NBD_OPT_STRUCTURED_REPLY [])
    (seq parse_option_reply_ack
         (modify (\<lambda>c. c\<lparr>c_structured_reply := True\<rparr>)))"

text \<open>
  The generator \<^verbatim>\<open>_process_meta_context_option\<close>, always consumed whole by
  \<^verbatim>\<open>list\<close>: the queries are packed, then replies are read up to the
  acknowledgement.
\<close>

fun pack_queries :: "ustr list \<Rightarrow> bytes nbd_op" where
  "pack_queries [] = ret []"
| "pack_queries (query # queries) =
     bnd (lift_sum (pack_be StructError 4 (int (length query)))) (\<lambda>l.
     bnd (encode_utf8 query) (\<lambda>q.
     bnd (pack_queries queries) (\<lambda>rest. ret (l @ q @ rest))))"

function meta_context_loop :: "(int \<times> ustr) list nbd_op" where
  "meta_context_loop c =
     bnd parse_meta_context_reply (\<lambda>reply c1.
       case reply of
         None \<Rightarrow> ret [] c1
       | Some r \<Rightarrow> bnd meta_context_loop (\<lambda>rs c2. ret (r # rs) c2) c1) c"
  by pat_completeness auto
termination
  by (relation "measure (\<lambda>c. length (input c))") (auto dest!: parse_meta_context_reply_consumes)

declare meta_context_loop.simps [simp del]

definition process_meta_context_option ::
  "int \<Rightarrow> ustr \<Rightarrow> ustr list \<Rightarrow> (int \<times> ustr) list nbd_op" where
  "process_meta_context_option option export_name queries =
     bnd (lift_sum (pack_be StructError 4 (int (length export_name)))) (\<lambda>d1.
     bnd (encode_utf8 export_name) (\<lambda>d2.
     bnd (lift_sum (pack_be StructError 4 (int (length queries)))) (\<lambda>d3.
     bnd (pack_queries queries) (\<lambda>d4.
     seq (send_option option (d1 @ d2 @ d3 @ d4))
         meta_context_loop))))"

definition send_meta_context_option ::
  "int \<Rightarrow> ustr \<Rightarrow> ustr list \<Rightarrow> (int \<times> ustr) list nbd_op" where
  "send_meta_context_option option export_name queries =
     process_meta_context_option option export_name queries"

definition set_meta_contexts :: "ustr \<Rightarrow> ustr list \<Rightarrow> (int \<times> ustr) list nbd_op" where
  "set_meta_contexts export_name queries =
     send_meta_context_option NBD_OPT_SET_META_CONTEXT export_name queries"

definition list_meta_contexts :: "ustr \<Rightarrow> ustr list \<Rightarrow> (int \<times> ustr) list nbd_op" where
  "list_meta_contexts export_name queries =
     send_meta_context_option NBD_OPT_LIST_META_CONTEXT export_name queries"

section \<open>Handshakes\<close>

definition fixed_new_style_handshake :: "(sock \<Rightarrow> sock option) \<Rightarrow> bool \<Rightarrow> unit nbd_op" where
  "fixed_new_style_handshake wrap use_tls =
     bnd (recvall (length ''NBDMAGIC'')) (\<lambda>nbd_magic.
     seq (assert_protocol (PyBool (nbd_magic = bytes_of ''NBDMAGIC'')))
    (bnd (recvall (length ''IHAVEOPT'')) (\<lambda>nbd_magic.
     seq (assert_protocol (PyBool (nbd_magic = bytes_of ''IHAVEOPT'')))
    (bnd (recvall 2) (\<lambda>buf.
     bnd (lift_sum (unpack1 StructError 2 buf)) (\<lambda>handshake_flags.
     seq (assert_protocol (PyBool (handshake_flags AND NBD_FLAG_HAS_FLAGS \<noteq> 0)))
    (bnd (lift_sum (pack_be StructError 4 NBD_FLAG_C_FIXED_NEWSTYLE)) (\<lambda>client_flags.
     seq (sendall client_flags)
         (if use_tls then seq initiate_tls_upgrade (upgrade_socket_to_tls wrap)
          else ret ())))))))))"

definition nbd_connect :: "ustr \<Rightarrow> unit nbd_op" where
  "nbd_connect exportname =
     bnd (encode_utf8 exportname) (\<lambda>name.
     seq (send_option NBD_OPT_EXPORT_NAME name)
    (bnd (recvall 10) (\<lambda>buf.
     bnd (lift_sum (unpack2 StructError 8 2 buf)) (\<lambda>(size, flags).
     seq (modify (\<lambda>c. c\<lparr>c_size := Some size, c_transmission_flags := Some flags\<rparr>))
    (seq (recvall 124)
         (modify (\<lambda>c. c\<lparr>c_transmission_phase := True\<rparr>)))))))"

definition old_style_handshake :: "unit nbd_op" where
  "old_style_handshake =
     bnd (recvall (length ''NBDMAGIC'')) (\<lambda>nbd_magic.
     seq (assert_protocol (PyBool (nbd_magic = bytes_of ''NBDMAGIC'')))
    (bnd (recvall (8 + 8 + 4)) (\<lambda>buf.
     bnd (lift_sum (unpack3 StructError 8 8 4 buf)) (\<lambda>(magic, size, flags).
     seq (modify (\<lambda>c. c\<lparr>c_size := Some size, c_transmission_flags := Some flags\<rparr>))
    (seq (assert_protocol (PyBool (magic = 0x00420281861253)))
    (seq (recvall 124)
         (modify (\<lambda>c. c\<lparr>c_transmission_phase := True\<rparr>))))))))"

section \<open>Transmission phase\<close>

text \<open>The handle is incremented before the header is packed.\<close>

definition send_request_header :: "int \<Rightarrow> int \<Rightarrow> int \<Rightarrow> unit nbd_op" where
  "send_request_header request_type offset len =
     seq (modify (\<lambda>c. c\<lparr>c_handle := c_handle c + 1\<rparr>))
    (bnd (gets c_handle) (\<lambda>handle.
     bnd (lift_sum (pack_fields StructError
        [(4, NBD_REQUEST_MAGIC), (2, 0), (2, request_type), (8, handle), (8, offset), (4, len)]))
       (\<lambda>header. sendall header)))"

definition check_handle :: "int \<Rightarrow> unit nbd_op" where
  "check_handle handle =
     bnd (gets c_handle) (\<lambda>h.
     require (handle = h) (NBDUnexpectedReplyHandleError h handle))"

definition parse_simple_reply :: "nat \<Rightarrow> bytes nbd_op" where
  "parse_simple_reply data_length =
     bnd (recvall (4 + 4 + 8)) (\<lambda>reply.
     bnd (lift_sum (unpack3 StructError 4 4 8 reply)) (\<lambda>(magic, errno, handle).
     seq (assert_protocol (PyBool (magic = NBD_SIMPLE_REPLY_MAGIC)))
    (seq (check_handle handle)
    (bnd (recvall data_length) (\<lambda>data.
     seq (require (errno = 0) (NBDTransmissionError errno))
         (ret data))))))"

text \<open>The dictionary of a structured reply chunk, a key as an optional field.\<close>

record chunk =
  f_flags :: int
  f_reply_type :: int
  f_data_length :: int
  f_context_id :: "int option"
  f_descriptors :: "(int \<times> int) list option"
  f_offset :: "int option"
  f_data :: "bytes option"
  f_hole_size :: "int option"
  f_error :: "int option"
  f_message :: "ustr option"

definition new_fields :: "int \<Rightarrow> int \<Rightarrow> int \<Rightarrow> chunk" where
  "new_fields flags reply_type data_length =
     \<lparr>f_flags = flags, f_reply_type = reply_type, f_data_length = data_length,
      f_context_id = None, f_descriptors = None, f_offset = None, f_data = None,
      f_hole_size = None, f_error = None, f_message = None\<rparr>"

definition handle_block_status_reply :: "chunk \<Rightarrow> chunk nbd_op" where
  "handle_block_status_reply flds =
    (let data_length = f_data_length flds in
     seq (assert_protocol (PyBool (12 \<le> data_length \<and> data_length mod 8 = 4)))
    (bnd (recvall (nat data_length)) (\<lambda>data.
     bnd (lift_sum (unpack1 StructError 4 (take 4 data))) (\<lambda>context_id.
     bnd (lift_sum (parse_block_status_descriptors (drop 4 data))) (\<lambda>descriptors.
     seq (assert_protocol PyObject)
         (ret (flds\<lparr>f_context_id := Some context_id, f_descriptors := Some descriptors\<rparr>)))))))"

definition handle_data_reply :: "chunk \<Rightarrow> chunk nbd_op" where
  "handle_data_reply flds =
    (let data_length = f_data_length flds in
     seq (assert_protocol (PyBool (9 \<le> data_length)))
    (bnd (recvall 8) (\<lambda>buf.
     bnd (lift_sum (unpack1 StructError 8 buf)) (\<lambda>offset.
     bnd (recvall (nat (data_length - 8))) (\<lambda>data.
     seq (assert_protocol PyObject)
         (ret (flds\<lparr>f_offset := Some offset, f_data := Some data\<rparr>)))))))"

definition handle_hole_reply :: "chunk \<Rightarrow> chunk nbd_op" where
  "handle_hole_reply flds =
     seq (assert_protocol (PyBool (f_data_length flds = 12)))
    (bnd (recvall 12) (\<lambda>buf.
     bnd (lift_sum (unpack2 StructError 8 4 buf)) (\<lambda>(offset, hole_size).
     ret (flds\<lparr>f_offset := Some offset, f_hole_size := Some hole_size\<rparr>))))"

definition handle_structured_reply_error :: "chunk \<Rightarrow> chunk nbd_op" where
  "handle_structured_reply_error flds =
    (let data_length = f_data_length flds in
     seq (assert_protocol (PyBool (6 \<le> data_length)))
    (bnd (recvall (4 + 2)) (\<lambda>buf.
     bnd (lift_sum (unpack2 StructError 4 2 buf)) (\<lambda>(errno, message_length).
     let remaining_length = data_length - 6 in
     seq (require (message_length \<le> remaining_length) NBDProtocolError)
    (bnd (recvall (nat remaining_length)) (\<lambda>data.
     bnd (decode_utf8 (take (nat message_length) data)) (\<lambda>message.
     let flds = flds\<lparr>f_error := Some errno, f_message := Some message\<rparr>;
         view = drop (nat message_length) data in
     if f_reply_type flds = NBD_REPLY_TYPE_ERROR_OFFSET then
       bnd (lift_sum (unpack1 StructError 8 view)) (\<lambda>offset.
       ret (flds\<lparr>f_offset := Some offset\<rparr>))
     else ret flds)))))))"

definition parse_structured_reply_chunk :: "chunk nbd_op" where
  "parse_structured_reply_chunk =
     bnd (recvall (4 + 2 + 2 + 8 + 4)) (\<lambda>reply.
     bnd (lift_sum (unpack5 StructError 4 2 2 8 4 reply))
       (\<lambda>(magic, flags, reply_type, handle, data_length).
     seq (assert_protocol (PyBool (magic = NBD_STRUCTURED_REPLY_MAGIC)))
    (seq (check_handle handle)
    (let flds = new_fields flags reply_type data_length in
     if reply_type = NBD_REPLY_TYPE_BLOCK_STATUS then handle_block_status_reply flds
     else if reply_type = NBD_REPLY_TYPE_NONE then
       seq (assert_protocol (PyBool (data_length = 0)))
      (seq (assert_protocol (PyBool (is_final_structured_reply_chunk flags)))
           (ret flds))
     else if reply_type = NBD_REPLY_TYPE_OFFSET_DATA then handle_data_reply flds
     else if reply_type = NBD_REPLY_TYPE_OFFSET_HOLE then handle_hole_reply flds
     else if is_error_chunk reply_type then handle_structured_reply_error flds
     else throw (NBDUnexpectedStructuredReplyType reply_type)))))"

lemma keeps_check_handle [keeps_intros]: "keeps P (check_handle h)"
  unfolding check_handle_def by (intro keeps_intros)

lemma parse_structured_reply_chunk_consumes:
  assumes "parse_structured_reply_chunk c = (Inr x, c')"
  shows "length (input c') < length (input c)"
proof -
  have "length (input c') + (4 + 2 + 2 + 8 + 4) \<le> length (input c)"
    using assms
    unfolding parse_structured_reply_chunk_def handle_block_status_reply_def handle_data_reply_def
      handle_hole_reply_def handle_structured_reply_error_def
    by (rule bnd_recvall_consumes) (intro keeps_intros)
  then show ?thesis by simp
qed

function parse_structured_reply_chunks :: "chunk list nbd_op" where
  "parse_structured_reply_chunks c =
     bnd parse_structured_reply_chunk (\<lambda>reply c1.
       if is_final_structured_reply_chunk (f_flags reply) then ret [reply] c1
       else bnd parse_structured_reply_chunks (\<lambda>rs c2. ret (reply # rs) c2) c1) c"
  by pat_completeness auto
termination
  by (relation "measure (\<lambda>c. length (input c))")
    (auto dest!: parse_structured_reply_chunk_consumes)

declare parse_structured_reply_chunks.simps [simp del]

definition nbd_write :: "bytes \<Rightarrow> int \<Rightarrow> int nbd_op" where
  "nbd_write data offset =
     seq (check_alignment offset)
    (seq (check_alignment (int (length data)))
    (seq (modify (\<lambda>c. c\<lparr>c_flushed := False\<rparr>))
    (seq (send_request_header NBD_CMD_WRITE offset (int (length data)))
    (seq (sendall data)
    (seq (parse_simple_reply 0)
         (ret (int (length data))))))))"

text \<open>
  \<^verbatim>\<open>read\<close> returns the data, or, with structured replies, the generator
  \<^verbatim>\<open>_parse_structured_reply_chunks()\<close>, which reads nothing until it is consumed.
\<close>

datatype read_result = Read_Data bytes | Read_Generator

definition nbd_read :: "int \<Rightarrow> int \<Rightarrow> read_result nbd_op" where
  "nbd_read offset len =
     seq (check_alignment offset)
    (seq (check_alignment len)
    (seq (send_request_header NBD_CMD_READ offset len)
    (bnd (gets c_structured_reply) (\<lambda>structured.
     if structured then ret Read_Generator
     else bnd (parse_simple_reply (nat len)) (\<lambda>data. ret (Read_Data data))))))"

definition need_flush :: "bool nbd_op" where
  "need_flush =
     bnd (gets c_transmission_flags) (\<lambda>flags.
     case flags of
       None \<Rightarrow> throw AttributeError
     | Some f \<Rightarrow> ret (f AND NBD_FLAG_SEND_FLUSH \<noteq> 0))"

definition nbd_flush :: "bool nbd_op" where
  "nbd_flush =
     bnd need_flush (\<lambda>need.
     if \<not> need then seq (modify (\<lambda>c. c\<lparr>c_flushed := True\<rparr>)) (ret False)
     else
       seq (send_request_header NBD_CMD_FLUSH 0 0)
      (seq (parse_simple_reply 0)
      (seq (modify (\<lambda>c. c\<lparr>c_flushed := True\<rparr>))
           (ret True))))"

definition query_block_status :: "int \<Rightarrow> int \<Rightarrow> chunk list nbd_op" where
  "query_block_status offset len =
     seq (send_request_header NBD_CMD_BLOCK_STATUS offset len)
         parse_structured_reply_chunks"

definition nbd_disconnect :: "unit nbd_op" where
  "nbd_disconnect =
     bnd (gets c_transmission_phase) (\<lambda>phase.
     if phase then send_request_header NBD_CMD_DISC 0 0
     else send_option NBD_OPT_ABORT [])"

definition get_size :: "int nbd_op" where
  "get_size =
     bnd (gets c_size) (\<lambda>size.
     case size of None \<Rightarrow> throw AttributeError | Some z \<Rightarrow> ret z)"

definition nbd_close :: "unit nbd_op" where
  "nbd_close =
     bnd (gets c_transmission_phase) (\<lambda>phase.
     bnd (gets c_flushed) (\<lambda>flushed.
     seq (if phase \<and> \<not> flushed then seq nbd_flush (ret ()) else ret ())
    (bnd (gets c_closed) (\<lambda>closed.
     if closed then ret ()
     else seq nbd_disconnect (modify (\<lambda>c. c\<lparr>c_closed := True\<rparr>))))))"

text \<open>
  \<^verbatim>\<open>__init__\<close> on a connected socket \<open>k\<close>: the attributes, then the chosen
  handshake, then \<^verbatim>\<open>connect\<close> unless the caller asked not to.
\<close>

definition new_client :: "sock \<Rightarrow> nbd_client" where
  "new_client k =
     \<lparr>c_sock = k, c_flushed = True, c_closed = False, c_handle = 0, c_last_sent_option = None,
      c_structured_reply = False, c_transmission_phase = False, c_size = None,
      c_transmission_flags = None\<rparr>"

definition nbd_init ::
  "(sock \<Rightarrow> sock option) \<Rightarrow> ustr \<Rightarrow> bool \<Rightarrow> bool \<Rightarrow> bool \<Rightarrow> sock \<Rightarrow> (nbd_error + unit) \<times> nbd_client"
where
  "nbd_init wrap exportname use_tls new_style do_connect k =
     (if new_style then
        seq (fixed_new_style_handshake wrap use_tls)
            (if do_connect then nbd_connect exportname else ret ())
      else old_style_handshake) (new_client k)"

end
