(* ===== verification/Nbd_Proofs.thy ===== *)
theory Nbd_Proofs
  imports Nbd_Client
begin

text \<open>
  What the NBD client promises: replies are read the same however the
  network splits them, only well-formed replies to the last request are
  accepted, requests have the wire format of the protocol, structured replies
  are decoded as they were encoded, and the client object stays consistent
  from its construction to \<^verbatim>\<open>close\<close>.
\<close>

section \<open>Methods do not depend on segments\<close>

lemma seg_helpers [seg_intros]:
  "seg_indep (assert_protocol a)" "seg_indep (check_alignment v)" "seg_indep (encode_utf8 u)"
  "seg_indep (decode_utf8 b)"
  unfolding assert_protocol_def check_alignment_def encode_utf8_def decode_utf8_def
  by (intro seg_intros)+

lemma seg_updates [seg_intros]:
  "seg_indep (modify (\<lambda>c. c\<lparr>c_last_sent_option := p\<rparr>))"
  "seg_indep (modify (\<lambda>c. c\<lparr>c_structured_reply := b\<rparr>))"
  "seg_indep (modify (\<lambda>c. c\<lparr>c_transmission_phase := b\<rparr>))"
  "seg_indep (modify (\<lambda>c. c\<lparr>c_flushed := b\<rparr>))"
  "seg_indep (modify (\<lambda>c. c\<lparr>c_closed := b\<rparr>))"
  "seg_indep (modify (\<lambda>c. c\<lparr>c_size := x, c_transmission_flags := y\<rparr>))"
  "seg_indep (modify (\<lambda>c. c\<lparr>c_handle := c_handle c + 1\<rparr>))"
  by (rule seg_modify, simp)+

lemma seg_option [seg_intros]:
  "seg_indep (send_option opt data)" "seg_indep parse_option_reply"
  unfolding send_option_def parse_option_reply_def by (intro seg_intros)+

lemma seg_option_replies [seg_intros]:
  "seg_indep parse_option_reply_ack" "seg_indep parse_meta_context_reply"
  "seg_indep (parse_info data)"
  unfolding parse_option_reply_ack_def parse_meta_context_reply_def parse_info_def
  by (intro seg_intros)+

lemma exec_cong: "f c = g c \<Longrightarrow> exec f c = exec g c"
  by (simp add: exec_def)

lemma exec_if: "exec (\<lambda>c. if b then f c else g c) c = (if b then exec f c else exec g c)"
  by simp

lemma seg_indepI: "(\<And>c d. flat c = flat d \<Longrightarrow> exec m c = exec m d) \<Longrightarrow> seg_indep m"
  unfolding seg_indep_def by (metis flat_flat)

lemma seg_same: "seg_indep m \<Longrightarrow> flat c = flat d \<Longrightarrow> exec m c = exec m d"
  by (metis seg_indepD)

text \<open>The rule the loops are proved by: the continuation only has to agree after \<open>m\<close>.\<close>

lemma exec_bnd_same:
  assumes "flat c = flat d" "seg_indep m"
    and "\<And>x c1 d1. m c = (Inr x, c1) \<Longrightarrow> m d = (Inr x, d1) \<Longrightarrow> flat c1 = flat d1 \<Longrightarrow>
           exec (f x) c1 = exec (f x) d1"
  shows "exec (bnd m f) c = exec (bnd m f) d"
proof -
  obtain r c1 where c1: "m c = (r, c1)" by fastforce
  obtain r' d1 where d1: "m d = (r', d1)" by fastforce
  from seg_same [OF assms(2,1)] c1 d1 have "r' = r" "flat d1 = flat c1"
    by (simp_all add: exec_def)
  with c1 d1 assms(3) show ?thesis
    by (cases r) (simp_all add: exec_def [of "bnd m f"] bnd_def, simp add: exec_def)
qed

lemma input_same: "flat c = flat d \<Longrightarrow> input c = input d"
  by (metis flat_sel(1))

lemma seg_loop:
  assumes rec: "\<And>c. f c = bnd m k c"
    and seg: "seg_indep m" "\<And>x. stop x \<Longrightarrow> seg_indep (k x)"
    and step: "\<And>x c. \<not> stop x \<Longrightarrow> k x c = bnd f (h x) c" "\<And>x y. seg_indep (h x y)"
    and dec: "\<And>c x c1. m c = (Inr x, c1) \<Longrightarrow> length (input c1) < length (input c)"
  shows "seg_indep f"
proof (rule seg_indepI)
  fix c d :: nbd_client assume "flat c = flat d"
  then show "exec f c = exec f d"
  proof (induction "length (input c)" arbitrary: c d rule: less_induct)
    case less
    have "exec (bnd m k) c = exec (bnd m k) d"
    proof (rule exec_bnd_same [OF less.prems seg(1)])
      fix x c1 d1
      assume m: "m c = (Inr x, c1)" and eq: "flat c1 = flat d1"
      show "exec (k x) c1 = exec (k x) d1"
      proof (cases "stop x")
        case True
        with eq show ?thesis by (intro seg_same seg(2))
      next
        case False
        have "exec (k x) a = exec (bnd f (h x)) a" for a
          using step(1) [OF False] by (rule exec_cong)
        with less.hyps [OF dec [OF m] eq] show ?thesis
          by (simp add: exec_bnd step(2))
      qed
    qed
    then show ?case using exec_cong [of f c "bnd m k"] exec_cong [of f d "bnd m k"] rec by simp
  qed
qed

lemma seg_meta_context_loop [seg_intros]: "seg_indep meta_context_loop"
  by (rule seg_loop [where m = parse_meta_context_reply and stop = "\<lambda>r. r = None"
        and k = "\<lambda>reply c1. case reply of None \<Rightarrow> ret [] c1
                   | Some r \<Rightarrow> bnd meta_context_loop (\<lambda>rs c2. ret (r # rs) c2) c1"
        and h = "\<lambda>reply rs. ret (the reply # rs)"])
    (auto intro: seg_intros parse_meta_context_reply_consumes simp: meta_context_loop.simps)

lemma seg_handlers [seg_intros]:
  "seg_indep (handle_block_status_reply f)" "seg_indep (handle_data_reply f)"
  "seg_indep (handle_hole_reply f)" "seg_indep (handle_structured_reply_error f)"
  "seg_indep (check_handle h)"
  unfolding handle_block_status_reply_def handle_data_reply_def handle_hole_reply_def
    handle_structured_reply_error_def check_handle_def
  by (intro seg_intros)+

lemma seg_structured_chunk [seg_intros]: "seg_indep parse_structured_reply_chunk"
  unfolding parse_structured_reply_chunk_def by (intro seg_intros)

lemma seg_structured_chunks [seg_intros]: "seg_indep parse_structured_reply_chunks"
  by (rule seg_loop [where m = parse_structured_reply_chunk
        and stop = "\<lambda>r. is_final_structured_reply_chunk (f_flags r)"
        and k = "\<lambda>reply c1. if is_final_structured_reply_chunk (f_flags reply) then ret [reply] c1
                   else bnd parse_structured_reply_chunks (\<lambda>rs c2. ret (reply # rs) c2) c1"
        and h = "\<lambda>reply rs. ret (reply # rs)"])
    (auto intro: seg_intros parse_structured_reply_chunk_consumes
       simp: parse_structured_reply_chunks.simps)

lemma request_info_loop_unfold:
  "request_info_loop infos =
     bnd parse_option_reply (\<lambda>(reply_type, data).
       if reply_type = NBD_REP_INFO then
         bnd (parse_info data) (\<lambda>info.
           request_info_loop (case info of None \<Rightarrow> infos | Some i \<Rightarrow> infos @ [i]))
       else if reply_type = NBD_REP_ACK then seq (assert_protocol (PyBool (data = []))) (ret infos)
       else throw NBDProtocolError)"
  by (rule ext) (auto simp: request_info_loop.simps [of infos] bnd_def split: prod.split sum.split)

lemma seg_request_info_loop [seg_intros]: "seg_indep (request_info_loop infos)"
proof (rule seg_indepI)
  fix c d :: nbd_client assume "flat c = flat d"
  then show "exec (request_info_loop infos) c = exec (request_info_loop infos) d"
  proof (induction "length (input c)" arbitrary: infos c d rule: less_induct)
    case less
    let ?next = "\<lambda>info. case info of None \<Rightarrow> infos | Some i \<Rightarrow> infos @ [i]"
    have ih: "exec (request_info_loop (?next i)) c2 = exec (request_info_loop (?next i)) d2"
      if "parse_option_reply c = (Inr x, c1)" "parse_info data c1 = (Inr i, c2)"
        "flat c2 = flat d2" for x c1 data i c2 d2
      using less.hyps that parse_option_reply_consumes [OF that(1)] parse_info_input [OF that(2)]
      by fastforce
    show ?case
      unfolding request_info_loop_unfold [of infos]
    proof (rule exec_bnd_same [OF less.prems])
      fix x c1 d1
      assume m: "parse_option_reply c = (Inr x, c1)" and eq: "flat c1 = flat d1"
      obtain reply_type data where x: "x = (reply_type, data)" by fastforce
      show "exec (case x of (reply_type, data) \<Rightarrow>
          if reply_type = NBD_REP_INFO then bnd (parse_info data) (\<lambda>i. request_info_loop (?next i))
          else if reply_type = NBD_REP_ACK
            then seq (assert_protocol (PyBool (data = []))) (ret infos)
          else throw NBDProtocolError) c1
        = exec (case x of (reply_type, data) \<Rightarrow>
          if reply_type = NBD_REP_INFO then bnd (parse_info data) (\<lambda>i. request_info_loop (?next i))
          else if reply_type = NBD_REP_ACK
            then seq (assert_protocol (PyBool (data = []))) (ret infos)
          else throw NBDProtocolError) d1"
      proof (cases "reply_type = NBD_REP_INFO")
        case True
        with x show ?thesis
          by simp (rule exec_bnd_same [OF eq], rule seg_intros, rule ih [OF m])
      next
        case False
        with x show ?thesis by simp (intro conjI impI seg_same [OF _ eq] seg_intros)
      qed
    qed (rule seg_intros)
  qed
qed

lemma seg_pack_queries [seg_intros]: "seg_indep (pack_queries queries)"
  by (induction queries) (auto intro!: seg_intros)

lemma seg_handshake_ops [seg_intros]:
  "seg_indep (request_info name reqs)" "seg_indep negotiate_structured_reply"
  "seg_indep (process_meta_context_option opt name queries)"
  "seg_indep (nbd_connect name)" "seg_indep old_style_handshake"
  unfolding request_info_def negotiate_structured_reply_def process_meta_context_option_def
    nbd_connect_def old_style_handshake_def
  by (intro seg_intros)+

lemma seg_meta_contexts [seg_intros]:
  "seg_indep (set_meta_contexts name queries)" "seg_indep (list_meta_contexts name queries)"
  unfolding set_meta_contexts_def list_meta_contexts_def send_meta_context_option_def
  by (intro seg_intros)+

lemma seg_requests [seg_intros]:
  "seg_indep (send_request_header t off len)"
  "seg_indep need_flush" "seg_indep get_size"
  unfolding send_request_header_def need_flush_def get_size_def
  by (intro seg_intros)+

lemma seg_parse_simple_reply [seg_intros]: "seg_indep (parse_simple_reply n)"
  unfolding parse_simple_reply_def by (intro seg_intros)

lemma seg_flush_disconnect [seg_intros]: "seg_indep nbd_flush" "seg_indep nbd_disconnect"
  unfolding nbd_flush_def nbd_disconnect_def by (intro seg_intros)+

lemma seg_transmission_ops [seg_intros]:
  "seg_indep (nbd_write data off)" "seg_indep (nbd_read off len)"
  "seg_indep (query_block_status off len)" "seg_indep nbd_close"
  unfolding nbd_write_def nbd_read_def query_block_status_def nbd_close_def
  by (intro seg_intros)+

lemma seg_indep_observe:
  assumes "seg_indep m" "flat c = flat d"
  shows "fst (m c) = fst (m d) \<and> flat (snd (m c)) = flat (snd (m d))"
  using seg_same [OF assms] fst_exec [of m] snd_exec [of m] by metis

section \<open>Replies\<close>

text \<open>Running a method on a flat client, one step at a time.\<close>

lemma recvall_step:
  assumes "recvall n c = (Inr d, c')"
  shows "input c = d @ input c'" "length d = n" "flat c' = with_io c (input c') (sent c)"
proof -
  have "flat c' = with_io c (drop n (input c)) (sent c)"
    using snd_exec [of "recvall n" c] fst_exec [of "recvall n" c] assms
    by (auto simp: exec_simps split: if_splits)
  then show "flat c' = with_io c (input c') (sent c)"
    by (simp add: recvall_Inr [OF assms])
qed (use recvall_Inr [OF assms] in auto)

lemma recvall_prefix:
  assumes "input c = d @ rest" "length d = n"
  shows "exec (recvall n) c = (Inr d, with_io c rest (sent c))"
  using assms by (simp add: exec_simps)

lemma with_io_cong:
  "flat c = with_io d i out \<Longrightarrow> with_io c j out' = with_io d j out'"
  by (metis flat_def with_io_with_io)

text \<open>The reply of a server to option \<open>opt\<close>.\<close>

definition enc_option_reply :: "int \<Rightarrow> int \<Rightarrow> bytes \<Rightarrow> bytes" where
  "enc_option_reply opt reply_type data =
     enc_be 8 OPTION_REPLY_MAGIC @ enc_be 4 opt @ enc_be 4 reply_type
     @ enc_be 4 (int (length data)) @ data"

lemma fits_nat_length: "fits k v \<Longrightarrow> int (nat v) = v"
  by (simp add: fits_def)

lemma seq_InrE:
  assumes "seq m k s = (Inr y, t)"
  obtains x s' where "m s = (Inr x, s')" "k s' = (Inr y, t)"
  using assms unfolding seq_def by (rule bnd_InrE)

lemma basic_Inr [simp]:
  "require b e s = (Inr u, t) \<longleftrightarrow> b \<and> t = s"
  "gets g s = (Inr x, t) \<longleftrightarrow> x = g s \<and> t = s"
  "ret z s = (Inr x, t) \<longleftrightarrow> x = z \<and> t = s"
  "throw e s = (Inr x, t) \<longleftrightarrow> False"
  "modify h s = (Inr u, t) \<longleftrightarrow> t = h s"
  "lift_sum r s = (Inr x, t) \<longleftrightarrow> r = Inr x \<and> t = s"
  "assert_protocol a c = (Inr u, c') \<longleftrightarrow> a \<noteq> PyBool False \<and> c' = c"
  by (auto simp: st_simps assert_protocol_def)

lemma parse_option_reply_sound:
  assumes "parse_option_reply c = (Inr (t, data), c')"
  shows "\<exists>opt. c_last_sent_option c = Some opt \<and> fits 4 opt \<and> fits 4 t \<and> fits 4 (int (length data))
           \<and> t AND NBD_REP_ERROR_BIT = 0 \<and> input c = enc_option_reply opt t data @ input c'
           \<and> flat c' = with_io c (input c') (sent c)"
proof -
  from assms obtain hdr c1 opt dl where
    r: "recvall (8 + 4 + 4 + 4) c = (Inr hdr, c1)" "recvall (nat dl) c1 = (Inr data, c')"
    and u: "unpack4 StructError 8 4 4 4 hdr = Inr (OPTION_REPLY_MAGIC, opt, t, dl)"
    and o: "c_last_sent_option c1 = Some opt" "t AND NBD_REP_ERROR_BIT = 0"
    unfolding parse_option_reply_def by (auto elim!: bnd_InrE seq_InrE split: prod.splits)
  have c1: "c_last_sent_option c = Some opt"
    using o(1) recvall_step(3) [OF r(1)] by (metis flat_sel(7) with_io_sel(7))
  have "dl = int (length data)"
    using recvall_step(2) [OF r(2)] u by (simp add: unpack_iffs fits_def)
  with u have f: "fits 4 opt" "fits 4 t" "fits 4 (int (length data))"
      "hdr @ data = enc_option_reply opt t data"
    by (simp_all add: unpack_iffs enc_option_reply_def)
  have "input c = (hdr @ data) @ input c'"
    using recvall_step(1) [OF r(1)] recvall_step(1) [OF r(2)] by simp
  moreover have "flat c' = with_io c (input c') (sent c)"
    using recvall_step(3) [OF r(1)] recvall_step(3) [OF r(2)]
    by (metis with_io_cong flat_sel(2) with_io_sel(2))
  ultimately show ?thesis using c1 f o by simp
qed

lemma exec_assert_protocol [exec_simps]:
  "exec (assert_protocol a) c = ((if a \<noteq> PyBool False then Inr () else Inl NBDProtocolError), flat c)"
  by (simp add: assert_protocol_def exec_simps)

declare exec_bnd [exec_simps] exec_seq [exec_simps]

lemma parse_option_reply_complete:
  assumes "c_last_sent_option c = Some opt" "fits 4 opt" "fits 4 t" "fits 4 (int (length data))"
    and "t AND NBD_REP_ERROR_BIT = 0" "input c = enc_option_reply opt t data @ rest"
  shows "exec parse_option_reply c = (Inr (t, data), with_io c rest (sent c))"
proof -
  have "fits 8 OPTION_REPLY_MAGIC" by (simp add: fits_def nbd_consts)
  with assms show ?thesis
    unfolding parse_option_reply_def enc_option_reply_def
    by (simp add: exec_simps seg_intros unpack_enc)
qed

text \<open>The simple reply of a server.\<close>

definition enc_simple_reply :: "int \<Rightarrow> int \<Rightarrow> bytes \<Rightarrow> bytes" where
  "enc_simple_reply errno handle data =
     enc_be 4 NBD_SIMPLE_REPLY_MAGIC @ enc_be 4 errno @ enc_be 8 handle @ data"

lemma exec_check_handle [exec_simps]:
  "exec (check_handle h) c =
     ((if h = c_handle c then Inr () else Inl (NBDUnexpectedReplyHandleError (c_handle c) h)), flat c)"
  by (simp add: check_handle_def exec_bnd seg_intros exec_simps)

lemma fits_magics [simp]:
  "fits 8 OPTION_REPLY_MAGIC" "fits 4 NBD_REQUEST_MAGIC" "fits 4 NBD_SIMPLE_REPLY_MAGIC"
  "fits 4 NBD_STRUCTURED_REPLY_MAGIC" "fits 2 0" "fits 4 0" "fits 8 0"
  by (simp_all add: fits_def nbd_consts)

lemma exec_parse_simple_reply:
  assumes "fits 4 errno" "fits 8 handle" "input c = enc_simple_reply errno handle data @ rest"
    and "length data = n"
  shows "exec (parse_simple_reply n) c =
    (if handle \<noteq> c_handle c
     then (Inl (NBDUnexpectedReplyHandleError (c_handle c) handle), with_io c (data @ rest) (sent c))
     else if errno \<noteq> 0 then (Inl (NBDTransmissionError errno), with_io c rest (sent c))
     else (Inr data, with_io c rest (sent c)))"
  using assms unfolding parse_simple_reply_def enc_simple_reply_def
  by (simp add: exec_simps seg_intros unpack_enc)

lemma parse_simple_reply_sound:
  assumes "parse_simple_reply n c = (Inr data, c')"
  shows "fits 8 (c_handle c) \<and> length data = n \<and> input c = enc_simple_reply 0 (c_handle c) data @ input c'
           \<and> flat c' = with_io c (input c') (sent c)"
proof -
  from assms obtain hdr c1 where
    r: "recvall (4 + 4 + 8) c = (Inr hdr, c1)" "recvall n c1 = (Inr data, c')"
    and u: "unpack3 StructError 4 4 8 hdr = Inr (NBD_SIMPLE_REPLY_MAGIC, 0, c_handle c1)"
    unfolding parse_simple_reply_def check_handle_def
    by (auto elim!: bnd_InrE seq_InrE split: prod.splits)
  have "c_handle c1 = c_handle c"
    using recvall_step(3) [OF r(1)] by (metis flat_sel(6) with_io_sel(6))
  with u have "fits 8 (c_handle c)" "hdr @ data = enc_simple_reply 0 (c_handle c) data"
    by (simp_all add: unpack_iffs enc_simple_reply_def)
  moreover have "input c = (hdr @ data) @ input c'" "length data = n"
    using recvall_step(1) [OF r(1)] recvall_step(1,2) [OF r(2)] by simp_all
  moreover have "flat c' = with_io c (input c') (sent c)"
    using recvall_step(3) [OF r(1)] recvall_step(3) [OF r(2)]
    by (metis with_io_cong flat_sel(2) with_io_sel(2))
  ultimately show ?thesis by simp
qed

section \<open>Requests\<close>

text \<open>The request header of the protocol.\<close>

definition enc_request :: "int \<Rightarrow> int \<Rightarrow> int \<Rightarrow> int \<Rightarrow> bytes" where
  "enc_request request_type handle offset len =
     enc_be 4 NBD_REQUEST_MAGIC @ enc_be 2 0 @ enc_be 2 request_type @ enc_be 8 handle
     @ enc_be 8 offset @ enc_be 4 len"

lemma exec_send_request_header [exec_simps]:
  "exec (send_request_header t off len) c =
    (if fits 2 t \<and> fits 8 (c_handle c + 1) \<and> fits 8 off \<and> fits 4 len
     then (Inr (), with_io (c\<lparr>c_handle := c_handle c + 1\<rparr>) (input c)
             (sent c @ enc_request t (c_handle c + 1) off len))
     else (Inl StructError, flat (c\<lparr>c_handle := c_handle c + 1\<rparr>)))"
  unfolding send_request_header_def enc_request_def
  by (simp add: exec_simps seg_intros pack_fields_eq) (auto simp: flat_def)

lemma fits_cmds [simp]:
  "fits 2 NBD_CMD_READ" "fits 2 NBD_CMD_WRITE" "fits 2 NBD_CMD_DISC" "fits 2 NBD_CMD_FLUSH"
  "fits 2 NBD_CMD_BLOCK_STATUS"
  by (simp_all add: fits_def nbd_consts)

lemma exec_check_alignment [exec_simps]:
  "exec (check_alignment v) c = ((if v mod 512 = 0 then Inr () else Inl ValueError), flat c)"
  by (simp add: check_alignment_def exec_simps)

lemma exec_nbd_write:
  assumes "off mod 512 = 0" "length data mod 512 = 0"
    and "fits 8 off" "fits 4 (int (length data))" "fits 8 (c_handle c + 1)"
    and "input c = enc_simple_reply errno (c_handle c + 1) [] @ rest" "fits 4 errno"
  shows "exec (nbd_write data off) c =
    ((if errno = 0 then Inr (int (length data)) else Inl (NBDTransmissionError errno)),
     with_io (c\<lparr>c_flushed := False, c_handle := c_handle c + 1\<rparr>) rest
       (sent c @ enc_request NBD_CMD_WRITE (c_handle c + 1) off (int (length data)) @ data))"
proof -
  have "int (length data) mod 512 = 0" using assms(2) by presburger
  with assms show ?thesis
    unfolding nbd_write_def
    by (simp add: exec_simps seg_intros flat_def exec_parse_simple_reply [where data = "[]" and rest = rest
          and errno = errno and handle = "c_handle c + 1"])
qed

lemma exec_nbd_read_simple:
  assumes "off mod 512 = 0" "len mod 512 = 0" "\<not> c_structured_reply c"
    and "fits 8 off" "fits 4 len" "fits 8 (c_handle c + 1)"
    and "input c = enc_simple_reply 0 (c_handle c + 1) data @ rest" "int (length data) = len"
  shows "exec (nbd_read off len) c =
    (Inr (Read_Data data),
     with_io (c\<lparr>c_handle := c_handle c + 1\<rparr>) rest
       (sent c @ enc_request NBD_CMD_READ (c_handle c + 1) off len))"
proof -
  have "nat len = length data" using assms(8) by simp
  with assms show ?thesis
    unfolding nbd_read_def
    by (simp add: exec_simps seg_intros flat_def exec_parse_simple_reply [where data = data and rest = rest
          and errno = 0 and handle = "c_handle c + 1"])
qed

lemma exec_nbd_flush:
  assumes "c_transmission_flags c = Some flags"
  shows "flags AND NBD_FLAG_SEND_FLUSH = 0 \<Longrightarrow>
      exec nbd_flush c = (Inr False, flat (c\<lparr>c_flushed := True\<rparr>))"
    and "\<lbrakk>flags AND NBD_FLAG_SEND_FLUSH \<noteq> 0; fits 8 (c_handle c + 1);
      input c = enc_simple_reply 0 (c_handle c + 1) [] @ rest\<rbrakk> \<Longrightarrow>
      exec nbd_flush c = (Inr True,
        with_io (c\<lparr>c_handle := c_handle c + 1, c_flushed := True\<rparr>) rest
          (sent c @ enc_request NBD_CMD_FLUSH (c_handle c + 1) 0 0))"
  using assms unfolding nbd_flush_def need_flush_def
  by (simp_all add: exec_simps seg_intros flat_def exec_parse_simple_reply [where data = "[]"
        and rest = rest and errno = 0 and handle = "c_handle c + 1"])

lemma fits_opts [simp]:
  "fits 4 NBD_OPT_EXPORT_NAME" "fits 4 NBD_OPT_ABORT" "fits 4 NBD_OPT_STARTTLS"
  "fits 4 NBD_OPT_INFO" "fits 4 NBD_OPT_STRUCTURED_REPLY" "fits 4 NBD_OPT_LIST_META_CONTEXT"
  "fits 4 NBD_OPT_SET_META_CONTEXT"
  by (simp_all add: fits_def nbd_consts)

definition enc_option :: "int \<Rightarrow> bytes \<Rightarrow> bytes" where
  "enc_option opt data = bytes_of ''IHAVEOPT'' @ enc_be 4 opt @ enc_be 4 (int (length data)) @ data"

lemma exec_send_option [exec_simps]:
  "exec (send_option opt data) c =
    (if fits 4 opt \<and> fits 4 (int (length data))
     then (Inr (), with_io (c\<lparr>c_last_sent_option := Some opt\<rparr>) (input c) (sent c @ enc_option opt data))
     else (Inl StructError, with_io c (input c) (sent c @ bytes_of ''IHAVEOPT'')))"
  unfolding send_option_def enc_option_def
  by (simp add: exec_simps seg_intros pack_fields_eq flat_def)

lemma exec_nbd_disconnect [exec_simps]:
  "c_transmission_phase c \<Longrightarrow> exec nbd_disconnect c = exec (send_request_header NBD_CMD_DISC 0 0) c"
  "\<not> c_transmission_phase c \<Longrightarrow> exec nbd_disconnect c = exec (send_option NBD_OPT_ABORT []) c"
  unfolding nbd_disconnect_def by (simp_all add: exec_simps seg_intros flat_def)

section \<open>Structured replies\<close>

text \<open>A chunk as a server sends it: its type and payload.\<close>

datatype server_chunk =
    S_None
  | S_Data int bytes
  | S_Hole int int
  | S_Status int "(int \<times> int) list"
  | S_Error int int ustr bytes

definition enc_descriptors :: "(int \<times> int) list \<Rightarrow> bytes" where
  "enc_descriptors ds = concat (map (\<lambda>(l, f). enc_be 4 l @ enc_be 4 f) ds)"

fun enc_payload :: "server_chunk \<Rightarrow> bytes" where
  "enc_payload S_None = []"
| "enc_payload (S_Data off data) = enc_be 8 off @ data"
| "enc_payload (S_Hole off hs) = enc_be 8 off @ enc_be 4 hs"
| "enc_payload (S_Status ctx ds) = enc_be 4 ctx @ enc_descriptors ds"
| "enc_payload (S_Error t errno msg trailing) =
     (case utf8_encode msg of
        None \<Rightarrow> []
      | Some mb \<Rightarrow> enc_be 4 errno @ enc_be 2 (int (length mb)) @ mb @ trailing)"

fun chunk_type :: "server_chunk \<Rightarrow> int" where
  "chunk_type S_None = NBD_REPLY_TYPE_NONE"
| "chunk_type (S_Data _ _) = NBD_REPLY_TYPE_OFFSET_DATA"
| "chunk_type (S_Hole _ _) = NBD_REPLY_TYPE_OFFSET_HOLE"
| "chunk_type (S_Status _ _) = NBD_REPLY_TYPE_BLOCK_STATUS"
| "chunk_type (S_Error t _ _ _) = t"

definition enc_chunk :: "int \<Rightarrow> int \<Rightarrow> server_chunk \<Rightarrow> bytes" where
  "enc_chunk handle flags sc =
     enc_be 4 NBD_STRUCTURED_REPLY_MAGIC @ enc_be 2 flags @ enc_be 2 (chunk_type sc)
     @ enc_be 8 handle @ enc_be 4 (int (length (enc_payload sc))) @ enc_payload sc"

fun valid_chunk :: "int \<Rightarrow> server_chunk \<Rightarrow> bool" where
  "valid_chunk flags S_None \<longleftrightarrow> is_final_structured_reply_chunk flags"
| "valid_chunk flags (S_Data off data) \<longleftrightarrow> fits 8 off \<and> data \<noteq> []"
| "valid_chunk flags (S_Hole off hs) \<longleftrightarrow> fits 8 off \<and> fits 4 hs"
| "valid_chunk flags (S_Status ctx ds) \<longleftrightarrow>
     fits 4 ctx \<and> ds \<noteq> [] \<and> list_all (\<lambda>(l, f). fits 4 l \<and> fits 4 f) ds"
| "valid_chunk flags (S_Error t errno msg trailing) \<longleftrightarrow>
     fits 2 t \<and> is_error_chunk t \<and> fits 4 errno \<and>
     (case utf8_encode msg of None \<Rightarrow> False | Some mb \<Rightarrow> fits 2 (int (length mb)))"

text \<open>What the client makes of it.\<close>

fun decoded_chunk :: "int \<Rightarrow> server_chunk \<Rightarrow> chunk" where
  "decoded_chunk flags S_None = new_fields flags NBD_REPLY_TYPE_NONE 0"
| "decoded_chunk flags (S_Data off data) =
     (new_fields flags NBD_REPLY_TYPE_OFFSET_DATA (8 + int (length data)))
       \<lparr>f_offset := Some off, f_data := Some data\<rparr>"
| "decoded_chunk flags (S_Hole off hs) =
     (new_fields flags NBD_REPLY_TYPE_OFFSET_HOLE 12)\<lparr>f_offset := Some off, f_hole_size := Some hs\<rparr>"
| "decoded_chunk flags (S_Status ctx ds) =
     (new_fields flags NBD_REPLY_TYPE_BLOCK_STATUS (4 + 8 * int (length ds)))
       \<lparr>f_context_id := Some ctx, f_descriptors := Some ds\<rparr>"
| "decoded_chunk flags (S_Error t errno msg trailing) =
     (new_fields flags t (int (length (enc_payload (S_Error t errno msg trailing)))))
       \<lparr>f_error := Some errno, f_message := Some msg\<rparr>"

lemma length_enc_descriptors [simp]: "length (enc_descriptors ds) = 8 * length ds"
  by (induction ds) (auto simp: enc_descriptors_def)

lemma parse_descriptors_enc:
  assumes "list_all (\<lambda>(l, f). fits 4 l \<and> fits 4 f) ds"
  shows "parse_block_status_descriptors (enc_descriptors ds) = Inr ds"
  using assms
proof (induction ds)
  case Nil
  then show ?case by (simp add: enc_descriptors_def parse_block_status_descriptors.simps)
next
  case (Cons d ds)
  obtain l f where d: "d = (l, f)" by fastforce
  have "enc_descriptors (d # ds) = (enc_be 4 l @ enc_be 4 f) @ enc_descriptors ds"
    by (simp add: d enc_descriptors_def)
  moreover have "enc_be 4 l @ enc_be 4 f @ enc_descriptors ds \<noteq> []"
    by (metis length_enc_be length_0_conv append_is_Nil_conv zero_neq_numeral)
  ultimately show ?case using Cons d
    by (subst parse_block_status_descriptors.simps) (simp add: unpack2_enc)
qed

lemma error_type_not_other:
  assumes "is_error_chunk t"
  shows "t \<noteq> NBD_REPLY_TYPE_BLOCK_STATUS" "t \<noteq> NBD_REPLY_TYPE_NONE"
    "t \<noteq> NBD_REPLY_TYPE_OFFSET_DATA" "t \<noteq> NBD_REPLY_TYPE_OFFSET_HOLE"
  using assms by (auto simp: is_error_chunk_def nbd_consts)

text \<open>A 16-bit type is never the shifted constant the code compares it with.\<close>

lemma error_offset_never: "fits 2 t \<Longrightarrow> t \<noteq> NBD_REPLY_TYPE_ERROR_OFFSET"
  by (auto simp: fits_def nbd_consts)

lemma exec_decode_utf8 [exec_simps]:
  "utf8_decode b = Some u \<Longrightarrow> exec (decode_utf8 b) c = (Inr u, flat c)"
  by (simp add: decode_utf8_def exec_simps)

lemma payload_bounds:
  assumes "valid_chunk flags sc"
  shows "(case sc of S_None \<Rightarrow> True | S_Data _ _ \<Rightarrow> 9 \<le> length (enc_payload sc)
          | S_Hole _ _ \<Rightarrow> length (enc_payload sc) = 12
          | S_Status _ ds \<Rightarrow> 12 \<le> length (enc_payload sc) \<and> length (enc_payload sc) mod 8 = 4
          | S_Error _ _ _ _ \<Rightarrow> 6 \<le> length (enc_payload sc))"
  using assms
  by (cases sc) (auto simp: Suc_le_eq neq_Nil_conv split: option.splits)

lemma handle_error_enc:
  assumes "fits 2 t" "fits 4 errno" "utf8_encode msg = Some mb" "fits 2 (int (length mb))"
    and "input c = enc_be 4 errno @ enc_be 2 (int (length mb)) @ mb @ trailing @ rest"
    and "f_reply_type f = t" "f_data_length f = 6 + int (length mb) + int (length trailing)"
  shows "exec (handle_structured_reply_error f) c =
    (Inr (f\<lparr>f_error := Some errno, f_message := Some msg\<rparr>), with_io c rest (sent c))"
proof -
  have n: "nat (int (length mb) + int (length trailing)) = length mb + length trailing" by simp
  show ?thesis
    using assms error_offset_never [OF assms(1)] utf8_decode_encode [OF assms(3)] n
    unfolding handle_structured_reply_error_def
    by (simp add: exec_simps seg_intros unpack_enc Let_def)
qed

definition chunk_body :: "int \<Rightarrow> int \<Rightarrow> int \<Rightarrow> chunk nbd_op" where
  "chunk_body flags reply_type data_length =
    (let flds = new_fields flags reply_type data_length in
     if reply_type = NBD_REPLY_TYPE_BLOCK_STATUS then handle_block_status_reply flds
     else if reply_type = NBD_REPLY_TYPE_NONE then
       seq (assert_protocol (PyBool (data_length = 0)))
      (seq (assert_protocol (PyBool (is_final_structured_reply_chunk flags)))
           (ret flds))
     else if reply_type = NBD_REPLY_TYPE_OFFSET_DATA then handle_data_reply flds
     else if reply_type = NBD_REPLY_TYPE_OFFSET_HOLE then handle_hole_reply flds
     else if is_error_chunk reply_type then handle_structured_reply_error flds
     else throw (NBDUnexpectedStructuredReplyType reply_type))"

lemma seg_chunk_body [seg_intros]: "seg_indep (chunk_body flags t n)"
  unfolding chunk_body_def by (intro seg_intros)

lemma parse_structured_reply_chunk_body:
  "parse_structured_reply_chunk =
     bnd (recvall (4 + 2 + 2 + 8 + 4)) (\<lambda>reply.
     bnd (lift_sum (unpack5 StructError 4 2 2 8 4 reply))
       (\<lambda>(magic, flags, reply_type, handle, data_length).
     seq (assert_protocol (PyBool (magic = NBD_STRUCTURED_REPLY_MAGIC)))
    (seq (check_handle handle) (chunk_body flags reply_type data_length))))"
  unfolding parse_structured_reply_chunk_def chunk_body_def ..

lemma chunk_body_enc:
  assumes "valid_chunk flags sc" "input c = enc_payload sc @ rest"
  shows "exec (chunk_body flags (chunk_type sc) (int (length (enc_payload sc)))) c
    = (Inr (decoded_chunk flags sc), with_io c rest (sent c))"
proof (cases sc)
  case S_None
  with assms show ?thesis
    by (simp add: chunk_body_def exec_simps seg_intros nbd_consts flat_def)
next
  case (S_Data off data)
  then have "8 + int (length data) - 8 = int (length data)" "1 \<le> length data"
    using assms(1) by (simp_all add: Suc_le_eq)
  with assms S_Data show ?thesis
    by (simp add: chunk_body_def handle_data_reply_def new_fields_def Let_def exec_simps seg_intros
        unpack_enc) (simp add: nbd_consts)
next
  case (S_Hole off hs)
  with assms show ?thesis
    by (simp add: chunk_body_def handle_hole_reply_def new_fields_def Let_def exec_simps seg_intros
        unpack_enc) (simp add: nbd_consts)
next
  case (S_Status ctx ds)
  then have n: "12 \<le> 4 + 8 * int (length ds)" "(4 + 8 * int (length ds)) mod 8 = 4"
      "nat (4 + 8 * int (length ds)) = 4 + 8 * length ds"
    using assms(1) by (cases ds, simp, simp) (presburger, simp)
  with assms S_Status show ?thesis
    by (simp add: chunk_body_def handle_block_status_reply_def new_fields_def Let_def exec_simps
        seg_intros unpack_enc parse_descriptors_enc)
next
  case (S_Error t errno msg trailing)
  then obtain mb where mb: "utf8_encode msg = Some mb" "fits 2 (int (length mb))"
    using assms(1) by (auto split: option.splits)
  with assms S_Error error_type_not_other [of t] show ?thesis
    by (simp add: chunk_body_def Let_def, subst handle_error_enc [of t errno msg mb _ trailing rest])
      (simp_all add: new_fields_def)
qed

lemma parse_chunk_enc:
  assumes "fits 2 flags" "valid_chunk flags sc" "fits 4 (int (length (enc_payload sc)))"
    and "fits 8 (c_handle c)" "input c = enc_chunk (c_handle c) flags sc @ rest"
  shows "exec parse_structured_reply_chunk c = (Inr (decoded_chunk flags sc), with_io c rest (sent c))"
proof -
  have t: "fits 2 (chunk_type sc)"
    using assms(2) by (cases sc) (simp_all add: fits_def nbd_consts)
  with assms chunk_body_enc [OF assms(2), of "with_io c (enc_payload sc @ rest) (sent c)" rest]
  show ?thesis
    unfolding parse_structured_reply_chunk_body enc_chunk_def
    by (simp add: exec_simps seg_intros unpack_enc)
qed

text \<open>A whole structured reply: chunks of one request, the last one final.\<close>

definition enc_chunks :: "int \<Rightarrow> (int \<times> server_chunk) list \<Rightarrow> bytes" where
  "enc_chunks handle cs = concat (map (\<lambda>(flags, sc). enc_chunk handle flags sc) cs)"

fun well_formed_reply :: "(int \<times> server_chunk) list \<Rightarrow> bool" where
  "well_formed_reply [] \<longleftrightarrow> False"
| "well_formed_reply ((flags, sc) # cs) \<longleftrightarrow>
     fits 2 flags \<and> valid_chunk flags sc \<and> fits 4 (int (length (enc_payload sc))) \<and>
     (if is_final_structured_reply_chunk flags then cs = [] else well_formed_reply cs)"

lemma f_flags_decoded [simp]: "f_flags (decoded_chunk flags sc) = flags"
  by (cases sc) (simp_all add: new_fields_def)

lemma parse_structured_reply_chunks_unfold:
  "parse_structured_reply_chunks =
     bnd parse_structured_reply_chunk (\<lambda>reply.
       if is_final_structured_reply_chunk (f_flags reply) then ret [reply]
       else bnd parse_structured_reply_chunks (\<lambda>rs. ret (reply # rs)))"
  by (rule ext) (auto simp: parse_structured_reply_chunks.simps [of x for x] bnd_def
      split: prod.split sum.split)

lemma parse_chunks_enc:
  assumes "well_formed_reply cs" "fits 8 (c_handle c)" "input c = enc_chunks (c_handle c) cs @ rest"
  shows "exec parse_structured_reply_chunks c =
    (Inr (map (\<lambda>(flags, sc). decoded_chunk flags sc) cs), with_io c rest (sent c))"
  using assms
proof (induction cs arbitrary: c)
  case (Cons x cs)
  obtain flags sc where x: "x = (flags, sc)" by fastforce
  have i: "input c = enc_chunk (c_handle c) flags sc @ (enc_chunks (c_handle c) cs @ rest)"
    using Cons.prems(3) by (simp add: x enc_chunks_def)
  have p: "exec parse_structured_reply_chunk c =
    (Inr (decoded_chunk flags sc), with_io c (enc_chunks (c_handle c) cs @ rest) (sent c))"
    by (rule parse_chunk_enc) (use Cons.prems x i in auto)
  show ?case
  proof (cases "is_final_structured_reply_chunk flags")
    case True
    with Cons.prems p x show ?thesis
      by (subst parse_structured_reply_chunks_unfold) (simp add: exec_simps seg_intros enc_chunks_def)
  next
    case False
    with Cons.prems Cons.IH [of "with_io c (enc_chunks (c_handle c) cs @ rest) (sent c)"] p x
    show ?thesis
      by (subst parse_structured_reply_chunks_unfold) (simp add: exec_simps seg_intros)
  qed
qed simp

end
