(* ===== verification/Nbd_Properties.thy ===== *)
theory Nbd_Properties
  imports Nbd_Proofs
begin

text \<open>
  The properties of the NBD client: the public methods as one type of calls,
  the clients reachable from a constructor, and the theorems on reading,
  accepting replies, requests, structured replies and closing.
\<close>

section \<open>Calls and reachable clients\<close>

datatype nbd_call =
    Call_request_info ustr "int list"
  | Call_negotiate_structured_reply
  | Call_set_meta_contexts ustr "ustr list"
  | Call_list_meta_contexts ustr "ustr list"
  | Call_connect ustr
  | Call_write bytes int
  | Call_read int int
  | Call_consume_chunks
  | Call_flush
  | Call_query_block_status int int
  | Call_get_size
  | Call_close

datatype nbd_value =
    V_Unit | V_Int int | V_Bool bool | V_Infos "nbd_info list"
  | V_Contexts "(int \<times> ustr) list" | V_Chunks "chunk list" | V_Read read_result

definition returning :: "('a \<Rightarrow> nbd_value) \<Rightarrow> 'a nbd_op \<Rightarrow> nbd_value nbd_op" where
  "returning v m = bnd m (\<lambda>x. ret (v x))"

fun call_op :: "nbd_call \<Rightarrow> nbd_value nbd_op" where
  "call_op (Call_request_info name reqs) = returning V_Infos (request_info name reqs)"
| "call_op Call_negotiate_structured_reply = returning (\<lambda>_. V_Unit) negotiate_structured_reply"
| "call_op (Call_set_meta_contexts name qs) = returning V_Contexts (set_meta_contexts name qs)"
| "call_op (Call_list_meta_contexts name qs) = returning V_Contexts (list_meta_contexts name qs)"
| "call_op (Call_connect name) = returning (\<lambda>_. V_Unit) (nbd_connect name)"
| "call_op (Call_write data off) = returning V_Int (nbd_write data off)"
| "call_op (Call_read off len) = returning V_Read (nbd_read off len)"
| "call_op Call_consume_chunks = returning V_Chunks parse_structured_reply_chunks"
| "call_op Call_flush = returning V_Bool nbd_flush"
| "call_op (Call_query_block_status off len) = returning V_Chunks (query_block_status off len)"
| "call_op Call_get_size = returning V_Int get_size"
| "call_op Call_close = returning (\<lambda>_. V_Unit) nbd_close"

lemma seg_call_op [seg_intros]: "seg_indep (call_op k)"
  by (cases k) (simp_all add: returning_def seg_intros)

text \<open>Clients after a successful construction and any calls, also failed ones.\<close>

inductive nbd_reachable :: "(sock \<Rightarrow> sock option) \<Rightarrow> nbd_client \<Rightarrow> bool"
  for wrap :: "sock \<Rightarrow> sock option" where
  init: "nbd_init wrap name use_tls new_style do_connect k = (Inr (), c) \<Longrightarrow> nbd_reachable wrap c"
| call: "nbd_reachable wrap c \<Longrightarrow> nbd_reachable wrap (snd (call_op q c))"

definition client_inv :: "nbd_client \<Rightarrow> bool" where
  "client_inv c \<longleftrightarrow> 0 \<le> c_handle c
     \<and> (c_transmission_phase c \<longrightarrow> c_size c \<noteq> None \<and> c_transmission_flags c \<noteq> None)"

definition connected_inv :: "nbd_client \<Rightarrow> bool" where
  "connected_inv c \<longleftrightarrow> 0 \<le> c_handle c \<and> c_size c \<noteq> None \<and> c_transmission_flags c \<noteq> None"

lemma client_inv_flat [simp]: "client_inv (flat c) = client_inv c"
  by (simp add: client_inv_def)

lemma connected_inv_flat [simp]: "connected_inv (flat c) = connected_inv c"
  by (simp add: connected_inv_def)

text \<open>Reading and sending only touch the socket.\<close>

lemma io_fields:
  "client_inv (snd (recvall n c)) = client_inv c" "client_inv (snd (sendall b c)) = client_inv c"
  "connected_inv (snd (recvall n c)) = connected_inv c"
  by (simp_all add: recvall_def sendall_def on_sock_def client_inv_def connected_inv_def
      split: prod.split)

lemma inv_keeps [keeps_intros]:
  "keeps client_inv (recvall n)" "keeps client_inv (sendall b)" "keeps connected_inv (recvall n)"
  by (rule keepsI, simp add: io_fields)+

lemma inv_updates [keeps_intros]:
  "keeps client_inv (modify (\<lambda>c. c\<lparr>c_last_sent_option := p\<rparr>))"
  "keeps client_inv (modify (\<lambda>c. c\<lparr>c_structured_reply := b\<rparr>))"
  "keeps client_inv (modify (\<lambda>c. c\<lparr>c_flushed := b\<rparr>))"
  "keeps client_inv (modify (\<lambda>c. c\<lparr>c_closed := b\<rparr>))"
  "keeps client_inv (modify (\<lambda>c. c\<lparr>c_handle := c_handle c + 1\<rparr>))"
  "keeps connected_inv (modify (\<lambda>c. c\<lparr>c_transmission_phase := b\<rparr>))"
  by (rule keeps_modify, simp add: client_inv_def connected_inv_def)+

lemma inv_encode [keeps_intros]: "keeps P (encode_utf8 u)" "keeps P (check_alignment v)"
  unfolding encode_utf8_def check_alignment_def by (intro keeps_intros)+

lemma connected_client: "connected_inv c \<Longrightarrow> client_inv c"
  by (simp add: connected_inv_def client_inv_def)

lemma inv_enter_transmission [keeps_intros]:
  "keeps client_inv
     (seq (modify (\<lambda>c. c\<lparr>c_size := Some z, c_transmission_flags := Some f\<rparr>)) k)"
  if "keeps connected_inv k" for k :: "unit nbd_op"
  by (rule keeps_seq_mid [where Q = connected_inv])
    (use that in \<open>auto simp: client_inv_def connected_inv_def modify_def intro: connected_client\<close>)

lemma inv_option [keeps_intros]:
  "keeps client_inv (send_option opt data)" "keeps client_inv parse_option_reply"
  unfolding send_option_def parse_option_reply_def by (intro keeps_intros)+

lemma inv_option_replies [keeps_intros]:
  "keeps client_inv parse_option_reply_ack" "keeps client_inv parse_meta_context_reply"
  "keeps client_inv (parse_info data)"
  unfolding parse_option_reply_ack_def parse_meta_context_reply_def parse_info_def
  by (intro keeps_intros)+

lemma keeps_meta_context_loop [keeps_intros]:
  assumes "keeps P parse_meta_context_reply"
  shows "keeps P meta_context_loop"
proof (rule keepsI)
  fix c show "P c \<Longrightarrow> P (snd (meta_context_loop c))"
  proof (induction c rule: meta_context_loop.induct)
    case (1 c)
    show ?case
      unfolding meta_context_loop.simps [of c]
    proof (rule bnd_keeps [where P = P, OF assms "1.prems"])
      fix x c1 assume "parse_meta_context_reply c = (Inr x, c1)" "P c1"
      with "1.IH" show "P (snd (case x of None \<Rightarrow> ret [] c1
          | Some r \<Rightarrow> bnd meta_context_loop (\<lambda>rs. ret (r # rs)) c1))"
        by (cases x) (auto simp: ret_def bnd_def split: prod.split sum.split)
    qed
  qed
qed

lemma inv_handlers [keeps_intros]:
  "keeps client_inv (handle_block_status_reply f)" "keeps client_inv (handle_data_reply f)"
  "keeps client_inv (handle_hole_reply f)" "keeps client_inv (handle_structured_reply_error f)"
  unfolding handle_block_status_reply_def handle_data_reply_def handle_hole_reply_def
    handle_structured_reply_error_def
  by (intro keeps_intros)+

lemma inv_chunk [keeps_intros]: "keeps client_inv parse_structured_reply_chunk"
  unfolding parse_structured_reply_chunk_def by (intro keeps_intros)

lemma keeps_chunks [keeps_intros]:
  assumes "keeps P parse_structured_reply_chunk"
  shows "keeps P parse_structured_reply_chunks"
proof (rule keepsI)
  fix c show "P c \<Longrightarrow> P (snd (parse_structured_reply_chunks c))"
  proof (induction c rule: parse_structured_reply_chunks.induct)
    case (1 c)
    show ?case
      unfolding parse_structured_reply_chunks.simps [of c]
    proof (rule bnd_keeps [where P = P, OF assms "1.prems"])
      fix x c1 assume "parse_structured_reply_chunk c = (Inr x, c1)" "P c1"
      with "1.IH" show "P (snd (if is_final_structured_reply_chunk (f_flags x) then ret [x] c1
          else bnd parse_structured_reply_chunks (\<lambda>rs. ret (x # rs)) c1))"
        by (auto simp: ret_def bnd_def split: prod.split sum.split)
    qed
  qed
qed

lemma inv_request_info_loop [keeps_intros]: "keeps client_inv (request_info_loop infos)"
proof (rule keepsI)
  fix c show "client_inv c \<Longrightarrow> client_inv (snd (request_info_loop infos c))"
  proof (induction infos c rule: request_info_loop.induct)
    case (1 infos c)
    show ?case
      unfolding request_info_loop.simps [of infos c]
    proof (rule bnd_keeps [where P = client_inv, OF _ "1.prems"], rule keeps_intros)
      fix x c1 assume m: "parse_option_reply c = (Inr x, c1)" "client_inv c1"
      obtain t data where x: "x = (t, data)" by fastforce
      have "client_inv (snd (bnd (parse_info data) (\<lambda>info.
          request_info_loop (case info of None \<Rightarrow> infos | Some i \<Rightarrow> infos @ [i])) c1))"
        if "t = NBD_REP_INFO"
        by (rule bnd_keeps [where P = client_inv, OF _ m(2)], rule keeps_intros, rule "1.IH" [OF m(1) x [symmetric] that])
      moreover have "client_inv (snd (seq (assert_protocol (PyBool (data = []))) (ret infos) c1))"
        by (rule keepsD [where P = client_inv, OF _ m(2)]) (intro keeps_intros)
      ultimately show "client_inv (snd (case x of (reply_type, data) \<Rightarrow>
         if reply_type = NBD_REP_INFO then
           bnd (parse_info data) (\<lambda>info.
             request_info_loop (case info of None \<Rightarrow> infos | Some i \<Rightarrow> infos @ [i])) c1
         else if reply_type = NBD_REP_ACK then
           seq (assert_protocol (PyBool (data = []))) (ret infos) c1
         else throw NBDProtocolError c1))"
        using x m(2) by (simp add: throw_def)
    qed
  qed
qed

lemma inv_pack_queries [keeps_intros]: "keeps client_inv (pack_queries qs)"
  by (induction qs) (auto intro!: keeps_intros)

lemma inv_haggling [keeps_intros]:
  "keeps client_inv (request_info name reqs)" "keeps client_inv negotiate_structured_reply"
  "keeps client_inv (set_meta_contexts name qs)" "keeps client_inv (list_meta_contexts name qs)"
  unfolding request_info_def negotiate_structured_reply_def set_meta_contexts_def
    list_meta_contexts_def send_meta_context_option_def process_meta_context_option_def
  by (intro keeps_intros)+

lemma inv_nbd_connect [keeps_intros]: "keeps client_inv (nbd_connect name)"
  unfolding nbd_connect_def
  by (rule keeps_bnd, rule keeps_intros, rule keeps_seq, rule keeps_intros,
      rule keeps_bnd, rule keeps_intros, rule keeps_bnd, rule keeps_intros,
      rule keeps_case_prod, rule inv_enter_transmission) (intro keeps_intros)

lemma inv_old_style [keeps_intros]: "keeps client_inv old_style_handshake"
  unfolding old_style_handshake_def
  by (rule keeps_bnd, rule keeps_intros, rule keeps_seq, rule keeps_intros,
      rule keeps_bnd, rule keeps_intros, rule keeps_bnd, rule keeps_intros,
      (rule keeps_case_prod)+, rule inv_enter_transmission) (intro keeps_intros)

lemma inv_requests [keeps_intros]:
  "keeps client_inv (send_request_header t off len)" "keeps client_inv (parse_simple_reply n)"
  "keeps client_inv need_flush" "keeps client_inv get_size"
  unfolding send_request_header_def parse_simple_reply_def need_flush_def get_size_def
  by (intro keeps_intros)+

lemma inv_flush_disconnect [keeps_intros]: "keeps client_inv nbd_flush" "keeps client_inv nbd_disconnect"
  unfolding nbd_flush_def nbd_disconnect_def by (intro keeps_intros)+

lemma inv_transmission [keeps_intros]:
  "keeps client_inv (nbd_write data off)" "keeps client_inv (nbd_read off len)"
  "keeps client_inv (query_block_status off len)" "keeps client_inv nbd_close"
  unfolding nbd_write_def nbd_read_def query_block_status_def nbd_close_def
  by (intro keeps_intros)+

lemma inv_call_op: "keeps client_inv (call_op q)"
  by (cases q) (auto simp: returning_def intro!: keeps_intros)

lemma inv_tls [keeps_intros]: "keeps client_inv (upgrade_socket_to_tls wrap)"
  by (rule keepsI) (simp add: upgrade_socket_to_tls_def client_inv_def split: option.split)

lemma inv_new_style [keeps_intros]: "keeps client_inv (fixed_new_style_handshake wrap use_tls)"
  unfolding fixed_new_style_handshake_def initiate_tls_upgrade_def by (intro keeps_intros)

lemma inv_nbd_init: "client_inv (snd (nbd_init wrap name use_tls new_style do_connect k))"
proof -
  have "client_inv (new_client k)" by (simp add: client_inv_def new_client_def)
  then show ?thesis
    unfolding nbd_init_def by (rule keepsD [rotated]) (intro keeps_intros)
qed

lemma reachable_inv: "nbd_reachable wrap c \<Longrightarrow> client_inv c"
proof (induction rule: nbd_reachable.induct)
  case (init name use_tls new_style do_connect k c)
  then show ?case using inv_nbd_init [of wrap name use_tls new_style do_connect k] by simp
next
  case (call c q)
  then show ?case using keepsD [OF inv_call_op] by blast
qed

section \<open>Properties\<close>

text \<open>
  C6: Segmentation independence. On two clients that differ only in how the
  server's pending bytes are cut into segments, every public call returns or
  raises the same, and leaves clients that again differ only in segmentation.
\<close>

theorem segmentation_independence:
  assumes "flat c = flat d"
  shows "fst (call_op q c) = fst (call_op q d)
    \<and> flat (snd (call_op q c)) = flat (snd (call_op q d))"
  using seg_call_op assms by (rule seg_indep_observe)

theorem segmentation_independence_witness:
  "fst (call_op (Call_query_block_status 0 512) (new_client \<lparr>rx = [[1, 2], [3]], rx_end = Peer_Closed, tx = []\<rparr>))
   = fst (call_op (Call_query_block_status 0 512) (new_client \<lparr>rx = [[1], [], [2, 3]], rx_end = Peer_Closed, tx = []\<rparr>))"
proof -
  have "flat (new_client \<lparr>rx = [[1, 2], [3]], rx_end = Peer_Closed, tx = []\<rparr>)
      = flat (new_client \<lparr>rx = [[1], [], [2, 3]], rx_end = Peer_Closed, tx = []\<rparr>)"
    by (simp add: flat_def with_io_def new_client_def input_def sent_def stream_def)
  from segmentation_independence [OF this] show ?thesis by (rule conjunct1)
qed

text \<open>
  C40: \<^verbatim>\<open>_recvall\<close> refines reading from a flat byte stream: it returns exactly
  the first \<open>n\<close> pending bytes when there are that many, otherwise it raises
  the end-of-file or time-out error, in both cases it has consumed what it
  read, and it sends nothing.
\<close>

theorem recvall_refines_stream:
  "fst (recvall n c) = (if n \<le> length (input c) then Inr (take n (input c)) else Inl (end_error c))
   \<and> input (snd (recvall n c)) = drop n (input c)
   \<and> sent (snd (recvall n c)) = sent c"
proof -
  have "flat (snd (recvall n c)) = with_io c (drop n (input c)) (sent c)"
    using snd_exec [of "recvall n" c] by (simp add: exec_simps split: if_splits)
  then have "sent (snd (recvall n c)) = sent c" by (metis flat_sel(2) with_io_sel(2))
  then show ?thesis
    using fst_exec [of "recvall n" c] input_recvall [of n c] by (auto simp: exec_simps)
qed

text \<open>
  An option reply is accepted if and only if the pending bytes start with
  the encoding of that reply, for the option sent last and without the error
  bit; then exactly these bytes are consumed.
\<close>

theorem option_reply_accepted_iff:
  "(\<exists>c'. parse_option_reply c = (Inr (t, data), c') \<and> input c' = rest) \<longleftrightarrow>
   (\<exists>opt. c_last_sent_option c = Some opt \<and> fits 4 opt \<and> fits 4 t \<and> fits 4 (int (length data))
      \<and> t AND NBD_REP_ERROR_BIT = 0 \<and> input c = enc_option_reply opt t data @ rest)"
    (is "?L \<longleftrightarrow> ?R")
proof
  assume ?L
  then show ?R using parse_option_reply_sound by blast
next
  assume ?R
  then have e: "exec parse_option_reply c = (Inr (t, data), with_io c rest (sent c))"
    using parse_option_reply_complete by blast
  obtain r c' where p: "parse_option_reply c = (r, c')" by fastforce
  with e have "r = Inr (t, data)" "flat c' = with_io c rest (sent c)" by (simp_all add: exec_def)
  with p show ?L by (metis flat_sel(1) with_io_sel(1))
qed

text \<open>
  A reply is matched with its request: a simple reply that carries another
  handle than the last request's raises \<^verbatim>\<open>NBDUnexpectedReplyHandleError\<close> before
  its data is read; with the right handle and a non-zero error the data is
  consumed and \<^verbatim>\<open>NBDTransmissionError\<close> is raised; otherwise the data is returned.
\<close>

theorem simple_reply_outcome:
  assumes "fits 4 errno" "fits 8 handle"
    and "input c = enc_simple_reply errno handle data @ rest" "length data = n"
  shows "fst (parse_simple_reply n c) =
      (if handle \<noteq> c_handle c then Inl (NBDUnexpectedReplyHandleError (c_handle c) handle)
       else if errno \<noteq> 0 then Inl (NBDTransmissionError errno)
       else Inr data)
    \<and> input (snd (parse_simple_reply n c)) = (if handle \<noteq> c_handle c then data @ rest else rest)"
  using exec_parse_simple_reply [OF assms] fst_exec [of "parse_simple_reply n" c]
    arg_cong [OF snd_exec [of "parse_simple_reply n" c], of input]
  by (auto split: if_splits)

theorem simple_reply_outcome_witness:
  "fst (parse_simple_reply 2 ((new_client \<lparr>rx = [enc_simple_reply 5 1 [7, 8]], rx_end = Peer_Closed,
      tx = []\<rparr>)\<lparr>c_handle := 1\<rparr>)) = Inl (NBDTransmissionError 5)"
  using simple_reply_outcome [of 5 1 "(new_client \<lparr>rx = [enc_simple_reply 5 1 [7, 8]],
      rx_end = Peer_Closed, tx = []\<rparr>)\<lparr>c_handle := 1\<rparr>" "[7, 8]" "[]" 2]
  by (simp add: fits_def new_client_def input_def stream_def)

text \<open>
  A simple reply is accepted only if it is the one to the last request:
  whenever \<^verbatim>\<open>_parse_simple_reply\<close> returns, what it consumed is a reply with the
  protocol's magic number, error code 0 and the client's current handle,
  followed by the returned data, of the requested length.
\<close>

theorem simple_reply_accepts_only_current:
  assumes "parse_simple_reply n c = (Inr data, c')"
  shows "input c = enc_simple_reply 0 (c_handle c) data @ input c' \<and> length data = n
    \<and> sent c' = sent c \<and> c_handle c' = c_handle c"
proof -
  have f: "flat c' = with_io c (input c') (sent c)"
    and r: "input c = enc_simple_reply 0 (c_handle c) data @ input c'" "length data = n"
    using parse_simple_reply_sound [OF assms] by auto
  from f have "sent c' = sent c" "c_handle c' = c_handle c"
    by (metis flat_sel(2) with_io_sel(2), metis flat_sel(6) with_io_sel(6))
  with r show ?thesis by simp
qed

theorem simple_reply_accepts_only_current_witness:
  "\<exists>c'. parse_simple_reply 1 ((new_client \<lparr>rx = [enc_simple_reply 0 1 [7]], rx_end = Peer_Closed,
      tx = []\<rparr>)\<lparr>c_handle := 1\<rparr>) = (Inr [7], c') \<and> c_handle c' = 1"
proof -
  let ?c = "(new_client \<lparr>rx = [enc_simple_reply 0 1 [7]], rx_end = Peer_Closed,
      tx = []\<rparr>)\<lparr>c_handle := 1\<rparr>"
  have i: "input ?c = enc_simple_reply 0 1 [7] @ []"
    by (simp add: new_client_def input_def stream_def)
  have h: "c_handle ?c = 1" by simp
  have "fst (parse_simple_reply 1 ?c) = Inr [7]"
    using exec_parse_simple_reply [of 0 1 ?c "[7]" "[]" 1, OF _ _ i] fst_exec [of "parse_simple_reply 1" ?c]
    by (simp add: fits_def)
  then obtain c' where c': "parse_simple_reply 1 ?c = (Inr [7], c')" by (metis prod.collapse)
  with simple_reply_accepts_only_current [OF c'] h show ?thesis by auto
qed

text \<open>
  \<^verbatim>\<open>write\<close> on an aligned request the protocol can carry: the bytes sent are
  the request header with a fresh handle followed by the data, the client is
  marked unflushed, and the call returns the length, or raises
  \<^verbatim>\<open>NBDTransmissionError\<close> with the server's code.
\<close>

theorem write_request:
  assumes "off mod 512 = 0" "length data mod 512 = 0"
    and "fits 8 off" "fits 4 (int (length data))" "fits 8 (c_handle c + 1)"
    and "input c = enc_simple_reply errno (c_handle c + 1) [] @ rest" "fits 4 errno"
  shows "fst (nbd_write data off c) =
      (if errno = 0 then Inr (int (length data)) else Inl (NBDTransmissionError errno))
    \<and> sent (snd (nbd_write data off c)) =
        sent c @ enc_request NBD_CMD_WRITE (c_handle c + 1) off (int (length data)) @ data
    \<and> c_handle (snd (nbd_write data off c)) = c_handle c + 1
    \<and> \<not> c_flushed (snd (nbd_write data off c)) \<and> input (snd (nbd_write data off c)) = rest"
proof -
  let ?c' = "snd (nbd_write data off c)"
  note e = exec_nbd_write [OF assms]
  have f: "flat ?c' = with_io (c\<lparr>c_flushed := False, c_handle := c_handle c + 1\<rparr>) rest
       (sent c @ enc_request NBD_CMD_WRITE (c_handle c + 1) off (int (length data)) @ data)"
    using e snd_exec [of "nbd_write data off" c] by simp
  then have "sent ?c' = sent c @ enc_request NBD_CMD_WRITE (c_handle c + 1) off (int (length data)) @ data"
    and "input ?c' = rest" and "c_handle ?c' = c_handle c + 1" and "\<not> c_flushed ?c'"
    using flat_sel(1,2,4,6) [of ?c'] by simp_all
  with e fst_exec [of "nbd_write data off" c] show ?thesis by simp
qed

theorem write_request_witness:
  "fst (nbd_write [] 512 (new_client \<lparr>rx = [enc_simple_reply 28 1 []], rx_end = Peer_Closed, tx = []\<rparr>))
     = Inl (NBDTransmissionError 28)"
  using write_request [of 512 "[]" "new_client \<lparr>rx = [enc_simple_reply 28 1 []],
      rx_end = Peer_Closed, tx = []\<rparr>" 28 "[]"]
  by (simp add: fits_def new_client_def input_def stream_def)

text \<open>
  A misaligned \<^verbatim>\<open>write\<close> or \<^verbatim>\<open>read\<close> raises \<^verbatim>\<open>ValueError\<close> and has no effect at
  all: nothing is sent or read, and no handle is used.
\<close>

theorem misaligned_request_rejected:
  assumes "off mod 512 \<noteq> 0 \<or> len mod 512 \<noteq> 0"
  shows "nbd_read off len c = (Inl ValueError, c)
    \<and> (int (length data) = len \<longrightarrow> nbd_write data off c = (Inl ValueError, c))"
  using assms
  by (auto simp: nbd_read_def nbd_write_def check_alignment_def st_simps bnd_def)

theorem misaligned_request_rejected_witness:
  "nbd_read 100 512 (new_client \<lparr>rx = [], rx_end = Peer_Closed, tx = []\<rparr>)
     = (Inl ValueError, new_client \<lparr>rx = [], rx_end = Peer_Closed, tx = []\<rparr>)"
  using misaligned_request_rejected [of 100 512] by simp

text \<open>
  C5: Structured replies are decoded as they were encoded: on any well-formed
  sequence of data, hole, block-status, error and none chunks for the current
  request, the last one flagged as done, the client returns exactly these
  chunks in order and leaves the bytes that follow.
\<close>

theorem structured_reply_roundtrip:
  assumes "well_formed_reply cs" "fits 8 (c_handle c)" "input c = enc_chunks (c_handle c) cs @ rest"
  shows "fst (parse_structured_reply_chunks c) = Inr (map (\<lambda>(flags, sc). decoded_chunk flags sc) cs)
    \<and> input (snd (parse_structured_reply_chunks c)) = rest"
  using parse_chunks_enc [OF assms] fst_exec [of parse_structured_reply_chunks c]
    arg_cong [OF snd_exec [of parse_structured_reply_chunks c], of input]
  by simp

theorem structured_reply_roundtrip_witness:
  "fst (parse_structured_reply_chunks (new_client \<lparr>rx = [enc_chunks 0
      [(0, S_Data 512 [1, 2, 3]), (1, S_Status 7 [(65536, 0), (512, 3)])]], rx_end = Peer_Closed, tx = []\<rparr>))
   = Inr [decoded_chunk 0 (S_Data 512 [1, 2, 3]), decoded_chunk 1 (S_Status 7 [(65536, 0), (512, 3)])]"
proof -
  let ?cs = "[(0, S_Data 512 [1, 2, 3]), (1, S_Status 7 [(65536, 0), (512, 3)])]"
  let ?c = "new_client \<lparr>rx = [enc_chunks 0 ?cs], rx_end = Peer_Closed, tx = []\<rparr>"
  have "well_formed_reply ?cs"
    by (simp add: fits_def is_final_structured_reply_chunk_def nbd_consts)
  moreover have "fits 8 (c_handle ?c)" "input ?c = enc_chunks (c_handle ?c) ?cs @ []"
    by (simp_all add: fits_def new_client_def input_def stream_def)
  ultimately have "fst (parse_structured_reply_chunks ?c) = Inr (map (\<lambda>(flags, sc). decoded_chunk flags sc) ?cs)"
    using structured_reply_roundtrip by blast
  then show ?thesis by (simp only: list.map prod.case)
qed

text \<open>
  The offset of an \<^verbatim>\<open>NBD_REPLY_TYPE_ERROR_OFFSET\<close> chunk is never decoded: the
  constant is \<^verbatim>\<open>1 << 15 + 2\<close>, that is \<open>1 << 17\<close>, which no 16-bit reply type equals,
  so every error chunk the client returns has no offset field.
\<close>

theorem error_chunk_offset_lost:
  assumes "parse_structured_reply_chunk c = (Inr ch, c')" "is_error_chunk (f_reply_type ch)"
  shows "f_offset ch = None"
proof -
  from assms(1) obtain reply c1 flags t h dl where
    u: "unpack5 StructError 4 2 2 8 4 reply = Inr (NBD_STRUCTURED_REPLY_MAGIC, flags, t, h, dl)"
    and b: "chunk_body flags t dl c1 = (Inr ch, c')"
    unfolding parse_structured_reply_chunk_body
    by (auto elim!: bnd_InrE seq_InrE split: prod.splits)
  have t: "t \<noteq> NBD_REPLY_TYPE_ERROR_OFFSET" using u error_offset_never by (simp add: unpack_iffs)
  have ty: "f_reply_type ch = t"
    using b unfolding chunk_body_def handle_block_status_reply_def handle_data_reply_def
      handle_hole_reply_def handle_structured_reply_error_def new_fields_def Let_def
    by (auto split: if_splits prod.splits elim!: bnd_InrE seq_InrE)
  with assms(2) have e: "is_error_chunk t" by simp
  show ?thesis
    using b t error_type_not_other [OF e] e
    unfolding chunk_body_def handle_structured_reply_error_def new_fields_def Let_def
    by (auto split: if_splits prod.splits elim!: bnd_InrE seq_InrE)
qed

theorem error_chunk_offset_lost_witness:
  "\<exists>ch c'. parse_structured_reply_chunk (new_client \<lparr>rx = [enc_chunk 0 1
      (S_Error 0x8002 5 [] (enc_be 8 4096))], rx_end = Peer_Closed, tx = []\<rparr>) = (Inr ch, c')
     \<and> f_reply_type ch = 0x8002 \<and> f_offset ch = None"
proof -
  let ?sc = "S_Error 0x8002 5 [] (enc_be 8 4096)"
  let ?c = "new_client \<lparr>rx = [enc_chunk 0 1 ?sc], rx_end = Peer_Closed, tx = []\<rparr>"
  have e: "is_error_chunk 0x8002" by (simp add: is_error_chunk_def nbd_consts)
  have "fst (parse_structured_reply_chunk ?c) = Inr (decoded_chunk 1 ?sc)"
    using parse_chunk_enc [of 1 ?sc ?c "[]"] fst_exec [of parse_structured_reply_chunk ?c] e
    by (simp add: fits_def new_client_def input_def stream_def)
  then obtain c' where p: "parse_structured_reply_chunk ?c = (Inr (decoded_chunk 1 ?sc), c')"
    by (metis prod.collapse)
  have t: "f_reply_type (decoded_chunk 1 ?sc) = 0x8002" by (simp add: new_fields_def)
  from error_chunk_offset_lost [OF p] t e have "f_offset (decoded_chunk 1 ?sc) = None" by simp
  with p t show ?thesis by blast
qed

section \<open>Closing\<close>

lemma avoids_exec: "(\<And>c. fst (exec m c) \<noteq> Inl e) \<Longrightarrow> avoids e m"
  by (simp add: avoids_def fst_exec)

lemma avoids_io [avoids_intros]:
  "avoids AttributeError (recvall n)" "avoids AttributeError (sendall b)"
  "avoids AttributeError (assert_protocol a)"
  by (rule avoids_exec, simp add: exec_simps end_error_def split: rx_end.split)+

lemma avoids_codec [avoids_intros]:
  "avoids AttributeError (lift_sum (pack_fields StructError fs))"
  "avoids AttributeError (lift_sum (unpack3 StructError i j l bs))"
  by (rule avoids_lift_sum, simp add: pack_fields_eq unpack3_def unpack_def)+

lemma avoids_requests [avoids_intros]:
  "avoids AttributeError (send_request_header t off len)" "avoids AttributeError (parse_simple_reply n)"
  "avoids AttributeError (send_option opt data)"
  unfolding send_request_header_def parse_simple_reply_def check_handle_def send_option_def
  by (intro avoids_intros nbd_error.distinct(1) | simp)+

lemma avoids_nbd_disconnect [avoids_intros]: "avoids AttributeError nbd_disconnect"
  unfolding nbd_disconnect_def by (intro avoids_intros)

lemma nbd_flush_no_attribute_error:
  assumes "c_transmission_flags c \<noteq> None"
  shows "fst (nbd_flush c) \<noteq> Inl AttributeError"
proof -
  from assms obtain f where "c_transmission_flags c = Some f" by auto
  then have "need_flush c = (Inr (f AND NBD_FLAG_SEND_FLUSH \<noteq> 0), c)"
    by (simp add: need_flush_def bnd_def st_simps)
  then have "nbd_flush c = (if f AND NBD_FLAG_SEND_FLUSH = 0
      then seq (modify (\<lambda>c. c\<lparr>c_flushed := True\<rparr>)) (ret False) c
      else seq (send_request_header NBD_CMD_FLUSH 0 0) (seq (parse_simple_reply 0)
        (seq (modify (\<lambda>c. c\<lparr>c_flushed := True\<rparr>)) (ret True))) c)"
    by (simp add: nbd_flush_def bnd_def)
  moreover have "avoids AttributeError (seq (send_request_header NBD_CMD_FLUSH 0 0)
      (seq (parse_simple_reply 0) (seq (modify (\<lambda>c. c\<lparr>c_flushed := True\<rparr>)) (ret True))))"
    by (rule avoids_seq avoids_requests avoids_basic)+
  moreover have "avoids AttributeError (seq (modify (\<lambda>c. c\<lparr>c_flushed := True\<rparr>)) (ret False :: bool nbd_op))"
    by (rule avoids_seq avoids_basic)+
  ultimately show ?thesis by (simp add: avoids_def)
qed

lemma nbd_close_unfold:
  "nbd_close c =
    (case (if c_transmission_phase c \<and> \<not> c_flushed c then seq nbd_flush (ret ()) else ret ()) c of
       (Inl e, c1) \<Rightarrow> (Inl e, c1)
     | (Inr _, c1) \<Rightarrow> (if c_closed c1 then (Inr (), c1)
                      else seq nbd_disconnect (modify (\<lambda>c. c\<lparr>c_closed := True\<rparr>)) c1))"
  by (simp add: nbd_close_def bnd_def seq_def st_simps split: prod.split sum.split)

text \<open>
  C8: The client object stays consistent. In every client reachable from a
  successful construction by any sequence of calls, returned or raised, the
  handle is not negative and in the transmission phase the size and the flags
  are set, so \<^verbatim>\<open>get_size\<close> succeeds there and \<^verbatim>\<open>close\<close> never fails on a missing
  attribute.
\<close>

theorem reachable_client_consistent:
  assumes "nbd_reachable wrap c"
  shows "0 \<le> c_handle c
    \<and> (c_transmission_phase c \<longrightarrow> (\<exists>z. get_size c = (Inr z, c)))
    \<and> fst (nbd_close c) \<noteq> Inl AttributeError"
proof -
  have inv: "client_inv c" using assms by (rule reachable_inv)
  have size: "c_transmission_phase c \<longrightarrow> (\<exists>z. get_size c = (Inr z, c))"
    using inv by (auto simp: client_inv_def get_size_def bnd_def st_simps)
  have disc: "fst (seq nbd_disconnect (modify (\<lambda>c. c\<lparr>c_closed := True\<rparr>)) c1) \<noteq> Inl AttributeError"
    for c1
    using avoids_seq [OF avoids_nbd_disconnect avoids_basic(3)] by (metis avoids_def)
  have "fst (nbd_close c) \<noteq> Inl AttributeError"
  proof (cases "c_transmission_phase c \<and> \<not> c_flushed c")
    case True
    with inv have "fst (nbd_flush c) \<noteq> Inl AttributeError"
      by (intro nbd_flush_no_attribute_error) (simp add: client_inv_def)
    with True disc show ?thesis
      by (auto simp: nbd_close_unfold seq_def [of nbd_flush] bnd_def ret_def split: prod.split sum.split)
  next
    case False
    with disc show ?thesis by (auto simp: nbd_close_unfold ret_def)
  qed
  with inv size show ?thesis by (simp add: client_inv_def)
qed

lemma old_style_handshake_complete:
  assumes "input c = bytes_of ''NBDMAGIC'' @ enc_be 8 0x00420281861253 @ enc_be 8 z @ enc_be 4 f @ pad @ rest"
    and "fits 8 z" "fits 4 f" "length pad = 124"
  shows "exec old_style_handshake c =
    (Inr (), with_io (c\<lparr>c_size := Some z, c_transmission_flags := Some f, c_transmission_phase := True\<rparr>)
       rest (sent c))"
proof -
  have "fits 8 0x00420281861253" "length (bytes_of ''NBDMAGIC'') = 8"
    by (simp_all add: fits_def bytes_of_def)
  with assms show ?thesis
    unfolding old_style_handshake_def
    by (simp add: exec_simps seg_intros unpack_enc)
qed

theorem reachable_client_consistent_witness:
  "\<exists>c. nbd_reachable Some c \<and> c_transmission_phase c \<and> (\<exists>z. get_size c = (Inr z, c))"
proof -
  let ?k = "\<lparr>rx = [bytes_of ''NBDMAGIC'' @ enc_be 8 0x00420281861253 @ enc_be 8 1024 @ enc_be 4 0
      @ replicate 124 0], rx_end = Peer_Closed, tx = []\<rparr>"
  have i: "input (new_client ?k) = bytes_of ''NBDMAGIC'' @ enc_be 8 0x00420281861253 @ enc_be 8 1024
      @ enc_be 4 0 @ replicate 124 0 @ []"
    by (simp add: new_client_def input_def stream_def)
  obtain r c where c: "old_style_handshake (new_client ?k) = (r, c)" by fastforce
  with old_style_handshake_complete [OF i] have "r = Inr ()"
    and f: "flat c = with_io ((new_client ?k)\<lparr>c_size := Some 1024, c_transmission_flags := Some 0,
      c_transmission_phase := True\<rparr>) [] (sent (new_client ?k))"
    by (simp_all add: exec_def fits_def)
  with c have "nbd_init Some [] False False True ?k = (Inr (), c)" by (simp add: nbd_init_def)
  then have reach: "nbd_reachable Some c" by (rule nbd_reachable.init)
  have "c_transmission_phase c" using f flat_sel(9) [of c] by simp
  with reach reachable_client_consistent [OF reach] show ?thesis by blast
qed

text \<open>
  \<^verbatim>\<open>close\<close> on a connected client with unflushed writes, on a server that
  supports flushing: the flush request comes first and its reply is awaited,
  the disconnect request with the next handle comes last, and the client ends
  closed and flushed.
\<close>

theorem close_flushes_then_disconnects:
  assumes "c_transmission_phase c" "\<not> c_flushed c" "\<not> c_closed c"
    and "c_transmission_flags c = Some flags" "flags AND NBD_FLAG_SEND_FLUSH \<noteq> 0"
    and "fits 8 (c_handle c + 1)" "fits 8 (c_handle c + 2)"
    and "input c = enc_simple_reply 0 (c_handle c + 1) [] @ rest"
  shows "fst (nbd_close c) = Inr ()
    \<and> sent (snd (nbd_close c)) = sent c @ enc_request NBD_CMD_FLUSH (c_handle c + 1) 0 0
        @ enc_request NBD_CMD_DISC (c_handle c + 2) 0 0
    \<and> c_closed (snd (nbd_close c)) \<and> c_flushed (snd (nbd_close c))"
proof -
  have e: "exec nbd_close c = (Inr (), with_io
      (c\<lparr>c_flushed := True, c_handle := c_handle c + 2, c_closed := True\<rparr>) rest
      (sent c @ enc_request NBD_CMD_FLUSH (c_handle c + 1) 0 0
        @ enc_request NBD_CMD_DISC (c_handle c + 2) 0 0))"
    using assms exec_nbd_flush(2) [of "flat c" flags rest] unfolding nbd_close_def
    by (simp add: exec_simps seg_intros add.assoc flat_def)
  let ?c' = "snd (nbd_close c)"
  from e have "flat ?c' = with_io (c\<lparr>c_flushed := True, c_handle := c_handle c + 2, c_closed := True\<rparr>)
      rest (sent c @ enc_request NBD_CMD_FLUSH (c_handle c + 1) 0 0
        @ enc_request NBD_CMD_DISC (c_handle c + 2) 0 0)"
    using snd_exec [of nbd_close c] by simp
  then have "sent ?c' = sent c @ enc_request NBD_CMD_FLUSH (c_handle c + 1) 0 0
        @ enc_request NBD_CMD_DISC (c_handle c + 2) 0 0" "c_closed ?c'" "c_flushed ?c'"
    using flat_sel(2,4,5) [of ?c'] by simp_all
  with e fst_exec [of nbd_close c] show ?thesis by simp
qed

theorem close_flushes_then_disconnects_witness:
  "fst (nbd_close ((new_client \<lparr>rx = [enc_simple_reply 0 1 []], rx_end = Peer_Closed, tx = []\<rparr>)
      \<lparr>c_transmission_phase := True, c_flushed := False, c_transmission_flags := Some 5\<rparr>)) = Inr ()"
  using close_flushes_then_disconnects [of "(new_client \<lparr>rx = [enc_simple_reply 0 1 []],
      rx_end = Peer_Closed, tx = []\<rparr>)\<lparr>c_transmission_phase := True, c_flushed := False,
      c_transmission_flags := Some 5\<rparr>" 5 "[]"]
  by (simp add: fits_def new_client_def input_def stream_def nbd_consts)

lemma nbd_flush_Inr:
  assumes "nbd_flush c = (Inr b, c')"
  shows "c_flushed c'"
  using assms unfolding nbd_flush_def
  by (auto split: if_splits elim!: bnd_InrE seq_InrE)

definition same_status :: "bool \<Rightarrow> bool \<Rightarrow> nbd_client \<Rightarrow> bool" where
  "same_status phase flushed c \<longleftrightarrow> c_transmission_phase c = phase \<and> c_flushed c = flushed"

lemma same_status_io [keeps_intros]:
  "keeps (same_status p f) (sendall b)"
  "keeps (same_status p f) (modify (\<lambda>c. c\<lparr>c_last_sent_option := q\<rparr>))"
  "keeps (same_status p f) (modify (\<lambda>c. c\<lparr>c_closed := b'\<rparr>))"
  "keeps (same_status p f) (modify (\<lambda>c. c\<lparr>c_handle := c_handle c + 1\<rparr>))"
  by (rule keepsI, simp add: same_status_def sendall_def on_sock_def modify_def split: prod.split)+

lemma same_status_disconnect [keeps_intros]: "keeps (same_status p f) nbd_disconnect"
  unfolding nbd_disconnect_def send_request_header_def send_option_def by (intro keeps_intros)

text \<open>
  \<^verbatim>\<open>close\<close> is idempotent: after a successful \<^verbatim>\<open>close\<close>, a second one (for
  instance by \<^verbatim>\<open>__exit__\<close>) returns at once, sends nothing and changes nothing.
\<close>

theorem close_idempotent:
  assumes "nbd_close c = (Inr (), c')"
  shows "c_closed c' \<and> nbd_close c' = (Inr (), c')"
proof -
  from assms obtain u c1 where
    c1: "(if c_transmission_phase c \<and> \<not> c_flushed c then seq nbd_flush (ret ()) else ret ()) c = (Inr u, c1)"
    and c': "(if c_closed c1 then (Inr (), c1)
        else seq nbd_disconnect (modify (\<lambda>c. c\<lparr>c_closed := True\<rparr>)) c1) = (Inr (), c')"
    unfolding nbd_close_unfold by (auto split: prod.splits sum.splits)
  have f1: "c_transmission_phase c1 \<longrightarrow> c_flushed c1"
    using c1 nbd_flush_Inr by (auto split: if_splits elim!: seq_InrE)
  have "keeps (same_status p f) (seq nbd_disconnect (modify (\<lambda>c. c\<lparr>c_closed := True\<rparr>)))" for p f
    by (intro keeps_intros)
  then have "c_transmission_phase c' = c_transmission_phase c1 \<and> c_flushed c' = c_flushed c1"
    using c' keepsD [where P = "same_status (c_transmission_phase c1) (c_flushed c1)" and s = c1]
    by (force simp: same_status_def split: if_splits)
  moreover have "c_closed c'" using c' by (auto split: if_splits elim!: seq_InrE)
  ultimately show ?thesis using f1 by (auto simp: nbd_close_unfold ret_def)
qed

theorem close_idempotent_witness:
  "\<exists>c'. nbd_close (new_client \<lparr>rx = [], rx_end = Peer_Closed, tx = []\<rparr>) = (Inr (), c')
     \<and> nbd_close c' = (Inr (), c')"
proof -
  let ?c = "new_client \<lparr>rx = [], rx_end = Peer_Closed, tx = []\<rparr>"
  have "fst (nbd_close ?c) = Inr ()"
    unfolding fst_exec [symmetric, of nbd_close] unfolding nbd_close_def
    by (simp add: exec_simps seg_intros new_client_def fits_def nbd_consts)
  then obtain c' where c': "nbd_close ?c = (Inr (), c')" by (metis prod.collapse old.unit.exhaust)
  with close_idempotent [OF c'] show ?thesis by blast
qed

section \<open>Names on the wire\<close>

definition sent_is :: "bytes \<Rightarrow> nbd_client \<Rightarrow> bool" where
  "sent_is b c \<longleftrightarrow> sent c = b"

lemma sent_recvall [simp]: "sent (snd (recvall n c)) = sent c"
  using arg_cong [OF snd_exec [of "recvall n" c], of sent] by (simp add: exec_simps split: if_splits)

lemma sent_is_recvall [keeps_intros]: "keeps (sent_is b) (recvall n)"
  by (rule keepsI) (simp add: sent_is_def)

lemma sent_is_meta_context_loop: "keeps (sent_is b) meta_context_loop"
  by (rule keeps_meta_context_loop)
    (unfold parse_meta_context_reply_def parse_option_reply_def, intro keeps_intros)

text \<open>
  The length fields of \<^verbatim>\<open>set_meta_contexts\<close> count code points, not bytes:
  the option sent starts with the number of characters of the export name,
  followed by its UTF-8 bytes, and the two agree if and only if the name is
  ASCII. For any other name the message is not what the protocol asks for.
\<close>

theorem meta_context_name_length:
  assumes "utf8_encode name = Some nb" "fits 4 (int (length name))" "fits 4 (int (8 + length nb))"
  shows "sent (snd (set_meta_contexts name [] c)) =
      sent c @ enc_option NBD_OPT_SET_META_CONTEXT (enc_be 4 (int (length name)) @ nb @ enc_be 4 0)
    \<and> (length name = length nb \<longleftrightarrow> list_all (\<lambda>x. x < 128) name)"
proof -
  define data where "data = enc_be 4 (int (length name)) @ nb @ enc_be 4 0"
  have "set_meta_contexts name [] c = seq (send_option NBD_OPT_SET_META_CONTEXT data) meta_context_loop c"
    using assms by (simp add: set_meta_contexts_def send_meta_context_option_def data_def
        process_meta_context_option_def encode_utf8_def bnd_def lift_sum_def ret_def pack_be_fits)
  moreover have "exec (send_option NBD_OPT_SET_META_CONTEXT data) c = (Inr (),
      with_io (c\<lparr>c_last_sent_option := Some NBD_OPT_SET_META_CONTEXT\<rparr>) (input c)
        (sent c @ enc_option NBD_OPT_SET_META_CONTEXT data))"
    using assms(3) by (simp add: exec_send_option data_def)
  then obtain c1 where s: "send_option NBD_OPT_SET_META_CONTEXT data c = (Inr (), c1)"
      "sent c1 = sent c @ enc_option NBD_OPT_SET_META_CONTEXT data"
    by (auto simp: exec_def split: prod.splits) (metis flat_sel(2) with_io_sel(2))
  ultimately have "sent (snd (set_meta_contexts name [] c)) = sent (snd (meta_context_loop c1))"
    by (simp add: seq_def bnd_def)
  also have "\<dots> = sent c1"
    using keepsD [OF sent_is_meta_context_loop, of "sent c1" c1] by (simp add: sent_is_def)
  finally show ?thesis
    using s(2) utf8_encode_ascii_length [OF assms(1)] by (auto simp: data_def)
qed

theorem meta_context_name_length_witness:
  "sent (snd (set_meta_contexts [233] [] (new_client \<lparr>rx = [], rx_end = Peer_Closed, tx = []\<rparr>))) =
     enc_option NBD_OPT_SET_META_CONTEXT (enc_be 4 1 @ [195, 169] @ enc_be 4 0)"
proof -
  have u: "utf8_encode [233] = Some [195, 169]" by (simp add: utf8_char_def)
  from meta_context_name_length [OF u, of "new_client \<lparr>rx = [], rx_end = Peer_Closed, tx = []\<rparr>"]
  show ?thesis by (simp add: fits_def new_client_def sent_def)
qed

end
