(* ===== verification/Nbd_Extents.thy ===== *)
theory Nbd_Extents
  imports Nbd_Properties
begin

text \<open>
  The tool \<^verbatim>\<open>ocaml/vhd-tool/scripts/get_nbd_extents.py\<close>: it connects to an NBD
  export, selects the context \<^verbatim>\<open>base:allocation\<close> and asks for the block status of
  a range, request after request, until the range is covered. The generator
  \<^verbatim>\<open>_get_extents\<close> is always consumed whole by \<^verbatim>\<open>list\<close>, so it is modelled as
  returning the list of its extents.
\<close>

section \<open>The tool\<close>

definition MAX_REQUEST_LEN :: int where
  "MAX_REQUEST_LEN = (2 ^ 32 - 1) - (2 ^ 32 - 1) mod 512"

text \<open>An extent is its length and its flags.\<close>

type_synonym extent = "int \<times> int"

text \<open>
  The loop over the descriptors of one reply, from \<open>offset\<close>: the last one is
  cut at \<open>end_off\<close>. The result is the extents and the new offset.
\<close>

fun process_descriptors :: "int \<Rightarrow> int \<Rightarrow> extent list \<Rightarrow> nbd_error + extent list \<times> int" where
  "process_descriptors end_off offset [] = Inr ([], offset)"
| "process_descriptors end_off offset ((extent_length, flags) # ds) =
    (let extent_length = (if ds = [] then min extent_length (end_off - offset) else extent_length);
         offset' = offset + extent_length in
     if offset' \<le> end_off then
       map_sum id (\<lambda>(xs, off). ((extent_length, flags) # xs, off)) (process_descriptors end_off offset' ds)
     else Inl NBDProtocolError)"

text \<open>One turn of the \<^verbatim>\<open>while\<close> loop, over the method that queries the server.\<close>

definition extents_step ::
  "(int \<Rightarrow> int \<Rightarrow> chunk list nbd_op) \<Rightarrow> int \<Rightarrow> int \<Rightarrow> int \<Rightarrow> (extent list \<times> int) nbd_op" where
  "extents_step query meta_context_id end_off offset =
    (let request_len = min MAX_REQUEST_LEN (end_off - offset) in
     bnd (query offset request_len) (\<lambda>replies.
     seq (assert_protocol (PyBool (length replies = 1)))
    (let reply = hd replies in
     seq (require (\<not> is_error_chunk (f_reply_type reply)) OtherException)
    (seq (require (f_reply_type reply = NBD_REPLY_TYPE_BLOCK_STATUS) OtherException)
    (case f_context_id reply of
       None \<Rightarrow> throw KeyError
     | Some context_id \<Rightarrow>
         seq (assert_protocol (PyBool (context_id = meta_context_id)))
        (case f_descriptors reply of
           None \<Rightarrow> throw KeyError
         | Some descriptors \<Rightarrow>
             lift_sum (process_descriptors end_off offset descriptors)))))))"

section \<open>What the loop needs of the query\<close>

text \<open>
  A returned chunk of type block status carries its context and its
  descriptors, whose lengths are not negative; a successful query consumes
  input.
\<close>

definition status_chunk_ok :: "chunk \<Rightarrow> bool" where
  "status_chunk_ok r \<longleftrightarrow>
     (f_reply_type r = NBD_REPLY_TYPE_BLOCK_STATUS \<longrightarrow>
        f_context_id r \<noteq> None \<and>
        (case f_descriptors r of None \<Rightarrow> False | Some ds \<Rightarrow> list_all (\<lambda>(l, f). 0 \<le> l) ds))"

definition total_length :: "extent list \<Rightarrow> int" where
  "total_length xs = sum_list (map fst xs)"

lemma total_length_simps [simp]:
  "total_length [] = 0" "total_length (x # xs) = fst x + total_length xs"
  "total_length (xs @ ys) = total_length xs + total_length ys"
  by (simp_all add: total_length_def)

lemma process_descriptors_covers:
  assumes "process_descriptors end_off offset ds = Inr (xs, off)" "offset \<le> end_off"
    and "list_all (\<lambda>(l, f). 0 \<le> l) ds"
  shows "off = offset + total_length xs \<and> off \<le> end_off \<and> list_all (\<lambda>(l, f). 0 \<le> l) xs
    \<and> map snd xs = map snd ds"
  using assms
proof (induction end_off offset ds arbitrary: xs off rule: process_descriptors.induct)
  case (2 end_off offset l f ds)
  define l' where "l' = (if ds = [] then min l (end_off - offset) else l)"
  from "2.prems"(1) obtain ys where "offset + l' \<le> end_off" "xs = (l', f) # ys"
      "process_descriptors end_off (offset + l') ds = Inr (ys, off)"
    by (cases "process_descriptors end_off (offset + l') ds") (auto simp: l'_def Let_def split: if_splits)
  moreover from this "2.IH" [OF l'_def refl, of ys off] "2.prems" have
    "off = offset + l' + total_length ys \<and> off \<le> end_off \<and> list_all (\<lambda>(l, f). 0 \<le> l) ys
      \<and> map snd ys = map snd ds"
    by simp
  moreover have "0 \<le> l'" using "2.prems" by (simp add: l'_def)
  ultimately show ?case by simp
qed simp

locale block_status_source =
  fixes query :: "int \<Rightarrow> int \<Rightarrow> chunk list nbd_op"
  assumes chunks_ok: "query off len c = (Inr rs, c') \<Longrightarrow> list_all status_chunk_ok rs"
    and consumes: "query off len c = (Inr rs, c') \<Longrightarrow> length (input c') < length (input c)"
begin

lemma step_covers:
  assumes "extents_step query ctx end_off offset c = (Inr (xs, off), c')" "offset \<le> end_off"
  shows "off = offset + total_length xs \<and> off \<le> end_off \<and> list_all (\<lambda>(l, f). 0 \<le> l) xs"
proof -
  from assms(1) obtain rs c1 ds where q: "query offset (min MAX_REQUEST_LEN (end_off - offset)) c = (Inr rs, c1)"
    and "length rs = 1" "f_reply_type (hd rs) = NBD_REPLY_TYPE_BLOCK_STATUS"
      "f_descriptors (hd rs) = Some ds" "process_descriptors end_off offset ds = Inr (xs, off)"
    unfolding extents_step_def assert_protocol_def
    by (auto simp: Let_def split: option.splits elim!: bnd_InrE seq_InrE)
  moreover have "status_chunk_ok (hd rs)"
    using chunks_ok [OF q] \<open>length rs = 1\<close> by (cases rs) auto
  ultimately show ?thesis
    using process_descriptors_covers [of end_off offset ds xs off] assms(2)
    by (auto simp: status_chunk_ok_def)
qed

lemma step_consumes:
  assumes "extents_step query ctx end_off offset c = (Inr r, c')"
  shows "length (input c') < length (input c)"
  using assms consumes unfolding extents_step_def assert_protocol_def
  by (fastforce simp: Let_def split: option.splits elim!: bnd_InrE seq_InrE)

lemma step_no_key_error:
  assumes "extents_step query ctx end_off offset c = (Inl KeyError, c')"
    and "\<And>off len c c'. query off len c \<noteq> (Inl KeyError, c')"
  shows False
proof -
  have pd: "process_descriptors a b ds \<noteq> Inl KeyError" for a b ds
    by (induction a b ds rule: process_descriptors.induct) (fastforce simp: Let_def map_sum_def split: sum.splits if_splits)+
  obtain rs c1 where q: "query offset (min MAX_REQUEST_LEN (end_off - offset)) c = (Inr rs, c1)"
    using assms unfolding extents_step_def Let_def bnd_def [of "query _ _"]
    by (auto split: prod.splits sum.splits)
  then have "length rs = 1 \<Longrightarrow> status_chunk_ok (hd rs)"
    using chunks_ok [OF q] by (cases rs) auto
  then show False
    using assms(1) q pd unfolding extents_step_def assert_protocol_def
    by (auto simp: Let_def bnd_def seq_def require_def throw_def lift_sum_def status_chunk_ok_def
        split: option.splits if_splits)
qed

end


lemma parse_descriptors_nonneg:
  "parse_block_status_descriptors bs = Inr ds \<Longrightarrow> list_all (\<lambda>(l, f). 0 \<le> l) ds"
proof (induction bs arbitrary: ds rule: parse_block_status_descriptors.induct)
  case (1 data)
  show ?case
  proof (cases "data = []")
    case True
    with "1.prems" show ?thesis by (simp add: parse_block_status_descriptors.simps)
  next
    case False
    with "1.prems" obtain d ds' where d: "unpack2 StructError 4 4 (take 8 data) = Inr d"
        and ds: "parse_block_status_descriptors (drop 8 data) = Inr ds'" "ds = d # ds'"
      by (subst (asm) parse_block_status_descriptors.simps)
        (auto simp: map_sum_def split: sum.splits)
    have "0 \<le> fst d" using d by (cases d) (auto simp: unpack_iffs fits_def)
    with "1.IH" [OF False d ds(1)] ds show ?thesis by (auto split: prod.split)
  qed
qed

lemma parse_chunk_status_ok:
  assumes "parse_structured_reply_chunk c = (Inr r, c')"
  shows "status_chunk_ok r"
  using assms
  unfolding parse_structured_reply_chunk_def handle_block_status_reply_def handle_data_reply_def
    handle_hole_reply_def handle_structured_reply_error_def
  by (fastforce simp: Let_def status_chunk_ok_def new_fields_def nbd_consts
      dest: parse_descriptors_nonneg split: if_splits prod.splits elim!: bnd_InrE seq_InrE)

lemma parse_chunks_status_ok:
  "parse_structured_reply_chunks c = (Inr rs, c') \<Longrightarrow> list_all status_chunk_ok rs"
proof (induction c arbitrary: rs c' rule: parse_structured_reply_chunks.induct)
  case (1 c)
  from "1.prems" obtain r c1 where r: "parse_structured_reply_chunk c = (Inr r, c1)"
    and rs: "(if is_final_structured_reply_chunk (f_flags r) then ret [r] c1
       else bnd parse_structured_reply_chunks (\<lambda>rs. ret (r # rs)) c1) = (Inr rs, c')"
    unfolding parse_structured_reply_chunks.simps [of c] by (auto elim!: bnd_InrE)
  with "1.IH" [OF r] parse_chunk_status_ok [OF r] show ?case
    by (auto split: if_splits elim!: bnd_InrE)
qed

lemma parse_chunks_consumes:
  "parse_structured_reply_chunks c = (Inr rs, c') \<Longrightarrow> length (input c') < length (input c)"
proof (induction c arbitrary: rs c' rule: parse_structured_reply_chunks.induct)
  case (1 c)
  from "1.prems" obtain r c1 where r: "parse_structured_reply_chunk c = (Inr r, c1)"
    and rs: "(if is_final_structured_reply_chunk (f_flags r) then ret [r] c1
       else bnd parse_structured_reply_chunks (\<lambda>rs. ret (r # rs)) c1) = (Inr rs, c')"
    unfolding parse_structured_reply_chunks.simps [of c] by (auto elim!: bnd_InrE)
  with "1.IH" [OF r] parse_structured_reply_chunk_consumes [OF r] show ?case
    by (fastforce split: if_splits elim!: bnd_InrE)
qed

lemma send_request_header_input:
  "send_request_header t off len c = (r, c') \<Longrightarrow> input c' = input c"
  using arg_cong [OF snd_exec [of "send_request_header t off len" c], of input]
  by (simp add: exec_send_request_header split: if_splits)

interpretation bs: block_status_source query_block_status
proof
  fix off len c rs c' assume q: "query_block_status off len c = (Inr rs, c')"
  then obtain c1 where s: "send_request_header NBD_CMD_BLOCK_STATUS off len c = (Inr (), c1)"
    and p: "parse_structured_reply_chunks c1 = (Inr rs, c')"
    unfolding query_block_status_def by (auto elim: seq_InrE)
  show "list_all status_chunk_ok rs" using p by (rule parse_chunks_status_ok)
  show "length (input c') < length (input c)"
    using parse_chunks_consumes [OF p] send_request_header_input [OF s] by simp
qed

section \<open>The loop and the whole tool\<close>

function extents_loop :: "int \<Rightarrow> int \<Rightarrow> int \<Rightarrow> extent list nbd_op" where
  "extents_loop meta_context_id end_off offset c =
    (if offset < end_off then
       bnd (extents_step query_block_status meta_context_id end_off offset) (\<lambda>r c1.
         bnd (extents_loop meta_context_id end_off (snd r)) (\<lambda>ys c2. ret (fst r @ ys) c2) c1) c
     else ret [] c)"
  by pat_completeness auto
termination
  by (relation "measure (\<lambda>(ctx, e, off, c). length (input c))") (auto dest: bs.step_consumes)

declare extents_loop.simps [simp del]

definition get_extents_body :: "ustr \<Rightarrow> int \<Rightarrow> int \<Rightarrow> extent list nbd_op" where
  "get_extents_body exportname offset len =
     seq negotiate_structured_reply
    (let context = ustr_of ''base:allocation'' in
     bnd (set_meta_contexts exportname [context]) (\<lambda>selected_contexts.
     seq (assert_protocol (PyBool (length selected_contexts = 1)))
    (let (meta_context_id, meta_context_name) = hd selected_contexts in
     seq (assert_protocol (PyBool (meta_context_name = context)))
    (seq (nbd_connect exportname)
    (bnd get_size (\<lambda>size.
     seq (require (\<not> (offset < 0 \<or> len \<le> 0 \<or> offset + len > size)) ValueError)
         (extents_loop meta_context_id (offset + len) offset)))))))"

text \<open>
  The \<^verbatim>\<open>with\<close> statement: \<^verbatim>\<open>__exit__\<close> closes the client on return and on an
  exception, and an exception of \<^verbatim>\<open>close\<close> replaces the one in flight. A failed
  constructor leaves nothing to close.
\<close>

definition with_client :: "'a nbd_op \<Rightarrow> 'a nbd_op" where
  "with_client m c =
     (case m c of (r, c1) \<Rightarrow>
        case nbd_close c1 of
          (Inl e, c2) \<Rightarrow> (Inl e, c2)
        | (Inr _, c2) \<Rightarrow> (r, c2))"

definition get_extents :: "sock \<Rightarrow> ustr \<Rightarrow> int \<Rightarrow> int \<Rightarrow> (nbd_error + extent list) \<times> nbd_client" where
  "get_extents k exportname offset len =
     (case nbd_init Some exportname False True False k of
        (Inl e, c) \<Rightarrow> (Inl e, c)
      | (Inr _, c) \<Rightarrow> with_client (get_extents_body exportname offset len) c)"

lemma extents_loop_covers:
  "extents_loop ctx end_off offset c = (Inr xs, c') \<Longrightarrow> offset \<le> end_off \<Longrightarrow>
     total_length xs = end_off - offset \<and> list_all (\<lambda>(l, f). 0 \<le> l) xs"
proof (induction ctx end_off offset c arbitrary: xs c' rule: extents_loop.induct)
  case (1 ctx end_off offset c)
  show ?case
  proof (cases "offset < end_off")
    case True
    with "1.prems" obtain xs1 off ys c1 where
      s: "extents_step query_block_status ctx end_off offset c = (Inr (xs1, off), c1)"
      and ys: "extents_loop ctx end_off off c1 = (Inr ys, c')" "xs = xs1 @ ys"
      by (subst (asm) extents_loop.simps) (auto elim!: bnd_InrE)
    with "1.IH" [OF True s, of ys c'] bs.step_covers [OF s] "1.prems"(2) show ?thesis by auto
  next
    case False
    with "1.prems" show ?thesis by (subst (asm) extents_loop.simps) auto
  qed
qed


section \<open>Sessions with a conforming server\<close>

lemma seg_query [seg_intros]: "seg_indep (query_block_status off len)"
  unfolding query_block_status_def by (intro seg_intros)

lemma seg_extents_step [seg_intros]:
  "seg_indep (extents_step query_block_status ctx end_off offset)"
  unfolding extents_step_def by (intro seg_intros seg_helpers)

lemma extents_loop_unfold:
  "extents_loop ctx end_off offset =
     (if offset < end_off then
        bnd (extents_step query_block_status ctx end_off offset) (\<lambda>r.
          bnd (extents_loop ctx end_off (snd r)) (\<lambda>ys. ret (fst r @ ys)))
      else ret [])"
  by (rule ext) (subst extents_loop.simps, simp)

lemma seg_extents_loop [seg_intros]: "seg_indep (extents_loop ctx end_off offset)"
proof (rule seg_indepI)
  fix c d :: nbd_client assume "flat c = flat d"
  then show "exec (extents_loop ctx end_off offset) c = exec (extents_loop ctx end_off offset) d"
  proof (induction "length (input c)" arbitrary: offset c d rule: less_induct)
    case less
    show ?case
    proof (cases "offset < end_off")
      case True
      have "exec (bnd (extents_step query_block_status ctx end_off offset) (\<lambda>r.
          bnd (extents_loop ctx end_off (snd r)) (\<lambda>ys. ret (fst r @ ys)))) c
        = exec (bnd (extents_step query_block_status ctx end_off offset) (\<lambda>r.
          bnd (extents_loop ctx end_off (snd r)) (\<lambda>ys. ret (fst r @ ys)))) d"
      proof (rule exec_bnd_same [OF less.prems])
        fix r c1 d1 assume m: "extents_step query_block_status ctx end_off offset c = (Inr r, c1)"
          and eq: "flat c1 = flat d1"
        from less.hyps [OF bs.step_consumes [OF m] eq]
        show "exec (bnd (extents_loop ctx end_off (snd r)) (\<lambda>ys. ret (fst r @ ys))) c1 =
          exec (bnd (extents_loop ctx end_off (snd r)) (\<lambda>ys. ret (fst r @ ys))) d1"
          by (simp add: exec_bnd seg_intros)
      qed (rule seg_intros)
      with True show ?thesis by (simp add: extents_loop_unfold [of _ _ offset])
    next
      case False
      with less.prems show ?thesis
        by (simp add: extents_loop_unfold [of _ _ offset] exec_simps)
    qed
  qed
qed

text \<open>
  The block status of an export is a function from byte offsets to flags.
  A list of descriptors describes it from an offset on when each extent lies
  on bytes with its flags; a conforming server answers every request with one
  chunk of descriptors, of which only the last may pass the end of the range.
\<close>

fun describes :: "(int \<Rightarrow> int) \<Rightarrow> int \<Rightarrow> extent list \<Rightarrow> bool" where
  "describes status off [] \<longleftrightarrow> True"
| "describes status off ((l, f) # ds) \<longleftrightarrow>
     0 \<le> l \<and> (\<forall>p. off \<le> p \<and> p < off + l \<longrightarrow> status p = f) \<and> describes status (off + l) ds"

fun conforming :: "(int \<Rightarrow> int) \<Rightarrow> int \<Rightarrow> int \<Rightarrow> int \<Rightarrow> extent list list \<Rightarrow> bool" where
  "conforming status ctx end_off off [] \<longleftrightarrow> off = end_off"
| "conforming status ctx end_off off (ds # dss) \<longleftrightarrow>
     off < end_off \<and> well_formed_reply [(NBD_REPLY_FLAG_DONE, S_Status ctx ds)]
     \<and> describes status off ds \<and> off + total_length (butlast ds) \<le> end_off
     \<and> conforming status ctx end_off (min end_off (off + total_length ds)) dss"

definition enc_status_replies :: "int \<Rightarrow> int \<Rightarrow> extent list list \<Rightarrow> bytes" where
  "enc_status_replies handle ctx dss =
     concat (map (\<lambda>(i, ds). enc_chunks (handle + int i) [(NBD_REPLY_FLAG_DONE, S_Status ctx ds)])
       (enumerate 1 dss))"

lemma enc_status_replies_simps [simp]:
  "enc_status_replies h ctx [] = []"
  "enc_status_replies h ctx (ds # dss) =
     enc_chunks (h + 1) [(NBD_REPLY_FLAG_DONE, S_Status ctx ds)] @ enc_status_replies (h + 1) ctx dss"
proof -
  have "map (\<lambda>(i, ds). enc_chunks (h + int i) [(NBD_REPLY_FLAG_DONE, S_Status ctx ds)]) (enumerate (Suc n) xs)
    = map (\<lambda>(i, ds). enc_chunks (h + 1 + int i) [(NBD_REPLY_FLAG_DONE, S_Status ctx ds)]) (enumerate n xs)" for n xs
    by (induction xs arbitrary: n) (simp_all add: algebra_simps)
  from this [of 1 dss]
  show "enc_status_replies h ctx (ds # dss) =
     enc_chunks (h + 1) [(NBD_REPLY_FLAG_DONE, S_Status ctx ds)] @ enc_status_replies (h + 1) ctx dss"
    by (simp add: enc_status_replies_def)
qed (simp add: enc_status_replies_def)

text \<open>The requests that these replies answer, the handles counting on from \<open>handle\<close>.\<close>

fun enc_status_requests :: "int \<Rightarrow> int \<Rightarrow> int \<Rightarrow> extent list list \<Rightarrow> bytes" where
  "enc_status_requests handle end_off off [] = []"
| "enc_status_requests handle end_off off (ds # dss) =
     enc_request NBD_CMD_BLOCK_STATUS (handle + 1) off (min MAX_REQUEST_LEN (end_off - off))
     @ enc_status_requests (handle + 1) end_off (min end_off (off + total_length ds)) dss"

lemma process_descriptors_conforming:
  assumes "describes status off ds" "ds \<noteq> []" "off + total_length (butlast ds) \<le> end_off"
  shows "\<exists>xs. process_descriptors end_off off ds = Inr (xs, min end_off (off + total_length ds))
    \<and> describes status off xs \<and> total_length xs = min end_off (off + total_length ds) - off"
  using assms
proof (induction end_off off ds rule: process_descriptors.induct)
  case (2 end_off off l f ds)
  have nonneg: "describes status o' es \<Longrightarrow> 0 \<le> total_length (butlast es)" for o' es
    by (induction status o' es rule: describes.induct) auto
  show ?case
  proof (cases "ds = []")
    case True
    with "2.prems" show ?thesis by (auto simp: min_def)
  next
    case False
    with "2.prems" nonneg have le: "off + l \<le> end_off" by fastforce
    with False "2.IH" [OF refl refl] "2.prems" obtain xs where
      "process_descriptors end_off (off + l) ds = Inr (xs, min end_off (off + l + total_length ds))"
      "describes status (off + l) xs"
      "total_length xs = min end_off (off + l + total_length ds) - (off + l)"
      by (auto simp: add.assoc)
    with False le "2.prems" show ?thesis by (simp add: add.assoc)
  qed
qed simp

lemma describes_append:
  "describes status off (xs @ ys) \<longleftrightarrow> describes status off xs \<and> describes status (off + total_length xs) ys"
  by (induction status off xs rule: describes.induct) (auto simp: add.assoc)

lemma MAX_REQUEST_LEN_fits: "0 \<le> v \<Longrightarrow> fits 4 (min MAX_REQUEST_LEN v)"
  by (simp add: MAX_REQUEST_LEN_def fits_def min_def)

lemma exec_query_conforming:
  assumes "well_formed_reply [(NBD_REPLY_FLAG_DONE, S_Status ctx ds)]"
    and "fits 8 (c_handle c + 1)" "fits 8 off" "fits 4 len"
    and "input c = enc_chunks (c_handle c + 1) [(NBD_REPLY_FLAG_DONE, S_Status ctx ds)] @ rest"
  shows "exec (query_block_status off len) c =
    (Inr [decoded_chunk NBD_REPLY_FLAG_DONE (S_Status ctx ds)],
     with_io (c\<lparr>c_handle := c_handle c + 1\<rparr>) rest
       (sent c @ enc_request NBD_CMD_BLOCK_STATUS (c_handle c + 1) off len))"
  using assms parse_chunks_enc [OF assms(1), of "with_io (c\<lparr>c_handle := c_handle c + 1\<rparr>) (input c)
      (sent c @ enc_request NBD_CMD_BLOCK_STATUS (c_handle c + 1) off len)" rest]
  unfolding query_block_status_def by (simp add: exec_simps seg_intros)

lemma exec_step_conforming:
  assumes "well_formed_reply [(NBD_REPLY_FLAG_DONE, S_Status ctx ds)]"
    and "fits 8 (c_handle c + 1)" "fits 8 off" "off < end_off"
    and "describes status off ds" "off + total_length (butlast ds) \<le> end_off"
    and "input c = enc_chunks (c_handle c + 1) [(NBD_REPLY_FLAG_DONE, S_Status ctx ds)] @ rest"
  shows "\<exists>xs. exec (extents_step query_block_status ctx end_off off) c =
      (Inr (xs, min end_off (off + total_length ds)), with_io (c\<lparr>c_handle := c_handle c + 1\<rparr>) rest
        (sent c @ enc_request NBD_CMD_BLOCK_STATUS (c_handle c + 1) off (min MAX_REQUEST_LEN (end_off - off))))
    \<and> describes status off xs \<and> total_length xs = min end_off (off + total_length ds) - off"
proof -
  have "ds \<noteq> []" using assms(1) by simp
  from process_descriptors_conforming [OF assms(5) this assms(6)] obtain xs where
    xs: "process_descriptors end_off off ds = Inr (xs, min end_off (off + total_length ds))"
      "describes status off xs" "total_length xs = min end_off (off + total_length ds) - off" by blast
  have "fits 4 (min MAX_REQUEST_LEN (end_off - off))"
    using assms(4) by (intro MAX_REQUEST_LEN_fits) simp
  with exec_query_conforming [OF assms(1-3) this assms(7)] xs show ?thesis
    unfolding extents_step_def
    by (intro exI [of _ xs])
      (simp add: exec_simps seg_intros seg_helpers Let_def new_fields_def is_error_chunk_def nbd_consts)
qed

lemma exec_loop_conforming:
  assumes "conforming status ctx end_off off dss" "0 \<le> off" "fits 8 end_off" "0 \<le> c_handle c"
    and "fits 8 (c_handle c + int (length dss))"
    and "input c = enc_status_replies (c_handle c) ctx dss @ rest"
  shows "\<exists>xs. exec (extents_loop ctx end_off off) c =
      (Inr xs, with_io (c\<lparr>c_handle := c_handle c + int (length dss)\<rparr>) rest
        (sent c @ enc_status_requests (c_handle c) end_off off dss))
    \<and> describes status off xs \<and> total_length xs = end_off - off"
  using assms
proof (induction dss arbitrary: off c)
  case Nil
  then show ?case
    by (intro exI [of _ "[]"], subst extents_loop_unfold) (simp add: exec_simps flat_def)
next
  case (Cons ds dss)
  let ?off' = "min end_off (off + total_length ds)"
  let ?req = "enc_request NBD_CMD_BLOCK_STATUS (c_handle c + 1) off (min MAX_REQUEST_LEN (end_off - off))"
  have "describes status o' es \<Longrightarrow> 0 \<le> total_length es" for o' es
    by (induction status o' es rule: describes.induct) auto
  with Cons.prems have off': "0 \<le> ?off'" by fastforce
  have "fits 8 (c_handle c + 1)" "fits 8 off"
    using Cons.prems by (auto simp: fits_def)
  with exec_step_conforming [of ctx ds c off end_off status "enc_status_replies (c_handle c + 1) ctx dss @ rest"]
    Cons.prems obtain xs where
    s: "exec (extents_step query_block_status ctx end_off off) c =
        (Inr (xs, ?off'), with_io (c\<lparr>c_handle := c_handle c + 1\<rparr>)
           (enc_status_replies (c_handle c + 1) ctx dss @ rest) (sent c @ ?req))"
      "describes status off xs" "total_length xs = ?off' - off"
    by auto
  let ?c = "with_io (c\<lparr>c_handle := c_handle c + 1\<rparr>) (enc_status_replies (c_handle c + 1) ctx dss @ rest)
    (sent c @ ?req)"
  have "\<exists>ys. exec (extents_loop ctx end_off ?off') ?c =
      (Inr ys, with_io (?c\<lparr>c_handle := c_handle ?c + int (length dss)\<rparr>) rest
        (sent ?c @ enc_status_requests (c_handle ?c) end_off ?off' dss))
    \<and> describes status ?off' ys \<and> total_length ys = end_off - ?off'"
    by (rule Cons.IH) (use Cons.prems off' in \<open>auto simp: add.assoc\<close>)
  then obtain ys where ys: "exec (extents_loop ctx end_off ?off') ?c =
      (Inr ys, with_io (c\<lparr>c_handle := c_handle c + int (length (ds # dss))\<rparr>) rest
        (sent c @ ?req @ enc_status_requests (c_handle c + 1) end_off ?off' dss))"
      "describes status ?off' ys" "total_length ys = end_off - ?off'"
    by (auto simp: add.assoc)
  have "exec (extents_loop ctx end_off off) c =
      (Inr (xs @ ys), with_io (c\<lparr>c_handle := c_handle c + int (length (ds # dss))\<rparr>) rest
        (sent c @ enc_status_requests (c_handle c) end_off off (ds # dss)))"
    using Cons.prems s(1) ys(1)
    by (subst extents_loop_unfold) (simp add: exec_simps seg_intros)
  with s ys show ?case by (intro exI [of _ "xs @ ys"]) (simp add: describes_append)
qed


text \<open>The bytes of a whole session, as a server with fixed newstyle negotiation sends them.\<close>

definition session_replies :: "int \<Rightarrow> int \<Rightarrow> int \<Rightarrow> bytes \<Rightarrow> extent list list \<Rightarrow> bytes" where
  "session_replies ctx z tflags pad dss =
     enc_option_reply NBD_OPT_STRUCTURED_REPLY NBD_REP_ACK []
     @ enc_option_reply NBD_OPT_SET_META_CONTEXT NBD_REP_META_CONTEXT
         (enc_be 4 ctx @ bytes_of ''base:allocation'')
     @ enc_option_reply NBD_OPT_SET_META_CONTEXT NBD_REP_ACK []
     @ enc_be 8 z @ enc_be 2 tflags @ pad
     @ enc_status_replies 0 ctx dss"

definition server_session ::
  "int \<Rightarrow> int \<Rightarrow> int \<Rightarrow> int \<Rightarrow> bytes \<Rightarrow> extent list list \<Rightarrow> bytes" where
  "server_session hflags ctx z tflags pad dss =
     bytes_of ''NBDMAGIC'' @ bytes_of ''IHAVEOPT'' @ enc_be 2 hflags @ session_replies ctx z tflags pad dss"

lemma fits_reps [simp]: "fits 4 NBD_REP_ACK" "fits 4 NBD_REP_META_CONTEXT"
  "NBD_REP_ACK AND NBD_REP_ERROR_BIT = 0" "NBD_REP_META_CONTEXT AND NBD_REP_ERROR_BIT = 0"
  "NBD_REP_META_CONTEXT \<noteq> NBD_REP_ACK" "fits 4 0"
  by (simp_all add: fits_def nbd_consts)

lemma exec_init_session:
  assumes "input (new_client k) = bytes_of ''NBDMAGIC'' @ bytes_of ''IHAVEOPT'' @ enc_be 2 hflags @ rest"
    and "fits 2 hflags" "hflags AND NBD_FLAG_HAS_FLAGS \<noteq> 0"
  shows "exec (fixed_new_style_handshake wrap False) (new_client k) =
    (Inr (), with_io (new_client k) rest (sent (new_client k) @ enc_be 4 NBD_FLAG_C_FIXED_NEWSTYLE))"
proof -
  have "length (bytes_of s) = length s" for s by (simp add: bytes_of_def)
  moreover have "fits 4 NBD_FLAG_C_FIXED_NEWSTYLE" by (simp add: fits_def nbd_consts)
  ultimately show ?thesis using assms unfolding fixed_new_style_handshake_def
    by (simp add: exec_simps seg_intros unpack_enc pack_be_fits)
qed

lemma exec_negotiate_session:
  assumes "input c = enc_option_reply NBD_OPT_STRUCTURED_REPLY NBD_REP_ACK [] @ rest"
  shows "exec negotiate_structured_reply c =
    (Inr (), with_io (c\<lparr>c_last_sent_option := Some NBD_OPT_STRUCTURED_REPLY, c_structured_reply := True\<rparr>) rest
      (sent c @ enc_option NBD_OPT_STRUCTURED_REPLY []))"
proof -
  let ?c = "with_io (c\<lparr>c_last_sent_option := Some NBD_OPT_STRUCTURED_REPLY\<rparr>) (input c)
    (sent c @ enc_option NBD_OPT_STRUCTURED_REPLY [])"
  have "exec parse_option_reply ?c = (Inr (NBD_REP_ACK, []), with_io ?c rest (sent ?c))"
    by (rule parse_option_reply_complete) (use assms in auto)
  then show ?thesis
    unfolding negotiate_structured_reply_def parse_option_reply_ack_def
    by (simp add: exec_simps seg_intros)
qed

lemma meta_context_loop_unfold:
  "meta_context_loop = bnd parse_meta_context_reply (\<lambda>reply.
     case reply of None \<Rightarrow> ret [] | Some r \<Rightarrow> bnd meta_context_loop (\<lambda>rs. ret (r # rs)))"
  by (rule ext) (auto simp: meta_context_loop.simps [of x for x] bnd_def
      split: prod.split sum.split option.split)

lemma exec_meta_context_loop_session:
  assumes "c_last_sent_option c = Some opt" "fits 4 opt" "fits 4 ctx"
    and "utf8_encode name = Some nb" "fits 4 (4 + int (length nb))"
    and "input c = enc_option_reply opt NBD_REP_META_CONTEXT (enc_be 4 ctx @ nb)
      @ enc_option_reply opt NBD_REP_ACK [] @ rest"
  shows "exec meta_context_loop c = (Inr [(ctx, name)], with_io c rest (sent c))"
proof -
  let ?rest = "enc_option_reply opt NBD_REP_ACK [] @ rest"
  have "exec parse_option_reply c = (Inr (NBD_REP_META_CONTEXT, enc_be 4 ctx @ nb), with_io c ?rest (sent c))"
    by (rule parse_option_reply_complete) (use assms in auto)
  then have 1: "exec parse_meta_context_reply c = (Inr (Some (ctx, name)), with_io c ?rest (sent c))"
    using assms utf8_decode_encode [OF assms(4)] unfolding parse_meta_context_reply_def
    by (simp add: exec_simps seg_intros unpack_enc)
  have "exec parse_option_reply (with_io c ?rest (sent c)) = (Inr (NBD_REP_ACK, []), with_io c rest (sent c))"
    using parse_option_reply_complete [of "with_io c ?rest (sent c)" opt NBD_REP_ACK "[]" rest] assms by simp
  then have 2: "exec parse_meta_context_reply (with_io c ?rest (sent c)) = (Inr None, with_io c rest (sent c))"
    unfolding parse_meta_context_reply_def by (simp add: exec_simps seg_intros)
  have "exec meta_context_loop (with_io c ?rest (sent c)) = (Inr [], with_io c rest (sent c))"
    by (subst meta_context_loop_unfold) (simp add: exec_simps seg_intros 2)
  with 1 show ?thesis
    by (subst meta_context_loop_unfold) (simp add: exec_simps seg_intros)
qed

text \<open>The data of the option that asks for \<^verbatim>\<open>base:allocation\<close>.\<close>

definition allocation_query :: "ustr \<Rightarrow> bytes \<Rightarrow> bytes" where
  "allocation_query name nb =
     enc_be 4 (int (length name)) @ nb @ enc_be 4 1 @ enc_be 4 15 @ bytes_of ''base:allocation''"

lemma exec_set_meta_contexts_session:
  assumes "utf8_encode name = Some nb" "fits 4 (int (length name))" "fits 4 (27 + int (length nb))" "fits 4 ctx"
    and "input c = enc_option_reply NBD_OPT_SET_META_CONTEXT NBD_REP_META_CONTEXT
        (enc_be 4 ctx @ bytes_of ''base:allocation'')
      @ enc_option_reply NBD_OPT_SET_META_CONTEXT NBD_REP_ACK [] @ rest"
  shows "exec (set_meta_contexts name [ustr_of ''base:allocation'']) c =
    (Inr [(ctx, ustr_of ''base:allocation'')],
     with_io (c\<lparr>c_last_sent_option := Some NBD_OPT_SET_META_CONTEXT\<rparr>) rest
       (sent c @ enc_option NBD_OPT_SET_META_CONTEXT (allocation_query name nb)))"
proof -
  have u: "utf8_encode (ustr_of ''base:allocation'') = Some (bytes_of ''base:allocation'')"
    and l: "length (bytes_of ''base:allocation'') = 15" "length (ustr_of ''base:allocation'') = 15"
    by (simp_all add: ustr_of_def bytes_of_def utf8_char_def)
  let ?data = "allocation_query name nb"
  let ?c = "with_io (c\<lparr>c_last_sent_option := Some NBD_OPT_SET_META_CONTEXT\<rparr>) (input c)
    (sent c @ enc_option NBD_OPT_SET_META_CONTEXT ?data)"
  have loop: "exec meta_context_loop ?c = (Inr [(ctx, ustr_of ''base:allocation'')], with_io ?c rest (sent ?c))"
    by (rule exec_meta_context_loop_session [where nb = "bytes_of ''base:allocation''"])
      (use assms u l in \<open>simp_all, simp add: fits_def\<close>)
  have "fits 4 1" "fits 4 15" by (simp_all add: fits_def)
  with assms u l loop show ?thesis
    unfolding set_meta_contexts_def send_meta_context_option_def process_meta_context_option_def
      allocation_query_def
    by (simp add: encode_utf8_def exec_simps seg_intros pack_be_fits flat_def)
qed

lemma exec_connect_session:
  assumes "utf8_encode name = Some nb" "fits 4 (int (length nb))" "fits 8 z" "fits 2 f" "length pad = 124"
    and "input c = enc_be 8 z @ enc_be 2 f @ pad @ rest"
  shows "exec (nbd_connect name) c =
    (Inr (), with_io (c\<lparr>c_last_sent_option := Some NBD_OPT_EXPORT_NAME, c_size := Some z,
       c_transmission_flags := Some f, c_transmission_phase := True\<rparr>) rest
       (sent c @ enc_option NBD_OPT_EXPORT_NAME nb))"
  using assms unfolding nbd_connect_def encode_utf8_def
  by (simp add: exec_simps seg_intros unpack_enc)


lemma get_extents_closed:
  assumes "get_extents k name off len = (Inr xs, c')"
  shows "c_closed c' \<and> (\<exists>c c1. get_extents_body name off len c = (Inr xs, c1))"
proof -
  from assms obtain c c1 where b: "get_extents_body name off len c = (Inr xs, c1)" "nbd_close c1 = (Inr (), c')"
    unfolding get_extents_def with_client_def by (auto split: prod.splits sum.splits)
  from b(2) have "c_closed c'"
    unfolding nbd_close_unfold by (auto split: prod.splits sum.splits if_splits elim!: seq_InrE)
  with b show ?thesis by blast
qed

text \<open>
  Whatever the server sends, when \<^verbatim>\<open>_get_extents\<close> returns, the range was
  not empty and started at or after zero, the extents are consecutive with
  lengths that are not negative and cover the requested range exactly, and
  the client has been closed.
\<close>

theorem extents_exact_cover:
  assumes "get_extents k name off len = (Inr xs, c')"
  shows "0 \<le> off \<and> 0 < len \<and> total_length xs = len \<and> list_all (\<lambda>(l, f). 0 \<le> l) xs \<and> c_closed c'"
proof -
  from get_extents_closed [OF assms] obtain c c1 where
    b: "get_extents_body name off len c = (Inr xs, c1)" and "c_closed c'" by blast
  from b obtain ctx c2 c3 where "0 \<le> off" "0 < len" "extents_loop ctx (off + len) off c2 = (Inr xs, c3)"
    unfolding get_extents_body_def
    by (auto simp: Let_def split: prod.splits elim!: bnd_InrE seq_InrE)
  with extents_loop_covers [of ctx "off + len" off c2 xs c3] \<open>c_closed c'\<close> show ?thesis by simp
qed

text \<open>What the client sends before its first request.\<close>

definition client_options :: "ustr \<Rightarrow> bytes \<Rightarrow> bytes" where
  "client_options name nb =
     enc_option NBD_OPT_STRUCTURED_REPLY []
     @ enc_option NBD_OPT_SET_META_CONTEXT (allocation_query name nb)
     @ enc_option NBD_OPT_EXPORT_NAME nb"

lemma exec_body_session:
  assumes "utf8_encode name = Some nb" "fits 4 (int (length name))" "fits 4 (27 + int (length nb))"
    and "fits 4 ctx" "fits 8 z" "fits 2 f" "length pad = 124"
    and "0 \<le> off" "0 < len" "off + len \<le> z" "conforming status ctx (off + len) off dss"
    and "fits 8 (int (length dss))" "c_handle c = 0"
    and "input c = session_replies ctx z f pad dss @ rest"
  shows "\<exists>xs d. exec (get_extents_body name off len) c = (Inr xs, d)
    \<and> describes status off xs \<and> total_length xs = len \<and> c_handle d = int (length dss)
    \<and> c_transmission_phase d \<and> c_flushed d = c_flushed c \<and> c_closed d = c_closed c
    \<and> sent d = sent c @ client_options name nb @ enc_status_requests 0 (off + len) off dss"
proof -
  from exec_negotiate_session [OF assms(14) [unfolded session_replies_def append_assoc]] obtain c1 where
    c1: "exec negotiate_structured_reply c = (Inr (), c1)" "c_handle c1 = 0"
      "c_flushed c1 = c_flushed c" "c_closed c1 = c_closed c"
      "sent c1 = sent c @ enc_option NBD_OPT_STRUCTURED_REPLY []"
    and i1: "input c1 = enc_option_reply NBD_OPT_SET_META_CONTEXT NBD_REP_META_CONTEXT
         (enc_be 4 ctx @ bytes_of ''base:allocation'')
     @ enc_option_reply NBD_OPT_SET_META_CONTEXT NBD_REP_ACK []
     @ enc_be 8 z @ enc_be 2 f @ pad @ enc_status_replies 0 ctx dss @ rest"
    using assms(13) by fastforce
  from exec_set_meta_contexts_session [OF assms(1-4) i1] c1 obtain c2 where
    c2: "exec (set_meta_contexts name [ustr_of ''base:allocation'']) c1 =
        (Inr [(ctx, ustr_of ''base:allocation'')], c2)" "c_handle c2 = 0"
      "c_flushed c2 = c_flushed c" "c_closed c2 = c_closed c"
      "sent c2 = sent c1 @ enc_option NBD_OPT_SET_META_CONTEXT (allocation_query name nb)"
    and i2: "input c2 = enc_be 8 z @ enc_be 2 f @ pad @ enc_status_replies 0 ctx dss @ rest"
    by fastforce
  have "fits 4 (int (length nb))" using assms(3) by (simp add: fits_def)
  from exec_connect_session [OF assms(1) this assms(5-7) i2] c2 obtain c3 where
    c3: "exec (nbd_connect name) c2 = (Inr (), c3)" "c_handle c3 = 0" "c_size c3 = Some z" "flat c3 = c3"
      "c_flushed c3 = c_flushed c" "c_closed c3 = c_closed c" "c_transmission_phase c3"
      "sent c3 = sent c2 @ enc_option NBD_OPT_EXPORT_NAME nb"
    and i3: "input c3 = enc_status_replies 0 ctx dss @ rest"
    by fastforce
  have "fits 8 (off + len)" using assms by (simp add: fits_def)
  with exec_loop_conforming [OF assms(11) assms(8), of c3 rest] c3 i3 assms(12) obtain xs where
    l: "exec (extents_loop ctx (off + len) off) c3 =
        (Inr xs, with_io (c3\<lparr>c_handle := int (length dss)\<rparr>) rest
          (sent c3 @ enc_status_requests 0 (off + len) off dss))"
      "describes status off xs" "total_length xs = len"
    by auto
  have size: "exec get_size c3 = (Inr z, c3)"
    using c3 unfolding get_size_def by (simp add: exec_simps seg_intros)
  have flats: "flat c1 = c1" "flat c2 = c2"
    using c1(1) c2(1) by (metis flat_flat snd_conv snd_exec)+
  have "exec (get_extents_body name off len) c = (Inr xs, with_io (c3\<lparr>c_handle := int (length dss)\<rparr>) rest
      (sent c3 @ enc_status_requests 0 (off + len) off dss))"
    unfolding get_extents_body_def
    using c1 c2 c3 l size assms flats
    by (simp add: Let_def exec_simps seg_intros seg_helpers)
  with l c1 c2 c3 show ?thesis by (auto simp: client_options_def)
qed

lemma get_extents_session:
  assumes "utf8_encode name = Some nb" "fits 4 (int (length name))" "fits 4 (27 + int (length nb))"
    and "fits 2 hflags" "hflags AND NBD_FLAG_HAS_FLAGS \<noteq> 0"
    and "fits 4 ctx" "fits 8 z" "fits 2 tflags" "length pad = 124"
    and "0 \<le> off" "0 < len" "off + len \<le> z" "conforming status ctx (off + len) off dss"
    and "fits 8 (int (length dss) + 1)"
    and "stream k = server_session hflags ctx z tflags pad dss @ rest"
  shows "\<exists>xs c. get_extents k name off len = (Inr xs, c)
    \<and> describes status off xs \<and> total_length xs = len \<and> c_closed c
    \<and> sent c = tx k @ enc_be 4 NBD_FLAG_C_FIXED_NEWSTYLE @ client_options name nb
        @ enc_status_requests 0 (off + len) off dss @ enc_request NBD_CMD_DISC (int (length dss) + 1) 0 0"
proof -
  let ?h = "fixed_new_style_handshake Some False"
  let ?c0 = "with_io (new_client k) (session_replies ctx z tflags pad dss @ rest)
    (sent (new_client k) @ enc_be 4 NBD_FLAG_C_FIXED_NEWSTYLE)"
  have i: "input (new_client k) = stream k" by (simp add: input_def new_client_def)
  with exec_init_session [of k hflags _ Some, OF _ assms(4,5)] assms(15)
  have h: "exec ?h (new_client k) = (Inr (), ?c0)"
    unfolding server_session_def by fastforce
  obtain r c where rc: "?h (new_client k) = (r, c)" by fastforce
  with h have r: "r = Inr ()" and c: "flat c = ?c0"
    by (simp_all add: exec_def)
  from arg_cong [OF c, of input] arg_cong [OF c, of c_handle] arg_cong [OF c, of c_flushed]
    arg_cong [OF c, of c_closed] arg_cong [OF c, of sent]
  have in_c: "input c = session_replies ctx z tflags pad dss @ rest" "c_handle c = 0"
    and flags_c: "c_flushed c" "\<not> c_closed c"
    and sent_c: "sent c = tx k @ enc_be 4 NBD_FLAG_C_FIXED_NEWSTYLE"
    by (simp_all add: new_client_def) (simp add: sent_def)
  have n: "fits 8 (int (length dss))" using assms(14) by (simp add: fits_def)
  obtain xs d where
    b: "exec (get_extents_body name off len) c = (Inr xs, d)" "describes status off xs" "total_length xs = len"
      "c_handle d = int (length dss)" "c_transmission_phase d" "c_flushed d" "\<not> c_closed d"
      "sent d = sent c @ client_options name nb @ enc_status_requests 0 (off + len) off dss"
    using exec_body_session [OF assms(1-3,6-13) n in_c(2) in_c(1)] flags_c by blast
  obtain d' where d': "get_extents_body name off len c = (Inr xs, d')" "flat d' = d"
    using b(1) by (auto simp: exec_def split: prod.splits)
  from b(4-8) d'(2) have "c_handle d' = int (length dss)" "c_transmission_phase d'" "c_flushed d'" "\<not> c_closed d'"
    and sent_d: "sent d' = sent c @ client_options name nb @ enc_status_requests 0 (off + len) off dss"
    by auto
  with assms(14) have "fst (exec nbd_close d') = Inr ()
    \<and> sent (snd (exec nbd_close d')) = sent d' @ enc_request NBD_CMD_DISC (int (length dss) + 1) 0 0"
    unfolding nbd_close_def by (simp add: exec_simps seg_intros)
  then obtain e where "nbd_close d' = (Inr (), e)"
    and "sent e = sent d' @ enc_request NBD_CMD_DISC (int (length dss) + 1) 0 0"
    by (cases "nbd_close d'") (auto simp: exec_def)
  with d' r rc have g: "get_extents k name off len = (Inr xs, e)"
    and "sent e = sent d' @ enc_request NBD_CMD_DISC (int (length dss) + 1) 0 0"
    by (simp_all add: get_extents_def nbd_init_def with_client_def seq_def bnd_def ret_def)
  with b sent_c sent_d get_extents_closed [OF g] show ?thesis by simp
qed

section \<open>Servers that answer requests\<close>

text \<open>
  A server is a function from the offset and the length of a request to the
  descriptors it answers with. It answers for the export of \<open>z\<close> bytes whose
  block status is \<open>status\<close> when, for every request inside the export, its reply
  is well formed, describes the bytes from the offset of the request on, has no
  empty extent, and passes the end of the request with its last extent only:
  what the protocol promises of \<^verbatim>\<open>NBD_CMD_BLOCK_STATUS\<close>.
\<close>

definition answers_export :: "(int \<Rightarrow> int) \<Rightarrow> int \<Rightarrow> int \<Rightarrow> (int \<Rightarrow> int \<Rightarrow> extent list) \<Rightarrow> bool" where
  "answers_export status ctx z answer \<longleftrightarrow>
     (\<forall>off len. 0 \<le> off \<and> 0 < len \<and> off + len \<le> z \<longrightarrow>
        well_formed_reply [(NBD_REPLY_FLAG_DONE, S_Status ctx (answer off len))]
        \<and> describes status off (answer off len)
        \<and> list_all (\<lambda>(l, f). 0 < l) (answer off len)
        \<and> total_length (butlast (answer off len)) < len)"

text \<open>
  The requests that cover a range of such an export: each starts where the
  answer to the one before ended and asks for all that is left, at most
  \<open>MAX_REQUEST_LEN\<close> bytes of it.
\<close>

function range_requests :: "(int \<Rightarrow> int \<Rightarrow> extent list) \<Rightarrow> int \<Rightarrow> int \<Rightarrow> (int \<times> int) list" where
  "range_requests answer end_off off =
    (let len = min MAX_REQUEST_LEN (end_off - off); got = total_length (answer off len) in
     if off < end_off \<and> 0 < got
     then (off, len) # range_requests answer end_off (min end_off (off + got))
     else [])"
  by pat_completeness auto
termination by (relation "measure (\<lambda>(answer, e, off). nat (e - off))") (auto simp: Let_def)

declare range_requests.simps [simp del]

definition enc_range_requests :: "(int \<times> int) list \<Rightarrow> bytes" where
  "enc_range_requests reqs =
     concat (map (\<lambda>(i, off, len). enc_request NBD_CMD_BLOCK_STATUS (int i) off len) (enumerate 1 reqs))"

lemma answer_positive:
  assumes "answers_export status ctx z answer" "0 \<le> off" "0 < len" "off + len \<le> z"
  shows "0 < total_length (answer off len)"
proof -
  from assms have "well_formed_reply [(NBD_REPLY_FLAG_DONE, S_Status ctx (answer off len))]"
    and "list_all (\<lambda>(l, f). 0 < l) (answer off len)"
    unfolding answers_export_def by blast+
  moreover have "list_all (\<lambda>(l, f). 0 < l) es \<Longrightarrow> 0 \<le> total_length es" for es
    by (induction es) auto
  ultimately show ?thesis by (cases "answer off len") fastforce+
qed

lemma range_requests_conforming:
  assumes "answers_export status ctx z answer" "0 \<le> off" "off \<le> end_off" "end_off \<le> z"
  shows "conforming status ctx end_off off (map (case_prod answer) (range_requests answer end_off off))"
  using assms
proof (induction answer end_off off rule: range_requests.induct)
  case (1 answer end_off off)
  let ?len = "min MAX_REQUEST_LEN (end_off - off)"
  show ?case
  proof (cases "off < end_off")
    case True
    then have len: "0 < ?len" "off + ?len \<le> end_off" by (auto simp: MAX_REQUEST_LEN_def)
    with "1.prems" have in_z: "0 < ?len" "off + ?len \<le> z" by simp_all
    have a: "0 < total_length (answer off ?len)"
      by (rule answer_positive [OF "1.prems"(1,2) in_z])
    have "well_formed_reply [(NBD_REPLY_FLAG_DONE, S_Status ctx (answer off ?len))]
      \<and> describes status off (answer off ?len) \<and> total_length (butlast (answer off ?len)) < ?len"
      using "1.prems"(1,2) in_z unfolding answers_export_def by blast
    with True len a "1.IH" [OF refl refl] "1.prems" show ?thesis
      by (subst range_requests.simps) (simp add: Let_def del: well_formed_reply.simps)
  next
    case False
    with "1.prems" show ?thesis by (subst range_requests.simps) (simp add: Let_def)
  qed
qed

lemma enc_range_requests_eq:
  "enc_status_requests (int n) end_off off (map (case_prod answer) (range_requests answer end_off off)) =
     concat (map (\<lambda>(i, off, len). enc_request NBD_CMD_BLOCK_STATUS (int i) off len)
       (enumerate (Suc n) (range_requests answer end_off off)))"
proof (induction answer end_off off arbitrary: n rule: range_requests.induct)
  case (1 answer end_off off)
  have suc: "int n + 1 = int (Suc n)" by simp
  show ?case
    using "1.IH" [OF refl refl, of "Suc n"]
    by (subst (1 2) range_requests.simps) (simp add: Let_def suc del: of_nat_Suc)
qed

text \<open>
  A concrete session: an export of 1024 bytes, its second half a hole, whose
  server answers for one half at a time.
\<close>

definition example_answer :: "int \<Rightarrow> int \<Rightarrow> extent list" where
  "example_answer off len = (if off < 512 then [(512 - off, 0)] else [(4096, 3)])"

definition example_session :: bytes where
  "example_session = server_session 3 7 1024 1 (replicate 124 0) [[(512, 0)], [(4096, 3)]]"

definition example_socket :: sock where
  "example_socket = \<lparr>rx = [take 20 example_session, drop 20 example_session],
     rx_end = Peer_Closed, tx = []\<rparr>"

lemma example_answers: "answers_export (\<lambda>p. if p < 512 then 0 else 3) 7 1024 example_answer"
  by (auto simp: answers_export_def example_answer_def fits_def nbd_consts
      is_final_structured_reply_chunk_def)

lemma example_requests: "range_requests example_answer 1024 0 = [(0, 1024), (512, 512)]"
  by (simp add: range_requests.simps example_answer_def MAX_REQUEST_LEN_def)

lemma example_stream:
  "stream example_socket = server_session 3 7 1024 1 (replicate 124 0)
     (map (case_prod example_answer) (range_requests example_answer (0 + 1024) 0)) @ []"
  by (simp add: example_requests example_answer_def stream_def example_socket_def example_session_def)

text \<open>
  C2: Against a server that answers every request for the range it asks
  for, \<^verbatim>\<open>_get_extents\<close> returns (whatever the segments the session arrives in), the
  client is closed, and the extents describe the block status of the export on
  exactly the requested range: every extent has the flags of all the bytes it
  covers. The client has sent, byte for byte, its flags and the three options of
  the negotiation, then one request per answer, each for the part of the range
  that the answers before it left open, under the handles counting from one, and
  then the request to disconnect.
\<close>

theorem extents_describe_export:
  assumes "utf8_encode name = Some nb" "fits 4 (int (length name))" "fits 4 (27 + int (length nb))"
    and "fits 2 hflags" "hflags AND NBD_FLAG_HAS_FLAGS \<noteq> 0"
    and "fits 4 ctx" "fits 8 z" "fits 2 tflags" "length pad = 124"
    and "0 \<le> off" "0 < len" "off + len \<le> z" "answers_export status ctx z answer"
    and "fits 8 (int (length (range_requests answer (off + len) off)) + 1)"
    and "stream k = server_session hflags ctx z tflags pad
      (map (case_prod answer) (range_requests answer (off + len) off)) @ rest"
  shows "\<exists>xs c. get_extents k name off len = (Inr xs, c)
    \<and> describes status off xs \<and> total_length xs = len \<and> c_closed c
    \<and> sent c = tx k @ enc_be 4 NBD_FLAG_C_FIXED_NEWSTYLE
        @ enc_option NBD_OPT_STRUCTURED_REPLY []
        @ enc_option NBD_OPT_SET_META_CONTEXT (allocation_query name nb)
        @ enc_option NBD_OPT_EXPORT_NAME nb
        @ enc_range_requests (range_requests answer (off + len) off)
        @ enc_request NBD_CMD_DISC (int (length (range_requests answer (off + len) off)) + 1) 0 0"
proof -
  have "conforming status ctx (off + len) off (map (case_prod answer) (range_requests answer (off + len) off))"
    using range_requests_conforming [of status ctx z answer off "off + len"] assms by simp
  from get_extents_session [OF assms(1-12) this _ assms(15)] assms(14)
    enc_range_requests_eq [of 0 "off + len" off answer]
  show ?thesis by (simp add: client_options_def enc_range_requests_def)
qed

theorem extents_describe_export_witness:
  "\<exists>xs c. get_extents example_socket [] 0 1024 = (Inr xs, c)
     \<and> describes (\<lambda>p. if p < 512 then 0 else 3) 0 xs \<and> total_length xs = 1024 \<and> c_closed c
     \<and> sent c = enc_be 4 NBD_FLAG_C_FIXED_NEWSTYLE @ enc_option NBD_OPT_STRUCTURED_REPLY []
         @ enc_option NBD_OPT_SET_META_CONTEXT (allocation_query [] []) @ enc_option NBD_OPT_EXPORT_NAME []
         @ enc_request NBD_CMD_BLOCK_STATUS 1 0 1024 @ enc_request NBD_CMD_BLOCK_STATUS 2 512 512
         @ enc_request NBD_CMD_DISC 3 0 0"
  using extents_describe_export [where k = example_socket and name = "[]" and off = 0 and len = 1024
      and hflags = 3 and ctx = 7 and z = 1024 and tflags = 1 and pad = "replicate 124 0" and rest = "[]"
      and nb = "[]" and answer = example_answer and status = "\<lambda>p. if p < 512 then 0 else 3",
      OF _ _ _ _ _ _ _ _ _ _ _ _ example_answers _ example_stream]
  by (simp add: example_requests enc_range_requests_def fits_def nbd_consts example_socket_def)

text \<open>
  The witness for the cover: the session above returns.
\<close>

theorem extents_exact_cover_witness:
  "\<exists>xs c. get_extents example_socket [] 0 1024 = (Inr xs, c) \<and> total_length xs = 1024 \<and> c_closed c"
proof -
  have "conforming (\<lambda>p. if p < 512 then 0 else 3) 7 (0 + 1024) 0
      (map (case_prod example_answer) (range_requests example_answer (0 + 1024) 0))"
    by (rule range_requests_conforming [OF example_answers]) simp_all
  from get_extents_session [OF _ _ _ _ _ _ _ _ _ _ _ _ this _ example_stream, of "[]" "[]"]
  obtain xs c where g: "get_extents example_socket [] 0 1024 = (Inr xs, c)"
    by (auto simp: example_requests fits_def nbd_consts)
  with extents_exact_cover [OF g] show ?thesis by blast
qed

end
