(* ===== verification/Qcow2.thy ===== *)
theory Qcow2
  imports Codec "HOL-Library.Log_Nat"
begin

text \<open>
  The tool \<^verbatim>\<open>python3/libexec/qcow2-to-stdout.py\<close>, which writes a disk image to
  standard output in the format qcow2: the cluster bitmaps, the float
  arithmetic of \<^verbatim>\<open>align_up\<close>, the intervals, the choice of the clusters to
  allocate, the layout with its refcount fixpoint, and the writing of header,
  tables and data. Files are byte lists; the state of the writer is what has
  been written to standard output.
\<close>

section \<open>Constants, errors and Python arithmetic\<close>

definition QCOW2_FEATURE_NAME_TABLE :: int where "QCOW2_FEATURE_NAME_TABLE = 0x6803F857"
definition QCOW2_DATA_FILE_NAME_STRING :: int where "QCOW2_DATA_FILE_NAME_STRING = 0x44415441"
definition QCOW2_V3_HEADER_LENGTH :: int where "QCOW2_V3_HEADER_LENGTH = 112"
definition QCOW2_INCOMPAT_DATA_FILE_BIT :: nat where "QCOW2_INCOMPAT_DATA_FILE_BIT = 2"
definition QCOW2_AUTOCLEAR_DATA_FILE_RAW_BIT :: nat where "QCOW2_AUTOCLEAR_DATA_FILE_RAW_BIT = 1"
definition QCOW_OFLAG_COPIED :: int where "QCOW_OFLAG_COPIED = push_bit 63 1"

text \<open>
  The exceptions; \<open>Q_SysExit\<close> is \<^verbatim>\<open>sys.exit\<close> with a message, and \<open>Q_Diverges\<close>
  stands for a refcount loop that does not end.
\<close>

datatype qcow_error =
    Q_IndexError
  | Q_StructError
  | Q_UnicodeError
  | Q_OSError
  | Q_RuntimeError
  | Q_SysExit string
  | Q_Diverges

text \<open>Python's index into a sequence of length \<open>n\<close>: negative indices count from the end.\<close>

definition py_index :: "nat \<Rightarrow> int \<Rightarrow> nat option" where
  "py_index n i =
     (if 0 \<le> i \<and> i < int n then Some (nat i)
      else if - int n \<le> i \<and> i < 0 then Some (nat (int n + i))
      else None)"

text \<open>
  An integer as a double: rounded to 53 significant bits, half to even. The
  divisors of the tool are powers of two, for which \<^verbatim>\<open>num / d\<close> is the rounded
  numerator divided exactly (numbers past the range of a double are left out).
\<close>

definition flt :: "int \<Rightarrow> int" where
  "flt n =
    (let m = \<bar>n\<bar>; e = floorlog 2 (nat m) - 53; q = m div 2 ^ e; r = m mod 2 ^ e in
     sgn n * (if 0 < e \<and> (2 * r > 2 ^ e \<or> 2 * r = 2 ^ e \<and> odd q) then q + 1 else q) * 2 ^ e)"

definition ceil_true_div :: "int \<Rightarrow> int \<Rightarrow> int" where
  "ceil_true_div num d = - ((- flt num) div d)"

definition floor_true_div :: "int \<Rightarrow> int \<Rightarrow> int" where
  "floor_true_div num d = flt num div d"

definition trunc_true_div :: "int \<Rightarrow> int \<Rightarrow> int" where
  "trunc_true_div num d = (if 0 \<le> flt num then flt num div d else - ((- flt num) div d))"

definition align_up :: "int \<Rightarrow> int \<Rightarrow> int" where
  "align_up num d = d * ceil_true_div num d"

text \<open>\<^verbatim>\<open>int(math.log2(n))\<close>, used on powers of two.\<close>

definition int_log2 :: "int \<Rightarrow> int" where
  "int_log2 n = int (floorlog 2 (nat n)) - 1"

section \<open>Bitmaps\<close>

definition bitmap_set :: "bytes \<Rightarrow> int \<Rightarrow> qcow_error + bytes" where
  "bitmap_set bitmap idx =
     (case py_index (length bitmap) (idx div 8) of
        None \<Rightarrow> Inl Q_IndexError
      | Some k \<Rightarrow> Inr (bitmap[k := bitmap ! k OR push_bit (nat (idx mod 8)) 1]))"

definition bitmap_is_set :: "bytes \<Rightarrow> int \<Rightarrow> qcow_error + bool" where
  "bitmap_is_set bitmap idx =
     (case py_index (length bitmap) (idx div 8) of
        None \<Rightarrow> Inl Q_IndexError
      | Some k \<Rightarrow> Inr (bitmap ! k AND push_bit (nat (idx mod 8)) 1 \<noteq> 0))"

text \<open>\<^verbatim>\<open>for idx in bitmap_iterator(bitmap, length): body(idx)\<close>\<close>

definition bitmap_iterator ::
  "bytes \<Rightarrow> int \<Rightarrow> (int \<Rightarrow> ('s, qcow_error, unit) st) \<Rightarrow> ('s, qcow_error, unit) st" where
  "bitmap_iterator bitmap len body =
     for_each (\<lambda>idx. bnd (lift_sum (bitmap_is_set bitmap idx)) (\<lambda>b. if b then body idx else ret ()))
       [0..len - 1]"

section \<open>Packing into a buffer\<close>

definition pack_into :: "bytes \<Rightarrow> int \<Rightarrow> bytes \<Rightarrow> qcow_error + bytes" where
  "pack_into buf offset bs =
     (if 0 \<le> offset \<and> nat offset + length bs \<le> length buf
      then Inr (take (nat offset) buf @ bs @ drop (nat offset + length bs) buf)
      else Inl Q_StructError)"

definition pack_field :: "bytes \<Rightarrow> int \<Rightarrow> nat \<Rightarrow> int \<Rightarrow> qcow_error + bytes" where
  "pack_field buf offset width v = sbind (pack_be Q_StructError width v) (pack_into buf offset)"

definition qcow2_features :: "(int \<times> int \<times> string) list" where
  "qcow2_features =
     [(0, 0, ''dirty bit''), (0, 1, ''corrupt bit''), (0, 2, ''external data file''),
      (0, 3, ''compression type''), (0, 4, ''extended L2 entries''),
      (1, 0, ''lazy refcounts''),
      (2, 0, ''bitmaps''), (2, 1, ''raw external data'')]"

definition pad_to :: "nat \<Rightarrow> bytes \<Rightarrow> bytes" where
  "pad_to n bs = take n bs @ replicate (n - length bs) 0"

definition write_feature :: "int \<times> int \<times> string \<Rightarrow> bytes \<times> int \<Rightarrow> qcow_error + bytes \<times> int" where
  "write_feature f s =
    (case f of (feature_type, feature_bit, feature_name) \<Rightarrow>
     case s of (cluster, offset) \<Rightarrow>
       sbind (pack_fields Q_StructError [(1, feature_type), (1, feature_bit)]) (\<lambda>h.
       sbind (pack_into cluster offset (h @ pad_to 46 (map of_char feature_name))) (\<lambda>cluster.
       Inr (cluster, offset + 48))))"

definition write_data_file_name :: "bytes \<Rightarrow> int \<Rightarrow> ustr option \<Rightarrow> qcow_error + bytes \<times> int" where
  "write_data_file_name cluster offset data_file_name =
     (case data_file_name of
        None \<Rightarrow> Inr (cluster, offset)
      | Some name \<Rightarrow>
          case utf8_encode name of
            None \<Rightarrow> Inl Q_UnicodeError
          | Some encoded_name \<Rightarrow>
              let padded_name_len = align_up (int (length encoded_name)) 8 in
              sbind (pack_fields Q_StructError
                       [(4, QCOW2_DATA_FILE_NAME_STRING), (4, int (length encoded_name))]) (\<lambda>h.
              sbind (pack_into cluster offset (h @ pad_to (nat padded_name_len) encoded_name)) (\<lambda>cluster.
              Inr (cluster, offset + (8 + padded_name_len)))))"

definition write_features :: "bytes \<Rightarrow> int \<Rightarrow> ustr option \<Rightarrow> qcow_error + bytes" where
  "write_features cluster offset data_file_name =
     sbind (write_data_file_name cluster offset data_file_name) (\<lambda>(cluster, offset).
     sbind (pack_field cluster offset 4 QCOW2_FEATURE_NAME_TABLE) (\<lambda>cluster.
     sbind (pack_field cluster (offset + 4) 4 (int (length qcow2_features) * 48)) (\<lambda>cluster.
     sbind (sfold write_feature qcow2_features (cluster, offset + 8)) (\<lambda>(cluster, offset).
     Inr cluster))))"

section \<open>Intervals of allocated clusters\<close>

type_synonym intervals = "(int \<times> int) list"

definition interval_init :: "intervals \<Rightarrow> intervals" where
  "interval_init lst = sort_key fst lst"

text \<open>
  The binary search of \<^verbatim>\<open>__contains__\<close>: the intervals afterwards, if the cluster
  was found in one of them.
\<close>

definition remove_at :: "intervals \<Rightarrow> nat \<Rightarrow> int \<Rightarrow> intervals" where
  "remove_at ivs mid cluster =
    (case ivs ! mid of (lo, hi) \<Rightarrow>
       if cluster = lo \<and> cluster = hi then take mid ivs @ drop (mid + 1) ivs
       else if cluster = lo then ivs[mid := (lo + 1, hi)]
       else if cluster = hi then ivs[mid := (lo, hi - 1)]
       else (take (mid + 1) ivs @ (cluster + 1, hi) # drop (mid + 1) ivs)[mid := (lo, cluster)])"

function interval_search :: "intervals \<Rightarrow> int \<Rightarrow> int \<Rightarrow> int \<Rightarrow> intervals option" where
  "interval_search ivs cluster l h =
    (if l \<le> h then
       let mid = (l + h) div 2; current = ivs ! nat mid in
       if fst current \<le> cluster \<and> cluster \<le> snd current then Some (remove_at ivs (nat mid) cluster)
       else if cluster < fst current then interval_search ivs cluster l (mid - 1)
       else interval_search ivs cluster (mid + 1) h
     else None)"
  by pat_completeness auto
termination
  by (relation "measure (\<lambda>(ivs, c, l, h). nat (h - l + 1))") auto

declare interval_search.simps [simp del]

definition interval_contains :: "int \<Rightarrow> intervals \<Rightarrow> bool \<times> intervals" where
  "interval_contains cluster ivs =
     (if ivs = [] \<or> snd (last ivs) < cluster \<or> cluster < fst (hd ivs) then (False, ivs)
      else case interval_search ivs cluster 0 (int (length ivs) - 1) of
             None \<Rightarrow> (False, ivs)
           | Some ivs' \<Rightarrow> (True, ivs'))"

section \<open>Choosing the clusters\<close>

record alloc =
  l1_bitmap :: bytes
  l2_bitmap :: bytes
  allocated_l2_tables :: int
  allocated_data_clusters :: int
  diff_set :: intervals

type_synonym 'a alloc_op = "(alloc, qcow_error, 'a) st"

definition allocate_cluster :: "int \<Rightarrow> int \<Rightarrow> unit alloc_op" where
  "allocate_cluster l2_entries_per_table idx =
     bnd (gets l2_bitmap) (\<lambda>b2.
     bnd (lift_sum (bitmap_set b2 idx)) (\<lambda>b2.
     seq (modify (\<lambda>s. s\<lparr>l2_bitmap := b2, allocated_data_clusters := allocated_data_clusters s + 1\<rparr>))
    (let l1_idx = floor_true_div idx l2_entries_per_table in
     bnd (gets l1_bitmap) (\<lambda>b1.
     bnd (lift_sum (bitmap_is_set b1 l1_idx)) (\<lambda>b.
     if b then ret ()
     else bnd (lift_sum (bitmap_set b1 l1_idx)) (\<lambda>b1.
          modify (\<lambda>s. s\<lparr>l1_bitmap := b1, allocated_l2_tables := allocated_l2_tables s + 1\<rparr>)))))))"

definition pad_cluster :: "int \<Rightarrow> bytes \<Rightarrow> bytes" where
  "pad_cluster cluster_size cluster =
     (if int (length cluster) < cluster_size
      then cluster @ replicate (nat (cluster_size - int (length cluster))) 0
      else cluster)"

definition check_cluster_allocate :: "int \<Rightarrow> int \<Rightarrow> bytes \<Rightarrow> bytes \<Rightarrow> unit alloc_op" where
  "check_cluster_allocate cluster_size idx cluster cluster_to_compare_with =
    (let cluster = pad_cluster cluster_size cluster in
     if cluster \<noteq> cluster_to_compare_with then allocate_cluster (cluster_size div 8) idx else ret ())"

text \<open>\<^verbatim>\<open>os.pread\<close> on a regular file or block device.\<close>

definition pread :: "bytes \<Rightarrow> int \<Rightarrow> int \<Rightarrow> qcow_error + bytes" where
  "pread file n offset =
     (if offset < 0 then Inl Q_OSError else Inr (take (nat n) (drop (nat offset) file)))"

text \<open>The arguments of \<^verbatim>\<open>write_qcow2_content\<close>; a file name comes with the file's content.\<close>

record qcow_args =
  input_file :: bytes
  cluster_size :: int
  refcount_bits :: int
  data_file_name :: "ustr option"
  data_file_raw :: bool
  diff_file :: "bytes option"
  virtual_size :: "int option"
  nonzero_clusters :: "intervals option"
  diff_virtual_size :: "int option"
  diff_nonzero_clusters :: "intervals option"

definition interval_clusters :: "intervals \<Rightarrow> int list" where
  "interval_clusters ivs = concat (map (\<lambda>(l, r). [l..r]) ivs)"

text \<open>A cluster of the input compared with the same cluster of another file.\<close>

definition compare_with_file :: "qcow_args \<Rightarrow> bytes \<Rightarrow> int \<Rightarrow> unit alloc_op" where
  "compare_with_file a diff idx =
     bnd (lift_sum (pread (input_file a) (cluster_size a) (cluster_size a * idx))) (\<lambda>cluster.
     bnd (lift_sum (pread diff (cluster_size a) (cluster_size a * idx))) (\<lambda>original_cluster.
     check_cluster_allocate (cluster_size a) idx cluster original_cluster))"

definition compare_with_zero :: "qcow_args \<Rightarrow> int \<Rightarrow> unit alloc_op" where
  "compare_with_zero a idx =
     bnd (lift_sum (pread (input_file a) (cluster_size a) (cluster_size a * idx))) (\<lambda>cluster.
     check_cluster_allocate (cluster_size a) idx cluster (replicate (nat (cluster_size a)) 0))"

definition diff_step :: "qcow_args \<Rightarrow> bytes \<Rightarrow> int \<Rightarrow> int \<Rightarrow> unit alloc_op" where
  "diff_step a diff last_diff_cluster cluster =
     (if last_diff_cluster \<le> cluster then allocate_cluster (cluster_size a div 8) cluster
      else
        bnd (gets (\<lambda>s. interval_contains cluster (diff_set s))) (\<lambda>(found, ivs).
        seq (modify (\<lambda>s. s\<lparr>diff_set := ivs\<rparr>))
            (if found then compare_with_file a diff cluster
             else allocate_cluster (cluster_size a div 8) cluster)))"

definition scan_raw :: "int \<Rightarrow> int \<Rightarrow> unit alloc_op" where
  "scan_raw l1_entries total_data_clusters =
     seq (modify (\<lambda>s. s\<lparr>allocated_l2_tables := l1_entries\<rparr>))
    (seq (for_each (\<lambda>idx. bnd (gets l1_bitmap) (\<lambda>b. bnd (lift_sum (bitmap_set b idx)) (\<lambda>b.
            modify (\<lambda>s. s\<lparr>l1_bitmap := b\<rparr>)))) [0..l1_entries - 1])
         (for_each (\<lambda>idx. bnd (gets l2_bitmap) (\<lambda>b. bnd (lift_sum (bitmap_set b idx)) (\<lambda>b.
            modify (\<lambda>s. s\<lparr>l2_bitmap := b\<rparr>)))) [0..total_data_clusters - 1]))"

definition scan_diff_map :: "qcow_args \<Rightarrow> intervals \<Rightarrow> bytes \<Rightarrow> unit alloc_op" where
  "scan_diff_map a clusters diff =
     (case (diff_virtual_size a, diff_nonzero_clusters a) of
        (Some diff_size, Some diff_clusters) \<Rightarrow>
          let last_diff_cluster = align_up diff_size (cluster_size a) div cluster_size a in
          seq (modify (\<lambda>s. s\<lparr>diff_set := interval_init diff_clusters\<rparr>))
         (seq (for_each (diff_step a diff last_diff_cluster) (interval_clusters clusters))
         (bnd (gets diff_set) (\<lambda>rest.
          for_each (allocate_cluster (cluster_size a div 8)) (interval_clusters rest))))
      | _ \<Rightarrow> throw (Q_SysExit ''QCOW headers for the diff file were not provided''))"

definition scan_files :: "qcow_args \<Rightarrow> int \<Rightarrow> unit alloc_op" where
  "scan_files a block_device_size =
    (let last_cluster = align_up block_device_size (cluster_size a) div cluster_size a in
     case diff_file a of
       Some diff \<Rightarrow>
         let last_diff_cluster = align_up (int (length diff)) (cluster_size a) div cluster_size a in
         seq (for_each (compare_with_file a diff) [0..last_diff_cluster - 1])
             (for_each (compare_with_zero a) [last_diff_cluster..last_cluster - 1])
     | None \<Rightarrow> for_each (compare_with_zero a) [0..last_cluster - 1])"

definition scan_clusters :: "qcow_args \<Rightarrow> int \<Rightarrow> int \<Rightarrow> int \<Rightarrow> unit alloc_op" where
  "scan_clusters a block_device_size l1_entries total_data_clusters =
     (if data_file_raw a then scan_raw l1_entries total_data_clusters
      else case nonzero_clusters a of
        Some clusters \<Rightarrow>
         (case diff_file a of
            Some diff \<Rightarrow> scan_diff_map a clusters diff
          | None \<Rightarrow> for_each (allocate_cluster (cluster_size a div 8)) (interval_clusters clusters))
      | None \<Rightarrow> scan_files a block_device_size)"


section \<open>Layout\<close>

text \<open>The loop that settles the number of refcount blocks and tables.\<close>

partial_function (option) refcount_loop ::
  "int \<Rightarrow> int \<Rightarrow> int \<Rightarrow> int \<Rightarrow> int \<Rightarrow> (int \<times> int) option" where
  [code]: "refcount_loop tot per_block per_table blocks tables =
    (let new_total = tot + tables + blocks;
         new_blocks = ceil_true_div new_total per_block in
     if blocks < new_blocks
     then refcount_loop tot per_block per_table new_blocks (ceil_true_div new_blocks per_table)
     else Some (blocks, tables))"

record layout =
  disk_size :: int
  total_data_clusters :: int
  l1_entries :: int
  allocated_l1_tables :: int
  allocated_refcount_blocks :: int
  allocated_refcount_tables :: int
  total_allocated_clusters :: int
  refcount_table_offset :: int
  refcount_block_offset :: int
  l1_table_offset :: int
  l2_table_offset :: int
  data_clusters_offset :: int

text \<open>Everything between the choice of the clusters and the header.\<close>

definition layout_of :: "qcow_args \<Rightarrow> int \<Rightarrow> int \<Rightarrow> int \<Rightarrow> int \<Rightarrow> alloc \<Rightarrow> qcow_error + layout" where
  "layout_of a dsize tdc l1e l1t s =
    (let cs = cluster_size a;
         refcounts_per_table = cs div 8;
         refcounts_per_block = cs * 8 div refcount_bits a;
         tot = 1 + l1t + allocated_l2_tables s;
         tot = (if data_file_name a = None then tot + allocated_data_clusters s else tot);
         blocks = ceil_true_div tot refcounts_per_block;
         tables = ceil_true_div blocks refcounts_per_table in
     case refcount_loop tot refcounts_per_block refcounts_per_table blocks tables of
       None \<Rightarrow> Inl Q_Diverges
     | Some (blocks, tables) \<Rightarrow>
         Inr \<lparr>disk_size = dsize, total_data_clusters = tdc, l1_entries = l1e, allocated_l1_tables = l1t,
              allocated_refcount_blocks = blocks, allocated_refcount_tables = tables,
              total_allocated_clusters = tot + (tables + blocks),
              refcount_table_offset = 1 * cs,
              refcount_block_offset = (1 + tables) * cs,
              l1_table_offset = (if l1t = 0 then 0 else (1 + tables + blocks) * cs),
              l2_table_offset = (1 + tables + blocks + l1t) * cs,
              data_clusters_offset = (1 + tables + blocks + l1t + allocated_l2_tables s) * cs\<rparr>)"

section \<open>Writing\<close>

type_synonym 'a out_op = "(bytes, qcow_error, 'a) st"

definition put :: "bytes \<Rightarrow> unit out_op" where
  "put b = modify (\<lambda>out. out @ b)"

definition new_cluster :: "qcow_args \<Rightarrow> bytes" where
  "new_cluster a = replicate (nat (cluster_size a)) 0"

definition header_fields :: "qcow_args \<Rightarrow> layout \<Rightarrow> (nat \<times> int) list" where
  "header_fields a l =
     [(4, 3), (8, 0), (4, 0), (4, int_log2 (cluster_size a)), (8, disk_size l), (4, 0),
      (4, l1_entries l), (8, l1_table_offset l), (8, refcount_table_offset l),
      (4, allocated_refcount_tables l), (4, 0), (8, 0),
      (8, if data_file_name a \<noteq> None then push_bit QCOW2_INCOMPAT_DATA_FILE_BIT 1 else 0), (8, 0),
      (8, if data_file_raw a then push_bit QCOW2_AUTOCLEAR_DATA_FILE_RAW_BIT 1 else 0),
      (4, int_log2 (refcount_bits a)), (4, QCOW2_V3_HEADER_LENGTH)]"

definition write_header :: "qcow_args \<Rightarrow> layout \<Rightarrow> unit out_op" where
  "write_header a l =
     bnd (lift_sum (pack_fields Q_StructError (header_fields a l))) (\<lambda>h.
     bnd (lift_sum (pack_into (new_cluster a) 0 ([0x51, 0x46, 0x49, 0xfb] @ h))) (\<lambda>cluster.
     bnd (lift_sum (write_features cluster QCOW2_V3_HEADER_LENGTH (data_file_name a))) (\<lambda>cluster.
     put cluster)))"

text \<open>The entries of one refcount table cluster, then the clusters.\<close>

definition refcount_table_entry :: "int \<Rightarrow> int \<Rightarrow> bytes \<times> int \<Rightarrow> qcow_error + bytes \<times> int" where
  "refcount_table_entry cs idx s =
    (case s of (cluster, cur_offset) \<Rightarrow>
       sbind (pack_field cluster (idx * 8) 8 cur_offset) (\<lambda>cluster. Inr (cluster, cur_offset + cs)))"

function write_refcount_table :: "qcow_args \<Rightarrow> int \<Rightarrow> int \<Rightarrow> unit out_op" where
  "write_refcount_table a remaining cur_offset =
    (if 0 < remaining then
       let to_write = min remaining (cluster_size a div 8) in
       if to_write \<le> 0 then throw Q_Diverges
       else
         bnd (lift_sum (sfold (refcount_table_entry (cluster_size a)) [0..to_write - 1]
                (new_cluster a, cur_offset))) (\<lambda>(cluster, cur_offset).
         seq (put cluster) (write_refcount_table a (remaining - to_write) cur_offset))
     else ret ())"
  by pat_completeness auto
termination
  by (relation "measure (\<lambda>(a, r, c). nat r)") auto

declare write_refcount_table.simps [simp del]

text \<open>One refcount entry, the number 1 in \<^verbatim>\<open>refcount_bits\<close> bits.\<close>

definition or_byte :: "bytes \<Rightarrow> int \<Rightarrow> byte \<Rightarrow> qcow_error + bytes" where
  "or_byte cluster i b =
     (case py_index (length cluster) i of
        None \<Rightarrow> Inl Q_IndexError
      | Some k \<Rightarrow> Inr (cluster[k := cluster ! k OR b]))"

definition refcount_entry :: "int \<Rightarrow> int \<Rightarrow> bytes \<Rightarrow> qcow_error + bytes" where
  "refcount_entry bits idx cluster =
     (if bits = 64 then pack_field cluster (idx * 8) 8 1
      else if bits = 32 then pack_field cluster (idx * 4) 4 1
      else if bits = 16 then pack_field cluster (idx * 2) 2 1
      else if bits = 8 then
        (case py_index (length cluster) idx of
           None \<Rightarrow> Inl Q_IndexError | Some k \<Rightarrow> Inr (cluster[k := 1]))
      else if bits = 4 then or_byte cluster (idx div 2) (push_bit (nat ((idx mod 2) * 4)) 1)
      else if bits = 2 then or_byte cluster (idx div 4) (push_bit (nat ((idx mod 4) * 2)) 1)
      else if bits = 1 then or_byte cluster (idx div 8) (push_bit (nat (idx mod 8)) 1)
      else Inr cluster)"

text \<open>\<^verbatim>\<open>for tbl in range(allocated_refcount_blocks)\<close>, with the remaining entries.\<close>

primrec write_refcount_blocks :: "qcow_args \<Rightarrow> nat \<Rightarrow> int \<Rightarrow> unit out_op" where
  "write_refcount_blocks a 0 remaining = ret ()"
| "write_refcount_blocks a (Suc n) remaining =
    (let to_write = min remaining (cluster_size a * 8 div refcount_bits a) in
     bnd (lift_sum (sfold (refcount_entry (refcount_bits a)) [0..to_write - 1] (new_cluster a))) (\<lambda>cluster.
     seq (put cluster) (write_refcount_blocks a n (remaining - to_write))))"

text \<open>
  The inner loop of the L1 and L2 tables: the entries of the clusters that
  are set, from \<open>base\<close> on; \<open>entry\<close> gives the value and the next offset.
\<close>

definition table_entry ::
  "bytes \<Rightarrow> int \<Rightarrow> (int \<Rightarrow> int \<Rightarrow> int \<times> int) \<Rightarrow> int \<Rightarrow> bytes \<times> int \<Rightarrow> qcow_error + bytes \<times> int" where
  "table_entry bitmap base entry idx s =
    (case s of (cluster, cur_offset) \<Rightarrow>
       sbind (bitmap_is_set bitmap (base + idx)) (\<lambda>b.
       if b then
         (case entry (base + idx) cur_offset of (v, cur_offset) \<Rightarrow>
            sbind (pack_field cluster (idx * 8) 8 v) (\<lambda>cluster. Inr (cluster, cur_offset)))
       else Inr (cluster, cur_offset)))"

definition next_cluster_entry :: "int \<Rightarrow> int \<Rightarrow> int \<Rightarrow> int \<times> int" where
  "next_cluster_entry cs i cur_offset = (cur_offset OR QCOW_OFLAG_COPIED, cur_offset + cs)"

definition data_file_entry :: "int \<Rightarrow> int \<Rightarrow> int \<Rightarrow> int \<times> int" where
  "data_file_entry cs i cur_offset = ((i * cs) OR QCOW_OFLAG_COPIED, cur_offset)"

primrec write_l1_table :: "qcow_args \<Rightarrow> bytes \<Rightarrow> int list \<Rightarrow> int \<Rightarrow> unit out_op" where
  "write_l1_table a bitmap [] cur_offset = ret ()"
| "write_l1_table a bitmap (tbl # tbls) cur_offset =
    (let n = cluster_size a div 8 in
     bnd (lift_sum (sfold (table_entry bitmap (tbl * n) (next_cluster_entry (cluster_size a))) [0..n - 1]
            (new_cluster a, cur_offset))) (\<lambda>(cluster, cur_offset).
     seq (put cluster) (write_l1_table a bitmap tbls cur_offset)))"

primrec write_l2_tables :: "qcow_args \<Rightarrow> bytes \<Rightarrow> bytes \<Rightarrow> int list \<Rightarrow> int \<Rightarrow> unit out_op" where
  "write_l2_tables a l1 l2 [] cur_offset = ret ()"
| "write_l2_tables a l1 l2 (tbl # tbls) cur_offset =
     bnd (lift_sum (bitmap_is_set l1 tbl)) (\<lambda>b.
     if b then
       let n = cluster_size a div 8;
           entry = (if data_file_name a = None then next_cluster_entry (cluster_size a)
                    else data_file_entry (cluster_size a)) in
       bnd (lift_sum (sfold (table_entry l2 (tbl * n) entry) [0..n - 1] (new_cluster a, cur_offset)))
         (\<lambda>(cluster, cur_offset).
       seq (put cluster) (write_l2_tables a l1 l2 tbls cur_offset))
     else write_l2_tables a l1 l2 tbls cur_offset)"

definition write_data_clusters :: "qcow_args \<Rightarrow> bytes \<Rightarrow> int \<Rightarrow> unit out_op" where
  "write_data_clusters a l2 tdc =
     bitmap_iterator l2 tdc (\<lambda>idx.
       bnd (lift_sum (pread (input_file a) (cluster_size a) (cluster_size a * idx))) (\<lambda>cluster.
       put (pad_cluster (cluster_size a) cluster)))"

definition write_image :: "qcow_args \<Rightarrow> alloc \<Rightarrow> layout \<Rightarrow> unit out_op" where
  "write_image a s l =
     seq (write_header a l)
    (seq (write_refcount_table a (allocated_refcount_blocks l) (refcount_block_offset l))
    (seq (write_refcount_blocks a (nat (allocated_refcount_blocks l)) (total_allocated_clusters l))
    (seq (write_l1_table a (l1_bitmap s) [0..allocated_l1_tables l - 1] (l2_table_offset l))
    (seq (write_l2_tables a (l1_bitmap s) (l2_bitmap s) [0..l1_entries l - 1] (data_clusters_offset l))
         (if data_file_name a = None then write_data_clusters a (l2_bitmap s) (total_data_clusters l)
          else ret ())))))"

text \<open>\<^verbatim>\<open>bytearray(n)\<close>, for the counts of entries made below, which are never negative\<close>

definition zero_bytes :: "int \<Rightarrow> bytes" where
  "zero_bytes n = replicate (nat n) 0"

definition new_alloc :: "int \<Rightarrow> int \<Rightarrow> int \<Rightarrow> alloc" where
  "new_alloc cs l1t l1e =
     \<lparr>l1_bitmap = zero_bytes (l1t * (cs div 8) div 8), l2_bitmap = zero_bytes (l1e * (cs div 8) div 8),
      allocated_l2_tables = 0, allocated_data_clusters = 0, diff_set = []\<rparr>"

definition write_qcow2_content :: "qcow_args \<Rightarrow> unit out_op" where
  "write_qcow2_content a =
    (let cs = cluster_size a;
         block_device_size = (case virtual_size a of None \<Rightarrow> int (length (input_file a)) | Some v \<Rightarrow> v);
         dsize = (case virtual_size a of None \<Rightarrow> align_up block_device_size 512 | Some v \<Rightarrow> v);
         tdc = ceil_true_div dsize cs;
         l1e = ceil_true_div tdc (cs div 8);
         l1t = ceil_true_div l1e (cs div 8) in
     seq (require (\<not> l1e * 8 > 32 * 1024 * 1024) (Q_SysExit ''The image size is too large''))
    (case scan_clusters a block_device_size l1e tdc (new_alloc cs l1t l1e) of
       (Inl e, s) \<Rightarrow> throw e
     | (Inr _, s) \<Rightarrow>
         bnd (lift_sum (layout_of a dsize tdc l1e l1t s)) (\<lambda>l. write_image a s l)))"

section \<open>The command line\<close>

text \<open>
  An element of the JSON map and the JSON info, a missing key as \<open>None\<close>; the
  conversion of byte ranges to cluster intervals.
\<close>

record map_element =
  el_start :: "int option"
  el_length :: "int option"
  el_data :: "bool option"

definition element_interval :: "int \<Rightarrow> map_element \<Rightarrow> intervals \<Rightarrow> qcow_error + intervals" where
  "element_interval cs el acc =
     (case el_data el of
        None \<Rightarrow> Inl Q_RuntimeError
      | Some False \<Rightarrow> Inr acc
      | Some True \<Rightarrow>
         (case (el_start el, el_length el) of
            (Some start, Some len) \<Rightarrow>
              Inr (acc @ [(trunc_true_div start cs, trunc_true_div (start + len) cs - 1)])
          | _ \<Rightarrow> Inl Q_RuntimeError))"

definition parse_json_files ::
  "int \<Rightarrow> int option \<times> int option \<Rightarrow> map_element list \<Rightarrow> qcow_error + int \<times> intervals" where
  "parse_json_files args_cluster_size info map_json =
     (case info of
        (Some virt_size, Some cs) \<Rightarrow>
          if cs = args_cluster_size then
            sbind (sfold (element_interval cs) map_json []) (\<lambda>clusters. Inr (virt_size, clusters))
          else Inl (Q_SysExit ''Cluster size in the files being compared are different'')
      | _ \<Rightarrow> Inl Q_RuntimeError)"

text \<open>
  The parsed arguments: the content of a file that does not exist is \<open>None\<close>,
  the JSON files are given when both descriptors are.
\<close>

record cli_args =
  arg_input :: "ustr \<times> bytes option"
  arg_diff :: "bytes option option"
  arg_cluster_size :: int
  arg_refcount_bits :: int
  arg_data_file :: bool
  arg_data_file_raw :: bool
  arg_json :: "((int option \<times> int option) \<times> map_element list) option"
  arg_diff_json :: "((int option \<times> int option) \<times> map_element list) option"
  stdout_isatty :: bool

text \<open>The values \<^verbatim>\<open>argparse\<close> lets through for \<^verbatim>\<open>-c\<close> and \<^verbatim>\<open>-r\<close>.\<close>

definition cluster_size_choices :: "int list" where
  "cluster_size_choices = map (\<lambda>x. push_bit x 1) [9..<22]"

definition refcount_bits_choices :: "int list" where
  "refcount_bits_choices = map (\<lambda>x. push_bit x 1) [0..<7]"

definition optional_json ::
  "int \<Rightarrow> ((int option \<times> int option) \<times> map_element list) option \<Rightarrow>
     qcow_error + int option \<times> intervals option" where
  "optional_json cs j =
     (case j of
        None \<Rightarrow> Inr (None, None)
      | Some (info, m) \<Rightarrow> sbind (parse_json_files cs info m) (\<lambda>(v, c). Inr (Some v, Some c)))"

definition qcow2_main :: "cli_args \<Rightarrow> unit out_op" where
  "qcow2_main args =
    (let data_file = (arg_data_file args \<or> arg_data_file_raw args) in
     bnd (lift_sum (optional_json (arg_cluster_size args) (arg_json args))) (\<lambda>(vsize, clusters).
     bnd (lift_sum (optional_json (arg_cluster_size args) (arg_diff_json args))) (\<lambda>(diff_vsize, diff_clusters).
     case snd (arg_input args) of
       None \<Rightarrow> throw (Q_SysExit ''input file does not exist'')
     | Some content \<Rightarrow>
         if arg_diff args = Some None then throw (Q_SysExit ''diff file does not exist'')
         else
           seq (require (\<not> (data_file \<and> arg_cluster_size args = 512))
                  (Q_SysExit ''External data files require a larger cluster size''))
          (seq (require (\<not> stdout_isatty args) (Q_SysExit ''Refusing to write to a tty''))
               (write_qcow2_content
                  \<lparr>input_file = content, cluster_size = arg_cluster_size args,
                   refcount_bits = arg_refcount_bits args,
                   data_file_name = (if data_file then Some (fst (arg_input args)) else None),
                   data_file_raw = arg_data_file_raw args,
                   diff_file = (case arg_diff args of None \<Rightarrow> None | Some d \<Rightarrow> d),
                   virtual_size = vsize, nonzero_clusters = clusters,
                   diff_virtual_size = diff_vsize, diff_nonzero_clusters = diff_clusters\<rparr>)))))"

end
