(* ===== verification/Qcow2_Alloc.thy ===== *)
theory Qcow2_Alloc
  imports Qcow2
begin

text \<open>
  The first half of the proofs on the qcow2 writer: the float arithmetic is
  exact below \<open>2 ^ 53\<close>, the bitmaps meet the interface of a set of indices, and
  the allocation keeps bitmaps and counters in step.
\<close>

section \<open>Arithmetic\<close>

lemma flt_exact [simp]:
  assumes "\<bar>n\<bar> < 2 ^ 53"
  shows "flt n = n"
proof -
  have "nat \<bar>n\<bar> < 2 ^ 53" using assms by simp
  then have "floorlog 2 (nat \<bar>n\<bar>) \<le> 53" by (simp add: floorlog_le_iff)
  then show ?thesis by (simp add: flt_def sgn_if)
qed

text \<open>The quotient rounded up, by its bounds.\<close>

lemma ceil_true_div_bounds:
  assumes "0 \<le> n" "n < 2 ^ 53" "0 < d"
  shows "n \<le> d * ceil_true_div n d" "d * ceil_true_div n d < n + d"
    "0 \<le> ceil_true_div n d" "ceil_true_div n d \<le> n"
proof -
  define c where "c = ceil_true_div n d"
  have "flt n = n" using assms by simp
  then have "d * c = - (d * ((- n) div d))" by (simp add: c_def ceil_true_div_def)
  then have "d * c = n + (- n) mod d"
    using mult_div_mod_eq [of d "- n"] by linarith
  moreover have "0 \<le> (- n) mod d" "(- n) mod d < d" using assms(3) by simp_all
  ultimately show 1: "n \<le> d * ceil_true_div n d" and 2: "d * ceil_true_div n d < n + d"
    by (simp_all add: c_def)
  show 0: "0 \<le> ceil_true_div n d"
    using 1 assms by (smt (verit) mult_pos_neg)
  have "d * (c - 1) < n" using 2 by (simp add: c_def algebra_simps)
  moreover have "c - 1 \<le> d * (c - 1)" if "1 \<le> c" using that assms(3) by (simp add: mult_le_cancel_right1)
  ultimately show "ceil_true_div n d \<le> n" using assms(1) by (cases "1 \<le> c") (auto simp: c_def)
qed

lemma ceil_true_div_unique:
  assumes "0 \<le> n" "n < 2 ^ 53" "0 < d" "n \<le> d * c" "d * c < n + d"
  shows "ceil_true_div n d = c"
proof -
  have "d * ceil_true_div n d < d * (c + 1)" "d * c < d * (ceil_true_div n d + 1)"
    using ceil_true_div_bounds [OF assms(1-3)] assms(4,5) by (simp_all add: algebra_simps)
  then show ?thesis using assms(3) by (simp add: mult_less_cancel_left_pos)
qed

lemma ceil_true_div_multiple:
  assumes "0 < d" "0 \<le> c" "d * c < 2 ^ 53"
  shows "ceil_true_div (d * c) d = c"
  using assms by (intro ceil_true_div_unique) auto

lemma floor_true_div_eq: "0 \<le> n \<Longrightarrow> n < 2 ^ 53 \<Longrightarrow> floor_true_div n d = n div d"
  by (simp add: floor_true_div_def)

lemma upto_upt: "[0..int n - 1] = map int [0..<n]"
  by (induction n) (simp_all add: upto_rec2)

lemma upto_upt_nat: "0 \<le> n \<Longrightarrow> [0..n - 1] = map int [0..<nat n]"
  using upto_upt [of "nat n"] by simp

section \<open>Bitmaps as sets of indices\<close>

text \<open>
  The interface the tool relies on: below the capacity a set index reads as
  set, other indices are untouched, and the capacity does not change.
\<close>

locale index_set =
  fixes bset :: "'b \<Rightarrow> int \<Rightarrow> 'e + 'b"
    and bget :: "'b \<Rightarrow> int \<Rightarrow> 'e + bool"
    and cap :: "'b \<Rightarrow> nat"
    and has :: "'b \<Rightarrow> nat \<Rightarrow> bool"
  assumes get_in: "i < cap b \<Longrightarrow> bget b (int i) = Inr (has b i)"
    and set_in: "i < cap b \<Longrightarrow> \<exists>b'. bset b (int i) = Inr b' \<and> cap b' = cap b
      \<and> (\<forall>j. j < cap b \<longrightarrow> has b' j = (j = i \<or> has b j))"
begin

text \<open>The number of indices below \<open>i\<close> that are set.\<close>

definition rank :: "'b \<Rightarrow> nat \<Rightarrow> nat" where
  "rank b i = length (filter (has b) [0..<i])"

lemma set_rank:
  assumes "bset b (int i) = Inr b'" "i < cap b"
  shows "rank b' (cap b) = rank b (cap b) + (if has b i then 0 else 1)"
proof -
  from set_in [OF assms(2)] assms(1) have h: "\<forall>j < cap b. has b' j = (j = i \<or> has b j)" by auto
  have "length (filter (has b') [0..<n]) =
      length (filter (has b) [0..<n]) + (if i < n \<and> \<not> has b i then 1 else 0)" if "n \<le> cap b" for n
    using that h by (induction n) (auto simp: less_Suc_eq)
  from this [of "cap b"] assms(2) show ?thesis by (simp add: rank_def)
qed

end

definition bm_has :: "bytes \<Rightarrow> nat \<Rightarrow> bool" where
  "bm_has b i = bit (b ! (i div 8)) (i mod 8)"

definition bm_cap :: "bytes \<Rightarrow> nat" where
  "bm_cap b = 8 * length b"

lemma py_index_in: "k < n \<Longrightarrow> py_index n (int k) = Some k"
  by (simp add: py_index_def)

lemma bit_single: "n < 8 \<Longrightarrow> bit (2 ^ m :: byte) n \<longleftrightarrow> m = n"
  by (auto simp: bit_exp_iff)

interpretation bm: index_set bitmap_set bitmap_is_set bm_cap bm_has
proof
  fix i b assume "i < bm_cap b"
  then have k: "i div 8 < length b" by (simp add: bm_cap_def)
  then have p: "py_index (length b) (int i div 8) = Some (i div 8)"
    using py_index_in [of "i div 8" "length b"] by (simp add: zdiv_int)
  have m: "nat (int i mod 8) = i mod 8" by (simp add: nat_mod_distrib)
  show "bitmap_is_set b (int i) = Inr (bm_has b i)"
    using p m by (simp add: bitmap_is_set_def bm_has_def bit_iff_and_push_bit_not_eq_0)
  let ?b = "b[i div 8 := b ! (i div 8) OR push_bit (i mod 8) 1]"
  have "bm_has ?b j = (j = i \<or> bm_has b j)" if "j < bm_cap b" for j
  proof (cases "j div 8 = i div 8")
    case True
    have "j = i \<longleftrightarrow> j mod 8 = i mod 8" using True by (metis div_mult_mod_eq)
    with True k show ?thesis by (auto simp: bm_has_def bit_or_iff bit_single)
  next
    case False
    then show ?thesis by (auto simp: bm_has_def)
  qed
  moreover have "bitmap_set b (int i) = Inr ?b" using p m by (simp add: bitmap_set_def)
  ultimately show "\<exists>b'. bitmap_set b (int i) = Inr b' \<and> bm_cap b' = bm_cap b
      \<and> (\<forall>j. j < bm_cap b \<longrightarrow> bm_has b' j = (j = i \<or> bm_has b j))"
    by (intro exI [of _ ?b]) (simp add: bm_cap_def)
qed

lemma bm_zero [simp]: "i < 8 * n \<Longrightarrow> bm_has (replicate n 0) i = False"
  by (simp add: bm_has_def)


section \<open>Allocation\<close>

text \<open>
  The invariant of the allocation, for \<open>T\<close> L1 tables and \<open>E\<close> L1 entries of
  \<open>L\<close> slots each: an L2 entry that is set has its L1 entry set, set L1 entries
  have an L2 table, and the number of L2 tables is the number of set L1 entries.
\<close>

definition alloc_inv :: "nat \<Rightarrow> nat \<Rightarrow> nat \<Rightarrow> alloc \<Rightarrow> bool" where
  "alloc_inv L T E s \<longleftrightarrow>
     bm_cap (l1_bitmap s) = T * L \<and> bm_cap (l2_bitmap s) = E * L \<and> E \<le> T * L \<and>
     (\<forall>i < E * L. bm_has (l2_bitmap s) i \<longrightarrow> bm_has (l1_bitmap s) (i div L)) \<and>
     (\<forall>t < T * L. bm_has (l1_bitmap s) t \<longrightarrow> t < E) \<and>
     allocated_l2_tables s = int (bm.rank (l1_bitmap s) (T * L))"

lemma allocate_cluster_in:
  assumes "alloc_inv L T E s" "i < E * L" "0 < L" "i < 2 ^ 53"
  shows "\<exists>s'. allocate_cluster (int L) (int i) s = (Inr (), s') \<and> alloc_inv L T E s'
    \<and> (\<forall>j < E * L. bm_has (l2_bitmap s') j = (j = i \<or> bm_has (l2_bitmap s) j))
    \<and> allocated_data_clusters s' = allocated_data_clusters s + 1 \<and> diff_set s' = diff_set s"
proof -
  have caps: "bm_cap (l1_bitmap s) = T * L" "bm_cap (l2_bitmap s) = E * L" "E \<le> T * L"
    using assms(1) by (auto simp: alloc_inv_def)
  obtain b2 where b2: "bitmap_set (l2_bitmap s) (int i) = Inr b2" "bm_cap b2 = E * L"
      "\<forall>j < E * L. bm_has b2 j = (j = i \<or> bm_has (l2_bitmap s) j)"
    using bm.set_in [of i "l2_bitmap s"] caps assms(2) by auto
  have t: "i div L < E" using assms(2) by (simp add: less_mult_imp_div_less)
  then have t': "i div L < bm_cap (l1_bitmap s)" using caps by simp
  have f: "floor_true_div (int i) (int L) = int (i div L)"
    using assms(4) by (simp add: floor_true_div_eq zdiv_int)
  have g: "bitmap_is_set (l1_bitmap s) (int (i div L)) = Inr (bm_has (l1_bitmap s) (i div L))"
    by (rule bm.get_in [OF t'])
  show ?thesis
  proof (cases "bm_has (l1_bitmap s) (i div L)")
    case True
    let ?s = "s\<lparr>l2_bitmap := b2, allocated_data_clusters := allocated_data_clusters s + 1\<rparr>"
    have "allocate_cluster (int L) (int i) s = (Inr (), ?s)"
      using b2 f g True by (simp add: allocate_cluster_def Let_def bnd_def seq_def st_simps)
    moreover have "alloc_inv L T E ?s"
      using assms(1) b2 True by (auto simp: alloc_inv_def)
    ultimately show ?thesis using b2 by auto
  next
    case False
    obtain b1 where b1: "bitmap_set (l1_bitmap s) (int (i div L)) = Inr b1" "bm_cap b1 = T * L"
        "\<forall>j < T * L. bm_has b1 j = (j = i div L \<or> bm_has (l1_bitmap s) j)"
      using bm.set_in [OF t'] caps by auto
    have r: "bm.rank b1 (T * L) = bm.rank (l1_bitmap s) (T * L) + 1"
      using bm.set_rank [OF b1(1) t'] False caps by simp
    let ?s = "s\<lparr>l2_bitmap := b2, allocated_data_clusters := allocated_data_clusters s + 1,
      l1_bitmap := b1, allocated_l2_tables := allocated_l2_tables s + 1\<rparr>"
    have lt: "\<And>j. j < E * L \<Longrightarrow> j div L < T * L"
      using caps(3) by (meson less_mult_imp_div_less order_less_le_trans)
    have "allocate_cluster (int L) (int i) s = (Inr (), ?s)"
      using b1 b2 f g False by (simp add: allocate_cluster_def Let_def bnd_def seq_def st_simps)
    moreover have "alloc_inv L T E ?s"
      using assms(1) b1 b2 r t lt by (auto simp: alloc_inv_def)
    ultimately show ?thesis using b2 by auto
  qed
qed

text \<open>Allocating a list of clusters.\<close>

lemma allocate_clusters_in:
  assumes "alloc_inv L T E s" "\<forall>i \<in> set is. i < E * L" "0 < L" "E * L \<le> 2 ^ 53"
    and "\<And>i s. i \<in> set is \<Longrightarrow> body i s = (if sel i then allocate_cluster (int L) (int i) else ret ()) s"
  shows "\<exists>s'. for_each body is s = (Inr (), s') \<and> alloc_inv L T E s'
    \<and> (\<forall>j < E * L. bm_has (l2_bitmap s') j = (j \<in> set is \<and> sel j \<or> bm_has (l2_bitmap s) j))
    \<and> allocated_data_clusters s' = allocated_data_clusters s + int (length (filter sel is))
    \<and> diff_set s' = diff_set s"
  using assms
proof (induction "is" arbitrary: s)
  case Nil
  then show ?case by (simp add: ret_def)
next
  case (Cons i "is")
  have "\<exists>s1. body i s = (Inr (), s1) \<and> alloc_inv L T E s1
    \<and> (\<forall>j < E * L. bm_has (l2_bitmap s1) j = (j = i \<and> sel i \<or> bm_has (l2_bitmap s) j))
    \<and> allocated_data_clusters s1 = allocated_data_clusters s + (if sel i then 1 else 0)
    \<and> diff_set s1 = diff_set s"
  proof (cases "sel i")
    case True
    with Cons.prems allocate_cluster_in [of L T E s i] show ?thesis by fastforce
  next
    case False
    with Cons.prems show ?thesis by (simp add: ret_def)
  qed
  then obtain s1 where s1: "body i s = (Inr (), s1)" "alloc_inv L T E s1"
    "\<forall>j < E * L. bm_has (l2_bitmap s1) j = (j = i \<and> sel i \<or> bm_has (l2_bitmap s) j)"
    "allocated_data_clusters s1 = allocated_data_clusters s + (if sel i then 1 else 0)"
    "diff_set s1 = diff_set s" by blast
  from Cons.IH [OF s1(2)] Cons.prems obtain s' where s':
    "for_each body is s1 = (Inr (), s')" "alloc_inv L T E s'"
    "\<forall>j < E * L. bm_has (l2_bitmap s') j = (j \<in> set is \<and> sel j \<or> bm_has (l2_bitmap s1) j)"
    "allocated_data_clusters s' = allocated_data_clusters s1 + int (length (filter sel is))"
    "diff_set s' = diff_set s1" by auto
  with s1 show ?case by (intro exI [of _ s']) auto
qed

lemma alloc_inv_new:
  assumes "8 dvd L" "E \<le> T * L"
  shows "alloc_inv L T E (new_alloc (int (8 * L)) (int T) (int E))"
    and "\<forall>i < E * L. \<not> bm_has (l2_bitmap (new_alloc (int (8 * L)) (int T) (int E))) i"
proof -
  have l: "nat (int T * int L div 8) = T * L div 8" "nat (int E * int L div 8) = E * L div 8"
    by (simp_all add: nat_div_distrib nat_mult_distrib)
  have d: "8 * (T * L div 8) = T * L" "8 * (E * L div 8) = E * L" using assms(1) by auto
  have r: "bm.rank (replicate (T * L div 8) 0) (T * L) = 0"
    using d by (simp add: bm.rank_def filter_empty_conv)
  show "alloc_inv L T E (new_alloc (int (8 * L)) (int T) (int E))"
    using d r assms(2) by (simp add: alloc_inv_def new_alloc_def zero_bytes_def l bm_cap_def)
  show "\<forall>i < E * L. \<not> bm_has (l2_bitmap (new_alloc (int (8 * L)) (int T) (int E))) i"
    using d by (simp add: new_alloc_def zero_bytes_def l)
qed


text \<open>The clusters of the input, the last one padded with zeroes.\<close>

definition source_cluster :: "nat \<Rightarrow> bytes \<Rightarrow> nat \<Rightarrow> bytes" where
  "source_cluster C file i = pad_to C (take C (drop (C * i) file))"

lemma pad_cluster_eq: "length c \<le> C \<Longrightarrow> pad_cluster (int C) c = pad_to C c"
  by (simp add: pad_cluster_def pad_to_def nat_diff_distrib')

lemma length_pad_to [simp]: "length (pad_to n bs) = n"
  by (simp add: pad_to_def)

lemma length_source_cluster [simp]: "length (source_cluster C file i) = C"
  by (simp add: source_cluster_def)

lemma pread_in: "pread file (int C) (int C * int i) = Inr (take C (drop (C * i) file))"
  by (simp add: pread_def nat_mult_distrib not_less)

lemma for_each_map: "for_each body (map f xs) = for_each (\<lambda>x. body (f x)) xs"
  by (induction xs) simp_all

lemma for_each_cong: "(\<And>x. x \<in> set xs \<Longrightarrow> body x = body' x) \<Longrightarrow> for_each body xs = for_each body' xs"
  by (induction xs) simp_all

lemma nat_8L: "nat (8 * int L) = 8 * L"
  by simp

lemma compare_with_zero_eq:
  assumes "cluster_size a = int (8 * L)"
  shows "compare_with_zero a (int i) =
    (if source_cluster (8 * L) (input_file a) i \<noteq> replicate (8 * L) 0
     then allocate_cluster (int L) (int i) else ret ())"
  using assms pad_cluster_eq [of "take (8 * L) (drop (8 * L * i) (input_file a))" "8 * L"]
    pread_in [of "input_file a" "8 * L" i] nat_8L [of L]
  by (intro ext) (simp add: compare_with_zero_def check_cluster_allocate_def bnd_def st_simps source_cluster_def)

lemma compare_with_file_eq:
  assumes "cluster_size a = int (8 * L)"
  shows "compare_with_file a diff (int i) =
    (if source_cluster (8 * L) (input_file a) i \<noteq> take (8 * L) (drop (8 * L * i) diff)
     then allocate_cluster (int L) (int i) else ret ())"
  using assms pad_cluster_eq [of "take (8 * L) (drop (8 * L * i) (input_file a))" "8 * L"]
    pread_in [of "input_file a" "8 * L" i] pread_in [of diff "8 * L" i]
  by (intro ext) (simp add: compare_with_file_def check_cluster_allocate_def bnd_def st_simps source_cluster_def)

text \<open>The scan of an image without a map, with and without an image to compare with.\<close>

definition differs :: "qcow_args \<Rightarrow> nat \<Rightarrow> nat \<Rightarrow> bool" where
  "differs a L i \<longleftrightarrow>
     source_cluster (8 * L) (input_file a) i \<noteq>
       (case diff_file a of
          Some d \<Rightarrow> if i * (8 * L) < length d then take (8 * L) (drop (8 * L * i) d) else replicate (8 * L) 0
        | None \<Rightarrow> replicate (8 * L) 0)"

lemma ceil_true_div_nat:
  assumes "0 < C" "int n < 2 ^ 53"
  shows "ceil_true_div (int n) (int C) = int ((n + C - 1) div C)"
proof -
  have c: "int n \<le> int C * ceil_true_div (int n) (int C)" "int C * ceil_true_div (int n) (int C) < int n + int C"
      "0 \<le> ceil_true_div (int n) (int C)"
    using ceil_true_div_bounds [of "int n" "int C"] assms by auto
  define k where "k = nat (ceil_true_div (int n) (int C))"
  have k: "ceil_true_div (int n) (int C) = int k" using c(3) by (simp add: k_def)
  have 1: "n \<le> C * k" "C * k < n + C"
    using c(1,2) unfolding k by (simp_all flip: of_nat_mult of_nat_add)
  have "(n + C - 1) div C = k"
    by (rule div_nat_eqI) (use 1 assms(1) in \<open>auto simp: mult.commute\<close>)
  with k show ?thesis by simp
qed

lemma align_up_div:
  assumes "0 < C" "int n < 2 ^ 53"
  shows "align_up (int n) (int C) div int C = int ((n + C - 1) div C)"
  using assms by (simp add: align_up_def ceil_true_div_nat)

lemma below_ceil: "0 < C \<Longrightarrow> i < (n + C - 1) div C \<longleftrightarrow> i * C < (n::nat)"
proof -
  assume C: "0 < C"
  have "i < (n + C - 1) div C \<longleftrightarrow> Suc i * C \<le> n + C - 1"
    using C by (simp add: less_eq_div_iff_mult_less_eq flip: Suc_le_eq)
  also have "\<dots> \<longleftrightarrow> i * C < n" using C by auto
  finally show ?thesis .
qed

lemma scan_files_in:
  fixes n m :: nat
  assumes "cluster_size a = int (8 * L)" "0 < L" "8 dvd L" "E \<le> T * L" "E * L \<le> 2 ^ 53"
    and "m = (length (input_file a) + 8 * L - 1) div (8 * L)" "m \<le> E * L" "length (input_file a) < 2 ^ 53"
    and "\<And>d. diff_file a = Some d \<Longrightarrow> (length d + 8 * L - 1) div (8 * L) \<le> m \<and> length d < 2 ^ 53"
  shows "\<exists>s. scan_files a (int (length (input_file a))) (new_alloc (int (8 * L)) (int T) (int E)) = (Inr (), s)
    \<and> alloc_inv L T E s \<and> (\<forall>j < E * L. bm_has (l2_bitmap s) j = (j < m \<and> differs a L j))
    \<and> allocated_data_clusters s = int (length (filter (differs a L) [0..<m]))"
proof -
  let ?s0 = "new_alloc (int (8 * L)) (int T) (int E)"
  define step where "step i = (if differs a L i then allocate_cluster (int L) (int i) else ret ())" for i
  have last: "align_up (int (length (input_file a))) (cluster_size a) div cluster_size a = int m"
    using align_up_div [of "8 * L" "length (input_file a)"] assms by simp
  have scan: "scan_files a (int (length (input_file a))) = for_each step [0..<m]"
  proof (cases "diff_file a")
    case None
    have "compare_with_zero a (int i) = step i" for i
      using compare_with_zero_eq [OF assms(1)] None by (simp add: step_def differs_def)
    with None last show ?thesis
      by (simp add: scan_files_def Let_def upto_upt for_each_map)
  next
    case (Some d)
    define k where "k = (length d + 8 * L - 1) div (8 * L)"
    have lastd: "align_up (int (length d)) (cluster_size a) div cluster_size a = int k"
      using align_up_div [of "8 * L" "length d"] assms(1,2,9) Some by (simp add: k_def)
    have km: "k \<le> m" using assms(9) Some by (simp add: k_def)
    have kd: "i < k \<longleftrightarrow> i * (8 * L) < length d" for i
      using below_ceil [of "8 * L" i "length d"] assms(2) by (simp add: k_def)
    have "[int k..int m - 1] = map int [k..<m]"
      using km by (induction m rule: dec_induct) (simp_all add: upto_rec2)
    moreover have "for_each (\<lambda>i. compare_with_file a d (int i)) [0..<k] = for_each step [0..<k]"
      by (rule for_each_cong)
        (use compare_with_file_eq [OF assms(1)] Some kd in \<open>simp add: step_def differs_def\<close>)
    moreover have "for_each (\<lambda>i. compare_with_zero a (int i)) [k..<m] = for_each step [k..<m]"
      by (rule for_each_cong)
        (use compare_with_zero_eq [OF assms(1)] Some kd in \<open>simp add: step_def differs_def not_less [symmetric]\<close>)
    moreover have "[0..<m] = [0..<k] @ [k..<m]" using km by (metis le_add_diff_inverse upt_add_eq_append zero_le)
    ultimately show ?thesis
      using Some last lastd
      by (simp add: scan_files_def Let_def upto_upt for_each_map for_each_append)
  qed
  from allocate_clusters_in [of L T E ?s0 "[0..<m]" step "differs a L"] alloc_inv_new [OF assms(3,4)] assms(2,5,7)
  obtain s where "for_each step [0..<m] ?s0 = (Inr (), s)" "alloc_inv L T E s"
    "\<forall>j < E * L. bm_has (l2_bitmap s) j = (j < m \<and> differs a L j)"
    "allocated_data_clusters s = int (length (filter (differs a L) [0..<m]))"
    by (auto simp: step_def new_alloc_def)
  with scan show ?thesis by auto
qed

end
