(* ===== verification/Qcow2_Image.thy ===== *)
theory Qcow2_Image
  imports Qcow2_Alloc
begin

text \<open>
  The second half of the proofs on the qcow2 writer: the refcount loop ends
  with enough blocks, every part of the writer emits whole clusters, and the
  L1 and L2 entries point to the clusters of the input.
\<close>

section \<open>The refcount loop\<close>

lemma refcount_loop_ends:
  assumes "0 < tot" "3 \<le> per_block" "1 \<le> per_table" "3 * tot < 2 ^ 53"
    and "0 \<le> blocks" "blocks \<le> tot" "tables = ceil_true_div blocks per_table"
  shows "\<exists>b t. refcount_loop tot per_block per_table blocks tables = Some (b, t)
    \<and> blocks \<le> b \<and> b \<le> tot \<and> t = ceil_true_div b per_table \<and> tot + t + b \<le> per_block * b"
  using assms(5-7)
proof (induction "nat (tot - blocks)" arbitrary: blocks tables rule: less_induct)
  case less
  define new where "new = ceil_true_div (tot + tables + blocks) per_block"
  have tb: "0 \<le> tables" "tables \<le> blocks"
    using ceil_true_div_bounds [of blocks per_table] less.prems assms(3,4) assms(1) by auto
  have n: "tot + tables + blocks \<le> per_block * new" "per_block * new < tot + tables + blocks + per_block"
    using ceil_true_div_bounds [of "tot + tables + blocks" per_block] tb less.prems assms(1-4)
    by (auto simp: new_def)
  have unfold: "refcount_loop tot per_block per_table blocks tables =
    (if blocks < new then refcount_loop tot per_block per_table new (ceil_true_div new per_table)
     else Some (blocks, tables))"
    by (subst refcount_loop.simps) (simp add: Let_def new_def)
  show ?case
  proof (cases "blocks < new")
    case True
    have "new \<le> tot"
    proof (rule ccontr)
      assume "\<not> new \<le> tot"
      then have "per_block * tot \<le> per_block * (new - 1)" using assms(2) by (intro mult_left_mono) auto
      moreover have "3 * tot \<le> per_block * tot" using assms(1,2) by (intro mult_right_mono) auto
      ultimately show False using n(2) tb less.prems(2) by (simp add: right_diff_distrib)
    qed
    with True less.hyps [of new "ceil_true_div new per_table"] less.prems obtain b t where
      "refcount_loop tot per_block per_table new (ceil_true_div new per_table) = Some (b, t)"
      "new \<le> b" "b \<le> tot" "t = ceil_true_div b per_table" "tot + t + b \<le> per_block * b" by auto
    with True unfold show ?thesis by simp
  next
    case False
    have "per_block * new \<le> per_block * blocks" using False assms(2) by (intro mult_left_mono) auto
    with False n(1) less.prems unfold show ?thesis by simp
  qed
qed

section \<open>Tables of entries\<close>

lemma sfold_map: "sfold f (map g xs) b = sfold (\<lambda>x. f (g x)) xs b"
  by (induction xs arbitrary: b) (simp_all add: sbind_def split: sum.split)

lemma enc_be_zero: "enc_be k 0 = replicate k 0"
proof -
  have "be_bytes k 0 = replicate k 0"
    by (induction k) (simp_all add: replicate_append_same [symmetric])
  then show ?thesis by (simp add: enc_be_def)
qed

text \<open>The first \<open>m\<close> entries of a table of \<open>n\<close>, the rest still zero.\<close>

definition table_bytes :: "int list \<Rightarrow> nat \<Rightarrow> bytes" where
  "table_bytes es n = concat (map (enc_be 8) es) @ replicate (8 * (n - length es)) 0"

lemma length_table: "length (concat (map (enc_be 8) es)) = 8 * length es"
  by (induction es) simp_all

lemma length_table_bytes [simp]: "length es \<le> n \<Longrightarrow> length (table_bytes es n) = 8 * n"
  by (simp add: table_bytes_def length_table)

lemma pack_field_table:
  assumes "length es < n" "fits 8 v"
  shows "pack_field (table_bytes es n) (int (length es) * 8) 8 v = Inr (table_bytes (es @ [v]) n)"
proof -
  have "8 * (n - length es) - 8 = 8 * (n - Suc (length es))" using assms(1) by simp
  moreover have "nat (int (length es) * 8) = 8 * length es" by simp
  ultimately show ?thesis
    using assms length_table [of es]
    by (simp add: pack_field_def pack_be_fits pack_into_def table_bytes_def)
qed

lemma table_bytes_skip:
  assumes "length es < n"
  shows "table_bytes (es @ [0]) n = table_bytes es n"
proof -
  have "8 * (n - length es) = 8 + 8 * (n - Suc (length es))" using assms by simp
  then show ?thesis by (simp add: table_bytes_def enc_be_zero flip: replicate_add)
qed

lemma table_bytes_full: "table_bytes es (length es) = concat (map (enc_be 8) es)"
  by (simp add: table_bytes_def)

lemma table_bytes_empty: "table_bytes [] n = replicate (8 * n) 0"
  by (simp add: table_bytes_def)

text \<open>
  The entries of a table whose set slots point to consecutive clusters from
  \<open>off\<close> on; \<open>e i\<close> is slot \<open>i\<close> of all tables together.
\<close>

definition slot :: "bytes \<Rightarrow> int \<Rightarrow> int \<Rightarrow> nat \<Rightarrow> int" where
  "slot b off cs i = (if bm_has b i then (off + cs * int (bm.rank b i)) OR QCOW_OFLAG_COPIED else 0)"

lemma rank_Suc: "bm.rank b (Suc i) = bm.rank b i + (if bm_has b i then 1 else 0)"
  by (simp add: bm.rank_def)

lemma rank_mono: "i \<le> j \<Longrightarrow> bm.rank b i \<le> bm.rank b j"
  by (induction j rule: dec_induct) (auto simp: rank_Suc)

lemma or_copied_fits:
  assumes "0 \<le> v" "v < 2 ^ 63"
  shows "fits 8 (v OR QCOW_OFLAG_COPIED)"
proof -
  have "take_bit 64 (v OR QCOW_OFLAG_COPIED) = v OR QCOW_OFLAG_COPIED"
    using assms by (simp add: QCOW_OFLAG_COPIED_def take_bit_int_eq_self)
  then have "v OR QCOW_OFLAG_COPIED < 2 ^ 64" by (metis take_bit_int_less_exp)
  moreover have "0 \<le> v OR QCOW_OFLAG_COPIED" using assms by (simp add: QCOW_OFLAG_COPIED_def)
  ultimately show ?thesis by (simp add: fits_def)
qed

lemma table_loop:
  assumes "base + n \<le> bm_cap b" "0 \<le> off" "0 \<le> cs" "off + cs * int (bm.rank b (base + n)) < 2 ^ 63" "m \<le> n"
  shows "sfold (table_entry b (int base) (next_cluster_entry cs)) (map int [0..<m])
      (replicate (8 * n) 0, off + cs * int (bm.rank b base))
    = Inr (table_bytes (map (slot b off cs) [base..<base + m]) n, off + cs * int (bm.rank b (base + m)))"
  using assms(5)
proof (induction m)
  case 0
  then show ?case by (simp add: table_bytes_empty)
next
  case (Suc m)
  let ?es = "map (slot b off cs) [base..<base + m]" and ?cur = "off + cs * int (bm.rank b (base + m))"
  have g: "bitmap_is_set b (int base + int m) = Inr (bm_has b (base + m))"
    using bm.get_in [of "base + m" b] Suc.prems assms(1) by simp
  have "bm.rank b (base + m) \<le> bm.rank b (base + n)" using Suc.prems by (intro rank_mono) simp
  then have "cs * int (bm.rank b (base + m)) \<le> cs * int (bm.rank b (base + n))"
    using assms(3) by (intro mult_left_mono) auto
  then have "fits 8 (?cur OR QCOW_OFLAG_COPIED)" using assms(2-4) by (intro or_copied_fits) auto
  with pack_field_table [of ?es n "?cur OR QCOW_OFLAG_COPIED"] Suc.prems
  have p: "pack_field (table_bytes ?es n) (int m * 8) 8 (?cur OR QCOW_OFLAG_COPIED)
      = Inr (table_bytes (?es @ [?cur OR QCOW_OFLAG_COPIED]) n)"
    by simp
  have step: "table_entry b (int base) (next_cluster_entry cs) (int m) (table_bytes ?es n, ?cur) =
      Inr (table_bytes (?es @ [slot b off cs (base + m)]) n, off + cs * int (bm.rank b (base + Suc m)))"
  proof (cases "bm_has b (base + m)")
    case True
    then have "slot b off cs (base + m) = ?cur OR QCOW_OFLAG_COPIED"
        "off + cs * int (bm.rank b (base + Suc m)) = ?cur + cs"
      by (simp_all add: slot_def rank_Suc algebra_simps)
    with True g p show ?thesis by (simp add: table_entry_def next_cluster_entry_def)
  next
    case False
    then have "slot b off cs (base + m) = 0" "bm.rank b (base + Suc m) = bm.rank b (base + m)"
      by (simp_all add: slot_def rank_Suc)
    with False g table_bytes_skip [of ?es n] Suc.prems show ?thesis by (simp add: table_entry_def)
  qed
  have "[base..<base + Suc m] = [base..<base + m] @ [base + m]" by simp
  with Suc.IH Suc.prems step show ?case by (simp add: sfold_append)
qed


section \<open>Emitting clusters\<close>

text \<open>The writer returns and has appended exactly these clusters.\<close>

definition emits :: "unit out_op \<Rightarrow> bytes list \<Rightarrow> bool" where
  "emits m cls \<longleftrightarrow> (\<forall>out. m out = (Inr (), out @ concat cls))"

lemma emits_seq: "emits m a \<Longrightarrow> emits k b \<Longrightarrow> emits (seq m k) (a @ b)"
  by (simp add: emits_def seq_def bnd_def)

lemma emits_put: "emits (put c) [c]"
  by (simp add: emits_def put_def modify_def)

lemma emits_ret: "emits (ret ()) []"
  by (simp add: emits_def ret_def)

lemma emits_lift: "r = Inr x \<Longrightarrow> emits (f x) cls \<Longrightarrow> emits (bnd (lift_sum r) f) cls"
  by (simp add: emits_def bnd_def lift_sum_def)

lemma emits_for_each: "(\<And>x. x \<in> set xs \<Longrightarrow> emits (body x) (f x)) \<Longrightarrow> emits (for_each body xs) (concat (map f xs))"
  by (induction xs) (auto intro: emits_ret emits_seq)

lemma new_cluster_eq: "cluster_size a = int (8 * L) \<Longrightarrow> new_cluster a = replicate (8 * L) 0"
  by (simp add: new_cluster_def nat_8L)

definition table_cluster :: "nat \<Rightarrow> bytes \<Rightarrow> int \<Rightarrow> int \<Rightarrow> nat \<Rightarrow> bytes" where
  "table_cluster L b off cs t = concat (map (enc_be 8) (map (slot b off cs) [t * L..<t * L + L]))"

lemma length_table_cluster [simp]: "length (table_cluster L b off cs t) = 8 * L"
  by (simp add: table_cluster_def length_table del: map_map)

lemma table_cluster_loop:
  assumes "cluster_size a = int (8 * L)" "t * L + L \<le> bm_cap b" "0 \<le> off"
    and "off + cluster_size a * int (bm.rank b (t * L + L)) < 2 ^ 63"
  shows "sfold (table_entry b (int t * (cluster_size a div 8)) (next_cluster_entry (cluster_size a)))
      [0..cluster_size a div 8 - 1] (new_cluster a, off + cluster_size a * int (bm.rank b (t * L)))
    = Inr (table_cluster L b off (cluster_size a) t, off + cluster_size a * int (bm.rank b (t * L + L)))"
proof -
  have L: "cluster_size a div 8 = int L" using assms(1) by simp
  have "length (map (slot b off (cluster_size a)) [t * L..<t * L + L]) = L" by simp
  then have "table_bytes (map (slot b off (cluster_size a)) [t * L..<t * L + L]) L = table_cluster L b off (cluster_size a) t"
    unfolding table_cluster_def by (metis table_bytes_full)
  with table_loop [OF assms(2,3), of "cluster_size a" L] assms show ?thesis
    unfolding L upto_upt by (simp add: new_cluster_eq)
qed

lemma emits_l1_table:
  assumes "cluster_size a = int (8 * L)" "T * L \<le> bm_cap b" "0 \<le> off"
    and "off + cluster_size a * int (bm.rank b (T * L)) < 2 ^ 63" "t \<le> T"
  shows "emits (write_l1_table a b (map int [t..<T]) (off + cluster_size a * int (bm.rank b (t * L))))
    (map (table_cluster L b off (cluster_size a)) [t..<T])"
  using assms(5)
proof (induction "T - t" arbitrary: t)
  case 0
  then show ?case by (simp add: emits_ret)
next
  case (Suc n)
  then have t: "t < T" by simp
  have le: "t * L + L \<le> T * L" using t mult_le_mono1 [of "Suc t" T L] by simp
  have "cluster_size a * int (bm.rank b (t * L + L)) \<le> cluster_size a * int (bm.rank b (T * L))"
    using rank_mono [OF le, of b] assms(1) by (intro mult_left_mono) auto
  with table_cluster_loop [OF assms(1) _ assms(3), of t b] le assms(2,4)
  have "sfold (table_entry b (int t * (cluster_size a div 8)) (next_cluster_entry (cluster_size a)))
      [0..cluster_size a div 8 - 1] (new_cluster a, off + cluster_size a * int (bm.rank b (t * L)))
    = Inr (table_cluster L b off (cluster_size a) t, off + cluster_size a * int (bm.rank b (t * L + L)))"
    by simp
  moreover have "emits (write_l1_table a b (map int [Suc t..<T]) (off + cluster_size a * int (bm.rank b (t * L + L))))
      (map (table_cluster L b off (cluster_size a)) [Suc t..<T])"
    using Suc.hyps(1) [of "Suc t"] Suc.hyps(2) t by (simp add: add.commute)
  ultimately show ?case
    using t emits_seq [OF emits_put [of "table_cluster L b off (cluster_size a) t"]]
    by (auto simp: upt_rec [of t] Let_def intro!: emits_lift)
qed

lemma rank_no_bits:
  assumes "\<forall>i. m \<le> i \<and> i < n \<longrightarrow> \<not> bm_has b i" "m \<le> n"
  shows "bm.rank b n = bm.rank b m"
  using assms(2,1) by (induction n rule: dec_induct) (auto simp: rank_Suc)

lemma emits_l2_tables:
  assumes "cluster_size a = int (8 * L)" "data_file_name a = None" "0 < L"
    and "alloc_inv L T E s" "0 \<le> off"
    and "off + cluster_size a * int (bm.rank (l2_bitmap s) (E * L)) < 2 ^ 63" "t \<le> E"
  shows "emits (write_l2_tables a (l1_bitmap s) (l2_bitmap s) (map int [t..<E])
      (off + cluster_size a * int (bm.rank (l2_bitmap s) (t * L))))
    (map (table_cluster L (l2_bitmap s) off (cluster_size a)) (filter (bm_has (l1_bitmap s)) [t..<E]))"
  using assms(7)
proof (induction "E - t" arbitrary: t)
  case 0
  then show ?case by (simp add: emits_ret)
next
  case (Suc n)
  let ?b = "l2_bitmap s"
  from Suc have t: "t < E" by simp
  have le: "t * L + L \<le> E * L" using t mult_le_mono1 [of "Suc t" E L] by simp
  have cap: "bm_cap ?b = E * L" "t < bm_cap (l1_bitmap s)"
    using assms(4) t by (auto simp: alloc_inv_def)
  have g: "bitmap_is_set (l1_bitmap s) (int t) = Inr (bm_has (l1_bitmap s) t)" by (rule bm.get_in [OF cap(2)])
  have rest: "emits (write_l2_tables a (l1_bitmap s) ?b (map int [Suc t..<E])
      (off + cluster_size a * int (bm.rank ?b (t * L + L))))
    (map (table_cluster L ?b off (cluster_size a)) (filter (bm_has (l1_bitmap s)) [Suc t..<E]))"
    using Suc.hyps(1) [of "Suc t"] Suc.hyps(2) t by (simp add: add.commute)
  show ?case
  proof (cases "bm_has (l1_bitmap s) t")
    case True
    have "cluster_size a * int (bm.rank ?b (t * L + L)) \<le> cluster_size a * int (bm.rank ?b (E * L))"
      using rank_mono [OF le, of ?b] assms(1) by (intro mult_left_mono) auto
    with table_cluster_loop [OF assms(1) _ assms(5), of t ?b] le cap assms(6)
    have "sfold (table_entry ?b (int t * (cluster_size a div 8)) (next_cluster_entry (cluster_size a)))
        [0..cluster_size a div 8 - 1] (new_cluster a, off + cluster_size a * int (bm.rank ?b (t * L)))
      = Inr (table_cluster L ?b off (cluster_size a) t, off + cluster_size a * int (bm.rank ?b (t * L + L)))"
      by simp
    with True t g assms(2) emits_seq [OF emits_put rest] show ?thesis
      by (auto simp: upt_rec [of t] Let_def intro!: emits_lift)
  next
    case False
    have "\<not> bm_has ?b i" if "t * L \<le> i" "i < t * L + L" for i
    proof -
      have "i div L = t" using that assms(3) by (intro div_nat_eqI) (auto simp: mult.commute)
      with that le False assms(4) show ?thesis by (auto simp: alloc_inv_def)
    qed
    then have "bm.rank ?b (t * L + L) = bm.rank ?b (t * L)" by (intro rank_no_bits) auto
    with False t g rest show ?thesis
      by (auto simp: upt_rec [of t] intro!: emits_lift)
  qed
qed

lemma emits_data:
  assumes "cluster_size a = int (8 * L)" "n \<le> bm_cap b"
  shows "emits (write_data_clusters a b (int n))
    (map (source_cluster (8 * L) (input_file a)) (filter (bm_has b) [0..<n]))"
proof -
  let ?c = "source_cluster (8 * L) (input_file a)"
  have "emits (bnd (lift_sum (bitmap_is_set b (int i))) (\<lambda>h. if h then
      bnd (lift_sum (pread (input_file a) (cluster_size a) (cluster_size a * int i))) (\<lambda>cluster.
         put (pad_cluster (cluster_size a) cluster)) else ret ()))
      (if bm_has b i then [?c i] else [])" if "i < n" for i
  proof (rule emits_lift)
    show "bitmap_is_set b (int i) = Inr (bm_has b i)" using that assms(2) by (intro bm.get_in) simp
    have "pread (input_file a) (cluster_size a) (cluster_size a * int i)
        = Inr (take (8 * L) (drop (8 * L * i) (input_file a)))"
      using assms(1) pread_in [of "input_file a" "8 * L" i] by simp
    moreover have "put (pad_cluster (cluster_size a) (take (8 * L) (drop (8 * L * i) (input_file a)))) = put (?c i)"
      using assms(1) pad_cluster_eq [of "take (8 * L) (drop (8 * L * i) (input_file a))" "8 * L"]
      by (simp add: source_cluster_def)
    ultimately show "emits (if bm_has b i then
        bnd (lift_sum (pread (input_file a) (cluster_size a) (cluster_size a * int i))) (\<lambda>cluster.
         put (pad_cluster (cluster_size a) cluster)) else ret ()) (if bm_has b i then [?c i] else [])"
      by (auto intro!: emits_ret emits_lift simp: emits_put)
  qed
  then have "emits (write_data_clusters a b (int n)) (concat (map (\<lambda>i. if bm_has b i then [?c i] else []) [0..<n]))"
    unfolding write_data_clusters_def bitmap_iterator_def upto_upt for_each_map
    by (intro emits_for_each) auto
  moreover have "concat (map (\<lambda>i. if bm_has b i then [?c i] else []) xs) = map ?c (filter (bm_has b) xs)" for xs
    by (induction xs) auto
  ultimately show ?thesis by simp
qed


subsection \<open>Refcounts\<close>

definition refcount_cluster :: "nat \<Rightarrow> int \<Rightarrow> int \<Rightarrow> nat \<Rightarrow> nat \<Rightarrow> bytes" where
  "refcount_cluster L off cs B t =
     table_bytes (map (\<lambda>j. off + cs * int j) [t * L..<min B (t * L + L)]) L"

lemma refcount_table_loop:
  assumes "m \<le> n" "0 \<le> off" "0 \<le> cs" "off + cs * int m < 2 ^ 64"
  shows "sfold (refcount_table_entry cs) (map int [0..<m]) (replicate (8 * n) 0, off)
    = Inr (table_bytes (map (\<lambda>j. off + cs * int j) [0..<m]) n, off + cs * int m)"
  using assms
proof (induction m)
  case 0
  then show ?case by (simp add: table_bytes_empty)
next
  case (Suc m)
  have "0 \<le> cs * int m" using Suc.prems(3) by simp
  moreover have "cs * int m \<le> cs * int (Suc m)" using Suc.prems(3) by (intro mult_left_mono) auto
  ultimately have f: "fits 8 (off + cs * int m)" "off + cs * int m < 2 ^ 64"
    using Suc.prems(2,4) by (auto simp: fits_def)
  from pack_field_table [of "map (\<lambda>j. off + cs * int j) [0..<m]" n, OF _ f(1)] Suc.prems(1)
  have "pack_field (table_bytes (map (\<lambda>j. off + cs * int j) [0..<m]) n) (int m * 8) 8 (off + cs * int m)
    = Inr (table_bytes (map (\<lambda>j. off + cs * int j) [0..<Suc m]) n)"
    by simp
  with Suc f(2) show ?case by (simp add: sfold_append refcount_table_entry_def algebra_simps)
qed

lemma emits_refcount_table:
  assumes "cluster_size a = int (8 * L)" "0 < L" "0 \<le> off" "off + cluster_size a * int B < 2 ^ 64"
    and "K = (B + L - 1) div L" "t \<le> K"
  shows "emits (write_refcount_table a (int B - int (t * L)) (off + cluster_size a * int (t * L)))
    (map (refcount_cluster L off (cluster_size a) B) [t..<K])"
  using assms(6)
proof (induction "K - t" arbitrary: t)
  case 0
  have "\<not> t * L < B" using 0 below_ceil [OF assms(2), of t B] assms(5) by simp
  then have "\<not> 0 < int B - int (t * L)" by linarith
  then have "write_refcount_table a (int B - int (t * L)) (off + cluster_size a * int (t * L)) = ret ()"
    by (subst write_refcount_table.simps) (simp del: of_nat_mult)
  with 0 show ?case by (simp add: emits_ret)
next
  case (Suc n)
  then have t: "t < K" by simp
  then have tB: "t * L < B" using below_ceil [OF assms(2)] assms(5) by simp
  define m where "m = min (B - t * L) L"
  have m: "0 < m" "m \<le> L" "t * L + m \<le> B" "min B (t * L + L) = t * L + m"
    using tB assms(2) by (auto simp: m_def min_def)
  let ?off = "off + cluster_size a * int (t * L)"
  have w: "min (int B - int (t * L)) (cluster_size a div 8) = int m"
  proof -
    have "int B - int (t * L) = int (B - t * L)" using tB by linarith
    moreover have "cluster_size a div 8 = int L" using assms(1) by simp
    ultimately show ?thesis by (simp only: m_def of_nat_min)
  qed
  have bound: "?off + cluster_size a * int m \<le> off + cluster_size a * int B"
  proof -
    have "cluster_size a * int (t * L + m) \<le> cluster_size a * int B"
      using m(3) assms(1) by (intro mult_left_mono, linarith, simp)
    then show ?thesis by (simp add: distrib_left)
  qed
  have "sfold (refcount_table_entry (cluster_size a)) [0..int m - 1] (new_cluster a, ?off)
    = Inr (table_bytes (map (\<lambda>j. ?off + cluster_size a * int j) [0..<m]) L, ?off + cluster_size a * int m)"
    unfolding upto_upt new_cluster_eq [OF assms(1)]
    by (rule refcount_table_loop) (use m bound assms in auto)
  moreover have "map (\<lambda>j. ?off + cluster_size a * int j) [0..<m]
      = map (\<lambda>j. off + cluster_size a * int j) [t * L..<t * L + m]"
    by (rule nth_equalityI) (auto simp: algebra_simps)
  ultimately have loop: "sfold (refcount_table_entry (cluster_size a)) [0..int m - 1] (new_cluster a, ?off)
    = Inr (refcount_cluster L off (cluster_size a) B t, ?off + cluster_size a * int m)"
    by (simp add: refcount_cluster_def m(4))
  have unfold: "write_refcount_table a (int B - int (t * L)) ?off =
    bnd (lift_sum (sfold (refcount_table_entry (cluster_size a)) [0..int m - 1] (new_cluster a, ?off)))
      (\<lambda>(c, off'). seq (put c) (write_refcount_table a (int B - int (t * L) - int m) off'))"
    using tB m(1) by (subst write_refcount_table.simps) (simp add: w Let_def del: of_nat_mult)
  have rest: "emits (write_refcount_table a (int B - int (t * L) - int m) (?off + cluster_size a * int m))
      (map (refcount_cluster L off (cluster_size a) B) [Suc t..<K])"
  proof (cases "Suc t < K")
    case True
    then have "Suc t * L < B" using below_ceil [OF assms(2)] assms(5) by simp
    then have "m = L" by (simp add: m_def)
    with Suc.hyps(1) [of "Suc t"] Suc.hyps(2) t show ?thesis by (simp add: algebra_simps)
  next
    case False
    then have "\<not> Suc t * L < B" using below_ceil [OF assms(2)] assms(5) by simp
    then have "m = B - t * L" using tB by (simp add: m_def min_def)
    then have "int B - int (t * L) - int m = 0" using tB by linarith
    with False show ?thesis by (simp add: write_refcount_table.simps emits_ret)
  qed
  show ?case
    unfolding unfold using emits_seq [OF emits_put rest] loop t
    by (auto simp: upt_rec [of t] intro!: emits_lift)
qed

lemma length_refcount_cluster [simp]: "length (refcount_cluster L off cs B t) = 8 * L"
  by (simp add: refcount_cluster_def min_def)


text \<open>The refcount stored at index \<open>j\<close> of a block with entries of \<open>w\<close> bits.\<close>

definition refcount_at :: "nat \<Rightarrow> bytes \<Rightarrow> nat \<Rightarrow> int" where
  "refcount_at w c j =
     (if 8 \<le> w then dec_be (take (w div 8) (drop (j * (w div 8)) c))
      else uint (take_bit w (drop_bit (j mod (8 div w) * w) (c ! (j div (8 div w))))))"

lemma entry_replace:
  assumes "i * k + k \<le> length c" "length e = k"
  shows "take k (drop (j * k) (take (i * k) c @ e @ drop (i * k + k) c)) = (if j = i then e else take k (drop (j * k) c))"
proof -
  consider "j = i" | "j < i" | "i < j" by linarith
  then show ?thesis
  proof cases
    case 1
    with assms show ?thesis by simp
  next
    case 2
    then have "j * k + k \<le> i * k" using mult_le_mono1 [of "Suc j" i k] by simp
    with 2 assms show ?thesis by (simp add: take_drop min_def)
  next
    case 3
    then have "i * k + k \<le> j * k" using mult_le_mono1 [of "Suc i" j k] by simp
    with 3 assms show ?thesis by simp
  qed
qed

lemma pack_field_entry:
  assumes "i * k + k \<le> length c" "fits k v"
  shows "\<exists>c'. pack_field c (int i * int k) k v = Inr c' \<and> length c' = length c
    \<and> (\<forall>j. take k (drop (j * k) c') = (if j = i then enc_be k v else take k (drop (j * k) c)))"
proof -
  have "nat (int i * int k) = i * k" by (simp add: nat_mult_distrib)
  with assms entry_replace [OF assms(1), of "enc_be k v"] show ?thesis
    by (auto simp: pack_field_def pack_be_fits pack_into_def)
qed

lemma or_byte_entry:
  assumes "w * d = 8" "i < length c * d"
  shows "\<exists>c'. or_byte c (int i div int d) (push_bit (nat (int i mod int d * int w)) 1) = Inr c' \<and> length c' = length c
    \<and> (\<forall>j < length c * d. take_bit w (drop_bit (j mod d * w) (c' ! (j div d)) :: byte) =
         (if j = i then take_bit w (drop_bit (j mod d * w) (c ! (j div d))) OR 1
          else take_bit w (drop_bit (j mod d * w) (c ! (j div d)))))"
proof -
  have d: "0 < d" "0 < w" using assms(1) by (auto intro: gr0I)
  let ?x = "c ! (i div d)"
  let ?c = "c[i div d := ?x OR push_bit (i mod d * w) 1]"
  have k: "i div d < length c" using assms(2) by (simp add: less_mult_imp_div_less)
  have p: "py_index (length c) (int i div int d) = Some (i div d)"
    using py_index_in [OF k] by (simp add: zdiv_int)
  have n: "nat (int i mod int d * int w) = i mod d * w"
    using nat_int [of "i mod d * w"] by (simp only: of_nat_mult zmod_int)
  have bits: "take_bit w (drop_bit (r * w) (x OR push_bit (q * w) 1)) =
      (if r = q then take_bit w (drop_bit (r * w) x) OR 1 else take_bit w (drop_bit (r * w) x))"
    if "r < d" "q < d" for r q and x :: byte
  proof (rule bit_eqI)
    fix n assume "possible_bit TYPE(8 word) n"
    have *: "n < w \<and> n + r * w = q * w \<longleftrightarrow> r = q \<and> n = 0"
    proof
      assume a: "n < w \<and> n + r * w = q * w"
      then have "n div w = 0" "w \<noteq> 0" by auto
      then have "(n + r * w) div w = r" by simp
      moreover have "(q * w) div w = q" using d by simp
      ultimately have "r = q" using a by metis
      with a show "r = q \<and> n = 0" by simp
    qed (use d in simp)
    have "q * w < 8" using that assms(1) mult_less_mono1 [of q d w] d by (simp add: mult.commute)
    with * show "bit (take_bit w (drop_bit (r * w) (x OR push_bit (q * w) 1))) n =
      bit (if r = q then take_bit w (drop_bit (r * w) x) OR 1 else take_bit w (drop_bit (r * w) x)) n"
      by (auto simp: bit_simps bit_exp_iff bit_1_iff)
  qed
  have "take_bit w (drop_bit (j mod d * w) (?c ! (j div d))) =
         (if j = i then take_bit w (drop_bit (j mod d * w) (c ! (j div d))) OR 1
          else take_bit w (drop_bit (j mod d * w) (c ! (j div d))))" if "j < length c * d" for j
  proof (cases "j div d = i div d")
    case True
    have "j = i \<longleftrightarrow> j mod d = i mod d" using True by (metis div_mult_mod_eq)
    with True k bits [of "j mod d" "i mod d"] d show ?thesis by simp
  next
    case False
    then show ?thesis by (auto simp: nth_list_update)
  qed
  moreover have "or_byte c (int i div int d) (push_bit (nat (int i mod int d * int w)) 1) = Inr ?c"
    by (simp add: or_byte_def p n del: push_bit_of_1)
  ultimately show ?thesis by (intro exI [of _ ?c]) simp
qed


definition refcount_widths :: "nat list" where
  "refcount_widths = [64, 32, 16, 8, 4, 2, 1]"

lemma refcount_entry_upd:
  assumes "w \<in> set refcount_widths" "i * w + w \<le> 8 * length c" "8 dvd length c" "refcount_at w c i = 0"
  shows "\<exists>c'. refcount_entry (int w) (int i) c = Inr c' \<and> length c' = length c
    \<and> (\<forall>j. j * w + w \<le> 8 * length c \<longrightarrow> refcount_at w c' j = (if j = i then 1 else refcount_at w c j))"
proof -
  consider (words) k where "w = 8 * k" "k = 8 \<or> k = 4 \<or> k = 2" | (byte) "w = 8"
    | (bits) d where "w * d = 8" "w = 4 \<and> d = 2 \<or> w = 2 \<and> d = 4 \<or> w = 1 \<and> d = 8"
    using assms(1) by (force simp: refcount_widths_def)
  then show ?thesis
  proof cases
    case words
    then have "fits k 1" "i * k + k \<le> length c" using assms(2) by (auto simp: fits_def)
    from pack_field_entry [OF this(2,1)] obtain c' where
      c': "pack_field c (int i * int k) k 1 = Inr c'" "length c' = length c"
      "\<forall>j. take k (drop (j * k) c') = (if j = i then enc_be k 1 else take k (drop (j * k) c))" by blast
    moreover have "refcount_entry (int w) (int i) c = Inr c'"
      using c'(1) words by (auto simp: refcount_entry_def)
    ultimately show ?thesis
      using words \<open>fits k 1\<close> by (auto simp: refcount_at_def dec_be_enc_be)
  next
    case byte
    with assms(2) have i: "i < length c" by simp
    then have "refcount_entry 8 (int i) c = Inr (c[i := 1])"
      by (simp add: refcount_entry_def py_index_in)
    moreover have "refcount_at 8 (c[i := 1]) j = (if j = i then 1 else refcount_at 8 c j)" if "j < length c" for j
      using that i by (auto simp: refcount_at_def dec_be_def take_Suc_conv_app_nth be_val_def take_Suc
          hd_drop_conv_nth)
    ultimately show ?thesis using byte by auto
  next
    case bits
    have "i < length c * d" using assms(2) bits by auto
    from or_byte_entry [OF bits(1) this] obtain c' where
      c': "or_byte c (int i div int d) (push_bit (nat (int i mod int d * int w)) 1) = Inr c'" "length c' = length c"
      "\<forall>j < length c * d. take_bit w (drop_bit (j mod d * w) (c' ! (j div d)) :: byte) =
         (if j = i then take_bit w (drop_bit (j mod d * w) (c ! (j div d))) OR 1
          else take_bit w (drop_bit (j mod d * w) (c ! (j div d))))" by blast
    have d: "8 div w = d" "\<not> 8 \<le> w" using bits by auto
    have "refcount_entry (int w) (int i) c = Inr c'"
      using c'(1) bits(2) by (auto simp: refcount_entry_def simp del: push_bit_of_1)
    moreover have "take_bit w (drop_bit (i mod d * w) (c ! (i div d))) = 0"
      using assms(4) d by (simp add: refcount_at_def uint_0_iff)
    moreover have "j < length c * d" if "j * w + w \<le> 8 * length c" for j using that bits by auto
    ultimately show ?thesis using c'(2,3) d by (auto simp: refcount_at_def)
  qed
qed

lemma refcount_at_zero:
  assumes "w \<in> set refcount_widths" "j * w + w \<le> 8 * n"
  shows "refcount_at w (replicate n 0) j = 0"
proof -
  have z: "dec_be (replicate k 0) = 0" for k
    using dec_be_enc_be [of k 0] by (simp add: enc_be_zero fits_def)
  show ?thesis
    using assms z by (auto simp: refcount_widths_def refcount_at_def)
qed

lemma refcount_block_loop:
  assumes "w \<in> set refcount_widths" "m * w \<le> 8 * n" "8 dvd n"
  shows "\<exists>c. sfold (refcount_entry (int w)) (map int [0..<m]) (replicate n 0) = Inr c \<and> length c = n
    \<and> (\<forall>j. j * w + w \<le> 8 * n \<longrightarrow> refcount_at w c j = (if j < m then 1 else 0))"
  using assms(2)
proof (induction m)
  case 0
  with assms(1) refcount_at_zero show ?case by simp
next
  case (Suc m)
  then obtain c where c: "sfold (refcount_entry (int w)) (map int [0..<m]) (replicate n 0) = Inr c" "length c = n"
    "\<forall>j. j * w + w \<le> 8 * n \<longrightarrow> refcount_at w c j = (if j < m then 1 else 0)" by auto
  have "m * w + w \<le> 8 * length c" using Suc.prems c(2) by simp
  with refcount_entry_upd [OF assms(1) this] c assms(3) obtain c' where
    "refcount_entry (int w) (int m) c = Inr c'" "length c' = n"
    "\<forall>j. j * w + w \<le> 8 * n \<longrightarrow> refcount_at w c' j = (if j = m then 1 else refcount_at w c j)" by auto
  with c show ?case by (auto simp: sfold_append less_Suc_eq)
qed

text \<open>
  All refcount blocks: \<open>n\<close> clusters in which the first \<open>rem\<close> refcounts,
  \<open>per\<close> in each, are 1.
\<close>

lemma emits_refcount_blocks:
  assumes "cluster_size a = int (8 * L)" "refcount_bits a = int w" "w \<in> set refcount_widths" "8 dvd L"
    and "per * w = 64 * L"
  shows "\<exists>cls. emits (write_refcount_blocks a n (int rem)) cls \<and> length cls = n
    \<and> (\<forall>c \<in> set cls. length c = 8 * L)
    \<and> (\<forall>i < n * per. i < rem \<longrightarrow> refcount_at w (cls ! (i div per)) (i mod per) = 1)"
proof (induction n arbitrary: rem)
  case 0
  show ?case by (auto simp: emits_ret)
next
  case (Suc n)
  have w: "0 < w" using assms(3) by (auto simp: refcount_widths_def)
  have "int (per * w) div int w = int per" using w by (simp only: zdiv_int [symmetric]) simp
  then have per: "cluster_size a * 8 div refcount_bits a = int per"
    using assms(1,2,5) by simp
  define m where "m = min rem per"
  have "m * w \<le> 8 * (8 * L)" using assms(5) mult_le_mono1 [of m per w] by (simp add: m_def)
  from refcount_block_loop [OF assms(3) this] obtain c where
    c: "sfold (refcount_entry (int w)) (map int [0..<m]) (replicate (8 * L) 0) = Inr c" "length c = 8 * L"
    "\<forall>j. j * w + w \<le> 8 * (8 * L) \<longrightarrow> refcount_at w c j = (if j < m then 1 else 0)" by auto
  have step: "min (int rem) (int per) = int m" by (simp add: m_def)
  have rest: "int rem - int m = int (rem - m)" by (simp add: m_def)
  obtain cls where cls: "emits (write_refcount_blocks a n (int (rem - m))) cls" "length cls = n"
    "\<forall>c \<in> set cls. length c = 8 * L"
    "\<forall>i < n * per. i < rem - m \<longrightarrow> refcount_at w (cls ! (i div per)) (i mod per) = 1"
    using Suc.IH by blast
  have "emits (write_refcount_blocks a (Suc n) (int rem)) ([c] @ cls)"
    using emits_seq [OF emits_put cls(1)] c(1)
    by (auto simp: per [unfolded assms(2)] step rest Let_def upto_upt new_cluster_eq [OF assms(1)] assms(2) intro!: emits_lift)
  moreover have "refcount_at w (([c] @ cls) ! (i div per)) (i mod per) = 1"
    if i: "i < Suc n * per" "i < rem" for i
  proof (cases "i < per")
    case True
    then have "i * w + w \<le> per * w" using mult_le_mono1 [of "Suc i" per w] by simp
    with True i c(3) assms(5) show ?thesis by (simp add: m_def)
  next
    case False
    then have "per \<noteq> 0" using i by (cases per) auto
    with False have "i div per = Suc ((i - per) div per)" "i mod per = (i - per) mod per"
      by (simp_all add: div_if mod_if)
    moreover have "i - per < n * per" "i - per < rem - m" using False i by (auto simp: m_def)
    ultimately show ?thesis using cls(4) by simp
  qed
  ultimately show ?case
    using c(2) cls(2,3) by (intro exI [of _ "[c] @ cls"]) auto
qed


section \<open>The header\<close>

lemma pack_into_ok:
  assumes "0 \<le> off" "nat off + length bs \<le> length buf"
  shows "\<exists>c. pack_into buf off bs = Inr c \<and> length c = length buf \<and> (\<forall>n. n \<le> nat off \<longrightarrow> take n c = take n buf)"
  using assms by (auto simp: pack_into_def min_def)

lemma sfold_features:
  assumes "104 \<le> off" "nat off + 48 * length fs \<le> length c" "\<forall>(t, b, n) \<in> set fs. fits 1 t \<and> fits 1 b"
  shows "\<exists>c' off'. sfold write_feature fs (c, off) = Inr (c', off') \<and> length c' = length c
    \<and> take 104 c' = take 104 c"
  using assms
proof (induction fs arbitrary: c off)
  case (Cons f fs)
  obtain t b n where f: "f = (t, b, n)" by (cases f)
  have "length (enc_be 1 t @ enc_be 1 b @ pad_to 46 (map of_char n)) = 48" by simp
  with pack_into_ok [of off "enc_be 1 t @ enc_be 1 b @ pad_to 46 (map of_char n)" c] Cons.prems obtain c1 where
    c1: "pack_into c off (enc_be 1 t @ enc_be 1 b @ pad_to 46 (map of_char n)) = Inr c1" "length c1 = length c"
      "take 104 c1 = take 104 c" by auto
  have "write_feature f (c, off) = Inr (c1, off + 48)"
    using c1(1) Cons.prems(3) f by (simp add: write_feature_def pack_fields_eq)
  moreover have "nat (off + 48) + 48 * length fs \<le> length c1" using Cons.prems c1(2) by simp
  ultimately show ?case using Cons.IH [of "off + 48" c1] Cons.prems c1 by auto
qed simp

lemma write_features_ok:
  assumes "504 \<le> length c"
  shows "\<exists>c'. write_features c 112 None = Inr c' \<and> length c' = length c \<and> take 104 c' = take 104 c"
proof -
  have f: "fits 4 QCOW2_FEATURE_NAME_TABLE" "fits 4 (int (length qcow2_features) * 48)"
    by (simp_all add: fits_def QCOW2_FEATURE_NAME_TABLE_def qcow2_features_def)
  obtain c1 where c1: "pack_field c 112 4 QCOW2_FEATURE_NAME_TABLE = Inr c1" "length c1 = length c"
      "take 104 c1 = take 104 c"
    using pack_into_ok [of 112 "enc_be 4 QCOW2_FEATURE_NAME_TABLE" c] assms f
    by (auto simp: pack_field_def pack_be_fits)
  obtain c2 where c2: "pack_field c1 116 4 (int (length qcow2_features) * 48) = Inr c2" "length c2 = length c"
      "take 104 c2 = take 104 c"
    using pack_into_ok [of 116 "enc_be 4 (int (length qcow2_features) * 48)" c1] assms f c1
    by (auto simp: pack_field_def pack_be_fits)
  have "\<exists>c' off'. sfold write_feature qcow2_features (c2, 120) = Inr (c', off') \<and> length c' = length c2
    \<and> take 104 c' = take 104 c2"
    by (rule sfold_features) (use assms c2 in \<open>auto simp: qcow2_features_def fits_def\<close>)
  with c1 c2 show ?thesis
    by (auto simp: write_features_def write_data_file_name_def)
qed

lemma emits_header:
  assumes "cluster_size a = int (8 * L)" "64 \<le> L" "data_file_name a = None"
    and "\<forall>(k, v) \<in> set (header_fields a l). fits k v"
  shows "\<exists>h. emits (write_header a l) [h] \<and> length h = 8 * L
    \<and> take 104 h = [0x51, 0x46, 0x49, 0xfb] @ enc_fields (header_fields a l)"
proof -
  let ?m = "[0x51, 0x46, 0x49, 0xfb] @ enc_fields (header_fields a l)"
  have len: "length ?m = 104" by (simp add: header_fields_def)
  then obtain c where c: "pack_into (new_cluster a) 0 ?m = Inr c" "length c = 8 * L" "take 104 c = ?m"
    using assms(1,2) new_cluster_eq [OF assms(1)] by (simp add: pack_into_def)
  from write_features_ok [of c] c(2) assms(2) obtain h where
    h: "write_features c 112 None = Inr h" "length h = 8 * L" "take 104 h = ?m"
    using c(3) by auto
  have "pack_fields Q_StructError (header_fields a l) = Inr (enc_fields (header_fields a l))"
    using assms(4) by (simp add: pack_fields_eq)
  then have "emits (write_header a l) [h]"
    unfolding write_header_def
    by (intro emits_lift [where x = "enc_fields (header_fields a l)"] emits_lift [where x = c]
        emits_lift [where x = h] emits_put)
      (use c(1) h(1) assms(3) in \<open>simp_all add: QCOW2_V3_HEADER_LENGTH_def\<close>)
  with h show ?thesis by blast
qed

section \<open>Reading an image back\<close>

text \<open>
  A reader of the format, for comparison: cluster size and L1 table from the
  header, then the entries with their offset bits 9 to 55; \<open>None\<close> for a
  cluster that is not allocated.
\<close>

definition be_field :: "bytes \<Rightarrow> int \<Rightarrow> nat \<Rightarrow> int" where
  "be_field img off k = dec_be (take k (drop (nat off) img))"

definition entry_offset :: "int \<Rightarrow> int" where
  "entry_offset v = take_bit 56 (push_bit 9 (drop_bit 9 v))"

definition qcow2_read :: "bytes \<Rightarrow> nat \<Rightarrow> bytes option" where
  "qcow2_read img i =
    (let C = 2 ^ nat (be_field img 20 4); L = C div 8;
         e1 = entry_offset (be_field img (be_field img 40 8 + 8 * int (i div L)) 8) in
     if e1 = 0 then None
     else
       let e2 = entry_offset (be_field img (e1 + 8 * int (i mod L)) 8) in
       if e2 = 0 then None else Some (take C (drop (nat e2) img)))"

lemma entry_offset_copied:
  assumes "0 \<le> v" "v < 2 ^ 56" "512 dvd v"
  shows "entry_offset (v OR QCOW_OFLAG_COPIED) = v"
proof -
  have "push_bit 9 (drop_bit 9 v) = v"
    using assms(3) by (simp add: push_bit_eq_mult drop_bit_eq_div)
  moreover have "take_bit 56 (push_bit 9 (drop_bit 9 QCOW_OFLAG_COPIED)) = 0"
    by (simp add: QCOW_OFLAG_COPIED_def take_bit_eq_mod push_bit_eq_mult drop_bit_eq_div)
  moreover have "take_bit 56 v = v" using assms(1,2) by (simp add: take_bit_int_eq_self)
  ultimately show ?thesis
    unfolding entry_offset_def drop_bit_or push_bit_or take_bit_or by simp
qed

lemma concat_cluster:
  assumes "\<forall>c \<in> set cls. length c = C" "n < length cls"
  shows "take C (drop (n * C) (concat cls)) = cls ! n"
  using assms
proof (induction cls arbitrary: n)
  case (Cons c cls)
  then show ?case by (cases n) simp_all
qed simp

lemma concat_field:
  assumes "\<forall>c \<in> set cls. length c = C" "n < length cls" "j + k \<le> C"
  shows "take k (drop (n * C + j) (concat cls)) = take k (drop j (cls ! n))"
proof -
  have "take k (drop j (take C (drop (n * C) (concat cls)))) = take k (drop (n * C + j) (concat cls))"
    using assms(3) by (simp add: drop_take min_def add.commute)
  then show ?thesis using concat_cluster [OF assms(1,2)] by simp
qed

text \<open>The clusters that are set come in order, each at its rank.\<close>

lemma filter_nth_rank:
  assumes "bm_has b i" "i < n"
  shows "bm.rank b i < length (filter (bm_has b) [0..<n])"
    and "filter (bm_has b) [0..<n] ! bm.rank b i = i"
proof -
  have "filter (bm_has b) [0..<n] = filter (bm_has b) [0..<i] @ i # filter (bm_has b) [Suc i..<n]"
    using assms by (metis (full_types) filter.simps(2) filter_append le_add_diff_inverse less_imp_le_nat
        upt_add_eq_append upt_conv_Cons zero_le)
  then show "bm.rank b i < length (filter (bm_has b) [0..<n])" "filter (bm_has b) [0..<n] ! bm.rank b i = i"
    by (simp_all add: bm.rank_def nth_append)
qed

lemma table_entry_read:
  assumes "\<forall>i \<in> {t * L..<t * L + L}. fits 8 (slot b off cs i)" "j < L"
  shows "dec_be (take 8 (drop (8 * j) (table_cluster L b off cs t))) = slot b off cs (t * L + j)"
  using u64.nth_entry [of "map (slot b off cs) [t * L..<t * L + L]" j] assms
  by (simp add: table_cluster_def list_all_iff mult.commute)

end
