(* ===== verification/Qcow2_Properties.thy ===== *)
theory Qcow2_Properties
  imports Qcow2_Image
begin

text \<open>
  The properties of the qcow2 writer: the layout exists and is consistent, an
  image reads back as its input, every cluster has refcount 1, and the
  behaviour of the interval set.
\<close>

section \<open>The layout\<close>

text \<open>The parameters of an image: \<open>2 ^ p\<close> entries per table, refcounts of \<open>w\<close> bits.\<close>

definition image_params :: "qcow_args \<Rightarrow> nat \<Rightarrow> nat \<Rightarrow> bool" where
  "image_params a p w \<longleftrightarrow> cluster_size a = int (8 * 2 ^ p) \<and> 6 \<le> p \<and> p \<le> 18 \<and>
     refcount_bits a = int w \<and> w \<in> set refcount_widths"

definition per_block :: "nat \<Rightarrow> nat \<Rightarrow> nat" where
  "per_block p w = 64 * 2 ^ p div w"

lemma per_block_times: "w \<in> set refcount_widths \<Longrightarrow> per_block p w * w = 64 * 2 ^ p"
  unfolding per_block_def refcount_widths_def by auto

lemma per_block_ge:
  assumes "w \<in> set refcount_widths"
  shows "2 ^ p \<le> per_block p w"
proof -
  have "w \<le> 64" using assms by (auto simp: refcount_widths_def)
  then have "per_block p w * w \<le> per_block p w * 64" by simp
  with per_block_times [OF assms, of p] show ?thesis by linarith
qed

lemma int_per_block:
  assumes "image_params a p w"
  shows "cluster_size a * 8 div refcount_bits a = int (per_block p w)"
proof -
  have "cluster_size a * 8 = int (64 * 2 ^ p)" "refcount_bits a = int w"
    using assms by (simp_all add: image_params_def)
  then show ?thesis by (simp only: per_block_def zdiv_int)
qed

text \<open>
  The layout in clusters: \<open>K\<close> refcount tables, \<open>B\<close> refcount blocks, \<open>T\<close> L1
  tables, \<open>N\<close> L2 tables and \<open>D\<close> data clusters.
\<close>

definition layout_nat :: "qcow_args \<Rightarrow> int \<Rightarrow> nat \<Rightarrow> nat \<Rightarrow> nat \<Rightarrow> nat \<Rightarrow> nat \<Rightarrow> nat \<Rightarrow> nat \<Rightarrow> layout" where
  "layout_nat a dsize n E K B T N D =
     \<lparr>disk_size = dsize, total_data_clusters = int n, l1_entries = int E, allocated_l1_tables = int T,
      allocated_refcount_blocks = int B, allocated_refcount_tables = int K,
      total_allocated_clusters = int (1 + K + B + T + N + D),
      refcount_table_offset = cluster_size a, refcount_block_offset = int (1 + K) * cluster_size a,
      l1_table_offset = (if T = 0 then 0 else int (1 + K + B) * cluster_size a),
      l2_table_offset = int (1 + K + B + T) * cluster_size a,
      data_clusters_offset = int (1 + K + B + T + N) * cluster_size a\<rparr>"

lemma layout_of_nat:
  assumes "image_params a p w" "data_file_name a = None"
    and "allocated_l2_tables s = int N" "allocated_data_clusters s = int D" "3 * (1 + T + N + D) < 2 ^ 53"
  shows "\<exists>K B. layout_of a dsize (int n) (int E) (int T) s = Inr (layout_nat a dsize n E K B T N D)
    \<and> K = (B + 2 ^ p - 1) div 2 ^ p \<and> B \<le> 1 + T + N + D
    \<and> 1 + K + B + T + N + D \<le> per_block p w * B"
proof -
  let ?tot = "1 + T + N + D" and ?L = "2 ^ p :: nat" and ?P = "per_block p w"
  have p: "cluster_size a div 8 = int ?L" "?L \<le> ?P" "3 \<le> ?L"
    using assms(1) per_block_ge [of w p] power_increasing [of 6 p "2::nat"]
    by (auto simp: image_params_def)
  have "3 * int ?tot < 2 ^ 53" using assms(5) by simp
  define b0 where "b0 = ceil_true_div (int ?tot) (int ?P)"
  have b0: "0 \<le> b0" "b0 \<le> int ?tot"
    using ceil_true_div_bounds [of "int ?tot" "int ?P"] p \<open>3 * int ?tot < 2 ^ 53\<close> by (auto simp: b0_def)
  from refcount_loop_ends [of "int ?tot" "int ?P" "int ?L" b0 "ceil_true_div b0 (int ?L)"] b0 p
    \<open>3 * int ?tot < 2 ^ 53\<close>
  obtain b t where r: "refcount_loop (int ?tot) (int ?P) (int ?L) b0 (ceil_true_div b0 (int ?L)) = Some (b, t)"
    and b: "b0 \<le> b" "b \<le> int ?tot" "t = ceil_true_div b (int ?L)" "int ?tot + t + b \<le> int ?P * b"
    by auto
  define B where "B = nat b"
  have B: "b = int B" using b0 b by (simp add: B_def)
  define K where "K = (B + ?L - 1) div ?L"
  have t: "t = int K"
    using ceil_true_div_nat [of ?L B] b(2,3) B \<open>3 * int ?tot < 2 ^ 53\<close> by (simp add: K_def)
  have "int (1 + K + B + T + N + D) \<le> int (?P * B)" using b(4) B t by simp
  then have cover: "1 + K + B + T + N + D \<le> ?P * B" by (simp only: of_nat_le_iff)
  have "B \<le> ?tot" using b(2) B by simp
  moreover have "layout_of a dsize (int n) (int E) (int T) s = Inr (layout_nat a dsize n E K B T N D)"
    using r assms(2-4) unfolding layout_of_def layout_nat_def Let_def int_per_block [OF assms(1)] p(1)
    by (simp add: b0_def B t algebra_simps)
  ultimately show ?thesis using cover K_def by blast
qed


section \<open>The image\<close>

definition rt_clusters :: "qcow_args \<Rightarrow> nat \<Rightarrow> nat \<Rightarrow> nat \<Rightarrow> bytes list" where
  "rt_clusters a L K B = map (refcount_cluster L (int (1 + K) * cluster_size a) (cluster_size a) B) [0..<K]"

definition l1_clusters :: "qcow_args \<Rightarrow> alloc \<Rightarrow> nat \<Rightarrow> int \<Rightarrow> nat \<Rightarrow> bytes list" where
  "l1_clusters a s L off T = map (table_cluster L (l1_bitmap s) off (cluster_size a)) [0..<T]"

definition l2_clusters :: "qcow_args \<Rightarrow> alloc \<Rightarrow> nat \<Rightarrow> int \<Rightarrow> nat \<Rightarrow> bytes list" where
  "l2_clusters a s L off E =
     map (table_cluster L (l2_bitmap s) off (cluster_size a)) (filter (bm_has (l1_bitmap s)) [0..<E])"

definition data_clusters :: "qcow_args \<Rightarrow> alloc \<Rightarrow> nat \<Rightarrow> nat \<Rightarrow> bytes list" where
  "data_clusters a s L n =
     map (source_cluster (8 * L) (input_file a)) (filter (bm_has (l2_bitmap s)) [0..<n])"

text \<open>What the choice of clusters must have established.\<close>

definition alloc_ready :: "nat \<Rightarrow> nat \<Rightarrow> nat \<Rightarrow> nat \<Rightarrow> nat \<Rightarrow> nat \<Rightarrow> alloc \<Rightarrow> bool" where
  "alloc_ready L T E N D n s \<longleftrightarrow> alloc_inv L T E s \<and> n \<le> E * L
     \<and> (\<forall>i < E * L. bm_has (l2_bitmap s) i \<longrightarrow> i < n)
     \<and> N = bm.rank (l1_bitmap s) (T * L) \<and> D = bm.rank (l2_bitmap s) (E * L)"

lemma alloc_ready_counts:
  assumes "alloc_ready L T E N D n s"
  shows "length (filter (bm_has (l1_bitmap s)) [0..<E]) = N"
    "length (filter (bm_has (l2_bitmap s)) [0..<n]) = D" "bm.rank (l1_bitmap s) E = N"
proof -
  have "bm.rank (l1_bitmap s) (T * L) = bm.rank (l1_bitmap s) E"
    using assms by (intro rank_no_bits) (auto simp: alloc_ready_def alloc_inv_def)
  moreover have "bm.rank (l2_bitmap s) (E * L) = bm.rank (l2_bitmap s) n"
    using assms by (intro rank_no_bits) (auto simp: alloc_ready_def alloc_inv_def)
  ultimately show "length (filter (bm_has (l1_bitmap s)) [0..<E]) = N"
    "length (filter (bm_has (l2_bitmap s)) [0..<n]) = D" "bm.rank (l1_bitmap s) E = N"
    using assms by (auto simp: alloc_ready_def bm.rank_def)
qed

lemma write_image_emits:
  fixes p :: nat
  defines "L \<equiv> 2 ^ p"
  assumes "image_params a p w" "data_file_name a = None" "alloc_ready L T E N D n s"
    and "l = layout_nat a dsize n E K B T N D" "K = (B + L - 1) div L"
    and "1 + K + B + T + N + D \<le> per_block p w * B"
    and "int (1 + K + B + T + N + D) * cluster_size a < 2 ^ 56"
    and "fits 8 dsize" "fits 4 (int E)" "fits 4 (int K)"
  shows "\<exists>h rb. emits (write_image a s l)
      ((h # rt_clusters a L K B) @ rb @ l1_clusters a s L (l2_table_offset l) T
       @ l2_clusters a s L (data_clusters_offset l) E @ data_clusters a s L n)
    \<and> length h = 8 * L \<and> take 104 h = [0x51, 0x46, 0x49, 0xfb] @ enc_fields (header_fields a l)
    \<and> length rb = B \<and> (\<forall>c \<in> set rb. length c = 8 * L)
    \<and> (\<forall>i < 1 + K + B + T + N + D.
         refcount_at w (rb ! (i div per_block p w)) (i mod per_block p w) = 1)"
proof -
  let ?M = "1 + K + B + T + N + D"
  have cs: "cluster_size a = int (8 * L)" and p: "6 \<le> p" "p \<le> 18"
    and w: "refcount_bits a = int w" "w \<in> set refcount_widths"
    using assms(2) by (auto simp: image_params_def L_def)
  have L: "64 \<le> L" "0 < L" "8 dvd L"
    using p power_increasing [of 6 p "2::nat"] le_imp_power_dvd [of 3 p "2::nat"] by (auto simp: L_def)
  have inv: "alloc_inv L T E s" "n \<le> E * L" "bm_cap (l1_bitmap s) = T * L" "bm_cap (l2_bitmap s) = E * L"
    and N: "N = bm.rank (l1_bitmap s) (T * L)" and D: "D = bm.rank (l2_bitmap s) (E * L)"
    using assms(4) by (auto simp: alloc_ready_def alloc_inv_def)
  have off: "0 \<le> int i * cluster_size a" "int i * cluster_size a < 2 ^ 56" if "i \<le> ?M" for i
  proof -
    have "int i * cluster_size a \<le> int ?M * cluster_size a"
      using that by (intro mult_right_mono) (simp_all add: cs)
    then show "0 \<le> int i * cluster_size a" "int i * cluster_size a < 2 ^ 56"
      using assms(8) by (simp add: cs, linarith)
  qed
  have fits_off: "fits 8 (int i * cluster_size a)" if "i \<le> ?M" for i
    using off [OF that] by (simp add: fits_def)
  have log: "fits 4 (int_log2 (cluster_size a))" "fits 4 (int_log2 (refcount_bits a))"
  proof -
    have n: "nat (cluster_size a) = 8 * L" unfolding cs by (rule nat_int)
    have "8 * L < 2 ^ 24" using power_increasing [of p 18 "2::nat"] p by (simp add: L_def)
    then have "floorlog 2 (8 * L) \<le> 24" by (simp only: floorlog_le_iff) simp
    then show "fits 4 (int_log2 (cluster_size a))"
      using L floorlog_eq_zero_iff [of 2 "8 * L"] by (auto simp: fits_def int_log2_def n Suc_le_eq)
    have "w \<le> 64" "0 < w" using w(2) by (auto simp: refcount_widths_def)
    then have "floorlog 2 w \<le> 7" by (simp add: floorlog_le_iff)
    with \<open>0 < w\<close> show "fits 4 (int_log2 (refcount_bits a))"
      using floorlog_eq_zero_iff [of 2 w] by (auto simp: fits_def int_log2_def w(1) Suc_le_eq)
  qed
  have "\<forall>(k, v) \<in> set (header_fields a l). fits k v"
    using assms(9-11) log fits_off [of 1] fits_off [of "1 + K + B"]
    by (auto simp: header_fields_def assms(5) layout_nat_def fits_def QCOW2_INCOMPAT_DATA_FILE_BIT_def
        QCOW2_AUTOCLEAR_DATA_FILE_RAW_BIT_def QCOW2_V3_HEADER_LENGTH_def)
  from emits_header [OF cs L(1) assms(3) this] obtain h where
    h: "emits (write_header a l) [h]" "length h = 8 * L"
      "take 104 h = [0x51, 0x46, 0x49, 0xfb] @ enc_fields (header_fields a l)" by blast
  have rt: "emits (write_refcount_table a (allocated_refcount_blocks l) (refcount_block_offset l)) (rt_clusters a L K B)"
    using emits_refcount_table [OF cs L(2) off(1) _ assms(6), of "1 + K" 0] off(2) [of "1 + K + B"]
    by (simp add: rt_clusters_def assms(5) layout_nat_def algebra_simps)
  have "per_block p w * w = 64 * L" using per_block_times [OF w(2)] by (simp add: L_def)
  from emits_refcount_blocks [OF cs w L(3) this, of B ?M] assms(7) obtain rb where
    rb: "emits (write_refcount_blocks a B (int ?M)) rb" "length rb = B" "\<forall>c \<in> set rb. length c = 8 * L"
      "\<forall>i < ?M. refcount_at w (rb ! (i div per_block p w)) (i mod per_block p w) = 1"
    by (auto simp: mult.commute)
  have l1: "emits (write_l1_table a (l1_bitmap s) [0..allocated_l1_tables l - 1] (l2_table_offset l))
      (l1_clusters a s L (l2_table_offset l) T)"
    using emits_l1_table [OF cs, of T "l1_bitmap s" "l2_table_offset l" 0] inv off(1) [of "1 + K + B + T"]
      off(2) [of "1 + K + B + T + N"] N
    by (simp add: l1_clusters_def assms(5) layout_nat_def upto_upt bm.rank_def algebra_simps)
  have l2: "emits (write_l2_tables a (l1_bitmap s) (l2_bitmap s) [0..l1_entries l - 1] (data_clusters_offset l))
      (l2_clusters a s L (data_clusters_offset l) E)"
    using emits_l2_tables [OF cs assms(3) L(2) inv(1), of "data_clusters_offset l" 0]
      off(1) [of "1 + K + B + T + N"] off(2) [of ?M] D
    by (simp add: l2_clusters_def assms(5) layout_nat_def upto_upt bm.rank_def algebra_simps)
  have data: "emits (write_data_clusters a (l2_bitmap s) (total_data_clusters l)) (data_clusters a s L n)"
    using emits_data [OF cs, of n "l2_bitmap s"] inv by (simp add: data_clusters_def assms(5) layout_nat_def)
  have rb': "emits (write_refcount_blocks a (nat (allocated_refcount_blocks l)) (total_allocated_clusters l)) rb"
    using rb(1) by (simp add: assms(5) layout_nat_def)
  have "emits (write_image a s l) ([h] @ rt_clusters a L K B @ rb @ l1_clusters a s L (l2_table_offset l) T
       @ l2_clusters a s L (data_clusters_offset l) E @ data_clusters a s L n)"
    unfolding write_image_def using assms(3) rb' data by (intro emits_seq h rt l1 l2) simp_all
  with h rb show ?thesis by (intro exI [of _ h] exI [of _ rb]) simp
qed


lemma int_log2_power: "int_log2 (int (2 ^ k)) = int k"
proof -
  have "floorlog 2 (1 * 2 ^ k) = floorlog 2 1 + k" by (rule floorlog_power) simp_all
  moreover have "floorlog 2 1 = 1" by (simp add: floorlog_def)
  ultimately show ?thesis unfolding int_log2_def nat_int by simp
qed

lemma header_slice:
  assumes "take 104 h = [0x51, 0x46, 0x49, 0xfb] @ enc_fields (header_fields a l)" "j + m \<le> 104"
  shows "take m (drop j (h @ rest)) = take m (drop j ([0x51, 0x46, 0x49, 0xfb] @ enc_fields (header_fields a l)))"
proof -
  have len: "104 \<le> length h"
    using arg_cong [OF assms(1), of length] by (simp add: header_fields_def min_def split: if_splits)
  have "take m (drop j (h @ rest)) = take m (drop j (take 104 h))"
    using assms(2) len by (simp add: drop_take min_def)
  then show ?thesis using assms(1) by simp
qed

lemma header_reads:
  assumes "take 104 h = [0x51, 0x46, 0x49, 0xfb] @ enc_fields (header_fields a l)"
    and "cluster_size a = int (2 ^ k)" "fits 4 (int k)" "fits 8 (l1_table_offset l)"
  shows "be_field (h @ rest) 20 4 = int k" "be_field (h @ rest) 40 8 = l1_table_offset l"
proof -
  have "int_log2 (cluster_size a) = int k" unfolding assms(2) by (rule int_log2_power)
  with header_slice [OF assms(1), of 20 4] header_slice [OF assms(1), of 40 8] assms(3,4)
  show "be_field (h @ rest) 20 4 = int k" "be_field (h @ rest) 40 8 = l1_table_offset l"
    by (simp_all add: be_field_def header_fields_def dec_be_enc_be)
qed

lemma read_slot:
  assumes "\<forall>c \<in> set cls. length c = 8 * L" "q < length cls" "j < L"
  shows "be_field (concat cls) (int q * int (8 * L) + 8 * int j) 8 = dec_be (take 8 (drop (8 * j) (cls ! q)))"
proof -
  have "int q * int (8 * L) + 8 * int j = int (q * (8 * L) + 8 * j)" by simp
  then have "nat (int q * int (8 * L) + 8 * int j) = q * (8 * L) + 8 * j" by (simp only: nat_int)
  then show ?thesis using concat_field [OF assms(1,2), of "8 * j" 8] assms(3) by (simp add: be_field_def)
qed

lemma nth_middle:
  assumes "length pre = m" "j < length mid"
  shows "(pre @ mid @ post) ! (m + j) = mid ! j"
  using assms by (auto simp: nth_append)

lemma slot_fits:
  assumes "0 \<le> off" "0 \<le> cs" "j \<le> k" "off + cs * int (bm.rank b k) < 2 ^ 56"
  shows "fits 8 (slot b off cs j)"
proof -
  have "cs * int (bm.rank b j) \<le> cs * int (bm.rank b k)"
    using rank_mono [OF assms(3)] assms(2) by (intro mult_left_mono) auto
  with assms have "0 \<le> off + cs * int (bm.rank b j)" "off + cs * int (bm.rank b j) < 2 ^ 63" by auto
  then show ?thesis by (auto simp: slot_def or_copied_fits) (simp add: fits_def)
qed

lemma slot_offset:
  assumes "bm_has b i" "off = int q * int (8 * L)" "64 dvd L" "int (q + bm.rank b i) * int (8 * L) < 2 ^ 56"
  shows "entry_offset (slot b off (int (8 * L)) i) = int (q + bm.rank b i) * int (8 * L)"
proof -
  obtain m where "L = 64 * m" using assms(3) by blast
  then have "512 dvd int (q + bm.rank b i) * int (8 * L)" by simp
  moreover have "off + int (8 * L) * int (bm.rank b i) = int (q + bm.rank b i) * int (8 * L)"
    by (simp add: assms(2) algebra_simps)
  ultimately show ?thesis
    using entry_offset_copied [of "int (q + bm.rank b i) * int (8 * L)"] assms(1,4) by (simp add: slot_def)
qed

lemma entry_offset_zero [simp]: "entry_offset 0 = 0"
  by (simp add: entry_offset_def)

lemma read_table_slot:
  assumes "cls = pre @ map (table_cluster L b off cs) ts @ post" "\<forall>c \<in> set cls. length c = 8 * L"
    and "length pre = q" "j < length ts" "u < L"
    and "\<forall>k \<in> {ts ! j * L..<ts ! j * L + L}. fits 8 (slot b off cs k)"
  shows "be_field (concat cls) (int (q + j) * int (8 * L) + 8 * int u) 8 = slot b off cs (ts ! j * L + u)"
proof -
  have "cls ! (q + j) = table_cluster L b off cs (ts ! j)"
    using nth_middle [OF assms(3), of j "map (table_cluster L b off cs) ts" post] assms(1,4) by simp
  moreover have "q + j < length cls" using assms(1,3,4) by simp
  ultimately show ?thesis
    using read_slot [OF assms(2) _ assms(5), of "q + j"] table_entry_read [OF assms(6,5)] by simp
qed

text \<open>
  An image: the clusters of its six parts, in a layout with room for 56-bit
  offsets.
\<close>

definition image_of :: "qcow_args \<Rightarrow> nat \<Rightarrow> alloc \<Rightarrow> layout \<Rightarrow> bytes \<Rightarrow> nat \<Rightarrow> nat \<Rightarrow> bytes list \<Rightarrow> nat \<Rightarrow> nat \<Rightarrow> nat \<Rightarrow> bytes list" where
  "image_of a L s l h K B rb T E n =
     (h # rt_clusters a L K B) @ rb @ l1_clusters a s L (l2_table_offset l) T
       @ l2_clusters a s L (data_clusters_offset l) E @ data_clusters a s L n"

lemma image_of_clusters:
  assumes "length h = 8 * L" "\<forall>c \<in> set rb. length c = 8 * L"
  shows "\<forall>c \<in> set (image_of a L s l h K B rb T E n). length c = 8 * L"
  using assms by (auto simp: image_of_def rt_clusters_def l1_clusters_def l2_clusters_def data_clusters_def)

lemma length_image_of:
  assumes "alloc_ready L T E N D n s" "length rb = B"
  shows "length (image_of a L s l h K B rb T E n) = 1 + K + B + T + N + D"
  using assms(2) alloc_ready_counts [OF assms(1)]
  by (simp add: image_of_def rt_clusters_def l1_clusters_def l2_clusters_def data_clusters_def)

lemma image_l1_slot:
  assumes "length h = 8 * L" "\<forall>c \<in> set rb. length c = 8 * L" "length rb = B" "cluster_size a = int (8 * L)"
    and "alloc_ready L T E N D n s" "t < T * L"
    and "l2_table_offset l = int (1 + K + B + T) * int (8 * L)" "int (1 + K + B + T + N) * int (8 * L) < 2 ^ 56"
  shows "be_field (concat (image_of a L s l h K B rb T E n)) (int (1 + K + B) * int (8 * L) + 8 * int t) 8
    = slot (l1_bitmap s) (l2_table_offset l) (int (8 * L)) t"
proof -
  have tT: "t div L < T" using assms(6) by (simp add: less_mult_imp_div_less)
  have L: "0 < L" using assms(6) by (cases L) auto
  have "int t = int (t div L) * int L + int (t mod L)"
    unfolding of_nat_mult [symmetric] of_nat_add [symmetric] by simp
  then have t8: "int (1 + K + B) * int (8 * L) + 8 * int t
      = int (1 + K + B + t div L) * int (8 * L) + 8 * int (t mod L)"
    unfolding of_nat_add of_nat_mult distrib_right by linarith
  have le: "t div L * L + L \<le> T * L" using tT mult_le_mono1 [of "Suc (t div L)" T L] by simp
  have "l2_table_offset l + int (8 * L) * int (bm.rank (l1_bitmap s) (T * L)) < 2 ^ 56"
    using assms(5,7,8) by (simp add: alloc_ready_def algebra_simps)
  then have fit: "\<forall>k \<in> {[0..<T] ! (t div L) * L..<[0..<T] ! (t div L) * L + L}.
      fits 8 (slot (l1_bitmap s) (l2_table_offset l) (int (8 * L)) k)"
    using slot_fits [of "l2_table_offset l" "int (8 * L)" _ "T * L" "l1_bitmap s"] le tT assms(7) by simp
  have eq: "image_of a L s l h K B rb T E n = ((h # rt_clusters a L K B) @ rb)
      @ map (table_cluster L (l1_bitmap s) (l2_table_offset l) (int (8 * L))) [0..<T]
      @ l2_clusters a s L (data_clusters_offset l) E @ data_clusters a s L n"
    using assms(4) by (simp add: image_of_def l1_clusters_def)
  have len: "length ((h # rt_clusters a L K B) @ rb) = 1 + K + B"
    using assms(3) by (simp add: rt_clusters_def)
  have "t div L < length [0..<T]" "t mod L < L" using tT L by simp_all
  from read_table_slot [OF eq image_of_clusters [OF assms(1,2)] len this fit] show ?thesis
    using tT unfolding t8 by simp
qed

lemma image_l2_slot:
  assumes "length h = 8 * L" "\<forall>c \<in> set rb. length c = 8 * L" "length rb = B" "cluster_size a = int (8 * L)"
    and "alloc_ready L T E N D n s" "t < E" "bm_has (l1_bitmap s) t" "u < L"
    and "data_clusters_offset l = int (1 + K + B + T + N) * int (8 * L)"
    and "int (1 + K + B + T + N + D) * int (8 * L) < 2 ^ 56"
  shows "be_field (concat (image_of a L s l h K B rb T E n))
      (int (1 + K + B + T + bm.rank (l1_bitmap s) t) * int (8 * L) + 8 * int u) 8
    = slot (l2_bitmap s) (data_clusters_offset l) (int (8 * L)) (t * L + u)"
proof -
  let ?ts = "filter (bm_has (l1_bitmap s)) [0..<E]" and ?r = "bm.rank (l1_bitmap s) t"
  have ts: "?r < length ?ts" "?ts ! ?r = t" using filter_nth_rank [OF assms(7,6)] .
  have le: "t * L + L \<le> E * L" using assms(6) mult_le_mono1 [of "Suc t" E L] by simp
  have "data_clusters_offset l + int (8 * L) * int (bm.rank (l2_bitmap s) (E * L)) < 2 ^ 56"
    using assms(5,9,10) by (simp add: alloc_ready_def algebra_simps)
  then have fit: "\<forall>k \<in> {?ts ! ?r * L..<?ts ! ?r * L + L}.
      fits 8 (slot (l2_bitmap s) (data_clusters_offset l) (int (8 * L)) k)"
    using slot_fits [of "data_clusters_offset l" "int (8 * L)" _ "E * L" "l2_bitmap s"] le ts(2) assms(9) by simp
  have eq: "image_of a L s l h K B rb T E n
      = ((h # rt_clusters a L K B) @ rb @ l1_clusters a s L (l2_table_offset l) T)
      @ map (table_cluster L (l2_bitmap s) (data_clusters_offset l) (int (8 * L))) ?ts
      @ data_clusters a s L n"
    using assms(4) by (simp add: image_of_def l2_clusters_def)
  have len: "length ((h # rt_clusters a L K B) @ rb @ l1_clusters a s L (l2_table_offset l) T) = 1 + K + B + T"
    using assms(3) by (simp add: rt_clusters_def l1_clusters_def)
  from read_table_slot [OF eq image_of_clusters [OF assms(1,2)] len ts(1) assms(8) fit] show ?thesis
    unfolding ts(2) .
qed

lemma image_data_cluster:
  assumes "length h = 8 * L" "\<forall>c \<in> set rb. length c = 8 * L" "length rb = B"
    and "alloc_ready L T E N D n s" "i < n" "bm_has (l2_bitmap s) i"
  shows "take (8 * L) (drop ((1 + K + B + T + N + bm.rank (l2_bitmap s) i) * (8 * L))
      (concat (image_of a L s l h K B rb T E n))) = source_cluster (8 * L) (input_file a) i"
proof -
  let ?ts = "filter (bm_has (l2_bitmap s)) [0..<n]" and ?r = "bm.rank (l2_bitmap s) i"
  let ?pre = "(h # rt_clusters a L K B) @ rb @ l1_clusters a s L (l2_table_offset l) T
      @ l2_clusters a s L (data_clusters_offset l) E"
  have ts: "?r < length ?ts" "?ts ! ?r = i" using filter_nth_rank [OF assms(6,5)] .
  have pre: "length ?pre = 1 + K + B + T + N"
    using assms(3) alloc_ready_counts [OF assms(4)]
    by (simp add: rt_clusters_def l1_clusters_def l2_clusters_def)
  have eq: "image_of a L s l h K B rb T E n = ?pre @ data_clusters a s L n @ []" by (simp add: image_of_def)
  have "image_of a L s l h K B rb T E n ! (1 + K + B + T + N + ?r) = data_clusters a s L n ! ?r"
    unfolding eq by (rule nth_middle [OF pre]) (use ts in \<open>simp add: data_clusters_def\<close>)
  moreover have "?r < D" using ts alloc_ready_counts [OF assms(4)] by simp
  ultimately show ?thesis
    using concat_cluster [OF image_of_clusters [OF assms(1,2)], of "1 + K + B + T + N + ?r" a s l K B T E n]
      length_image_of [OF assms(4,3), of a l h K] ts
    by (simp add: data_clusters_def)
qed


text \<open>
  Reading cluster \<open>i\<close> of the image: it is found at the data cluster of its rank
  when its bit is set, and is not allocated otherwise.
\<close>

lemma image_read:
  fixes p :: nat
  defines "L \<equiv> 2 ^ p"
  assumes "image_params a p w" "alloc_ready L T E N D n s" "i < n"
    and "l = layout_nat a dsize n E K B T N D"
    and "int (1 + K + B + T + N + D) * cluster_size a < 2 ^ 56"
    and "length h = 8 * L" "take 104 h = [0x51, 0x46, 0x49, 0xfb] @ enc_fields (header_fields a l)"
    and "length rb = B" "\<forall>c \<in> set rb. length c = 8 * L"
  shows "qcow2_read (concat (image_of a L s l h K B rb T E n)) i =
    (if bm_has (l2_bitmap s) i then Some (source_cluster (8 * L) (input_file a) i) else None)"
proof -
  let ?M = "1 + K + B + T + N + D" and ?img = "concat (image_of a L s l h K B rb T E n)"
  have cs: "cluster_size a = int (8 * L)" and p: "6 \<le> p" "p \<le> 18"
    using assms(2) by (auto simp: image_params_def L_def)
  have L: "0 < L" "8 * L = 2 ^ (p + 3)" "64 dvd L"
    using le_imp_power_dvd [of 6 p "2::nat"] p by (auto simp: L_def power_add)
  have inv: "alloc_inv L T E s" "n \<le> E * L" using assms(3) by (auto simp: alloc_ready_def)
  define t where "t = i div L"
  have i: "i < E * L" "t * L + i mod L = i" "i mod L < L" using assms(4) inv(2) L by (auto simp: t_def)
  have t: "t < E" "t < T * L"
    using less_mult_imp_div_less [OF i(1)] inv(1) by (auto simp: t_def alloc_inv_def)
  have m: "int j * int (8 * L) < 2 ^ 56" if "j \<le> ?M" for j
  proof -
    have "int j * int (8 * L) \<le> int ?M * int (8 * L)" using that by (intro mult_right_mono) auto
    with assms(6) show ?thesis unfolding cs by linarith
  qed
  have "T \<noteq> 0" using t(2) by (cases T) auto
  then have off: "l1_table_offset l = int (1 + K + B) * int (8 * L)"
      "l2_table_offset l = int (1 + K + B + T) * int (8 * L)"
      "data_clusters_offset l = int (1 + K + B + T + N) * int (8 * L)"
    by (simp_all add: assms(5) layout_nat_def cs)
  have "fits 8 (l1_table_offset l)" unfolding off using m [of "1 + K + B"] by (simp add: fits_def)
  moreover have "fits 4 (int (p + 3))" using p by (simp add: fits_def)
  ultimately have hdr: "be_field ?img 20 4 = int (p + 3)" "be_field ?img 40 8 = l1_table_offset l"
    using header_reads [OF assms(8), of "p + 3"] cs L(2) by (simp_all only: image_of_def append_Cons concat.simps)
  have s1: "be_field ?img (be_field ?img 40 8 + 8 * int t) 8 = slot (l1_bitmap s) (l2_table_offset l) (int (8 * L)) t"
    unfolding hdr off(1)
    by (rule image_l1_slot [OF assms(7,10,9) cs assms(3) t(2) off(2) m]) simp
  note read = qcow2_read_def Let_def hdr(1) nat_int L(2) [symmetric] t_def [symmetric]
  have L8: "8 * L div 8 = L" by simp
  show ?thesis
  proof (cases "bm_has (l1_bitmap s) t")
    case False
    then have "\<not> bm_has (l2_bitmap s) i" using inv(1) i(1) by (auto simp: alloc_inv_def t_def)
    moreover have "entry_offset (be_field ?img (be_field ?img 40 8 + 8 * int t) 8) = 0"
      using False unfolding s1 by (simp add: slot_def)
    ultimately show ?thesis unfolding read L8 by (simp add: t_def)
  next
    case True
    let ?r = "bm.rank (l1_bitmap s) t"
    have rN: "?r < N"
      using filter_nth_rank(1) [OF True t(1)] alloc_ready_counts(1) [OF assms(3)] by simp
    have e1: "entry_offset (be_field ?img (be_field ?img 40 8 + 8 * int t) 8) = int (1 + K + B + T + ?r) * int (8 * L)"
      unfolding s1 by (rule slot_offset [OF True off(2) L(3) m]) (use rN in simp)
    have s2: "be_field ?img (int (1 + K + B + T + ?r) * int (8 * L) + 8 * int (i mod L)) 8
        = slot (l2_bitmap s) (data_clusters_offset l) (int (8 * L)) i"
      using image_l2_slot [OF assms(7,10,9) cs assms(3) t(1) True i(3) off(3) m] i(2) by simp
    have nz: "int (1 + K + B + T + ?r) * int (8 * L) \<noteq> 0" using L(1) by simp
    show ?thesis
    proof (cases "bm_has (l2_bitmap s) i")
      case False
      then have "entry_offset (be_field ?img (int (1 + K + B + T + ?r) * int (8 * L) + 8 * int (i mod L)) 8) = 0"
        unfolding s2 by (simp add: slot_def)
      with False nz show ?thesis unfolding read L8 using e1 by (simp add: t_def)
    next
      case bit: True
      let ?d = "bm.rank (l2_bitmap s) i"
      have dD: "?d < D"
        using filter_nth_rank(1) [OF bit assms(4)] alloc_ready_counts(2) [OF assms(3)] by simp
      have e2: "entry_offset (be_field ?img (int (1 + K + B + T + ?r) * int (8 * L) + 8 * int (i mod L)) 8)
          = int (1 + K + B + T + N + ?d) * int (8 * L)"
        unfolding s2 by (rule slot_offset [OF bit off(3) L(3) m]) (use dD in simp)
      have "nat (int (1 + K + B + T + N + ?d) * int (8 * L)) = (1 + K + B + T + N + ?d) * (8 * L)"
        unfolding of_nat_mult [symmetric] by (rule nat_int)
      moreover have "int (1 + K + B + T + N + ?d) * int (8 * L) \<noteq> 0" using L(1) by simp
      ultimately show ?thesis
        unfolding read L8 t_def [symmetric] e1 e2
        using bit nz image_data_cluster [OF assms(7,10,9,3,4) bit, of K a l] by simp
    qed
  qed
qed


section \<open>Whole conversions\<close>

lemma ceil_div_bounds:
  assumes "0 < (C::nat)"
  shows "n \<le> (n + C - 1) div C * C" "(n + C - 1) div C * C < n + C"
proof -
  show "n \<le> (n + C - 1) div C * C"
    using below_ceil [OF assms, of "(n + C - 1) div C" n] by simp
  show "(n + C - 1) div C * C < n + C"
    using div_times_less_eq_dividend [of "n + C - 1" C] assms by linarith
qed

lemma clusters_of_aligned:
  assumes "0 < C" "512 dvd C"
  shows "(512 * ((n + 511) div 512) + C - 1) div C = (n + C - 1) div (C::nat)"
proof -
  obtain m where m: "C = 512 * m" using assms(2) by blast
  have "i < (512 * ((n + 511) div 512) + C - 1) div C \<longleftrightarrow> i < (n + C - 1) div C" for i
  proof -
    have "i * C < 512 * ((n + 511) div 512) \<longleftrightarrow> i * m < (n + 511) div 512" by (simp add: m)
    also have "\<dots> \<longleftrightarrow> i * C < n" using below_ceil [of 512 "i * m" n] by (simp add: m ac_simps)
    finally show ?thesis using below_ceil [OF assms(1)] by simp
  qed
  then show ?thesis by (metis less_irrefl linorder_neqE_nat)
qed

text \<open>The sizes of a conversion from a file of \<open>len\<close> bytes, and that they fit.\<close>

lemma conversion_sizes:
  fixes L len :: nat
  assumes "64 \<le> L" "L \<le> 2 ^ 18" "len < 2 ^ 50" "len \<le> 2 ^ 22 * L * (8 * L)"
    and n: "n = (len + 8 * L - 1) div (8 * L)" and E: "E = (n + L - 1) div L" and T: "T = (E + L - 1) div L"
  shows "n \<le> E * L" "E \<le> T * L" "E \<le> 2 ^ 22" "T \<le> E" "E * L < 2 ^ 53" "n * (8 * L) < 2 ^ 51"
    "E * (8 * L) < 2 ^ 52"
proof -
  have b: "n * (8 * L) < len + 8 * L" "n \<le> E * L" "E * L < n + L" "E \<le> T * L" "T * L < E + L"
    unfolding n E T using assms(1) by (intro ceil_div_bounds; linarith)+
  show "n \<le> E * L" "E \<le> T * L" using b by auto
  have num: "L \<le> 262144" "len < 1125899906842624" using assms(2,3) by simp_all
  have n8: "n * (8 * L) < 2251799813685248" using b(1) num by linarith
  then show "n * (8 * L) < 2 ^ 51" by simp
  have "8 * n \<le> n * (8 * L)" using assms(1) by simp
  then have "8 * (E * L) < 2251799813685248 + 2097152" using b(3) n8 num by linarith
  then show "E * (8 * L) < 2 ^ 52" "E * L < 2 ^ 53" by simp_all
  have "n * (8 * L) < (2 ^ 22 * L + 1) * (8 * L)"
    using b(1) assms(4) unfolding distrib_right mult_1 by linarith
  then have "n < 2 ^ 22 * L + 1" by (metis mult_less_cancel2)
  then have "n \<le> 2 ^ 22 * L" by linarith
  then have "E * L < (2 ^ 22 + 1) * L" using b(3) unfolding distrib_right mult_1 by linarith
  then have "E < 2 ^ 22 + 1" by (metis mult_less_cancel2)
  then show "E \<le> 2 ^ 22" by simp
  have "T * L \<le> E * L" if "0 < E"
  proof -
    have "E + L \<le> E * L + 1" using that assms(1) by (cases E; cases L) auto
    with b(5) show ?thesis by linarith
  qed
  then show "T \<le> E" using assms(1) T by (cases "0 < E") auto
qed


lemma layout_fits:
  fixes L :: nat
  assumes "64 \<le> L" "L \<le> 2 ^ 18" "n \<le> E * L" "E \<le> 2 ^ 22" "T \<le> E" "N \<le> E" "D \<le> n"
    and "n * (8 * L) < 2 ^ 51" "E * (8 * L) < 2 ^ 52" "B \<le> 1 + T + N + D" "K = (B + L - 1) div L"
  shows "3 * (1 + T + N + D) < 2 ^ 53" "(1 + K + B + T + N + D) * (8 * L) < 2 ^ 56" "K < 2 ^ 32"
proof -
  let ?t = "1 + T + N + D"
  have "T * (8 * L) \<le> E * (8 * L)" "N * (8 * L) \<le> E * (8 * L)" "D * (8 * L) \<le> n * (8 * L)"
    using assms(5-7) by (blast intro: mult_le_mono1)+
  moreover have "L \<le> 262144" "n * (8 * L) < 2251799813685248" "E * (8 * L) < 4503599627370496"
    using assms(2,8,9) by simp_all
  ultimately have t8: "?t * (8 * L) < 11258999068426240 + 2097152"
    unfolding distrib_right mult_1 by linarith
  have "?t * 512 \<le> ?t * (8 * L)" using assms(1) by (intro mult_le_mono2) simp
  from this t8 have "?t * 512 < 11258999068426240 + 2097152" by (rule le_less_trans)
  then have tot: "?t < 30000000000000" by (rule contrapos_pp) simp
  then show "3 * ?t < 2 ^ 53" by simp
  have kb: "K * L < B + L" unfolding assms(11) using assms(1) by (intro ceil_div_bounds) simp
  have "K \<le> B"
  proof (cases "B = 0")
    case False
    then have "B + L \<le> B * L + 1" using assms(1) by (cases B; cases L) auto
    with kb have "K * L \<le> B * L" by linarith
    then show ?thesis using assms(1) by simp
  qed (use assms(1,11) in simp)
  with assms(10) have "1 + K + B + T + N + D \<le> 3 * ?t" by simp
  then have "(1 + K + B + T + N + D) * (8 * L) \<le> 3 * ?t * (8 * L)" by (rule mult_le_mono1)
  also have "\<dots> = 3 * (?t * (8 * L))" by (rule mult.assoc)
  also have "\<dots> < 3 * (11258999068426240 + 2097152)" using t8 by (intro mult_strict_left_mono) simp_all
  finally show "(1 + K + B + T + N + D) * (8 * L) < 2 ^ 56" by simp
  have "K * L < 1 + 2 * E + E * L + L" using kb assms(3,5,6,7,10) by linarith
  also have "\<dots> \<le> (2 + 3 * E) * L" using assms(1) by (simp add: algebra_simps) (cases L; simp)
  finally have "K < 2 + 3 * E" by (metis mult_less_cancel2)
  with assms(4) show "K < 2 ^ 32" by simp
qed

lemma rank_le: "bm.rank b i \<le> i"
  by (induction i) (auto simp: rank_Suc bm.rank_def)

text \<open>A conversion without external data file and without cluster map.\<close>

definition plain_conversion :: "qcow_args \<Rightarrow> nat \<Rightarrow> nat \<Rightarrow> bool" where
  "plain_conversion a p w \<longleftrightarrow> image_params a p w \<and> data_file_name a = None \<and> \<not> data_file_raw a
     \<and> virtual_size a = None \<and> nonzero_clusters a = None
     \<and> length (input_file a) < 2 ^ 50 \<and> length (input_file a) \<le> 2 ^ 22 * 2 ^ p * (8 * 2 ^ p)
     \<and> (case diff_file a of None \<Rightarrow> True | Some d \<Rightarrow> length d \<le> length (input_file a))"

definition cluster_count :: "nat \<Rightarrow> bytes \<Rightarrow> nat" where
  "cluster_count C file = (length file + C - 1) div C"

lemma conversion_scan:
  fixes p :: nat
  defines "L \<equiv> 2 ^ p"
  assumes "plain_conversion a p w" and n: "n = cluster_count (8 * L) (input_file a)"
    and E: "E = (n + L - 1) div L" and T: "T = (E + L - 1) div L"
  shows "\<exists>s N D. scan_clusters a (int (length (input_file a))) (int E) (int n)
        (new_alloc (cluster_size a) (int T) (int E)) = (Inr (), s)
    \<and> alloc_ready L T E N D n s \<and> allocated_l2_tables s = int N \<and> allocated_data_clusters s = int D
    \<and> (\<forall>i < n. bm_has (l2_bitmap s) i = differs a L i)"
proof -
  have a: "image_params a p w" "\<not> data_file_raw a" "nonzero_clusters a = None"
      "length (input_file a) < 2 ^ 50" "length (input_file a) \<le> 2 ^ 22 * L * (8 * L)"
    using assms(2) by (auto simp: plain_conversion_def L_def)
  have cs: "cluster_size a = int (8 * L)" and p: "6 \<le> p" "p \<le> 18"
    using a(1) by (auto simp: image_params_def L_def)
  have L: "64 \<le> L" "L \<le> 2 ^ 18" "8 dvd L"
    using p power_increasing [of 6 p "2::nat"] power_increasing [of p 18 "2::nat"]
      le_imp_power_dvd [of 3 p "2::nat"] by (auto simp: L_def)
  note sizes = conversion_sizes [OF L(1,2) a(4,5) n [unfolded cluster_count_def] E T]
  have d: "(length d + 8 * L - 1) div (8 * L) \<le> n \<and> length d < 2 ^ 53" if "diff_file a = Some d" for d
    using that assms(2) by (auto simp: plain_conversion_def n cluster_count_def intro: div_le_mono)
  obtain s where s: "scan_files a (int (length (input_file a))) (new_alloc (int (8 * L)) (int T) (int E)) = (Inr (), s)"
    "alloc_inv L T E s" "\<forall>j < E * L. bm_has (l2_bitmap s) j = (j < n \<and> differs a L j)"
    "allocated_data_clusters s = int (length (filter (differs a L) [0..<n]))"
    using scan_files_in [OF cs _ L(3) sizes(2) _ n [unfolded cluster_count_def] sizes(1) _ d] sizes(5) L(1) a(4)
    by auto
  have "bm.rank (l2_bitmap s) (E * L) = bm.rank (l2_bitmap s) n"
    using s(3) sizes(1) by (intro rank_no_bits) auto
  also have "\<dots> = length (filter (differs a L) [0..<n])"
    unfolding bm.rank_def using s(3) sizes(1) by (intro arg_cong [of _ _ length] filter_cong) auto
  finally have D: "allocated_data_clusters s = int (bm.rank (l2_bitmap s) (E * L))" using s(4) by simp
  have "alloc_ready L T E (bm.rank (l1_bitmap s) (T * L)) (bm.rank (l2_bitmap s) (E * L)) n s"
    using s(2,3) sizes(1) by (auto simp: alloc_ready_def)
  moreover have "allocated_l2_tables s = int (bm.rank (l1_bitmap s) (T * L))"
    using s(2) by (simp add: alloc_inv_def)
  moreover have "\<forall>i < n. bm_has (l2_bitmap s) i = differs a L i" using s(3) sizes(1) by auto
  ultimately show ?thesis
    using D s(1) cs a(2,3) by (intro exI [of _ s] exI [of _ "bm.rank (l1_bitmap s) (T * L)"]
        exI [of _ "bm.rank (l2_bitmap s) (E * L)"]) (simp add: scan_clusters_def)
qed


text \<open>What a conversion writes: the clusters of an image that is ready to be read.\<close>

definition good_image :: "qcow_args \<Rightarrow> nat \<Rightarrow> nat \<Rightarrow> bytes \<Rightarrow> bool" where
  "good_image a p w img \<longleftrightarrow>
    (\<exists>s l h K B rb T E N D n dsize.
       img = concat (image_of a (2 ^ p) s l h K B rb T E n)
     \<and> n = cluster_count (8 * 2 ^ p) (input_file a) \<and> K = (B + 2 ^ p - 1) div 2 ^ p
     \<and> alloc_ready (2 ^ p) T E N D n s \<and> l = layout_nat a dsize n E K B T N D
     \<and> int (1 + K + B + T + N + D) * cluster_size a < 2 ^ 56
     \<and> 1 + K + B + T + N + D \<le> per_block p w * B
     \<and> length h = 8 * 2 ^ p \<and> take 104 h = [0x51, 0x46, 0x49, 0xfb] @ enc_fields (header_fields a l)
     \<and> length rb = B \<and> (\<forall>c \<in> set rb. length c = 8 * 2 ^ p)
     \<and> (\<forall>i < n. bm_has (l2_bitmap s) i = differs a (2 ^ p) i)
     \<and> (\<forall>i < 1 + K + B + T + N + D. refcount_at w (rb ! (i div per_block p w)) (i mod per_block p w) = 1))"

lemma conversion_writes:
  assumes "plain_conversion a p w"
  shows "\<exists>img. write_qcow2_content a out = (Inr (), out @ img) \<and> good_image a p w img"
proof -
  define L :: nat where "L = 2 ^ p"
  let ?len = "length (input_file a)"
  have a: "image_params a p w" "data_file_name a = None" "virtual_size a = None" "?len < 2 ^ 50"
      "?len \<le> 2 ^ 22 * L * (8 * L)"
    using assms by (auto simp: plain_conversion_def L_def)
  have cs: "cluster_size a = int (8 * L)" and p: "6 \<le> p" "p \<le> 18"
    using a(1) by (auto simp: image_params_def L_def)
  have L: "64 \<le> L" "L \<le> 2 ^ 18" "512 dvd 8 * L"
    using p power_increasing [of 6 p "2::nat"] power_increasing [of p 18 "2::nat"]
      le_imp_power_dvd [of 6 p "2::nat"] by (auto simp: L_def)
  define n where "n = cluster_count (8 * L) (input_file a)"
  define E where "E = (n + L - 1) div L"
  define T where "T = (E + L - 1) div L"
  note sizes = conversion_sizes [OF L(1,2) a(4,5) n_def [unfolded cluster_count_def] E_def T_def]
  define dsize where "dsize = align_up (int ?len) 512"
  have d: "dsize = int (512 * ((?len + 511) div 512))"
    using ceil_true_div_nat [of 512 ?len] a(4) by (simp add: dsize_def align_up_def)
  have "512 * ((?len + 511) div 512) \<le> ?len + 511" by simp
  then have d50: "dsize < 2 ^ 53" "fits 8 dsize" using a(4) unfolding d by (simp_all add: fits_def)
  have tdc: "ceil_true_div dsize (cluster_size a) = int n"
    using ceil_true_div_nat [of "8 * L" "512 * ((?len + 511) div 512)"] L d50(1)
      clusters_of_aligned [OF _ L(3), of ?len]
    unfolding d cs by (simp add: n_def cluster_count_def)
  have L8: "cluster_size a div 8 = int L" using cs by simp
  have "n < 2 ^ 53" using sizes(1,5) by (rule le_less_trans)
  then have "int n < 2 ^ 53" by simp
  then have l1e: "ceil_true_div (int n) (int L) = int E"
    using ceil_true_div_nat [of L n] L(1) by (simp add: E_def)
  have "int E < 2 ^ 53" using sizes(3) by simp
  then have l1t: "ceil_true_div (int E) (int L) = int T"
    using ceil_true_div_nat [of L E] L(1) by (simp add: T_def)
  obtain s N D where s: "scan_clusters a (int ?len) (int E) (int n) (new_alloc (cluster_size a) (int T) (int E)) = (Inr (), s)"
    "alloc_ready L T E N D n s" "allocated_l2_tables s = int N" "allocated_data_clusters s = int D"
    "\<forall>i < n. bm_has (l2_bitmap s) i = differs a L i"
    using conversion_scan [OF assms] unfolding n_def E_def T_def L_def by blast
  have ND: "N \<le> E" "D \<le> n"
    using alloc_ready_counts [OF s(2)] rank_le [of "l1_bitmap s" E] rank_le [of "l2_bitmap s" n]
    by (simp_all add: bm.rank_def)
  note bounds = layout_fits [OF L(1,2) sizes(1,3,4) ND sizes(6,7)]
  have "3 * (1 + T + N + D) < 2 ^ 53" by (rule bounds(1)) (rule le0, simp)
  from layout_of_nat [OF a(1,2) s(3,4) this, of dsize n E] obtain K B where
    KB: "layout_of a dsize (int n) (int E) (int T) s = Inr (layout_nat a dsize n E K B T N D)"
      "K = (B + L - 1) div L" "B \<le> 1 + T + N + D" "1 + K + B + T + N + D \<le> per_block p w * B"
    unfolding L_def by blast
  note b = bounds(2,3) [OF KB(3,2)]
  have M: "int (1 + K + B + T + N + D) * cluster_size a < 2 ^ 56"
  proof -
    have "int ((1 + K + B + T + N + D) * (8 * L)) < int (2 ^ 56)" using b(1) by (simp only: of_nat_less_iff)
    then show ?thesis unfolding cs of_nat_mult by simp
  qed
  have "fits 4 (int E)" "fits 4 (int K)" using sizes(3) b(2) by (simp_all add: fits_def)
  from write_image_emits [OF a(1,2) s(2) [unfolded L_def] refl KB(2) [unfolded L_def] KB(4) M d50(2) this]
  obtain h rb where w: "emits (write_image a s (layout_nat a dsize n E K B T N D))
      (image_of a L s (layout_nat a dsize n E K B T N D) h K B rb T E n)"
    and h: "length h = 8 * L" "take 104 h = [0x51, 0x46, 0x49, 0xfb]
        @ enc_fields (header_fields a (layout_nat a dsize n E K B T N D))"
      "length rb = B" "\<forall>c \<in> set rb. length c = 8 * L"
      "\<forall>i < 1 + K + B + T + N + D. refcount_at w (rb ! (i div per_block p w)) (i mod per_block p w) = 1"
    unfolding image_of_def L_def by blast
  let ?img = "concat (image_of a L s (layout_nat a dsize n E K B T N D) h K B rb T E n)"
  have "int E * 8 \<le> 32 * 1024 * 1024" using sizes(3) by simp
  then have "write_qcow2_content a out = (Inr (), out @ ?img)"
    using s(1) KB(1) w a(3)
    by (simp add: write_qcow2_content_def Let_def L8 tdc l1e l1t seq_def bnd_def require_def lift_sum_def
        emits_def flip: dsize_def)
  moreover have "good_image a p w ?img"
    unfolding good_image_def using n_def KB(2,4) s(2,5) M h L_def by blast
  ultimately show ?thesis by blast
qed

text \<open>
  C1: A conversion always succeeds on a file of up to \<open>2 ^ 50\<close> bytes that fits
  the L1 limit, and the image it writes reads back as the input: following
  header, L1 table and L2 table, every cluster that differs from the image it
  is compared with (from zeroes when there is none) is found with the input's
  data, padded with zeroes at the end, and every other cluster is not
  allocated.
\<close>

theorem conversion_reads_back:
  assumes "plain_conversion a p w"
  shows "\<exists>img. write_qcow2_content a out = (Inr (), out @ img) \<and>
    (\<forall>i < cluster_count (8 * 2 ^ p) (input_file a). qcow2_read img i =
       (if differs a (2 ^ p) i then Some (source_cluster (8 * 2 ^ p) (input_file a) i) else None))"
proof -
  have params: "image_params a p w" using assms by (simp add: plain_conversion_def)
  from conversion_writes [OF assms, of out] obtain img where
    img: "write_qcow2_content a out = (Inr (), out @ img)" "good_image a p w img" by blast
  have "qcow2_read img i = (if differs a (2 ^ p) i then Some (source_cluster (8 * 2 ^ p) (input_file a) i) else None)"
    if "i < cluster_count (8 * 2 ^ p) (input_file a)" for i
    using img(2) that image_read [OF params] unfolding good_image_def by (auto split: if_splits)
  with img(1) show ?thesis by blast
qed


text \<open>A small conversion: one byte, clusters of 512 bytes, 16-bit refcounts.\<close>

definition example_args :: qcow_args where
  "example_args =
     \<lparr>input_file = [7], cluster_size = 512, refcount_bits = 16, data_file_name = None, data_file_raw = False,
      diff_file = None, virtual_size = None, nonzero_clusters = None, diff_virtual_size = None,
      diff_nonzero_clusters = None\<rparr>"

lemma example_plain: "plain_conversion example_args 6 16"
  by (simp add: plain_conversion_def image_params_def example_args_def refcount_widths_def)

lemma example_differs: "differs example_args 64 0" "cluster_count 512 [7] = 1"
  by (simp_all add: differs_def source_cluster_def pad_to_def example_args_def cluster_count_def
      Cons_replicate_eq)

theorem conversion_reads_back_witness:
  "\<exists>img. write_qcow2_content example_args [] = (Inr (), img)
     \<and> qcow2_read img 0 = Some (7 # replicate 511 0)"
proof -
  from conversion_reads_back [OF example_plain, of "[]"] obtain img where
    i: "write_qcow2_content example_args [] = (Inr (), img)"
      "\<forall>i < cluster_count 512 (input_file example_args). qcow2_read img i =
         (if differs example_args 64 i then Some (source_cluster 512 (input_file example_args) i) else None)"
    by auto
  moreover have "input_file example_args = [7]" by (simp add: example_args_def)
  moreover have "source_cluster 512 [7] 0 = 7 # replicate 511 0" by (simp add: source_cluster_def pad_to_def)
  ultimately show ?thesis using example_differs by auto
qed

text \<open>An image over a backing file: clusters that are not allocated come from it.\<close>

definition overlay_read :: "bytes \<Rightarrow> nat \<Rightarrow> bytes \<Rightarrow> nat \<Rightarrow> bytes" where
  "overlay_read img C base i = (case qcow2_read img i of Some c \<Rightarrow> c | None \<Rightarrow> source_cluster C base i)"

lemma same_as_base:
  assumes "diff_file a = Some d" "\<not> differs a L i" "0 < L"
  shows "source_cluster (8 * L) (input_file a) i = source_cluster (8 * L) d i"
proof (cases "i * (8 * L) < length d")
  case True
  with assms have eq: "source_cluster (8 * L) (input_file a) i = take (8 * L) (drop (8 * L * i) d)"
    by (simp add: differs_def)
  then have "length (take (8 * L) (drop (8 * L * i) d)) = 8 * L" by (metis length_source_cluster)
  then have "source_cluster (8 * L) d i = take (8 * L) (drop (8 * L * i) d)"
    by (simp add: source_cluster_def pad_to_def)
  with eq show ?thesis by simp
next
  case False
  then have "drop (8 * L * i) d = []" by (simp add: mult.commute)
  with False assms show ?thesis by (simp add: differs_def source_cluster_def pad_to_def)
qed

text \<open>
  C37: A differential conversion is complete: the image written with \<^verbatim>\<open>--diff\<close>,
  laid over the original image, reads as the input on every cluster.
\<close>

theorem diff_overlay_restores_input:
  assumes "plain_conversion a p w" "diff_file a = Some d"
  shows "\<exists>img. write_qcow2_content a out = (Inr (), out @ img) \<and>
    (\<forall>i < cluster_count (8 * 2 ^ p) (input_file a).
       overlay_read img (8 * 2 ^ p) d i = source_cluster (8 * 2 ^ p) (input_file a) i)"
proof -
  have params: "image_params a p w" using assms(1) by (simp add: plain_conversion_def)
  from conversion_writes [OF assms(1), of out] obtain img where
    img: "write_qcow2_content a out = (Inr (), out @ img)" "good_image a p w img" by blast
  have "qcow2_read img i = (if differs a (2 ^ p) i then Some (source_cluster (8 * 2 ^ p) (input_file a) i) else None)"
    if "i < cluster_count (8 * 2 ^ p) (input_file a)" for i
    using img(2) that image_read [OF params] unfolding good_image_def by (auto split: if_splits)
  with img(1) same_as_base [OF assms(2), of "2 ^ p"] show ?thesis by (auto simp: overlay_read_def)
qed

theorem diff_overlay_restores_input_witness:
  "\<exists>img. write_qcow2_content (example_args\<lparr>diff_file := Some [7]\<rparr>) [] = (Inr (), img)
     \<and> overlay_read img 512 [7] 0 = 7 # replicate 511 0"
proof -
  have "plain_conversion (example_args\<lparr>diff_file := Some [7]\<rparr>) 6 16"
    by (simp add: plain_conversion_def image_params_def example_args_def refcount_widths_def)
  from diff_overlay_restores_input [OF this, of "[7]" "[]"] obtain img where
    "write_qcow2_content (example_args\<lparr>diff_file := Some [7]\<rparr>) [] = (Inr (), img)"
    "\<forall>i < cluster_count 512 [7]. overlay_read img 512 [7] i = source_cluster 512 [7] i"
    by (auto simp: example_args_def)
  then show ?thesis by (simp add: example_differs source_cluster_def pad_to_def)
qed

text \<open>The refcount of cluster \<open>c\<close>, read through the refcount table of the header.\<close>

definition qcow2_refcount :: "bytes \<Rightarrow> nat \<Rightarrow> int" where
  "qcow2_refcount img c =
    (let C = 2 ^ nat (be_field img 20 4); w = 2 ^ nat (be_field img 96 4); per = C * 8 div w;
         block = be_field img (be_field img 48 8 + 8 * int (c div per)) 8 in
     refcount_at w (take C (drop (nat block) img)) (c mod per))"

lemma header_reads_refcounts:
  assumes "take 104 h = [0x51, 0x46, 0x49, 0xfb] @ enc_fields (header_fields a l)"
    and "refcount_bits a = int (2 ^ r)" "fits 4 (int r)" "fits 8 (refcount_table_offset l)"
  shows "be_field (h @ rest) 96 4 = int r" "be_field (h @ rest) 48 8 = refcount_table_offset l"
proof -
  have "int_log2 (refcount_bits a) = int r" unfolding assms(2) by (rule int_log2_power)
  with header_slice [OF assms(1), of 96 4] header_slice [OF assms(1), of 48 8] assms(3,4)
  show "be_field (h @ rest) 96 4 = int r" "be_field (h @ rest) 48 8 = refcount_table_offset l"
    by (simp_all add: be_field_def header_fields_def dec_be_enc_be)
qed

lemma table_bytes_read:
  assumes "list_all (fits 8) es" "u < length es"
  shows "dec_be (take 8 (drop (8 * u) (table_bytes es n))) = es ! u"
proof -
  have "8 * u + 8 \<le> length (concat (map (enc_be 8) es))" using assms(2) by (simp add: length_table)
  then have "take 8 (drop (8 * u) (table_bytes es n)) = take 8 (drop (u * 8) (concat (map (enc_be 8) es)))"
    by (simp add: table_bytes_def mult.commute)
  then show ?thesis using u64.nth_entry [OF assms] by simp
qed

lemma image_refcount_slot:
  assumes "length h = 8 * L" "\<forall>c \<in> set rb. length c = 8 * L" "cluster_size a = int (8 * L)" "0 < L"
    and "K = (B + L - 1) div L" "j < B" "int (1 + K + B) * int (8 * L) < 2 ^ 56"
  shows "be_field (concat (image_of a L s l h K B rb T E n)) (int (8 * L) + 8 * int j) 8
    = int (1 + K + j) * int (8 * L)"
proof -
  let ?off = "int (1 + K) * int (8 * L)"
  define q u where "q = j div L" and "u = j mod L"
  have j: "j = q * L + u" "u < L" using assms(4) by (simp_all add: q_def u_def)
  let ?es = "map (\<lambda>i. ?off + int (8 * L) * int i) [q * L..<min B (q * L + L)]"
  have jK: "q < K"
  proof -
    have "q * L < B" using j assms(6) by linarith
    then show ?thesis using below_ceil [OF assms(4)] assms(5) by simp
  qed
  have fit: "fits 8 (?off + int (8 * L) * int i)" if "i < B" for i
  proof -
    have "?off + int (8 * L) * int i = int (1 + K + i) * int (8 * L)" by (simp add: algebra_simps)
    also have "\<dots> \<le> int (1 + K + B) * int (8 * L)" using that by (intro mult_right_mono) auto
    finally have "?off + int (8 * L) * int i < 2 ^ 56" using assms(7) by linarith
    then show ?thesis by (simp add: fits_def)
  qed
  have u: "u < min B (q * L + L) - q * L" using j assms(6) by (auto simp: min_def)
  then have "u < length ?es" "?es ! u = ?off + int (8 * L) * int j"
    using j by (simp_all add: nth_map_upt)
  moreover have "list_all (fits 8) ?es" using fit by (simp add: list_all_iff)
  ultimately have e: "dec_be (take 8 (drop (8 * u) (refcount_cluster L ?off (int (8 * L)) B q)))
      = ?off + int (8 * L) * int j"
    using table_bytes_read [of ?es "u" L] by (simp add: refcount_cluster_def)
  let ?cls = "image_of a L s l h K B rb T E n"
  have "?cls ! (1 + q) = rt_clusters a L K B ! q"
    using jK by (simp add: image_of_def nth_append rt_clusters_def)
  then have "?cls ! (1 + q) = refcount_cluster L ?off (int (8 * L)) B q"
    using jK assms(3) by (simp add: rt_clusters_def)
  moreover have "1 + q < length ?cls" using jK by (simp add: image_of_def rt_clusters_def)
  moreover have "int (8 * L) + 8 * int j = int (1 + q) * int (8 * L) + 8 * int u"
  proof -
    have "int j = int q * int L + int u" using j(1) by simp
    then show ?thesis unfolding of_nat_add of_nat_mult distrib_right by simp
  qed
  ultimately show ?thesis
    using read_slot [OF image_of_clusters [OF assms(1,2)], of "1 + q" a s l K B T E n u] e j(2)
    by (simp add: algebra_simps)
qed


lemma refcount_width_power: "w \<in> set refcount_widths \<Longrightarrow> \<exists>r. w = 2 ^ r \<and> r \<le> 6"
proof -
  have "list_all (\<lambda>w. list_ex (\<lambda>r. w = 2 ^ r) [0..<7]) refcount_widths" by code_simp
  then show "w \<in> set refcount_widths \<Longrightarrow> \<exists>r. w = 2 ^ r \<and> r \<le> 6"
    by (fastforce simp: list_all_iff list_ex_iff)
qed

text \<open>The refcount block that covers a cluster is where the refcount table says.\<close>

lemma image_refcount_block:
  assumes "\<forall>c \<in> set (image_of a L s l h K B rb T E n). length c = 8 * L"
    and "1 + K + B \<le> length (image_of a L s l h K B rb T E n)" "length rb = B" "j < B"
  shows "take (8 * L) (drop (nat (int (1 + K + j) * int (8 * L))) (concat (image_of a L s l h K B rb T E n))) = rb ! j"
proof -
  have "nat (int (1 + K + j) * int (8 * L)) = (1 + K + j) * (8 * L)"
    unfolding of_nat_mult [symmetric] by (rule nat_int)
  moreover have "image_of a L s l h K B rb T E n ! (1 + K + j) = rb ! j"
    using nth_middle [of "h # rt_clusters a L K B" "1 + K" j rb] assms(3,4) by (simp add: image_of_def rt_clusters_def)
  ultimately show ?thesis using concat_cluster [OF assms(1), of "1 + K + j"] assms(2,4) by simp
qed

lemma length_concat_clusters: "\<forall>c \<in> set xs. length c = k \<Longrightarrow> length (concat xs) = length xs * k"
  by (induction xs) auto

lemma header_refcount_fields:
  assumes "take 104 h = [0x51, 0x46, 0x49, 0xfb] @ enc_fields (header_fields a l)" "image_params a p w"
    and "refcount_table_offset l = cluster_size a" "fits 8 (l1_table_offset l)" "w = 2 ^ r" "r \<le> 6"
  shows "be_field (h @ rest) 20 4 = int (p + 3)" "be_field (h @ rest) 96 4 = int r" "be_field (h @ rest) 48 8 = cluster_size a"
proof -
  have p: "p \<le> 18" "cluster_size a = 2 ^ (p + 3)" "refcount_bits a = int w"
    using assms(2) by (auto simp: image_params_def power_add)
  have "(2 :: int) ^ (p + 3) \<le> 2 ^ 21" using p(1) by (intro power_increasing) auto
  then have fits: "fits 8 (refcount_table_offset l)" "fits 4 (int (p + 3))" "fits 4 (int r)"
    using p(1) assms(6) unfolding assms(3) p(2) by (simp_all add: fits_def)
  show "be_field (h @ rest) 20 4 = int (p + 3)"
    using header_reads [OF assms(1), of "p + 3"] p(2) fits assms(4) by simp
  show "be_field (h @ rest) 96 4 = int r" "be_field (h @ rest) 48 8 = cluster_size a"
    using header_reads_refcounts [OF assms(1), of r] p(3) assms(3,5) fits by simp_all
qed

text \<open>
  C9: The refcounts of a converted image are exact: its length is a whole
  number of clusters, and through the refcount table of the header every
  cluster of the file, the refcount structures themselves included, has
  refcount 1.
\<close>

theorem conversion_refcounts:
  assumes "plain_conversion a p w"
  shows "\<exists>img m. write_qcow2_content a out = (Inr (), out @ img) \<and> length img = m * (8 * 2 ^ p) \<and>
    (\<forall>c < m. qcow2_refcount img c = 1)"
proof -
  define L :: nat where "L = 2 ^ p"
  have params: "image_params a p w" using assms by (simp add: plain_conversion_def)
  from conversion_writes [OF assms, of out] obtain img where
    img: "write_qcow2_content a out = (Inr (), out @ img)" "good_image a p w img" by blast
  from img(2) obtain s l h K B rb T E N D n dsize where
    g: "img = concat (image_of a L s l h K B rb T E n)" "K = (B + L - 1) div L"
      "alloc_ready L T E N D n s" "l = layout_nat a dsize n E K B T N D"
      "int (1 + K + B + T + N + D) * cluster_size a < 2 ^ 56"
      "1 + K + B + T + N + D \<le> per_block p w * B"
      "length h = 8 * L" "take 104 h = [0x51, 0x46, 0x49, 0xfb] @ enc_fields (header_fields a l)"
      "length rb = B" "\<forall>c \<in> set rb. length c = 8 * L"
      "\<forall>i < 1 + K + B + T + N + D. refcount_at w (rb ! (i div per_block p w)) (i mod per_block p w) = 1"
    unfolding good_image_def L_def by blast
  let ?M = "1 + K + B + T + N + D" and ?P = "per_block p w"
  let ?cls = "image_of a L s l h K B rb T E n"
  have cs: "cluster_size a = int (8 * L)" and p: "6 \<le> p" "p \<le> 18"
    and w: "refcount_bits a = int w" "w \<in> set refcount_widths"
    using params by (auto simp: image_params_def L_def)
  have len: "\<forall>c \<in> set ?cls. length c = 8 * L" by (rule image_of_clusters [OF g(7,10)])
  have lcls: "length ?cls = ?M" by (rule length_image_of [OF g(3,9)])
  have L: "0 < L" "8 * L = 2 ^ (p + 3)" "8 * L * 8 = 64 * L" by (simp_all add: L_def power_add)
  obtain r where r: "w = 2 ^ r" "r \<le> 6" using refcount_width_power [OF w(2)] by blast
  have m: "int j * int (8 * L) < 2 ^ 56" if "j \<le> ?M" for j
  proof -
    have "int j * int (8 * L) \<le> int ?M * int (8 * L)" using that by (intro mult_right_mono) auto
    with g(5) show ?thesis unfolding cs by linarith
  qed
  have rt: "refcount_table_offset l = int (8 * L)" by (simp add: g(4) layout_nat_def cs)
  have img_eq: "img = h @ concat (tl ?cls)" by (simp add: g(1) image_of_def)
  have "fits 8 (l1_table_offset l)" using m [of "1 + K + B"] by (simp add: g(4) layout_nat_def cs fits_def)
  from header_refcount_fields [OF g(8) params _ this r] rt cs
  have h: "be_field img 20 4 = int (p + 3)" "be_field img 96 4 = int r" "be_field img 48 8 = int (8 * L)"
    unfolding img_eq by simp_all
  have per: "8 * L * 8 div w = ?P" by (simp add: per_block_def L_def)
  have "qcow2_refcount img c = 1" if c: "c < ?M" for c
  proof -
    have cB: "c div ?P < B" using c g(6) by (intro less_mult_imp_div_less) (simp add: mult.commute)
    have blk: "be_field img (int (8 * L) + 8 * int (c div ?P)) 8 = int (1 + K + c div ?P) * int (8 * L)"
      unfolding g(1) by (rule image_refcount_slot [OF g(7,10) cs L(1) g(2) cB m]) simp
    have "take (8 * L) (drop (nat (int (1 + K + c div ?P) * int (8 * L))) img) = rb ! (c div ?P)"
      unfolding g(1) by (rule image_refcount_block [OF len _ g(9) cB]) (simp add: lcls)
    with g(11) c show ?thesis
      unfolding qcow2_refcount_def Let_def h nat_int per blk L(2) [symmetric] r(1) [symmetric] by simp
  qed
  moreover have "length img = ?M * (8 * L)" using length_concat_clusters [OF len] lcls by (simp add: g(1))
  ultimately show ?thesis using img(1) unfolding L_def by blast
qed


theorem conversion_refcounts_witness:
  "\<exists>img m. write_qcow2_content example_args [] = (Inr (), img) \<and> length img = m * 512
     \<and> (\<forall>c < m. qcow2_refcount img c = 1)"
  using conversion_refcounts [OF example_plain, of "[]"] by auto

text \<open>
  An image whose L1 table would pass 32 MB is refused with an error and
  nothing is written, in every mode.
\<close>

theorem too_large_refused:
  assumes "virtual_size a = Some v" "cluster_size a = int (8 * L)" "0 < L"
    and "0 \<le> v" "v < 2 ^ 53" "v > 2 ^ 22 * int L * int (8 * L)"
  shows "write_qcow2_content a out = (Inl (Q_SysExit ''The image size is too large''), out)"
proof -
  let ?n = "ceil_true_div v (int (8 * L))"
  let ?E = "ceil_true_div ?n (int L)"
  have n: "v \<le> int (8 * L) * ?n" "0 \<le> ?n" "?n \<le> v"
    using ceil_true_div_bounds [OF assms(4,5), of "int (8 * L)"] assms(3) by auto
  have "int (8 * L) * (2 ^ 22 * int L) < int (8 * L) * ?n" using n(1) assms(6) by (simp add: ac_simps)
  then have "2 ^ 22 * int L < ?n" using assms(3) by (simp only: mult_less_cancel_left_pos of_nat_0_less_iff)
  moreover have "?n \<le> int L * ?E"
    using ceil_true_div_bounds [of ?n "int L"] n assms(3,5) by auto
  ultimately have "int L * 2 ^ 22 < int L * ?E" by (simp add: mult.commute)
  then have "2 ^ 22 < ?E" using assms(3) by simp
  then show ?thesis
    using assms(1,2) by (simp add: write_qcow2_content_def Let_def seq_def bnd_def require_def)
qed

theorem too_large_refused_witness:
  "write_qcow2_content (example_args\<lparr>virtual_size := Some (2 ^ 40)\<rparr>) [] =
     (Inl (Q_SysExit ''The image size is too large''), [])"
  by (rule too_large_refused [where L = 64 and v = "2 ^ 40"]) (simp_all add: example_args_def)


text \<open>
  The refcount loop ends. For every cluster size and refcount width of the
  command line and every number of clusters up to \<open>2 ^ 51\<close>, the loop returns,
  and then the refcount blocks have an entry for every cluster, the refcount
  blocks and tables included, and the refcount tables for every block.
\<close>

theorem refcount_loop_settles:
  assumes "w \<in> set refcount_widths" "6 \<le> p" "0 < tot" "tot \<le> 2 ^ 51"
    and "blocks = ceil_true_div tot (int (per_block p w))"
  shows "\<exists>b t. refcount_loop tot (int (per_block p w)) (2 ^ p) blocks (ceil_true_div blocks (2 ^ p)) = Some (b, t)
    \<and> tot + t + b \<le> int (per_block p w) * b \<and> b \<le> 2 ^ p * t"
proof -
  have "64 \<le> (2::nat) ^ p" using power_increasing [OF assms(2), of "2::nat"] by simp
  with per_block_ge [OF assms(1), of p] have P: "3 \<le> int (per_block p w)" by linarith
  have L: "1 \<le> (2::int) ^ p" by simp
  have b: "0 \<le> blocks" "blocks \<le> tot"
    using ceil_true_div_bounds [of tot "int (per_block p w)"] assms(3-5) P by auto
  have "3 * tot < 2 ^ 53" using assms(4) by simp
  from refcount_loop_ends [OF assms(3) P L this b refl] obtain b' t where
    r: "refcount_loop tot (int (per_block p w)) (2 ^ p) blocks (ceil_true_div blocks (2 ^ p)) = Some (b', t)"
      "blocks \<le> b'" "b' \<le> tot" "t = ceil_true_div b' (2 ^ p)" "tot + t + b' \<le> int (per_block p w) * b'" by blast
  moreover have "b' \<le> 2 ^ p * t"
    using ceil_true_div_bounds(1) [of b' "2 ^ p"] r b assms(4) by simp
  ultimately show ?thesis by blast
qed

theorem refcount_loop_settles_witness:
  "\<exists>b t. refcount_loop 100000 (int (per_block 6 64)) 64 1563 25 = Some (b, t) \<and> 100000 + t + b \<le> 64 * b"
proof -
  have "ceil_true_div 100000 (int (per_block 6 64)) = 1563"
    by (intro ceil_true_div_unique) (simp_all add: per_block_def)
  moreover have "ceil_true_div 1563 64 = 25" by (intro ceil_true_div_unique) simp_all
  moreover have "64 \<in> set refcount_widths" by (simp add: refcount_widths_def)
  ultimately show ?thesis
    using refcount_loop_settles [of 64 6 100000 1563] by (simp add: per_block_def) blast
qed

end
