(* ===== verification/Qcow2_Interval.thy ===== *)
theory Qcow2_Interval
  imports Qcow2
begin

text \<open>
  The class \<^verbatim>\<open>Interval\<close> of \<^verbatim>\<open>qcow2-to-stdout.py\<close>, a set of cluster indices as a
  sorted list of disjoint intervals: the binary search of \<^verbatim>\<open>__contains__\<close> is
  membership, and what it leaves behind.
\<close>

definition in_interval :: "int \<Rightarrow> int \<times> int \<Rightarrow> bool" where
  "in_interval c i \<longleftrightarrow> fst i \<le> c \<and> c \<le> snd i"

definition interval_members :: "intervals \<Rightarrow> int set" where
  "interval_members ivs = {c. \<exists>i \<in> set ivs. in_interval c i}"

definition wf_intervals :: "intervals \<Rightarrow> bool" where
  "wf_intervals ivs \<longleftrightarrow>
     sorted_wrt (\<lambda>x y. snd x < fst y) ivs \<and> list_all (\<lambda>i. fst i \<le> snd i) ivs"

lemma interval_members_simps [simp]:
  "interval_members [] = {}" "interval_members (x # xs) = {c. in_interval c x} \<union> interval_members xs"
  "interval_members (xs @ ys) = interval_members xs \<union> interval_members ys"
  by (auto simp: interval_members_def)

lemma wf_order: "wf_intervals ivs \<Longrightarrow> i < j \<Longrightarrow> j < length ivs \<Longrightarrow> snd (ivs ! i) < fst (ivs ! j)"
  by (auto simp: wf_intervals_def intro: sorted_wrt_nth_less)

lemma wf_nonempty: "wf_intervals ivs \<Longrightarrow> i < length ivs \<Longrightarrow> fst (ivs ! i) \<le> snd (ivs ! i)"
  by (simp add: wf_intervals_def list_all_length)

lemma interval_search_found:
  assumes "wf_intervals ivs" "m < length ivs" "in_interval c (ivs ! m)"
    and "0 \<le> l" "l \<le> int m" "int m \<le> h" "h < int (length ivs)"
  shows "interval_search ivs c l h = Some (remove_at ivs m c)"
  using assms(4-7)
proof (induction "nat (h - l + 1)" arbitrary: l h rule: less_induct)
  case less
  define k where "k = nat ((l + h) div 2)"
  have k: "(l + h) div 2 = int k" "l \<le> int k" "int k \<le> h" using less.prems by (auto simp: k_def)
  then have kl: "k < length ivs" using less.prems by linarith
  have unfold: "interval_search ivs c l h =
    (if in_interval c (ivs ! k) then Some (remove_at ivs k c)
     else if c < fst (ivs ! k) then interval_search ivs c l (int k - 1)
     else interval_search ivs c (int k + 1) h)"
    using less.prems by (subst interval_search.simps) (simp add: Let_def k(1) in_interval_def)
  consider "m = k" | "m < k" | "k < m" by linarith
  then show ?case
  proof cases
    case 1
    with unfold assms(3) show ?thesis by simp
  next
    case 2
    then have "c < fst (ivs ! k)" using wf_order [OF assms(1) 2 kl] assms(3) by (simp add: in_interval_def)
    moreover have "interval_search ivs c l (int k - 1) = Some (remove_at ivs m c)"
      using less.prems k 2 by (intro less.hyps) auto
    ultimately show ?thesis using unfold by (simp add: in_interval_def)
  next
    case 3
    then have "snd (ivs ! k) < c" "fst (ivs ! k) \<le> c"
      using wf_order [OF assms(1) 3 assms(2)] wf_nonempty [OF assms(1) kl] assms(3)
      by (auto simp: in_interval_def)
    moreover have "interval_search ivs c (int k + 1) h = Some (remove_at ivs m c)"
      using less.prems k 3 by (intro less.hyps) auto
    ultimately show ?thesis using unfold by (simp add: in_interval_def)
  qed
qed

lemma interval_search_none:
  assumes "\<forall>m < length ivs. \<not> in_interval c (ivs ! m)" "0 \<le> l" "h < int (length ivs)"
  shows "interval_search ivs c l h = None"
  using assms(2,3)
proof (induction "nat (h - l + 1)" arbitrary: l h rule: less_induct)
  case less
  show ?case
  proof (cases "l \<le> h")
    case True
    define k where "k = nat ((l + h) div 2)"
    have k: "(l + h) div 2 = int k" "l \<le> int k" "int k \<le> h" using less.prems True by (auto simp: k_def)
    then have "\<not> in_interval c (ivs ! k)" using assms(1) less.prems by auto
    moreover have "interval_search ivs c l (int k - 1) = None" "interval_search ivs c (int k + 1) h = None"
      using less.prems k True by (intro less.hyps; auto)+
    ultimately show ?thesis
      using True by (subst interval_search.simps) (auto simp: Let_def k(1) in_interval_def)
  qed (subst interval_search.simps, simp)
qed

text \<open>The effect of a removal, on the list split around the interval.\<close>

lemma remove_at_split:
  "remove_at (pre @ (lo, hi) # post) (length pre) c =
     pre @ (if c = lo \<and> c = hi then [] else if c = lo then [(lo + 1, hi)]
            else if c = hi then [(lo, hi - 1)] else [(lo, c), (c + 1, hi)]) @ post"
  by (simp add: remove_at_def nth_append list_update_append)

lemma wf_split:
  "wf_intervals (pre @ xs @ post) \<longleftrightarrow> wf_intervals pre \<and> wf_intervals xs \<and> wf_intervals post
     \<and> (\<forall>x \<in> set pre. \<forall>y \<in> set xs \<union> set post. snd x < fst y) \<and> (\<forall>x \<in> set xs. \<forall>y \<in> set post. snd x < fst y)"
  by (auto simp: wf_intervals_def sorted_wrt_append)

lemma remove_at_effect:
  assumes "wf_intervals (pre @ [(lo, hi)] @ post)" "lo \<le> c" "c \<le> hi"
  shows "wf_intervals (remove_at (pre @ (lo, hi) # post) (length pre) c)"
    and "interval_members (remove_at (pre @ (lo, hi) # post) (length pre) c) =
      (if lo < c \<and> c < hi then interval_members (pre @ (lo, hi) # post)
       else interval_members (pre @ (lo, hi) # post) - {c})"
proof -
  let ?xs = "if c = lo \<and> c = hi then [] else if c = lo then [(lo + 1, hi)]
            else if c = hi then [(lo, hi - 1)] else [(lo, c), (c + 1, hi)]"
  have bounds: "\<forall>x \<in> set ?xs. lo \<le> fst x \<and> fst x \<le> snd x \<and> snd x \<le> hi" "sorted_wrt (\<lambda>x y. snd x < fst y) ?xs"
    using assms(2,3) by auto
  then have "wf_intervals ?xs" by (auto simp: wf_intervals_def list_all_iff)
  with assms(1) bounds(1) show "wf_intervals (remove_at (pre @ (lo, hi) # post) (length pre) c)"
    unfolding remove_at_split wf_split by fastforce
  have "c \<notin> interval_members pre" "c \<notin> interval_members post"
    using assms unfolding wf_split by (fastforce simp: interval_members_def in_interval_def)+
  moreover have "interval_members ?xs = (if lo < c \<and> c < hi then {lo..hi} else {lo..hi} - {c})"
    using assms(2,3) by (auto simp: in_interval_def)
  moreover have "{c. in_interval c (lo, hi)} = {lo..hi}" by (auto simp: in_interval_def)
  ultimately show "interval_members (remove_at (pre @ (lo, hi) # post) (length pre) c) =
      (if lo < c \<and> c < hi then interval_members (pre @ (lo, hi) # post)
       else interval_members (pre @ (lo, hi) # post) - {c})"
    unfolding remove_at_split by auto
qed

definition interior :: "int \<Rightarrow> intervals \<Rightarrow> bool" where
  "interior c ivs \<longleftrightarrow> (\<exists>i \<in> set ivs. fst i < c \<and> c < snd i)"

lemma contains_split:
  assumes "wf_intervals ivs" "c \<in> interval_members ivs"
  shows "\<exists>pre lo hi post. ivs = pre @ (lo, hi) # post \<and> lo \<le> c \<and> c \<le> hi
    \<and> interior c ivs = (lo < c \<and> c < hi)
    \<and> interval_contains c ivs = (True, remove_at (pre @ (lo, hi) # post) (length pre) c)"
proof -
  from assms(2) obtain m where m: "m < length ivs" "in_interval c (ivs ! m)"
    by (auto simp: interval_members_def in_set_conv_nth)
  obtain lo hi where lh: "ivs ! m = (lo, hi)" by fastforce
  have ivs: "ivs = take m ivs @ (lo, hi) # drop (Suc m) ivs" using m(1) lh by (metis id_take_nth_drop)
  have search: "interval_search ivs c 0 (int (length ivs) - 1) = Some (remove_at ivs m c)"
    using m by (intro interval_search_found [OF assms(1)]) auto
  have ne: "ivs \<noteq> []" using m(1) by auto
  then have "last ivs = ivs ! (length ivs - 1)" "hd ivs = ivs ! 0" by (simp_all add: last_conv_nth hd_conv_nth)
  note ends = this
  have lt: "length ivs - 1 < length ivs" "m \<noteq> length ivs - 1 \<Longrightarrow> m < length ivs - 1" using ne m(1) by auto
  have "snd (last ivs) \<ge> c"
    using lt wf_order [OF assms(1), of m "length ivs - 1"] wf_nonempty [OF assms(1), of "length ivs - 1"] m
    by (cases "m = length ivs - 1") (fastforce simp: ends in_interval_def)+
  moreover have "fst (hd ivs) \<le> c"
    using wf_order [OF assms(1), of 0 m] wf_nonempty [OF assms(1), of 0] m ne
    by (cases "m = 0") (auto simp: ends in_interval_def)
  ultimately have "interval_contains c ivs = (True, remove_at ivs m c)"
    using search m(1) by (auto simp: interval_contains_def)
  moreover have "interior c ivs = (lo < c \<and> c < hi)"
  proof
    assume "interior c ivs"
    then obtain j where j: "j < length ivs" "fst (ivs ! j) < c" "c < snd (ivs ! j)"
      by (auto simp: interior_def in_set_conv_nth)
    have "j = m"
      using wf_order [OF assms(1), of j m] wf_order [OF assms(1), of m j] j m
      by (cases j m rule: linorder_cases) (auto simp: in_interval_def)
    with j lh show "lo < c \<and> c < hi" by simp
  qed (use m(1) lh in \<open>force simp: interior_def dest: nth_mem\<close>)
  moreover have "length (take m ivs) = m" using m(1) by simp
  ultimately show ?thesis using ivs m(2) lh
    by (intro exI [of _ "take m ivs"] exI [of _ lo] exI [of _ hi] exI [of _ "drop (Suc m) ivs"])
      (simp add: in_interval_def)
qed

text \<open>
  \<^verbatim>\<open>cluster in intervals\<close>, on a sorted list of disjoint intervals, is
  membership in their union, found by binary search, and keeps the list sorted
  and disjoint. The cluster is removed when it is at an end of its interval;
  when it lies strictly inside, the interval is split but the cluster stays in
  the left part: the set is then unchanged.
\<close>

theorem interval_contains_spec:
  assumes "wf_intervals ivs"
  shows "fst (interval_contains c ivs) = (c \<in> interval_members ivs)
    \<and> wf_intervals (snd (interval_contains c ivs))
    \<and> interval_members (snd (interval_contains c ivs)) =
        (if interior c ivs then interval_members ivs else interval_members ivs - {c})"
proof (cases "c \<in> interval_members ivs")
  case True
  from contains_split [OF assms True] obtain pre lo hi post where
    s: "ivs = pre @ (lo, hi) # post" "lo \<le> c" "c \<le> hi" "interior c ivs = (lo < c \<and> c < hi)"
      "interval_contains c ivs = (True, remove_at (pre @ (lo, hi) # post) (length pre) c)" by blast
  have "wf_intervals (pre @ [(lo, hi)] @ post)" using assms s(1) by simp
  from remove_at_effect [OF this s(2,3)] s True show ?thesis by simp
next
  case False
  then have "\<forall>m < length ivs. \<not> in_interval c (ivs ! m)" by (auto simp: interval_members_def)
  then have "interval_contains c ivs = (False, ivs)"
    using interval_search_none [of ivs c 0 "int (length ivs) - 1"] by (auto simp: interval_contains_def)
  moreover have "\<not> interior c ivs" using False by (auto simp: interior_def interval_members_def in_interval_def)
  ultimately show ?thesis using assms False by simp
qed

theorem interval_contains_spec_witness:
  "interval_contains 5 [(0, 10)] = (True, [(0, 5), (6, 10)])
   \<and> 5 \<in> interval_members (snd (interval_contains 5 [(0, 10)]))"
proof -
  have "interval_contains 5 [(0, 10)] = (True, [(0, 5), (6, 10)])" by code_simp
  moreover have "wf_intervals [(0, 10)]" "interior 5 [(0, 10)]" "5 \<in> interval_members [(0, 10)]"
    by (simp_all add: wf_intervals_def interior_def in_interval_def)
  ultimately show ?thesis using interval_contains_spec [of "[(0, 10)]" 5] by simp
qed

end
