(* ===== verification/Usb_Scan.thy ===== *)
theory Usb_Scan
  imports Py_Text
begin

text \<open>
  The USB scanner \<^verbatim>\<open>python3/libexec/usb_scan.py\<close>: devices and interfaces read
  from udev, the policy file, and the list of devices that may be passed
  through. The objects \<^verbatim>\<open>pyudev\<close> returns are arguments: a name with its
  properties and its sysfs attributes, decoded. \<^verbatim>\<open>log_exit\<close> is the error
  \<open>SysExit\<close>; the texts of the messages and the debug log are left out.
\<close>

section \<open>USB objects\<close>

datatype usb_error = SysExit | Usb_KeyError | Usb_ValueError | UnboundLocalError

definition hex_equal :: "string \<Rightarrow> string \<Rightarrow> bool" where
  "hex_equal h1 h2 =
     (case (py_int 16 h1, py_int 16 h2) of (Some a, Some b) \<Rightarrow> a = b | _ \<Rightarrow> False)"

definition validate_int :: "nat \<Rightarrow> string \<Rightarrow> bool" where
  "validate_int base s = (py_int base s \<noteq> None)"

type_synonym props = "string \<rightharpoonup> string"

record usb_interface =
  if_node :: string
  if_props :: props

record usb_device =
  dev_node :: string
  dev_props :: props
  dev_interfaces :: "usb_interface list"

text \<open>\<^verbatim>\<open>self[p]\<close>\<close>

definition prop_of :: "props \<Rightarrow> string \<Rightarrow> usb_error + string" where
  "prop_of m p = (case m p of None \<Rightarrow> Inl Usb_KeyError | Some v \<Rightarrow> Inr v)"

definition is_class_hub :: "props \<Rightarrow> string \<Rightarrow> bool" where
  "is_class_hub m key_class = (case m key_class of None \<Rightarrow> False | Some cls \<Rightarrow> hex_equal ''09'' cls)"

definition DEV_PRODUCT_DESC :: "string list" where
  "DEV_PRODUCT_DESC = [''ID_VENDOR_FROM_DATABASE'', ''ID_MODEL_FROM_DATABASE'']"

definition DEV_PRODUCT_DETAILS :: "string list" where
  "DEV_PRODUCT_DETAILS =
     [''version'', ''idVendor'', ''idProduct'', ''bcdDevice'', ''serial'', ''bDeviceClass'',
      ''bConfigurationValue'', ''bNumInterfaces'', ''speed'']"

definition DEV_PROPS_NONABLE :: "string list" where
  "DEV_PROPS_NONABLE = DEV_PRODUCT_DESC @ [''serial'']"

definition IF_PROPS :: "string list" where
  "IF_PROPS = [''bInterfaceNumber'', ''bInterfaceClass'', ''bInterfaceSubClass'', ''bInterfaceProtocol'']"

text \<open>Copying the known keys of a mapping, as the constructors do.\<close>

definition copy_props :: "string list \<Rightarrow> props \<Rightarrow> props \<Rightarrow> props" where
  "copy_props ps src m = foldl (\<lambda>m p. case src p of None \<Rightarrow> m | Some v \<Rightarrow> m(p \<mapsto> v)) m ps"

definition default_props :: "string list \<Rightarrow> props \<Rightarrow> props" where
  "default_props ps m = foldl (\<lambda>m p. if m p = None then m(p \<mapsto> []) else m) m ps"

definition new_device :: "string \<Rightarrow> props \<Rightarrow> props \<Rightarrow> usb_device" where
  "new_device node props1 props2 =
     \<lparr>dev_node = node,
      dev_props = default_props DEV_PROPS_NONABLE
        (copy_props DEV_PRODUCT_DETAILS props2 (copy_props DEV_PRODUCT_DESC props1 Map.empty)),
      dev_interfaces = []\<rparr>"

definition new_interface :: "string \<Rightarrow> props \<Rightarrow> usb_interface" where
  "new_interface node ps = \<lparr>if_node = node, if_props = copy_props IF_PROPS ps Map.empty\<rparr>"

text \<open>The loops over properties that must be integers, returning at the first that is not.\<close>

fun all_ints :: "nat \<Rightarrow> props \<Rightarrow> string list \<Rightarrow> usb_error + bool" where
  "all_ints base m [] = Inr True"
| "all_ints base m (p # ps) =
     sbind (prop_of m p) (\<lambda>v. if validate_int base v then all_ints base m ps else Inr False)"

definition device_is_initialized :: "usb_device \<Rightarrow> usb_error + bool" where
  "device_is_initialized d =
     sbind (all_ints 16 (dev_props d) [''idVendor'', ''idProduct'', ''bcdDevice'']) (\<lambda>b.
     if \<not> b then Inr False
     else sbind (all_ints 10 (dev_props d) [''bConfigurationValue'', ''bNumInterfaces'']) (\<lambda>b.
       if \<not> b then Inr False else Inr (dev_node d \<noteq> [])))"

definition device_is_class_hub :: "usb_device \<Rightarrow> bool" where
  "device_is_class_hub d = is_class_hub (dev_props d) ''bDeviceClass''"

definition interface_is_class_hub :: "usb_interface \<Rightarrow> bool" where
  "interface_is_class_hub i = is_class_hub (if_props i) ''bInterfaceClass''"

definition interface_is_initialized :: "usb_interface \<Rightarrow> bool" where
  "interface_is_initialized i \<longleftrightarrow>
     list_all (\<lambda>p. case if_props i p of None \<Rightarrow> False | Some v \<Rightarrow> validate_int 16 v) IF_PROPS
     \<and> if_node i \<noteq> []"

text \<open>
  The set of interfaces of a device: equality is equality of nodes, and an
  interface already present is replaced.
\<close>

definition add_interface :: "usb_interface \<Rightarrow> usb_device \<Rightarrow> usb_device" where
  "add_interface i d =
     d\<lparr>dev_interfaces := i # filter (\<lambda>j. if_node j \<noteq> if_node i) (dev_interfaces d)\<rparr>"

definition del_interface :: "usb_interface \<Rightarrow> usb_device \<Rightarrow> usb_device" where
  "del_interface i d = d\<lparr>dev_interfaces := filter (\<lambda>j. if_node j \<noteq> if_node i) (dev_interfaces d)\<rparr>"

definition get_all_interfaces :: "usb_device \<Rightarrow> usb_interface list" where
  "get_all_interfaces d = dev_interfaces d"

definition is_ready :: "usb_device \<Rightarrow> usb_error + bool" where
  "is_ready d =
     sbind (prop_of (dev_props d) ''bNumInterfaces'') (\<lambda>v.
     case py_int 10 v of
       None \<Rightarrow> Inl Usb_ValueError
     | Some n \<Rightarrow> Inr (0 < n \<and> n = int (length (dev_interfaces d))))"

text \<open>
  \<^verbatim>\<open>re.match\<close> with \<^verbatim>\<open>^node:conf\.\d+$\<close>, the node and the configuration escaped;
  \<^verbatim>\<open>$\<close> also matches before a final newline.
\<close>

definition child_pattern :: "string \<Rightarrow> string \<Rightarrow> string \<Rightarrow> bool" where
  "child_pattern node conf s =
    (let prefix = node @ '':'' @ conf @ ''.''; rest = drop (length prefix) s;
         tail = dropWhile is_digit rest in
     take (length prefix) s = prefix \<and> takeWhile is_digit rest \<noteq> [] \<and> (tail = [] \<or> tail = [CHR 0x0A]))"

definition interface_is_child_of :: "usb_interface \<Rightarrow> usb_device \<Rightarrow> usb_error + bool" where
  "interface_is_child_of i parent =
     sbind (device_is_initialized parent) (\<lambda>b.
     if b then
       sbind (prop_of (dev_props parent) ''bConfigurationValue'') (\<lambda>conf_value.
       Inr (child_pattern (dev_node parent) conf_value (if_node i)))
     else Inr False)"

section \<open>Reading udev\<close>

text \<open>A device of \<^verbatim>\<open>pyudev\<close>: its name, its properties, its attributes.\<close>

type_synonym udev = "string \<times> props \<times> props"

fun scan_devices :: "udev list \<Rightarrow> usb_error + usb_device list" where
  "scan_devices [] = Inr []"
| "scan_devices ((sys_name, ps, attrs) # ds) =
    (let device = new_device sys_name ps attrs in
     sbind (device_is_initialized device) (\<lambda>b.
     sbind (scan_devices ds) (\<lambda>rest.
     Inr (if b \<and> \<not> device_is_class_hub device then device # rest else rest))))"

definition scan_interfaces :: "udev list \<Rightarrow> usb_interface list" where
  "scan_interfaces ds =
     filter (\<lambda>i. interface_is_initialized i \<and> \<not> interface_is_class_hub i)
       (map (\<lambda>(sys_name, ps, attrs). new_interface sys_name attrs) ds)"

definition get_usb_info :: "udev list \<Rightarrow> udev list \<Rightarrow> usb_error + usb_device list \<times> usb_interface list" where
  "get_usb_info usb_devices usb_interfaces =
     sbind (scan_devices usb_devices) (\<lambda>devices. Inr (devices, scan_interfaces usb_interfaces))"

section \<open>The policy\<close>

record rule =
  r_allow :: bool
  r_fields :: "(string \<times> string) list"

definition KEY_MAP_DEVICE :: props where
  "KEY_MAP_DEVICE = map_of [(''vid'', ''idVendor''), (''pid'', ''idProduct''), (''rel'', ''bcdDevice'')]"

definition KEY_MAP_INTERFACE :: props where
  "KEY_MAP_INTERFACE =
     map_of [(''class'', ''bInterfaceClass''), (''subclass'', ''bInterfaceSubClass''), (''prot'', ''bInterfaceProtocol'')]"

definition check_hex_length :: "string \<Rightarrow> string \<Rightarrow> bool" where
  "check_hex_length name value =
     (if name \<in> {''class'', ''subclass'', ''prot''} then length value = 2
      else if name \<in> {''vid'', ''pid'', ''rel''} then length value = 4
      else False)"

text \<open>
  The regular expression \<^verbatim>\<open>\s*(class|subclass|prot|vid|pid|rel)\s*=\s*([0-9a-f]+)\<close>,
  ignoring case, matched at the start of a string: the two groups as written
  and the rest. No alternative is a prefix of another, white space is neither
  a letter nor \<^verbatim>\<open>=\<close>, so greedy matching never has to backtrack.
\<close>

definition pattern_keys :: "string list" where
  "pattern_keys = [''class'', ''subclass'', ''prot'', ''vid'', ''pid'', ''rel'']"

definition is_hex :: "char \<Rightarrow> bool" where
  "is_hex c \<longleftrightarrow> py_digit 16 c \<noteq> None"

definition match_key :: "string \<Rightarrow> (string \<times> string) option" where
  "match_key s =
     map_option (\<lambda>k. (take (length k) s, drop (length k) s))
       (find (\<lambda>k. py_lower (take (length k) s) = k) pattern_keys)"

definition match_pair :: "string \<Rightarrow> ((string \<times> string) \<times> string) option" where
  "match_pair s =
     (case match_key (py_lstrip s) of
        None \<Rightarrow> None
      | Some (name, s1) \<Rightarrow>
         (case py_lstrip s1 of
            [] \<Rightarrow> None
          | c # s2 \<Rightarrow>
              let value = takeWhile is_hex (py_lstrip s2) in
              if c = CHR ''='' \<and> value \<noteq> [] then Some ((name, value), dropWhile is_hex (py_lstrip s2))
              else None))"

lemma length_py_lstrip: "length (py_lstrip s) \<le> length s"
  by (simp add: py_lstrip_def length_dropWhile_le)

lemma match_pair_shorter:
  assumes "match_pair s = Some (g, rest)"
  shows "length rest < length s"
proof -
  from assms obtain name s1 c s2 where k: "match_key (py_lstrip s) = Some (name, s1)"
    and s1: "py_lstrip s1 = c # s2" and rest: "rest = dropWhile is_hex (py_lstrip s2)"
    by (auto simp: match_pair_def Let_def split: option.splits prod.splits list.splits if_splits)
  have "length s1 \<le> length (py_lstrip s)" using k by (auto simp: match_key_def)
  then have "length s1 \<le> length s" using length_py_lstrip [of s] by linarith
  moreover have "length s2 < length s1" using s1 length_py_lstrip [of s1] by simp
  moreover have "length rest \<le> length s2"
    unfolding rest using length_py_lstrip [of s2] length_dropWhile_le [of is_hex "py_lstrip s2"] by linarith
  ultimately show ?thesis by linarith
qed

text \<open>
  \<^verbatim>\<open>re.finditer\<close>: the matches from left to right, each with the number of
  characters skipped before it and the number of characters left after it.
\<close>

function finditer :: "nat \<Rightarrow> string \<Rightarrow> (nat \<times> (string \<times> string) \<times> nat) list" where
  "finditer skipped s =
     (case match_pair s of
        Some (g, rest) \<Rightarrow> (skipped, g, length rest) # finditer 0 rest
      | None \<Rightarrow> (case s of [] \<Rightarrow> [] | _ # s' \<Rightarrow> finditer (Suc skipped) s'))"
  by pat_completeness auto
termination
  by (relation "measure (\<lambda>(k, s). length s)") (auto dest: match_pair_shorter)

declare finditer.simps [simp del]

text \<open>
  The loop over the matches. The rest of the code only uses of the positions
  whether a match starts where the last one ended, and how much is left.
\<close>

fun parse_pairs :: "(nat \<times> (string \<times> string) \<times> nat) list \<Rightarrow> nat \<Rightarrow> rule \<Rightarrow> usb_error + rule" where
  "parse_pairs [] left rule = (if left \<noteq> 0 then Inl SysExit else Inr rule)"
| "parse_pairs ((skipped, (g1, g2), left') # ms) left rule =
    (if skipped \<noteq> 0 then Inl SysExit
     else
       let name = py_lower g1; value = py_lower g2 in
       if \<not> check_hex_length name value then Inl SysExit
       else if name \<in> fst ` set (r_fields rule) then Inl SysExit
       else parse_pairs ms left' (rule\<lparr>r_fields := r_fields rule @ [(name, value)]\<rparr>))"

definition parse_rule :: "string \<Rightarrow> usb_error + rule" where
  "parse_rule line =
     (case map py_strip (py_split (CHR '':'') line) of
        [action, target] \<Rightarrow>
          sbind (if py_lower action = ''allow'' then Inr True
                 else if py_lower action = ''deny'' then Inr False
                 else Inl SysExit) (\<lambda>allow.
          parse_pairs (finditer 0 target) (length target) \<lparr>r_allow = allow, r_fields = []\<rparr>)
      | _ \<Rightarrow> if py_rstrip line \<noteq> [] then Inl SysExit else Inl UnboundLocalError)"

text \<open>One line of the policy file, appended to the rules so far.\<close>

definition parse_line :: "string \<Rightarrow> rule list \<Rightarrow> usb_error + rule list" where
  "parse_line line rule_list =
     (if py_strip line = [] then Inr rule_list
      else
        case py_find (CHR ''#'') line of
          Some 0 \<Rightarrow> Inr rule_list
        | Some i \<Rightarrow> sbind (parse_rule (take i line)) (\<lambda>r. Inr (rule_list @ [r]))
        | None \<Rightarrow> sbind (parse_rule line) (\<lambda>r. Inr (rule_list @ [r])))"

text \<open>The constructor; \<open>None\<close> is a policy file that cannot be read.\<close>

definition new_policy :: "string list option \<Rightarrow> usb_error + rule list" where
  "new_policy f = (case f of None \<Rightarrow> Inl SysExit | Some lines \<Rightarrow> sfold parse_line lines [])"

fun match_fields :: "props \<Rightarrow> props \<Rightarrow> (string \<times> string) list \<Rightarrow> usb_error + bool" where
  "match_fields key_map m [] = Inr True"
| "match_fields key_map m ((k, v) # fs) =
     (case key_map k of
        None \<Rightarrow> match_fields key_map m fs
      | Some p \<Rightarrow> sbind (prop_of m p) (\<lambda>w. if \<not> hex_equal v w then Inr False else match_fields key_map m fs))"

definition match_device_interface :: "rule \<Rightarrow> usb_device \<Rightarrow> usb_interface \<Rightarrow> usb_error + bool" where
  "match_device_interface rule device interface =
     sbind (match_fields KEY_MAP_DEVICE (dev_props device) (r_fields rule)) (\<lambda>b.
     if \<not> b then Inr False
     else match_fields KEY_MAP_INTERFACE (if_props interface) (r_fields rule))"

text \<open>
  The inner loop of \<^verbatim>\<open>check\<close>: the first rule that matches decides, and no rule
  is a refusal.
\<close>

fun first_match :: "('r \<Rightarrow> 'e + bool) \<Rightarrow> ('r \<Rightarrow> bool) \<Rightarrow> 'r list \<Rightarrow> 'e + bool" where
  "first_match eval allow [] = Inr False"
| "first_match eval allow (r # rs) =
     sbind (eval r) (\<lambda>b. if b then Inr (allow r) else first_match eval allow rs)"

definition check_interface :: "rule list \<Rightarrow> usb_device \<Rightarrow> usb_interface \<Rightarrow> usb_error + bool" where
  "check_interface rules device i = first_match (\<lambda>r. match_device_interface r device i) r_allow rules"

fun check_interfaces :: "rule list \<Rightarrow> usb_device \<Rightarrow> usb_interface list \<Rightarrow> usb_error + bool" where
  "check_interfaces rules device [] = Inr True"
| "check_interfaces rules device (i # is) =
     sbind (check_interface rules device i) (\<lambda>b.
     if \<not> b then Inr False else check_interfaces rules device is)"

definition policy_check :: "rule list \<Rightarrow> usb_device \<Rightarrow> usb_error + bool" where
  "policy_check rules device = check_interfaces rules device (get_all_interfaces device)"

section \<open>The result\<close>

record pusb =
  pu_path :: string
  pu_version :: string
  pu_vendor_id :: string
  pu_product_id :: string
  pu_vendor_desc :: string
  pu_product_desc :: string
  pu_speed :: string
  pu_serial :: string
  pu_description :: string

definition to_pusb :: "usb_device \<Rightarrow> usb_error + pusb" where
  "to_pusb d =
     sbind (prop_of (dev_props d) ''version'') (\<lambda>version.
     sbind (prop_of (dev_props d) ''idVendor'') (\<lambda>vendor_id.
     sbind (prop_of (dev_props d) ''idProduct'') (\<lambda>product_id.
     sbind (prop_of (dev_props d) ''ID_VENDOR_FROM_DATABASE'') (\<lambda>vendor_desc.
     sbind (prop_of (dev_props d) ''ID_MODEL_FROM_DATABASE'') (\<lambda>product_desc.
     sbind (prop_of (dev_props d) ''speed'') (\<lambda>speed.
     sbind (prop_of (dev_props d) ''serial'') (\<lambda>serial.
     let serial = py_strip serial;
         description = vendor_desc @ (if product_desc \<noteq> [] then ''_'' @ product_desc else [])
           @ (if serial \<noteq> [] then ''_'' @ serial else []) in
     Inr \<lparr>pu_path = dev_node d, pu_version = py_strip version, pu_vendor_id = vendor_id,
          pu_product_id = product_id, pu_vendor_desc = vendor_desc, pu_product_desc = product_desc,
          pu_speed = speed, pu_serial = serial, pu_description = description\<rparr>)))))))"

text \<open>Adding an interface to all its parents, for all interfaces in order.\<close>

fun attach_interface :: "usb_interface \<Rightarrow> usb_device list \<Rightarrow> usb_error + usb_device list" where
  "attach_interface i [] = Inr []"
| "attach_interface i (d # ds) =
     sbind (interface_is_child_of i d) (\<lambda>b.
     sbind (attach_interface i ds) (\<lambda>rest.
     Inr ((if b then add_interface i d else d) # rest)))"

fun select_pusbs :: "rule list \<Rightarrow> usb_device list \<Rightarrow> usb_error + pusb list" where
  "select_pusbs rules [] = Inr []"
| "select_pusbs rules (d # ds) =
     sbind (sbind (is_ready d) (\<lambda>b. if b then policy_check rules d else Inr False)) (\<lambda>b.
     if b then sbind (to_pusb d) (\<lambda>p. sbind (select_pusbs rules ds) (\<lambda>ps. Inr (p # ps)))
     else select_pusbs rules ds)"

definition make_pusbs_list ::
  "string list option \<Rightarrow> usb_device list \<Rightarrow> usb_interface list \<Rightarrow> usb_error + pusb list" where
  "make_pusbs_list policy_file devices interfaces =
     sbind (sfold attach_interface interfaces devices) (\<lambda>devices.
     sbind (new_policy policy_file) (\<lambda>rules.
     select_pusbs rules devices))"

text \<open>The program: an exception of \<^verbatim>\<open>get_usb_info\<close> is turned into an exit.\<close>

definition usb_scan_main :: "string list option \<Rightarrow> udev list \<Rightarrow> udev list \<Rightarrow> usb_error + pusb list" where
  "usb_scan_main policy_file usb_devices usb_interfaces =
     (case get_usb_info usb_devices usb_interfaces of
        Inl e \<Rightarrow> Inl SysExit
      | Inr (devices, interfaces) \<Rightarrow> make_pusbs_list policy_file devices interfaces)"

end
