(* ===== verification/Usb_Proofs.thy ===== *)
theory Usb_Proofs
  imports Usb_Scan
begin

text \<open>
  The properties of the USB scanner: the policy is decided by the first rule
  that matches each interface, rules are read as they are written, and only
  devices the policy allows are reported.
\<close>

section \<open>First match\<close>

text \<open>What the loop needs of the evaluation of a rule: it cannot fail on valid data.\<close>

locale rule_evaluation =
  fixes eval :: "'d \<Rightarrow> 'r \<Rightarrow> 'e + bool" and matches :: "'d \<Rightarrow> 'r \<Rightarrow> bool" and valid :: "'d \<Rightarrow> bool"
  assumes eval_valid: "valid d \<Longrightarrow> eval d r = Inr (matches d r)"
begin

lemma first_match_find:
  "valid d \<Longrightarrow> first_match (eval d) allow rs =
     Inr (case find (matches d) rs of None \<Rightarrow> False | Some r \<Rightarrow> allow r)"
  by (induction rs) (simp_all add: eval_valid)

text \<open>Appending rules after a catch-all rule changes nothing.\<close>

lemma first_match_catch_all:
  assumes "valid d" "matches d r"
  shows "first_match (eval d) allow (rs @ r # rs') = first_match (eval d) allow (rs @ [r])"
  using assms by (induction rs) (simp_all add: eval_valid)

end

definition device_valid :: "usb_device \<Rightarrow> bool" where
  "device_valid d \<longleftrightarrow> (\<forall>p \<in> {''idVendor'', ''idProduct'', ''bcdDevice''}. dev_props d p \<noteq> None)"

definition interface_valid :: "usb_interface \<Rightarrow> bool" where
  "interface_valid i \<longleftrightarrow> (\<forall>p \<in> set IF_PROPS. if_props i p \<noteq> None)"

text \<open>A field of a rule on the properties of a device or interface.\<close>

definition field_matches :: "props \<Rightarrow> props \<Rightarrow> string \<times> string \<Rightarrow> bool" where
  "field_matches key_map m kv =
     (case key_map (fst kv) of None \<Rightarrow> True | Some p \<Rightarrow> hex_equal (snd kv) (the (m p)))"

definition rule_matches :: "usb_device \<times> usb_interface \<Rightarrow> rule \<Rightarrow> bool" where
  "rule_matches di r \<longleftrightarrow>
     list_all (field_matches KEY_MAP_DEVICE (dev_props (fst di))) (r_fields r)
     \<and> list_all (field_matches KEY_MAP_INTERFACE (if_props (snd di))) (r_fields r)"

lemma match_fields_eq:
  assumes "\<forall>k p. key_map k = Some p \<longrightarrow> m p \<noteq> None"
  shows "match_fields key_map m fs = Inr (list_all (field_matches key_map m) fs)"
proof (induction fs)
  case (Cons f fs)
  obtain k v where f: "f = (k, v)" by fastforce
  show ?case
  proof (cases "key_map k")
    case None
    with Cons f show ?thesis by (simp add: field_matches_def)
  next
    case (Some p)
    then obtain w where "m p = Some w" using assms by blast
    with Some Cons f show ?thesis by (simp add: field_matches_def prop_of_def)
  qed
qed simp

lemma key_map_device: "KEY_MAP_DEVICE k = Some p \<Longrightarrow> p \<in> {''idVendor'', ''idProduct'', ''bcdDevice''}"
  unfolding KEY_MAP_DEVICE_def by (drule map_of_SomeD) auto

lemma key_map_interface: "KEY_MAP_INTERFACE k = Some p \<Longrightarrow> p \<in> set IF_PROPS"
  unfolding KEY_MAP_INTERFACE_def IF_PROPS_def by (drule map_of_SomeD) auto

interpretation usb_rules: rule_evaluation
  "\<lambda>di r. match_device_interface r (fst di) (snd di)" rule_matches
  "\<lambda>di. device_valid (fst di) \<and> interface_valid (snd di)"
proof
  fix di :: "usb_device \<times> usb_interface" and r :: rule
  assume v: "device_valid (fst di) \<and> interface_valid (snd di)"
  have "match_fields KEY_MAP_DEVICE (dev_props (fst di)) (r_fields r)
      = Inr (list_all (field_matches KEY_MAP_DEVICE (dev_props (fst di))) (r_fields r))"
    using v key_map_device unfolding device_valid_def by (intro match_fields_eq) blast
  moreover have "match_fields KEY_MAP_INTERFACE (if_props (snd di)) (r_fields r)
      = Inr (list_all (field_matches KEY_MAP_INTERFACE (if_props (snd di))) (r_fields r))"
    using v key_map_interface unfolding interface_valid_def by (intro match_fields_eq) blast
  ultimately show "match_device_interface r (fst di) (snd di) = Inr (rule_matches di r)"
    by (simp add: match_device_interface_def rule_matches_def)
qed

text \<open>The decision on one interface: the first matching rule.\<close>

definition interface_allowed :: "rule list \<Rightarrow> usb_device \<Rightarrow> usb_interface \<Rightarrow> bool" where
  "interface_allowed rules d i =
     (case find (rule_matches (d, i)) rules of None \<Rightarrow> False | Some r \<Rightarrow> r_allow r)"

lemma check_interfaces_eq:
  assumes "device_valid d" "list_all interface_valid is"
  shows "check_interfaces rules d is = Inr (list_all (interface_allowed rules d) is)"
  using assms(2)
proof (induction "is")
  case (Cons i "is")
  then have "check_interface rules d i = Inr (interface_allowed rules d i)"
    using usb_rules.first_match_find [of "(d, i)" r_allow rules] assms(1)
    by (simp add: check_interface_def interface_allowed_def)
  with Cons show ?case by simp
qed simp

lemma first_split:
  "(\<exists>pre r post. q # rs = pre @ r # post \<and> P r \<and> A r \<and> (\<forall>x \<in> set pre. \<not> P x)) \<longleftrightarrow>
     (if P q then A q else \<exists>pre r post. rs = pre @ r # post \<and> P r \<and> A r \<and> (\<forall>x \<in> set pre. \<not> P x))"
  (is "?L \<longleftrightarrow> ?R")
proof
  assume ?L
  then obtain pre r post where s: "q # rs = pre @ r # post" "P r" "A r" "\<forall>x \<in> set pre. \<not> P x" by blast
  show ?R
  proof (cases pre)
    case Nil
    with s show ?thesis by auto
  next
    case (Cons y ys)
    with s have "rs = ys @ r # post" "\<not> P q" "\<forall>x \<in> set ys. \<not> P x" by auto
    with s show ?thesis by auto
  qed
next
  assume R: ?R
  show ?L
  proof (cases "P q")
    case True
    then have "q # rs = [] @ q # rs" "P q" "A q" using R by auto
    then show ?thesis by fastforce
  next
    case False
    with R obtain pre r post where "rs = pre @ r # post" "P r" "A r" "\<forall>x \<in> set pre. \<not> P x" by auto
    with False have "q # rs = (q # pre) @ r # post" "P r" "A r" "\<forall>x \<in> set (q # pre). \<not> P x" by auto
    then show ?thesis by blast
  qed
qed

text \<open>
  C12: The policy check of a device whose properties were read is decided by
  the first matching rule of every interface: it never raises, and it allows
  the device if and only if for each of its interfaces there is a matching
  rule and the first one is an ALLOW. The order of the set of interfaces does
  not matter.
\<close>

theorem policy_check_first_match:
  assumes "device_valid d" "list_all interface_valid (dev_interfaces d)"
  shows "policy_check rules d = Inr (\<forall>i \<in> set (dev_interfaces d). \<exists>pre r post. rules = pre @ r # post
      \<and> rule_matches (d, i) r \<and> r_allow r \<and> (\<forall>q \<in> set pre. \<not> rule_matches (d, i) q))"
proof -
  have "interface_allowed rules d i \<longleftrightarrow> (\<exists>pre r post. rules = pre @ r # post
      \<and> rule_matches (d, i) r \<and> r_allow r \<and> (\<forall>q \<in> set pre. \<not> rule_matches (d, i) q))" for i
    by (induction rules) (simp add: interface_allowed_def,
        simp only: first_split, simp add: interface_allowed_def)
  with check_interfaces_eq [OF assms] show ?thesis
    by (simp add: policy_check_def get_all_interfaces_def list_all_iff)
qed

definition example_device :: usb_device where
  "example_device = \<lparr>dev_node = ''1-2'',
     dev_props = [''idVendor'' \<mapsto> ''056A'', ''idProduct'' \<mapsto> ''0315'', ''bcdDevice'' \<mapsto> ''0100''],
     dev_interfaces = [\<lparr>if_node = ''1-2:1.0'', if_props = [''bInterfaceNumber'' \<mapsto> ''00'',
       ''bInterfaceClass'' \<mapsto> ''03'', ''bInterfaceSubClass'' \<mapsto> ''01'', ''bInterfaceProtocol'' \<mapsto> ''01'']\<rparr>]\<rparr>"

theorem policy_check_first_match_witness:
  "policy_check [\<lparr>r_allow = True, r_fields = [(''vid'', ''056a'')]\<rparr>, \<lparr>r_allow = False, r_fields = []\<rparr>]
     example_device = Inr True"
proof -
  let ?r = "\<lparr>r_allow = True, r_fields = [(''vid'', ''056a'')]\<rparr>"
  let ?i = "hd (dev_interfaces example_device)"
  have h: "hex_equal ''056a'' ''056A''" by code_simp
  have "rule_matches (example_device, ?i) ?r"
    by (simp add: rule_matches_def field_matches_def KEY_MAP_DEVICE_def KEY_MAP_INTERFACE_def
        example_device_def h)
  then have "\<exists>pre r post. [?r, \<lparr>r_allow = False, r_fields = []\<rparr>] = pre @ r # post
      \<and> rule_matches (example_device, ?i) r \<and> r_allow r
      \<and> (\<forall>q \<in> set pre. \<not> rule_matches (example_device, ?i) q)"
    by (intro exI [of _ "[]"] exI [of _ ?r] exI [of _ "[\<lparr>r_allow = False, r_fields = []\<rparr>]"]) simp
  then have all: "\<forall>i \<in> set (dev_interfaces example_device). \<exists>pre r post.
      [?r, \<lparr>r_allow = False, r_fields = []\<rparr>] = pre @ r # post
      \<and> rule_matches (example_device, i) r \<and> r_allow r
      \<and> (\<forall>q \<in> set pre. \<not> rule_matches (example_device, i) q)"
    by (simp add: example_device_def)
  have "device_valid example_device" "list_all interface_valid (dev_interfaces example_device)"
    by (simp_all add: device_valid_def interface_valid_def example_device_def IF_PROPS_def)
  then show ?thesis
    by (subst policy_check_first_match) (assumption+, rule arg_cong [of _ True Inr, OF eqTrueI [OF all]])
qed

section \<open>Devices and their interfaces\<close>

text \<open>The device object made of what udev knows, and the interfaces that belong to it.\<close>

definition device_of :: "udev \<Rightarrow> usb_device" where
  "device_of u = (case u of (sys_name, ps, attrs) \<Rightarrow> new_device sys_name ps attrs)"

definition is_child :: "usb_device \<Rightarrow> usb_interface \<Rightarrow> bool" where
  "is_child d i = child_pattern (dev_node d) (the (dev_props d ''bConfigurationValue'')) (if_node i)"

lemma all_ints_true: "all_ints base m ps = Inr True \<longleftrightarrow>
    (\<forall>p \<in> set ps. \<exists>v. m p = Some v \<and> validate_int base v)"
  by (induction ps) (auto simp: prop_of_def sbind_Inr_iff split: option.splits)

lemma device_initialized_iff: "device_is_initialized d = Inr True \<longleftrightarrow>
    all_ints 16 (dev_props d) [''idVendor'', ''idProduct'', ''bcdDevice''] = Inr True
    \<and> all_ints 10 (dev_props d) [''bConfigurationValue'', ''bNumInterfaces''] = Inr True
    \<and> dev_node d \<noteq> []"
  by (auto simp: device_is_initialized_def sbind_Inr_iff simp del: all_ints.simps split: if_splits)

lemma device_initialized_valid:
  assumes "device_is_initialized d = Inr True"
  shows "device_valid d" "dev_props d ''bConfigurationValue'' \<noteq> None" "dev_props d ''bNumInterfaces'' \<noteq> None"
  using assms unfolding device_initialized_iff all_ints_true device_valid_def by auto

lemma device_of_interfaces [simp]: "dev_interfaces (device_of u) = []"
  by (cases u) (simp add: device_of_def new_device_def)

lemma scan_devices_eq:
  assumes "scan_devices us = Inr ds"
  shows "ds = filter (\<lambda>d. device_is_initialized d = Inr True \<and> \<not> device_is_class_hub d) (map device_of us)"
  using assms
proof (induction us arbitrary: ds)
  case (Cons u us)
  obtain n ps at where u: "u = (n, ps, at)" by (cases u)
  from Cons.prems obtain b rest where b: "device_is_initialized (device_of u) = Inr b"
    and r: "scan_devices us = Inr rest"
    and ds: "ds = (if b \<and> \<not> device_is_class_hub (device_of u) then device_of u # rest else rest)"
    by (auto simp: u device_of_def Let_def sbind_Inr_iff)
  show ?case using Cons.IH [OF r] b ds by simp
qed simp

lemma child_of_initialized:
  assumes "device_is_initialized d = Inr True"
  shows "interface_is_child_of i d = Inr (is_child d i)"
  using assms device_initialized_valid(2) [OF assms]
  by (auto simp: interface_is_child_of_def is_child_def prop_of_def)

definition attach1 :: "usb_interface \<Rightarrow> usb_device \<Rightarrow> usb_device" where
  "attach1 i d = (if is_child d i then add_interface i d else d)"

lemma device_initialized_cong:
  "dev_props d = dev_props d' \<Longrightarrow> dev_node d = dev_node d' \<Longrightarrow> device_is_initialized d = device_is_initialized d'"
  by (simp only: device_is_initialized_def)

lemma add_interface_same [simp]:
  "dev_props (add_interface i d) = dev_props d" "dev_node (add_interface i d) = dev_node d"
  "device_is_initialized (add_interface i d) = device_is_initialized d" "is_child (add_interface i d) = is_child d"
  by (simp_all add: add_interface_def is_child_def fun_eq_iff device_initialized_cong)

lemma attach1_same [simp]:
  "dev_props (attach1 i d) = dev_props d" "dev_node (attach1 i d) = dev_node d"
  "device_is_initialized (attach1 i d) = device_is_initialized d" "is_child (attach1 i d) = is_child d"
  by (simp_all add: attach1_def)

lemma attach_interface_eq:
  assumes "\<forall>d \<in> set ds. device_is_initialized d = Inr True"
  shows "attach_interface i ds = Inr (map (attach1 i) ds)"
  using assms by (induction ds) (auto simp: child_of_initialized attach1_def)

lemma sfold_attach_eq:
  assumes "\<forall>d \<in> set ds. device_is_initialized d = Inr True"
  shows "sfold attach_interface is ds = Inr (map (fold attach1 is) ds)"
  using assms by (induction "is" arbitrary: ds) (simp_all add: attach_interface_eq)

lemma fold_attach1_same [simp]:
  "dev_props (fold attach1 is d) = dev_props d" "dev_node (fold attach1 is d) = dev_node d"
  "device_is_initialized (fold attach1 is d) = device_is_initialized d"
  "is_child (fold attach1 is d) = is_child d"
  by (induction "is" arbitrary: d) simp_all

lemma fold_attach1_interfaces:
  assumes "distinct (map if_node is)" "if_node ` set is \<inter> if_node ` set (dev_interfaces d) = {}"
  shows "dev_interfaces (fold attach1 is d) = rev (filter (is_child d) is) @ dev_interfaces d"
  using assms
proof (induction "is" arbitrary: d)
  case (Cons i "is")
  have k: "filter (\<lambda>j. if_node j \<noteq> if_node i) (dev_interfaces d) = dev_interfaces d"
    using Cons.prems by (auto simp: filter_id_conv image_iff)
  then have a: "dev_interfaces (attach1 i d) = (if is_child d i then [i] else []) @ dev_interfaces d"
    by (simp add: attach1_def add_interface_def)
  have "if_node ` set is \<inter> if_node ` set (dev_interfaces (attach1 i d)) = {}"
    using Cons.prems unfolding a by (auto simp: image_iff)
  with Cons a show ?case by simp
qed simp

section \<open>What the scan reports\<close>

lemma to_pusb_cong: "dev_props d = dev_props d' \<Longrightarrow> dev_node d = dev_node d' \<Longrightarrow> to_pusb d = to_pusb d'"
  by (simp add: to_pusb_def)

lemma interface_allowed_cong: "dev_props d = dev_props d' \<Longrightarrow> interface_allowed rules d = interface_allowed rules d'"
proof -
  assume "dev_props d = dev_props d'"
  then have "rule_matches (d, i) = rule_matches (d', i)" for i
    by (intro ext) (simp only: rule_matches_def fst_conv snd_conv)
  then show ?thesis by (intro ext) (simp only: interface_allowed_def)
qed

definition complete_device :: "usb_device \<Rightarrow> bool" where
  "complete_device d \<longleftrightarrow> dev_interfaces d \<noteq> []
     \<and> py_int 10 (the (dev_props d ''bNumInterfaces'')) = Some (int (length (dev_interfaces d)))"

lemma is_ready_eq:
  assumes "device_is_initialized d = Inr True"
  shows "is_ready d = Inr (complete_device d)"
proof -
  from assms obtain v n where "dev_props d ''bNumInterfaces'' = Some v" "py_int 10 v = Some n"
    by (auto simp: device_initialized_iff all_ints_true validate_int_def simp del: all_ints.simps)
  then show ?thesis by (auto simp: is_ready_def complete_device_def prop_of_def)
qed

lemma select_pusbs_eq:
  assumes "select_pusbs rules ds = Inr ps"
    "\<forall>d \<in> set ds. device_is_initialized d = Inr True \<and> list_all interface_valid (dev_interfaces d)"
  shows "set ps = {p. \<exists>d \<in> set ds. complete_device d
      \<and> list_all (interface_allowed rules d) (dev_interfaces d) \<and> to_pusb d = Inr p}"
  using assms
proof (induction ds arbitrary: ps)
  case (Cons d ds)
  let ?ok = "complete_device d \<and> list_all (interface_allowed rules d) (dev_interfaces d)"
  have "device_is_initialized d = Inr True" "list_all interface_valid (dev_interfaces d)"
    using Cons.prems(2) by auto
  then have c: "sbind (is_ready d) (\<lambda>b. if b then policy_check rules d else Inr False) = Inr ?ok"
    using check_interfaces_eq [OF device_initialized_valid(1)]
    by (simp add: is_ready_eq policy_check_def get_all_interfaces_def)
  show ?case
  proof (cases ?ok)
    case True
    then obtain p qs where "to_pusb d = Inr p" "select_pusbs rules ds = Inr qs" "ps = p # qs"
      using Cons.prems(1) c by (auto simp: sbind_Inr_iff)
    with Cons.IH [of qs] Cons.prems(2) True show ?thesis by auto
  next
    case False
    have "(if ?ok then sbind (to_pusb d) (\<lambda>p. sbind (select_pusbs rules ds) (\<lambda>ps. Inr (p # ps)))
        else select_pusbs rules ds) = Inr ps"
      using Cons.prems(1) by (simp only: select_pusbs.simps c sbind_simps)
    then have "select_pusbs rules ds = Inr ps" by (simp only: False if_False)
    with Cons.IH [of ps] Cons.prems(2) False show ?thesis by auto
  qed
qed simp

lemma scan_interfaces_valid: "i \<in> set (scan_interfaces us) \<Longrightarrow> interface_valid i"
  by (auto simp: scan_interfaces_def interface_is_initialized_def interface_valid_def list_all_iff
      split: option.splits)

lemma scan_interfaces_distinct:
  assumes "distinct (map fst us)"
  shows "distinct (map if_node (scan_interfaces us))"
proof -
  have "map if_node (map (\<lambda>(n, ps, at). new_interface n at) us) = map fst us"
    by (auto simp: new_interface_def)
  then show ?thesis
    using assms unfolding scan_interfaces_def by (intro distinct_map_filter) (simp only: )
qed

text \<open>
  C3: A scan that succeeds reports exactly the devices that may be passed
  through: those udev knows whose attributes are numbers, which are not hubs,
  which have as many interfaces (that are not hubs themselves and whose name
  is that of the device in its active configuration) as they announce, at
  least one, and every one of whose interfaces is allowed by the first rule of
  the policy that matches it. sysfs names are assumed to be unique.
\<close>

theorem scan_reports_exactly_allowed:
  assumes "usb_scan_main policy_file usb_devices usb_interfaces = Inr ps"
    "new_policy policy_file = Inr rules" "distinct (map fst usb_interfaces)"
  shows "set ps = {p. \<exists>u \<in> set usb_devices. \<exists>is.
      is = filter (is_child (device_of u)) (scan_interfaces usb_interfaces)
      \<and> device_is_initialized (device_of u) = Inr True \<and> \<not> device_is_class_hub (device_of u)
      \<and> is \<noteq> [] \<and> py_int 10 (the (dev_props (device_of u) ''bNumInterfaces'')) = Some (int (length is))
      \<and> (\<forall>i \<in> set is. interface_allowed rules (device_of u) i)
      \<and> to_pusb (device_of u) = Inr p}"
proof -
  let ?is = "scan_interfaces usb_interfaces"
  from assms(1) obtain ds where sc: "scan_devices usb_devices = Inr ds"
    and mk: "make_pusbs_list policy_file ds ?is = Inr ps"
    by (auto simp: usb_scan_main_def get_usb_info_def split: sum.splits prod.splits)
      (auto simp: sbind_def split: sum.splits)
  note ds = scan_devices_eq [OF sc]
  have init: "\<forall>d \<in> set ds. device_is_initialized d = Inr True" unfolding ds by simp
  have sel: "select_pusbs rules (map (fold attach1 ?is) ds) = Inr ps"
    using mk assms(2) sfold_attach_eq [OF init] by (simp add: make_pusbs_list_def)
  have att: "dev_interfaces (fold attach1 ?is d) = rev (filter (is_child d) ?is)"
    if "d \<in> set ds" for d
  proof -
    have "dev_interfaces d = []" using that unfolding ds by auto
    with fold_attach1_interfaces [OF scan_interfaces_distinct [OF assms(3)]] show ?thesis by simp
  qed
  have inits: "\<forall>d \<in> set (map (fold attach1 ?is) ds).
      device_is_initialized d = Inr True \<and> list_all interface_valid (dev_interfaces d)"
    using init att by (auto simp: list_all_iff intro: scan_interfaces_valid)
  have same: "interface_allowed rules (fold attach1 ?is d) = interface_allowed rules d"
    "to_pusb (fold attach1 ?is d) = to_pusb d" for d
    by (rule interface_allowed_cong, simp) (rule to_pusb_cong, simp_all)
  from select_pusbs_eq [OF sel inits] have "set ps = {p. \<exists>d \<in> set ds.
      filter (is_child d) ?is \<noteq> []
      \<and> py_int 10 (the (dev_props d ''bNumInterfaces'')) = Some (int (length (filter (is_child d) ?is)))
      \<and> (\<forall>i \<in> set (filter (is_child d) ?is). interface_allowed rules d i) \<and> to_pusb d = Inr p}"
    by (simp add: complete_device_def list_all_iff same att cong: conj_cong bex_cong)
  also have "\<dots> = {p. \<exists>u \<in> set usb_devices. \<exists>is. is = filter (is_child (device_of u)) ?is
      \<and> device_is_initialized (device_of u) = Inr True \<and> \<not> device_is_class_hub (device_of u)
      \<and> is \<noteq> [] \<and> py_int 10 (the (dev_props (device_of u) ''bNumInterfaces'')) = Some (int (length is))
      \<and> (\<forall>i \<in> set is. interface_allowed rules (device_of u) i)
      \<and> to_pusb (device_of u) = Inr p}"
    unfolding ds by auto
  finally show ?thesis .
qed

definition example_udev :: "udev list" where
  "example_udev = [(''1-2'', map_of [(''ID_VENDOR_FROM_DATABASE'', ''Wacom'')],
     map_of [(''version'', '' 2.00''), (''idVendor'', ''056a''), (''idProduct'', ''0315''),
       (''bcdDevice'', ''0100''), (''bDeviceClass'', ''00''), (''bConfigurationValue'', ''1''),
       (''bNumInterfaces'', '' 1''), (''speed'', ''12'')])]"

definition example_udev_interfaces :: "udev list" where
  "example_udev_interfaces = [(''1-2:1.0'', Map.empty,
     map_of [(''bInterfaceNumber'', ''00''), (''bInterfaceClass'', ''03''),
       (''bInterfaceSubClass'', ''01''), (''bInterfaceProtocol'', ''02'')])]"

definition example_pusb :: pusb where
  "example_pusb = \<lparr>pu_path = ''1-2'', pu_version = ''2.00'', pu_vendor_id = ''056a'',
     pu_product_id = ''0315'', pu_vendor_desc = ''Wacom'', pu_product_desc = [], pu_speed = ''12'',
     pu_serial = [], pu_description = ''Wacom''\<rparr>"

theorem scan_reports_exactly_allowed_witness:
  "set [example_pusb] = {p. \<exists>u \<in> set example_udev. \<exists>is.
      is = filter (is_child (device_of u)) (scan_interfaces example_udev_interfaces)
      \<and> device_is_initialized (device_of u) = Inr True \<and> \<not> device_is_class_hub (device_of u)
      \<and> is \<noteq> [] \<and> py_int 10 (the (dev_props (device_of u) ''bNumInterfaces'')) = Some (int (length is))
      \<and> (\<forall>i \<in> set is. interface_allowed [\<lparr>r_allow = True, r_fields = [(''vid'', ''056a'')]\<rparr>] (device_of u) i)
      \<and> to_pusb (device_of u) = Inr p}"
proof (rule scan_reports_exactly_allowed)
  show "usb_scan_main (Some [''ALLOW: vid = 056A # tablets'']) example_udev example_udev_interfaces
      = Inr [example_pusb]"
    by code_simp
  show "new_policy (Some [''ALLOW: vid = 056A # tablets''])
      = Inr [\<lparr>r_allow = True, r_fields = [(''vid'', ''056a'')]\<rparr>]"
    by code_simp
  show "distinct (map fst example_udev_interfaces)" by (simp add: example_udev_interfaces_def)
qed

end
