(* ===== verification/Usb_Policy.thy ===== *)
theory Usb_Policy
  imports Usb_Scan
begin

text \<open>
  Reading the policy file of the USB scanner: the rules it can yield, the
  round trip of a printed rule, and the lines that abort the scan.
\<close>

section \<open>Rules that a line can denote\<close>

definition wf_field :: "string \<times> string \<Rightarrow> bool" where
  "wf_field kv \<longleftrightarrow> fst kv \<in> set pattern_keys \<and> check_hex_length (fst kv) (snd kv)
     \<and> list_all is_hex (snd kv) \<and> py_lower (snd kv) = snd kv"

definition wf_rule :: "rule \<Rightarrow> bool" where
  "wf_rule r \<longleftrightarrow> distinct (map fst (r_fields r)) \<and> list_all wf_field (r_fields r)"

text \<open>A rule in the syntax of the file.\<close>

definition show_fields :: "(string \<times> string) list \<Rightarrow> string" where
  "show_fields fs = concat (map (\<lambda>(k, v). '' '' @ k @ ''='' @ v) fs)"

definition show_rule :: "rule \<Rightarrow> string" where
  "show_rule r = (if r_allow r then ''ALLOW:'' else ''DENY:'') @ show_fields (r_fields r)"

section \<open>Matching a printed field\<close>

lemma show_fields_simps [simp]:
  "show_fields [] = []" "show_fields ((k, v) # fs) = CHR '' '' # k @ CHR ''='' # v @ show_fields fs"
  by (simp_all add: show_fields_def)

lemma is_hex_not_space: "is_hex c \<Longrightarrow> \<not> str_space c"
  by (auto simp: is_hex_def py_digit_def str_space_def Let_def split: if_splits)

lemma lstrip_hex: "list_all is_hex v \<Longrightarrow> v \<noteq> [] \<Longrightarrow> py_lstrip (v @ s) = v @ s"
  by (cases v) (auto simp: py_lstrip_def dest: is_hex_not_space)

lemma lower_eval: "py_lower [] = []" "py_lower (c # s) = py_lower_char c # py_lower s"
  by (simp_all add: py_lower_def)

lemma pattern_keyE:
  assumes "k \<in> set pattern_keys"
  obtains "k = ''class''" | "k = ''subclass''" | "k = ''prot''" | "k = ''vid''" | "k = ''pid''" | "k = ''rel''"
  using assms by (auto simp: pattern_keys_def)

lemma match_key_printed:
  assumes "k \<in> set pattern_keys"
  shows "match_key (k @ CHR ''='' # s) = Some (k, CHR ''='' # s)"
  using assms
  by (elim pattern_keyE; hypsubst; simp add: match_key_def pattern_keys_def lower_eval; simp add: py_lower_char_def)

lemma lstrip_key:
  assumes "k \<in> set pattern_keys"
  shows "py_lstrip (CHR '' '' # k @ s) = k @ s" "py_lstrip (k @ s) = k @ s"
  using assms by (elim pattern_keyE; hypsubst; simp add: py_lstrip_def str_space_def)+

lemma hex_then_rest:
  assumes "list_all is_hex v" "s = [] \<or> \<not> is_hex (hd s)"
  shows "takeWhile is_hex (v @ s) = v" "dropWhile is_hex (v @ s) = s"
  using assms by (induction v) (cases s; simp)+

lemma check_hex_length_Nil: "\<not> check_hex_length k []"
  by (simp add: check_hex_length_def)

lemma wf_fieldD:
  assumes "wf_field (k, v)"
  shows "k \<in> set pattern_keys" "list_all is_hex v" "v \<noteq> []" "check_hex_length k v" "py_lower v = v"
  using assms check_hex_length_Nil [of k] unfolding wf_field_def fst_conv snd_conv by metis+

lemma match_pair_printed:
  assumes "wf_field (k, v)"
  shows "match_pair (CHR '' '' # k @ CHR ''='' # v @ show_fields fs) = Some ((k, v), show_fields fs)"
    "match_pair (k @ CHR ''='' # v @ show_fields fs) = Some ((k, v), show_fields fs)"
proof -
  note k = wf_fieldD(1) [OF assms] and v = wf_fieldD(2) [OF assms] and ne = wf_fieldD(3) [OF assms]
  have "\<not> is_hex (CHR '' '')" by (simp add: is_hex_def py_digit_def)
  then have "show_fields fs = [] \<or> \<not> is_hex (hd (show_fields fs))"
    by (cases fs) (auto simp del: show_fields_simps(2) simp: show_fields_def)
  note rest = hex_then_rest [OF v this] lstrip_hex [OF v ne]
  have "py_lstrip (CHR ''='' # s) = CHR ''='' # s" for s by (simp add: py_lstrip_def str_space_def)
  then show "match_pair (CHR '' '' # k @ CHR ''='' # v @ show_fields fs) = Some ((k, v), show_fields fs)"
    "match_pair (k @ CHR ''='' # v @ show_fields fs) = Some ((k, v), show_fields fs)"
    using match_key_printed [OF k] lstrip_key [OF k] rest ne by (simp_all add: match_pair_def)
qed

lemma match_pair_Nil: "match_pair [] = None"
  by (simp add: match_pair_def match_key_def pattern_keys_def py_lstrip_def py_lower_def)

fun matches_of :: "(string \<times> string) list \<Rightarrow> (nat \<times> (string \<times> string) \<times> nat) list" where
  "matches_of [] = []"
| "matches_of (f # fs) = (0, f, length (show_fields fs)) # matches_of fs"

lemma finditer_printed: "list_all wf_field fs \<Longrightarrow> finditer 0 (show_fields fs) = matches_of fs"
proof (induction fs)
  case Nil
  then show ?case by (simp add: finditer.simps match_pair_Nil)
next
  case (Cons f fs)
  obtain k v where f: "f = (k, v)" by fastforce
  with Cons match_pair_printed(1) [of k v fs] show ?case by (subst finditer.simps) simp
qed

lemma finditer_stripped: "list_all wf_field fs \<Longrightarrow> finditer 0 (drop 1 (show_fields fs)) = matches_of fs"
proof (cases fs)
  case Nil
  then show ?thesis by (simp add: finditer.simps match_pair_Nil)
next
  case (Cons f gs)
  assume "list_all wf_field fs"
  obtain k v where f: "f = (k, v)" by fastforce
  with Cons \<open>list_all wf_field fs\<close> match_pair_printed(2) [of k v gs] finditer_printed [of gs]
  show ?thesis by (simp, subst finditer.simps) simp
qed

lemma lower_key: "k \<in> set pattern_keys \<Longrightarrow> py_lower k = k"
  by (elim pattern_keyE; hypsubst; simp add: lower_eval; simp add: py_lower_char_def)

lemma parse_pairs_printed:
  assumes "list_all wf_field fs" "distinct (map fst (r_fields r @ fs))"
  shows "parse_pairs (matches_of fs) (length (show_fields fs)) r = Inr (r\<lparr>r_fields := r_fields r @ fs\<rparr>)"
  using assms
proof (induction fs arbitrary: r)
  case (Cons f fs)
  obtain k v where f: "f = (k, v)" by fastforce
  with Cons.prems have "py_lower k = k" "py_lower v = v" "check_hex_length k v" "k \<notin> fst ` set (r_fields r)"
    using wf_fieldD [of k v] lower_key by simp_all
  with Cons f show ?case by simp
qed simp

lemma parse_pairs_left: "parse_pairs (matches_of (f # fs)) n r = parse_pairs (matches_of (f # fs)) m r"
  by (cases f) simp

section \<open>Printed rules are read back\<close>

lemma key_plain: "k \<in> set pattern_keys \<Longrightarrow> CHR ''#'' \<notin> set k \<and> CHR '':'' \<notin> set k"
  by (elim pattern_keyE; hypsubst; simp)

lemma hex_plain:
  assumes "list_all is_hex v"
  shows "CHR ''#'' \<notin> set v" "CHR '':'' \<notin> set v"
proof -
  have "\<not> is_hex (CHR ''#'')" "\<not> is_hex (CHR '':'')" by (simp_all add: is_hex_def py_digit_def)
  with assms show "CHR ''#'' \<notin> set v" "CHR '':'' \<notin> set v" by (auto simp: list_all_iff)
qed

lemma show_fields_plain:
  assumes "list_all wf_field fs"
  shows "CHR ''#'' \<notin> set (show_fields fs) \<and> CHR '':'' \<notin> set (show_fields fs)"
  using assms
proof (induction fs)
  case (Cons f fs)
  obtain k v where f: "f = (k, v)" by fastforce
  with Cons.prems have "wf_field (k, v)" by simp
  note w = wf_fieldD [OF this]
  with Cons f key_plain [OF w(1)] hex_plain [OF w(2)] show ?case by simp
qed simp

lemma last_show_fields: "list_all wf_field fs \<Longrightarrow> fs \<noteq> [] \<Longrightarrow> is_hex (last (show_fields fs))"
proof (induction fs)
  case (Cons f fs)
  obtain k v where f: "f = (k, v)" by fastforce
  with Cons.prems have "wf_field (k, v)" by simp
  note w = wf_fieldD [OF this]
  show ?case
  proof (cases "fs = []")
    case True
    with w(2,3) f show ?thesis by (simp add: list_all_iff)
  next
    case False
    then have "show_fields fs \<noteq> []" by (cases fs) auto
    with False Cons f show ?thesis by simp
  qed
qed simp

lemma strip_show_fields:
  assumes "list_all wf_field fs"
  shows "py_strip (show_fields fs) = drop 1 (show_fields fs)"
proof (cases fs)
  case Nil
  then show ?thesis by (simp add: py_strip_def py_lstrip_def py_rstrip_def)
next
  case (Cons f gs)
  obtain k v where f: "f = (k, v)" by fastforce
  with assms Cons have "wf_field (k, v)" by simp
  note w = wf_fieldD [OF this]
  let ?t = "k @ CHR ''='' # v @ show_fields gs"
  have l: "py_lstrip (show_fields fs) = ?t" using lstrip_key(1) [OF w(1)] Cons f by simp
  have "last ?t = last (show_fields fs)" using Cons f by simp
  then have "\<not> str_space (last ?t)"
    using last_show_fields [OF assms] Cons is_hex_not_space by simp
  then have "dropWhile str_space (rev ?t) = rev ?t"
    by (cases ?t rule: rev_cases) auto
  then show ?thesis using l Cons f by (simp add: py_strip_def py_rstrip_def)
qed

lemma lower_actions: "py_lower ''ALLOW'' = ''allow''" "py_lower ''DENY'' = ''deny''"
  by code_simp+

lemma parse_rule_printed:
  assumes "wf_rule r"
  shows "parse_rule (show_rule r) = Inr r"
proof -
  let ?fs = "r_fields r" and ?a = "if r_allow r then ''ALLOW'' else ''DENY''"
  have fs: "list_all wf_field ?fs" "distinct (map fst ?fs)" using assms by (simp_all add: wf_rule_def)
  have sr: "show_rule r = ?a @ CHR '':'' # show_fields ?fs" by (simp add: show_rule_def)
  have "py_split (CHR '':'') (show_rule r) = [?a, show_fields ?fs]"
    unfolding sr by (subst py_split_append) (simp_all add: py_split_none show_fields_plain [OF fs(1)])
  moreover have "py_strip ?a = ?a" by (intro py_strip_inner) (simp_all add: str_space_def)
  moreover have "py_lower ?a = (if r_allow r then ''allow'' else ''deny'')"
    by (simp add: lower_actions)
  moreover have "parse_pairs (matches_of ?fs) (length (drop 1 (show_fields ?fs))) \<lparr>r_allow = r_allow r, r_fields = []\<rparr>
      = Inr r"
  proof -
    have "parse_pairs (matches_of ?fs) (length (drop 1 (show_fields ?fs))) \<lparr>r_allow = r_allow r, r_fields = []\<rparr>
        = parse_pairs (matches_of ?fs) (length (show_fields ?fs)) \<lparr>r_allow = r_allow r, r_fields = []\<rparr>"
      by (cases ?fs) (simp, simp only: parse_pairs_left)
    also have "\<dots> = Inr r" using parse_pairs_printed [OF fs(1), of "\<lparr>r_allow = r_allow r, r_fields = []\<rparr>"] fs(2)
      by simp
    finally show ?thesis .
  qed
  ultimately show ?thesis
    using strip_show_fields [OF fs(1)] finditer_stripped [OF fs(1)]
    by (cases "r_allow r") (simp_all add: parse_rule_def)
qed

lemma parse_line_printed:
  assumes "wf_rule r" "comment = [] \<or> hd comment = CHR ''#''"
  shows "parse_line (show_rule r @ comment) rule_list = Inr (rule_list @ [r])"
proof -
  let ?s = "show_rule r"
  have plain: "CHR ''#'' \<notin> set ?s"
    using show_fields_plain assms(1) by (simp add: show_rule_def wf_rule_def)
  have ne: "?s \<noteq> []" "hd ?s = CHR ''A'' \<or> hd ?s = CHR ''D''" by (auto simp: show_rule_def)
  then have "\<not> str_space (hd ?s)" by (auto simp: str_space_def)
  then have "py_strip (?s @ comment) \<noteq> []"
    using ne by (cases ?s) (auto simp: py_strip_def py_lstrip_def py_rstrip_def)
  moreover have "py_find (CHR ''#'') (?s @ comment) = (if comment = [] then None else Some (length ?s))"
    using plain assms(2) by (cases comment) (auto simp: py_find_None py_find_Some nth_append)
  moreover obtain n where "length ?s = Suc n" using ne by (cases ?s) auto
  ultimately show ?thesis
    using parse_rule_printed [OF assms(1)] by (auto simp: parse_line_def)
qed

text \<open>
  The policy file reads a rule as it is written. A rule with distinct
  keys and lower-case hexadecimal values of the length its keys ask for,
  printed in the syntax of the file and followed by nothing or by a comment,
  is appended unchanged to the rules read so far.
\<close>

theorem parse_printed_rule:
  assumes "wf_rule r" "comment = [] \<or> hd comment = CHR ''#''"
  shows "parse_line (show_rule r @ comment) rule_list = Inr (rule_list @ [r])"
  using assms by (rule parse_line_printed)

theorem parse_printed_rule_witness:
  "parse_line ''ALLOW: vid=056a class=03# tablet'' []
     = Inr [\<lparr>r_allow = True, r_fields = [(''vid'', ''056a''), (''class'', ''03'')]\<rparr>]"
proof -
  let ?r = "\<lparr>r_allow = True, r_fields = [(''vid'', ''056a''), (''class'', ''03'')]\<rparr>"
  have "wf_rule ?r" by code_simp
  from parse_printed_rule [OF this, of "''# tablet''" "[]"] show ?thesis
    by (simp add: show_rule_def)
qed

section \<open>Whatever the file holds\<close>

lemma match_pair_groups:
  assumes "match_pair s = Some ((name, value), rest)"
  shows "py_lower name \<in> set pattern_keys" "value \<noteq> []" "list_all is_hex value"
proof -
  from assms have k: "\<exists>s1. match_key (py_lstrip s) = Some (name, s1)" and
    v: "value \<noteq> []" "\<exists>t. value = takeWhile is_hex t"
    by (auto simp: match_pair_def Let_def split: option.splits prod.splits list.splits if_splits)
  from k show "py_lower name \<in> set pattern_keys"
    by (auto simp: match_key_def find_Some_iff)
  from v show "value \<noteq> []" "list_all is_hex value" by (auto simp: list_all_iff dest: set_takeWhileD)
qed

lemma finditer_groups:
  "(k, (name, value), left) \<in> set (finditer skipped s) \<Longrightarrow>
     py_lower name \<in> set pattern_keys \<and> list_all is_hex value"
proof (induction skipped s rule: finditer.induct)
  case (1 skipped s)
  show ?case
  proof (cases "match_pair s")
    case None
    then show ?thesis using 1 by (subst (asm) (2) finditer.simps) (auto split: list.splits)
  next
    case (Some p)
    obtain n v rest where p: "p = ((n, v), rest)" by (metis surj_pair)
    have "finditer skipped s = (skipped, (n, v), length rest) # finditer 0 rest"
      using Some p by (subst finditer.simps) simp
    with 1 Some p match_pair_groups [of s n v rest] show ?thesis by auto
  qed
qed

lemma lower_hex: "is_hex c \<Longrightarrow> is_hex (py_lower_char c)"
  by (auto simp: is_hex_def py_digit_def py_lower_char_def Let_def split: if_splits)

lemma lower_idem: "py_lower_char (py_lower_char c) = py_lower_char c"
  by (simp add: py_lower_char_def Let_def)

lemma parse_pairs_wf:
  assumes "parse_pairs ms left r = Inr r'" "wf_rule r"
    "\<forall>(k, (name, value), l) \<in> set ms. py_lower name \<in> set pattern_keys \<and> list_all is_hex value"
  shows "wf_rule r'"
  using assms
proof (induction ms left r rule: parse_pairs.induct)
  case (2 skipped g1 g2 left' ms left r)
  let ?r = "r\<lparr>r_fields := r_fields r @ [(py_lower g1, py_lower g2)]\<rparr>"
  from 2(2) have c: "check_hex_length (py_lower g1) (py_lower g2)" "py_lower g1 \<notin> fst ` set (r_fields r)"
    and p: "parse_pairs ms left' ?r = Inr r'" and "skipped = 0"
    by (auto simp: Let_def split: if_splits)
  have "list_all is_hex (py_lower g2)" "py_lower (py_lower g2) = py_lower g2"
    using 2(4) by (auto simp: py_lower_def list_all_iff lower_hex lower_idem)
  then have "wf_field (py_lower g1, py_lower g2)" using 2(4) c by (simp add: wf_field_def)
  then have "wf_rule ?r" using 2(3) c by (simp add: wf_rule_def)
  with 2(1) p c \<open>skipped = 0\<close> 2(4) show ?case by simp
qed (auto split: if_splits)

lemma parse_rule_wf:
  assumes "parse_rule line = Inr r"
  shows "wf_rule r"
proof -
  from assms obtain target allow where "parse_pairs (finditer 0 target) (length target)
      \<lparr>r_allow = allow, r_fields = []\<rparr> = Inr r"
    by (auto simp: parse_rule_def sbind_Inr_iff split: list.splits if_splits)
  then show ?thesis by (rule parse_pairs_wf) (auto simp: wf_rule_def dest: finditer_groups)
qed

lemma parse_line_wf:
  assumes "parse_line line rules = Inr rules'" "list_all wf_rule rules"
  shows "list_all wf_rule rules'"
  using assms
  by (auto simp: parse_line_def sbind_Inr_iff dest: parse_rule_wf split: if_splits option.splits nat.splits)

lemma parse_lines_wf:
  "list_all wf_rule rs \<Longrightarrow> sfold parse_line ls rs = Inr rules \<Longrightarrow> list_all wf_rule rules"
  by (induction ls arbitrary: rs) (auto simp: sbind_Inr_iff dest: parse_line_wf)

text \<open>
  C39: Whatever the policy file holds, when it is accepted every rule has
  distinct keys out of the six, each with a lower-case hexadecimal value of
  the right length, so that every rule printed is read back as it is.
\<close>

theorem accepted_policy_wf:
  assumes "new_policy (Some file) = Inr rules"
  shows "list_all wf_rule rules \<and> new_policy (Some (map show_rule rules)) = Inr rules"
proof -
  have wf: "list_all wf_rule rules"
    using assms parse_lines_wf [of "[]"] by (simp add: new_policy_def)
  have "parse_line (show_rule r) acc = Inr (acc @ [r])" if "wf_rule r" for r acc
    using parse_line_printed [OF that, of "[]"] by simp
  then have "sfold parse_line (map show_rule rs) acc = Inr (acc @ rs)" if "list_all wf_rule rs" for rs acc
    using that by (induction rs arbitrary: acc) simp_all
  with wf show ?thesis by (simp add: new_policy_def)
qed

theorem accepted_policy_wf_witness:
  "new_policy (Some (map show_rule [\<lparr>r_allow = False, r_fields = [(''prot'', ''0a'')]\<rparr>]))
     = Inr [\<lparr>r_allow = False, r_fields = [(''prot'', ''0a'')]\<rparr>]"
proof -
  have "new_policy (Some [''# keyboards'', ''deny : PROT=0A '', '' ''])
      = Inr [\<lparr>r_allow = False, r_fields = [(''prot'', ''0a'')]\<rparr>]"
    by code_simp
  from accepted_policy_wf [OF this] show ?thesis by simp
qed

text \<open>
  A comment that does not start in the first column aborts the scan:
  the line is neither empty nor a comment to the code, the part before the
  comment is blank and has no colon, and the handler of the failed split does
  not exit on a blank part, so that the local variable is read unbound.
\<close>

theorem indented_comment_aborts:
  assumes "blank \<noteq> []" "list_all str_space blank"
  shows "parse_line (blank @ CHR ''#'' # text) rule_list = Inl UnboundLocalError
    \<and> new_policy (Some ((blank @ CHR ''#'' # text) # file)) = Inl UnboundLocalError"
proof -
  have sp: "\<not> str_space (CHR ''#'')" "\<not> str_space (CHR '':'')" by (simp_all add: str_space_def)
  with assms(2) have nb: "CHR ''#'' \<notin> set blank" "CHR '':'' \<notin> set blank" by (auto simp: list_all_iff)
  have "py_lstrip (blank @ CHR ''#'' # text) = CHR ''#'' # text"
    using assms(2) sp by (simp add: py_lstrip_def list_all_iff)
  then have "py_strip (blank @ CHR ''#'' # text) \<noteq> []"
    using sp by (auto simp: py_strip_def py_rstrip_def)
  moreover have "py_find (CHR ''#'') (blank @ CHR ''#'' # text) = Some (length blank)"
    using nb by (simp add: py_find_Some nth_append)
  moreover have "parse_rule blank = Inl UnboundLocalError"
    using nb assms(2) by (simp add: parse_rule_def py_split_none py_rstrip_def list_all_iff)
  ultimately have line: "parse_line (blank @ CHR ''#'' # text) rs = Inl UnboundLocalError" for rs
    using assms(1) by (cases blank) (simp_all add: parse_line_def)
  then show ?thesis by (simp add: new_policy_def)
qed

theorem indented_comment_aborts_witness:
  "parse_line '' # keyboards'' [] = Inl UnboundLocalError"
  using indented_comment_aborts [of "'' ''" "'' keyboards''" "[]"] by (simp add: str_space_def)

end
