(* ===== verification/Nbd_Manager.thy ===== *)
theory Nbd_Manager
  imports Py_Text
begin

text \<open>
  Connecting and disconnecting kernel NBD devices, as in
  \<^verbatim>\<open>python3/libexec/nbd_client_manager.py\<close>. The programs it runs (\<^verbatim>\<open>nbd-client\<close>,
  \<^verbatim>\<open>modprobe\<close>, \<^verbatim>\<open>udevadm\<close>), the device nodes, the clock and whether a file can be
  written are an argument, the environment, over an unknown state of the rest
  of the machine: other processes may change that state whenever a command
  runs or the manager sleeps. The manager's own files, its lock and the
  commands it issued are kept beside it.
\<close>

section \<open>The machine\<close>

datatype mgr_error =
    InvalidNbdDevName
  | NbdConnStateTimeout
  | NbdDeviceNotFound string
  | CalledProcessError int
  | Mgr_OSError
  | Mgr_OutOfFuel

text \<open>Times in microseconds, as \<^verbatim>\<open>datetime\<close> keeps them.\<close>

record 'k nbd_env =
  ev_run :: "string list \<Rightarrow> 'k \<Rightarrow> int \<times> 'k"
  ev_exists :: "string \<Rightarrow> 'k \<Rightarrow> bool"
  ev_writable :: "string \<Rightarrow> 'k \<Rightarrow> bool"
  ev_removable :: "string \<Rightarrow> 'k \<Rightarrow> bool"
  ev_now :: "'k \<Rightarrow> int"
  ev_sleep :: "nat \<Rightarrow> 'k \<Rightarrow> 'k"

record 'k nbd_host =
  machine :: 'k
  info_dir :: bool
  host_files :: "string \<rightharpoonup> string"
  lock_held :: bool
  issued :: "(bool \<times> string list) list"

type_synonym ('k, 'a) mgr = "('k nbd_host, mgr_error, 'a) st"

definition PERSISTENT_INFO_DIR :: string where
  "PERSISTENT_INFO_DIR = ''/var/run/nonpersistent/nbd''"

definition MAX_DEVICE_WAIT_MINUTES :: int where
  "MAX_DEVICE_WAIT_MINUTES = 10"

definition NLE_BUSY :: int where
  "NLE_BUSY = 25"

text \<open>
  \<^verbatim>\<open>FileLock\<close>: entering waits for the lock (for as long as another process
  holds it) and takes it, leaving lets it go. The wait is taken to end, and the lock
  file, below \<^verbatim>\<open>/var/run/nonpersistent\<close>, to be one that can be opened: a failure
  there raises before anything else is done.
\<close>

definition file_lock :: "'k nbd_host \<Rightarrow> 'k nbd_host" where
  "file_lock s = s\<lparr>lock_held := True\<rparr>"

definition file_unlock :: "'k nbd_host \<Rightarrow> 'k nbd_host" where
  "file_unlock s = s\<lparr>lock_held := False\<rparr>"

definition with_file_lock :: "('k, 'a) mgr \<Rightarrow> ('k, 'a) mgr" where
  "with_file_lock body = with_block file_lock file_unlock body"

section \<open>Commands and device states\<close>

definition call :: "'k nbd_env \<Rightarrow> string list \<Rightarrow> bool \<Rightarrow> ('k, int) mgr" where
  "call ev cmd_args raise_err = (\<lambda>s.
     case ev_run ev cmd_args (machine s) of
       (returncode, k) \<Rightarrow>
         let s' = s\<lparr>machine := k, issued := issued s @ [(lock_held s, cmd_args)]\<rparr> in
         if returncode \<noteq> 0 \<and> raise_err then (Inl (CalledProcessError returncode), s')
         else (Inr returncode, s'))"

definition is_nbd_device_connected :: "'k nbd_env \<Rightarrow> string \<Rightarrow> ('k, bool) mgr" where
  "is_nbd_device_connected ev nbd_device =
     bnd (gets (\<lambda>s. ev_exists ev nbd_device (machine s))) (\<lambda>ex.
     if \<not> ex then throw (NbdDeviceNotFound nbd_device)
     else bnd (call ev [''nbd-client'', ''-check'', nbd_device] False) (\<lambda>returncode.
       if returncode = 0 then ret True
       else if returncode = 1 then ret False
       else throw (CalledProcessError returncode)))"

definition dev_name :: "nat \<Rightarrow> string" where
  "dev_name n = ''/dev/nbd'' @ nat_str n"

fun find_unused_from :: "'k nbd_env \<Rightarrow> nat list \<Rightarrow> ('k, string) mgr" where
  "find_unused_from ev [] = throw (NbdDeviceNotFound (dev_name 999))"
| "find_unused_from ev (device_no # rest) =
     bnd (is_nbd_device_connected ev (dev_name device_no)) (\<lambda>connected.
     if \<not> connected then ret (dev_name device_no) else find_unused_from ev rest)"

definition find_unused_nbd_device :: "'k nbd_env \<Rightarrow> ('k, string) mgr" where
  "find_unused_nbd_device ev = find_unused_from ev [0..<1000]"

definition mgr_sleep :: "'k nbd_env \<Rightarrow> nat \<Rightarrow> ('k, unit) mgr" where
  "mgr_sleep ev t = modify (machine_update (ev_sleep ev t))"

text \<open>
  The waiting loop, bounded by \<open>fuel\<close>: that the deadline ends it within
  \<open>wait_fuel\<close> rounds when the clock runs is proved, not built in.
\<close>

fun wait_loop :: "'k nbd_env \<Rightarrow> nat \<Rightarrow> int \<Rightarrow> string \<Rightarrow> bool \<Rightarrow> ('k, unit) mgr" where
  "wait_loop ev 0 deadline nbd_device connected = throw Mgr_OutOfFuel"
| "wait_loop ev (Suc fuel) deadline nbd_device connected =
     bnd (is_nbd_device_connected ev nbd_device) (\<lambda>c.
     if c = connected then ret ()
     else bnd (gets (\<lambda>s. ev_now ev (machine s))) (\<lambda>now.
       if now > deadline then throw NbdConnStateTimeout
       else seq (mgr_sleep ev 100000) (wait_loop ev fuel deadline nbd_device connected)))"

definition wait_fuel :: nat where
  "wait_fuel = 6002"

definition wait_for_nbd_device :: "'k nbd_env \<Rightarrow> string \<Rightarrow> bool \<Rightarrow> ('k, unit) mgr" where
  "wait_for_nbd_device ev nbd_device connected =
     bnd (gets (\<lambda>s. ev_now ev (machine s) + MAX_DEVICE_WAIT_MINUTES * 60 * 1000000)) (\<lambda>deadline.
     wait_loop ev wait_fuel deadline nbd_device connected)"

section \<open>Persistent information\<close>

text \<open>\<^verbatim>\<open>re.search("/dev/nbd([0-9]+)", device)\<close>: the group of the leftmost match.\<close>

fun search_nbd_number :: "string \<Rightarrow> string option" where
  "search_nbd_number [] = None"
| "search_nbd_number (c # s) =
     (let number = takeWhile is_digit (drop 8 (c # s)) in
      if take 8 (c # s) = ''/dev/nbd'' \<and> number \<noteq> [] then Some number
      else search_nbd_number s)"

definition get_persistent_connect_info_filename :: "string \<Rightarrow> mgr_error + string" where
  "get_persistent_connect_info_filename device =
     (case search_nbd_number device of
        None \<Rightarrow> Inl InvalidNbdDevName
      | Some number \<Rightarrow> Inr (PERSISTENT_INFO_DIR @ ''/'' @ number))"

text \<open>Opening a file for writing and writing it.\<close>

definition write_file :: "'k nbd_env \<Rightarrow> string \<Rightarrow> string \<Rightarrow> ('k, unit) mgr" where
  "write_file ev path content = (\<lambda>s.
     if ev_writable ev path (machine s) then (Inr (), s\<lparr>host_files := (host_files s)(path \<mapsto> content)\<rparr>)
     else (Inl Mgr_OSError, s))"

text \<open>
  \<^verbatim>\<open>json.dumps\<close> of a string of code points below 256, and of the object with
  two strings.
\<close>

definition hex_digit :: "nat \<Rightarrow> char" where
  "hex_digit n = (if n < 10 then char_of (48 + n) else char_of (87 + n))"

definition json_char :: "char \<Rightarrow> string" where
  "json_char c =
    (let n = of_char c :: nat in
     if n = 34 then [CHR 0x5C, CHR 0x22]
     else if n = 92 then [CHR 0x5C, CHR 0x5C]
     else if n = 10 then CHR 0x5C # ''n''
     else if n = 13 then CHR 0x5C # ''r''
     else if n = 9 then CHR 0x5C # ''t''
     else if n = 8 then CHR 0x5C # ''b''
     else if n = 12 then CHR 0x5C # ''f''
     else if n < 32 \<or> 126 < n then CHR 0x5C # ''u00'' @ [hex_digit (n div 16), hex_digit (n mod 16)]
     else [c])"

definition json_string :: "string \<Rightarrow> string" where
  "json_string s = [CHR 0x22] @ concat (map json_char s) @ [CHR 0x22]"

definition connect_info :: "string \<Rightarrow> string \<Rightarrow> string" where
  "connect_info path exportname =
     ''{'' @ json_string ''path'' @ '': '' @ json_string path @ '', ''
       @ json_string ''exportname'' @ '': '' @ json_string exportname @ ''}''"

definition make_info_dir :: "'k nbd_env \<Rightarrow> ('k, unit) mgr" where
  "make_info_dir ev = (\<lambda>s.
     if info_dir s then (Inr (), s)
     else if ev_writable ev PERSISTENT_INFO_DIR (machine s) then (Inr (), s\<lparr>info_dir := True\<rparr>)
     else (Inl Mgr_OSError, s))"

definition persist_connect_info :: "'k nbd_env \<Rightarrow> string \<Rightarrow> string \<Rightarrow> string \<Rightarrow> ('k, unit) mgr" where
  "persist_connect_info ev device path exportname =
     seq (make_info_dir ev)
     (bnd (lift_sum (get_persistent_connect_info_filename device)) (\<lambda>filename.
      write_file ev filename (connect_info path exportname)))"

text \<open>\<^verbatim>\<open>os.remove\<close>: an absent file is an \<^verbatim>\<open>OSError\<close> too.\<close>

definition remove_file :: "'k nbd_env \<Rightarrow> string \<Rightarrow> ('k, unit) mgr" where
  "remove_file ev path = (\<lambda>s.
     if host_files s path \<noteq> None \<and> ev_removable ev path (machine s)
     then (Inr (), s\<lparr>host_files := (host_files s)(path := None)\<rparr>)
     else (Inl Mgr_OSError, s))"

definition remove_persistent_connect_info :: "'k nbd_env \<Rightarrow> string \<Rightarrow> ('k, unit) mgr" where
  "remove_persistent_connect_info ev device =
     catch (bnd (lift_sum (get_persistent_connect_info_filename device)) (remove_file ev))
       (\<lambda>e. if e = Mgr_OSError then ret () else throw e)"

section \<open>Connecting\<close>

definition nbd_short :: "string \<Rightarrow> string" where
  "nbd_short nbd_device = (if take 5 nbd_device = ''/dev/'' then drop 5 nbd_device else nbd_device)"

definition sys_file :: "string \<Rightarrow> string \<Rightarrow> string" where
  "sys_file nbd f = ''/sys/block/'' @ nbd @ ''/queue/'' @ f"

definition connect_cmd :: "string \<Rightarrow> string \<Rightarrow> string \<Rightarrow> string list" where
  "connect_cmd path nbd_device exportname =
     [''nbd-client'', ''-unix'', path, nbd_device, ''-timeout'', ''90'', ''-persist'', ''-name'', exportname]"

definition set_up_device :: "'k nbd_env \<Rightarrow> string \<Rightarrow> ('k, unit) mgr" where
  "set_up_device ev nbd =
     seq (write_file ev (sys_file nbd ''scheduler'') ''none'')
     (seq (write_file ev (sys_file nbd ''max_sectors_kb'') ''512'')
     (write_file ev (sys_file nbd ''nr_requests'') ''8''))"

text \<open>The body of the lock: one attempt.\<close>

definition connect_attempt :: "'k nbd_env \<Rightarrow> string \<Rightarrow> string \<Rightarrow> ('k, string) mgr" where
  "connect_attempt ev path exportname =
     bnd (find_unused_nbd_device ev) (\<lambda>nbd_device.
     bnd (call ev (connect_cmd path nbd_device exportname) False) (\<lambda>ret_code.
     if NLE_BUSY = ret_code then throw (NbdDeviceNotFound nbd_device)
     else if ret_code \<noteq> 0 then throw (CalledProcessError ret_code)
     else
       seq (wait_for_nbd_device ev nbd_device True)
       (seq (persist_connect_info ev nbd_device path exportname)
       (seq (set_up_device ev (nbd_short nbd_device))
       (ret nbd_device)))))"

text \<open>
  The loop \<^verbatim>\<open>while True\<close>, with the number of retries so far: only a device that
  is not found leads to another attempt, after 10 seconds the first time and
  60 later, until the thirtieth failure. The last attempts left are counted
  down by \<open>left\<close>, which is 30 at the start.
\<close>

fun connect_loop :: "'k nbd_env \<Rightarrow> string \<Rightarrow> string \<Rightarrow> nat \<Rightarrow> nat \<Rightarrow> ('k, string) mgr" where
  "connect_loop ev path exportname 0 retries = throw Mgr_OutOfFuel"
| "connect_loop ev path exportname (Suc left) retries =
     catch (with_file_lock (connect_attempt ev path exportname))
       (\<lambda>e. case e of
          NbdDeviceNotFound d \<Rightarrow>
            (let retries = retries + 1 in
             if retries = 1 then
               seq (mgr_sleep ev 10000000) (connect_loop ev path exportname left retries)
             else if retries < 30 then
               seq (mgr_sleep ev 60000000) (connect_loop ev path exportname left retries)
             else throw (NbdDeviceNotFound d))
        | _ \<Rightarrow> throw e)"

definition connect_nbd :: "'k nbd_env \<Rightarrow> string \<Rightarrow> string \<Rightarrow> ('k, string) mgr" where
  "connect_nbd ev path exportname =
     bnd (call ev [''modprobe'', ''nbd'', ''nbds_max=24''] True) (\<lambda>_.
     bnd (call ev [''udevadm'', ''settle'', ''--timeout=30''] True) (\<lambda>_.
     connect_loop ev path exportname 30 0))"

section \<open>Disconnecting\<close>

definition disconnect_nbd_device :: "'k nbd_env \<Rightarrow> string \<Rightarrow> ('k, unit) mgr" where
  "disconnect_nbd_device ev nbd_device =
     catch
       (bnd (is_nbd_device_connected ev nbd_device) (\<lambda>c.
        if c then
          seq (remove_persistent_connect_info ev nbd_device)
          (bnd (call ev [''nbd-client'', ''-disconnect'', nbd_device] True) (\<lambda>_.
           wait_for_nbd_device ev nbd_device False))
        else ret ()))
       (\<lambda>e. case e of NbdDeviceNotFound _ \<Rightarrow> ret () | _ \<Rightarrow> throw e)"

text \<open>The two commands of the program: one prints the device.\<close>

definition connect_cli :: "'k nbd_env \<Rightarrow> string \<Rightarrow> string \<Rightarrow> ('k, string) mgr" where
  "connect_cli ev path exportname =
     bnd (connect_nbd ev path exportname) (\<lambda>device. ret (device @ [CHR 0x0A]))"

definition disconnect_cli :: "'k nbd_env \<Rightarrow> string \<Rightarrow> ('k, unit) mgr" where
  "disconnect_cli ev device = disconnect_nbd_device ev device"

end
