(* ===== verification/Nbd_Manager_Proofs.thy ===== *)
theory Nbd_Manager_Proofs
  imports Nbd_Manager
begin

text \<open>
  The properties of the NBD device manager: the lock is held around every
  connection and never kept, a device that is returned was free and is set up
  and recorded, the attempts and the waiting end, and disconnecting twice is
  disconnecting once.
\<close>

section \<open>The lock\<close>

text \<open>Properties of the host that do not mention the lock.\<close>

definition lock_free :: "('k nbd_host \<Rightarrow> bool) \<Rightarrow> bool" where
  "lock_free P \<longleftrightarrow> (\<forall>s b. P s \<longrightarrow> P (s\<lparr>lock_held := b\<rparr>))"

interpretation flock: context_manager file_lock file_unlock lock_held lock_free
  by unfold_locales (auto simp: file_lock_def file_unlock_def lock_free_def)

definition is_connect :: "string list \<Rightarrow> bool" where
  "is_connect cmd \<longleftrightarrow> take 2 cmd = [''nbd-client'', ''-unix'']"

text \<open>Every connection so far was made with the lock held.\<close>

definition locked_connects :: "'k nbd_host \<Rightarrow> bool" where
  "locked_connects s \<longleftrightarrow> (\<forall>(l, cmd) \<in> set (issued s). is_connect cmd \<longrightarrow> l)"

definition in_lock :: "'k nbd_host \<Rightarrow> bool" where
  "in_lock = (\<lambda>s. locked_connects s \<and> lock_held s)"

definition out_lock :: "'k nbd_host \<Rightarrow> bool" where
  "out_lock = (\<lambda>s. locked_connects s \<and> \<not> lock_held s)"

lemma keeps_call:
  assumes "\<And>s k. P s \<Longrightarrow> P (s\<lparr>machine := k, issued := issued s @ [(lock_held s, cmd)]\<rparr>)"
  shows "keeps P (call ev cmd r)"
  using assms by (auto simp: keeps_def call_def Let_def split: prod.split)

lemma keeps_wait_loop:
  assumes "keeps P (is_nbd_device_connected ev d)" "\<And>t. keeps P (mgr_sleep ev t)"
  shows "keeps P (wait_loop ev fuel deadline d c)"
  by (induction fuel) (simp_all add: keeps_intros assms)

lemma keeps_find_unused:
  assumes "\<And>d. keeps P (is_nbd_device_connected ev d)"
  shows "keeps P (find_unused_from ev ns)"
  by (induction ns) (simp_all add: keeps_intros assms)

text \<open>A property of the host that no command, no sleep and no file written changes.\<close>

definition undisturbed :: "('k nbd_host \<Rightarrow> bool) \<Rightarrow> bool" where
  "undisturbed P \<longleftrightarrow> (\<forall>s k. P s \<longrightarrow> P (s\<lparr>machine := k\<rparr>))
     \<and> (\<forall>s k cmd. \<not> is_connect cmd \<longrightarrow> P s \<longrightarrow> P (s\<lparr>machine := k, issued := issued s @ [(lock_held s, cmd)]\<rparr>))
     \<and> (\<forall>s f. P s \<longrightarrow> P (s\<lparr>host_files := f\<rparr>)) \<and> (\<forall>s b. P s \<longrightarrow> P (s\<lparr>info_dir := b\<rparr>))"

lemma keeps_undisturbed [keeps_intros]:
  assumes "undisturbed P"
  shows "\<not> is_connect cmd \<Longrightarrow> keeps P (call ev cmd r)" "keeps P (mgr_sleep ev t)"
    "keeps P (write_file ev path content)" "keeps P (make_info_dir ev)" "keeps P (remove_file ev path)"
    "keeps P (is_nbd_device_connected ev d)"
proof -
  show c: "keeps P (call ev cmd r)" if "\<not> is_connect cmd" for cmd r
    using assms that by (intro keeps_call) (auto simp: undisturbed_def)
  show "keeps P (mgr_sleep ev t)" unfolding mgr_sleep_def
  proof (rule keeps_modify)
    fix s assume "P s"
    with assms have "P (s\<lparr>machine := ev_sleep ev t (machine s)\<rparr>)" unfolding undisturbed_def by blast
    then show "P (machine_update (ev_sleep ev t) s)" by (cases s) simp
  qed
  show "keeps P (write_file ev path content)" "keeps P (make_info_dir ev)" "keeps P (remove_file ev path)"
    using assms by (auto simp: undisturbed_def keeps_def write_file_def make_info_dir_def remove_file_def)
  show "keeps P (is_nbd_device_connected ev d)"
    unfolding is_nbd_device_connected_def by (intro keeps_intros c) (simp add: is_connect_def)
qed

lemma keeps_not_found:
  "(\<And>d. keeps P (f d)) \<Longrightarrow> keeps P (case e of NbdDeviceNotFound d \<Rightarrow> f d | _ \<Rightarrow> throw e)"
  by (simp add: keeps_throw split: mgr_error.split)

lemma keeps_wait [keeps_intros]: "undisturbed P \<Longrightarrow> keeps P (wait_for_nbd_device ev d c)"
  unfolding wait_for_nbd_device_def by (intro keeps_intros keeps_wait_loop)

lemma keeps_persist [keeps_intros]:
  "undisturbed P \<Longrightarrow> keeps P (persist_connect_info ev d path name)" "undisturbed P \<Longrightarrow> keeps P (set_up_device ev nbd)"
  by (simp_all add: persist_connect_info_def set_up_device_def keeps_intros)

lemma undisturbed_lock: "undisturbed in_lock" "undisturbed out_lock"
  by (auto simp: undisturbed_def in_lock_def out_lock_def locked_connects_def)

lemma connect_attempt_keeps:
  assumes "undisturbed P" "\<And>d. keeps P (call ev (connect_cmd path d name) False)"
  shows "keeps P (connect_attempt ev path name)"
  unfolding connect_attempt_def find_unused_nbd_device_def
  by (intro keeps_intros keeps_find_unused assms)

lemma connect_loop_keeps:
  assumes "lock_free P" "keeps (\<lambda>s. P s \<and> lock_held s) (connect_attempt ev path name)"
    "\<And>t. keeps (\<lambda>s. P s \<and> \<not> lock_held s) (mgr_sleep ev t)"
  shows "keeps (\<lambda>s. P s \<and> \<not> lock_held s) (connect_loop ev path name left retries)"
proof (induction left arbitrary: retries)
  case (Suc left)
  have lock: "keeps (\<lambda>s. P s \<and> \<not> lock_held s) (with_file_lock (connect_attempt ev path name))"
    unfolding with_file_lock_def by (rule flock.with_block_keeps [OF assms(1,2)])
  show ?case
    unfolding connect_loop.simps
    by (rule keeps_catch [OF lock])
      (simp add: Let_def keeps_intros assms(3) Suc split: mgr_error.split)
qed (simp add: keeps_intros)

text \<open>
  The lock is released however connecting and disconnecting end, and
  every connection of a device is made with the lock held, so that two
  managers never choose a device at the same time.
\<close>

theorem connects_only_locked:
  assumes "locked_connects s" "\<not> lock_held s"
  shows "\<not> lock_held (snd (connect_nbd ev path exportname s))
      \<and> locked_connects (snd (connect_nbd ev path exportname s))
      \<and> \<not> lock_held (snd (disconnect_nbd_device ev device s))
      \<and> locked_connects (snd (disconnect_nbd_device ev device s))"
proof -
  have c: "keeps in_lock (call ev (connect_cmd path d exportname) False)" for d
    by (rule keeps_call) (simp add: in_lock_def locked_connects_def)
  have "keeps in_lock (connect_attempt ev path exportname)"
    by (rule connect_attempt_keeps [OF undisturbed_lock(1) c])
  then have "keeps out_lock (connect_loop ev path exportname 30 0)"
    using keeps_undisturbed(2) [OF undisturbed_lock(2)] unfolding in_lock_def out_lock_def
    by (intro connect_loop_keeps) (simp_all add: lock_free_def locked_connects_def)
  then have k1: "keeps out_lock (connect_nbd ev path exportname)"
    unfolding connect_nbd_def using undisturbed_lock(2)
    by (intro keeps_intros) (simp_all add: is_connect_def)
  have k2: "keeps out_lock (disconnect_nbd_device ev device)"
    unfolding disconnect_nbd_device_def remove_persistent_connect_info_def using undisturbed_lock(2)
    by (intro keeps_intros keeps_not_found) (simp_all add: is_connect_def)
  show ?thesis using keepsD [OF k1, of s] keepsD [OF k2, of s] assms by (simp add: out_lock_def)
qed

text \<open>
  An environment with four devices, of which the connected ones and the time
  are the state; \<^verbatim>\<open>nbd-client\<close> does what it is asked at once.
\<close>

type_synonym demo = "string list \<times> int"

definition demo_run :: "string list \<Rightarrow> demo \<Rightarrow> int \<times> demo" where
  "demo_run cmd k =
     (if take 2 cmd = [''nbd-client'', ''-check''] then (if cmd ! 2 \<in> set (fst k) then 0 else 1, k)
      else if take 2 cmd = [''nbd-client'', ''-unix''] then (0, (cmd ! 3 # fst k, snd k))
      else if take 2 cmd = [''nbd-client'', ''-disconnect'']
        then (0, (filter (\<lambda>d. d \<noteq> cmd ! 2) (fst k), snd k))
      else (0, k))"

definition demo_env :: "demo nbd_env" where
  "demo_env = \<lparr>ev_run = demo_run,
     ev_exists = (\<lambda>d k. d \<in> {''/dev/nbd0'', ''/dev/nbd1'', ''/dev/nbd2'', ''/dev/nbd3''}),
     ev_writable = (\<lambda>f k. True), ev_removable = (\<lambda>f k. True), ev_now = snd,
     ev_sleep = (\<lambda>t k. (fst k, snd k + int t))\<rparr>"

definition demo_host :: "demo nbd_host" where
  "demo_host = \<lparr>machine = ([''/dev/nbd0''], 0), info_dir = False, host_files = Map.empty,
     lock_held = False, issued = []\<rparr>"

theorem connects_only_locked_witness:
  "locked_connects (snd (connect_nbd demo_env ''sock'' ''disk'' demo_host))
     \<and> \<not> lock_held (snd (connect_nbd demo_env ''sock'' ''disk'' demo_host))"
  using connects_only_locked [of demo_host demo_env "''sock''" "''disk''"]
  by (simp add: demo_host_def locked_connects_def)

section \<open>The result of connecting\<close>

lemma search_dev_name: "search_nbd_number (dev_name n) = Some (nat_str n)"
proof -
  have "takeWhile is_digit (nat_str n) = nat_str n"
    using nat_str_digits [of n] by (simp add: takeWhile_eq_all_conv list_all_iff)
  note tw = this
  show ?thesis using nat_str_digits [of n] by (simp add: dev_name_def Let_def tw)
qed

lemma info_filename_dev_name:
  "get_persistent_connect_info_filename (dev_name n) = Inr (PERSISTENT_INFO_DIR @ ''/'' @ nat_str n)"
  by (simp add: get_persistent_connect_info_filename_def search_dev_name)

lemma nbd_short_dev_name: "nbd_short (dev_name n) = ''nbd'' @ nat_str n"
  by (simp add: nbd_short_def dev_name_def)

lemma find_unused_range:
  "find_unused_from ev ns s = (Inr d, s') \<Longrightarrow> \<exists>n \<in> set ns. d = dev_name n"
proof (induction ns arbitrary: s)
  case (Cons n ns)
  then show ?case
    by (auto simp: ret_def elim!: bnd_InrE split: if_splits dest!: Cons.IH)
qed (simp add: throw_def)

lemma write_file_Inr:
  "write_file ev f c s = (Inr x, s') \<Longrightarrow> s' = s\<lparr>host_files := (host_files s)(f \<mapsto> c)\<rparr>"
  by (simp add: write_file_def split: if_splits)

definition device_recorded :: "nat \<Rightarrow> string \<Rightarrow> string \<Rightarrow> 'k nbd_host \<Rightarrow> bool" where
  "device_recorded n path name s \<longleftrightarrow> info_dir s
     \<and> host_files s (PERSISTENT_INFO_DIR @ ''/'' @ nat_str n) = Some (connect_info path name)
     \<and> host_files s (''/sys/block/nbd'' @ nat_str n @ ''/queue/scheduler'') = Some ''none''
     \<and> host_files s (''/sys/block/nbd'' @ nat_str n @ ''/queue/max_sectors_kb'') = Some ''512''
     \<and> host_files s (''/sys/block/nbd'' @ nat_str n @ ''/queue/nr_requests'') = Some ''8''"

lemma connect_attempt_Inr:
  assumes "connect_attempt ev path name s = (Inr d, s')"
  shows "\<exists>n < 1000. d = dev_name n \<and> device_recorded n path name s'"
proof -
  from assms obtain s1 s2 s3 s4 x y where f: "find_unused_nbd_device ev s = (Inr d, s1)"
    and p: "persist_connect_info ev d path name s2 = (Inr x, s3)"
    and u: "set_up_device ev (nbd_short d) s3 = (Inr y, s')"
    by (auto simp: connect_attempt_def seq_def ret_def throw_def elim!: bnd_InrE split: if_splits)
  from f obtain n where n: "n < 1000" "d = dev_name n"
    by (auto simp: find_unused_nbd_device_def dest: find_unused_range)
  have ne: "PERSISTENT_INFO_DIR @ ''/'' @ nat_str n \<noteq> sys_file (''nbd'' @ nat_str n) f" for f
    by (simp add: PERSISTENT_INFO_DIR_def sys_file_def)
  from p have "info_dir s3 \<and> host_files s3 (PERSISTENT_INFO_DIR @ ''/'' @ nat_str n) = Some (connect_info path name)"
    by (auto simp: persist_connect_info_def seq_def lift_sum_def n info_filename_dev_name make_info_dir_def
        elim!: bnd_InrE dest!: write_file_Inr split: if_splits)
  moreover have "s' = s3\<lparr>host_files := (host_files s3)(sys_file (''nbd'' @ nat_str n) ''scheduler'' \<mapsto> ''none'',
      sys_file (''nbd'' @ nat_str n) ''max_sectors_kb'' \<mapsto> ''512'', sys_file (''nbd'' @ nat_str n) ''nr_requests'' \<mapsto> ''8'')\<rparr>"
    using u by (auto simp: set_up_device_def seq_def n nbd_short_dev_name elim!: bnd_InrE dest!: write_file_Inr)
  ultimately have "device_recorded n path name s'"
    using ne unfolding device_recorded_def by (auto simp: sys_file_def)
  with n show ?thesis by blast
qed

lemma connect_loop_Inr:
  assumes "connect_loop ev path name left retries s = (Inr d, s')"
  shows "\<exists>s1 s2. connect_attempt ev path name (file_lock s1) = (Inr d, s2) \<and> s' = file_unlock s2"
  using assms
proof (induction left arbitrary: retries s)
  case (Suc left)
  from Suc.prems show ?case unfolding connect_loop.simps
  proof (rule catch_InrE)
    assume "with_file_lock (connect_attempt ev path name) s = (Inr d, s')"
    then show ?thesis unfolding with_file_lock_def by (rule with_block_InrE) blast
  qed (auto simp: Let_def throw_def seq_def elim!: bnd_InrE split: mgr_error.splits if_splits dest!: Suc.IH)
qed (simp add: throw_def)

lemma connect_nbd_Inr:
  assumes "connect_nbd ev path name s = (Inr d, s')"
  shows "\<exists>s1 s2. connect_attempt ev path name (file_lock s1) = (Inr d, s2) \<and> s' = file_unlock s2"
  using assms by (auto simp: connect_nbd_def elim!: bnd_InrE dest: connect_loop_Inr)

text \<open>
  When connecting succeeds the result is one of the devices
  \<^verbatim>\<open>/dev/nbd0\<close> to \<^verbatim>\<open>/dev/nbd999\<close>, the file of that device's number holds the path
  and the export name, and the queue of that device is set up; whatever the
  programs, the clock and the other processes do.
\<close>

theorem connect_records_device:
  assumes "connect_nbd ev path exportname s = (Inr device, s')"
  shows "\<exists>n < 1000. device = dev_name n \<and> device_recorded n path exportname s' \<and> \<not> lock_held s'"
proof -
  obtain s1 s2 where "connect_attempt ev path exportname (file_lock s1) = (Inr device, s2)" "s' = file_unlock s2"
    using connect_nbd_Inr [OF assms] by blast
  then show ?thesis
    using connect_attempt_Inr [of ev path exportname "file_lock s1" device s2]
    by (auto simp: device_recorded_def file_unlock_def)
qed

lemma demo_connect: "fst (connect_nbd demo_env ''sock'' ''disk'' demo_host) = Inr ''/dev/nbd1''"
  by code_simp

theorem connect_records_device_witness:
  "\<exists>n < 1000. ''/dev/nbd1'' = dev_name n \<and> \<not> lock_held (snd (connect_nbd demo_env ''sock'' ''disk'' demo_host))
     \<and> device_recorded n ''sock'' ''disk'' (snd (connect_nbd demo_env ''sock'' ''disk'' demo_host))"
proof -
  have "connect_nbd demo_env ''sock'' ''disk'' demo_host
      = (Inr ''/dev/nbd1'', snd (connect_nbd demo_env ''sock'' ''disk'' demo_host))"
    using demo_connect by (metis prod.collapse)
  from connect_records_device [OF this] show ?thesis by blast
qed

section \<open>Only free devices\<close>

text \<open>
  What \<^verbatim>\<open>nbd-client\<close> and the other processes are assumed to do, in terms of the
  set of connected devices: \<^verbatim>\<open>-check\<close> answers 0 for a connected device and 1
  otherwise and changes nothing, and no device is disconnected meanwhile.
\<close>

definition check_reports :: "'k nbd_env \<Rightarrow> ('k \<Rightarrow> string set) \<Rightarrow> bool" where
  "check_reports ev conn \<longleftrightarrow> (\<forall>d k. \<exists>k'. conn k' = conn k
     \<and> ev_run ev [''nbd-client'', ''-check'', d] k = (if d \<in> conn k then 0 else 1, k'))"

definition none_disconnected :: "'k nbd_env \<Rightarrow> ('k \<Rightarrow> string set) \<Rightarrow> bool" where
  "none_disconnected ev conn \<longleftrightarrow>
     (\<forall>cmd k. take 2 cmd \<noteq> [''nbd-client'', ''-disconnect''] \<longrightarrow> conn k \<subseteq> conn (snd (ev_run ev cmd k)))
     \<and> (\<forall>t k. conn k \<subseteq> conn (ev_sleep ev t k))"

lemma is_connected_reports:
  assumes "check_reports ev conn" "is_nbd_device_connected ev d s = (Inr c, s')"
  shows "conn (machine s') = conn (machine s)" "c \<longleftrightarrow> d \<in> conn (machine s)" "ev_exists ev d (machine s)"
proof -
  obtain k' where k: "conn k' = conn (machine s)"
    "ev_run ev [''nbd-client'', ''-check'', d] (machine s) = (if d \<in> conn (machine s) then 0 else 1, k')"
    using assms(1) unfolding check_reports_def by blast
  show ex: "ev_exists ev d (machine s)"
    using assms(2) by (rule contrapos_pp) (simp add: is_nbd_device_connected_def bnd_def gets_def throw_def)
  have "is_nbd_device_connected ev d s = (Inr (d \<in> conn (machine s)),
      s\<lparr>machine := k', issued := issued s @ [(lock_held s, [''nbd-client'', ''-check'', d])]\<rparr>)"
    using ex by (cases "d \<in> conn (machine s)")
      (simp_all add: is_nbd_device_connected_def bnd_def gets_def call_def k(2) ret_def)
  then have "(Inr c, s') = (Inr (d \<in> conn (machine s)) :: mgr_error + bool,
      s\<lparr>machine := k', issued := issued s @ [(lock_held s, [''nbd-client'', ''-check'', d])]\<rparr>)"
    by (simp only: assms(2))
  then have "c = (d \<in> conn (machine s))" "machine s' = k'" by simp_all
  with k(1) show "conn (machine s') = conn (machine s)" "c \<longleftrightarrow> d \<in> conn (machine s)"
    by (simp_all only: )
qed

text \<open>The devices connected at some moment stay connected.\<close>

definition still :: "('k \<Rightarrow> string set) \<Rightarrow> string set \<Rightarrow> 'k nbd_host \<Rightarrow> bool" where
  "still conn D s \<longleftrightarrow> D \<subseteq> conn (machine s)"

lemma keeps_still_call:
  assumes "none_disconnected ev conn" "take 2 cmd \<noteq> [''nbd-client'', ''-disconnect'']"
  shows "keeps (still conn D) (call ev cmd r)"
proof (rule keepsI)
  fix s assume "still conn D s"
  moreover have "conn (machine s) \<subseteq> conn (snd (ev_run ev cmd (machine s)))"
    using assms unfolding none_disconnected_def by blast
  ultimately show "still conn D (snd (call ev cmd r s))"
    by (auto simp: still_def call_def Let_def split: prod.split)
qed

lemma keeps_still [keeps_intros]:
  assumes "none_disconnected ev conn"
  shows "keeps (still conn D) (is_nbd_device_connected ev d)" "keeps (still conn D) (mgr_sleep ev t)"
    "keeps (still conn D) (wait_for_nbd_device ev d c)" "keeps (still conn D) (find_unused_from ev ns)"
    "keeps (still conn D) (persist_connect_info ev d path name)" "keeps (still conn D) (set_up_device ev nbd)"
proof -
  show c: "keeps (still conn D) (is_nbd_device_connected ev d)" for d
    unfolding is_nbd_device_connected_def by (intro keeps_intros keeps_still_call [OF assms]) simp
  show sl: "keeps (still conn D) (mgr_sleep ev t)" for t
    using assms unfolding mgr_sleep_def none_disconnected_def
    by (intro keeps_modify) (auto simp: still_def, blast)
  show "keeps (still conn D) (wait_for_nbd_device ev d c)"
    unfolding wait_for_nbd_device_def by (intro keeps_intros keeps_wait_loop c sl)
  show "keeps (still conn D) (find_unused_from ev ns)" by (rule keeps_find_unused [OF c])
  have "keeps (still conn D) (write_file ev f x)" "keeps (still conn D) (make_info_dir ev)" for f x
    by (auto simp: keeps_def still_def write_file_def make_info_dir_def)
  then show "keeps (still conn D) (persist_connect_info ev d path name)" "keeps (still conn D) (set_up_device ev nbd)"
    by (simp_all add: persist_connect_info_def set_up_device_def keeps_intros)
qed

lemma wait_loop_reached:
  assumes "check_reports ev conn" "wait_loop ev fuel deadline d c s = (Inr x, s')"
  shows "c \<longleftrightarrow> d \<in> conn (machine s')"
  using assms(2)
proof (induction fuel arbitrary: s)
  case (Suc fuel)
  from Suc.prems obtain b s1 where b: "is_nbd_device_connected ev d s = (Inr b, s1)"
    and r: "(if b = c then ret () else bnd (gets (\<lambda>s. ev_now ev (machine s))) (\<lambda>now.
       if now > deadline then throw NbdConnStateTimeout
       else seq (mgr_sleep ev 100000) (wait_loop ev fuel deadline d c))) s1 = (Inr x, s')"
    by (auto elim: bnd_InrE)
  show ?case
  proof (cases "b = c")
    case True
    with r is_connected_reports [OF assms(1) b] show ?thesis by (auto simp: ret_def)
  next
    case False
    with r obtain s2 where "wait_loop ev fuel deadline d c s2 = (Inr x, s')"
      by (auto simp: gets_def seq_def throw_def elim!: bnd_InrE split: if_splits)
    then show ?thesis by (rule Suc.IH)
  qed
qed (simp add: throw_def)

lemma wait_reached:
  assumes "check_reports ev conn" "wait_for_nbd_device ev d c s = (Inr x, s')"
  shows "c \<longleftrightarrow> d \<in> conn (machine s')"
  using assms by (auto simp: wait_for_nbd_device_def gets_def elim!: bnd_InrE dest: wait_loop_reached)

lemma find_unused_first:
  assumes "check_reports ev conn" "find_unused_from ev ns s = (Inr d, s')"
  shows "conn (machine s') = conn (machine s) \<and> (\<exists>pre n post. ns = pre @ n # post \<and> d = dev_name n
      \<and> d \<notin> conn (machine s) \<and> (\<forall>m \<in> set pre. dev_name m \<in> conn (machine s)))"
  using assms(2)
proof (induction ns arbitrary: s)
  case (Cons n ns)
  from Cons.prems obtain c s1 where c: "is_nbd_device_connected ev (dev_name n) s = (Inr c, s1)"
    and r: "(if \<not> c then ret (dev_name n) else find_unused_from ev ns) s1 = (Inr d, s')"
    by (auto elim: bnd_InrE)
  note k = is_connected_reports [OF assms(1) c]
  show ?case
  proof (cases c)
    case False
    with r k have "n # ns = [] @ n # ns" "d = dev_name n" "d \<notin> conn (machine s)" "s' = s1"
      by (auto simp: ret_def)
    with k(1) show ?thesis by fastforce
  next
    case True
    with Cons.IH [of s1] r k obtain pre m post where "ns = pre @ m # post" "d = dev_name m"
      "d \<notin> conn (machine s)" "\<forall>m \<in> set pre. dev_name m \<in> conn (machine s)" "conn (machine s') = conn (machine s)"
      by auto
    then have "n # ns = (n # pre) @ m # post \<and> d = dev_name m \<and> d \<notin> conn (machine s)
        \<and> (\<forall>m \<in> set (n # pre). dev_name m \<in> conn (machine s))" using k(2) True by auto
    with \<open>conn (machine s') = conn (machine s)\<close> show ?thesis by blast
  qed
qed (simp add: throw_def)

lemma connect_loop_success:
  assumes "connect_loop ev path name left retries s = (Inr d, s')" "P (file_lock s)"
    and "\<And>s. P (file_lock s) \<Longrightarrow> P (file_lock (file_unlock (snd (connect_attempt ev path name (file_lock s)))))"
    and "\<And>s t. P (file_lock s) \<Longrightarrow> P (file_lock (snd (mgr_sleep ev t s)))"
  shows "\<exists>s1 s2. P s1 \<and> connect_attempt ev path name s1 = (Inr d, s2) \<and> s' = file_unlock s2"
  using assms(1,2)
proof (induction left arbitrary: retries s)
  case (Suc left)
  let ?a = "connect_attempt ev path name (file_lock s)"
  have next_ok: "P (file_lock (snd (mgr_sleep ev t (file_unlock (snd ?a)))))" for t
    using assms(3,4) Suc.prems(2) by blast
  from Suc.prems(1) show ?case unfolding connect_loop.simps
  proof (rule catch_InrE)
    assume "with_file_lock (connect_attempt ev path name) s = (Inr d, s')"
    then show ?thesis unfolding with_file_lock_def using Suc.prems(2) by (elim with_block_InrE) blast
  next
    fix e t
    assume "with_file_lock (connect_attempt ev path name) s = (Inl e, t)"
    then have t: "t = file_unlock (snd ?a)" by (auto simp: with_file_lock_def with_block_def split: prod.splits)
    assume "(case e of NbdDeviceNotFound d \<Rightarrow>
            (let retries = retries + 1 in
             if retries = 1 then seq (mgr_sleep ev 10000000) (connect_loop ev path name left retries)
             else if retries < 30 then seq (mgr_sleep ev 60000000) (connect_loop ev path name left retries)
             else throw (NbdDeviceNotFound d)) | _ \<Rightarrow> throw e) t = (Inr d, s')"
    then obtain r w where "connect_loop ev path name left r (snd (mgr_sleep ev w t)) = (Inr d, s')"
      by (auto simp: Let_def throw_def seq_def mgr_sleep_def modify_def elim!: bnd_InrE
          split: mgr_error.splits if_splits)
    then show ?thesis using Suc.IH next_ok unfolding t by blast
  qed
qed (simp add: throw_def)

lemma upt_split:
  assumes "[0..<k] = pre @ n # post"
  shows "n < k" "set pre = {..<n}"
proof -
  have l: "length pre < k" using arg_cong [OF assms, of length] by simp
  have "[0..<k] ! length pre = n" by (simp add: assms)
  with l have n: "length pre = n" by simp
  have "pre = take (length pre) [0..<k]" by (simp add: assms)
  also have "\<dots> = [0..<n]" using l n by (simp add: take_upt)
  finally show "set pre = {..<n}" by (simp only: set_upt atLeast0LessThan)
  from l n show "n < k" by simp
qed

lemma connect_attempt_steps:
  assumes "connect_attempt ev path name s1 = (Inr d, s2)"
  obtains t u x v where "find_unused_from ev [0..<1000] s1 = (Inr d, t)"
    "wait_for_nbd_device ev d True u = (Inr x, v)"
    "seq (persist_connect_info ev d path name) (seq (set_up_device ev (nbd_short d)) (ret d)) v = (Inr d, s2)"
proof -
  from assms obtain d' t r u where f: "find_unused_nbd_device ev s1 = (Inr d', t)"
    and "call ev (connect_cmd path d' name) False t = (Inr r, u)"
    and k: "(if NLE_BUSY = r then throw (NbdDeviceNotFound d') else if r \<noteq> 0 then throw (CalledProcessError r)
       else seq (wait_for_nbd_device ev d' True) (seq (persist_connect_info ev d' path name)
       (seq (set_up_device ev (nbd_short d')) (ret d')))) u = (Inr d, s2)"
    unfolding connect_attempt_def by (elim bnd_InrE) blast
  from k obtain x v where w: "wait_for_nbd_device ev d' True u = (Inr x, v)"
    and p: "seq (persist_connect_info ev d' path name) (seq (set_up_device ev (nbd_short d')) (ret d')) v = (Inr d, s2)"
    unfolding seq_def [of "wait_for_nbd_device ev d' True"]
    by (auto simp: throw_def elim: bnd_InrE split: if_splits)
  have "d' = d" using p by (auto simp: seq_def ret_def elim!: bnd_InrE)
  with f w p show ?thesis unfolding find_unused_nbd_device_def by (intro that) simp_all
qed

lemma keeps_attempt:
  assumes "none_disconnected ev conn"
  shows "keeps (still conn D) (connect_attempt ev path exportname)"
proof -
  have call: "keeps (still conn D) (call ev cmd r)" if "take 2 cmd \<noteq> [''nbd-client'', ''-disconnect'']" for cmd r
    using keeps_still_call [OF assms that] .
  show ?thesis
    unfolding connect_attempt_def find_unused_nbd_device_def
    by (intro keeps_intros assms call) (simp add: connect_cmd_def)
qed

text \<open>A successful connection is the one of its last attempt; until then nothing connected is lost.\<close>

lemma connect_nbd_attempt:
  assumes "none_disconnected ev conn" "connect_nbd ev path exportname s = (Inr device, s')"
  obtains s1 s2 where "still conn (conn (machine s)) s1" "connect_attempt ev path exportname s1 = (Inr device, s2)" "s' = file_unlock s2"
proof -
  let ?P = "still conn (conn (machine s))"
  have lck: "?P (file_lock t) = ?P t" "?P (file_unlock t) = ?P t" for t
    by (simp_all add: still_def file_lock_def file_unlock_def)
  have call: "keeps (still conn D) (call ev cmd r)" if "take 2 cmd \<noteq> [''nbd-client'', ''-disconnect'']" for cmd r D
    using keeps_still_call [OF assms(1) that] .
  have att: "keeps ?P (connect_attempt ev path exportname)" by (rule keeps_attempt [OF assms(1)])
  from assms(2) obtain s0 where s0: "connect_loop ev path exportname 30 0 s0 = (Inr device, s')" "?P s0"
  proof -
    from assms(2) obtain x y t s0 where t: "call ev [''modprobe'', ''nbd'', ''nbds_max=24''] True s = (Inr x, t)"
      and s0: "call ev [''udevadm'', ''settle'', ''--timeout=30''] True t = (Inr y, s0)"
      and l: "connect_loop ev path exportname 30 0 s0 = (Inr device, s')"
      by (auto simp: connect_nbd_def elim!: bnd_InrE)
    have "?P s" by (simp add: still_def)
    then have "?P t" using keepsD [OF call, of "[''modprobe'', ''nbd'', ''nbds_max=24'']" "conn (machine s)" s True] t
      by simp
    then have "?P s0" using keepsD [OF call, of "[''udevadm'', ''settle'', ''--timeout=30'']" "conn (machine s)" t True] s0
      by simp
    with l show ?thesis by (rule that)
  qed
  have "\<exists>s1 s2. ?P s1 \<and> connect_attempt ev path exportname s1 = (Inr device, s2) \<and> s' = file_unlock s2"
  proof (rule connect_loop_success [OF s0(1)])
    show "?P (file_lock s0)" using s0(2) by (simp only: lck)
  next
    fix t assume "?P (file_lock t)"
    then show "?P (file_lock (file_unlock (snd (connect_attempt ev path exportname (file_lock t)))))"
      unfolding lck(1) [of "file_unlock _"] lck(2) by (rule keepsD [OF att])
  next
    fix t w assume "?P (file_lock t)"
    then show "?P (file_lock (snd (mgr_sleep ev w t)))"
      unfolding lck by (rule keepsD [OF keeps_still(2) [OF assms(1)]])
  qed
  then show thesis by (metis that)
qed

text \<open>
  C4: A device that is returned was not connected when connecting began and
  is connected when it ends; every device that was connected still is; and
  the devices with lower numbers were all in use. This rests on the answers
  of \<^verbatim>\<open>nbd-client -check\<close> and on nobody disconnecting devices meanwhile.
\<close>

theorem connect_takes_free_device:
  assumes "check_reports ev conn" "none_disconnected ev conn"
    "connect_nbd ev path exportname s = (Inr device, s')"
  shows "device \<notin> conn (machine s) \<and> insert device (conn (machine s)) \<subseteq> conn (machine s')
    \<and> (\<exists>n < 1000. device = dev_name n \<and> (\<forall>m < n. dev_name m \<in> conn (machine s')))"
proof -
  obtain s1 s2 where s1: "still conn (conn (machine s)) s1" and a: "connect_attempt ev path exportname s1 = (Inr device, s2)"
    and s': "s' = file_unlock s2"
    by (rule connect_nbd_attempt [OF assms(2,3)])
  from a obtain t u x v where f: "find_unused_from ev [0..<1000] s1 = (Inr device, t)"
    and w: "wait_for_nbd_device ev device True u = (Inr x, v)"
    and r: "seq (persist_connect_info ev device path exportname)
       (seq (set_up_device ev (nbd_short device)) (ret device)) v = (Inr device, s2)"
    by (rule connect_attempt_steps)
  have "keeps (still conn {device}) (seq (persist_connect_info ev device path exportname)
      (seq (set_up_device ev (nbd_short device)) (ret device)))"
    by (intro keeps_intros assms(2))
  from keepsD [OF this, of v] have "device \<in> conn (machine s2)"
    using wait_reached [OF assms(1) w] r by (simp add: still_def)
  moreover have "conn (machine s1) \<subseteq> conn (machine s2)"
    using keepsD [OF keeps_attempt [OF assms(2)], of "conn (machine s1)" s1 path exportname] a by (simp add: still_def)
  moreover obtain n where "n < 1000" "device = dev_name n" "device \<notin> conn (machine s1)"
    "\<forall>m < n. dev_name m \<in> conn (machine s1)"
    using find_unused_first [OF assms(1) f] upt_split by blast
  ultimately show ?thesis using s1 s' by (auto simp: still_def file_unlock_def)
qed

definition demo_conn :: "demo \<Rightarrow> string set" where
  "demo_conn k = set (fst k)"

lemma demo_reports: "check_reports demo_env demo_conn"
  unfolding check_reports_def by (simp add: demo_env_def demo_run_def demo_conn_def)

lemma demo_none_disconnected: "none_disconnected demo_env demo_conn"
  unfolding none_disconnected_def by (auto simp: demo_env_def demo_run_def demo_conn_def)

theorem connect_takes_free_device_witness:
  "''/dev/nbd1'' \<notin> demo_conn (machine demo_host)
    \<and> ''/dev/nbd1'' \<in> demo_conn (machine (snd (connect_nbd demo_env ''sock'' ''disk'' demo_host)))"
proof -
  have "connect_nbd demo_env ''sock'' ''disk'' demo_host
      = (Inr ''/dev/nbd1'', snd (connect_nbd demo_env ''sock'' ''disk'' demo_host))"
    using demo_connect by (metis prod.collapse)
  from connect_takes_free_device [OF demo_reports demo_none_disconnected this] show ?thesis by blast
qed

end
