(* ===== verification/Nbd_Manager_Ends.thy ===== *)
theory Nbd_Manager_Ends
  imports Nbd_Manager_Proofs
begin

text \<open>
  That connecting and waiting end, with the bounds of the code, and what
  disconnecting leaves behind.
\<close>

section \<open>Waiting ends\<close>

text \<open>The clock does not go back, and sleeping takes the time it says.\<close>

definition clock_runs :: "'k nbd_env \<Rightarrow> bool" where
  "clock_runs ev \<longleftrightarrow> (\<forall>cmd k. ev_now ev k \<le> ev_now ev (snd (ev_run ev cmd k)))
     \<and> (\<forall>t k. ev_now ev k + int t \<le> ev_now ev (ev_sleep ev t k))"

lemma avoids_call: "avoids Mgr_OutOfFuel (call ev cmd r)"
  by (auto simp: avoids_def call_def Let_def split: prod.split)

lemma avoids_is_connected [avoids_intros]: "avoids Mgr_OutOfFuel (is_nbd_device_connected ev d)"
  unfolding is_nbd_device_connected_def by (intro avoids_intros avoids_call) simp_all

lemma is_connected_now:
  assumes "clock_runs ev" "is_nbd_device_connected ev d s = (Inr c, s')"
  shows "ev_now ev (machine s) \<le> ev_now ev (machine s')"
proof -
  let ?cmd = "[''nbd-client'', ''-check'', d]"
  from assms(2) obtain r where "call ev ?cmd False s = (Inr r, s')"
    by (auto simp: is_nbd_device_connected_def gets_def throw_def ret_def elim!: bnd_InrE split: if_splits)
  then have "machine s' = snd (ev_run ev ?cmd (machine s))"
    by (auto simp: call_def Let_def split: prod.splits)
  with assms(1) show ?thesis by (simp add: clock_runs_def)
qed

lemma wait_loop_fuel:
  assumes "clock_runs ev" "deadline < ev_now ev (machine s) + int fuel * 100000"
  shows "fst (wait_loop ev (Suc fuel) deadline d c s) \<noteq> Inl Mgr_OutOfFuel"
  using assms(2)
proof (induction fuel arbitrary: s)
  case 0
  show ?case
  proof (cases "is_nbd_device_connected ev d s")
    case (Pair r s1)
    show ?thesis
    proof (cases r)
      case (Inl e)
      then show ?thesis
        using Pair avoidsD [OF avoids_is_connected, of ev d s] by (simp add: bnd_def)
    next
      case (Inr b)
      then have "deadline < ev_now ev (machine s1)"
        using is_connected_now [OF assms(1), of d s b s1] Pair 0 by simp
      then show ?thesis using Pair Inr by (simp add: bnd_def ret_def gets_def throw_def)
    qed
  qed
next
  case (Suc fuel)
  show ?case
  proof (cases "is_nbd_device_connected ev d s")
    case (Pair r s1)
    show ?thesis
    proof (cases r)
      case (Inl e)
      then show ?thesis
        using Pair avoidsD [OF avoids_is_connected, of ev d s] by (simp add: bnd_def)
    next
      case (Inr b)
      let ?s2 = "machine_update (ev_sleep ev 100000) s1"
      have "ev_now ev (machine s1) + 100000 \<le> ev_now ev (machine ?s2)"
        using assms(1) by (simp add: clock_runs_def) (metis of_nat_numeral)
      then have "deadline < ev_now ev (machine ?s2) + int fuel * 100000"
        using is_connected_now [OF assms(1), of d s b s1] Pair Inr Suc.prems by simp
      then have "fst (wait_loop ev (Suc fuel) deadline d c ?s2) \<noteq> Inl Mgr_OutOfFuel" by (rule Suc.IH)
      then show ?thesis
        using Pair Inr
        by (subst wait_loop.simps)
          (simp add: bnd_def ret_def gets_def throw_def seq_def mgr_sleep_def modify_def del: wait_loop.simps)
    qed
  qed
qed

lemma wait_fuel_Suc: "wait_fuel = Suc 6001"
  by (simp add: wait_fuel_def)

lemma avoids_wait: "clock_runs ev \<Longrightarrow> avoids Mgr_OutOfFuel (wait_for_nbd_device ev d c)"
  unfolding avoids_def
proof
  fix s assume "clock_runs ev"
  from wait_loop_fuel [OF this, of "ev_now ev (machine s) + 600000000" s 6001 d c]
  show "fst (wait_for_nbd_device ev d c s) \<noteq> Inl Mgr_OutOfFuel"
    by (simp add: wait_for_nbd_device_def bnd_def gets_def wait_fuel_Suc MAX_DEVICE_WAIT_MINUTES_def
        del: wait_loop.simps)
qed

section \<open>Connecting ends\<close>

lemma avoids_find_unused: "avoids Mgr_OutOfFuel (find_unused_from ev ns)"
  by (induction ns) (auto intro!: avoids_intros)

lemma avoids_files [avoids_intros]:
  "avoids Mgr_OutOfFuel (write_file ev f x)" "avoids Mgr_OutOfFuel (make_info_dir ev)"
  "avoids Mgr_OutOfFuel (remove_file ev f)" "avoids Mgr_OutOfFuel (mgr_sleep ev t)"
  by (auto simp: avoids_def write_file_def make_info_dir_def remove_file_def mgr_sleep_def modify_def)

lemma avoids_filename [avoids_intros]:
  "avoids Mgr_OutOfFuel (lift_sum (get_persistent_connect_info_filename d))"
  by (intro avoids_lift_sum) (simp add: get_persistent_connect_info_filename_def split: option.split)

lemma avoids_attempt:
  assumes "clock_runs ev"
  shows "avoids Mgr_OutOfFuel (connect_attempt ev path name)"
  unfolding connect_attempt_def find_unused_nbd_device_def persist_connect_info_def set_up_device_def
  by (intro avoids_intros avoids_find_unused avoids_call avoids_wait assms) simp_all

lemma avoids_connect_loop:
  assumes "clock_runs ev" "left + retries = 30" "0 < left"
  shows "fst (connect_loop ev path name left retries s) \<noteq> Inl Mgr_OutOfFuel"
  using assms(2,3)
proof (induction left arbitrary: retries s)
  case (Suc left)
  have a: "fst (with_file_lock (connect_attempt ev path name) s) \<noteq> Inl Mgr_OutOfFuel"
    using avoids_attempt [OF assms(1), of path name] by (auto simp: with_file_lock_def with_block_def avoids_def split: prod.split)
      (metis fst_conv)
  have later: "fst (connect_loop ev path name left (retries + 1) t) \<noteq> Inl Mgr_OutOfFuel" if "retries + 1 < 30" for t
    using that Suc.prems by (intro Suc.IH) simp_all
  obtain r t where w: "with_file_lock (connect_attempt ev path name) s = (r, t)" by fastforce
  show ?case
  proof (cases r)
    case (Inl e)
    with a w have "e \<noteq> Mgr_OutOfFuel" by simp
    with w Inl later show ?thesis
      by (cases "retries = 0") (simp_all add: catch_def Let_def seq_def bnd_def mgr_sleep_def modify_def throw_def split: mgr_error.split)
  qed (simp add: w catch_def)
qed simp

text \<open>
  C38: Connecting and disconnecting always end, with a result or an
  exception, when the clock runs: the waiting loop meets its deadline after
  at most 6002 looks at the device (ten minutes, a tenth of a second apart),
  and there are at most 30 attempts.
\<close>

theorem manager_ends:
  assumes "clock_runs ev"
  shows "fst (connect_nbd ev path exportname s) \<noteq> Inl Mgr_OutOfFuel
    \<and> fst (disconnect_nbd_device ev device s) \<noteq> Inl Mgr_OutOfFuel"
proof
  have "avoids Mgr_OutOfFuel (connect_loop ev path exportname 30 0)"
    unfolding avoids_def using avoids_connect_loop [OF assms, of 30 0] by simp
  then have "avoids Mgr_OutOfFuel (connect_nbd ev path exportname)"
    unfolding connect_nbd_def by (intro avoids_intros avoids_call)
  then show "fst (connect_nbd ev path exportname s) \<noteq> Inl Mgr_OutOfFuel" by (simp add: avoids_def)
  have rm: "avoids Mgr_OutOfFuel (remove_persistent_connect_info ev device)"
  proof -
    have "avoids Mgr_OutOfFuel (bnd (lift_sum (get_persistent_connect_info_filename device)) (remove_file ev))"
      by (intro avoids_intros)
    then show ?thesis
      by (auto simp: avoids_def remove_persistent_connect_info_def catch_def ret_def throw_def
          split: prod.split sum.split) (metis fst_conv)
  qed
  let ?body = "bnd (is_nbd_device_connected ev device) (\<lambda>c.
        if c then seq (remove_persistent_connect_info ev device)
          (bnd (call ev [''nbd-client'', ''-disconnect'', device] True) (\<lambda>_. wait_for_nbd_device ev device False))
        else ret ())"
  have "avoids Mgr_OutOfFuel ?body"
    by (intro avoids_intros avoids_call avoids_wait assms rm)
  then show "fst (disconnect_nbd_device ev device s) \<noteq> Inl Mgr_OutOfFuel"
    by (auto simp: avoids_def disconnect_nbd_device_def catch_def ret_def throw_def
        split: prod.split sum.split mgr_error.split) (metis fst_conv)
qed

theorem manager_ends_witness:
  "fst (connect_nbd demo_env ''sock'' ''disk'' demo_host) \<noteq> Inl Mgr_OutOfFuel"
proof -
  have "clock_runs demo_env" by (simp add: clock_runs_def demo_env_def demo_run_def)
  from manager_ends [OF this] show ?thesis by blast
qed

section \<open>At most thirty attempts\<close>

definition connects :: "'k nbd_host \<Rightarrow> nat" where
  "connects s = length (filter (\<lambda>(l, cmd). is_connect cmd) (issued s))"

lemma undisturbed_connects: "undisturbed (\<lambda>s. connects s \<le> n)"
  by (simp add: undisturbed_def connects_def)

lemma attempt_connects: "connects (snd (connect_attempt ev path name s)) \<le> Suc (connects s)"
proof -
  let ?n = "connects s"
  have "keeps (\<lambda>s. connects s \<le> ?n) (find_unused_nbd_device ev)"
    unfolding find_unused_nbd_device_def
    by (rule keeps_find_unused) (rule keeps_undisturbed(6) [OF undisturbed_connects])
  then have f: "connects (snd (find_unused_nbd_device ev s)) \<le> ?n" by (simp add: keeps_def)
  have c: "connects (snd (call ev cmd False t)) \<le> Suc ?n" if "connects t \<le> ?n" for cmd t
    using that by (auto simp: call_def connects_def Let_def split: prod.split)
  have k: "keeps (\<lambda>s. connects s \<le> Suc ?n)
      (if NLE_BUSY = r then throw (NbdDeviceNotFound d) else if r \<noteq> 0 then throw (CalledProcessError r)
       else seq (wait_for_nbd_device ev d True) (seq (persist_connect_info ev d path name)
       (seq (set_up_device ev (nbd_short d)) (ret d))))" for r d
    using undisturbed_connects by (intro keeps_intros)
  obtain r t where ft: "find_unused_nbd_device ev s = (r, t)" by fastforce
  show ?thesis
  proof (cases r)
    case (Inl e)
    with ft f show ?thesis by (simp add: connect_attempt_def bnd_def)
  next
    case (Inr d)
    obtain q u where cu: "call ev (connect_cmd path d name) False t = (q, u)" by fastforce
    with c [of t "connect_cmd path d name"] f ft have "connects u \<le> Suc ?n" by simp
    then show ?thesis
      using ft Inr cu keepsD [OF k, of u] by (cases q) (simp_all add: connect_attempt_def bnd_def)
  qed
qed

lemma loop_connects: "connects (snd (connect_loop ev path name left retries s)) \<le> connects s + left"
proof (induction left arbitrary: retries s)
  case (Suc left)
  obtain r t where w: "with_file_lock (connect_attempt ev path name) s = (r, t)" by fastforce
  then have "t = file_unlock (snd (connect_attempt ev path name (file_lock s)))"
    by (auto simp: with_file_lock_def with_block_def split: prod.splits)
  then have t: "connects t \<le> Suc (connects s)"
    using attempt_connects [of ev path name "file_lock s"]
    by (simp add: connects_def file_lock_def file_unlock_def)
  have "connects (machine_update f t) = connects t" for f by (simp add: connects_def)
  then have later: "connects (snd (connect_loop ev path name left k (machine_update f t))) \<le> connects s + Suc left" for k f
    using Suc.IH [of k "machine_update f t"] t by simp
  show ?case
  proof (cases r)
    case (Inl e)
    with w t later show ?thesis
      by (cases "retries = 0") (simp_all add: catch_def Let_def seq_def bnd_def mgr_sleep_def modify_def throw_def
          split: mgr_error.split)
  next
    case (Inr d)
    with w t show ?thesis by (simp add: catch_def)
  qed
qed (simp add: throw_def)

text \<open>
  However often devices are busy or missing, one call of
  \<^verbatim>\<open>connect_nbd\<close> runs \<^verbatim>\<open>nbd-client\<close> to connect at most 30 times.
\<close>

theorem connect_attempts_bounded:
  "connects (snd (connect_nbd ev path exportname s)) \<le> connects s + 30"
proof -
  have k: "keeps (\<lambda>t. connects t \<le> connects s) (call ev cmd r)" if "\<not> is_connect cmd" for cmd r
    by (rule keeps_undisturbed(1) [OF undisturbed_connects that])
  let ?a = "call ev [''modprobe'', ''nbd'', ''nbds_max=24''] True"
    and ?b = "call ev [''udevadm'', ''settle'', ''--timeout=30''] True"
  have a: "keeps (\<lambda>t. connects t \<le> connects s) (seq ?a ?b)"
    by (intro keeps_intros k) (simp_all add: is_connect_def)
  have "connect_nbd ev path exportname = seq (seq ?a ?b) (connect_loop ev path exportname 30 0)"
    by (simp add: connect_nbd_def seq_def bnd_assoc)
  moreover obtain r t where t: "seq ?a ?b s = (r, t)" by fastforce
  moreover have "connects t \<le> connects s" using keepsD [OF a, of s] t by simp
  ultimately show ?thesis
    using loop_connects [of ev path exportname 30 0 t] by (cases r) (simp_all add: seq_def bnd_def)
qed

section \<open>Disconnecting\<close>

lemma is_connected_not_found:
  "is_nbd_device_connected ev d s = (Inl (NbdDeviceNotFound d'), s') \<Longrightarrow> \<not> ev_exists ev d (machine s')"
  by (auto simp: is_nbd_device_connected_def bnd_def gets_def call_def throw_def ret_def Let_def
      split: if_splits prod.splits)

lemma wait_not_found:
  "wait_for_nbd_device ev d c s = (Inl (NbdDeviceNotFound d'), s') \<Longrightarrow> \<not> ev_exists ev d (machine s')"
proof -
  have "wait_loop ev fuel deadline d c s = (Inl (NbdDeviceNotFound d'), s') \<Longrightarrow> \<not> ev_exists ev d (machine s')"
    for fuel deadline s
  proof (induction fuel arbitrary: s)
    case (Suc fuel)
    obtain r t where "is_nbd_device_connected ev d s = (r, t)" by fastforce
    then show ?case
      using Suc.prems Suc.IH [of "machine_update (ev_sleep ev 100000) t"]
      by (cases r) (auto simp: bnd_def gets_def throw_def ret_def seq_def mgr_sleep_def modify_def
          dest: is_connected_not_found split: if_splits)
  qed (simp add: throw_def)
  then show "wait_for_nbd_device ev d c s = (Inl (NbdDeviceNotFound d'), s') \<Longrightarrow> \<not> ev_exists ev d (machine s')"
    by (simp add: wait_for_nbd_device_def bnd_def gets_def)
qed

text \<open>Looking at a device and waiting write no file.\<close>

lemma keeps_files:
  "keeps (\<lambda>s. host_files s = F) (call ev cmd r)" "keeps (\<lambda>s. host_files s = F) (mgr_sleep ev t)"
  "keeps (\<lambda>s. host_files s = F) (is_nbd_device_connected ev d)"
  "keeps (\<lambda>s. host_files s = F) (wait_for_nbd_device ev d c)"
proof -
  show c: "keeps (\<lambda>s. host_files s = F) (call ev cmd r)" for cmd r by (rule keeps_call) simp
  show sl: "keeps (\<lambda>s. host_files s = F) (mgr_sleep ev t)" for t
    unfolding mgr_sleep_def by (rule keeps_modify) simp
  show i: "keeps (\<lambda>s. host_files s = F) (is_nbd_device_connected ev d)"
    unfolding is_nbd_device_connected_def by (intro keeps_intros c)
  show "keeps (\<lambda>s. host_files s = F) (wait_for_nbd_device ev d c)"
    unfolding wait_for_nbd_device_def by (intro keeps_intros keeps_wait_loop i sl)
qed

lemma remove_info:
  assumes "\<forall>f k. ev_removable ev f k"
  shows "remove_persistent_connect_info ev (dev_name n) s
    = (Inr (), s\<lparr>host_files := (host_files s)(PERSISTENT_INFO_DIR @ ''/'' @ nat_str n := None)\<rparr>)"
  using assms
  by (cases "host_files s (PERSISTENT_INFO_DIR @ ''/'' @ nat_str n)")
    (simp_all add: remove_persistent_connect_info_def info_filename_dev_name catch_def bnd_def lift_sum_def
      remove_file_def ret_def fun_upd_idem)

text \<open>The part of a disconnection after the device was found connected.\<close>

definition disconnect_rest :: "'k nbd_env \<Rightarrow> string \<Rightarrow> ('k, unit) mgr" where
  "disconnect_rest ev d = bnd (call ev [''nbd-client'', ''-disconnect'', d] True) (\<lambda>_. wait_for_nbd_device ev d False)"

lemma disconnect_rest_outcome:
  assumes "check_reports ev conn" "disconnect_rest ev d s = (r, s')"
    "r = Inr x \<or> r = Inl (NbdDeviceNotFound d')"
  shows "ev_exists ev d (machine s') \<longrightarrow> d \<notin> conn (machine s')" "host_files s' = host_files s"
proof -
  have "keeps (\<lambda>t. host_files t = host_files s) (disconnect_rest ev d)"
    unfolding disconnect_rest_def by (intro keeps_intros keeps_files)
  from keepsD [OF this, of s] show "host_files s' = host_files s" using assms(2) by simp
  obtain q t where q: "call ev [''nbd-client'', ''-disconnect'', d] True s = (q, t)" by fastforce
  have nf: "q \<noteq> Inl (NbdDeviceNotFound d')" using q by (auto simp: call_def Let_def split: prod.splits if_splits)
  with assms(2,3) q obtain y where "q = Inr y" "wait_for_nbd_device ev d False t = (r, s')"
    by (cases q) (auto simp: disconnect_rest_def bnd_def)
  with assms(3) show "ev_exists ev d (machine s') \<longrightarrow> d \<notin> conn (machine s')"
    using wait_reached [OF assms(1), of d False t x s'] wait_not_found [of ev d False t d' s'] by auto
qed

lemma disconnect_cases:
  assumes "\<forall>f k. ev_removable ev f k" "disconnect_nbd_device ev (dev_name n) s = (Inr x, s')"
  obtains (gone) "is_nbd_device_connected ev (dev_name n) s = (Inl (NbdDeviceNotFound (dev_name n)), s')"
    | (idle) "is_nbd_device_connected ev (dev_name n) s = (Inr False, s')"
    | (busy) t r d' where "is_nbd_device_connected ev (dev_name n) s = (Inr True, t)"
        "disconnect_rest ev (dev_name n)
          (t\<lparr>host_files := (host_files t)(PERSISTENT_INFO_DIR @ ''/'' @ nat_str n := None)\<rparr>) = (r, s')"
        "r = Inr () \<or> r = Inl (NbdDeviceNotFound d')"
proof -
  let ?d = "dev_name n"
  obtain c t where c: "is_nbd_device_connected ev ?d s = (c, t)" by fastforce
  show thesis
  proof (cases c)
    case (Inl e)
    with assms(2) c have "e = NbdDeviceNotFound ?d \<and> s' = t"
      by (auto simp: disconnect_nbd_device_def catch_def bnd_def ret_def throw_def is_nbd_device_connected_def
          gets_def call_def Let_def split: mgr_error.splits prod.splits if_splits)
    with c Inl gone show ?thesis by simp
  next
    case (Inr b)
    let ?t = "t\<lparr>host_files := (host_files t)(PERSISTENT_INFO_DIR @ ''/'' @ nat_str n := None)\<rparr>"
    obtain r u where r: "disconnect_rest ev ?d ?t = (r, u)" by fastforce
    show ?thesis
    proof (cases b)
      case False
      with c Inr assms(2) have "s' = t" by (simp add: disconnect_nbd_device_def catch_def bnd_def ret_def)
      with c Inr False idle show ?thesis by simp
    next
      case True
      have "disconnect_nbd_device ev ?d s = catch (\<lambda>_. (r, u)) (\<lambda>e. case e of NbdDeviceNotFound _ \<Rightarrow> ret () | _ \<Rightarrow> throw e) s"
        using c Inr True r remove_info [OF assms(1), of n t]
        by (simp add: disconnect_nbd_device_def catch_def bnd_def seq_def disconnect_rest_def)
      with assms(2) obtain d' where "r = Inr () \<or> r = Inl (NbdDeviceNotFound d')" "s' = u"
        by (cases r) (auto simp: catch_def ret_def throw_def split: mgr_error.splits)
      with c Inr True r show ?thesis by (intro busy [of t r d']) simp_all
    qed
  qed
qed

lemma disconnect_again:
  assumes "check_reports ev conn" "ev_exists ev d (machine s) \<longrightarrow> d \<notin> conn (machine s)"
  shows "\<exists>s'. disconnect_nbd_device ev d s = (Inr (), s') \<and> host_files s' = host_files s
    \<and> conn (machine s') = conn (machine s)
    \<and> set (issued s') \<subseteq> insert (lock_held s, [''nbd-client'', ''-check'', d]) (set (issued s))"
proof (cases "ev_exists ev d (machine s)")
  case False
  then show ?thesis
    by (simp add: disconnect_nbd_device_def is_nbd_device_connected_def catch_def bnd_def gets_def throw_def ret_def
        subset_insertI)
next
  case True
  obtain k' where k: "conn k' = conn (machine s)"
    "ev_run ev [''nbd-client'', ''-check'', d] (machine s) = (if d \<in> conn (machine s) then 0 else 1, k')"
    using assms(1) unfolding check_reports_def by blast
  from True assms(2) have "d \<notin> conn (machine s)" by simp
  with True k show ?thesis
    by (simp add: disconnect_nbd_device_def is_nbd_device_connected_def catch_def bnd_def gets_def ret_def call_def
        subset_insertI)
qed

text \<open>
  When disconnecting a device succeeds, the device, if its node is still
  there, is not connected, and if it was connected its information file is
  gone. Disconnecting it again succeeds, changes no file and no connection,
  and runs no command but the check of its state.
\<close>

theorem disconnect_idempotent:
  assumes "check_reports ev conn" "\<forall>f k. ev_removable ev f k"
    "disconnect_nbd_device ev (dev_name n) s = (Inr x, s')"
  shows "(ev_exists ev (dev_name n) (machine s') \<longrightarrow> dev_name n \<notin> conn (machine s'))
    \<and> (ev_exists ev (dev_name n) (machine s) \<and> dev_name n \<in> conn (machine s)
        \<longrightarrow> host_files s' (PERSISTENT_INFO_DIR @ ''/'' @ nat_str n) = None)
    \<and> (\<exists>s''. disconnect_nbd_device ev (dev_name n) s' = (Inr (), s'') \<and> host_files s'' = host_files s'
        \<and> conn (machine s'') = conn (machine s')
        \<and> set (issued s'') \<subseteq> insert (lock_held s', [''nbd-client'', ''-check'', dev_name n]) (set (issued s')))"
proof -
  let ?d = "dev_name n"
  have "(ev_exists ev ?d (machine s') \<longrightarrow> ?d \<notin> conn (machine s'))
      \<and> (ev_exists ev ?d (machine s) \<and> ?d \<in> conn (machine s) \<longrightarrow>
          host_files s' (PERSISTENT_INFO_DIR @ ''/'' @ nat_str n) = None)"
    using assms(2,3)
  proof (cases rule: disconnect_cases)
    case gone
    have "s' = s" using gone
      by (auto simp: is_nbd_device_connected_def bnd_def gets_def call_def throw_def ret_def Let_def
          split: if_splits prod.splits)
    with is_connected_not_found [OF gone] show ?thesis by simp
  next
    case idle
    with is_connected_reports [OF assms(1) idle] show ?thesis by simp
  next
    case (busy t r d')
    from disconnect_rest_outcome [OF assms(1) busy(2,3)] show ?thesis by simp
  qed
  with disconnect_again [OF assms(1), of ?d s'] show ?thesis by blast
qed

lemma demo_disconnect: "fst (disconnect_nbd_device demo_env (dev_name 0) demo_host) = Inr ()"
  by code_simp

theorem disconnect_idempotent_witness:
  "dev_name 0 \<notin> demo_conn (machine (snd (disconnect_nbd_device demo_env (dev_name 0) demo_host)))"
proof -
  have "disconnect_nbd_device demo_env (dev_name 0) demo_host
      = (Inr (), snd (disconnect_nbd_device demo_env (dev_name 0) demo_host))"
    using demo_disconnect by (metis prod.collapse)
  moreover have "\<forall>f k. ev_removable demo_env f k" by (simp add: demo_env_def)
  moreover have "dev_name 0 = ''/dev/nbd0''" by code_simp
  then have "ev_exists demo_env (dev_name 0) k" for k by (simp add: demo_env_def)
  ultimately show ?thesis using disconnect_idempotent [OF demo_reports] by blast
qed

end
