(* ===== verification/Simple_Volume.thy ===== *)
theory Simple_Volume
  imports Py_Url "HOL-Library.AList"
begin

text \<open>
  The file-based example storage of xapi-storage: the storage repository
  (\<^verbatim>\<open>sr.py\<close>) and its volumes (\<^verbatim>\<open>volume.py\<close>) of
  \<^verbatim>\<open>examples/volume/org.xen.xapi.storage.simple-file\<close>. The files are an
  association list in the order the directory lists them. The content of a
  file is its bytes or, for a metadata file, the JSON object it holds. The
  random identifier of a new volume and the answers of \<^verbatim>\<open>os.path\<close> and
  \<^verbatim>\<open>os.statvfs\<close> are arguments.
\<close>

section \<open>Files\<close>

datatype sv_error =
    Sv_AssertionError
  | Sv_KeyError
  | Sv_OSError
  | FileNotFoundError
  | JSONDecodeError
  | SR_does_not_exist string
  | XenAPIException string "string list"

record meta =
  m_name :: string
  m_description :: string
  m_size :: int

datatype node = Data bytes | Json meta

type_synonym fs = "(string \<times> node) list"
type_synonym 'a vol = "(fs, sv_error, 'a) st"

definition fs_get :: "fs \<Rightarrow> string \<Rightarrow> node option" where
  "fs_get fs p = map_of fs p"

definition fs_put :: "string \<Rightarrow> node \<Rightarrow> fs \<Rightarrow> fs" where
  "fs_put p n fs = AList.update p n fs"

definition fs_del :: "string \<Rightarrow> fs \<Rightarrow> fs" where
  "fs_del p fs = AList.delete p fs"

text \<open>\<^verbatim>\<open>json.load\<close> of an opened file, \<^verbatim>\<open>json.dump\<close> to one, and \<^verbatim>\<open>os.unlink\<close>.\<close>

definition load_meta :: "string \<Rightarrow> meta vol" where
  "load_meta p = (\<lambda>fs.
     (case fs_get fs p of
        None \<Rightarrow> Inl FileNotFoundError
      | Some (Data _) \<Rightarrow> Inl JSONDecodeError
      | Some (Json m) \<Rightarrow> Inr m, fs))"

definition dump_meta :: "string \<Rightarrow> meta \<Rightarrow> unit vol" where
  "dump_meta p m = modify (fs_put p (Json m))"

definition unlink :: "string \<Rightarrow> unit vol" where
  "unlink p = (\<lambda>fs. if fs_get fs p = None then (Inl FileNotFoundError, fs) else (Inr (), fs_del p fs))"

text \<open>
  \<^verbatim>\<open>with open(p, 'w') as f: os.ftruncate(f.fileno(), size)\<close>: opening for
  writing empties the file, and what is added is zero.
\<close>

definition write_truncated :: "string \<Rightarrow> int \<Rightarrow> unit vol" where
  "write_truncated p sz = (\<lambda>fs.
     if sz < 0 then (Inl Sv_OSError, fs_put p (Data []) fs)
     else (Inr (), fs_put p (Data (replicate (nat sz) 0)) fs))"

section \<open>Volumes\<close>

record volume =
  v_uuid :: string
  v_key :: string
  v_name :: string
  v_description :: string
  v_read_write :: bool
  v_virtual_size :: int
  v_physical_utilisation :: int
  v_uri :: "string list"
  v_sharable :: bool

definition parse_sr :: "string \<Rightarrow> parsed_url \<times> (string \<times> string) list" where
  "parse_sr sr_uri = (let u = urlparse sr_uri in (u, parse_qs (url_query u)))"

definition create_volume_data ::
  "string \<Rightarrow> string \<Rightarrow> int \<Rightarrow> string list \<Rightarrow> string \<Rightarrow> volume" where
  "create_volume_data name description sz uris uuid =
     \<lparr>v_uuid = uuid, v_key = uuid, v_name = name, v_description = description, v_read_write = True,
      v_virtual_size = sz, v_physical_utilisation = sz, v_uri = uris, v_sharable = False\<rparr>"

definition int_str :: "int \<Rightarrow> string" where
  "int_str n = (if n < 0 then ''-'' @ nat_str (nat (- n)) else nat_str (nat n))"

definition volume_uris :: "string \<Rightarrow> string \<Rightarrow> int \<Rightarrow> string list" where
  "volume_uris sr_path name sz =
     [urlunparse ''blkback'' [] (path_join sr_path name) (urlencode [(''size'', int_str sz)])]"

definition volume_create ::
  "string \<Rightarrow> string \<Rightarrow> string \<Rightarrow> string \<Rightarrow> int \<Rightarrow> bool \<Rightarrow> volume vol" where
  "volume_create volume_uuid sr name description sz sharable =
     seq (require (\<not> sharable) Sv_AssertionError)
     (let sr_path = url_path (fst (parse_sr sr)); file_path = path_join sr_path volume_uuid in
      seq (write_truncated file_path sz)
      (seq (dump_meta (file_path @ ''.inf'') \<lparr>m_name = name, m_description = description, m_size = sz\<rparr>)
      (ret (create_volume_data name description sz (volume_uris sr_path name sz) volume_uuid))))"

definition volume_destroy :: "string \<Rightarrow> string \<Rightarrow> unit vol" where
  "volume_destroy sr key =
     (let file_path = path_join (url_path (fst (parse_sr sr))) key in
      seq (unlink (file_path @ ''.inf'')) (unlink file_path))"

definition stat_volume :: "string \<Rightarrow> string \<Rightarrow> volume vol" where
  "stat_volume sr_path volume_id =
     bnd (load_meta (path_join sr_path volume_id @ ''.inf'')) (\<lambda>meta.
     ret (create_volume_data (m_name meta) (m_description meta) (m_size meta)
       (volume_uris sr_path volume_id (m_size meta)) volume_id))"

definition volume_stat :: "string \<Rightarrow> string \<Rightarrow> volume vol" where
  "volume_stat sr key = stat_volume (url_path (fst (parse_sr sr))) key"

definition volume_set_name :: "string \<Rightarrow> string \<Rightarrow> string \<Rightarrow> unit vol" where
  "volume_set_name sr key new_name =
     (let inf = path_join (url_path (fst (parse_sr sr))) key @ ''.inf'' in
      bnd (load_meta inf) (\<lambda>meta. dump_meta inf (meta\<lparr>m_name := new_name\<rparr>)))"

definition volume_set_description :: "string \<Rightarrow> string \<Rightarrow> string \<Rightarrow> unit vol" where
  "volume_set_description sr key new_description =
     (let inf = path_join (url_path (fst (parse_sr sr))) key @ ''.inf'' in
      bnd (load_meta inf) (\<lambda>meta. dump_meta inf (meta\<lparr>m_description := new_description\<rparr>)))"

definition volume_set :: "string \<Rightarrow> string \<Rightarrow> string \<Rightarrow> string \<Rightarrow> unit vol" where
  "volume_set sr key k v = ret ()"

definition volume_resize :: "string \<Rightarrow> string \<Rightarrow> int \<Rightarrow> unit vol" where
  "volume_resize sr key new_size =
     (let file_path = path_join (url_path (fst (parse_sr sr))) key in
      bnd (load_meta (file_path @ ''.inf'')) (\<lambda>meta.
      seq (require (\<not> new_size < m_size meta)
             (XenAPIException ''SR_BACKEND_FAILURE_79'' [''VDI Invalid size'', ''shrinking not allowed'']))
      (seq (write_truncated file_path new_size)
      (dump_meta (file_path @ ''.inf'') (meta\<lparr>m_size := new_size\<rparr>)))))"

text \<open>
  \<^verbatim>\<open>glob.glob(os.path.join(sr_path, '*.inf'))\<close>, for a directory without wildcard
  characters: the names of the directory that end so and are not hidden. Of
  each match only the base name is used.
\<close>

definition dir_of :: "string \<Rightarrow> string" where
  "dir_of sr_path = path_join sr_path []"

definition dir_entry :: "string \<Rightarrow> string \<Rightarrow> string option" where
  "dir_entry sr_path p =
    (let d = dir_of sr_path; name = drop (length d) p in
     if take (length d) p = d \<and> name \<noteq> [] \<and> CHR ''/'' \<notin> set name then Some name else None)"

definition inf_key :: "string \<Rightarrow> string option" where
  "inf_key name =
    (let n = length name - 4 in
     if 4 \<le> length name \<and> drop n name = ''.inf'' \<and> take 1 name \<noteq> ''.'' then Some (take n name) else None)"

definition glob_inf :: "string \<Rightarrow> fs \<Rightarrow> string list" where
  "glob_inf sr_path fs =
     List.map_filter (\<lambda>(p, _). Option.bind (dir_entry sr_path p) inf_key) fs"

fun stat_all :: "string \<Rightarrow> string list \<Rightarrow> volume list vol" where
  "stat_all sr_path [] = ret []"
| "stat_all sr_path (k # ks) =
     bnd (stat_volume sr_path k) (\<lambda>v. bnd (stat_all sr_path ks) (\<lambda>vs. ret (v # vs)))"

definition volume_ls :: "string \<Rightarrow> volume list vol" where
  "volume_ls sr =
    (let sr_path = url_path (urlparse sr) in
     bnd (gets (glob_inf sr_path)) (\<lambda>keys. stat_all sr_path keys))"

section \<open>Storage repositories\<close>

type_synonym config = "(string \<times> string) list"

definition conf_get :: "config \<Rightarrow> string \<Rightarrow> sv_error + string" where
  "conf_get c k = (case map_of c k of None \<Rightarrow> Inl Sv_KeyError | Some v \<Rightarrow> Inr v)"

definition sr_probe :: "config \<Rightarrow> config list" where
  "sr_probe configuration = []"

definition sr_create ::
  "(string \<Rightarrow> bool) \<Rightarrow> string \<Rightarrow> config \<Rightarrow> string \<Rightarrow> string \<Rightarrow> sv_error + config" where
  "sr_create isdir uuid configuration name description =
     sbind (conf_get configuration ''path'') (\<lambda>sr_path.
     if \<not> isdir sr_path then Inl (SR_does_not_exist sr_path)
     else Inr (AList.update ''description'' description
           (AList.update ''name'' name (AList.update ''uuid'' uuid configuration))))"

definition sr_attach :: "config \<Rightarrow> sv_error + string" where
  "sr_attach configuration =
     sbind (conf_get configuration ''path'') (\<lambda>path.
     Inr (urlunparse ''file'' [] path (urlencode configuration)))"

definition sr_detach :: "string \<Rightarrow> unit vol" where
  "sr_detach sr = ret ()"

definition sr_destroy :: "string \<Rightarrow> unit vol" where
  "sr_destroy sr = ret ()"

record sr_info =
  sr_uri :: string
  sr_name :: string
  sr_uuid :: string
  sr_description :: string
  sr_free_space :: int
  sr_total_space :: int

text \<open>\<^verbatim>\<open>os.statvfs\<close> as blocks, free blocks and fragment size, or an \<^verbatim>\<open>OSError\<close>.\<close>

definition sr_stat :: "(string \<Rightarrow> (int \<times> int \<times> int) option) \<Rightarrow> string \<Rightarrow> sv_error + sr_info" where
  "sr_stat statvfs sr =
    (let u = urlparse sr; config = parse_qs (url_query u);
         description = (if qs_get ''description'' config \<noteq> [] then hd (qs_get ''description'' config) else []) in
     case statvfs (url_path u) of
       None \<Rightarrow> Inl Sv_OSError
     | Some (f_blocks, f_bfree, f_frsize) \<Rightarrow>
        if qs_get ''name'' config = [] \<or> qs_get ''uuid'' config = [] then Inl Sv_KeyError
        else Inr \<lparr>sr_uri = sr, sr_name = hd (qs_get ''name'' config), sr_uuid = hd (qs_get ''uuid'' config),
          sr_description = description, sr_free_space = f_bfree * f_frsize, sr_total_space = f_blocks * f_frsize\<rparr>)"

definition sr_set_name :: "string \<Rightarrow> string \<Rightarrow> unit vol" where
  "sr_set_name sr new_name = ret ()"

definition sr_set_description :: "string \<Rightarrow> string \<Rightarrow> unit vol" where
  "sr_set_description sr new_description = ret ()"

definition sr_ls :: "string \<Rightarrow> volume list vol" where
  "sr_ls sr = volume_ls sr"

end
