(* ===== verification/Simple_Volume_Proofs.thy ===== *)
theory Simple_Volume_Proofs
  imports Simple_Volume
begin

text \<open>
  The properties of the file-based storage: metadata and data files agree,
  what is created is found, what the operations change and what they leave
  alone, and the configuration that survives attaching.
\<close>

section \<open>Files as a store\<close>

locale file_store =
  fixes get :: "'f \<Rightarrow> 'p \<Rightarrow> 'n option" and put :: "'p \<Rightarrow> 'n \<Rightarrow> 'f \<Rightarrow> 'f" and del :: "'p \<Rightarrow> 'f \<Rightarrow> 'f"
  assumes get_put: "get (put p n f) q = (if q = p then Some n else get f q)"
    and get_del: "get (del p f) q = (if q = p then None else get f q)"
begin

lemma get_put_same [simp]: "get (put p n f) p = Some n"
  by (simp add: get_put)

lemma get_put_other: "q \<noteq> p \<Longrightarrow> get (put p n f) q = get f q"
  by (simp add: get_put)

text \<open>A property of pairs of a file and its companion survives a change of both.\<close>

lemma pairs_put:
  assumes pairs: "\<And>k. K k \<Longrightarrow> get f (c k) = Some x \<Longrightarrow> P x (get f (d k))"
    and inj: "\<And>j k. K j \<Longrightarrow> K k \<Longrightarrow> d j = d k \<or> c j = c k \<Longrightarrow> j = k"
    and sep: "\<And>j k. K j \<Longrightarrow> K k \<Longrightarrow> c j \<noteq> d k"
    and "K i" "K k" "P y (Some n)" "get (put (c i) y (put (d i) n f)) (c k) = Some x"
  shows "P x (get (put (c i) y (put (d i) n f)) (d k))"
proof (cases "k = i")
  case True
  with assms sep [OF \<open>K i\<close> \<open>K i\<close>, symmetric] show ?thesis by (auto simp: get_put)
next
  case False
  with assms have "d k \<noteq> d i" "c k \<noteq> c i" "d k \<noteq> c i" "c k \<noteq> d i" by metis+
  with assms show ?thesis by (auto simp: get_put)
qed

end

interpretation vfs: file_store fs_get fs_put fs_del
  by unfold_locales (auto simp: fs_get_def fs_put_def fs_del_def update_conv' delete_conv')

section \<open>Keys and paths\<close>

text \<open>A key as \<^verbatim>\<open>uuid4\<close> makes them: a plain name, not that of a metadata file.\<close>

definition vkey :: "string \<Rightarrow> bool" where
  "vkey k \<longleftrightarrow> k \<noteq> [] \<and> CHR ''/'' \<notin> set k \<and> CHR ''.'' \<notin> set k"

definition data_file :: "string \<Rightarrow> string \<Rightarrow> string" where
  "data_file sr_path k = path_join sr_path k"

definition inf_file :: "string \<Rightarrow> string \<Rightarrow> string" where
  "inf_file sr_path k = data_file sr_path k @ ''.inf''"

lemma path_join_plain: "CHR ''/'' \<notin> set k \<Longrightarrow> path_join p k = dir_of p @ k"
  by (cases k) (auto simp: path_join_def dir_of_def)

lemma data_file_eq: "vkey k \<Longrightarrow> data_file p k = dir_of p @ k" "vkey k \<Longrightarrow> inf_file p k = dir_of p @ k @ ''.inf''"
  by (simp_all add: data_file_def inf_file_def vkey_def path_join_plain)

lemma file_inj: "vkey j \<Longrightarrow> vkey k \<Longrightarrow> data_file p j = data_file p k \<longleftrightarrow> j = k"
  "vkey j \<Longrightarrow> vkey k \<Longrightarrow> inf_file p j = inf_file p k \<longleftrightarrow> j = k"
  by (simp_all add: data_file_eq)

lemma inf_not_data: "vkey j \<Longrightarrow> vkey k \<Longrightarrow> inf_file p j \<noteq> data_file p k"
  "vkey j \<Longrightarrow> vkey k \<Longrightarrow> data_file p k \<noteq> inf_file p j"
  by (auto simp: data_file_eq vkey_def)

section \<open>The invariant\<close>

definition sr_dir :: "string \<Rightarrow> string" where
  "sr_dir sr = url_path (urlparse sr)"

text \<open>Every metadata file has its data file, of the recorded size.\<close>

definition sized :: "node \<Rightarrow> node option \<Rightarrow> bool" where
  "sized x d \<longleftrightarrow> (\<forall>m. x = Json m \<longrightarrow> (\<exists>bs. d = Some (Data bs) \<and> int (length bs) = m_size m))"

definition volumes_ok :: "string \<Rightarrow> fs \<Rightarrow> bool" where
  "volumes_ok p fs \<longleftrightarrow> (\<forall>k x. vkey k \<longrightarrow> fs_get fs (inf_file p k) = Some x \<longrightarrow> sized x (fs_get fs (data_file p k)))"

lemma volumes_okD:
  "volumes_ok p fs \<Longrightarrow> vkey k \<Longrightarrow> fs_get fs (inf_file p k) = Some (Json m) \<Longrightarrow>
     \<exists>bs. fs_get fs (data_file p k) = Some (Data bs) \<and> int (length bs) = m_size m"
  by (fastforce simp: volumes_ok_def sized_def)

lemma volumes_ok_put:
  assumes "volumes_ok p fs" "vkey i" "sized y (Some n)"
  shows "volumes_ok p (fs_put (inf_file p i) y (fs_put (data_file p i) n fs))"
  unfolding volumes_ok_def
proof (intro allI impI)
  fix k x assume "vkey k" "fs_get (fs_put (inf_file p i) y (fs_put (data_file p i) n fs)) (inf_file p k) = Some x"
  then show "sized x (fs_get (fs_put (inf_file p i) y (fs_put (data_file p i) n fs)) (data_file p k))"
    using assms inf_not_data file_inj
    by (intro vfs.pairs_put [where K = vkey and P = sized]) (auto simp: volumes_ok_def)
qed

section \<open>The operations on the files\<close>

text \<open>The operations with the directory of the repository and the file names written out.\<close>

lemmas volume_op_defs = parse_sr_def sr_dir_def [symmetric] data_file_def [symmetric] inf_file_def [symmetric]
  seq_def bnd_def modify_def ret_def require_def Let_def

lemma volume_create_eq:
  "volume_create u sr name descr sz False fs =
     (if sz < 0 then (Inl Sv_OSError, fs_put (data_file (sr_dir sr) u) (Data []) fs)
      else (Inr (create_volume_data name descr sz (volume_uris (sr_dir sr) name sz) u),
        fs_put (inf_file (sr_dir sr) u) (Json \<lparr>m_name = name, m_description = descr, m_size = sz\<rparr>)
          (fs_put (data_file (sr_dir sr) u) (Data (replicate (nat sz) 0)) fs)))"
  by (simp add: volume_create_def write_truncated_def dump_meta_def volume_op_defs)

lemma load_meta_eq:
  "load_meta f fs = (case fs_get fs f of None \<Rightarrow> (Inl FileNotFoundError, fs)
     | Some (Data bs) \<Rightarrow> (Inl JSONDecodeError, fs) | Some (Json m) \<Rightarrow> (Inr m, fs))"
  by (simp add: load_meta_def split: option.split node.split)

lemma volume_stat_eq:
  "volume_stat sr k fs = stat_volume (sr_dir sr) k fs"
  "fs_get fs (inf_file p k) = Some (Json m) \<Longrightarrow> stat_volume p k fs =
     (Inr (create_volume_data (m_name m) (m_description m) (m_size m) (volume_uris p k (m_size m)) k), fs)"
  "fs_get fs (inf_file p k) = None \<Longrightarrow> stat_volume p k fs = (Inl FileNotFoundError, fs)"
  by (simp_all add: volume_stat_def stat_volume_def load_meta_eq volume_op_defs)

lemma volume_set_eq:
  "fs_get fs (inf_file (sr_dir sr) k) = Some (Json m) \<Longrightarrow>
     volume_set_name sr k nm fs = (Inr (), fs_put (inf_file (sr_dir sr) k) (Json (m\<lparr>m_name := nm\<rparr>)) fs)"
  "fs_get fs (inf_file (sr_dir sr) k) = Some (Json m) \<Longrightarrow>
     volume_set_description sr k nm fs = (Inr (), fs_put (inf_file (sr_dir sr) k) (Json (m\<lparr>m_description := nm\<rparr>)) fs)"
  by (simp_all add: volume_set_name_def volume_set_description_def load_meta_eq dump_meta_def volume_op_defs)

lemma volume_resize_eq:
  "fs_get fs (inf_file (sr_dir sr) k) = Some (Json m) \<Longrightarrow> 0 \<le> m_size m \<Longrightarrow>
     volume_resize sr k sz fs =
       (if sz < m_size m
        then (Inl (XenAPIException ''SR_BACKEND_FAILURE_79'' [''VDI Invalid size'', ''shrinking not allowed'']), fs)
        else (Inr (), fs_put (inf_file (sr_dir sr) k) (Json (m\<lparr>m_size := sz\<rparr>))
               (fs_put (data_file (sr_dir sr) k) (Data (replicate (nat sz) 0)) fs)))"
  by (simp add: volume_resize_def load_meta_eq dump_meta_def write_truncated_def volume_op_defs)

text \<open>Operations on a metadata file that is missing or is not JSON change nothing.\<close>

lemma no_meta_no_change:
  assumes "\<nexists>m. fs_get fs (inf_file (sr_dir sr) k) = Some (Json m)"
  shows "snd (volume_set_name sr k nm fs) = fs" "snd (volume_set_description sr k nm fs) = fs"
    "snd (volume_resize sr k sz fs) = fs"
proof -
  obtain e where "load_meta (inf_file (sr_dir sr) k) fs = (Inl e, fs)"
  proof (cases "fs_get fs (inf_file (sr_dir sr) k)")
    case (Some x)
    with assms that show ?thesis by (cases x) (simp_all add: load_meta_eq)
  qed (simp add: load_meta_eq)
  then show "snd (volume_set_name sr k nm fs) = fs" "snd (volume_set_description sr k nm fs) = fs"
    "snd (volume_resize sr k sz fs) = fs"
    by (simp_all add: volume_set_name_def volume_set_description_def volume_resize_def volume_op_defs)
qed

lemma volumes_ok_update_meta:
  assumes "volumes_ok p fs" "vkey k" "fs_get fs (inf_file p k) = Some (Json m)" "m_size m' = m_size m"
  shows "volumes_ok p (fs_put (inf_file p k) (Json m') fs)"
  unfolding volumes_ok_def
proof (intro allI impI)
  fix j x assume j: "vkey j" "fs_get (fs_put (inf_file p k) (Json m') fs) (inf_file p j) = Some x"
  have d: "fs_get (fs_put (inf_file p k) (Json m') fs) (data_file p j) = fs_get fs (data_file p j)"
    using inf_not_data(2) [OF assms(2) j(1)] by (simp add: vfs.get_put)
  show "sized x (fs_get (fs_put (inf_file p k) (Json m') fs) (data_file p j))"
  proof (cases "j = k")
    case True
    with j have "x = Json m'" by simp
    then show ?thesis using volumes_okD [OF assms(1,2,3)] True assms(4) d by (auto simp: sized_def)
  next
    case False
    with j assms(2) have "fs_get fs (inf_file p j) = Some x" by (auto simp: vfs.get_put file_inj)
    then show ?thesis using assms(1) j(1) d by (simp add: volumes_ok_def)
  qed
qed

lemma volumes_ok_destroy:
  assumes "volumes_ok (sr_dir sr) fs" "vkey k"
  shows "volumes_ok (sr_dir sr) (snd (volume_destroy sr k fs))"
proof -
  let ?p = "sr_dir sr"
  have eq: "volume_destroy sr k fs = seq (unlink (inf_file ?p k)) (unlink (data_file ?p k)) fs"
    by (simp add: volume_destroy_def parse_sr_def sr_dir_def inf_file_def data_file_def Let_def)
  show ?thesis
  proof (cases "fs_get fs (inf_file ?p k)")
    case None
    with assms(1) show ?thesis unfolding eq by (simp add: unlink_def seq_def bnd_def)
  next
    case (Some x)
    let ?g = "fs_del (inf_file ?p k) fs"
    have "snd (volume_destroy sr k fs) = ?g \<or> snd (volume_destroy sr k fs) = fs_del (data_file ?p k) ?g"
      unfolding eq using Some by (simp add: unlink_def seq_def bnd_def)
    then show ?thesis
      using assms inf_not_data [OF _ assms(2)] inf_not_data(2) [OF assms(2)] file_inj [OF _ assms(2)]
      by (auto simp: volumes_ok_def vfs.get_del split: if_splits)
  qed
qed

lemma volumes_ok_create:
  assumes "volumes_ok (sr_dir sr) fs" "vkey key" "fs_get fs (inf_file (sr_dir sr) key) = None"
  shows "volumes_ok (sr_dir sr) (snd (volume_create key sr name description sz sharable fs))"
proof (cases sharable)
  case True
  with assms(1) show ?thesis by (simp add: volume_create_def seq_def bnd_def require_def)
next
  case False
  have "volumes_ok (sr_dir sr) (fs_put (data_file (sr_dir sr) key) (Data []) fs)"
    using assms inf_not_data [OF _ assms(2)] file_inj [OF _ assms(2)]
    by (auto simp: volumes_ok_def vfs.get_put split: if_splits)
  moreover have "sized (Json \<lparr>m_name = name, m_description = description, m_size = sz\<rparr>)
      (Some (Data (replicate (nat sz) 0)))" if "0 \<le> sz"
    using that by (simp add: sized_def)
  ultimately show ?thesis
    using False volumes_ok_put [OF assms(1,2)] by (auto simp: volume_create_eq)
qed

lemma volumes_ok_edit:
  assumes "volumes_ok (sr_dir sr) fs" "vkey key"
  shows "volumes_ok (sr_dir sr) (snd (volume_set_name sr key name fs))"
    "volumes_ok (sr_dir sr) (snd (volume_set_description sr key description fs))"
    "volumes_ok (sr_dir sr) (snd (volume_resize sr key sz fs))"
proof -
  consider m where "fs_get fs (inf_file (sr_dir sr) key) = Some (Json m)"
    | "\<nexists>m. fs_get fs (inf_file (sr_dir sr) key) = Some (Json m)" by blast
  then have "volumes_ok (sr_dir sr) (snd (volume_set_name sr key name fs))
    \<and> volumes_ok (sr_dir sr) (snd (volume_set_description sr key description fs))
    \<and> volumes_ok (sr_dir sr) (snd (volume_resize sr key sz fs))"
  proof cases
    case 1
    moreover have "0 \<le> m_size m" using volumes_okD [OF assms(1,2) 1] by auto
    moreover have "sized (Json (m\<lparr>m_size := sz\<rparr>)) (Some (Data (replicate (nat sz) 0)))" if "0 \<le> sz"
      using that by (simp add: sized_def)
    ultimately show ?thesis
      using volumes_ok_update_meta [OF assms(1,2) 1] volumes_ok_put [OF assms(1,2)] assms(1)
      by (auto simp: volume_set_eq volume_resize_eq)
  next
    case 2
    with assms(1) show ?thesis by (simp add: no_meta_no_change)
  qed
  then show "volumes_ok (sr_dir sr) (snd (volume_set_name sr key name fs))"
    "volumes_ok (sr_dir sr) (snd (volume_set_description sr key description fs))"
    "volumes_ok (sr_dir sr) (snd (volume_resize sr key sz fs))" by auto
qed

text \<open>
  C10: In every state of a repository in which each metadata file has a data
  file of the size it records, every operation on volumes, whether it
  succeeds or fails, leads to such a state again. A new volume is assumed to
  have a fresh identifier.
\<close>

theorem volumes_stay_consistent:
  assumes "volumes_ok (sr_dir sr) fs" "vkey key"
    "fresh \<longrightarrow> fs_get fs (inf_file (sr_dir sr) key) = None"
  shows "(fresh \<longrightarrow> volumes_ok (sr_dir sr) (snd (volume_create key sr name description sz sharable fs)))
    \<and> volumes_ok (sr_dir sr) (snd (volume_destroy sr key fs))
    \<and> volumes_ok (sr_dir sr) (snd (volume_set_name sr key name fs))
    \<and> volumes_ok (sr_dir sr) (snd (volume_set_description sr key description fs))
    \<and> volumes_ok (sr_dir sr) (snd (volume_resize sr key sz fs))"
  using volumes_ok_create [OF assms(1,2)] volumes_ok_destroy [OF assms(1,2)] volumes_ok_edit [OF assms(1,2)] assms(3) by blast

definition example_sr :: string where
  "example_sr = ''file:///srv?path=%2Fsrv&uuid=u&name=n''"

definition example_fs :: fs where
  "example_fs = [(''/srv/a1'', Data [1, 2, 3]),
     (''/srv/a1.inf'', Json \<lparr>m_name = ''disk'', m_description = [], m_size = 3\<rparr>)]"

lemma example_dir: "sr_dir example_sr = ''/srv''"
  by code_simp

lemma example_ok: "volumes_ok (sr_dir example_sr) example_fs"
proof -
  have d: "dir_of (sr_dir example_sr) = ''/srv/''" by code_simp
  have "k = ''a1'' \<and> x = Json \<lparr>m_name = ''disk'', m_description = [], m_size = 3\<rparr>"
    if "vkey k" "fs_get example_fs (inf_file (sr_dir example_sr) k) = Some x" for k x
    using that by (auto simp: data_file_eq d example_fs_def fs_get_def vkey_def split: if_splits)
  note only = this
  have "vkey ''a1''" by (simp add: vkey_def)
  then have "data_file (sr_dir example_sr) ''a1'' = ''/srv/a1''" by (simp add: data_file_eq d)
  then have "sized (Json \<lparr>m_name = ''disk'', m_description = [], m_size = 3\<rparr>)
      (fs_get example_fs (data_file (sr_dir example_sr) ''a1''))"
    by (simp add: sized_def example_fs_def fs_get_def)
  then show ?thesis unfolding volumes_ok_def using only by blast
qed

theorem volumes_stay_consistent_witness:
  "volumes_ok (sr_dir example_sr) (snd (volume_resize example_sr ''a1'' 5 example_fs))"
  using volumes_stay_consistent [OF example_ok, of "''a1''" False] by (simp add: vkey_def)

section \<open>Listing\<close>

lemma inf_key_inf: "vkey k \<Longrightarrow> inf_key (k @ ''.inf'') = Some k"
  by (cases k) (auto simp: inf_key_def vkey_def)

lemma dir_entry_name: "name \<noteq> [] \<Longrightarrow> CHR ''/'' \<notin> set name \<Longrightarrow> dir_entry p (dir_of p @ name) = Some name"
  by (simp add: dir_entry_def)

lemma dir_entry_inf: "vkey k \<Longrightarrow> Option.bind (dir_entry p (inf_file p k)) inf_key = Some k"
  using dir_entry_name [of "k @ ''.inf''" p] by (simp add: data_file_eq inf_key_inf vkey_def)

lemma dir_entry_data: "vkey k \<Longrightarrow> Option.bind (dir_entry p (data_file p k)) inf_key = None"
proof -
  assume k: "vkey k"
  have "inf_key k = None"
  proof (rule ccontr)
    assume "inf_key k \<noteq> None"
    then have "drop (length k - 4) k = ''.inf''" by (auto simp: inf_key_def Let_def split: if_splits)
    then have "CHR ''.'' \<in> set k" by (metis in_set_dropD list.set_intros(1))
    with k show False by (simp add: vkey_def)
  qed
  with k show ?thesis by (simp add: data_file_eq dir_entry_name vkey_def)
qed

lemma fs_put_new: "fs_get fs p = None \<Longrightarrow> fs_put p n fs = fs @ [(p, n)]"
  unfolding fs_get_def fs_put_def by (induction fs) (auto split: if_splits)

lemma fs_put_both:
  assumes "vkey k" "fs_get fs (data_file p k) = None" "fs_get fs (inf_file p k) = None"
  shows "fs_put (inf_file p k) y (fs_put (data_file p k) n fs) = fs @ [(data_file p k, n), (inf_file p k, y)]"
proof -
  have "fs_get (fs @ [(data_file p k, n)]) (inf_file p k) = None"
    using assms(3) inf_not_data [OF assms(1,1)] by (simp add: fs_get_def)
  then show ?thesis using assms(2) by (simp add: fs_put_new)
qed

lemma glob_create:
  assumes "vkey k" "fs_get fs (data_file p k) = None" "fs_get fs (inf_file p k) = None"
  shows "glob_inf p (fs_put (inf_file p k) y (fs_put (data_file p k) n fs)) = glob_inf p fs @ [k]"
proof -
  show ?thesis
    unfolding fs_put_both [OF assms] using dir_entry_inf [OF assms(1)] dir_entry_data [OF assms(1)]
    by (simp add: glob_inf_def map_filter_def)
qed

lemma glob_mem:
  assumes "j \<in> set (glob_inf p fs)"
  shows "CHR ''/'' \<notin> set j" "fs_get fs (dir_of p @ j @ ''.inf'') \<noteq> None"
proof -
  from assms obtain f n where f: "(f, n) \<in> set fs" "Option.bind (dir_entry p f) inf_key = Some j"
    by (auto simp: glob_inf_def map_filter_def split: if_splits)
  then obtain name where name: "dir_entry p f = Some name" "inf_key name = Some j"
    by (auto simp: bind_eq_Some_conv)
  then have "f = dir_of p @ name" "CHR ''/'' \<notin> set name"
    by (auto simp: dir_entry_def Let_def split: if_splits) (metis append_take_drop_id)
  moreover have "name = j @ ''.inf''"
    using name(2) by (auto simp: inf_key_def Let_def split: if_splits) (metis append_take_drop_id)
  ultimately show "CHR ''/'' \<notin> set j" "fs_get fs (dir_of p @ j @ ''.inf'') \<noteq> None"
    using f(1) by (auto simp: fs_get_def map_of_eq_None_iff) force
qed

lemma stat_volume_cong:
  "fs_get fs (inf_file p k) = fs_get fs' (inf_file p k) \<Longrightarrow> stat_volume p k fs = (r, fs) \<Longrightarrow> stat_volume p k fs' = (r, fs')"
  by (auto simp: stat_volume_def load_meta_eq bnd_def ret_def inf_file_def data_file_def
      split: option.splits node.splits)

lemma stat_volume_fs: "snd (stat_volume p k fs) = fs"
  by (simp add: stat_volume_def load_meta_eq bnd_def ret_def split: option.split node.split)

lemma stat_all_cong:
  assumes "\<forall>k \<in> set ks. fs_get fs (inf_file p k) = fs_get fs' (inf_file p k)" "stat_all p ks fs = (Inr vs, fs)"
  shows "stat_all p ks fs' = (Inr vs, fs')"
  using assms
proof (induction ks arbitrary: vs)
  case (Cons k ks)
  obtain r t where r: "stat_volume p k fs = (r, t)" by fastforce
  with stat_volume_fs [of p k fs] have r: "stat_volume p k fs = (r, fs)" by simp
  from Cons.prems(2) r obtain v ws where v: "r = Inr v" and ws: "stat_all p ks fs = (Inr ws, fs)" and "vs = v # ws"
    by (cases r) (auto simp: ret_def elim!: bnd_InrE)
  with Cons r stat_volume_cong [of fs p k fs'] show ?case by (simp add: bnd_def ret_def)
qed (simp add: ret_def)

lemma stat_all_append:
  "stat_all p ks fs = (Inr vs, fs) \<Longrightarrow> stat_volume p k fs = (Inr v, fs) \<Longrightarrow> stat_all p (ks @ [k]) fs = (Inr (vs @ [v]), fs)"
proof (induction ks arbitrary: vs)
  case (Cons j ks)
  obtain r t where "stat_volume p j fs = (r, t)" by fastforce
  with stat_volume_fs [of p j fs] have r: "stat_volume p j fs = (r, fs)" by simp
  from Cons.prems(1) r obtain w ws where "r = Inr w" "stat_all p ks fs = (Inr ws, fs)" "vs = w # ws"
    by (cases r) (auto simp: ret_def elim!: bnd_InrE)
  with Cons r show ?case by (simp add: bnd_def ret_def)
qed (simp add: ret_def bnd_def)

lemma volume_ls_eq: "volume_ls sr fs = stat_all (sr_dir sr) (glob_inf (sr_dir sr) fs) fs"
  by (simp add: volume_ls_def sr_dir_def Let_def bnd_def gets_def)

lemma fs_del_new: "fs_get fs p = None \<Longrightarrow> fs_del p fs = fs"
  unfolding fs_get_def fs_del_def by (simp add: delete_idem map_of_eq_None_iff)

text \<open>
  A volume that is created with a fresh identifier is found: its metadata
  are those given, its data are zero bytes of the given size, listing gives
  the old volumes and then the new one, no other file changes, and destroying
  it gives the files back as they were. Only the URI differs from what
  creating returned: there it is made of the name, not of the identifier.
\<close>

theorem created_volume_found:
  assumes "vkey u" "fs_get fs (data_file (sr_dir sr) u) = None" "fs_get fs (inf_file (sr_dir sr) u) = None"
    "0 \<le> sz" "volume_ls sr fs = (Inr vs, fs)"
  shows "\<exists>v w fs'. volume_create u sr name description sz False fs = (Inr v, fs')
    \<and> v_name v = name \<and> v_description v = description \<and> v_virtual_size v = sz \<and> v_key v = u
    \<and> v_uri v = volume_uris (sr_dir sr) name sz \<and> w = v\<lparr>v_uri := volume_uris (sr_dir sr) u sz\<rparr>
    \<and> volume_stat sr u fs' = (Inr w, fs')
    \<and> volume_ls sr fs' = (Inr (vs @ [w]), fs')
    \<and> fs_get fs' (data_file (sr_dir sr) u) = Some (Data (replicate (nat sz) 0))
    \<and> (\<forall>f. f \<noteq> data_file (sr_dir sr) u \<longrightarrow> f \<noteq> inf_file (sr_dir sr) u \<longrightarrow> fs_get fs' f = fs_get fs f)
    \<and> volume_destroy sr u fs' = (Inr (), fs)"
proof -
  let ?p = "sr_dir sr"
  let ?m = "\<lparr>m_name = name, m_description = description, m_size = sz\<rparr>"
  let ?v = "create_volume_data name description sz (volume_uris ?p name sz) u"
  let ?w = "create_volume_data name description sz (volume_uris ?p u sz) u"
  let ?g = "fs_put (inf_file ?p u) (Json ?m) (fs_put (data_file ?p u) (Data (replicate (nat sz) 0)) fs)"
  note sep = inf_not_data [OF assms(1,1)]
  have meta: "fs_get ?g (inf_file ?p u) = Some (Json ?m)" by simp
  have data: "fs_get ?g (data_file ?p u) = Some (Data (replicate (nat sz) 0))"
    using sep by (simp add: vfs.get_put)
  have other: "fs_get ?g f = fs_get fs f" if "f \<noteq> data_file ?p u" "f \<noteq> inf_file ?p u" for f
    using that by (simp add: vfs.get_put)
  have st: "stat_volume ?p u ?g = (Inr ?w, ?g)" using volume_stat_eq(2) [OF meta] by simp
  have "fs_get fs (inf_file ?p j) = fs_get ?g (inf_file ?p j)" if "j \<in> set (glob_inf ?p fs)" for j
  proof -
    have j: "inf_file ?p j = dir_of ?p @ j @ ''.inf''"
      using glob_mem(1) [OF that] by (simp add: inf_file_def data_file_def path_join_plain)
    then have "inf_file ?p j \<noteq> inf_file ?p u" using glob_mem(2) [OF that] assms(3) by metis
    moreover have "inf_file ?p j \<noteq> data_file ?p u"
      using assms(1) j by (auto simp: data_file_eq vkey_def)
    ultimately show ?thesis using other by simp
  qed
  then have "stat_all ?p (glob_inf ?p fs) ?g = (Inr vs, ?g)"
    using stat_all_cong [of "glob_inf ?p fs" fs ?p ?g vs] assms(5) by (simp add: volume_ls_eq)
  then have ls: "volume_ls sr ?g = (Inr (vs @ [?w]), ?g)"
    using stat_all_append st glob_create [OF assms(1,2,3)] by (simp add: volume_ls_eq)
  have "volume_destroy sr u ?g = seq (unlink (inf_file ?p u)) (unlink (data_file ?p u)) ?g"
    by (simp add: volume_destroy_def parse_sr_def sr_dir_def inf_file_def data_file_def Let_def)
  also have "\<dots> = (Inr (), fs_del (data_file ?p u) (fs_del (inf_file ?p u) ?g))"
    using meta data sep by (simp add: unlink_def seq_def bnd_def vfs.get_del)
  also have "fs_del (data_file ?p u) (fs_del (inf_file ?p u) ?g) = fs"
    unfolding fs_put_both [OF assms(1,2,3)]
    using assms(2,3) sep fs_del_new by (simp add: fs_del_def AList.delete_eq)
  finally have "volume_destroy sr u ?g = (Inr (), fs)" .
  moreover have "volume_create u sr name description sz False fs = (Inr ?v, ?g)"
    using assms(4) by (simp add: volume_create_eq)
  ultimately show ?thesis
    using st ls data other
    by (intro exI [of _ ?v] exI [of _ ?w] exI [of _ ?g]) (simp add: volume_stat_eq(1) create_volume_data_def)
qed

theorem created_volume_found_witness:
  "volume_destroy ''file:///srv'' ''a1'' (snd (volume_create ''a1'' ''file:///srv'' ''disk'' [] 4 False [])) = (Inr (), [])"
proof -
  have "vkey ''a1''" by (simp add: vkey_def)
  moreover have "volume_ls ''file:///srv'' [] = (Inr [], [])" by code_simp
  ultimately show ?thesis
    using created_volume_found [of "''a1''" "[]" "''file:///srv''" 4 "[]" "''disk''" "[]"]
    by (auto simp: fs_get_def)
qed

section \<open>Resizing\<close>

text \<open>
  Enlarging a volume destroys its content: the file is opened for
  writing, which empties it, before it is extended, so that every byte reads
  as zero afterwards. A smaller size is refused without any change.
\<close>

theorem resize_loses_data:
  assumes "volumes_ok (sr_dir sr) fs" "vkey key" "fs_get fs (inf_file (sr_dir sr) key) = Some (Json m)"
  shows "(m_size m \<le> new_size \<longrightarrow> (\<exists>fs'. volume_resize sr key new_size fs = (Inr (), fs')
      \<and> fs_get fs' (data_file (sr_dir sr) key) = Some (Data (replicate (nat new_size) 0))
      \<and> fs_get fs' (inf_file (sr_dir sr) key) = Some (Json (m\<lparr>m_size := new_size\<rparr>))))
    \<and> (new_size < m_size m \<longrightarrow> volume_resize sr key new_size fs =
        (Inl (XenAPIException ''SR_BACKEND_FAILURE_79'' [''VDI Invalid size'', ''shrinking not allowed'']), fs))"
proof -
  have "0 \<le> m_size m" using volumes_okD [OF assms] by auto
  with assms(3) inf_not_data [OF assms(2,2)] show ?thesis
    by (auto simp: volume_resize_eq vfs.get_put)
qed

theorem resize_loses_data_witness:
  "fs_get example_fs ''/srv/a1'' = Some (Data [1, 2, 3])
   \<and> (\<exists>fs'. volume_resize example_sr ''a1'' 5 example_fs = (Inr (), fs')
       \<and> fs_get fs' ''/srv/a1'' = Some (Data [0, 0, 0, 0, 0]))"
proof -
  have v: "vkey ''a1''" by (simp add: vkey_def)
  have d: "data_file (sr_dir example_sr) ''a1'' = ''/srv/a1''" "inf_file (sr_dir example_sr) ''a1'' = ''/srv/a1.inf''"
    by code_simp+
  have m: "fs_get example_fs (inf_file (sr_dir example_sr) ''a1'')
      = Some (Json \<lparr>m_name = ''disk'', m_description = [], m_size = 3\<rparr>)"
    by (simp add: d example_fs_def fs_get_def)
  have "replicate (nat 5) (0 :: byte) = [0, 0, 0, 0, 0]" by (simp add: eval_nat_numeral)
  moreover have "fs_get example_fs ''/srv/a1'' = Some (Data [1, 2, 3])" by (simp add: example_fs_def fs_get_def)
  ultimately show ?thesis
    using resize_loses_data [OF example_ok v m, of 5] by (simp add: d) blast
qed

section \<open>Attaching a repository\<close>

text \<open>
  The URI that attaching returns carries the configuration: the
  directory read from it is the configured path, and the statistics have the
  name, identifier and description that were given when it was created. They
  fail with \<^verbatim>\<open>KeyError\<close> when the name or the identifier is empty, because empty
  values are dropped from the query; only the description allows for that.
\<close>

theorem sr_attach_roundtrip:
  assumes "distinct (map fst configuration)" "map_of configuration ''path'' = Some path" "plain_path path"
    "isdir path" "statvfs path = Some (f_blocks, f_bfree, f_frsize)"
  shows "\<exists>conf uri. sr_create isdir uuid configuration name description = Inr conf \<and> sr_attach conf = Inr uri
    \<and> sr_dir uri = path
    \<and> sr_stat statvfs uri = (if name = [] \<or> uuid = [] then Inl Sv_KeyError
        else Inr \<lparr>sr_uri = uri, sr_name = name, sr_uuid = uuid, sr_description = description,
          sr_free_space = f_bfree * f_frsize, sr_total_space = f_blocks * f_frsize\<rparr>)"
proof -
  let ?c = "AList.update ''description'' description (AList.update ''name'' name (AList.update ''uuid'' uuid configuration))"
  have d: "distinct (map fst ?c)" using assms(1) by (simp add: distinct_update)
  have m: "map_of ?c ''path'' = Some path" "map_of ?c ''name'' = Some name" "map_of ?c ''uuid'' = Some uuid"
    "map_of ?c ''description'' = Some description"
    using assms(2) by (simp_all add: update_conv')
  let ?u = "urlunparse ''file'' [] path (urlencode ?c)"
  have "urlparse ?u = \<lparr>url_scheme = ''file'', url_netloc = [], url_path = path, url_query = urlencode ?c,
      url_fragment = []\<rparr>"
    by (rule urlparse_urlunparse) (use assms(3) in simp_all)
  then show ?thesis
    using assms(2,4,5) m qs_get_filter [OF d]
    by (intro exI [of _ ?c] exI [of _ ?u])
      (auto simp: sr_create_def sr_attach_def conf_get_def sr_dir_def sr_stat_def Let_def)
qed

theorem sr_attach_roundtrip_witness:
  "\<exists>conf uri. sr_create (\<lambda>p. True) ''u'' [(''path'', ''/srv'')] [] ''d'' = Inr conf \<and> sr_attach conf = Inr uri
    \<and> sr_dir uri = ''/srv'' \<and> sr_stat (\<lambda>p. Some (1, 1, 1)) uri = Inl Sv_KeyError"
  using sr_attach_roundtrip [of "[(''path'', ''/srv'')]" "''/srv''" "\<lambda>p. True" "\<lambda>p. Some (1, 1, 1)" 1 1 1 "''u''" "[]" "''d''"]
  by (auto simp: plain_path_def)

end
