(* ===== verification/Blkback_Datapath.thy ===== *)
theory Blkback_Datapath
  imports Simple_Volume_Proofs
begin

text \<open>
  The example data path \<^verbatim>\<open>examples/datapath/blkback/datapath.py\<close> of xapi-storage,
  which makes loop devices of files, and \<^verbatim>\<open>call\<close> of \<^verbatim>\<open>xapi/storage/common.py\<close>.
  The programs run and the file system seen by \<^verbatim>\<open>os\<close> are an argument, with the
  state of the machine; the commands run are recorded.
\<close>

section \<open>Calling programs\<close>

datatype dp_error =
    Dp_FileNotFoundError
  | Dp_IndexError
  | Dp_AttributeError
  | InternalError "string list" int

text \<open>
  A program yields its exit code and its output; \<^verbatim>\<open>os.stat\<close> tells whether there
  is a file and whether it is a block device.
\<close>

record 'k dp_env =
  dp_popen :: "string list \<Rightarrow> 'k \<Rightarrow> (int \<times> string) \<times> 'k"
  dp_realpath :: "string \<Rightarrow> string"
  dp_isblk :: "string \<Rightarrow> 'k \<Rightarrow> bool option"

record 'k dp_state =
  dp_machine :: 'k
  dp_run :: "string list list"

type_synonym ('k, 'a) dp = "('k dp_state, dp_error, 'a) st"

text \<open>\<^verbatim>\<open>call\<close> with its defaults: an exit code that is not 0 is an error.\<close>

definition dp_call :: "'k dp_env \<Rightarrow> string list \<Rightarrow> ('k, string) dp" where
  "dp_call ev cmd_args = (\<lambda>s.
     case dp_popen ev cmd_args (dp_machine s) of
       ((returncode, stdout), k) \<Rightarrow>
         (if returncode \<noteq> 0 then Inl (InternalError cmd_args returncode) else Inr stdout,
          s\<lparr>dp_machine := k, dp_run := dp_run s @ [cmd_args]\<rparr>))"

section \<open>Block devices\<close>

datatype provider = BlockDevice string | Loop string string

definition block_device :: "provider \<Rightarrow> string" where
  "block_device p = (case p of BlockDevice dev \<Rightarrow> dev | Loop path loop \<Rightarrow> loop)"

definition provider_destroy :: "'k dp_env \<Rightarrow> provider \<Rightarrow> ('k, unit) dp" where
  "provider_destroy ev p = bnd (dp_call ev [''losetup'', ''-d'', block_device p]) (\<lambda>_. ret ())"

text \<open>
  The output is compared, as bytes, with an empty text, which is never equal:
  there is always a loop device.
\<close>

definition create_loop_device :: "'k dp_env \<Rightarrow> string \<Rightarrow> (string \<times> string) list \<Rightarrow> ('k, provider) dp" where
  "create_loop_device ev target_path query =
     bnd (dp_call ev ([''losetup'', ''--show'', ''-f'', target_path]
       @ (if qs_get ''size'' query \<noteq> [] then [''--sizelimit'', hd (qs_get ''size'' query)] else []))) (\<lambda>stdout.
     ret (Loop target_path (py_strip stdout)))"

text \<open>The lines are stripped as bytes, of the white space of ASCII only, then decoded and split.\<close>

definition bytes_strip :: "string \<Rightarrow> string" where
  "bytes_strip = py_strip_chars {CHR 0x09, CHR 0x0A, CHR 0x0B, CHR 0x0C, CHR 0x0D, CHR 0x20}"

fun find_loop :: "string \<Rightarrow> string list \<Rightarrow> dp_error + string option" where
  "find_loop path [] = Inr None"
| "find_loop path (line # lines) =
    (let line = bytes_strip line; bits = words line in
     if line = [] then find_loop path lines
     else if length bits \<le> 5 then Inl Dp_IndexError
     else if bits ! 5 = path then Inr (Some (bits ! 0))
     else find_loop path lines)"

definition from_path :: "'k dp_env \<Rightarrow> string \<Rightarrow> (string \<times> string) list \<Rightarrow> ('k, provider) dp" where
  "from_path ev path query =
    (let path = dp_realpath ev path in
     bnd (dp_call ev [''losetup'', ''-n'', ''--list'']) (\<lambda>out.
     bnd (lift_sum (find_loop path (splitlines out))) (\<lambda>r.
     case r of Some loop \<Rightarrow> ret (Loop path loop) | None \<Rightarrow> create_loop_device ev path query)))"

section \<open>The data path\<close>

definition get_provider :: "'k dp_env \<Rightarrow> string \<Rightarrow> (string \<times> string) list \<Rightarrow> ('k, provider) dp" where
  "get_provider ev target_path query =
     bnd (gets (\<lambda>s. dp_isblk ev target_path (dp_machine s))) (\<lambda>st.
     case st of
       None \<Rightarrow> throw Dp_FileNotFoundError
     | Some True \<Rightarrow> ret (BlockDevice target_path)
     | Some False \<Rightarrow> from_path ev target_path query)"

definition datapath_activate :: "string \<Rightarrow> string \<Rightarrow> ('k, unit) dp" where
  "datapath_activate uri domain = ret ()"


definition datapath_deactivate :: "string \<Rightarrow> string \<Rightarrow> ('k, unit) dp" where
  "datapath_deactivate uri domain = ret ()"

text \<open>
  The exception raised for a missing file is looked up in a module that is
  not imported.
\<close>

definition datapath_detach :: "'k dp_env \<Rightarrow> string \<Rightarrow> string \<Rightarrow> ('k, unit) dp" where
  "datapath_detach ev uri domain =
    (let file_path = dp_realpath ev (url_path (urlparse uri)) in
     bnd (gets (\<lambda>s. dp_isblk ev file_path (dp_machine s))) (\<lambda>st.
     if st = None then throw Dp_AttributeError
     else bnd (get_provider ev file_path []) (provider_destroy ev)))"

definition datapath_open :: "string \<Rightarrow> bool \<Rightarrow> ('k, unit) dp" where
  "datapath_open uri persistent = ret ()"

definition datapath_close :: "string \<Rightarrow> ('k, unit) dp" where
  "datapath_close uri = ret ()"

section \<open>The listing of loop devices\<close>

text \<open>
  What \<^verbatim>\<open>losetup -n --list\<close> prints, spelled out apart from the code that reads
  it: a line for each loop device, which has the device, four columns, the back
  file and further columns, each but the first after blanks. The back file may
  have blanks in it: \<^verbatim>\<open>losetup\<close> prints the path of a removed file with the mark
  \<^verbatim>\<open>(deleted)\<close>.
\<close>

record loop_row =
  lr_device :: string
  lr_columns :: "(nat \<times> string) list"
  lr_gap :: nat
  lr_file :: string
  lr_more :: "(nat \<times> string) list"

fun padded :: "(nat \<times> string) list \<Rightarrow> string" where
  "padded [] = []"
| "padded ((n, x) # xs) = replicate (Suc n) (CHR '' '') @ x @ padded xs"

definition row_line :: "loop_row \<Rightarrow> string" where
  "row_line r = lr_device r @ padded (lr_columns r @ (lr_gap r, lr_file r) # lr_more r)"

definition losetup_list :: "loop_row list \<Rightarrow> string" where
  "losetup_list rows = concat (map (\<lambda>r. row_line r @ [CHR 0x0A]) rows)"




lemma words_space [simp]: "str_space c \<Longrightarrow> words (c # s) = words s"
  by (subst (1 2) words.simps) simp

lemma words_blanks [simp]: "words (replicate n (CHR '' '') @ s) = words s"
  by (induction n) (simp_all add: str_space_def)

lemma words_pad [simp]: "words (padded ((n, x) # xs)) = words (x @ padded xs)"
  by (simp only: padded.simps words_blanks)

















section \<open>Volumes through the data path\<close>








text \<open>A machine with some loop devices, on which \<^verbatim>\<open>losetup\<close> has one more free device.\<close>

definition demo_dp :: "loop_row list \<Rightarrow> fs \<Rightarrow> unit dp_env" where
  "demo_dp rows fs =
     \<lparr>dp_popen = (\<lambda>cmd k. ((0, if cmd ! 1 = ''--show'' then ''/dev/loop0'' @ [CHR 0x0A] else losetup_list rows), ())),
      dp_realpath = id, dp_isblk = (\<lambda>f k. map_option (\<lambda>_. False) (fs_get fs f))\<rparr>"



section \<open>Paths with white space\<close>

lemma find_loop_space:
  assumes "c \<in> set path" "str_space c"
  shows "find_loop path lines \<noteq> Inr (Some loop)"
proof (induction lines)
  case (Cons line lines)
  have "words (bytes_strip line) ! 5 \<noteq> path" if "5 < length (words (bytes_strip line))"
    using words_no_space [OF nth_mem [OF that]] assms by blast
  with Cons show ?case by (auto simp: Let_def)
qed simp

text \<open>
  The loop device of a file whose path has white space in it is never
  found again, since the listing is cut at white space: each attachment, and
  each detachment, that succeeds has made a new loop device, so that the
  first one stays behind.
\<close>

theorem blank_path_new_loop:
  assumes "c \<in> set (dp_realpath ev path)" "str_space c" "from_path ev path query s = (Inr p, s')"
  shows "\<exists>limit. dp_run s' = dp_run s @ [[''losetup'', ''-n'', ''--list''],
      [''losetup'', ''--show'', ''-f'', dp_realpath ev path] @ limit]"
proof -
  let ?f = "dp_realpath ev path"
  from assms(3) obtain out t r where o: "dp_call ev [''losetup'', ''-n'', ''--list''] s = (Inr out, t)"
    and r: "find_loop ?f (splitlines out) = Inr r"
    and k: "(case r of Some loop \<Rightarrow> ret (Loop ?f loop) | None \<Rightarrow> create_loop_device ev ?f query) t = (Inr p, s')"
    by (auto simp: from_path_def Let_def lift_sum_def elim!: bnd_InrE)
  have "r = None" using find_loop_space [OF assms(1,2)] r by (cases r) auto
  with k show ?thesis
    using o by (auto simp: create_loop_device_def dp_call_def ret_def elim!: bnd_InrE split: prod.splits if_splits)
qed

theorem blank_path_new_loop_witness:
  "\<exists>limit. dp_run (snd (from_path (demo_dp [] []) ''/srv/my disk'' [] \<lparr>dp_machine = (), dp_run = []\<rparr>))
     = [[''losetup'', ''-n'', ''--list''], [''losetup'', ''--show'', ''-f'', ''/srv/my disk''] @ limit]"
proof -
  let ?s = "\<lparr>dp_machine = (), dp_run = []\<rparr>"
  have "fst (from_path (demo_dp [] []) ''/srv/my disk'' [] ?s) = Inr (Loop ''/srv/my disk'' ''/dev/loop0'')"
    by code_simp
  then have "from_path (demo_dp [] []) ''/srv/my disk'' [] ?s
      = (Inr (Loop ''/srv/my disk'' ''/dev/loop0''), snd (from_path (demo_dp [] []) ''/srv/my disk'' [] ?s))"
    by (metis prod.collapse)
  moreover have "CHR '' '' \<in> set (dp_realpath (demo_dp [] []) ''/srv/my disk'')" "str_space (CHR '' '')"
    "dp_realpath (demo_dp [] []) ''/srv/my disk'' = ''/srv/my disk''"
    by (simp_all add: demo_dp_def str_space_def)
  ultimately show ?thesis using blank_path_new_loop by fastforce
qed

end
