(* ===== verification/Xen_Session.thy ===== *)
theory Xen_Session
  imports Py_Text
begin

text \<open>
  The Python bindings \<^verbatim>\<open>python3/examples/XenAPI/XenAPI.py\<close>: sessions that log in,
  retry a call whose session was lost, and log out, and the transport over a
  Unix socket. The XML-RPC server is an argument, over a state of its own;
  the calls made are recorded.
\<close>

section \<open>Values and results\<close>

text \<open>What XML-RPC can carry, as far as the code looks into it.\<close>

datatype xval =
    XNone
  | XStr string
  | XInt int
  | XBool bool
  | XList "xval list"
  | XDict "(string \<times> xval) list"

text \<open>
  Exceptions: the faults the code raises, the failures of the API, errors of
  the socket by number, and what its own expressions raise.
\<close>

datatype api_error =
    Fault int
  | Failure xval
  | SocketError int
  | Api_TypeError
  | Api_IndexError
  | Api_KeyError
  | Api_AttributeError
  | NotImplementedError string

definition ETIMEDOUT :: int where
  "ETIMEDOUT = 110"

text \<open>The result of a call, or that it has to be repeated with a new session.\<close>

datatype answer = RECONNECT_AND_RETRY | Value xval

text \<open>
  \<^verbatim>\<open>x[0]\<close> of a decoded value: of an empty list or text, of a dictionary, or of
  something else; and its comparison with a text.
\<close>

definition first_item :: "xval \<Rightarrow> api_error + xval" where
  "first_item v =
     (case v of
        XList (x # _) \<Rightarrow> Inr x
      | XList [] \<Rightarrow> Inl Api_IndexError
      | XStr (c # _) \<Rightarrow> Inr (XStr [c])
      | XStr [] \<Rightarrow> Inl Api_IndexError
      | XDict _ \<Rightarrow> Inl Api_KeyError
      | _ \<Rightarrow> Inl Api_TypeError)"

text \<open>
  An answer without a status is appended to a message, which is a
  \<^verbatim>\<open>TypeError\<close> unless the answer is a text.
\<close>

definition parse_result :: "xval \<Rightarrow> api_error + answer" where
  "parse_result result =
     (case result of
        XDict d \<Rightarrow>
          (case map_of d ''Status'' of
             None \<Rightarrow> Inl Api_TypeError
           | Some status \<Rightarrow>
               if status = XStr ''Success'' then
                 (case map_of d ''Value'' of Some v \<Rightarrow> Inr (Value v) | None \<Rightarrow> Inl (Fault 500))
               else
                 (case map_of d ''ErrorDescription'' of
                    None \<Rightarrow> Inl (Fault 500)
                  | Some desc \<Rightarrow>
                      sbind (first_item desc) (\<lambda>code.
                      if code = XStr ''SESSION_INVALID'' then Inr RECONNECT_AND_RETRY
                      else Inl (Failure desc))))
      | XStr _ \<Rightarrow> Inl (Fault 500)
      | _ \<Rightarrow> Inl Api_TypeError)"

section \<open>Sessions\<close>

type_synonym 'k server = "string \<Rightarrow> xval list \<Rightarrow> 'k \<Rightarrow> (api_error + xval) \<times> 'k"

record 'k session =
  sess_handle :: xval
  last_login_method :: "string option"
  last_login_params :: "xval list option"
  api_version :: "string option"
  server_state :: 'k
  rpc_calls :: "(string \<times> xval list) list"

type_synonym ('k, 'a) sess = "('k session, api_error, 'a) st"

definition API_VERSION_1_1 :: string where
  "API_VERSION_1_1 = ''1.1''"

definition new_session :: "'k \<Rightarrow> 'k session" where
  "new_session k =
     \<lparr>sess_handle = XNone, last_login_method = None, last_login_params = None,
      api_version = Some API_VERSION_1_1, server_state = k, rpc_calls = []\<rparr>"

definition rpc :: "'k server \<Rightarrow> string \<Rightarrow> xval list \<Rightarrow> ('k, xval) sess" where
  "rpc srv m ps = (\<lambda>s.
     case srv m ps (server_state s) of
       (r, k) \<Rightarrow> (r, s\<lparr>server_state := k, rpc_calls := rpc_calls s @ [(m, ps)]\<rparr>))"

text \<open>\<^verbatim>\<open>_login\<close>: a time-out of the socket becomes a fault.\<close>

definition login :: "'k server \<Rightarrow> string \<Rightarrow> xval list \<Rightarrow> ('k, unit) sess" where
  "login srv meth params =
     catch
       (bnd (rpc srv (''session.'' @ meth) params) (\<lambda>v.
        bnd (lift_sum (parse_result v)) (\<lambda>result.
        case result of
          RECONNECT_AND_RETRY \<Rightarrow> throw (Fault 500)
        | Value h \<Rightarrow> modify (\<lambda>s. s\<lparr>sess_handle := h, last_login_method := Some meth,
            last_login_params := Some params, api_version := None\<rparr>))))
       (\<lambda>e. case e of
          SocketError n \<Rightarrow> if n = ETIMEDOUT then throw (Fault 504) else throw e
        | _ \<Rightarrow> throw e)"

definition forget :: "'k session \<Rightarrow> 'k session" where
  "forget s = s\<lparr>sess_handle := XNone, last_login_method := None, last_login_params := None,
     api_version := Some API_VERSION_1_1\<rparr>"

text \<open>\<^verbatim>\<open>_logout\<close>: the session is forgotten however the call ends.\<close>

definition logout_call :: "'k server \<Rightarrow> ('k, answer) sess" where
  "logout_call srv = (\<lambda>s.
     case last_login_method s of
       None \<Rightarrow> (Inl Api_AttributeError, s)
     | Some m \<Rightarrow>
         bnd (rpc srv (if take 11 m = ''slave_local'' then ''session.local_logout'' else ''session.logout'')
                [sess_handle s]) (\<lambda>v. lift_sum (parse_result v)) s)"

definition logout :: "'k server \<Rightarrow> ('k, answer) sess" where
  "logout srv = with_block id forget (logout_call srv)"

text \<open>What \<^verbatim>\<open>Session.__getattr__\<close> makes of a name.\<close>

datatype attr =
    A_handle
  | A_dispatcher "string option"
  | A_login string
  | A_notimplemented string
  | A_method string

definition session_getattr :: "string \<Rightarrow> attr" where
  "session_getattr name =
     (if name = ''handle'' then A_handle
      else if name = ''xenapi'' then A_dispatcher None
      else if take 5 name = ''login'' \<or> take 11 name = ''slave_local'' then A_login name
      else if name = ''logout'' then A_dispatcher (Some ''logout'')
      else if take 2 name = ''__'' \<and> drop (length name - 2) name = ''__'' then A_notimplemented name
      else A_method name)"

text \<open>
  \<^verbatim>\<open>getattr(self, name)(*ps)\<close>: a method of the server, or what the name means
  to the session itself. Logging in and out return nothing.
\<close>

definition getattr_call :: "'k server \<Rightarrow> string \<Rightarrow> xval list \<Rightarrow> ('k, xval) sess" where
  "getattr_call srv name ps =
     (case session_getattr name of
        A_handle \<Rightarrow> throw Api_TypeError
      | A_dispatcher None \<Rightarrow> throw Api_AttributeError
      | A_dispatcher (Some _) \<Rightarrow> seq (logout srv) (ret XNone)
      | A_login m \<Rightarrow> seq (login srv m ps) (ret XNone)
      | A_notimplemented m \<Rightarrow> throw (NotImplementedError m)
      | A_method m \<Rightarrow> rpc srv m ps)"

text \<open>The retry loop, with the attempts left.\<close>

fun request_loop :: "'k server \<Rightarrow> string \<Rightarrow> xval list \<Rightarrow> nat \<Rightarrow> ('k, xval) sess" where
  "request_loop srv methodname params 0 = throw (Fault 500)"
| "request_loop srv methodname params (Suc left) =
     bnd (gets sess_handle) (\<lambda>h.
     bnd (getattr_call srv methodname (h # params)) (\<lambda>v.
     bnd (lift_sum (parse_result v)) (\<lambda>result.
     case result of
       Value x \<Rightarrow> ret x
     | RECONNECT_AND_RETRY \<Rightarrow>
         bnd (gets (\<lambda>s. (last_login_method s, last_login_params s))) (\<lambda>(m, ps).
         case m of
           None \<Rightarrow> throw (Fault 401)
         | Some meth \<Rightarrow>
             if meth = [] then throw (Fault 401)
             else seq (case ps of None \<Rightarrow> throw Api_TypeError | Some xs \<Rightarrow> login srv meth xs)
                    (request_loop srv methodname params left)))))"

definition xenapi_request :: "'k server \<Rightarrow> string \<Rightarrow> xval list \<Rightarrow> ('k, xval) sess" where
  "xenapi_request srv methodname params =
     (if take 5 methodname = ''login'' then seq (login srv methodname params) (ret XNone)
      else if methodname = ''logout'' \<or> methodname = ''session.logout'' then seq (logout srv) (ret XNone)
      else request_loop srv methodname params 3)"

text \<open>
  The version of the API, asked for once after each login. \<open>str\<close> is the text
  \<^verbatim>\<open>%s\<close> makes of a value that is not a text.
\<close>

definition to_str :: "(xval \<Rightarrow> string) \<Rightarrow> xval \<Rightarrow> string" where
  "to_str str v = (case v of XStr s \<Rightarrow> s | _ \<Rightarrow> str v)"

definition get_api_version :: "'k server \<Rightarrow> (xval \<Rightarrow> string) \<Rightarrow> ('k, string) sess" where
  "get_api_version srv str =
     bnd (xenapi_request srv ''pool.get_all'' []) (\<lambda>pools.
     bnd (lift_sum (first_item pools)) (\<lambda>pool.
     bnd (xenapi_request srv ''pool.get_master'' [pool]) (\<lambda>host.
     bnd (xenapi_request srv ''host.get_API_version_major'' [host]) (\<lambda>major.
     bnd (xenapi_request srv ''host.get_API_version_minor'' [host]) (\<lambda>minor.
     ret (to_str str major @ ''.'' @ to_str str minor))))))"

definition API_version :: "'k server \<Rightarrow> (xval \<Rightarrow> string) \<Rightarrow> ('k, string) sess" where
  "API_version srv str =
     bnd (gets api_version) (\<lambda>v.
     case v of
       Some (c # cs) \<Rightarrow> ret (c # cs)
     | _ \<Rightarrow> bnd (get_api_version srv str) (\<lambda>v.
          seq (modify (\<lambda>s. s\<lparr>api_version := Some v\<rparr>)) (ret v)))"

section \<open>Attributes\<close>

definition dispatcher_getattr :: "string option \<Rightarrow> string \<Rightarrow> string option" where
  "dispatcher_getattr d name = (case d of None \<Rightarrow> Some name | Some n \<Rightarrow> Some (n @ ''.'' @ name))"

text \<open>
  Looking up a chain of attributes of a session and calling the result. The
  plain methods of the server proxy are called without a session handle; a
  handle (the methods of its own type apart), a dispatcher without a name and
  anything below a login cannot be called.
\<close>

definition call_chain :: "'k server \<Rightarrow> string \<Rightarrow> string list \<Rightarrow> xval list \<Rightarrow> ('k, xval) sess" where
  "call_chain srv name names params =
     (case session_getattr name of
        A_handle \<Rightarrow> throw (if names = [] then Api_TypeError else Api_AttributeError)
      | A_dispatcher d \<Rightarrow>
          (case foldl dispatcher_getattr d names of
             None \<Rightarrow> throw Api_AttributeError
           | Some m \<Rightarrow> xenapi_request srv m params)
      | A_login m \<Rightarrow> if names = [] then seq (login srv m params) (ret XNone) else throw Api_AttributeError
      | A_notimplemented m \<Rightarrow> if names = [] then throw (NotImplementedError m) else throw Api_AttributeError
      | A_method m \<Rightarrow> rpc srv (foldl (\<lambda>a b. a @ ''.'' @ b) m names) params)"

section \<open>The transport over a Unix socket\<close>

record transport =
  extra_headers :: "(string \<times> string) list"
  connection :: "(string \<times> string) option"

type_synonym env = "string \<Rightarrow> string option"

definition add_extra_header :: "string \<Rightarrow> string \<Rightarrow> transport \<Rightarrow> transport" where
  "add_extra_header key v t = t\<lparr>extra_headers := extra_headers t @ [(key, v)]\<rparr>"

definition header_from_env :: "env \<Rightarrow> string \<Rightarrow> string \<Rightarrow> transport \<Rightarrow> transport" where
  "header_from_env getenv var key t =
     (case getenv var of Some (c # cs) \<Rightarrow> add_extra_header key (c # cs) t | _ \<Rightarrow> t)"

text \<open>
  \<open>otel\<close> holds the headers the propagator of OpenTelemetry injects, when it is
  enabled.
\<close>

definition with_tracecontext :: "(string \<times> string) list option \<Rightarrow> env \<Rightarrow> transport \<Rightarrow> transport" where
  "with_tracecontext otel getenv t =
     header_from_env getenv ''BAGGAGE'' ''baggage''
       (case otel of
          Some headers \<Rightarrow> foldl (\<lambda>t (k, v). add_extra_header k v t) t headers
        | None \<Rightarrow> header_from_env getenv ''TRACEPARENT'' ''traceparent'' t)"

definition with_originator :: "env \<Rightarrow> transport \<Rightarrow> transport" where
  "with_originator getenv t = header_from_env getenv ''ORIGINATOR'' (py_lower ''ORIGINATOR'') t"

text \<open>The socket a host name stands for: \<^verbatim>\<open>host.replace("_", "/")\<close>\<close>

definition uds_path :: "string \<Rightarrow> string" where
  "uds_path host = map (\<lambda>c. if c = CHR ''_'' then CHR ''/'' else c) host"

definition make_connection ::
  "(string \<times> string) list option \<Rightarrow> env \<Rightarrow> string \<Rightarrow> transport \<Rightarrow> string \<times> transport" where
  "make_connection otel getenv host t =
    (let t = with_originator getenv (with_tracecontext otel getenv (t\<lparr>extra_headers := []\<rparr>)) in
     case connection t of
       Some (h, c) \<Rightarrow> if host = h then (c, t) else (uds_path host, t\<lparr>connection := Some (host, uds_path host)\<rparr>)
     | None \<Rightarrow> (uds_path host, t\<lparr>connection := Some (host, uds_path host)\<rparr>))"

end
