(* ===== verification/Xen_Session_Proofs.thy ===== *)
theory Xen_Session_Proofs
  imports Xen_Session
begin

text \<open>
  The properties of API sessions: how often a call is repeated and with which
  session, and that a session remembers the login it stands for until it is
  forgotten.
\<close>

section \<open>Retries\<close>

text \<open>
  The calls of a request: the method, with the handles that were current,
  and a login between any two.
\<close>

fun retry_trace :: "string \<Rightarrow> xval list \<Rightarrow> string \<times> xval list \<Rightarrow> xval list \<Rightarrow> (string \<times> xval list) list" where
  "retry_trace m params lg [] = []"
| "retry_trace m params lg [h] = [(m, h # params)]"
| "retry_trace m params lg (h # hs) = (m, h # params) # lg # retry_trace m params lg hs"

definition stored_login :: "'k session \<Rightarrow> string \<times> xval list" where
  "stored_login s = (''session.'' @ the (last_login_method s), the (last_login_params s))"

text \<open>
  The answers of the server to a sequence of calls, and its state after them.
\<close>

fun replay :: "'k server \<Rightarrow> (string \<times> xval list) list \<Rightarrow> 'k \<Rightarrow> (api_error + xval) list \<times> 'k" where
  "replay srv [] k = ([], k)"
| "replay srv ((m, ps) # calls) k =
    (case srv m ps k of (a, k1) \<Rightarrow> case replay srv calls k1 of (as, k2) \<Rightarrow> (a # as, k2))"

text \<open>
  What an answer says, from the description of the wire format: a success has
  a value; a refusal for a lost session has the code for it as the first item of its
  description.
\<close>

definition granted :: "api_error + xval \<Rightarrow> xval \<Rightarrow> bool" where
  "granted a x \<longleftrightarrow> (\<exists>d. a = Inr (XDict d) \<and> map_of d ''Status'' = Some (XStr ''Success'')
     \<and> map_of d ''Value'' = Some x)"

definition refused :: "api_error + xval \<Rightarrow> bool" where
  "refused a \<longleftrightarrow> (\<exists>d status rest. a = Inr (XDict d) \<and> map_of d ''Status'' = Some status
     \<and> status \<noteq> XStr ''Success''
     \<and> map_of d ''ErrorDescription'' = Some (XList (XStr ''SESSION_INVALID'' # rest)))"

definition can_login :: "'k session \<Rightarrow> bool" where
  "can_login s \<longleftrightarrow> (\<exists>c cs ps. last_login_method s = Some (c # cs) \<and> last_login_params s = Some ps)"

lemma first_item_code: "first_item v = Inr (XStr ''SESSION_INVALID'') \<longleftrightarrow> (\<exists>xs. v = XList (XStr ''SESSION_INVALID'' # xs))"
  by (auto simp: first_item_def split: xval.splits list.splits)

lemma granted_iff: "granted (Inr w) x \<longleftrightarrow> parse_result w = Inr (Value x)"
  by (auto simp: granted_def parse_result_def sbind_def split: xval.splits option.splits if_splits sum.splits)

lemma refused_iff: "refused (Inr w) \<longleftrightarrow> parse_result w = Inr RECONNECT_AND_RETRY"
proof (cases w)
  case (XDict d)
  then show ?thesis
    using first_item_code [of "the (map_of d ''ErrorDescription'')"]
    by (cases "first_item (the (map_of d ''ErrorDescription''))"; cases "map_of d ''Status''"; cases "map_of d ''ErrorDescription''"; cases "map_of d ''Value''")
      (auto simp: refused_def parse_result_def sbind_def split: sum.splits if_splits)
qed (auto simp: refused_def parse_result_def)

lemma granted_Inl [simp]: "\<not> granted (Inl e) x" and refused_Inl [simp]: "\<not> refused (Inl e)"
  by (simp_all add: granted_def refused_def)

lemma first_item_no_socket: "first_item v \<noteq> Inl (SocketError n)"
  by (auto simp: first_item_def split: xval.splits list.splits)

lemma parse_result_no_socket: "parse_result w \<noteq> Inl (SocketError n)"
  using first_item_no_socket
  by (auto simp: parse_result_def sbind_def split: xval.splits option.splits if_splits sum.splits)

text \<open>A successful login, and what every login leaves in the record of calls.\<close>

lemma rpc_state:
  "snd (rpc srv m ps s) = s\<lparr>server_state := snd (srv m ps (server_state s)), rpc_calls := rpc_calls s @ [(m, ps)]\<rparr>"
  by (simp add: rpc_def split: prod.split)

lemma rpc_result: "fst (rpc srv m ps s) = fst (srv m ps (server_state s))"
  by (simp add: rpc_def split: prod.split)

text \<open>The error that an answer stands for; a login reports a time-out as a fault of its own.\<close>

definition answer_error :: "api_error + xval \<Rightarrow> api_error \<Rightarrow> bool" where
  "answer_error a e \<longleftrightarrow> a = Inl e \<or> (\<exists>w. a = Inr w \<and> parse_result w = Inl e)"

definition login_error :: "api_error + xval \<Rightarrow> api_error \<Rightarrow> bool" where
  "login_error a e \<longleftrightarrow> (if refused a then e = Fault 500
     else if a = Inl (SocketError ETIMEDOUT) then e = Fault 504 else answer_error a e)"

lemma answer_trichotomy:
  obtains (granted) x where "granted a x" | (refused) "refused a" | (err) e where "answer_error a e"
proof (cases a)
  case (Inr w)
  then show ?thesis
  proof (cases "parse_result w")
    case (Inr q)
    with \<open>a = Inr w\<close> show ?thesis using granted refused by (cases q) (auto simp: granted_iff refused_iff)
  qed (use err in \<open>simp add: answer_error_def\<close>)
qed (use err in \<open>simp add: answer_error_def\<close>)

lemma login_cases:
  assumes "login srv meth ps s = (r, s')"
  obtains (ok) h t where "r = Inr ()" "snd (rpc srv (''session.'' @ meth) ps s) = t"
      "s' = t\<lparr>sess_handle := h, last_login_method := Some meth, last_login_params := Some ps, api_version := None\<rparr>"
      "granted (fst (srv (''session.'' @ meth) ps (server_state s))) h"
    | (failed) e where "r = Inl e" "s' = snd (rpc srv (''session.'' @ meth) ps s)"
      "\<forall>h. \<not> granted (fst (srv (''session.'' @ meth) ps (server_state s))) h"
      "login_error (fst (srv (''session.'' @ meth) ps (server_state s))) e"
proof -
  obtain q t where q: "rpc srv (''session.'' @ meth) ps s = (q, t)" by fastforce
  then have a: "fst (srv (''session.'' @ meth) ps (server_state s)) = q" by (metis fst_conv rpc_result)
  have "(\<exists>h. r = Inr () \<and> s' = t\<lparr>sess_handle := h, last_login_method := Some meth, last_login_params := Some ps,
      api_version := None\<rparr> \<and> granted q h)
    \<or> (\<exists>e. r = Inl e \<and> s' = t \<and> (\<forall>h. \<not> granted q h) \<and> login_error q e)"
  proof (cases q)
    case (Inl e)
    with q assms show ?thesis
      by (auto simp: login_def catch_def bnd_def throw_def login_error_def answer_error_def
          split: api_error.splits if_splits)
  next
    case (Inr v)
    show ?thesis
    proof (cases "parse_result v")
      case (Inl e)
      moreover have "\<nexists>n. e = SocketError n" using Inl parse_result_no_socket by auto
      ultimately show ?thesis
        using q \<open>q = Inr v\<close> assms
        by (cases e) (auto simp: login_def catch_def bnd_def lift_sum_def throw_def login_error_def answer_error_def
            granted_iff refused_iff)
    next
      case (Inr b)
      with q \<open>q = Inr v\<close> assms show ?thesis
        by (cases b) (auto simp: login_def catch_def bnd_def lift_sum_def throw_def modify_def login_error_def
            granted_iff refused_iff)
    qed
  qed
  then show ?thesis using q a ok failed by auto
qed

lemma login_calls:
  assumes "login srv meth ps s = (r, s')"
  shows "rpc_calls s' = rpc_calls s @ [(''session.'' @ meth, ps)]"
    "server_state s' = snd (srv (''session.'' @ meth) ps (server_state s))"
  using assms by (cases rule: login_cases; auto simp: rpc_state)+

lemma login_stored:
  assumes "login srv meth ps s = (Inr (), s')"
  shows "last_login_method s' = Some meth" "last_login_params s' = Some ps"
    "granted (fst (srv (''session.'' @ meth) ps (server_state s))) (sess_handle s')"
  using assms by (cases rule: login_cases; simp)+

lemma login_refused:
  assumes "login srv meth ps s = (Inl e, s')"
  shows "\<forall>h. \<not> granted (fst (srv (''session.'' @ meth) ps (server_state s))) h"
    "login_error (fst (srv (''session.'' @ meth) ps (server_state s))) e" "sess_handle s' = sess_handle s"
  using assms by (cases rule: login_cases; simp add: rpc_state)+

lemma getattr_method: "session_getattr m = A_method m \<Longrightarrow> getattr_call srv m ps = rpc srv m ps"
  by (simp add: getattr_call_def)

text \<open>What ends a request after a call of its method: an answer, or a refusal with no login to repeat.\<close>

definition ends_request :: "'k session \<Rightarrow> api_error + xval \<Rightarrow> api_error + xval \<Rightarrow> bool" where
  "ends_request s a r \<longleftrightarrow> (\<forall>x. r = Inr x \<longleftrightarrow> granted a x)
     \<and> (\<forall>e. r = Inl e \<longleftrightarrow>
          answer_error a e \<or> refused a \<and> e = (if last_login_method s \<in> {None, Some []} then Fault 401 else Api_TypeError))
     \<and> (refused a \<longrightarrow> \<not> can_login s)"

lemma request_step:
  assumes "request_loop srv m params (Suc n) s = (r, s')" "session_getattr m = A_method m"
  obtains (stop) "s' = snd (rpc srv m (sess_handle s # params) s)"
      "ends_request s (fst (srv m (sess_handle s # params) (server_state s))) r"
    | (no_login) meth ps u e where "last_login_method s = Some meth" "last_login_params s = Some ps" "meth \<noteq> []"
        "login srv meth ps (snd (rpc srv m (sess_handle s # params) s)) = (Inl e, u)" "r = Inl e" "s' = u"
        "refused (fst (srv m (sess_handle s # params) (server_state s)))"
    | (again) meth ps u where "last_login_method s = Some meth" "last_login_params s = Some ps" "meth \<noteq> []"
        "login srv meth ps (snd (rpc srv m (sess_handle s # params) s)) = (Inr (), u)"
        "request_loop srv m params n u = (r, s')"
        "refused (fst (srv m (sess_handle s # params) (server_state s)))"
proof -
  note call = getattr_method [OF assms(2)]
  obtain v t where v: "rpc srv m (sess_handle s # params) s = (v, t)" by fastforce
  then have t: "last_login_method t = last_login_method s" "last_login_params t = last_login_params s"
    using rpc_state [of srv m "sess_handle s # params" s] by auto
  have a: "fst (srv m (sess_handle s # params) (server_state s)) = v" using v by (metis fst_conv rpc_result)
  show thesis
  proof (cases "sbind v parse_result")
    case (Inl e)
    with v assms(1) have "s' = t" "r = Inl e"
      by (cases v; auto simp: call bnd_def gets_def lift_sum_def sbind_def)+
    moreover have "ends_request s v (Inl e)"
      using Inl by (cases v) (auto simp: ends_request_def answer_error_def granted_iff refused_iff)
    ultimately show ?thesis using v a stop by simp
  next
    case (Inr a')
    then obtain w where w: "v = Inr w" "parse_result w = Inr a'" by (cases v) auto
    show ?thesis
    proof (cases a')
      case (Value x)
      with w v assms(1) have "s' = t" "r = Inr x" by (simp_all add: call bnd_def gets_def lift_sum_def ret_def)
      moreover have "ends_request s v (Inr x)"
        using w Value by (auto simp: ends_request_def answer_error_def granted_iff refused_iff)
      ultimately show ?thesis using v a stop by simp
    next
      case RECONNECT_AND_RETRY
      then have ref: "refused v" using w by (simp add: refused_iff)
      show ?thesis
      proof (cases "can_login s")
        case False
        then have m: "last_login_method s = None \<or> last_login_method s = Some [] \<or> last_login_params s = None"
          unfolding can_login_def by (metis list.exhaust option.exhaust)
        with RECONNECT_AND_RETRY w v t assms(1) have "s' = t
          \<and> r = Inl (if last_login_method s \<in> {None, Some []} then Fault 401 else Api_TypeError)"
          by (auto simp: call bnd_def gets_def lift_sum_def throw_def seq_def split: option.splits if_splits)
        moreover have "ends_request s v (Inl (if last_login_method s \<in> {None, Some []} then Fault 401 else Api_TypeError))"
          using ref False w RECONNECT_AND_RETRY by (auto simp: ends_request_def answer_error_def granted_iff)
        ultimately show ?thesis using v a stop by simp
      next
        case True
        then obtain meth ps where m: "last_login_method s = Some meth" "meth \<noteq> []" "last_login_params s = Some ps"
          by (auto simp: can_login_def)
        obtain q u where l: "login srv meth ps t = (q, u)" by fastforce
        have "seq (login srv meth ps) (request_loop srv m params n) t = (r, s')"
          using RECONNECT_AND_RETRY w v t assms(1) m by (simp add: call bnd_def gets_def lift_sum_def)
        with l m v a ref no_login [of meth ps _ u] again [of meth ps u] show ?thesis
          by (cases q) (auto simp: seq_def bnd_def)
      qed
    qed
  qed
qed

lemma retry_trace_Cons:
  "hs \<noteq> [] \<Longrightarrow> retry_trace m params lg (h # hs) = (m, h # params) # lg # retry_trace m params lg hs"
  by (cases hs) simp_all

text \<open>
  A request with at most \<open>n\<close> attempts from a session to a session, with its result:
  the handles used, a login at the end or none, and the answers of the server.
\<close>

definition retry_dialogue ::
  "'k server \<Rightarrow> string \<Rightarrow> xval list \<Rightarrow> nat \<Rightarrow> 'k session \<Rightarrow> api_error + xval \<Rightarrow> 'k session
     \<Rightarrow> xval list \<Rightarrow> (string \<times> xval list) list \<Rightarrow> (api_error + xval) list \<Rightarrow> bool" where
  "retry_dialogue srv m params n s r s' hs tail answers \<longleftrightarrow>
     rpc_calls s' = rpc_calls s @ retry_trace m params (stored_login s) hs @ tail
     \<and> hs \<noteq> [] \<and> hd hs = sess_handle s \<and> length hs \<le> n \<and> (tail = [] \<or> tail = [stored_login s])
     \<and> replay srv (retry_trace m params (stored_login s) hs @ tail) (server_state s) = (answers, server_state s')
     \<and> (\<forall>i. Suc i < length hs \<longrightarrow> refused (answers ! (2 * i)) \<and> granted (answers ! (2 * i + 1)) (hs ! Suc i))
     \<and> (tail = [] \<longrightarrow> ends_request s (last answers) r \<and> last hs = sess_handle s')
     \<and> (tail \<noteq> [] \<longrightarrow> refused (answers ! (2 * (length hs - 1)))
          \<and> (if \<exists>h. granted (last answers) h then length hs = n \<and> r = Inl (Fault 500)
             else \<exists>e. login_error (last answers) e \<and> r = Inl e))"

lemma replay_Cons:
  "replay srv ((m, ps) # calls) k =
     (fst (srv m ps k) # fst (replay srv calls (snd (srv m ps k))), snd (replay srv calls (snd (srv m ps k))))"
  by (simp split: prod.split)

lemma replay_last: "calls \<noteq> [] \<Longrightarrow> fst (replay srv calls k) \<noteq> []"
  by (cases "(srv, calls, k)" rule: replay.cases) (simp_all split: prod.split)

lemma dialogue_stop:
  assumes "s' = snd (rpc srv m (sess_handle s # params) s)"
    "ends_request s (fst (srv m (sess_handle s # params) (server_state s))) r" "0 < n"
  shows "retry_dialogue srv m params n s r s' [sess_handle s] [] [fst (srv m (sess_handle s # params) (server_state s))]"
  using assms by (simp add: retry_dialogue_def rpc_state split: prod.split)

lemma dialogue_login:
  assumes l: "login srv meth ps (snd (rpc srv m (sess_handle s # params) s)) = (q, s')"
    and m: "last_login_method s = Some meth" "last_login_params s = Some ps"
    and ref: "refused (fst (srv m (sess_handle s # params) (server_state s)))"
    and q: "case q of Inl e \<Rightarrow> r = Inl e \<and> 0 < n | Inr _ \<Rightarrow> r = Inl (Fault 500) \<and> n = 1"
  shows "\<exists>answers. retry_dialogue srv m params n s r s' [sess_handle s] [stored_login s] answers"
proof -
  define lgm where "lgm = ''session.'' @ meth"
  let ?a = "srv m (sess_handle s # params) (server_state s)"
  let ?b = "srv lgm ps (snd ?a)"
  have lg: "stored_login s = (lgm, ps)" using m by (simp add: stored_login_def lgm_def)
  have "if \<exists>h. granted (fst ?b) h then Suc 0 = n \<and> r = Inl (Fault 500)
      else \<exists>e. login_error (fst ?b) e \<and> r = Inl e"
  proof (cases q)
    case (Inl e)
    with l q login_refused [of srv meth ps "snd (rpc srv m (sess_handle s # params) s)" e s', folded lgm_def]
    show ?thesis by (auto simp: rpc_state)
  next
    case (Inr z)
    with l q login_stored(3) [of srv meth ps "snd (rpc srv m (sess_handle s # params) s)" s', folded lgm_def]
    show ?thesis by (auto simp: rpc_state)
  qed
  moreover have "0 < n" using q by (cases q) auto
  ultimately show ?thesis
    using ref login_calls [OF l, folded lgm_def]
    by (intro exI [of _ "[fst ?a, fst ?b]"])
      (simp add: retry_dialogue_def lg rpc_state replay_Cons del: replay.simps(2))
qed

lemma dialogue_again:
  assumes l: "login srv meth ps (snd (rpc srv m (sess_handle s # params) s)) = (Inr (), u)"
    and m: "last_login_method s = Some meth" "last_login_params s = Some ps" "meth \<noteq> []"
    and ref: "refused (fst (srv m (sess_handle s # params) (server_state s)))"
    and d: "retry_dialogue srv m params n u r s' hs tail answers"
  shows "\<exists>answers. retry_dialogue srv m params (Suc n) s r s' (sess_handle s # hs) tail answers"
proof -
  let ?lg = "stored_login s"
  let ?a = "srv m (sess_handle s # params) (server_state s)"
  define lgm where "lgm = ''session.'' @ meth"
  let ?b = "srv lgm ps (snd ?a)"
  let ?as = "fst ?a # fst ?b # answers"
  note u = login_stored [OF l, folded lgm_def] login_calls [OF l, folded lgm_def]
  have lg: "stored_login u = ?lg" and log: "stored_login s = (lgm, ps)"
    and e: "ends_request u = ends_request s"
    using u m by (auto simp: stored_login_def lgm_def ends_request_def can_login_def fun_eq_iff)
  have hs: "hs \<noteq> []" "hd hs = sess_handle u"
    and r: "replay srv (retry_trace m params ?lg hs @ tail) (server_state u) = (answers, server_state s')"
    and mid: "\<forall>i. Suc i < length hs \<longrightarrow> refused (answers ! (2 * i)) \<and> granted (answers ! (2 * i + 1)) (hs ! Suc i)"
    and fin: "tail \<noteq> [] \<longrightarrow> refused (answers ! (2 * (length hs - 1)))"
    using d lg by (simp_all add: retry_dialogue_def)
  have ne: "answers \<noteq> []"
    using replay_last [of "retry_trace m params ?lg hs @ tail" srv "server_state u"] r hs
    by (cases "(m, params, ?lg, hs)" rule: retry_trace.cases) auto
  have "replay srv (retry_trace m params ?lg (sess_handle s # hs) @ tail) (server_state s) = (?as, server_state s')"
    using r u(5) hs log by (simp add: retry_trace_Cons rpc_state replay_Cons del: replay.simps(2))
  moreover have "refused (?as ! (2 * i)) \<and> granted (?as ! (2 * i + 1)) ((sess_handle s # hs) ! Suc i)"
    if "Suc i < length (sess_handle s # hs)" for i
  proof (cases i)
    case 0
    with ref u(3) hs show ?thesis by (simp add: rpc_state hd_conv_nth)
  next
    case (Suc j)
    with mid that show ?thesis by simp
  qed
  moreover have "rpc_calls s' = rpc_calls s @ retry_trace m params ?lg (sess_handle s # hs) @ tail"
    using d u(4) hs log by (simp add: retry_dialogue_def lg retry_trace_Cons rpc_state)
  moreover have "tail \<noteq> [] \<longrightarrow> refused (?as ! (2 * (length (sess_handle s # hs) - 1)))"
    using fin hs by (cases hs) auto
  ultimately show ?thesis
    using d ne hs unfolding retry_dialogue_def lg e
    by (intro exI [of _ ?as]) auto
qed

lemma request_loop_dialogue:
  assumes "request_loop srv m params (Suc n) s = (r, s')" "session_getattr m = A_method m"
  shows "\<exists>hs tail answers. retry_dialogue srv m params (Suc n) s r s' hs tail answers"
  using assms(1)
proof (induction n arbitrary: s)
  case (0 s)
  from 0 assms(2) show ?case
  proof (cases rule: request_step)
    case stop
    then show ?thesis using dialogue_stop by blast
  next
    case (no_login meth ps u e)
    then show ?thesis using dialogue_login [of srv meth ps m s params "Inl e" s' r "Suc 0"] by auto
  next
    case (again meth ps u)
    then have "u = s'" "r = Inl (Fault 500)" by (auto simp: throw_def)
    with again show ?thesis using dialogue_login [of srv meth ps m s params "Inr ()" s' r "Suc 0"] by auto
  qed
next
  case (Suc n s)
  from Suc.prems assms(2) show ?case
  proof (cases rule: request_step)
    case stop
    then show ?thesis using dialogue_stop by blast
  next
    case (no_login meth ps u e)
    then show ?thesis using dialogue_login [of srv meth ps m s params "Inl e" s' r "Suc (Suc n)"] by auto
  next
    case (again meth ps u)
    with Suc.IH [OF again(5)] show ?thesis using dialogue_again by blast
  qed
qed

lemma dialogue_ends:
  assumes "retry_dialogue srv m params n s r s' hs tail answers"
  shows "tail = [] \<Longrightarrow> ends_request s (last answers) r \<and> last hs = sess_handle s'"
    and "tail \<noteq> [] \<Longrightarrow> refused (answers ! (2 * (length hs - 1)))
      \<and> (if \<exists>h. granted (last answers) h then length hs = n \<and> r = Inl (Fault 500)
         else \<exists>e. login_error (last answers) e \<and> r = Inl e)"
  using assms unfolding retry_dialogue_def by blast+

lemma dialogue_value:
  assumes d: "retry_dialogue srv m params n s r s' hs tail answers"
  shows "r = Inr x \<longleftrightarrow> tail = [] \<and> granted (last answers) x"
proof (cases "tail = []")
  case True
  with dialogue_ends(1) [OF d] show ?thesis unfolding ends_request_def by blast
next
  case False
  have "\<exists>e. r = Inl e"
    using dialogue_ends(2) [OF d False] by (cases "\<exists>h. granted (last answers) h") (simp_all, blast)
  with False show ?thesis by auto
qed

text \<open>
  C11: Whatever the server answers, a request that is neither a login nor a
  logout calls its method at most three times, first with the handle the
  session had. Every call but the last was refused for its session and followed
  by a login, with the login that was remembered, whose answer is the handle of the
  next call. The request returns a value exactly when its last call was answered
  with success, and then it is the value of that answer; its last call was then made with the
  handle the session has now. Any other answer to the last call is the error
  raised, a refusal with no login to repeat being fault 401. A request that
  ends with a login raises what this raised, with a time-out as fault 504 and a
  refusal as fault 500, and ends with fault 500 after the login that followed the third
  call.
\<close>

theorem request_retries:
  assumes "session_getattr m = A_method m" "m \<noteq> ''session.logout''"
    "xenapi_request srv m params s = (r, s')"
  shows "\<exists>hs tail answers. rpc_calls s' = rpc_calls s @ retry_trace m params (stored_login s) hs @ tail
    \<and> hs \<noteq> [] \<and> hd hs = sess_handle s \<and> length hs \<le> 3 \<and> (tail = [] \<or> tail = [stored_login s])
    \<and> replay srv (retry_trace m params (stored_login s) hs @ tail) (server_state s) = (answers, server_state s')
    \<and> (\<forall>i. Suc i < length hs \<longrightarrow> refused (answers ! (2 * i)) \<and> granted (answers ! (2 * i + 1)) (hs ! Suc i))
    \<and> (\<forall>x. r = Inr x \<longleftrightarrow> tail = [] \<and> granted (last answers) x)
    \<and> (\<forall>x. r = Inr x \<longrightarrow> last hs = sess_handle s')
    \<and> (tail = [] \<longrightarrow> (\<forall>e. r = Inl e \<longleftrightarrow> answer_error (last answers) e
          \<or> refused (last answers) \<and> e = (if last_login_method s \<in> {None, Some []} then Fault 401 else Api_TypeError))
        \<and> (refused (last answers) \<longrightarrow> \<not> can_login s))
    \<and> (tail \<noteq> [] \<longrightarrow> refused (answers ! (2 * (length hs - 1)))
        \<and> (if \<exists>h. granted (last answers) h then length hs = 3 \<and> r = Inl (Fault 500)
           else \<exists>e. login_error (last answers) e \<and> r = Inl e))"
proof -
  have "request_loop srv m params (Suc 2) s = (r, s')"
    using assms
    by (auto simp: xenapi_request_def session_getattr_def numeral_3_eq_3 numeral_2_eq_2 split: if_splits)
  from request_loop_dialogue [OF this assms(1)] obtain hs tail answers where
    d: "retry_dialogue srv m params 3 s r s' hs tail answers" unfolding numeral_3_eq_3 numeral_2_eq_2 by blast
  note e = dialogue_ends(1) [OF d, unfolded ends_request_def]
  have v: "\<forall>x. r = Inr x \<longleftrightarrow> tail = [] \<and> granted (last answers) x" using dialogue_value [OF d] by blast
  have w: "\<forall>x. r = Inr x \<longrightarrow> last hs = sess_handle s'"
    using dialogue_value [OF d] dialogue_ends(1) [OF d] by blast
  have c: "tail = [] \<longrightarrow> (\<forall>e. r = Inl e \<longleftrightarrow> answer_error (last answers) e
          \<or> refused (last answers) \<and> e = (if last_login_method s \<in> {None, Some []} then Fault 401 else Api_TypeError))
        \<and> (refused (last answers) \<longrightarrow> \<not> can_login s)"
    by (rule impI, drule e, elim conjE, intro conjI)
  note t = dialogue_ends(2) [OF d, THEN impI]
  from d [unfolded retry_dialogue_def] v w c t show ?thesis
    by (elim conjE) (rule exI [of _ hs], rule exI [of _ tail], rule exI [of _ answers], intro conjI)
qed

text \<open>A server that has lost the old sessions and accepts a login.\<close>

definition demo_server :: "unit server" where
  "demo_server m ps k =
     (Inr (if m = ''session.login_with_password'' then XDict [(''Status'', XStr ''Success''), (''Value'', XStr ''new'')]
           else if ps \<noteq> [] \<and> hd ps = XStr ''new'' then XDict [(''Status'', XStr ''Success''), (''Value'', XInt 7)]
           else XDict [(''Status'', XStr ''Failure''), (''ErrorDescription'', XList [XStr ''SESSION_INVALID''])]), k)"

definition demo_session :: "unit session" where
  "demo_session = (new_session ())\<lparr>sess_handle := XStr ''old'',
     last_login_method := Some ''login_with_password'', last_login_params := Some [XStr ''me'']\<rparr>"

lemma demo_request: "xenapi_request demo_server ''VM.get_all'' [] demo_session =
    (Inr (XInt 7), demo_session\<lparr>sess_handle := XStr ''new'', api_version := None,
      rpc_calls := [(''VM.get_all'', [XStr ''old'']), (''session.login_with_password'', [XStr ''me'']),
        (''VM.get_all'', [XStr ''new''])]\<rparr>)"
  by code_simp

theorem request_retries_witness:
  "\<exists>hs answers. length hs \<le> 3 \<and> hd hs = XStr ''old'' \<and> last hs = XStr ''new''
     \<and> xenapi_request demo_server ''VM.get_all'' [] demo_session
       = (Inr (XInt 7), snd (xenapi_request demo_server ''VM.get_all'' [] demo_session))
     \<and> granted (last answers) (XInt 7)
     \<and> rpc_calls (snd (xenapi_request demo_server ''VM.get_all'' [] demo_session))
       = retry_trace ''VM.get_all'' [] (''session.login_with_password'', [XStr ''me'']) hs
     \<and> replay demo_server (retry_trace ''VM.get_all'' [] (''session.login_with_password'', [XStr ''me'']) hs) ()
       = (answers, ())"
proof -
  have d: "stored_login demo_session = (''session.login_with_password'', [XStr ''me''])"
    "rpc_calls demo_session = []" "sess_handle demo_session = XStr ''old''" "server_state demo_session = ()"
    by (simp_all add: demo_session_def new_session_def stored_login_def)
  have "session_getattr ''VM.get_all'' = A_method ''VM.get_all''" "''VM.get_all'' \<noteq> ''session.logout''"
    by (simp_all add: session_getattr_def)
  note q = request_retries [OF this demo_request, unfolded d]
  let ?s = "demo_session\<lparr>sess_handle := XStr ''new'', api_version := None,
      rpc_calls := [(''VM.get_all'', [XStr ''old'']), (''session.login_with_password'', [XStr ''me'']),
        (''VM.get_all'', [XStr ''new''])]\<rparr>"
  let ?tr = "retry_trace ''VM.get_all'' [] (''session.login_with_password'', [XStr ''me''])"
  obtain hs tail answers where h: "rpc_calls ?s = [] @ ?tr hs @ tail" "hd hs = XStr ''old''" "length hs \<le> 3"
    and r: "replay demo_server (?tr hs @ tail) () = (answers, server_state ?s)"
    and v: "\<forall>x. (Inr (XInt 7) :: api_error + xval) = Inr x \<longleftrightarrow> tail = [] \<and> granted (last answers) x"
    and w: "\<forall>x. (Inr (XInt 7) :: api_error + xval) = Inr x \<longrightarrow> last hs = sess_handle ?s"
    using q by (elim exE conjE) (rule that, assumption+)
  from v have "tail = []" "granted (last answers) (XInt 7)" by (metis old.sum.inject(2))+
  with h r w show ?thesis
    by (intro exI [of _ hs] exI [of _ answers]) (simp add: demo_request)
qed

section \<open>What a session remembers\<close>

text \<open>
  A session with a handle remembers the login it came from, method and
  parameters together, and one that remembers none has the default version.
\<close>

definition session_ok :: "'k session \<Rightarrow> bool" where
  "session_ok s \<longleftrightarrow> (sess_handle s \<noteq> XNone \<longrightarrow> last_login_method s \<noteq> None)
     \<and> (last_login_method s = None \<longleftrightarrow> last_login_params s = None)
     \<and> (last_login_method s = None \<longrightarrow> api_version s = Some API_VERSION_1_1)"

lemma keeps_rpc [keeps_intros]: "keeps session_ok (rpc srv m ps)"
  by (auto simp: keeps_def rpc_state session_ok_def)

lemma keeps_login [keeps_intros]: "keeps session_ok (login srv meth ps)"
proof (rule keepsI)
  fix s :: "'a session" assume s: "session_ok s"
  obtain r s' where l: "login srv meth ps s = (r, s')" by fastforce
  have ok: "session_ok (snd (rpc srv (''session.'' @ meth) ps s))" by (rule keepsD [OF keeps_rpc s])
  from l show "session_ok (snd (login srv meth ps s))"
  proof (cases rule: login_cases)
    case (ok h t)
    then show ?thesis by (simp add: l session_ok_def)
  next
    case (failed e)
    with ok show ?thesis by (simp add: l)
  qed
qed

lemma forget_ok: "session_ok (forget s)"
  by (simp add: session_ok_def forget_def)

lemma logout_state: "snd (logout srv s) = forget (snd (logout_call srv s))"
  by (simp add: logout_def with_block_def split: prod.split)

lemma keeps_logout [keeps_intros]: "keeps session_ok (logout srv)"
  by (simp add: keeps_def logout_state forget_ok)

lemma keeps_getattr_call [keeps_intros]:
  assumes "keeps P (logout srv)" "\<And>m ps. keeps P (login srv m ps)" "\<And>m ps. keeps P (rpc srv m ps)"
  shows "keeps P (getattr_call srv name ps)"
  using assms unfolding getattr_call_def by (simp add: keeps_intros split: attr.split option.split)

lemma keeps_case_answer [keeps_intros]:
  "keeps P m \<Longrightarrow> (\<And>x. keeps P (f x)) \<Longrightarrow> keeps P (case a of RECONNECT_AND_RETRY \<Rightarrow> m | Value x \<Rightarrow> f x)"
  by (cases a) simp_all

lemma keeps_request_loop [keeps_intros]: "keeps session_ok (request_loop srv m params n)"
proof (induction n)
  case (Suc n)
  show ?case unfolding request_loop.simps by (intro keeps_intros Suc)
qed (simp add: keeps_intros)

lemma keeps_request [keeps_intros]: "keeps session_ok (xenapi_request srv m params)"
  unfolding xenapi_request_def by (intro keeps_intros)

lemma keeps_call_chain: "keeps session_ok (call_chain srv name names params)"
  unfolding call_chain_def
  by (cases "session_getattr name") (simp_all add: keeps_intros)

text \<open>Requests do not forget a login.\<close>

definition logged_in :: "'k session \<Rightarrow> bool" where
  "logged_in s \<longleftrightarrow> last_login_method s \<noteq> None"

lemma keeps_logged_in [keeps_intros]:
  "keeps logged_in (rpc srv m ps)" "keeps logged_in (login srv meth ps)"
  "session_getattr m = A_method m \<Longrightarrow> keeps logged_in (request_loop srv m params n)"
proof -
  show r: "keeps logged_in (rpc srv m ps)" for m ps by (simp add: keeps_def rpc_state logged_in_def)
  show l: "keeps logged_in (login srv meth ps)" for meth ps
  proof (rule keepsI)
    fix s :: "'a session" assume s: "logged_in s"
    obtain q s' where l: "login srv meth ps s = (q, s')" by fastforce
    then show "logged_in (snd (login srv meth ps s))"
      using keepsD [OF r s] by (cases rule: login_cases) (simp_all add: l logged_in_def)
  qed
  show "keeps logged_in (request_loop srv m params n)" if "session_getattr m = A_method m"
  proof (induction n)
    case (Suc n)
    show ?case unfolding request_loop.simps getattr_method [OF that]
      by (intro keeps_bnd keeps_gets keeps_lift_sum keeps_case_answer keeps_case_prod keeps_case_option keeps_if
          keeps_seq keeps_throw keeps_ret r l Suc)
  qed (simp add: keeps_intros)
qed

lemma version_requests:
  "xenapi_request srv ''pool.get_all'' ps = request_loop srv ''pool.get_all'' ps 3"
  "xenapi_request srv ''pool.get_master'' ps = request_loop srv ''pool.get_master'' ps 3"
  "xenapi_request srv ''host.get_API_version_major'' ps = request_loop srv ''host.get_API_version_major'' ps 3"
  "xenapi_request srv ''host.get_API_version_minor'' ps = request_loop srv ''host.get_API_version_minor'' ps 3"
  by (simp_all add: xenapi_request_def)

lemma get_api_version_keeps:
  "keeps session_ok (get_api_version srv str)" "keeps logged_in (get_api_version srv str)"
proof -
  show "keeps session_ok (get_api_version srv str)"
    unfolding get_api_version_def by (intro keeps_intros)
  show "keeps logged_in (get_api_version srv str)"
    unfolding get_api_version_def version_requests
    by (intro keeps_intros) (simp_all add: session_getattr_def)
qed

lemma API_version_ok: "keeps session_ok (API_version srv str)"
proof (rule keepsI)
  fix s :: "'a session" assume s: "session_ok s"
  consider c cs where "api_version s = Some (c # cs)" | "api_version s = None \<or> api_version s = Some []"
    by (cases "api_version s") (auto, metis list.exhaust)
  then show "session_ok (snd (API_version srv str s))"
  proof cases
    case 1
    with s show ?thesis by (simp add: API_version_def bnd_def gets_def ret_def)
  next
    case 2
    with s have l: "logged_in s" by (auto simp: session_ok_def logged_in_def API_VERSION_1_1_def)
    obtain r t where g: "get_api_version srv str s = (r, t)" by fastforce
    have "session_ok t" "logged_in t"
      using keepsD [OF get_api_version_keeps(1) s, of srv str] keepsD [OF get_api_version_keeps(2) l, of srv str] g
      by simp_all
    with 2 g show ?thesis
      by (cases r) (auto simp: API_version_def bnd_def gets_def seq_def modify_def ret_def session_ok_def logged_in_def)
  qed
qed

text \<open>
  However the server answers, every call through the attributes of a
  session, and asking for the version, keeps what it remembers consistent; a
  new session is consistent. After a logout, even one that failed, nothing is
  remembered: a call that the server then refuses for its session is not
  repeated but ends with fault 401.
\<close>

theorem session_remembers_login:
  assumes "session_ok s"
  shows "session_ok (new_session k) \<and> session_ok (snd (call_chain srv name names params s))
    \<and> session_ok (snd (API_version srv str s))
    \<and> (\<exists>t. snd (logout srv s) = t \<and> session_ok t \<and> sess_handle t = XNone \<and> last_login_method t = None
      \<and> (\<forall>m v k'. session_getattr m = A_method m \<longrightarrow> srv m (XNone # params) (server_state t) = (Inr v, k') \<longrightarrow> parse_result v = Inr RECONNECT_AND_RETRY
          \<longrightarrow> fst (request_loop srv m params 3 t) = Inl (Fault 401)))"
proof -
  have "session_ok (new_session k)" by (simp add: session_ok_def new_session_def)
  moreover have "session_ok (snd (call_chain srv name names params s))" by (rule keepsD [OF keeps_call_chain assms])
  moreover have "session_ok (snd (API_version srv str s))" by (rule keepsD [OF API_version_ok assms])
  moreover have "fst (request_loop srv m params 3 (forget t)) = Inl (Fault 401)"
    if "session_getattr m = A_method m" "srv m (XNone # params) (server_state (forget t)) = (Inr v, k')" "parse_result v = Inr RECONNECT_AND_RETRY" for m v k' t
    using that by (simp add: getattr_method numeral_3_eq_3 bnd_def gets_def rpc_def lift_sum_def throw_def forget_def)
  ultimately show ?thesis
    using forget_ok by (auto simp: logout_state forget_def)
qed

theorem session_remembers_login_witness:
  "session_ok (snd (logout demo_server demo_session)) \<and> sess_handle (snd (logout demo_server demo_session)) = XNone"
proof -
  have "session_ok demo_session" by (simp add: session_ok_def demo_session_def new_session_def)
  from session_remembers_login [OF this, of "()" demo_server "''VM''" "[]" "[]"] show ?thesis by blast
qed

end
