(* ===== verification/Extauth.thy ===== *)
theory Extauth
  imports Py_Text
begin

text \<open>
  The plugin \<^verbatim>\<open>python3/plugins/extauth-hook-AD.py\<close>, which writes the
  configuration files for Active Directory. A file is its content and mode;
  reading and writing files succeeds. The answers of the API and the outcome
  of the command that reloads sshd are arguments. Only the log is left out.
\<close>

section \<open>Configuration files\<close>

datatype ext_error = Ext_ApiFailure | Ext_IndexError | Ext_CalledProcessError

type_synonym etc = "string \<rightharpoonup> string \<times> nat"
type_synonym 'a ext = "(etc, ext_error, 'a) st"

definition HCP_USERS :: string where
  "HCP_USERS = ''/etc/security/hcp_ad_users.conf''"

definition HCP_GROUPS :: string where
  "HCP_GROUPS = ''/etc/security/hcp_ad_groups.conf''"

text \<open>\<^verbatim>\<open>run_cmd\<close>: a command that cannot be started is only logged, one that fails raises.\<close>

datatype cmd_outcome = Cmd_Ok | Cmd_OSError | Cmd_Failed

definition run_cmd :: "cmd_outcome \<Rightarrow> unit ext" where
  "run_cmd outcome = (if outcome = Cmd_Failed then throw Ext_CalledProcessError else ret ())"

text \<open>The lines of \<^verbatim>\<open>ADConfig\<close> when it is made, and its \<^verbatim>\<open>_install\<close>.\<close>

definition load_lines :: "etc \<Rightarrow> string \<Rightarrow> bool \<Rightarrow> string list" where
  "load_lines etc path load_existing =
     (case etc path of
        Some (content, _) \<Rightarrow> if load_existing then map py_strip (splitlines content) else []
      | None \<Rightarrow> [])"

definition install :: "string \<Rightarrow> string list \<Rightarrow> nat \<Rightarrow> unit ext" where
  "install path lines file_mode = modify (\<lambda>etc. etc(path \<mapsto> (py_join [CHR 0x0A] lines, file_mode)))"

definition default_mode :: nat where
  "default_mode = 0x1A4"

section \<open>PAM for ssh\<close>

definition ad_pam_format :: "string \<Rightarrow> string \<Rightarrow> string \<Rightarrow> string list" where
  "ad_pam_format ad_module user_list group_list =
    [''#%PAM-1.0'',
     ''auth        required      pam_env.so'',
     ''auth        sufficient    pam_unix.so try_first_pass nullok'',
     ''auth        sufficient    '' @ ad_module @ '' try_first_pass try_authtok'',
     ''auth        required      pam_deny.so'',
     [],
     ''session     optional      pam_keyinit.so force revoke'',
     ''session     required      pam_limits.so'',
     ''session     [success=1 default=ignore] pam_succeed_if.so service in crond quiet use_uid'',
     ''session     required      pam_unix.so'',
     ''session     required      pam_loginuid.so'',
     ''session     sufficient    '' @ ad_module,
     [],
     ''account     required      pam_nologin.so'',
     ''account     required      '' @ ad_module @ '' unknown_ok'',
     ''account     sufficient    pam_listfile.so item=user file='' @ user_list @ '' sense=allow onerr=fail'',
     ''account     sufficient    pam_listfile.so item=group file='' @ group_list @ '' sense=allow onerr=fail'',
     ''account     required      pam_unix.so'']"

definition no_ad_pam :: "string list" where
  "no_ad_pam =
    [''#%PAM-1.0'',
     ''auth       include      system-auth'',
     ''account    required     pam_nologin.so'',
     ''account    include      system-auth'',
     ''password   include      system-auth'',
     ''session    optional     pam_keyinit.so force revoke'',
     ''session    include      system-auth'',
     ''session    required     pam_loginuid.so'']"

definition static_pam_lines :: "bool \<Rightarrow> string list" where
  "static_pam_lines ad_enabled =
     (if ad_enabled then ad_pam_format ''pam_winbind.so'' HCP_USERS HCP_GROUPS else no_ad_pam)"

section \<open>Users and groups\<close>

record subject =
  sb_roles :: "string list option"
  sb_identifier :: "string option"
  sb_other_config :: "(string \<rightharpoonup> string) option"

text \<open>The API: roles by name, all subjects, and the record of a subject.\<close>

record api =
  api_roles :: "string \<Rightarrow> string list option"
  api_subjects :: "string list option"
  api_record :: "string \<Rightarrow> subject option"

definition is_pool_admin :: "string \<Rightarrow> subject \<Rightarrow> bool" where
  "is_pool_admin admin_role s = (case sb_roles s of None \<Rightarrow> False | Some rs \<Rightarrow> admin_role \<in> set rs)"

definition other_config :: "subject \<Rightarrow> string \<Rightarrow> string option" where
  "other_config s k = Option.bind (sb_other_config s) (\<lambda>m. m k)"

text \<open>
  \<^verbatim>\<open>_is_responsible_for\<close> of the two lists: a subject that does not say whether
  it is a group belongs to neither.
\<close>

definition users_responsible_for :: "subject \<Rightarrow> bool" where
  "users_responsible_for s =
     (case other_config s ''subject-is-group'' of None \<Rightarrow> False | Some g \<Rightarrow> g \<noteq> ''true'')"

definition groups_responsible_for :: "subject \<Rightarrow> bool" where
  "groups_responsible_for s =
     (case other_config s ''subject-is-group'' of None \<Rightarrow> False | Some g \<Rightarrow> g = ''true'')"

definition add_upn :: "subject \<Rightarrow> string list \<Rightarrow> string list" where
  "add_upn s lines =
     (case other_config s ''subject-upn'' of
        None \<Rightarrow> lines
      | Some upn \<Rightarrow>
          (case py_split (CHR ''@'') upn of
             [user, domain] \<Rightarrow> lines @ [user @ ''@'' @ domain]
           | _ \<Rightarrow> lines))"

definition users_add_subject :: "subject \<Rightarrow> string list \<Rightarrow> string list" where
  "users_add_subject s lines =
     (case (sb_identifier s, other_config s ''subject-name'') of
        (Some sid, Some name) \<Rightarrow> add_upn s (lines @ [name])
      | _ \<Rightarrow> lines)"

definition groups_add_subject :: "subject \<Rightarrow> string list \<Rightarrow> string list" where
  "groups_add_subject s lines =
     (case (sb_identifier s, other_config s ''subject-name'') of
        (Some sid, Some name) \<Rightarrow> lines @ [name]
      | _ \<Rightarrow> lines)"

text \<open>
  The loop of \<^verbatim>\<open>DynamicPam._apply_to_cache\<close>: a failing call of the API ends it, and
  then the closing empty line is missing.
\<close>

fun add_subjects ::
  "api \<Rightarrow> string \<Rightarrow> (subject \<Rightarrow> bool) \<Rightarrow> (subject \<Rightarrow> string list \<Rightarrow> string list) \<Rightarrow> string list \<Rightarrow> string list \<Rightarrow> string list"
where
  "add_subjects api role resp add [] lines = lines @ [[]]"
| "add_subjects api role resp add (opaque_ref # refs) lines =
     (case api_record api opaque_ref of
        None \<Rightarrow> lines
      | Some s \<Rightarrow>
          add_subjects api role resp add refs (if is_pool_admin role s \<and> resp s then add s lines else lines))"

definition dynamic_lines ::
  "api \<Rightarrow> string \<Rightarrow> (subject \<Rightarrow> bool) \<Rightarrow> (subject \<Rightarrow> string list \<Rightarrow> string list) \<Rightarrow> string list" where
  "dynamic_lines api role resp add =
     (case api_subjects api of None \<Rightarrow> [] | Some refs \<Rightarrow> add_subjects api role resp add refs [])"

text \<open>The constructor looks up the role; \<^verbatim>\<open>_install\<close> removes the file when AD is disabled.\<close>

definition admin_role :: "api \<Rightarrow> ext_error + string" where
  "admin_role api =
     (case api_roles api ''pool-admin'' of
        None \<Rightarrow> Inl Ext_ApiFailure
      | Some [] \<Rightarrow> Inl Ext_IndexError
      | Some (r # _) \<Rightarrow> Inr r)"

definition dynamic_install :: "string \<Rightarrow> bool \<Rightarrow> string list \<Rightarrow> unit ext" where
  "dynamic_install path ad_enabled lines =
     (if ad_enabled then install path lines default_mode else modify (\<lambda>etc. etc(path := None)))"

section \<open>Files of keys and values\<close>

record kv_config =
  kv_sep :: "string option"
  kv_comment :: string
  kv_values :: "(string \<times> string) list"

definition special_line_prefix :: string where
  "special_line_prefix = ''__key_value_config_sp_line_prefix_''"

definition is_special_line :: "string \<Rightarrow> bool" where
  "is_special_line l \<longleftrightarrow> take (length special_line_prefix) l = special_line_prefix"

definition is_comment_line :: "string \<Rightarrow> string \<Rightarrow> bool" where
  "is_comment_line comment l \<longleftrightarrow> take (length comment) l = comment"

definition split_item :: "string option \<Rightarrow> string \<Rightarrow> string list" where
  "split_item sep l = (case sep of None \<Rightarrow> words l | Some s \<Rightarrow> py_split_str s l)"

definition sp_key :: "nat \<Rightarrow> string" where
  "sp_key idx = special_line_prefix @ nat_str idx"

text \<open>\<^verbatim>\<open>_load_values\<close>: line by line into the ordered dictionary.\<close>

definition load_value ::
  "string option \<Rightarrow> string \<Rightarrow> nat \<Rightarrow> string \<Rightarrow> (string \<times> string) list \<Rightarrow> (string \<times> string) list" where
  "load_value sep comment idx line values =
     (if line = [] then AList.update (sp_key idx) [] values
      else if is_comment_line comment line then AList.update (sp_key idx) line values
      else
        case split_item sep line of
          [a, b] \<Rightarrow>
            if map_of values (py_strip a) = None then AList.update (py_strip a) (py_strip b) values
            else AList.update (sp_key idx) line values
        | _ \<Rightarrow> AList.update (sp_key idx) line values)"

fun load_values ::
  "string option \<Rightarrow> string \<Rightarrow> nat \<Rightarrow> string list \<Rightarrow> (string \<times> string) list \<Rightarrow> (string \<times> string) list" where
  "load_values sep comment idx [] values = values"
| "load_values sep comment idx (line # lines) values =
     load_values sep comment (Suc idx) lines (load_value sep comment idx line values)"

text \<open>The separator given; one that is white space means any white space.\<close>

definition new_kv_config :: "etc \<Rightarrow> string \<Rightarrow> string \<Rightarrow> kv_config" where
  "new_kv_config etc path sep =
    (let sep = (if sep \<noteq> [] \<and> list_all str_space sep then None else Some sep) in
     \<lparr>kv_sep = sep, kv_comment = ''#'', kv_values = load_values sep ''#'' 0 (load_lines etc path True) []\<rparr>)"

definition update_key_value :: "string \<Rightarrow> string \<Rightarrow> kv_config \<Rightarrow> kv_config" where
  "update_key_value key v c = c\<lparr>kv_values := AList.update key v (kv_values c)\<rparr>"

definition sep_text :: "string option \<Rightarrow> string" where
  "sep_text sep = (case sep of None \<Rightarrow> '' '' | Some s \<Rightarrow> if s = [] then '' '' else s)"

definition apply_value :: "string option \<Rightarrow> string \<times> string \<Rightarrow> string" where
  "apply_value sep kv = (if is_special_line (fst kv) then snd kv else fst kv @ sep_text sep @ snd kv)"

definition apply_to_cache :: "kv_config \<Rightarrow> string list" where
  "apply_to_cache c = map (apply_value (kv_sep c)) (kv_values c)"

definition nss_config :: "etc \<Rightarrow> bool \<Rightarrow> kv_config" where
  "nss_config etc ad_enabled =
    (let modules = (if ad_enabled then ''files override_id winbind'' else ''files sss'') in
     update_key_value ''shadow'' modules (update_key_value ''group'' modules
       (update_key_value ''passwd'' modules (new_kv_config etc ''/etc/nsswitch.conf'' '': ''))))"

definition sshd_config :: "etc \<Rightarrow> bool \<Rightarrow> kv_config" where
  "sshd_config etc ad_enabled =
    (let v = (if ad_enabled then ''yes'' else ''no'') in
     update_key_value ''GSSAPICleanupCredentials'' v (update_key_value ''GSSAPIAuthentication'' v
       (update_key_value ''ChallengeResponseAuthentication'' v (new_kv_config etc ''/etc/ssh/sshd_config'' '' ''))))"

definition pam_winbind_config :: "etc \<Rightarrow> kv_config" where
  "pam_winbind_config etc =
     update_key_value ''krb5_auth'' ''yes'' (new_kv_config etc ''/etc/security/pam_winbind.conf'' '' = '')"

section \<open>All the configurations\<close>

text \<open>\<^verbatim>\<open>ConfigManager\<close>: everything is read when it is made.\<close>

record config_manager =
  cm_nss :: kv_config
  cm_sshd :: kv_config
  cm_pam_winbind :: kv_config
  cm_role :: string
  cm_ad_enabled :: bool

definition build_config :: "api \<Rightarrow> bool \<Rightarrow> config_manager ext" where
  "build_config api ad_enabled = (\<lambda>etc.
     case admin_role api of
       Inl e \<Rightarrow> (Inl e, etc)
     | Inr role \<Rightarrow>
         (Inr \<lparr>cm_nss = nss_config etc ad_enabled, cm_sshd = sshd_config etc ad_enabled,
            cm_pam_winbind = pam_winbind_config etc, cm_role = role, cm_ad_enabled = ad_enabled\<rparr>, etc))"

definition apply_users :: "api \<Rightarrow> config_manager \<Rightarrow> unit ext" where
  "apply_users api cm = dynamic_install HCP_USERS (cm_ad_enabled cm)
     (if cm_ad_enabled cm then dynamic_lines api (cm_role cm) users_responsible_for users_add_subject else [])"

definition apply_groups :: "api \<Rightarrow> config_manager \<Rightarrow> unit ext" where
  "apply_groups api cm = dynamic_install HCP_GROUPS (cm_ad_enabled cm)
     (if cm_ad_enabled cm then dynamic_lines api (cm_role cm) groups_responsible_for groups_add_subject else [])"

definition refresh_all :: "api \<Rightarrow> cmd_outcome \<Rightarrow> config_manager \<Rightarrow> unit ext" where
  "refresh_all api reload cm =
     seq (install ''/etc/nsswitch.conf'' (apply_to_cache (cm_nss cm)) default_mode)
     (seq (install ''/etc/ssh/sshd_config'' (apply_to_cache (cm_sshd cm)) default_mode)
     (seq (run_cmd reload)
     (seq (apply_users api cm)
     (seq (apply_groups api cm)
     (seq (install ''/etc/pam.d/sshd'' (static_pam_lines (cm_ad_enabled cm)) default_mode)
     (install ''/etc/security/pam_winbind.conf'' (apply_to_cache (cm_pam_winbind cm)) default_mode))))))"

definition refresh_dynamic :: "api \<Rightarrow> config_manager \<Rightarrow> unit ext" where
  "refresh_dynamic api cm = seq (apply_users api cm) (apply_groups api cm)"

text \<open>The callbacks: every exception becomes a message.\<close>

definition guarded :: "string \<Rightarrow> unit ext \<Rightarrow> etc \<Rightarrow> string \<times> etc" where
  "guarded msg m etc = (case m etc of (Inr _, etc') \<Rightarrow> (''True'', etc') | (Inl _, etc') \<Rightarrow> (msg, etc'))"

definition refresh_all_configurations :: "api \<Rightarrow> cmd_outcome \<Rightarrow> bool \<Rightarrow> etc \<Rightarrow> string \<times> etc" where
  "refresh_all_configurations api reload ad_enabled =
     guarded ''Failed to refresh all configurations'' (bnd (build_config api ad_enabled) (refresh_all api reload))"

definition refresh_dynamic_pam :: "api \<Rightarrow> etc \<Rightarrow> string \<times> etc" where
  "refresh_dynamic_pam api =
     guarded ''Failed to refresh dynamic pam configuration'' (bnd (build_config api True) (refresh_dynamic api))"

definition extauth_hook :: "string \<Rightarrow> api \<Rightarrow> cmd_outcome \<Rightarrow> etc \<Rightarrow> (string \<times> etc) option" where
  "extauth_hook name api reload etc =
     (if name \<in> {''after-extauth-enable'', ''after-xapi-initialize''}
      then Some (refresh_all_configurations api reload True etc)
      else if name = ''before-extauth-disable'' then Some (refresh_all_configurations api reload False etc)
      else if name \<in> {''after-subject-add'', ''after-subject-update'', ''after-subject-remove'', ''after-roles-update''}
      then Some (refresh_dynamic_pam api etc)
      else None)"

end
