(* ===== verification/Extauth_Proofs.thy ===== *)
theory Extauth_Proofs
  imports Extauth
begin

text \<open>
  The properties of the AD plugin: which lines of a configuration file a
  change touches, who may log in, and what the callbacks leave behind.
\<close>

section \<open>One line per key\<close>

text \<open>The key and value a line stands for, if it does.\<close>

definition entry_of :: "string option \<Rightarrow> string \<Rightarrow> string \<Rightarrow> (string \<times> string) option" where
  "entry_of sep comment line =
     (if line = [] \<or> is_comment_line comment line then None
      else case split_item sep line of [a, b] \<Rightarrow> Some (py_strip a, py_strip b) | _ \<Rightarrow> None)"

lemma load_value_eq:
  "load_value sep comment idx line vs =
     (case entry_of sep comment line of
        Some (k, v) \<Rightarrow> if map_of vs k = None then AList.update k v vs else AList.update (sp_key idx) line vs
      | None \<Rightarrow> AList.update (sp_key idx) line vs)"
  by (auto simp: load_value_def entry_of_def split: list.split)

text \<open>The dictionary that is loaded, as a list.\<close>

fun entries :: "string option \<Rightarrow> string \<Rightarrow> nat \<Rightarrow> string set \<Rightarrow> string list \<Rightarrow> (string \<times> string) list" where
  "entries sep comment idx seen [] = []"
| "entries sep comment idx seen (line # lines) =
     (case entry_of sep comment line of
        Some (k, v) \<Rightarrow>
          if k \<in> seen then (sp_key idx, line) # entries sep comment (Suc idx) seen lines
          else (k, v) # entries sep comment (Suc idx) (insert k seen) lines
      | None \<Rightarrow> (sp_key idx, line) # entries sep comment (Suc idx) seen lines)"

definition plain_lines :: "string option \<Rightarrow> string \<Rightarrow> string list \<Rightarrow> bool" where
  "plain_lines sep comment lines \<longleftrightarrow>
     (\<forall>l \<in> set lines. \<forall>k v. entry_of sep comment l = Some (k, v) \<longrightarrow> \<not> is_special_line k)"

lemma sp_key_special: "is_special_line (sp_key i)"
  by (simp add: is_special_line_def sp_key_def)

lemma sp_key_inject: "sp_key i = sp_key j \<longleftrightarrow> i = j"
  by (simp add: sp_key_def)

text \<open>The keys a dictionary may have before line \<open>idx\<close>.\<close>

definition loaded_keys :: "nat \<Rightarrow> string set \<Rightarrow> (string \<times> string) list \<Rightarrow> bool" where
  "loaded_keys idx seen vs \<longleftrightarrow>
     (\<forall>i \<ge> idx. map_of vs (sp_key i) = None) \<and> (\<forall>k. \<not> is_special_line k \<longrightarrow> (map_of vs k = None \<longleftrightarrow> k \<notin> seen))"

lemma load_values_entries:
  assumes "plain_lines sep comment lines" "loaded_keys idx seen vs"
  shows "load_values sep comment idx lines vs = vs @ entries sep comment idx seen lines"
  using assms
proof (induction lines arbitrary: idx seen vs)
  case (Cons line lines)
  have pl: "plain_lines sep comment lines" using Cons.prems(1) by (simp add: plain_lines_def)
  have raw: "load_values sep comment (Suc idx) lines (AList.update (sp_key idx) line vs)
      = vs @ (sp_key idx, line) # entries sep comment (Suc idx) seen lines"
  proof -
    have "AList.update (sp_key idx) line vs = vs @ [(sp_key idx, line)]"
      using Cons.prems(2) by (intro update_new) (simp add: loaded_keys_def)
    moreover have "loaded_keys (Suc idx) seen (vs @ [(sp_key idx, line)])"
      using Cons.prems(2) sp_key_special by (auto simp: loaded_keys_def sp_key_inject map_add_def split: option.split)
    ultimately show ?thesis using Cons.IH [OF pl, of "Suc idx" seen] by simp
  qed
  show ?case
  proof (cases "entry_of sep comment line")
    case None
    with raw show ?thesis by (simp add: load_value_eq)
  next
    case (Some kv)
    obtain k v where kv: "kv = (k, v)" by fastforce
    have nk: "\<not> is_special_line k" using Cons.prems(1) Some kv by (simp add: plain_lines_def)
    show ?thesis
    proof (cases "k \<in> seen")
      case True
      with raw Some kv nk Cons.prems(2) show ?thesis by (simp add: load_value_eq loaded_keys_def)
    next
      case False
      then have new: "map_of vs k = None" using Cons.prems(2) nk by (simp add: loaded_keys_def)
      have "loaded_keys (Suc idx) (insert k seen) (vs @ [(k, v)])"
        using Cons.prems(2) nk sp_key_special by (auto simp: loaded_keys_def map_add_def split: option.split)
      with Cons.IH [OF pl, of "Suc idx" "insert k seen"] new False Some kv show ?thesis
        by (simp add: load_value_eq update_new)
    qed
  qed
qed simp

lemma entries_keys:
  assumes "plain_lines sep comment lines"
  shows "fst ` set (entries sep comment idx seen lines) \<subseteq> {k. \<not> is_special_line k \<and> k \<notin> seen} \<union> sp_key ` {idx..}"
  using assms
proof (induction lines arbitrary: idx seen)
  case (Cons line lines)
  have pl: "plain_lines sep comment lines" using Cons.prems by (simp add: plain_lines_def)
  have k: "\<not> is_special_line k" if "entry_of sep comment line = Some (k, v)" for k v
    using Cons.prems that by (simp add: plain_lines_def)
  let ?T = "{k. \<not> is_special_line k \<and> k \<notin> seen} \<union> sp_key ` {idx..}"
  have sub: "fst ` set (entries sep comment (Suc idx) S lines) \<subseteq> ?T" if "seen \<subseteq> S" for S
  proof -
    have "sp_key ` {Suc idx..} \<subseteq> sp_key ` {idx..}" by (intro image_mono) auto
    with that have "{k. \<not> is_special_line k \<and> k \<notin> S} \<union> sp_key ` {Suc idx..} \<subseteq> ?T" by blast
    with Cons.IH [OF pl, of "Suc idx" S] show ?thesis by blast
  qed
  have "sp_key idx \<in> ?T" by simp
  moreover have "k \<in> ?T" if "entry_of sep comment line = Some (k, v)" "k \<notin> seen" for k v
    using k [OF that(1)] that(2) by simp
  ultimately show ?case
    using sub [of seen] sub [of "insert k seen" for k]
    by (simp split: option.split) (metis subset_insertI)
qed simp

lemma entries_distinct:
  assumes "plain_lines sep comment lines"
  shows "distinct (map fst (entries sep comment idx seen lines))"
  using assms
proof (induction lines arbitrary: idx seen)
  case (Cons line lines)
  have pl: "plain_lines sep comment lines" using Cons.prems by (simp add: plain_lines_def)
  have sp: "sp_key idx \<notin> fst ` set (entries sep comment (Suc idx) S lines)" for S
  proof -
    have "sp_key idx \<notin> {k. \<not> is_special_line k \<and> k \<notin> S} \<union> sp_key ` {Suc idx..}"
      using sp_key_special by (auto simp: sp_key_inject)
    with entries_keys [OF pl, of "Suc idx" S] show ?thesis by blast
  qed
  have k: "k \<notin> fst ` set (entries sep comment (Suc idx) (insert k seen) lines)"
    if "entry_of sep comment line = Some (k, v)" for k v
  proof -
    have "\<not> is_special_line k" using Cons.prems that by (simp add: plain_lines_def)
    then have "k \<notin> {k'. \<not> is_special_line k' \<and> k' \<notin> insert k seen} \<union> sp_key ` {Suc idx..}"
      using sp_key_special by auto
    with entries_keys [OF pl, of "Suc idx" "insert k seen"] show ?thesis by blast
  qed
  show ?case
    using Cons.IH [OF pl] sp k by (auto split: option.split)
qed simp

section \<open>Changing keys\<close>

definition upd_all :: "(string \<times> string) list \<Rightarrow> (string \<times> string) list \<Rightarrow> (string \<times> string) list" where
  "upd_all us xs = map (\<lambda>(k, x). (k, case map_of us k of Some v \<Rightarrow> v | None \<Rightarrow> x)) xs
     @ filter (\<lambda>(k, v). k \<notin> fst ` set xs) us"

lemma update_in_place:
  "distinct (map fst xs) \<Longrightarrow> k \<in> fst ` set xs \<Longrightarrow>
     AList.update k v xs = map (\<lambda>(k', x). (k', if k' = k then v else x)) xs"
proof (induction xs)
  case (Cons p xs)
  obtain k' x where p: "p = (k', x)" by fastforce
  show ?case
  proof (cases "k' = k")
    case True
    with Cons.prems p have "k \<notin> fst ` set xs" by simp
    then have "map (\<lambda>(k', x). (k', if k' = k then v else x)) xs = xs" by (intro map_idI) force
    with True p show ?thesis by simp
  next
    case False
    with Cons p show ?thesis by auto
  qed
qed simp

lemma foldl_update:
  assumes "distinct (map fst us)" "distinct (map fst xs)"
  shows "foldl (\<lambda>xs (k, v). AList.update k v xs) xs us = upd_all us xs"
  using assms(1)
proof (induction us rule: rev_induct)
  case Nil
  show ?case by (auto simp: upd_all_def intro!: map_idI [symmetric])
next
  case (snoc u us)
  obtain k v where u: "u = (k, v)" by fastforce
  have new: "map_of us k = None" "k \<notin> fst ` set us"
    using snoc.prems u by (auto simp: map_of_eq_None_iff)
  have keys: "map fst (upd_all us xs) = map fst xs @ map fst (filter (\<lambda>(k, v). k \<notin> fst ` set xs) us)"
    by (simp add: upd_all_def o_def case_prod_beta)
  have "foldl (\<lambda>xs (k, v). AList.update k v xs) xs (us @ [u]) = AList.update k v (upd_all us xs)"
    using snoc u by simp
  also have "\<dots> = upd_all (us @ [u]) xs"
  proof (cases "k \<in> fst ` set xs")
    case True
    have d: "distinct (map fst (upd_all us xs))"
      unfolding keys using assms(2) snoc.prems by (auto simp: distinct_map_filter) force
    have "k \<in> fst ` set (upd_all us xs)"
      using True arg_cong [OF keys, of set] by auto
    note place = update_in_place [OF d this, of v]
    have same: "map (\<lambda>(k', x). (k', if k' = k then v else x)) (filter (\<lambda>(k, v). k \<notin> fst ` set xs) us)
        = filter (\<lambda>(k, v). k \<notin> fst ` set xs) us"
      using new(2) by (intro map_idI) force
    have "map ((\<lambda>(k', x). (k', if k' = k then v else x)) \<circ> (\<lambda>(k, x). (k, case map_of us k of None \<Rightarrow> x | Some v \<Rightarrow> v))) xs
        = map (\<lambda>(k', x). (k', case map_of (us @ [u]) k' of None \<Rightarrow> x | Some v \<Rightarrow> v)) xs"
      using new(1) u by (auto simp: map_add_def split: option.splits)
    with True show ?thesis
      unfolding place unfolding upd_all_def map_append map_map same by (simp add: u)
  next
    case False
    have "map_of (upd_all us xs) k = None"
      using False new(2) arg_cong [OF keys, of set] by (auto simp: map_of_eq_None_iff)
    from update_new [OF this] show ?thesis
      using False u unfolding upd_all_def by (auto simp: map_add_def split: option.splits) force
  qed
  finally show ?case .
qed

text \<open>
  The lines after the keys of \<open>us\<close> were given new values: the first line of
  each key is rewritten, every other line stays as it is.
\<close>

fun changed_lines ::
  "string option \<Rightarrow> string \<Rightarrow> (string \<times> string) list \<Rightarrow> string set \<Rightarrow> string list \<Rightarrow> string list" where
  "changed_lines sep comment us seen [] = []"
| "changed_lines sep comment us seen (line # lines) =
     (case entry_of sep comment line of
        Some (k, v) \<Rightarrow>
          if k \<in> seen then line # changed_lines sep comment us seen lines
          else (k @ sep_text sep @ (case map_of us k of Some v' \<Rightarrow> v' | None \<Rightarrow> v))
                 # changed_lines sep comment us (insert k seen) lines
      | None \<Rightarrow> line # changed_lines sep comment us seen lines)"

definition has_key :: "string option \<Rightarrow> string \<Rightarrow> string list \<Rightarrow> string \<Rightarrow> bool" where
  "has_key sep comment lines k \<longleftrightarrow> (\<exists>l \<in> set lines. \<exists>v. entry_of sep comment l = Some (k, v))"

lemma apply_entries:
  assumes "plain_lines sep comment lines" "\<forall>(k, v) \<in> set us. \<not> is_special_line k"
  shows "map (apply_value sep) (map (\<lambda>(k, x). (k, case map_of us k of Some v \<Rightarrow> v | None \<Rightarrow> x))
      (entries sep comment idx seen lines)) = changed_lines sep comment us seen lines"
  using assms(1)
proof (induction lines arbitrary: idx seen)
  case (Cons line lines)
  have pl: "plain_lines sep comment lines" using Cons.prems by (simp add: plain_lines_def)
  have "map_of us (sp_key idx) = None"
  proof (rule ccontr)
    assume "map_of us (sp_key idx) \<noteq> None"
    then obtain v where "(sp_key idx, v) \<in> set us" by (auto dest: map_of_SomeD)
    with assms(2) sp_key_special [of idx] show False by fastforce
  qed
  moreover have "\<not> is_special_line k" if "entry_of sep comment line = Some (k, v)" for k v
    using Cons.prems that by (simp add: plain_lines_def)
  ultimately show ?case
    using Cons.IH [OF pl] sp_key_special by (auto simp: apply_value_def split: option.split)
qed simp

lemma entries_has_key:
  assumes "\<not> is_special_line k"
  shows "k \<in> fst ` set (entries sep comment idx seen lines) \<longleftrightarrow> k \<notin> seen \<and> has_key sep comment lines k"
proof (induction lines arbitrary: idx seen)
  case (Cons line lines)
  have "k \<noteq> sp_key idx" using assms sp_key_special by auto
  note ne = this
  show ?case
  proof (cases "entry_of sep comment line")
    case None
    with ne Cons.IH [of "Suc idx" seen] show ?thesis by (simp add: has_key_def)
  next
    case (Some kv)
    obtain k' v where kv: "kv = (k', v)" by fastforce
    show ?thesis
    proof (cases "k' \<in> seen")
      case True
      with Some kv ne Cons.IH [of "Suc idx" seen] show ?thesis by (auto simp: has_key_def)
    next
      case False
      with Some kv ne Cons.IH [of "Suc idx" "insert k' seen"] show ?thesis
        by (cases "k = k'") (auto simp: has_key_def)
    qed
  qed
qed (simp add: has_key_def)

lemma kv_updates:
  "foldl (\<lambda>c (k, v). update_key_value k v c) c us
     = c\<lparr>kv_values := foldl (\<lambda>xs (k, v). AList.update k v xs) (kv_values c) us\<rparr>"
  by (induction us arbitrary: c) (auto simp: update_key_value_def)

text \<open>
  Setting keys in a configuration file touches nothing else. What is
  written is the file line by line, stripped, except that the first line of
  each key that was set has the new value, that the first line of any other
  key is written with the standard separator, and that keys the file did not
  have follow at the end, in the order they were set. Comments, blank lines,
  lines that are not a key and a value, and further lines of a key are kept.
  No key of the file may start with the prefix that is reserved.
\<close>

theorem config_change_lines:
  assumes "distinct (map fst us)" "\<forall>(k, v) \<in> set us. \<not> is_special_line k"
    "kv_sep (new_kv_config etc path sep) = sep'" "lines = load_lines etc path True" "plain_lines sep' ''#'' lines"
  shows "apply_to_cache (foldl (\<lambda>c (k, v). update_key_value k v c) (new_kv_config etc path sep) us)
    = changed_lines sep' ''#'' us {} lines
      @ map (\<lambda>(k, v). k @ sep_text sep' @ v) (filter (\<lambda>(k, v). \<not> has_key sep' ''#'' lines k) us)"
proof -
  let ?E = "entries sep' ''#'' 0 {} lines"
  have vals: "kv_values (new_kv_config etc path sep) = ?E"
    using load_values_entries [OF assms(5), of 0 "{}" "[]"] assms(3,4)
    by (simp add: new_kv_config_def Let_def loaded_keys_def)
  have f: "filter (\<lambda>(k, v). k \<notin> fst ` set ?E) us = filter (\<lambda>(k, v). \<not> has_key sep' ''#'' lines k) us"
  proof (rule filter_cong [OF refl])
    fix x assume x: "x \<in> set us"
    obtain k v where kv: "x = (k, v)" by fastforce
    with x assms(2) have "\<not> is_special_line k" by fastforce
    from entries_has_key [OF this, of sep' "''#''" 0 "{}" lines] kv
    show "(case x of (k, v) \<Rightarrow> k \<notin> fst ` set ?E) = (case x of (k, v) \<Rightarrow> \<not> has_key sep' ''#'' lines k)" by simp
  qed
  have "map (apply_value sep') (filter (\<lambda>(k, v). \<not> has_key sep' ''#'' lines k) us)
      = map (\<lambda>(k, v). k @ sep_text sep' @ v) (filter (\<lambda>(k, v). \<not> has_key sep' ''#'' lines k) us)"
    using assms(2) by (intro map_cong) (auto simp: apply_value_def)
  then show ?thesis
    using apply_entries [OF assms(5,2), of 0 "{}"] foldl_update [OF assms(1) entries_distinct [OF assms(5)]] assms(3)
    unfolding apply_to_cache_def kv_updates vals by (simp add: upd_all_def f)
qed

definition example_etc :: etc where
  "example_etc = [''/etc/ssh/sshd_config'' \<mapsto>
     (''# sshd'' @ [CHR 0x0A] @ ''GSSAPIAuthentication  no'' @ [CHR 0x0A] @ ''Subsystem sftp internal-sftp'' @ [CHR 0x0A], default_mode)]"

theorem config_change_lines_witness:
  "apply_to_cache (foldl (\<lambda>c (k, v). update_key_value k v c) (new_kv_config example_etc ''/etc/ssh/sshd_config'' '' '')
       [(''GSSAPIAuthentication'', ''yes''), (''GSSAPICleanupCredentials'', ''yes'')])
     = [''# sshd'', ''GSSAPIAuthentication yes'', ''Subsystem sftp internal-sftp'', ''GSSAPICleanupCredentials yes'']"
proof -
  let ?us = "[(''GSSAPIAuthentication'', ''yes''), (''GSSAPICleanupCredentials'', ''yes'')]"
  let ?lines = "[''# sshd'', ''GSSAPIAuthentication  no'', ''Subsystem sftp internal-sftp'']"
  have l: "?lines = load_lines example_etc ''/etc/ssh/sshd_config'' True" by code_simp
  have s: "kv_sep (new_kv_config example_etc ''/etc/ssh/sshd_config'' '' '') = None" by code_simp
  have e: "entry_of None ''#'' ''# sshd'' = None" "entry_of None ''#'' ''Subsystem sftp internal-sftp'' = None"
    "entry_of None ''#'' ''GSSAPIAuthentication  no'' = Some (''GSSAPIAuthentication'', ''no'')"
    by code_simp+
  have p: "plain_lines None ''#'' ?lines"
    using e by (simp add: plain_lines_def is_special_line_def special_line_prefix_def)
  have sp: "\<forall>(k, v) \<in> set ?us. \<not> is_special_line k"
    by (simp add: is_special_line_def special_line_prefix_def)
  have d: "distinct (map fst ?us)" by simp
  from config_change_lines [OF d sp s l p] show ?thesis
    using e by (simp add: has_key_def sep_text_def)
qed

section \<open>Who may log in\<close>

text \<open>The lines a subject contributes to the list of users and of groups.\<close>

definition user_lines :: "subject \<Rightarrow> string list" where
  "user_lines s =
     (if sb_identifier s = None then []
      else case other_config s ''subject-name'' of
        None \<Rightarrow> []
      | Some name \<Rightarrow> name # (case other_config s ''subject-upn'' of None \<Rightarrow> []
          | Some upn \<Rightarrow> if length (py_split (CHR ''@'') upn) = 2 then [upn] else []))"

definition group_lines :: "subject \<Rightarrow> string list" where
  "group_lines s =
     (if sb_identifier s = None then []
      else case other_config s ''subject-name'' of None \<Rightarrow> [] | Some name \<Rightarrow> [name])"

text \<open>The records the API gives, up to the first that it fails to give.\<close>

definition records :: "api \<Rightarrow> string list \<Rightarrow> subject list" where
  "records api refs = map the (takeWhile (\<lambda>r. r \<noteq> None) (map (api_record api) refs))"

lemma py_split_join: "py_split c s = [a, b] \<Longrightarrow> s = a @ c # b"
proof (induction s arbitrary: a)
  case (Cons d s)
  show ?case
  proof (cases "d = c")
    case True
    with Cons.prems have a: "a = []" "py_split c s = [b]" by auto
    have "py_split c s = [b] \<Longrightarrow> s = b"
    proof (induction s arbitrary: b)
      case (Cons e s)
      then show ?case by (cases "py_split c s") (auto split: if_splits)
    qed simp
    with a True show ?thesis by simp
  next
    case False
    with Cons show ?thesis by (cases "py_split c s") auto
  qed
qed simp

lemma users_add_eq: "users_add_subject s lines = lines @ user_lines s"
proof -
  have "(case py_split (CHR ''@'') upn of [user, domain] \<Rightarrow> ls @ [user @ ''@'' @ domain] | _ \<Rightarrow> ls)
      = ls @ (if length (py_split (CHR ''@'') upn) = 2 then [upn] else [])" for upn ls
    using py_split_join [of "CHR ''@''" upn] by (auto split: list.split)
  then show ?thesis
    by (simp add: users_add_subject_def user_lines_def add_upn_def split: option.split)
qed

lemma groups_add_eq: "groups_add_subject s lines = lines @ group_lines s"
  by (simp add: groups_add_subject_def group_lines_def split: option.split)

lemma add_subjects_eq:
  assumes "\<And>s lines. add s lines = lines @ f s"
  shows "add_subjects api role resp add refs lines = lines
    @ concat (map f (filter (\<lambda>s. is_pool_admin role s \<and> resp s) (records api refs)))
    @ (if \<forall>r \<in> set refs. api_record api r \<noteq> None then [[]] else [])"
proof (induction refs arbitrary: lines)
  case (Cons r refs)
  then show ?case by (cases "api_record api r") (auto simp: records_def assms)
qed (simp add: records_def)

text \<open>What a record of the API says of a subject.\<close>

definition has_role :: "string \<Rightarrow> subject \<Rightarrow> bool" where
  "has_role role s \<longleftrightarrow> (\<exists>rs. sb_roles s = Some rs \<and> role \<in> set rs)"

definition says_group :: "subject \<Rightarrow> string \<Rightarrow> bool" where
  "says_group s g \<longleftrightarrow> (\<exists>m. sb_other_config s = Some m \<and> m ''subject-is-group'' = Some g)"

lemma subject_facts:
  "is_pool_admin role s \<longleftrightarrow> has_role role s"
  "users_responsible_for s \<longleftrightarrow> (\<exists>g. says_group s g \<and> g \<noteq> ''true'')"
  "groups_responsible_for s \<longleftrightarrow> says_group s ''true''"
  by (auto simp: is_pool_admin_def has_role_def users_responsible_for_def groups_responsible_for_def
      other_config_def says_group_def bind_eq_Some_conv split: option.splits)

text \<open>
  C13: The role that is looked up is the first one named \<^verbatim>\<open>pool-admin\<close>. The lists of
  users and groups that may log in hold exactly the names
  (and for users the well-formed principal names) of the subjects that have
  the role of pool administrator and that are users and groups respectively,
  in the order of the API. When the API fails in between, the list ends with
  the last subject that was read; it never holds anyone else.
\<close>

theorem only_pool_admins_listed:
  assumes "api_subjects api = Some refs"
  shows "(admin_role api = Inr role \<longleftrightarrow> (\<exists>rs. api_roles api ''pool-admin'' = Some (role # rs)))
    \<and> dynamic_lines api role users_responsible_for users_add_subject
      = concat (map user_lines (filter (\<lambda>s. has_role role s \<and> (\<exists>g. says_group s g \<and> g \<noteq> ''true'')) (records api refs)))
        @ (if \<forall>r \<in> set refs. api_record api r \<noteq> None then [[]] else [])
    \<and> dynamic_lines api role groups_responsible_for groups_add_subject
      = concat (map group_lines (filter (\<lambda>s. has_role role s \<and> says_group s ''true'') (records api refs)))
        @ (if \<forall>r \<in> set refs. api_record api r \<noteq> None then [[]] else [])"
proof -
  have "admin_role api = Inr role \<longleftrightarrow> (\<exists>rs. api_roles api ''pool-admin'' = Some (role # rs))"
    by (auto simp: admin_role_def split: option.splits list.splits)
  moreover note lines = assms add_subjects_eq [of users_add_subject user_lines, OF users_add_eq]
    add_subjects_eq [of groups_add_subject group_lines, OF groups_add_eq]
  have "dynamic_lines api role users_responsible_for users_add_subject
      = concat (map user_lines (filter (\<lambda>s. has_role role s \<and> (\<exists>g. says_group s g \<and> g \<noteq> ''true'')) (records api refs)))
        @ (if \<forall>r \<in> set refs. api_record api r \<noteq> None then [[]] else [])"
    using lines unfolding subject_facts [symmetric] by (simp add: dynamic_lines_def)
  moreover have "dynamic_lines api role groups_responsible_for groups_add_subject
      = concat (map group_lines (filter (\<lambda>s. has_role role s \<and> says_group s ''true'') (records api refs)))
        @ (if \<forall>r \<in> set refs. api_record api r \<noteq> None then [[]] else [])"
    using lines unfolding subject_facts [symmetric] by (simp add: dynamic_lines_def)
  ultimately show ?thesis by blast
qed

definition example_api :: api where
  "example_api = \<lparr>api_roles = (\<lambda>n. Some [''R1'']), api_subjects = Some [''a'', ''b''],
     api_record = (\<lambda>r. Some \<lparr>sb_roles = Some (if r = ''a'' then [''R1''] else [''R2'']), sb_identifier = Some ''S'',
       sb_other_config = Some [''subject-is-group'' \<mapsto> ''false'', ''subject-name'' \<mapsto> r, ''subject-upn'' \<mapsto> r @ ''@dom'']\<rparr>)\<rparr>"

theorem only_pool_admins_listed_witness:
  "dynamic_lines example_api ''R1'' users_responsible_for users_add_subject = [''a'', ''a@dom'', []]"
proof -
  have r: "api_subjects example_api = Some [''a'', ''b'']" by (simp add: example_api_def)
  have sp: "py_split (CHR ''@'') ''a@dom'' = [''a'', ''dom'']" by code_simp
  from only_pool_admins_listed [OF r, of "''R1''"] show ?thesis
    using sp by (simp add: records_def example_api_def has_role_def says_group_def other_config_def user_lines_def)
qed

section \<open>The callbacks\<close>

lemma install_eq: "install path lines m etc = (Inr (), etc(path \<mapsto> (py_join [CHR 0x0A] lines, m)))"
  by (simp add: install_def modify_def)

lemma dynamic_install_eq:
  "dynamic_install path ad lines etc =
     (Inr (), etc(path := if ad then Some (py_join [CHR 0x0A] lines, default_mode) else None))"
  by (simp add: dynamic_install_def install_eq modify_def)

lemma hcp_files:
  "HCP_USERS \<noteq> HCP_GROUPS" "HCP_GROUPS \<noteq> HCP_USERS"
  "HCP_USERS \<noteq> ''/etc/nsswitch.conf''" "''/etc/nsswitch.conf'' \<noteq> HCP_USERS"
  "HCP_USERS \<noteq> ''/etc/ssh/sshd_config''" "''/etc/ssh/sshd_config'' \<noteq> HCP_USERS"
  "HCP_USERS \<noteq> ''/etc/pam.d/sshd''" "''/etc/pam.d/sshd'' \<noteq> HCP_USERS"
  "HCP_USERS \<noteq> ''/etc/security/pam_winbind.conf''" "''/etc/security/pam_winbind.conf'' \<noteq> HCP_USERS"
  "HCP_GROUPS \<noteq> ''/etc/nsswitch.conf''" "''/etc/nsswitch.conf'' \<noteq> HCP_GROUPS"
  "HCP_GROUPS \<noteq> ''/etc/ssh/sshd_config''" "''/etc/ssh/sshd_config'' \<noteq> HCP_GROUPS"
  "HCP_GROUPS \<noteq> ''/etc/pam.d/sshd''" "''/etc/pam.d/sshd'' \<noteq> HCP_GROUPS"
  "HCP_GROUPS \<noteq> ''/etc/security/pam_winbind.conf''" "''/etc/security/pam_winbind.conf'' \<noteq> HCP_GROUPS"
  by (simp_all add: HCP_USERS_def HCP_GROUPS_def)

text \<open>
  Enabling or disabling reports success if and only if the role of pool
  administrator was found and the reload of sshd did not fail. When it
  succeeds after disabling, the lists of users and groups are gone and the
  PAM configuration of sshd is the one without AD. When the role is not found
  no file has changed; when the reload fails, only the name service and sshd
  files have: the lists and the PAM configuration stay as they were, also
  when AD was to be disabled.
\<close>

theorem refresh_outcome:
  "(fst (refresh_all_configurations api reload ad_enabled etc) = ''True''
      \<longleftrightarrow> (\<exists>role. admin_role api = Inr role) \<and> reload \<noteq> Cmd_Failed)
    \<and> (fst (refresh_all_configurations api reload False etc) = ''True'' \<longrightarrow>
        snd (refresh_all_configurations api reload False etc) HCP_USERS = None
        \<and> snd (refresh_all_configurations api reload False etc) HCP_GROUPS = None
        \<and> snd (refresh_all_configurations api reload False etc) ''/etc/pam.d/sshd''
            = Some (py_join [CHR 0x0A] no_ad_pam, default_mode))
    \<and> ((\<nexists>role. admin_role api = Inr role) \<longrightarrow> snd (refresh_all_configurations api reload ad_enabled etc) = etc)
    \<and> (\<forall>f \<in> {HCP_USERS, HCP_GROUPS, ''/etc/pam.d/sshd'', ''/etc/security/pam_winbind.conf''}.
        snd (refresh_all_configurations api Cmd_Failed ad_enabled etc) f = etc f)"
proof -
  let ?R = "\<lambda>reload ad. refresh_all_configurations api reload ad etc"
  have none: "?R r ad = (''Failed to refresh all configurations'', etc)" if nr: "\<nexists>role. admin_role api = Inr role" for r ad
  proof -
    obtain e where "admin_role api = Inl e" using nr by (cases "admin_role api") auto
    then show ?thesis
      by (simp add: refresh_all_configurations_def guarded_def build_config_def bnd_def)
  qed
  have failed: "?R Cmd_Failed ad = (''Failed to refresh all configurations'',
      etc(''/etc/nsswitch.conf'' \<mapsto> (py_join [CHR 0x0A] (apply_to_cache (nss_config etc ad)), default_mode),
        ''/etc/ssh/sshd_config'' \<mapsto> (py_join [CHR 0x0A] (apply_to_cache (sshd_config etc ad)), default_mode)))"
    if "admin_role api = Inr role" for role ad
    using that by (simp add: refresh_all_configurations_def guarded_def build_config_def bnd_def refresh_all_def
        seq_def install_eq run_cmd_def throw_def)
  have ok: "\<exists>g. ?R r ad = (''True'', (g(HCP_USERS := if ad then Some (py_join [CHR 0x0A]
         (dynamic_lines api role users_responsible_for users_add_subject), default_mode) else None,
       HCP_GROUPS := if ad then Some (py_join [CHR 0x0A]
         (dynamic_lines api role groups_responsible_for groups_add_subject), default_mode) else None,
       ''/etc/pam.d/sshd'' := Some (py_join [CHR 0x0A] (static_pam_lines ad), default_mode),
       ''/etc/security/pam_winbind.conf'' := Some (py_join [CHR 0x0A] (apply_to_cache (pam_winbind_config etc)), default_mode))))"
    if "admin_role api = Inr role" "r \<noteq> Cmd_Failed" for role r ad
    using that by (simp add: refresh_all_configurations_def guarded_def build_config_def bnd_def refresh_all_def
        seq_def install_eq run_cmd_def ret_def apply_users_def apply_groups_def dynamic_install_eq) blast
  show ?thesis
  proof (cases "\<exists>role. admin_role api = Inr role")
    case False
    then show ?thesis by (simp add: none)
  next
    case True
    then obtain role where role: "admin_role api = Inr role" by blast
    have disabled: "snd (?R r False) HCP_USERS = None \<and> snd (?R r False) HCP_GROUPS = None
        \<and> snd (?R r False) ''/etc/pam.d/sshd'' = Some (py_join [CHR 0x0A] no_ad_pam, default_mode)"
      if nf: "r \<noteq> Cmd_Failed" for r
    proof -
      obtain g where g: "?R r False = (''True'', g(HCP_USERS := None, HCP_GROUPS := None,
        ''/etc/pam.d/sshd'' := Some (py_join [CHR 0x0A] no_ad_pam, default_mode),
        ''/etc/security/pam_winbind.conf'' := Some (py_join [CHR 0x0A] (apply_to_cache (pam_winbind_config etc)), default_mode)))"
        using ok [OF role nf, of False] unfolding static_pam_lines_def if_False by (elim exE) (rule that)
      show ?thesis unfolding g by (simp add: hcp_files)
    qed
    have success: "fst (?R r ad) = ''True'' \<longleftrightarrow> r \<noteq> Cmd_Failed" for r ad
      using ok [OF role, of r ad] failed [OF role, of ad] by (cases "r = Cmd_Failed") auto
    have "snd (?R Cmd_Failed ad_enabled) f = etc f"
      if "f \<in> {HCP_USERS, HCP_GROUPS, ''/etc/pam.d/sshd'', ''/etc/security/pam_winbind.conf''}" for f
      using that unfolding failed [OF role] by (elim insertE; simp add: hcp_files)
    with disabled success role show ?thesis by blast
  qed
qed

theorem refresh_outcome_witness:
  "fst (refresh_all_configurations example_api Cmd_Ok False Map.empty) = ''True''
   \<and> snd (refresh_all_configurations example_api Cmd_Ok False Map.empty) HCP_USERS = None"
proof -
  have "admin_role example_api = Inr ''R1''" by (simp add: admin_role_def example_api_def)
  with refresh_outcome [of example_api Cmd_Ok False Map.empty] show ?thesis by auto
qed

end
