(* ===== verification/Spec2Isabelle.thy ===== *)
theory Spec2Isabelle
  imports Perfmon_Runs Perfmon_Report Plugin_Dispatch Yum_Tokens Sr_Metadata_Proofs Metrics_Proofs Metrics_List Link_Vms Inventory Observer_Proofs Pytype_Proofs Rrdd_Properties Vif_Safety Vif_Flows Igmp_Proofs Igmp_Memo Usb_Reset_Proofs Nbd_Extents Qcow2_Properties Qcow2_Interval Usb_Proofs Usb_Policy Nbd_Manager_Ends Blkback_Datapath Xen_Session_Proofs Extauth_Proofs
begin

text \<open>
  \<^bold>\<open>The Python programs of xen-api.\<close>

  xen-api is the toolstack that manages Xen hosts. Its daemons are written in
  OCaml; around them stand Python programs that the daemons start, that run as
  host plugins, or that clients use. This development models those that carry
  logic of their own and proves what makes them correct. Paths below are
  relative to \<^verbatim>\<open>src/\<close>.

  \<^bold>\<open>The parts and how they interact.\<close>

  \<^item> Disk export and import. \<^verbatim>\<open>ocaml/vhd-tool/scripts/python_nbd_client.py\<close> is a client of the
    NBD protocol; \<^verbatim>\<open>get_nbd_extents.py\<close> beside it uses one client to find the
    allocated and zero ranges of an export. \<^verbatim>\<open>python3/libexec/nbd_client_manager.py\<close>
    attaches an export to a kernel device \<^verbatim>\<open>/dev/nbd<n>\<close> through the program
    \<^verbatim>\<open>nbd-client\<close>. \<^verbatim>\<open>python3/libexec/qcow2-to-stdout.py\<close> turns a raw image, whole, by the
    difference to a second image or by a bitmap, into a qcow2 stream.
  \<^item> Storage examples of the plugin interface, in \<^verbatim>\<open>ocaml/xapi-storage/python/examples\<close>:
    \<^verbatim>\<open>sr.py\<close> and \<^verbatim>\<open>volume.py\<close> keep volumes as pairs of files and hand out URIs, which
    \<^verbatim>\<open>datapath.py\<close> attaches with loop devices.
  \<^item> USB pass-through: \<^verbatim>\<open>python3/libexec/usb_scan.py\<close> lists the devices a policy file allows,
    \<^verbatim>\<open>usb_reset.py\<close> beside it gives one to the QEMU of a domain.
  \<^item> The API: \<^verbatim>\<open>python3/examples/XenAPI/XenAPI.py\<close> holds sessions to xapi;
    \<^verbatim>\<open>python3/plugins/extauth-hook-AD.py\<close> asks the API for the subjects of a pool and
    writes the configuration of sshd, PAM, NSS and winbind.
  \<^item> Statistics: \<^verbatim>\<open>ocaml/xcp-rrdd/scripts/rrdd/rrdd.py\<close>, with which plugins write the values that
    the statistics daemon reads from a shared file.
  \<^item> Networking, in \<^verbatim>\<open>ocaml/xenopsd/scripts\<close>: \<^verbatim>\<open>common.py\<close> reads what xenopsd has written about
    an interface, \<^verbatim>\<open>setup-vif-rules\<close> puts the interface on its bridge and filters it;
    \<^verbatim>\<open>igmp_query_injector.py\<close> makes guests report their multicast groups.
  \<^item> Tracing: \<^verbatim>\<open>python3/packages/observer.py\<close> runs another Python script with its functions
    traced; \<^verbatim>\<open>inventory.py\<close> beside it reads the inventory of the host.
  \<^item> Scripts around the API, in \<^verbatim>\<open>python3/libexec\<close>: \<^verbatim>\<open>metrics.py\<close> and \<^verbatim>\<open>metricsgraph.py\<close> print the
    metrics of a pool, \<^verbatim>\<open>link-vms-by-sr.py\<close> sorts the metadata of machines by storage,
    \<^verbatim>\<open>backup-sr-metadata.py\<close> and \<^verbatim>\<open>restore-sr-metadata.py\<close> keep the names of storage in a file.
  \<^item> Monitoring: \<^verbatim>\<open>python3/bin/perfmon\<close> reads the statistics of the host every few minutes and
    raises alarms through the API.
  \<^item> Host plugins: \<^verbatim>\<open>python3/examples/XenAPIPlugin.py\<close> answers the calls of xapi to a plugin;
    \<^verbatim>\<open>python3/poweron\<close> switches hosts on; \<^verbatim>\<open>scripts/yum-plugins\<close> gives the package manager the
    secrets with which it may download.
  \<^item> Development: \<^verbatim>\<open>pytype_reporter.py\<close> turns what the type checker prints into annotations
    and decides whether a change passes.

  \<^bold>\<open>Shared theories.\<close>

  \<^item> \<^theory_text>\<open>Prelude\<close>: byte strings, and the computations \<^typ>\<open>('s, 'e, 'a) st\<close> that stand for
    methods: a function from a state to an exception or a value, and the state
    after it, so that mutations before a raised exception are kept. \<^const>\<open>ret\<close>, \<^const>\<open>throw\<close>,
    \<^const>\<open>bnd\<close>, \<^const>\<open>seq\<close>, \<^const>\<open>catch\<close> and \<^const>\<open>with_block\<close> are return, raise, sequence, \<^verbatim>\<open>try\<close> and
    \<^verbatim>\<open>with\<close>. \<^const>\<open>keeps\<close> and \<^const>\<open>avoids\<close> (an invariant of the state, an exception that is
    never raised) have introduction rules in the collections \<open>keeps_intros\<close> and
    \<open>avoids_intros\<close>. The locale \<open>context_manager\<close> is the contract of \<^verbatim>\<open>with\<close>.
  \<^item> \<^theory_text>\<open>Codec\<close>: \<^verbatim>\<open>struct\<close> fields and UTF-8; the locale \<open>fixed_codec\<close> is interpreted for
    fields of 2, 4 and 8 bytes.
  \<^item> \<^theory_text>\<open>Py_Xml\<close>: the writer and the reader of \<^verbatim>\<open>xml.dom.minidom\<close>, as far as the programs meet
    them; what is written reads back, with ends of lines and tabs of attributes as blanks.
  \<^item> \<^theory_text>\<open>Py_Text\<close>, \<^theory_text>\<open>Py_Url\<close>, \<^theory_text>\<open>Py_Config\<close>: the string methods, \<^verbatim>\<open>int()\<close>, \<^verbatim>\<open>urllib.parse\<close>,
    \<^verbatim>\<open>os.path.join\<close>, \<^verbatim>\<open>configparser\<close> and dictionaries, as far as the programs use them. Text is ASCII, except for the
    export name of the NBD client, which is a list of code points.

  \<^bold>\<open>NBD client\<close> (\<^theory_text>\<open>Nbd_Base\<close>, \<^theory_text>\<open>Nbd_Client\<close>; proofs in \<^theory_text>\<open>Nbd_Proofs\<close>, \<^theory_text>\<open>Nbd_Properties\<close>). \<^typ>\<open>nbd_client\<close> is
  the record of the fields of \<^verbatim>\<open>PythonNbdClient\<close>; \<^typ>\<open>sock\<close> is what the peer sends, cut
  into the segments in which \<^verbatim>\<open>recv\<close> returns them and ended by a close or a time-out, and
  the bytes sent. Each method is a definition with its name. Shown: results do
  not depend on the segments; \<^verbatim>\<open>_recvall\<close> reads exactly \<open>n\<close> bytes or raises (its loop ends
  because each turn receives at least one byte); replies are accepted only with the
  right magic, handle and option; structured replies are decoded as they were
  encoded; the invariant of all clients reachable by calls, failed ones included;
  what \<^verbatim>\<open>write\<close> and \<^verbatim>\<open>close\<close> send; and two defects, the offset of error chunks that
  is never decoded and the length of names that are not ASCII. The TLS handshake
  is an argument.

  \<^bold>\<open>Extents tool\<close> (\<^theory_text>\<open>Nbd_Extents\<close>). \<^verbatim>\<open>_get_extents\<close> over the client; the locale
  \<open>block_status_source\<close> states what it needs of \<^verbatim>\<open>query_block_status\<close>, and its loop
  ends because each turn advances the offset. Extents that are returned cover the
  range exactly, whatever the server sends. A server is a function from requests to
  descriptors, \<open>answers_export\<close> says that it answers as the protocol says: then the
  extents are returned and give the status of every byte, and what the client
  sends is given byte for byte, with the range of each request.

  \<^bold>\<open>qcow2 writer\<close> (\<^theory_text>\<open>Qcow2\<close>; proofs in \<^theory_text>\<open>Qcow2_Alloc\<close>, \<^theory_text>\<open>Qcow2_Image\<close>, \<^theory_text>\<open>Qcow2_Properties\<close>,
  \<^theory_text>\<open>Qcow2_Interval\<close>). Files are byte lists. Division of floats is modelled by rounding to
  53 bits and is exact for the sizes the theorems admit. The bitmaps meet the locale
  \<open>index_set\<close>. An image that is written reads back through header, L1 and L2 tables
  as the input, where a reader of the format is defined independently; every
  cluster has refcount 1; a differential image over its original is the input;
  the loop that sizes the refcount tables settles; too large images are refused.
  \<^const>\<open>Q_Diverges\<close> stands for a loop that would not end: the refcount loop is a partial
  function shown to return for the admitted parameters, and the loop that writes the
  refcount table yields it exactly where it could not advance.

  \<^bold>\<open>NBD device manager\<close> (\<^theory_text>\<open>Nbd_Manager\<close>; proofs in \<^theory_text>\<open>Nbd_Manager_Proofs\<close>, \<^theory_text>\<open>Nbd_Manager_Ends\<close>).
  The state \<^typ>\<open>'k nbd_host\<close> has the lock, the files and the commands run; programs, clock
  and device nodes are the argument \<^typ>\<open>'k nbd_env\<close> over a machine state \<open>'k\<close>. A
  device that is returned was free, is connected and recorded; connections are
  made only under the lock, which is always released. The wait for a device is
  a loop with fuel \<^const>\<open>wait_fuel\<close> = 6002: ten minutes of sleeps of 0.1 s are 6000 rounds, and
  \<open>manager_ends\<close> shows it is never used up when sleeping takes its time. One
  call makes at most 30 attempts. Disconnecting twice is disconnecting once.

  \<^bold>\<open>USB scanner\<close> (\<^theory_text>\<open>Usb_Scan\<close>; proofs in \<^theory_text>\<open>Usb_Proofs\<close>, \<^theory_text>\<open>Usb_Policy\<close>). udev devices are their
  properties. The regular expression of the policy file is a hand-written matcher
  with the same language. The locale \<open>rule_evaluation\<close> gives first-match semantics once
  evaluating a rule cannot fail. A scan reports exactly the allowed devices;
  accepted rules are well formed and survive printing and parsing; a comment that
  is indented aborts the scan.

  \<^bold>\<open>File-based storage and data path\<close> (\<^theory_text>\<open>Simple_Volume\<close>, \<^theory_text>\<open>Simple_Volume_Proofs\<close>,
  \<^theory_text>\<open>Blkback_Datapath\<close>). The file system is an ordered association list that meets the
  locale \<open>file_store\<close>. Metadata and data files stay paired; created volumes are found
  and destroyed without a trace; an SR survives the round trip through its URI; resizing
  erases the content. What \<^verbatim>\<open>losetup\<close> lists is spelled out by \<open>losetup_list\<close>, apart from the code
  that reads it: with the URI of \<^verbatim>\<open>stat\<close> the data path takes the first device listed for the
  file or makes one, with the one of \<^verbatim>\<open>create\<close> it does not find the file; a path with a
  blank never finds its loop device again.

  \<^bold>\<open>API sessions\<close> (\<^theory_text>\<open>Xen_Session\<close>, \<^theory_text>\<open>Xen_Session_Proofs\<close>). The XML-RPC server is an argument. A
  request is tried three times at most, as in the code, with a login between tries;
  replaying its calls gives the answers of the server, of which the last one decides the
  result; handle, login and version stay consistent; logging out forgets them.

  \<^bold>\<open>External authentication\<close> (\<^theory_text>\<open>Extauth\<close>, \<^theory_text>\<open>Extauth_Proofs\<close>). Files are contents and modes; the API is
  an argument. Only pool administrators are listed; key-value files change only in
  the lines of their keys; when a callback succeeds and which files it leaves.

  \<^bold>\<open>Statistics plugins\<close> (\<^theory_text>\<open>Rrdd\<close>; proofs in \<^theory_text>\<open>Rrdd_Proofs\<close>, \<^theory_text>\<open>Rrdd_Properties\<close>; floats in
  \<^theory_text>\<open>Py_Float\<close>, JSON in \<^theory_text>\<open>Py_Json\<close>). The class \<^verbatim>\<open>API\<close> over the file it writes, with CRC-32 and IEEE
  doubles as 64-bit words. A reader written after the OCaml reader of the protocol,
  \<^verbatim>\<open>rrd_protocol_v2.ml\<close>, gets exactly the data sources and values of an update; a repeated
  name shifts the values; an integer that does not fit blocks all later updates.
  Waiting is a partial function, shown to return exactly when a round meets
  no \<^verbatim>\<open>OSError\<close>.

  \<^bold>\<open>Network filter\<close> (\<^theory_text>\<open>Vif_Common\<close>, \<^theory_text>\<open>Vif_Rules\<close>; proofs in \<^theory_text>\<open>Vif_Filter\<close>, \<^theory_text>\<open>Vif_Safety\<close>, \<^theory_text>\<open>Vif_Flows\<close>).
  Commands are run by an argument and recorded. For a Linux bridge, \<open>runs_ebtables\<close> says
  that the machine keeps a table that \<^verbatim>\<open>ebtables\<close> changes as documented, and \<open>acts\<close> relates a
  method to the function on tables it performs; for Open vSwitch, \<open>runs_ofctl\<close> says the
  same of a list of flows. A locked interface gets through what its configuration
  allows and nothing else, except to interfaces that were set up before it; other
  interfaces keep their rules on every path; clearing undoes filtering. Taking
  the lock is a partial function: nothing is claimed when the lock is never free.

  \<^bold>\<open>IGMP queries\<close> (\<^theory_text>\<open>Igmp\<close>; proofs in \<^theory_text>\<open>Igmp_Proofs\<close>, \<^theory_text>\<open>Igmp_Memo\<close>). The state has the watches, a trace of what
  was read, sent and run, and the caches. The thread is a loop that is given the number
  of turns the timeout lets it take; the theorems hold for every number, and for whole
  turns. \<open>may_deliver\<close> says that xenstore delivers events of watches that were registered at some time, also
  after they have been removed: a query comes at most once, and after both ends were seen
  connected unless the thread dies of it. With \<open>filters_events\<close>, which excludes late
  events, every connected interface gets its query; a late one may make one end enough.

  \<^bold>\<open>USB reset\<close> (\<^theory_text>\<open>Usb_Reset\<close>, \<^theory_text>\<open>Usb_Reset_Proofs\<close>). Paths are lists of components; the state is the files of
  the host and the mounts, newest first. \<open>fresh_domain\<close> is a domain without devices, on
  which an attachment is followed step by step: it gives the device its owner, and
  cleaning up takes it back; nothing is mounted twice under any commands; a copy
  whose owner could not be set is kept by the next attachment.

  \<^bold>\<open>Tracing observer\<close> (\<^theory_text>\<open>Observer\<close>, \<^theory_text>\<open>Observer_Proofs\<close>, with \<^theory_text>\<open>Py_Config\<close>). The tracing libraries
  and the script are arguments; \<open>silent\<close>, \<open>oblivious\<close> and \<open>good_libraries\<close> say that the
  libraries do not touch what the script sees. Under them a script does what it
  does alone and its exit code is kept; a traced call returns and raises what the
  callable does, unless its arguments cannot be printed. Configuration files read
  back, except that a repeated option raises. A file of spans is left once it
  holds 1 MiB.

  \<^bold>\<open>Metrics\<close> (\<^theory_text>\<open>Api_Script\<close>, \<^theory_text>\<open>Metrics_Graph\<close>, \<^theory_text>\<open>Metrics_List\<close>, \<^theory_text>\<open>Metrics_Proofs\<close>). \<open>Api_Script\<close> has the
  values of the API, calls to a server that is an argument, and lines of output. In a
  graph that is printed every edge joins two nodes that were printed, and every node but
  the hosts is the end of an edge.

  \<^bold>\<open>Machines by storage, inventory\<close> (\<^theory_text>\<open>Link_Vms\<close>, \<^theory_text>\<open>Inventory\<close>). Which links a run adds, given the
  records of the pool; assignments written to the inventory read back.

  \<^bold>\<open>Type check reporter\<close> (\<^theory_text>\<open>Pytype_Report\<close>, \<^theory_text>\<open>Pytype_Run\<close>, \<^theory_text>\<open>Pytype_Proofs\<close>). The output of the checker is
  a list of lines; git, the web server and the TOML library are arguments. Every
  error that is printed is reported and annotated at its line, but the last one is lost
  without a line after it; what the two runs decide is given for every outcome; a changed file that is
  expected to fail is rejected.

  \<^bold>\<open>Performance monitor\<close> (\<^theory_text>\<open>Perfmon_Variable\<close>, \<^theory_text>\<open>Perfmon_Rrd\<close>, \<^theory_text>\<open>Perfmon_Monitor\<close>, \<^theory_text>\<open>Perfmon_Daemon\<close>; proofs in
  \<^theory_text>\<open>Perfmon_Alarms\<close>, \<^theory_text>\<open>Perfmon_Report\<close>, \<^theory_text>\<open>Perfmon_Proofs\<close>, \<^theory_text>\<open>Perfmon_Runs\<close>). \<^typ>\<open>variable\<close> joins the classes
  \<^verbatim>\<open>VariableConfig\<close> and \<^verbatim>\<open>VariableState\<close>, \<^typ>\<open>monitor\<close> those of monitors, \<^typ>\<open>handler\<close> is the reader of reports over the
  events of an XML reader, \<^typ>\<open>'k daemon\<close> the variables of \<^verbatim>\<open>main\<close>. Times are integers that count units
  of 2 to the -22 seconds, and values are doubles. Alarms carry bad values only, are spaced by
  the inhibition period and come exactly when bad values in a row fill the period; a report
  is read as it was written however its texts are cut; variables follow the
  configuration and keep their state when it does not change, but an error in it leaves the old
  ones; in all runs no two fed variables of a monitor have one name, for which the places
  that hold monitors meet the locale \<open>monitor_place\<close>, and lost connections do not end the daemon.

  \<^bold>\<open>Names of storage\<close> (\<^theory_text>\<open>Sr_Metadata\<close>, \<^theory_text>\<open>Sr_Metadata_Proofs\<close>). Both scripts over the text of the file: what
  was backed up is restored, and a backup that fails empties the file that was there.

  \<^bold>\<open>Host plugins\<close> (\<^theory_text>\<open>Plugin_Dispatch\<close>, \<^theory_text>\<open>Power_On\<close>, \<^theory_text>\<open>Power_On_Proofs\<close>). Programs, sockets and time are arguments. The
  dispatcher answers every call it can read; wake-on-LAN sends its packet at most 60
  times, once per round, to the network of the management interface; IPMI runs one program
  and waits at most 120 rounds.

  \<^bold>\<open>Package manager tokens\<close> (\<^theory_text>\<open>Yum_Tokens\<close>). The three hooks over the repositories: the secret of the
  pool goes to repositories whose first URL begins with the address of the own host only,
  which another host's name can do as well.

  \<^bold>\<open>Not modelled.\<close> Logging, argument parsing and the text of messages, throughout.
  The other scripts run commands in a fixed order or call the API once
  and keep no state; the OCaml, C, Go and C# parts are outside the scope.
\<close>

end
